(* ===== verification/Prelude.thy ===== *)
theory Prelude
  imports Main "HOL-Library.Multiset"
begin

text \<open>
  Shared vocabulary of the development.  A fallible Go function \<open>func f(...) (T, error)\<close>
  is modelled as a function into \<open>'e + 'a\<close>: \<open>Inl\<close> carries the error that was
  returned, \<open>Inr\<close> the value.  The theory holds the combinator that sequences such
  results, the collections the component proofs draw on, and generic facts on lists
  and sorting that several components use.
\<close>

named_theorems model_defs \<open>unfolding equations of the small model definitions\<close>
named_theorems keeps_rules \<open>frame rules: which operation leaves which store alone\<close>

section \<open>Results\<close>

definition rbind :: "('e + 'a) \<Rightarrow> ('a \<Rightarrow> 'e + 'b) \<Rightarrow> 'e + 'b" where
  "rbind r f = (case r of Inl e \<Rightarrow> Inl e | Inr x \<Rightarrow> f x)"

definition is_ok :: "'e + 'a \<Rightarrow> bool" where
  "is_ok r = (case r of Inl _ \<Rightarrow> False | Inr _ \<Rightarrow> True)"

lemma rbind_simps [simp]:
  "rbind (Inl e) f = Inl e"
  "rbind (Inr x) f = f x"
  by (simp_all add: rbind_def)

lemma rbind_Inr_iff:
  "rbind r f = Inr y \<longleftrightarrow> (\<exists>x. r = Inr x \<and> f x = Inr y)"
  by (cases r) auto

lemma rbind_Inl_iff:
  "rbind r f = Inl e \<longleftrightarrow> r = Inl e \<or> (\<exists>x. r = Inr x \<and> f x = Inl e)"
  by (cases r) auto

lemma is_ok_simps [simp]:
  "is_ok (Inl e) = False"
  "is_ok (Inr x) = True"
  by (simp_all add: is_ok_def)

lemma is_ok_iff: "is_ok r \<longleftrightarrow> (\<exists>x. r = Inr x)"
  by (cases r) auto

text \<open>A loop that validates every element and stops at the first error.\<close>

fun rmap :: "('a \<Rightarrow> 'e + 'b) \<Rightarrow> 'a list \<Rightarrow> 'e + 'b list" where
  "rmap f [] = Inr []"
| "rmap f (x # xs) = rbind (f x) (\<lambda>y. rbind (rmap f xs) (\<lambda>ys. Inr (y # ys)))"

lemma rmap_Inr_iff:
  "rmap f xs = Inr ys \<longleftrightarrow> list_all2 (\<lambda>x y. f x = Inr y) xs ys"
  by (induction xs arbitrary: ys) (auto simp: rbind_Inr_iff list_all2_Cons1)

lemma rmap_map: "(\<And>x. x \<in> set xs \<Longrightarrow> f (g x) = Inr x) \<Longrightarrow> rmap f (map g xs) = Inr xs"
  by (induction xs) auto

section \<open>Sorting by a comparison\<close>

text \<open>
  \<open>sort.SliceStable\<close> and \<open>sort.Slice\<close> of the Go library, called with a comparison
  \<open>lt\<close>: a permutation in which no later element precedes an earlier one, and for
  the stable variant equal elements keep their order.  For a strict weak order the
  stable result is unique, and insertion computes it.
\<close>

fun insert_by :: "('a \<Rightarrow> 'a \<Rightarrow> bool) \<Rightarrow> 'a \<Rightarrow> 'a list \<Rightarrow> 'a list" where
  "insert_by lt x [] = [x]"
| "insert_by lt x (y # ys) = (if lt y x then y # insert_by lt x ys else x # y # ys)"

fun stable_sort :: "('a \<Rightarrow> 'a \<Rightarrow> bool) \<Rightarrow> 'a list \<Rightarrow> 'a list" where
  "stable_sort lt [] = []"
| "stable_sort lt (x # xs) = insert_by lt x (stable_sort lt xs)"

lemma mset_insert_by [simp]: "mset (insert_by lt x xs) = add_mset x (mset xs)"
  by (induction xs) auto

lemma mset_stable_sort [simp]: "mset (stable_sort lt xs) = mset xs"
  by (induction xs) auto

lemma set_insert_by [simp]: "set (insert_by lt x xs) = insert x (set xs)"
  by (induction xs) auto

lemma set_stable_sort [simp]: "set (stable_sort lt xs) = set xs"
  by (induction xs) auto

lemma length_stable_sort [simp]: "length (stable_sort lt xs) = length xs"
  by (metis mset_stable_sort size_mset)

lemma insert_by_cong:
  "(\<And>y. y \<in> set xs \<Longrightarrow> lt y x = lt' y x) \<Longrightarrow> insert_by lt x xs = insert_by lt' x xs"
  by (induction xs) auto

text \<open>Two comparisons that agree on the elements sort them alike.\<close>

lemma stable_sort_cong:
  "(\<And>x y. x \<in> set xs \<Longrightarrow> y \<in> set xs \<Longrightarrow> lt x y = lt' x y) \<Longrightarrow> stable_sort lt xs = stable_sort lt' xs"
  by (induction xs) (auto intro: insert_by_cong)

text \<open>
  The contract a comparison passed to the library's sort must meet: irreflexive and with
  a transitive complement, a strict weak order.  Everything the components need of a
  sorted list follows from it.
\<close>

locale strict_weak_order =
  fixes lt :: "'a \<Rightarrow> 'a \<Rightarrow> bool"
  assumes asym: "lt x y \<Longrightarrow> \<not> lt y x"
    and co_trans: "\<not> lt y x \<Longrightarrow> \<not> lt z y \<Longrightarrow> \<not> lt z x"
begin

lemma irrefl: "\<not> lt x x"
  using asym by blast

lemma trans: "lt x y \<Longrightarrow> lt y z \<Longrightarrow> lt x z"
  using asym co_trans by blast

lemma sorted_insert_by:
  "sorted_wrt (\<lambda>a b. \<not> lt b a) xs \<Longrightarrow> sorted_wrt (\<lambda>a b. \<not> lt b a) (insert_by lt x xs)"
proof (induction xs)
  case Nil
  then show ?case by simp
next
  case (Cons y ys)
  show ?case
  proof (cases "lt y x")
    case True
    with Cons show ?thesis by (auto dest: asym)
  next
    case False
    with Cons.prems show ?thesis using co_trans by fastforce
  qed
qed

lemma sorted_stable_sort: "sorted_wrt (\<lambda>a b. \<not> lt b a) (stable_sort lt xs)"
  by (induction xs) (simp_all add: sorted_insert_by)

lemma head_is_least:
  assumes "stable_sort lt xs = y # ys" and "z \<in> set xs"
  shows "\<not> lt z y"
proof -
  have "z \<in> set (y # ys)" using assms by (metis set_stable_sort)
  moreover have "sorted_wrt (\<lambda>a b. \<not> lt b a) (y # ys)"
    using sorted_stable_sort [of xs] assms(1) by simp
  ultimately show ?thesis using irrefl by auto
qed

end

text \<open>
  When unequal elements are always ordered the sorted list is the only one with those
  properties, so \<open>sort.Slice\<close>, which promises no stability, returns it too.
\<close>

locale strict_total_order = strict_weak_order +
  assumes total: "x \<noteq> y \<Longrightarrow> lt x y \<or> lt y x"
begin

lemma sorted_unique:
  assumes "sorted_wrt (\<lambda>a b. \<not> lt b a) xs" and "sorted_wrt (\<lambda>a b. \<not> lt b a) ys"
    and "mset xs = mset ys"
  shows "xs = ys"
  using assms
proof (induction xs arbitrary: ys)
  case Nil
  then show ?case by simp
next
  case (Cons x xs)
  then obtain y zs where ys: "ys = y # zs" by (cases ys) auto
  have "x \<in> set ys" "y \<in> set (x # xs)"
    using Cons.prems(3) ys by (metis list.set_intros(1) set_mset_mset)+
  then have "x = y" using Cons.prems(1,2) ys total by auto
  then show ?case using Cons ys by auto
qed

end

text \<open>Comparing by a key first and by a second comparison on ties.\<close>

lemma strict_total_order_lex:
  fixes f :: "'a \<Rightarrow> 'k :: linorder" and g :: "'a \<Rightarrow> 'l :: linorder"
  assumes "\<And>x y. lt x y \<longleftrightarrow> f x < f y \<or> (f x = f y \<and> g x < g y)"
    and "\<And>x y. f x = f y \<Longrightarrow> g x = g y \<Longrightarrow> x = y"
  shows "strict_total_order lt"
proof
  fix x y z
  show "lt x y \<Longrightarrow> \<not> lt y x" using assms(1) by auto
  show "\<not> lt y x \<Longrightarrow> \<not> lt z y \<Longrightarrow> \<not> lt z x" using assms(1) by (auto simp: not_less)
  show "x \<noteq> y \<Longrightarrow> lt x y \<or> lt y x" using assms by (metis linorder_neqE)
qed

lemma strict_weak_order_lex:
  fixes f :: "'a \<Rightarrow> 'k :: linorder" and g :: "'a \<Rightarrow> 'l :: linorder"
  assumes "\<And>x y. lt x y \<longleftrightarrow> f x < f y \<or> (f x = f y \<and> g x < g y)"
  shows "strict_weak_order lt"
  by unfold_locales (auto simp: assms not_less)

section \<open>Lists and options\<close>

lemma find_Some_iff_index:
  "find P xs = Some x \<longleftrightarrow> (\<exists>ys zs. xs = ys @ x # zs \<and> P x \<and> (\<forall>y\<in>set ys. \<not> P y))"
proof (induction xs)
  case Nil
  then show ?case by simp
next
  case (Cons a xs)
  show ?case
    by (auto simp: Cons Cons_eq_append_conv) (metis append_Cons set_ConsD)+
qed

lemma find_Some_mem: "find P xs = Some x \<Longrightarrow> x \<in> set xs \<and> P x"
  by (auto simp: find_Some_iff)

lemma sum_list_bound:
  fixes f :: "'a \<Rightarrow> int"
  assumes "\<And>x. x \<in> set xs \<Longrightarrow> 0 \<le> f x \<and> f x \<le> b"
  shows "0 \<le> (\<Sum>x\<leftarrow>xs. f x) \<and> (\<Sum>x\<leftarrow>xs. f x) \<le> int (length xs) * b"
  using assms
proof (induction xs)
  case Nil
  then show ?case by simp
next
  case (Cons x xs)
  then have "0 \<le> (\<Sum>x\<leftarrow>xs. f x) \<and> (\<Sum>x\<leftarrow>xs. f x) \<le> int (length xs) * b" by simp
  moreover have "0 \<le> f x \<and> f x \<le> b" using Cons.prems by simp
  ultimately show ?case by (simp add: distrib_right)
qed

end
