(* ===== verification/GoInt.thy ===== *)
theory GoInt
  imports Prelude
begin

text \<open>
  Go's \<open>int64\<close> (and \<open>int\<close>, 64 bits wide on every platform the backend is built for).  A
  value is an \<open>int\<close>; every operation that can leave the range wraps around in two's
  complement, written out by \<open>wrap64\<close>.  Division truncates towards zero.
\<close>

section \<open>Wrap-around\<close>

type_synonym int64 = int

definition fits64 :: "int \<Rightarrow> bool" where
  "fits64 x \<longleftrightarrow> - (2 ^ 63) \<le> x \<and> x < 2 ^ 63"

definition wrap64 :: "int \<Rightarrow> int64" where
  "wrap64 x = (x + 2 ^ 63) mod 2 ^ 64 - 2 ^ 63"

definition add64 :: "int64 \<Rightarrow> int64 \<Rightarrow> int64" where
  "add64 x y = wrap64 (x + y)"

definition sub64 :: "int64 \<Rightarrow> int64 \<Rightarrow> int64" where
  "sub64 x y = wrap64 (x - y)"

definition mul64 :: "int64 \<Rightarrow> int64 \<Rightarrow> int64" where
  "mul64 x y = wrap64 (x * y)"

definition neg64 :: "int64 \<Rightarrow> int64" where
  "neg64 x = wrap64 (- x)"

lemma wrap64_fits [simp]: "fits64 (wrap64 x)"
proof -
  have "0 \<le> (x + 2 ^ 63) mod 2 ^ 64" and "(x + 2 ^ 63) mod 2 ^ 64 < 2 ^ 64" by simp_all
  then show ?thesis by (simp add: fits64_def wrap64_def)
qed

lemma wrap64_id [simp]: "fits64 x \<Longrightarrow> wrap64 x = x"
proof -
  assume "fits64 x"
  then have "0 \<le> x + 2 ^ 63" and "x + 2 ^ 63 < 2 ^ 64" by (simp_all add: fits64_def)
  then show ?thesis by (simp add: wrap64_def)
qed

lemma wrap64_eq_iff: "wrap64 x = x \<longleftrightarrow> fits64 x"
  using wrap64_fits [of x] by (metis wrap64_id)

lemma wrap64_cong: "wrap64 x mod 2 ^ 64 = x mod 2 ^ 64"
  by (simp add: wrap64_def mod_simps)

lemma wrap64_add_left [simp]: "wrap64 (wrap64 x + y) = wrap64 (x + y)"
proof -
  have "(wrap64 x + y + 2 ^ 63) mod 2 ^ 64 = (x + y + 2 ^ 63) mod 2 ^ 64"
    using wrap64_cong [of x] by (metis add.assoc mod_add_left_eq)
  then show ?thesis unfolding wrap64_def [of "wrap64 x + y"] wrap64_def [of "x + y"] by simp
qed

lemma wrap64_add_right [simp]: "wrap64 (x + wrap64 y) = wrap64 (x + y)"
  using wrap64_add_left [of y x] by (simp add: add.commute)

lemmas int64_defs = add64_def sub64_def mul64_def neg64_def

lemma fits64_small: "- 1000000000000000000 \<le> x \<Longrightarrow> x \<le> 1000000000000000000 \<Longrightarrow> fits64 x"
  by (simp add: fits64_def)

lemma fits64_between: "fits64 a \<Longrightarrow> fits64 b \<Longrightarrow> a \<le> x \<Longrightarrow> x \<le> b \<Longrightarrow> fits64 x"
  by (simp add: fits64_def)

text \<open>A loop \<open>for _, x := range xs { total += f(x) }\<close>, wrapping at every step.\<close>

definition sum64 :: "int64 list \<Rightarrow> int64" where
  "sum64 xs = foldl add64 0 xs"

lemma foldl_add64: "foldl add64 (wrap64 a) xs = wrap64 (a + sum_list xs)"
proof (induction xs arbitrary: a)
  case Nil
  then show ?case by simp
next
  case (Cons x xs)
  have "add64 (wrap64 a) x = wrap64 (a + x)" by (simp add: add64_def)
  then show ?case by (simp add: Cons add.assoc)
qed

lemma sum64_eq: "sum64 xs = wrap64 (sum_list xs)"
proof -
  have "sum64 xs = foldl add64 (wrap64 0) xs" by (simp add: sum64_def fits64_def)
  then show ?thesis by (simp only: foldl_add64) simp
qed

lemma sum64_exact: "fits64 (sum_list xs) \<Longrightarrow> sum64 xs = sum_list xs"
  by (simp add: sum64_eq)

section \<open>Truncating division\<close>

definition quot64 :: "int64 \<Rightarrow> int64 \<Rightarrow> int64" where
  "quot64 a b = sgn a * sgn b * (\<bar>a\<bar> div \<bar>b\<bar>)"

definition rem64 :: "int64 \<Rightarrow> int64 \<Rightarrow> int64" where
  "rem64 a b = a - b * quot64 a b"

lemma quot64_nonneg: "0 \<le> a \<Longrightarrow> 0 < b \<Longrightarrow> quot64 a b = a div b"
  by (cases "a = 0") (simp_all add: quot64_def)

lemma rem64_nonneg: "0 \<le> a \<Longrightarrow> 0 < b \<Longrightarrow> rem64 a b = a mod b"
  by (simp add: rem64_def quot64_nonneg minus_mult_div_eq_mod)

end
