(* ===== verification/GoStrings.thy ===== *)
theory GoStrings
  imports GoInt "HOL-Library.List_Lexorder" "HOL-Library.Char_ord" "HOL-Library.Sublist"
begin

text \<open>
  Go strings are byte sequences: a \<open>string\<close> here is a list of 8-bit \<open>char\<close>s, \<open>length\<close> is
  \<open>len\<close>, and \<open><\<close> is the byte-wise lexicographic order of Go.  The theory models what the
  backend uses of \<open>strings\<close>, \<open>strconv\<close> and \<open>unicode/utf8\<close>.  Case mapping is modelled on
  ASCII letters; every other byte maps to itself.
\<close>

section \<open>Characters\<close>

definition is_digit :: "char \<Rightarrow> bool" where
  "is_digit c \<longleftrightarrow> 48 \<le> (of_char c :: nat) \<and> (of_char c :: nat) \<le> 57"

definition digit_val :: "char \<Rightarrow> nat" where
  "digit_val c = of_char c - 48"

definition digit_char :: "nat \<Rightarrow> char" where
  "digit_char d = char_of (48 + d)"

lemma digit_char_props:
  assumes "d < 10"
  shows "is_digit (digit_char d)" and "digit_val (digit_char d) = d"
  using assms by (simp_all add: is_digit_def digit_char_def digit_val_def)

lemma digit_val_bound: "is_digit c \<Longrightarrow> digit_val c < 10"
  unfolding is_digit_def digit_val_def by linarith

definition lower_char :: "char \<Rightarrow> char" where
  "lower_char c = (let n = of_char c :: nat in if 65 \<le> n \<and> n \<le> 90 then char_of (n + 32) else c)"

definition upper_char :: "char \<Rightarrow> char" where
  "upper_char c = (let n = of_char c :: nat in if 97 \<le> n \<and> n \<le> 122 then char_of (n - 32) else c)"

definition to_lower :: "string \<Rightarrow> string" where
  "to_lower s = map lower_char s"

definition to_upper :: "string \<Rightarrow> string" where
  "to_upper s = map upper_char s"

lemma lower_char_idem [simp]: "lower_char (lower_char c) = lower_char c"
proof (cases "65 \<le> (of_char c :: nat) \<and> (of_char c :: nat) \<le> 90")
  case True
  then have "of_char (char_of (of_char c + 32 :: nat) :: char) = (of_char c + 32 :: nat)" by simp
  then show ?thesis using True by (simp add: lower_char_def Let_def)
next
  case False
  then show ?thesis by (auto simp: lower_char_def Let_def)
qed

lemma to_lower_idem [simp]: "to_lower (to_lower s) = to_lower s"
  by (simp add: to_lower_def)

lemma length_to_lower [simp]: "length (to_lower s) = length s"
  by (simp add: to_lower_def)

section \<open>White space\<close>

text \<open>The number of bytes of the white-space rune at the front of a string, 0 when there is none.\<close>

fun space_len :: "nat list \<Rightarrow> nat" where
  "space_len (a # bs) =
     (if a = 32 \<or> (9 \<le> a \<and> a \<le> 13) then 1
      else case bs of
        b # cs \<Rightarrow>
          (if a = 194 \<and> (b = 133 \<or> b = 160) then 2
           else case cs of
             c # _ \<Rightarrow>
               (if (a = 225 \<and> b = 154 \<and> c = 128)
                  \<or> (a = 226 \<and> b = 128 \<and> (128 \<le> c \<and> c \<le> 138 \<or> c = 168 \<or> c = 169 \<or> c = 175))
                  \<or> (a = 226 \<and> b = 129 \<and> c = 159) \<or> (a = 227 \<and> b = 128 \<and> c = 128) then 3 else 0)
           | [] \<Rightarrow> 0)
      | [] \<Rightarrow> 0)"
| "space_len [] = 0"

definition spaces_at :: "string \<Rightarrow> nat" where
  "spaces_at s = space_len (map of_char (take 3 s))"

lemma space_len_le: "space_len bs \<le> length bs"
  by (cases bs rule: space_len.cases) (auto split: list.splits)

lemma spaces_at_le: "spaces_at s \<le> length s"
  using space_len_le [of "map of_char (take 3 s)"] by (simp add: spaces_at_def)

lemma spaces_at_Nil [simp]: "spaces_at [] = 0"
  by (simp add: spaces_at_def)

function trim_left :: "string \<Rightarrow> string" where
  "trim_left s = (if spaces_at s = 0 then s else trim_left (drop (spaces_at s) s))"
  by pat_completeness auto
termination
proof (relation "measure length")
  fix s :: string
  assume "spaces_at s \<noteq> 0"
  then show "(drop (spaces_at s) s, s) \<in> measure length"
    using spaces_at_le [of s] by (cases s) auto
qed simp

declare trim_left.simps [simp del]

text \<open>The white-space rune at the end: the one of its encodings that is a suffix.\<close>

definition spaces_at_end :: "string \<Rightarrow> nat" where
  "spaces_at_end s =
     (if s \<noteq> [] \<and> spaces_at [last s] = 1 then 1
      else if 2 \<le> length s \<and> spaces_at (drop (length s - 2) s) = 2 then 2
      else if 3 \<le> length s \<and> spaces_at (drop (length s - 3) s) = 3 then 3 else 0)"

function trim_right :: "string \<Rightarrow> string" where
  "trim_right s = (if spaces_at_end s = 0 then s
                   else trim_right (take (length s - spaces_at_end s) s))"
  by pat_completeness auto
termination
  by (relation "measure length") (auto simp: spaces_at_end_def split: if_splits)

declare trim_right.simps [simp del]

definition trim_space :: "string \<Rightarrow> string" where
  "trim_space s = trim_right (trim_left s)"

lemma trim_left_Nil [simp]: "trim_left [] = []"
  by (simp add: trim_left.simps)

lemma trim_right_Nil [simp]: "trim_right [] = []"
  by (simp add: trim_right.simps spaces_at_end_def)

lemma trim_space_Nil [simp]: "trim_space [] = []"
  by (simp add: trim_space_def)

lemma trim_left_suffix: "suffix (trim_left s) s"
proof (induction s rule: trim_left.induct)
  case (1 s)
  show ?case
  proof (cases "spaces_at s = 0")
    case True
    then show ?thesis by (simp add: trim_left.simps [of s])
  next
    case False
    then have "suffix (trim_left (drop (spaces_at s) s)) (drop (spaces_at s) s)" by (rule 1)
    then have "suffix (trim_left (drop (spaces_at s) s)) s"
      using suffix_drop suffix_order.trans by blast
    then show ?thesis using False by (simp add: trim_left.simps [of s])
  qed
qed

lemma trim_right_prefix: "prefix (trim_right s) s"
proof (induction s rule: trim_right.induct)
  case (1 s)
  show ?case
  proof (cases "spaces_at_end s = 0")
    case True
    then show ?thesis by (simp add: trim_right.simps [of s])
  next
    case False
    then have "prefix (trim_right (take (length s - spaces_at_end s) s)) (take (length s - spaces_at_end s) s)"
      by (rule 1)
    then have "prefix (trim_right (take (length s - spaces_at_end s) s)) s"
      using take_is_prefix prefix_order.trans by blast
    then show ?thesis using False by (simp add: trim_right.simps [of s])
  qed
qed

lemma length_trim_space: "length (trim_space s) \<le> length s"
  unfolding trim_space_def
  by (meson trim_right_prefix trim_left_suffix prefix_length_le suffix_length_le order_trans)

lemma trim_right_stable: "spaces_at_end (trim_right s) = 0"
proof (induction s rule: trim_right.induct)
  case (1 s)
  then show ?case by (cases "spaces_at_end s = 0") (simp_all add: trim_right.simps [of s])
qed

lemma trim_left_stable: "spaces_at (trim_left s) = 0"
proof (induction s rule: trim_left.induct)
  case (1 s)
  then show ?case by (cases "spaces_at s = 0") (simp_all add: trim_left.simps [of s])
qed

section \<open>Searching and splitting\<close>

definition has_prefix :: "string \<Rightarrow> string \<Rightarrow> bool" where
  "has_prefix s p = prefix p s"

definition has_suffix :: "string \<Rightarrow> string \<Rightarrow> bool" where
  "has_suffix s p = suffix p s"

fun contains :: "string \<Rightarrow> string \<Rightarrow> bool" where
  "contains [] p = (p = [])"
| "contains (c # s) p = (prefix p (c # s) \<or> contains s p)"

lemma contains_iff: "contains s p \<longleftrightarrow> sublist p s"
  by (induction s) (auto simp: sublist_Cons_right)

text \<open>\<open>strings.IndexByte\<close>; \<open>None\<close> stands for -1.\<close>

fun index_byte :: "string \<Rightarrow> char \<Rightarrow> nat option" where
  "index_byte [] c = None"
| "index_byte (a # s) c = (if a = c then Some 0 else map_option Suc (index_byte s c))"

lemma index_byte_Some:
  "index_byte s c = Some i \<Longrightarrow> i < length s \<and> s ! i = c \<and> c \<notin> set (take i s)"
  by (induction s arbitrary: i) (auto split: if_splits)

lemma index_byte_None: "index_byte s c = None \<longleftrightarrow> c \<notin> set s"
  by (induction s) auto

text \<open>\<open>strings.LastIndex\<close> of one byte, giving the text after it.\<close>

definition after_last :: "char \<Rightarrow> string \<Rightarrow> string" where
  "after_last c s = rev (takeWhile (\<lambda>x. x \<noteq> c) (rev s))"

lemma after_last_no: "c \<notin> set t \<Longrightarrow> after_last c (s @ c # t) = t"
  by (simp add: after_last_def) (subst takeWhile_append2, auto)

lemma after_last_id: "c \<notin> set t \<Longrightarrow> after_last c t = t"
proof -
  assume "c \<notin> set t"
  then have "takeWhile (\<lambda>x. x \<noteq> c) (rev t) = rev t" by (auto simp: takeWhile_eq_all_conv)
  then show ?thesis by (simp only: after_last_def rev_rev_ident)
qed

text \<open>\<open>strings.Split\<close> on a one-byte separator, and \<open>strings.Cut\<close>.\<close>

fun split_on :: "char \<Rightarrow> string \<Rightarrow> string list" where
  "split_on sep [] = [[]]"
| "split_on sep (c # s) = (if c = sep then [] # split_on sep s
     else case split_on sep s of [] \<Rightarrow> [[c]] | w # ws \<Rightarrow> (c # w) # ws)"

lemma split_on_no: "sep \<notin> set s \<Longrightarrow> split_on sep s = [s]"
  by (induction s) auto

lemma split_on_pair:
  "sep \<notin> set s \<Longrightarrow> sep \<notin> set t \<Longrightarrow> split_on sep (s @ sep # t) = [s, t]"
  by (induction s) (auto simp: split_on_no)

fun cut_on :: "char \<Rightarrow> string \<Rightarrow> (string \<times> string) option" where
  "cut_on sep [] = None"
| "cut_on sep (c # s) = (if c = sep then Some ([], s)
     else map_option (\<lambda>(a, b). (c # a, b)) (cut_on sep s))"

lemma cut_on_append: "sep \<notin> set s \<Longrightarrow> cut_on sep (s @ sep # t) = Some (s, t)"
  by (induction s) auto

text \<open>\<open>strings.Fields\<close>: the maximal runs between white space.\<close>

function fields_of :: "string \<Rightarrow> string \<Rightarrow> string list" where
  "fields_of acc s = (case s of
     [] \<Rightarrow> (if acc = [] then [] else [acc])
   | c # cs \<Rightarrow>
       (if spaces_at s = 0 then fields_of (acc @ [c]) cs
        else (if acc = [] then [] else [acc]) @ fields_of [] (drop (spaces_at s) s)))"
  by pat_completeness auto
termination
proof (relation "measure (\<lambda>(acc, s). length s)")
  fix acc s :: string and c cs
  assume "s = c # cs" "spaces_at s \<noteq> 0"
  then show "(([], drop (spaces_at s) s), (acc, s)) \<in> measure (\<lambda>(acc, s). length s)"
    using spaces_at_le [of s] by auto
qed auto

declare fields_of.simps [simp del]

definition fields :: "string \<Rightarrow> string list" where
  "fields s = fields_of [] s"

section \<open>Runes\<close>

text \<open>
  The width of the rune at the front, as \<open>utf8.DecodeRuneInString\<close>: an ill-formed
  sequence is one byte wide.
\<close>

definition cont_byte :: "nat \<Rightarrow> bool" where
  "cont_byte b \<longleftrightarrow> 128 \<le> b \<and> b \<le> 191"

fun rune_width :: "nat list \<Rightarrow> nat" where
  "rune_width [] = 0"
| "rune_width (a # bs) =
    (if 194 \<le> a \<and> a \<le> 223 \<and> (\<exists>b \<in> set (take 1 bs). cont_byte b) then 2
     else if 224 \<le> a \<and> a \<le> 239 then
       (case bs of b # c # _ \<Rightarrow>
          (if (if a = 224 then 160 \<le> b \<and> b \<le> 191 else if a = 237 then 128 \<le> b \<and> b \<le> 159 else cont_byte b)
              \<and> cont_byte c then 3 else 1)
        | _ \<Rightarrow> 1)
     else if 240 \<le> a \<and> a \<le> 244 then
       (case bs of b # c # d # _ \<Rightarrow>
          (if (if a = 240 then 144 \<le> b \<and> b \<le> 191 else if a = 244 then 128 \<le> b \<and> b \<le> 143 else cont_byte b)
              \<and> cont_byte c \<and> cont_byte d then 4 else 1)
        | _ \<Rightarrow> 1)
     else 1)"

lemma rune_width_pos: "bs \<noteq> [] \<Longrightarrow> 0 < rune_width bs"
  by (cases bs) (auto split: list.splits)

function rune_count :: "string \<Rightarrow> nat" where
  "rune_count s = (if s = [] then 0 else Suc (rune_count (drop (rune_width (map of_char (take 4 s))) s)))"
  by pat_completeness auto
termination
proof (relation "measure length")
  fix s :: string
  assume "s \<noteq> []"
  then show "(drop (rune_width (map of_char (take 4 s))) s, s) \<in> measure length"
    using rune_width_pos [of "map of_char (take 4 s)"] by (cases s) auto
qed simp

declare rune_count.simps [simp del]

lemma rune_count_le: "rune_count s \<le> length s"
proof (induction s rule: rune_count.induct)
  case (1 s)
  show ?case
  proof (cases "s = []")
    case True
    then show ?thesis by (simp add: rune_count.simps)
  next
    case False
    define w where "w = rune_width (map of_char (take 4 s))"
    have "0 < w" unfolding w_def using False by (intro rune_width_pos) auto
    moreover have "rune_count (drop w s) \<le> length s - w"
      using 1 [OF False] by (simp add: w_def)
    moreover have "rune_count s = Suc (rune_count (drop w s))"
      unfolding w_def using False by (subst rune_count.simps) simp
    moreover have "0 < length s" using False by simp
    ultimately show ?thesis by linarith
  qed
qed

section \<open>Decimal numbers\<close>

fun nat_digits :: "nat \<Rightarrow> string" where
  "nat_digits n = (if n < 10 then [digit_char n] else nat_digits (n div 10) @ [digit_char (n mod 10)])"

declare nat_digits.simps [simp del]

definition itoa :: "int \<Rightarrow> string" where
  "itoa n = (if n < 0 then CHR ''-'' # nat_digits (nat (- n)) else nat_digits (nat n))"

definition digits_val :: "string \<Rightarrow> nat" where
  "digits_val s = foldl (\<lambda>n c. n * 10 + digit_val c) 0 s"

text \<open>\<open>strconv.Atoi\<close> and \<open>ParseInt(s, 10, 64)\<close>: an optional sign, digits only, in range.\<close>

definition atoi :: "string \<Rightarrow> int option" where
  "atoi s =
     (let (neg, body) = (case s of c # cs \<Rightarrow> if c = CHR ''-'' then (True, cs)
                                              else if c = CHR ''+'' then (False, cs) else (False, s)
                         | [] \<Rightarrow> (False, []))
      in if body = [] \<or> \<not> list_all is_digit body then None
         else let n = (if neg then - int (digits_val body) else int (digits_val body))
              in if fits64 n then Some n else None)"

lemma nat_digits_props:
  "nat_digits n \<noteq> [] \<and> list_all is_digit (nat_digits n) \<and> digits_val (nat_digits n) = n"
proof (induction n rule: nat_digits.induct)
  case (1 n)
  show ?case
  proof (cases "n < 10")
    case True
    then show ?thesis by (simp add: nat_digits.simps [of n] digits_val_def digit_char_props)
  next
    case False
    then have "nat_digits (n div 10) \<noteq> []" "list_all is_digit (nat_digits (n div 10))"
      "digits_val (nat_digits (n div 10)) = n div 10" using 1 by auto
    moreover have "digits_val (xs @ [c]) = digits_val xs * 10 + digit_val c" for xs c
      by (simp add: digits_val_def)
    ultimately show ?thesis
      using False by (simp add: nat_digits.simps [of n] digit_char_props)
  qed
qed

lemma nat_digits_digit: "c \<in> set (nat_digits n) \<Longrightarrow> is_digit c"
  using nat_digits_props [of n] by (auto simp: list_all_iff)

lemma not_digit_simps [simp]:
  "\<not> is_digit CHR ''-''" "\<not> is_digit CHR ''+''" "\<not> is_digit CHR '':''" "\<not> is_digit CHR '',''"
  "\<not> is_digit CHR ''.''"
  by (simp_all add: is_digit_def)

theorem atoi_itoa: "fits64 n \<Longrightarrow> atoi (itoa n) = Some n"
proof (cases "n < 0")
  case True
  assume "fits64 n"
  then show ?thesis
    using True nat_digits_props [of "nat (- n)"] by (simp add: itoa_def atoi_def)
next
  case False
  assume n: "fits64 n"
  obtain c cs where cs: "nat_digits (nat n) = c # cs"
    using nat_digits_props [of "nat n"] by (cases "nat_digits (nat n)") auto
  then have "is_digit c" by (metis list.set_intros(1) nat_digits_digit)
  then have "c \<noteq> CHR ''-''" "c \<noteq> CHR ''+''" by auto
  then show ?thesis
    using False n cs nat_digits_props [of "nat n"] by (simp add: itoa_def atoi_def)
qed

end
