(* ===== verification/Float64.thy ===== *)
theory Float64
  imports Complex_Main GoInt
begin

text \<open>
  Go's \<open>float64\<close>: IEEE 754 binary64 with round-to-nearest, ties to even, subnormals and
  overflow to infinity.  A finite value is the rational it denotes, so every operation is
  the exact rational operation followed by \<open>fl\<close>.  The sign of zero is not
  represented: no operation of the modelled code observes it.
\<close>

section \<open>Binary exponents\<close>

fun bitlen :: "nat \<Rightarrow> nat" where
  "bitlen n = (if n = 0 then 0 else Suc (bitlen (n div 2)))"

declare bitlen.simps [simp del]

lemma bitlen_0 [simp]: "bitlen 0 = 0"
  by (simp add: bitlen.simps)

lemma bitlen_bounds: "0 < n \<Longrightarrow> 0 < bitlen n \<and> 2 ^ (bitlen n - 1) \<le> n \<and> n < 2 ^ bitlen n"
proof (induction n rule: bitlen.induct)
  case (1 n)
  show ?case
  proof (cases "n = 1")
    case True
    then show ?thesis by (simp add: bitlen.simps)
  next
    case False
    with "1.prems" have "0 < n div 2" by auto
    with 1 have IH: "0 < bitlen (n div 2)" "2 ^ (bitlen (n div 2) - 1) \<le> n div 2"
      "n div 2 < 2 ^ bitlen (n div 2)" by auto
    have b: "bitlen n = Suc (bitlen (n div 2))" using "1.prems" by (simp add: bitlen.simps [of n])
    obtain k where k: "bitlen (n div 2) = Suc k" using IH(1) by (cases "bitlen (n div 2)") auto
    show ?thesis using IH(2,3) b k by auto
  qed
qed

definition ilog2 :: "rat \<Rightarrow> int" where
  "ilog2 x = (let (a, b) = quotient_of x; e = int (bitlen (nat a)) - int (bitlen (nat b))
              in if 2 powi e \<le> x then e else e - 1)"

text \<open>The same on integers, for evaluation.\<close>

function bitlen_int :: "int \<Rightarrow> nat" where
  "bitlen_int n = (if n \<le> 0 then 0 else Suc (bitlen_int (n div 2)))"
  by auto
termination by (relation "measure nat") auto

declare bitlen_int.simps [simp del]

lemma bitlen_int: "bitlen (nat n) = bitlen_int n"
proof (induction n rule: bitlen_int.induct)
  case (1 n)
  then show ?case
    by (cases "n \<le> 0") (simp_all add: bitlen_int.simps [of n] bitlen.simps [of "nat n"] nat_div_distrib)
qed

lemma ilog2_code [code]:
  "ilog2 x = (let (a, b) = quotient_of x; e = int (bitlen_int a) - int (bitlen_int b)
              in if 2 powi e \<le> x then e else e - 1)"
  by (simp add: ilog2_def bitlen_int)

lemma powi_2_pos [simp]: "0 < (2 :: rat) powi e"
  by (rule zero_less_power_int) simp

lemma powi_2_mono: "d \<le> e \<Longrightarrow> (2 :: rat) powi d \<le> 2 powi e"
  by (rule power_int_increasing) auto

lemma powi_2_less: "(2 :: rat) powi d < 2 powi e \<Longrightarrow> d < e"
  using powi_2_mono [of e d] by (rule_tac ccontr) simp

lemma powi_2_nat: "0 \<le> e \<Longrightarrow> (2 :: rat) powi e = of_int (2 ^ nat e)"
  by (simp add: power_int_def)

lemma ilog2_bounds:
  assumes "0 < x"
  shows "2 powi ilog2 x \<le> x \<and> x < 2 powi (ilog2 x + 1)"
proof -
  obtain a b where q: "quotient_of x = (a, b)" by fastforce
  have b: "0 < b" using q by (rule quotient_of_denom_pos)
  have x: "x = of_int a / of_int b" using q by (rule quotient_of_div)
  have a: "0 < a" using assms b x by (simp add: zero_less_divide_iff)
  define la lb where "la = bitlen (nat a)" and "lb = bitlen (nat b)"
  have bits: "rat_of_int n < 2 ^ bitlen (nat n) \<and> 2 ^ bitlen (nat n) \<le> 2 * rat_of_int n"
    if "0 < n" for n
  proof -
    have n: "0 < bitlen (nat n)" "2 ^ (bitlen (nat n) - 1) \<le> nat n" "nat n < 2 ^ bitlen (nat n)"
      using bitlen_bounds [of "nat n"] that by auto
    have "2 ^ bitlen (nat n) = 2 * (2 :: nat) ^ (bitlen (nat n) - 1)"
      using n(1) by (metis power_eq_if less_numeral_extra(3))
    then have "(2 :: nat) ^ bitlen (nat n) \<le> 2 * nat n" using n(2) by simp
    then have "rat_of_nat (2 ^ bitlen (nat n)) \<le> rat_of_nat (2 * nat n)"
      by (simp only: of_nat_le_iff)
    moreover have "rat_of_nat (nat n) < rat_of_nat (2 ^ bitlen (nat n))"
      using n(3) by (simp only: of_nat_less_iff)
    moreover have "rat_of_nat (nat n) = rat_of_int n" using that by simp
    ultimately show ?thesis by simp
  qed
  have A: "rat_of_int a < 2 ^ la" "2 ^ la \<le> 2 * rat_of_int a" using bits [OF a] la_def by auto
  have B: "rat_of_int b < 2 ^ lb" "2 ^ lb \<le> 2 * rat_of_int b" using bits [OF b] lb_def by auto
  define e where "e = int la - int lb"
  have p: "(2 :: rat) powi e = 2 ^ la / 2 ^ lb"
    by (simp add: e_def power_int_diff)
  have pos: "0 < rat_of_int a" "0 < rat_of_int b" using a b by auto
  have upper: "x < 2 * 2 powi e"
  proof -
    have "rat_of_int a * 2 ^ lb < 2 ^ la * (2 * rat_of_int b)"
      using A(1) B(2) pos by (intro mult_less_le_imp_less) auto
    then show ?thesis using pos unfolding x p by (simp add: field_simps)
  qed
  have lower: "2 powi e \<le> 2 * x"
  proof -
    have "2 ^ la * rat_of_int b \<le> (2 * rat_of_int a) * 2 ^ lb"
      using A(2) B(1) pos by (intro mult_mono) auto
    then show ?thesis using pos unfolding x p by (simp add: field_simps)
  qed
  have ilog: "ilog2 x = (if 2 powi e \<le> x then e else e - 1)"
    using q by (simp add: ilog2_def Let_def e_def la_def lb_def)
  have succ: "(2 :: rat) powi (e + 1) = 2 * 2 powi e" by (simp add: power_int_add)
  have pred: "2 * (2 :: rat) powi (e - 1) = 2 powi e" by (simp add: power_int_diff)
  show ?thesis
  proof (cases "2 powi e \<le> x")
    case True
    then show ?thesis using ilog upper succ by simp
  next
    case False
    then have "ilog2 x = e - 1" using ilog by simp
    moreover have "2 powi (e - 1) \<le> x" using lower pred by linarith
    ultimately show ?thesis using False by simp
  qed
qed

lemma ilog2_mono:
  assumes "0 < x" and "x \<le> y"
  shows "ilog2 x \<le> ilog2 y"
proof -
  have "2 powi ilog2 x \<le> x" and "y < 2 powi (ilog2 y + 1)"
    using ilog2_bounds assms by auto
  then have "(2 :: rat) powi ilog2 x < 2 powi (ilog2 y + 1)" using assms(2) by linarith
  then show ?thesis using powi_2_less by fastforce
qed

section \<open>Rounding to nearest, ties to even\<close>

definition round_half_even :: "rat \<Rightarrow> int" where
  "round_half_even x =
     (let f = \<lfloor>x\<rfloor>; d = x - of_int f
      in if d < 1 / 2 then f else if 1 / 2 < d then f + 1 else if even f then f else f + 1)"

lemma round_half_even_of_int [simp]: "round_half_even (of_int n) = n"
  by (simp add: round_half_even_def)

lemma round_half_even_floor: "\<lfloor>x\<rfloor> \<le> round_half_even x \<and> round_half_even x \<le> \<lfloor>x\<rfloor> + 1"
  by (simp add: round_half_even_def Let_def)

lemma round_half_even_mono:
  assumes "x \<le> y"
  shows "round_half_even x \<le> round_half_even y"
proof (cases "\<lfloor>x\<rfloor> = \<lfloor>y\<rfloor>")
  case True
  then show ?thesis using assms by (simp add: round_half_even_def Let_def)
next
  case False
  then have "\<lfloor>x\<rfloor> + 1 \<le> \<lfloor>y\<rfloor>" using floor_mono [OF assms] by simp
  then show ?thesis using round_half_even_floor [of x] round_half_even_floor [of y] by simp
qed

lemma round_half_even_minus: "round_half_even (- x) = - round_half_even x"
proof (cases "x \<in> \<int>")
  case True
  then obtain n where "x = of_int n" by (rule Ints_cases)
  then show ?thesis by (metis of_int_minus round_half_even_of_int)
next
  case False
  then have "\<lfloor>- x\<rfloor> = - \<lfloor>x\<rfloor> - 1"
    by (metis ceiling_altdef ceiling_def diff_minus_eq_add diff_add_cancel minus_diff_eq
        Ints_of_int add.inverse_inverse floor_minus uminus_add_conv_diff)
  then show ?thesis by (auto simp: round_half_even_def Let_def)
qed

lemma round_half_even_le: "x \<le> of_int n \<Longrightarrow> round_half_even x \<le> n"
  using round_half_even_mono [of x "of_int n"] by simp

lemma round_half_even_ge: "of_int n \<le> x \<Longrightarrow> n \<le> round_half_even x"
  using round_half_even_mono [of "of_int n" x] by simp

definition ulp_exp :: "rat \<Rightarrow> int" where
  "ulp_exp x = max (ilog2 \<bar>x\<bar> - 52) (- 1074)"

definition rne :: "rat \<Rightarrow> rat" where
  "rne x = (if x = 0 then 0
            else of_int (round_half_even (x / 2 powi ulp_exp x)) * 2 powi ulp_exp x)"

lemma rne_0 [simp]: "rne 0 = 0"
  by (simp add: rne_def)

lemma rne_minus: "rne (- x) = - rne x"
  by (simp add: rne_def ulp_exp_def round_half_even_minus)

lemma rne_nonneg: "0 \<le> x \<Longrightarrow> 0 \<le> rne x"
  using round_half_even_ge [of 0 "x / 2 powi ulp_exp x"]
  by (auto simp: rne_def zero_le_mult_iff)

text \<open>A multiple of the unit in the last place bounds the rounded value as it bounds the exact one.\<close>

lemma rne_le_multiple:
  assumes "x \<noteq> 0" and "x \<le> of_int n * 2 powi ulp_exp x"
  shows "rne x \<le> of_int n * 2 powi ulp_exp x"
proof -
  have "x / 2 powi ulp_exp x \<le> of_int n" using assms(2) by (simp add: pos_divide_le_eq)
  then have "round_half_even (x / 2 powi ulp_exp x) \<le> n" by (rule round_half_even_le)
  then show ?thesis using assms(1) by (simp add: rne_def)
qed

lemma rne_ge_multiple:
  assumes "x \<noteq> 0" and "of_int n * 2 powi ulp_exp x \<le> x"
  shows "of_int n * 2 powi ulp_exp x \<le> rne x"
proof -
  have "of_int n \<le> x / 2 powi ulp_exp x" using assms(2) by (simp add: pos_le_divide_eq)
  then have "n \<le> round_half_even (x / 2 powi ulp_exp x)" by (rule round_half_even_ge)
  then show ?thesis using assms(1) by (simp add: rne_def)
qed

lemma rne_mono_pos:
  assumes "0 < x" and "x \<le> y"
  shows "rne x \<le> rne y"
proof -
  have "0 < y" using assms by simp
  have e: "ulp_exp x \<le> ulp_exp y"
    using ilog2_mono [OF assms] assms by (simp add: ulp_exp_def)
  show ?thesis
  proof (cases "ulp_exp x = ulp_exp y")
    case True
    have "x / 2 powi ulp_exp y \<le> y / 2 powi ulp_exp y" using assms(2) by (simp add: divide_right_mono)
    then have "round_half_even (x / 2 powi ulp_exp y) \<le> round_half_even (y / 2 powi ulp_exp y)"
      by (rule round_half_even_mono)
    then show ?thesis using True assms by (simp add: rne_def)
  next
    case False
    then have lt: "ulp_exp x < ulp_exp y" using e by simp
    then have ey: "ulp_exp y = ilog2 y - 52" using \<open>0 < y\<close> by (simp add: ulp_exp_def max_def split: if_splits)
    have ex: "ilog2 x - 52 \<le> ulp_exp x" using assms by (simp add: ulp_exp_def)
    define B where "B = (2 :: rat) powi ilog2 y"
    have "x < 2 powi (ilog2 x + 1)" using ilog2_bounds [OF assms(1)] by simp
    also have "\<dots> \<le> B" unfolding B_def by (rule powi_2_mono) (use lt ex ey in linarith)
    finally have "x \<le> B" by simp
    moreover have "B = 2 powi (ilog2 y - ulp_exp x) * 2 powi ulp_exp x"
      by (simp add: B_def flip: power_int_add)
    then have "B = of_int (2 ^ nat (ilog2 y - ulp_exp x)) * 2 powi ulp_exp x"
      using lt ey powi_2_nat [of "ilog2 y - ulp_exp x"] by simp
    ultimately have "rne x \<le> B"
      using rne_le_multiple [of x "2 ^ nat (ilog2 y - ulp_exp x)"] assms(1) by simp
    moreover have "B = of_int (2 ^ 52) * 2 powi ulp_exp y"
      unfolding B_def ey using power_int_add [of "2 :: rat" 52 "ilog2 y - 52"] by (simp add: power_int_def)
    then have "B \<le> rne y"
      using rne_ge_multiple [of y "2 ^ 52"] ilog2_bounds [OF \<open>0 < y\<close>] \<open>0 < y\<close> B_def by simp
    ultimately show ?thesis by simp
  qed
qed

lemma rne_mono:
  assumes "x \<le> y"
  shows "rne x \<le> rne y"
proof -
  consider "0 < x" | "x \<le> 0" "0 \<le> y" | "y < 0" using assms by linarith
  then show ?thesis
  proof cases
    case 1
    then show ?thesis using assms by (rule rne_mono_pos)
  next
    case 2
    then have "rne x \<le> 0" using rne_nonneg [of "- x"] by (simp add: rne_minus)
    then show ?thesis using rne_nonneg [OF 2(2)] by simp
  next
    case 3
    then have "rne (- y) \<le> rne (- x)" using assms by (intro rne_mono_pos) simp_all
    then show ?thesis by (simp add: rne_minus)
  qed
qed

text \<open>A number with at most 53 significant bits is its own rounding.\<close>

lemma rne_exact:
  assumes "\<bar>m\<bar> < 2 ^ 53" and "- 1074 \<le> k"
  shows "rne (of_int m * 2 powi k) = of_int m * 2 powi k"
proof (cases "m = 0")
  case True
  then show ?thesis by simp
next
  case False
  define x where "x = rat_of_int m * 2 powi k"
  have x: "x \<noteq> 0" using False by (simp add: x_def)
  have abs: "\<bar>x\<bar> = of_int \<bar>m\<bar> * 2 powi k" by (simp add: x_def abs_mult)
  have "rat_of_int \<bar>m\<bar> < of_int (2 ^ 53)" using assms(1) by (simp only: of_int_less_iff)
  then have "\<bar>x\<bar> < of_int (2 ^ 53) * 2 powi k" unfolding abs by (intro mult_strict_right_mono) auto
  then have "\<bar>x\<bar> < 2 powi (53 + k)" by (simp add: power_int_add)
  moreover have "2 powi ilog2 \<bar>x\<bar> \<le> \<bar>x\<bar>" using ilog2_bounds [of "\<bar>x\<bar>"] x by simp
  ultimately have "ilog2 \<bar>x\<bar> < 53 + k" using powi_2_less by fastforce
  then have e: "ulp_exp x \<le> k" using assms(2) by (simp add: ulp_exp_def)
  define u c where "u = ulp_exp x" and "c = m * 2 ^ nat (k - u)"
  have "(2 :: rat) powi k = 2 powi (k - u) * 2 powi u"
    by (simp flip: power_int_add)
  then have xu: "x = of_int c * 2 powi u"
    using e powi_2_nat [of "k - u"] by (simp add: x_def c_def u_def)
  have q: "x / 2 powi u = of_int c" unfolding xu by simp
  have "rne x = of_int c * 2 powi u"
    unfolding rne_def u_def [symmetric] using x by (simp only: q round_half_even_of_int if_False)
  then show ?thesis by (simp add: xu [symmetric] x_def)
qed

lemma rne_of_int: "\<bar>n\<bar> \<le> 2 ^ 53 \<Longrightarrow> rne (of_int n) = of_int n"
proof -
  assume n: "\<bar>n\<bar> \<le> 2 ^ 53"
  show ?thesis
  proof (cases "\<bar>n\<bar> = 2 ^ 53")
    case True
    then consider "n = 2 ^ 53" | "n = - (2 ^ 53)" by linarith
    then show ?thesis
      using rne_exact [of "2 ^ 52" 1] rne_exact [of "- (2 ^ 52)" 1] by cases simp_all
  next
    case False
    then show ?thesis using n rne_exact [of n 0] by simp
  qed
qed

text \<open>
  What the arithmetic of the components needs of the rounding: monotone, odd, exact on the
  integers a \<open>float64\<close> holds.
\<close>

locale rounding =
  fixes rd :: "rat \<Rightarrow> rat"
  assumes mono: "x \<le> y \<Longrightarrow> rd x \<le> rd y"
    and odd: "rd (- x) = - rd x"
    and exact: "\<bar>n\<bar> \<le> 2 ^ 53 \<Longrightarrow> rd (of_int n) = of_int n"
begin

lemma ge_int: "\<bar>n\<bar> \<le> 2 ^ 53 \<Longrightarrow> of_int n \<le> x \<Longrightarrow> of_int n \<le> rd x"
  using mono [of "of_int n" x] exact by simp

lemma le_int: "\<bar>n\<bar> \<le> 2 ^ 53 \<Longrightarrow> x \<le> of_int n \<Longrightarrow> rd x \<le> of_int n"
  using mono [of x "of_int n"] exact by simp

lemma zero: "rd 0 = 0"
  using exact [of 0] by simp

lemma one: "rd 1 = 1"
  using exact [of 1] by simp

lemma nonneg: "0 \<le> x \<Longrightarrow> 0 \<le> rd x"
  using ge_int [of 0] by simp

lemma unit: "0 \<le> x \<Longrightarrow> x \<le> 1 \<Longrightarrow> 0 \<le> rd x \<and> rd x \<le> 1"
  using nonneg le_int [of 1] by simp

lemma numeral_exact: "numeral k \<le> (2 :: int) ^ 53 \<Longrightarrow> rd (numeral k) = numeral k"
  using exact [of "numeral k"] by simp

end

interpretation rne: rounding rne
  by unfold_locales (simp_all add: rne_mono rne_minus rne_of_int)

section \<open>The type and its operations\<close>

datatype f64 = NaN | PInf | NInf | Fin rat

definition fl :: "rat \<Rightarrow> f64" where
  "fl x = (let r = rne x in if 2 ^ 1024 \<le> r then PInf else if r \<le> - (2 ^ 1024) then NInf else Fin r)"

fun fneg :: "f64 \<Rightarrow> f64" where
  "fneg (Fin a) = Fin (- a)"
| "fneg PInf = NInf"
| "fneg NInf = PInf"
| "fneg NaN = NaN"

fun fadd :: "f64 \<Rightarrow> f64 \<Rightarrow> f64" where
  "fadd (Fin a) (Fin b) = fl (a + b)"
| "fadd PInf PInf = PInf"
| "fadd NInf NInf = NInf"
| "fadd PInf (Fin b) = PInf"
| "fadd NInf (Fin b) = NInf"
| "fadd (Fin a) PInf = PInf"
| "fadd (Fin a) NInf = NInf"
| "fadd _ _ = NaN"

definition fsub :: "f64 \<Rightarrow> f64 \<Rightarrow> f64" where
  "fsub x y = fadd x (fneg y)"

definition inf_of_sign :: "rat \<Rightarrow> f64" where
  "inf_of_sign s = (if 0 < s then PInf else if s < 0 then NInf else NaN)"

fun fmul :: "f64 \<Rightarrow> f64 \<Rightarrow> f64" where
  "fmul (Fin a) (Fin b) = fl (a * b)"
| "fmul (Fin a) PInf = inf_of_sign a"
| "fmul (Fin a) NInf = inf_of_sign (- a)"
| "fmul PInf (Fin b) = inf_of_sign b"
| "fmul NInf (Fin b) = inf_of_sign (- b)"
| "fmul PInf PInf = PInf"
| "fmul NInf NInf = PInf"
| "fmul PInf NInf = NInf"
| "fmul NInf PInf = NInf"
| "fmul _ _ = NaN"

text \<open>A zero divisor is taken as positive zero.\<close>

fun fdiv :: "f64 \<Rightarrow> f64 \<Rightarrow> f64" where
  "fdiv (Fin a) (Fin b) = (if b = 0 then inf_of_sign a else fl (a / b))"
| "fdiv (Fin a) PInf = Fin 0"
| "fdiv (Fin a) NInf = Fin 0"
| "fdiv PInf (Fin b) = (if 0 \<le> b then PInf else NInf)"
| "fdiv NInf (Fin b) = (if 0 \<le> b then NInf else PInf)"
| "fdiv _ _ = NaN"

text \<open>Comparisons: every one with a NaN is false, \<open>!=\<close> alone is true.\<close>

fun flt :: "f64 \<Rightarrow> f64 \<Rightarrow> bool" where
  "flt (Fin a) (Fin b) = (a < b)"
| "flt (Fin a) PInf = True"
| "flt NInf (Fin b) = True"
| "flt NInf PInf = True"
| "flt _ _ = False"

fun feq :: "f64 \<Rightarrow> f64 \<Rightarrow> bool" where
  "feq (Fin a) (Fin b) = (a = b)"
| "feq PInf PInf = True"
| "feq NInf NInf = True"
| "feq _ _ = False"

definition fle :: "f64 \<Rightarrow> f64 \<Rightarrow> bool" where
  "fle x y \<longleftrightarrow> flt x y \<or> feq x y"

definition of_int64 :: "int64 \<Rightarrow> f64" where
  "of_int64 n = fl (of_int n)"

definition trunc_rat :: "rat \<Rightarrow> int" where
  "trunc_rat x = (if 0 \<le> x then \<lfloor>x\<rfloor> else \<lceil>x\<rceil>)"

text \<open>
  \<open>int64(f)\<close>: truncation towards zero.  Out of range, and on NaN, the language leaves the
  value to the implementation; the model has the one the amd64 port computes.
\<close>

fun to_int64 :: "f64 \<Rightarrow> int64" where
  "to_int64 (Fin a) = (if fits64 (trunc_rat a) then trunc_rat a else - (2 ^ 63))"
| "to_int64 _ = - (2 ^ 63)"

fun fceil :: "f64 \<Rightarrow> f64" where
  "fceil (Fin a) = Fin (of_int \<lceil>a\<rceil>)"
| "fceil x = x"

text \<open>\<open>math.Round\<close>: to the nearest integer, halves away from zero.\<close>

definition round_half_away :: "rat \<Rightarrow> int" where
  "round_half_away x = (if 0 \<le> x then \<lfloor>x + 1 / 2\<rfloor> else - \<lfloor>1 / 2 - x\<rfloor>)"

fun fround :: "f64 \<Rightarrow> f64" where
  "fround (Fin a) = Fin (of_int (round_half_away a))"
| "fround x = x"

fun fabs :: "f64 \<Rightarrow> f64" where
  "fabs (Fin a) = Fin \<bar>a\<bar>"
| "fabs NaN = NaN"
| "fabs _ = PInf"

definition fmin :: "f64 \<Rightarrow> f64 \<Rightarrow> f64" where
  "fmin x y = (if x = NInf \<or> y = NInf then NInf else if x = NaN \<or> y = NaN then NaN
               else if flt x y then x else y)"

definition fmax :: "f64 \<Rightarrow> f64 \<Rightarrow> f64" where
  "fmax x y = (if x = PInf \<or> y = PInf then PInf else if x = NaN \<or> y = NaN then NaN
               else if flt y x then x else y)"

section \<open>Facts on finite values\<close>

fun is_fin :: "f64 \<Rightarrow> bool" where
  "is_fin (Fin a) = True"
| "is_fin _ = False"

fun fval :: "f64 \<Rightarrow> rat" where
  "fval (Fin a) = a"
| "fval _ = 0"

lemma is_fin_iff: "is_fin x \<longleftrightarrow> (\<exists>a. x = Fin a)"
  by (cases x) auto

lemma fl_Fin:
  assumes "\<bar>x\<bar> \<le> 2 ^ 53"
  shows "fl x = Fin (rne x)"
proof -
  have "rne x \<le> of_int (2 ^ 53)" and "of_int (- (2 ^ 53)) \<le> rne x"
    using assms rne.le_int [of "2 ^ 53" x] rne.ge_int [of "- (2 ^ 53)" x] by (auto simp: abs_le_iff)
  then show ?thesis by (simp add: fl_def)
qed

lemma fl_of_int: "\<bar>n\<bar> \<le> 2 ^ 53 \<Longrightarrow> fl (of_int n) = Fin (of_int n)"
proof -
  assume n: "\<bar>n\<bar> \<le> 2 ^ 53"
  then have "rat_of_int \<bar>n\<bar> \<le> of_int (2 ^ 53)" by (simp only: of_int_le_iff)
  then have "\<bar>rat_of_int n\<bar> \<le> 2 ^ 53" by simp
  then show ?thesis using n by (simp add: fl_Fin rne.exact)
qed

lemma of_int64_exact: "\<bar>n\<bar> \<le> 2 ^ 53 \<Longrightarrow> of_int64 n = Fin (of_int n)"
  by (simp add: of_int64_def fl_of_int)

lemma fl_cases: "fl x = PInf \<or> fl x = NInf \<or> fl x = Fin (rne x)"
  by (simp add: fl_def Let_def)

lemma fle_Fin [simp]: "fle (Fin a) (Fin b) \<longleftrightarrow> a \<le> b"
  by (auto simp: fle_def)

text \<open>Rounding keeps the order of the extended values.\<close>

lemma fle_fl: "x \<le> y \<Longrightarrow> fle (fl x) (fl y)"
  using rne_mono [of x y] by (auto simp: fl_def Let_def fle_def)

lemma trunc_rat_of_int [simp]: "trunc_rat (of_int n) = n"
  by (simp add: trunc_rat_def)

lemma round_half_away_of_int [simp]: "round_half_away (of_int n) = n"
proof -
  have "\<lfloor>rat_of_int n + 1 / 2\<rfloor> = n" and "\<lfloor>1 / 2 - rat_of_int n\<rfloor> = - n"
    by (simp_all add: floor_eq_iff)
  then show ?thesis by (simp add: round_half_away_def)
qed

lemma round_half_away_mono: "x \<le> y \<Longrightarrow> round_half_away x \<le> round_half_away y"
proof -
  assume xy: "x \<le> y"
  consider "0 \<le> x" | "x < 0" "0 \<le> y" | "y < 0" using xy by linarith
  then show ?thesis
  proof cases
    case 1
    then show ?thesis using xy by (simp add: round_half_away_def floor_mono)
  next
    case 2
    then have "0 \<le> \<lfloor>1 / 2 - x\<rfloor>" "0 \<le> \<lfloor>y + 1 / 2\<rfloor>" by (simp_all add: le_floor_iff)
    moreover have "round_half_away x = - \<lfloor>1 / 2 - x\<rfloor>" "round_half_away y = \<lfloor>y + 1 / 2\<rfloor>"
      using 2 by (simp_all add: round_half_away_def)
    ultimately show ?thesis by linarith
  next
    case 3
    then show ?thesis using xy floor_mono [of "1 / 2 - y" "1 / 2 - x"] by (simp add: round_half_away_def)
  qed
qed

end
