(* ===== verification/GoTime.thy ===== *)
theory GoTime
  imports GoStrings Float64
begin

text \<open>
  Instants, durations and the clock.  A \<open>time.Time\<close> is the number of nanoseconds since
  the start of year 1 in UTC, so its zero value is 0 and \<open>IsZero\<close> is a comparison with 0; a
  \<open>time.Duration\<close> is a number of nanoseconds.  The clock of \<open>shared/clock/clock.go\<close> that a
  test drives (\<open>Fixed\<close>) is its current instant.
\<close>

type_synonym instant = int
type_synonym duration = int

definition second :: duration where "second = 1000000000"
definition minute :: duration where "minute = 60 * second"
definition hour :: duration where "hour = 60 * minute"
definition day_ns :: duration where "day_ns = 24 * hour"
definition zero_time :: instant where "zero_time = 0"

lemmas time_defs = second_def minute_def hour_def day_ns_def zero_time_def

text \<open>Seconds from the start of year 1 to the start of 1970.\<close>

definition unix_offset :: int where "unix_offset = 62135596800"

definition unix_milli :: "instant \<Rightarrow> int64" where
  "unix_milli t = t div 1000000 - unix_offset * 1000"

definition time_unix_milli :: "int64 \<Rightarrow> instant" where
  "time_unix_milli ms = (ms + unix_offset * 1000) * 1000000"

lemma unix_milli_of [simp]: "unix_milli (time_unix_milli ms) = ms"
  by (simp add: unix_milli_def time_unix_milli_def)

text \<open>
  The weekday and the clock time in Bangladesh, six hours ahead of UTC with no daylight
  saving.  Day 0 of year 1 was a Monday, and Go counts from Sunday as 0.
\<close>

definition bangladesh :: "instant \<Rightarrow> int" where
  "bangladesh t = t + 6 * hour"

definition weekday_at :: "instant \<Rightarrow> int" where
  "weekday_at t = (bangladesh t div day_ns + 1) mod 7"

definition minutes_at :: "instant \<Rightarrow> int" where
  "minutes_at t = (bangladesh t mod day_ns) div minute"

lemma weekday_at_bounds: "0 \<le> weekday_at t" "weekday_at t < 7" "weekday_at t \<le> 6"
proof -
  have "0 \<le> weekday_at t \<and> weekday_at t < 7" by (simp add: weekday_at_def)
  then show "0 \<le> weekday_at t" "weekday_at t < 7" "weekday_at t \<le> 6" by linarith+
qed

lemma minutes_at_bounds: "0 \<le> minutes_at t \<and> minutes_at t < 1440"
proof -
  have "0 \<le> bangladesh t mod day_ns" "bangladesh t mod day_ns < day_ns"
    by (simp_all add: time_defs)
  then have "0 \<le> bangladesh t mod day_ns div minute" "bangladesh t mod day_ns div minute < 1440"
    by (simp_all add: pos_imp_zdiv_nonneg_iff time_defs)
  then show ?thesis by (simp add: minutes_at_def)
qed

text \<open>
  \<open>Time.Sub\<close> saturates at the ends of the 64-bit range; \<open>Duration.Seconds\<close> adds the whole
  seconds and the rest as floating-point numbers.
\<close>

definition time_sub :: "instant \<Rightarrow> instant \<Rightarrow> duration" where
  "time_sub a b = max (- (2 ^ 63)) (min (2 ^ 63 - 1) (a - b))"

definition duration_seconds :: "duration \<Rightarrow> f64" where
  "duration_seconds d = fadd (of_int64 (quot64 d second)) (fdiv (of_int64 (rem64 d second)) (of_int64 second))"

lemma duration_parts:
  assumes "0 \<le> d" "d \<le> 2 ^ 63"
  defines "q \<equiv> rne (of_int (d mod second) / of_int second)"
  defines "v \<equiv> rne (of_int (d div second) + q)"
  shows "of_int64 (d div second) = Fin (of_int (d div second))"
    and "of_int64 (- (d div second)) = Fin (- of_int (d div second))"
    and "fdiv (of_int64 (d mod second)) (of_int64 second) = Fin q"
    and "fdiv (of_int64 (- (d mod second))) (of_int64 second) = Fin (- q)"
    and "fl (of_int (d div second) + q) = Fin v"
    and "fl (- of_int (d div second) - q) = Fin (- v)"
    and "of_int (d div second) \<le> v" "v \<le> of_int (d div second) + 1"
    and "0 \<le> d div second" "d div second < 2 ^ 34"
proof -
  let ?s = "d div second" and ?r = "d mod second"
  have r: "0 \<le> ?r" "?r < second" by (simp_all add: second_def)
  show s: "0 \<le> ?s" "?s < 2 ^ 34"
    using assms(1,2) by (simp_all add: pos_imp_zdiv_nonneg_iff second_def)
  show "of_int64 ?s = Fin (of_int ?s)" using s by (intro of_int64_exact) simp
  show "of_int64 (- ?s) = Fin (- of_int ?s)" using s of_int64_exact [of "- ?s"] by simp
  have exact: "of_int64 ?r = Fin (of_int ?r)" "of_int64 (- ?r) = Fin (- of_int ?r)"
    "of_int64 second = Fin (of_int second)"
    using r of_int64_exact [of ?r] of_int64_exact [of "- ?r"] of_int64_exact [of second]
    by (simp_all add: second_def)
  have u: "0 \<le> (of_int ?r / of_int second :: rat)" "(of_int ?r / of_int second :: rat) \<le> 1"
    using r by (simp_all add: second_def)
  then have q: "0 \<le> q" "q \<le> 1" using rne.unit unfolding q_def by blast+
  have "fl (of_int ?r / of_int second) = Fin q" "fl (- (of_int ?r / of_int second)) = Fin (- q)"
    unfolding q_def rne_minus [symmetric] using u by (intro fl_Fin; simp)+
  then show "fdiv (of_int64 ?r) (of_int64 second) = Fin q"
    "fdiv (of_int64 (- ?r)) (of_int64 second) = Fin (- q)"
    by (simp_all add: exact) (simp_all add: second_def)
  have "of_int ?s \<le> v" unfolding v_def using q s by (intro rne.ge_int) auto
  moreover have "v \<le> of_int (?s + 1)" unfolding v_def using q s by (intro rne.le_int) auto
  ultimately show "of_int ?s \<le> v" "v \<le> of_int ?s + 1" by simp_all
  have sr: "0 \<le> rat_of_int ?s" "rat_of_int ?s \<le> 2 ^ 34"
    using s of_int_le_iff [of ?s "2 ^ 34", where 'a = rat] by simp_all
  show "fl (of_int ?s + q) = Fin v" unfolding v_def
    using q sr by (intro fl_Fin) simp
  have "fl (- (of_int ?s + q)) = Fin (rne (- (of_int ?s + q)))" using q sr by (intro fl_Fin) simp
  then show "fl (- of_int ?s - q) = Fin (- v)" unfolding v_def rne_minus [symmetric] by simp
qed

lemma trunc_rat_minus: "trunc_rat (- x) = - trunc_rat x"
  by (auto simp: trunc_rat_def ceiling_def)

lemma seconds_whole:
  assumes "0 \<le> d" "d \<le> 2 ^ 63"
  shows "to_int64 (duration_seconds d) \<in> {d div second, d div second + 1}"
    and "to_int64 (duration_seconds (- d)) \<in> {- (d div second), - (d div second) - 1}"
proof -
  note parts = duration_parts [OF assms]
  define v where "v = rne (of_int (d div second) + rne (of_int (d mod second) / of_int second))"
  have v: "of_int (d div second) \<le> v" "v \<le> of_int (d div second) + 1" using parts(7,8) by (simp_all add: v_def)
  then have "d div second \<le> \<lfloor>v\<rfloor>" "\<lfloor>v\<rfloor> \<le> d div second + 1" by linarith+
  then have t: "trunc_rat v \<in> {d div second, d div second + 1}" using v parts(9) by (auto simp: trunc_rat_def)
  have f: "fits64 (d div second)" "fits64 (d div second + 1)" "fits64 (- (d div second))"
    "fits64 (- (d div second) - 1)" using parts(9,10) by (simp_all add: fits64_def)
  have "duration_seconds d = Fin v"
    using assms parts(1,3,5) by (simp add: duration_seconds_def quot64_nonneg rem64_nonneg v_def second_def)
  then show "to_int64 (duration_seconds d) \<in> {d div second, d div second + 1}" using t f by auto
  have sgns: "sgn second = 1" "\<bar>second\<bar> = second" by (simp_all add: second_def)
  have quot: "quot64 (- d) second = - (d div second)"
    using assms(1) by (cases "d = 0") (simp_all add: quot64_def sgns)
  have "second * (d div second) + d mod second = d" by simp
  then have "rem64 (- d) second = - (d mod second)" unfolding rem64_def quot by linarith
  note neg = quot this
  have "duration_seconds (- d) = Fin (- v)"
    using parts(2,4,6) by (simp add: duration_seconds_def neg v_def)
  then show "to_int64 (duration_seconds (- d)) \<in> {- (d div second), - (d div second) - 1}"
    using t f by (auto simp: trunc_rat_minus)
qed

section \<open>The clock of the tests\<close>

record fixed_clock =
  clock_t :: instant

definition fixed_new :: "instant \<Rightarrow> fixed_clock" where
  "fixed_new t = \<lparr>clock_t = t\<rparr>"

definition fixed_now :: "fixed_clock \<Rightarrow> instant" where
  "fixed_now c = clock_t c"

definition fixed_advance :: "fixed_clock \<Rightarrow> duration \<Rightarrow> fixed_clock \<times> instant" where
  "fixed_advance c d = (let c' = c\<lparr>clock_t := clock_t c + d\<rparr> in (c', clock_t c'))"

definition fixed_set :: "fixed_clock \<Rightarrow> instant \<Rightarrow> fixed_clock" where
  "fixed_set c t = c\<lparr>clock_t := t\<rparr>"

lemma fixed_clock_laws:
  "fixed_now (fixed_new t) = t"
  "fixed_now (fst (fixed_advance c d)) = fixed_now c + d"
  "snd (fixed_advance c d) = fixed_now (fst (fixed_advance c d))"
  "fixed_now (fixed_set c t) = t"
  by (simp_all add: fixed_new_def fixed_now_def fixed_advance_def fixed_set_def Let_def)

section \<open>Texts that need no trimming\<close>

text \<open>A byte that is neither white space nor part of a longer rune.\<close>

definition plain_byte :: "char \<Rightarrow> bool" where
  "plain_byte c \<longleftrightarrow> 33 \<le> (of_char c :: nat) \<and> (of_char c :: nat) < 128"

lemma plain_digit: "is_digit c \<Longrightarrow> plain_byte c"
  by (simp add: is_digit_def plain_byte_def)

lemma spaces_at_plain: "s = [] \<or> plain_byte (hd s) \<Longrightarrow> spaces_at s = 0"
  by (cases s) (auto simp: spaces_at_def plain_byte_def split: list.splits)

lemma drop_last2: "2 \<le> length s \<Longrightarrow> \<exists>b. drop (length s - 2) s = [b, last s]"
  by (cases s rule: rev_cases; cases "butlast s" rule: rev_cases) auto

lemma drop_last3:
  assumes "3 \<le> length s"
  shows "\<exists>a b. drop (length s - 3) s = [a, b, last s]"
proof -
  have "length (drop (length s - 3) s) = Suc (Suc (Suc 0))" using assms by simp
  then obtain a b c where "drop (length s - 3) s = [a, b, c]" 
    unfolding length_Suc_conv by auto
  moreover have "last (drop (length s - 3) s) = last s" using assms by (simp add: last_drop)
  ultimately show ?thesis by auto
qed

lemma spaces_at_end_plain:
  assumes "s = [] \<or> plain_byte (last s)"
  shows "spaces_at_end s = 0"
proof -
  have two: "spaces_at (drop (length s - 2) s) \<noteq> 2" if "2 \<le> length s"
  proof -
    have "s \<noteq> []" using that by auto
    then show ?thesis using drop_last2 [OF that] assms
      by (auto simp: spaces_at_def plain_byte_def split: if_splits)
  qed
  have three: "spaces_at (drop (length s - 3) s) \<noteq> 3" if "3 \<le> length s"
  proof -
    have "s \<noteq> []" using that by auto
    then show ?thesis using drop_last3 [OF that] assms
      by (auto simp: spaces_at_def plain_byte_def split: if_splits)
  qed
  show ?thesis using assms two three spaces_at_plain [of "[last s]"]
    by (auto simp: spaces_at_end_def)
qed

lemma trim_space_plain:
  "s = [] \<or> plain_byte (hd s) \<Longrightarrow> s = [] \<or> plain_byte (last s) \<Longrightarrow> trim_space s = s"
  using spaces_at_plain [of s] spaces_at_end_plain [of s]
  by (simp add: trim_space_def trim_left.simps [of s] trim_right.simps [of s])

text \<open>\<open>%02d\<close> of \<open>fmt\<close>: at least two characters, padded with zeros.\<close>

definition fmt02 :: "int \<Rightarrow> string" where
  "fmt02 n = (if length (itoa n) < 2 then CHR ''0'' # itoa n else itoa n)"

lemma digit_char_0: "digit_char 0 = CHR ''0''"
  by (simp add: digit_char_def char_of_def bit_simps)

lemma fmt02_digits:
  assumes "0 \<le> n" "n < 100"
  shows "fmt02 n = [digit_char (nat n div 10), digit_char (nat n mod 10)]"
proof (cases "n < 10")
  case True
  then show ?thesis using assms
    by (simp add: fmt02_def itoa_def nat_digits.simps [of "nat n"] digit_char_0)
next
  case False
  have "nat n div 10 < 10" using assms by linarith
  moreover have "\<not> nat n < 10" using assms False by simp
  ultimately show ?thesis using assms False
    by (simp add: fmt02_def itoa_def nat_digits.simps [of "nat n"] nat_digits.simps [of "nat n div 10"])
qed

lemma atoi_fmt02:
  assumes "0 \<le> n" "n < 100"
  shows "atoi (fmt02 n) = Some n"
proof -
  have d: "nat n div 10 < 10" "nat n mod 10 < 10" using assms by linarith+
  have "is_digit (digit_char (nat n div 10))" using d digit_char_props by blast
  then have ne: "digit_char (nat n div 10) \<noteq> CHR ''-''" "digit_char (nat n div 10) \<noteq> CHR ''+''"
    using not_digit_simps by metis+
  have "int (nat n div 10 * 10 + nat n mod 10) = n" using assms by simp
  then show ?thesis using assms d ne
    by (simp add: fmt02_digits atoi_def digits_val_def digit_char_props fits64_def)
qed

lemma fmt02_shape:
  assumes "0 \<le> n" "n < 100"
  shows "length (fmt02 n) = 2" and "list_all is_digit (fmt02 n)"
  using assms by (simp_all add: fmt02_digits digit_char_props)

end
