(* ===== verification/Schedule.thy ===== *)
theory Schedule
  imports GoTime "HOL-Library.AList"
begin

text \<open>
  \<open>shared/schedule/schedule.go\<close>: a weekly timetable of opening windows, its validation, the
  questions asked of it at an instant, and its storage form.  A \<open>Weekly\<close> is the list of
  its seven days, Sunday first.  A Go map is an association list in the order the loop
  over it happened to visit; the theorems hold for every such order.  \<open>sort.Slice\<close> is not
  stable, but two windows that start together make \<open>New\<close> fail in either order.
\<close>

datatype schedule_err =
    ErrInvalidTimeOfDay | ErrInvalidWindow | ErrOverlappingWindows | ErrInvalidWeekday
  | ErrTooManyWindows

type_synonym time_of_day = int

definition end_of_day :: time_of_day where
  "end_of_day = 24 * 60"

definition new_time_of_day :: "int \<Rightarrow> int \<Rightarrow> schedule_err + time_of_day" where
  "new_time_of_day h m =
     (if h < 0 \<or> h > 24 \<or> m < 0 \<or> m > 59 \<or> (h = 24 \<and> m \<noteq> 0) then Inl ErrInvalidTimeOfDay
      else Inr (h * 60 + m))"

definition parse_time_of_day :: "string \<Rightarrow> schedule_err + time_of_day" where
  "parse_time_of_day s = (case split_on CHR '':'' (trim_space s) of
     [a, b] \<Rightarrow>
       (if length a \<noteq> 2 \<or> length b \<noteq> 2 then Inl ErrInvalidTimeOfDay
        else case atoi a of None \<Rightarrow> Inl ErrInvalidTimeOfDay
          | Some h \<Rightarrow> (case atoi b of None \<Rightarrow> Inl ErrInvalidTimeOfDay
              | Some m \<Rightarrow> new_time_of_day h m))
   | _ \<Rightarrow> Inl ErrInvalidTimeOfDay)"

definition time_of_day_text :: "time_of_day \<Rightarrow> string" where
  "time_of_day_text t = fmt02 (quot64 t 60) @ '':'' @ fmt02 (rem64 t 60)"

record window =
  w_open :: time_of_day
  w_close :: time_of_day

definition new_window :: "time_of_day \<Rightarrow> time_of_day \<Rightarrow> schedule_err + window" where
  "new_window opens closes =
     (if opens < 0 \<or> opens \<ge> end_of_day then Inl ErrInvalidWindow
      else if closes \<le> opens \<or> closes > end_of_day then Inl ErrInvalidWindow
      else Inr \<lparr>w_open = opens, w_close = closes\<rparr>)"

definition parse_window :: "string \<Rightarrow> schedule_err + window" where
  "parse_window s = (case cut_on CHR ''-'' (trim_space s) of
     None \<Rightarrow> Inl ErrInvalidWindow
   | Some (opens, closes) \<Rightarrow>
       rbind (parse_time_of_day opens) (\<lambda>from_t.
       rbind (parse_time_of_day closes) (\<lambda>to_t. new_window from_t to_t)))"

definition window_contains :: "window \<Rightarrow> time_of_day \<Rightarrow> bool" where
  "window_contains w t \<longleftrightarrow> w_open w \<le> t \<and> t < w_close w"

definition window_text :: "window \<Rightarrow> string" where
  "window_text w = time_of_day_text (w_open w) @ ''-'' @ time_of_day_text (w_close w)"

section \<open>Building a timetable\<close>

type_synonym weekly = "window list list"

definition no_week :: weekly where
  "no_week = replicate 7 []"

fun check_windows :: "window option \<Rightarrow> window list \<Rightarrow> schedule_err option" where
  "check_windows prev [] = None"
| "check_windows prev (w # ws) =
     (case new_window (w_open w) (w_close w) of
        Inl e \<Rightarrow> Some e
      | Inr _ \<Rightarrow>
          (if (case prev of None \<Rightarrow> False | Some p \<Rightarrow> w_open w < w_close p) then Some ErrOverlappingWindows
           else check_windows (Some w) ws))"

definition opens_before :: "window \<Rightarrow> window \<Rightarrow> bool" where
  "opens_before a b \<longleftrightarrow> w_open a < w_open b"

fun fill_days :: "(int \<times> window list) list \<Rightarrow> int \<Rightarrow> weekly \<Rightarrow> schedule_err + weekly" where
  "fill_days [] max_per_day w = Inr w"
| "fill_days ((day, windows) # rest) max_per_day w =
     (if day < 0 \<or> day > 6 then Inl ErrInvalidWeekday
      else if max_per_day > 0 \<and> int (length windows) > max_per_day then Inl ErrTooManyWindows
      else let srt = stable_sort opens_before windows
           in case check_windows None srt of
                Some e \<Rightarrow> Inl e
              | None \<Rightarrow> fill_days rest max_per_day (w[nat day := srt]))"

definition new_weekly :: "(int \<times> window list) list \<Rightarrow> int \<Rightarrow> schedule_err + weekly" where
  "new_weekly days max_per_day = fill_days days max_per_day no_week"

definition every_day :: "window \<Rightarrow> weekly" where
  "every_day w = replicate 7 [w]"

definition windows_on :: "weekly \<Rightarrow> int \<Rightarrow> window list" where
  "windows_on w day = (if day < 0 \<or> day > 6 then [] else w ! nat day)"

definition weekly_is_empty :: "weekly \<Rightarrow> bool" where
  "weekly_is_empty w = list_all (\<lambda>ws. ws = []) w"

section \<open>Questions at an instant\<close>

definition covers :: "weekly \<Rightarrow> instant \<Rightarrow> bool" where
  "covers w t = list_ex (\<lambda>x. window_contains x (minutes_at t)) (w ! nat (weekday_at t))"

definition ends_after :: "weekly \<Rightarrow> instant \<Rightarrow> time_of_day option" where
  "ends_after w t =
     map_option w_close (find (\<lambda>x. window_contains x (minutes_at t)) (w ! nat (weekday_at t)))"

fun next_from :: "weekly \<Rightarrow> int \<Rightarrow> time_of_day \<Rightarrow> int list \<Rightarrow> time_of_day option" where
  "next_from w day now [] = None"
| "next_from w day now (ahead # rest) =
     (case find (\<lambda>x. ahead > 0 \<or> w_open x > now) (w ! nat ((day + ahead) mod 7)) of
        Some x \<Rightarrow> Some (w_open x)
      | None \<Rightarrow> next_from w day now rest)"

definition next_start :: "weekly \<Rightarrow> instant \<Rightarrow> time_of_day option" where
  "next_start w t = next_from w (weekday_at t) (minutes_at t) [0, 1, 2, 3, 4, 5, 6]"

section \<open>Storage form\<close>

definition encode_week :: "weekly \<Rightarrow> (string \<times> string list) list" where
  "encode_week w = [(itoa day, map window_text (w ! nat day)). day \<leftarrow> [0, 1, 2, 3, 4, 5, 6],
                      w ! nat day \<noteq> []]"

fun decode_days :: "(string \<times> string list) list \<Rightarrow> (int \<times> window list) list
    \<Rightarrow> schedule_err + (int \<times> window list) list" where
  "decode_days [] days = Inr days"
| "decode_days ((key, rendered) # rest) days =
     (case atoi key of None \<Rightarrow> Inl ErrInvalidWeekday
      | Some day \<Rightarrow>
          (if day < 0 \<or> day > 6 then Inl ErrInvalidWeekday
           else rbind (rmap parse_window rendered) (\<lambda>windows.
                  decode_days rest (AList.update day windows days))))"

definition decode_week :: "(string \<times> string list) list \<Rightarrow> int \<Rightarrow> schedule_err + weekly" where
  "decode_week encoded max_per_day =
     rbind (decode_days encoded []) (\<lambda>days. new_weekly days max_per_day)"

section \<open>Validity\<close>

definition wf_window :: "window \<Rightarrow> bool" where
  "wf_window w \<longleftrightarrow> 0 \<le> w_open w \<and> w_open w < w_close w \<and> w_close w \<le> end_of_day"

definition wf_day :: "window list \<Rightarrow> bool" where
  "wf_day ws \<longleftrightarrow> list_all wf_window ws \<and> sorted_wrt (\<lambda>a b. w_close a \<le> w_open b) ws"

definition wf_weekly :: "weekly \<Rightarrow> bool" where
  "wf_weekly w \<longleftrightarrow> length w = 7 \<and> list_all wf_day w"

lemma new_window_ok: "new_window a b = Inr w \<longleftrightarrow> wf_window w \<and> w = \<lparr>w_open = a, w_close = b\<rparr>"
  by (auto simp: new_window_def wf_window_def)

lemma new_window_wf: "wf_window w \<Longrightarrow> new_window (w_open w) (w_close w) = Inr w"
  by (simp add: new_window_ok)

lemma new_window_err: "new_window (w_open w) (w_close w) = Inl e \<Longrightarrow> \<not> wf_window w"
  by (auto simp: new_window_wf)

lemma check_windows_None:
  "check_windows prev ws = None \<longleftrightarrow>
     list_all wf_window ws \<and>
     sorted_wrt (\<lambda>a b. w_close a \<le> w_open b) ws \<and>
     (case prev of None \<Rightarrow> True | Some p \<Rightarrow> list_all (\<lambda>w. w_close p \<le> w_open w) ws)"
  (is "?l = ?r")
proof (induction ws arbitrary: prev)
  case Nil
  then show ?case by (simp split: option.split)
next
  case (Cons w ws)
  show ?case
  proof (cases "new_window (w_open w) (w_close w)")
    case (Inl e)
    then show ?thesis using new_window_err [OF Inl] by simp
  next
    case (Inr v)
    then have wf: "wf_window w" by (auto simp: new_window_ok wf_window_def)
    have chain: "list_all (\<lambda>x. w_close p \<le> w_open x) ws"
      if "w_close p \<le> w_open w" "list_all (\<lambda>x. w_close w \<le> w_open x) ws" for p
      using that wf by (auto simp: list_all_iff wf_window_def)
    have la: "list_all P ws = (\<forall>x\<in>set ws. P x)" for P :: "window \<Rightarrow> bool"
      by (simp add: list_all_iff)
    show ?thesis using Inr wf chain
      by (cases prev) (auto simp: Cons la not_less)
  qed
qed

interpretation open_order: strict_weak_order opens_before
  by unfold_locales (auto simp: opens_before_def)

lemma opens_sorted_wf:
  assumes "wf_day ws"
  shows "stable_sort opens_before ws = ws"
  using assms
proof (induction ws)
  case Nil
  then show ?case by simp
next
  case (Cons w ws)
  then have "wf_day ws" by (simp add: wf_day_def)
  moreover have "\<not> opens_before v w" if "v \<in> set ws" for v
    using Cons.prems that by (auto simp: wf_day_def opens_before_def wf_window_def list_all_iff)
  ultimately show ?case using Cons.IH by (cases ws) auto
qed

lemma fill_days_wf:
  "fill_days days m w = Inr v \<Longrightarrow> wf_weekly w \<Longrightarrow> wf_weekly v"
proof (induction days m w rule: fill_days.induct)
  case (1 m w)
  then show ?case by simp
next
  case (2 day windows rest m w)
  then have d: "0 \<le> day" "day \<le> 6" "\<not> (m > 0 \<and> int (length windows) > m)"
    and c: "check_windows None (stable_sort opens_before windows) = None"
    and f: "fill_days rest m (w[nat day := stable_sort opens_before windows]) = Inr v"
    by (auto simp: Let_def split: if_splits option.splits)
  have "wf_day (stable_sort opens_before windows)" using c by (simp add: check_windows_None wf_day_def)
  then have "wf_weekly (w[nat day := stable_sort opens_before windows])"
    using 2 by (auto simp: wf_weekly_def list_all_iff dest: set_update_subset_insert [THEN subsetD])
  then show ?case using 2 d c f by auto
qed

lemma no_week_wf: "wf_weekly no_week"
  by (simp add: wf_weekly_def no_week_def wf_day_def list_all_iff)

lemma new_weekly_wf: "new_weekly days m = Inr w \<Longrightarrow> wf_weekly w"
  by (simp add: new_weekly_def fill_days_wf no_week_wf)

lemma every_day_wf: "wf_window w \<Longrightarrow> wf_weekly (every_day w)"
  by (simp add: wf_weekly_def every_day_def wf_day_def list_all_iff)

lemma decode_week_wf: "decode_week enc m = Inr w \<Longrightarrow> wf_weekly w"
  by (auto simp: decode_week_def rbind_Inr_iff dest: new_weekly_wf)

lemma wf_day_at:
  assumes "wf_weekly w" "0 \<le> d" "d < 7"
  shows "wf_day (w ! nat d)"
proof -
  have "nat d < length w" using assms by (simp add: wf_weekly_def)
  then show ?thesis using assms by (simp add: wf_weekly_def list_all_length)
qed

section \<open>What the questions answer\<close>

lemma wf_day_order:
  assumes "wf_day ws" "x \<in> set ws" "y \<in> set ws"
  shows "x = y \<or> w_close x \<le> w_open y \<or> w_close y \<le> w_open x"
  using assms by (induction ws) (auto simp: wf_day_def)

lemma wf_day_window: "wf_day ws \<Longrightarrow> x \<in> set ws \<Longrightarrow> wf_window x"
  by (simp add: wf_day_def list_all_iff)

lemma window_unique:
  assumes "wf_day ws" "x \<in> set ws" "y \<in> set ws" "window_contains x m" "window_contains y m"
  shows "x = y"
  using wf_day_order [OF assms(1-3)] assms(4,5) by (auto simp: window_contains_def)

lemma covers_iff: "covers w t \<longleftrightarrow> (\<exists>x \<in> set (w ! nat (weekday_at t)). window_contains x (minutes_at t))"
  by (simp add: covers_def list_ex_iff)

lemma ends_after_Some_iff:
  assumes "wf_weekly w"
  shows "ends_after w t = Some c \<longleftrightarrow>
    (\<exists>x \<in> set (w ! nat (weekday_at t)). window_contains x (minutes_at t) \<and> w_close x = c)"
proof -
  let ?ws = "w ! nat (weekday_at t)" and ?P = "\<lambda>x. window_contains x (minutes_at t)"
  have wd: "wf_day ?ws" using wf_day_at assms weekday_at_bounds by blast
  show ?thesis
  proof
    assume "ends_after w t = Some c"
    then show "\<exists>x\<in>set ?ws. ?P x \<and> w_close x = c"
      by (auto simp: ends_after_def dest: find_Some_mem)
  next
    assume "\<exists>x\<in>set ?ws. ?P x \<and> w_close x = c"
    then obtain x where x: "x \<in> set ?ws" "?P x" "w_close x = c" by blast
    then obtain y where y: "find ?P ?ws = Some y" by (cases "find ?P ?ws") (auto simp: find_None_iff)
    then have "y = x" using find_Some_mem [OF y] window_unique [OF wd] x by blast
    then show "ends_after w t = Some c" using y x by (simp add: ends_after_def)
  qed
qed

lemma ends_after_None_iff: "ends_after w t = None \<longleftrightarrow> \<not> covers w t"
  by (auto simp: ends_after_def covers_iff find_None_iff)

definition starts_ahead :: "weekly \<Rightarrow> instant \<Rightarrow> int \<Rightarrow> window \<Rightarrow> bool" where
  "starts_ahead w t k x \<longleftrightarrow> 0 \<le> k \<and> k \<le> 6 \<and> x \<in> set (w ! nat ((weekday_at t + k) mod 7))
     \<and> (k > 0 \<or> w_open x > minutes_at t)"

lemma find_first_open:
  assumes "wf_day ws" "find P ws = Some x" "y \<in> set ws" "P y"
  shows "w_open x \<le> w_open y"
  using assms
proof (induction ws)
  case Nil
  then show ?case by simp
next
  case (Cons v ws)
  then have v: "wf_window v" "wf_day ws" "\<forall>u\<in>set ws. w_close v \<le> w_open u"
    by (auto simp: wf_day_def)
  show ?case
  proof (cases "P v")
    case True
    then have "x = v" using Cons.prems by simp
    then show ?thesis using v Cons.prems(3) by (auto simp: wf_window_def dest!: bspec)
  next
    case False
    then show ?thesis using Cons v by auto
  qed
qed

lemma next_from_Some:
  assumes "wf_weekly w" "0 \<le> day" "sorted_wrt (<) ks"
  shows "next_from w day now ks = Some s \<longleftrightarrow>
    (\<exists>k\<in>set ks. \<exists>x\<in>set (w ! nat ((day + k) mod 7)). (k > 0 \<or> w_open x > now) \<and> s = w_open x \<and>
      (\<forall>k'\<in>set ks. \<forall>x'\<in>set (w ! nat ((day + k') mod 7)). (k' > 0 \<or> w_open x' > now) \<longrightarrow>
         k < k' \<or> k = k' \<and> w_open x \<le> w_open x'))"
  using assms(3)
proof (induction ks)
  case Nil
  then show ?case by simp
next
  case (Cons a ks)
  let ?ws = "w ! nat ((day + a) mod 7)" and ?P = "\<lambda>x. a > 0 \<or> w_open x > now"
  have wd: "wf_day ?ws" using assms by (intro wf_day_at) auto
  show ?case
  proof (cases "find ?P ?ws")
    case None
    then have none: "\<not> ?P x" if "x \<in> set ?ws" for x using that by (auto simp: find_None_iff)
    have "next_from w day now (a # ks) = next_from w day now ks" using None by simp
    then show ?thesis using Cons none by auto
  next
    case (Some y)
    have y: "y \<in> set ?ws" "?P y" using find_Some_mem [OF Some] by auto
    have least: "w_open y \<le> w_open x" if "x \<in> set ?ws" "?P x" for x
      using find_first_open [OF wd Some] that by blast
    have lt: "\<forall>k\<in>set ks. a < k" using Cons.prems by simp
    have "next_from w day now (a # ks) = Some (w_open y)" using Some by simp
    then show ?thesis using y least lt by (auto 0 4 intro: order.antisym)
  qed
qed

lemma next_from_None:
  "next_from w day now ks = None \<longleftrightarrow>
    (\<forall>k\<in>set ks. \<forall>x\<in>set (w ! nat ((day + k) mod 7)). \<not> (k > 0 \<or> w_open x > now))"
  by (induction ks) (auto simp: find_None_iff split: option.split dest: find_Some_mem)

section \<open>Round trip through the storage form\<close>

lemma time_of_day_digits:
  assumes "0 \<le> t" "t \<le> 1440"
  shows "time_of_day_text t = fmt02 (t div 60) @ CHR '':'' # fmt02 (t mod 60)"
    and "0 \<le> t div 60" "t div 60 \<le> 24" "0 \<le> t mod 60" "t mod 60 < 60"
  using assms by (simp_all add: time_of_day_text_def quot64_nonneg rem64_nonneg)

lemma no_sep_digits: "list_all is_digit s \<Longrightarrow> \<not> is_digit c \<Longrightarrow> c \<notin> set s"
  by (auto simp: list_all_iff)

lemma time_text_shape:
  assumes "0 \<le> t" "t \<le> 1440"
  shows "trim_space (time_of_day_text t) = time_of_day_text t"
    and "CHR ''-'' \<notin> set (time_of_day_text t)"
    and "plain_byte (hd (time_of_day_text t))" and "plain_byte (last (time_of_day_text t))"
    and "time_of_day_text t \<noteq> []"
proof -
  note d = time_of_day_digits [OF assms]
  have a: "length (fmt02 (t div 60)) = 2" "list_all is_digit (fmt02 (t div 60))"
    "length (fmt02 (t mod 60)) = 2" "list_all is_digit (fmt02 (t mod 60))"
    using d(2-) by (auto intro!: fmt02_shape)
  have ne: "fmt02 (t div 60) \<noteq> []" "fmt02 (t mod 60) \<noteq> []" using a by auto
  have "hd (fmt02 (t div 60)) \<in> set (fmt02 (t div 60))" "last (fmt02 (t mod 60)) \<in> set (fmt02 (t mod 60))"
    using ne by simp_all
  then have "is_digit (hd (fmt02 (t div 60)))" "is_digit (last (fmt02 (t mod 60)))"
    using a by (auto simp: list_all_iff)
  then show p: "plain_byte (hd (time_of_day_text t))" "plain_byte (last (time_of_day_text t))"
    using ne by (simp_all add: d(1) plain_digit)
  then show "trim_space (time_of_day_text t) = time_of_day_text t" by (simp add: trim_space_plain)
  show "CHR ''-'' \<notin> set (time_of_day_text t)" "time_of_day_text t \<noteq> []"
    using a no_sep_digits [of _ "CHR ''-''"] by (simp_all add: d(1))
qed

lemma parse_time_of_day_text:
  assumes "0 \<le> t" "t \<le> 1440"
  shows "parse_time_of_day (time_of_day_text t) = Inr t"
proof -
  note d = time_of_day_digits [OF assms]
  have a: "length (fmt02 (t div 60)) = 2" "list_all is_digit (fmt02 (t div 60))"
    "length (fmt02 (t mod 60)) = 2" "list_all is_digit (fmt02 (t mod 60))"
    using d(2-) by (auto intro!: fmt02_shape)
  have split: "split_on CHR '':'' (time_of_day_text t) = [fmt02 (t div 60), fmt02 (t mod 60)]"
    using a no_sep_digits [of _ "CHR '':''"] by (simp add: d(1) split_on_pair)
  have at: "atoi (fmt02 (t div 60)) = Some (t div 60)" "atoi (fmt02 (t mod 60)) = Some (t mod 60)"
    using d(2-) by (auto intro!: atoi_fmt02)
  have "\<not> (t div 60 = 24 \<and> t mod 60 \<noteq> 0)" using assms by presburger
  then have "new_time_of_day (t div 60) (t mod 60) = Inr t"
    using d(2-) assms by (auto simp: new_time_of_day_def)
  then show ?thesis using split at a time_text_shape(1) [OF assms]
    by (simp add: parse_time_of_day_def)
qed

lemma parse_window_text:
  assumes "wf_window w"
  shows "parse_window (window_text w) = Inr w"
proof -
  have b: "0 \<le> w_open w" "w_open w \<le> 1440" "0 \<le> w_close w" "w_close w \<le> 1440"
    using assms by (auto simp: wf_window_def end_of_day_def)
  note o = time_text_shape [OF b(1,2)] and c = time_text_shape [OF b(3,4)]
  have "trim_space (window_text w) = window_text w"
    using o(3,5) c(4,5) by (intro trim_space_plain) (auto simp: window_text_def)
  moreover have "cut_on CHR ''-'' (window_text w) = Some (time_of_day_text (w_open w), time_of_day_text (w_close w))"
    using o(2) by (simp add: window_text_def cut_on_append)
  ultimately show ?thesis
    using parse_time_of_day_text b new_window_wf [OF assms] by (simp add: parse_window_def)
qed

lemma decode_days_texts:
  assumes "\<forall>d\<in>set ds. 0 \<le> d \<and> d \<le> 6" "distinct (map fst days @ ds)"
    "\<forall>d\<in>set ds. list_all wf_window (f d)"
  shows "decode_days (map (\<lambda>d. (itoa d, map window_text (f d))) ds) days = Inr (days @ map (\<lambda>d. (d, f d)) ds)"
  using assms
proof (induction ds arbitrary: days)
  case Nil
  then show ?case by simp
next
  case (Cons d ds)
  have "atoi (itoa d) = Some d" using Cons.prems(1) by (intro atoi_itoa) (auto simp: fits64_def)
  moreover have "rmap parse_window (map window_text (f d)) = Inr (f d)"
    using Cons.prems(3) by (intro rmap_map parse_window_text) (auto simp: list_all_iff)
  moreover have "AList.update d (f d) days = days @ [(d, f d)]" using Cons.prems(2)
    by (induction days) auto
  ultimately show ?case using Cons.IH [of "days @ [(d, f d)]"] Cons.prems by simp
qed

lemma fill_days_of:
  assumes "wf_weekly w" "\<forall>d\<in>set ds. 0 \<le> d \<and> d \<le> 6 \<and> (m > 0 \<longrightarrow> int (length (w ! nat d)) \<le> m)"
  shows "fill_days (map (\<lambda>d. (d, w ! nat d)) ds) m v = Inr (foldl (\<lambda>u d. u[nat d := w ! nat d]) v ds)"
  using assms(2)
proof (induction ds arbitrary: v)
  case Nil
  then show ?case by simp
next
  case (Cons d ds)
  then have "wf_day (w ! nat d)" using assms(1) by (intro wf_day_at) auto
  then have "check_windows None (stable_sort opens_before (w ! nat d)) = None"
    "stable_sort opens_before (w ! nat d) = w ! nat d"
    by (simp_all add: opens_sorted_wf check_windows_None) (simp_all add: wf_day_def)
  then show ?case using Cons by auto
qed

lemma foldl_upd_nth:
  fixes w :: "'a list"
  assumes "\<forall>d\<in>set ds. 0 \<le> d"
  shows "i < length v \<Longrightarrow> foldl (\<lambda>u d. u[nat d := w ! nat d]) v ds ! i = (if int i \<in> set ds then w ! i else v ! i)"
    and "length (foldl (\<lambda>u d. u[nat d := w ! nat d]) v ds) = length v"
  using assms by (induction ds arbitrary: v) (auto simp: nth_list_update)

lemma encode_week_days:
  "encode_week w = map (\<lambda>d. (itoa d, map window_text (w ! nat d)))
     (filter (\<lambda>d. w ! nat d \<noteq> []) [0, 1, 2, 3, 4, 5, 6])"
  by (simp add: encode_week_def)

lemma decode_encoded:
  assumes "wf_weekly w" and "m > 0 \<longrightarrow> (\<forall>ws\<in>set w. int (length ws) \<le> m)"
  shows "decode_week (encode_week w) m = Inr w"
proof -
  define ds where "ds = filter (\<lambda>d. w ! nat d \<noteq> []) [0, 1, 2, 3, 4, 5, 6 :: int]"
  have len: "length w = 7" using assms(1) by (simp add: wf_weekly_def)
  have ds: "\<forall>d\<in>set ds. 0 \<le> d \<and> d \<le> 6" "distinct ds" by (auto simp: ds_def)
  have inw: "w ! nat d \<in> set w" if "d \<in> set ds" for d
    using that ds(1) len by (intro nth_mem) auto
  have wfd: "list_all wf_window (w ! nat d)" if "d \<in> set ds" for d
    using wf_day_at [OF assms(1)] ds(1) that by (auto simp: wf_day_def)
  have "encode_week w = map (\<lambda>d. (itoa d, map window_text (w ! nat d))) ds"
    by (simp only: encode_week_days ds_def)
  then have "decode_days (encode_week w) [] = Inr (map (\<lambda>d. (d, w ! nat d)) ds)"
    using decode_days_texts [of ds "[]" "\<lambda>d. w ! nat d"] ds wfd by simp
  moreover have "new_weekly (map (\<lambda>d. (d, w ! nat d)) ds) m = Inr (foldl (\<lambda>u d. u[nat d := w ! nat d]) no_week ds)"
    unfolding new_weekly_def using ds assms inw by (intro fill_days_of) auto
  moreover have "foldl (\<lambda>u d. u[nat d := w ! nat d]) no_week ds = w"
  proof (rule nth_equalityI)
    show "length (foldl (\<lambda>u d. u[nat d := w ! nat d]) no_week ds) = length w"
      using foldl_upd_nth(2) [of ds w no_week] ds(1) len by (simp add: no_week_def)
    fix i assume "i < length (foldl (\<lambda>u d. u[nat d := w ! nat d]) no_week ds)"
    then have i: "i < 7" using foldl_upd_nth(2) [of ds w no_week] ds(1) by (simp add: no_week_def)
    have "int i = 0 \<or> int i = 1 \<or> int i = 2 \<or> int i = 3 \<or> int i = 4 \<or> int i = 5 \<or> int i = 6"
      using i by linarith
    then have "int i \<in> set [0, 1, 2, 3, 4, 5, 6]" by simp
    then have "int i \<in> set ds \<longleftrightarrow> w ! i \<noteq> []" unfolding ds_def set_filter by simp
    then show "foldl (\<lambda>u d. u[nat d := w ! nat d]) no_week ds ! i = w ! i"
      using foldl_upd_nth(1) [of ds i no_week w] ds(1) i by (simp add: no_week_def)
  qed
  ultimately show ?thesis by (simp add: decode_week_def)
qed

text \<open>C25: A timetable that was accepted by \<open>New\<close> or put together by \<open>Decode\<close> survives storage:
  decoding what \<open>Encode\<close> rendered gives the same seven days of windows, provided no day holds
  more windows than the limit the decoder is given.\<close>

theorem decode_encode_week:
  assumes "wf_weekly w" and "m > 0 \<longrightarrow> (\<forall>ws\<in>set w. int (length ws) \<le> m)"
  shows "decode_week (encode_week w) m = Inr w"
  by (rule decode_encoded [OF assms])

lemma decode_encode_week_witness:
  "decode_week (encode_week (every_day \<lparr>w_open = 600, w_close = 1320\<rparr>)) 3
     = Inr (every_day \<lparr>w_open = 600, w_close = 1320\<rparr>)"
  by (rule decode_encode_week) (auto simp: wf_window_def end_of_day_def every_day_def intro!: every_day_wf [unfolded every_day_def])

text \<open>C26: \<open>NextStart\<close> answers the first window that opens from now through the sixth day ahead,
  by day and then by opening time, and answers nothing exactly when none does; a window that only
  opens earlier on today's weekday is therefore never found, although it opens again within the
  week the comment promises to search.\<close>

theorem next_start_exact:
  assumes "wf_weekly w"
  shows "(next_start w t = None \<longleftrightarrow> (\<forall>k x. \<not> starts_ahead w t k x)) \<and>
    (next_start w t = Some s \<longleftrightarrow>
       (\<exists>k x. starts_ahead w t k x \<and> s = w_open x \<and>
          (\<forall>k' x'. starts_ahead w t k' x' \<longrightarrow> k < k' \<or> k = k' \<and> w_open x \<le> w_open x')))"
proof -
  have "set [0, 1, 2, 3, 4, 5, 6 :: int] = {k. 0 \<le> k \<and> k \<le> 6}" by auto
  then have six: "(\<forall>k\<in>set [0, 1, 2, 3, 4, 5, 6]. P k) \<longleftrightarrow> (\<forall>k. 0 \<le> k \<and> k \<le> 6 \<longrightarrow> P k)"
    "(\<exists>k\<in>set [0, 1, 2, 3, 4, 5, 6]. P k) \<longleftrightarrow> (\<exists>k. 0 \<le> k \<and> k \<le> 6 \<and> P k)" for P :: "int \<Rightarrow> bool"
    by auto
  have "sorted_wrt (<) [0, 1, 2, 3, 4, 5, 6 :: int]" by simp
  note some = next_from_Some [OF assms weekday_at_bounds(1) this, of t "minutes_at t" s]
  show ?thesis
    unfolding next_start_def next_from_None some six starts_ahead_def by (intro conjI) blast+
qed

lemma next_start_exact_witness:
  "next_start (no_week[1 := [\<lparr>w_open = 540, w_close = 720\<rparr>]]) (7 * hour) = None"
proof -
  let ?w = "no_week[1 := [\<lparr>w_open = 540, w_close = 720\<rparr>]]"
  have day: "weekday_at (7 * hour) = 1" "minutes_at (7 * hour) = 780"
    by (simp_all add: weekday_at_def minutes_at_def bangladesh_def time_defs)
  have k: "(1 + k) mod 7 \<noteq> 1" if "0 < k" "k \<le> 6" for k :: int using that by presburger
  have "\<not> starts_ahead ?w (7 * hour) k x" for k x
  proof
    assume s: "starts_ahead ?w (7 * hour) k x"
    then have k06: "0 \<le> k" "k \<le> 6" by (simp_all add: starts_ahead_def)
    have "nat ((1 + k) mod 7) < 7" by simp
    moreover have "nat ((1 + k) mod 7) = 1 \<longleftrightarrow> (1 + k) mod 7 = 1" by linarith
    ultimately show False using s k [of k] k06
      by (cases "k = 0") (auto simp: starts_ahead_def day no_week_def nth_list_update split: if_splits)
  qed
  moreover have "wf_weekly ?w"
    by (simp add: wf_weekly_def no_week_def wf_day_def wf_window_def end_of_day_def numeral_eq_Suc)
  ultimately show ?thesis using next_start_exact [of ?w "7 * hour"] by blast
qed

end
