(* ===== verification/Errs.thy ===== *)
theory Errs
  imports GoStrings "HOL-Library.AList"
begin

text \<open>
  The backend's error vocabulary (\<open>shared/errs/errs.go\<close>) and its carrier of a value or an
  error (\<open>shared/result/result.go\<close>).  An error is a sentinel made by \<open>errors.New\<close>, a
  sentinel wrapped in more text by \<open>fmt.Errorf("%w ...")\<close>, or the package's own
  \<open>*errs.Error\<close> with its kind, code, message, fields and cause.  A nil error is \<open>None\<close>.
\<close>

section \<open>Kinds\<close>

datatype kind =
    KindInternal | KindInvalid | KindNotFound | KindConflict | KindUnauthorized
  | KindForbidden | KindRateLimited | KindUnavailable

fun kind_string :: "kind \<Rightarrow> string" where
  "kind_string KindInvalid = ''invalid''"
| "kind_string KindNotFound = ''not_found''"
| "kind_string KindConflict = ''conflict''"
| "kind_string KindUnauthorized = ''unauthorized''"
| "kind_string KindForbidden = ''forbidden''"
| "kind_string KindRateLimited = ''rate_limited''"
| "kind_string KindUnavailable = ''unavailable''"
| "kind_string KindInternal = ''internal''"

lemma kind_string_inject [simp]: "kind_string a = kind_string b \<longleftrightarrow> a = b"
  by (cases a; cases b) simp_all

section \<open>Errors\<close>

datatype error =
    Sentinel string
  | Wrapf string error
  | AppError (err_kind: kind) (err_code: string) (err_message: string)
      (err_fields: "(string \<times> string) list") (err_wrapped: "error option")

definition new_error :: "kind \<Rightarrow> string \<Rightarrow> string \<Rightarrow> error" where
  "new_error k c m = AppError k c m [] None"

definition wrap_error :: "error option \<Rightarrow> kind \<Rightarrow> string \<Rightarrow> string \<Rightarrow> error option" where
  "wrap_error cause k c m =
     (case cause of None \<Rightarrow> None | Some e \<Rightarrow> Some (AppError k c m [] (Some e)))"

text \<open>\<open>Wrap\<close> where the cause is known not to be nil, as every call in the use cases.\<close>

definition wrap :: "error \<Rightarrow> kind \<Rightarrow> string \<Rightarrow> string \<Rightarrow> error" where
  "wrap e k c m = AppError k c m [] (Some e)"

lemma wrap_error_Some: "wrap_error (Some e) k c m = Some (wrap e k c m)"
  by (simp add: wrap_error_def wrap_def)

fun with_field :: "error \<Rightarrow> string \<Rightarrow> string \<Rightarrow> error" where
  "with_field (AppError k c m fs w) key v = AppError k c m (AList.update key v fs) w"
| "with_field e key v = e"

fun unwrap :: "error \<Rightarrow> error option" where
  "unwrap (Sentinel s) = None"
| "unwrap (Wrapf s e) = Some e"
| "unwrap (AppError k c m fs w) = w"

text \<open>\<open>errors.As(err, &e)\<close>: the first \<open>*errs.Error\<close> along the chain of causes.\<close>

fun as_app :: "error \<Rightarrow> error option" where
  "as_app (Sentinel s) = None"
| "as_app (Wrapf s e) = as_app e"
| "as_app (AppError k c m fs w) = Some (AppError k c m fs w)"

text \<open>\<open>errors.Is(err, target)\<close> for a sentinel target.\<close>

fun is_sentinel :: "error \<Rightarrow> string \<Rightarrow> bool" where
  "is_sentinel (Sentinel s) t = (s = t)"
| "is_sentinel (Wrapf s e) t = is_sentinel e t"
| "is_sentinel (AppError k c m fs w) t = (case w of None \<Rightarrow> False | Some e \<Rightarrow> is_sentinel e t)"

fun error_text :: "error \<Rightarrow> string" where
  "error_text (Sentinel s) = s"
| "error_text (Wrapf s e) = s"
| "error_text (AppError k c m fs w) =
     c @ (if m \<noteq> [] then '': '' @ m else []) @
     (case w of None \<Rightarrow> [] | Some e \<Rightarrow> '': '' @ error_text e)"

definition fields_copy :: "error \<Rightarrow> (string \<rightharpoonup> string)" where
  "fields_copy e = (case e of AppError k c m fs w \<Rightarrow> map_of fs | _ \<Rightarrow> Map.empty)"

definition field_keys :: "error \<Rightarrow> string list" where
  "field_keys e = (case e of AppError k c m fs w \<Rightarrow> stable_sort (<) (map fst fs) | _ \<Rightarrow> [])"

definition kind_of :: "error option \<Rightarrow> kind" where
  "kind_of err = (case err of None \<Rightarrow> KindInternal
     | Some e \<Rightarrow> (case as_app e of Some a \<Rightarrow> err_kind a | None \<Rightarrow> KindInternal))"

definition code_of :: "error option \<Rightarrow> string" where
  "code_of err = (case err of None \<Rightarrow> ''internal_error''
     | Some e \<Rightarrow> (case as_app e of Some a \<Rightarrow> err_code a | None \<Rightarrow> ''internal_error''))"

definition message_of :: "error option \<Rightarrow> string" where
  "message_of err = (case err of None \<Rightarrow> ''Something went wrong. Please try again.''
     | Some e \<Rightarrow> (case as_app e of
         Some a \<Rightarrow> if err_message a \<noteq> [] then err_message a
                   else ''Something went wrong. Please try again.''
       | None \<Rightarrow> ''Something went wrong. Please try again.''))"

definition is_kind :: "error option \<Rightarrow> kind \<Rightarrow> bool" where
  "is_kind err k \<longleftrightarrow> kind_of err = k"

lemma kind_of_simps [simp]:
  "kind_of None = KindInternal"
  "kind_of (Some (AppError k c m fs w)) = k"
  "kind_of (Some (new_error k c m)) = k"
  "kind_of (Some (wrap e k c m)) = k"
  "kind_of (Some (Sentinel s)) = KindInternal"
  "kind_of (Some (Wrapf s e)) = kind_of (Some e)"
  by (simp_all add: kind_of_def new_error_def wrap_def)

lemma code_of_simps [simp]:
  "code_of None = ''internal_error''"
  "code_of (Some (AppError k c m fs w)) = c"
  "code_of (Some (new_error k c m)) = c"
  "code_of (Some (wrap e k c m)) = c"
  "code_of (Some (Sentinel s)) = ''internal_error''"
  "code_of (Some (Wrapf s e)) = code_of (Some e)"
  by (simp_all add: code_of_def new_error_def wrap_def)

text \<open>
  A message shown to a user never comes from an error that is not the package's own: it is
  the message written for users on the first \<open>*errs.Error\<close> of the chain, or the generic
  sentence.
\<close>

lemma message_of_safe:
  "message_of (Some e) \<noteq> ''Something went wrong. Please try again.'' \<Longrightarrow>
     \<exists>k c m fs w. as_app e = Some (AppError k c m fs w) \<and> message_of (Some e) = m"
  by (induction e) (auto simp: message_of_def split: if_splits)

lemma with_field_keeps [simp]:
  "kind_of (Some (with_field e k v)) = kind_of (Some e)"
  "code_of (Some (with_field e k v)) = code_of (Some e)"
  by (cases e; simp)+

lemma with_field_lookup:
  "e = AppError kd c m fs w \<Longrightarrow> fields_copy (with_field e k v) = (fields_copy e)(k \<mapsto> v)"
  by (simp add: fields_copy_def AList.update_conv')

interpretation key_order: strict_total_order "(<) :: string \<Rightarrow> string \<Rightarrow> bool"
  by unfold_locales (auto simp: not_less)

lemma field_keys_sorted: "sorted_wrt (\<lambda>a b. a \<le> b) (field_keys e)"
  using key_order.sorted_stable_sort
  by (cases e) (auto simp: field_keys_def not_less)

section \<open>A value or an error as one item\<close>

type_synonym 'a result = "error + 'a"

definition result_ok :: "'a \<Rightarrow> 'a result" where
  "result_ok v = Inr v"

definition result_err :: "error \<Rightarrow> 'a result" where
  "result_err e = Inl e"

definition value_or :: "'a result \<Rightarrow> 'a \<Rightarrow> 'a" where
  "value_or r d = (case r of Inl e \<Rightarrow> d | Inr v \<Rightarrow> v)"

definition result_map :: "'a result \<Rightarrow> ('a \<Rightarrow> 'b) \<Rightarrow> 'b result" where
  "result_map r f = (case r of Inl e \<Rightarrow> Inl e | Inr v \<Rightarrow> Inr (f v))"

fun partition_results :: "'a result list \<Rightarrow> 'a list \<times> error list" where
  "partition_results [] = ([], [])"
| "partition_results (r # rs) =
     (let (vs, es) = partition_results rs
      in case r of Inl e \<Rightarrow> (vs, e # es) | Inr v \<Rightarrow> (v # vs, es))"

lemma partition_results_eq:
  "partition_results rs = ([v. Inr v \<leftarrow> rs], [e. Inl e \<leftarrow> rs])"
  by (induction rs) (auto split: sum.splits)

lemma partition_results_complete:
  "partition_results rs = (vs, es) \<Longrightarrow> length vs + length es = length rs"
proof (induction rs arbitrary: vs es)
  case Nil
  then show ?case by simp
next
  case (Cons r rs)
  obtain v1 e1 where "partition_results rs = (v1, e1)" by fastforce
  with Cons show ?case by (auto split: sum.splits)
qed

end
