(* ===== verification/Ids.thy ===== *)
theory Ids
  imports GoTime
begin

text \<open>
  \<open>shared/id/id.go\<close>: identifiers made of a prefix, ten characters of the millisecond they were
  made in and sixteen random ones, in Crockford's base 32.  The entropy source hands out sixteen
  bytes; a failing source makes \<open>New\<close> panic, which is not modelled.
\<close>

definition alphabet :: string where
  "alphabet = ''0123456789ABCDEFGHJKMNPQRSTVWXYZ''"

definition time_chars :: nat where "time_chars = 10"
definition rand_chars :: nat where "rand_chars = 16"

fun time_part :: "nat \<Rightarrow> int64 \<Rightarrow> string" where
  "time_part 0 ms = []"
| "time_part (Suc i) ms = alphabet ! nat ((ms div 32 ^ i) mod 32) # time_part i ms"

definition rand_part :: "nat list \<Rightarrow> string" where
  "rand_part buf = map (\<lambda>v. alphabet ! (v mod 32)) buf"

definition new_id :: "string \<Rightarrow> int64 \<Rightarrow> nat list \<Rightarrow> string" where
  "new_id pre ms buf =
     (if pre \<noteq> [] then pre @ ''_'' else []) @ time_part time_chars ms @ rand_part (take rand_chars buf)"

fun parse_time :: "string \<Rightarrow> int64 \<Rightarrow> int64 option" where
  "parse_time [] ms = Some ms"
| "parse_time (c # cs) ms =
     (case index_byte alphabet c of None \<Rightarrow> None | Some v \<Rightarrow> parse_time cs (wrap64 (ms * 32 + int v)))"

definition parse_id :: "string \<Rightarrow> instant option" where
  "parse_id s0 =
     (let s1 = after_last CHR ''_'' s0
      in if length s1 \<noteq> time_chars + rand_chars then None
         else let s = to_upper s1
              in case parse_time (take time_chars s) 0 of
                   None \<Rightarrow> None
                 | Some ms \<Rightarrow>
                     (if list_ex (\<lambda>c. index_byte alphabet c = None) (drop time_chars s) then None
                      else Some (time_unix_milli ms)))"

section \<open>The alphabet\<close>

lemma alphabet_length [simp]: "length alphabet = 32"
  by (simp add: alphabet_def)

lemma less32_cases: "(\<And>i. i \<in> set [0 ..< 32] \<Longrightarrow> P i) \<Longrightarrow> i < 32 \<Longrightarrow> P (i :: nat)"
  by simp

lemma alphabet_facts:
  assumes "i < 32"
  shows "index_byte alphabet (alphabet ! i) = Some i" and "upper_char (alphabet ! i) = alphabet ! i"
    and "alphabet ! i \<noteq> CHR ''_''"
proof -
  have "list_all (\<lambda>i. index_byte alphabet (alphabet ! i) = Some i \<and> upper_char (alphabet ! i) = alphabet ! i
      \<and> alphabet ! i \<noteq> CHR ''_'') [0 ..< 32]"
    by code_simp
  then show "index_byte alphabet (alphabet ! i) = Some i" "upper_char (alphabet ! i) = alphabet ! i"
    "alphabet ! i \<noteq> CHR ''_''"
    using assms by (auto simp: list_all_iff)
qed

lemma alphabet_increasing:
  assumes "i < j" "j < 32"
  shows "alphabet ! i < alphabet ! j"
proof -
  have "sorted_wrt (<) alphabet" by code_simp
  then show ?thesis using assms by (simp add: sorted_wrt_iff_nth_less)
qed

lemma digit32: "nat ((ms div 32 ^ i) mod 32) < 32"
  by simp

section \<open>Reading an identifier back\<close>

lemma length_time_part [simp]: "length (time_part k ms) = k"
  by (induction k) auto

lemma time_part_mem: "c \<in> set (time_part k ms) \<Longrightarrow> \<exists>i<32. c = alphabet ! i"
  by (induction k) (auto intro: digit32)

lemma rand_part_mem: "c \<in> set (rand_part buf) \<Longrightarrow> \<exists>i<32. c = alphabet ! i"
  by (auto simp: rand_part_def) (metis mod_less_divisor zero_less_numeral)

lemma upper_time_part [simp]: "map upper_char (time_part k ms) = time_part k ms"
  by (induction k) (simp_all add: alphabet_facts)

lemma upper_rand_part [simp]: "map upper_char (rand_part buf) = rand_part buf"
  by (simp add: rand_part_def alphabet_facts)

lemma parse_time_part:
  assumes "0 \<le> n" "n < 2 ^ 50" "k \<le> 10"
  shows "parse_time (time_part k n) (n div 32 ^ k) = Some n"
  using assms(3)
proof (induction k)
  case 0
  then show ?case by simp
next
  case (Suc k)
  have "n div 32 ^ Suc k * 32 + n div 32 ^ k mod 32 = n div 32 ^ k"
    by (simp add: zdiv_zmult2_eq mult.commute [of 32] minus_mod_eq_mult_div [symmetric] div_mod_decomp_int [symmetric])
  moreover have "0 \<le> n div 32 ^ k" "n div 32 ^ k \<le> n"
    using assms zdiv_mono2 [of n 1 "32 ^ k"] by (simp_all add: pos_imp_zdiv_nonneg_iff)
  moreover from this have "fits64 (n div 32 ^ k)" using assms(2) by (simp add: fits64_def)
  ultimately show ?case using Suc by (simp add: alphabet_facts digit32)
qed

text \<open>The time of every identifier can be read back from it, whatever its prefix and random part:
  \<open>Parse\<close> returns the millisecond \<open>New\<close> saw, for any time of the next thirty-five thousand years.\<close>

theorem parse_new_id:
  assumes "0 \<le> ms" "ms < 2 ^ 50" "16 \<le> length buf"
  shows "parse_id (new_id pre ms buf) = Some (time_unix_milli ms)"
proof -
  let ?t = "time_part time_chars ms" and ?r = "rand_part (take rand_chars buf)"
  have "CHR ''_'' \<notin> set (?t @ ?r)"
    using time_part_mem rand_part_mem alphabet_facts(3) by fastforce
  then have after: "after_last CHR ''_'' (new_id pre ms buf) = ?t @ ?r"
    using after_last_no [of "CHR ''_''" "?t @ ?r" pre] after_last_id [of "CHR ''_''" "?t @ ?r"]
    by (auto simp: new_id_def)
  have len: "length (?t @ ?r) = time_chars + rand_chars"
    using assms(3) by (simp add: rand_part_def rand_chars_def)
  have up: "to_upper (?t @ ?r) = ?t @ ?r" by (simp add: to_upper_def)
  have "ms div 32 ^ 10 = 0" using assms by simp
  then have "parse_time ?t 0 = Some ms"
    using parse_time_part [OF assms(1,2), of 10] by (simp add: time_chars_def)
  moreover have "\<not> list_ex (\<lambda>c. index_byte alphabet c = None) ?r"
    using rand_part_mem alphabet_facts(1) by (fastforce simp: list_ex_iff)
  ultimately show ?thesis using len up
    by (simp add: parse_id_def after Let_def)
qed

lemma parse_new_id_witness:
  "parse_id (new_id ''ORD'' 1770000000000 (replicate 16 7)) = Some (time_unix_milli 1770000000000)"
  by (rule parse_new_id) simp_all

section \<open>Order of creation\<close>

lemma time_part_less:
  assumes "0 \<le> a" "0 \<le> b"
  shows "a mod 32 ^ k < b mod 32 ^ k \<Longrightarrow> time_part k a @ x < time_part k b @ y"
proof (induction k)
  case 0
  then show ?case by simp
next
  case (Suc k)
  have split: "n mod 32 ^ Suc k = (n div 32 ^ k mod 32) * 32 ^ k + n mod 32 ^ k" for n :: int
    by (simp add: mult.commute [of 32] mod_mult2_eq zmod_zmult2_eq)
  let ?a = "a div 32 ^ k mod 32" and ?b = "b div 32 ^ k mod 32"
  have m: "0 \<le> a mod 32 ^ k" "a mod 32 ^ k < 32 ^ k" "0 \<le> b mod 32 ^ k" "b mod 32 ^ k < 32 ^ k" by simp_all
  have "?a < ?b \<or> ?a = ?b \<and> a mod 32 ^ k < b mod 32 ^ k"
  proof (rule ccontr)
    assume "\<not> ?thesis"
    then consider "?b < ?a" | "?a = ?b" "b mod 32 ^ k \<le> a mod 32 ^ k" by linarith
    then show False
    proof cases
      case 1
      then have "(?b + 1) * 32 ^ k \<le> ?a * 32 ^ k" by (intro mult_right_mono) simp_all
      then show False using Suc.prems split [of a] split [of b] m by (simp add: distrib_right)
    next
      case 2
      then show False using Suc.prems split [of a] split [of b] by simp
    qed
  qed
  then show ?case
  proof
    assume "?a < ?b"
    then have "alphabet ! nat ?a < alphabet ! nat ?b" by (intro alphabet_increasing) simp_all
    then show ?thesis by simp
  next
    assume "?a = ?b \<and> a mod 32 ^ k < b mod 32 ^ k"
    then show ?thesis using Suc.IH by simp
  qed
qed

text \<open>Identifiers of one kind sort in the order they were made: an earlier millisecond gives a
  smaller text.\<close>

theorem new_id_time_ordered:
  assumes "0 \<le> a" "a < b" "b < 2 ^ 50"
  shows "new_id pre a x < new_id pre b y"
proof -
  have "a mod 32 ^ time_chars < b mod 32 ^ time_chars"
    using assms by (simp add: time_chars_def)
  then have "time_part time_chars a @ rand_part (take rand_chars x) < time_part time_chars b @ rand_part (take rand_chars y)"
    using assms by (intro time_part_less) auto
  moreover have "u < v \<Longrightarrow> p @ u < p @ v" for p u v :: string by (induction p) auto
  ultimately show ?thesis by (simp add: new_id_def)
qed

lemma new_id_time_ordered_witness:
  "new_id ''ORD'' 1770000000000 (replicate 16 31) < new_id ''ORD'' 1770000000001 (replicate 16 0)"
  by (rule new_id_time_ordered) simp_all

end
