(* ===== verification/Ops.thy ===== *)
theory Ops
  imports Errs Ids
begin

text \<open>
  The setting the use cases run in.  A \<open>world\<close> is the shared store and what the outside answers:
  at each database call the other requests may first have changed the store (\<open>w_others\<close>) and the
  call itself may fail (\<open>w_fault\<close>); the clock and the entropy source are sequences of readings.
  An operation is a function of the world that returns a value or an error, as the Go functions
  do, and it keeps its changes when it returns an error.  Calls to the database are atomic, and a
  call that fails changes nothing: the transactions of the repositories commit or roll back.
\<close>

record 's world =
  w_store :: 's
  w_calls :: nat
  w_fault :: "nat \<Rightarrow> bool"
  w_others :: "nat \<Rightarrow> 's \<Rightarrow> 's"
  w_reads :: nat
  w_clock :: "nat \<Rightarrow> instant"
  w_draws :: nat
  w_entropy :: "nat \<Rightarrow> nat list"

type_synonym ('s, 'a) op = "'s world \<Rightarrow> (error + 'a) \<times> 's world"

definition ret :: "'a \<Rightarrow> ('s, 'a) op" where
  "ret x w = (Inr x, w)"

definition raise_err :: "error \<Rightarrow> ('s, 'a) op" where
  "raise_err e w = (Inl e, w)"

text \<open>\<open>x, err := m(); if err != nil { return err }\<close>, then \<open>f x\<close>.\<close>

definition and_then :: "('s, 'a) op \<Rightarrow> ('a \<Rightarrow> ('s, 'b) op) \<Rightarrow> ('s, 'b) op" where
  "and_then m f w = (case m w of (Inl e, v) \<Rightarrow> (Inl e, v) | (Inr x, v) \<Rightarrow> f x v)"

text \<open>\<open>x, err := m()\<close> where the code looks at the error itself; \<open>_ = m()\<close> is \<open>ignoring m\<close>.\<close>

definition attempt :: "('s, 'a) op \<Rightarrow> ('s, error + 'a) op" where
  "attempt m w = (case m w of (r, v) \<Rightarrow> (Inr r, v))"

definition ignoring :: "('s, 'a) op \<Rightarrow> ('s, unit) op" where
  "ignoring m w = (case m w of (r, v) \<Rightarrow> (Inr (), v))"

text \<open>\<open>if err != nil { return wrapped(err) }\<close>.\<close>

definition or_wrap :: "(error \<Rightarrow> error) \<Rightarrow> ('s, 'a) op \<Rightarrow> ('s, 'a) op" where
  "or_wrap g m w = (case m w of (Inl e, v) \<Rightarrow> (Inl (g e), v) | (Inr x, v) \<Rightarrow> (Inr x, v))"

definition storage_fault :: error where
  "storage_fault = Sentinel ''the database could not be reached''"

definition db_call :: "('s \<Rightarrow> (error + 'a) \<times> 's) \<Rightarrow> ('s, 'a) op" where
  "db_call f w =
     (let s = w_others w (w_calls w) (w_store w);
          v = w\<lparr>w_calls := Suc (w_calls w), w_store := s\<rparr>
      in if w_fault w (w_calls w) then (Inl storage_fault, v)
         else case f s of (r, t) \<Rightarrow> (r, v\<lparr>w_store := t\<rparr>))"

definition db_read :: "('s \<Rightarrow> error + 'a) \<Rightarrow> ('s, 'a) op" where
  "db_read f = db_call (\<lambda>s. (f s, s))"

definition clock_now :: "('s, instant) op" where
  "clock_now w = (Inr (w_clock w (w_reads w)), w\<lparr>w_reads := Suc (w_reads w)\<rparr>)"

definition fresh_id :: "string \<Rightarrow> ('s, string) op" where
  "fresh_id pre = and_then clock_now (\<lambda>now. \<lambda>w.
     (Inr (new_id pre (unix_milli now) (w_entropy w (w_draws w))), w\<lparr>w_draws := Suc (w_draws w)\<rparr>))"

definition lift_domain :: "('e \<Rightarrow> error) \<Rightarrow> 'e + 'a \<Rightarrow> error + 'a" where
  "lift_domain g r = (case r of Inl e \<Rightarrow> Inl (g e) | Inr x \<Rightarrow> Inr x)"

definition lift_err :: "error + 'a \<Rightarrow> ('s, 'a) op" where
  "lift_err r w = (r, w)"

definition when_op :: "bool \<Rightarrow> ('s, unit) op \<Rightarrow> ('s, unit) op" where
  "when_op b m = (if b then m else ret ())"

fun for_each :: "('a \<Rightarrow> ('s, unit) op) \<Rightarrow> 'a list \<Rightarrow> ('s, unit) op" where
  "for_each f [] = ret ()"
| "for_each f (x # xs) = and_then (f x) (\<lambda>_. for_each f xs)"

fun map_each :: "('a \<Rightarrow> ('s, 'b) op) \<Rightarrow> 'a list \<Rightarrow> ('s, 'b list) op" where
  "map_each f [] = ret []"
| "map_each f (x # xs) = and_then (f x) (\<lambda>y. and_then (map_each f xs) (\<lambda>ys. ret (y # ys)))"

lemma op_simps [simp]:
  "and_then (ret x) f = f x"
  "and_then (raise_err e) f = raise_err e"
  "and_then (lift_err (Inr x)) f = f x"
  "and_then (lift_err (Inl e)) f = raise_err e"
  "when_op True m = m" "when_op False m = ret ()"
  by (auto simp: fun_eq_iff and_then_def ret_def raise_err_def lift_err_def when_op_def)

lemma and_then_assoc: "and_then (and_then m f) g = and_then m (\<lambda>x. and_then (f x) g)"
  by (auto simp: fun_eq_iff and_then_def split: prod.split sum.split)

section \<open>Guarantees under interference\<close>

text \<open>
  \<open>R\<close> is what every participant promises of its atomic steps, and \<open>C\<close> what is known of the clock
  and of the entropy source.  \<open>holds_in C R P m Q\<close>: if that is so, all other requests keep to \<open>R\<close>
  and the store satisfies \<open>P\<close>, then \<open>m\<close> keeps to \<open>R\<close> as well and its result and final store
  satisfy \<open>Q\<close>.
\<close>

type_synonym sources = "(nat \<Rightarrow> instant) \<Rightarrow> (nat \<Rightarrow> nat list) \<Rightarrow> bool"

definition relies :: "('s \<Rightarrow> 's \<Rightarrow> bool) \<Rightarrow> 's world \<Rightarrow> bool" where
  "relies R w \<longleftrightarrow> (\<forall>n s. R s (w_others w n s))"

definition holds_in :: "sources \<Rightarrow> ('s \<Rightarrow> 's \<Rightarrow> bool) \<Rightarrow> ('s \<Rightarrow> bool) \<Rightarrow> ('s, 'a) op \<Rightarrow>
    (error + 'a \<Rightarrow> 's \<Rightarrow> bool) \<Rightarrow> bool" where
  "holds_in C R P m Q \<longleftrightarrow> (\<forall>w. relies R w \<and> C (w_clock w) (w_entropy w) \<and> P (w_store w) \<longrightarrow>
     (case m w of (r, v) \<Rightarrow> relies R v \<and> C (w_clock v) (w_entropy v) \<and> R (w_store w) (w_store v) \<and> Q r (w_store v)))"

abbreviation any_source :: sources where "any_source \<equiv> \<lambda>_ _. True"

abbreviation "holds \<equiv> holds_in any_source"

definition stable :: "('s \<Rightarrow> 's \<Rightarrow> bool) \<Rightarrow> ('s \<Rightarrow> bool) \<Rightarrow> bool" where
  "stable R P \<longleftrightarrow> (\<forall>s t. R s t \<longrightarrow> P s \<longrightarrow> P t)"

lemma stableI: "(\<And>s t. R s t \<Longrightarrow> P s \<Longrightarrow> P t) \<Longrightarrow> stable R P"
  by (auto simp: stable_def)

lemma stable_True: "stable R (\<lambda>_. True)"
  by (simp add: stable_def)

lemma stable_conj: "stable R P \<Longrightarrow> stable R Q \<Longrightarrow> stable R (\<lambda>s. P s \<and> Q s)"
  by (simp add: stable_def)

lemma holdsD:
  "holds_in C R P m Q \<Longrightarrow> relies R w \<Longrightarrow> C (w_clock w) (w_entropy w) \<Longrightarrow> P (w_store w) \<Longrightarrow> m w = (r, v) \<Longrightarrow>
     relies R v \<and> C (w_clock v) (w_entropy v) \<and> R (w_store w) (w_store v) \<and> Q r (w_store v)"
  unfolding holds_in_def by fastforce

lemma holds_conseq:
  "holds_in C R P m Q \<Longrightarrow> (\<And>s. P' s \<Longrightarrow> P s) \<Longrightarrow> (\<And>r s. Q r s \<Longrightarrow> Q' r s) \<Longrightarrow> holds_in C R P' m Q'"
  unfolding holds_in_def by (force split: prod.splits)

lemma holds_weaken: "holds_in C R P m Q \<Longrightarrow> (\<And>r s. Q r s \<Longrightarrow> Q' r s) \<Longrightarrow> holds_in C R P m Q'"
  by (rule holds_conseq)

text \<open>What the clock and the entropy source hand out.\<close>

definition reading :: "sources \<Rightarrow> instant \<Rightarrow> bool" where
  "reading C t \<longleftrightarrow> (\<exists>ck en n. C ck en \<and> t = ck n)"

definition drawn_id :: "sources \<Rightarrow> string \<Rightarrow> string \<Rightarrow> bool" where
  "drawn_id C pre x \<longleftrightarrow> (\<exists>ck en n k. C ck en \<and> x = new_id pre (unix_milli (ck n)) (en k))"

lemma drawn_idI: "C ck en \<Longrightarrow> drawn_id C pre (new_id pre (unix_milli (ck n)) (en k))"
  by (auto simp: drawn_id_def)

text \<open>A relation every atomic step may keep to: changes can be composed.\<close>

locale guarantee =
  fixes R :: "'s \<Rightarrow> 's \<Rightarrow> bool" and C :: sources
  assumes refl: "R s s"
    and trans: "R s t \<Longrightarrow> R t u \<Longrightarrow> R s u"
begin

lemma ret: "(\<And>s. P s \<Longrightarrow> Q (Inr x) s) \<Longrightarrow> holds_in C R P (ret x) Q"
  by (auto simp: holds_in_def ret_def refl)

lemma raise: "(\<And>s. P s \<Longrightarrow> Q (Inl e) s) \<Longrightarrow> holds_in C R P (raise_err e) Q"
  by (auto simp: holds_in_def raise_err_def refl)

lemma lift: "(\<And>s. P s \<Longrightarrow> Q r s) \<Longrightarrow> holds_in C R P (lift_err r) Q"
  by (auto simp: holds_in_def lift_err_def refl)

lemma bind:
  assumes "holds_in C R P m (\<lambda>r s. case r of Inl e \<Rightarrow> Q (Inl e) s | Inr x \<Rightarrow> M x s)"
    and "\<And>x. holds_in C R (M x) (f x) Q"
  shows "holds_in C R P (and_then m f) Q"
  unfolding holds_in_def
proof (intro allI impI)
  fix w assume w: "relies R w \<and> C (w_clock w) (w_entropy w) \<and> P (w_store w)"
  obtain r v where m: "m w = (r, v)" by fastforce
  note step = holdsD [OF assms(1) conjunct1 [OF w] conjunct1 [OF conjunct2 [OF w]] conjunct2 [OF conjunct2 [OF w]] m]
  show "case and_then m f w of (r, v) \<Rightarrow> relies R v \<and> C (w_clock v) (w_entropy v) \<and> R (w_store w) (w_store v) \<and> Q r (w_store v)"
  proof (cases r)
    case (Inl e)
    then show ?thesis using step by (simp add: and_then_def m)
  next
    case (Inr x)
    obtain r' v' where f: "f x v = (r', v')" by fastforce
    have "relies R v' \<and> C (w_clock v') (w_entropy v') \<and> R (w_store v) (w_store v') \<and> Q r' (w_store v')"
      using step Inr holdsD [OF assms(2) _ _ _ f] by simp
    then show ?thesis using step trans by (auto simp: and_then_def m Inr f)
  qed
qed

lemma call:
  assumes "stable R P" "\<And>s. P s \<Longrightarrow> Q (Inl storage_fault) s"
    and "\<And>s r t. P s \<Longrightarrow> f s = (r, t) \<Longrightarrow> R s t \<and> Q r t"
  shows "holds_in C R P (db_call f) Q"
  unfolding holds_in_def
proof (intro allI impI)
  fix w assume w: "relies R w \<and> C (w_clock w) (w_entropy w) \<and> P (w_store w)"
  define s where "s = w_others w (w_calls w) (w_store w)"
  have step: "R (w_store w) s" using w by (auto simp: relies_def s_def)
  then have "P s" using w assms(1) by (auto simp: stable_def)
  then show "case db_call f w of (r, v) \<Rightarrow> relies R v \<and> C (w_clock v) (w_entropy v) \<and> R (w_store w) (w_store v) \<and> Q r (w_store v)"
    using w step assms(2,3) [of s] trans
    by (auto simp: db_call_def Let_def s_def [symmetric] relies_def split: prod.split)
qed

lemma read:
  assumes "stable R P" "\<And>s. P s \<Longrightarrow> Q (Inl storage_fault) s" "\<And>s. P s \<Longrightarrow> Q (f s) s"
  shows "holds_in C R P (db_read f) Q"
  unfolding db_read_def using assms refl by (intro call) auto

lemma clock: "(\<And>s t. P s \<Longrightarrow> reading C t \<Longrightarrow> Q (Inr t) s) \<Longrightarrow> holds_in C R P clock_now Q"
  by (auto simp: holds_in_def clock_now_def refl relies_def reading_def)

lemma fresh: "(\<And>s x. P s \<Longrightarrow> drawn_id C pre x \<Longrightarrow> Q (Inr x) s) \<Longrightarrow> holds_in C R P (fresh_id pre) Q"
  by (auto simp: holds_in_def fresh_id_def clock_now_def and_then_def refl relies_def intro: drawn_idI)

lemma attempt:
  assumes "holds_in C R P m (\<lambda>r. Q (Inr r))"
  shows "holds_in C R P (attempt m) Q"
  unfolding holds_in_def
proof (intro allI impI)
  fix w assume w: "relies R w \<and> C (w_clock w) (w_entropy w) \<and> P (w_store w)"
  obtain r v where m: "m w = (r, v)" by fastforce
  from holdsD [OF assms conjunct1 [OF w] conjunct1 [OF conjunct2 [OF w]] conjunct2 [OF conjunct2 [OF w]] m]
  show "case attempt m w of (r, v) \<Rightarrow> relies R v \<and> C (w_clock v) (w_entropy v) \<and> R (w_store w) (w_store v) \<and> Q r (w_store v)"
    by (simp add: attempt_def m)
qed

lemma ignoring:
  assumes "holds_in C R P m (\<lambda>r. Q (Inr ()))"
  shows "holds_in C R P (ignoring m) Q"
  unfolding holds_in_def
proof (intro allI impI)
  fix w assume w: "relies R w \<and> C (w_clock w) (w_entropy w) \<and> P (w_store w)"
  obtain r v where m: "m w = (r, v)" by fastforce
  from holdsD [OF assms conjunct1 [OF w] conjunct1 [OF conjunct2 [OF w]] conjunct2 [OF conjunct2 [OF w]] m]
  show "case ignoring m w of (r, v) \<Rightarrow> relies R v \<and> C (w_clock v) (w_entropy v) \<and> R (w_store w) (w_store v) \<and> Q r (w_store v)"
    by (simp add: ignoring_def m)
qed

lemma or_wrap:
  assumes "holds_in C R P m (\<lambda>r. Q (case r of Inl e \<Rightarrow> Inl (g e) | Inr x \<Rightarrow> Inr x))"
  shows "holds_in C R P (or_wrap g m) Q"
  unfolding holds_in_def
proof (intro allI impI)
  fix w assume w: "relies R w \<and> C (w_clock w) (w_entropy w) \<and> P (w_store w)"
  obtain r v where m: "m w = (r, v)" by fastforce
  from holdsD [OF assms conjunct1 [OF w] conjunct1 [OF conjunct2 [OF w]] conjunct2 [OF conjunct2 [OF w]] m]
  show "case or_wrap g m w of (r, v) \<Rightarrow> relies R v \<and> C (w_clock v) (w_entropy v) \<and> R (w_store w) (w_store v) \<and> Q r (w_store v)"
    by (simp add: or_wrap_def m split: sum.splits)
qed

lemma for_each:
  assumes "\<And>x. x \<in> set xs \<Longrightarrow> holds_in C R P (f x) (\<lambda>r. P)" "\<And>r s. P s \<Longrightarrow> Q r s"
  shows "holds_in C R P (for_each f xs) Q"
  using assms(1)
proof (induction xs)
  case Nil
  then show ?case using assms(2) by (auto intro: ret)
next
  case (Cons x xs)
  have "holds_in C R P (and_then (f x) (\<lambda>_. for_each f xs)) Q"
  proof (rule bind [where M = "\<lambda>_. P"])
    show "holds_in C R P (f x) (\<lambda>r s. case r of Inl e \<Rightarrow> Q (Inl e) s | Inr x \<Rightarrow> P s)"
      by (rule holds_weaken [OF Cons.prems]) (auto simp: assms(2) split: sum.split)
  qed (use Cons in auto)
  then show ?case by simp
qed

end

text \<open>
  The combinators written so that the simplifier runs an operation forwards: what comes next is
  looked at only once the call before it has a result.
\<close>

fun next_op :: "('a \<Rightarrow> ('s, 'b) op) \<Rightarrow> (error + 'a) \<times> 's world \<Rightarrow> (error + 'b) \<times> 's world" where
  "next_op f (Inr x, v) = f x v"
| "next_op f (Inl e, v) = (Inl e, v)"

fun wrap_result :: "(error \<Rightarrow> error) \<Rightarrow> (error + 'a) \<times> 's world \<Rightarrow> (error + 'a) \<times> 's world" where
  "wrap_result g (Inr x, v) = (Inr x, v)"
| "wrap_result g (Inl e, v) = (Inl (g e), v)"

fun keep_result :: "(error + 'a) \<times> 's world \<Rightarrow> (error + (error + 'a)) \<times> 's world" where
  "keep_result (r, v) = (Inr r, v)"

fun drop_result :: "(error + 'a) \<times> 's world \<Rightarrow> (error + unit) \<times> 's world" where
  "drop_result (r, v) = (Inr (), v)"

lemma next_op_cong: "p = q \<Longrightarrow> next_op f p = next_op f q"
  by simp

lemma wrap_result_cong: "p = q \<Longrightarrow> wrap_result f p = wrap_result f q"
  by simp

lemma run_ops:
  "ret x w = (Inr x, w)" "raise_err e w = (Inl e, w)" "lift_err r w = (r, w)"
  "and_then m f w = next_op f (m w)" "or_wrap g n w = wrap_result g (n w)"
  "attempt k w = keep_result (k w)" "ignoring l w = drop_result (l w)"
  "when_op b u w = (if b then u w else (Inr (), w))"
  by (auto simp: ret_def raise_err_def lift_err_def and_then_def or_wrap_def attempt_def ignoring_def when_op_def
      split: prod.split sum.split)

section \<open>A quiet world\<close>

text \<open>Nobody else is there, every call succeeds and the entropy source repeats itself.\<close>

definition quiet :: "nat list \<Rightarrow> 's \<Rightarrow> nat \<Rightarrow> nat \<Rightarrow> nat \<Rightarrow> 's world" where
  "quiet bytes s c r d = \<lparr>w_store = s, w_calls = c, w_fault = \<lambda>_. False, w_others = \<lambda>_ t. t, w_reads = r,
     w_clock = \<lambda>_. 0, w_draws = d, w_entropy = \<lambda>_. bytes\<rparr>"

fun quiet_result :: "nat list \<Rightarrow> nat \<Rightarrow> nat \<Rightarrow> nat \<Rightarrow> (error + 'a) \<times> 's \<Rightarrow> (error + 'a) \<times> 's world" where
  "quiet_result bytes c r d (a, t) = (a, quiet bytes t (c + 1) r d)"

lemma run_quiet:
  "db_call f (quiet bytes s c r d) = quiet_result bytes c r d (f s)"
  "db_read g (quiet bytes s c r d) = (g s, quiet bytes s (c + 1) r d)"
  "clock_now (quiet bytes s c r d) = (Inr 0, quiet bytes s c (r + 1) d)"
  "fresh_id pre (quiet bytes s c r d) = (Inr (new_id pre (unix_milli 0) bytes), quiet bytes s c (r + 1) (d + 1))"
  "w_store (quiet bytes s c r d) = s"
  by (auto simp: db_call_def db_read_def quiet_def clock_now_def fresh_id_def and_then_def Let_def
      split: prod.split)

text \<open>
  Operations that keep an invariant of the store whatever other requests, which keep it too, do between
  their calls: \<open>gives I m Q\<close> says that \<open>m\<close> does, and that what it returns, if it returns, satisfies \<open>Q\<close>.
\<close>

definition preserves :: "('s \<Rightarrow> bool) \<Rightarrow> 's \<Rightarrow> 's \<Rightarrow> bool" where
  "preserves I s t \<longleftrightarrow> (I s \<longrightarrow> I t)"

interpretation inv: guarantee "preserves I" C for I C
  by unfold_locales (auto simp: preserves_def)

lemma stable_inv: "stable (preserves I) I"
  by (auto simp: stable_def preserves_def)

definition gives_in :: "sources \<Rightarrow> ('s \<Rightarrow> bool) \<Rightarrow> ('s, 'a) op \<Rightarrow> ('a \<Rightarrow> bool) \<Rightarrow> bool" where
  "gives_in C I m Q \<longleftrightarrow> holds_in C (preserves I) I m (\<lambda>r s. I s \<and> (\<forall>x. r = Inr x \<longrightarrow> Q x))"

abbreviation "gives \<equiv> gives_in any_source"

lemma gives_in_run:
  assumes "gives_in C I m Q" "relies (preserves I) w" "C (w_clock w) (w_entropy w)" "I (w_store w)" "m w = (r, v)"
  shows "I (w_store v) \<and> relies (preserves I) v \<and> (\<forall>x. r = Inr x \<longrightarrow> Q x)"
  using holdsD [OF assms(1) [unfolded gives_in_def] assms(2-5)] by simp

lemma gives_run:
  assumes "gives I m Q" "relies (preserves I) w" "I (w_store w)" "m w = (r, v)"
  shows "I (w_store v) \<and> relies (preserves I) v \<and> (\<forall>x. r = Inr x \<longrightarrow> Q x)"
  by (rule gives_in_run [OF assms(1,2) _ assms(3,4)]) simp

lemma gives_weaken: "gives_in C I m Q \<Longrightarrow> (\<And>x. Q x \<Longrightarrow> Q' x) \<Longrightarrow> gives_in C I m Q'"
  unfolding gives_in_def by (erule holds_weaken) auto

lemma gives_any: "gives_in C I m Q \<Longrightarrow> gives_in C I m (\<lambda>_. True)"
  by (erule gives_weaken) simp

lemma gives_read: "(\<And>s x. I s \<Longrightarrow> f s = Inr x \<Longrightarrow> Q x) \<Longrightarrow> gives_in C I (db_read f) Q"
  unfolding gives_in_def by (rule inv.read [OF stable_inv]) auto

lemma gives_call:
  "(\<And>s r t. I s \<Longrightarrow> f s = (r, t) \<Longrightarrow> I t \<and> (\<forall>x. r = Inr x \<longrightarrow> Q x)) \<Longrightarrow> gives_in C I (db_call f) Q"
  unfolding gives_in_def by (rule inv.call [OF stable_inv]) (auto simp: preserves_def)

lemma gives_bind:
  assumes "gives_in C I m M" "\<And>x. M x \<Longrightarrow> gives_in C I (f x) Q"
  shows "gives_in C I (and_then m f) Q"
  unfolding gives_in_def
proof (rule inv.bind [where M = "\<lambda>x s. I s \<and> M x"])
  show "holds_in C (preserves I) I m (\<lambda>r s. case r of Inl e \<Rightarrow> I s \<and> (\<forall>x. Inl e = Inr x \<longrightarrow> Q x) | Inr x \<Rightarrow> I s \<and> M x)"
    by (rule holds_weaken [OF assms(1) [unfolded gives_in_def]]) (auto split: sum.split)
  show "holds_in C (preserves I) (\<lambda>s. I s \<and> M x) (f x) (\<lambda>r s. I s \<and> (\<forall>y. r = Inr y \<longrightarrow> Q y))" for x
    using assms(2) [of x] unfolding gives_in_def holds_in_def by auto
qed

lemma gives_then: "gives_in C I m (\<lambda>_. True) \<Longrightarrow> (\<And>x. gives_in C I (f x) Q) \<Longrightarrow> gives_in C I (and_then m f) Q"
  by (rule gives_bind)

lemma gives_wrap: "gives_in C I m Q \<Longrightarrow> gives_in C I (or_wrap g m) Q"
  unfolding gives_in_def by (rule inv.or_wrap, erule holds_weaken) (auto split: sum.splits)

lemma gives_attempt: "gives_in C I m Q \<Longrightarrow> gives_in C I (attempt m) (\<lambda>r. \<forall>x. r = Inr x \<longrightarrow> Q x)"
  unfolding gives_in_def by (rule inv.attempt, erule holds_weaken) auto

lemma gives_ignoring: "gives_in C I m Q \<Longrightarrow> gives_in C I (ignoring m) (\<lambda>_. True)"
  unfolding gives_in_def by (rule inv.ignoring, erule holds_weaken) auto

lemma gives_simple:
  "Q x \<Longrightarrow> gives_in C I (ret x) Q" "gives_in C I (raise_err e) Q" "(\<And>x. r = Inr x \<Longrightarrow> Q x) \<Longrightarrow> gives_in C I (lift_err r) Q"
  "gives_in C I clock_now (\<lambda>_. True)" "gives_in C I (fresh_id pre) (\<lambda>_. True)"
  unfolding gives_in_def by (auto intro: inv.ret inv.raise inv.lift inv.clock inv.fresh)

lemma gives_fresh: "gives_in C I (fresh_id pre) (drawn_id C pre)"
  unfolding gives_in_def by (rule inv.fresh) auto

lemma gives_lifted: "gives_in C I (lift_err r) (\<lambda>x. r = Inr x)"
  by (rule gives_simple(3))

lemma gives_domain: "(\<And>x. r = Inr x \<Longrightarrow> Q x) \<Longrightarrow> gives_in C I (lift_err (lift_domain g r)) Q"
  by (rule gives_simple) (auto simp: lift_domain_def split: sum.splits)

lemma gives_if: "(b \<Longrightarrow> gives_in C I m Q) \<Longrightarrow> (\<not> b \<Longrightarrow> gives_in C I n Q) \<Longrightarrow> gives_in C I (if b then m else n) Q"
  by simp

lemma gives_each:
  assumes "\<And>x. gives_in C I (f x) Q"
  shows "gives_in C I (map_each f xs) (list_all Q)"
proof (induction xs)
  case Nil
  show ?case by (simp add: gives_simple)
next
  case (Cons x xs)
  show ?case unfolding map_each.simps
    by (rule gives_bind [OF assms], rule gives_bind [OF Cons.IH], rule gives_simple, simp)
qed

text \<open>Where nothing is asked of the result.\<close>

lemma plain_simple:
  "gives_in C I (ret x) (\<lambda>_. True)" "gives_in C I (raise_err e) (\<lambda>_. True)" "gives_in C I (lift_err r) (\<lambda>_. True)" "gives_in C I (db_read f) (\<lambda>_. True)"
  by (rule gives_simple gives_read; simp)+

section \<open>What a request has seen\<close>

named_theorems reads_intros

text \<open>
  A request that only reads leaves the store to the others: the \<open>k\<close>-th of its calls sees the store after
  \<open>k\<close> of their steps.  \<open>stores_seen w v\<close> are the stores its calls saw when it ran from \<open>w\<close> to \<open>v\<close>, and
  \<open>sees I L m Q\<close> says that \<open>m\<close> only reads and, while the others keep \<open>I\<close> and all it sees is in \<open>L\<close>, what it
  returns satisfies \<open>Q\<close>.  An answer can so be traced to the rows it was read from.
\<close>

primrec store_at :: "'s world \<Rightarrow> nat \<Rightarrow> 's" where
  "store_at w 0 = w_store w"
| "store_at w (Suc k) = w_others w (w_calls w + k) (store_at w k)"

definition stores_seen :: "'s world \<Rightarrow> 's world \<Rightarrow> 's set" where
  "stores_seen w v = store_at w ` {1..w_calls v - w_calls w}"

definition only_read :: "'s world \<Rightarrow> 's world \<Rightarrow> bool" where
  "only_read w v \<longleftrightarrow> w_others v = w_others w \<and> w_calls w \<le> w_calls v \<and> w_store v = store_at w (w_calls v - w_calls w)"

definition reads :: "('s, 'a) op \<Rightarrow> bool" where
  "reads m \<longleftrightarrow> (\<forall>w r v. m w = (r, v) \<longrightarrow> only_read w v)"

definition sees :: "('s \<Rightarrow> bool) \<Rightarrow> 's set \<Rightarrow> ('s, 'a) op \<Rightarrow> ('a \<Rightarrow> bool) \<Rightarrow> bool" where
  "sees I L m Q \<longleftrightarrow> reads m \<and> (\<forall>w x v. relies (preserves I) w \<longrightarrow> I (w_store w) \<longrightarrow> m w = (Inr x, v) \<longrightarrow>
     stores_seen w v \<subseteq> L \<longrightarrow> Q x)"

lemma store_at_kept: "relies (preserves I) w \<Longrightarrow> I (w_store w) \<Longrightarrow> I (store_at w k)"
  by (induction k) (auto simp: relies_def preserves_def)

lemma stores_seen_kept: "relies (preserves I) w \<Longrightarrow> I (w_store w) \<Longrightarrow> s \<in> stores_seen w v \<Longrightarrow> I s"
  by (auto simp: stores_seen_def intro: store_at_kept)

lemma store_at_later: "only_read w v \<Longrightarrow> store_at v k = store_at w (w_calls v - w_calls w + k)"
  by (induction k) (auto simp: only_read_def)

lemma only_read_refl: "only_read w w"
  by (simp add: only_read_def)

lemma only_read_trans:
  assumes "only_read w v" "only_read v u"
  shows "only_read w u" "stores_seen w v \<subseteq> stores_seen w u" "stores_seen v u \<subseteq> stores_seen w u"
proof -
  show "only_read w u" using assms store_at_later [OF assms(1)] by (auto simp: only_read_def)
  show "stores_seen w v \<subseteq> stores_seen w u" using assms by (auto simp: stores_seen_def only_read_def)
  have "store_at v k \<in> stores_seen w u" if "k \<in> {1..w_calls u - w_calls v}" for k
    using that assms unfolding stores_seen_def store_at_later [OF assms(1)] by (intro imageI) (auto simp: only_read_def)
  then show "stores_seen v u \<subseteq> stores_seen w u" by (auto simp: stores_seen_def)
qed

context guarantee begin

text \<open>What was seen becomes what is there in the end by steps that keep to the guarantee.\<close>

lemma store_at_steps: "relies R w \<Longrightarrow> R (store_at w j) (store_at w (j + k))"
proof (induction k)
  case 0
  show ?case by (simp add: refl)
next
  case (Suc k)
  have "R (store_at w (j + k)) (store_at w (j + Suc k))" using Suc.prems by (simp add: relies_def)
  with Suc.IH [OF Suc.prems] show ?case by (rule trans)
qed

lemma seen_later: "relies R w \<Longrightarrow> only_read w v \<Longrightarrow> s \<in> stores_seen w v \<Longrightarrow> R s (w_store v)"
proof -
  assume w: "relies R w" "only_read w v" "s \<in> stores_seen w v"
  then obtain k where k: "s = store_at w k" "k \<le> w_calls v - w_calls w" by (auto simp: stores_seen_def)
  then obtain m where "w_calls v - w_calls w = k + m" using le_Suc_ex by blast
  then show ?thesis using store_at_steps [OF w(1), of k m] w(2) k(1) by (simp add: only_read_def)
qed

end

lemma reads_bind: "reads m \<Longrightarrow> (\<And>x. reads (f x)) \<Longrightarrow> reads (and_then m f)"
  unfolding reads_def and_then_def using only_read_trans(1) by (fastforce split: prod.splits sum.splits)

lemma reads_basic [reads_intros]:
  "reads (ret x)" "reads (raise_err e)" "reads (lift_err r)" "reads clock_now" "reads (db_read f)"
  by (auto simp: reads_def ret_def raise_err_def lift_err_def clock_now_def only_read_def db_read_def db_call_def Let_def split: if_splits)

lemma reads_more [reads_intros]:
  "reads m \<Longrightarrow> reads (or_wrap g m)" "reads m \<Longrightarrow> reads (attempt m)"
  "reads n \<Longrightarrow> reads m \<Longrightarrow> reads (if b then m else n)"
  "reads n \<Longrightarrow> (\<And>x. reads (f x)) \<Longrightarrow> reads (case z of None \<Rightarrow> n | Some x \<Rightarrow> f x)"
  "(\<And>x. reads (f x)) \<Longrightarrow> (\<And>e. reads (h e)) \<Longrightarrow> reads (case y of Inl e \<Rightarrow> h e | Inr x \<Rightarrow> f x)"
  "(\<And>a b. reads (k a b)) \<Longrightarrow> reads (case p of (a, b) \<Rightarrow> k a b)"
  unfolding reads_def by (auto simp: or_wrap_def attempt_def split: prod.splits sum.splits option.splits)

declare reads_bind [reads_intros]

lemma sees_reads: "sees I L m Q \<Longrightarrow> reads m"
  by (simp add: sees_def)

lemma sees_run:
  assumes "sees I (stores_seen w v) m Q" "relies (preserves I) w" "I (w_store w)" "m w = (Inr x, v)"
  shows "Q x"
  using assms unfolding sees_def by blast

lemma sees_weaken: "sees I L m Q \<Longrightarrow> (\<And>x. Q x \<Longrightarrow> Q' x) \<Longrightarrow> sees I L m Q'"
  unfolding sees_def by blast

lemma sees_gives: "sees I L m P \<Longrightarrow> gives I m Q \<Longrightarrow> sees I L m (\<lambda>x. P x \<and> Q x)"
  unfolding sees_def using gives_run [of I m Q] by blast

lemma gives_sees: "gives I m Q \<Longrightarrow> reads m \<Longrightarrow> sees I L m Q"
  unfolding sees_def using gives_run [of I m Q] by blast

lemma sees_plain: "reads m \<Longrightarrow> sees I L m (\<lambda>_. True)"
  by (simp add: sees_def)

lemma sees_simple:
  "Q x \<Longrightarrow> sees I L (ret x) Q" "sees I L (raise_err e) Q" "(\<And>x. r = Inr x \<Longrightarrow> Q x) \<Longrightarrow> sees I L (lift_err r) Q"
  unfolding sees_def by (auto simp: ret_def raise_err_def lift_err_def intro: reads_intros)

lemma sees_lifted: "sees I L (lift_err r) (\<lambda>x. r = Inr x)"
  by (rule sees_simple(3))

lemma sees_read: "(\<And>s x. I s \<Longrightarrow> s \<in> L \<Longrightarrow> f s = Inr x \<Longrightarrow> Q x) \<Longrightarrow> sees I L (db_read f) Q"
  unfolding sees_def
proof (intro conjI allI impI)
  fix w x v
  assume ok: "\<And>s x. I s \<Longrightarrow> s \<in> L \<Longrightarrow> f s = Inr x \<Longrightarrow> Q x"
    and w: "relies (preserves I) w" "I (w_store w)" and run: "db_read f w = (Inr x, v)" and L: "stores_seen w v \<subseteq> L"
  have "f (store_at w 1) = Inr x" "w_calls v = Suc (w_calls w)"
    using run by (auto simp: db_read_def db_call_def Let_def split: if_splits)
  moreover then have "store_at w 1 \<in> L" using L unfolding stores_seen_def by fastforce
  ultimately show "Q x" using ok store_at_kept [OF w] by blast
qed (rule reads_intros)

lemma sees_bind:
  assumes "sees I L m M" "\<And>x. M x \<Longrightarrow> sees I L (f x) Q" "\<And>x. reads (f x)"
  shows "sees I L (and_then m f) Q"
  unfolding sees_def
proof (intro conjI allI impI)
  show "reads (and_then m f)" using assms(1,3) by (auto simp: sees_def intro: reads_bind)
  fix w x v
  assume w: "relies (preserves I) w" "I (w_store w)" and run: "and_then m f w = (Inr x, v)" and L: "stores_seen w v \<subseteq> L"
  obtain y u where m: "m w = (Inr y, u)" "f y u = (Inr x, v)"
    using run by (auto simp: and_then_def split: prod.splits sum.splits)
  have u: "only_read w u" "only_read u v" using assms(1,3) m by (auto simp: sees_def reads_def)
  then have "stores_seen w u \<subseteq> L" "stores_seen u v \<subseteq> L" using only_read_trans(2,3) [OF u] L by blast+
  moreover have "relies (preserves I) u" "I (w_store u)"
    using u(1) w store_at_kept [OF w] by (auto simp: only_read_def relies_def)
  ultimately show "Q x" using assms(1,2) m w unfolding sees_def by blast
qed

lemma sees_then: "sees I L m (\<lambda>_. True) \<Longrightarrow> (\<And>x. sees I L (f x) Q) \<Longrightarrow> sees I L (and_then m f) Q"
  by (rule sees_bind) (auto simp: sees_def)

lemma sees_wrap: "sees I L m Q \<Longrightarrow> sees I L (or_wrap g m) Q"
  unfolding sees_def by (auto simp: or_wrap_def intro: reads_intros split: prod.splits sum.splits)

lemma sees_attempt: "sees I L m Q \<Longrightarrow> sees I L (attempt m) (\<lambda>r. \<forall>x. r = Inr x \<longrightarrow> Q x)"
  unfolding sees_def by (auto simp: attempt_def intro: reads_intros split: prod.splits)

lemma sees_if: "(b \<Longrightarrow> sees I L m Q) \<Longrightarrow> (\<not> b \<Longrightarrow> sees I L n Q) \<Longrightarrow> sees I L (if b then m else n) Q"
  by simp

lemma quiet_seen: "t \<in> stores_seen (quiet bytes s c r d) v \<Longrightarrow> t = s"
proof -
  have "store_at (quiet bytes s c r d) k = s" for k by (induction k) (simp_all add: quiet_def)
  then show "t \<in> stores_seen (quiet bytes s c r d) v \<Longrightarrow> t = s" by (auto simp: stores_seen_def)
qed


end
