(* ===== verification/Lifecycles.thy ===== *)
theory Lifecycles
  imports Prelude
begin

text \<open>
  What the order, the delivery job, the payment and the cash collection have in common: a
  status that only moves along permitted moves, and final statuses nothing leaves.  The
  contracts are stated once here; each component interprets them on its own operations.
\<close>

text \<open>Trying a list of commands one after another; a refused command changes nothing.\<close>

primrec run_all :: "('c \<Rightarrow> 'x \<Rightarrow> 'e + 'x) \<Rightarrow> 'c list \<Rightarrow> 'x \<Rightarrow> 'x" where
  "run_all f [] x = x"
| "run_all f (c # cs) x = run_all f cs (case f c x of Inl _ \<Rightarrow> x | Inr y \<Rightarrow> y)"

lemma run_all_append: "run_all f (cs @ ds) x = run_all f ds (run_all f cs x)"
  by (induction cs arbitrary: x) auto

lemma run_all_invariant:
  assumes "P x" and "\<And>c x y. P x \<Longrightarrow> f c x = Inr y \<Longrightarrow> P y"
  shows "P (run_all f cs x)"
  using assms(1)
proof (induction cs arbitrary: x)
  case Nil
  then show ?case by simp
next
  case (Cons c cs)
  have "P (case f c x of Inl _ \<Rightarrow> x | Inr y \<Rightarrow> y)"
    using Cons.prems assms(2) by (auto split: sum.split)
  then show ?case using Cons.IH by simp
qed

section \<open>Final statuses\<close>

locale lifecycle =
  fixes moves :: "'s \<Rightarrow> 's \<Rightarrow> bool" and terminal :: "'s \<Rightarrow> bool"
  assumes terminal_stuck: "terminal s \<Longrightarrow> \<not> moves s t"
begin

lemma absorbing: "rtranclp moves s t \<Longrightarrow> terminal s \<Longrightarrow> t = s"
  by (induction rule: rtranclp_induct) (auto simp: terminal_stuck)

lemma terminal_last:
  assumes "successively moves hs" "i < length hs" "terminal (hs ! i)"
  shows "i = length hs - 1"
proof (rule ccontr)
  assume "i \<noteq> length hs - 1"
  then have "Suc i < length hs" using assms(2) by linarith
  then have "moves (hs ! i) (hs ! Suc i)" using assms(1) by (simp add: successively_conv_nth)
  then show False using terminal_stuck [OF assms(3)] by blast
qed

end

section \<open>Progress\<close>

locale ranked_lifecycle = lifecycle +
  fixes rank :: "'s \<Rightarrow> nat" and top :: nat
  assumes climbs: "moves s t \<Longrightarrow> rank s < rank t"
    and rank_top: "moves s t \<Longrightarrow> rank t \<le> top"
begin

lemma climbs_trancl: "tranclp moves s t \<Longrightarrow> rank s < rank t"
  by (induction rule: tranclp_induct) (auto dest: climbs)

lemma no_return: "\<not> tranclp moves s s"
  using climbs_trancl by blast

lemma chain_rank:
  "successively moves (s # hs) \<Longrightarrow> rank s + length hs \<le> rank (last (s # hs))"
proof (induction hs arbitrary: s)
  case Nil
  then show ?case by simp
next
  case (Cons t hs)
  then have "rank t + length hs \<le> rank (last (t # hs))" "moves s t" by auto
  then show ?case using climbs [of s t] by auto
qed

lemma chain_bound:
  assumes "successively moves (s # hs)"
  shows "length hs \<le> top"
proof (cases hs rule: rev_cases)
  case Nil
  then show ?thesis by simp
next
  case (snoc ts t)
  have "moves (last (s # ts)) t" using assms
    by (simp add: snoc successively_append_iff flip: append_Cons split: if_splits)
  then have "rank t \<le> top" by (rule rank_top)
  moreover have "rank s + length hs \<le> rank (last (s # hs))" using assms by (rule chain_rank)
  ultimately show ?thesis using snoc by simp
qed

lemma history_bound: "successively moves hs \<Longrightarrow> length hs \<le> Suc top"
  using chain_bound by (cases hs) auto

lemma chain_distinct: "successively moves hs \<Longrightarrow> distinct hs"
proof (induction hs)
  case Nil
  then show ?case by simp
next
  case (Cons s hs)
  have "s \<noteq> t" if "t \<in> set hs" for t
  proof -
    from split_list [OF that] obtain us vs where hs: "hs = us @ t # vs" by blast
    have "successively moves ((s # us) @ t # vs)" using Cons.prems hs by simp
    then have "successively moves (s # us) \<and> moves (last (s # us)) t"
      unfolding successively_append_iff by auto
    then have "successively moves ((s # us) @ [t])"
      unfolding successively_append_iff by auto
    then show ?thesis using chain_rank [of s "us @ [t]"] by auto
  qed
  moreover have "successively moves hs" using Cons.prems by (auto simp: successively_Cons)
  ultimately show ?case using Cons.IH by auto
qed

end

section \<open>Objects whose operations follow the moves\<close>

locale guarded_object = lifecycle +
  fixes status :: "'x \<Rightarrow> 's" and exec :: "'c \<Rightarrow> 'x \<Rightarrow> 'e + 'x"
  assumes exec_moves: "exec c x = Inr y \<Longrightarrow> moves (status x) (status y)"
begin

lemma run_reaches: "rtranclp moves (status x) (status (run_all exec cs x))"
proof (induction cs arbitrary: x)
  case Nil
  then show ?case by simp
next
  case (Cons c cs)
  show ?case
  proof (cases "exec c x")
    case (Inl e)
    then show ?thesis using Cons.IH [of x] by simp
  next
    case (Inr y)
    then show ?thesis using Cons.IH [of y] exec_moves [OF Inr]
      by (simp add: converse_rtranclp_into_rtranclp)
  qed
qed

lemma terminal_refuses: "terminal (status x) \<Longrightarrow> \<exists>e. exec c x = Inl e"
  using exec_moves terminal_stuck by (cases "exec c x") blast+

lemma run_terminal: "terminal (status x) \<Longrightarrow> run_all exec cs x = x"
proof (induction cs)
  case Nil
  then show ?case by simp
next
  case (Cons c cs)
  then show ?case using terminal_refuses [of x c] by auto
qed

end

end
