(* ===== verification/Money.thy ===== *)
theory Money
  imports Errs
begin

text \<open>
  \<open>shared/money/money.go\<close>: an amount in minor units (poisha) with its currency, its
  arithmetic and its display text.  The lemmas state when an operation refuses, that a sum
  in range is exact, and that the display text determines the amount.
\<close>

record money =
  m_minor :: int64
  m_currency :: string

definition BDT :: string where
  "BDT = ''BDT''"

datatype money_err = ErrUnknownCurrency | ErrCurrencyMismatch | ErrNegative

definition money_zero_value :: money where
  "money_zero_value = \<lparr>m_minor = 0, m_currency = []\<rparr>"

definition new_money :: "int64 \<Rightarrow> string \<Rightarrow> money_err + money" where
  "new_money minor c =
     (if c \<noteq> BDT then Inl ErrUnknownCurrency else Inr \<lparr>m_minor = minor, m_currency = c\<rparr>)"

definition taka :: "int64 \<Rightarrow> money" where
  "taka minor = \<lparr>m_minor = minor, m_currency = BDT\<rparr>"

definition zero_money :: "string \<Rightarrow> money" where
  "zero_money c = \<lparr>m_minor = 0, m_currency = c\<rparr>"

definition currency_of :: "money \<Rightarrow> string" where
  "currency_of m = (if m_currency m = [] then BDT else m_currency m)"

definition is_zero_money :: "money \<Rightarrow> bool" where
  "is_zero_money m \<longleftrightarrow> m_minor m = 0"

definition is_negative :: "money \<Rightarrow> bool" where
  "is_negative m \<longleftrightarrow> m_minor m < 0"

definition must_be_non_negative :: "money \<Rightarrow> money_err + money" where
  "must_be_non_negative m = (if is_negative m then Inl ErrNegative else Inr m)"

definition same_currency :: "money \<Rightarrow> money \<Rightarrow> bool" where
  "same_currency a b \<longleftrightarrow> currency_of a = currency_of b"

definition add_money :: "money \<Rightarrow> money \<Rightarrow> money_err + money" where
  "add_money a b =
     (if \<not> same_currency a b then Inl ErrCurrencyMismatch
      else Inr \<lparr>m_minor = add64 (m_minor a) (m_minor b), m_currency = currency_of a\<rparr>)"

definition sub_money :: "money \<Rightarrow> money \<Rightarrow> money_err + money" where
  "sub_money a b =
     (if \<not> same_currency a b then Inl ErrCurrencyMismatch
      else Inr \<lparr>m_minor = sub64 (m_minor a) (m_minor b), m_currency = currency_of a\<rparr>)"

definition times_money :: "money \<Rightarrow> int64 \<Rightarrow> money" where
  "times_money a n = \<lparr>m_minor = mul64 (m_minor a) n, m_currency = currency_of a\<rparr>"

definition compare_money :: "money \<Rightarrow> money \<Rightarrow> int" where
  "compare_money a b =
     (if m_minor a < m_minor b then -1 else if m_minor a > m_minor b then 1 else 0)"

lemma money_sel [simp]:
  "m_minor (taka n) = n" "m_currency (taka n) = BDT"
  "m_minor (zero_money c) = 0" "m_currency (zero_money c) = c"
  "m_minor money_zero_value = 0" "m_currency money_zero_value = []"
  "currency_of (taka n) = BDT"
  by (simp_all add: taka_def zero_money_def money_zero_value_def currency_of_def BDT_def)

lemma taka_eq_iff [simp]: "taka a = taka b \<longleftrightarrow> a = b"
  by (simp add: taka_def)

lemma is_zero_taka [simp]: "is_zero_money (taka n) \<longleftrightarrow> n = 0"
  by (simp add: is_zero_money_def)

lemma is_negative_taka [simp]: "is_negative (taka n) \<longleftrightarrow> n < 0"
  by (simp add: is_negative_def)

lemma currency_of_zero_value: "currency_of money_zero_value = BDT"
  by (simp add: currency_of_def)

lemma add_money_taka [simp]: "add_money (taka a) (taka b) = Inr (taka (add64 a b))"
  by (simp add: add_money_def same_currency_def taka_def currency_of_def BDT_def)

lemma times_money_taka [simp]: "times_money (taka a) n = taka (mul64 a n)"
  by (simp add: times_money_def taka_def currency_of_def BDT_def)

lemma add_sub_money:
  assumes "add_money a b = Inr c" and "fits64 (m_minor a)"
  shows "\<exists>d. sub_money c b = Inr d \<and> m_minor d = m_minor a \<and> currency_of d = currency_of a"
proof -
  from assms(1) have c: "same_currency a b" "c = \<lparr>m_minor = add64 (m_minor a) (m_minor b), m_currency = currency_of a\<rparr>"
    by (auto simp: add_money_def split: if_splits)
  have cc: "currency_of c = currency_of a" by (simp add: c(2) currency_of_def BDT_def)
  have "sub64 (m_minor c) (m_minor b) = m_minor a"
    using assms(2) wrap64_add_left [of "m_minor a + m_minor b" "- m_minor b"]
    by (simp add: c(2) int64_defs)
  then show ?thesis using c(1) cc
    by (simp add: sub_money_def same_currency_def currency_of_def BDT_def split: if_splits)
qed

lemma compare_money_simps:
  "compare_money a b = 0 \<longleftrightarrow> m_minor a = m_minor b"
  "0 < compare_money a b \<longleftrightarrow> m_minor b < m_minor a"
  "0 \<le> compare_money a b \<longleftrightarrow> m_minor b \<le> m_minor a"
  "compare_money a b < 0 \<longleftrightarrow> m_minor a < m_minor b"
  by (auto simp: compare_money_def)

section \<open>Display\<close>

text \<open>Three digits at a time from position \<open>i\<close>, a comma before all but the first group.\<close>

fun group_rest :: "string \<Rightarrow> string" where
  "group_rest (a # b # c # s) = CHR '','' # a # b # c # group_rest s"
| "group_rest s = s"

definition group :: "int64 \<Rightarrow> string" where
  "group n =
     (let digits = itoa n; lead = length digits mod 3
      in if length digits \<le> 3 then digits
         else if lead > 0 then take lead digits @ group_rest (drop lead digits)
         else tl (group_rest digits))"

definition taka_sign :: string where
  "taka_sign = [CHR 0xE0, CHR 0xA7, CHR 0xB3]"

definition display :: "money \<Rightarrow> string" where
  "display m =
     (let minor = (if m_minor m < 0 then neg64 (m_minor m) else m_minor m);
          sign = (if m_minor m < 0 then ''-'' else []);
          units = quot64 minor 100;
          fraction = rem64 minor 100;
          out = sign @ taka_sign @ '' '' @ group units
      in if fraction \<noteq> 0 then
           (let out2 = out @ ''.'' @ itoa fraction
            in if fraction < 10 then butlast out2 @ ''0'' @ [last out2] else out2)
         else out)"

lemma group_rest_digits:
  "length s mod 3 = 0 \<Longrightarrow> filter (\<lambda>c. c \<noteq> CHR '','') (group_rest s) = filter (\<lambda>c. c \<noteq> CHR '','') s"
  by (induction s rule: group_rest.induct) auto

lemma group_digits: "filter (\<lambda>c. c \<noteq> CHR '','') (group n) = filter (\<lambda>c. c \<noteq> CHR '','') (itoa n)"
proof -
  define d where "d = itoa n"
  let ?f = "filter (\<lambda>c. c \<noteq> CHR '','')"
  show ?thesis
  proof (cases "length d \<le> 3")
    case True
    then show ?thesis by (simp add: group_def d_def)
  next
    case long: False
    show ?thesis
    proof (cases "0 < length d mod 3")
      case True
      have "length (drop (length d mod 3) d) mod 3 = 0"
        by (simp add: mod_eq_0_iff_dvd minus_mod_eq_mult_div)
      then have "?f (group_rest (drop (length d mod 3) d)) = ?f (drop (length d mod 3) d)"
        by (rule group_rest_digits)
      then have "?f (group n) = ?f (take (length d mod 3) d @ drop (length d mod 3) d)"
        using long True by (simp add: group_def d_def [symmetric] Let_def del: append_take_drop_id)
      then show ?thesis by (simp add: d_def)
    next
      case False
      then have m: "length d mod 3 = 0" by simp
      obtain a b c s where d: "d = a # b # c # s" using long
        by (cases d; cases "tl d"; cases "tl (tl d)") auto
      then show ?thesis using long m group_rest_digits [of d]
        by (simp add: group_def d_def [symmetric])
    qed
  qed
qed

lemma itoa_no_comma: "CHR '','' \<notin> set (itoa n)"
proof -
  have "CHR '','' \<notin> set (nat_digits k)" for k
    using nat_digits_digit [of "CHR '',''" k] by (auto simp: is_digit_def)
  then show ?thesis by (simp add: itoa_def)
qed

lemma group_inject:
  assumes "fits64 a" "fits64 b" "group a = group b"
  shows "a = b"
proof -
  have f: "filter (\<lambda>c. c \<noteq> CHR '','') (itoa n) = itoa n" for n
    using itoa_no_comma [of n] by (auto simp: filter_id_conv)
  have "itoa a = itoa b" using group_digits [of a] group_digits [of b] assms(3) f by simp
  then have "atoi (itoa a) = atoi (itoa b)" by simp
  then show ?thesis using assms by (simp add: atoi_itoa)
qed

text \<open>
  Texts for people: UTF-8 of a list of code points, as the compiler lays out a literal, and an amount
  as it crosses to a client, with its display text (\<open>toMoney\<close> of every module).
\<close>

definition utf8_rune :: "nat \<Rightarrow> string" where
  "utf8_rune c = map char_of
     (if c < 0x80 then [c]
      else if c < 0x800 then [0xC0 + c div 0x40, 0x80 + c mod 0x40]
      else if c < 0x10000 then [0xE0 + c div 0x1000, 0x80 + c div 0x40 mod 0x40, 0x80 + c mod 0x40]
      else [0xF0 + c div 0x40000, 0x80 + c div 0x1000 mod 0x40, 0x80 + c div 0x40 mod 0x40, 0x80 + c mod 0x40])"

definition utf8 :: "nat list \<Rightarrow> string" where
  "utf8 cs = concat (map utf8_rune cs)"

record shown_money =
  sm_minor :: int64
  sm_currency :: string
  sm_display :: string

definition to_money :: "money \<Rightarrow> shown_money" where
  "to_money m = \<lparr>sm_minor = m_minor m, sm_currency = currency_of m, sm_display = display m\<rparr>"

lemma to_money_sel [simp]:
  "sm_minor (to_money m) = m_minor m" "sm_currency (to_money m) = currency_of m" "sm_display (to_money m) = display m"
  by (simp_all add: to_money_def)

text \<open>Anything but \<open>en\<close> is Bengali.\<close>

definition bengali :: "string \<Rightarrow> bool" where
  "bengali lang \<longleftrightarrow> lang \<noteq> ''en''"

end
