(* ===== verification/Order_Domain.thy ===== *)
theory Order_Domain
  imports Lifecycles Money GoTime Float64
begin

text \<open>
  \<open>modules/order/domain\<close>: the order, its statuses and who may move it from one to another
  (\<open>status.go\<close>), placing and moving it (\<open>order.go\<close>) and the customer's free
  cancellation window (\<open>cancel.go\<close>).  The Go types are strings; a constructor
  \<open>Other...\<close> stands for every text that is none of the constants.
\<close>

section \<open>Statuses and actors\<close>

datatype order_status =
    StatusPendingPayment | StatusPlaced | StatusAccepted | StatusPreparing | StatusReady
  | StatusPickedUp | StatusDelivered | StatusCancelled | StatusRejected | StatusFailed
  | OtherStatus string

datatype actor =
    ActorCustomer | ActorMerchant | ActorPartner | ActorAdmin | ActorSystem | OtherActor string

datatype order_err =
    ErrIllegalTransition | ErrNotYourTransition | ErrAlreadyFinished
  | ErrNoCustomer | ErrNoMerchant | ErrNoLines | ErrNoAddress | ErrUnknownPayment | ErrCODLimit
  | ErrNegativeAmount | ErrWindowClosed | ErrNoCancelReason | ErrNoEventID

text \<open>The table of moves: for each status, where it may go and who may take it there.\<close>

fun transitions :: "order_status \<Rightarrow> (order_status \<times> actor list) list option" where
  "transitions StatusPendingPayment = Some
     [(StatusPlaced, [ActorSystem]), (StatusCancelled, [ActorCustomer, ActorAdmin, ActorSystem])]"
| "transitions StatusPlaced = Some
     [(StatusAccepted, [ActorMerchant, ActorAdmin]), (StatusRejected, [ActorMerchant, ActorAdmin]),
      (StatusCancelled, [ActorCustomer, ActorAdmin])]"
| "transitions StatusAccepted = Some
     [(StatusPreparing, [ActorMerchant]), (StatusRejected, [ActorMerchant, ActorAdmin]),
      (StatusCancelled, [ActorCustomer, ActorAdmin])]"
| "transitions StatusPreparing = Some
     [(StatusReady, [ActorMerchant]), (StatusCancelled, [ActorAdmin])]"
| "transitions StatusReady = Some
     [(StatusPickedUp, [ActorPartner]), (StatusCancelled, [ActorAdmin])]"
| "transitions StatusPickedUp = Some
     [(StatusDelivered, [ActorPartner]), (StatusFailed, [ActorPartner, ActorAdmin])]"
| "transitions StatusDelivered = Some []"
| "transitions StatusCancelled = Some []"
| "transitions StatusRejected = Some []"
| "transitions StatusFailed = Some []"
| "transitions (OtherStatus s) = None"

definition order_terminal :: "order_status \<Rightarrow> bool" where
  "order_terminal s \<longleftrightarrow> s \<in> {StatusDelivered, StatusCancelled, StatusRejected, StatusFailed}"

definition order_is_live :: "order_status \<Rightarrow> bool" where
  "order_is_live s \<longleftrightarrow> \<not> order_terminal s \<and> s \<noteq> OtherStatus []"

definition order_status_valid :: "order_status \<Rightarrow> bool" where
  "order_status_valid s = (case transitions s of None \<Rightarrow> False | Some _ \<Rightarrow> True)"

fun scan_moves :: "(order_status \<times> actor list) list \<Rightarrow> order_status \<Rightarrow> actor \<Rightarrow> order_err option" where
  "scan_moves [] to a = Some ErrIllegalTransition"
| "scan_moves ((t, actors) # ms) to a =
     (if t \<noteq> to then scan_moves ms to a
      else if a \<in> set actors then None else Some ErrNotYourTransition)"

definition can_transition :: "order_status \<Rightarrow> order_status \<Rightarrow> actor \<Rightarrow> order_err option" where
  "can_transition frm to a =
     (if order_terminal frm then Some ErrAlreadyFinished
      else case transitions frm of None \<Rightarrow> Some ErrIllegalTransition
           | Some moves \<Rightarrow> scan_moves moves to a)"

definition next_statuses :: "order_status \<Rightarrow> actor \<Rightarrow> order_status list" where
  "next_statuses frm a =
     (case transitions frm of None \<Rightarrow> [] | Some moves \<Rightarrow> [t. (t, actors) \<leftarrow> moves, a \<in> set actors])"

section \<open>The order\<close>

datatype payment_method = PaymentCash | PaymentOnline | OtherPayment string

definition payment_valid :: "payment_method \<Rightarrow> bool" where
  "payment_valid p \<longleftrightarrow> p = PaymentCash \<or> p = PaymentOnline"

definition initial_status :: "payment_method \<Rightarrow> order_status" where
  "initial_status p = (if p = PaymentOnline then StatusPendingPayment else StatusPlaced)"

record order_option =
  oo_group_id :: string
  oo_option_id :: string
  oo_name :: string
  oo_price :: money

record order_line =
  ol_id :: string
  ol_kind :: string
  ol_target_id :: string
  ol_name :: string
  ol_unit_price :: money
  ol_options :: "order_option list"
  ol_quantity :: int64
  ol_note :: string

definition line_total :: "order_line \<Rightarrow> money" where
  "line_total l =
     taka (mul64 (foldl (\<lambda>minor x. add64 minor (m_minor (oo_price x))) (m_minor (ol_unit_price l)) (ol_options l))
                 (ol_quantity l))"

record charges =
  ch_subtotal :: money
  ch_delivery :: money
  ch_expansion_surcharge :: money
  ch_total :: money
  ch_free_delivery :: bool
  ch_expanded :: bool
  ch_distance_m :: f64

record destination =
  de_address_id :: string
  de_label :: string
  de_recipient :: string
  de_phone :: string
  de_line1 :: string
  de_line2 :: string
  de_single_line :: string
  de_lat :: f64
  de_lng :: f64
  de_area_code :: string
  de_area_name :: string
  de_directions :: string

record pickup =
  pk_merchant_id :: string
  pk_name :: string
  pk_phone :: string
  pk_single_line :: string
  pk_lat :: f64
  pk_lng :: f64

record order_event =
  ev_id :: string
  ev_status :: order_status
  ev_actor :: actor
  ev_actor_id :: string
  ev_reason :: string
  ev_at :: instant

record order =
  o_id :: string
  o_code :: string
  o_customer_id :: string
  o_merchant_id :: string
  o_status :: order_status
  o_payment :: payment_method
  o_lines :: "order_line list"
  o_charges :: charges
  o_destination :: destination
  o_pickup :: pickup
  o_expansion_level :: int64
  o_events :: "order_event list"
  o_placed_at :: instant
  o_updated_at :: instant

record order_draft =
  d_id :: string
  d_event_id :: string
  d_code :: string
  d_customer_id :: string
  d_merchant_id :: string
  d_payment :: payment_method
  d_lines :: "order_line list"
  d_charges :: charges
  d_destination :: destination
  d_pickup :: pickup
  d_expansion_level :: int64
  d_cod_limit :: money
  d_now :: instant

definition new_order :: "order_draft \<Rightarrow> order_err + order" where
  "new_order d =
     (if d_customer_id d = [] then Inl ErrNoCustomer
      else if d_merchant_id d = [] then Inl ErrNoMerchant
      else if d_lines d = [] then Inl ErrNoLines
      else if de_address_id (d_destination d) = [] then Inl ErrNoAddress
      else if \<not> payment_valid (d_payment d) then Inl ErrUnknownPayment
      else if is_negative (ch_total (d_charges d)) \<or> is_negative (ch_subtotal (d_charges d))
        then Inl ErrNegativeAmount
      else if d_event_id d = [] then Inl ErrNoEventID
      else if d_payment d = PaymentCash \<and> \<not> is_zero_money (d_cod_limit d)
              \<and> compare_money (ch_total (d_charges d)) (d_cod_limit d) > 0
        then Inl ErrCODLimit
      else Inr \<lparr>o_id = d_id d, o_code = d_code d, o_customer_id = d_customer_id d,
                o_merchant_id = d_merchant_id d, o_status = initial_status (d_payment d),
                o_payment = d_payment d, o_lines = d_lines d, o_charges = d_charges d,
                o_destination = d_destination d, o_pickup = d_pickup d,
                o_expansion_level = d_expansion_level d,
                o_events = [\<lparr>ev_id = d_event_id d, ev_status = initial_status (d_payment d),
                             ev_actor = ActorCustomer, ev_actor_id = d_customer_id d,
                             ev_reason = [], ev_at = d_now d\<rparr>],
                o_placed_at = d_now d, o_updated_at = d_now d\<rparr>)"

definition order_move :: "order_status \<Rightarrow> actor \<Rightarrow> string \<Rightarrow> string \<Rightarrow> instant \<Rightarrow> order \<Rightarrow> order_err + order" where
  "order_move to a actor_id reason now x =
     (case can_transition (o_status x) to a of
        Some e \<Rightarrow> Inl e
      | None \<Rightarrow> Inr (x\<lparr>o_status := to, o_updated_at := now,
          o_events := o_events x @ [\<lparr>ev_id = [], ev_status = to, ev_actor = a,
            ev_actor_id = actor_id, ev_reason = reason, ev_at = now\<rparr>]\<rparr>))"

definition order_count :: "order \<Rightarrow> int64" where
  "order_count x = foldl (\<lambda>n l. add64 n (ol_quantity l)) 0 (o_lines x)"

definition belongs_to :: "order \<Rightarrow> string \<Rightarrow> bool" where
  "belongs_to x customer = (o_customer_id x = customer)"

definition accepted_at :: "order \<Rightarrow> instant option" where
  "accepted_at x = map_option ev_at (find (\<lambda>e. ev_status e = StatusAccepted) (o_events x))"

section \<open>Cancelling\<close>

datatype cancel_reason = ReasonNone | ReasonAlreadyFinished | ReasonTooLate | ReasonUnderway

record cancel_decision =
  cd_allowed :: bool
  cd_reason :: cancel_reason
  cd_free_until :: instant
  cd_seconds_left :: int64

definition may_customer_cancel :: "order \<Rightarrow> duration \<Rightarrow> instant \<Rightarrow> cancel_decision" where
  "may_customer_cancel x window_d now =
     (let free_until = o_placed_at x + window_d;
          left0 = to_int64 (duration_seconds (time_sub free_until now));
          left = (if left0 < 0 then 0 else left0);
          decision = \<lparr>cd_allowed = False, cd_reason = ReasonNone, cd_free_until = free_until,
                      cd_seconds_left = left\<rparr>
      in if order_terminal (o_status x) then decision\<lparr>cd_reason := ReasonAlreadyFinished\<rparr>
         else if can_transition (o_status x) StatusCancelled ActorCustomer \<noteq> None
           then decision\<lparr>cd_reason := ReasonUnderway\<rparr>
         else if \<not> now < free_until then decision\<lparr>cd_reason := ReasonTooLate\<rparr>
         else decision\<lparr>cd_allowed := True\<rparr>)"

section \<open>Who may do what\<close>

definition known_actors :: "actor list" where
  "known_actors = [ActorCustomer, ActorMerchant, ActorPartner, ActorAdmin, ActorSystem]"

definition order_moves :: "order_status \<Rightarrow> order_status \<Rightarrow> bool" where
  "order_moves s t \<longleftrightarrow> list_ex (\<lambda>a. can_transition s t a = None) known_actors"

fun order_rank :: "order_status \<Rightarrow> nat" where
  "order_rank StatusPendingPayment = 0"
| "order_rank StatusPlaced = 1"
| "order_rank StatusAccepted = 2"
| "order_rank StatusPreparing = 3"
| "order_rank StatusReady = 4"
| "order_rank StatusPickedUp = 5"
| "order_rank _ = 6"

lemma scan_moves_None: "scan_moves ms t a = None \<Longrightarrow> \<exists>actors. (t, actors) \<in> set ms \<and> a \<in> set actors"
  by (induction ms t a rule: scan_moves.induct) (auto split: if_splits)

lemma can_transition_known: "can_transition s t a = None \<Longrightarrow> a \<in> set known_actors"
  by (cases s) (auto simp: can_transition_def order_terminal_def known_actors_def
      simp del: scan_moves.simps dest!: scan_moves_None)

lemma can_transition_moves: "can_transition s t a = None \<Longrightarrow> order_moves s t"
  using can_transition_known by (auto simp: order_moves_def list_ex_iff)

lemma can_transition_cases:
  "can_transition s t a = None \<longleftrightarrow> t \<in> set (next_statuses s a)"
  by (cases s; cases t) (auto simp: can_transition_def order_terminal_def next_statuses_def)

lemma order_moves_cases:
  "order_moves s t \<longleftrightarrow>
     (s = StatusPendingPayment \<and> t \<in> {StatusPlaced, StatusCancelled}) \<or>
     (s = StatusPlaced \<and> t \<in> {StatusAccepted, StatusRejected, StatusCancelled}) \<or>
     (s = StatusAccepted \<and> t \<in> {StatusPreparing, StatusRejected, StatusCancelled}) \<or>
     (s = StatusPreparing \<and> t \<in> {StatusReady, StatusCancelled}) \<or>
     (s = StatusReady \<and> t \<in> {StatusPickedUp, StatusCancelled}) \<or>
     (s = StatusPickedUp \<and> t \<in> {StatusDelivered, StatusFailed})"
  by (cases s; cases t) (auto simp: order_moves_def known_actors_def can_transition_def order_terminal_def)

lemma order_moves_terminal: "order_terminal s \<Longrightarrow> \<not> order_moves s t"
  by (auto simp: order_moves_def list_ex_iff can_transition_def)

type_synonym order_command = "order_status \<times> actor \<times> string \<times> string \<times> instant"

definition order_exec :: "order_command \<Rightarrow> order \<Rightarrow> order_err + order" where
  "order_exec c x = (case c of (to, a, actor_id, reason, now) \<Rightarrow> order_move to a actor_id reason now x)"

lemma order_move_ok:
  assumes "order_move to a actor_id reason now x = Inr y"
  shows "can_transition (o_status x) to a = None" and "o_status y = to"
    and "map ev_status (o_events y) = map ev_status (o_events x) @ [to]"
    and "o_id y = o_id x" "o_customer_id y = o_customer_id x" "o_merchant_id y = o_merchant_id x"
    "o_payment y = o_payment x" "o_charges y = o_charges x" "o_lines y = o_lines x"
    "o_placed_at y = o_placed_at x" "o_code y = o_code x"
  using assms by (auto simp: order_move_def split: option.splits)

lemma order_exec_moves: "order_exec c x = Inr y \<Longrightarrow> order_moves (o_status x) (o_status y)"
  by (cases c) (auto simp: order_exec_def dest: order_move_ok(1,2) intro: can_transition_moves)

interpretation order_life: ranked_lifecycle order_moves order_terminal order_rank 6
  by unfold_locales (simp add: order_moves_terminal, auto simp: order_moves_cases)

interpretation order_object: guarded_object order_moves order_terminal o_status order_exec
  by unfold_locales (rule order_exec_moves)

section \<open>The history of an order\<close>

definition order_history_ok :: "order \<Rightarrow> bool" where
  "order_history_ok x \<longleftrightarrow> (let hs = map ev_status (o_events x) in
     hs \<noteq> [] \<and> hd hs = initial_status (o_payment x) \<and> successively order_moves hs \<and> last hs = o_status x)"

lemma new_order_history: "new_order d = Inr x \<Longrightarrow> order_history_ok x"
  by (auto simp: new_order_def order_history_ok_def split: if_splits)

lemma order_exec_history:
  assumes "order_history_ok x" "order_exec c x = Inr y"
  shows "order_history_ok y"
proof -
  obtain to a i r n where c: "c = (to, a, i, r, n)" by (cases c)
  from assms(2) have "order_move to a i r n x = Inr y" by (simp add: order_exec_def c)
  note y = order_move_ok [OF this]
  have "order_moves (o_status x) to" using y(1) by (rule can_transition_moves)
  then show ?thesis using assms(1) y(2,3,7)
    by (simp add: order_history_ok_def Let_def successively_append_iff)
qed

lemma order_run_history: "order_history_ok x \<Longrightarrow> order_history_ok (run_all order_exec cs x)"
  using run_all_invariant [of order_history_ok x order_exec cs] order_exec_history by blast

text \<open>C19: However an order is moved, its recorded events spell out a legal path from the status its
  payment method starts it in to the status it has now, no status occurs twice, a final status is
  only ever the last, and there are at most seven events.\<close>

theorem order_history:
  assumes "new_order d = Inr x" and "y = run_all order_exec cs x"
  defines "hs \<equiv> map ev_status (o_events y)"
  shows "successively order_moves hs \<and> hd hs = initial_status (d_payment d) \<and> last hs = o_status y
    \<and> distinct hs \<and> length hs \<le> 7 \<and> (\<forall>i < length hs. order_terminal (hs ! i) \<longrightarrow> i = length hs - 1)"
proof -
  have "order_history_ok y" using assms(2) order_run_history [OF new_order_history [OF assms(1)]] by simp
  then have h: "hs \<noteq> []" "hd hs = initial_status (o_payment y)"
    "successively order_moves hs" "last hs = o_status y"
    by (simp_all add: order_history_ok_def hs_def Let_def)
  have "o_payment y = o_payment x" unfolding assms(2)
    by (rule run_all_invariant [where P = "\<lambda>z. o_payment z = o_payment x"])
      (auto simp: order_exec_def dest: order_move_ok(7) split: prod.splits)
  moreover have "o_payment x = d_payment d" using assms(1) by (auto simp: new_order_def split: if_splits)
  moreover have "length hs \<le> 7" using order_life.history_bound [OF h(3)] by simp
  ultimately show ?thesis
    using h order_life.chain_distinct [OF h(3)] order_life.terminal_last [OF h(3)] by auto
qed

lemma order_history_witness:
  "\<exists>d x. new_order d = Inr x \<and>
     length (o_events (run_all order_exec [(StatusAccepted, ActorMerchant, [], [], 5)] x)) \<le> 7"
proof -
  define d :: order_draft where "d = \<lparr>d_id = ''o'', d_event_id = ''e'', d_code = [], d_customer_id = ''c'',
     d_merchant_id = ''m'', d_payment = PaymentCash, d_lines = [\<lparr>ol_id = [], ol_kind = [], ol_target_id = [],
       ol_name = [], ol_unit_price = taka 5, ol_options = [], ol_quantity = 1, ol_note = []\<rparr>],
     d_charges = \<lparr>ch_subtotal = taka 5, ch_delivery = taka 0, ch_expansion_surcharge = taka 0,
       ch_total = taka 5, ch_free_delivery = True, ch_expanded = False, ch_distance_m = Fin 0\<rparr>,
     d_destination = \<lparr>de_address_id = ''a'', de_label = [], de_recipient = [], de_phone = [], de_line1 = [],
       de_line2 = [], de_single_line = [], de_lat = Fin 0, de_lng = Fin 0, de_area_code = [], de_area_name = [],
       de_directions = []\<rparr>,
     d_pickup = \<lparr>pk_merchant_id = ''m'', pk_name = [], pk_phone = [], pk_single_line = [], pk_lat = Fin 0,
       pk_lng = Fin 0\<rparr>, d_expansion_level = 0, d_cod_limit = taka 0, d_now = 1\<rparr>"
  have "\<exists>x. new_order d = Inr x" by (simp add: d_def new_order_def payment_valid_def)
  then obtain x where x: "new_order d = Inr x" ..
  have "length (map ev_status (o_events (run_all order_exec [(StatusAccepted, ActorMerchant, [], [], 5)] x))) \<le> 7"
    using order_history [OF x refl] by blast
  then show ?thesis using x by auto
qed

text \<open>C20: The moves each party may make, in full: the customer may only cancel, before preparation
  starts; the partner only collects, delivers or reports failure; the system only settles an unpaid
  order; the merchant works the kitchen and may reject; everything else is the support desk's.\<close>

theorem order_authority:
  "(can_transition s t ActorCustomer = None \<longleftrightarrow>
      t = StatusCancelled \<and> s \<in> {StatusPendingPayment, StatusPlaced, StatusAccepted}) \<and>
   (can_transition s t ActorMerchant = None \<longleftrightarrow>
      (s, t) \<in> {(StatusPlaced, StatusAccepted), (StatusPlaced, StatusRejected),
        (StatusAccepted, StatusPreparing), (StatusAccepted, StatusRejected), (StatusPreparing, StatusReady)}) \<and>
   (can_transition s t ActorPartner = None \<longleftrightarrow>
      (s, t) \<in> {(StatusReady, StatusPickedUp), (StatusPickedUp, StatusDelivered), (StatusPickedUp, StatusFailed)}) \<and>
   (can_transition s t ActorSystem = None \<longleftrightarrow>
      s = StatusPendingPayment \<and> t \<in> {StatusPlaced, StatusCancelled}) \<and>
   (can_transition s t ActorAdmin = None \<longleftrightarrow>
      (t = StatusCancelled \<and> \<not> order_terminal s \<and> s \<noteq> StatusPickedUp \<and> order_status_valid s) \<or>
      (s, t) \<in> {(StatusPlaced, StatusAccepted), (StatusPlaced, StatusRejected),
        (StatusAccepted, StatusRejected), (StatusPickedUp, StatusFailed)}) \<and>
   can_transition s t (OtherActor b) \<noteq> None"
  by (cases s; cases t)
    (simp_all add: can_transition_def order_terminal_def order_status_valid_def)

text \<open>What the service tells a caller they may do next is exactly what it will accept from them.\<close>

theorem next_statuses_exact:
  "set (next_statuses s a) = {t. can_transition s t a = None} \<and> distinct (next_statuses s a)"
  using can_transition_cases [of s _ a]
  by (cases s) (auto simp: next_statuses_def)

text \<open>The customer is told a cancellation is free exactly when the order may still be cancelled
  by them and the window is open, and the seconds left are the whole seconds until it closes, give
  or take the one the floating-point sum may round up.\<close>

theorem may_customer_cancel_exact:
  "(cd_allowed (may_customer_cancel x w now) \<longleftrightarrow>
      (\<exists>y. order_move StatusCancelled ActorCustomer i r now x = Inr y) \<and> now < o_placed_at x + w) \<and>
   (cd_allowed (may_customer_cancel x w now) \<longleftrightarrow> cd_reason (may_customer_cancel x w now) = ReasonNone) \<and>
   (let left = cd_seconds_left (may_customer_cancel x w now);
        d = min (2 ^ 63 - 1) (o_placed_at x + w - now)
    in if now < o_placed_at x + w then left = d div second \<or> left = d div second + 1 else left = 0)"
proof -
  let ?d = "time_sub (o_placed_at x + w) now"
  have left: "cd_seconds_left (may_customer_cancel x w now) = max 0 (to_int64 (duration_seconds ?d))"
    by (auto simp: may_customer_cancel_def Let_def)
  have fin: "order_terminal (o_status x) \<Longrightarrow> can_transition (o_status x) t a \<noteq> None" for t a
    by (simp add: can_transition_def)
  have "(cd_allowed (may_customer_cancel x w now) \<longleftrightarrow>
      (\<exists>y. order_move StatusCancelled ActorCustomer i r now x = Inr y) \<and> now < o_placed_at x + w)"
    "(cd_allowed (may_customer_cancel x w now) \<longleftrightarrow> cd_reason (may_customer_cancel x w now) = ReasonNone)"
    using fin [of StatusCancelled ActorCustomer]
    by (auto simp: may_customer_cancel_def Let_def order_move_def split: option.splits)
  moreover have "max 0 (to_int64 (duration_seconds ?d)) \<in> {?d div second, ?d div second + 1}"
    if "now < o_placed_at x + w"
  proof -
    have "0 \<le> ?d" "?d \<le> 2 ^ 63" using that by (auto simp: time_sub_def)
    then have "0 \<le> ?d div second" "to_int64 (duration_seconds ?d) \<in> {?d div second, ?d div second + 1}"
      using seconds_whole(1) [of ?d] duration_parts(9) by blast+
    then show ?thesis by auto
  qed
  moreover have "max 0 (to_int64 (duration_seconds ?d)) = 0" if "\<not> now < o_placed_at x + w"
  proof -
    have d: "0 \<le> - ?d" "- ?d \<le> 2 ^ 63" using that by (auto simp: time_sub_def)
    then have "0 \<le> (- ?d) div second" using duration_parts(9) by blast
    then show ?thesis using seconds_whole(2) [OF d] by auto
  qed
  moreover have "?d = min (2 ^ 63 - 1) (o_placed_at x + w - now)" if "now < o_placed_at x + w"
    using that by (simp add: time_sub_def)
  ultimately show ?thesis unfolding left Let_def by simp
qed

end
