(* ===== verification/Heaps.thy ===== *)
theory Heaps
  imports Prelude
begin

text \<open>
  \<open>container/heap\<close> of the Go library, as the assigner uses it: a slice in which every element
  is no smaller than its parent, an element pushed at the end and sifted up, the root swapped
  with the last element, sifted down and cut off.  \<open>lt\<close> is the \<open>Less\<close> of the heap's
  interface on two elements.
\<close>

section \<open>The library's operations\<close>

definition heap_swap :: "'a list \<Rightarrow> nat \<Rightarrow> nat \<Rightarrow> 'a list" where
  "heap_swap h i j = h[i := h ! j, j := h ! i]"

lemma length_heap_swap [simp]: "length (heap_swap h i j) = length h"
  by (simp add: heap_swap_def)

lemma mset_heap_swap [simp]: "i < length h \<Longrightarrow> j < length h \<Longrightarrow> mset (heap_swap h i j) = mset h"
  by (simp add: heap_swap_def mset_swap)

lemma nth_heap_swap:
  "i < length h \<Longrightarrow> j < length h \<Longrightarrow> k < length h \<Longrightarrow>
     heap_swap h i j ! k = (if k = j then h ! i else if k = i then h ! j else h ! k)"
  by (simp add: heap_swap_def nth_list_update)

function heap_up :: "('a \<Rightarrow> 'a \<Rightarrow> bool) \<Rightarrow> 'a list \<Rightarrow> nat \<Rightarrow> 'a list" where
  "heap_up lt h j =
     (let i = (j - 1) div 2
      in if i = j \<or> \<not> lt (h ! j) (h ! i) then h else heap_up lt (heap_swap h i j) i)"
  by pat_completeness auto
termination
  by (relation "measure (\<lambda>(lt, h, j). j)") auto

function heap_down :: "('a \<Rightarrow> 'a \<Rightarrow> bool) \<Rightarrow> 'a list \<Rightarrow> nat \<Rightarrow> nat \<Rightarrow> 'a list" where
  "heap_down lt h i n =
     (let j1 = 2 * i + 1
      in if j1 \<ge> n then h
         else let j2 = j1 + 1; j = (if j2 < n \<and> lt (h ! j2) (h ! j1) then j2 else j1)
              in if \<not> lt (h ! j) (h ! i) then h else heap_down lt (heap_swap h i j) j n)"
  by pat_completeness auto
termination
  by (relation "measure (\<lambda>(lt, h, i, n). n - i)") (auto simp: Let_def split: if_splits)

declare heap_up.simps [simp del] heap_down.simps [simp del]

definition heap_push :: "('a \<Rightarrow> 'a \<Rightarrow> bool) \<Rightarrow> 'a list \<Rightarrow> 'a \<Rightarrow> 'a list" where
  "heap_push lt h x = heap_up lt (h @ [x]) (length h)"

text \<open>Called on a non-empty heap only; the assigner guards it.\<close>

definition heap_pop :: "('a \<Rightarrow> 'a \<Rightarrow> bool) \<Rightarrow> 'a list \<Rightarrow> 'a \<times> 'a list" where
  "heap_pop lt h =
     (let n = length h - 1; h1 = heap_down lt (heap_swap h 0 n) 0 n
      in (h1 ! n, take n h1))"

section \<open>Contents\<close>

lemma mset_heap_up: "j < length h \<Longrightarrow> mset (heap_up lt h j) = mset h"
proof (induction lt h j rule: heap_up.induct)
  case (1 lt h j)
  have "(j - 1) div 2 < length h" using 1(2) by linarith
  then show ?case using 1
    by (subst heap_up.simps) (auto simp: Let_def simp del: One_nat_def)
qed

lemma mset_heap_down: "i < n \<Longrightarrow> n \<le> length h \<Longrightarrow> mset (heap_down lt h i n) = mset h"
proof (induction lt h i n rule: heap_down.induct)
  case (1 lt h i n)
  show ?case
  proof (cases "2 * i + 1 < n")
    case False
    then show ?thesis by (subst heap_down.simps) simp
  next
    case True
    define j where "j = (if 2 * i + 1 + 1 < n \<and> lt (h ! (2 * i + 1 + 1)) (h ! (2 * i + 1)) then 2 * i + 1 + 1 else 2 * i + 1)"
    have j: "j < n" using True by (simp add: j_def)
    have step: "heap_down lt h i n = (if \<not> lt (h ! j) (h ! i) then h else heap_down lt (heap_swap h i j) j n)"
      using True by (subst heap_down.simps) (simp add: Let_def j_def)
    show ?thesis
    proof (cases "lt (h ! j) (h ! i)")
      case False
      then show ?thesis by (simp add: step)
    next
      case lt: True
      have "mset (heap_down lt (heap_swap h i j) j n) = mset (heap_swap h i j)"
        using True j 1(3) lt by (intro 1(1) [OF refl _ refl j_def]) auto
      then show ?thesis using step lt j 1(2,3) by simp
    qed
  qed
qed

lemma mset_heap_push: "mset (heap_push lt h x) = add_mset x (mset h)"
  by (simp add: heap_push_def mset_heap_up)

lemma length_heap_up [simp]: "length (heap_up lt h j) = length h"
proof (induction lt h j rule: heap_up.induct)
  case (1 lt h j)
  then show ?case by (subst heap_up.simps) (auto simp: Let_def)
qed

lemma length_heap_down [simp]: "length (heap_down lt h i n) = length h"
proof (induction lt h i n rule: heap_down.induct)
  case (1 lt h i n)
  then show ?case by (subst heap_down.simps) (auto simp: Let_def)
qed

lemma heap_down_beyond: "i < n \<Longrightarrow> n \<le> k \<Longrightarrow> k < length h \<Longrightarrow> heap_down lt h i n ! k = h ! k"
proof (induction lt h i n rule: heap_down.induct)
  case (1 lt h i n)
  then show ?case by (subst heap_down.simps) (auto simp: Let_def nth_heap_swap)
qed

lemma heap_pop_split:
  assumes "h \<noteq> []" "heap_pop lt h = (x, g)"
  defines "n \<equiv> length h - 1"
  defines "d \<equiv> heap_down lt (heap_swap h 0 n) 0 n"
  shows "x = d ! n" "g = take n d" "d = g @ [x]" "mset d = mset h" "mset h = add_mset x (mset g)" "x = h ! 0"
proof -
  have n: "n < length h" "0 < length h" using assms(1) by (simp_all add: n_def)
  have len: "length d = length h" by (simp add: d_def)
  show xg: "x = d ! n" "g = take n d" using assms(2) by (simp_all add: heap_pop_def Let_def d_def n_def)
  have "take (Suc n) d = take n d @ [d ! n]" using n len by (intro take_Suc_conv_app_nth) simp
  moreover have "take (Suc n) d = d" using n len by (simp add: n_def)
  ultimately show dx: "d = g @ [x]" using xg by simp
  have "mset d = mset (heap_swap h 0 n)"
    using n mset_heap_down [of 0 n "heap_swap h 0 n" lt] by (cases "n = 0") (auto simp: d_def heap_down.simps)
  then show md: "mset d = mset h" using n by simp
  then show "mset h = add_mset x (mset g)" using dx by simp
  have "d ! n = heap_swap h 0 n ! n"
  proof (cases "n = 0")
    case True
    then show ?thesis unfolding d_def by (subst heap_down.simps) simp
  next
    case False
    then show ?thesis unfolding d_def using heap_down_beyond [of 0 n n "heap_swap h 0 n" lt] n by simp
  qed
  then show "x = h ! 0" using xg n by (simp add: nth_heap_swap)
qed

section \<open>The heap order\<close>

definition is_heap :: "('a \<Rightarrow> 'a \<Rightarrow> bool) \<Rightarrow> 'a list \<Rightarrow> nat \<Rightarrow> bool" where
  "is_heap lt h n \<longleftrightarrow> (\<forall>k. 0 < k \<and> k < n \<longrightarrow> \<not> lt (h ! k) (h ! ((k - 1) div 2)))"

text \<open>In order but for element \<open>j\<close> and its parent, the children of \<open>j\<close> not below its parent.\<close>

definition heap_but_up :: "('a \<Rightarrow> 'a \<Rightarrow> bool) \<Rightarrow> 'a list \<Rightarrow> nat \<Rightarrow> bool" where
  "heap_but_up lt h j \<longleftrightarrow>
     (\<forall>k. 0 < k \<and> k < length h \<and> k \<noteq> j \<longrightarrow> \<not> lt (h ! k) (h ! ((k - 1) div 2))) \<and>
     (\<forall>k. 0 < j \<and> 0 < k \<and> k < length h \<and> (k - 1) div 2 = j \<longrightarrow> \<not> lt (h ! k) (h ! ((j - 1) div 2)))"

text \<open>In order but for \<open>i\<close> and its children, which are not below its parent.\<close>

definition heap_but_down :: "('a \<Rightarrow> 'a \<Rightarrow> bool) \<Rightarrow> 'a list \<Rightarrow> nat \<Rightarrow> nat \<Rightarrow> bool" where
  "heap_but_down lt h i n \<longleftrightarrow>
     (\<forall>k. 0 < k \<and> k < n \<and> (k - 1) div 2 \<noteq> i \<longrightarrow> \<not> lt (h ! k) (h ! ((k - 1) div 2))) \<and>
     (\<forall>k. 0 < i \<and> 0 < k \<and> k < n \<and> (k - 1) div 2 = i \<longrightarrow> \<not> lt (h ! k) (h ! ((i - 1) div 2)))"

lemma parent_less: "0 < k \<Longrightarrow> (k - 1) div 2 < (k :: nat)"
  by linarith

lemma parent_of: "0 < k \<Longrightarrow> (k - 1) div 2 = i \<longleftrightarrow> k = 2 * i + 1 \<or> k = 2 * i + (2 :: nat)"
  by linarith

context strict_weak_order
begin

lemma heap_up_step:
  assumes "heap_but_up lt h j" "j < length h" "0 < j" "i = (j - 1) div 2" "lt (h ! j) (h ! i)"
  shows "heap_but_up lt (heap_swap h i j) i"
proof -
  have ij: "i < j" "i < length h" using parent_less [OF assms(3)] assms(2,4) by simp_all
  define g where "g = heap_swap h i j"
  have g: "g ! k = (if k = j then h ! i else if k = i then h ! j else h ! k)" if "k < length h" for k
    unfolding g_def using nth_heap_swap ij assms(2) that by blast
  have ord: "\<not> lt (h ! k) (h ! ((k - 1) div 2))" if "0 < k" "k < length h" "k \<noteq> j" for k
    using assms(1) that by (simp add: heap_but_up_def)
  have sub: "\<not> lt (h ! k) (h ! i)" if "0 < k" "k < length h" "(k - 1) div 2 = j" for k
    using assms(1,3,4) that by (simp add: heap_but_up_def)
  have "\<not> lt (g ! k) (g ! ((k - 1) div 2))" if k: "0 < k" "k < length h" "k \<noteq> i" for k
  proof -
    let ?p = "(k - 1) div 2"
    have p: "?p < length h" "?p \<noteq> k" using k parent_less [of k] by auto
    consider "k = j" | "k \<noteq> j" "?p = j" | "k \<noteq> j" "?p = i" "?p \<noteq> j" | "k \<noteq> j" "?p \<noteq> i" "?p \<noteq> j" by blast
    then show ?thesis
    proof cases
      case 1
      then show ?thesis using g [of j] g [of i] ij k assms(4) asym [OF assms(5)] by simp
    next
      case 2
      then show ?thesis using g [of k] g [of j] k sub [of k] p by simp
    next
      case 3
      then have "\<not> lt (h ! k) (h ! j)" using ord [of k] k trans [of "h ! k" "h ! j" "h ! i"] assms(5) by auto
      then show ?thesis using 3 g [of k] g [of i] k ij by auto
    next
      case 4
      then show ?thesis using g [of k] g [of ?p] k p ord [of k] by auto
    qed
  qed
  moreover have "\<not> lt (g ! k) (g ! ((i - 1) div 2))"
    if k: "0 < i" "0 < k" "k < length h" "(k - 1) div 2 = i" for k
  proof -
    have ip: "(i - 1) div 2 < length h" "(i - 1) div 2 \<noteq> i" "(i - 1) div 2 \<noteq> j"
      using k ij parent_less [of i] by auto
    have pi: "\<not> lt (h ! i) (h ! ((i - 1) div 2))" using ord [of i] k ij by simp
    have "\<not> lt (h ! k) (h ! ((i - 1) div 2))" if "k \<noteq> j"
      using that pi co_trans ord [of k] k by blast
    then show ?thesis using g [of k] g [of "(i - 1) div 2"] k ip pi parent_less [of k] by auto
  qed
  ultimately show ?thesis unfolding heap_but_up_def g_def [symmetric] by (simp add: g_def)
qed

lemma heap_up_ok: "j < length h \<Longrightarrow> heap_but_up lt h j \<Longrightarrow> is_heap lt (heap_up lt h j) (length h)"
proof (induction j arbitrary: h rule: less_induct)
  case (less j)
  define i where "i = (j - 1) div 2"
  show ?case
  proof (cases "i = j \<or> \<not> lt (h ! j) (h ! i)")
    case True
    then have "j = 0 \<or> \<not> lt (h ! j) (h ! i)" unfolding i_def using parent_less [of j] by auto
    moreover have "heap_up lt h j = h" using True by (subst heap_up.simps) (auto simp: Let_def i_def)
    ultimately show ?thesis using less.prems unfolding is_heap_def heap_but_up_def i_def by auto
  next
    case False
    then have j: "0 < j" unfolding i_def by (cases j) auto
    have ij: "i < j" "i < length (heap_swap h i j)" using parent_less [OF j] less.prems(1) by (simp_all add: i_def)
    have "heap_but_up lt (heap_swap h i j) i" using heap_up_step less.prems j False i_def by blast
    then have "is_heap lt (heap_up lt (heap_swap h i j) i) (length h)"
      using less.IH [OF ij] by simp
    moreover have "heap_up lt h j = heap_up lt (heap_swap h i j) i"
      using False by (subst heap_up.simps) (auto simp: Let_def i_def)
    ultimately show ?thesis by simp
  qed
qed

lemma heap_down_step:
  assumes "heap_but_down lt h i n" "n \<le> length h" "j < n" "0 < j" "(j - 1) div 2 = i" "lt (h ! j) (h ! i)"
    and least: "\<forall>k. 0 < k \<and> k < n \<and> (k - 1) div 2 = i \<longrightarrow> \<not> lt (h ! k) (h ! j)"
  shows "heap_but_down lt (heap_swap h i j) j n"
proof -
  have ij: "i < j" "i < length h" "j < length h" using parent_less [OF assms(4)] assms(2,3,5) by simp_all
  define g where "g = heap_swap h i j"
  have g: "g ! k = (if k = j then h ! i else if k = i then h ! j else h ! k)" if "k < n" for k
    unfolding g_def using nth_heap_swap ij assms(2) that by (metis less_le_trans)
  have ord: "\<not> lt (h ! k) (h ! ((k - 1) div 2))" if "0 < k" "k < n" "(k - 1) div 2 \<noteq> i" for k
    using assms(1) that by (simp add: heap_but_down_def)
  have sub: "\<not> lt (h ! k) (h ! ((i - 1) div 2))" if "0 < i" "0 < k" "k < n" "(k - 1) div 2 = i" for k
    using assms(1) that by (simp add: heap_but_down_def)
  have "\<not> lt (g ! k) (g ! ((k - 1) div 2))" if k: "0 < k" "k < n" "(k - 1) div 2 \<noteq> j" for k
  proof -
    let ?p = "(k - 1) div 2"
    have p: "?p < n" "?p \<noteq> k" using k parent_less [of k] by auto
    consider "k = j" | "k \<noteq> j" "?p = i" | "k = i" | "k \<noteq> j" "k \<noteq> i" "?p \<noteq> i" by blast
    then show ?thesis
    proof cases
      case 1
      then show ?thesis using g [of j] g [of i] ij assms(3,5) asym [OF assms(6)] by simp
    next
      case 2
      then show ?thesis using g [of k] g [of i] k p least by auto
    next
      case 3
      then show ?thesis using g [of i] g [of ?p] k p ij assms(3,4,5) sub [of j] by auto
    next
      case 4
      then show ?thesis using g [of k] g [of ?p] k p ord [of k] by auto
    qed
  qed
  moreover have "\<not> lt (g ! k) (g ! ((j - 1) div 2))" if k: "0 < k" "k < n" "(k - 1) div 2 = j" for k
  proof -
    have "\<not> lt (h ! k) (h ! j)" using ord [of k] k ij by auto
    then show ?thesis using g [of k] g [of i] k ij assms(3,5) parent_less [of k] by auto
  qed
  ultimately show ?thesis unfolding heap_but_down_def g_def [symmetric] by auto
qed

lemma least_child:
  "j = (if b < n \<and> lt (h ! b) (h ! a) then b else a) \<Longrightarrow> k = a \<or> k = b \<Longrightarrow> k < n \<Longrightarrow> \<not> lt (h ! k) (h ! j)"
  by (auto simp: irrefl dest: asym split: if_splits)

lemma heap_down_ok:
  "i < n \<Longrightarrow> n \<le> length h \<Longrightarrow> heap_but_down lt h i n \<Longrightarrow> is_heap lt (heap_down lt h i n) n"
proof (induction "n - i" arbitrary: i h rule: less_induct)
  case less
  show ?case
  proof (cases "2 * i + 1 < n")
    case False
    then have "(k - 1) div 2 \<noteq> i" if "0 < k" "k < n" for k using that parent_of [OF that(1), of i] by auto
    then have "is_heap lt h n" using less.prems(3) by (simp add: is_heap_def heap_but_down_def)
    then show ?thesis using False by (subst heap_down.simps) simp
  next
    case True
    define j where "j = (if 2 * i + 1 + 1 < n \<and> lt (h ! (2 * i + 1 + 1)) (h ! (2 * i + 1)) then 2 * i + 1 + 1 else 2 * i + 1)"
    have j: "j < n" "0 < j" "(j - 1) div 2 = i" "i < j" using True by (auto simp: j_def)
    have least: "\<not> lt (h ! k) (h ! j)" if "0 < k" "k < n" "(k - 1) div 2 = i" for k
    proof -
      have "k = 2 * i + 1 \<or> k = 2 * i + 1 + 1" using that parent_of [OF that(1)] by auto
      then show ?thesis using least_child [OF j_def] that(2) by blast
    qed
    have step: "heap_down lt h i n = (if \<not> lt (h ! j) (h ! i) then h else heap_down lt (heap_swap h i j) j n)"
      using True by (subst heap_down.simps) (simp add: Let_def j_def)
    show ?thesis
    proof (cases "lt (h ! j) (h ! i)")
      case False
      have "\<not> lt (h ! k) (h ! ((k - 1) div 2))" if "0 < k" "k < n" for k
      proof (cases "(k - 1) div 2 = i")
        case True
        then show ?thesis using least [OF that True] False co_trans by blast
      qed (use that less.prems(3) in \<open>simp add: heap_but_down_def\<close>)
      then show ?thesis using False by (simp add: step is_heap_def)
    next
      case lt: True
      have "heap_but_down lt (heap_swap h i j) j n"
        using heap_down_step less.prems j lt least by blast
      then show ?thesis using less.hyps [of j "heap_swap h i j"] j less.prems lt by (simp add: step)
    qed
  qed
qed

lemma heap_root: "is_heap lt h n \<Longrightarrow> k < n \<Longrightarrow> \<not> lt (h ! k) (h ! 0)"
proof (induction k rule: less_induct)
  case (less k)
  show ?case
  proof (cases "k = 0")
    case True
    then show ?thesis using irrefl by simp
  next
    case False
    then have "\<not> lt (h ! ((k - 1) div 2)) (h ! 0)" using less parent_less [of k] by simp
    moreover have "\<not> lt (h ! k) (h ! ((k - 1) div 2))" using less.prems False by (simp add: is_heap_def)
    ultimately show ?thesis using co_trans by blast
  qed
qed

lemma heap_push_ok: "is_heap lt h (length h) \<Longrightarrow> is_heap lt (heap_push lt h x) (length (heap_push lt h x))"
proof -
  assume h: "is_heap lt h (length h)"
  have "heap_but_up lt (h @ [x]) (length h)"
    unfolding heap_but_up_def
  proof (intro conjI allI impI; elim conjE)
    fix k assume k: "0 < k" "k < length (h @ [x])" "k \<noteq> length h"
    then have "k < length h" "(k - 1) div 2 < length h" using parent_less [of k] by auto
    then show "\<not> lt ((h @ [x]) ! k) ((h @ [x]) ! ((k - 1) div 2))"
      using h k(1) by (simp add: nth_append is_heap_def)
  next
    fix k assume "0 < k" "k < length (h @ [x])" "(k - 1) div 2 = length h"
    then have False using parent_less [of k] by simp
    then show "\<not> lt ((h @ [x]) ! k) ((h @ [x]) ! ((length h - 1) div 2))" ..
  qed
  then show ?thesis using heap_up_ok [of "length h" "h @ [x]"] by (simp add: heap_push_def)
qed

lemma heap_pop_ok:
  assumes "is_heap lt h (length h)" "h \<noteq> []" "heap_pop lt h = (x, g)"
  shows "is_heap lt g (length g)" and "\<forall>y\<in>set g. \<not> lt y x"
proof -
  define n where "n = length h - 1"
  define s where "s = heap_swap h 0 n"
  note split = heap_pop_split [OF assms(2,3), folded n_def, folded s_def]
  have n: "n < length h" "0 < length h" using assms(2) by (simp_all add: n_def)
  show "is_heap lt g (length g)"
  proof (cases "n = 0")
    case True
    then show ?thesis using split(2) by (simp add: is_heap_def)
  next
    case False
    have same: "s ! k = h ! k" if "0 < k" "k < n" for k
      unfolding s_def using that n by (simp add: nth_heap_swap)
    have "heap_but_down lt s 0 n"
      unfolding heap_but_down_def using assms(1) same parent_less n by (auto simp: is_heap_def)
    then have "is_heap lt (heap_down lt s 0 n) n" using False n by (intro heap_down_ok) (auto simp: s_def)
    then show ?thesis using split(2) n unfolding is_heap_def by (auto simp: s_def)
  qed
  have "\<not> lt y x" if "y \<in> set h" for y
    using that heap_root [OF assms(1)] split(6) by (auto simp: in_set_conv_nth)
  moreover have "set_mset (mset h) = insert x (set g)" using split(5) by simp
  ultimately show "\<forall>y\<in>set g. \<not> lt y x" by simp
qed

end

section \<open>Two comparisons that agree on the elements\<close>

lemma set_heap_swap: "i < length h \<Longrightarrow> j < length h \<Longrightarrow> set (heap_swap h i j) = set h"
  using mset_heap_swap by (metis set_mset_mset)

lemma heap_up_cong:
  "j < length h \<Longrightarrow> (\<And>x y. x \<in> set h \<Longrightarrow> y \<in> set h \<Longrightarrow> lt x y = lt' x y) \<Longrightarrow> heap_up lt h j = heap_up lt' h j"
proof (induction lt h j rule: heap_up.induct)
  case (1 lt h j)
  let ?i = "(j - 1) div 2"
  have i: "?i < length h" using 1(2) by linarith
  then have eq: "lt (h ! j) (h ! ?i) = lt' (h ! j) (h ! ?i)" using 1(2,3) by simp
  show ?case
  proof (cases "?i = j \<or> \<not> lt (h ! j) (h ! ?i)")
    case True
    then show ?thesis using eq by (simp add: heap_up.simps [of _ h j] Let_def)
  next
    case False
    have "heap_up lt (heap_swap h ?i j) ?i = heap_up lt' (heap_swap h ?i j) ?i"
      using 1(1) [OF refl False] i 1(2,3) set_heap_swap [OF i 1(2)] by simp
    then show ?thesis using eq by (simp add: heap_up.simps [of _ h j] Let_def)
  qed
qed

lemma heap_down_cong:
  "i < n \<Longrightarrow> n \<le> length h \<Longrightarrow> (\<And>x y. x \<in> set h \<Longrightarrow> y \<in> set h \<Longrightarrow> lt x y = lt' x y) \<Longrightarrow>
     heap_down lt h i n = heap_down lt' h i n"
proof (induction lt h i n rule: heap_down.induct)
  case (1 lt h i n)
  show ?case
  proof (cases "2 * i + 1 < n")
    case False
    then show ?thesis by (simp add: heap_down.simps [of _ h i n])
  next
    case True
    define j where "j = (if 2 * i + 1 + 1 < n \<and> lt (h ! (2 * i + 1 + 1)) (h ! (2 * i + 1)) then 2 * i + 1 + 1 else 2 * i + 1)"
    have agree: "lt (h ! a) (h ! b) = lt' (h ! a) (h ! b)" if "a < n" "b < n" for a b
      using that 1(3,4) by simp
    have j': "j = (if 2 * i + 1 + 1 < n \<and> lt' (h ! (2 * i + 1 + 1)) (h ! (2 * i + 1)) then 2 * i + 1 + 1 else 2 * i + 1)"
      unfolding j_def using agree True by auto
    have j: "j < n" using True by (simp add: j_def)
    have step: "heap_down lt h i n = (if \<not> lt (h ! j) (h ! i) then h else heap_down lt (heap_swap h i j) j n)"
      "heap_down lt' h i n = (if \<not> lt' (h ! j) (h ! i) then h else heap_down lt' (heap_swap h i j) j n)"
      using True by (simp_all only: heap_down.simps [of _ h i n] Let_def j_def [symmetric] j' [symmetric] not_le if_False)
        (simp_all add: not_less [symmetric])
    have "heap_down lt (heap_swap h i j) j n = heap_down lt' (heap_swap h i j) j n" if "lt (h ! j) (h ! i)"
      using 1(1) [OF refl _ refl j_def] True j that 1(2,3,4) set_heap_swap [of i h j] by simp
    then show ?thesis using agree [of j i] j 1(2) by (simp add: step)
  qed
qed

lemma heap_push_cong:
  "(\<And>a b. a \<in> insert x (set h) \<Longrightarrow> b \<in> insert x (set h) \<Longrightarrow> lt a b = lt' a b) \<Longrightarrow> heap_push lt h x = heap_push lt' h x"
  unfolding heap_push_def by (rule heap_up_cong) auto

lemma heap_pop_cong:
  assumes "h \<noteq> []" "\<And>a b. a \<in> set h \<Longrightarrow> b \<in> set h \<Longrightarrow> lt a b = lt' a b"
  shows "heap_pop lt h = heap_pop lt' h"
proof -
  have "set (heap_swap h 0 (length h - 1)) = set h" using assms(1) by (intro set_heap_swap) auto
  then have "heap_down lt (heap_swap h 0 (length h - 1)) 0 (length h - 1) =
    heap_down lt' (heap_swap h 0 (length h - 1)) 0 (length h - 1)"
    using assms heap_down_cong [of 0 "length h - 1" "heap_swap h 0 (length h - 1)" lt lt']
    by (cases "length h - 1 = 0") (simp_all add: heap_down.simps)
  then show ?thesis by (simp add: heap_pop_def)
qed

section \<open>Priority queues\<close>

text \<open>Taking elements out until the queue is empty, at most \<open>n\<close> of them.\<close>

primrec drain :: "('q \<Rightarrow> ('a \<times> 'q) option) \<Rightarrow> nat \<Rightarrow> 'q \<Rightarrow> 'a list" where
  "drain pop 0 q = []"
| "drain pop (Suc n) q = (case pop q of None \<Rightarrow> [] | Some (x, q') \<Rightarrow> x # drain pop n q')"

text \<open>What a user of a priority queue relies on: a push adds the element, a pop gives a least one.\<close>

locale priority_queue = strict_weak_order lt for lt :: "'a \<Rightarrow> 'a \<Rightarrow> bool" +
  fixes push :: "'q \<Rightarrow> 'a \<Rightarrow> 'q" and pop :: "'q \<Rightarrow> ('a \<times> 'q) option"
    and items :: "'q \<Rightarrow> 'a multiset" and invar :: "'q \<Rightarrow> bool"
  assumes push_items: "invar q \<Longrightarrow> items (push q x) = add_mset x (items q)"
    and push_invar: "invar q \<Longrightarrow> invar (push q x)"
    and pop_empty: "pop q = None \<longleftrightarrow> items q = {#}"
    and pop_items: "invar q \<Longrightarrow> pop q = Some (x, q') \<Longrightarrow> items q = add_mset x (items q')"
    and pop_invar: "invar q \<Longrightarrow> pop q = Some (x, q') \<Longrightarrow> invar q'"
    and pop_least: "invar q \<Longrightarrow> pop q = Some (x, q') \<Longrightarrow> y \<in># items q' \<Longrightarrow> \<not> lt y x"
begin

lemma push_all:
  "invar q \<Longrightarrow> invar (foldl push q xs) \<and> items (foldl push q xs) = items q + mset xs"
  by (induction xs arbitrary: q) (auto simp: push_items push_invar)

lemma drain_all:
  "invar q \<Longrightarrow> size (items q) \<le> n \<Longrightarrow>
     mset (drain pop n q) = items q \<and> sorted_wrt (\<lambda>a b. \<not> lt b a) (drain pop n q)"
proof (induction n arbitrary: q)
  case 0
  then show ?case by simp
next
  case (Suc n)
  show ?case
  proof (cases "pop q")
    case None
    then show ?thesis using pop_empty [of q] by simp
  next
    case (Some r)
    obtain x q' where r: "r = (x, q')" by (cases r)
    then have p: "pop q = Some (x, q')" using Some by simp
    have "mset (drain pop n q') = items q' \<and> sorted_wrt (\<lambda>a b. \<not> lt b a) (drain pop n q')"
      using Suc pop_items [OF Suc.prems(1) p] pop_invar [OF Suc.prems(1) p] by simp
    moreover from this have "\<not> lt y x" if "y \<in> set (drain pop n q')" for y
      using that pop_least [OF Suc.prems(1) p] by (metis set_mset_mset)
    ultimately show ?thesis using p pop_items [OF Suc.prems(1) p] by simp
  qed
qed

end

definition heap_take :: "('a \<Rightarrow> 'a \<Rightarrow> bool) \<Rightarrow> 'a list \<Rightarrow> ('a \<times> 'a list) option" where
  "heap_take lt h = (if h = [] then None else Some (heap_pop lt h))"

lemma heap_priority_queue:
  assumes "strict_weak_order lt"
  shows "priority_queue lt (heap_push lt) (heap_take lt) mset (\<lambda>h. is_heap lt h (length h))"
  using assms
  by (intro priority_queue.intro priority_queue_axioms.intro)
    (auto simp: heap_take_def mset_heap_push split: if_splits
      intro: strict_weak_order.heap_push_ok dest: strict_weak_order.heap_pop_ok heap_pop_split(5))

end
