(* ===== verification/Dispatch_Domain.thy ===== *)
theory Dispatch_Domain
  imports Lifecycles GoTime
begin

text \<open>
  \<open>modules/dispatch/domain\<close>: the delivery job and its moves (\<open>job.go\<close>), the delivery
  partner (\<open>partner.go\<close>), and the partner's job feed (\<open>feed.go\<close>).  A method with a pointer
  receiver returns the changed job, or the error with the job as it was.
\<close>

section \<open>Jobs\<close>

datatype job_status =
    JobWaiting | JobOffered | JobAssigned | JobCollected | JobDelivered | JobFailed | JobCancelled
  | OtherJob string

datatype band = BandShort | BandLong | BandBeyond | OtherBand string

datatype dispatch_err =
    Job_ErrNoOrder | ErrJobIllegalMove | ErrJobNotYours | ErrJobFinished | ErrJobUnassigned
  | ErrOfferExpired | ErrNegativeDistance | ErrNoFailureReason
  | ErrNoUser | ErrNoName | ErrNoPhone | ErrBadPreference | ErrBadAvailability | ErrNotWorking
  | ErrAtCapacity

definition job_terminal :: "job_status \<Rightarrow> bool" where
  "job_terminal s \<longleftrightarrow> s = JobDelivered \<or> s = JobFailed \<or> s = JobCancelled"

definition job_is_live :: "job_status \<Rightarrow> bool" where
  "job_is_live s \<longleftrightarrow> \<not> job_terminal s \<and> s \<noteq> OtherJob []"

record place =
  pl_name :: string
  pl_phone :: string
  pl_single_line :: string
  pl_lat :: f64
  pl_lng :: f64

record placement =
  pm_area_code :: string
  pm_district_code :: string
  pm_division_code :: string

record job =
  j_id :: string
  j_order_id :: string
  j_code :: string
  j_status :: job_status
  j_partner_id :: string
  j_pickup :: place
  j_destination :: place
  j_distance_m :: f64
  j_band :: band
  j_placement :: placement
  j_passed_by :: string
  j_reason :: string
  j_attempts :: int64
  j_offered_at :: instant
  j_offer_expires_at :: instant
  j_created_at :: instant
  j_updated_at :: instant

definition new_job :: "string \<Rightarrow> string \<Rightarrow> string \<Rightarrow> place \<Rightarrow> place \<Rightarrow> f64 \<Rightarrow> band \<Rightarrow> placement \<Rightarrow> instant
    \<Rightarrow> dispatch_err + job" where
  "new_job jid order_id code pick dest distance_m bnd plc now =
     (if order_id = [] then Inl Job_ErrNoOrder
      else if flt distance_m (Fin 0) then Inl ErrNegativeDistance
      else Inr \<lparr>j_id = jid, j_order_id = order_id, j_code = code, j_status = JobWaiting,
                j_partner_id = [], j_pickup = pick, j_destination = dest, j_distance_m = distance_m,
                j_band = bnd, j_placement = plc, j_passed_by = [], j_reason = [], j_attempts = 0,
                j_offered_at = zero_time, j_offer_expires_at = zero_time,
                j_created_at = now, j_updated_at = now\<rparr>)"

definition offer_lapsed :: "job \<Rightarrow> instant \<Rightarrow> bool" where
  "offer_lapsed j now \<longleftrightarrow> j_status j = JobOffered \<and> \<not> now < j_offer_expires_at j"

definition job_offer :: "string \<Rightarrow> instant \<Rightarrow> duration \<Rightarrow> job \<Rightarrow> dispatch_err + job" where
  "job_offer partner now timeout j =
     (if job_terminal (j_status j) then Inl ErrJobFinished
      else if j_status j \<noteq> JobWaiting \<and> \<not> offer_lapsed j now then Inl ErrJobIllegalMove
      else Inr (j\<lparr>j_status := JobOffered, j_partner_id := partner, j_passed_by := [],
                  j_offered_at := now, j_offer_expires_at := now + timeout,
                  j_attempts := add64 (j_attempts j) 1, j_updated_at := now\<rparr>))"

definition held_by :: "string \<Rightarrow> job \<Rightarrow> dispatch_err option" where
  "held_by partner j =
     (if job_terminal (j_status j) then Some ErrJobFinished
      else if j_partner_id j = [] then Some ErrJobUnassigned
      else if j_partner_id j \<noteq> partner then Some ErrJobNotYours
      else None)"

definition job_accept :: "string \<Rightarrow> instant \<Rightarrow> job \<Rightarrow> dispatch_err + job" where
  "job_accept partner now j =
     (case held_by partner j of Some e \<Rightarrow> Inl e
      | None \<Rightarrow>
          if j_status j \<noteq> JobOffered then Inl ErrJobIllegalMove
          else if offer_lapsed j now then Inl ErrOfferExpired
          else Inr (j\<lparr>j_status := JobAssigned, j_offer_expires_at := zero_time, j_updated_at := now\<rparr>))"

definition job_release :: "instant \<Rightarrow> job \<Rightarrow> job" where
  "job_release now j = j\<lparr>j_passed_by := j_partner_id j, j_status := JobWaiting, j_partner_id := [],
     j_offered_at := zero_time, j_offer_expires_at := zero_time, j_updated_at := now\<rparr>"

definition job_decline :: "string \<Rightarrow> instant \<Rightarrow> job \<Rightarrow> dispatch_err + job" where
  "job_decline partner now j =
     (case held_by partner j of Some e \<Rightarrow> Inl e
      | None \<Rightarrow> if j_status j \<noteq> JobOffered then Inl ErrJobIllegalMove else Inr (job_release now j))"

definition job_lapse :: "instant \<Rightarrow> job \<Rightarrow> dispatch_err + job" where
  "job_lapse now j = (if \<not> offer_lapsed j now then Inl ErrJobIllegalMove else Inr (job_release now j))"

definition job_move :: "string \<Rightarrow> job_status \<Rightarrow> job_status \<Rightarrow> instant \<Rightarrow> job \<Rightarrow> dispatch_err + job" where
  "job_move partner frm to now j =
     (case held_by partner j of Some e \<Rightarrow> Inl e
      | None \<Rightarrow> if j_status j \<noteq> frm then Inl ErrJobIllegalMove
                else Inr (j\<lparr>j_status := to, j_updated_at := now\<rparr>))"

definition job_collect :: "string \<Rightarrow> instant \<Rightarrow> job \<Rightarrow> dispatch_err + job" where
  "job_collect partner now = job_move partner JobAssigned JobCollected now"

definition job_deliver :: "string \<Rightarrow> instant \<Rightarrow> job \<Rightarrow> dispatch_err + job" where
  "job_deliver partner now = job_move partner JobCollected JobDelivered now"

definition job_fail :: "string \<Rightarrow> string \<Rightarrow> instant \<Rightarrow> job \<Rightarrow> dispatch_err + job" where
  "job_fail partner reason now j =
     (case held_by partner j of Some e \<Rightarrow> Inl e
      | None \<Rightarrow>
          if reason = [] then Inl ErrNoFailureReason
          else case j_status j of
            JobAssigned \<Rightarrow> Inr (job_release now (j\<lparr>j_reason := reason\<rparr>))
          | JobCollected \<Rightarrow> Inr (j\<lparr>j_status := JobFailed, j_reason := reason, j_updated_at := now\<rparr>)
          | _ \<Rightarrow> Inl ErrJobIllegalMove)"

definition job_cancel :: "string \<Rightarrow> instant \<Rightarrow> job \<Rightarrow> dispatch_err + job" where
  "job_cancel reason now j =
     (if job_terminal (j_status j) then Inl ErrJobFinished
      else Inr (j\<lparr>j_status := JobCancelled, j_reason := reason, j_updated_at := now\<rparr>))"

section \<open>Partners\<close>

datatype availability = Offline | Available | Busy | OtherAvailability string
datatype preference = PreferShort | PreferLong | PreferAny | OtherPreference string

definition preference_valid :: "preference \<Rightarrow> bool" where
  "preference_valid p \<longleftrightarrow> p = PreferShort \<or> p = PreferLong \<or> p = PreferAny"

definition band_for :: "f64 \<Rightarrow> f64 \<Rightarrow> f64 \<Rightarrow> band" where
  "band_for distance_m short_max long_max =
     (if fle distance_m short_max then BandShort
      else if fle distance_m long_max then BandLong else BandBeyond)"

fun pref_accepts :: "preference \<Rightarrow> band \<Rightarrow> bool" where
  "pref_accepts p BandShort = (p = PreferShort \<or> p = PreferAny)"
| "pref_accepts p BandLong = (p = PreferLong \<or> p = PreferAny)"
| "pref_accepts p _ = True"

record partner =
  p_id :: string
  p_user_id :: string
  p_name :: string
  p_phone :: string
  p_vehicle :: string
  p_availability :: availability
  p_preference :: preference
  p_lat :: f64
  p_lng :: f64
  p_carrying :: int64
  p_offered :: int64
  p_accepted :: int64

definition new_partner :: "string \<Rightarrow> string \<Rightarrow> string \<Rightarrow> string \<Rightarrow> string \<Rightarrow> dispatch_err + partner" where
  "new_partner pid user name phone vehicle =
     (if user = [] then Inl ErrNoUser
      else if name = [] then Inl ErrNoName
      else if phone = [] then Inl ErrNoPhone
      else Inr \<lparr>p_id = pid, p_user_id = user, p_name = name, p_phone = phone, p_vehicle = vehicle,
                p_availability = Offline, p_preference = PreferAny, p_lat = Fin 0, p_lng = Fin 0,
                p_carrying = 0, p_offered = 0, p_accepted = 0\<rparr>)"

definition acceptance_rate :: "partner \<Rightarrow> f64" where
  "acceptance_rate p =
     (if p_offered p \<le> 0 then Fin 1
      else let rate = fdiv (of_int64 (p_accepted p)) (of_int64 (p_offered p))
           in if flt (Fin 1) rate then Fin 1 else rate)"

definition can_take :: "partner \<Rightarrow> int64 \<Rightarrow> dispatch_err option" where
  "can_take p max_concurrent =
     (if p_availability p \<noteq> Available then Some ErrNotWorking
      else if max_concurrent > 0 \<and> p_carrying p \<ge> max_concurrent then Some ErrAtCapacity
      else None)"

definition with_availability :: "availability \<Rightarrow> partner \<Rightarrow> dispatch_err + partner" where
  "with_availability a p =
     (if a \<noteq> Offline \<and> a \<noteq> Available then Inl ErrBadAvailability else Inr (p\<lparr>p_availability := a\<rparr>))"

definition with_preference :: "preference \<Rightarrow> partner \<Rightarrow> dispatch_err + partner" where
  "with_preference pref p =
     (if \<not> preference_valid pref then Inl ErrBadPreference else Inr (p\<lparr>p_preference := pref\<rparr>))"

definition partner_at :: "f64 \<Rightarrow> f64 \<Rightarrow> partner \<Rightarrow> partner" where
  "partner_at lat lng p = p\<lparr>p_lat := lat, p_lng := lng\<rparr>"

section \<open>The feed\<close>

record feed_entry =
  fe_job :: job
  fe_distance :: f64

definition feed_limit :: nat where "feed_limit = 20"

definition feed_before :: "feed_entry \<Rightarrow> feed_entry \<Rightarrow> bool" where
  "feed_before a b =
     (if \<not> feq (fe_distance a) (fe_distance b) then flt (fe_distance a) (fe_distance b)
      else j_id (fe_job a) < j_id (fe_job b))"

definition feed_keeps :: "partner \<Rightarrow> feed_entry \<Rightarrow> bool" where
  "feed_keeps p e \<longleftrightarrow> pref_accepts (p_preference p) (j_band (fe_job e)) \<and> j_status (fe_job e) = JobWaiting"

definition build_feed :: "partner \<Rightarrow> feed_entry list \<Rightarrow> feed_entry list" where
  "build_feed p entries = take feed_limit (stable_sort feed_before (filter (feed_keeps p) entries))"

section \<open>The life of a job\<close>

datatype job_command =
    JOffer string instant duration
  | JAccept string instant
  | JDecline string instant
  | JLapse instant
  | JCollect string instant
  | JDeliver string instant
  | JFail string string instant
  | JCancel string instant

fun job_exec :: "job_command \<Rightarrow> job \<Rightarrow> dispatch_err + job" where
  "job_exec (JOffer p now d) = job_offer p now d"
| "job_exec (JAccept p now) = job_accept p now"
| "job_exec (JDecline p now) = job_decline p now"
| "job_exec (JLapse now) = job_lapse now"
| "job_exec (JCollect p now) = job_collect p now"
| "job_exec (JDeliver p now) = job_deliver p now"
| "job_exec (JFail p r now) = job_fail p r now"
| "job_exec (JCancel r now) = job_cancel r now"

definition job_moves :: "job_status \<Rightarrow> job_status \<Rightarrow> bool" where
  "job_moves s t \<longleftrightarrow>
     (s, t) \<in> {(JobWaiting, JobOffered), (JobOffered, JobOffered), (JobOffered, JobAssigned),
               (JobOffered, JobWaiting), (JobAssigned, JobWaiting), (JobAssigned, JobCollected),
               (JobCollected, JobDelivered), (JobCollected, JobFailed)}
     \<or> (t = JobCancelled \<and> \<not> job_terminal s)"

lemma held_by_None:
  "held_by p j = None \<longleftrightarrow> \<not> job_terminal (j_status j) \<and> j_partner_id j = p \<and> p \<noteq> []"
  by (auto simp: held_by_def)

lemma job_offer_Inr:
  "job_offer p t d j = Inr k \<longleftrightarrow> \<not> job_terminal (j_status j) \<and> (j_status j = JobWaiting \<or> offer_lapsed j t) \<and>
     k = j\<lparr>j_status := JobOffered, j_partner_id := p, j_passed_by := [], j_offered_at := t,
           j_offer_expires_at := t + d, j_attempts := add64 (j_attempts j) 1, j_updated_at := t\<rparr>"
  by (auto simp: job_offer_def)

lemma job_accept_Inr:
  "job_accept p t j = Inr k \<longleftrightarrow> j_status j = JobOffered \<and> j_partner_id j = p \<and> p \<noteq> [] \<and> t < j_offer_expires_at j \<and>
     k = j\<lparr>j_status := JobAssigned, j_offer_expires_at := zero_time, j_updated_at := t\<rparr>"
  by (auto simp: job_accept_def held_by_def offer_lapsed_def job_terminal_def)

lemma job_decline_Inr:
  "job_decline p t j = Inr k \<longleftrightarrow> j_status j = JobOffered \<and> j_partner_id j = p \<and> p \<noteq> [] \<and> k = job_release t j"
  by (auto simp: job_decline_def held_by_def job_terminal_def)

lemma job_lapse_Inr:
  "job_lapse t j = Inr k \<longleftrightarrow> j_status j = JobOffered \<and> j_offer_expires_at j \<le> t \<and> k = job_release t j"
  by (auto simp: job_lapse_def offer_lapsed_def)

lemma job_collect_Inr:
  "job_collect p t j = Inr k \<longleftrightarrow> j_status j = JobAssigned \<and> j_partner_id j = p \<and> p \<noteq> [] \<and>
     k = j\<lparr>j_status := JobCollected, j_updated_at := t\<rparr>"
  by (auto simp: job_collect_def job_move_def held_by_def job_terminal_def)

lemma job_deliver_Inr:
  "job_deliver p t j = Inr k \<longleftrightarrow> j_status j = JobCollected \<and> j_partner_id j = p \<and> p \<noteq> [] \<and>
     k = j\<lparr>j_status := JobDelivered, j_updated_at := t\<rparr>"
  by (auto simp: job_deliver_def job_move_def held_by_def job_terminal_def)

lemma job_fail_Inr:
  "job_fail p r t j = Inr k \<longleftrightarrow> j_partner_id j = p \<and> p \<noteq> [] \<and> r \<noteq> [] \<and>
     (j_status j = JobAssigned \<and> k = job_release t (j\<lparr>j_reason := r\<rparr>) \<or>
      j_status j = JobCollected \<and> k = j\<lparr>j_status := JobFailed, j_reason := r, j_updated_at := t\<rparr>)"
  by (cases "j_status j") (auto simp: job_fail_def held_by_def job_terminal_def)

lemma job_cancel_Inr:
  "job_cancel r t j = Inr k \<longleftrightarrow> \<not> job_terminal (j_status j) \<and>
     k = j\<lparr>j_status := JobCancelled, j_reason := r, j_updated_at := t\<rparr>"
  by (auto simp: job_cancel_def)

lemma job_release_sel [simp]:
  "j_status (job_release t j) = JobWaiting" "j_partner_id (job_release t j) = []"
  "j_id (job_release t j) = j_id j" "j_order_id (job_release t j) = j_order_id j"
  by (simp_all add: job_release_def)

lemmas job_ops_Inr = job_offer_Inr job_accept_Inr job_decline_Inr job_lapse_Inr job_collect_Inr
  job_deliver_Inr job_fail_Inr job_cancel_Inr

lemma job_exec_moves: "job_exec c j = Inr k \<Longrightarrow> job_moves (j_status j) (j_status k)"
proof (cases c)
  case (JOffer p t d)
  then show "job_exec c j = Inr k \<Longrightarrow> ?thesis" by (auto simp: job_offer_Inr job_moves_def offer_lapsed_def)
next
  case (JFail p r t)
  then show "job_exec c j = Inr k \<Longrightarrow> ?thesis" 
    by (simp add: job_fail_Inr, elim conjE disjE) (simp_all add: job_moves_def)
next
  case (JCancel r t)
  then show "job_exec c j = Inr k \<Longrightarrow> ?thesis" by (auto simp: job_cancel_Inr job_moves_def)
qed (simp_all add: job_accept_Inr job_decline_Inr job_lapse_Inr job_collect_Inr job_deliver_Inr, auto simp: job_moves_def)

lemma job_exec_keeps:
  "job_exec c j = Inr k \<Longrightarrow> j_id k = j_id j \<and> j_order_id k = j_order_id j"
  by (cases c) (auto simp: job_ops_Inr)

lemma job_terminal_stuck: "job_terminal s \<Longrightarrow> \<not> job_moves s t"
  by (auto simp: job_moves_def job_terminal_def)

interpretation job_life: guarded_object job_moves job_terminal j_status job_exec
  by unfold_locales (rule job_terminal_stuck, assumption, rule job_exec_moves)

text \<open>The commands that took a job where it is, in the order they came.\<close>

definition delivered_by :: "job_command list \<Rightarrow> string \<Rightarrow> bool" where
  "delivered_by cs p \<longleftrightarrow> (\<exists>t d t1 t2 t3. t1 < t + d \<and>
     subseq [JOffer p t d, JAccept p t1, JCollect p t2, JDeliver p t3] cs)"

definition job_trace_ok :: "job_command list \<Rightarrow> job \<Rightarrow> bool" where
  "job_trace_ok cs j \<longleftrightarrow> (case j_status j of
     JobWaiting \<Rightarrow> j_partner_id j = []
   | JobOffered \<Rightarrow> (\<exists>t d. j_offer_expires_at j = t + d \<and> subseq [JOffer (j_partner_id j) t d] cs)
   | JobAssigned \<Rightarrow> j_partner_id j \<noteq> [] \<and> (\<exists>t d t1. t1 < t + d \<and>
       subseq [JOffer (j_partner_id j) t d, JAccept (j_partner_id j) t1] cs)
   | JobCollected \<Rightarrow> j_partner_id j \<noteq> [] \<and> (\<exists>t d t1 t2. t1 < t + d \<and>
       subseq [JOffer (j_partner_id j) t d, JAccept (j_partner_id j) t1, JCollect (j_partner_id j) t2] cs)
   | JobDelivered \<Rightarrow> j_partner_id j \<noteq> [] \<and> delivered_by cs (j_partner_id j)
   | JobFailed \<Rightarrow> j_partner_id j \<noteq> [] \<and> j_reason j \<noteq> []
   | _ \<Rightarrow> True)"

lemma subseq_later: "subseq xs cs \<Longrightarrow> subseq xs (cs @ [c])"
  using subseq_append_le_same_iff by (metis append_Nil2 list_emb_Nil subseq_append_iff)

lemma subseq_snoc: "subseq xs cs \<Longrightarrow> subseq (xs @ [c]) (cs @ [c])"
  by (simp add: subseq_append)

lemma subseq_last: "subseq [c] (cs @ [c])"
  by (metis append_Nil list_emb_Nil subseq_snoc)

lemma subseq_snoc2: "subseq [a] cs \<Longrightarrow> subseq [a, c] (cs @ [c])"
  using subseq_snoc [of "[a]"] by simp

lemma subseq_snoc3: "subseq [a, b] cs \<Longrightarrow> subseq [a, b, c] (cs @ [c])"
  using subseq_snoc [of "[a, b]"] by simp

lemma subseq_snoc4: "subseq [a, b, e] cs \<Longrightarrow> subseq [a, b, e, c] (cs @ [c])"
  using subseq_snoc [of "[a, b, e]"] by simp

lemmas subseq_grow = subseq_later subseq_last subseq_snoc2 subseq_snoc3 subseq_snoc4

lemma job_trace_refused: "job_trace_ok cs j \<Longrightarrow> job_trace_ok (cs @ [c]) j"
  unfolding job_trace_ok_def delivered_by_def
  by (auto split: job_status.splits intro: subseq_later) (blast intro: subseq_later)+

lemma job_trace_step:
  assumes "job_trace_ok cs j" "job_exec c j = Inr k"
  shows "job_trace_ok (cs @ [c]) k"
proof (cases c)
  case (JOffer p t d)
  then have "j_status k = JobOffered" "j_partner_id k = p" "j_offer_expires_at k = t + d"
    using assms(2) by (auto simp: job_offer_Inr)
  then show ?thesis using JOffer subseq_last [of c cs] unfolding job_trace_ok_def by auto
next
  case (JAccept p t)
  then have "j_status j = JobOffered" "j_partner_id j = p" "p \<noteq> []" "t < j_offer_expires_at j"
    "j_status k = JobAssigned" "j_partner_id k = p"
    using assms(2) by (auto simp: job_accept_Inr)
  then show ?thesis using assms(1) JAccept
    by (auto simp: job_trace_ok_def) (metis subseq_snoc2)
next
  case (JCollect p t)
  then have "j_status j = JobAssigned" "j_partner_id j = p" "p \<noteq> []"
    "j_status k = JobCollected" "j_partner_id k = p"
    using assms(2) by (auto simp: job_collect_Inr)
  then show ?thesis using assms(1) JCollect
    by (auto simp: job_trace_ok_def) (metis subseq_snoc3)
next
  case (JDeliver p t)
  then have "j_status j = JobCollected" "j_partner_id j = p" "p \<noteq> []"
    "j_status k = JobDelivered" "j_partner_id k = p"
    using assms(2) by (auto simp: job_deliver_Inr)
  then show ?thesis using assms(1) JDeliver
    by (auto simp: job_trace_ok_def delivered_by_def) (metis subseq_snoc4)
qed (use assms(2) in \<open>auto simp: job_ops_Inr job_trace_ok_def\<close>)

lemma new_job_trace: "new_job jid oid code pick dest dm bnd plc now = Inr j \<Longrightarrow> job_trace_ok [] j"
  by (auto simp: new_job_def job_trace_ok_def split: if_splits)

lemma job_run_trace: "job_trace_ok [] j \<Longrightarrow> job_trace_ok cs (run_all job_exec cs j)"
proof (induction cs rule: rev_induct)
  case Nil
  then show ?case by simp
next
  case (snoc c cs)
  let ?j = "run_all job_exec cs j"
  have "job_trace_ok cs ?j" using snoc by blast
  then show ?case
    using job_trace_refused job_trace_step
    by (cases "job_exec c ?j") (auto simp: run_all_append)
qed

text \<open>Whatever is tried on a job, it ends delivered only if one partner was offered it, accepted
  before that offer ran out, collected it and then delivered it, in that order; and a job with
  nobody on it is waiting for one.\<close>

theorem job_delivered_by_one_partner:
  assumes "new_job jid oid code pick dest dm bnd plc now = Inr j"
  defines "k \<equiv> \<lambda>cs. run_all job_exec cs j"
  shows "(j_status (k cs) = JobDelivered \<longrightarrow> j_partner_id (k cs) \<noteq> [] \<and> delivered_by cs (j_partner_id (k cs))) \<and>
    (j_status (k cs) = JobWaiting \<longrightarrow> j_partner_id (k cs) = []) \<and>
    (j_status (k cs) \<in> {JobAssigned, JobCollected, JobFailed} \<longrightarrow> j_partner_id (k cs) \<noteq> [])"
  using job_run_trace [OF new_job_trace [OF assms(1)], of cs]
  unfolding k_def job_trace_ok_def by (auto split: job_status.splits)

text \<open>A finished job refuses every command, so nothing that comes later changes it.\<close>

theorem job_finished_stays:
  assumes "job_terminal (j_status j)"
  shows "run_all job_exec cs j = j \<and> (\<exists>e. job_exec c j = Inl e)"
  using job_life.run_terminal job_life.terminal_refuses assms by blast

text \<open>A job the witnesses are stated on.\<close>

definition example_place :: place where
  "example_place = \<lparr>pl_name = ''shop'', pl_phone = ''017'', pl_single_line = ''road 1'', pl_lat = Fin 23, pl_lng = Fin 90\<rparr>"

definition example_job :: job where
  "example_job = \<lparr>j_id = ''j'', j_order_id = ''o'', j_code = ''c'', j_status = JobWaiting, j_partner_id = [],
     j_pickup = example_place, j_destination = example_place, j_distance_m = Fin 5, j_band = BandShort,
     j_placement = \<lparr>pm_area_code = ''a'', pm_district_code = ''b'', pm_division_code = ''c''\<rparr>,
     j_passed_by = [], j_reason = [], j_attempts = 0, j_offered_at = zero_time,
     j_offer_expires_at = zero_time, j_created_at = 1, j_updated_at = 1\<rparr>"

lemma example_job_new:
  "new_job ''j'' ''o'' ''c'' example_place example_place (Fin 5) BandShort
     \<lparr>pm_area_code = ''a'', pm_district_code = ''b'', pm_division_code = ''c''\<rparr> 1 = Inr example_job"
  by (simp add: new_job_def example_job_def)

lemma job_delivered_by_one_partner_witness:
  "delivered_by [JOffer ''p'' 1 9, JAccept ''p'' 2, JCollect ''p'' 3, JDeliver ''p'' 4] ''p''"
proof -
  let ?cs = "[JOffer ''p'' 1 9, JAccept ''p'' 2, JCollect ''p'' 3, JDeliver ''p'' 4]"
  have "j_status (run_all job_exec ?cs example_job) = JobDelivered"
    "j_partner_id (run_all job_exec ?cs example_job) = ''p''"
    by (simp_all add: example_job_def job_offer_def job_accept_def job_collect_def job_deliver_def job_move_def
      held_by_def offer_lapsed_def job_terminal_def)
  then show ?thesis using job_delivered_by_one_partner [OF example_job_new, of ?cs] by simp
qed

lemma job_finished_stays_witness:
  "run_all job_exec [JOffer ''q'' 7 8, JCancel [] 9] (example_job\<lparr>j_status := JobDelivered\<rparr>)
     = example_job\<lparr>j_status := JobDelivered\<rparr>"
  by (rule job_finished_stays [THEN conjunct1]) (simp add: job_terminal_def)

section \<open>What the feed shows\<close>

definition feed_key_before :: "feed_entry \<Rightarrow> feed_entry \<Rightarrow> bool" where
  "feed_key_before a b \<longleftrightarrow> fval (fe_distance a) < fval (fe_distance b) \<or>
     (fval (fe_distance a) = fval (fe_distance b) \<and> j_id (fe_job a) < j_id (fe_job b))"

interpretation feed_order: strict_weak_order feed_key_before
  by (rule strict_weak_order_lex) (rule feed_key_before_def)

lemma feed_before_key:
  "is_fin (fe_distance a) \<Longrightarrow> is_fin (fe_distance b) \<Longrightarrow> feed_before a b = feed_key_before a b"
  by (auto simp: is_fin_iff feed_before_def feed_key_before_def)

text \<open>The feed holds at most twenty entries, all of them waiting jobs in a band the partner takes,
  nearest first and by id on ties; and no kept entry it leaves out should have come before one it
  shows.\<close>

theorem build_feed_nearest:
  assumes "\<forall>e\<in>set entries. is_fin (fe_distance e)"
  shows "mset (build_feed p entries) \<subseteq># mset (filter (feed_keeps p) entries) \<and>
    length (build_feed p entries) = min 20 (length (filter (feed_keeps p) entries)) \<and>
    sorted_wrt (\<lambda>a b. \<not> feed_before b a) (build_feed p entries) \<and>
    (\<forall>e. e \<in># mset (filter (feed_keeps p) entries) - mset (build_feed p entries) \<longrightarrow>
       (\<forall>s\<in>set (build_feed p entries). \<not> feed_before e s))"
proof -
  let ?kept = "filter (feed_keeps p) entries"
  define xs where "xs = stable_sort feed_before ?kept"
  have fin: "is_fin (fe_distance e)" if "e \<in> set ?kept" for e using that assms by auto
  have "xs = stable_sort feed_key_before ?kept" unfolding xs_def
    using fin by (intro stable_sort_cong feed_before_key) auto
  then have "sorted_wrt (\<lambda>a b. \<not> feed_key_before b a) xs" by (simp add: feed_order.sorted_stable_sort)
  moreover have set: "set xs = set ?kept" by (simp add: xs_def)
  ultimately have sorted: "sorted_wrt (\<lambda>a b. \<not> feed_before b a) xs"
    using fin feed_before_key by (metis (mono_tags, lifting) sorted_wrt_mono_rel)
  have split: "mset xs = mset (take 20 xs) + mset (drop 20 xs)"
    by (metis append_take_drop_id mset_append)
  have xs: "mset xs = mset ?kept" "length xs = length ?kept" by (simp_all add: xs_def)
  have "\<not> feed_before e s" if "e \<in> set (drop 20 xs)" "s \<in> set (take 20 xs)" for e s
    using sorted that by (metis append_take_drop_id sorted_wrt_append)
  moreover have "mset ?kept - mset (take 20 xs) = mset (drop 20 xs)" using split xs(1) by simp
  ultimately show ?thesis
    using sorted split xs unfolding build_feed_def feed_limit_def xs_def [symmetric]
    by (auto simp: sorted_wrt_take)
qed

definition example_partner :: partner where
  "example_partner = \<lparr>p_id = ''p'', p_user_id = ''u'', p_name = ''n'', p_phone = ''018'', p_vehicle = ''bike'',
     p_availability = Available, p_preference = PreferAny, p_lat = Fin 23, p_lng = Fin 90, p_carrying = 0,
     p_offered = 0, p_accepted = 0\<rparr>"

lemma build_feed_nearest_witness:
  "length (build_feed example_partner [\<lparr>fe_job = example_job, fe_distance = Fin 7\<rparr>]) = 1"
  using build_feed_nearest [of "[\<lparr>fe_job = example_job, fe_distance = Fin 7\<rparr>]" example_partner]
  by (simp add: feed_keeps_def example_job_def example_partner_def)

end
