(* ===== verification/Assigner.thy ===== *)
theory Assigner
  imports Heaps Dispatch_Domain
begin

text \<open>
  \<open>modules/dispatch/domain/assignment.go\<close>: how badly placed a candidate partner is for a job,
  and the heap the assigner takes candidates from, best placed first.
\<close>

section \<open>The score\<close>

definition weight_proximity :: f64 where "weight_proximity = fl (55 / 100)"
definition weight_load :: f64 where "weight_load = fl (25 / 100)"
definition weight_acceptance :: f64 where "weight_acceptance = fl (20 / 100)"

record candidate =
  ca_partner_id :: string
  ca_distance_m :: f64
  ca_carrying :: int64
  ca_max_concurrent :: int64
  ca_acceptance_rate :: f64

definition clamp01 :: "f64 \<Rightarrow> f64" where
  "clamp01 v = (if flt v (Fin 0) then Fin 0 else if flt (Fin 1) v then Fin 1 else v)"

definition proximity :: "f64 \<Rightarrow> f64 \<Rightarrow> f64" where
  "proximity distance_m radius_m = (if fle radius_m (Fin 0) then Fin 0 else fdiv distance_m radius_m)"

definition load_of :: "int64 \<Rightarrow> int64 \<Rightarrow> f64" where
  "load_of carrying max_concurrent =
     (if max_concurrent \<le> 0 then Fin 0 else fdiv (of_int64 carrying) (of_int64 max_concurrent))"

definition score :: "candidate \<Rightarrow> f64 \<Rightarrow> f64" where
  "score c radius_m =
     fadd (fadd (fmul weight_proximity (clamp01 (proximity (ca_distance_m c) radius_m)))
                (fmul weight_load (clamp01 (load_of (ca_carrying c) (ca_max_concurrent c)))))
          (fmul weight_acceptance (clamp01 (fsub (Fin 1) (ca_acceptance_rate c))))"

section \<open>The assigner\<close>

record scored =
  sc_candidate :: candidate
  sc_score :: f64

definition scored_less :: "scored \<Rightarrow> scored \<Rightarrow> bool" where
  "scored_less a b =
     (if \<not> feq (sc_score a) (sc_score b) then flt (sc_score a) (sc_score b)
      else ca_partner_id (sc_candidate a) < ca_partner_id (sc_candidate b))"

record assigner =
  as_heap :: "scored list"
  as_radius_m :: f64

definition new_assigner :: "candidate list \<Rightarrow> f64 \<Rightarrow> assigner" where
  "new_assigner candidates radius_m =
     \<lparr>as_heap = foldl (\<lambda>h c. heap_push scored_less h \<lparr>sc_candidate = c, sc_score = score c radius_m\<rparr>)
                  [] candidates,
      as_radius_m = radius_m\<rparr>"

definition assigner_next :: "assigner \<Rightarrow> (candidate \<times> assigner) option" where
  "assigner_next a =
     (if as_heap a = [] then None
      else case heap_pop scored_less (as_heap a) of (x, h) \<Rightarrow> Some (sc_candidate x, a\<lparr>as_heap := h\<rparr>))"

definition remaining :: "assigner \<Rightarrow> nat" where
  "remaining a = length (as_heap a)"

section \<open>Bounds and monotonicity of the score\<close>

definition unit_range :: "f64 \<Rightarrow> bool" where
  "unit_range x \<longleftrightarrow> (\<exists>a. x = Fin a \<and> 0 \<le> a \<and> a \<le> 1)"

lemma clamp01_unit: "x \<noteq> NaN \<Longrightarrow> unit_range (clamp01 x)"
  by (cases x) (auto simp: clamp01_def unit_range_def)

lemma clamp01_mono: "fle x y \<Longrightarrow> fle (clamp01 x) (clamp01 y)"
  by (cases x; cases y) (auto simp: clamp01_def fle_def)

lemma fl_unit:
  assumes "0 \<le> x" "x \<le> of_nat n" "n \<le> 8"
  shows "\<exists>a. fl x = Fin a \<and> a = rne x \<and> 0 \<le> a \<and> a \<le> of_nat n"
proof -
  have "\<bar>x\<bar> \<le> 2 ^ 53" using assms by simp
  then have "fl x = Fin (rne x)" by (rule fl_Fin)
  moreover have "rne x \<le> of_nat n" using rne.le_int [of "int n" x] assms by simp
  ultimately show ?thesis using assms(1) rne_nonneg by blast
qed

lemma weighted_unit:
  assumes "0 \<le> w" "w \<le> 1" "unit_range x"
  shows "unit_range (fmul (Fin w) x)"
proof -
  obtain a where a: "x = Fin a" "0 \<le> a" "a \<le> 1" using assms(3) by (auto simp: unit_range_def)
  then have "0 \<le> w * a" "w * a \<le> of_nat 1" using assms by (simp_all add: mult_le_one)
  then show ?thesis using fl_unit [of "w * a" 1] a by (auto simp: unit_range_def)
qed

lemma weights:
  "\<exists>w. weight_proximity = Fin w \<and> 0 \<le> w \<and> w \<le> 1" "\<exists>w. weight_load = Fin w \<and> 0 \<le> w \<and> w \<le> 1"
  "\<exists>w. weight_acceptance = Fin w \<and> 0 \<le> w \<and> w \<le> 1"
  using fl_unit [of "55 / 100" 1] fl_unit [of "25 / 100" 1] fl_unit [of "20 / 100" 1]
  by (auto simp: weight_proximity_def weight_load_def weight_acceptance_def)

lemma fmul_mono:
  assumes "0 \<le> w" "fle x y" "unit_range x" "unit_range y"
  shows "fle (fmul (Fin w) x) (fmul (Fin w) y)"
  using assms by (auto simp: unit_range_def intro!: fle_fl mult_left_mono)

lemma fadd_mono: "fle (Fin a) (Fin b) \<Longrightarrow> fle (Fin c) (Fin d) \<Longrightarrow> fle (fadd (Fin a) (Fin c)) (fadd (Fin b) (Fin d))"
  by (auto intro!: fle_fl add_mono)

lemma weighted_parts:
  "unit_range x \<Longrightarrow> unit_range (fmul weight_proximity x)"
  "unit_range x \<Longrightarrow> unit_range (fmul weight_load x)"
  "unit_range x \<Longrightarrow> unit_range (fmul weight_acceptance x)"
  using weights weighted_unit by metis+

definition weighted_sum :: "f64 \<Rightarrow> f64 \<Rightarrow> f64 \<Rightarrow> f64" where
  "weighted_sum x y z = fadd (fadd (fmul weight_proximity x) (fmul weight_load y)) (fmul weight_acceptance z)"

lemma weighted_sum_parts:
  assumes "unit_range x" "unit_range y" "unit_range z"
  shows "\<exists>a b c. fmul weight_proximity x = Fin a \<and> fmul weight_load y = Fin b \<and> fmul weight_acceptance z = Fin c
    \<and> 0 \<le> a \<and> a \<le> 1 \<and> 0 \<le> b \<and> b \<le> 1 \<and> 0 \<le> c \<and> c \<le> 1
    \<and> weighted_sum x y z = Fin (rne (rne (a + b) + c)) \<and> fadd (Fin a) (Fin b) = Fin (rne (a + b))
    \<and> 0 \<le> rne (rne (a + b) + c) \<and> rne (rne (a + b) + c) \<le> 3"
proof -
  obtain a b c where f: "fmul weight_proximity x = Fin a" "fmul weight_load y = Fin b" "fmul weight_acceptance z = Fin c"
    and u: "0 \<le> a" "a \<le> 1" "0 \<le> b" "b \<le> 1" "0 \<le> c" "c \<le> 1"
    using weighted_parts assms by (metis unit_range_def)
  have ab: "fl (a + b) = Fin (rne (a + b))" "0 \<le> rne (a + b)" "rne (a + b) \<le> 2"
    using fl_unit [of "a + b" 2] u by auto
  have abc: "fl (rne (a + b) + c) = Fin (rne (rne (a + b) + c))" "0 \<le> rne (rne (a + b) + c)" "rne (rne (a + b) + c) \<le> 3"
    using fl_unit [of "rne (a + b) + c" 3] u ab by auto
  then show ?thesis using f u ab by (auto simp: weighted_sum_def)
qed

lemma weighted_sum_mono:
  assumes "unit_range x" "unit_range y" "unit_range z" "unit_range x'" "unit_range y'" "unit_range z'"
    and "fle x x'" "fle y y'" "fle z z'"
  shows "fle (weighted_sum x y z) (weighted_sum x' y' z')"
proof -
  have m: "fle (fmul weight_proximity x) (fmul weight_proximity x')" "fle (fmul weight_load y) (fmul weight_load y')"
    "fle (fmul weight_acceptance z) (fmul weight_acceptance z')"
    using weights fmul_mono assms by metis+
  show ?thesis
    using weighted_sum_parts [OF assms(1-3)] weighted_sum_parts [OF assms(4-6)] m
    by (auto simp: rne_mono add_mono)
qed

text \<open>
  A candidate with finite numbers: a distance, an acceptance rate from 0 to 1, and counts that
  are exact as floating-point numbers.
\<close>

definition sane_candidate :: "candidate \<Rightarrow> bool" where
  "sane_candidate c \<longleftrightarrow> is_fin (ca_distance_m c) \<and> unit_range (ca_acceptance_rate c) \<and>
     \<bar>ca_carrying c\<bar> \<le> 2 ^ 53 \<and> \<bar>ca_max_concurrent c\<bar> \<le> 2 ^ 53"

lemma fl_not_NaN: "fl x \<noteq> NaN"
  using fl_cases [of x] by auto

lemma proximity_mono:
  assumes "is_fin d" "is_fin d'" "is_fin r" "fle d d'"
  shows "fle (proximity d r) (proximity d' r)" and "proximity d r \<noteq> NaN"
  using assms fl_not_NaN
  by (auto simp: proximity_def is_fin_iff intro!: fle_fl divide_right_mono split: if_splits)

lemma load_mono:
  assumes "\<bar>c\<bar> \<le> 2 ^ 53" "\<bar>c'\<bar> \<le> 2 ^ 53" "\<bar>m\<bar> \<le> 2 ^ 53" "c \<le> c'"
  shows "fle (load_of c m) (load_of c' m)" and "load_of c m \<noteq> NaN"
proof -
  have "of_int64 c = Fin (of_int c)" "of_int64 c' = Fin (of_int c')" "of_int64 m = Fin (of_int m)"
    using assms by (auto intro!: of_int64_exact)
  then show "fle (load_of c m) (load_of c' m)" "load_of c m \<noteq> NaN"
    using assms(4) fl_not_NaN by (auto simp: load_of_def intro!: fle_fl divide_right_mono)
qed

lemma reluctance_mono:
  assumes "unit_range a" "unit_range a'" "fle a' a"
  shows "fle (fsub (Fin 1) a) (fsub (Fin 1) a')" and "fsub (Fin 1) a \<noteq> NaN"
  using assms fl_not_NaN by (auto simp: unit_range_def fsub_def intro!: fle_fl)

lemma score_weighted:
  "score c r = weighted_sum (clamp01 (proximity (ca_distance_m c) r))
     (clamp01 (load_of (ca_carrying c) (ca_max_concurrent c))) (clamp01 (fsub (Fin 1) (ca_acceptance_rate c)))"
  by (simp add: score_def weighted_sum_def)

lemma sane_units:
  assumes "sane_candidate c" "is_fin r"
  shows "unit_range (clamp01 (proximity (ca_distance_m c) r))"
    and "unit_range (clamp01 (load_of (ca_carrying c) (ca_max_concurrent c)))"
    and "unit_range (clamp01 (fsub (Fin 1) (ca_acceptance_rate c)))"
  using assms proximity_mono(2) [of "ca_distance_m c" "ca_distance_m c" r]
    load_mono(2) [of "ca_carrying c" "ca_carrying c" "ca_max_concurrent c"]
    reluctance_mono(2) [of "ca_acceptance_rate c" "ca_acceptance_rate c"]
  by (auto simp: sane_candidate_def is_fin_iff unit_range_def intro!: clamp01_unit [unfolded unit_range_def])

lemma score_finite:
  assumes "sane_candidate c" "is_fin r"
  shows "is_fin (score c r)"
  using weighted_sum_parts [OF sane_units [OF assms]] by (auto simp: score_weighted is_fin_iff)

text \<open>Being nearer, carrying less or having declined more offers never makes a partner's place
  in the queue worse: the score, a number from 0 to 3, is monotone in each of the three measures
  even after floating-point rounding.\<close>

theorem score_monotone:
  assumes "sane_candidate c" "sane_candidate d" "is_fin r"
    and "fle (ca_distance_m c) (ca_distance_m d)" "ca_carrying c \<le> ca_carrying d"
    and "ca_max_concurrent c = ca_max_concurrent d" "fle (ca_acceptance_rate d) (ca_acceptance_rate c)"
  shows "fle (score c r) (score d r) \<and> fle (Fin 0) (score c r) \<and> fle (score c r) (Fin 3)"
proof -
  note c = sane_units [OF assms(1,3)] and d = sane_units [OF assms(2,3)]
  have "fle (score c r) (score d r)"
    unfolding score_weighted using assms
    by (intro weighted_sum_mono c d clamp01_mono proximity_mono load_mono reluctance_mono)
      (auto simp: sane_candidate_def intro!: load_mono)
  moreover have "fle (Fin 0) (score c r) \<and> fle (score c r) (Fin 3)"
    using weighted_sum_parts [OF c] by (auto simp: score_weighted)
  ultimately show ?thesis by simp
qed

definition example_candidate :: "string \<Rightarrow> rat \<Rightarrow> candidate" where
  "example_candidate p d = \<lparr>ca_partner_id = p, ca_distance_m = Fin d, ca_carrying = 0, ca_max_concurrent = 3,
     ca_acceptance_rate = Fin 1\<rparr>"

lemma example_candidate_sane: "sane_candidate (example_candidate p d)"
  by (simp add: sane_candidate_def example_candidate_def unit_range_def)

lemma score_monotone_witness:
  "fle (score (example_candidate ''a'' 100) (Fin 3000)) (score (example_candidate ''b'' 900) (Fin 3000))"
  by (rule score_monotone [THEN conjunct1]) (simp_all add: example_candidate_sane, simp_all add: example_candidate_def)

section \<open>The order candidates come out in\<close>

definition scored_key_less :: "scored \<Rightarrow> scored \<Rightarrow> bool" where
  "scored_key_less a b \<longleftrightarrow> fval (sc_score a) < fval (sc_score b) \<or>
     (fval (sc_score a) = fval (sc_score b) \<and> ca_partner_id (sc_candidate a) < ca_partner_id (sc_candidate b))"

lemma scored_key_weak: "strict_weak_order scored_key_less"
  by (rule strict_weak_order_lex) (rule scored_key_less_def)

interpretation scored_heap: priority_queue scored_key_less "heap_push scored_key_less"
    "heap_take scored_key_less" mset "\<lambda>h. is_heap scored_key_less h (length h)"
  by (rule heap_priority_queue [OF scored_key_weak])

lemma scored_less_key:
  "is_fin (sc_score a) \<Longrightarrow> is_fin (sc_score b) \<Longrightarrow> scored_less a b = scored_key_less a b"
  by (auto simp: is_fin_iff scored_less_def scored_key_less_def)

definition with_score :: "f64 \<Rightarrow> candidate \<Rightarrow> scored" where
  "with_score r c = \<lparr>sc_candidate = c, sc_score = score c r\<rparr>"

lemma push_cong_all:
  "\<forall>x\<in>set h \<union> set xs. is_fin (sc_score x) \<Longrightarrow>
     foldl (heap_push scored_less) h xs = foldl (heap_push scored_key_less) h xs"
proof (induction xs arbitrary: h)
  case Nil
  then show ?case by simp
next
  case (Cons x xs)
  have "heap_push scored_less h x = heap_push scored_key_less h x"
    using Cons.prems by (intro heap_push_cong scored_less_key) auto
  moreover have "set (heap_push scored_key_less h x) = insert x (set h)"
    using mset_heap_push by (metis set_mset_add_mset_insert set_mset_mset)
  ultimately show ?case using Cons.IH [of "heap_push scored_key_less h x"] Cons.prems by simp
qed

lemma new_assigner_heap:
  "as_heap (new_assigner cs r) = foldl (heap_push scored_less) [] (map (with_score r) cs)"
  by (simp add: new_assigner_def foldl_map with_score_def)

lemma drain_assigner:
  assumes "\<forall>x\<in>set h. is_fin (sc_score x)"
  shows "drain assigner_next n \<lparr>as_heap = h, as_radius_m = r\<rparr> = map sc_candidate (drain (heap_take scored_key_less) n h)"
  using assms
proof (induction n arbitrary: h)
  case 0
  then show ?case by simp
next
  case (Suc n)
  show ?case
  proof (cases "h = []")
    case True
    then show ?thesis by (simp add: assigner_next_def heap_take_def)
  next
    case False
    obtain x g where xg: "heap_pop scored_key_less h = (x, g)" by fastforce
    have "heap_pop scored_less h = heap_pop scored_key_less h"
      using Suc.prems False by (intro heap_pop_cong scored_less_key) auto
    moreover have "set g \<subseteq> set h"
      using heap_pop_split(5) [OF False xg] by (metis set_mset_add_mset_insert set_mset_mset subset_insertI)
    ultimately show ?thesis using False xg Suc by (auto simp: assigner_next_def heap_take_def subset_iff)
  qed
qed

lemma push_all_set:
  "set (foldl (heap_push lt) h xs) = set h \<union> set xs"
proof (induction xs arbitrary: h)
  case Nil
  then show ?case by simp
next
  case (Cons x xs)
  have "set (heap_push lt h x) = insert x (set h)"
    using mset_heap_push by (metis set_mset_add_mset_insert set_mset_mset)
  then show ?case using Cons by auto
qed

lemma scored_key_leD:
  "is_fin (sc_score x) \<Longrightarrow> is_fin (sc_score y) \<Longrightarrow> \<not> scored_key_less y x \<Longrightarrow>
     fle (sc_score x) (sc_score y) \<and>
     (feq (sc_score x) (sc_score y) \<longrightarrow> ca_partner_id (sc_candidate x) \<le> ca_partner_id (sc_candidate y))"
  by (auto simp: is_fin_iff scored_key_less_def not_less)

text \<open>C23: Calling \<open>Next\<close> until it has nothing left gives every candidate exactly once, no candidate
  before one that scores lower, and on equal scores in the order of their ids.\<close>

theorem assigner_order:
  assumes "\<forall>c\<in>set cs. sane_candidate c" "is_fin r"
  defines "out \<equiv> drain assigner_next (length cs) (new_assigner cs r)"
  shows "mset out = mset cs \<and>
    sorted_wrt (\<lambda>c d. fle (score c r) (score d r) \<and>
      (feq (score c r) (score d r) \<longrightarrow> ca_partner_id c \<le> ca_partner_id d)) out"
proof -
  let ?xs = "map (with_score r) cs"
  define h where "h = foldl (heap_push scored_key_less) [] ?xs"
  have fin: "\<forall>x\<in>set ?xs. is_fin (sc_score x)" using assms score_finite by (auto simp: with_score_def)
  then have "as_heap (new_assigner cs r) = h" unfolding new_assigner_heap h_def
    by (intro push_cong_all) simp
  then have a: "new_assigner cs r = \<lparr>as_heap = h, as_radius_m = r\<rparr>" by (simp add: new_assigner_def)
  have inv: "is_heap scored_key_less h (length h)" "mset h = mset ?xs"
    using scored_heap.push_all [of "[]" ?xs] by (auto simp: h_def is_heap_def)
  have "set h = set ?xs" unfolding h_def push_all_set by simp
  then have "\<forall>x\<in>set h. is_fin (sc_score x)" using fin by simp
  then have out: "out = map sc_candidate (drain (heap_take scored_key_less) (length cs) h)"
    unfolding out_def a by (rule drain_assigner)
  define ys where "ys = drain (heap_take scored_key_less) (length cs) h"
  have "mset ys = mset h" "sorted_wrt (\<lambda>a b. \<not> scored_key_less b a) ys"
    using scored_heap.drain_all [of h "length cs"] inv by (simp_all add: ys_def)
  then have ys: "mset ys = mset ?xs" "sorted_wrt (\<lambda>a b. \<not> scored_key_less b a) ys" using inv by simp_all
  have sc: "sc_score x = score (sc_candidate x) r" "is_fin (sc_score x)" if "x \<in> set ys" for x
  proof -
    have "x \<in> set ?xs" using that ys(1) by (metis set_mset_mset)
    then show "sc_score x = score (sc_candidate x) r" "is_fin (sc_score x)" using fin by (auto simp: with_score_def)
  qed
  have "sorted_wrt (\<lambda>x y. fle (sc_score x) (sc_score y) \<and>
      (feq (sc_score x) (sc_score y) \<longrightarrow> ca_partner_id (sc_candidate x) \<le> ca_partner_id (sc_candidate y))) ys"
    using scored_key_leD sc(2) by (intro sorted_wrt_mono_rel [OF _ ys(2)]) blast
  then have "sorted_wrt (\<lambda>c d. fle (score c r) (score d r) \<and>
      (feq (score c r) (score d r) \<longrightarrow> ca_partner_id c \<le> ca_partner_id d)) (map sc_candidate ys)"
    unfolding sorted_wrt_map by (rule sorted_wrt_mono_rel [rotated]) (use sc(1) in auto)
  moreover have "mset (map sc_candidate ys) = mset cs"
  proof -
    have "mset (map sc_candidate ys) = image_mset sc_candidate (mset ?xs)" using ys(1) by simp
    also have "\<dots> = mset cs" by (simp add: with_score_def multiset.map_comp comp_def)
    finally show ?thesis .
  qed
  ultimately show ?thesis by (simp add: out ys_def)
qed

lemma assigner_order_witness:
  "let cs = [example_candidate ''a'' 900, example_candidate ''b'' 100]
   in mset (drain assigner_next (length cs) (new_assigner cs (Fin 3000))) = mset cs"
  unfolding Let_def by (rule assigner_order [THEN conjunct1]) (auto simp: example_candidate_sane)

end
