(* ===== verification/Payment_Domain.thy ===== *)
theory Payment_Domain
  imports Lifecycles Money GoTime
begin

text \<open>
  \<open>modules/payment/domain\<close>: an online payment and its states (\<open>payment.go\<close>), and the cash a
  partner collected at a door, what of it they still hold and what they handed in
  (\<open>collection.go\<close>).
\<close>

section \<open>Payments\<close>

datatype payment_err =
    Pay_ErrNoOrder | Pay_ErrNoCustomer | ErrNoGateway | ErrNotPositive | ErrNotPending
  | ErrNotCaptured | ErrNoReason | ErrAmountMismatch
  | ErrNoPartner | ErrAlreadyRemitted | ErrNoRemittanceRef | ErrWrongPartner | ErrCollectionExists

datatype pay_status = PayPending | PayCaptured | PayFailed | PayRefunded | OtherPayStatus string

definition pay_terminal :: "pay_status \<Rightarrow> bool" where
  "pay_terminal s \<longleftrightarrow> s = PayFailed \<or> s = PayRefunded"

record payment =
  pay_id :: string
  pay_order_id :: string
  pay_customer_id :: string
  pay_gateway :: string
  pay_reference :: string
  pay_gateway_ref :: string
  pay_amount :: money
  pay_status :: pay_status
  pay_failure_reason :: string
  pay_refund_reason :: string
  pay_created_at :: instant
  pay_updated_at :: instant

definition new_payment :: "string \<Rightarrow> string \<Rightarrow> string \<Rightarrow> string \<Rightarrow> money \<Rightarrow> instant \<Rightarrow> payment_err + payment" where
  "new_payment pid order_id customer_id gateway amount now =
     (if order_id = [] then Inl Pay_ErrNoOrder
      else if customer_id = [] then Inl Pay_ErrNoCustomer
      else if gateway = [] then Inl ErrNoGateway
      else if is_zero_money amount \<or> is_negative amount then Inl ErrNotPositive
      else Inr \<lparr>pay_id = pid, pay_order_id = order_id, pay_customer_id = customer_id,
                pay_gateway = gateway, pay_reference = pid, pay_gateway_ref = [], pay_amount = amount,
                pay_status = PayPending, pay_failure_reason = [], pay_refund_reason = [],
                pay_created_at = now, pay_updated_at = now\<rparr>)"

definition pay_capture :: "string \<Rightarrow> money \<Rightarrow> instant \<Rightarrow> payment \<Rightarrow> payment_err + payment" where
  "pay_capture gateway_ref amount now p =
     (if pay_status p \<noteq> PayPending then Inl ErrNotPending
      else if compare_money (pay_amount p) amount \<noteq> 0 then Inl ErrAmountMismatch
      else Inr (p\<lparr>pay_status := PayCaptured, pay_gateway_ref := gateway_ref, pay_updated_at := now\<rparr>))"

definition pay_fail :: "string \<Rightarrow> instant \<Rightarrow> payment \<Rightarrow> payment_err + payment" where
  "pay_fail reason now p =
     (if pay_status p \<noteq> PayPending then Inl ErrNotPending
      else if reason = [] then Inl ErrNoReason
      else Inr (p\<lparr>pay_status := PayFailed, pay_failure_reason := reason, pay_updated_at := now\<rparr>))"

definition pay_refund :: "string \<Rightarrow> instant \<Rightarrow> payment \<Rightarrow> payment_err + payment" where
  "pay_refund reason now p =
     (if pay_status p \<noteq> PayCaptured then Inl ErrNotCaptured
      else if reason = [] then Inl ErrNoReason
      else Inr (p\<lparr>pay_status := PayRefunded, pay_refund_reason := reason, pay_updated_at := now\<rparr>))"

section \<open>Cash collections\<close>

datatype collection_status = CashHeld | CashRemitted | OtherCash string

record collection =
  co_id :: string
  co_order_id :: string
  co_partner_id :: string
  co_amount :: money
  co_status :: collection_status
  co_remittance_ref :: string
  co_collected_at :: instant
  co_remitted_at :: instant
  co_created_at :: instant
  co_updated_at :: instant

definition new_collection :: "string \<Rightarrow> string \<Rightarrow> string \<Rightarrow> money \<Rightarrow> instant \<Rightarrow> payment_err + collection" where
  "new_collection cid order_id partner_id amount now =
     (if order_id = [] then Inl Pay_ErrNoOrder
      else if partner_id = [] then Inl ErrNoPartner
      else if is_zero_money amount \<or> is_negative amount then Inl ErrNotPositive
      else Inr \<lparr>co_id = cid, co_order_id = order_id, co_partner_id = partner_id, co_amount = amount,
                co_status = CashHeld, co_remittance_ref = [], co_collected_at = now,
                co_remitted_at = zero_time, co_created_at = now, co_updated_at = now\<rparr>)"

definition remit :: "string \<Rightarrow> string \<Rightarrow> instant \<Rightarrow> collection \<Rightarrow> payment_err + collection" where
  "remit partner_id reference now c =
     (if co_partner_id c \<noteq> partner_id then Inl ErrWrongPartner
      else if co_status c \<noteq> CashHeld then Inl ErrAlreadyRemitted
      else if reference = [] then Inl ErrNoRemittanceRef
      else Inr (c\<lparr>co_status := CashRemitted, co_remittance_ref := reference, co_remitted_at := now,
                  co_updated_at := now\<rparr>))"

record ledger =
  lg_partner_id :: string
  lg_outstanding :: money
  lg_remitted :: money
  lg_held :: "collection list"

text \<open>\<open>total, _ = total.Add(x)\<close>: on an error the total becomes the zero money.\<close>

definition add_or_zero :: "money \<Rightarrow> money \<Rightarrow> money" where
  "add_or_zero a b = (case add_money a b of Inl _ \<Rightarrow> money_zero_value | Inr c \<Rightarrow> c)"

definition ledger_step :: "ledger \<Rightarrow> collection \<Rightarrow> ledger" where
  "ledger_step l c = (case co_status c of
     CashHeld \<Rightarrow> l\<lparr>lg_outstanding := add_or_zero (lg_outstanding l) (co_amount c), lg_held := lg_held l @ [c]\<rparr>
   | CashRemitted \<Rightarrow> l\<lparr>lg_remitted := add_or_zero (lg_remitted l) (co_amount c)\<rparr>
   | OtherCash _ \<Rightarrow> l)"

definition summarize :: "string \<Rightarrow> collection list \<Rightarrow> ledger" where
  "summarize partner_id cs =
     foldl ledger_step \<lparr>lg_partner_id = partner_id, lg_outstanding = zero_money BDT,
       lg_remitted = zero_money BDT, lg_held = []\<rparr> cs"

section \<open>The life of a payment\<close>

datatype pay_command = PCapture string money instant | PFail string instant | PRefund string instant

fun pay_exec :: "pay_command \<Rightarrow> payment \<Rightarrow> payment_err + payment" where
  "pay_exec (PCapture r a t) = pay_capture r a t"
| "pay_exec (PFail r t) = pay_fail r t"
| "pay_exec (PRefund r t) = pay_refund r t"

definition pay_moves :: "pay_status \<Rightarrow> pay_status \<Rightarrow> bool" where
  "pay_moves s t \<longleftrightarrow>
     (s, t) \<in> {(PayPending, PayCaptured), (PayPending, PayFailed), (PayCaptured, PayRefunded)}"

fun pay_rank :: "pay_status \<Rightarrow> nat" where
  "pay_rank PayPending = 0"
| "pay_rank PayCaptured = 1"
| "pay_rank _ = 2"

lemma pay_capture_Inr:
  "pay_capture r a t p = Inr q \<longleftrightarrow> pay_status p = PayPending \<and> m_minor (pay_amount p) = m_minor a \<and>
     q = p\<lparr>pay_status := PayCaptured, pay_gateway_ref := r, pay_updated_at := t\<rparr>"
  by (auto simp: pay_capture_def compare_money_simps)

lemma pay_fail_Inr:
  "pay_fail r t p = Inr q \<longleftrightarrow> pay_status p = PayPending \<and> r \<noteq> [] \<and>
     q = p\<lparr>pay_status := PayFailed, pay_failure_reason := r, pay_updated_at := t\<rparr>"
  by (auto simp: pay_fail_def)

lemma pay_refund_Inr:
  "pay_refund r t p = Inr q \<longleftrightarrow> pay_status p = PayCaptured \<and> r \<noteq> [] \<and>
     q = p\<lparr>pay_status := PayRefunded, pay_refund_reason := r, pay_updated_at := t\<rparr>"
  by (auto simp: pay_refund_def)

lemmas pay_ops_Inr = pay_capture_Inr pay_fail_Inr pay_refund_Inr

lemma pay_exec_moves: "pay_exec c p = Inr q \<Longrightarrow> pay_moves (pay_status p) (pay_status q)"
  by (cases c) (auto simp: pay_ops_Inr pay_moves_def)

lemma pay_terminal_stuck: "pay_terminal s \<Longrightarrow> \<not> pay_moves s t"
  by (auto simp: pay_moves_def pay_terminal_def)

interpretation pay_life: ranked_lifecycle pay_moves pay_terminal pay_rank 2
  by unfold_locales (auto simp: pay_terminal_stuck, auto simp: pay_moves_def)

interpretation pay_object: guarded_object pay_moves pay_terminal pay_status pay_exec
  by unfold_locales (rule pay_exec_moves)

definition payment_run_ok :: "pay_command list \<Rightarrow> payment \<Rightarrow> payment \<Rightarrow> bool" where
  "payment_run_ok cs p q \<longleftrightarrow>
     pay_amount q = pay_amount p \<and> pay_order_id q = pay_order_id p \<and> pay_reference q = pay_reference p \<and>
     (pay_status q = PayPending \<longrightarrow> q = p) \<and>
     (pay_status q \<in> {PayCaptured, PayRefunded} \<longrightarrow>
        (\<exists>a t. PCapture (pay_gateway_ref q) a t \<in> set cs \<and> m_minor a = m_minor (pay_amount p))) \<and>
     (pay_status q = PayFailed \<longrightarrow> pay_failure_reason q \<noteq> []) \<and>
     (pay_status q = PayRefunded \<longrightarrow> pay_refund_reason q \<noteq> [])"

lemma payment_run_refused: "payment_run_ok cs p q \<Longrightarrow> payment_run_ok (cs @ [c]) p q"
  unfolding payment_run_ok_def by auto

lemma payment_run_step: "payment_run_ok cs p q \<Longrightarrow> pay_exec c q = Inr q' \<Longrightarrow> payment_run_ok (cs @ [c]) p q'"
  by (cases c) (auto simp: payment_run_ok_def pay_ops_Inr)

text \<open>C24: Whatever a gateway or an operator tries, a payment keeps its amount, order and reference;
  it is captured only by a report of exactly its amount, refunded only after that, and failing or
  refunding it always leaves a reason.\<close>

theorem payment_run:
  assumes "new_payment pid oid cid gw amount now = Inr p"
  shows "payment_run_ok cs p (run_all pay_exec cs p) \<and> pay_amount p = amount \<and>
    0 < m_minor (pay_amount (run_all pay_exec cs p))"
proof -
  have p: "pay_status p = PayPending" "pay_amount p = amount" "0 < m_minor amount"
    using assms by (auto simp: new_payment_def is_zero_money_def is_negative_def split: if_splits)
  have "payment_run_ok cs p (run_all pay_exec cs p)"
  proof (induction cs rule: rev_induct)
    case Nil
    then show ?case using p by (simp add: payment_run_ok_def)
  next
    case (snoc c cs)
    then show ?case using payment_run_refused payment_run_step
      by (cases "pay_exec c (run_all pay_exec cs p)") (auto simp: run_all_append)
  qed
  then show ?thesis using p by (simp add: payment_run_ok_def)
qed

lemma payment_run_witness:
  "\<exists>p. new_payment ''p'' ''o'' ''c'' ''manual'' (taka 500) 1 = Inr p \<and>
     payment_run_ok [PCapture ''g'' (taka 499) 2, PCapture ''g'' (taka 500) 3] p
       (run_all pay_exec [PCapture ''g'' (taka 499) 2, PCapture ''g'' (taka 500) 3] p)"
proof -
  have "\<exists>p. new_payment ''p'' ''o'' ''c'' ''manual'' (taka 500) 1 = Inr p" by (simp add: new_payment_def)
  then show ?thesis using payment_run by blast
qed

section \<open>The ledger\<close>

definition held_amount :: "collection \<Rightarrow> int" where
  "held_amount c = (if co_status c = CashHeld then m_minor (co_amount c) else 0)"

definition remitted_amount :: "collection \<Rightarrow> int" where
  "remitted_amount c = (if co_status c = CashRemitted then m_minor (co_amount c) else 0)"

lemma add_or_zero_BDT:
  "currency_of a = BDT \<Longrightarrow> currency_of b = BDT \<Longrightarrow> add_or_zero a b = taka (wrap64 (m_minor a + m_minor b))"
  by (simp add: add_or_zero_def add_money_def same_currency_def taka_def add64_def)

lemma foldl_ledger:
  assumes "\<forall>c\<in>set cs. currency_of (co_amount c) = BDT"
    and "lg_outstanding l = taka (wrap64 a)" "lg_remitted l = taka (wrap64 b)"
  shows "lg_outstanding (foldl ledger_step l cs) = taka (wrap64 (a + (\<Sum>c\<leftarrow>cs. held_amount c))) \<and>
    lg_remitted (foldl ledger_step l cs) = taka (wrap64 (b + (\<Sum>c\<leftarrow>cs. remitted_amount c))) \<and>
    lg_held (foldl ledger_step l cs) = lg_held l @ filter (\<lambda>c. co_status c = CashHeld) cs"
  using assms
proof (induction cs arbitrary: l a b)
  case Nil
  then show ?case by simp
next
  case (Cons c cs)
  have "lg_outstanding (ledger_step l c) = taka (wrap64 (a + held_amount c))"
    "lg_remitted (ledger_step l c) = taka (wrap64 (b + remitted_amount c))"
    "lg_held (ledger_step l c) = lg_held l @ (if co_status c = CashHeld then [c] else [])"
    using Cons.prems
    by (auto simp: ledger_step_def held_amount_def remitted_amount_def add_or_zero_BDT split: collection_status.split)
  then show ?case using Cons.IH [of "ledger_step l c"] Cons.prems(1) by (auto simp: add.assoc)
qed

lemma summarize_sums:
  assumes "\<forall>c\<in>set cs. currency_of (co_amount c) = BDT"
  shows "lg_outstanding (summarize p cs) = taka (wrap64 (\<Sum>c\<leftarrow>cs. held_amount c))"
    and "lg_remitted (summarize p cs) = taka (wrap64 (\<Sum>c\<leftarrow>cs. remitted_amount c))"
    and "lg_held (summarize p cs) = filter (\<lambda>c. co_status c = CashHeld) cs"
proof -
  have "zero_money BDT = taka (wrap64 0)" by (simp add: zero_money_def taka_def fits64_def)
  then show "lg_outstanding (summarize p cs) = taka (wrap64 (\<Sum>c\<leftarrow>cs. held_amount c))"
    "lg_remitted (summarize p cs) = taka (wrap64 (\<Sum>c\<leftarrow>cs. remitted_amount c))"
    "lg_held (summarize p cs) = filter (\<lambda>c. co_status c = CashHeld) cs"
    using foldl_ledger [OF assms, of _ 0 0] by (simp_all add: summarize_def)
qed

lemma remit_Inr:
  "remit p r t c = Inr d \<longleftrightarrow> co_partner_id c = p \<and> co_status c = CashHeld \<and> r \<noteq> [] \<and>
     d = c\<lparr>co_status := CashRemitted, co_remittance_ref := r, co_remitted_at := t, co_updated_at := t\<rparr>"
  by (auto simp: remit_def)

text \<open>Handing in one collection moves exactly its amount from what the partner owes to what they
  have remitted, and changes nothing else of the ledger: no cash appears or disappears.\<close>

theorem remit_moves_amount:
  assumes "\<forall>x\<in>set (xs @ c # ys). currency_of (co_amount x) = BDT" "remit p r t c = Inr d"
  defines "before \<equiv> summarize p (xs @ c # ys)" and "after \<equiv> summarize p (xs @ d # ys)"
  shows "m_minor (lg_outstanding after) = sub64 (m_minor (lg_outstanding before)) (m_minor (co_amount c)) \<and>
    m_minor (lg_remitted after) = add64 (m_minor (lg_remitted before)) (m_minor (co_amount c)) \<and>
    mset (lg_held before) = add_mset c (mset (lg_held after)) \<and>
    remit p r t d = Inl ErrAlreadyRemitted"
proof -
  from assms(2) have d: "co_partner_id c = p" "co_status c = CashHeld"
    "d = c\<lparr>co_status := CashRemitted, co_remittance_ref := r, co_remitted_at := t, co_updated_at := t\<rparr>"
    by (simp_all add: remit_Inr)
  have b: "\<forall>x\<in>set (xs @ d # ys). currency_of (co_amount x) = BDT" using assms(1) d by auto
  have amounts: "held_amount c = m_minor (co_amount c)" "held_amount d = 0" "remitted_amount c = 0"
    "remitted_amount d = m_minor (co_amount c)"
    using d by (simp_all add: held_amount_def remitted_amount_def)
  let ?s = "(\<Sum>x\<leftarrow>xs. held_amount x) + (\<Sum>x\<leftarrow>ys. held_amount x)"
  have "sub64 (wrap64 (?s + m_minor (co_amount c))) (m_minor (co_amount c)) = wrap64 ?s"
    using wrap64_add_left [of "?s + m_minor (co_amount c)" "- m_minor (co_amount c)"]
    by (simp add: sub64_def)
  moreover have "co_status d = CashRemitted" "co_partner_id d = p" using d by simp_all
  ultimately show ?thesis
    using d(2) unfolding before_def after_def
    by (simp add: summarize_sums [OF assms(1)] summarize_sums [OF b] amounts add64_def remit_def algebra_simps)
qed

lemma remit_moves_amount_witness:
  "\<exists>c d. new_collection ''c'' ''o'' ''p'' (taka 700) 1 = Inr c \<and> remit ''p'' ''ref'' 2 c = Inr d \<and>
     m_minor (lg_outstanding (summarize ''p'' [d])) = sub64 (m_minor (lg_outstanding (summarize ''p'' [c]))) 700"
proof -
  have "\<exists>c. new_collection ''c'' ''o'' ''p'' (taka 700) 1 = Inr c" by (simp add: new_collection_def)
  then obtain c where c: "new_collection ''c'' ''o'' ''p'' (taka 700) 1 = Inr c" ..
  then have "\<exists>d. remit ''p'' ''ref'' 2 c = Inr d" and a: "co_amount c = taka 700"
    by (auto simp: new_collection_def remit_def)
  then obtain d where d: "remit ''p'' ''ref'' 2 c = Inr d" by blast
  show ?thesis using remit_moves_amount [of "[]" c "[]", OF _ d] a c d by auto
qed

end
