(* ===== verification/Review_Domain.thy ===== *)
theory Review_Domain
  imports Money GoTime
begin

text \<open>
  \<open>modules/review/domain\<close>: what a rating needs to be valid (\<open>review.go\<close>), what a support ticket
  needs to be raised, and how an agent resolves one (\<open>ticket.go\<close>).
\<close>

section \<open>Reviews\<close>

datatype review_subject = SubjectMerchant | SubjectPartner | SubjectItem | OtherSubject string

definition review_subject_of :: "string \<Rightarrow> review_subject" where
  "review_subject_of t = (if t = ''merchant'' then SubjectMerchant else if t = ''partner'' then SubjectPartner
     else if t = ''item'' then SubjectItem else OtherSubject t)"

definition review_subject_valid :: "review_subject \<Rightarrow> bool" where
  "review_subject_valid s = (case s of OtherSubject _ \<Rightarrow> False | _ \<Rightarrow> True)"

datatype review_err = ErrNoReviewOrder | ErrNoRater | ErrInvalidSubject | ErrNoSubjectID | ErrInvalidRating

record review =
  rw_id :: string
  rw_order_id :: string
  rw_rater_id :: string
  rw_subject :: review_subject
  rw_subject_id :: string
  rw_rating :: int64
  rw_comment :: string
  rw_created_at :: instant

definition new_review :: "string \<Rightarrow> string \<Rightarrow> string \<Rightarrow> review_subject \<Rightarrow> string \<Rightarrow> int64 \<Rightarrow> string \<Rightarrow> instant \<Rightarrow> review_err + review" where
  "new_review rid oid rater subject sid rating comment now =
     (if oid = [] then Inl ErrNoReviewOrder
      else if rater = [] then Inl ErrNoRater
      else if \<not> review_subject_valid subject then Inl ErrInvalidSubject
      else if sid = [] then Inl ErrNoSubjectID
      else if rating < 1 \<or> 5 < rating then Inl ErrInvalidRating
      else Inr \<lparr>rw_id = rid, rw_order_id = oid, rw_rater_id = rater, rw_subject = subject, rw_subject_id = sid,
                rw_rating = rating, rw_comment = comment, rw_created_at = now\<rparr>)"

definition review_key :: "review \<Rightarrow> string \<times> string \<times> review_subject \<times> string" where
  "review_key r = (rw_order_id r, rw_rater_id r, rw_subject r, rw_subject_id r)"

record rating =
  ra_subject :: review_subject
  ra_subject_id :: string
  ra_average :: f64
  ra_count :: int64

section \<open>Tickets\<close>

datatype ticket_status = TicketOpen | TicketResolved

datatype resolution = ResolutionRefunded | ResolutionRejected | OtherResolution string

definition resolution_of :: "string \<Rightarrow> resolution" where
  "resolution_of t = (if t = ''refunded'' then ResolutionRefunded else if t = ''rejected'' then ResolutionRejected
     else OtherResolution t)"

datatype ticket_err = ErrNoTicketOrder | ErrNoRaisedBy | ErrNoSubject | ErrTicketClosed | ErrNoResolution | ErrNoAgent

record ticket =
  tk_id :: string
  tk_order_id :: string
  tk_raised_by :: string
  tk_subject :: string
  tk_status :: ticket_status
  tk_resolution :: resolution
  tk_note :: string
  tk_agent_id :: string
  tk_created_at :: instant
  tk_resolved_at :: instant

definition new_ticket :: "string \<Rightarrow> string \<Rightarrow> string \<Rightarrow> string \<Rightarrow> instant \<Rightarrow> ticket_err + ticket" where
  "new_ticket tid oid raised_by subject now =
     (if oid = [] then Inl ErrNoTicketOrder
      else if raised_by = [] then Inl ErrNoRaisedBy
      else if subject = [] then Inl ErrNoSubject
      else Inr \<lparr>tk_id = tid, tk_order_id = oid, tk_raised_by = raised_by, tk_subject = subject, tk_status = TicketOpen,
                tk_resolution = OtherResolution [], tk_note = [], tk_agent_id = [], tk_created_at = now,
                tk_resolved_at = zero_time\<rparr>)"

definition ticket_resolve :: "string \<Rightarrow> resolution \<Rightarrow> string \<Rightarrow> instant \<Rightarrow> ticket \<Rightarrow> ticket_err + ticket" where
  "ticket_resolve agent res note_text now t =
     (if tk_status t \<noteq> TicketOpen then Inl ErrTicketClosed
      else if agent = [] then Inl ErrNoAgent
      else case res of
        OtherResolution _ \<Rightarrow> Inl ErrNoResolution
      | _ \<Rightarrow> Inr (t\<lparr>tk_status := TicketResolved, tk_resolution := res, tk_note := note_text, tk_agent_id := agent,
                     tk_resolved_at := now\<rparr>))"

lemma ticket_resolve_Inr:
  "ticket_resolve agent res note_text now t = Inr u \<Longrightarrow> tk_status t = TicketOpen \<and> agent \<noteq> [] \<and>
     res \<in> {ResolutionRefunded, ResolutionRejected} \<and>
     u = t\<lparr>tk_status := TicketResolved, tk_resolution := res, tk_note := note_text, tk_agent_id := agent, tk_resolved_at := now\<rparr>"
  by (auto simp: ticket_resolve_def split: if_splits resolution.splits)

lemma ticket_resolved_stays: "ticket_resolve a r n now t = Inr u \<Longrightarrow> ticket_resolve b q m later u = Inl ErrTicketClosed"
  by (drule ticket_resolve_Inr) (simp add: ticket_resolve_def)

end
