(* ===== verification/World.thy ===== *)
theory World
  imports Ops Order_Domain Assigner Payment_Domain Review_Domain
begin

text \<open>
  The shared store of the order, dispatch, payment and review modules: one list per table of the
  migrations \<open>0008_order\<close>, \<open>0009_dispatch\<close>, \<open>0010_payment\<close> and \<open>0012_review\<close>, in insertion order.  An order
  row carries its lines and its events, which the repository keeps in tables of their own.
  Timestamps keep their nanoseconds, where PostgreSQL stores microseconds.
\<close>

section \<open>Tables\<close>

definition tbl_get :: "('a \<Rightarrow> 'k) \<Rightarrow> 'k \<Rightarrow> 'a list \<Rightarrow> 'a option" where
  "tbl_get key k xs = find (\<lambda>x. key x = k) xs"

definition tbl_set :: "('a \<Rightarrow> 'k) \<Rightarrow> 'k \<Rightarrow> ('a \<Rightarrow> 'a) \<Rightarrow> 'a list \<Rightarrow> 'a list" where
  "tbl_set key k f xs = map (\<lambda>x. if key x = k then f x else x) xs"

text \<open>
  \<open>UPDATE ... WHERE id = $1 AND status = $2\<close>: \<open>None\<close> when no row was affected.
\<close>

definition tbl_cas :: "('a \<Rightarrow> 'k) \<Rightarrow> ('a \<Rightarrow> 's) \<Rightarrow> 'k \<Rightarrow> 's \<Rightarrow> ('a \<Rightarrow> 'a) \<Rightarrow> 'a list \<Rightarrow> 'a list option" where
  "tbl_cas key status k expected f xs =
     (if list_ex (\<lambda>x. key x = k \<and> status x = expected) xs
      then Some (map (\<lambda>x. if key x = k \<and> status x = expected then f x else x) xs)
      else None)"

definition keyed :: "('a \<Rightarrow> 'k) \<Rightarrow> 'a list \<Rightarrow> bool" where
  "keyed key xs \<longleftrightarrow> distinct (map key xs)"

lemma tbl_get_Some: "tbl_get key k xs = Some x \<Longrightarrow> x \<in> set xs \<and> key x = k"
  by (auto simp: tbl_get_def dest: find_Some_mem)

lemma tbl_get_None: "tbl_get key k xs = None \<longleftrightarrow> k \<notin> key ` set xs"
  by (auto simp: tbl_get_def find_None_iff)

lemma keyed_unique: "keyed key xs \<Longrightarrow> x \<in> set xs \<Longrightarrow> y \<in> set xs \<Longrightarrow> key x = key y \<Longrightarrow> x = y"
  unfolding keyed_def by (auto simp: distinct_map inj_on_def)

lemma tbl_get_keyed: "keyed key xs \<Longrightarrow> x \<in> set xs \<Longrightarrow> tbl_get key (key x) xs = Some x"
proof -
  assume k: "keyed key xs" and x: "x \<in> set xs"
  then obtain y where "tbl_get key (key x) xs = Some y"
    using tbl_get_None by (metis imageI option.exhaust)
  then show ?thesis using k x keyed_unique tbl_get_Some by metis
qed

lemma tbl_cas_Some:
  "tbl_cas key status k e f xs = Some ys \<Longrightarrow>
     ys = map (\<lambda>x. if key x = k \<and> status x = e then f x else x) xs \<and> (\<exists>x\<in>set xs. key x = k \<and> status x = e)"
  by (auto simp: tbl_cas_def list_ex_iff split: if_splits)

lemma keyed_append [simp]: "keyed key (xs @ [x]) \<longleftrightarrow> keyed key xs \<and> key x \<notin> key ` set xs"
  by (auto simp: keyed_def)

lemma keyed_map:
  assumes "keyed key xs" "\<And>x. x \<in> set xs \<Longrightarrow> key (f x) = key x"
  shows "keyed key (map f xs)"
proof -
  have "map key (map f xs) = map key xs" using assms(2) by simp
  then show ?thesis using assms(1) unfolding keyed_def by (simp only:)
qed

text \<open>
  What the client of an optimistic update relies on: it succeeds only on a row that still has the
  status that was read, changes that row alone, and keeps the keys.
\<close>

locale cas_store =
  fixes key :: "'a \<Rightarrow> 'k" and status :: "'a \<Rightarrow> 's" and cas :: "'k \<Rightarrow> 's \<Rightarrow> ('a \<Rightarrow> 'a) \<Rightarrow> 'a list \<Rightarrow> 'a list option"
  assumes cas_shape: "cas k e f xs = Some ys \<Longrightarrow>
      ys = map (\<lambda>x. if key x = k \<and> status x = e then f x else x) xs \<and> (\<exists>x\<in>set xs. key x = k \<and> status x = e)"
    and cas_none: "cas k e f xs = None \<Longrightarrow> x \<in> set xs \<Longrightarrow> key x = k \<Longrightarrow> status x \<noteq> e"
begin

lemma cas_keyed:
  assumes "cas k e f xs = Some ys" "\<And>x. g (f x) = g x" "keyed g xs"
  shows "keyed g ys"
proof -
  have "map g (map (\<lambda>x. if key x = k \<and> status x = e then f x else x) xs) = map g xs"
    using assms(2) by simp
  then show ?thesis using assms(3) cas_shape [OF assms(1)] unfolding keyed_def by metis
qed

lemma cas_mem:
  assumes "cas k e f xs = Some ys" "y \<in> set ys"
  shows "\<exists>x\<in>set xs. y = x \<or> (key x = k \<and> status x = e \<and> y = f x)"
  using assms cas_shape by (fastforce split: if_splits)

lemma cas_all:
  "cas k e f xs = Some ys \<Longrightarrow> (\<And>x. x \<in> set xs \<Longrightarrow> P x) \<Longrightarrow>
     (\<And>x. x \<in> set xs \<Longrightarrow> key x = k \<Longrightarrow> status x = e \<Longrightarrow> P (f x)) \<Longrightarrow> y \<in> set ys \<Longrightarrow> P y"
  using cas_mem by blast

lemma cas_evolves:
  assumes "cas k e f xs = Some ys" "x \<in> set xs"
    and "\<And>x. rel x x" "\<And>x. x \<in> set xs \<Longrightarrow> key x = k \<Longrightarrow> status x = e \<Longrightarrow> rel x (f x)"
  shows "\<exists>y\<in>set ys. rel x y"
proof
  let ?g = "\<lambda>x. if key x = k \<and> status x = e then f x else x"
  have "ys = map ?g xs" using cas_shape [OF assms(1)] by simp
  then show "?g x \<in> set ys" using assms(2) by auto
  show "rel x (?g x)" using assms(2-4) by simp
qed

lemma cas_once:
  assumes "cas k e f xs = Some ys" "keyed key xs" "\<And>x. key (f x) = key x" "\<And>x. status (f x) \<noteq> e"
  shows "cas k e g ys = None"
proof -
  have ys: "ys = map (\<lambda>x. if key x = k \<and> status x = e then f x else x) xs" using cas_shape [OF assms(1)] by simp
  have "key y = k \<Longrightarrow> status y \<noteq> e" if "y \<in> set ys" for y
    using that assms(4) unfolding ys by (auto split: if_splits)
  then show ?thesis using cas_shape [of k e g ys] by (cases "cas k e g ys") auto
qed

end

lemma tbl_cas_store: "cas_store key status (tbl_cas key status)"
  by unfold_locales (auto simp: tbl_cas_def list_ex_iff split: if_splits)

section \<open>The store\<close>

record cart_option =
  bo_group_id :: string
  bo_option_id :: string
  bo_name :: string
  bo_price_minor :: int64

record basket_line =
  bl_kind :: string
  bl_target_id :: string
  bl_name :: string
  bl_unit_price_minor :: int64
  bl_options :: "cart_option list"
  bl_quantity :: int64
  bl_note :: string

record basket =
  b_merchant_id :: string
  b_lines :: "basket_line list"
  b_orderable :: bool
  b_blocker :: string
  b_subtotal_minor :: int64

record notice =
  n_customer :: string
  n_code :: string
  n_status :: order_status
  n_reason :: string

record store =
  s_orders :: "order list"
  s_order_keys :: "((string \<times> string) \<times> string) list"
  s_jobs :: "job list"
  s_partners :: "partner list"
  s_payments :: "payment list"
  s_collections :: "collection list"
  s_carts :: "(string \<times> basket) list"
  s_notes :: "notice list"
  s_reviews :: "review list"
  s_tickets :: "ticket list"

definition empty_store :: store where
  "empty_store = \<lparr>s_orders = [], s_order_keys = [], s_jobs = [], s_partners = [], s_payments = [],
     s_collections = [], s_carts = [], s_notes = [], s_reviews = [], s_tickets = []\<rparr>"

interpretation order_cas: cas_store o_id o_status "tbl_cas o_id o_status"
  by (rule tbl_cas_store)

interpretation job_cas: cas_store j_id j_status "tbl_cas j_id j_status"
  by (rule tbl_cas_store)

interpretation payment_cas: cas_store pay_id pay_status "tbl_cas pay_id pay_status"
  by (rule tbl_cas_store)

section \<open>Answers of the other modules and of outside services\<close>

text \<open>
  What the use cases ask of modules that are modelled elsewhere or not under this repository: the
  configuration in force at a place, the area a point lies in, the distance PostGIS computes, the
  payment gateway, and PostgreSQL's mean of a column of small integers.
\<close>

record services =
  sv_setting :: "placement \<Rightarrow> string \<Rightarrow> error + int64"
  sv_area :: "f64 \<Rightarrow> f64 \<Rightarrow> error + placement"
  sv_distance :: "f64 \<Rightarrow> f64 \<Rightarrow> f64 \<Rightarrow> f64 \<Rightarrow> f64"
  sv_gateway_name :: string
  sv_checkout :: "string \<Rightarrow> int64 \<Rightarrow> string \<Rightarrow> error + (string \<times> string)"
  sv_refund :: "string \<Rightarrow> int64 \<Rightarrow> error + string"
  sv_mean :: "int64 list \<Rightarrow> f64"

definition no_placement :: placement where
  "no_placement = \<lparr>pm_area_code = [], pm_district_code = [], pm_division_code = []\<rparr>"

end
