(* ===== verification/Dispatch_Offers.thy ===== *)
theory Dispatch_Offers
  imports World
begin

text \<open>
  Putting a job on the board, offering it and taking it off again:
  \<open>modules/dispatch/application/offer.go\<close> and \<open>shared.go\<close>, over the queries of
  \<open>infrastructure/persistence/postgres/repository.go\<close>.
\<close>

section \<open>The repository\<close>

definition job_for_order :: "string \<Rightarrow> (store, job option) op" where
  "job_for_order order_id = db_read (\<lambda>s. Inr (tbl_get j_order_id order_id (s_jobs s)))"

definition job_by_id :: "string \<Rightarrow> (store, job) op" where
  "job_by_id jid = db_read (\<lambda>s. case tbl_get j_id jid (s_jobs s) of
     None \<Rightarrow> Inl (new_error KindNotFound ''job_not_found'' ''We could not find that delivery.'')
   | Some j \<Rightarrow> Inr j)"

definition constraint_error :: error where
  "constraint_error = Sentinel ''a constraint of the database was violated''"

definition create_job :: "job \<Rightarrow> (store, unit) op" where
  "create_job j = db_call (\<lambda>s.
     if j_id j \<in> j_id ` set (s_jobs s) \<or> j_order_id j \<in> j_order_id ` set (s_jobs s)
     then (Inl (new_error KindConflict ''job_exists'' ''That order is already out for delivery.''), s)
     else (Inr (), s\<lparr>s_jobs := s_jobs s @ [j\<lparr>j_partner_id := [], j_passed_by := [], j_reason := [],
             j_attempts := 0, j_offered_at := zero_time, j_offer_expires_at := zero_time\<rparr>]\<rparr>))"

text \<open>The check \<open>delivery_jobs_holder\<close> and the reference to the partner.\<close>

definition job_row_ok :: "store \<Rightarrow> job \<Rightarrow> bool" where
  "job_row_ok s j \<longleftrightarrow>
     (j_status j = JobCancelled \<or> (j_status j = JobWaiting \<longleftrightarrow> j_partner_id j = [])) \<and>
     (j_partner_id j = [] \<or> j_partner_id j \<in> p_id ` set (s_partners s))"

text \<open>The columns \<open>SaveJob\<close> writes.\<close>

definition job_written :: "job \<Rightarrow> job \<Rightarrow> job" where
  "job_written j row = row\<lparr>j_status := j_status j, j_partner_id := j_partner_id j,
     j_passed_by := j_passed_by j, j_reason := j_reason j, j_attempts := j_attempts j,
     j_offered_at := j_offered_at j, j_offer_expires_at := j_offer_expires_at j,
     j_updated_at := j_updated_at j\<rparr>"

definition save_job :: "job \<Rightarrow> job_status \<Rightarrow> (store, unit) op" where
  "save_job j expected = db_call (\<lambda>s.
     case tbl_cas j_id j_status (j_id j) expected (job_written j) (s_jobs s) of
       None \<Rightarrow> (Inl (new_error KindConflict ''job_moved'' ''Somebody else has taken that delivery.''), s)
     | Some js \<Rightarrow> if job_row_ok s j then (Inr (), s\<lparr>s_jobs := js\<rparr>) else (Inl constraint_error, s))"

definition partner_by_id :: "string \<Rightarrow> (store, partner) op" where
  "partner_by_id pid = db_read (\<lambda>s. case tbl_get p_id pid (s_partners s) of
     None \<Rightarrow> Inl (new_error KindNotFound ''partner_not_found'' ''We could not find that delivery partner.'')
   | Some p \<Rightarrow> Inr p)"

definition partner_of_user :: "string \<Rightarrow> (store, partner option) op" where
  "partner_of_user user_id = db_read (\<lambda>s. Inr (tbl_get p_user_id user_id (s_partners s)))"

text \<open>
  \<open>SavePartner\<close> inserts, or updates the row with that id; the counters of offers are left to
  \<open>RecordOffer\<close>.
\<close>

definition partner_written :: "partner \<Rightarrow> partner \<Rightarrow> partner" where
  "partner_written p row = row\<lparr>p_name := p_name p, p_phone := p_phone p, p_vehicle := p_vehicle p,
     p_availability := p_availability p, p_preference := p_preference p, p_lat := p_lat p,
     p_lng := p_lng p, p_carrying := p_carrying p\<rparr>"

definition save_partner :: "partner \<Rightarrow> (store, unit) op" where
  "save_partner p = db_call (\<lambda>s.
     if p_carrying p < 0 then (Inl constraint_error, s)
     else if p_id p \<in> p_id ` set (s_partners s)
       then (Inr (), s\<lparr>s_partners := tbl_set p_id (p_id p) (partner_written p) (s_partners s)\<rparr>)
     else if p_user_id p \<in> p_user_id ` set (s_partners s) then (Inl constraint_error, s)
     else (Inr (), s\<lparr>s_partners := s_partners s @ [p\<lparr>p_offered := 0, p_accepted := 0\<rparr>]\<rparr>))"

definition record_offer :: "string \<Rightarrow> bool \<Rightarrow> (store, unit) op" where
  "record_offer pid accepted = db_call (\<lambda>s. (Inr (), s\<lparr>s_partners :=
     tbl_set p_id pid (\<lambda>p. p\<lparr>p_offered := p_offered p + (if accepted then 0 else 1),
       p_accepted := p_accepted p + (if accepted then 1 else 0)\<rparr>) (s_partners s)\<rparr>))"

definition preference_matches :: "preference \<Rightarrow> band \<Rightarrow> bool" where
  "preference_matches p b \<longleftrightarrow> p = PreferAny \<or> (p = PreferShort \<and> b = BandShort) \<or>
     (p = PreferLong \<and> b = BandLong) \<or> b = BandBeyond"

definition available_within :: "services \<Rightarrow> place \<Rightarrow> f64 \<Rightarrow> band \<Rightarrow> nat \<Rightarrow> (store, (partner \<times> f64) list) op" where
  "available_within sv loc radius_m bnd cap = db_read (\<lambda>s. Inr (take cap (stable_sort (\<lambda>x y. flt (snd x) (snd y))
     [(p, d). p \<leftarrow> s_partners s, d \<leftarrow> [sv_distance sv (p_lat p) (p_lng p) (pl_lat loc) (pl_lng loc)],
        p_availability p = Available \<and> fle d radius_m \<and> preference_matches (p_preference p) bnd])))"

definition lapsed_offers :: "nat \<Rightarrow> (store, job list) op" where
  "lapsed_offers cap = and_then clock_now (\<lambda>now. db_read (\<lambda>s. Inr (take cap
     (stable_sort (\<lambda>x y. j_offer_expires_at x < j_offer_expires_at y)
       (filter (\<lambda>j. j_status j = JobOffered \<and> j_offer_expires_at j \<noteq> zero_time \<and> j_offer_expires_at j \<le> now)
         (s_jobs s))))))"

definition waiting_jobs :: "nat \<Rightarrow> (store, job list) op" where
  "waiting_jobs cap = db_read (\<lambda>s. Inr (take cap (stable_sort (\<lambda>x y. j_created_at x < j_created_at y)
     (filter (\<lambda>j. j_status j = JobWaiting) (s_jobs s)))))"

section \<open>Rules and errors\<close>

record rules =
  ru_short_max_m :: f64
  ru_long_max_m :: f64
  ru_partner_radius :: f64
  ru_offer_timeout :: duration
  ru_max_concurrent :: int64

fun dispatch_err_text :: "dispatch_err \<Rightarrow> string" where
  "dispatch_err_text Job_ErrNoOrder = ''a job must be about an order''"
| "dispatch_err_text ErrJobIllegalMove = ''a job cannot move that way''"
| "dispatch_err_text ErrJobNotYours = ''that job is not yours''"
| "dispatch_err_text ErrJobFinished = ''that job has already finished''"
| "dispatch_err_text ErrJobUnassigned = ''that job has nobody on it''"
| "dispatch_err_text ErrOfferExpired = ''that offer has expired''"
| "dispatch_err_text ErrNegativeDistance = ''a distance cannot be negative''"
| "dispatch_err_text ErrNoFailureReason = ''a failed delivery needs a reason''"
| "dispatch_err_text ErrNoUser = ''a partner must belong to an account''"
| "dispatch_err_text ErrNoName = ''a partner must have a name''"
| "dispatch_err_text ErrNoPhone = ''a partner must have a phone number''"
| "dispatch_err_text ErrBadPreference = ''that is not a distance choice''"
| "dispatch_err_text ErrBadAvailability = ''that is not an availability''"
| "dispatch_err_text ErrNotWorking = ''that partner is not taking work''"
| "dispatch_err_text ErrAtCapacity = ''that partner already has as many jobs as they can carry''"

definition job_error :: "dispatch_err \<Rightarrow> error" where
  "job_error e = (let s = Sentinel (dispatch_err_text e) in case e of
     ErrJobFinished \<Rightarrow> wrap s KindConflict ''job_finished'' ''That delivery has already finished.''
   | ErrJobNotYours \<Rightarrow> wrap s KindConflict ''not_your_job'' ''Somebody else has taken that delivery.''
   | ErrJobUnassigned \<Rightarrow> wrap s KindConflict ''not_your_job'' ''Somebody else has taken that delivery.''
   | ErrOfferExpired \<Rightarrow> wrap s KindConflict ''offer_expired'' ''That offer has expired. It has gone back to the list.''
   | ErrNoFailureReason \<Rightarrow> wrap s KindInvalid ''reason_required'' ''Please say what went wrong with this delivery.''
   | _ \<Rightarrow> wrap s KindConflict ''illegal_move'' ''That delivery cannot be changed that way.'')"

definition partner_error :: "dispatch_err \<Rightarrow> error" where
  "partner_error e = (let s = Sentinel (dispatch_err_text e) in case e of
     ErrBadPreference \<Rightarrow> wrap s KindInvalid ''invalid_preference'' ''Choose short-distance, long-distance, or both.''
   | ErrBadAvailability \<Rightarrow> wrap s KindInvalid ''invalid_availability'' ''You can go online or offline.''
   | _ \<Rightarrow> wrap s KindInvalid ''invalid_partner'' ''Please check your name and phone number.'')"

definition dispatch_storage_error :: "error \<Rightarrow> error" where
  "dispatch_storage_error e = wrap e KindUnavailable ''dispatch_unavailable''
     ''We could not reach the delivery system just now. Please try again.''"

definition dispatch_config_error :: "error \<Rightarrow> error" where
  "dispatch_config_error e = wrap e KindUnavailable ''dispatch_config_unavailable''
     ''We could not work out who to offer that delivery to. Please try again.''"

definition dispatch_not_found :: "string \<Rightarrow> error" where
  "dispatch_not_found what =
     (if what = ''partner'' then new_error KindNotFound ''partner_not_found''
        ''You are not registered as a delivery partner.''
      else new_error KindNotFound ''job_not_found'' ''We could not find that delivery.'')"

definition resolve_rules :: "services \<Rightarrow> placement \<Rightarrow> error + rules" where
  "resolve_rules sv loc = lift_domain dispatch_config_error (
     rbind (sv_setting sv loc ''dispatch.short_distance_max'') (\<lambda>short_max.
     rbind (sv_setting sv loc ''dispatch.long_distance_max'') (\<lambda>long_max.
     rbind (sv_setting sv loc ''dispatch.partner_radius'') (\<lambda>radius.
     rbind (sv_setting sv loc ''dispatch.assignment_timeout'') (\<lambda>timeout.
     rbind (sv_setting sv loc ''dispatch.max_concurrent_jobs'') (\<lambda>concurrent.
       Inr \<lparr>ru_short_max_m = of_int64 short_max, ru_long_max_m = of_int64 long_max,
            ru_partner_radius = of_int64 radius, ru_offer_timeout = mul64 timeout second,
            ru_max_concurrent = concurrent\<rparr>))))))"

section \<open>Offering\<close>

record offer_request =
  of_order_id :: string
  of_code :: string
  of_pickup :: place
  of_destination :: place
  of_distance_m :: f64
  of_placement :: placement

definition candidate_pool :: nat where "candidate_pool = 50"

definition candidate_of :: "rules \<Rightarrow> partner \<times> f64 \<Rightarrow> candidate" where
  "candidate_of ru c = (case c of (p, d) \<Rightarrow>
     \<lparr>ca_partner_id = p_id p, ca_distance_m = d, ca_carrying = p_carrying p,
      ca_max_concurrent = ru_max_concurrent ru, ca_acceptance_rate = acceptance_rate p\<rparr>)"

text \<open>Everybody with room, and those of them who did not just pass on this job.\<close>

definition everybody :: "rules \<Rightarrow> (partner \<times> f64) list \<Rightarrow> candidate list" where
  "everybody ru cs = map (candidate_of ru) (filter (\<lambda>c. can_take (fst c) (ru_max_concurrent ru) = None) cs)"

definition pool_for :: "rules \<Rightarrow> string \<Rightarrow> (partner \<times> f64) list \<Rightarrow> candidate list" where
  "pool_for ru passed_by cs =
     (let everyone = everybody ru cs; pool = filter (\<lambda>c. ca_partner_id c \<noteq> passed_by) everyone
      in if pool = [] then everyone else pool)"

text \<open>
  \<open>Round\<close>, which returns the job it was given along with any error: the callers either ignore the
  job then or know it is the one they passed in.
\<close>

definition offer_round :: "services \<Rightarrow> rules \<Rightarrow> job \<Rightarrow> (store, job) op" where
  "offer_round sv ru j =
     and_then (or_wrap dispatch_storage_error
       (available_within sv (j_pickup j) (ru_partner_radius ru) (j_band j) candidate_pool)) (\<lambda>candidates.
     case assigner_next (new_assigner (pool_for ru (j_passed_by j) candidates) (ru_partner_radius ru)) of
       None \<Rightarrow> ret j
     | Some (best, _) \<Rightarrow>
         and_then clock_now (\<lambda>now.
         and_then (lift_err (lift_domain job_error (job_offer (ca_partner_id best) now (ru_offer_timeout ru) j))) (\<lambda>k.
         and_then (or_wrap dispatch_storage_error (save_job k (j_status j))) (\<lambda>_.
         and_then (ignoring (record_offer (ca_partner_id best) False)) (\<lambda>_. ret k)))))"

definition release_partner :: "string \<Rightarrow> (store, unit) op" where
  "release_partner pid =
     and_then (attempt (partner_by_id pid)) (\<lambda>r. case r of
       Inl _ \<Rightarrow> ret ()
     | Inr p \<Rightarrow>
         ignoring (save_partner (p\<lparr>p_carrying := (if p_carrying p > 0 then p_carrying p - 1 else p_carrying p),
           p_availability := (if p_availability p = Busy then Available else p_availability p)\<rparr>)))"

definition withdraw :: "string \<Rightarrow> string \<Rightarrow> (store, unit) op" where
  "withdraw order_id reason =
     and_then (or_wrap dispatch_storage_error (job_for_order order_id)) (\<lambda>found. case found of
       None \<Rightarrow> ret ()
     | Some j \<Rightarrow>
         if job_terminal (j_status j) then ret ()
         else and_then clock_now (\<lambda>now.
           let k = (case job_cancel reason now j of Inl _ \<Rightarrow> j | Inr k \<Rightarrow> k)
           in and_then (or_wrap dispatch_storage_error (save_job k (j_status j))) (\<lambda>_.
              if j_partner_id j \<noteq> [] then release_partner (j_partner_id j) else ret ())))"

section \<open>The contract's view of a job\<close>

record job_contract =
  jc_id :: string
  jc_order_id :: string
  jc_status :: job_status
  jc_live :: bool
  jc_band :: band
  jc_distance_m :: f64
  jc_partner :: "(string \<times> string \<times> string \<times> string \<times> f64 \<times> f64) option"
  jc_attempts :: int64
  jc_created_at :: instant
  jc_updated_at :: instant

definition job_to_contract :: "job \<Rightarrow> (store, job_contract) op" where
  "job_to_contract j =
     (let out = \<lparr>jc_id = j_id j, jc_order_id = j_order_id j, jc_status = j_status j,
                 jc_live = job_is_live (j_status j), jc_band = j_band j, jc_distance_m = j_distance_m j,
                 jc_partner = None, jc_attempts = j_attempts j, jc_created_at = j_created_at j,
                 jc_updated_at = j_updated_at j\<rparr>
      in if j_partner_id j = [] then ret out
         else and_then (attempt (partner_by_id (j_partner_id j))) (\<lambda>r. case r of
           Inl _ \<Rightarrow> ret out
         | Inr p \<Rightarrow> ret (out\<lparr>jc_partner := Some (p_id p, p_name p, p_phone p, p_vehicle p, p_lat p, p_lng p)\<rparr>)))"

definition offer :: "services \<Rightarrow> offer_request \<Rightarrow> (store, job_contract) op" where
  "offer sv req =
     and_then (or_wrap dispatch_storage_error (job_for_order (of_order_id req))) (\<lambda>found. case found of
       Some existing \<Rightarrow> job_to_contract existing
     | None \<Rightarrow>
         and_then (lift_err (resolve_rules sv (of_placement req))) (\<lambda>ru.
         and_then clock_now (\<lambda>now.
         and_then (fresh_id ''JOB'') (\<lambda>jid.
         and_then (lift_err (lift_domain job_error
             (new_job jid (of_order_id req) (of_code req) (of_pickup req) (of_destination req)
                (of_distance_m req) (band_for (of_distance_m req) (ru_short_max_m ru) (ru_long_max_m ru))
                (of_placement req) now))) (\<lambda>j.
         and_then (attempt (create_job j)) (\<lambda>made. case made of
           Inl e \<Rightarrow>
             (if code_of (Some e) = ''job_exists''
              then and_then (attempt (job_for_order (of_order_id req))) (\<lambda>again. case again of
                     Inr (Some won) \<Rightarrow> job_to_contract won
                   | _ \<Rightarrow> raise_err (dispatch_storage_error e))
              else raise_err (dispatch_storage_error e))
         | Inr _ \<Rightarrow>
             and_then (attempt (offer_round sv ru j)) (\<lambda>r. case r of
               Inl _ \<Rightarrow> job_to_contract j
             | Inr k \<Rightarrow> job_to_contract k)))))))"

section \<open>Sweeping\<close>

record sweep_result =
  sw_expired :: nat
  sw_offered :: nat

definition sweep_lapsed :: "instant \<Rightarrow> job \<Rightarrow> (store, nat) op" where
  "sweep_lapsed now j = (case job_lapse now j of
     Inl _ \<Rightarrow> ret 0
   | Inr k \<Rightarrow> and_then (attempt (save_job k (j_status j))) (\<lambda>r. case r of
       Inl _ \<Rightarrow> ret 0
     | Inr _ \<Rightarrow> and_then (ignoring (record_offer (j_partner_id j) False)) (\<lambda>_. ret 1)))"

definition sweep_waiting :: "services \<Rightarrow> job \<Rightarrow> (store, nat) op" where
  "sweep_waiting sv j = (case resolve_rules sv (j_placement j) of
     Inl _ \<Rightarrow> ret 0
   | Inr ru \<Rightarrow> and_then (attempt (offer_round sv ru j)) (\<lambda>r. case r of
       Inl _ \<Rightarrow> ret 0
     | Inr k \<Rightarrow> ret (if j_status k = JobOffered then 1 else 0)))"

definition sweep :: "services \<Rightarrow> nat \<Rightarrow> (store, sweep_result) op" where
  "sweep sv cap =
     and_then (or_wrap dispatch_storage_error (lapsed_offers cap)) (\<lambda>lapsed.
     and_then clock_now (\<lambda>now.
     and_then (map_each (sweep_lapsed now) lapsed) (\<lambda>expired.
     and_then (or_wrap dispatch_storage_error (waiting_jobs cap)) (\<lambda>waiting.
     and_then (map_each (sweep_waiting sv) waiting) (\<lambda>offered.
       ret \<lparr>sw_expired = sum_list expired, sw_offered = sum_list offered\<rparr>)))))"

end
