(* ===== verification/Order_Repo.thy ===== *)
theory Order_Repo
  imports World Dispatch_Offers
begin

text \<open>
  The order module's queries (\<open>modules/order/infrastructure/persistence/postgres/repository.go\<close>),
  its handoff codes (\<open>infrastructure/codes/codes.go\<close>) and its errors (\<open>application/shared.go\<close>).
\<close>

section \<open>Codes\<close>

definition code_alphabet :: string where
  "code_alphabet = ''2346789ABCDEFGHJKLMNPQRTUVWXYZ''"

definition code_length :: nat where "code_length = 6"

text \<open>Six draws of \<open>rand.Int\<close> below the length of the alphabet.\<close>

definition code_of_draws :: "nat list \<Rightarrow> string" where
  "code_of_draws draws = map (\<lambda>r. code_alphabet ! (r mod length code_alphabet)) (take code_length draws)"

definition fresh_code :: "(store, string) op" where
  "fresh_code w = (Inr (code_of_draws (w_entropy w (w_draws w))), w\<lparr>w_draws := Suc (w_draws w)\<rparr>)"

section \<open>Errors\<close>

fun order_err_text :: "order_err \<Rightarrow> string" where
  "order_err_text ErrIllegalTransition = ''an order cannot move that way''"
| "order_err_text ErrNotYourTransition = ''that is not yours to do''"
| "order_err_text ErrAlreadyFinished = ''that order is already finished''"
| "order_err_text ErrNoCustomer = ''an order must belong to somebody''"
| "order_err_text ErrNoMerchant = ''an order must name the shop it is from''"
| "order_err_text ErrNoLines = ''an order must have something in it''"
| "order_err_text ErrNoAddress = ''an order must have somewhere to go''"
| "order_err_text ErrUnknownPayment = ''that is not a way to pay''"
| "order_err_text ErrCODLimit = ''that order is too large to pay for in cash''"
| "order_err_text ErrNegativeAmount = ''an order cannot cost less than nothing''"
| "order_err_text ErrWindowClosed = ''the free cancellation window has closed''"
| "order_err_text ErrNoCancelReason = ''a cancellation needs a reason''"
| "order_err_text ErrNoEventID = ''the placement event needs an id''"

definition order_error :: "order_err \<Rightarrow> error" where
  "order_error e = (let s = Sentinel (order_err_text e) in case e of
     ErrIllegalTransition \<Rightarrow> wrap s KindConflict ''illegal_transition'' ''That order cannot be changed that way.''
   | ErrNotYourTransition \<Rightarrow> wrap s KindForbidden ''not_your_transition'' ''You cannot do that to this order.''
   | ErrAlreadyFinished \<Rightarrow> wrap s KindConflict ''order_finished'' ''That order has already finished.''
   | ErrCODLimit \<Rightarrow> wrap s KindConflict ''cod_limit_exceeded''
       ''This order is too large to pay for in cash. Please pay online.''
   | ErrUnknownPayment \<Rightarrow> wrap s KindInvalid ''invalid_payment_method'' ''Please choose how you would like to pay.''
   | ErrNoLines \<Rightarrow> wrap s KindInvalid ''empty_order'' ''There is nothing in your cart to order.''
   | ErrNoAddress \<Rightarrow> wrap s KindInvalid ''no_address'' ''Please choose a delivery address.''
   | _ \<Rightarrow> wrap s KindInvalid ''invalid_order'' ''We could not place that order. Please try again.'')"

definition order_storage_error :: "error \<Rightarrow> error" where
  "order_storage_error e = wrap e KindUnavailable ''order_unavailable''
     ''We could not reach your orders just now. Please try again.''"

definition order_config_error :: "error \<Rightarrow> error" where
  "order_config_error e = wrap e KindUnavailable ''order_config_unavailable''
     ''We could not place that order just now. Please try again.''"

definition order_not_found :: error where
  "order_not_found = new_error KindNotFound ''order_not_found'' ''We could not find that order.''"

definition order_not_found_or :: "error \<Rightarrow> error" where
  "order_not_found_or e =
     (if is_kind (Some e) KindNotFound then order_not_found else order_storage_error e)"

section \<open>Writing an order\<close>

definition all_event_ids :: "store \<Rightarrow> string set" where
  "all_event_ids s = (\<Union>x\<in>set (s_orders s). ev_id ` set (o_events x))"

definition all_line_ids :: "store \<Rightarrow> string set" where
  "all_line_ids s = (\<Union>x\<in>set (s_orders s). ol_id ` set (o_lines x))"

text \<open>The checks and keys of the tables an order is inserted into.\<close>

definition line_row_ok :: "order_line \<Rightarrow> bool" where
  "line_row_ok l \<longleftrightarrow> ol_kind l \<in> {''item'', ''combo''} \<and> 0 \<le> m_minor (ol_unit_price l) \<and> 0 < ol_quantity l \<and>
     distinct (map (\<lambda>x. (oo_group_id x, oo_option_id x)) (ol_options l))"

definition order_insert_ok :: "store \<Rightarrow> order \<Rightarrow> bool" where
  "order_insert_ok s x \<longleftrightarrow>
     o_id x \<notin> o_id ` set (s_orders s) \<and> o_code x \<notin> o_code ` set (s_orders s) \<and>
     order_status_valid (o_status x) \<and> payment_valid (o_payment x) \<and>
     0 \<le> m_minor (ch_subtotal (o_charges x)) \<and> 0 \<le> m_minor (ch_delivery (o_charges x)) \<and>
     0 \<le> m_minor (ch_expansion_surcharge (o_charges x)) \<and> 0 \<le> m_minor (ch_total (o_charges x)) \<and>
     0 \<le> o_expansion_level x \<and> \<not> flt (ch_distance_m (o_charges x)) (Fin 0) \<and>
     list_all line_row_ok (o_lines x) \<and> distinct (map ol_id (o_lines x)) \<and>
     set (map ol_id (o_lines x)) \<inter> all_line_ids s = {} \<and>
     distinct (map ev_id (o_events x)) \<and> set (map ev_id (o_events x)) \<inter> all_event_ids s = {}"

definition create_order :: "order \<Rightarrow> (store, unit) op" where
  "create_order x = db_call (\<lambda>s.
     if order_insert_ok s x then (Inr (), s\<lparr>s_orders := s_orders s @ [x]\<rparr>) else (Inl constraint_error, s))"

text \<open>
  \<open>AppendTransition\<close>: in one transaction, the order's status if it is still the one the caller
  read, and the event.
\<close>

definition order_written :: "order_event \<Rightarrow> order \<Rightarrow> order" where
  "order_written e row = row\<lparr>o_status := ev_status e, o_updated_at := ev_at e, o_events := o_events row @ [e]\<rparr>"

definition append_transition :: "string \<Rightarrow> order_status \<Rightarrow> order_event \<Rightarrow> (store, unit) op" where
  "append_transition oid frm e = db_call (\<lambda>s.
     case tbl_cas o_id o_status oid frm (order_written e) (s_orders s) of
       None \<Rightarrow> (Inl (new_error KindConflict ''order_moved''
                 ''That order has already changed. Please look at it again.''), s)
     | Some xs \<Rightarrow>
         if ev_id e \<in> all_event_ids s \<or> \<not> order_status_valid (ev_status e) \<or> ev_actor e \<notin> set known_actors
         then (Inl constraint_error, s)
         else (Inr (), s\<lparr>s_orders := xs\<rparr>))"

section \<open>Reading orders\<close>

text \<open>The row, the lines and the events are three queries; events come by time and then by id.\<close>

definition event_before :: "order_event \<Rightarrow> order_event \<Rightarrow> bool" where
  "event_before a b \<longleftrightarrow> ev_at a < ev_at b \<or> (ev_at a = ev_at b \<and> ev_id a < ev_id b)"

definition lines_of :: "string \<Rightarrow> (store, order_line list) op" where
  "lines_of oid = db_read (\<lambda>s. Inr (case tbl_get o_id oid (s_orders s) of None \<Rightarrow> [] | Some x \<Rightarrow> o_lines x))"

definition events_of :: "string \<Rightarrow> (store, order_event list) op" where
  "events_of oid = db_read (\<lambda>s. Inr (case tbl_get o_id oid (s_orders s) of None \<Rightarrow> []
     | Some x \<Rightarrow> stable_sort event_before (o_events x)))"

definition order_by_id :: "string \<Rightarrow> (store, order) op" where
  "order_by_id oid =
     and_then (db_read (\<lambda>s. case tbl_get o_id oid (s_orders s) of None \<Rightarrow> Inl order_not_found | Some x \<Rightarrow> Inr x)) (\<lambda>row.
     and_then (lines_of oid) (\<lambda>ls.
     and_then (events_of oid) (\<lambda>es. ret (row\<lparr>o_lines := ls, o_events := es\<rparr>))))"

record order_filter =
  fi_customer_id :: string
  fi_merchant_id :: string
  fi_statuses :: "order_status list"
  fi_live_only :: bool
  fi_limit :: nat
  fi_offset :: nat

text \<open>\<open>filterClause\<close>: a filter that names neither a customer nor a shop selects nothing.\<close>

definition filter_matches :: "order_filter \<Rightarrow> order \<Rightarrow> bool" where
  "filter_matches f x \<longleftrightarrow>
     (if fi_customer_id f \<noteq> [] then o_customer_id x = fi_customer_id f
      else if fi_merchant_id f \<noteq> [] then o_merchant_id x = fi_merchant_id f
      else False) \<and>
     (fi_live_only f \<longrightarrow> \<not> order_terminal (o_status x)) \<and>
     (fi_statuses f = [] \<or> o_status x \<in> set (fi_statuses f))"

definition newest_first :: "order \<Rightarrow> order \<Rightarrow> bool" where
  "newest_first a b \<longleftrightarrow> o_placed_at b < o_placed_at a \<or> (o_placed_at a = o_placed_at b \<and> o_id b < o_id a)"

definition orders_matching :: "order_filter \<Rightarrow> (store, order list \<times> nat) op" where
  "orders_matching f =
     and_then (db_read (\<lambda>s. Inr (length (filter (filter_matches f) (s_orders s))))) (\<lambda>total.
     if total = 0 then ret ([], 0)
     else and_then (db_read (\<lambda>s. Inr (take (fi_limit f) (drop (fi_offset f)
            (stable_sort newest_first (filter (filter_matches f) (s_orders s))))))) (\<lambda>rows.
          if rows = [] then ret ([], total)
          else and_then (db_read (\<lambda>s. Inr (map (\<lambda>x. case tbl_get o_id (o_id x) (s_orders s) of None \<Rightarrow> []
                 | Some y \<Rightarrow> o_lines y) rows))) (\<lambda>ls.
               and_then (db_read (\<lambda>s. Inr (map (\<lambda>x. case tbl_get o_id (o_id x) (s_orders s) of None \<Rightarrow> []
                 | Some y \<Rightarrow> stable_sort event_before (o_events y)) rows))) (\<lambda>es.
               ret (map (\<lambda>(x, l, e). x\<lparr>o_lines := l, o_events := e\<rparr>) (zip rows (zip ls es)), total)))))"

section \<open>Idempotency keys\<close>

definition by_idempotency_key :: "string \<Rightarrow> string \<Rightarrow> (store, order option) op" where
  "by_idempotency_key customer key =
     and_then (db_read (\<lambda>s. Inr (map_of (s_order_keys s) (customer, key)))) (\<lambda>found. case found of
       None \<Rightarrow> ret None
     | Some oid \<Rightarrow> and_then (order_by_id oid) (\<lambda>x. ret (Some x)))"

definition claim_idempotency_key :: "string \<Rightarrow> string \<Rightarrow> string \<Rightarrow> (store, unit) op" where
  "claim_idempotency_key customer key oid = db_call (\<lambda>s.
     if (customer, key) \<in> fst ` set (s_order_keys s) \<or> oid \<notin> o_id ` set (s_orders s)
     then (Inl constraint_error, s)
     else (Inr (), s\<lparr>s_order_keys := s_order_keys s @ [((customer, key), oid)]\<rparr>))"

end
