(* ===== verification/Payment_Cash.thy ===== *)
theory Payment_Cash
  imports World Dispatch_Offers
begin

text \<open>
  Cash at the door: \<open>modules/payment/application/collection.go\<close> over the collection queries of
  the payment repository, and the errors the payment use cases share (\<open>shared.go\<close>).
\<close>

section \<open>Errors\<close>

fun payment_err_text :: "payment_err \<Rightarrow> string" where
  "payment_err_text Pay_ErrNoOrder = ''a payment must be about an order''"
| "payment_err_text Pay_ErrNoCustomer = ''a payment must belong to somebody''"
| "payment_err_text ErrNoGateway = ''a payment must name the gateway that will take it''"
| "payment_err_text ErrNotPositive = ''a payment must be for a positive amount''"
| "payment_err_text ErrNotPending = ''that payment is not waiting to be settled''"
| "payment_err_text ErrNotCaptured = ''only a captured payment can be refunded''"
| "payment_err_text ErrNoReason = ''that needs a reason''"
| "payment_err_text ErrAmountMismatch = ''the gateway's amount does not match the payment''"
| "payment_err_text ErrNoPartner = ''a collection must belong to a partner''"
| "payment_err_text ErrAlreadyRemitted = ''that cash has already been remitted''"
| "payment_err_text ErrNoRemittanceRef = ''a remittance needs a reference''"
| "payment_err_text ErrWrongPartner = ''that cash was not collected by this partner''"
| "payment_err_text ErrCollectionExists = ''that order's cash has already been recorded''"

definition payment_error :: "payment_err \<Rightarrow> error" where
  "payment_error e = (let s = Sentinel (payment_err_text e) in case e of
     ErrAmountMismatch \<Rightarrow> wrap s KindConflict ''amount_mismatch''
       ''The amount confirmed does not match what was asked for.''
   | ErrNotCaptured \<Rightarrow> wrap s KindConflict ''not_captured'' ''Only a captured payment can be refunded.''
   | ErrNoReason \<Rightarrow> wrap s KindInvalid ''reason_required'' ''Please say why.''
   | _ \<Rightarrow> wrap s KindInvalid ''invalid_payment'' ''We could not process that payment.'')"

definition collection_error :: "payment_err \<Rightarrow> error" where
  "collection_error e = (let s = Sentinel (payment_err_text e) in case e of
     ErrNoRemittanceRef \<Rightarrow> wrap s KindInvalid ''reference_required'' ''A remittance needs a reference.''
   | _ \<Rightarrow> wrap s KindInvalid ''invalid_collection'' ''We could not update that collection.'')"

definition payment_storage_error :: "error \<Rightarrow> error" where
  "payment_storage_error e = wrap e KindUnavailable ''payment_unavailable''
     ''We could not reach payments just now. Please try again.''"

definition gateway_error :: "error \<Rightarrow> error" where
  "gateway_error e = wrap e KindUnavailable ''gateway_unavailable''
     ''We could not reach the payment gateway just now. Please try again.''"

definition payment_not_found :: error where
  "payment_not_found = new_error KindNotFound ''payment_not_found'' ''We could not find that payment.''"

definition payment_not_found_or :: "error \<Rightarrow> error" where
  "payment_not_found_or e =
     (if is_kind (Some e) KindNotFound then payment_not_found else payment_storage_error e)"

section \<open>Collections in the database\<close>

definition create_collection :: "collection \<Rightarrow> (store, unit) op" where
  "create_collection c = db_call (\<lambda>s.
     if co_id c \<in> co_id ` set (s_collections s) \<or> co_order_id c \<in> co_order_id ` set (s_collections s)
     then (Inl (new_error KindConflict ''collection_exists''
             ''That order's cash has already been recorded.''), s)
     else if m_minor (co_amount c) \<le> 0 then (Inl constraint_error, s)
     else (Inr (), s\<lparr>s_collections := s_collections s @ [c\<lparr>co_remittance_ref := [], co_remitted_at := zero_time\<rparr>]\<rparr>))"

definition collection_by_id :: "string \<Rightarrow> (store, collection) op" where
  "collection_by_id cid = db_read (\<lambda>s. case tbl_get co_id cid (s_collections s) of
     None \<Rightarrow> Inl (new_error KindNotFound ''collection_not_found'' ''No such collection.'')
   | Some c \<Rightarrow> Inr c)"

text \<open>\<open>ORDER BY (status <> 'held'), collected_at\<close>: what is still held comes first.\<close>

definition cash_before :: "collection \<Rightarrow> collection \<Rightarrow> bool" where
  "cash_before a b \<longleftrightarrow>
     (co_status a = CashHeld \<and> co_status b \<noteq> CashHeld) \<or>
     ((co_status a = CashHeld \<longleftrightarrow> co_status b = CashHeld) \<and> co_collected_at a < co_collected_at b)"

definition collections_of :: "string \<Rightarrow> (store, collection list) op" where
  "collections_of pid = db_read (\<lambda>s. Inr (stable_sort cash_before
     (filter (\<lambda>c. co_partner_id c = pid) (s_collections s))))"

text \<open>One transaction: every collection is updated, or none is.\<close>

definition collection_not_remittable :: "string \<Rightarrow> error" where
  "collection_not_remittable cid = with_field (new_error KindConflict ''collection_not_remittable''
     ''One of those collections is not yours to remit, or has already been remitted.'')
     ''collection_id'' cid"

fun remit_rows :: "string \<Rightarrow> string \<Rightarrow> instant \<Rightarrow> string list \<Rightarrow> collection list \<Rightarrow> error + collection list" where
  "remit_rows pid reference now [] cs = Inr cs"
| "remit_rows pid reference now (cid # cids) cs =
     (if list_ex (\<lambda>c. co_id c = cid \<and> co_partner_id c = pid \<and> co_status c = CashHeld) cs
      then remit_rows pid reference now cids
             (map (\<lambda>c. if co_id c = cid \<and> co_partner_id c = pid \<and> co_status c = CashHeld
                       then c\<lparr>co_status := CashRemitted, co_remittance_ref := reference,
                              co_remitted_at := now, co_updated_at := now\<rparr> else c) cs)
      else Inl (collection_not_remittable cid))"

definition remit_collections :: "string \<Rightarrow> string list \<Rightarrow> string \<Rightarrow> instant \<Rightarrow> (store, unit) op" where
  "remit_collections pid cids reference now = db_call (\<lambda>s.
     case remit_rows pid reference now cids (s_collections s) of
       Inl e \<Rightarrow> (Inl e, s)
     | Inr cs \<Rightarrow> (Inr (), s\<lparr>s_collections := cs\<rparr>))"

section \<open>The use case\<close>

definition record_collection :: "string \<Rightarrow> string \<Rightarrow> int64 \<Rightarrow> (store, unit) op" where
  "record_collection order_id pid amount_minor =
     and_then clock_now (\<lambda>now.
     and_then (fresh_id ''COL'') (\<lambda>cid.
     and_then (lift_err (lift_domain collection_error (new_collection cid order_id pid (taka amount_minor) now))) (\<lambda>c.
     and_then (attempt (create_collection c)) (\<lambda>r. case r of
       Inl e \<Rightarrow> if code_of (Some e) = ''collection_exists'' then ret ()
                else raise_err (payment_storage_error e)
     | Inr _ \<Rightarrow> ret ()))))"

definition my_ledger :: "string \<Rightarrow> (store, ledger) op" where
  "my_ledger pid =
     and_then (or_wrap payment_storage_error (collections_of pid)) (\<lambda>cs. ret (summarize pid cs))"

definition partner_id_of_user :: "string \<Rightarrow> (store, string option) op" where
  "partner_id_of_user user_id =
     and_then (or_wrap dispatch_storage_error (partner_of_user user_id)) (\<lambda>p. ret (map_option p_id p))"

definition my_ledger_for_user :: "string \<Rightarrow> (store, ledger) op" where
  "my_ledger_for_user user_id =
     and_then (or_wrap payment_storage_error (partner_id_of_user user_id)) (\<lambda>found. case found of
       None \<Rightarrow> raise_err payment_not_found
     | Some pid \<Rightarrow> my_ledger pid)"

definition reconcile :: "string \<Rightarrow> string list \<Rightarrow> string \<Rightarrow> (store, ledger) op" where
  "reconcile pid cids reference =
     (if cids = [] then raise_err (new_error KindInvalid ''nothing_to_reconcile''
        ''Choose at least one collection to remit.'')
      else if reference = [] then raise_err (collection_error ErrNoRemittanceRef)
      else and_then clock_now (\<lambda>now.
           and_then (or_wrap (\<lambda>e. if kind_of (Some e) = KindConflict then e else payment_storage_error e)
             (remit_collections pid cids reference now)) (\<lambda>_. my_ledger pid)))"

end
