(* ===== verification/Order_App.thy ===== *)
theory Order_App
  imports Order_Repo Payment_Cash
begin

text \<open>
  The order use cases: \<open>modules/order/application/transitions.go\<close> (moving an order and telling the
  other modules), \<open>place.go\<close> (placing one), \<open>read.go\<close>, \<open>service.go\<close> (what other modules
  may ask) and the facts of \<open>view.go\<close>.  Messages are the English ones; the labels that only a view carries are left out.
\<close>

section \<open>Views\<close>

record money_view =
  mv_minor :: int64
  mv_currency :: string
  mv_display :: string

definition to_money_view :: "money \<Rightarrow> money_view" where
  "to_money_view m = \<lparr>mv_minor = m_minor m, mv_currency = currency_of m, mv_display = display m\<rparr>"

record line_view =
  lv_line :: order_line
  lv_unit_price :: money_view
  lv_total :: money_view

definition receipt_of :: "charges \<Rightarrow> (string \<times> money_view) list" where
  "receipt_of c =
     [(''subtotal'', to_money_view (ch_subtotal c)), (''delivery'', to_money_view (ch_delivery c))] @
     (if ch_expanded c \<and> \<not> is_zero_money (ch_expansion_surcharge c)
      then [(''expansion_surcharge'', to_money_view (ch_expansion_surcharge c))] else []) @
     (if ch_free_delivery c then [(''free_delivery'', to_money_view (taka 0))] else []) @
     [(''total'', to_money_view (ch_total c))]"

definition partner_of_order :: "order \<Rightarrow> string" where
  "partner_of_order x = (case find (\<lambda>e. ev_status e = StatusPickedUp) (o_events x) of
     None \<Rightarrow> [] | Some e \<Rightarrow> ev_actor_id e)"

record order_view =
  vw_order :: order
  vw_partner_id :: string
  vw_live :: bool
  vw_lines :: "line_view list"
  vw_count :: int64
  vw_receipt :: "(string \<times> money_view) list"
  vw_next_actions :: "order_status list"
  vw_cancel :: "cancel_decision option"

definition view_for :: "order \<Rightarrow> actor \<Rightarrow> cancel_decision option \<Rightarrow> order_view" where
  "view_for x a cancel =
     \<lparr>vw_order = x, vw_partner_id = partner_of_order x, vw_live = order_is_live (o_status x),
      vw_lines = map (\<lambda>l. \<lparr>lv_line = l, lv_unit_price = to_money_view (ol_unit_price l),
        lv_total = to_money_view (line_total l)\<rparr>) (o_lines x),
      vw_count = order_count x, vw_receipt = receipt_of (o_charges x),
      vw_next_actions = next_statuses (o_status x) a, vw_cancel = cancel\<rparr>"

section \<open>Moving an order\<close>

record caller =
  cl_actor :: actor
  cl_id :: string
  cl_merchant_ids :: "string list"

definition may_touch :: "order \<Rightarrow> caller \<Rightarrow> error + unit" where
  "may_touch x c = (case cl_actor c of
     ActorCustomer \<Rightarrow> if \<not> belongs_to x (cl_id c) then Inl order_not_found else Inr ()
   | ActorMerchant \<Rightarrow> if o_merchant_id x \<in> set (cl_merchant_ids c) then Inr () else Inl order_not_found
   | _ \<Rightarrow> Inr ())"

definition cancel_window :: "services \<Rightarrow> order \<Rightarrow> error + duration" where
  "cancel_window sv x = lift_domain order_config_error (
     rbind (sv_setting sv \<lparr>pm_area_code = de_area_code (o_destination x), pm_district_code = [],
              pm_division_code = []\<rparr> ''order.cancellation_window'')
       (\<lambda>seconds. Inr (mul64 seconds second)))"

definition cancel_decision_of :: "services \<Rightarrow> order \<Rightarrow> instant \<Rightarrow> error + cancel_decision" where
  "cancel_decision_of sv x now = rbind (cancel_window sv x) (\<lambda>w. Inr (may_customer_cancel x w now))"

fun cancel_code :: "cancel_reason \<Rightarrow> string" where
  "cancel_code ReasonNone = []"
| "cancel_code ReasonAlreadyFinished = ''already_finished''"
| "cancel_code ReasonTooLate = ''too_late''"
| "cancel_code ReasonUnderway = ''already_preparing''"

text \<open>\<open>cancelText\<close> in English.\<close>

fun cancel_text :: "cancel_reason \<Rightarrow> string" where
  "cancel_text ReasonAlreadyFinished = ''That order has already finished.''"
| "cancel_text ReasonTooLate = ''The time to cancel has passed.''"
| "cancel_text ReasonUnderway = ''The shop has started preparing this, so it can no longer be cancelled.''"
| "cancel_text ReasonNone = []"

definition cannot_cancel :: "cancel_reason \<Rightarrow> error" where
  "cannot_cancel r = with_field (new_error KindConflict ''cannot_cancel'' (cancel_text r)) ''reason'' (cancel_code r)"

definition reason_required :: error where
  "reason_required = new_error KindInvalid ''reason_required'' ''Please say why you cannot take this order.''"

text \<open>Telling the dispatch module, the payment module and the customer; every failure is ignored.\<close>

definition offer_request_of :: "order \<Rightarrow> offer_request" where
  "offer_request_of x =
     \<lparr>of_order_id = o_id x, of_code = o_code x,
      of_pickup = \<lparr>pl_name = pk_name (o_pickup x), pl_phone = pk_phone (o_pickup x),
        pl_single_line = pk_single_line (o_pickup x), pl_lat = pk_lat (o_pickup x), pl_lng = pk_lng (o_pickup x)\<rparr>,
      of_destination = \<lparr>pl_name = de_recipient (o_destination x), pl_phone = de_phone (o_destination x),
        pl_single_line = de_single_line (o_destination x), pl_lat = de_lat (o_destination x),
        pl_lng = de_lng (o_destination x)\<rparr>,
      of_distance_m = ch_distance_m (o_charges x),
      of_placement = \<lparr>pm_area_code = de_area_code (o_destination x), pm_district_code = [],
        pm_division_code = []\<rparr>\<rparr>"

definition tell_dispatch :: "services \<Rightarrow> order \<Rightarrow> string \<Rightarrow> (store, unit) op" where
  "tell_dispatch sv x reason =
     (if o_status x = StatusReady then ignoring (offer sv (offer_request_of x))
      else if o_status x \<in> {StatusCancelled, StatusRejected, StatusFailed}
        then ignoring (withdraw (o_id x) reason)
      else ret ())"

definition tell_payment :: "order \<Rightarrow> order_event \<Rightarrow> (store, unit) op" where
  "tell_payment x e =
     (if o_status x \<noteq> StatusDelivered \<or> o_payment x \<noteq> PaymentCash then ret ()
      else ignoring (record_collection (o_id x) (ev_actor_id e) (m_minor (ch_total (o_charges x)))))"

definition worth_a_note :: "order_status \<Rightarrow> bool" where
  "worth_a_note s \<longleftrightarrow> s \<in> {StatusPickedUp, StatusDelivered, StatusCancelled, StatusRejected, StatusFailed}"

definition notify :: "notice \<Rightarrow> (store, unit) op" where
  "notify n = db_call (\<lambda>s. (Inr (), s\<lparr>s_notes := s_notes s @ [n]\<rparr>))"

definition tell_customer :: "order \<Rightarrow> string \<Rightarrow> (store, unit) op" where
  "tell_customer x reason =
     (if \<not> worth_a_note (o_status x) then ret ()
      else ignoring (notify \<lparr>n_customer = o_customer_id x, n_code = o_code x, n_status = o_status x,
             n_reason = reason\<rparr>))"

definition render :: "services \<Rightarrow> order \<Rightarrow> caller \<Rightarrow> instant \<Rightarrow> order_view" where
  "render sv x c now =
     view_for x (cl_actor c)
       (if cl_actor c = ActorCustomer
        then (case cancel_decision_of sv x now of Inl _ \<Rightarrow> None | Inr d \<Rightarrow> Some d) else None)"

text \<open>What the customer's free window says before the state machine is asked.\<close>

definition check_window :: "services \<Rightarrow> order \<Rightarrow> order_status \<Rightarrow> caller \<Rightarrow> instant \<Rightarrow> error + unit" where
  "check_window sv x to c now =
     (if cl_actor c = ActorCustomer \<and> to = StatusCancelled
      then rbind (cancel_decision_of sv x now) (\<lambda>d. if cd_allowed d then Inr () else Inl (cannot_cancel (cd_reason d)))
      else Inr ())"

definition with_event_id :: "string \<Rightarrow> order \<Rightarrow> order" where
  "with_event_id eid x = x\<lparr>o_events := butlast (o_events x) @ [(last (o_events x))\<lparr>ev_id := eid\<rparr>]\<rparr>"

definition execute :: "services \<Rightarrow> string \<Rightarrow> order_status \<Rightarrow> string \<Rightarrow> caller \<Rightarrow> (store, order_view) op" where
  "execute sv oid to reason c =
     and_then (or_wrap order_not_found_or (order_by_id oid)) (\<lambda>x.
     and_then (lift_err (may_touch x c)) (\<lambda>_.
     and_then clock_now (\<lambda>now.
     and_then (lift_err (check_window sv x to c now)) (\<lambda>_.
     and_then (if to = StatusRejected \<and> reason = [] then raise_err reason_required else ret ()) (\<lambda>_.
     and_then (lift_err (lift_domain order_error (order_move to (cl_actor c) (cl_id c) reason now x))) (\<lambda>y0.
     and_then (fresh_id ''OEV'') (\<lambda>eid.
       let y = with_event_id eid y0; e = last (o_events y)
       in and_then (or_wrap order_storage_error (append_transition (o_id x) (o_status x) e)) (\<lambda>_.
          and_then (tell_dispatch sv y reason) (\<lambda>_.
          and_then (tell_payment y e) (\<lambda>_.
          and_then (tell_customer y reason) (\<lambda>_.
            ret (render sv y c now))))))))))))"

definition cancel_status :: "services \<Rightarrow> string \<Rightarrow> caller \<Rightarrow> (store, cancel_decision) op" where
  "cancel_status sv oid c =
     and_then (or_wrap order_not_found_or (order_by_id oid)) (\<lambda>x.
     and_then (lift_err (may_touch x c)) (\<lambda>_.
     and_then clock_now (\<lambda>now. lift_err (cancel_decision_of sv x now))))"

section \<open>What other modules ask for\<close>

definition mark_paid :: "services \<Rightarrow> string \<Rightarrow> (store, unit) op" where
  "mark_paid sv oid = and_then (execute sv oid StatusPlaced []
     \<lparr>cl_actor = ActorSystem, cl_id = ''payment'', cl_merchant_ids = []\<rparr>) (\<lambda>_. ret ())"

definition mark_payment_failed :: "services \<Rightarrow> string \<Rightarrow> string \<Rightarrow> (store, unit) op" where
  "mark_payment_failed sv oid reason = and_then (execute sv oid StatusCancelled reason
     \<lparr>cl_actor = ActorSystem, cl_id = ''payment'', cl_merchant_ids = []\<rparr>) (\<lambda>_. ret ())"

definition advance :: "services \<Rightarrow> string \<Rightarrow> order_status \<Rightarrow> actor \<Rightarrow> string \<Rightarrow> string \<Rightarrow> (store, unit) op" where
  "advance sv oid to a actor_id reason =
     (if \<not> order_status_valid to
      then raise_err (new_error KindInvalid ''unknown_status'' ''That is not a state an order can be in.'')
      else if a \<notin> {ActorPartner, ActorAdmin, ActorSystem}
      then raise_err (new_error KindForbidden ''unknown_actor'' ''That is not a party that can move an order.'')
      else and_then (execute sv oid to reason \<lparr>cl_actor = a, cl_id = actor_id, cl_merchant_ids = []\<rparr>) (\<lambda>_. ret ()))"

section \<open>Reading\<close>

definition order_page_size :: "int64 \<Rightarrow> nat" where
  "order_page_size n = (if n \<le> 0 then 20 else if n > 50 then 50 else nat n)"

definition list_orders :: "order_filter \<Rightarrow> actor \<Rightarrow> (store, order_view list \<times> nat) op" where
  "list_orders f a =
     and_then (or_wrap order_storage_error (orders_matching f)) (\<lambda>(xs, total).
       ret (map (\<lambda>x. view_for x a None) xs, total))"

definition of_customer :: "string \<Rightarrow> bool \<Rightarrow> int64 \<Rightarrow> nat \<Rightarrow> (store, order_view list \<times> nat) op" where
  "of_customer customer live n offset = list_orders \<lparr>fi_customer_id = customer, fi_merchant_id = [],
     fi_statuses = [], fi_live_only = live, fi_limit = order_page_size n, fi_offset = offset\<rparr> ActorCustomer"

definition of_merchant :: "string \<Rightarrow> bool \<Rightarrow> int64 \<Rightarrow> nat \<Rightarrow> (store, order_view list \<times> nat) op" where
  "of_merchant merchant live n offset = list_orders \<lparr>fi_customer_id = [], fi_merchant_id = merchant,
     fi_statuses = [], fi_live_only = live, fi_limit = order_page_size n, fi_offset = offset\<rparr> ActorMerchant"

definition read_one :: "services \<Rightarrow> string \<Rightarrow> caller \<Rightarrow> (store, order_view) op" where
  "read_one sv oid c =
     and_then (or_wrap order_not_found_or (order_by_id oid)) (\<lambda>x.
     and_then (lift_err (may_touch x c)) (\<lambda>_.
       if cl_actor c = ActorCustomer
       then (case cancel_window sv x of
               Inl _ \<Rightarrow> ret (view_for x (cl_actor c) None)
             | Inr w \<Rightarrow> and_then clock_now (\<lambda>now.
                 ret (view_for x (cl_actor c) (Some (may_customer_cancel x w now)))))
       else ret (view_for x (cl_actor c) None)))"

section \<open>Placing an order\<close>

text \<open>What the placing use case asks of the cart, user, merchant, discovery and pricing modules.\<close>

record address =
  ad_id :: string
  ad_label :: string
  ad_recipient_name :: string
  ad_recipient_phone :: string
  ad_line1 :: string
  ad_line2 :: string
  ad_single_line :: string
  ad_lat :: f64
  ad_lng :: f64
  ad_area_code :: string
  ad_area_name :: string
  ad_instructions :: string

record reach =
  re_reachable :: bool
  re_reason :: string
  re_distance_m :: f64
  re_required_level :: int64
  re_placement :: placement

record price_quote =
  pq_subtotal :: int64
  pq_delivery :: int64
  pq_surcharge :: int64
  pq_total :: int64
  pq_free_delivery :: bool
  pq_expanded :: bool
  pq_distance_m :: f64

record place_services =
  pv_address :: "string \<Rightarrow> string \<Rightarrow> error + address"
  pv_display_name :: "string \<Rightarrow> error + string"
  pv_merchant :: "string \<Rightarrow> error + pickup"
  pv_accepting :: "string \<Rightarrow> error + bool"
  pv_reach :: "f64 \<Rightarrow> f64 \<Rightarrow> string \<Rightarrow> error + reach"
  pv_quote :: "placement \<Rightarrow> int64 \<Rightarrow> f64 \<Rightarrow> int64 \<Rightarrow> error + price_quote"

record place_request =
  pr_address_id :: string
  pr_payment :: payment_method
  pr_idempotency_key :: string

record order_rules =
  or_cod_limit_minor :: int64
  or_cancellation_window :: duration

definition order_rules_for :: "services \<Rightarrow> placement \<Rightarrow> error + order_rules" where
  "order_rules_for sv loc = lift_domain order_config_error (
     rbind (sv_setting sv loc ''order.cod_limit'') (\<lambda>cod_limit.
     rbind (sv_setting sv loc ''order.cancellation_window'') (\<lambda>window_s.
       Inr \<lparr>or_cod_limit_minor = cod_limit, or_cancellation_window = mul64 window_s second\<rparr>)))"

definition current_cart :: "string \<Rightarrow> (store, basket option) op" where
  "current_cart customer = db_read (\<lambda>s. Inr (map_of (s_carts s) customer))"

definition clear_cart :: "string \<Rightarrow> (store, unit) op" where
  "clear_cart customer = db_call (\<lambda>s. (Inr (), s\<lparr>s_carts := filter (\<lambda>c. fst c \<noteq> customer) (s_carts s)\<rparr>))"

definition line_of_basket :: "basket_line \<Rightarrow> (store, order_line) op" where
  "line_of_basket l = and_then (fresh_id ''OLN'') (\<lambda>lid. ret
     \<lparr>ol_id = lid, ol_kind = bl_kind l, ol_target_id = bl_target_id l, ol_name = bl_name l,
      ol_unit_price = taka (bl_unit_price_minor l),
      ol_options = map (\<lambda>x. \<lparr>oo_group_id = bo_group_id x, oo_option_id = bo_option_id x, oo_name = bo_name x,
        oo_price = taka (bo_price_minor x)\<rparr>) (bl_options l),
      ol_quantity = bl_quantity l, ol_note = bl_note l\<rparr>)"

definition destination_of :: "address \<Rightarrow> string \<Rightarrow> destination" where
  "destination_of a display_name =
     \<lparr>de_address_id = ad_id a, de_label = ad_label a,
      de_recipient = (if ad_recipient_name a = [] then display_name else ad_recipient_name a),
      de_phone = ad_recipient_phone a, de_line1 = ad_line1 a, de_line2 = ad_line2 a,
      de_single_line = ad_single_line a, de_lat = ad_lat a, de_lng = ad_lng a,
      de_area_code = ad_area_code a, de_area_name = ad_area_name a, de_directions = ad_instructions a\<rparr>"

definition charges_of :: "price_quote \<Rightarrow> charges" where
  "charges_of q =
     \<lparr>ch_subtotal = taka (pq_subtotal q), ch_delivery = taka (pq_delivery q),
      ch_expansion_surcharge = taka (pq_surcharge q), ch_total = taka (pq_total q),
      ch_free_delivery = pq_free_delivery q, ch_expanded = pq_expanded q, ch_distance_m = pq_distance_m q\<rparr>"

definition cart_not_orderable :: "string \<Rightarrow> error" where
  "cart_not_orderable blocker = with_field (new_error KindConflict ''cart_not_orderable''
     ''Your cart cannot be ordered right now. Please open it to see why.'') ''blocker'' blocker"

definition not_deliverable :: "string \<Rightarrow> error" where
  "not_deliverable reason = with_field (new_error KindConflict ''not_deliverable''
     (if reason = ''outside_division'' then ''That address is in another division, so this shop cannot deliver to it.''
      else ''That address is too far from this shop.'')) ''reason'' reason"

text \<open>Everything that is asked and refused before the order is put together.\<close>

record checkout_facts =
  cf_basket :: basket
  cf_destination :: destination
  cf_pickup :: pickup
  cf_reach :: reach
  cf_charges :: charges
  cf_rules :: order_rules

definition checkout_facts_of :: "services \<Rightarrow> place_services \<Rightarrow> string \<Rightarrow> place_request \<Rightarrow> basket
    \<Rightarrow> error + checkout_facts" where
  "checkout_facts_of sv pv customer req b =
     rbind (pv_address pv customer (pr_address_id req)) (\<lambda>a.
     rbind (pv_display_name pv customer) (\<lambda>name.
     rbind (pv_merchant pv (b_merchant_id b)) (\<lambda>shop.
     rbind (pv_accepting pv (b_merchant_id b)) (\<lambda>accepting.
     if \<not> accepting then Inl (new_error KindConflict ''shop_not_accepting'' ''That shop is not taking orders right now.'')
     else rbind (pv_reach pv (ad_lat a) (ad_lng a) (b_merchant_id b)) (\<lambda>re.
     if \<not> re_reachable re then Inl (not_deliverable (re_reason re))
     else rbind (pv_quote pv (re_placement re) (b_subtotal_minor b) (re_distance_m re) (re_required_level re)) (\<lambda>q.
     rbind (order_rules_for sv (re_placement re)) (\<lambda>ru.
       Inr \<lparr>cf_basket = b, cf_destination = destination_of a name, cf_pickup = shop, cf_reach = re,
            cf_charges = charges_of q, cf_rules = ru\<rparr>)))))))"

definition build_order :: "string \<Rightarrow> payment_method \<Rightarrow> checkout_facts \<Rightarrow> instant \<Rightarrow> (store, order) op" where
  "build_order customer pay f now =
     and_then (fresh_id ''ORD'') (\<lambda>oid.
     and_then (fresh_id ''OEV'') (\<lambda>eid.
     and_then fresh_code (\<lambda>code.
     and_then (map_each line_of_basket (b_lines (cf_basket f))) (\<lambda>ls.
       lift_err (lift_domain order_error (new_order
         \<lparr>d_id = oid, d_event_id = eid, d_code = code, d_customer_id = customer,
          d_merchant_id = b_merchant_id (cf_basket f), d_payment = pay, d_lines = ls,
          d_charges = cf_charges f, d_destination = cf_destination f, d_pickup = cf_pickup f,
          d_expansion_level = re_required_level (cf_reach f),
          d_cod_limit = taka (or_cod_limit_minor (cf_rules f)), d_now = now\<rparr>))))))"

definition place_new :: "services \<Rightarrow> place_services \<Rightarrow> string \<Rightarrow> place_request \<Rightarrow> (store, order_view) op" where
  "place_new sv pv customer req =
     (if \<not> payment_valid (pr_payment req) then raise_err (order_error ErrUnknownPayment)
      else and_then (current_cart customer) (\<lambda>cart. case cart of
        None \<Rightarrow> raise_err (order_error ErrNoLines)
      | Some b \<Rightarrow>
          if b_lines b = [] then raise_err (order_error ErrNoLines)
          else if \<not> b_orderable b then raise_err (cart_not_orderable (b_blocker b))
          else and_then (lift_err (checkout_facts_of sv pv customer req b)) (\<lambda>f.
               and_then clock_now (\<lambda>now.
               and_then (build_order customer (pr_payment req) f now) (\<lambda>x.
               and_then (or_wrap order_storage_error (create_order x)) (\<lambda>_.
               and_then (when_op (pr_idempotency_key req \<noteq> [])
                 (or_wrap order_storage_error (claim_idempotency_key customer (pr_idempotency_key req) (o_id x)))) (\<lambda>_.
               and_then (ignoring (clear_cart customer)) (\<lambda>_.
                 ret (view_for x ActorCustomer
                   (Some (may_customer_cancel x (or_cancellation_window (cf_rules f)) now)))))))))))"

definition place :: "services \<Rightarrow> place_services \<Rightarrow> string \<Rightarrow> place_request \<Rightarrow> (store, order_view) op" where
  "place sv pv customer req =
     (if pr_idempotency_key req \<noteq> []
      then and_then (or_wrap order_storage_error (by_idempotency_key customer (pr_idempotency_key req))) (\<lambda>found.
           case found of Some x \<Rightarrow> ret (view_for x ActorCustomer None)
                       | None \<Rightarrow> place_new sv pv customer req)
      else place_new sv pv customer req)"

end
