(* ===== verification/Payment_App.thy ===== *)
theory Payment_App
  imports Order_App
begin

text \<open>
  Online payments: the payment queries of
  \<open>modules/payment/infrastructure/persistence/postgres/repository.go\<close>, the use cases of
  \<open>application/checkout.go\<close>, \<open>webhook.go\<close>, \<open>refund.go\<close> and \<open>read.go\<close>, and the adapter
  \<open>external/order\<close>.  The gateway is a parameter; labels in the reader's language are left out.
\<close>

section \<open>Payments in the database\<close>

text \<open>
  The insertion leaves both reasons empty.  Any unique key that is taken already (the id, the
  reference, or the pending payment of the order) is reported as a checkout in progress.
\<close>

definition create_payment :: "payment \<Rightarrow> (store, unit) op" where
  "create_payment p = db_call (\<lambda>s.
     if pay_id p \<in> pay_id ` set (s_payments s) \<or> pay_reference p \<in> pay_reference ` set (s_payments s) \<or>
        (pay_status p = PayPending \<and>
         list_ex (\<lambda>q. pay_order_id q = pay_order_id p \<and> pay_status q = PayPending) (s_payments s))
     then (Inl (new_error KindConflict ''checkout_in_progress''
             ''A checkout for that order is already in progress.''), s)
     else if m_minor (pay_amount p) \<le> 0 then (Inl constraint_error, s)
     else (Inr (), s\<lparr>s_payments := s_payments s @ [p\<lparr>pay_failure_reason := [], pay_refund_reason := []\<rparr>]\<rparr>))"

definition no_such_payment :: error where
  "no_such_payment = new_error KindNotFound ''payment_not_found'' ''No such payment.''"

definition payment_by_id :: "string \<Rightarrow> (store, payment) op" where
  "payment_by_id pid = db_read (\<lambda>s. case tbl_get pay_id pid (s_payments s) of
     None \<Rightarrow> Inl no_such_payment | Some p \<Rightarrow> Inr p)"

definition payment_by_reference :: "string \<Rightarrow> (store, payment) op" where
  "payment_by_reference reference = db_read (\<lambda>s. case tbl_get pay_reference reference (s_payments s) of
     None \<Rightarrow> Inl no_such_payment | Some p \<Rightarrow> Inr p)"

definition pending_for_order :: "string \<Rightarrow> (store, payment option) op" where
  "pending_for_order oid = db_read (\<lambda>s. Inr
     (find (\<lambda>p. pay_order_id p = oid \<and> pay_status p = PayPending) (s_payments s)))"

text \<open>\<open>ORDER BY created_at DESC LIMIT 1\<close>; of two created at the same instant, the first inserted.\<close>

definition latest_for_order :: "string \<Rightarrow> (store, payment option) op" where
  "latest_for_order oid = db_read (\<lambda>s. Inr
     (case stable_sort (\<lambda>x y. pay_created_at y < pay_created_at x)
             (filter (\<lambda>p. pay_order_id p = oid) (s_payments s)) of
        [] \<Rightarrow> None | p # _ \<Rightarrow> Some p))"

definition payment_written :: "payment \<Rightarrow> payment \<Rightarrow> payment" where
  "payment_written p row = row\<lparr>pay_status := pay_status p, pay_gateway_ref := pay_gateway_ref p,
     pay_failure_reason := pay_failure_reason p, pay_refund_reason := pay_refund_reason p,
     pay_updated_at := pay_updated_at p\<rparr>"

definition save_payment :: "payment \<Rightarrow> pay_status \<Rightarrow> (store, unit) op" where
  "save_payment p expected = db_call (\<lambda>s.
     case tbl_cas pay_id pay_status (pay_id p) expected (payment_written p) (s_payments s) of
       None \<Rightarrow> (Inl (new_error KindConflict ''payment_moved'' ''That payment has already moved on.''), s)
     | Some ps \<Rightarrow> (Inr (), s\<lparr>s_payments := ps\<rparr>))"

section \<open>Checkout\<close>

text \<open>\<open>Service.Order\<close> of the order module, as the payment module reads it.\<close>

definition order_for_payment :: "string \<Rightarrow> (store, order) op" where
  "order_for_payment oid = or_wrap order_not_found_or (order_by_id oid)"

definition manual_gateway :: string where "manual_gateway = ''manual''"

record checkout_view =
  cv_payment_id :: string
  cv_order_id :: string
  cv_status :: pay_status
  cv_amount :: money_view
  cv_redirect_url :: string
  cv_demo_completion :: bool

definition checkout_view_of :: "payment \<Rightarrow> string \<Rightarrow> checkout_view" where
  "checkout_view_of p url =
     \<lparr>cv_payment_id = pay_id p, cv_order_id = pay_order_id p, cv_status = pay_status p,
      cv_amount = to_money_view (pay_amount p), cv_redirect_url = url,
      cv_demo_completion = (pay_gateway p = manual_gateway)\<rparr>"

definition not_online_payment :: error where
  "not_online_payment = new_error KindConflict ''not_online_payment'' ''That order is not being paid for online.''"

definition not_awaiting_payment :: error where
  "not_awaiting_payment = new_error KindConflict ''not_awaiting_payment'' ''That order is not waiting for payment.''"

definition start_checkout :: "services \<Rightarrow> string \<Rightarrow> string \<Rightarrow> (store, checkout_view) op" where
  "start_checkout sv customer oid =
     and_then (or_wrap payment_not_found_or (order_for_payment oid)) (\<lambda>x.
     if o_customer_id x \<noteq> customer then raise_err payment_not_found
     else if o_payment x \<noteq> PaymentOnline then raise_err not_online_payment
     else if o_status x \<noteq> StatusPendingPayment then raise_err not_awaiting_payment
     else and_then (or_wrap payment_storage_error (pending_for_order oid)) (\<lambda>existing. case existing of
       Some p \<Rightarrow> ret (checkout_view_of p [])
     | None \<Rightarrow>
         and_then clock_now (\<lambda>now.
         and_then (fresh_id ''PAY'') (\<lambda>pid.
         and_then (lift_err (lift_domain payment_error (new_payment pid oid customer (sv_gateway_name sv)
             (taka (m_minor (ch_total (o_charges x)))) now))) (\<lambda>p0.
         and_then (or_wrap gateway_error (lift_err (sv_checkout sv (pay_reference p0)
             (m_minor (pay_amount p0)) (currency_of (pay_amount p0))))) (\<lambda>(gateway_ref, url).
         let p = p0\<lparr>pay_gateway_ref := gateway_ref\<rparr>
         in and_then (attempt (create_payment p)) (\<lambda>made. case made of
              Inr _ \<Rightarrow> ret (checkout_view_of p url)
            | Inl e \<Rightarrow>
                (if code_of (Some e) = ''checkout_in_progress''
                 then and_then (attempt (pending_for_order oid)) (\<lambda>again. case again of
                        Inr (Some won) \<Rightarrow> ret (checkout_view_of won [])
                      | _ \<Rightarrow> raise_err (payment_storage_error e))
                 else raise_err (payment_storage_error e)))))))))"

section \<open>What the gateway reports\<close>

record webhook_event =
  we_reference :: string
  we_gateway_ref :: string
  we_succeeded :: bool
  we_reason :: string
  we_amount_minor :: int64

definition settle_payment :: "webhook_event \<Rightarrow> instant \<Rightarrow> payment \<Rightarrow> payment_err + payment" where
  "settle_payment ev now p =
     (if we_succeeded ev then pay_capture (we_gateway_ref ev) (taka (we_amount_minor ev)) now p
      else pay_fail (we_reason ev) now p)"

definition apply_event :: "services \<Rightarrow> webhook_event \<Rightarrow> (store, unit) op" where
  "apply_event sv ev =
     (if \<not> we_succeeded ev \<and> we_reason ev = []
      then raise_err (new_error KindInvalid ''reason_required'' ''A failed payment needs a reason.'')
      else and_then (or_wrap (\<lambda>e. if is_kind (Some e) KindNotFound
               then new_error KindNotFound ''payment_not_found''
                      ''That reference does not match a payment we started.''
               else payment_storage_error e) (payment_by_reference (we_reference ev))) (\<lambda>p.
           and_then clock_now (\<lambda>now. case settle_payment ev now p of
             Inl e \<Rightarrow> (if we_succeeded ev \<and> e = ErrAmountMismatch then raise_err (payment_error e) else ret ())
           | Inr q \<Rightarrow>
               and_then (attempt (save_payment q (pay_status p))) (\<lambda>saved. case saved of
                 Inl e \<Rightarrow> (if code_of (Some e) = ''payment_moved'' then ret ()
                           else raise_err (payment_storage_error e))
               | Inr _ \<Rightarrow> (if we_succeeded ev then mark_paid sv (pay_order_id q)
                           else mark_payment_failed sv (pay_order_id q) (we_reason ev))))))"

text \<open>\<open>Handle\<close>; what the gateway makes of the payload and its signature is the argument \<open>verified\<close>.\<close>

definition handle_webhook :: "services \<Rightarrow> error + webhook_event \<Rightarrow> (store, unit) op" where
  "handle_webhook sv verified =
     and_then (or_wrap (\<lambda>e. wrap e KindInvalid ''invalid_webhook'' ''That webhook could not be verified.'')
       (lift_err verified)) (apply_event sv)"

definition simulate_event :: "services \<Rightarrow> string \<Rightarrow> string \<Rightarrow> bool \<Rightarrow> string \<Rightarrow> (store, unit) op" where
  "simulate_event sv pid customer succeeded reason =
     (if sv_gateway_name sv \<noteq> manual_gateway
      then raise_err (new_error KindForbidden ''dev_only'' ''This action is only available with the manual gateway.'')
      else and_then (or_wrap payment_not_found_or (payment_by_id pid)) (\<lambda>p.
           if pay_customer_id p \<noteq> customer then raise_err payment_not_found
           else apply_event sv \<lparr>we_reference = pay_reference p, we_gateway_ref = pay_reference p,
                  we_succeeded = succeeded, we_reason = reason, we_amount_minor = m_minor (pay_amount p)\<rparr>))"

section \<open>Refunds and reading\<close>

definition refund_order :: "services \<Rightarrow> string \<Rightarrow> string \<Rightarrow> (store, unit) op" where
  "refund_order sv oid reason =
     (if reason = [] then raise_err (payment_error ErrNoReason)
      else and_then (or_wrap payment_storage_error (latest_for_order oid)) (\<lambda>found. case found of
        None \<Rightarrow> raise_err payment_not_found
      | Some p \<Rightarrow>
          if pay_status p = PayRefunded then ret ()
          else and_then clock_now (\<lambda>now.
               and_then (lift_err (lift_domain payment_error (pay_refund reason now p))) (\<lambda>q.
               and_then (or_wrap gateway_error (lift_err (sv_refund sv (pay_gateway_ref q)
                 (m_minor (pay_amount q))))) (\<lambda>_.
               or_wrap payment_storage_error (save_payment q (pay_status p)))))))"

definition settled_reason :: "payment \<Rightarrow> string" where
  "settled_reason p = (if pay_status p = PayRefunded then pay_refund_reason p else pay_failure_reason p)"

record payment_view =
  py_id :: string
  py_order_id :: string
  py_status :: pay_status
  py_amount :: money_view
  py_reason :: string

definition payment_view_of :: "payment \<Rightarrow> payment_view" where
  "payment_view_of p = \<lparr>py_id = pay_id p, py_order_id = pay_order_id p, py_status = pay_status p,
     py_amount = to_money_view (pay_amount p), py_reason = settled_reason p\<rparr>"

definition payment_for_order :: "string \<Rightarrow> string \<Rightarrow> bool \<Rightarrow> (store, payment_view) op" where
  "payment_for_order oid customer admin =
     and_then (or_wrap payment_storage_error (latest_for_order oid)) (\<lambda>found. case found of
       None \<Rightarrow> raise_err payment_not_found
     | Some p \<Rightarrow> if \<not> admin \<and> pay_customer_id p \<noteq> customer then raise_err payment_not_found
                 else ret (payment_view_of p))"

definition payment_for :: "string \<Rightarrow> (store, payment_view option) op" where
  "payment_for oid =
     and_then (or_wrap payment_storage_error (latest_for_order oid)) (\<lambda>found.
       ret (map_option payment_view_of found))"

text \<open>The stand-in gateway of \<open>infrastructure/gateway/manual\<close>; it is not built in production.\<close>

definition manual_checkout :: "string \<Rightarrow> int64 \<Rightarrow> string \<Rightarrow> error + (string \<times> string)" where
  "manual_checkout reference amount_minor currency = Inr (reference, [])"

definition manual_refund :: "string \<Rightarrow> int64 \<Rightarrow> error + string" where
  "manual_refund gateway_ref amount_minor = Inr gateway_ref"

end
