(* ===== verification/Dispatch_App.thy ===== *)
theory Dispatch_App
  imports Order_App Dispatch_Offers
begin

text \<open>
  What a delivery partner does: \<open>modules/dispatch/application/partner.go\<close>, over the job listing
  and the feed query of the dispatch repository, with the facts of \<open>view.go\<close> (distances in words
  and labels are left out).
\<close>

section \<open>Views\<close>

record partner_view =
  pw_partner :: partner
  pw_acceptance_percent :: int64

definition partner_view_of :: "partner \<Rightarrow> partner_view" where
  "partner_view_of p = \<lparr>pw_partner = p,
     pw_acceptance_percent = to_int64 (fadd (fmul (acceptance_rate p) (of_int64 100)) (Fin (1 / 2)))\<rparr>"

definition seconds_until :: "instant \<Rightarrow> instant \<Rightarrow> int64" where
  "seconds_until deadline now = (let secs = to_int64 (duration_seconds (time_sub deadline now))
     in if secs < 0 then 0 else secs)"

record job_view =
  jv_job :: job
  jv_live :: bool
  jv_to_pickup_m :: f64
  jv_seconds_left :: int64

definition job_view_of :: "job \<Rightarrow> f64 \<Rightarrow> job_view" where
  "job_view_of j to_pickup_m =
     \<lparr>jv_job = j, jv_live = job_is_live (j_status j), jv_to_pickup_m = to_pickup_m,
      jv_seconds_left = (if j_status j = JobOffered \<and> j_offer_expires_at j \<noteq> zero_time
                         then seconds_until (j_offer_expires_at j) (j_updated_at j) else 0)\<rparr>"

section \<open>The partner's own record\<close>

definition mine :: "string \<Rightarrow> (store, partner) op" where
  "mine user_id =
     and_then (or_wrap dispatch_storage_error (partner_of_user user_id)) (\<lambda>found. case found of
       None \<Rightarrow> raise_err (dispatch_not_found ''partner'') | Some p \<Rightarrow> ret p)"

definition register_partner :: "string \<Rightarrow> string \<Rightarrow> string \<Rightarrow> string \<Rightarrow> (store, partner_view) op" where
  "register_partner user_id name phone vehicle =
     and_then (or_wrap dispatch_storage_error (partner_of_user user_id)) (\<lambda>found. case found of
       Some existing \<Rightarrow> ret (partner_view_of existing)
     | None \<Rightarrow>
         and_then (fresh_id ''PTR'') (\<lambda>pid.
         and_then (lift_err (lift_domain partner_error (new_partner pid user_id name phone vehicle))) (\<lambda>p.
         and_then (or_wrap dispatch_storage_error (save_partner p)) (\<lambda>_. ret (partner_view_of p)))))"

definition me :: "string \<Rightarrow> (store, partner_view) op" where
  "me user_id = and_then (mine user_id) (\<lambda>p. ret (partner_view_of p))"

text \<open>\<open>SetAvailability\<close>, \<open>SetPreference\<close> and \<open>ReportLocation\<close>: change the record and store it.\<close>

definition change_partner :: "string \<Rightarrow> (partner \<Rightarrow> dispatch_err + partner) \<Rightarrow> (store, partner_view) op" where
  "change_partner user_id change =
     and_then (mine user_id) (\<lambda>p.
     and_then (lift_err (lift_domain partner_error (change p))) (\<lambda>q.
     and_then (or_wrap dispatch_storage_error (save_partner q)) (\<lambda>_. ret (partner_view_of q))))"

definition set_availability :: "string \<Rightarrow> availability \<Rightarrow> (store, partner_view) op" where
  "set_availability user_id a = change_partner user_id (with_availability a)"

definition set_preference :: "string \<Rightarrow> preference \<Rightarrow> (store, partner_view) op" where
  "set_preference user_id pref = change_partner user_id (with_preference pref)"

definition report_location :: "string \<Rightarrow> f64 \<Rightarrow> f64 \<Rightarrow> (store, partner_view) op" where
  "report_location user_id lat lng = change_partner user_id (\<lambda>p. Inr (partner_at lat lng p))"

section \<open>The feed and the partner's jobs\<close>

definition feed_fan_out :: nat where "feed_fan_out = 60"

definition waiting_near :: "services \<Rightarrow> f64 \<Rightarrow> f64 \<Rightarrow> f64 \<Rightarrow> nat \<Rightarrow> (store, feed_entry list) op" where
  "waiting_near sv lat lng radius_m cap = db_read (\<lambda>s. Inr (take cap
     (stable_sort (\<lambda>x y. flt (fe_distance x) (fe_distance y))
       [\<lparr>fe_job = j, fe_distance = d\<rparr>. j \<leftarrow> s_jobs s,
          d \<leftarrow> [sv_distance sv (pl_lat (j_pickup j)) (pl_lng (j_pickup j)) lat lng],
          j_status j = JobWaiting \<and> fle d radius_m])))"

definition rules_at :: "services \<Rightarrow> partner \<Rightarrow> error + rules" where
  "rules_at sv p = resolve_rules sv
     (if \<not> feq (p_lat p) (Fin 0) \<or> \<not> feq (p_lng p) (Fin 0)
      then (case sv_area sv (p_lat p) (p_lng p) of Inl _ \<Rightarrow> no_placement | Inr loc \<Rightarrow> loc)
      else no_placement)"

datatype feed_reason = FeedOffline | FeedAtCapacity | FeedNothingNearby

record feed_view =
  fv_partner :: partner_view
  fv_jobs :: "job_view list"
  fv_radius_m :: f64
  fv_reason :: "feed_reason option"

definition feed :: "services \<Rightarrow> string \<Rightarrow> (store, feed_view) op" where
  "feed sv user_id =
     and_then (mine user_id) (\<lambda>p.
     and_then (lift_err (rules_at sv p)) (\<lambda>ru.
     let empty = \<lparr>fv_partner = partner_view_of p, fv_jobs = [], fv_radius_m = Fin 0, fv_reason = None\<rparr>
     in if p_availability p = Offline then ret (empty\<lparr>fv_reason := Some FeedOffline\<rparr>)
        else if can_take p (ru_max_concurrent ru) \<noteq> None then ret (empty\<lparr>fv_reason := Some FeedAtCapacity\<rparr>)
        else and_then (or_wrap dispatch_storage_error
               (waiting_near sv (p_lat p) (p_lng p) (ru_partner_radius ru) feed_fan_out)) (\<lambda>nearby.
             let jobs = map (\<lambda>e. job_view_of (fe_job e) (fe_distance e)) (build_feed p nearby)
             in ret \<lparr>fv_partner = partner_view_of p, fv_jobs = jobs, fv_radius_m = ru_partner_radius ru,
                     fv_reason = (if jobs = [] then Some FeedNothingNearby else None)\<rparr>)))"

definition dispatch_page_size :: "int64 \<Rightarrow> nat" where
  "dispatch_page_size n = (if n \<le> 0 then 20 else if n > 50 then 50 else nat n)"

record job_filter =
  jf_partner_id :: string
  jf_live_only :: bool
  jf_statuses :: "job_status list"
  jf_limit :: nat
  jf_offset :: nat

text \<open>\<open>jobFilterClause\<close>: a filter that names no partner selects nothing.\<close>

definition job_filter_matches :: "job_filter \<Rightarrow> job \<Rightarrow> bool" where
  "job_filter_matches f j \<longleftrightarrow>
     (if jf_partner_id f = [] then False else j_partner_id j = jf_partner_id f) \<and>
     (jf_live_only f \<longrightarrow> j_status j \<notin> {JobDelivered, JobFailed, JobCancelled}) \<and>
     (jf_statuses f = [] \<or> j_status j \<in> set (jf_statuses f))"

definition newest_job_first :: "job \<Rightarrow> job \<Rightarrow> bool" where
  "newest_job_first a b \<longleftrightarrow> j_created_at b < j_created_at a \<or> (j_created_at a = j_created_at b \<and> j_id b < j_id a)"

definition jobs_matching :: "job_filter \<Rightarrow> (store, job list \<times> nat) op" where
  "jobs_matching f =
     and_then (db_read (\<lambda>s. Inr (length (filter (job_filter_matches f) (s_jobs s))))) (\<lambda>total.
     if total = 0 then ret ([], 0)
     else and_then (db_read (\<lambda>s. Inr (take (jf_limit f) (drop (jf_offset f)
            (stable_sort newest_job_first (filter (job_filter_matches f) (s_jobs s))))))) (\<lambda>rows.
          ret (rows, total)))"

definition my_jobs :: "string \<Rightarrow> bool \<Rightarrow> int64 \<Rightarrow> nat \<Rightarrow> (store, job_view list \<times> nat) op" where
  "my_jobs user_id live_only n offset =
     and_then (mine user_id) (\<lambda>p.
     and_then (or_wrap dispatch_storage_error (jobs_matching \<lparr>jf_partner_id = p_id p, jf_live_only = live_only,
       jf_statuses = [], jf_limit = dispatch_page_size n, jf_offset = offset\<rparr>)) (\<lambda>(jobs, total).
       ret (map (\<lambda>j. job_view_of j (Fin 0)) jobs, total)))"

section \<open>Moving a job\<close>

datatype aftermath = AfterAccept | AfterDecline | AfterCollect | AfterDeliver | AfterFail

text \<open>The partner's record after the job moved: \<open>settle\<close> stores what was read before, changed.\<close>

definition settled_partner :: "aftermath \<Rightarrow> partner \<Rightarrow> partner" where
  "settled_partner after p =
     (let q = (case after of
                 AfterAccept \<Rightarrow> p\<lparr>p_carrying := add64 (p_carrying p) 1\<rparr>
               | AfterDeliver \<Rightarrow> (if p_carrying p > 0 then p\<lparr>p_carrying := p_carrying p - 1\<rparr> else p)
               | AfterFail \<Rightarrow> (if p_carrying p > 0 then p\<lparr>p_carrying := p_carrying p - 1\<rparr> else p)
               | _ \<Rightarrow> p)
      in if p_availability q \<noteq> Offline then q\<lparr>p_availability := Available\<rparr> else q)"

definition settle :: "services \<Rightarrow> job \<Rightarrow> partner \<Rightarrow> aftermath \<Rightarrow> (store, unit) op" where
  "settle sv j p after =
     and_then (case after of
       AfterAccept \<Rightarrow> ignoring (record_offer (p_id p) True)
     | AfterDecline \<Rightarrow> ignoring (record_offer (p_id p) False)
     | _ \<Rightarrow> ret ()) (\<lambda>_.
     and_then (ignoring (save_partner (settled_partner after p))) (\<lambda>_.
     case after of
       AfterCollect \<Rightarrow> ignoring (advance sv (j_order_id j) StatusPickedUp ActorPartner (p_id p) [])
     | AfterDeliver \<Rightarrow> ignoring (advance sv (j_order_id j) StatusDelivered ActorPartner (p_id p) [])
     | AfterFail \<Rightarrow> when_op (j_status j = JobFailed)
         (ignoring (advance sv (j_order_id j) StatusFailed ActorPartner (p_id p) (j_reason j)))
     | _ \<Rightarrow> ret ()))"

definition act :: "services \<Rightarrow> string \<Rightarrow> string \<Rightarrow> (instant \<Rightarrow> job \<Rightarrow> partner \<Rightarrow> dispatch_err + job) \<Rightarrow> aftermath
    \<Rightarrow> (store, job_view) op" where
  "act sv user_id jid move after =
     and_then (mine user_id) (\<lambda>p.
     and_then (or_wrap (\<lambda>e. if is_kind (Some e) KindNotFound then dispatch_not_found ''job''
                            else dispatch_storage_error e) (job_by_id jid)) (\<lambda>j.
     and_then clock_now (\<lambda>now.
     and_then (lift_err (lift_domain job_error (move now j p))) (\<lambda>k.
     and_then (or_wrap dispatch_storage_error (save_job k (j_status j))) (\<lambda>_.
     and_then (settle sv k p after) (\<lambda>_. ret (job_view_of k (Fin 0))))))))"

definition accept_job :: "services \<Rightarrow> string \<Rightarrow> string \<Rightarrow> (store, job_view) op" where
  "accept_job sv user_id jid = act sv user_id jid (\<lambda>now j p. job_accept (p_id p) now j) AfterAccept"

definition decline_job :: "services \<Rightarrow> string \<Rightarrow> string \<Rightarrow> (store, job_view) op" where
  "decline_job sv user_id jid = act sv user_id jid (\<lambda>now j p. job_decline (p_id p) now j) AfterDecline"

definition collect_job :: "services \<Rightarrow> string \<Rightarrow> string \<Rightarrow> (store, job_view) op" where
  "collect_job sv user_id jid = act sv user_id jid (\<lambda>now j p. job_collect (p_id p) now j) AfterCollect"

definition deliver_job :: "services \<Rightarrow> string \<Rightarrow> string \<Rightarrow> (store, job_view) op" where
  "deliver_job sv user_id jid = act sv user_id jid (\<lambda>now j p. job_deliver (p_id p) now j) AfterDeliver"

definition fail_job :: "services \<Rightarrow> string \<Rightarrow> string \<Rightarrow> string \<Rightarrow> (store, job_view) op" where
  "fail_job sv user_id jid reason = act sv user_id jid (\<lambda>now j p. job_fail (p_id p) reason now j) AfterFail"

text \<open>
  An order and its delivery as the order and dispatch modules tell other modules of them:
  \<open>order/application/service.go\<close>, \<open>order/contract\<close> and \<open>dispatch/application/service.go\<close>.
\<close>

record told_place =
  tp_name :: string
  tp_phone :: string
  tp_single_line :: string
  tp_lat :: f64
  tp_lng :: f64

record told_line =
  tl_name :: string
  tl_quantity :: int64
  tl_item_id :: string

record told_event =
  te_status :: order_status
  te_actor :: actor
  te_actor_id :: string
  te_reason :: string
  te_at :: instant

record told_order =
  to_id :: string
  to_code :: string
  to_customer_id :: string
  to_merchant_id :: string
  to_status :: order_status
  to_live :: bool
  to_payment :: payment_method
  to_lines :: "told_line list"
  to_count :: int64
  to_subtotal :: money_view
  to_delivery :: money_view
  to_total :: money_view
  to_expanded :: bool
  to_distance_m :: f64
  to_pickup :: told_place
  to_destination :: told_place
  to_events :: "told_event list"
  to_placed_at :: instant
  to_updated_at :: instant

definition told_line_of :: "order_line \<Rightarrow> told_line" where
  "told_line_of l = \<lparr>tl_name = ol_name l, tl_quantity = ol_quantity l, tl_item_id = ol_target_id l\<rparr>"

definition told_event_of :: "order_event \<Rightarrow> told_event" where
  "told_event_of e = \<lparr>te_status = ev_status e, te_actor = ev_actor e, te_actor_id = ev_actor_id e, te_reason = ev_reason e, te_at = ev_at e\<rparr>"

definition told_order_of :: "order \<Rightarrow> told_order" where
  "told_order_of x =
     \<lparr>to_id = o_id x, to_code = o_code x, to_customer_id = o_customer_id x, to_merchant_id = o_merchant_id x,
      to_status = o_status x, to_live = order_is_live (o_status x), to_payment = o_payment x,
      to_lines = map told_line_of (o_lines x), to_count = order_count x,
      to_subtotal = to_money_view (ch_subtotal (o_charges x)), to_delivery = to_money_view (ch_delivery (o_charges x)),
      to_total = to_money_view (ch_total (o_charges x)), to_expanded = ch_expanded (o_charges x),
      to_distance_m = ch_distance_m (o_charges x),
      to_pickup = \<lparr>tp_name = pk_name (o_pickup x), tp_phone = pk_phone (o_pickup x), tp_single_line = pk_single_line (o_pickup x),
        tp_lat = pk_lat (o_pickup x), tp_lng = pk_lng (o_pickup x)\<rparr>,
      to_destination = \<lparr>tp_name = de_recipient (o_destination x), tp_phone = de_phone (o_destination x),
        tp_single_line = de_single_line (o_destination x), tp_lat = de_lat (o_destination x), tp_lng = de_lng (o_destination x)\<rparr>,
      to_events = map told_event_of (o_events x), to_placed_at = o_placed_at x, to_updated_at = o_updated_at x\<rparr>"

definition order_told :: "string \<Rightarrow> (store, told_order) op" where
  "order_told oid = and_then (or_wrap order_not_found_or (order_by_id oid)) (\<lambda>x. ret (told_order_of x))"

definition job_told :: "string \<Rightarrow> (store, job_contract option) op" where
  "job_told oid = and_then (or_wrap dispatch_storage_error (job_for_order oid)) (\<lambda>found. case found of
     None \<Rightarrow> ret None | Some j \<Rightarrow> and_then (job_to_contract j) (\<lambda>c. ret (Some c)))"

end
