(* ===== verification/Evolution.thy ===== *)
theory Evolution
  imports Payment_App Dispatch_App
begin

text \<open>
  What every request promises about the shared store: how each row may change (\<open>evolves\<close>) and
  what holds of the rows of the tables taken together (\<open>store_ok\<close>).  The facts the modules build
  on each other are stated so that they last: once true, they stay true under every change.
\<close>

section \<open>How rows change\<close>

definition same_order :: "order \<Rightarrow> order \<Rightarrow> bool" where
  "same_order x y \<longleftrightarrow> o_id y = o_id x \<and> o_code y = o_code x \<and> o_customer_id y = o_customer_id x \<and>
     o_merchant_id y = o_merchant_id x \<and> o_payment y = o_payment x \<and> o_charges y = o_charges x \<and>
     o_destination y = o_destination x \<and> o_pickup y = o_pickup x"

definition order_evolves :: "order \<Rightarrow> order \<Rightarrow> bool" where
  "order_evolves x y \<longleftrightarrow> same_order x y \<and> o_lines y = o_lines x \<and> prefix (o_events x) (o_events y) \<and>
     order_moves\<^sup>*\<^sup>* (o_status x) (o_status y)"

definition job_evolves :: "job \<Rightarrow> job \<Rightarrow> bool" where
  "job_evolves j k \<longleftrightarrow> j_id k = j_id j \<and> j_order_id k = j_order_id j \<and> j_code k = j_code j \<and>
     j_pickup k = j_pickup j \<and> j_destination k = j_destination j \<and> j_band k = j_band j \<and>
     job_moves\<^sup>*\<^sup>* (j_status j) (j_status k) \<and>
     (j_status j = JobCollected \<longrightarrow> j_partner_id k = j_partner_id j) \<and>
     (job_terminal (j_status j) \<longrightarrow> k = j)"

definition partner_evolves :: "partner \<Rightarrow> partner \<Rightarrow> bool" where
  "partner_evolves p q \<longleftrightarrow> p_id q = p_id p \<and> p_user_id q = p_user_id p \<and>
     p_offered p \<le> p_offered q \<and> p_accepted p \<le> p_accepted q"

definition same_payment :: "payment \<Rightarrow> payment \<Rightarrow> bool" where
  "same_payment p q \<longleftrightarrow> pay_id q = pay_id p \<and> pay_order_id q = pay_order_id p \<and>
     pay_customer_id q = pay_customer_id p \<and> pay_reference q = pay_reference p \<and> pay_amount q = pay_amount p"

definition payment_evolves :: "payment \<Rightarrow> payment \<Rightarrow> bool" where
  "payment_evolves p q \<longleftrightarrow> same_payment p q \<and> pay_moves\<^sup>*\<^sup>* (pay_status p) (pay_status q)"

definition collection_evolves :: "collection \<Rightarrow> collection \<Rightarrow> bool" where
  "collection_evolves c d \<longleftrightarrow> co_id d = co_id c \<and> co_order_id d = co_order_id c \<and>
     co_partner_id d = co_partner_id c \<and> co_amount d = co_amount c \<and> co_collected_at d = co_collected_at c \<and>
     (d = c \<or> (co_status c = CashHeld \<and> co_status d = CashRemitted \<and> co_remittance_ref d \<noteq> []))"

definition ticket_evolves :: "ticket \<Rightarrow> ticket \<Rightarrow> bool" where
  "ticket_evolves t u \<longleftrightarrow> tk_id u = tk_id t \<and> tk_order_id u = tk_order_id t \<and> tk_raised_by u = tk_raised_by t \<and>
     tk_subject u = tk_subject t"

definition rows_evolve :: "('a \<Rightarrow> 'a \<Rightarrow> bool) \<Rightarrow> 'a list \<Rightarrow> 'a list \<Rightarrow> bool" where
  "rows_evolve rel xs ys \<longleftrightarrow> (\<forall>x\<in>set xs. \<exists>y\<in>set ys. rel x y)"

definition evolves :: "store \<Rightarrow> store \<Rightarrow> bool" where
  "evolves s t \<longleftrightarrow>
     rows_evolve order_evolves (s_orders s) (s_orders t) \<and>
     rows_evolve job_evolves (s_jobs s) (s_jobs t) \<and>
     rows_evolve partner_evolves (s_partners s) (s_partners t) \<and>
     rows_evolve payment_evolves (s_payments s) (s_payments t) \<and>
     rows_evolve collection_evolves (s_collections s) (s_collections t) \<and>
     prefix (s_order_keys s) (s_order_keys t) \<and>
     prefix (s_reviews s) (s_reviews t) \<and>
     rows_evolve ticket_evolves (s_tickets s) (s_tickets t)"

lemma order_evolves_refl: "order_evolves x x"
  by (simp add: order_evolves_def same_order_def)

lemma order_evolves_trans: "order_evolves x y \<Longrightarrow> order_evolves y z \<Longrightarrow> order_evolves x z"
  unfolding order_evolves_def same_order_def by (auto intro: prefix_order.trans rtranclp_trans)

lemma job_evolves_refl: "job_evolves j j"
  by (simp add: job_evolves_def)

lemma job_stuck: "job_moves\<^sup>*\<^sup>* a b \<Longrightarrow> job_terminal a \<Longrightarrow> b = a"
  by (induction rule: converse_rtranclp_induct) (auto simp: job_terminal_stuck)

lemma job_moves_collected: "job_moves JobCollected b \<Longrightarrow> job_terminal b"
  by (auto simp: job_moves_def job_terminal_def)

lemma job_after_collected:
  assumes "job_moves\<^sup>*\<^sup>* JobCollected b"
  shows "b = JobCollected \<or> job_terminal b"
  using assms
proof (cases rule: converse_rtranclpE)
  case (step c)
  then show ?thesis using job_moves_collected job_stuck by blast
qed simp

lemma job_evolves_trans: "job_evolves j k \<Longrightarrow> job_evolves k l \<Longrightarrow> job_evolves j l"
proof -
  assume a: "job_evolves j k" and b: "job_evolves k l"
  have "job_terminal (j_status j) \<longrightarrow> l = j" using a b by (auto simp: job_evolves_def)
  moreover have "j_partner_id l = j_partner_id j" if "j_status j = JobCollected"
  proof -
    have "j_partner_id k = j_partner_id j" using that a by (simp add: job_evolves_def)
    moreover have "j_status k = JobCollected \<or> job_terminal (j_status k)"
      using that a job_after_collected by (auto simp: job_evolves_def)
    then have "j_partner_id l = j_partner_id k" using b by (auto simp: job_evolves_def)
    ultimately show ?thesis by simp
  qed
  moreover have "job_moves\<^sup>*\<^sup>* (j_status j) (j_status l)"
    using a b by (auto simp: job_evolves_def intro: rtranclp_trans)
  ultimately show ?thesis using a b by (simp add: job_evolves_def)
qed

lemma partner_evolves_refl: "partner_evolves p p"
  by (simp add: partner_evolves_def)

lemma partner_evolves_trans: "partner_evolves p q \<Longrightarrow> partner_evolves q r \<Longrightarrow> partner_evolves p r"
  by (auto simp: partner_evolves_def)

lemma payment_evolves_refl: "payment_evolves p p"
  by (simp add: payment_evolves_def same_payment_def)

lemma payment_evolves_trans: "payment_evolves p q \<Longrightarrow> payment_evolves q r \<Longrightarrow> payment_evolves p r"
  unfolding payment_evolves_def same_payment_def by (auto intro: rtranclp_trans)

lemma collection_evolves_refl: "collection_evolves c c"
  by (simp add: collection_evolves_def)

lemma collection_evolves_trans: "collection_evolves c d \<Longrightarrow> collection_evolves d e \<Longrightarrow> collection_evolves c e"
  by (auto simp: collection_evolves_def)

lemma ticket_evolves_refl: "ticket_evolves t t"
  by (simp add: ticket_evolves_def)

lemma ticket_evolves_trans: "ticket_evolves t u \<Longrightarrow> ticket_evolves u v \<Longrightarrow> ticket_evolves t v"
  by (simp add: ticket_evolves_def)

lemma rows_refl: "(\<And>x. rel x x) \<Longrightarrow> rows_evolve rel xs xs"
  by (auto simp: rows_evolve_def)

lemma rows_trans:
  "(\<And>x y z. rel x y \<Longrightarrow> rel y z \<Longrightarrow> rel x z) \<Longrightarrow> rows_evolve rel xs ys \<Longrightarrow> rows_evolve rel ys zs \<Longrightarrow>
     rows_evolve rel xs zs"
  unfolding rows_evolve_def by meson

lemma rows_append: "(\<And>x. rel x x) \<Longrightarrow> rows_evolve rel xs (xs @ [x])"
  by (auto simp: rows_evolve_def)

lemma rows_map: "(\<And>x. x \<in> set xs \<Longrightarrow> rel x (f x)) \<Longrightarrow> rows_evolve rel xs (map f xs)"
  by (auto simp: rows_evolve_def)

lemmas evolves_refls = order_evolves_refl job_evolves_refl partner_evolves_refl payment_evolves_refl
  collection_evolves_refl ticket_evolves_refl

lemma evolves_refl: "evolves s s"
  by (simp add: evolves_def rows_refl evolves_refls)

lemma evolves_trans: "evolves s t \<Longrightarrow> evolves t u \<Longrightarrow> evolves s u"
  unfolding evolves_def
  by (elim conjE, intro conjI)
    (erule (1) rows_trans [rotated], erule (1) order_evolves_trans, erule (1) rows_trans [rotated],
     erule (1) job_evolves_trans, erule (1) rows_trans [rotated], erule (1) partner_evolves_trans,
     erule (1) rows_trans [rotated], erule (1) payment_evolves_trans, erule (1) rows_trans [rotated],
     erule (1) collection_evolves_trans, erule (1) prefix_order.trans, erule (1) prefix_order.trans,
     erule (1) rows_trans [rotated], erule (1) ticket_evolves_trans)

section \<open>Facts that last\<close>

text \<open>The rider who collected an order's goods, and the one who handed them over.\<close>

definition carried_by :: "store \<Rightarrow> string \<Rightarrow> string \<Rightarrow> bool" where
  "carried_by s oid pid \<longleftrightarrow> (\<exists>j\<in>set (s_jobs s). j_order_id j = oid \<and> j_partner_id j = pid \<and> pid \<noteq> [] \<and>
     (j_status j = JobCollected \<or> job_terminal (j_status j)))"

definition handed_over_by :: "store \<Rightarrow> string \<Rightarrow> string \<Rightarrow> bool" where
  "handed_over_by s oid pid \<longleftrightarrow> (\<exists>j\<in>set (s_jobs s). j_order_id j = oid \<and> j_partner_id j = pid \<and> pid \<noteq> [] \<and>
     j_status j = JobDelivered)"

definition money_taken :: "store \<Rightarrow> string \<Rightarrow> bool" where
  "money_taken s oid \<longleftrightarrow> (\<exists>p\<in>set (s_payments s). pay_order_id p = oid \<and> pay_status p \<in> {PayCaptured, PayRefunded})"

text \<open>The money of an order was given back.\<close>

definition money_back :: "store \<Rightarrow> string \<Rightarrow> bool" where
  "money_back s oid \<longleftrightarrow> (\<exists>p\<in>set (s_payments s). pay_order_id p = oid \<and> pay_status p = PayRefunded)"

text \<open>An order as it was read: the one in the table has come from it.\<close>

definition order_seen :: "order \<Rightarrow> store \<Rightarrow> bool" where
  "order_seen x s \<longleftrightarrow> (\<exists>y\<in>set (s_orders s). same_order x y \<and> o_lines y = o_lines x \<and> set (o_events x) \<subseteq> set (o_events y) \<and>
     order_moves\<^sup>*\<^sup>* (o_status x) (o_status y))"

definition ticket_there :: "ticket \<Rightarrow> store \<Rightarrow> bool" where
  "ticket_there t s \<longleftrightarrow> (\<exists>u\<in>set (s_tickets s). ticket_evolves t u)"

definition order_there :: "order \<Rightarrow> store \<Rightarrow> bool" where
  "order_there x s \<longleftrightarrow> (\<exists>y\<in>set (s_orders s). same_order x y)"

definition reached :: "store \<Rightarrow> string \<Rightarrow> order_status \<Rightarrow> bool" where
  "reached s oid st \<longleftrightarrow> (\<exists>x\<in>set (s_orders s). o_id x = oid \<and> st \<in> ev_status ` set (o_events x))"

definition job_there :: "job \<Rightarrow> store \<Rightarrow> bool" where
  "job_there j s \<longleftrightarrow> (\<exists>k\<in>set (s_jobs s). job_evolves j k)"

definition partner_there :: "partner \<Rightarrow> store \<Rightarrow> bool" where
  "partner_there p s \<longleftrightarrow> (\<exists>q\<in>set (s_partners s). p_id q = p_id p \<and> p_user_id q = p_user_id p)"

definition payment_there :: "payment \<Rightarrow> store \<Rightarrow> bool" where
  "payment_there p s \<longleftrightarrow> (\<exists>q\<in>set (s_payments s). payment_evolves p q)"

text \<open>A delivered cash order, its total and the rider it was handed over by.\<close>

definition cash_due :: "store \<Rightarrow> string \<Rightarrow> string \<Rightarrow> int64 \<Rightarrow> bool" where
  "cash_due s oid pid amount \<longleftrightarrow> (\<exists>x\<in>set (s_orders s). o_id x = oid \<and> o_payment x = PaymentCash \<and>
     m_minor (ch_total (o_charges x)) = amount \<and>
     (\<exists>e\<in>set (o_events x). ev_status e = StatusDelivered \<and> ev_actor_id e = pid))"

lemma rows_evolveD: "rows_evolve rel xs ys \<Longrightarrow> x \<in> set xs \<Longrightarrow> \<exists>y\<in>set ys. rel x y"
  by (auto simp: rows_evolve_def)

lemma carried_by_mono: "evolves s t \<Longrightarrow> carried_by s oid pid \<Longrightarrow> carried_by t oid pid"
proof -
  assume e: "evolves s t" and c: "carried_by s oid pid"
  then obtain j where j: "j \<in> set (s_jobs s)" "j_order_id j = oid" "j_partner_id j = pid" "pid \<noteq> []"
    "j_status j = JobCollected \<or> job_terminal (j_status j)" by (auto simp: carried_by_def)
  obtain k where k: "k \<in> set (s_jobs t)" "job_evolves j k"
    using e j(1) by (auto simp: evolves_def dest: rows_evolveD)
  have "j_order_id k = oid \<and> j_partner_id k = pid \<and> (j_status k = JobCollected \<or> job_terminal (j_status k))"
    using k(2) j job_after_collected [of "j_status k"] by (auto simp: job_evolves_def)
  then show ?thesis using k(1) j(4) by (auto simp: carried_by_def)
qed

lemma handed_over_by_mono: "evolves s t \<Longrightarrow> handed_over_by s oid pid \<Longrightarrow> handed_over_by t oid pid"
  unfolding evolves_def handed_over_by_def
  by (elim conjE bexE, drule (1) rows_evolveD [of job_evolves]) (auto simp: job_evolves_def job_terminal_def)

lemma pay_settled_stays: "pay_moves\<^sup>*\<^sup>* a b \<Longrightarrow> a \<in> {PayCaptured, PayRefunded} \<Longrightarrow> b \<in> {PayCaptured, PayRefunded}"
  by (induction rule: rtranclp_induct) (auto simp: pay_moves_def)

lemma money_taken_mono: "evolves s t \<Longrightarrow> money_taken s oid \<Longrightarrow> money_taken t oid"
proof -
  assume e: "evolves s t" and c: "money_taken s oid"
  then obtain p where p: "p \<in> set (s_payments s)" "pay_order_id p = oid" "pay_status p \<in> {PayCaptured, PayRefunded}"
    unfolding money_taken_def by blast
  obtain q where q: "q \<in> set (s_payments t)" "payment_evolves p q"
    using e p(1) by (auto simp: evolves_def dest: rows_evolveD)
  have "pay_order_id q = oid" "pay_status q \<in> {PayCaptured, PayRefunded}"
    using q(2) p(2) pay_settled_stays [OF _ p(3)] by (auto simp: payment_evolves_def same_payment_def)
  then show ?thesis using q(1) unfolding money_taken_def by blast
qed

lemma pay_refunded_stays: "pay_moves\<^sup>*\<^sup>* a b \<Longrightarrow> a = PayRefunded \<Longrightarrow> b = PayRefunded"
  by (induction rule: rtranclp_induct) (auto simp: pay_moves_def)

lemma money_back_mono: "evolves s t \<Longrightarrow> money_back s oid \<Longrightarrow> money_back t oid"
  unfolding evolves_def money_back_def
  by (elim conjE bexE, drule (1) rows_evolveD [of payment_evolves])
    (auto simp: payment_evolves_def same_payment_def dest: pay_refunded_stays)

lemma order_row_mono:
  "evolves s t \<Longrightarrow> x \<in> set (s_orders s) \<Longrightarrow> \<exists>y\<in>set (s_orders t). order_evolves x y"
  by (auto simp: evolves_def dest: rows_evolveD)

lemma order_there_mono: "evolves s t \<Longrightarrow> order_there x s \<Longrightarrow> order_there x t"
  unfolding order_there_def using order_row_mono by (fastforce simp: order_evolves_def same_order_def)

lemma order_events_mono: "order_evolves x y \<Longrightarrow> set (o_events x) \<subseteq> set (o_events y)"
  by (auto simp: order_evolves_def dest: set_mono_prefix)

lemma reached_mono: "evolves s t \<Longrightarrow> reached s oid st \<Longrightarrow> reached t oid st"
proof -
  assume e: "evolves s t" and "reached s oid st"
  then obtain x where x: "x \<in> set (s_orders s)" "o_id x = oid" "st \<in> ev_status ` set (o_events x)"
    by (auto simp: reached_def)
  obtain y where y: "y \<in> set (s_orders t)" "order_evolves x y" using order_row_mono [OF e x(1)] ..
  have "o_id y = oid" using y(2) x(2) by (simp add: order_evolves_def same_order_def)
  moreover have "st \<in> ev_status ` set (o_events y)" using x(3) order_events_mono [OF y(2)] by auto
  ultimately show ?thesis using y(1) by (auto simp: reached_def)
qed

lemma cash_due_mono: "evolves s t \<Longrightarrow> cash_due s oid pid a \<Longrightarrow> cash_due t oid pid a"
proof -
  assume e: "evolves s t" and "cash_due s oid pid a"
  then obtain x ev where x: "x \<in> set (s_orders s)" "o_id x = oid" "o_payment x = PaymentCash"
      "m_minor (ch_total (o_charges x)) = a"
    and ev: "ev \<in> set (o_events x)" "ev_status ev = StatusDelivered" "ev_actor_id ev = pid"
    by (auto simp: cash_due_def)
  obtain y where y: "y \<in> set (s_orders t)" "order_evolves x y" using order_row_mono [OF e x(1)] ..
  have "ev \<in> set (o_events y)" using ev(1) order_events_mono [OF y(2)] by blast
  then show ?thesis using x y ev unfolding cash_due_def
    by (intro bexI [OF _ y(1)] conjI bexI [of _ ev]) (auto simp: order_evolves_def same_order_def)
qed

lemma job_there_mono: "evolves s t \<Longrightarrow> job_there j s \<Longrightarrow> job_there j t"
  unfolding evolves_def job_there_def rows_evolve_def using job_evolves_trans by meson

lemma partner_there_mono: "evolves s t \<Longrightarrow> partner_there p s \<Longrightarrow> partner_there p t"
  unfolding partner_there_def by (fastforce simp: evolves_def partner_evolves_def dest: rows_evolveD)

lemma payment_there_mono: "evolves s t \<Longrightarrow> payment_there p s \<Longrightarrow> payment_there p t"
  unfolding evolves_def payment_there_def rows_evolve_def using payment_evolves_trans by meson

lemma order_seen_mono: "evolves s t \<Longrightarrow> order_seen x s \<Longrightarrow> order_seen x t"
proof -
  assume e: "evolves s t" and "order_seen x s"
  then obtain y where y: "y \<in> set (s_orders s)" "same_order x y" "o_lines y = o_lines x" "set (o_events x) \<subseteq> set (o_events y)"
    "order_moves\<^sup>*\<^sup>* (o_status x) (o_status y)" by (auto simp: order_seen_def)
  obtain z where z: "z \<in> set (s_orders t)" "order_evolves y z" using order_row_mono [OF e y(1)] ..
  then have "order_moves\<^sup>*\<^sup>* (o_status x) (o_status z)" "set (o_events x) \<subseteq> set (o_events z)"
    using y order_events_mono [OF z(2)] by (auto simp: order_evolves_def intro: rtranclp_trans)
  then show ?thesis using y z unfolding order_seen_def
    by (intro bexI [OF _ z(1)]) (simp add: order_evolves_def same_order_def)
qed

lemma order_seen_there: "order_seen x s \<Longrightarrow> order_there x s"
  by (auto simp: order_seen_def order_there_def)

lemma ticket_there_mono: "evolves s t \<Longrightarrow> ticket_there k s \<Longrightarrow> ticket_there k t"
  unfolding evolves_def ticket_there_def rows_evolve_def using ticket_evolves_trans by meson

section \<open>What holds of the store\<close>

definition event_ok :: "store \<Rightarrow> order \<Rightarrow> order_event \<Rightarrow> bool" where
  "event_ok s x e \<longleftrightarrow>
     (ev_status e = StatusPickedUp \<longrightarrow> ev_actor e = ActorPartner \<and> carried_by s (o_id x) (ev_actor_id e)) \<and>
     (ev_status e = StatusDelivered \<longrightarrow> ev_actor e = ActorPartner \<and> handed_over_by s (o_id x) (ev_actor_id e)) \<and>
     (ev_status e = StatusPlaced \<and> o_payment x = PaymentOnline \<longrightarrow> money_taken s (o_id x))"

definition orders_ok :: "store \<Rightarrow> bool" where
  "orders_ok s \<longleftrightarrow> keyed o_id (s_orders s) \<and> keyed o_code (s_orders s) \<and>
     (\<forall>x\<in>set (s_orders s). order_history_ok x \<and> payment_valid (o_payment x) \<and> (\<forall>e\<in>set (o_events x). event_ok s x e))"

definition job_row_holds :: "store \<Rightarrow> job \<Rightarrow> bool" where
  "job_row_holds s j \<longleftrightarrow> (j_status j = JobCancelled \<or> (j_status j = JobWaiting \<longleftrightarrow> j_partner_id j = [])) \<and>
     (j_partner_id j \<noteq> [] \<longrightarrow> (\<exists>p\<in>set (s_partners s). p_id p = j_partner_id j)) \<and>
     reached s (j_order_id j) StatusReady"

definition jobs_ok :: "store \<Rightarrow> bool" where
  "jobs_ok s \<longleftrightarrow> keyed j_id (s_jobs s) \<and> keyed j_order_id (s_jobs s) \<and> (\<forall>j\<in>set (s_jobs s). job_row_holds s j)"

definition partners_ok :: "store \<Rightarrow> bool" where
  "partners_ok s \<longleftrightarrow> keyed p_id (s_partners s) \<and> keyed p_user_id (s_partners s) \<and>
     (\<forall>p\<in>set (s_partners s). 0 \<le> p_carrying p \<and> 0 \<le> p_offered p \<and> 0 \<le> p_accepted p)"

definition payment_row_holds :: "store \<Rightarrow> payment \<Rightarrow> bool" where
  "payment_row_holds s p \<longleftrightarrow> 0 < m_minor (pay_amount p) \<and>
     (\<exists>x\<in>set (s_orders s). o_id x = pay_order_id p \<and> o_customer_id x = pay_customer_id p \<and>
        o_payment x = PaymentOnline \<and> m_minor (ch_total (o_charges x)) = m_minor (pay_amount p))"

definition pending_once :: "payment list \<Rightarrow> bool" where
  "pending_once ps \<longleftrightarrow> distinct (map pay_order_id (filter (\<lambda>p. pay_status p = PayPending) ps))"

definition payments_ok :: "store \<Rightarrow> bool" where
  "payments_ok s \<longleftrightarrow> keyed pay_id (s_payments s) \<and> keyed pay_reference (s_payments s) \<and>
     pending_once (s_payments s) \<and> (\<forall>p\<in>set (s_payments s). payment_row_holds s p)"

definition collection_row_holds :: "store \<Rightarrow> collection \<Rightarrow> bool" where
  "collection_row_holds s c \<longleftrightarrow> 0 < m_minor (co_amount c) \<and>
     cash_due s (co_order_id c) (co_partner_id c) (m_minor (co_amount c))"

definition collections_ok :: "store \<Rightarrow> bool" where
  "collections_ok s \<longleftrightarrow> keyed co_id (s_collections s) \<and> keyed co_order_id (s_collections s) \<and>
     (\<forall>c\<in>set (s_collections s). collection_row_holds s c)"

definition keys_ok :: "store \<Rightarrow> bool" where
  "keys_ok s \<longleftrightarrow> keyed fst (s_order_keys s) \<and>
     (\<forall>((customer, key), oid)\<in>set (s_order_keys s). \<exists>x\<in>set (s_orders s). o_id x = oid \<and> o_customer_id x = customer)"

text \<open>A review is by the customer of a delivered order, about a party or an item of that order.\<close>

definition subject_of_order :: "order \<Rightarrow> review_subject \<Rightarrow> string \<Rightarrow> bool" where
  "subject_of_order x subject sid \<longleftrightarrow> (case subject of
     SubjectMerchant \<Rightarrow> o_merchant_id x = sid
   | SubjectItem \<Rightarrow> (\<exists>l\<in>set (o_lines x). ol_target_id l = sid)
   | SubjectPartner \<Rightarrow> (\<exists>e\<in>set (o_events x). ev_status e = StatusDelivered \<and> ev_actor e = ActorPartner \<and> ev_actor_id e = sid)
   | OtherSubject _ \<Rightarrow> False)"

definition reviewable :: "store \<Rightarrow> string \<Rightarrow> string \<Rightarrow> review_subject \<Rightarrow> string \<Rightarrow> bool" where
  "reviewable s oid rater subject sid \<longleftrightarrow> (\<exists>x\<in>set (s_orders s). o_id x = oid \<and> o_customer_id x = rater \<and>
     o_status x = StatusDelivered \<and> subject_of_order x subject sid)"

definition reviews_ok :: "store \<Rightarrow> bool" where
  "reviews_ok s \<longleftrightarrow> keyed rw_id (s_reviews s) \<and> keyed review_key (s_reviews s) \<and>
     (\<forall>r\<in>set (s_reviews s). 1 \<le> rw_rating r \<and> rw_rating r \<le> 5 \<and>
        reviewable s (rw_order_id r) (rw_rater_id r) (rw_subject r) (rw_subject_id r))"

definition order_of_customer :: "store \<Rightarrow> string \<Rightarrow> string \<Rightarrow> bool" where
  "order_of_customer s oid c \<longleftrightarrow> (\<exists>x\<in>set (s_orders s). o_id x = oid \<and> o_customer_id x = c)"

definition ticket_row_holds :: "store \<Rightarrow> ticket \<Rightarrow> bool" where
  "ticket_row_holds s t \<longleftrightarrow> order_of_customer s (tk_order_id t) (tk_raised_by t) \<and>
     (tk_status t = TicketResolved \<longrightarrow> tk_agent_id t \<noteq> [] \<and> tk_resolution t \<in> {ResolutionRefunded, ResolutionRejected}) \<and>
     (tk_resolution t = ResolutionRefunded \<longrightarrow> money_back s (tk_order_id t))"

definition tickets_ok :: "store \<Rightarrow> bool" where
  "tickets_ok s \<longleftrightarrow> keyed tk_id (s_tickets s) \<and> (\<forall>t\<in>set (s_tickets s). ticket_row_holds s t)"

definition store_ok :: "store \<Rightarrow> bool" where
  "store_ok s \<longleftrightarrow> orders_ok s \<and> jobs_ok s \<and> partners_ok s \<and> payments_ok s \<and> collections_ok s \<and> keys_ok s \<and>
     reviews_ok s \<and> tickets_ok s"

lemma empty_store_ok: "store_ok empty_store"
  by (simp add: store_ok_def empty_store_def orders_ok_def jobs_ok_def partners_ok_def payments_ok_def
      collections_ok_def keys_ok_def reviews_ok_def tickets_ok_def keyed_def pending_once_def)

text \<open>A table that did not change still fits a store that evolved.\<close>

lemma event_ok_mono: "evolves s t \<Longrightarrow> event_ok s x e \<Longrightarrow> event_ok t x e"
  by (auto simp: event_ok_def carried_by_mono handed_over_by_mono money_taken_mono)

lemma orders_ok_mono: "evolves s t \<Longrightarrow> s_orders t = s_orders s \<Longrightarrow> orders_ok s \<Longrightarrow> orders_ok t"
  by (auto simp: orders_ok_def event_ok_mono)

lemma partner_row_mono: "evolves s t \<Longrightarrow> \<exists>p\<in>set (s_partners s). p_id p = k \<Longrightarrow> \<exists>p\<in>set (s_partners t). p_id p = k"
  by (fastforce simp: evolves_def partner_evolves_def dest: rows_evolveD)

lemma job_row_mono: "evolves s t \<Longrightarrow> job_row_holds s j \<Longrightarrow> job_row_holds t j"
  unfolding job_row_holds_def using partner_row_mono reached_mono by blast

lemma jobs_ok_mono: "evolves s t \<Longrightarrow> s_jobs t = s_jobs s \<Longrightarrow> jobs_ok s \<Longrightarrow> jobs_ok t"
  by (auto simp: jobs_ok_def job_row_mono)

lemma payment_row_mono: "evolves s t \<Longrightarrow> payment_row_holds s p \<Longrightarrow> payment_row_holds t p"
proof -
  assume e: "evolves s t" and p: "payment_row_holds s p"
  then obtain x where x: "x \<in> set (s_orders s)" "o_id x = pay_order_id p" "o_customer_id x = pay_customer_id p"
      "o_payment x = PaymentOnline" "m_minor (ch_total (o_charges x)) = m_minor (pay_amount p)"
    by (auto simp: payment_row_holds_def)
  obtain y where "y \<in> set (s_orders t)" "order_evolves x y" using order_row_mono [OF e x(1)] ..
  then show ?thesis using x p unfolding payment_row_holds_def
    by (intro conjI bexI [of _ y]) (auto simp: order_evolves_def same_order_def)
qed

lemma payments_ok_mono: "evolves s t \<Longrightarrow> s_payments t = s_payments s \<Longrightarrow> payments_ok s \<Longrightarrow> payments_ok t"
  by (auto simp: payments_ok_def payment_row_mono)

lemma collection_row_mono: "evolves s t \<Longrightarrow> collection_row_holds s c \<Longrightarrow> collection_row_holds t c"
  by (auto simp: collection_row_holds_def cash_due_mono)

lemma collections_ok_mono: "evolves s t \<Longrightarrow> s_collections t = s_collections s \<Longrightarrow> collections_ok s \<Longrightarrow> collections_ok t"
  by (auto simp: collections_ok_def collection_row_mono)

lemma key_row_mono:
  "evolves s t \<Longrightarrow> \<exists>x\<in>set (s_orders s). o_id x = k \<and> o_customer_id x = c \<Longrightarrow>
     \<exists>x\<in>set (s_orders t). o_id x = k \<and> o_customer_id x = c"
  using order_row_mono by (fastforce simp: order_evolves_def same_order_def)

lemma keys_ok_mono: "evolves s t \<Longrightarrow> s_order_keys t = s_order_keys s \<Longrightarrow> keys_ok s \<Longrightarrow> keys_ok t"
  by (auto simp: keys_ok_def intro!: key_row_mono [of s t])

lemma subject_of_order_mono: "order_evolves x y \<Longrightarrow> subject_of_order x k sid \<Longrightarrow> subject_of_order y k sid"
  using order_events_mono [of x y]
  by (auto simp: subject_of_order_def order_evolves_def same_order_def split: review_subject.splits)

lemma delivered_stays: "order_moves\<^sup>*\<^sup>* a b \<Longrightarrow> a = StatusDelivered \<Longrightarrow> b = StatusDelivered"
  by (induction rule: rtranclp_induct) (auto simp: order_moves_terminal order_terminal_def)

lemma reviewable_mono: "evolves s t \<Longrightarrow> reviewable s oid c k sid \<Longrightarrow> reviewable t oid c k sid"
proof -
  assume e: "evolves s t" and "reviewable s oid c k sid"
  then obtain x where x: "x \<in> set (s_orders s)" "o_id x = oid" "o_customer_id x = c" "o_status x = StatusDelivered"
    "subject_of_order x k sid" by (auto simp: reviewable_def)
  obtain y where y: "y \<in> set (s_orders t)" "order_evolves x y" using order_row_mono [OF e x(1)] ..
  have "subject_of_order y k sid" by (rule subject_of_order_mono [OF y(2) x(5)])
  moreover have "o_id y = oid" "o_customer_id y = c" "o_status y = StatusDelivered"
    using x y(2) delivered_stays by (auto simp: order_evolves_def same_order_def)
  ultimately show ?thesis using y(1) by (auto simp: reviewable_def)
qed

lemma reviews_ok_mono: "evolves s t \<Longrightarrow> s_reviews t = s_reviews s \<Longrightarrow> reviews_ok s \<Longrightarrow> reviews_ok t"
  by (auto simp: reviews_ok_def reviewable_mono)

lemma order_of_customer_mono: "evolves s t \<Longrightarrow> order_of_customer s oid c \<Longrightarrow> order_of_customer t oid c"
  unfolding order_of_customer_def by (rule key_row_mono)

lemma ticket_row_mono: "evolves s t \<Longrightarrow> ticket_row_holds s k \<Longrightarrow> ticket_row_holds t k"
  by (auto simp: ticket_row_holds_def order_of_customer_mono money_back_mono)

lemma tickets_ok_mono: "evolves s t \<Longrightarrow> s_tickets t = s_tickets s \<Longrightarrow> tickets_ok s \<Longrightarrow> tickets_ok t"
  by (auto simp: tickets_ok_def ticket_row_mono)

lemmas ok_monos = orders_ok_mono jobs_ok_mono payments_ok_mono collections_ok_mono keys_ok_mono reviews_ok_mono tickets_ok_mono

end
