(* ===== verification/Promise.thy ===== *)
theory Promise
  imports Evolution
begin

text \<open>
  The promise every request keeps, and the rules for showing it: \<open>safe K m Q\<close> says that \<open>m\<close>,
  started when the store is in order and the lasting fact \<open>K\<close> holds, keeps the promise if the
  others do, and that \<open>Q\<close> holds of the result it returns.  The second half of the theory shows it
  of the calls that change a table.
\<close>

definition promise :: "store \<Rightarrow> store \<Rightarrow> bool" where
  "promise s t \<longleftrightarrow> (store_ok s \<longrightarrow> evolves s t \<and> store_ok t)"

interpretation promise: guarantee promise any_source
  by unfold_locales (auto simp: promise_def evolves_refl intro: evolves_trans)

definition lasting :: "(store \<Rightarrow> bool) \<Rightarrow> bool" where
  "lasting K \<longleftrightarrow> (\<forall>s t. evolves s t \<longrightarrow> K s \<longrightarrow> K t)"

definition safe :: "(store \<Rightarrow> bool) \<Rightarrow> (store, 'a) op \<Rightarrow> ('a \<Rightarrow> store \<Rightarrow> bool) \<Rightarrow> bool" where
  "safe K m Q \<longleftrightarrow> holds promise (\<lambda>s. store_ok s \<and> K s) m
     (\<lambda>r s. store_ok s \<and> K s \<and> (case r of Inl e \<Rightarrow> True | Inr x \<Rightarrow> Q x s))"

named_theorems lasting_intros

lemma lastingD: "lasting K \<Longrightarrow> evolves s t \<Longrightarrow> K s \<Longrightarrow> K t"
  by (auto simp: lasting_def)

lemma lasting_const [lasting_intros]: "lasting (\<lambda>s. b)"
  by (simp add: lasting_def)

lemma lasting_conj [lasting_intros]: "lasting K \<Longrightarrow> lasting L \<Longrightarrow> lasting (\<lambda>s. K s \<and> L s)"
  by (simp add: lasting_def)

lemma lasting_imp [lasting_intros]: "lasting K \<Longrightarrow> lasting (\<lambda>s. b \<longrightarrow> K s)"
  by (simp add: lasting_def)

lemma lasting_facts [lasting_intros]:
  "lasting (order_there x)" "lasting (\<lambda>s. reached s oid st)" "lasting (job_there j)" "lasting (partner_there p)"
  "lasting (payment_there q)" "lasting (\<lambda>s. carried_by s oid pid)" "lasting (\<lambda>s. handed_over_by s oid pid)"
  "lasting (\<lambda>s. money_taken s oid)" "lasting (\<lambda>s. cash_due s oid pid a)" "lasting (\<lambda>s. money_back s oid)"
  "lasting (order_seen x)" "lasting (ticket_there t)" "lasting (\<lambda>s. reviewable s oid c k sid)" "lasting (\<lambda>s. order_of_customer s oid c)"
  unfolding lasting_def
  by (simp_all add: order_there_mono reached_mono job_there_mono partner_there_mono payment_there_mono
      carried_by_mono handed_over_by_mono money_taken_mono cash_due_mono
      money_back_mono order_seen_mono ticket_there_mono reviewable_mono order_of_customer_mono)

lemma stable_lasting: "lasting K \<Longrightarrow> stable promise (\<lambda>s. store_ok s \<and> K s)"
  by (auto simp: stable_def promise_def lasting_def)

lemma safe_weaken: "safe K m Q \<Longrightarrow> (\<And>x s. store_ok s \<Longrightarrow> K s \<Longrightarrow> Q x s \<Longrightarrow> Q' x s) \<Longrightarrow> safe K m Q'"
  unfolding safe_def by (erule holds_weaken) (auto split: sum.splits)

lemma safe_True: "safe K m Q \<Longrightarrow> safe K m (\<lambda>_ _. True)"
  by (erule safe_weaken) simp

lemma safe_pre: "safe K m Q \<Longrightarrow> (\<And>s. K' s \<Longrightarrow> K s) \<Longrightarrow> lasting K' \<Longrightarrow> safe K m Q"
  by simp

lemma safe_ret: "(\<And>s. store_ok s \<Longrightarrow> K s \<Longrightarrow> Q x s) \<Longrightarrow> safe K (ret x) Q"
  unfolding safe_def by (rule promise.ret) simp

lemma safe_raise: "safe K (raise_err e) Q"
  unfolding safe_def by (rule promise.raise) simp

lemma safe_lift: "(\<And>x s. r = Inr x \<Longrightarrow> store_ok s \<Longrightarrow> K s \<Longrightarrow> Q x s) \<Longrightarrow> safe K (lift_err r) Q"
  unfolding safe_def by (rule promise.lift) (auto split: sum.splits)

lemma safe_bind:
  assumes "safe K m M" "\<And>x. safe (\<lambda>s. K s \<and> M x s) (f x) Q"
  shows "safe K (and_then m f) Q"
  unfolding safe_def
proof (rule promise.bind [where M = "\<lambda>x s. store_ok s \<and> K s \<and> M x s"])
  show "holds promise (\<lambda>s. store_ok s \<and> K s) m (\<lambda>r s. case r of
      Inl e \<Rightarrow> store_ok s \<and> K s \<and> (case (Inl e :: error + 'b) of Inl e \<Rightarrow> True | Inr x \<Rightarrow> Q x s)
    | Inr x \<Rightarrow> store_ok s \<and> K s \<and> M x s)"
    by (rule holds_weaken [OF assms(1) [unfolded safe_def]]) (auto split: sum.splits)
  show "holds promise (\<lambda>s. store_ok s \<and> K s \<and> M x s) (f x)
      (\<lambda>r s. store_ok s \<and> K s \<and> (case r of Inl e \<Rightarrow> True | Inr x \<Rightarrow> Q x s))" for x
    by (rule holds_weaken [OF assms(2) [unfolded safe_def]]) auto
qed

lemma safe_wrap: "safe K m Q \<Longrightarrow> safe K (or_wrap g m) Q"
  unfolding safe_def by (rule promise.or_wrap) (erule holds_weaken, auto split: sum.splits)

lemma safe_attempt: "safe K m Q \<Longrightarrow> safe K (attempt m) (\<lambda>r s. case r of Inl e \<Rightarrow> True | Inr x \<Rightarrow> Q x s)"
  unfolding safe_def by (rule promise.attempt) (erule holds_weaken, auto split: sum.splits)

lemma safe_ignoring: "safe K m (\<lambda>_ _. True) \<Longrightarrow> safe K (ignoring m) (\<lambda>_ _. True)"
  unfolding safe_def by (rule promise.ignoring) (erule holds_weaken, auto split: sum.splits)

lemma safe_sum:
  "(\<And>e. r = Inl e \<Longrightarrow> safe K (f e) Q) \<Longrightarrow> (\<And>x. r = Inr x \<Longrightarrow> safe K (g x) Q) \<Longrightarrow>
     safe K (case r of Inl e \<Rightarrow> f e | Inr x \<Rightarrow> g x) Q"
  by (cases r) simp_all

lemma safe_option:
  "(r = None \<Longrightarrow> safe K m Q) \<Longrightarrow> (\<And>x. r = Some x \<Longrightarrow> safe K (g x) Q) \<Longrightarrow>
     safe K (case r of None \<Rightarrow> m | Some x \<Rightarrow> g x) Q"
  by (cases r) simp_all

lemma safe_absurd: "(\<And>s. \<not> K s) \<Longrightarrow> safe K m Q"
  by (simp add: safe_def holds_in_def)

lemma safe_clock: "safe K clock_now (\<lambda>_ _. True)"
  unfolding safe_def by (rule promise.clock) simp

lemma safe_fresh: "safe K (fresh_id pre) (\<lambda>_ _. True)"
  unfolding safe_def by (rule promise.fresh) simp

lemma safe_when: "safe K m (\<lambda>_ _. True) \<Longrightarrow> safe K (when_op b m) (\<lambda>_ _. True)"
  by (cases b) (auto intro: safe_ret)

lemma safe_if: "(b \<Longrightarrow> safe K m Q) \<Longrightarrow> (\<not> b \<Longrightarrow> safe K n Q) \<Longrightarrow> safe K (if b then m else n) Q"
  by simp

lemma safe_call:
  assumes "lasting K"
    and "\<And>s r t. store_ok s \<Longrightarrow> K s \<Longrightarrow> f s = (r, t) \<Longrightarrow>
      evolves s t \<and> store_ok t \<and> (\<forall>x. r = Inr x \<longrightarrow> Q x t)"
  shows "safe K (db_call f) Q"
  unfolding safe_def
proof (rule promise.call [OF stable_lasting [OF assms(1)]])
  fix s r t assume s: "store_ok s \<and> K s" "f s = (r, t)"
  have "evolves s t \<and> store_ok t \<and> (\<forall>x. r = Inr x \<longrightarrow> Q x t)"
    using assms(2) s by blast
  then show "promise s t \<and> store_ok t \<and> K t \<and> (case r of Inl e \<Rightarrow> True | Inr x \<Rightarrow> Q x t)"
    using lastingD [OF assms(1), of s t] s(1) by (simp add: promise_def split: sum.split)
qed simp

lemma safe_read:
  assumes "lasting K" "\<And>s x. store_ok s \<Longrightarrow> K s \<Longrightarrow> f s = Inr x \<Longrightarrow> Q x s"
  shows "safe K (db_read f) Q"
  unfolding db_read_def by (rule safe_call [OF assms(1)]) (auto simp: evolves_refl intro: assms(2))

lemma safe_any_read: "lasting K \<Longrightarrow> safe K (db_read f) (\<lambda>_ _. True)"
  by (erule safe_read) simp

lemma safe_map_each:
  assumes "\<And>x. x \<in> set xs \<Longrightarrow> safe K (f x) (\<lambda>_ _. True)"
  shows "safe K (map_each f xs) (\<lambda>_ _. True)"
  using assms
proof (induction xs)
  case Nil
  then show ?case by (auto intro: safe_ret)
next
  case (Cons x xs)
  have "safe K (f x) (\<lambda>_ _. True)" "safe K (map_each f xs) (\<lambda>_ _. True)" using Cons by auto
  then show ?case
    by simp (rule safe_bind, assumption, simp, rule safe_bind, assumption, rule safe_ret, simp)
qed

section \<open>Calls that change a table\<close>

lemma evolves_orders:
  "rows_evolve order_evolves (s_orders s) xs \<Longrightarrow> evolves s (s\<lparr>s_orders := xs\<rparr>)"
  by (simp add: evolves_def rows_refl evolves_refls)

lemma evolves_jobs:
  "rows_evolve job_evolves (s_jobs s) xs \<Longrightarrow> evolves s (s\<lparr>s_jobs := xs\<rparr>)"
  by (simp add: evolves_def rows_refl evolves_refls)

lemma evolves_partners:
  "rows_evolve partner_evolves (s_partners s) xs \<Longrightarrow> evolves s (s\<lparr>s_partners := xs\<rparr>)"
  by (simp add: evolves_def rows_refl evolves_refls)

lemma evolves_payments:
  "rows_evolve payment_evolves (s_payments s) xs \<Longrightarrow> evolves s (s\<lparr>s_payments := xs\<rparr>)"
  by (simp add: evolves_def rows_refl evolves_refls)

lemma evolves_collections:
  "rows_evolve collection_evolves (s_collections s) xs \<Longrightarrow> evolves s (s\<lparr>s_collections := xs\<rparr>)"
  by (simp add: evolves_def rows_refl evolves_refls)

lemma ok_other_tables:
  assumes "evolves s t" "store_ok s"
  shows "s_orders t = s_orders s \<longrightarrow> orders_ok t" "s_jobs t = s_jobs s \<longrightarrow> jobs_ok t"
    "s_payments t = s_payments s \<longrightarrow> payments_ok t" "s_collections t = s_collections s \<longrightarrow> collections_ok t"
    "s_order_keys t = s_order_keys s \<longrightarrow> keys_ok t"
    "s_reviews t = s_reviews s \<longrightarrow> reviews_ok t" "s_tickets t = s_tickets s \<longrightarrow> tickets_ok t" "s_partners t = s_partners s \<longrightarrow> partners_ok t"
  using assms ok_monos [OF assms(1)] by (auto simp: store_ok_def partners_ok_def)

subsection \<open>Orders\<close>

lemma safe_create_order:
  assumes "lasting K" "new_order d = Inr x"
  shows "safe K (create_order x) (\<lambda>_. order_there x)"
  unfolding create_order_def
proof (rule safe_call [OF assms(1)])
  fix s r t assume ok: "store_ok s" and "K s"
    and st: "(if order_insert_ok s x then (Inr (), s\<lparr>s_orders := s_orders s @ [x]\<rparr>) else (Inl constraint_error, s)) = (r, t)"
  have x: "order_history_ok x" "payment_valid (o_payment x)"
    "\<forall>e\<in>set (o_events x). ev_status e = initial_status (o_payment x)"
    using assms(2) new_order_history by (auto simp: new_order_def split: if_splits)
  show "evolves s t \<and> store_ok t \<and> (\<forall>u. r = Inr u \<longrightarrow> order_there x t)"
  proof (cases "order_insert_ok s x")
    case True
    then have t: "t = s\<lparr>s_orders := s_orders s @ [x]\<rparr>" using st by simp
    have ev: "evolves s t" unfolding t by (intro evolves_orders rows_append order_evolves_refl)
    have "event_ok t x e" if "e \<in> set (o_events x)" for e
      using that x(3) by (simp add: event_ok_def initial_status_def)
    then have "orders_ok t"
      using True ok x event_ok_mono [OF ev] by (auto simp: t orders_ok_def store_ok_def order_insert_ok_def)
    then have "store_ok t" using ok_other_tables [OF ev ok] by (simp add: t store_ok_def)
    moreover have "order_there x t" by (auto simp: order_there_def t same_order_def)
    ultimately show ?thesis using ev by simp
  next
    case False
    then show ?thesis using st ok evolves_refl by auto
  qed
qed

text \<open>What entitles a caller to the moves that other modules build on.\<close>

definition warrant :: "string \<Rightarrow> order_status \<Rightarrow> actor \<Rightarrow> string \<Rightarrow> store \<Rightarrow> bool" where
  "warrant oid to a who s \<longleftrightarrow>
     (to = StatusPickedUp \<longrightarrow> a = ActorPartner \<longrightarrow> carried_by s oid who) \<and>
     (to = StatusDelivered \<longrightarrow> a = ActorPartner \<longrightarrow> handed_over_by s oid who) \<and>
     (to = StatusPlaced \<longrightarrow> a = ActorSystem \<longrightarrow> money_taken s oid)"

lemma lasting_warrant [lasting_intros]: "lasting (warrant oid to a who)"
  unfolding warrant_def by (intro lasting_intros)

lemma can_transition_only:
  "can_transition s StatusPickedUp a = None \<Longrightarrow> a = ActorPartner"
  "can_transition s StatusDelivered a = None \<Longrightarrow> a = ActorPartner"
  "can_transition s StatusPlaced a = None \<Longrightarrow> a = ActorSystem"
  by (cases s; cases a; simp add: can_transition_def order_terminal_def)+

lemma order_written_history:
  "order_history_ok row \<Longrightarrow> order_moves (o_status row) (ev_status e) \<Longrightarrow> order_history_ok (order_written e row)"
  by (simp add: order_history_ok_def order_written_def Let_def successively_append_iff)

lemma order_written_evolves:
  "order_moves (o_status row) (ev_status e) \<Longrightarrow> order_evolves row (order_written e row)"
  by (simp add: order_evolves_def same_order_def order_written_def r_into_rtranclp)

lemma safe_append_transition:
  assumes "lasting K" "can_transition frm (ev_status e) (ev_actor e) = None"
    and K: "\<And>s. K s \<Longrightarrow> warrant oid (ev_status e) (ev_actor e) (ev_actor_id e) s"
  shows "safe K (append_transition oid frm e)
    (\<lambda>_ s. \<exists>x\<in>set (s_orders s). o_id x = oid \<and> e \<in> set (o_events x))"
  unfolding append_transition_def
proof (rule safe_call [OF assms(1)])
  fix s r t assume ok: "store_ok s" and "K s"
    and st: "(case tbl_cas o_id o_status oid frm (order_written e) (s_orders s) of
        None \<Rightarrow> (Inl (new_error KindConflict ''order_moved''
                 ''That order has already changed. Please look at it again.''), s)
      | Some xs \<Rightarrow> if ev_id e \<in> all_event_ids s \<or> \<not> order_status_valid (ev_status e) \<or> ev_actor e \<notin> set known_actors
          then (Inl constraint_error, s) else (Inr (), s\<lparr>s_orders := xs\<rparr>)) = (r, t)"
  from ok have o: "orders_ok s" by (simp add: store_ok_def)
  have mv: "order_moves frm (ev_status e)" using assms(2) by (rule can_transition_moves)
  have w: "warrant oid (ev_status e) (ev_actor e) (ev_actor_id e) s" using K \<open>K s\<close> by blast
  show "evolves s t \<and> store_ok t \<and> (\<forall>u. r = Inr u \<longrightarrow> (\<exists>x\<in>set (s_orders t). o_id x = oid \<and> e \<in> set (o_events x)))"
  proof (cases "t = s \<and> (\<forall>u. r \<noteq> Inr u)")
    case True
    then show ?thesis using ok evolves_refl by auto
  next
    case False
    then obtain xs where xs: "tbl_cas o_id o_status oid frm (order_written e) (s_orders s) = Some xs"
      and t: "t = s\<lparr>s_orders := xs\<rparr>"
      using st by (auto split: option.splits if_splits)
    have rows: "rows_evolve order_evolves (s_orders s) xs"
      unfolding rows_evolve_def
      using order_cas.cas_evolves [OF xs, of _ order_evolves] order_evolves_refl order_written_evolves mv by blast
    have ev: "evolves s t" unfolding t by (rule evolves_orders [OF rows])
    have new: "event_ok t (order_written e x) f"
      if x: "x \<in> set (s_orders s)" "o_id x = oid" and f: "f \<in> set (o_events (order_written e x))" for x f
    proof (cases "f = e")
      case True
      have "warrant oid (ev_status e) (ev_actor e) (ev_actor_id e) t"
        using lastingD [OF lasting_warrant ev w] .
      then show ?thesis using True x(2) assms(2) can_transition_only [of frm "ev_actor e"]
        by (auto simp: event_ok_def warrant_def order_written_def)
    next
      case False
      then have "event_ok t x f"
        using f x o event_ok_mono [OF ev] by (auto simp: orders_ok_def order_written_def)
      then show ?thesis by (simp add: event_ok_def order_written_def)
    qed
    have "keyed o_id xs" "keyed o_code xs"
      using o order_cas.cas_keyed [OF xs, of o_id] order_cas.cas_keyed [OF xs, of o_code]
      by (simp_all add: orders_ok_def order_written_def)
    moreover have "order_history_ok y \<and> payment_valid (o_payment y) \<and> (\<forall>f\<in>set (o_events y). event_ok t y f)"
      if "y \<in> set xs" for y
    proof -
      from order_cas.cas_mem [OF xs that] obtain x where x: "x \<in> set (s_orders s)"
        "y = x \<or> (o_id x = oid \<and> o_status x = frm \<and> y = order_written e x)" by blast
      have "order_history_ok x" "payment_valid (o_payment x)" "\<forall>f\<in>set (o_events x). event_ok t x f"
        using o x(1) event_ok_mono [OF ev] by (auto simp: orders_ok_def)
      then show ?thesis using x new order_written_history mv by (auto simp: order_written_def)
    qed
    ultimately have "orders_ok t" by (simp add: orders_ok_def t)
    then have "store_ok t" using ok_other_tables [OF ev ok] by (simp add: t store_ok_def)
    moreover have "\<exists>x\<in>set (s_orders t). o_id x = oid \<and> e \<in> set (o_events x)"
    proof -
      from order_cas.cas_shape [OF xs] obtain x where x: "x \<in> set (s_orders s)" "o_id x = oid" "o_status x = frm"
        and shape: "xs = map (\<lambda>x. if o_id x = oid \<and> o_status x = frm then order_written e x else x) (s_orders s)"
        by blast
      have "order_written e x \<in> set xs" using x unfolding shape by force
      then show ?thesis using x(2) by (intro bexI [of _ "order_written e x"]) (auto simp: t order_written_def)
    qed
    ultimately show ?thesis using ev by simp
  qed
qed

lemma safe_claim_key:
  assumes "lasting K" "\<And>s. K s \<Longrightarrow> order_there x s" "o_customer_id x = customer"
  shows "safe K (claim_idempotency_key customer key (o_id x)) (\<lambda>_ _. True)"
  unfolding claim_idempotency_key_def
proof (rule safe_call [OF assms(1)])
  fix s r t assume ok: "store_ok s" and "K s"
    and st: "(if (customer, key) \<in> fst ` set (s_order_keys s) \<or> o_id x \<notin> o_id ` set (s_orders s)
      then (Inl constraint_error, s) else (Inr (), s\<lparr>s_order_keys := s_order_keys s @ [((customer, key), o_id x)]\<rparr>)) = (r, t)"
  have x: "\<exists>y\<in>set (s_orders s). o_id y = o_id x \<and> o_customer_id y = customer"
    using assms(2) [OF \<open>K s\<close>] assms(3) by (auto simp: order_there_def same_order_def)
  show "evolves s t \<and> store_ok t \<and> (\<forall>u. r = Inr u \<longrightarrow> True)"
  proof (cases "t = s")
    case True
    then show ?thesis using ok evolves_refl by auto
  next
    case False
    then have t: "t = s\<lparr>s_order_keys := s_order_keys s @ [((customer, key), o_id x)]\<rparr>"
      and new: "(customer, key) \<notin> fst ` set (s_order_keys s)" using st by (auto split: if_splits)
    have ev: "evolves s t" by (simp add: t evolves_def rows_refl evolves_refls)
    have "keys_ok s" using ok by (simp add: store_ok_def)
    then have "keys_ok t" using x new by (auto simp: t keys_ok_def)
    then show ?thesis using ev ok_other_tables [OF ev ok] by (simp add: t store_ok_def)
  qed
qed

end
