(* ===== verification/Promise_Calls.thy ===== *)
theory Promise_Calls
  imports Promise
begin

text \<open>
  The calls that change the tables of jobs, partners, payments and collections keep the promise,
  given the lasting facts their callers have established.
\<close>

section \<open>Jobs and partners\<close>

lemma safe_create_job:
  assumes "lasting K" "new_job jid oid code pick dest d b plc now = Inr j"
    and K: "\<And>s. K s \<Longrightarrow> reached s oid StatusReady"
  shows "safe K (create_job j) (\<lambda>_. job_there j)"
  unfolding create_job_def
proof (rule safe_call [OF assms(1)])
  fix s r t assume ok: "store_ok s" and "K s"
    and st: "(if j_id j \<in> j_id ` set (s_jobs s) \<or> j_order_id j \<in> j_order_id ` set (s_jobs s)
      then (Inl (new_error KindConflict ''job_exists'' ''That order is already out for delivery.''), s)
      else (Inr (), s\<lparr>s_jobs := s_jobs s @ [j\<lparr>j_partner_id := [], j_passed_by := [], j_reason := [],
             j_attempts := 0, j_offered_at := zero_time, j_offer_expires_at := zero_time\<rparr>]\<rparr>)) = (r, t)"
  have j: "j\<lparr>j_partner_id := [], j_passed_by := [], j_reason := [], j_attempts := 0,
      j_offered_at := zero_time, j_offer_expires_at := zero_time\<rparr> = j" "j_status j = JobWaiting"
    "j_partner_id j = []" "j_order_id j = oid"
    using assms(2) by (auto simp: new_job_def split: if_splits)
  show "evolves s t \<and> store_ok t \<and> (\<forall>u. r = Inr u \<longrightarrow> job_there j t)"
  proof (cases "r = Inr ()")
    case True
    then have t: "t = s\<lparr>s_jobs := s_jobs s @ [j]\<rparr>" "j_id j \<notin> j_id ` set (s_jobs s)"
      "j_order_id j \<notin> j_order_id ` set (s_jobs s)" using st j(1) by (auto split: if_splits)
    have ev: "evolves s t" unfolding t by (intro evolves_jobs rows_append job_evolves_refl)
    have "job_row_holds t j" using reached_mono [OF ev K [OF \<open>K s\<close>]] j by (simp add: job_row_holds_def)
    moreover have "jobs_ok s" using ok by (simp add: store_ok_def)
    ultimately have "jobs_ok t" using t job_row_mono [OF ev] by (auto simp: jobs_ok_def)
    then have "store_ok t" using ok_other_tables [OF ev ok] by (simp add: t store_ok_def)
    then show ?thesis using ev job_evolves_refl by (auto simp: job_there_def t)
  next
    case False
    then show ?thesis using st ok evolves_refl by (auto split: if_splits)
  qed
qed

text \<open>What a stored job tells the modules that act on it.\<close>

definition job_settled :: "job \<Rightarrow> store \<Rightarrow> bool" where
  "job_settled k s \<longleftrightarrow>
     (j_status k = JobCollected \<longrightarrow> carried_by s (j_order_id k) (j_partner_id k)) \<and>
     (j_status k = JobDelivered \<longrightarrow> handed_over_by s (j_order_id k) (j_partner_id k))"

lemma lasting_job_settled [lasting_intros]: "lasting (job_settled k)"
  unfolding job_settled_def by (intro lasting_intros)

definition job_successor :: "job \<Rightarrow> job \<Rightarrow> bool" where
  "job_successor j k \<longleftrightarrow> j_id k = j_id j \<and> j_order_id k = j_order_id j \<and> job_moves (j_status j) (j_status k) \<and>
     (j_status j = JobCollected \<longrightarrow> j_partner_id k = j_partner_id j)"

lemma job_exec_holder: "job_exec c j = Inr k \<Longrightarrow> j_status j = JobCollected \<Longrightarrow> j_partner_id k = j_partner_id j"
  by (cases c) (auto simp: job_ops_Inr offer_lapsed_def)

lemma job_exec_successor: "job_exec c j = Inr k \<Longrightarrow> job_successor j k"
  unfolding job_successor_def by (intro conjI impI job_exec_moves job_exec_holder) (simp_all add: job_exec_keeps)

lemma job_written_evolves:
  "job_successor j k \<Longrightarrow> job_evolves j r \<Longrightarrow> j_status r = j_status j \<Longrightarrow> job_evolves r (job_written k r)"
  using job_terminal_stuck
  by (auto simp: job_successor_def job_evolves_def job_written_def r_into_rtranclp)

lemma safe_save_job:
  assumes "lasting K" "job_successor j k" and K: "\<And>s. K s \<Longrightarrow> job_there j s"
  shows "safe K (save_job k (j_status j)) (\<lambda>_. job_settled k)"
  unfolding save_job_def
proof (rule safe_call [OF assms(1)])
  fix s r t assume ok: "store_ok s" and "K s"
    and st: "(case tbl_cas j_id j_status (j_id k) (j_status j) (job_written k) (s_jobs s) of
        None \<Rightarrow> (Inl (new_error KindConflict ''job_moved'' ''Somebody else has taken that delivery.''), s)
      | Some js \<Rightarrow> if job_row_ok s k then (Inr (), s\<lparr>s_jobs := js\<rparr>) else (Inl constraint_error, s)) = (r, t)"
  from ok have jobs: "jobs_ok s" by (simp add: store_ok_def)
  obtain now where now: "now \<in> set (s_jobs s)" "job_evolves j now"
    using K [OF \<open>K s\<close>] by (auto simp: job_there_def)
  show "evolves s t \<and> store_ok t \<and> (\<forall>u. r = Inr u \<longrightarrow> job_settled k t)"
  proof (cases "t = s \<and> (\<forall>u. r \<noteq> Inr u)")
    case True
    then show ?thesis using ok evolves_refl by auto
  next
    case False
    then obtain js where js: "tbl_cas j_id j_status (j_id k) (j_status j) (job_written k) (s_jobs s) = Some js"
      and row: "job_row_ok s k" and t: "t = s\<lparr>s_jobs := js\<rparr>"
      using st by (auto split: option.splits if_splits)
    have this_row: "row = now" if "row \<in> set (s_jobs s)" "j_id row = j_id k" for row
      using that now jobs keyed_unique [of j_id "s_jobs s" row now] assms(2)
      by (simp add: jobs_ok_def job_successor_def job_evolves_def)
    have step: "job_evolves row (job_written k row)"
      if "row \<in> set (s_jobs s)" "j_id row = j_id k" "j_status row = j_status j" for row
      using this_row [OF that(1,2)] that(3) now(2) job_written_evolves [OF assms(2)] by simp
    have "rows_evolve job_evolves (s_jobs s) js"
      unfolding rows_evolve_def using job_cas.cas_evolves [OF js, of _ job_evolves] job_evolves_refl step by blast
    then have ev: "evolves s t" unfolding t by (rule evolves_jobs)
    have "keyed j_id js" "keyed j_order_id js"
      using jobs job_cas.cas_keyed [OF js, of j_id] job_cas.cas_keyed [OF js, of j_order_id]
      by (simp_all add: jobs_ok_def job_written_def)
    moreover have "job_row_holds t y" if "y \<in> set js" for y
    proof -
      from job_cas.cas_mem [OF js that] obtain x where x: "x \<in> set (s_jobs s)"
        "y = x \<or> (j_id x = j_id k \<and> j_status x = j_status j \<and> y = job_written k x)" by blast
      have "job_row_holds s x" using jobs x(1) by (simp add: jobs_ok_def)
      then have "job_row_holds t x" by (rule job_row_mono [OF ev])
      moreover have "\<exists>p\<in>set (s_partners t). p_id p = j_partner_id k" if "j_partner_id k \<noteq> []"
        using row that by (auto simp: job_row_ok_def t)
      ultimately show ?thesis using x(2) row by (auto simp: job_row_holds_def job_written_def job_row_ok_def)
    qed
    ultimately have "jobs_ok t" by (simp add: jobs_ok_def t)
    then have "store_ok t" using ok_other_tables [OF ev ok] by (simp add: t store_ok_def)
    moreover have "job_settled k t"
    proof -
      from job_cas.cas_shape [OF js] obtain x where x: "x \<in> set (s_jobs s)" "j_id x = j_id k" "j_status x = j_status j"
        and shape: "js = map (\<lambda>x. if j_id x = j_id k \<and> j_status x = j_status j then job_written k x else x) (s_jobs s)"
        by blast
      have "job_written k x \<in> set (s_jobs t)" using x unfolding t shape by force
      moreover have "j_order_id (job_written k x) = j_order_id k"
        using this_row [OF x(1,2)] now(2) assms(2) by (simp add: job_written_def job_successor_def job_evolves_def)
      moreover have "j_partner_id k \<noteq> []" if "j_status k = JobCollected \<or> j_status k = JobDelivered"
        using row that by (auto simp: job_row_ok_def)
      ultimately show ?thesis unfolding job_settled_def carried_by_def handed_over_by_def
        by (intro conjI impI bexI [of _ "job_written k x"]) (auto simp: job_written_def)
    qed
    ultimately show ?thesis using ev by simp
  qed
qed

lemma safe_save_partner: "lasting K \<Longrightarrow> safe K (save_partner p) (\<lambda>_ _. True)"
  unfolding save_partner_def
proof (erule safe_call)
  fix s r t assume ok: "store_ok s"
    and st: "(if p_carrying p < 0 then (Inl constraint_error, s)
     else if p_id p \<in> p_id ` set (s_partners s)
       then (Inr (), s\<lparr>s_partners := tbl_set p_id (p_id p) (partner_written p) (s_partners s)\<rparr>)
     else if p_user_id p \<in> p_user_id ` set (s_partners s) then (Inl constraint_error, s)
     else (Inr (), s\<lparr>s_partners := s_partners s @ [p\<lparr>p_offered := 0, p_accepted := 0\<rparr>]\<rparr>)) = (r, t)"
  have P: "partners_ok s" using ok by (simp add: store_ok_def)
  let ?f = "\<lambda>x. if p_id x = p_id p then partner_written p x else x"
  consider "t = s" | "0 \<le> p_carrying p" "t = s\<lparr>s_partners := map ?f (s_partners s)\<rparr>"
    | "0 \<le> p_carrying p" "p_id p \<notin> p_id ` set (s_partners s)" "p_user_id p \<notin> p_user_id ` set (s_partners s)"
      "t = s\<lparr>s_partners := s_partners s @ [p\<lparr>p_offered := 0, p_accepted := 0\<rparr>]\<rparr>"
    using st by (auto simp: tbl_set_def split: if_splits)
  then show "evolves s t \<and> store_ok t \<and> (\<forall>x. r = Inr x \<longrightarrow> True)"
  proof cases
    case 2
    have ev: "evolves s t" unfolding 2
      by (intro evolves_partners rows_map) (simp add: partner_evolves_def partner_written_def)
    have "keyed p_id (map ?f (s_partners s))" "keyed p_user_id (map ?f (s_partners s))"
      using P by (auto simp: partners_ok_def partner_written_def intro!: keyed_map)
    then have "partners_ok t" using P 2 by (auto simp: partners_ok_def partner_written_def)
    then show ?thesis using ev ok_other_tables [OF ev ok] by (simp add: store_ok_def 2)
  next
    case 3
    have ev: "evolves s t" unfolding 3(4) by (intro evolves_partners rows_append partner_evolves_refl)
    have "partners_ok t" using P 3 by (auto simp: partners_ok_def)
    then show ?thesis using ev ok_other_tables [OF ev ok] by (simp add: store_ok_def 3(4))
  qed (use ok evolves_refl in auto)
qed

lemma safe_record_offer: "lasting K \<Longrightarrow> safe K (record_offer pid accepted) (\<lambda>_ _. True)"
  unfolding record_offer_def
proof (erule safe_call)
  fix s r t assume ok: "store_ok s"
  let ?f = "\<lambda>x. if p_id x = pid then x\<lparr>p_offered := p_offered x + (if accepted then 0 else 1),
     p_accepted := p_accepted x + (if accepted then 1 else 0)\<rparr> else x"
  assume "(Inr (), s\<lparr>s_partners := tbl_set p_id pid (\<lambda>p. p\<lparr>p_offered := p_offered p + (if accepted then 0 else 1),
     p_accepted := p_accepted p + (if accepted then 1 else 0)\<rparr>) (s_partners s)\<rparr>) = (r, t)"
  then have t: "t = s\<lparr>s_partners := map ?f (s_partners s)\<rparr>" by (simp add: tbl_set_def)
  have P: "partners_ok s" using ok by (simp add: store_ok_def)
  have ev: "evolves s t" unfolding t by (intro evolves_partners rows_map) (simp add: partner_evolves_def)
  have "keyed p_id (map ?f (s_partners s))" "keyed p_user_id (map ?f (s_partners s))"
    using P by (auto simp: partners_ok_def intro!: keyed_map)
  then have "partners_ok t" using P t by (auto simp: partners_ok_def)
  then show "evolves s t \<and> store_ok t \<and> (\<forall>x. r = Inr x \<longrightarrow> True)"
    using ev ok_other_tables [OF ev ok] by (simp add: store_ok_def t)
qed

section \<open>Payments and collections\<close>

lemma safe_create_payment:
  assumes "lasting K" "pay_status p = PayPending" "pay_order_id p = o_id x" "pay_customer_id p = o_customer_id x"
    "o_payment x = PaymentOnline" "m_minor (pay_amount p) = m_minor (ch_total (o_charges x))"
    and K: "\<And>s. K s \<Longrightarrow> order_there x s"
  shows "safe K (create_payment p) (\<lambda>_ _. True)"
  unfolding create_payment_def
proof (rule safe_call [OF assms(1)])
  let ?q = "p\<lparr>pay_failure_reason := [], pay_refund_reason := []\<rparr>"
  fix s r t assume ok: "store_ok s" and "K s"
    and st: "(if pay_id p \<in> pay_id ` set (s_payments s) \<or> pay_reference p \<in> pay_reference ` set (s_payments s) \<or>
        (pay_status p = PayPending \<and>
         list_ex (\<lambda>q. pay_order_id q = pay_order_id p \<and> pay_status q = PayPending) (s_payments s))
     then (Inl (new_error KindConflict ''checkout_in_progress''
             ''A checkout for that order is already in progress.''), s)
     else if m_minor (pay_amount p) \<le> 0 then (Inl constraint_error, s)
     else (Inr (), s\<lparr>s_payments := s_payments s @ [?q]\<rparr>)) = (r, t)"
  show "evolves s t \<and> store_ok t \<and> (\<forall>u. r = Inr u \<longrightarrow> True)"
  proof (cases "r = Inr ()")
    case True
    then have t: "t = s\<lparr>s_payments := s_payments s @ [?q]\<rparr>" "0 < m_minor (pay_amount p)"
      "pay_id p \<notin> pay_id ` set (s_payments s)" "pay_reference p \<notin> pay_reference ` set (s_payments s)"
      "\<forall>q\<in>set (s_payments s). pay_status q = PayPending \<longrightarrow> pay_order_id q \<noteq> pay_order_id p"
      using st assms(2) by (auto simp: list_ex_iff split: if_splits)
    have ev: "evolves s t" unfolding t by (intro evolves_payments rows_append payment_evolves_refl)
    obtain y where y: "y \<in> set (s_orders s)" "same_order x y" using K [OF \<open>K s\<close>] by (auto simp: order_there_def)
    have "payment_row_holds t ?q" unfolding payment_row_holds_def
      using assms(3-6) t(1,2) y by (intro conjI bexI [of _ y]) (auto simp: same_order_def)
    moreover have P: "payments_ok s" using ok by (simp add: store_ok_def)
    moreover have "pending_once (s_payments s @ [?q])"
      using P t(5) assms(2) by (auto simp: payments_ok_def pending_once_def)
    ultimately have "payments_ok t"
      using t payment_row_mono [OF ev] by (auto simp: payments_ok_def)
    then show ?thesis using ev ok_other_tables [OF ev ok] by (simp add: t store_ok_def)
  next
    case False
    then show ?thesis using st ok evolves_refl by (auto split: if_splits)
  qed
qed

definition pay_successor :: "payment \<Rightarrow> payment \<Rightarrow> bool" where
  "pay_successor p q \<longleftrightarrow> same_payment p q \<and> pay_moves (pay_status p) (pay_status q)"

lemma pay_exec_successor: "pay_exec c p = Inr q \<Longrightarrow> pay_successor p q"
  by (cases c) (auto simp: pay_successor_def same_payment_def pay_ops_Inr pay_moves_def)

lemma filter_map_keep: "(\<And>x. P (f x) \<Longrightarrow> f x = x) \<Longrightarrow> filter P (map f xs) = filter (\<lambda>x. P (f x)) (filter P xs)"
proof (induction xs)
  case (Cons x xs)
  have "P (f x) \<Longrightarrow> P x" using Cons.prems by metis
  then show ?case using Cons by auto
qed simp

lemma safe_save_payment_row:
  assumes "lasting K" "pay_successor p q" and K: "\<And>s. K s \<Longrightarrow> payment_there p s"
  shows "safe K (save_payment q (pay_status p)) (\<lambda>_ s. \<exists>y\<in>set (s_payments s). pay_order_id y = pay_order_id q \<and> pay_status y = pay_status q)"
  unfolding save_payment_def
proof (rule safe_call [OF assms(1)])
  fix s r t assume ok: "store_ok s" and "K s"
    and st: "(case tbl_cas pay_id pay_status (pay_id q) (pay_status p) (payment_written q) (s_payments s) of
        None \<Rightarrow> (Inl (new_error KindConflict ''payment_moved'' ''That payment has already moved on.''), s)
      | Some ps \<Rightarrow> (Inr (), s\<lparr>s_payments := ps\<rparr>)) = (r, t)"
  from ok have P: "payments_ok s" by (simp add: store_ok_def)
  obtain now where now: "now \<in> set (s_payments s)" "payment_evolves p now"
    using K [OF \<open>K s\<close>] by (auto simp: payment_there_def)
  show "evolves s t \<and> store_ok t \<and> (\<forall>u. r = Inr u \<longrightarrow> (\<exists>y\<in>set (s_payments t). pay_order_id y = pay_order_id q \<and> pay_status y = pay_status q))"
  proof (cases "t = s \<and> (\<forall>u. r \<noteq> Inr u)")
    case True
    then show ?thesis using ok evolves_refl by auto
  next
    case False
    then obtain ps where ps: "tbl_cas pay_id pay_status (pay_id q) (pay_status p) (payment_written q) (s_payments s) = Some ps"
      and t: "t = s\<lparr>s_payments := ps\<rparr>"
      using st by (auto split: option.splits)
    note shape = conjunct1 [OF payment_cas.cas_shape [OF ps]]
    have mv: "pay_moves (pay_status p) (pay_status q)" using assms(2) by (simp add: pay_successor_def)
    have "rows_evolve payment_evolves (s_payments s) ps"
      unfolding shape by (rule rows_map)
        (use mv in \<open>auto simp: payment_evolves_def same_payment_def payment_written_def\<close>)
    then have ev: "evolves s t" unfolding t by (rule evolves_payments)
    have "keyed pay_id ps" "keyed pay_reference ps"
      using P payment_cas.cas_keyed [OF ps, of pay_id] payment_cas.cas_keyed [OF ps, of pay_reference]
      by (simp_all add: payments_ok_def payment_written_def)
    moreover have "pending_once ps"
    proof -
      have np: "pay_status q \<noteq> PayPending" using mv by (auto simp: pay_moves_def)
      show ?thesis unfolding pending_once_def shape
      proof (subst filter_map_keep, goal_cases)
        case 2
        show ?case using P by (rule_tac distinct_map_filter) (simp add: payments_ok_def pending_once_def)
      qed (use np in \<open>auto simp: payment_written_def split: if_splits\<close>)
    qed
    moreover have "payment_row_holds t y" if "y \<in> set ps" for y
    proof -
      from payment_cas.cas_mem [OF ps that] obtain x where x: "x \<in> set (s_payments s)"
        "y = x \<or> y = payment_written q x" by blast
      have "payment_row_holds t x" using P x(1) payment_row_mono [OF ev] by (simp add: payments_ok_def)
      then show ?thesis using x(2) by (auto simp: payment_row_holds_def payment_written_def)
    qed
    ultimately have "payments_ok t" by (simp add: payments_ok_def t)
    then have "store_ok t" using ok_other_tables [OF ev ok] by (simp add: t store_ok_def)
    moreover have "\<exists>y\<in>set (s_payments t). pay_order_id y = pay_order_id q \<and> pay_status y = pay_status q"
    proof -
      obtain x where x: "x \<in> set (s_payments s)" "pay_id x = pay_id q" "pay_status x = pay_status p"
        using payment_cas.cas_shape [OF ps] by blast
      have "x = now"
        using x now P keyed_unique [of pay_id "s_payments s" x now] assms(2)
        by (simp add: payments_ok_def pay_successor_def payment_evolves_def same_payment_def)
      then have "pay_order_id x = pay_order_id q"
        using now(2) assms(2) by (simp add: payment_evolves_def same_payment_def pay_successor_def)
      moreover have "payment_written q x \<in> set (s_payments t)" using x unfolding t shape by force
      ultimately show ?thesis
        by (intro bexI [of _ "payment_written q x"]) (auto simp: payment_written_def)
    qed
    ultimately show ?thesis using ev by simp
  qed
qed

lemma safe_save_payment:
  assumes "lasting K" "pay_successor p q" and K: "\<And>s. K s \<Longrightarrow> payment_there p s"
  shows "safe K (save_payment q (pay_status p)) (\<lambda>_ s. pay_status q = PayCaptured \<longrightarrow> money_taken s (pay_order_id q))"
  by (rule safe_weaken [OF safe_save_payment_row [OF assms(1,2)]]) (use K in \<open>auto simp: money_taken_def\<close>)

lemma safe_create_collection:
  assumes "lasting K" and K: "\<And>s. K s \<Longrightarrow> cash_due s (co_order_id c) (co_partner_id c) (m_minor (co_amount c))"
  shows "safe K (create_collection c) (\<lambda>_ _. True)"
  unfolding create_collection_def
proof (rule safe_call [OF assms(1)])
  let ?d = "c\<lparr>co_remittance_ref := [], co_remitted_at := zero_time\<rparr>"
  fix s r t assume ok: "store_ok s" and "K s"
    and st: "(if co_id c \<in> co_id ` set (s_collections s) \<or> co_order_id c \<in> co_order_id ` set (s_collections s)
     then (Inl (new_error KindConflict ''collection_exists'' ''That order's cash has already been recorded.''), s)
     else if m_minor (co_amount c) \<le> 0 then (Inl constraint_error, s)
     else (Inr (), s\<lparr>s_collections := s_collections s @ [?d]\<rparr>)) = (r, t)"
  show "evolves s t \<and> store_ok t \<and> (\<forall>u. r = Inr u \<longrightarrow> True)"
  proof (cases "r = Inr ()")
    case True
    then have t: "t = s\<lparr>s_collections := s_collections s @ [?d]\<rparr>" "0 < m_minor (co_amount c)"
      "co_id c \<notin> co_id ` set (s_collections s)" "co_order_id c \<notin> co_order_id ` set (s_collections s)"
      using st by (auto split: if_splits)
    have ev: "evolves s t" unfolding t by (intro evolves_collections rows_append collection_evolves_refl)
    have "collection_row_holds t ?d"
      using t(2) cash_due_mono [OF ev K [OF \<open>K s\<close>]] by (simp add: collection_row_holds_def)
    moreover have "collections_ok s" using ok by (simp add: store_ok_def)
    ultimately have "collections_ok t"
      using t collection_row_mono [OF ev] by (auto simp: collections_ok_def)
    then show ?thesis using ev ok_other_tables [OF ev ok] by (simp add: t store_ok_def)
  next
    case False
    then show ?thesis using st ok evolves_refl by (auto split: if_splits)
  qed
qed

lemma remit_rows_evolve:
  "remit_rows pid ref now cids cs = Inr ds \<Longrightarrow> ref \<noteq> [] \<Longrightarrow>
     list_all2 collection_evolves cs ds"
proof (induction cids arbitrary: cs)
  case Nil
  then show ?case by (simp add: list_all2_refl collection_evolves_refl)
next
  case (Cons cid cids)
  let ?f = "\<lambda>c. if co_id c = cid \<and> co_partner_id c = pid \<and> co_status c = CashHeld
    then c\<lparr>co_status := CashRemitted, co_remittance_ref := ref, co_remitted_at := now, co_updated_at := now\<rparr> else c"
  have "list_all2 collection_evolves (map ?f cs) ds"
    using Cons.prems Cons.IH by (auto split: if_splits)
  moreover have "list_all2 collection_evolves cs (map ?f cs)"
    using Cons.prems(2) by (auto simp: list_all2_conv_all_nth collection_evolves_def)
  ultimately show ?case using list_all2_trans [of collection_evolves collection_evolves collection_evolves]
      collection_evolves_trans by blast
qed

lemma list_all2_keys:
  "list_all2 collection_evolves cs ds \<Longrightarrow> map co_id ds = map co_id cs \<and> map co_order_id ds = map co_order_id cs"
  by (induction rule: list_all2_induct) (auto simp: collection_evolves_def)

lemma list_all2_some: "list_all2 P xs ys \<Longrightarrow> x \<in> set xs \<Longrightarrow> \<exists>y\<in>set ys. P x y"
  by (induction rule: list_all2_induct) auto

lemma safe_remit:
  assumes "lasting K" "ref \<noteq> []"
  shows "safe K (remit_collections pid cids ref now) (\<lambda>_ _. True)"
  unfolding remit_collections_def
proof (rule safe_call [OF assms(1)])
  fix s r t assume ok: "store_ok s" and "K s"
    and st: "(case remit_rows pid ref now cids (s_collections s) of
       Inl e \<Rightarrow> (Inl e, s) | Inr cs \<Rightarrow> (Inr (), s\<lparr>s_collections := cs\<rparr>)) = (r, t)"
  show "evolves s t \<and> store_ok t \<and> (\<forall>u. r = Inr u \<longrightarrow> True)"
  proof (cases "remit_rows pid ref now cids (s_collections s)")
    case (Inl e)
    then show ?thesis using st ok evolves_refl by auto
  next
    case (Inr cs)
    then have t: "t = s\<lparr>s_collections := cs\<rparr>" using st by simp
    have all2: "list_all2 collection_evolves (s_collections s) cs" by (rule remit_rows_evolve [OF Inr assms(2)])
    have ev: "evolves s t" unfolding t
      by (rule evolves_collections) (use all2 list_all2_some in \<open>auto simp: rows_evolve_def\<close>)
    have C: "collections_ok s" using ok by (simp add: store_ok_def)
    then have "keyed co_id cs" "keyed co_order_id cs"
      using list_all2_keys [OF all2] by (simp_all add: collections_ok_def keyed_def)
    moreover have "collection_row_holds t d" if d: "d \<in> set cs" for d
    proof -
      obtain c where c: "c \<in> set (s_collections s)" "collection_evolves c d"
        using all2 d list_all2_some [of "\<lambda>a b. collection_evolves b a" cs "s_collections s" d]
        by (auto simp: list_all2_conv_all_nth)
      have "collection_row_holds t c" using C c(1) collection_row_mono [OF ev] by (simp add: collections_ok_def)
      then show ?thesis using c(2) by (auto simp: collection_row_holds_def collection_evolves_def)
    qed
    ultimately have "collections_ok t" by (simp add: collections_ok_def t)
    then show ?thesis using ev ok_other_tables [OF ev ok] by (simp add: t store_ok_def)
  qed
qed

lemma safe_free_tables:
  assumes "lasting K" "\<And>s. f s = (Inr (), s\<lparr>s_carts := cs s, s_notes := ns s\<rparr>)"
  shows "safe K (db_call f) (\<lambda>_ _. True)"
proof (rule safe_call [OF assms(1)])
  fix s r t assume ok: "store_ok s" and "f s = (r, t)"
  then have t: "t = s\<lparr>s_carts := cs s, s_notes := ns s\<rparr>" using assms(2) [of s] by simp
  have ev: "evolves s t" by (simp add: t evolves_def rows_refl evolves_refls)
  then show "evolves s t \<and> store_ok t \<and> (\<forall>x. r = Inr x \<longrightarrow> True)"
    using ok ok_other_tables [OF ev ok] by (simp add: t store_ok_def)
qed

lemma safe_notify: "lasting K \<Longrightarrow> safe K (notify n) (\<lambda>_ _. True)"
  unfolding notify_def
  by (erule safe_free_tables [where cs = s_carts and ns = "\<lambda>s. s_notes s @ [n]"]) simp

lemma safe_clear_cart: "lasting K \<Longrightarrow> safe K (clear_cart c) (\<lambda>_ _. True)"
  unfolding clear_cart_def
  by (erule safe_free_tables [where ns = s_notes and cs = "\<lambda>s. filter (\<lambda>x. fst x \<noteq> c) (s_carts s)"]) simp

end
