(* ===== verification/Promise_Dispatch.thy ===== *)
theory Promise_Dispatch
  imports Promise_Calls
begin

text \<open>
  Reading rows, and the use cases of the dispatch board, keep the promise.  Each proof
  follows the use case call by call and hands the lasting facts one call establishes to the next.
\<close>

lemma safe_then:
  assumes "safe K m (\<lambda>_ _. True)" "\<And>x. safe K (f x) Q"
  shows "safe K (and_then m f) Q"
proof (rule safe_bind [OF assms(1)])
  show "safe (\<lambda>s. K s \<and> True) (f x) Q" for x using assms(2) by simp
qed

lemma safe_lift_then: "(\<And>x. r = Inr x \<Longrightarrow> safe K (f x) Q) \<Longrightarrow> safe K (and_then (lift_err r) f) Q"
  by (cases r) (auto intro: safe_raise)

lemma lift_domain_Inr [simp]: "lift_domain g r = Inr x \<longleftrightarrow> r = Inr x"
  by (cases r) (simp_all add: lift_domain_def)

lemma safe_done: "safe K (ret x) (\<lambda>_ _. True)"
  by (rule safe_ret) simp

section \<open>Reading rows\<close>

lemma safe_order_read:
  assumes "lasting K"
  shows "safe K (order_by_id oid) (\<lambda>x s. order_seen x s \<and> o_id x = oid)"
  unfolding order_by_id_def
proof (rule safe_bind [where M = "\<lambda>x s. order_seen x s \<and> o_id x = oid"])
  show "safe K (db_read (\<lambda>s. case tbl_get o_id oid (s_orders s) of None \<Rightarrow> Inl order_not_found | Some x \<Rightarrow> Inr x))
      (\<lambda>x s. order_seen x s \<and> o_id x = oid)"
    by (rule safe_read [OF assms]) (auto simp: order_seen_def same_order_def dest!: tbl_get_Some split: option.splits)
  fix row
  let ?K = "\<lambda>s. K s \<and> order_seen row s \<and> o_id row = oid"
  have K: "lasting ?K" by (intro lasting_intros assms)
  have here: "\<exists>y\<in>set (s_orders s). tbl_get o_id oid (s_orders s) = Some y \<and> same_order row y \<and> o_lines y = o_lines row \<and>
      order_moves\<^sup>*\<^sup>* (o_status row) (o_status y)" if h: "store_ok s" "?K s" for s
  proof -
    obtain y where y: "y \<in> set (s_orders s)" "same_order row y" "o_lines y = o_lines row" "order_moves\<^sup>*\<^sup>* (o_status row) (o_status y)"
      using h(2) by (auto simp: order_seen_def)
    then have "o_id y = oid" using h(2) by (simp add: same_order_def)
    then show ?thesis using tbl_get_keyed [of o_id "s_orders s" y] y h(1) by (auto simp: store_ok_def orders_ok_def)
  qed
  have lines: "safe ?K (lines_of oid) (\<lambda>ls s. ls = o_lines row)"
    unfolding lines_of_def by (rule safe_read [OF K]) (use here in \<open>fastforce\<close>)
  have events: "safe L (events_of oid) (\<lambda>es s. order_seen (row\<lparr>o_events := es\<rparr>) s)"
    if L: "lasting L" "\<And>s. L s \<Longrightarrow> ?K s" for L
    unfolding events_of_def
  proof (rule safe_read [OF L(1)])
    fix s es assume s: "store_ok s" "L s"
      and es: "Inr (case tbl_get o_id oid (s_orders s) of None \<Rightarrow> []
        | Some x \<Rightarrow> stable_sort event_before (o_events x)) = (Inr es :: error + order_event list)"
    obtain y where "y \<in> set (s_orders s)" "tbl_get o_id oid (s_orders s) = Some y" "same_order row y" "o_lines y = o_lines row"
      "order_moves\<^sup>*\<^sup>* (o_status row) (o_status y)" using here [OF s(1) L(2) [OF s(2)]] by blast
    then show "order_seen (row\<lparr>o_events := es\<rparr>) s" using es unfolding order_seen_def
      by (intro bexI [of _ y]) (auto simp: same_order_def)
  qed
  show "safe ?K (and_then (lines_of oid) (\<lambda>ls. and_then (events_of oid) (\<lambda>es. ret (row\<lparr>o_lines := ls, o_events := es\<rparr>))))
      (\<lambda>x s. order_seen x s \<and> o_id x = oid)"
  proof (rule safe_bind [OF lines], rule safe_bind [OF events])
    fix ls
    show "lasting (\<lambda>s. ?K s \<and> ls = o_lines row)" by (intro lasting_intros assms)
    show "safe (\<lambda>s. (?K s \<and> ls = o_lines row) \<and> order_seen (row\<lparr>o_events := es\<rparr>) s)
      (ret (row\<lparr>o_lines := ls, o_events := es\<rparr>)) (\<lambda>x s. order_seen x s \<and> o_id x = oid)" for es
      by (rule safe_ret) (simp add: order_seen_def)
  qed simp
qed

lemma safe_order_by_id: "lasting K \<Longrightarrow> safe K (order_by_id oid) (\<lambda>x s. order_there x s \<and> o_id x = oid)"
  by (erule safe_weaken [OF safe_order_read]) (simp add: order_seen_there)

lemma safe_job_by_id: "lasting K \<Longrightarrow> safe K (job_by_id jid) job_there"
  unfolding job_by_id_def
  by (erule safe_read) (auto simp: job_there_def dest!: tbl_get_Some split: option.splits intro: job_evolves_refl)

lemma safe_job_for_order:
  "lasting K \<Longrightarrow> safe K (job_for_order oid) (\<lambda>found s. case found of None \<Rightarrow> True | Some j \<Rightarrow> job_there j s)"
  unfolding job_for_order_def
  by (erule safe_read) (auto simp: job_there_def dest!: tbl_get_Some split: option.splits intro: job_evolves_refl)

lemma safe_job_list:
  assumes "lasting K" "\<And>s. set (f s) \<subseteq> set (s_jobs s)"
  shows "safe K (db_read (\<lambda>s. Inr (f s))) (\<lambda>js s. \<forall>j\<in>set js. job_there j s)"
  by (rule safe_read [OF assms(1)]) (use assms(2) job_evolves_refl in \<open>fastforce simp: job_there_def\<close>)

lemma lasting_ball [lasting_intros]: "(\<And>x. lasting (K x)) \<Longrightarrow> lasting (\<lambda>s. \<forall>x\<in>A. K x s)"
  unfolding lasting_def by blast

lemma lasting_option [lasting_intros]:
  "(\<And>x. lasting (K x)) \<Longrightarrow> lasting (\<lambda>s. case found of None \<Rightarrow> True | Some x \<Rightarrow> K x s)"
  by (cases found) (auto simp: lasting_def)

section \<open>The dispatch board\<close>

lemma safe_job_to_contract: "lasting K \<Longrightarrow> safe K (job_to_contract j) (\<lambda>_ _. True)"
proof -
  assume K: "lasting K"
  have "safe K (partner_by_id pid) (\<lambda>_ _. True)" for pid unfolding partner_by_id_def by (rule safe_any_read [OF K])
  then show ?thesis unfolding job_to_contract_def Let_def
    by (intro safe_if safe_done safe_then [OF safe_True [OF safe_attempt]]) (auto intro: safe_done split: sum.split)
qed

lemma safe_offer_round:
  assumes "lasting K" "\<And>s. K s \<Longrightarrow> job_there j s"
  shows "safe K (offer_round sv ru j) (\<lambda>_ _. True)"
proof -
  have read: "safe K (or_wrap dispatch_storage_error (available_within sv loc rad b n)) (\<lambda>_ _. True)" for loc rad b n
    unfolding available_within_def by (intro safe_wrap safe_any_read assms(1))
  have move: "safe K (and_then (or_wrap dispatch_storage_error (save_job k (j_status j))) (\<lambda>_.
      and_then (ignoring (record_offer pid False)) (\<lambda>_. ret k))) (\<lambda>_ _. True)"
    if k: "job_offer pid now timeout j = Inr k" for pid now timeout k
  proof (rule safe_then [OF safe_True])
    show "safe K (or_wrap dispatch_storage_error (save_job k (j_status j))) (\<lambda>_. job_settled k)"
      by (rule safe_wrap, rule safe_save_job [OF assms(1) job_exec_successor [of "JOffer pid now timeout"] assms(2)])
        (use k in simp_all)
    show "safe K (and_then (ignoring (record_offer pid False)) (\<lambda>_. ret k)) (\<lambda>_ _. True)"
      by (rule safe_then [OF safe_ignoring [OF safe_record_offer [OF assms(1)]] safe_done])
  qed
  show ?thesis unfolding offer_round_def
    by (rule safe_then [OF read])
      (auto split: option.split intro!: safe_done safe_then [OF safe_clock] safe_lift_then move)
qed

lemma safe_release_partner: "lasting K \<Longrightarrow> safe K (release_partner pid) (\<lambda>_ _. True)"
proof -
  assume K: "lasting K"
  have "safe K (attempt (partner_by_id pid)) (\<lambda>_ _. True)"
    unfolding partner_by_id_def by (rule safe_True [OF safe_attempt [OF safe_any_read [OF K]]])
  then show ?thesis unfolding release_partner_def
    by (rule safe_then) (auto split: sum.split intro!: safe_done safe_ignoring safe_save_partner K)
qed

lemma safe_withdraw:
  assumes "lasting K"
  shows "safe K (withdraw oid reason) (\<lambda>_ _. True)"
  unfolding withdraw_def
proof (rule safe_bind [OF safe_wrap [OF safe_job_for_order [OF assms]]])
  fix found
  let ?K = "\<lambda>s. K s \<and> (case found of None \<Rightarrow> True | Some j \<Rightarrow> job_there j s)"
  have K: "lasting ?K" by (intro lasting_intros assms)
  have save: "safe ?K (or_wrap dispatch_storage_error (save_job k (j_status j))) (\<lambda>_ _. True)"
    if "found = Some j" "job_cancel reason now j = Inr k" for j k now
    by (rule safe_wrap, rule safe_True, rule safe_save_job [OF K job_exec_successor [of "JCancel reason now"]])
      (use that in simp_all)
  show "safe ?K (case found of None \<Rightarrow> ret () | Some j \<Rightarrow> if job_terminal (j_status j) then ret ()
      else and_then clock_now (\<lambda>now. let k = case job_cancel reason now j of Inl _ \<Rightarrow> j | Inr k \<Rightarrow> k
        in and_then (or_wrap dispatch_storage_error (save_job k (j_status j)))
             (\<lambda>_. if j_partner_id j \<noteq> [] then release_partner (j_partner_id j) else ret ()))) (\<lambda>_ _. True)"
  proof (cases found)
    case (Some j)
    have step: "safe ?K (and_then (or_wrap dispatch_storage_error (save_job k (j_status j)))
        (\<lambda>_. if j_partner_id j \<noteq> [] then release_partner (j_partner_id j) else ret ())) (\<lambda>_ _. True)"
      if "job_cancel reason now j = Inr k" for now k
      by (rule safe_then [OF save [OF Some that]]) (intro safe_if safe_done safe_release_partner K)
    have "safe ?K (let k = case job_cancel reason now j of Inl _ \<Rightarrow> j | Inr k \<Rightarrow> k
        in and_then (or_wrap dispatch_storage_error (save_job k (j_status j)))
             (\<lambda>_. if j_partner_id j \<noteq> [] then release_partner (j_partner_id j) else ret ())) (\<lambda>_ _. True)"
      if open_job: "\<not> job_terminal (j_status j)" for now
    proof -
      obtain k where k: "job_cancel reason now j = Inr k" using open_job by (simp add: job_cancel_def)
      show ?thesis using step [OF k] by (simp only: k Let_def sum.case)
    qed
    then show ?thesis unfolding Some option.case
      by (intro safe_if safe_done safe_then [OF safe_clock])
  qed (simp add: safe_done)
qed

lemma safe_offer:
  assumes "lasting K" "\<And>s. K s \<Longrightarrow> reached s (of_order_id req) StatusReady"
  shows "safe K (offer sv req) (\<lambda>_ _. True)"
proof -
  have contract: "safe L (job_to_contract j) (\<lambda>_ _. True)" if "lasting L" for L j
    using that by (rule safe_job_to_contract)
  have again: "safe K (attempt (job_for_order oid)) (\<lambda>_ _. True)" for oid
    by (rule safe_True [OF safe_attempt [OF safe_job_for_order [OF assms(1)]]])
  have made: "safe (\<lambda>s. K s \<and> (case made of Inl e \<Rightarrow> True | Inr u \<Rightarrow> job_there j s)) (case made of
      Inl e \<Rightarrow> (if code_of (Some e) = ''job_exists''
        then and_then (attempt (job_for_order oid)) (\<lambda>again. case again of
               Inr (Some won) \<Rightarrow> job_to_contract won | _ \<Rightarrow> raise_err (dispatch_storage_error e))
        else raise_err (dispatch_storage_error e))
    | Inr u \<Rightarrow> and_then (attempt (offer_round sv ru j)) (\<lambda>r. case r of
        Inl _ \<Rightarrow> job_to_contract j | Inr k \<Rightarrow> job_to_contract k)) (\<lambda>_ _. True)"
    for made :: "error + unit" and j ru oid
  proof (cases made)
    case (Inl e)
    then show ?thesis
      by simp (intro conjI impI safe_raise safe_then [OF again],
        auto intro!: safe_raise contract assms(1) split: sum.split option.split)
  next
    case (Inr u)
    have K: "lasting (\<lambda>s. K s \<and> job_there j s)" by (intro lasting_intros assms(1))
    show ?thesis using Inr
      by simp (rule safe_then [OF safe_True [OF safe_attempt [OF safe_offer_round [OF K]]]], simp,
        auto intro!: contract K split: sum.split)
  qed
  have create: "safe K (and_then (attempt (create_job j)) (\<lambda>made. case made of
      Inl e \<Rightarrow> (if code_of (Some e) = ''job_exists''
        then and_then (attempt (job_for_order (of_order_id req))) (\<lambda>again. case again of
               Inr (Some won) \<Rightarrow> job_to_contract won | _ \<Rightarrow> raise_err (dispatch_storage_error e))
        else raise_err (dispatch_storage_error e))
    | Inr _ \<Rightarrow> and_then (attempt (offer_round sv ru j)) (\<lambda>r. case r of
        Inl _ \<Rightarrow> job_to_contract j | Inr k \<Rightarrow> job_to_contract k))) (\<lambda>_ _. True)"
    if "new_job jid (of_order_id req) c p d dm b plc now = Inr j" for jid c p d dm b plc now j ru
    by (rule safe_bind [OF safe_attempt [OF safe_create_job [OF assms(1) that assms(2)]]]) (assumption, rule made)
  show ?thesis unfolding offer_def
    by (rule safe_then [OF safe_wrap [OF safe_True [OF safe_job_for_order [OF assms(1)]]]])
      (auto split: option.split
        intro!: contract assms(1) safe_lift_then safe_then [OF safe_clock] safe_then [OF safe_fresh] create)
qed

lemma safe_sweep_lapsed:
  assumes "lasting K" "\<And>s. K s \<Longrightarrow> job_there j s"
  shows "safe K (sweep_lapsed now j) (\<lambda>_ _. True)"
proof (cases "job_lapse now j")
  case (Inr k)
  have "safe K (attempt (save_job k (j_status j))) (\<lambda>_ _. True)"
    by (rule safe_True [OF safe_attempt [OF safe_save_job [OF assms(1) job_exec_successor [of "JLapse now"] assms(2)]]])
      (simp_all add: Inr)
  then show ?thesis unfolding sweep_lapsed_def
    by (simp add: Inr) (erule safe_then,
      auto split: sum.split intro!: safe_done safe_then [OF safe_ignoring [OF safe_record_offer [OF assms(1)]]])
qed (simp add: sweep_lapsed_def safe_done)

lemma safe_sweep_waiting:
  assumes "lasting K" "\<And>s. K s \<Longrightarrow> job_there j s"
  shows "safe K (sweep_waiting sv j) (\<lambda>_ _. True)"
  unfolding sweep_waiting_def
  by (auto split: sum.split intro!: safe_done safe_then [OF safe_True [OF safe_attempt [OF safe_offer_round [OF assms]]]])

lemma safe_map_jobs:
  assumes "lasting K" "\<And>L j. lasting L \<Longrightarrow> (\<And>s. L s \<Longrightarrow> job_there j s) \<Longrightarrow> safe L (f j) (\<lambda>_ _. True)"
    and "\<And>s. K s \<Longrightarrow> \<forall>j\<in>set js. job_there j s"
  shows "safe K (map_each f js) (\<lambda>_ _. True)"
  by (rule safe_map_each, rule assms(2) [OF assms(1)]) (use assms(3) in blast)

lemma safe_sweep:
  assumes "lasting K"
  shows "safe K (sweep sv n) (\<lambda>_ _. True)"
proof -
  have lapsed: "safe K (or_wrap dispatch_storage_error (lapsed_offers n)) (\<lambda>js s. \<forall>j\<in>set js. job_there j s)"
    unfolding lapsed_offers_def
    by (rule safe_wrap, rule safe_then [OF safe_clock], rule safe_job_list [OF assms])
      (auto dest!: in_set_takeD)
  have waiting: "safe L (or_wrap dispatch_storage_error (waiting_jobs n)) (\<lambda>js s. \<forall>j\<in>set js. job_there j s)"
    if "lasting L" for L
    unfolding waiting_jobs_def by (rule safe_wrap, rule safe_job_list [OF that]) (auto dest!: in_set_takeD)
  show ?thesis unfolding sweep_def
  proof (rule safe_bind [OF lapsed], rule safe_then [OF safe_clock])
    fix js and now :: instant
    let ?K = "\<lambda>s. K s \<and> (\<forall>j\<in>set js. job_there j s)"
    have K: "lasting ?K" by (intro lasting_intros assms)
    show "safe ?K (and_then (map_each (sweep_lapsed now) js) (\<lambda>expired.
        and_then (or_wrap dispatch_storage_error (waiting_jobs n)) (\<lambda>waiting.
        and_then (map_each (sweep_waiting sv) waiting) (\<lambda>offered.
          ret \<lparr>sw_expired = sum_list expired, sw_offered = sum_list offered\<rparr>)))) (\<lambda>_ _. True)"
    proof (rule safe_then [OF safe_map_jobs [OF K]], erule safe_sweep_lapsed, assumption, blast,
        rule safe_bind [OF waiting [OF K]])
      fix ws and expired :: "nat list"
      have L: "lasting (\<lambda>s. ?K s \<and> (\<forall>j\<in>set ws. job_there j s))" by (intro lasting_intros assms)
      show "safe (\<lambda>s. ?K s \<and> (\<forall>j\<in>set ws. job_there j s)) (and_then (map_each (sweep_waiting sv) ws)
          (\<lambda>offered. ret \<lparr>sw_expired = sum_list expired, sw_offered = sum_list offered\<rparr>)) (\<lambda>_ _. True)"
        by (rule safe_then [OF safe_map_jobs [OF L] safe_done], erule safe_sweep_waiting, assumption, blast)
    qed
  qed
qed

end
