(* ===== verification/Promise_Requests.thy ===== *)
theory Promise_Requests
  imports Promise_Dispatch
begin

text \<open>
  The use cases of orders, payments, cash and partners keep the promise; the moves another module
  relies on need the \<open>warrant\<close> their callers have.
\<close>

section \<open>Moving an order\<close>

lemma safe_record_collection:
  assumes "lasting K" "\<And>s. K s \<Longrightarrow> cash_due s oid pid amount"
  shows "safe K (record_collection oid pid amount) (\<lambda>_ _. True)"
proof -
  have create: "safe K (attempt (create_collection c)) (\<lambda>_ _. True)"
    if "new_collection cid oid pid (taka amount) now = Inr c" for cid now c
    by (rule safe_True [OF safe_attempt [OF safe_create_collection [OF assms(1)]]])
      (use that assms(2) in \<open>auto simp: new_collection_def split: if_splits\<close>)
  show ?thesis unfolding record_collection_def
    by (intro safe_then [OF safe_clock] safe_then [OF safe_fresh] safe_lift_then)
      (simp, erule safe_then [OF create], auto split: sum.split intro!: safe_done safe_raise)
qed

text \<open>What is known once an order has moved.\<close>

definition moved :: "order \<Rightarrow> order_event \<Rightarrow> store \<Rightarrow> bool" where
  "moved x e s \<longleftrightarrow> reached s (o_id x) (ev_status e) \<and>
     (ev_status e = StatusDelivered \<and> o_payment x = PaymentCash \<longrightarrow>
        cash_due s (o_id x) (ev_actor_id e) (m_minor (ch_total (o_charges x))))"

lemma lasting_moved [lasting_intros]: "lasting (moved x e)"
  unfolding moved_def by (intro lasting_intros)

lemma moved_after:
  assumes "store_ok s" "order_there x s" "\<exists>y\<in>set (s_orders s). o_id y = o_id x \<and> e \<in> set (o_events y)"
  shows "moved x e s"
proof -
  obtain z where z: "z \<in> set (s_orders s)" "same_order x z" using assms(2) by (auto simp: order_there_def)
  obtain y where y: "y \<in> set (s_orders s)" "o_id y = o_id x" "e \<in> set (o_events y)" using assms(3) by auto
  have "y = z"
    using z y assms(1) keyed_unique [of o_id "s_orders s" y z]
    by (simp add: store_ok_def orders_ok_def same_order_def)
  then show ?thesis using z y unfolding moved_def reached_def cash_due_def by (fastforce simp: same_order_def)
qed

lemma safe_tell_dispatch:
  assumes "lasting K" "\<And>s. K s \<Longrightarrow> reached s (o_id x) (o_status x)"
  shows "safe K (tell_dispatch sv x reason) (\<lambda>_ _. True)"
  unfolding tell_dispatch_def
proof (intro safe_if safe_ignoring safe_done)
  assume "o_status x = StatusReady"
  then show "safe K (offer sv (offer_request_of x)) (\<lambda>_ _. True)"
    using assms(2) by (intro safe_offer assms(1)) (simp add: offer_request_of_def)
next
  show "safe K (withdraw (o_id x) reason) (\<lambda>_ _. True)" by (rule safe_withdraw [OF assms(1)])
qed

lemma safe_tell_payment:
  assumes "lasting K" "\<And>s. K s \<Longrightarrow> moved x e s" "o_status x = ev_status e"
  shows "safe K (tell_payment x e) (\<lambda>_ _. True)"
  unfolding tell_payment_def
  by (intro safe_if safe_done safe_ignoring safe_record_collection assms(1))
    (use assms(2,3) in \<open>auto simp: moved_def\<close>)

lemma safe_tell_customer: "lasting K \<Longrightarrow> safe K (tell_customer x reason) (\<lambda>_ _. True)"
  unfolding tell_customer_def by (intro safe_if safe_done safe_ignoring safe_notify)

lemma safe_execute:
  assumes "lasting K" "\<And>s. K s \<Longrightarrow> warrant oid to (cl_actor c) (cl_id c) s"
  shows "safe K (execute sv oid to reason c) (\<lambda>_ _. True)"
  unfolding execute_def
proof (rule safe_bind [OF safe_wrap [OF safe_order_by_id [OF assms(1)]]],
    rule safe_lift_then, rule safe_then [OF safe_clock], rule safe_lift_then)
  fix x and now :: instant
  let ?K = "\<lambda>s. K s \<and> order_there x s \<and> o_id x = oid"
  have K: "lasting ?K" by (intro lasting_intros assms(1))
  have tell: "safe ?K (let y = with_event_id eid y0; e = last (o_events y)
       in and_then (or_wrap order_storage_error (append_transition (o_id x) (o_status x) e)) (\<lambda>_.
          and_then (tell_dispatch sv y reason) (\<lambda>_. and_then (tell_payment y e) (\<lambda>_.
          and_then (tell_customer y reason) (\<lambda>_. ret (render sv y c now)))))) (\<lambda>_ _. True)"
    if mv: "order_move to (cl_actor c) (cl_id c) reason now x = Inr y0" for y0 eid
  proof -
    define y where "y = with_event_id eid y0"
    define e where "e = last (o_events y)"
    have can: "can_transition (o_status x) to (cl_actor c) = None" by (rule order_move_ok [OF mv])
    have e: "ev_status e = to" "ev_actor e = cl_actor c" "ev_actor_id e = cl_id c"
      and y: "o_status y = ev_status e" "moved y e = moved x e" "o_id y = o_id x"
      using mv can by (auto simp: e_def y_def with_event_id_def order_move_def moved_def fun_eq_iff)
    have append: "safe ?K (append_transition (o_id x) (o_status x) e) (\<lambda>_. moved x e)"
    proof (rule safe_weaken)
      show "safe ?K (append_transition (o_id x) (o_status x) e)
          (\<lambda>_ s. \<exists>z\<in>set (s_orders s). o_id z = o_id x \<and> e \<in> set (o_events z))"
        by (rule safe_append_transition [OF K]) (use can e assms(2) in auto)
    qed (use moved_after in blast)
    let ?L = "\<lambda>s. ?K s \<and> moved x e s"
    have L: "lasting ?L" by (intro lasting_intros assms(1))
    have dispatch: "safe ?L (tell_dispatch sv y reason) (\<lambda>_ _. True)"
      by (rule safe_tell_dispatch [OF L]) (auto simp: moved_def y(1,3))
    have pay: "safe ?L (tell_payment y e) (\<lambda>_ _. True)"
      by (rule safe_tell_payment [OF L _ y(1)]) (simp add: y(2))
    show ?thesis unfolding y_def [symmetric] Let_def e_def [symmetric]
      by (rule safe_bind [OF safe_wrap [OF append]], rule safe_then [OF dispatch], rule safe_then [OF pay],
          rule safe_then [OF safe_tell_customer [OF L] safe_done])
  qed
  show "safe ?K (and_then (if to = StatusRejected \<and> reason = [] then raise_err reason_required else ret ()) (\<lambda>_.
     and_then (lift_err (lift_domain order_error (order_move to (cl_actor c) (cl_id c) reason now x))) (\<lambda>y0.
     and_then (fresh_id ''OEV'') (\<lambda>eid.
       let y = with_event_id eid y0; e = last (o_events y)
       in and_then (or_wrap order_storage_error (append_transition (o_id x) (o_status x) e)) (\<lambda>_.
          and_then (tell_dispatch sv y reason) (\<lambda>_. and_then (tell_payment y e) (\<lambda>_.
          and_then (tell_customer y reason) (\<lambda>_. ret (render sv y c now))))))))) (\<lambda>_ _. True)"
    by (rule safe_then, intro safe_if safe_raise safe_done, rule safe_lift_then, rule safe_then [OF safe_fresh],
        rule tell) simp
qed

lemma safe_advance:
  assumes "lasting K" "\<And>s. K s \<Longrightarrow> warrant oid to a who s"
  shows "safe K (advance sv oid to a who reason) (\<lambda>_ _. True)"
  unfolding advance_def
  by (intro safe_if safe_raise safe_then [OF safe_execute] safe_done assms(1)) (simp add: assms(2))

lemma safe_read_order: "lasting K \<Longrightarrow> safe K (order_by_id oid) (\<lambda>_ _. True)"
  by (rule safe_True [OF safe_order_by_id])

section \<open>Placing an order\<close>

lemma safe_build_order:
  "safe K (build_order customer pay f now) (\<lambda>x _. \<exists>d. new_order d = Inr x \<and> d_customer_id d = customer)"
proof -
  have code: "safe K fresh_code (\<lambda>_ _. True)"
    by (auto simp: safe_def holds_in_def fresh_code_def promise.refl relies_def split: sum.split)
  have line: "safe K (line_of_basket l) (\<lambda>_ _. True)" for l
    unfolding line_of_basket_def by (rule safe_then [OF safe_fresh safe_done])
  show ?thesis unfolding build_order_def
    by (intro safe_then [OF safe_fresh] safe_then [OF code] safe_then [OF safe_map_each] line safe_lift)
      (auto intro: exI [rotated])
qed

lemma safe_place_new:
  assumes "lasting K"
  shows "safe K (place_new sv pv customer req) (\<lambda>_ _. True)"
proof -
  have store: "safe (\<lambda>s. K s \<and> (\<exists>d. new_order d = Inr x \<and> d_customer_id d = customer))
      (and_then (or_wrap order_storage_error (create_order x)) (\<lambda>_.
       and_then (when_op (pr_idempotency_key req \<noteq> [])
         (or_wrap order_storage_error (claim_idempotency_key customer (pr_idempotency_key req) (o_id x)))) (\<lambda>_.
       and_then (ignoring (clear_cart customer)) (\<lambda>_. ret (v x))))) (\<lambda>_ _. True)" for x and v :: "order \<Rightarrow> order_view"
  proof (cases "\<exists>d. new_order d = Inr x \<and> d_customer_id d = customer")
    case True
    then obtain d where d: "new_order d = Inr x" "d_customer_id d = customer" by blast
    have c: "o_customer_id x = customer" using d by (auto simp: new_order_def split: if_splits)
    let ?L = "\<lambda>s. K s \<and> order_there x s"
    have L: "lasting ?L" by (intro lasting_intros assms)
    have "safe K (and_then (or_wrap order_storage_error (create_order x)) (\<lambda>_.
       and_then (when_op (pr_idempotency_key req \<noteq> [])
         (or_wrap order_storage_error (claim_idempotency_key customer (pr_idempotency_key req) (o_id x)))) (\<lambda>_.
       and_then (ignoring (clear_cart customer)) (\<lambda>_. ret (v x))))) (\<lambda>_ _. True)"
      by (rule safe_bind [OF safe_wrap [OF safe_create_order [OF assms d(1)]]],
          rule safe_then [OF safe_when [OF safe_wrap [OF safe_claim_key [OF L _ c]]]], simp,
          rule safe_then [OF safe_ignoring [OF safe_clear_cart [OF L]] safe_done])
    then show ?thesis using True by simp
  next
    case False
    then show ?thesis by (intro safe_absurd) auto
  qed
  show ?thesis unfolding place_new_def current_cart_def
    by (intro safe_if safe_raise safe_then [OF safe_any_read] assms)
      (auto split: option.split intro!: safe_raise safe_lift_then safe_then [OF safe_clock]
        safe_bind [OF safe_build_order] store)
qed

lemma safe_place:
  assumes "lasting K"
  shows "safe K (place sv pv customer req) (\<lambda>_ _. True)"
proof -
  have "safe K (by_idempotency_key customer key) (\<lambda>_ _. True)" for key
    unfolding by_idempotency_key_def
    by (rule safe_then [OF safe_any_read [OF assms]])
      (auto split: option.split intro!: safe_done safe_then [OF safe_read_order [OF assms]])
  then show ?thesis unfolding place_def
    by (intro safe_if safe_then [OF safe_wrap] safe_place_new assms)
      (auto split: option.split intro!: safe_done safe_place_new assms)
qed

section \<open>Payments\<close>

lemma safe_payment_read:
  assumes "lasting K" "\<And>s p. f s = Inr p \<Longrightarrow> p \<in> set (s_payments s)"
  shows "safe K (db_read f) payment_there"
  by (rule safe_read [OF assms(1)]) (use assms(2) payment_evolves_refl in \<open>auto simp: payment_there_def\<close>)

lemma safe_mark_paid:
  assumes "lasting K" "\<And>s. K s \<Longrightarrow> money_taken s oid"
  shows "safe K (mark_paid sv oid) (\<lambda>_ _. True)"
  unfolding mark_paid_def
  by (rule safe_then [OF safe_execute [OF assms(1)] safe_done]) (simp add: warrant_def assms(2))

lemma safe_mark_payment_failed: "lasting K \<Longrightarrow> safe K (mark_payment_failed sv oid reason) (\<lambda>_ _. True)"
  unfolding mark_payment_failed_def
  by (rule safe_then [OF safe_execute safe_done]) (simp_all add: warrant_def)

lemma settle_payment_successor: "settle_payment ev now p = Inr q \<Longrightarrow> pay_successor p q"
  using pay_exec_successor [of "PCapture (we_gateway_ref ev) (taka (we_amount_minor ev)) now" p q]
    pay_exec_successor [of "PFail (we_reason ev) now" p q]
  by (simp add: settle_payment_def split: if_splits)

lemma safe_apply_event:
  assumes "lasting K"
  shows "safe K (apply_event sv ev) (\<lambda>_ _. True)"
proof -
  have read: "safe K (payment_by_reference r) payment_there" for r
    unfolding payment_by_reference_def
    by (rule safe_payment_read [OF assms]) (auto dest!: tbl_get_Some split: option.splits)
  have tell: "safe (\<lambda>s. (K s \<and> payment_there p s) \<and> (case saved of Inl e \<Rightarrow> True
        | Inr u \<Rightarrow> pay_status q = PayCaptured \<longrightarrow> money_taken s (pay_order_id q)))
      (case saved of
         Inl e \<Rightarrow> (if code_of (Some e) = ''payment_moved'' then ret () else raise_err (payment_storage_error e))
       | Inr _ \<Rightarrow> (if we_succeeded ev then mark_paid sv (pay_order_id q)
                   else mark_payment_failed sv (pay_order_id q) (we_reason ev))) (\<lambda>_ _. True)"
    if q: "settle_payment ev now p = Inr q" for p q now and saved :: "error + unit"
  proof (cases saved)
    case (Inl e)
    then show ?thesis by (simp add: safe_done safe_raise)
  next
    case (Inr u)
    let ?L = "\<lambda>s. (K s \<and> payment_there p s) \<and> (pay_status q = PayCaptured \<longrightarrow> money_taken s (pay_order_id q))"
    have L: "lasting ?L" by (intro lasting_intros assms)
    have "we_succeeded ev \<Longrightarrow> pay_status q = PayCaptured"
      using q by (auto simp: settle_payment_def pay_ops_Inr)
    then show ?thesis unfolding Inr sum.case
      by (intro safe_if safe_mark_paid L safe_mark_payment_failed) simp
  qed
  have save: "safe (\<lambda>s. K s \<and> payment_there p s) (and_then (attempt (save_payment q (pay_status p))) (\<lambda>saved. case saved of
         Inl e \<Rightarrow> (if code_of (Some e) = ''payment_moved'' then ret () else raise_err (payment_storage_error e))
       | Inr _ \<Rightarrow> (if we_succeeded ev then mark_paid sv (pay_order_id q)
                   else mark_payment_failed sv (pay_order_id q) (we_reason ev)))) (\<lambda>_ _. True)"
    if q: "settle_payment ev now p = Inr q" for p q now
  proof (rule safe_bind [OF safe_attempt])
    show "safe (\<lambda>s. K s \<and> payment_there p s) (save_payment q (pay_status p))
        (\<lambda>_ s. pay_status q = PayCaptured \<longrightarrow> money_taken s (pay_order_id q))"
      by (rule safe_save_payment [OF _ settle_payment_successor [OF q]]) (intro lasting_intros assms, simp)
  qed (rule tell [OF q])
  show ?thesis unfolding apply_event_def
    by (intro safe_if safe_raise safe_bind [OF safe_wrap [OF read]] safe_then [OF safe_clock] safe_sum safe_done save)
qed

lemma safe_handle_webhook: "lasting K \<Longrightarrow> safe K (handle_webhook sv verified) (\<lambda>_ _. True)"
  unfolding handle_webhook_def
  by (rule safe_then [OF safe_wrap [OF safe_lift]]) (auto intro: safe_apply_event)

lemma safe_simulate: "lasting K \<Longrightarrow> safe K (simulate_event sv pid customer succeeded reason) (\<lambda>_ _. True)"
  unfolding simulate_event_def payment_by_id_def
  by (intro safe_if safe_raise safe_then [OF safe_wrap [OF safe_any_read]] safe_apply_event)

lemma safe_latest:
  "lasting K \<Longrightarrow> safe K (latest_for_order oid) (\<lambda>found s. case found of None \<Rightarrow> True
     | Some p \<Rightarrow> payment_there p s \<and> pay_order_id p = oid \<and> (pay_status p = PayRefunded \<longrightarrow> money_back s oid))"
  unfolding latest_for_order_def
proof (erule safe_read)
  fix s :: store and x
  assume x: "Inr (case stable_sort (\<lambda>x y. pay_created_at y < pay_created_at x)
      (filter (\<lambda>p. pay_order_id p = oid) (s_payments s)) of [] \<Rightarrow> None | p # _ \<Rightarrow> Some p) = (Inr x :: error + payment option)"
  have "p \<in> set (s_payments s) \<and> pay_order_id p = oid" if p: "x = Some p" for p
  proof -
    obtain rest where "stable_sort (\<lambda>x y. pay_created_at y < pay_created_at x)
        (filter (\<lambda>p. pay_order_id p = oid) (s_payments s)) = p # rest"
      using x p by (auto split: list.splits)
    from arg_cong [where f = set, OF this] show ?thesis by auto
  qed
  then show "case x of None \<Rightarrow> True
     | Some p \<Rightarrow> payment_there p s \<and> pay_order_id p = oid \<and> (pay_status p = PayRefunded \<longrightarrow> money_back s oid)"
    using payment_evolves_refl by (auto simp: payment_there_def money_back_def split: option.split)
qed

lemma safe_refund_back:
  assumes "lasting K"
  shows "safe K (refund_order sv oid reason) (\<lambda>_ s. money_back s oid)"
  unfolding refund_order_def
proof (intro safe_if safe_raise, rule safe_bind [OF safe_wrap [OF safe_latest [OF assms]]])
  fix found
  let ?K = "\<lambda>s. K s \<and> (case found of None \<Rightarrow> True
     | Some p \<Rightarrow> payment_there p s \<and> pay_order_id p = oid \<and> (pay_status p = PayRefunded \<longrightarrow> money_back s oid))"
  show "safe ?K (case found of None \<Rightarrow> raise_err payment_not_found | Some p \<Rightarrow> if pay_status p = PayRefunded then ret ()
      else and_then clock_now (\<lambda>now. and_then (lift_err (lift_domain payment_error (pay_refund reason now p))) (\<lambda>q.
        and_then (or_wrap gateway_error (lift_err (sv_refund sv (pay_gateway_ref q) (m_minor (pay_amount q))))) (\<lambda>_.
        or_wrap payment_storage_error (save_payment q (pay_status p)))))) (\<lambda>_ s. money_back s oid)"
  proof (cases found)
    case (Some p)
    show ?thesis
    proof (cases "pay_status p = PayRefunded")
      case True
      then show ?thesis using Some by (auto intro: safe_ret)
    next
      case False
      let ?L = "\<lambda>s. K s \<and> payment_there p s \<and> pay_order_id p = oid"
      have L: "lasting ?L" by (intro lasting_intros assms)
      have save: "safe ?L (save_payment q (pay_status p)) (\<lambda>_ s. money_back s oid)"
        if "pay_refund reason now p = Inr q" for now q
      proof (cases "pay_order_id p = oid")
        case True
        have "pay_successor p q" using that pay_exec_successor [of "PRefund reason now"] by simp
        moreover have "pay_status q = PayRefunded" "pay_order_id q = oid"
          using that True by (auto simp: pay_refund_def split: if_splits)
        ultimately show ?thesis
          by (intro safe_weaken [OF safe_save_payment_row [OF L]]) (auto simp: money_back_def)
      qed (simp add: safe_absurd)
      show ?thesis using Some False
        by (auto intro!: safe_then [OF safe_clock] safe_lift_then safe_then [OF safe_wrap [OF safe_lift]] safe_wrap save)
    qed
  qed (simp add: safe_raise)
qed

lemma safe_refund: "lasting K \<Longrightarrow> safe K (refund_order sv oid reason) (\<lambda>_ _. True)"
  by (rule safe_True [OF safe_refund_back])

lemma safe_checkout:
  assumes "lasting K"
  shows "safe K (start_checkout sv customer oid) (\<lambda>_ _. True)"
proof -
  have pend: "safe L (pending_for_order oid) (\<lambda>_ _. True)" if "lasting L" for L
    unfolding pending_for_order_def by (rule safe_any_read [OF that])
  have create: "safe L (and_then (attempt (create_payment p)) (\<lambda>made. case made of
       Inr _ \<Rightarrow> ret (checkout_view_of p url)
     | Inl e \<Rightarrow>
         (if code_of (Some e) = ''checkout_in_progress''
          then and_then (attempt (pending_for_order oid)) (\<lambda>again. case again of
                 Inr (Some won) \<Rightarrow> ret (checkout_view_of won [])
               | _ \<Rightarrow> raise_err (payment_storage_error e))
          else raise_err (payment_storage_error e)))) (\<lambda>_ _. True)"
    if L: "lasting L" "\<And>s. L s \<Longrightarrow> order_there x s" and x: "o_payment x = PaymentOnline"
      and p0: "new_payment pid (o_id x) (o_customer_id x) gw (taka (m_minor (ch_total (o_charges x)))) now = Inr p0"
      and p: "p = p0\<lparr>pay_gateway_ref := g\<rparr>"
    for L x p0 pid gw now p g url
  proof (rule safe_then [OF safe_True [OF safe_attempt [OF safe_create_payment [OF L(1)]]]])
    show "safe L (case made of
       Inr _ \<Rightarrow> ret (checkout_view_of p url)
     | Inl e \<Rightarrow>
         (if code_of (Some e) = ''checkout_in_progress''
          then and_then (attempt (pending_for_order oid)) (\<lambda>again. case again of
                 Inr (Some won) \<Rightarrow> ret (checkout_view_of won [])
               | _ \<Rightarrow> raise_err (payment_storage_error e))
          else raise_err (payment_storage_error e))) (\<lambda>_ _. True)" for made :: "error + unit"
      by (cases made) (auto split: sum.split option.split
        intro!: safe_done safe_raise safe_then [OF safe_True [OF safe_attempt [OF pend [OF L(1)]]]])
  qed (use L(2) x p0 p in \<open>auto simp: new_payment_def split: if_splits\<close>)
  show ?thesis unfolding start_checkout_def order_for_payment_def
  proof (rule safe_bind [OF safe_wrap [OF safe_wrap [OF safe_order_by_id [OF assms]]]], intro safe_if safe_raise)
    fix x
    let ?L = "\<lambda>s. K s \<and> order_there x s \<and> o_id x = oid"
    assume c: "\<not> o_customer_id x \<noteq> customer" "\<not> o_payment x \<noteq> PaymentOnline" "\<not> o_status x \<noteq> StatusPendingPayment"
    have L: "lasting ?L" by (intro lasting_intros assms)
    have go: "safe ?L (let p = p0\<lparr>pay_gateway_ref := g\<rparr> in and_then (attempt (create_payment p)) (\<lambda>made. case made of
         Inr _ \<Rightarrow> ret (checkout_view_of p url)
       | Inl e \<Rightarrow>
           (if code_of (Some e) = ''checkout_in_progress''
            then and_then (attempt (pending_for_order oid)) (\<lambda>again. case again of
                   Inr (Some won) \<Rightarrow> ret (checkout_view_of won [])
                 | _ \<Rightarrow> raise_err (payment_storage_error e))
            else raise_err (payment_storage_error e)))) (\<lambda>_ _. True)"
      if "new_payment pid oid customer gw (taka (m_minor (ch_total (o_charges x)))) now = Inr p0" for pid gw now p0 g url
    proof (cases "o_id x = oid")
      case True
      then show ?thesis unfolding Let_def
        by (intro create [OF L, where x = x]) (use that c in auto)
    next
      case False
      then show ?thesis by (intro safe_absurd) auto
    qed
    show "safe ?L (and_then (or_wrap payment_storage_error (pending_for_order oid)) (\<lambda>existing. case existing of
       Some p \<Rightarrow> ret (checkout_view_of p [])
     | None \<Rightarrow>
         and_then clock_now (\<lambda>now.
         and_then (fresh_id ''PAY'') (\<lambda>pid.
         and_then (lift_err (lift_domain payment_error (new_payment pid oid customer (sv_gateway_name sv)
             (taka (m_minor (ch_total (o_charges x)))) now))) (\<lambda>p0.
         and_then (or_wrap gateway_error (lift_err (sv_checkout sv (pay_reference p0)
             (m_minor (pay_amount p0)) (currency_of (pay_amount p0))))) (\<lambda>(gateway_ref, url).
         let p = p0\<lparr>pay_gateway_ref := gateway_ref\<rparr>
         in and_then (attempt (create_payment p)) (\<lambda>made. case made of
              Inr _ \<Rightarrow> ret (checkout_view_of p url)
            | Inl e \<Rightarrow>
                (if code_of (Some e) = ''checkout_in_progress''
                 then and_then (attempt (pending_for_order oid)) (\<lambda>again. case again of
                        Inr (Some won) \<Rightarrow> ret (checkout_view_of won [])
                      | _ \<Rightarrow> raise_err (payment_storage_error e))
                 else raise_err (payment_storage_error e))))))))) (\<lambda>_ _. True)"
      by (rule safe_then [OF safe_wrap [OF pend [OF L]]])
        (auto simp del: Let_def split: option.split prod.split
          intro!: safe_done safe_then [OF safe_clock] safe_then [OF safe_fresh] safe_lift_then
            safe_then [OF safe_wrap [OF safe_lift]] go)
  qed
qed

section \<open>Cash and partners\<close>

lemma safe_my_ledger: "lasting K \<Longrightarrow> safe K (my_ledger pid) (\<lambda>_ _. True)"
  unfolding my_ledger_def collections_of_def by (intro safe_then [OF safe_wrap [OF safe_any_read]] safe_done)

lemma safe_partner_of_user: "lasting K \<Longrightarrow> safe K (partner_of_user u) (\<lambda>_ _. True)"
  unfolding partner_of_user_def by (rule safe_any_read)

lemma safe_my_ledger_for_user: "lasting K \<Longrightarrow> safe K (my_ledger_for_user u) (\<lambda>_ _. True)"
  unfolding my_ledger_for_user_def partner_id_of_user_def
  by (rule safe_then [OF safe_wrap [OF safe_then [OF safe_wrap [OF safe_partner_of_user] safe_done]]])
    (auto split: option.split intro!: safe_raise safe_my_ledger)

lemma safe_reconcile: "lasting K \<Longrightarrow> safe K (reconcile pid cids ref) (\<lambda>_ _. True)"
  unfolding reconcile_def
  by (intro safe_if safe_raise safe_then [OF safe_clock] safe_then [OF safe_wrap [OF safe_remit]] safe_my_ledger)

lemma safe_mine: "lasting K \<Longrightarrow> safe K (mine u) (\<lambda>_ _. True)"
  unfolding mine_def
  by (rule safe_then [OF safe_wrap [OF safe_partner_of_user]]) (auto split: option.split intro: safe_raise safe_done)

lemma safe_change_partner: "lasting K \<Longrightarrow> safe K (change_partner u f) (\<lambda>_ _. True)"
  unfolding change_partner_def
  by (intro safe_then [OF safe_mine] safe_lift_then safe_then [OF safe_wrap [OF safe_save_partner]] safe_done)

lemma safe_register: "lasting K \<Longrightarrow> safe K (register_partner u n p v) (\<lambda>_ _. True)"
  unfolding register_partner_def
  by (rule safe_then [OF safe_wrap [OF safe_partner_of_user]])
    (auto split: option.split intro!: safe_done safe_then [OF safe_fresh] safe_lift_then
      safe_then [OF safe_wrap [OF safe_save_partner]])

lemma safe_feed: "lasting K \<Longrightarrow> safe K (feed sv u) (\<lambda>_ _. True)"
  unfolding feed_def waiting_near_def Let_def
  by (intro safe_then [OF safe_mine] safe_lift_then safe_if safe_done safe_then [OF safe_wrap [OF safe_any_read]])

lemma safe_my_jobs: "lasting K \<Longrightarrow> safe K (my_jobs u live n off) (\<lambda>_ _. True)"
proof -
  assume K: "lasting K"
  have "safe K (jobs_matching f) (\<lambda>_ _. True)" for f
    unfolding jobs_matching_def by (intro safe_then [OF safe_any_read] safe_if safe_done K)
  then show ?thesis unfolding my_jobs_def
    by (intro safe_then [OF safe_mine [OF K]] safe_then [OF safe_wrap]) (auto split: prod.split intro: safe_done)
qed

definition fits_aftermath :: "aftermath \<Rightarrow> partner \<Rightarrow> job \<Rightarrow> bool" where
  "fits_aftermath after p k \<longleftrightarrow>
     (after = AfterCollect \<longrightarrow> j_status k = JobCollected \<and> j_partner_id k = p_id p) \<and>
     (after = AfterDeliver \<longrightarrow> j_status k = JobDelivered \<and> j_partner_id k = p_id p)"

lemma safe_settle:
  assumes "lasting K" "\<And>s. K s \<Longrightarrow> job_settled k s" "fits_aftermath after p k"
  shows "safe K (settle sv k p after) (\<lambda>_ _. True)"
proof -
  have first: "safe K (case after of AfterAccept \<Rightarrow> ignoring (record_offer (p_id p) True)
     | AfterDecline \<Rightarrow> ignoring (record_offer (p_id p) False) | _ \<Rightarrow> ret ()) (\<lambda>_ _. True)"
    by (auto split: aftermath.split intro!: safe_done safe_ignoring safe_record_offer assms(1))
  have w: "warrant (j_order_id k) StatusPickedUp ActorPartner (p_id p) s"
    if "K s" "after = AfterCollect" for s
    using assms(2) [OF that(1)] assms(3) that(2) by (auto simp: warrant_def job_settled_def fits_aftermath_def)
  have v: "warrant (j_order_id k) StatusDelivered ActorPartner (p_id p) s"
    if "K s" "after = AfterDeliver" for s
    using assms(2) [OF that(1)] assms(3) that(2) by (auto simp: warrant_def job_settled_def fits_aftermath_def)
  have last: "safe K (case after of
       AfterCollect \<Rightarrow> ignoring (advance sv (j_order_id k) StatusPickedUp ActorPartner (p_id p) [])
     | AfterDeliver \<Rightarrow> ignoring (advance sv (j_order_id k) StatusDelivered ActorPartner (p_id p) [])
     | AfterFail \<Rightarrow> when_op (j_status k = JobFailed)
         (ignoring (advance sv (j_order_id k) StatusFailed ActorPartner (p_id p) (j_reason k)))
     | _ \<Rightarrow> ret ()) (\<lambda>_ _. True)"
    by (cases after)
      (auto intro!: safe_done safe_when safe_ignoring safe_advance assms(1) w v simp: warrant_def [of _ StatusFailed])
  show ?thesis unfolding settle_def
    by (rule safe_then [OF first safe_then [OF safe_ignoring [OF safe_save_partner [OF assms(1)]] last]])
qed

lemma safe_act:
  assumes "lasting K"
    and move: "\<And>now j p k. f now j p = Inr k \<Longrightarrow> (\<exists>c. job_exec c j = Inr k) \<and> fits_aftermath after p k"
  shows "safe K (act sv u jid f after) (\<lambda>_ _. True)"
  unfolding act_def
proof (rule safe_then [OF safe_mine [OF assms(1)]], rule safe_bind [OF safe_wrap [OF safe_job_by_id [OF assms(1)]]],
    rule safe_then [OF safe_clock], rule safe_lift_then)
  fix p j k and now :: instant
  assume "lift_domain job_error (f now j p) = Inr k"
  then have "f now j p = Inr k" by simp
  then obtain c where c: "job_exec c j = Inr k" "fits_aftermath after p k" using move by blast
  have K: "lasting (\<lambda>s. K s \<and> job_there j s)" by (intro lasting_intros assms(1))
  have L: "lasting (\<lambda>s. (K s \<and> job_there j s) \<and> job_settled k s)" by (intro lasting_intros assms(1))
  show "safe (\<lambda>s. K s \<and> job_there j s) (and_then (or_wrap dispatch_storage_error (save_job k (j_status j)))
      (\<lambda>_. and_then (settle sv k p after) (\<lambda>_. ret (job_view_of k (Fin 0))))) (\<lambda>_ _. True)"
    by (rule safe_bind [OF safe_wrap [OF safe_save_job [OF K job_exec_successor [OF c(1)]]]], simp,
        rule safe_then [OF safe_settle [OF L _ c(2)] safe_done], simp)
qed

lemma safe_job_actions:
  assumes "lasting K"
  shows "safe K (accept_job sv u jid) (\<lambda>_ _. True)" "safe K (decline_job sv u jid) (\<lambda>_ _. True)"
    "safe K (collect_job sv u jid) (\<lambda>_ _. True)" "safe K (deliver_job sv u jid) (\<lambda>_ _. True)"
    "safe K (fail_job sv u jid reason) (\<lambda>_ _. True)"
proof -
  show "safe K (accept_job sv u jid) (\<lambda>_ _. True)" unfolding accept_job_def
    by (rule safe_act [OF assms]) (auto simp: fits_aftermath_def intro: exI [of _ "JAccept a b" for a b])
  show "safe K (decline_job sv u jid) (\<lambda>_ _. True)" unfolding decline_job_def
    by (rule safe_act [OF assms]) (auto simp: fits_aftermath_def intro: exI [of _ "JDecline a b" for a b])
  show "safe K (collect_job sv u jid) (\<lambda>_ _. True)" unfolding collect_job_def
    by (rule safe_act [OF assms]) (auto simp: fits_aftermath_def job_collect_Inr intro: exI [of _ "JCollect a b" for a b])
  show "safe K (deliver_job sv u jid) (\<lambda>_ _. True)" unfolding deliver_job_def
    by (rule safe_act [OF assms]) (auto simp: fits_aftermath_def job_deliver_Inr intro: exI [of _ "JDeliver a b" for a b])
  show "safe K (fail_job sv u jid reason) (\<lambda>_ _. True)" unfolding fail_job_def
    by (rule safe_act [OF assms]) (auto simp: fits_aftermath_def intro: exI [of _ "JFail a r b" for a r b])
qed

end
