(* ===== verification/Review_App.thy ===== *)
theory Review_App
  imports Review_Domain Dispatch_App Payment_App
begin

text \<open>
  \<open>modules/review\<close>: its queries (\<open>infrastructure/persistence/postgres/repository.go\<close>) and its use
  cases, submitting and reading reviews and ratings, raising and resolving support tickets.
\<close>

section \<open>Queries\<close>

text \<open>\<open>INSERT INTO reviews\<close>, with the constraints of its table.\<close>

definition review_row_ok :: "store \<Rightarrow> review \<Rightarrow> bool" where
  "review_row_ok s r \<longleftrightarrow> rw_id r \<notin> rw_id ` set (s_reviews s) \<and> review_key r \<notin> review_key ` set (s_reviews s) \<and>
     review_subject_valid (rw_subject r) \<and> 1 \<le> rw_rating r \<and> rw_rating r \<le> 5"

definition save_review :: "review \<Rightarrow> (store, unit) op" where
  "save_review r = db_call (\<lambda>s. if review_row_ok s r then (Inr (), s\<lparr>s_reviews := s_reviews s @ [r]\<rparr>) else (Inl constraint_error, s))"

definition exists_for_rater :: "string \<Rightarrow> string \<Rightarrow> review_subject \<Rightarrow> string \<Rightarrow> (store, bool) op" where
  "exists_for_rater oid rater subject sid = db_read (\<lambda>s. Inr (list_ex (\<lambda>r. review_key r = (oid, rater, subject, sid)) (s_reviews s)))"

definition reviews_about :: "store \<Rightarrow> review_subject \<Rightarrow> string \<Rightarrow> review list" where
  "reviews_about s subject sid = filter (\<lambda>r. rw_subject r = subject \<and> rw_subject_id r = sid) (s_reviews s)"

definition rating_in :: "services \<Rightarrow> store \<Rightarrow> review_subject \<Rightarrow> string \<Rightarrow> rating" where
  "rating_in sv s subject sid = (let rs = reviews_about s subject sid in
     \<lparr>ra_subject = subject, ra_subject_id = sid,
      ra_average = (if rs = [] then Fin 0 else sv_mean sv (map rw_rating rs)), ra_count = int (length rs)\<rparr>)"

definition rating_for :: "services \<Rightarrow> review_subject \<Rightarrow> string \<Rightarrow> (store, rating) op" where
  "rating_for sv subject sid = db_read (\<lambda>s. Inr (rating_in sv s subject sid))"

definition reviews_for :: "review_subject \<Rightarrow> string \<Rightarrow> nat \<Rightarrow> (store, review list) op" where
  "reviews_for subject sid n = db_read (\<lambda>s. Inr (take n
     (stable_sort (\<lambda>a b. rw_created_at b < rw_created_at a) (reviews_about s subject sid))))"

text \<open>
  \<open>SaveTicket\<close> inserts, or writes what a resolution changes into the row with that id.  The table
  keeps a resolution that is empty, refunded or rejected.
\<close>

definition ticket_written :: "ticket \<Rightarrow> ticket \<Rightarrow> ticket" where
  "ticket_written t row = row\<lparr>tk_status := tk_status t, tk_resolution := tk_resolution t, tk_note := tk_note t,
     tk_agent_id := tk_agent_id t, tk_resolved_at := tk_resolved_at t\<rparr>"

definition save_ticket :: "ticket \<Rightarrow> (store, unit) op" where
  "save_ticket t = db_call (\<lambda>s.
     if tk_resolution t \<notin> {OtherResolution [], ResolutionRefunded, ResolutionRejected} then (Inl constraint_error, s)
     else if tk_id t \<in> tk_id ` set (s_tickets s)
       then (Inr (), s\<lparr>s_tickets := tbl_set tk_id (tk_id t) (ticket_written t) (s_tickets s)\<rparr>)
     else (Inr (), s\<lparr>s_tickets := s_tickets s @ [t]\<rparr>))"

definition ticket_by_id :: "string \<Rightarrow> (store, ticket option) op" where
  "ticket_by_id tid = db_read (\<lambda>s. Inr (tbl_get tk_id tid (s_tickets s)))"

definition tickets_raised_by :: "string \<Rightarrow> (store, ticket list) op" where
  "tickets_raised_by user = db_read (\<lambda>s. Inr
     (stable_sort (\<lambda>a b. tk_created_at b < tk_created_at a) (filter (\<lambda>t. tk_raised_by t = user) (s_tickets s))))"

definition open_tickets :: "nat \<Rightarrow> (store, ticket list) op" where
  "open_tickets n = db_read (\<lambda>s. Inr (take n
     (stable_sort (\<lambda>a b. tk_created_at a < tk_created_at b) (filter (\<lambda>t. tk_status t = TicketOpen) (s_tickets s)))))"

section \<open>Errors\<close>

fun review_err_text :: "review_err \<Rightarrow> string" where
  "review_err_text ErrNoReviewOrder = ''a review needs the order it is about''"
| "review_err_text ErrNoRater = ''a review needs who is rating''"
| "review_err_text ErrInvalidSubject = ''that is not something a review can be about''"
| "review_err_text ErrNoSubjectID = ''a review needs what it is about''"
| "review_err_text ErrInvalidRating = ''a rating must be between 1 and 5''"

definition review_error :: "review_err \<Rightarrow> error" where
  "review_error e = wrap (Sentinel (review_err_text e)) KindInvalid ''invalid_rating'' ''A rating must be between 1 and 5.''"

fun ticket_err_text :: "ticket_err \<Rightarrow> string" where
  "ticket_err_text ErrNoTicketOrder = ''a support ticket needs the order it is about''"
| "ticket_err_text ErrNoRaisedBy = ''a support ticket needs who raised it''"
| "ticket_err_text ErrNoSubject = ''a support ticket needs a reason''"
| "ticket_err_text ErrTicketClosed = ''that ticket is already resolved''"
| "ticket_err_text ErrNoResolution = ''a resolution must say whether the customer was refunded''"
| "ticket_err_text ErrNoAgent = ''a resolution needs who decided it''"

definition ticket_error :: "ticket_err \<Rightarrow> error" where
  "ticket_error e = (let s = Sentinel (ticket_err_text e) in case e of
     ErrTicketClosed \<Rightarrow> wrap s KindConflict ''ticket_already_resolved'' ''That ticket has already been resolved.''
   | ErrNoResolution \<Rightarrow> wrap s KindInvalid ''invalid_resolution'' ''That is not a way to resolve a ticket.''
   | _ \<Rightarrow> wrap s KindInvalid ''invalid_request'' ''We could not process that.'')"

definition review_storage_error :: "error \<Rightarrow> error" where
  "review_storage_error e = wrap e KindUnavailable ''review_unavailable'' ''We could not reach reviews just now. Please try again.''"

definition refund_error :: "error \<Rightarrow> error" where
  "refund_error e = wrap e KindUnavailable ''refund_failed'' ''We could not process the refund just now. Please try again.''"

definition review_not_found :: error where
  "review_not_found = new_error KindNotFound ''not_found'' ''That could not be found.''"

definition review_not_found_or :: "error \<Rightarrow> error" where
  "review_not_found_or e = (if code_of (Some e) = ''order_not_found'' then review_not_found
     else wrap e KindUnavailable ''review_unavailable'' ''We could not reach reviews just now. Please try again.'')"

definition invalid_review_subject :: "string \<Rightarrow> error" where
  "invalid_review_subject msg = new_error KindInvalid ''invalid_review_subject'' msg"

section \<open>Reviews\<close>

definition verify_subject :: "told_order \<Rightarrow> review_subject \<Rightarrow> string \<Rightarrow> error option" where
  "verify_subject x subject sid = (case subject of
     SubjectMerchant \<Rightarrow> if to_merchant_id x \<noteq> sid
       then Some (invalid_review_subject ''That is not the shop this order was placed with.'') else None
   | SubjectItem \<Rightarrow> if list_ex (\<lambda>l. tl_item_id l = sid) (to_lines x) then None
       else Some (invalid_review_subject ''That item was not part of this order.'')
   | SubjectPartner \<Rightarrow> if list_ex (\<lambda>e. te_status e = StatusDelivered \<and> te_actor e = ActorPartner \<and> te_actor_id e = sid) (to_events x)
       then None else Some (invalid_review_subject ''That partner did not deliver this order.'')
   | OtherSubject _ \<Rightarrow> Some (invalid_review_subject ''That is not something a review can be about.''))"

record submit_request =
  su_order_id :: string
  su_rater_id :: string
  su_subject :: review_subject
  su_subject_id :: string
  su_rating :: int64
  su_comment :: string

definition submit_review :: "submit_request \<Rightarrow> (store, review) op" where
  "submit_review req =
     and_then (or_wrap review_not_found_or (order_told (su_order_id req))) (\<lambda>x.
     if to_customer_id x \<noteq> su_rater_id req
       then raise_err (new_error KindForbidden ''not_your_order'' ''You can only review your own orders.'')
     else if to_status x \<noteq> StatusDelivered
       then raise_err (new_error KindConflict ''order_not_delivered'' ''You can review an order once it has been delivered.'')
     else case verify_subject x (su_subject req) (su_subject_id req) of Some e \<Rightarrow> raise_err e
     | None \<Rightarrow>
       and_then (or_wrap review_storage_error (exists_for_rater (su_order_id req) (su_rater_id req) (su_subject req) (su_subject_id req))) (\<lambda>dup.
       if dup then raise_err (new_error KindConflict ''already_reviewed'' ''You have already reviewed this.'')
       else and_then (fresh_id ''rev'') (\<lambda>rid. and_then clock_now (\<lambda>now.
         and_then (lift_err (lift_domain review_error (new_review rid (su_order_id req) (su_rater_id req) (su_subject req)
           (su_subject_id req) (su_rating req) (su_comment req) now))) (\<lambda>r.
         and_then (or_wrap review_storage_error (save_review r)) (\<lambda>_. ret r))))))"

definition not_kept :: error where
  "not_kept = invalid_review_subject ''That is not something reviews are kept for.''"

definition ratings_of :: "services \<Rightarrow> review_subject \<Rightarrow> string \<Rightarrow> (store, rating) op" where
  "ratings_of sv subject sid = (if \<not> review_subject_valid subject \<or> sid = [] then raise_err not_kept
     else or_wrap review_storage_error (rating_for sv subject sid))"

definition capped :: "int64 \<Rightarrow> nat" where
  "capped limit = nat (if limit \<le> 0 \<or> 50 < limit then 50 else limit)"

definition list_reviews :: "review_subject \<Rightarrow> string \<Rightarrow> int64 \<Rightarrow> (store, review list) op" where
  "list_reviews subject sid limit = (if \<not> review_subject_valid subject \<or> sid = [] then raise_err not_kept
     else or_wrap review_storage_error (reviews_for subject sid (capped limit)))"

text \<open>What the merchant and dispatch modules may ask.\<close>

definition merchant_rating :: "services \<Rightarrow> string \<Rightarrow> (store, rating) op" where
  "merchant_rating sv mid = ratings_of sv SubjectMerchant mid"

definition partner_rating :: "services \<Rightarrow> string \<Rightarrow> (store, rating) op" where
  "partner_rating sv pid = ratings_of sv SubjectPartner pid"

section \<open>Tickets\<close>

definition raise_ticket :: "string \<Rightarrow> string \<Rightarrow> string \<Rightarrow> (store, ticket) op" where
  "raise_ticket oid raised_by subject =
     and_then (or_wrap review_not_found_or (order_told oid)) (\<lambda>x.
     if to_customer_id x \<noteq> raised_by
       then raise_err (new_error KindForbidden ''not_your_order'' ''You can only raise a ticket about your own orders.'')
     else and_then (fresh_id ''tkt'') (\<lambda>tid. and_then clock_now (\<lambda>now.
       and_then (lift_err (lift_domain ticket_error (new_ticket tid oid raised_by subject now))) (\<lambda>t.
       and_then (or_wrap review_storage_error (save_ticket t)) (\<lambda>_. ret t)))))"

definition resolve_ticket :: "services \<Rightarrow> string \<Rightarrow> string \<Rightarrow> resolution \<Rightarrow> string \<Rightarrow> (store, ticket) op" where
  "resolve_ticket sv tid agent res note_text =
     and_then (or_wrap review_storage_error (ticket_by_id tid)) (\<lambda>found. case found of
       None \<Rightarrow> raise_err review_not_found
     | Some t \<Rightarrow>
         and_then clock_now (\<lambda>now.
         and_then (lift_err (lift_domain ticket_error (ticket_resolve agent res note_text now t))) (\<lambda>u.
         and_then (when_op (res = ResolutionRefunded)
             (or_wrap refund_error (refund_order sv (tk_order_id u) (''support ticket '' @ tk_id u)))) (\<lambda>_.
         and_then (or_wrap review_storage_error (save_ticket u)) (\<lambda>_. ret u)))))"

definition my_tickets :: "string \<Rightarrow> (store, ticket list) op" where
  "my_tickets user = or_wrap review_storage_error (tickets_raised_by user)"

definition open_queue :: "int64 \<Rightarrow> (store, ticket list) op" where
  "open_queue limit = or_wrap review_storage_error (open_tickets (capped limit))"

section \<open>Handlers\<close>

definition required_subject :: "string \<Rightarrow> string \<Rightarrow> (review_subject \<Rightarrow> (store, 'a) op) \<Rightarrow> (store, 'a) op" where
  "required_subject subject sid go = (if subject = [] \<or> sid = []
     then raise_err (invalid_review_subject ''subject and subject_id are required.'') else go (review_subject_of subject))"

definition http_submit :: "string \<Rightarrow> string \<Rightarrow> string \<Rightarrow> string \<Rightarrow> int64 \<Rightarrow> string \<Rightarrow> (store, review) op" where
  "http_submit user oid subject sid rating comment = submit_review
     \<lparr>su_order_id = oid, su_rater_id = user, su_subject = review_subject_of subject, su_subject_id = sid,
      su_rating = rating, su_comment = comment\<rparr>"

definition http_reviews :: "string \<Rightarrow> string \<Rightarrow> int64 \<Rightarrow> (store, review list) op" where
  "http_reviews subject sid limit = required_subject subject sid (\<lambda>k. list_reviews k sid limit)"

definition http_rating :: "services \<Rightarrow> string \<Rightarrow> string \<Rightarrow> (store, rating) op" where
  "http_rating sv subject sid = required_subject subject sid (\<lambda>k. ratings_of sv k sid)"

definition http_resolve :: "services \<Rightarrow> string \<Rightarrow> string \<Rightarrow> string \<Rightarrow> string \<Rightarrow> (store, ticket) op" where
  "http_resolve sv agent tid res note_text = resolve_ticket sv tid agent (resolution_of res) note_text"

end
