(* ===== verification/Promise_Reviews.thy ===== *)
theory Promise_Reviews
  imports Promise_Requests Review_App
begin

text \<open>
  Reviews and tickets keep the promise: a review that is saved is of a delivered order by its
  customer, and a ticket that is saved as refunded is of an order whose money was given back.
\<close>

lemma told_bind:
  "and_then (or_wrap g (order_told oid)) f =
     and_then (or_wrap g (or_wrap order_not_found_or (order_by_id oid))) (\<lambda>x. f (told_order_of x))"
  by (auto simp: fun_eq_iff order_told_def and_then_def or_wrap_def ret_def split: prod.split sum.split)

section \<open>Rows\<close>

lemma safe_save_review:
  assumes "lasting K" "new_review rid oid c k sid n cm now = Inr r" "\<And>s. K s \<Longrightarrow> reviewable s oid c k sid"
  shows "safe K (save_review r) (\<lambda>_ _. True)"
  unfolding save_review_def
proof (rule safe_call [OF assms(1)])
  fix s u t assume ok: "store_ok s" and "K s"
    and st: "(if review_row_ok s r then (Inr (), s\<lparr>s_reviews := s_reviews s @ [r]\<rparr>) else (Inl constraint_error, s)) = (u, t)"
  show "evolves s t \<and> store_ok t \<and> (\<forall>x. u = Inr x \<longrightarrow> True)"
  proof (cases "review_row_ok s r")
    case True
    then have t: "t = s\<lparr>s_reviews := s_reviews s @ [r]\<rparr>" using st by simp
    have ev: "evolves s t" by (simp add: t evolves_def rows_refl evolves_refls)
    have "reviewable s (rw_order_id r) (rw_rater_id r) (rw_subject r) (rw_subject_id r)"
      using assms(2) assms(3) [OF \<open>K s\<close>] by (auto simp: new_review_def split: if_splits)
    then have "reviewable t (rw_order_id r) (rw_rater_id r) (rw_subject r) (rw_subject_id r)"
      by (rule reviewable_mono [OF ev])
    moreover have "reviews_ok s" using ok by (simp add: store_ok_def)
    ultimately have "reviews_ok t"
      using True reviewable_mono [OF ev] by (auto simp: t reviews_ok_def review_row_ok_def)
    then show ?thesis using ev ok_other_tables [OF ev ok] by (simp add: t store_ok_def)
  next
    case False
    then show ?thesis using st ok evolves_refl by auto
  qed
qed

text \<open>The row a ticket is written to keeps who raised it and about which order.\<close>

lemma safe_save_ticket:
  assumes "lasting K" "\<And>s. K s \<Longrightarrow> ticket_row_holds s t"
    and "tk_status t = TicketOpen \<and> tk_resolution t \<noteq> ResolutionRefunded \<or> (\<forall>s. K s \<longrightarrow> ticket_there t0 s \<and> tk_id t0 = tk_id t \<and> tk_order_id t0 = tk_order_id t)"
  shows "safe K (save_ticket t) (\<lambda>_ _. True)"
  unfolding save_ticket_def
proof (rule safe_call [OF assms(1)])
  fix s u v assume ok: "store_ok s" and K: "K s"
    and st: "(if tk_resolution t \<notin> {OtherResolution [], ResolutionRefunded, ResolutionRejected} then (Inl constraint_error, s)
     else if tk_id t \<in> tk_id ` set (s_tickets s)
       then (Inr (), s\<lparr>s_tickets := tbl_set tk_id (tk_id t) (ticket_written t) (s_tickets s)\<rparr>)
     else (Inr (), s\<lparr>s_tickets := s_tickets s @ [t]\<rparr>)) = (u, v)"
  have T: "keyed tk_id (s_tickets s)" "\<forall>x\<in>set (s_tickets s). ticket_row_holds s x"
    using ok by (simp_all add: store_ok_def tickets_ok_def)
  have new: "ticket_row_holds s t" using assms(2) K by blast
  show "evolves s v \<and> store_ok v \<and> (\<forall>x. u = Inr x \<longrightarrow> True)"
  proof (cases "v = s")
    case True
    then show ?thesis using ok evolves_refl by auto
  next
    case False
    let ?w = "tbl_set tk_id (tk_id t) (ticket_written t) (s_tickets s)"
    have written: "ticket_row_holds s (ticket_written t x)" if x: "x \<in> set (s_tickets s)" "tk_id x = tk_id t" for x
    proof (cases "tk_status t = TicketOpen \<and> tk_resolution t \<noteq> ResolutionRefunded")
      case True
      then show ?thesis using T(2) x(1) by (auto simp: ticket_row_holds_def ticket_written_def)
    next
      case False
      then have "ticket_there t0 s" "tk_id t0 = tk_id t" "tk_order_id t0 = tk_order_id t" using assms(3) K by auto
      then obtain y where "y \<in> set (s_tickets s)" "tk_id y = tk_id t" "tk_order_id y = tk_order_id t"
        by (auto simp: ticket_there_def ticket_evolves_def)
      then have "tk_order_id x = tk_order_id t" using keyed_unique [OF T(1) x(1), of y] x(2) by simp
      then show ?thesis using T(2) x(1) new by (auto simp: ticket_row_holds_def ticket_written_def)
    qed
    consider "v = s\<lparr>s_tickets := ?w\<rparr>" | "v = s\<lparr>s_tickets := s_tickets s @ [t]\<rparr>" "tk_id t \<notin> tk_id ` set (s_tickets s)"
      using st False by (auto split: if_splits)
    then show ?thesis
    proof cases
      case 1
      have "rows_evolve ticket_evolves (s_tickets s) ?w"
        unfolding tbl_set_def by (rule rows_map) (simp add: ticket_evolves_def ticket_written_def)
      then have ev: "evolves s v" by (simp add: 1 evolves_def rows_refl evolves_refls)
      have "keyed tk_id ?w" using T(1) by (simp add: keyed_def tbl_set_def ticket_written_def o_def if_distrib cong: if_cong)
      then have "tickets_ok v"
        using T(2) written ticket_row_mono [OF ev] by (auto simp: 1 tickets_ok_def tbl_set_def)
      then show ?thesis using ev ok_other_tables [OF ev ok] by (simp add: 1 store_ok_def)
    next
      case 2
      have ev: "evolves s v" by (simp add: 2(1) evolves_def rows_refl rows_append evolves_refls)
      have "tickets_ok v"
        using T 2(2) new ticket_row_mono [OF ev] by (auto simp: 2(1) tickets_ok_def keyed_def)
      then show ?thesis using ev ok_other_tables [OF ev ok] by (simp add: 2(1) store_ok_def)
    qed
  qed
qed

section \<open>Use cases\<close>

lemma verify_subject_of:
  "verify_subject (told_order_of x) k sid = None \<Longrightarrow> subject_of_order x k sid"
  by (auto simp: verify_subject_def subject_of_order_def told_order_of_def told_line_of_def told_event_of_def list_ex_iff
      split: review_subject.splits if_splits)

lemma seen_reviewable:
  assumes "order_seen x s" "o_status x = StatusDelivered" "subject_of_order x k sid"
  shows "reviewable s (o_id x) (o_customer_id x) k sid"
proof -
  obtain y where y: "y \<in> set (s_orders s)" "same_order x y" "o_lines y = o_lines x" "set (o_events x) \<subseteq> set (o_events y)"
    "order_moves\<^sup>*\<^sup>* (o_status x) (o_status y)" using assms(1) by (auto simp: order_seen_def)
  then have "o_status y = StatusDelivered" using delivered_stays assms(2) by blast
  moreover have "subject_of_order y k sid"
    using assms(3) y(2-4) by (auto simp: subject_of_order_def same_order_def split: review_subject.splits)
  ultimately show ?thesis using y(1,2) by (auto simp: reviewable_def same_order_def)
qed

lemma safe_submit_review:
  assumes "lasting K"
  shows "safe K (submit_review req) (\<lambda>_ _. True)"
  unfolding submit_review_def told_bind
proof (rule safe_bind [OF safe_wrap [OF safe_wrap [OF safe_order_read [OF assms]]]], intro safe_if safe_raise)
  fix x
  let ?K = "\<lambda>s. K s \<and> order_seen x s \<and> o_id x = su_order_id req"
  assume c: "\<not> to_customer_id (told_order_of x) \<noteq> su_rater_id req" "\<not> to_status (told_order_of x) \<noteq> StatusDelivered"
  have K: "lasting ?K" by (intro lasting_intros assms)
  have save: "safe ?K (save_review r) (\<lambda>_ _. True)"
    if v: "verify_subject (told_order_of x) (su_subject req) (su_subject_id req) = None"
      "new_review rid (su_order_id req) (su_rater_id req) (su_subject req) (su_subject_id req) n cm now = Inr r" for rid n cm now r
  proof (rule safe_save_review [OF K v(2)])
    fix s assume "?K s"
    then show "reviewable s (su_order_id req) (su_rater_id req) (su_subject req) (su_subject_id req)"
      using seen_reviewable [of x s, OF _ _ verify_subject_of [OF v(1)]] c by (simp add: told_order_of_def)
  qed
  have exists: "safe ?K (or_wrap review_storage_error (exists_for_rater a b d e)) (\<lambda>_ _. True)" for a b d e
    unfolding exists_for_rater_def by (rule safe_wrap [OF safe_any_read [OF K]])
  show "safe ?K (case verify_subject (told_order_of x) (su_subject req) (su_subject_id req) of Some e \<Rightarrow> raise_err e
     | None \<Rightarrow>
       and_then (or_wrap review_storage_error (exists_for_rater (su_order_id req) (su_rater_id req) (su_subject req) (su_subject_id req))) (\<lambda>dup.
       if dup then raise_err (new_error KindConflict ''already_reviewed'' ''You have already reviewed this.'')
       else and_then (fresh_id ''rev'') (\<lambda>rid. and_then clock_now (\<lambda>now.
         and_then (lift_err (lift_domain review_error (new_review rid (su_order_id req) (su_rater_id req) (su_subject req)
           (su_subject_id req) (su_rating req) (su_comment req) now))) (\<lambda>r.
         and_then (or_wrap review_storage_error (save_review r)) (\<lambda>_. ret r)))))) (\<lambda>_ _. True)"
    by (auto split: option.split intro!: safe_raise safe_then [OF exists] safe_if safe_then [OF safe_fresh] safe_then [OF safe_clock]
        safe_lift_then safe_then [OF safe_wrap [OF save]] safe_done)
qed

lemma seen_customer: "order_seen x s \<Longrightarrow> order_of_customer s (o_id x) (o_customer_id x)"
  by (auto simp: order_seen_def order_of_customer_def same_order_def)

lemma safe_raise_ticket:
  assumes "lasting K"
  shows "safe K (raise_ticket oid c subject) (\<lambda>_ _. True)"
  unfolding raise_ticket_def told_bind
proof (rule safe_bind [OF safe_wrap [OF safe_wrap [OF safe_order_read [OF assms]]]], intro safe_if safe_raise)
  fix x
  let ?K = "\<lambda>s. K s \<and> order_seen x s \<and> o_id x = oid"
  assume c: "\<not> to_customer_id (told_order_of x) \<noteq> c"
  have K: "lasting ?K" by (intro lasting_intros assms)
  have save: "safe ?K (save_ticket t) (\<lambda>_ _. True)" if t: "new_ticket tid oid c subject now = Inr t" for tid now t
  proof (rule safe_save_ticket [OF K])
    have f: "tk_order_id t = oid" "tk_raised_by t = c" "tk_status t = TicketOpen" "tk_resolution t = OtherResolution []"
      using t by (auto simp: new_ticket_def split: if_splits)
    show "ticket_row_holds s t" if "?K s" for s
      using that f c seen_customer [of x s] by (auto simp: ticket_row_holds_def told_order_of_def)
    show "tk_status t = TicketOpen \<and> tk_resolution t \<noteq> ResolutionRefunded \<or>
        (\<forall>s. ?K s \<longrightarrow> ticket_there t s \<and> tk_id t = tk_id t \<and> tk_order_id t = tk_order_id t)" using f by simp
  qed
  show "safe ?K (and_then (fresh_id ''tkt'') (\<lambda>tid. and_then clock_now (\<lambda>now.
       and_then (lift_err (lift_domain ticket_error (new_ticket tid oid c subject now))) (\<lambda>t.
       and_then (or_wrap review_storage_error (save_ticket t)) (\<lambda>_. ret t))))) (\<lambda>_ _. True)"
    by (auto intro!: safe_then [OF safe_fresh] safe_then [OF safe_clock] safe_lift_then safe_then [OF safe_wrap [OF save]] safe_done)
qed

lemma safe_resolve_ticket:
  assumes "lasting K"
  shows "safe K (resolve_ticket sv tid agent res note_text) (\<lambda>_ _. True)"
  unfolding resolve_ticket_def
proof (rule safe_bind [where M = "\<lambda>found s. case found of None \<Rightarrow> True
    | Some t \<Rightarrow> ticket_there t s \<and> order_of_customer s (tk_order_id t) (tk_raised_by t)"])
  show "safe K (or_wrap review_storage_error (ticket_by_id tid)) (\<lambda>found s. case found of None \<Rightarrow> True
      | Some t \<Rightarrow> ticket_there t s \<and> order_of_customer s (tk_order_id t) (tk_raised_by t))"
    unfolding ticket_by_id_def
    by (rule safe_wrap, rule safe_read [OF assms])
      (auto simp: ticket_there_def store_ok_def tickets_ok_def ticket_row_holds_def dest!: tbl_get_Some split: option.splits
        intro: ticket_evolves_refl)
  fix found
  show "safe (\<lambda>s. K s \<and> (case found of None \<Rightarrow> True
      | Some t \<Rightarrow> ticket_there t s \<and> order_of_customer s (tk_order_id t) (tk_raised_by t))) (case found of
       None \<Rightarrow> raise_err review_not_found
     | Some t \<Rightarrow> and_then clock_now (\<lambda>now.
         and_then (lift_err (lift_domain ticket_error (ticket_resolve agent res note_text now t))) (\<lambda>u.
         and_then (when_op (res = ResolutionRefunded)
             (or_wrap refund_error (refund_order sv (tk_order_id u) (''support ticket '' @ tk_id u)))) (\<lambda>_.
         and_then (or_wrap review_storage_error (save_ticket u)) (\<lambda>_. ret u))))) (\<lambda>_ _. True)"
  proof (cases found)
    case (Some t)
    let ?K = "\<lambda>s. K s \<and> ticket_there t s \<and> order_of_customer s (tk_order_id t) (tk_raised_by t)"
    have K: "lasting ?K" by (intro lasting_intros assms)
    have "safe ?K (and_then (when_op (res = ResolutionRefunded)
             (or_wrap refund_error (refund_order sv (tk_order_id u) (''support ticket '' @ tk_id u)))) (\<lambda>_.
         and_then (or_wrap review_storage_error (save_ticket u)) (\<lambda>_. ret u))) (\<lambda>_ _. True)"
      if "ticket_resolve agent res note_text now t = Inr u" for now u
    proof -
      from ticket_resolve_Inr [OF that] have u: "tk_id u = tk_id t" "tk_order_id u = tk_order_id t" "tk_raised_by u = tk_raised_by t"
        "tk_resolution u = res" "tk_agent_id u \<noteq> []" "res \<in> {ResolutionRefunded, ResolutionRejected}" by auto
      let ?L = "\<lambda>s. ?K s \<and> (res = ResolutionRefunded \<longrightarrow> money_back s (tk_order_id u))"
      have L: "lasting ?L" by (intro lasting_intros assms)
      have refund: "safe ?K (when_op (res = ResolutionRefunded)
          (or_wrap refund_error (refund_order sv (tk_order_id u) (''support ticket '' @ tk_id u))))
          (\<lambda>_ s. res = ResolutionRefunded \<longrightarrow> money_back s (tk_order_id u))"
        by (cases "res = ResolutionRefunded")
          (auto intro!: safe_ret safe_wrap safe_weaken [OF safe_refund_back [OF K]])
      have save: "safe ?L (save_ticket u) (\<lambda>_ _. True)"
      proof (rule safe_save_ticket [OF L])
        show "ticket_row_holds s u" if "?L s" for s
          using that u by (auto simp: ticket_row_holds_def)
        show "tk_status u = TicketOpen \<and> tk_resolution u \<noteq> ResolutionRefunded \<or>
            (\<forall>s. ?L s \<longrightarrow> ticket_there t s \<and> tk_id t = tk_id u \<and> tk_order_id t = tk_order_id u)" using u by simp
      qed
      show ?thesis
        by (rule safe_bind [OF refund]) (rule safe_then [OF safe_wrap [OF save] safe_done])
    qed
    then show ?thesis unfolding Some by (simp, intro safe_then [OF safe_clock] safe_lift_then) simp
  qed (simp add: safe_raise)
qed

section \<open>Reads\<close>

lemma safe_required_subject:
  "(\<And>k. safe K (go k) Q) \<Longrightarrow> safe K (required_subject subject sid go) Q"
  unfolding required_subject_def by (intro safe_if safe_raise)

lemma safe_review_reads:
  assumes "lasting K"
  shows "safe K (http_reviews subject sid limit) (\<lambda>_ _. True)" "safe K (http_rating sv subject sid) (\<lambda>_ _. True)"
    "safe K (my_tickets user) (\<lambda>_ _. True)" "safe K (open_queue limit) (\<lambda>_ _. True)"
  unfolding http_reviews_def http_rating_def list_reviews_def ratings_of_def rating_for_def reviews_for_def my_tickets_def
    tickets_raised_by_def open_queue_def open_tickets_def
  by (intro safe_required_subject safe_if safe_raise safe_wrap safe_any_read assms)+

end
