(* ===== verification/Requests.thy ===== *)
theory Requests
  imports Promise_Reviews
begin

text \<open>
  The requests the order, dispatch, payment and review modules answer (their HTTP handlers), and what
  holds of the store whatever requests are made, however they interrupt each other and whatever
  fails on the way.
\<close>

section \<open>The requests\<close>

text \<open>The \<open>caller\<close> of the three handlers, which differ in what they tell somebody unknown.\<close>

definition unauthenticated :: "string \<Rightarrow> error" where
  "unauthenticated msg = new_error KindUnauthorized ''unauthenticated'' msg"

definition signed_in :: "string \<Rightarrow> string \<Rightarrow> (store, 'a) op \<Rightarrow> (store, 'a) op" where
  "signed_in msg user m = (if user = [] then raise_err (unauthenticated msg) else m)"

definition order_signin :: string where "order_signin = ''Please sign in to see your orders.''"
definition dispatch_signin :: string where "dispatch_signin = ''Please sign in to take deliveries.''"
definition payment_signin :: string where "payment_signin = ''Please sign in.''"

text \<open>
  \<open>cancel\<close>, \<open>shopTransition\<close> (with the owner's shops as the merchant module answers them) and
  \<open>adminTransition\<close> of \<open>modules/order/transport/http/handler.go\<close>.
\<close>

definition http_cancel :: "services \<Rightarrow> string \<Rightarrow> string \<Rightarrow> string \<Rightarrow> (store, order_view) op" where
  "http_cancel sv user oid reason = signed_in order_signin user (execute sv oid StatusCancelled reason
     \<lparr>cl_actor = ActorCustomer, cl_id = user, cl_merchant_ids = []\<rparr>)"

datatype shop_move = ShopAccept | ShopReject | ShopPreparing | ShopReady

fun shop_target :: "shop_move \<Rightarrow> order_status" where
  "shop_target ShopAccept = StatusAccepted"
| "shop_target ShopReject = StatusRejected"
| "shop_target ShopPreparing = StatusPreparing"
| "shop_target ShopReady = StatusReady"

definition merchant_caller :: "string \<Rightarrow> error + string list \<Rightarrow> string \<Rightarrow> (store, caller) op" where
  "merchant_caller user owned shop = signed_in order_signin user (and_then (lift_err owned) (\<lambda>shops.
     if shop \<in> set shops then ret \<lparr>cl_actor = ActorMerchant, cl_id = user, cl_merchant_ids = shops\<rparr>
     else raise_err (new_error KindNotFound ''merchant_not_found'' ''We could not find that shop.'')))"

definition http_shop :: "services \<Rightarrow> string \<Rightarrow> error + string list \<Rightarrow> string \<Rightarrow> string \<Rightarrow> shop_move \<Rightarrow> string
    \<Rightarrow> (store, order_view) op" where
  "http_shop sv user owned shop oid mv reason =
     and_then (merchant_caller user owned shop) (\<lambda>c.
     if mv = ShopReject \<and> reason = [] then raise_err reason_required
     else execute sv oid (shop_target mv) reason c)"

definition http_admin :: "services \<Rightarrow> string \<Rightarrow> string \<Rightarrow> order_status \<Rightarrow> string \<Rightarrow> (store, order_view) op" where
  "http_admin sv user oid to reason = signed_in order_signin user (
     if \<not> order_status_valid to
     then raise_err (new_error KindInvalid ''unknown_status'' ''That is not a state an order can be in.'')
     else execute sv oid to reason \<lparr>cl_actor = ActorAdmin, cl_id = user, cl_merchant_ids = []\<rparr>)"

datatype request =
    RqPlace string place_request
  | RqCancel string string string
  | RqCancelStatus string string
  | RqReadMine string string
  | RqMyOrders string bool int64 nat
  | RqShop string "error + string list" string string shop_move string
  | RqShopOrders string "error + string list" string bool int64 nat
  | RqAdmin string string order_status string
  | RqCheckout string string
  | RqWebhook "error + webhook_event"
  | RqSimulate string string bool string
  | RqRefund string string
  | RqPaymentOf string
  | RqLedgerOf string
  | RqShopOrder string "error + string list" string string
  | RqMe string
  | RqMyPayment string string
  | RqMyLedger string
  | RqReconcile string "string list" string
  | RqRegister string string string string
  | RqAvailability string availability
  | RqPreference string preference
  | RqLocation string f64 f64
  | RqFeed string
  | RqMyJobs string bool int64 nat
  | RqAccept string string
  | RqDecline string string
  | RqCollect string string
  | RqDeliver string string
  | RqFail string string string
  | RqSweep nat
  | RqReview string string string string int64 string
  | RqReviews string string string int64
  | RqRating string string string
  | RqRaise string string string
  | RqMyTickets string
  | RqOpenTickets int64
  | RqResolve string string string string

definition forget :: "(store, 'a) op \<Rightarrow> (store, unit) op" where
  "forget m = and_then m (\<lambda>_. ret ())"

fun run_request :: "services \<Rightarrow> place_services \<Rightarrow> request \<Rightarrow> (store, unit) op" where
  "run_request sv pv (RqPlace u req) = signed_in order_signin u (forget (place sv pv u req))"
| "run_request sv pv (RqCancel u oid reason) = forget (http_cancel sv u oid reason)"
| "run_request sv pv (RqCancelStatus u oid) = signed_in order_signin u (forget (cancel_status sv oid
     \<lparr>cl_actor = ActorCustomer, cl_id = u, cl_merchant_ids = []\<rparr>))"
| "run_request sv pv (RqReadMine u oid) = signed_in order_signin u (forget (read_one sv oid
     \<lparr>cl_actor = ActorCustomer, cl_id = u, cl_merchant_ids = []\<rparr>))"
| "run_request sv pv (RqMyOrders u live n off) = signed_in order_signin u (forget (of_customer u live n off))"
| "run_request sv pv (RqShop u owned shop oid mv reason) = forget (http_shop sv u owned shop oid mv reason)"
| "run_request sv pv (RqShopOrders u owned shop live n off) =
     and_then (merchant_caller u owned shop) (\<lambda>_. forget (of_merchant shop live n off))"
| "run_request sv pv (RqAdmin u oid to reason) = forget (http_admin sv u oid to reason)"
| "run_request sv pv (RqCheckout u oid) = signed_in payment_signin u (forget (start_checkout sv u oid))"
| "run_request sv pv (RqWebhook verified) = handle_webhook sv verified"
| "run_request sv pv (RqSimulate pid u ok reason) = signed_in payment_signin u (simulate_event sv pid u ok reason)"
| "run_request sv pv (RqRefund oid reason) =
     and_then (refund_order sv oid reason) (\<lambda>_. forget (payment_for_order oid [] True))"
| "run_request sv pv (RqPaymentOf oid) = forget (payment_for_order oid [] True)"
| "run_request sv pv (RqLedgerOf pid) = forget (my_ledger pid)"
| "run_request sv pv (RqShopOrder u owned shop oid) =
     and_then (merchant_caller u owned shop) (\<lambda>c. forget (read_one sv oid c))"
| "run_request sv pv (RqMe u) = signed_in dispatch_signin u (forget (me u))"
| "run_request sv pv (RqMyPayment u oid) = signed_in payment_signin u (forget (payment_for_order oid u False))"
| "run_request sv pv (RqMyLedger u) = signed_in payment_signin u (forget (my_ledger_for_user u))"
| "run_request sv pv (RqReconcile pid cids ref) = forget (reconcile pid cids ref)"
| "run_request sv pv (RqRegister u name phone vehicle) = signed_in dispatch_signin u (forget (register_partner u name phone vehicle))"
| "run_request sv pv (RqAvailability u a) = signed_in dispatch_signin u (forget (set_availability u a))"
| "run_request sv pv (RqPreference u p) = signed_in dispatch_signin u (forget (set_preference u p))"
| "run_request sv pv (RqLocation u lat lng) = signed_in dispatch_signin u (forget (report_location u lat lng))"
| "run_request sv pv (RqFeed u) = signed_in dispatch_signin u (forget (feed sv u))"
| "run_request sv pv (RqMyJobs u live n off) = signed_in dispatch_signin u (forget (my_jobs u live n off))"
| "run_request sv pv (RqAccept u jid) = signed_in dispatch_signin u (forget (accept_job sv u jid))"
| "run_request sv pv (RqDecline u jid) = signed_in dispatch_signin u (forget (decline_job sv u jid))"
| "run_request sv pv (RqCollect u jid) = signed_in dispatch_signin u (forget (collect_job sv u jid))"
| "run_request sv pv (RqDeliver u jid) = signed_in dispatch_signin u (forget (deliver_job sv u jid))"
| "run_request sv pv (RqFail u jid reason) = signed_in dispatch_signin u (forget (fail_job sv u jid reason))"
| "run_request sv pv (RqSweep n) = forget (sweep sv n)"
| "run_request sv pv (RqReview u oid subject sid stars remark) =
     signed_in payment_signin u (forget (http_submit u oid subject sid stars remark))"
| "run_request sv pv (RqReviews u subject sid n) = signed_in payment_signin u (forget (http_reviews subject sid n))"
| "run_request sv pv (RqRating u subject sid) = signed_in payment_signin u (forget (http_rating sv subject sid))"
| "run_request sv pv (RqRaise u oid subject) = signed_in payment_signin u (forget (raise_ticket oid u subject))"
| "run_request sv pv (RqMyTickets u) = signed_in payment_signin u (forget (my_tickets u))"
| "run_request sv pv (RqOpenTickets n) = forget (open_queue n)"
| "run_request sv pv (RqResolve u tid res remark) = signed_in payment_signin u (forget (http_resolve sv u tid res remark))"

section \<open>Every request keeps the promise\<close>

abbreviation "no_fact \<equiv> (\<lambda>_ :: store. True)"

lemma safe_forget: "safe K m (\<lambda>_ _. True) \<Longrightarrow> safe K (forget m) (\<lambda>_ _. True)"
  unfolding forget_def by (rule safe_then [OF _ safe_done])

lemma safe_signed_in: "safe K m (\<lambda>_ _. True) \<Longrightarrow> safe K (signed_in msg u m) (\<lambda>_ _. True)"
  unfolding signed_in_def by (intro safe_if safe_raise)

lemma no_fact_lasting: "lasting no_fact"
  by (rule lasting_const)

lemma safe_execute_person:
  "cl_actor c \<in> {ActorCustomer, ActorMerchant, ActorAdmin} \<Longrightarrow> safe no_fact (execute sv oid to reason c) (\<lambda>_ _. True)"
  by (rule safe_execute [OF no_fact_lasting]) (auto simp: warrant_def)

lemma safe_merchant_caller:
  "safe no_fact (merchant_caller u owned shop) (\<lambda>c _. cl_actor c = ActorMerchant)"
  unfolding merchant_caller_def signed_in_def
  by (intro safe_if safe_raise safe_lift_then safe_ret) simp

lemma safe_http_shop: "safe no_fact (http_shop sv u owned shop oid mv reason) (\<lambda>_ _. True)"
  unfolding http_shop_def
proof (rule safe_bind [OF safe_merchant_caller])
  fix c :: caller
  show "safe (\<lambda>s. True \<and> cl_actor c = ActorMerchant)
     (if mv = ShopReject \<and> reason = [] then raise_err reason_required else execute sv oid (shop_target mv) reason c)
     (\<lambda>_ _. True)"
    by (cases "cl_actor c = ActorMerchant")
      (auto intro: safe_raise safe_execute_person safe_absurd)
qed

lemma safe_list_orders: "safe no_fact (list_orders f a) (\<lambda>_ _. True)"
proof -
  have "safe no_fact (orders_matching f) (\<lambda>_ _. True)"
    unfolding orders_matching_def
    by (intro safe_then [OF safe_any_read] safe_if safe_done no_fact_lasting)
  then show ?thesis unfolding list_orders_def
    by (rule safe_then [OF safe_wrap]) (auto split: prod.split intro: safe_done)
qed

lemma safe_order_reads:
  "safe no_fact (cancel_status sv oid c) (\<lambda>_ _. True)" "safe no_fact (read_one sv oid c) (\<lambda>_ _. True)"
  unfolding cancel_status_def read_one_def
  by (intro safe_then [OF safe_wrap [OF safe_read_order]] no_fact_lasting safe_lift_then safe_then [OF safe_clock]
      safe_lift safe_if safe_sum safe_done, simp?)+

lemma safe_payment_for_order: "safe no_fact (payment_for_order oid u admin) (\<lambda>_ _. True)"
  unfolding payment_for_order_def
  by (rule safe_then [OF safe_wrap [OF safe_True [OF safe_latest [OF no_fact_lasting]]]])
    (auto split: option.split intro: safe_raise safe_done)

lemma safe_request: "safe no_fact (run_request sv pv q) (\<lambda>_ _. True)"
proof (cases q)
  case (RqShopOrders u owned shop live n off)
  then show ?thesis
    by (auto simp: of_merchant_def intro!: safe_then [OF safe_True [OF safe_merchant_caller]] safe_forget safe_list_orders)
next
  case (RqShopOrder u owned shop oid)
  then show ?thesis
    by (auto intro!: safe_then [OF safe_True [OF safe_merchant_caller]] safe_forget safe_order_reads)
next
  case (RqRefund oid reason)
  then show ?thesis by (auto intro!: safe_then [OF safe_refund] safe_forget safe_payment_for_order no_fact_lasting)
next
  case (RqMe u)
  then show ?thesis
    by (auto simp: me_def intro!: safe_forget safe_signed_in safe_then [OF safe_mine] safe_done no_fact_lasting)
next
  case (RqAdmin u oid to reason)
  then show ?thesis
    by (auto simp: http_admin_def intro!: safe_forget safe_signed_in safe_if safe_raise safe_execute_person)
next
  case (RqCancel u oid reason)
  then show ?thesis
    by (auto simp: http_cancel_def intro!: safe_forget safe_signed_in safe_execute_person)
qed (simp_all add: of_customer_def set_availability_def set_preference_def report_location_def safe_forget safe_signed_in
    safe_place safe_order_reads safe_list_orders safe_http_shop safe_checkout safe_handle_webhook safe_simulate
    safe_payment_for_order safe_my_ledger safe_my_ledger_for_user safe_reconcile safe_register safe_change_partner
    safe_feed safe_my_jobs safe_job_actions safe_sweep no_fact_lasting http_submit_def http_resolve_def safe_submit_review
    safe_raise_ticket safe_resolve_ticket safe_review_reads)

lemma request_keeps_promise:
  assumes "\<And>n s. store_ok s \<Longrightarrow> evolves s (w_others w n s) \<and> store_ok (w_others w n s)"
    and "store_ok (w_store w)"
  shows "evolves (w_store w) (w_store (snd (run_request sv pv q w))) \<and>
    store_ok (w_store (snd (run_request sv pv q w)))"
proof -
  have "relies promise w" using assms(1) by (simp add: relies_def promise_def)
  moreover obtain r v where run: "run_request sv pv q w = (r, v)" by fastforce
  ultimately have "promise (w_store w) (w_store v)"
    using holdsD [OF safe_request [unfolded safe_def] _ _ _ run] assms(2) by simp
  then show ?thesis using assms(2) by (simp add: promise_def run)
qed

section \<open>Histories\<close>

text \<open>
  Everything that can happen to the store between two moments: nothing, one thing after another,
  a change to the carts (their module is not part of this model), and a whole request, between
  whose calls again anything may happen.
\<close>

inductive history :: "services \<Rightarrow> place_services \<Rightarrow> (store \<Rightarrow> store) \<Rightarrow> bool" for sv pv where
  nothing: "history sv pv (\<lambda>s. s)"
| later: "history sv pv f \<Longrightarrow> history sv pv g \<Longrightarrow> history sv pv (\<lambda>s. g (f s))"
| carts: "history sv pv (\<lambda>s. s\<lparr>s_carts := cs (s_carts s)\<rparr>)"
| request: "(\<And>n. history sv pv (w_others w n)) \<Longrightarrow>
    history sv pv (\<lambda>s. w_store (snd (run_request sv pv q (w\<lparr>w_store := s\<rparr>))))"

lemma history_promise: "history sv pv f \<Longrightarrow> store_ok s \<Longrightarrow> evolves s (f s) \<and> store_ok (f s)"
proof (induction arbitrary: s rule: history.induct)
  case nothing
  then show ?case by (simp add: evolves_refl)
next
  case (later f g)
  then show ?case using evolves_trans by blast
next
  case (carts cs)
  have ev: "evolves s (s\<lparr>s_carts := cs (s_carts s)\<rparr>)" by (simp add: evolves_def rows_refl evolves_refls)
  then show ?case using ok_other_tables [OF ev carts] by (simp add: store_ok_def)
next
  case (request w q)
  show ?case using request_keeps_promise [of "w\<lparr>w_store := s\<rparr>"] request by simp
qed

definition reachable :: "services \<Rightarrow> place_services \<Rightarrow> store \<Rightarrow> bool" where
  "reachable sv pv s \<longleftrightarrow> (\<exists>f. history sv pv f \<and> s = f empty_store)"

lemma reachable_ok: "reachable sv pv s \<Longrightarrow> store_ok s"
  using history_promise empty_store_ok by (auto simp: reachable_def)

lemma reachable_start: "reachable sv pv empty_store"
  unfolding reachable_def by (rule exI [of _ "\<lambda>s. s"]) (simp add: history.nothing)

text \<open>A world nobody else writes to, where every call succeeds.\<close>

definition calm :: "store \<Rightarrow> store world" where
  "calm s = \<lparr>w_store = s, w_calls = 0, w_fault = \<lambda>_. False, w_others = \<lambda>_ t. t, w_reads = 0,
     w_clock = \<lambda>n. int n + 1, w_draws = 0, w_entropy = \<lambda>n. [n, 1, 2, 3]\<rparr>"

section \<open>What holds in every history\<close>

lemma history_event_status:
  assumes "order_history_ok x" "e \<in> set (o_events x)" "order_terminal (ev_status e)"
  shows "o_status x = ev_status e"
proof -
  let ?hs = "map ev_status (o_events x)"
  have h: "successively order_moves ?hs" "last ?hs = o_status x" "?hs \<noteq> []"
    using assms(1) by (simp_all add: order_history_ok_def Let_def)
  obtain i where "i < length ?hs" "?hs ! i = ev_status e"
    using assms(2) by (metis in_set_conv_nth length_map nth_map)
  moreover then have "i = length ?hs - 1" using order_life.terminal_last [OF h(1)] assms(3) by auto
  ultimately show ?thesis using h(2,3) by (simp add: last_conv_nth)
qed

lemma history_status_in:
  "order_history_ok x \<Longrightarrow> o_status x \<in> ev_status ` set (o_events x)"
  by (metis (no_types) last_in_set list.set_map order_history_ok_def)

text \<open>A path that gets anywhere from an unpaid order goes through \<open>StatusPlaced\<close>.\<close>

lemma path_through:
  assumes "successively order_moves hs" "hs \<noteq> []" "P (last hs)" "\<not> P (hd hs)"
    and "\<And>s t. order_moves s t \<Longrightarrow> \<not> P s \<Longrightarrow> P t \<Longrightarrow> t = goal"
  shows "goal \<in> set hs"
  using assms(1-4)
proof (induction hs)
  case (Cons h hs)
  show ?case
  proof (cases hs)
    case Nil
    then show ?thesis using Cons.prems by simp
  next
    case (Cons t ts)
    then have mv: "order_moves h t" "successively order_moves hs" using Cons.prems(1) by simp_all
    show ?thesis
    proof (cases "P t")
      case True
      then show ?thesis using assms(5) [OF mv(1)] Cons.prems(4) Cons by simp
    next
      case False
      then show ?thesis using Cons.IH [OF mv(2)] Cons.prems(3) Cons by simp
    qed
  qed
qed simp

definition beyond_pickup :: "order_status \<Rightarrow> bool" where
  "beyond_pickup s \<longleftrightarrow> s = StatusPickedUp \<or> s = StatusDelivered \<or> s = StatusFailed"

lemma beyond_pickup_path:
  assumes "order_history_ok x" "beyond_pickup (o_status x)"
  shows "StatusPickedUp \<in> ev_status ` set (o_events x)"
proof -
  have h: "successively order_moves (map ev_status (o_events x))" "map ev_status (o_events x) \<noteq> []"
    "last (map ev_status (o_events x)) = o_status x" "hd (map ev_status (o_events x)) = initial_status (o_payment x)"
    using assms(1) by (simp_all add: order_history_ok_def Let_def)
  have "StatusPickedUp \<in> set (map ev_status (o_events x))"
    by (rule path_through [OF h(1,2), where P = beyond_pickup])
      (use h(3,4) assms(2) in \<open>auto simp: beyond_pickup_def order_moves_cases initial_status_def\<close>)
  then show ?thesis by simp
qed

lemma one_job:
  "jobs_ok s \<Longrightarrow> j \<in> set (s_jobs s) \<Longrightarrow> k \<in> set (s_jobs s) \<Longrightarrow> j_order_id j = j_order_id k \<Longrightarrow> j = k"
  using keyed_unique [of j_order_id "s_jobs s" j k] by (simp add: jobs_ok_def)

end
