(* ===== verification/Example_Day.thy ===== *)
theory Example_Day
  imports Requests Ops
begin

text \<open>
  A small deployment whose outside services answer with constants, and the rules by which the
  simplifier runs requests on it.
\<close>

definition example_services :: services where
  "example_services = \<lparr>sv_setting = (\<lambda>loc key. if key = ''dispatch.max_concurrent_jobs'' then Inr 2
       else if key = ''dispatch.partner_radius'' then Inr 4000 else Inr 300),
     sv_area = (\<lambda>lat lng. Inr no_placement), sv_distance = (\<lambda>a b c d. Fin 40), sv_gateway_name = manual_gateway,
     sv_checkout = manual_checkout, sv_refund = manual_refund,
     sv_mean = (\<lambda>rs. Fin 5)\<rparr>"

definition example_address :: address where
  "example_address = \<lparr>ad_id = ''a'', ad_label = [], ad_recipient_name = ''r'', ad_recipient_phone = [],
     ad_line1 = [], ad_line2 = [], ad_single_line = [], ad_lat = Fin 24, ad_lng = Fin 90, ad_area_code = [],
     ad_area_name = [], ad_instructions = []\<rparr>"

definition example_place_services :: place_services where
  "example_place_services = \<lparr>pv_address = (\<lambda>u a. Inr example_address), pv_display_name = (\<lambda>u. Inr ''r''),
     pv_merchant = (\<lambda>m. Inr \<lparr>pk_merchant_id = m, pk_name = [], pk_phone = [], pk_single_line = [],
       pk_lat = Fin 24, pk_lng = Fin 90\<rparr>),
     pv_accepting = (\<lambda>m. Inr True),
     pv_reach = (\<lambda>lat lng m. Inr \<lparr>re_reachable = True, re_reason = [], re_distance_m = Fin 40,
       re_required_level = 0, re_placement = no_placement\<rparr>),
     pv_quote = (\<lambda>loc sub d l. Inr \<lparr>pq_subtotal = sub, pq_delivery = 0, pq_surcharge = 0, pq_total = sub,
       pq_free_delivery = True, pq_expanded = False, pq_distance_m = d\<rparr>)\<rparr>"

definition example_basket :: basket where
  "example_basket = \<lparr>b_merchant_id = ''m'',
     b_lines = [\<lparr>bl_kind = ''item'', bl_target_id = ''i'', bl_name = [], bl_unit_price_minor = 250,
       bl_options = [], bl_quantity = 1, bl_note = []\<rparr>],
     b_orderable = True, b_blocker = [], b_subtotal_minor = 250\<rparr>"

section \<open>Undisturbed requests\<close>

text \<open>Request number \<open>n\<close> runs undisturbed, at its own time and with its own random numbers.\<close>

definition calm_at :: "nat \<Rightarrow> store \<Rightarrow> nat \<Rightarrow> nat \<Rightarrow> nat \<Rightarrow> store world" where
  "calm_at n s c r d = \<lparr>w_store = s, w_calls = c, w_fault = \<lambda>_. False, w_others = \<lambda>_ t. t, w_reads = r,
     w_clock = \<lambda>k. int n + 1, w_draws = d, w_entropy = \<lambda>k. [n, k]\<rparr>"

fun call_result :: "nat \<Rightarrow> nat \<Rightarrow> nat \<Rightarrow> nat \<Rightarrow> (error + 'a) \<times> store \<Rightarrow> (error + 'a) \<times> store world" where
  "call_result n c r d (a, t) = (a, calm_at n t (c + 1) r d)"

lemma run_calm:
  "db_call f (calm_at n s c r d) = call_result n c r d (f s)"
  "db_read g (calm_at n s c r d) = (g s, calm_at n s (c + 1) r d)"
  "clock_now (calm_at n s c r d) = (Inr (int n + 1), calm_at n s c (r + 1) d)"
  "fresh_id pre (calm_at n s c r d) =
     (Inr (new_id pre (unix_milli (int n + 1)) [n, d]), calm_at n s c (r + 1) (d + 1))"
  "fresh_code (calm_at n s c r d) = (Inr (code_of_draws [n, d]), calm_at n s c r (d + 1))"
  "w_store (calm_at n s c r d) = s"
  by (auto simp: db_call_def db_read_def calm_at_def clock_now_def fresh_id_def and_then_def fresh_code_def Let_def
      split: prod.split)

definition do_request :: "nat \<Rightarrow> request \<Rightarrow> store \<Rightarrow> store" where
  "do_request n q s = w_store (snd (run_request example_services example_place_services q (calm_at n s 0 0 0)))"

lemma history_do_request: "history example_services example_place_services (do_request n q)"
  unfolding do_request_def
  using history.request [of example_services example_place_services "calm_at n empty_store 0 0 0" q] history.nothing
  by (simp add: calm_at_def)

lemma alphabet_nth_eq: "alphabet ! (i mod 32) = alphabet ! (j mod 32) \<longleftrightarrow> i mod 32 = j mod 32"
  by (metis alphabet_facts(1) mod_less_divisor option.inject zero_less_numeral)

lemma new_id_differs:
  "a mod 32 \<noteq> c mod 32 \<or> b mod 32 \<noteq> d mod 32 \<Longrightarrow> new_id p ms [a, b] \<noteq> new_id p ms' [c, d]"
  by (auto simp: new_id_def rand_chars_def rand_part_def alphabet_nth_eq)

lemma new_id_not_empty [simp]: "new_id p ms r \<noteq> []" "[] \<noteq> new_id p ms r"
proof -
  have "0 < length (new_id p ms r)" by (simp add: new_id_def time_chars_def)
  then show "new_id p ms r \<noteq> []" by auto
  then show "[] \<noteq> new_id p ms r" by simp
qed

text \<open>
  One evening on the model, from an empty store: a rider signs up, a customer orders, the shop
  cooks, the rider delivers and the cash is booked; and another in which the order is paid online.
  These are the concrete inputs the theorems on histories are applied to.
\<close>

abbreviation "cust \<equiv> ''c''"
abbreviation "owner \<equiv> ''o''"
abbreviation "rider_user \<equiv> ''u''"
abbreviation "now_at n \<equiv> unix_milli n"

definition rider_id :: string where "rider_id = new_id ''PTR'' (unix_milli 1) [0, 0]"
definition order_id1 :: string where "order_id1 = new_id ''ORD'' (unix_milli 3) [2, 0]"

lemma rider_id_ne [simp]: "rider_id \<noteq> []" "[] \<noteq> rider_id" by (simp_all add: rider_id_def)
lemma order_id1_ne [simp]: "order_id1 \<noteq> []" by (simp add: order_id1_def)

definition the_rider :: "availability \<Rightarrow> int \<Rightarrow> int \<Rightarrow> int \<Rightarrow> partner" where
  "the_rider a carrying offered accepted = \<lparr>p_id = rider_id, p_user_id = rider_user, p_name = ''n'', p_phone = ''p'',
     p_vehicle = [], p_availability = a, p_preference = PreferAny, p_lat = Fin 0, p_lng = Fin 0,
     p_carrying = carrying, p_offered = offered, p_accepted = accepted\<rparr>"

lemma rider_fields [simp]:
  "p_id (the_rider a c f g) = rider_id" "p_user_id (the_rider a c f g) = rider_user"
  "p_availability (the_rider a c f g) = a" "p_carrying (the_rider a c f g) = c"
  "p_offered (the_rider a c f g) = f" "p_accepted (the_rider a c f g) = g" "p_preference (the_rider a c f g) = PreferAny"
  "(the_rider a c f g)\<lparr>p_availability := b\<rparr> = the_rider b c f g"
  "(the_rider a c f g)\<lparr>p_carrying := h\<rparr> = the_rider a h f g"
  "(the_rider a c f g)\<lparr>p_offered := h, p_accepted := k\<rparr> = the_rider a c h k"
  "(the_rider a c f g)\<lparr>p_offered := h\<rparr> = the_rider a c h g"
  "(the_rider a c f g)\<lparr>p_accepted := h\<rparr> = the_rider a c f h"
  "partner_written (the_rider b d h k) (the_rider a c f g) = the_rider b d f g"
  by (simp_all add: the_rider_def partner_written_def)

definition with_rider :: "partner \<Rightarrow> (string \<times> basket) list \<Rightarrow> store" where
  "with_rider p carts = \<lparr>s_orders = [], s_order_keys = [], s_jobs = [], s_partners = [p],
     s_payments = [], s_collections = [], s_carts = carts, s_notes = [], s_reviews = [], s_tickets = []\<rparr>"

lemmas run_rules = Let_def run_ops run_calm signed_in_def forget_def tbl_get_def tbl_set_def lift_domain_def

lemma registered:
  "do_request 0 (RqRegister rider_user ''n'' ''p'' []) empty_store = with_rider (the_rider Offline 0 0 0) []"
  by (simp add: do_request_def run_rules register_partner_def partner_of_user_def empty_store_def new_partner_def
      save_partner_def with_rider_def the_rider_def rider_id_def cong: next_op_cong wrap_result_cong del: op_simps One_nat_def)

lemma on_shift:
  "do_request 1 (RqAvailability rider_user Available) (with_rider (the_rider Offline 0 0 0) []) =
     with_rider (the_rider Available 0 0 0) []"
  by (simp add: do_request_def run_rules set_availability_def change_partner_def mine_def partner_of_user_def
      save_partner_def with_availability_def with_rider_def cong: next_op_cong wrap_result_cong del: op_simps One_nat_def)

definition fill_cart :: "store \<Rightarrow> store" where
  "fill_cart s = s\<lparr>s_carts := [(cust, example_basket)]\<rparr>"

definition the_order :: "payment_method \<Rightarrow> order_status \<Rightarrow> instant \<Rightarrow> order_event list \<Rightarrow> order" where
  "the_order pay st upd evs = \<lparr>o_id = order_id1, o_code = code_of_draws [2, 2], o_customer_id = cust, o_merchant_id = ''m'',
     o_status = st, o_payment = pay,
     o_lines = [\<lparr>ol_id = new_id ''OLN'' (unix_milli 3) [2, 3], ol_kind = ''item'', ol_target_id = ''i'', ol_name = [],
       ol_unit_price = taka 250, ol_options = [], ol_quantity = 1, ol_note = []\<rparr>],
     o_charges = \<lparr>ch_subtotal = taka 250, ch_delivery = taka 0, ch_expansion_surcharge = taka 0,
       ch_total = taka 250, ch_free_delivery = True, ch_expanded = False, ch_distance_m = Fin 40\<rparr>,
     o_destination = destination_of example_address ''r'',
     o_pickup = \<lparr>pk_merchant_id = ''m'', pk_name = [], pk_phone = [], pk_single_line = [], pk_lat = Fin 24, pk_lng = Fin 90\<rparr>,
     o_expansion_level = 0, o_events = evs, o_placed_at = 3, o_updated_at = upd\<rparr>"

definition event0 :: "payment_method \<Rightarrow> order_event" where
  "event0 pay = \<lparr>ev_id = new_id ''OEV'' (unix_milli 3) [2, 1], ev_status = initial_status pay, ev_actor = ActorCustomer,
     ev_actor_id = cust, ev_reason = [], ev_at = 3\<rparr>"

definition placed_store :: "payment_method \<Rightarrow> store" where
  "placed_store pay = \<lparr>s_orders = [the_order pay (initial_status pay) 3 [event0 pay]], s_order_keys = [((cust, ''k''), order_id1)],
     s_jobs = [], s_partners = [the_rider Available 0 0 0], s_payments = [], s_collections = [], s_carts = [], s_notes = [], s_reviews = [], s_tickets = []\<rparr>"

lemma placed:
  assumes "pay = PaymentCash \<or> pay = PaymentOnline"
  shows "do_request 2 (RqPlace cust \<lparr>pr_address_id = ''a'', pr_payment = pay, pr_idempotency_key = ''k''\<rparr>)
     (fill_cart (with_rider (the_rider Available 0 0 0) [])) = placed_store pay"
  using assms
  by (auto simp add: do_request_def run_rules place_def by_idempotency_key_def fill_cart_def with_rider_def place_new_def
     payment_valid_def current_cart_def example_basket_def checkout_facts_of_def example_place_services_def
     example_services_def example_address_def order_rules_for_def charges_of_def build_order_def line_of_basket_def
     new_order_def compare_money_def is_negative_def is_zero_money_def create_order_def
     order_insert_ok_def line_row_ok_def order_status_valid_def initial_status_def
     all_line_ids_def all_event_ids_def claim_idempotency_key_def clear_cart_def
     placed_store_def the_order_def event0_def order_id1_def destination_of_def
     cong: next_op_cong wrap_result_cong simp del: op_simps One_nat_def)


section \<open>The shop and the rider\<close>

definition event_at :: "int \<Rightarrow> order_status \<Rightarrow> actor \<Rightarrow> string \<Rightarrow> order_event" where
  "event_at n st a who = \<lparr>ev_id = new_id ''OEV'' (unix_milli (n + 1)) [nat n, 0], ev_status = st, ev_actor = a,
     ev_actor_id = who, ev_reason = [], ev_at = n + 1\<rparr>"

definition order_store :: "order \<Rightarrow> job list \<Rightarrow> partner \<Rightarrow> payment list \<Rightarrow> collection list \<Rightarrow> notice list \<Rightarrow> store" where
  "order_store x js p ps cs ns = \<lparr>s_orders = [x], s_order_keys = [((cust, ''k''), order_id1)], s_jobs = js,
     s_partners = [p], s_payments = ps, s_collections = cs, s_carts = [], s_notes = ns, s_reviews = [], s_tickets = []\<rparr>"

lemma order_store_sel [simp]:
  "s_orders (order_store x js p ps cs ns) = [x]" "s_jobs (order_store x js p ps cs ns) = js"
  "s_partners (order_store x js p ps cs ns) = [p]" "s_payments (order_store x js p ps cs ns) = ps"
  "s_collections (order_store x js p ps cs ns) = cs" "s_notes (order_store x js p ps cs ns) = ns"
  "(order_store x js p ps cs ns)\<lparr>s_orders := [y]\<rparr> = order_store y js p ps cs ns"
  "(order_store x js p ps cs ns)\<lparr>s_jobs := ks\<rparr> = order_store x ks p ps cs ns"
  "(order_store x js p ps cs ns)\<lparr>s_partners := [q]\<rparr> = order_store x js q ps cs ns"
  "(order_store x js p ps cs ns)\<lparr>s_payments := qs\<rparr> = order_store x js p qs cs ns"
  "(order_store x js p ps cs ns)\<lparr>s_collections := ds\<rparr> = order_store x js p ps ds ns"
  "(order_store x js p ps cs ns)\<lparr>s_notes := ms\<rparr> = order_store x js p ps cs ms"
  by (simp_all add: order_store_def)

lemma the_order_sel [simp]:
  "o_id (the_order pay st t es) = order_id1" "o_status (the_order pay st t es) = st"
  "o_events (the_order pay st t es) = es" "o_payment (the_order pay st t es) = pay"
  "o_merchant_id (the_order pay st t es) = ''m''" "o_customer_id (the_order pay st t es) = cust"
  "ch_total (o_charges (the_order pay st t es)) = taka 250"
  "ch_distance_m (o_charges (the_order pay st t es)) = Fin 40"
  "o_code (the_order pay st t es) = code_of_draws [2, 2]"
  "o_pickup (the_order pay st t es) = \<lparr>pk_merchant_id = ''m'', pk_name = [], pk_phone = [], pk_single_line = [],
     pk_lat = Fin 24, pk_lng = Fin 90\<rparr>"
  "o_destination (the_order pay st t es) = destination_of example_address ''r''"
  "order_written e (the_order pay st t es) = the_order pay (ev_status e) (ev_at e) (es @ [e])"
  "(the_order pay st t es)\<lparr>o_lines := o_lines (the_order pay st t es), o_events := fs\<rparr> = the_order pay st t fs"
  "(the_order pay st t es)\<lparr>o_status := tt, o_updated_at := u, o_events := fs\<rparr> = the_order pay tt u fs"
  "(the_order pay st t es)\<lparr>o_events := fs\<rparr> = the_order pay st t fs"
  by (simp_all add: the_order_def order_written_def)

definition shop_does :: "nat \<Rightarrow> shop_move \<Rightarrow> store \<Rightarrow> store" where
  "shop_does n mv = do_request n (RqShop owner (Inr [''m'']) ''m'' order_id1 mv [])"

lemmas execute_rules = execute_def order_by_id_def lines_of_def events_of_def may_touch_def check_window_def
  order_move_def can_transition_def order_terminal_def with_event_id_def append_transition_def tbl_cas_def
  all_event_ids_def order_status_valid_def known_actors_def new_id_differs tell_dispatch_def tell_payment_def
  tell_customer_def worth_a_note_def event0_def event_at_def event_before_def

lemma accepted:
  "shop_does 3 ShopAccept (order_store (the_order pay StatusPlaced t [event0 pay]) js p ps cs ns) =
     order_store (the_order pay StatusAccepted 4 [event0 pay, event_at 3 StatusAccepted ActorMerchant owner]) js p ps cs ns"
  by (simp add: shop_does_def do_request_def run_rules http_shop_def merchant_caller_def execute_rules
     cong: next_op_cong wrap_result_cong del: op_simps One_nat_def)

lemma prepared:
  "shop_does 4 ShopPreparing (order_store (the_order pay StatusAccepted t
       [event0 pay, event_at 3 StatusAccepted ActorMerchant owner]) js p ps cs ns) =
     order_store (the_order pay StatusPreparing 5 [event0 pay, event_at 3 StatusAccepted ActorMerchant owner,
       event_at 4 StatusPreparing ActorMerchant owner]) js p ps cs ns"
  by (simp add: shop_does_def do_request_def run_rules http_shop_def merchant_caller_def execute_rules
     cong: next_op_cong wrap_result_cong del: op_simps One_nat_def)

definition shop_events :: "payment_method \<Rightarrow> order_event list" where
  "shop_events pay = [event0 pay, event_at 3 StatusAccepted ActorMerchant owner,
     event_at 4 StatusPreparing ActorMerchant owner, event_at 5 StatusReady ActorMerchant owner]"

definition job_id1 :: string where "job_id1 = new_id ''JOB'' (unix_milli 6) [5, 1]"

definition the_job :: "job_status \<Rightarrow> instant \<Rightarrow> instant \<Rightarrow> job" where
  "the_job st expires upd = \<lparr>j_id = job_id1, j_order_id = order_id1, j_code = code_of_draws [2, 2], j_status = st, j_partner_id = rider_id,
     j_pickup = \<lparr>pl_name = [], pl_phone = [], pl_single_line = [], pl_lat = Fin 24, pl_lng = Fin 90\<rparr>,
     j_destination = \<lparr>pl_name = ''r'', pl_phone = [], pl_single_line = [], pl_lat = Fin 24, pl_lng = Fin 90\<rparr>,
     j_distance_m = Fin 40, j_band = BandShort, j_placement = no_placement, j_passed_by = [], j_reason = [], j_attempts = 1,
     j_offered_at = 6, j_offer_expires_at = expires, j_created_at = 6, j_updated_at = upd\<rparr>"

lemma float_consts: "of_int64 300 = Fin 300" "of_int64 4000 = Fin 4000"
  by (simp_all add: of_int64_exact)

lemma one_candidate:
  "assigner_next (new_assigner [c] rad) = Some (c, \<lparr>as_heap = [], as_radius_m = rad\<rparr>)"
proof -
  have "heap_up lt [x] 0 = [x]" "heap_down lt [x] 0 0 = [x]" for lt and x :: scored
    by (subst heap_up.simps, simp) (subst heap_down.simps, simp)
  then show ?thesis by (simp add: assigner_next_def new_assigner_def heap_push_def heap_pop_def heap_swap_def)
qed

lemma made_ready:
  "shop_does 5 ShopReady (order_store (the_order pay StatusPreparing t [event0 pay, event_at 3 StatusAccepted ActorMerchant owner,
       event_at 4 StatusPreparing ActorMerchant owner]) [] (the_rider Available 0 0 0) ps cs ns) =
     order_store (the_order pay StatusReady 6 (shop_events pay)) [the_job JobOffered (6 + 300 * second) 6]
       (the_rider Available 0 1 0) ps cs ns"
  by (simp add: shop_does_def do_request_def run_rules http_shop_def merchant_caller_def execute_rules shop_events_def
     offer_def job_for_order_def offer_request_of_def resolve_rules_def example_services_def float_consts
     new_job_def band_for_def fle_def create_job_def offer_round_def available_within_def preference_matches_def
     pool_for_def everybody_def candidate_of_def can_take_def one_candidate job_offer_def job_terminal_def
     save_job_def job_row_ok_def job_written_def record_offer_def job_to_contract_def partner_by_id_def candidate_pool_def
     the_job_def job_id1_def destination_of_def example_address_def no_placement_def
     mul64_def wrap64_def second_def add64_def fits64_def
     cong: next_op_cong wrap_result_cong del: op_simps One_nat_def)

lemma job_taken:
  "do_request 6 (RqAccept rider_user job_id1)
     (order_store x [the_job JobOffered (6 + 300 * second) t] (the_rider Available 0 1 0) ps cs ns) =
   order_store x [the_job JobAssigned zero_time 7] (the_rider Available 1 1 1) ps cs ns"
  by (simp add: do_request_def run_rules accept_job_def act_def mine_def partner_of_user_def job_by_id_def the_job_def
     job_accept_def held_by_def job_terminal_def offer_lapsed_def second_def save_job_def tbl_cas_def job_row_ok_def
     job_written_def settle_def record_offer_def settled_partner_def save_partner_def add64_def fits64_def
     cong: next_op_cong wrap_result_cong del: op_simps One_nat_def)

lemmas job_rules = act_def mine_def partner_of_user_def job_by_id_def the_job_def job_collect_def job_deliver_def
  job_move_def held_by_def job_terminal_def save_job_def tbl_cas_def job_row_ok_def job_written_def settle_def
  settled_partner_def save_partner_def advance_def

definition note_for :: "order_status \<Rightarrow> notice" where
  "note_for st = \<lparr>n_customer = cust, n_code = code_of_draws [2, 2], n_status = st, n_reason = []\<rparr>"

lemma picked_up:
  "do_request 7 (RqCollect rider_user job_id1) (order_store (the_order pay StatusReady t (shop_events pay))
     [the_job JobAssigned zero_time u] (the_rider Available 1 1 1) ps cs []) =
   order_store (the_order pay StatusPickedUp 8 (shop_events pay @ [event_at 7 StatusPickedUp ActorPartner rider_id]))
     [the_job JobCollected zero_time 8] (the_rider Available 1 1 1) ps cs [note_for StatusPickedUp]"
  by (simp add: do_request_def run_rules collect_job_def job_rules execute_rules shop_events_def notify_def note_for_def
     cong: next_op_cong wrap_result_cong del: op_simps One_nat_def)

lemma handed_over:
  "do_request 8 (RqDeliver rider_user job_id1) (order_store (the_order PaymentCash StatusPickedUp t
       (shop_events PaymentCash @ [event_at 7 StatusPickedUp ActorPartner rider_id]))
     [the_job JobCollected zero_time u] (the_rider Available 1 1 1) ps [] ns) =
   order_store (the_order PaymentCash StatusDelivered 9 (shop_events PaymentCash @
       [event_at 7 StatusPickedUp ActorPartner rider_id, event_at 8 StatusDelivered ActorPartner rider_id]))
     [the_job JobDelivered zero_time 9] (the_rider Available 0 1 1) ps
     [\<lparr>co_id = new_id ''COL'' (unix_milli 9) [8, 1], co_order_id = order_id1, co_partner_id = rider_id,
       co_amount = taka 250, co_status = CashHeld, co_remittance_ref = [], co_collected_at = 9,
       co_remitted_at = zero_time, co_created_at = 9, co_updated_at = 9\<rparr>] (ns @ [note_for StatusDelivered])"
  by (simp add: do_request_def run_rules deliver_job_def job_rules execute_rules shop_events_def notify_def note_for_def
     record_collection_def new_collection_def is_zero_money_def is_negative_def create_collection_def
     cong: next_op_cong wrap_result_cong del: op_simps One_nat_def)

section \<open>The cash evening\<close>

definition evening :: store where
  "evening = order_store (the_order PaymentCash StatusDelivered 9 (shop_events PaymentCash @
       [event_at 7 StatusPickedUp ActorPartner rider_id, event_at 8 StatusDelivered ActorPartner rider_id]))
     [the_job JobDelivered zero_time 9] (the_rider Available 0 1 1) []
     [\<lparr>co_id = new_id ''COL'' (unix_milli 9) [8, 1], co_order_id = order_id1, co_partner_id = rider_id,
       co_amount = taka 250, co_status = CashHeld, co_remittance_ref = [], co_collected_at = 9,
       co_remitted_at = zero_time, co_created_at = 9, co_updated_at = 9\<rparr>]
     [note_for StatusPickedUp, note_for StatusDelivered]"

lemma reachable_step:
  "reachable example_services example_place_services s \<Longrightarrow> do_request n q s = t \<Longrightarrow>
     reachable example_services example_place_services t"
  unfolding reachable_def using history_do_request [of n q] history.later by fastforce

lemma reachable_cart:
  "reachable sv pv s \<Longrightarrow> reachable sv pv (fill_cart s)"
  unfolding reachable_def fill_cart_def
  using history.carts [of sv pv "\<lambda>_. [(cust, example_basket)]"] history.later by fastforce

lemma placed_reachable:
  assumes "pay = PaymentCash \<or> pay = PaymentOnline"
  shows "reachable example_services example_place_services (placed_store pay)"
  by (rule reachable_step [OF reachable_cart [OF reachable_step [OF reachable_step [OF reachable_start registered] on_shift]]
        placed [OF assms]])

lemma placed_store_cash: "placed_store PaymentCash = order_store (the_order PaymentCash StatusPlaced 3 [event0 PaymentCash])
    [] (the_rider Available 0 0 0) [] [] []"
  by (simp add: placed_store_def order_store_def initial_status_def)

lemma evening_reachable: "reachable example_services example_place_services evening"
proof -
  note start = placed_reachable [of PaymentCash, simplified placed_store_cash, simplified]
  note steps = accepted [of PaymentCash] prepared [of PaymentCash] made_ready [of PaymentCash]
  show ?thesis unfolding evening_def
    using reachable_step [OF reachable_step [OF reachable_step [OF reachable_step [OF reachable_step [OF reachable_step [OF start
      accepted [unfolded shop_does_def]] prepared [unfolded shop_does_def]] made_ready [unfolded shop_does_def]]
      job_taken] picked_up] handed_over] by simp
qed

section \<open>The paid order\<close>

definition pay_id1 :: string where "pay_id1 = new_id ''PAY'' (unix_milli 4) [3, 0]"

definition the_payment :: "pay_status \<Rightarrow> instant \<Rightarrow> payment" where
  "the_payment st upd = \<lparr>pay_id = pay_id1, pay_order_id = order_id1, pay_customer_id = cust, pay_gateway = manual_gateway,
     pay_reference = pay_id1, pay_gateway_ref = pay_id1, pay_amount = taka 250, pay_status = st,
     pay_failure_reason = [], pay_refund_reason = [], pay_created_at = 4, pay_updated_at = upd\<rparr>"

lemma placed_store_online: "placed_store PaymentOnline = order_store (the_order PaymentOnline StatusPendingPayment 3
    [event0 PaymentOnline]) [] (the_rider Available 0 0 0) [] [] []"
  by (simp add: placed_store_def order_store_def initial_status_def)

lemma checked_out:
  "do_request 3 (RqCheckout cust order_id1) (order_store (the_order PaymentOnline StatusPendingPayment t es) js p [] cs ns) =
   order_store (the_order PaymentOnline StatusPendingPayment t es) js p [the_payment PayPending 4] cs ns"
  by (simp add: do_request_def run_rules start_checkout_def order_for_payment_def order_by_id_def lines_of_def events_of_def
     pending_for_order_def example_services_def manual_gateway_def new_payment_def is_zero_money_def is_negative_def
     manual_checkout_def create_payment_def the_payment_def pay_id1_def
     cong: next_op_cong wrap_result_cong del: op_simps One_nat_def)

definition paid_event :: webhook_event where
  "paid_event = \<lparr>we_reference = pay_id1, we_gateway_ref = pay_id1, we_succeeded = True, we_reason = [], we_amount_minor = 250\<rparr>"

lemma paid_for:
  "do_request 4 (RqWebhook (Inr paid_event))
     (order_store (the_order PaymentOnline StatusPendingPayment t [event0 PaymentOnline]) js p [the_payment PayPending u] cs ns) =
   order_store (the_order PaymentOnline StatusPlaced 5 [event0 PaymentOnline, event_at 4 StatusPlaced ActorSystem ''payment''])
     js p [the_payment PayCaptured 5] cs ns"
  by (simp add: do_request_def run_rules handle_webhook_def apply_event_def paid_event_def payment_by_reference_def
     the_payment_def settle_payment_def pay_capture_def compare_money_def save_payment_def payment_written_def
     mark_paid_def execute_rules
     cong: next_op_cong wrap_result_cong del: op_simps One_nat_def)

definition paid_order :: order where
  "paid_order = the_order PaymentOnline StatusPlaced 5 [event0 PaymentOnline, event_at 4 StatusPlaced ActorSystem ''payment'']"

definition paid_store :: store where
  "paid_store = order_store paid_order [] (the_rider Available 0 0 0) [the_payment PayCaptured 5] [] []"

lemma paid_reachable: "reachable example_services example_place_services paid_store"
  unfolding paid_store_def paid_order_def
  using reachable_step [OF reachable_step [OF placed_reachable [of PaymentOnline, simplified placed_store_online, simplified]
    checked_out] paid_for] .

end
