(* ===== verification/Histories.thy ===== *)
theory Histories
  imports Example_Day
begin

text \<open>
  What holds after any history of requests, whatever their order, their interleaving and the
  faults between them, each theorem applied to an evening of the example.
\<close>

text \<open>C1: Whatever request is made, if the store is in order and all the other requests only make
  promised changes between its calls, then, whatever the clock, the random numbers and the faults
  of the database, it only makes promised changes and leaves the store in order.\<close>

theorem request_promise:
  assumes "\<And>n s. store_ok s \<Longrightarrow> evolves s (w_others w n s) \<and> store_ok (w_others w n s)"
    and "store_ok (w_store w)"
  shows "evolves (w_store w) (w_store (snd (run_request sv pv q w))) \<and>
    store_ok (w_store (snd (run_request sv pv q w)))"
  using assms by (rule request_keeps_promise)

lemma request_promise_witness:
  "evolves empty_store (w_store (snd (run_request example_services example_place_services
     (RqRegister ''u'' ''n'' ''p'' ''v'') (calm empty_store)))) \<and>
   store_ok (w_store (snd (run_request example_services example_place_services
     (RqRegister ''u'' ''n'' ''p'' ''v'') (calm empty_store))))"
  using request_promise [of "calm empty_store" example_services example_place_services "RqRegister ''u'' ''n'' ''p'' ''v''"]
    empty_store_ok
  by (simp add: calm_def evolves_refl)

text \<open>C2: An order that shows as delivered was marked ready by its shop, and there is exactly one job for
  it: the rider named on that job picked the goods up and the same rider handed them over.\<close>

theorem delivered_by_its_rider:
  assumes "reachable sv pv s" "x \<in> set (s_orders s)" "o_status x = StatusDelivered"
  shows "\<exists>j\<in>set (s_jobs s). j_order_id j = o_id x \<and> j_status j = JobDelivered \<and> j_partner_id j \<noteq> [] \<and>
    (\<forall>k\<in>set (s_jobs s). j_order_id k = o_id x \<longrightarrow> k = j) \<and>
    StatusReady \<in> ev_status ` set (o_events x) \<and>
    (\<forall>e\<in>set (o_events x). ev_status e \<in> {StatusPickedUp, StatusDelivered} \<longrightarrow>
       ev_actor e = ActorPartner \<and> ev_actor_id e = j_partner_id j) \<and>
    {StatusPickedUp, StatusDelivered} \<subseteq> ev_status ` set (o_events x)"
proof -
  from assms(1) have ok: "orders_ok s" "jobs_ok s" using reachable_ok by (auto simp: store_ok_def)
  then have h: "order_history_ok x" and ev: "\<forall>e\<in>set (o_events x). event_ok s x e"
    using assms(2) by (simp_all add: orders_ok_def)
  obtain d where d: "d \<in> set (o_events x)" "ev_status d = StatusDelivered"
    using history_status_in [OF h] assms(3) by auto
  then have "event_ok s x d" using ev by blast
  then obtain j where j: "j \<in> set (s_jobs s)" "j_order_id j = o_id x" "j_status j = JobDelivered"
    "j_partner_id j \<noteq> []" using d(2) by (auto simp: event_ok_def handed_over_by_def)
  have only: "k = j" if "k \<in> set (s_jobs s)" "j_order_id k = o_id x" for k
    using one_job [OF ok(2) that(1) j(1)] that(2) j(2) by simp
  have "reached s (o_id x) StatusReady" using ok(2) j(1,2) by (auto simp: jobs_ok_def job_row_holds_def)
  then obtain y where "y \<in> set (s_orders s)" "o_id y = o_id x" "StatusReady \<in> ev_status ` set (o_events y)"
    by (auto simp: reached_def)
  then have ready: "StatusReady \<in> ev_status ` set (o_events x)"
    using ok(1) assms(2) keyed_unique [of o_id "s_orders s" y x] by (simp add: orders_ok_def)
  have picked: "StatusPickedUp \<in> ev_status ` set (o_events x)"
    by (rule beyond_pickup_path [OF h]) (simp add: assms(3) beyond_pickup_def)
  have actors: "ev_actor e = ActorPartner \<and> ev_actor_id e = j_partner_id j"
    if e: "e \<in> set (o_events x)" "ev_status e \<in> {StatusPickedUp, StatusDelivered}" for e
  proof -
    have "event_ok s x e" using ev e(1) by blast
    then have "ev_actor e = ActorPartner"
      "\<exists>k\<in>set (s_jobs s). j_order_id k = o_id x \<and> j_partner_id k = ev_actor_id e"
      using e(2) unfolding event_ok_def carried_by_def handed_over_by_def by auto
    then show ?thesis using only by auto
  qed
  show ?thesis
  proof (intro bexI [OF _ j(1)] conjI ballI impI)
    show "{StatusPickedUp, StatusDelivered} \<subseteq> ev_status ` set (o_events x)" using picked d by (auto intro: rev_image_eqI)
  qed (fact j only ready | use actors in blast)+
qed

lemma delivered_by_its_rider_witness:
  "reachable example_services example_place_services evening \<and>
   (\<exists>x. x \<in> set (s_orders evening) \<and> o_status x = StatusDelivered \<and> StatusReady \<in> ev_status ` set (o_events x) \<and>
     (\<exists>j. j \<in> set (s_jobs evening) \<and> j_order_id j = o_id x \<and> j_status j = JobDelivered))"
proof -
  obtain x where "x \<in> set (s_orders evening)" "o_status x = StatusDelivered"
    by (auto simp: evening_def)
  then show ?thesis using delivered_by_its_rider [OF evening_reachable] evening_reachable by blast
qed

text \<open>C3: Every taka in a rider's ledger is accounted for: a collection is for the exact total of a
  delivered cash order, it is that order's only one, and the rider it is booked on is the one
  whose job for the order was delivered.\<close>

theorem cash_accounted_for:
  assumes "reachable sv pv s" "c \<in> set (s_collections s)"
  shows "\<exists>x\<in>set (s_orders s). \<exists>j\<in>set (s_jobs s).
    o_id x = co_order_id c \<and> o_payment x = PaymentCash \<and> o_status x = StatusDelivered \<and>
    m_minor (co_amount c) = m_minor (ch_total (o_charges x)) \<and> 0 < m_minor (co_amount c) \<and>
    j_order_id j = o_id x \<and> j_status j = JobDelivered \<and> j_partner_id j = co_partner_id c \<and>
    (\<forall>d\<in>set (s_collections s). co_order_id d = co_order_id c \<longrightarrow> d = c)"
proof -
  from assms(1) have ok: "orders_ok s" "jobs_ok s" "collections_ok s"
    using reachable_ok by (auto simp: store_ok_def)
  then have c: "0 < m_minor (co_amount c)" "cash_due s (co_order_id c) (co_partner_id c) (m_minor (co_amount c))"
    using assms(2) by (simp_all add: collections_ok_def collection_row_holds_def)
  then obtain x e where x: "x \<in> set (s_orders s)" "o_id x = co_order_id c" "o_payment x = PaymentCash"
      "m_minor (ch_total (o_charges x)) = m_minor (co_amount c)"
    and e: "e \<in> set (o_events x)" "ev_status e = StatusDelivered" "ev_actor_id e = co_partner_id c"
    by (auto simp: cash_due_def)
  have h: "order_history_ok x" "event_ok s x e" using ok(1) x(1) e(1) by (simp_all add: orders_ok_def)
  have "o_status x = StatusDelivered"
    using history_event_status [OF h(1) e(1)] e(2) by (simp add: order_terminal_def)
  moreover obtain j where "j \<in> set (s_jobs s)" "j_order_id j = o_id x" "j_status j = JobDelivered"
    "j_partner_id j = co_partner_id c"
    using h(2) e by (auto simp: event_ok_def handed_over_by_def)
  moreover have "d = c" if "d \<in> set (s_collections s)" "co_order_id d = co_order_id c" for d
    using ok(3) that assms(2) keyed_unique [of co_order_id "s_collections s" d c] by (simp add: collections_ok_def)
  ultimately show ?thesis using x c(1) by (intro bexI [of _ x] bexI [of _ j]) auto
qed

lemma cash_accounted_for_witness:
  "reachable example_services example_place_services evening \<and>
   (\<exists>c x. c \<in> set (s_collections evening) \<and> x \<in> set (s_orders evening) \<and> o_id x = co_order_id c \<and>
     m_minor (co_amount c) = m_minor (ch_total (o_charges x)))"
proof -
  obtain c where "c \<in> set (s_collections evening)" by (auto simp: evening_def)
  then show ?thesis using cash_accounted_for [OF evening_reachable] evening_reachable by blast
qed

text \<open>C4: No shop is ever asked to cook an online order that was not paid: unless it is still waiting for
  its payment or was cancelled, a captured (or since refunded) payment of exactly its total exists,
  made for its customer.\<close>

theorem paid_before_cooking:
  assumes "reachable sv pv s" "x \<in> set (s_orders s)" "o_payment x = PaymentOnline"
    "o_status x \<notin> {StatusPendingPayment, StatusCancelled}"
  shows "\<exists>p\<in>set (s_payments s). pay_order_id p = o_id x \<and> pay_customer_id p = o_customer_id x \<and>
    pay_status p \<in> {PayCaptured, PayRefunded} \<and> m_minor (pay_amount p) = m_minor (ch_total (o_charges x))"
proof -
  from assms(1) have ok: "orders_ok s" "payments_ok s" using reachable_ok by (auto simp: store_ok_def)
  have h: "order_history_ok x" and ev: "\<forall>e\<in>set (o_events x). event_ok s x e"
    using ok(1) assms(2) by (simp_all add: orders_ok_def)
  let ?hs = "map ev_status (o_events x)"
  have hs: "successively order_moves ?hs" "?hs \<noteq> []" "last ?hs = o_status x" "hd ?hs = StatusPendingPayment"
    using h assms(3) by (simp_all add: order_history_ok_def Let_def initial_status_def)
  have "StatusPlaced \<in> set ?hs"
    by (rule path_through [OF hs(1,2), where P = "\<lambda>st. st \<notin> {StatusPendingPayment, StatusCancelled}"])
      (use hs(3,4) assms(4) in \<open>auto simp: order_moves_cases\<close>)
  then have "money_taken s (o_id x)" using ev assms(3) by (auto simp: event_ok_def)
  then obtain p where p: "p \<in> set (s_payments s)" "pay_order_id p = o_id x" "pay_status p \<in> {PayCaptured, PayRefunded}"
    unfolding money_taken_def by blast
  have "payment_row_holds s p" using ok(2) p(1) by (simp add: payments_ok_def)
  then obtain y where y: "y \<in> set (s_orders s)" "o_id y = pay_order_id p" "o_customer_id y = pay_customer_id p"
      "m_minor (ch_total (o_charges y)) = m_minor (pay_amount p)"
    by (auto simp: payment_row_holds_def)
  have "y = x" using ok(1) y(1,2) assms(2) p(2) keyed_unique [of o_id "s_orders s" y x] by (simp add: orders_ok_def)
  then show ?thesis using p y by (intro bexI [OF _ p(1)]) auto
qed

lemma paid_before_cooking_witness:
  "reachable example_services example_place_services paid_store \<and> paid_order \<in> set (s_orders paid_store) \<and>
   (\<exists>p. p \<in> set (s_payments paid_store) \<and> pay_order_id p = o_id paid_order \<and>
     pay_status p \<in> {PayCaptured, PayRefunded})"
proof -
  have "paid_order \<in> set (s_orders paid_store)" by (simp add: paid_store_def)
  moreover have "o_payment paid_order = PaymentOnline" "o_status paid_order \<notin> {StatusPendingPayment, StatusCancelled}"
    by (simp_all add: paid_order_def)
  ultimately show ?thesis using paid_before_cooking [OF paid_reachable] paid_reachable by blast
qed

text \<open>C5: No rider is sent for an order its shop has not marked ready, an order never has two jobs, and a
  job that somebody is on names a registered rider, while one that is waiting names nobody.\<close>

theorem job_for_ready_order:
  assumes "reachable sv pv s" "j \<in> set (s_jobs s)"
  shows "(\<exists>x\<in>set (s_orders s). o_id x = j_order_id j \<and> StatusReady \<in> ev_status ` set (o_events x)) \<and>
    (\<forall>k\<in>set (s_jobs s). j_order_id k = j_order_id j \<longrightarrow> k = j) \<and>
    (j_status j = JobWaiting \<longrightarrow> j_partner_id j = []) \<and>
    (j_status j \<notin> {JobWaiting, JobCancelled} \<longrightarrow> (\<exists>p\<in>set (s_partners s). p_id p = j_partner_id j))"
proof -
  from assms(1) have ok: "jobs_ok s" using reachable_ok by (auto simp: store_ok_def)
  then have "job_row_holds s j" using assms(2) by (simp add: jobs_ok_def)
  then show ?thesis using one_job [OF ok] assms(2) by (auto simp: job_row_holds_def reached_def)
qed

lemma job_for_ready_order_witness:
  "reachable example_services example_place_services evening \<and>
   (\<exists>j x. j \<in> set (s_jobs evening) \<and> x \<in> set (s_orders evening) \<and> o_id x = j_order_id j \<and>
     StatusReady \<in> ev_status ` set (o_events x))"
proof -
  obtain j where "j \<in> set (s_jobs evening)" by (auto simp: evening_def)
  then show ?thesis using job_for_ready_order [OF evening_reachable] evening_reachable by blast
qed

text \<open>C6: A payment is always for the exact total of an online order of the customer it is booked on,
  an order has at most one payment waiting, and a reference names one payment.\<close>

theorem payments_match_orders:
  assumes "reachable sv pv s" "p \<in> set (s_payments s)"
  shows "(\<exists>x\<in>set (s_orders s). o_id x = pay_order_id p \<and> o_customer_id x = pay_customer_id p \<and>
      o_payment x = PaymentOnline \<and> m_minor (ch_total (o_charges x)) = m_minor (pay_amount p)) \<and>
    (\<forall>q\<in>set (s_payments s). pay_reference q = pay_reference p \<longrightarrow> q = p) \<and>
    (\<forall>q\<in>set (s_payments s). pay_order_id q = pay_order_id p \<and> pay_status q = PayPending \<and>
       pay_status p = PayPending \<longrightarrow> q = p)"
proof -
  from assms(1) have ok: "payments_ok s" using reachable_ok by (auto simp: store_ok_def)
  have "q = p" if "q \<in> set (s_payments s)" "pay_reference q = pay_reference p" for q
    using ok that assms(2) keyed_unique [of pay_reference "s_payments s" q p] by (simp add: payments_ok_def)
  moreover have "q = p" if "q \<in> set (s_payments s)" "pay_order_id q = pay_order_id p" "pay_status q = PayPending"
    "pay_status p = PayPending" for q
    using ok that assms(2) by (auto simp: payments_ok_def pending_once_def distinct_map inj_on_def)
  moreover have "payment_row_holds s p" using ok assms(2) by (simp add: payments_ok_def)
  ultimately show ?thesis by (auto simp: payment_row_holds_def)
qed

lemma payments_match_orders_witness:
  "reachable example_services example_place_services paid_store \<and>
   (\<exists>p x. p \<in> set (s_payments paid_store) \<and> x \<in> set (s_orders paid_store) \<and> o_id x = pay_order_id p \<and>
     m_minor (ch_total (o_charges x)) = m_minor (pay_amount p))"
proof -
  obtain p where "p \<in> set (s_payments paid_store)" by (auto simp: paid_store_def)
  then show ?thesis using payments_match_orders [OF paid_reachable] paid_reachable by blast
qed

text \<open>C7: Nothing that was agreed is ever rewritten: whatever happens after a moment, every order of
  that moment is still there with the same customer, shop, lines, charges and addresses, and its
  recorded events only grow; one that was finished has not changed in any event or its status.\<close>

theorem orders_only_grow:
  assumes "reachable sv pv s" "history sv pv f" "x \<in> set (s_orders s)"
  shows "\<exists>y\<in>set (s_orders (f s)). same_order x y \<and> o_lines y = o_lines x \<and> prefix (o_events x) (o_events y) \<and>
    (order_terminal (o_status x) \<longrightarrow> o_status y = o_status x \<and> o_events y = o_events x)"
proof -
  have p: "evolves s (f s)" "store_ok (f s)" "store_ok s"
    using history_promise [OF assms(2)] reachable_ok [OF assms(1)] by blast+
  obtain y where y: "y \<in> set (s_orders (f s))" "order_evolves x y" using order_row_mono [OF p(1) assms(3)] ..
  have hx: "order_history_ok x" and hy: "order_history_ok y"
    using p(2,3) y(1) assms(3) by (simp_all add: store_ok_def orders_ok_def)
  have "o_status y = o_status x \<and> o_events y = o_events x" if t: "order_terminal (o_status x)"
  proof -
    obtain es where es: "o_events y = o_events x @ es" using y(2) by (auto simp: order_evolves_def prefix_def)
    have n: "map ev_status (o_events x) \<noteq> []" "last (map ev_status (o_events x)) = o_status x"
      using hx by (simp_all add: order_history_ok_def Let_def)
    have "es = []"
    proof (rule ccontr)
      assume "es \<noteq> []"
      then have "order_moves (last (map ev_status (o_events x))) (hd (map ev_status es))"
        using hy n(1) by (simp add: order_history_ok_def Let_def es successively_append_iff)
      then show False using t n(2) order_moves_terminal by simp
    qed
    then show ?thesis using es hx hy by (simp add: order_history_ok_def Let_def)
  qed
  then show ?thesis using y by (intro bexI [OF _ y(1)]) (simp add: order_evolves_def)
qed

lemma orders_only_grow_witness:
  "reachable example_services example_place_services paid_store \<and>
   (\<exists>y. y \<in> set (s_orders (do_request 5 (RqShop owner (Inr [''m'']) ''m'' order_id1 ShopAccept []) paid_store)) \<and>
     same_order paid_order y \<and> prefix (o_events paid_order) (o_events y))"
proof -
  have "paid_order \<in> set (s_orders paid_store)" by (simp add: paid_store_def)
  then show ?thesis
    using orders_only_grow [OF paid_reachable history_do_request] paid_reachable by blast
qed

text \<open>Cash on the books never disappears, changes its amount or changes hands: whatever happens, a
  collection stays with its rider and its amount, and once remitted it keeps its receipt.\<close>

theorem collections_stay:
  assumes "reachable sv pv s" "history sv pv f" "c \<in> set (s_collections s)"
  shows "\<exists>d\<in>set (s_collections (f s)). co_id d = co_id c \<and> co_order_id d = co_order_id c \<and>
    co_partner_id d = co_partner_id c \<and> co_amount d = co_amount c \<and>
    (d = c \<or> (co_status c = CashHeld \<and> co_status d = CashRemitted \<and> co_remittance_ref d \<noteq> []))"
proof -
  have "evolves s (f s)" using history_promise [OF assms(2)] reachable_ok [OF assms(1)] by blast
  then have "rows_evolve collection_evolves (s_collections s) (s_collections (f s))" by (simp add: evolves_def)
  from rows_evolveD [OF this assms(3)] show ?thesis by (auto simp: collection_evolves_def)
qed

lemma collections_stay_witness:
  "reachable example_services example_place_services evening \<and>
   (\<exists>c d. c \<in> set (s_collections evening) \<and>
     d \<in> set (s_collections (do_request 9 (RqReconcile rider_id [co_id c] ''r'') evening)) \<and>
     co_id d = co_id c \<and> co_amount d = co_amount c)"
proof -
  obtain c where "c \<in> set (s_collections evening)" by (auto simp: evening_def)
  then show ?thesis
    using collections_stay [OF evening_reachable history_do_request] evening_reachable by blast
qed

end
