(* ===== verification/Crypto.thy ===== *)
theory Crypto
  imports GoStrings "HOL-Library.Word"
begin

text \<open>
  What the backend uses of Go's \<open>crypto/sha256\<close>, \<open>encoding/hex\<close> and \<open>encoding/base64\<close>:
  the SHA-256 digest of a string, hexadecimal text, and the unpadded URL alphabet.  Bytes are
  natural numbers below 256.
\<close>

unbundle bit_operations_syntax

section \<open>SHA-256\<close>

type_synonym w32 = "32 word"

definition sha_init :: "w32 list" where
  "sha_init = [
    1779033703, 3144134277, 1013904242, 2773480762, 1359893119, 2600822924, 528734635, 1541459225]"

definition sha_k :: "w32 list" where
  "sha_k = [
    1116352408, 1899447441, 3049323471, 3921009573, 961987163, 1508970993, 2453635748, 2870763221,
    3624381080, 310598401, 607225278, 1426881987, 1925078388, 2162078206, 2614888103, 3248222580,
    3835390401, 4022224774, 264347078, 604807628, 770255983, 1249150122, 1555081692, 1996064986,
    2554220882, 2821834349, 2952996808, 3210313671, 3336571891, 3584528711, 113926993, 338241895,
    666307205, 773529912, 1294757372, 1396182291, 1695183700, 1986661051, 2177026350, 2456956037,
    2730485921, 2820302411, 3259730800, 3345764771, 3516065817, 3600352804, 4094571909, 275423344,
    430227734, 506948616, 659060556, 883997877, 958139571, 1322822218, 1537002063, 1747873779,
    1955562222, 2024104815, 2227730452, 2361852424, 2428436474, 2756734187, 3204031479, 3329325298]"

definition bytes_of :: "string \<Rightarrow> nat list" where
  "bytes_of s = map of_char s"

definition be_bytes :: "nat \<Rightarrow> nat \<Rightarrow> nat list" where
  "be_bytes n x = map (\<lambda>i. x div 256 ^ i mod 256) (rev [0..<n])"

text \<open>A one bit, zeros up to 56 modulo 64, and the length in bits.\<close>

definition sha_pad :: "nat list \<Rightarrow> nat list" where
  "sha_pad bs = bs @ [128] @ replicate ((119 - length bs mod 64) mod 64) 0 @ be_bytes 8 (8 * length bs)"

definition word_be :: "nat list \<Rightarrow> w32" where
  "word_be bs = of_nat (foldl (\<lambda>acc b. 256 * acc + b) 0 bs)"

function chunks :: "nat \<Rightarrow> 'a list \<Rightarrow> 'a list list" where
  "chunks n xs = (if n = 0 \<or> xs = [] then [] else take n xs # chunks n (drop n xs))"
  by pat_completeness auto
termination by (relation "measure (length \<circ> snd)") auto

declare chunks.simps [simp del]

definition sha_rotr :: "nat \<Rightarrow> w32 \<Rightarrow> w32" where
  "sha_rotr n x = (drop_bit n x OR push_bit (32 - n) x)"

text \<open>The message schedule: 16 words, extended to 64.\<close>

fun sha_extend :: "nat \<Rightarrow> w32 list \<Rightarrow> w32 list" where
  "sha_extend 0 ws = ws"
| "sha_extend (Suc n) ws =
     (let i = length ws; a = ws ! (i - 15); b = ws ! (i - 2);
          s0 = sha_rotr 7 a XOR sha_rotr 18 a XOR drop_bit 3 a;
          s1 = sha_rotr 17 b XOR sha_rotr 19 b XOR drop_bit 10 b
      in sha_extend n (ws @ [ws ! (i - 16) + s0 + ws ! (i - 7) + s1]))"

fun sha_round :: "w32 list \<Rightarrow> w32 \<times> w32 \<Rightarrow> w32 list" where
  "sha_round [a, b, c, d, e, f, g, h] (k, w) =
     (let s1 = sha_rotr 6 e XOR sha_rotr 11 e XOR sha_rotr 25 e;
          ch = (e AND f) XOR ((NOT e) AND g);
          t1 = h + s1 + ch + k + w;
          s0 = sha_rotr 2 a XOR sha_rotr 13 a XOR sha_rotr 22 a;
          maj = (a AND b) XOR (a AND c) XOR (b AND c)
      in [t1 + (s0 + maj), a, b, c, d + t1, e, f, g])"
| "sha_round hs kw = hs"

definition sha_block :: "w32 list \<Rightarrow> nat list \<Rightarrow> w32 list" where
  "sha_block hs block =
     map2 (+) hs (foldl sha_round hs (zip sha_k (sha_extend 48 (map word_be (chunks 4 block)))))"

definition sha256 :: "nat list \<Rightarrow> nat list" where
  "sha256 bs = concat (map (\<lambda>w. be_bytes 4 (unat w)) (foldl sha_block sha_init (chunks 64 (sha_pad bs))))"

section \<open>Hexadecimal\<close>

definition hex_digit :: "nat \<Rightarrow> char" where
  "hex_digit n = (if n < 10 then char_of (48 + n) else char_of (87 + n))"

definition hex_encode :: "nat list \<Rightarrow> string" where
  "hex_encode bs = concat (map (\<lambda>b. [hex_digit (b div 16), hex_digit (b mod 16)]) bs)"

definition sha256_hex :: "string \<Rightarrow> string" where
  "sha256_hex s = hex_encode (sha256 (bytes_of s))"

section \<open>Unpadded URL-safe base 64\<close>

definition b64_alphabet :: string where
  "b64_alphabet = ''ABCDEFGHIJKLMNOPQRSTUVWXYZabcdefghijklmnopqrstuvwxyz0123456789-_''"

definition b64_char :: "nat \<Rightarrow> char" where
  "b64_char n = b64_alphabet ! n"

fun b64_encode :: "nat list \<Rightarrow> string" where
  "b64_encode (a # b # c # bs) =
     b64_char (a div 4) # b64_char (a mod 4 * 16 + b div 16) # b64_char (b mod 16 * 4 + c div 64) #
     b64_char (c mod 64) # b64_encode bs"
| "b64_encode [a, b] = [b64_char (a div 4), b64_char (a mod 4 * 16 + b div 16), b64_char (b mod 16 * 4)]"
| "b64_encode [a] = [b64_char (a div 4), b64_char (a mod 4 * 16)]"
| "b64_encode [] = []"

text \<open>
  The decoder skips line ends, and does not mind the bits of the last character that no byte
  needs.
\<close>

fun b64_groups :: "nat list \<Rightarrow> nat list option" where
  "b64_groups (w # x # y # z # vs) = map_option (\<lambda>bs. (w * 4 + x div 16) # (x mod 16 * 16 + y div 4) #
     (y mod 4 * 64 + z) # bs) (b64_groups vs)"
| "b64_groups [w, x, y] = Some [w * 4 + x div 16, x mod 16 * 16 + y div 4]"
| "b64_groups [w, x] = Some [w * 4 + x div 16]"
| "b64_groups [w] = None"
| "b64_groups [] = Some []"

fun b64_values :: "string \<Rightarrow> nat list option" where
  "b64_values [] = Some []"
| "b64_values (c # s) =
     (case index_byte b64_alphabet c of
        None \<Rightarrow> None
      | Some v \<Rightarrow> map_option ((#) v) (b64_values s))"

definition b64_decode :: "string \<Rightarrow> nat list option" where
  "b64_decode s = Option.bind
     (b64_values (filter (\<lambda>c. c \<noteq> CHR 0x0A \<and> c \<noteq> CHR 0x0D) s)) b64_groups"

lemma b64_index: "n < 64 \<Longrightarrow> index_byte b64_alphabet (b64_char n) = Some n"
  and b64_not_newline: "n < 64 \<Longrightarrow> b64_char n \<noteq> CHR 0x0A \<and> b64_char n \<noteq> CHR 0x0D"
proof -
  have all: "list_all (\<lambda>n. index_byte b64_alphabet (b64_char n) = Some n \<and>
      b64_char n \<noteq> CHR 0x0A \<and> b64_char n \<noteq> CHR 0x0D) [0..<64]"
    by code_simp
  assume "n < 64"
  then show "index_byte b64_alphabet (b64_char n) = Some n"
    "b64_char n \<noteq> CHR 0x0A \<and> b64_char n \<noteq> CHR 0x0D"
    using all by (auto simp: list_all_iff)
qed

lemma b64_values_map: "list_all (\<lambda>n. n < 64) ns \<Longrightarrow> b64_values (map b64_char ns) = Some ns"
  by (induction ns) (simp_all add: b64_index)

fun b64_split :: "nat list \<Rightarrow> nat list" where
  "b64_split (a # b # c # bs) =
     (a div 4) # (a mod 4 * 16 + b div 16) # (b mod 16 * 4 + c div 64) # (c mod 64) # b64_split bs"
| "b64_split [a, b] = [a div 4, a mod 4 * 16 + b div 16, b mod 16 * 4]"
| "b64_split [a] = [a div 4, a mod 4 * 16]"
| "b64_split [] = []"

lemma b64_encode_split: "b64_encode bs = map b64_char (b64_split bs)"
  by (induction bs rule: b64_split.induct) simp_all

lemma b64_pack:
  assumes "a < 256" "b < (256 :: nat)"
  shows "a div 4 * 4 + (a mod 4 * 16 + b div 16) div 16 = a"
    "(a mod 4 * 16 + b div 16) mod 16 * 16 + (b mod 16 * 4) div 4 = b"
    "a div 4 < 64" "a mod 4 * 16 + b div 16 < 64"
proof -
  have "b div 16 < 16" using assms by (simp add: less_mult_imp_div_less)
  then have "(a mod 4 * 16 + b div 16) div 16 = a mod 4" "(a mod 4 * 16 + b div 16) mod 16 = b div 16"
    by simp_all
  then show "a div 4 * 4 + (a mod 4 * 16 + b div 16) div 16 = a"
    "(a mod 4 * 16 + b div 16) mod 16 * 16 + (b mod 16 * 4) div 4 = b"
    by (simp_all add: div_mult_mod_eq)
  show "a div 4 < 64" using assms by (simp add: less_mult_imp_div_less)
  have "a mod 4 < 4" by simp
  then show "a mod 4 * 16 + b div 16 < 64" using \<open>b div 16 < 16\<close> by linarith
qed

lemma b64_pack_last:
  assumes "b < 256" "c < (256 :: nat)"
  shows "(b mod 16 * 4 + c div 64) mod 4 * 64 + c mod 64 = c" "(b mod 16 * 4 + c div 64) div 4 = b mod 16"
    "b mod 16 * 4 + c div 64 < 64" "c mod 64 < 64" "b mod 16 * 4 < 64"
proof -
  have q: "c div 64 < 4" "b mod 16 < 16" using assms by (simp_all add: less_mult_imp_div_less)
  then have "(b mod 16 * 4 + c div 64) mod 4 = c div 64" by simp
  then show "(b mod 16 * 4 + c div 64) mod 4 * 64 + c mod 64 = c" by (simp add: div_mult_mod_eq)
  show "(b mod 16 * 4 + c div 64) div 4 = b mod 16" using q by simp
  show "b mod 16 * 4 + c div 64 < 64" "c mod 64 < 64" "b mod 16 * 4 < 64" using q by linarith+
qed

lemma b64_groups_split:
  assumes "list_all (\<lambda>b. b < 256) bs"
  shows "b64_groups (b64_split bs) = Some bs \<and> list_all (\<lambda>n. n < 64) (b64_split bs)"
  using assms
proof (induction bs rule: b64_split.induct)
  case (1 a b c bs)
  then have lt: "a < 256" "b < 256" "c < 256" by simp_all
  have IH: "b64_groups (b64_split bs) = Some bs \<and> list_all (\<lambda>n. n < 64) (b64_split bs)" using 1 by simp
  show ?case
    using b64_pack [OF lt(1,2)] b64_pack_last [OF lt(2,3)] IH
    by (simp add: less_mult_imp_div_less)
next
  case (2 a b)
  then show ?case using b64_pack [of a b] b64_pack_last [of b 0] by simp
next
  case (3 a)
  then show ?case using b64_pack [of a 0] by simp
qed simp

theorem b64_decode_encode:
  assumes "list_all (\<lambda>b. b < 256) bs"
  shows "b64_decode (b64_encode bs) = Some bs"
proof -
  note ok = b64_groups_split [OF assms]
  have "filter (\<lambda>c. c \<noteq> CHR 0x0A \<and> c \<noteq> CHR 0x0D) (map b64_char (b64_split bs)) = map b64_char (b64_split bs)"
    using ok b64_not_newline by (auto simp: list_all_iff intro!: filter_True)
  then show ?thesis using ok by (simp add: b64_decode_def b64_encode_split b64_values_map)
qed

end
