(* ===== verification/Identity_Domain.thy ===== *)
theory Identity_Domain
  imports Errs GoTime Crypto
begin

text \<open>
  \<open>modules/identity/domain\<close>: telephone numbers, one-time codes, roles, refresh tokens and sessions.
  A \<open>Phone\<close> is its E.164 text, an \<open>OTP\<close> its digits, a \<open>RefreshToken\<close> its plain text; the domain's
  errors are constructors, without the number \<open>NewPhone\<close> quotes in its error text.
\<close>

section \<open>Telephone numbers\<close>

datatype phone_err = ErrEmptyPhone | ErrInvalidPhone

definition bd_mobile_prefixes :: "string list" where
  "bd_mobile_prefixes = [''13'', ''14'', ''15'', ''16'', ''17'', ''18'', ''19'']"

definition keep_digits :: "string \<Rightarrow> string" where
  "keep_digits raw = filter is_digit raw"

definition new_phone :: "string \<Rightarrow> phone_err + string" where
  "new_phone raw =
     (let digits = keep_digits raw
      in if digits = [] then Inl ErrEmptyPhone
         else rbind (if has_prefix digits ''880'' \<and> length digits = 13 then Inr (drop 3 digits)
                     else if has_prefix digits ''0'' \<and> length digits = 11 then Inr (drop 1 digits)
                     else if length digits = 10 then Inr digits
                     else Inl ErrInvalidPhone) (\<lambda>national.
              if hd national \<noteq> CHR ''1'' then Inl ErrInvalidPhone
              else if take 2 national \<notin> set bd_mobile_prefixes then Inl ErrInvalidPhone
              else Inr (''+880'' @ national)))"

definition masked :: "string \<Rightarrow> string" where
  "masked p = (if length p < 8 then p
     else take 6 p @ replicate (length p - 9) CHR ''*'' @ drop (length p - 3) p)"

section \<open>One-time codes\<close>

datatype otp_err = ErrInvalidOTPFormat | ErrOTPMismatch

definition otp_length :: nat where "otp_length = 6"

text \<open>
  One byte of entropy at a time; a byte of 250 or more is thrown away.  \<open>None\<close> when the entropy
  source fails before there are enough digits.
\<close>

fun otp_digits :: "nat \<Rightarrow> nat list \<Rightarrow> string option" where
  "otp_digits 0 bytes = Some []"
| "otp_digits (Suc n) [] = None"
| "otp_digits (Suc n) (b # bytes) =
     (if b \<ge> 250 then otp_digits (Suc n) bytes
      else map_option ((#) (digit_char (b mod 10))) (otp_digits n bytes))"

definition generate_otp :: "nat list \<Rightarrow> string option" where
  "generate_otp entropy = otp_digits otp_length entropy"

definition parse_otp :: "string \<Rightarrow> otp_err + string" where
  "parse_otp raw =
     (let code = trim_space raw
      in if length code \<noteq> otp_length \<or> \<not> list_all is_digit code then Inl ErrInvalidOTPFormat else Inr code)"

definition otp_hash :: "string \<Rightarrow> string \<Rightarrow> string" where
  "otp_hash phone code = sha256_hex (phone @ '':'' @ code)"

definition otp_matches :: "string \<Rightarrow> string \<Rightarrow> string \<Rightarrow> bool" where
  "otp_matches phone code stored_hash \<longleftrightarrow> otp_hash phone code = stored_hash"

section \<open>Roles\<close>

datatype role = RoleCustomer | RolePartner | RoleMerchant | RoleAdmin | OtherRole string

definition all_roles :: "role list" where
  "all_roles = [RoleCustomer, RolePartner, RoleMerchant, RoleAdmin]"

fun role_text :: "role \<Rightarrow> string" where
  "role_text RoleCustomer = ''customer''"
| "role_text RolePartner = ''partner''"
| "role_text RoleMerchant = ''merchant''"
| "role_text RoleAdmin = ''admin''"
| "role_text (OtherRole s) = s"

definition role_valid :: "role \<Rightarrow> bool" where
  "role_valid r \<longleftrightarrow> r \<in> set all_roles"

definition parse_role :: "string \<Rightarrow> role option" where
  "parse_role s = (let candidate = trim_space (to_lower s) in find (\<lambda>r. role_text r = candidate) all_roles)"

record principal =
  pr_user_id :: string
  pr_role :: role
  pr_session_id :: string

definition is_zero_principal :: "principal \<Rightarrow> bool" where
  "is_zero_principal p \<longleftrightarrow> pr_user_id p = []"

definition can :: "principal \<Rightarrow> role list \<Rightarrow> bool" where
  "can p allowed \<longleftrightarrow> pr_role p \<in> set allowed"

section \<open>Refresh tokens and sessions\<close>

definition refresh_token_bytes :: nat where "refresh_token_bytes = 32"

definition generate_refresh_token :: "nat list \<Rightarrow> string option" where
  "generate_refresh_token entropy =
     (if length entropy < refresh_token_bytes then None
      else Some (b64_encode (take refresh_token_bytes entropy)))"

definition parse_refresh_token :: "string \<Rightarrow> string option" where
  "parse_refresh_token raw =
     (let token = trim_space raw
      in if token = [] then None
         else case b64_decode token of
                None \<Rightarrow> None
              | Some decoded \<Rightarrow> if length decoded \<noteq> refresh_token_bytes then None else Some token)"

definition token_hash :: "string \<Rightarrow> string" where
  "token_hash token = sha256_hex token"

record session =
  se_id :: string
  se_user_id :: string
  se_role :: role
  se_device :: string
  se_created_at :: instant
  se_last_seen_at :: instant
  se_expires_at :: instant

definition session_expired :: "session \<Rightarrow> instant \<Rightarrow> bool" where
  "session_expired s now \<longleftrightarrow> se_expires_at s \<noteq> zero_time \<and> \<not> now < se_expires_at s"

record claims =
  cm_user_id :: string
  cm_role :: role
  cm_session_id :: string
  cm_token_id :: string
  cm_issued_at :: instant
  cm_expires_at :: instant

definition principal_of :: "claims \<Rightarrow> principal" where
  "principal_of c = \<lparr>pr_user_id = cm_user_id c, pr_role = cm_role c, pr_session_id = cm_session_id c\<rparr>"

record token_pair =
  tp_access_token :: string
  tp_refresh_token :: string
  tp_expires_in :: int64
  tp_session_id :: string
  tp_role :: role
  tp_user_id :: string

section \<open>What the domain promises\<close>

lemma keep_digits_digits: "list_all is_digit (keep_digits s)"
  by (auto simp: keep_digits_def list_all_iff)

lemma keep_digits_id: "list_all is_digit s \<Longrightarrow> keep_digits s = s"
  by (auto simp: keep_digits_def list_all_iff intro!: filter_True)

text \<open>
  The ten digits a number is stored by: a 1, the digit of an operator, eight more.
\<close>

definition national_number :: "string \<Rightarrow> bool" where
  "national_number n \<longleftrightarrow> length n = 10 \<and> list_all is_digit n \<and> take 2 n \<in> set bd_mobile_prefixes"

lemma national_starts: "national_number n \<Longrightarrow> n \<noteq> [] \<and> hd n = CHR ''1''"
  by (cases n; cases "tl n") (auto simp: national_number_def bd_mobile_prefixes_def)

lemma new_phone_national:
  "new_phone raw = Inr p \<longleftrightarrow> (\<exists>n. national_number n \<and> p = ''+880'' @ n \<and>
     keep_digits raw \<in> {n, ''0'' @ n, ''880'' @ n})"
proof
  assume "new_phone raw = Inr p"
  then obtain n where "keep_digits raw \<noteq> []" "hd n = CHR ''1''" "take 2 n \<in> set bd_mobile_prefixes" "p = ''+880'' @ n"
    and n: "(prefix ''880'' (keep_digits raw) \<and> length (keep_digits raw) = 13 \<and> n = drop 3 (keep_digits raw)) \<or>
      (prefix ''0'' (keep_digits raw) \<and> length (keep_digits raw) = 11 \<and> n = drop 1 (keep_digits raw)) \<or>
      (length (keep_digits raw) = 10 \<and> n = keep_digits raw)"
    by (auto simp: new_phone_def Let_def has_prefix_def rbind_Inr_iff split: if_splits)
  moreover have "list_all is_digit n" using keep_digits_digits [of raw] n by (auto simp: list_all_iff dest: in_set_dropD)
  moreover have "keep_digits raw \<in> {n, ''0'' @ n, ''880'' @ n}" "length n = 10" using n by (auto simp: prefix_def)
  ultimately have "national_number n" "keep_digits raw \<in> {n, ''0'' @ n, ''880'' @ n}" by (simp_all add: national_number_def)
  then show "\<exists>n. national_number n \<and> p = ''+880'' @ n \<and> keep_digits raw \<in> {n, ''0'' @ n, ''880'' @ n}"
    using \<open>p = ''+880'' @ n\<close> by blast
next
  assume "\<exists>n. national_number n \<and> p = ''+880'' @ n \<and> keep_digits raw \<in> {n, ''0'' @ n, ''880'' @ n}"
  then obtain n where n: "national_number n" "p = ''+880'' @ n" "keep_digits raw \<in> {n, ''0'' @ n, ''880'' @ n}" by blast
  have d: "hd n = CHR ''1''" "n \<noteq> []" "length n = 10" "take 2 n \<in> set bd_mobile_prefixes"
    using n(1) national_starts [of n] unfolding national_number_def by blast+
  consider (plain) "keep_digits raw = n" | (zero) "keep_digits raw = ''0'' @ n" | (country) "keep_digits raw = ''880'' @ n"
    using n(3) by blast
  then show "new_phone raw = Inr p"
  proof cases
    case plain
    then show ?thesis unfolding new_phone_def Let_def plain using d n(2) by simp
  next
    case zero
    then show ?thesis unfolding new_phone_def Let_def zero using d n(2) by (simp add: has_prefix_def)
  next
    case country
    then show ?thesis unfolding new_phone_def Let_def country using d n(2) by (simp add: has_prefix_def)
  qed
qed

text \<open>C27: However a number is spelled, it is stored in one form: two inputs are taken for the same number
  exactly when their digits without the country code or the leading zero agree; the stored form has
  fourteen characters and is read back as itself.\<close>

theorem phone_one_form:
  assumes "new_phone a = Inr p" "new_phone b = Inr q"
  shows "(p = q \<longleftrightarrow> drop (length (keep_digits a) - 10) (keep_digits a) = drop (length (keep_digits b) - 10) (keep_digits b)) \<and>
    length p = 14 \<and> new_phone p = Inr p"
proof -
  obtain n where n: "national_number n" "p = ''+880'' @ n" "keep_digits a \<in> {n, ''0'' @ n, ''880'' @ n}"
    using assms(1) new_phone_national by blast
  obtain m where m: "national_number m" "q = ''+880'' @ m" "keep_digits b \<in> {m, ''0'' @ m, ''880'' @ m}"
    using assms(2) new_phone_national by blast
  have l: "length n = 10" "length m = 10" using n m by (simp_all add: national_number_def)
  have "drop (length (keep_digits a) - 10) (keep_digits a) = n" "drop (length (keep_digits b) - 10) (keep_digits b) = m"
    using n(3) m(3) l by auto
  moreover have "keep_digits p = ''880'' @ n"
    using n(1,2) keep_digits_id [of n] by (simp add: national_number_def keep_digits_def is_digit_def)
  then have "new_phone p = Inr p" using n by (subst new_phone_national) auto
  ultimately show ?thesis using n(2) m(2) l by auto
qed

lemma phone_one_form_witness:
  "new_phone ''01712-345678'' = Inr ''+8801712345678'' \<and> new_phone ''+880 1712 345678'' = Inr ''+8801712345678'' \<and>
   new_phone ''+8801712345678'' = Inr ''+8801712345678'' \<and>
   drop 1 (keep_digits ''01712-345678'') = drop 3 (keep_digits ''+880 1712 345678'')"
proof -
  have a: "new_phone ''01712-345678'' = Inr ''+8801712345678''" and b: "new_phone ''+880 1712 345678'' = Inr ''+8801712345678''"
    by code_simp+
  show ?thesis using phone_one_form [OF a b] a b by (simp add: keep_digits_def is_digit_def)
qed

text \<open>Every digit of a code is as likely as every other, and a code is made as soon as six bytes are usable.\<close>

lemma otp_digit_fair: "d < 10 \<Longrightarrow> card {b. b < 250 \<and> b mod 10 = (d :: nat)} = 25"
proof -
  assume d: "d < 10"
  have "{b. b < 250 \<and> b mod 10 = d} = (\<lambda>i. 10 * i + d) ` {0..<25}"
  proof (intro set_eqI iffI)
    fix b assume "b \<in> {b. b < 250 \<and> b mod 10 = d}"
    then have "b = 10 * (b div 10) + d" "b div 10 < 25" by auto
    then show "b \<in> (\<lambda>i. 10 * i + d) ` {0..<25}" by (intro image_eqI [of _ _ "b div 10"]) auto
  qed (use d in auto)
  moreover have "inj_on (\<lambda>i. 10 * i + d) {0..<25}" by (auto simp: inj_on_def)
  ultimately show ?thesis by (simp add: card_image)
qed

lemma otp_digits_enough:
  "otp_digits n bytes \<noteq> None \<longleftrightarrow> n \<le> length (filter (\<lambda>b. b < 250) bytes)"
  by (induction n bytes rule: otp_digits.induct) auto

lemma otp_digits_Some:
  "otp_digits n bytes = Some code \<Longrightarrow>
     code = map (\<lambda>b. digit_char (b mod 10)) (take n (filter (\<lambda>b. b < 250) bytes)) \<and> length code = n \<and> list_all is_digit code"
  by (induction n bytes arbitrary: code rule: otp_digits.induct) (auto simp: digit_char_props split: if_splits)

text \<open>A code comes out as soon as the entropy source has given six usable bytes, however many it threw
  away before, and never otherwise; it is six digits, one per usable byte, each digit belonging to
  exactly 25 of the 250 bytes that are used, and what the text message carries is what signs in.\<close>

theorem otp_generated:
  "(generate_otp bytes \<noteq> None) = (6 \<le> length (filter (\<lambda>b. b < 250) bytes)) \<and>
   (case generate_otp bytes of None \<Rightarrow> True | Some code \<Rightarrow>
      code = map (\<lambda>b. digit_char (b mod 10)) (take 6 (filter (\<lambda>b. b < 250) bytes)) \<and>
      parse_otp code = Inr code \<and> otp_matches ph code (otp_hash ph code)) \<and>
   (case d < 10 of True \<Rightarrow> card {b. b < 250 \<and> digit_char (b mod 10) = digit_char d} = 25 | False \<Rightarrow> True)"
proof (intro conjI)
  show "(generate_otp bytes \<noteq> None) = (6 \<le> length (filter (\<lambda>b. b < 250) bytes))"
    using otp_digits_enough [of 6 bytes] by (simp add: generate_otp_def otp_length_def)
  show "case generate_otp bytes of None \<Rightarrow> True | Some code \<Rightarrow>
      code = map (\<lambda>b. digit_char (b mod 10)) (take 6 (filter (\<lambda>b. b < 250) bytes)) \<and>
      parse_otp code = Inr code \<and> otp_matches ph code (otp_hash ph code)"
  proof (cases "generate_otp bytes")
    case (Some code)
    then have c: "code = map (\<lambda>b. digit_char (b mod 10)) (take 6 (filter (\<lambda>b. b < 250) bytes))" "length code = 6"
      "list_all is_digit code"
      using otp_digits_Some [of 6 bytes code] by (auto simp only: generate_otp_def otp_length_def)
    have "code \<noteq> []" using c(2) by auto
    then have "plain_byte (hd code)" "plain_byte (last code)" using c(3) plain_digit by (auto simp: list_all_iff)
    then have "trim_space code = code" by (intro trim_space_plain) auto
    then show ?thesis using Some c by (simp add: parse_otp_def otp_length_def otp_matches_def)
  qed simp
  have "{b. b < 250 \<and> digit_char (b mod 10) = digit_char d} = {b. b < 250 \<and> b mod 10 = d}" if "d < 10"
    using that digit_char_props(2) by (metis mod_less_divisor zero_less_numeral)
  then show "case d < 10 of True \<Rightarrow> card {b. b < 250 \<and> digit_char (b mod 10) = digit_char d} = 25 | False \<Rightarrow> True"
    using otp_digit_fair by (simp split: bool.split)
qed

end
