(* ===== verification/Identity_Store.thy ===== *)
theory Identity_Store
  imports Identity_Domain Ops
begin

text \<open>
  What identity keeps: the Redis keys of \<open>modules/identity/infrastructure/redis\<close> (one-time codes,
  failure counters, sessions, refresh tokens, rate counters) and the table \<open>identity_accounts\<close> of
  \<open>infrastructure/persistence/postgres/directory.go\<close>.  Each family of keys is a map of its own; a
  value comes with the moment Redis drops it, if any, by Redis's own clock, which only moves when
  something else happens (\<open>w_others\<close>).  A set is a list without repetition.
\<close>

section \<open>Keys that expire\<close>

type_synonym 'v cell = "'v \<times> instant option"
type_synonym 'v keys = "string \<Rightarrow> 'v cell option"

record auth_store =
  a_now :: instant
  a_otps :: "string keys"
  a_attempts :: "int keys"
  a_sessions :: "session keys"
  a_refresh :: "string keys"
  a_spent :: "string keys"
  a_family :: "string list keys"
  a_user_sessions :: "string list keys"
  a_rates :: "int keys"
  a_accounts :: "(string \<times> string \<times> role \<times> bool) list"

definition live :: "instant \<Rightarrow> 'v cell option \<Rightarrow> 'v option" where
  "live now c = (case c of None \<Rightarrow> None
     | Some (v, None) \<Rightarrow> Some v
     | Some (v, Some t) \<Rightarrow> if now \<le> t then Some v else None)"

definition key_get :: "instant \<Rightarrow> 'v keys \<Rightarrow> string \<Rightarrow> 'v option" where
  "key_get now m k = live now (m k)"

text \<open>\<open>SET\<close> with a time to live; one of zero or less means none.\<close>

definition key_set :: "instant \<Rightarrow> string \<Rightarrow> 'v \<Rightarrow> duration \<Rightarrow> 'v keys \<Rightarrow> 'v keys" where
  "key_set now k v ttl m = m(k := Some (v, if 0 < ttl then Some (now + ttl) else None))"

definition key_del :: "string \<Rightarrow> 'v keys \<Rightarrow> 'v keys" where
  "key_del k m = m(k := None)"

text \<open>\<open>EXPIRE\<close>: nothing for a key that is not there; a time of zero or less removes the key.\<close>

definition key_expire :: "instant \<Rightarrow> string \<Rightarrow> duration \<Rightarrow> 'v keys \<Rightarrow> 'v keys" where
  "key_expire now k ttl m = (case key_get now m k of
     None \<Rightarrow> m(k := None)
   | Some v \<Rightarrow> m(k := if 0 < ttl then Some (v, Some (now + ttl)) else None))"

text \<open>A new value for a key that keeps its time to live.\<close>

definition key_put :: "instant \<Rightarrow> string \<Rightarrow> 'v \<Rightarrow> 'v keys \<Rightarrow> 'v keys" where
  "key_put now k v m = m(k := Some (v, case m k of Some (_, t) \<Rightarrow> if live now (m k) = None then None else t
                                                   | None \<Rightarrow> None))"

definition set_members :: "instant \<Rightarrow> string list keys \<Rightarrow> string \<Rightarrow> string list" where
  "set_members now m k = (case key_get now m k of None \<Rightarrow> [] | Some xs \<Rightarrow> xs)"

definition set_add :: "instant \<Rightarrow> string \<Rightarrow> string \<Rightarrow> string list keys \<Rightarrow> string list keys" where
  "set_add now k x m = (let xs = set_members now m k in key_put now k (if x \<in> set xs then xs else xs @ [x]) m)"

definition set_rem :: "instant \<Rightarrow> string \<Rightarrow> string list \<Rightarrow> string list keys \<Rightarrow> string list keys" where
  "set_rem now k ys m = (case key_get now m k of
     None \<Rightarrow> m
   | Some xs \<Rightarrow> (let zs = filter (\<lambda>x. x \<notin> set ys) xs in if zs = [] then key_del k m else key_put now k zs m))"

text \<open>\<open>INCR\<close>, and \<open>EXPIRE\<close> on the first one: the two scripts that count.\<close>

definition key_incr :: "instant \<Rightarrow> string \<Rightarrow> duration \<Rightarrow> int keys \<Rightarrow> int \<times> int keys" where
  "key_incr now k window m =
     (let n = (case key_get now m k of None \<Rightarrow> 1 | Some c \<Rightarrow> c + 1);
          m1 = key_put now k n m
      in (n, if n = 1 then key_expire now k window m1 else m1))"

definition whole_seconds :: "duration \<Rightarrow> int64" where
  "whole_seconds d = to_int64 (duration_seconds d)"

type_synonym 'a auth_op = "(auth_store, 'a) op"

section \<open>One-time codes\<close>

definition put_otp :: "string \<Rightarrow> string \<Rightarrow> duration \<Rightarrow> unit auth_op" where
  "put_otp phone hash ttl = db_call (\<lambda>s. (Inr (), s\<lparr>a_otps := key_set (a_now s) phone hash ttl (a_otps s)\<rparr>))"

definition take_otp :: "string \<Rightarrow> string option auth_op" where
  "take_otp phone = db_call (\<lambda>s. (Inr (key_get (a_now s) (a_otps s) phone), s\<lparr>a_otps := key_del phone (a_otps s)\<rparr>))"

definition peek_otp :: "string \<Rightarrow> string option auth_op" where
  "peek_otp phone = db_read (\<lambda>s. Inr (key_get (a_now s) (a_otps s) phone))"

definition delete_otp :: "string \<Rightarrow> unit auth_op" where
  "delete_otp phone = db_call (\<lambda>s. (Inr (), s\<lparr>a_otps := key_del phone (a_otps s)\<rparr>))"

definition record_failed_attempt :: "string \<Rightarrow> duration \<Rightarrow> int auth_op" where
  "record_failed_attempt phone window = db_call (\<lambda>s.
     case key_incr (a_now s) phone (whole_seconds window * second) (a_attempts s) of
       (n, m) \<Rightarrow> (Inr n, s\<lparr>a_attempts := m\<rparr>))"

definition failed_attempts :: "string \<Rightarrow> int auth_op" where
  "failed_attempts phone = db_read (\<lambda>s. Inr (case key_get (a_now s) (a_attempts s) phone of None \<Rightarrow> 0 | Some n \<Rightarrow> n))"

definition clear_attempts :: "string \<Rightarrow> unit auth_op" where
  "clear_attempts phone = db_call (\<lambda>s. (Inr (), s\<lparr>a_attempts := key_del phone (a_attempts s)\<rparr>))"

section \<open>The rate limiter\<close>

text \<open>\<open>TTL\<close> answers in seconds, rounded to the nearest; -1 when the key has no expiry.\<close>

definition ttl_of :: "instant \<Rightarrow> 'v cell option \<Rightarrow> int" where
  "ttl_of now c = (case c of Some (_, Some t) \<Rightarrow> (t - now + second div 2) div second | Some (_, None) \<Rightarrow> -1 | None \<Rightarrow> -2)"

definition parse_allow_reply :: "int \<Rightarrow> int \<Rightarrow> int64 \<Rightarrow> duration \<Rightarrow> bool \<times> duration" where
  "parse_allow_reply n ttl limit window = (n \<le> limit, if ttl < 0 then window else mul64 ttl second)"

definition allow :: "string \<Rightarrow> int64 \<Rightarrow> duration \<Rightarrow> (bool \<times> duration) auth_op" where
  "allow key limit window = db_call (\<lambda>s.
     case key_incr (a_now s) key (whole_seconds window * second) (a_rates s) of
       (n, m) \<Rightarrow> (Inr (parse_allow_reply n (ttl_of (a_now s) (m key)) limit window), s\<lparr>a_rates := m\<rparr>))"

section \<open>Sessions\<close>

definition err_session_not_found :: error where
  "err_session_not_found = Sentinel ''session not found''"

definition create_session :: "session \<Rightarrow> string \<Rightarrow> duration \<Rightarrow> unit auth_op" where
  "create_session se hash ttl = db_call (\<lambda>s. let now = a_now s in (Inr (), s\<lparr>
     a_sessions := key_expire now (se_id se) ttl (key_put now (se_id se) se (a_sessions s)),
     a_refresh := key_set now hash (se_id se) ttl (a_refresh s),
     a_family := key_expire now (se_id se) ttl (set_add now (se_id se) hash (a_family s)),
     a_user_sessions := key_expire now (se_user_id se) ttl (set_add now (se_user_id se) (se_id se) (a_user_sessions s))\<rparr>))"

definition session_by_id :: "string \<Rightarrow> session auth_op" where
  "session_by_id sid = (if sid = [] then raise_err err_session_not_found
     else db_read (\<lambda>s. case key_get (a_now s) (a_sessions s) sid of
       None \<Rightarrow> Inl err_session_not_found
     | Some se \<Rightarrow> if role_valid (se_role se) then Inr (se\<lparr>se_id := sid\<rparr>)
                  else Inl (Wrapf (''session '' @ sid) (Sentinel ''unknown role''))))"

datatype rotation = RotationUnknownToken | RotationReuse | RotationOK

text \<open>
  \<open>rotate.lua\<close>, one atomic step.  \<open>SETEX\<close> refuses a time to live below one second, which ends the
  script after the old token is gone.
\<close>

definition rotate_script :: "string \<Rightarrow> string \<Rightarrow> int \<Rightarrow> instant \<Rightarrow> auth_store \<Rightarrow> (error + rotation \<times> string) \<times> auth_store" where
  "rotate_script old_hash new_hash ttl_s seen_at s =
     (let now = a_now s in case key_get now (a_refresh s) old_hash of
        None \<Rightarrow> (case key_get now (a_spent s) old_hash of
            Some owner \<Rightarrow> (Inr (RotationReuse, owner), s)
          | None \<Rightarrow> (Inr (RotationUnknownToken, []), s))
      | Some sid \<Rightarrow>
          let t = s\<lparr>a_refresh := key_del old_hash (a_refresh s)\<rparr>
          in case key_get now (a_sessions s) sid of
               None \<Rightarrow> (Inr (RotationUnknownToken, []), t)
             | Some se \<Rightarrow>
                 if ttl_s \<le> 0 then (Inl (Sentinel ''invalid expire time in setex''), t)
                 else (Inr (RotationOK, sid), t\<lparr>
                   a_spent := key_set now old_hash sid (ttl_s * second) (a_spent s),
                   a_refresh := key_set now new_hash sid (ttl_s * second) (a_refresh t),
                   a_family := key_expire now sid (ttl_s * second) (set_add now sid new_hash (a_family s)),
                   a_sessions := key_expire now sid (ttl_s * second)
                     (key_put now sid (se\<lparr>se_last_seen_at := seen_at\<rparr>) (a_sessions s))\<rparr>))"

definition rotate :: "string \<Rightarrow> string \<Rightarrow> duration \<Rightarrow> instant \<Rightarrow> (rotation \<times> session option \<times> string) auth_op" where
  "rotate old_hash new_hash ttl seen_at =
     and_then (db_call (rotate_script old_hash new_hash (whole_seconds ttl) seen_at)) (\<lambda>(outcome, sid).
     case outcome of
       RotationOK \<Rightarrow>
         (if sid = [] then raise_err (Sentinel ''rotate refresh token: reply missing session'')
          else and_then (session_by_id sid) (\<lambda>se. ret (RotationOK, Some se, sid)))
     | RotationReuse \<Rightarrow> and_then (attempt (session_by_id sid)) (\<lambda>r.
         ret (RotationReuse, case r of Inl _ \<Rightarrow> None | Inr se \<Rightarrow> Some se, sid))
     | RotationUnknownToken \<Rightarrow> ret (RotationUnknownToken, None, []))"

text \<open>Sessions by creation time and then by id.\<close>

definition session_before :: "session \<Rightarrow> session \<Rightarrow> bool" where
  "session_before a b \<longleftrightarrow> se_created_at a < se_created_at b \<or>
     (se_created_at a = se_created_at b \<and> se_id a < se_id b)"

fun read_sessions :: "string list \<Rightarrow> (session list \<times> string list) auth_op" where
  "read_sessions [] = ret ([], [])"
| "read_sessions (sid # sids) =
     and_then (attempt (session_by_id sid)) (\<lambda>r. case r of
       Inr se \<Rightarrow> and_then (read_sessions sids) (\<lambda>(out, stale). ret (se # out, stale))
     | Inl e \<Rightarrow> if is_sentinel e ''session not found''
                then and_then (read_sessions sids) (\<lambda>(out, stale). ret (out, sid # stale))
                else raise_err e)"

definition user_sessions :: "string \<Rightarrow> session list auth_op" where
  "user_sessions uid =
     and_then (db_read (\<lambda>s. Inr (set_members (a_now s) (a_user_sessions s) uid))) (\<lambda>sids.
     and_then (read_sessions sids) (\<lambda>(out, stale).
     and_then (when_op (stale \<noteq> []) (ignoring (db_call (\<lambda>s.
       (Inr (), s\<lparr>a_user_sessions := set_rem (a_now s) uid stale (a_user_sessions s)\<rparr>))))) (\<lambda>_.
       ret (stable_sort session_before out))))"

definition revoke_session :: "string \<Rightarrow> unit auth_op" where
  "revoke_session sid =
     and_then (attempt (session_by_id sid)) (\<lambda>r.
     and_then (case r of
         Inr se \<Rightarrow> ret (se_user_id se)
       | Inl e \<Rightarrow> if is_sentinel e ''session not found'' then ret [] else raise_err e) (\<lambda>uid.
     and_then (db_read (\<lambda>s. Inr (set_members (a_now s) (a_family s) sid))) (\<lambda>family.
     db_call (\<lambda>s. (Inr (), s\<lparr>
       a_refresh := fold key_del family (a_refresh s), a_spent := fold key_del family (a_spent s),
       a_family := key_del sid (a_family s), a_sessions := key_del sid (a_sessions s),
       a_user_sessions := (if uid = [] then a_user_sessions s
         else set_rem (a_now s) uid [sid] (a_user_sessions s))\<rparr>)))))"

definition revoke_user_sessions :: "string \<Rightarrow> unit auth_op" where
  "revoke_user_sessions uid =
     and_then (db_read (\<lambda>s. Inr (set_members (a_now s) (a_user_sessions s) uid))) (for_each revoke_session)"

section \<open>Accounts\<close>

definition ensure_user :: "string \<Rightarrow> role \<Rightarrow> (string \<times> bool) auth_op" where
  "ensure_user phone r =
     and_then (fresh_id ''usr'') (\<lambda>new_uid. db_call (\<lambda>s.
       case find (\<lambda>(uid, ph, ro, active). ph = phone \<and> ro = r) (a_accounts s) of
         Some (uid, _, _, active) \<Rightarrow>
           (if active then Inr (uid, uid = new_uid) else Inl (Sentinel ''account is suspended''), s)
       | None \<Rightarrow>
           if new_uid \<in> fst ` set (a_accounts s) then (Inl (Sentinel ''a constraint of the database was violated''), s)
           else (Inr (new_uid, True), s\<lparr>a_accounts := a_accounts s @ [(new_uid, phone, r, True)]\<rparr>)))"

definition phone_in :: "(string \<times> string \<times> role \<times> bool) list \<Rightarrow> string \<Rightarrow> error + string option" where
  "phone_in accounts uid = (case find (\<lambda>a. fst a = uid) accounts of
     None \<Rightarrow> Inr None
   | Some (_, phone, _, active) \<Rightarrow>
       if \<not> active then Inr None
       else case new_phone phone of Inl _ \<Rightarrow> Inl (Sentinel ''stored phone does not parse'') | Inr p \<Rightarrow> Inr (Some p))"

definition phone_for :: "string \<Rightarrow> string option auth_op" where
  "phone_for uid = db_read (\<lambda>s. phone_in (a_accounts s) uid)"

end
