(* ===== verification/Identity_App.thy ===== *)
theory Identity_App
  imports Identity_Store
begin

text \<open>
  The identity use cases of \<open>modules/identity/application\<close>: asking for a code, signing in with
  it, refreshing a session, signing out and listing devices.  What the configuration module
  answers for the caller's placement is the argument \<open>cfg\<close>; the token signer and the sender of
  text messages are the record \<open>auth_services\<close>.  Log lines are left out.
\<close>

record auth_services =
  au_sign :: "claims \<Rightarrow> error + string"
  au_sms :: "string \<Rightarrow> string \<Rightarrow> error option"
  au_reveals_code :: bool

type_synonym settings_answer = "error + (string \<Rightarrow> error + int64)"

section \<open>Settings\<close>

record auth_settings =
  as_otp_requests_per_hour :: int64
  as_otp_verify_attempts :: int64
  as_otp_lockout_window :: duration
  as_otp_ttl :: duration
  as_access_token_ttl :: duration
  as_refresh_token_ttl :: duration
  as_max_sessions :: int64

definition read_auth_setting :: "(string \<Rightarrow> error + int64) \<Rightarrow> string \<Rightarrow> error + int64" where
  "read_auth_setting get key = (case get key of
     Inr v \<Rightarrow> Inr v
   | Inl e \<Rightarrow> Inl (with_field (wrap e KindInternal ''auth_config_invalid'' ''We could not sign you in just now.'') ''key'' key))"

definition load_auth_settings :: "settings_answer \<Rightarrow> error + auth_settings" where
  "load_auth_settings cfg = (case cfg of
     Inl e \<Rightarrow> Inl (wrap e KindUnavailable ''auth_config_unavailable''
       ''We could not sign you in just now. Please try again.'')
   | Inr get \<Rightarrow>
       rbind (read_auth_setting get ''auth.otp_requests_per_hour'') (\<lambda>requests.
       rbind (read_auth_setting get ''auth.otp_verify_attempts'') (\<lambda>attempts.
       rbind (read_auth_setting get ''auth.otp_lockout_window'') (\<lambda>lockout.
       rbind (read_auth_setting get ''auth.otp_ttl'') (\<lambda>otp_ttl.
       rbind (read_auth_setting get ''auth.access_token_ttl'') (\<lambda>access.
       rbind (read_auth_setting get ''auth.refresh_token_ttl'') (\<lambda>refresh.
       rbind (read_auth_setting get ''auth.max_sessions_per_user'') (\<lambda>sessions.
         Inr \<lparr>as_otp_requests_per_hour = requests, as_otp_verify_attempts = attempts,
           as_otp_lockout_window = mul64 lockout second, as_otp_ttl = mul64 otp_ttl second,
           as_access_token_ttl = mul64 access second, as_refresh_token_ttl = mul64 refresh second,
           as_max_sessions = sessions\<rparr>))))))))"

definition draw :: "nat list auth_op" where
  "draw w = (Inr (w_entropy w (w_draws w)), w\<lparr>w_draws := Suc (w_draws w)\<rparr>)"

definition unavailable :: "string \<Rightarrow> string \<Rightarrow> error \<Rightarrow> error" where
  "unavailable code msg e = wrap e KindUnavailable code msg"

definition invalid_phone :: "phone_err \<Rightarrow> error" where
  "invalid_phone e = wrap (Sentinel (case e of ErrEmptyPhone \<Rightarrow> ''phone number is required''
       | ErrInvalidPhone \<Rightarrow> ''not a valid Bangladeshi mobile number''))
     KindInvalid ''invalid_phone'' ''Please enter a valid Bangladeshi mobile number.''"

definition lift_phone :: "string \<Rightarrow> string auth_op" where
  "lift_phone raw = lift_err (case new_phone raw of Inl e \<Rightarrow> Inl (invalid_phone e) | Inr p \<Rightarrow> Inr p)"

section \<open>Asking for a code\<close>

record otp_result =
  or_masked_phone :: string
  or_expires_in :: int64
  or_resend_after :: int64
  or_demo_code :: string

definition no_code_sent :: string where
  "no_code_sent = ''We could not send a code just now. Please try again.''"

definition phone_locked_out :: error where
  "phone_locked_out = new_error KindRateLimited ''phone_locked_out''
     ''Too many incorrect codes. Please wait before trying again.''"

definition otp_requests_exhausted :: "duration \<Rightarrow> error" where
  "otp_requests_exhausted retry = with_field (new_error KindRateLimited ''otp_requests_exhausted''
     ''Too many codes requested for this number. Please wait and try again.'')
     ''retry_after_seconds'' (itoa (whole_seconds retry))"

definition request_otp :: "auth_services \<Rightarrow> settings_answer \<Rightarrow> string \<Rightarrow> otp_result auth_op" where
  "request_otp au cfg raw =
     and_then (lift_phone raw) (\<lambda>phone.
     and_then (lift_err (load_auth_settings cfg)) (\<lambda>st.
     and_then (or_wrap (unavailable ''rate_limiter_unavailable'' no_code_sent)
       (allow (''otp_request:'' @ phone) (as_otp_requests_per_hour st) hour)) (\<lambda>(allowed, retry).
     if \<not> allowed then raise_err (otp_requests_exhausted retry)
     else and_then (or_wrap (unavailable ''otp_store_unavailable'' no_code_sent) (failed_attempts phone)) (\<lambda>attempts.
     if attempts \<ge> as_otp_verify_attempts st then raise_err phone_locked_out
     else and_then draw (\<lambda>entropy. case generate_otp entropy of
       None \<Rightarrow> raise_err (wrap (Sentinel ''generate otp'') KindInternal ''otp_generation_failed'' no_code_sent)
     | Some code \<Rightarrow>
         and_then (or_wrap (unavailable ''otp_store_unavailable'' no_code_sent)
           (put_otp phone (otp_hash phone code) (as_otp_ttl st))) (\<lambda>_.
         case au_sms au phone code of
           Some e \<Rightarrow> raise_err (wrap e KindUnavailable ''sms_delivery_failed''
             ''We could not send the code. Please check the number and try again.'')
         | None \<Rightarrow> ret \<lparr>or_masked_phone = masked phone, or_expires_in = whole_seconds (as_otp_ttl st),
             or_resend_after = quot64 (whole_seconds hour) (max (as_otp_requests_per_hour st) 1),
             or_demo_code = (if au_reveals_code au then code else [])\<rparr>))))))"

section \<open>Signing in\<close>

record verify_request =
  vr_phone :: string
  vr_code :: string
  vr_role :: role
  vr_device :: string

definition not_checked :: string where
  "not_checked = ''We could not check that code. Please try again.''"

definition not_signed_in :: string where
  "not_signed_in = ''We could not sign you in just now. Please try again.''"

definition locked_out :: "duration \<Rightarrow> error" where
  "locked_out window = with_field phone_locked_out ''retry_after_seconds'' (itoa (whole_seconds window))"

definition invalid_code :: error where
  "invalid_code = new_error KindUnauthorized ''invalid_code'' ''That code is not correct.''"

definition record_failure :: "string \<Rightarrow> auth_settings \<Rightarrow> int64 auth_op" where
  "record_failure phone st =
     and_then (or_wrap (unavailable ''otp_store_unavailable'' not_checked)
       (record_failed_attempt phone (as_otp_lockout_window st))) (\<lambda>used.
     let remaining = sub64 (as_otp_verify_attempts st) used
     in and_then (when_op (remaining \<le> 0) (ignoring (delete_otp phone))) (\<lambda>_. ret remaining))"

fun evict_oldest :: "int64 \<Rightarrow> session list \<Rightarrow> unit auth_op" where
  "evict_oldest cap [] = ret ()"
| "evict_oldest cap (se # ses) =
     (if int (length (se # ses)) \<ge> cap
      then and_then (or_wrap (unavailable ''session_store_unavailable'' not_signed_in) (revoke_session (se_id se)))
             (\<lambda>_. evict_oldest cap ses)
      else ret ())"

definition max_device_label :: nat where "max_device_label = 64"

definition truncate_device :: "string \<Rightarrow> string" where
  "truncate_device device = take max_device_label device"

definition sign_access_token :: "auth_services \<Rightarrow> session \<Rightarrow> instant \<Rightarrow> duration \<Rightarrow> string auth_op" where
  "sign_access_token au se now ttl =
     and_then (fresh_id ''jti'') (\<lambda>jti.
     or_wrap (\<lambda>e. wrap e KindInternal ''token_signing_failed'' not_signed_in) (lift_err (au_sign au
       \<lparr>cm_user_id = se_user_id se, cm_role = se_role se, cm_session_id = se_id se, cm_token_id = jti,
        cm_issued_at = now, cm_expires_at = now + ttl\<rparr>)))"

definition fresh_refresh_token :: "string auth_op" where
  "fresh_refresh_token = and_then draw (\<lambda>entropy. case generate_refresh_token entropy of
     None \<Rightarrow> raise_err (wrap (Sentinel ''generate refresh token'') KindInternal ''token_generation_failed'' not_signed_in)
   | Some t \<Rightarrow> ret t)"

definition token_pair_for :: "session \<Rightarrow> string \<Rightarrow> string \<Rightarrow> auth_settings \<Rightarrow> token_pair" where
  "token_pair_for se access refresh st = \<lparr>tp_access_token = access, tp_refresh_token = refresh,
     tp_expires_in = whole_seconds (as_access_token_ttl st), tp_session_id = se_id se, tp_role = se_role se,
     tp_user_id = se_user_id se\<rparr>"

definition issue_session :: "auth_services \<Rightarrow> string \<Rightarrow> role \<Rightarrow> string \<Rightarrow> auth_settings \<Rightarrow> token_pair auth_op" where
  "issue_session au uid r device st =
     and_then clock_now (\<lambda>now.
     and_then (or_wrap (unavailable ''session_store_unavailable'' not_signed_in) (user_sessions uid)) (\<lambda>existing.
     and_then (evict_oldest (as_max_sessions st) existing) (\<lambda>_.
     and_then (fresh_id ''ses'') (\<lambda>sid.
     let se = \<lparr>se_id = sid, se_user_id = uid, se_role = r, se_device = truncate_device device,
               se_created_at = now, se_last_seen_at = now, se_expires_at = now + as_refresh_token_ttl st\<rparr>
     in and_then fresh_refresh_token (\<lambda>refresh.
        and_then (or_wrap (unavailable ''session_store_unavailable'' not_signed_in)
          (create_session se (token_hash refresh) (as_refresh_token_ttl st))) (\<lambda>_.
        and_then (sign_access_token au se now (as_access_token_ttl st)) (\<lambda>access.
          ret (token_pair_for se access refresh st))))))))"

definition verify_otp :: "auth_services \<Rightarrow> settings_answer \<Rightarrow> verify_request \<Rightarrow> (token_pair \<times> bool) auth_op" where
  "verify_otp au cfg req =
     and_then (lift_phone (vr_phone req)) (\<lambda>phone.
     if \<not> role_valid (vr_role req)
     then raise_err (new_error KindInvalid ''invalid_role'' ''That sign-in type is not recognised.'')
     else and_then (lift_err (load_auth_settings cfg)) (\<lambda>st.
     and_then (or_wrap (unavailable ''otp_store_unavailable'' not_checked) (failed_attempts phone)) (\<lambda>attempts.
     if attempts \<ge> as_otp_verify_attempts st then raise_err (locked_out (as_otp_lockout_window st))
     else case parse_otp (vr_code req) of
       Inl _ \<Rightarrow> and_then (record_failure phone st) (\<lambda>_.
         raise_err (wrap (Sentinel ''the code must be six digits'') KindInvalid ''invalid_code'' ''That code is not correct.''))
     | Inr code \<Rightarrow>
         and_then (or_wrap (unavailable ''otp_store_unavailable'' not_checked) (peek_otp phone)) (\<lambda>stored.
         if \<not> (case stored of None \<Rightarrow> False | Some h \<Rightarrow> otp_matches phone code h)
         then and_then (record_failure phone st) (\<lambda>remaining.
              if remaining \<le> 0 then raise_err (locked_out (as_otp_lockout_window st))
              else raise_err (with_field invalid_code ''attempts_remaining'' (itoa remaining)))
         else and_then (or_wrap (unavailable ''otp_store_unavailable'' not_checked) (take_otp phone)) (\<lambda>taken.
              if taken = None then raise_err invalid_code
              else and_then (ignoring (clear_attempts phone)) (\<lambda>_.
                   and_then (or_wrap (unavailable ''user_directory_unavailable'' not_signed_in)
                     (ensure_user phone (vr_role req))) (\<lambda>(uid, created).
                   and_then (issue_session au uid (vr_role req) (vr_device req) st) (\<lambda>pair.
                     ret (pair, created)))))))))"

section \<open>Refreshing\<close>

definition refresh_rate_limit :: int64 where "refresh_rate_limit = 60"
definition refresh_rate_window :: int64 where "refresh_rate_window = 60"

definition sign_in_again :: "string \<Rightarrow> string \<Rightarrow> error" where
  "sign_in_again cause code = wrap (Sentinel cause) KindUnauthorized code ''Please sign in again.''"

definition reuse_detected :: error where
  "reuse_detected = wrap (Sentinel ''refresh token reuse detected'') KindUnauthorized ''token_reuse_detected''
     ''For your security, please sign in again.''"

definition refresh_session :: "auth_services \<Rightarrow> settings_answer \<Rightarrow> string \<Rightarrow> token_pair auth_op" where
  "refresh_session au cfg raw = (case parse_refresh_token raw of
     None \<Rightarrow> raise_err (sign_in_again ''malformed refresh token'' ''invalid_refresh_token'')
   | Some presented \<Rightarrow>
     and_then (lift_err (load_auth_settings cfg)) (\<lambda>st.
     let old_hash = token_hash presented in
     and_then (or_wrap (unavailable ''rate_limiter_unavailable'' not_signed_in)
       (allow (''refresh:'' @ old_hash) refresh_rate_limit (refresh_rate_window * 1000000000))) (\<lambda>(allowed, _).
     if \<not> allowed then raise_err (new_error KindRateLimited ''refresh_rate_exceeded''
       ''Too many attempts. Please try again shortly.'')
     else and_then fresh_refresh_token (\<lambda>replacement.
          and_then clock_now (\<lambda>now.
          and_then (or_wrap (unavailable ''session_store_unavailable'' not_signed_in)
            (rotate old_hash (token_hash replacement) (as_refresh_token_ttl st) now)) (\<lambda>(outcome, found, sid).
          case (outcome, found) of
            (RotationOK, Some se) \<Rightarrow>
              if session_expired se now
              then and_then (ignoring (revoke_session (se_id se))) (\<lambda>_.
                   raise_err (sign_in_again ''session not found'' ''session_expired''))
              else and_then (sign_access_token au se now (as_access_token_ttl st)) (\<lambda>access.
                   ret (token_pair_for se access replacement st))
          | (RotationReuse, _) \<Rightarrow>
              and_then (ignoring (revoke_session sid)) (\<lambda>_. raise_err reuse_detected)
          | _ \<Rightarrow> raise_err (sign_in_again ''invalid refresh token'' ''invalid_refresh_token'')))))))"

section \<open>Signing out\<close>

definition not_authenticated :: error where
  "not_authenticated = new_error KindUnauthorized ''not_authenticated'' ''Please sign in again.''"

definition not_signed_out :: string where
  "not_signed_out = ''We could not sign you out just now. Please try again.''"

definition logout :: "principal \<Rightarrow> unit auth_op" where
  "logout p =
     (if is_zero_principal p \<or> pr_session_id p = [] then raise_err not_authenticated
      else and_then (attempt (session_by_id (pr_session_id p))) (\<lambda>r. case r of
        Inl e \<Rightarrow> if is_sentinel e ''session not found'' then ret ()
                 else raise_err (unavailable ''session_store_unavailable'' not_signed_out e)
      | Inr se \<Rightarrow>
          if se_user_id se \<noteq> pr_user_id p
          then raise_err (new_error KindForbidden ''not_your_session'' ''You cannot sign out of that session.'')
          else or_wrap (unavailable ''session_store_unavailable'' not_signed_out) (revoke_session (pr_session_id p))))"

definition logout_all :: "principal \<Rightarrow> unit auth_op" where
  "logout_all p =
     (if is_zero_principal p then raise_err not_authenticated
      else or_wrap (unavailable ''session_store_unavailable'' not_signed_out) (revoke_user_sessions (pr_user_id p)))"

definition list_devices :: "principal \<Rightarrow> (session \<times> bool) list auth_op" where
  "list_devices p =
     (if is_zero_principal p then raise_err not_authenticated
      else and_then (or_wrap (unavailable ''session_store_unavailable''
             ''We could not load your devices just now. Please try again.'') (user_sessions (pr_user_id p))) (\<lambda>ses.
           ret (map (\<lambda>se. (se, se_id se = pr_session_id p)) ses)))"

end
