(* ===== verification/Identity_Safety.thy ===== *)
theory Identity_Safety
  imports Identity_App
begin

text \<open>
  What can never be undone in the identity module, however its requests interleave: a session that
  is gone stays gone, a refresh token that has been exchanged is never accepted again, and a
  one-time code signs somebody in once.  \<open>S\<close>, \<open>H\<close> and \<open>P\<close> are the sessions, token hashes and
  numbers nothing new is made for: the generator's identifiers and tokens do not repeat, and
  nobody asks for another code.
\<close>

section \<open>Closed doors\<close>

definition gone :: "auth_store \<Rightarrow> string \<Rightarrow> bool" where
  "gone s sid \<longleftrightarrow> key_get (a_now s) (a_sessions s) sid = None"

definition uncurrent :: "auth_store \<Rightarrow> string \<Rightarrow> bool" where
  "uncurrent s h \<longleftrightarrow> key_get (a_now s) (a_refresh s) h = None"

definition no_code :: "auth_store \<Rightarrow> string \<Rightarrow> bool" where
  "no_code s ph \<longleftrightarrow> key_get (a_now s) (a_otps s) ph = None"

definition closed :: "string set \<Rightarrow> string set \<Rightarrow> string set \<Rightarrow> auth_store \<Rightarrow> auth_store \<Rightarrow> bool" where
  "closed S H P s t \<longleftrightarrow> a_now s \<le> a_now t \<and> (\<forall>sid\<in>S. gone s sid \<longrightarrow> gone t sid) \<and>
     (\<forall>h\<in>H. uncurrent s h \<longrightarrow> uncurrent t h) \<and> (\<forall>ph\<in>P. no_code s ph \<longrightarrow> no_code t ph)"

definition unrepeated :: "string set \<Rightarrow> string set \<Rightarrow> sources" where
  "unrepeated S H ck en \<longleftrightarrow>
     (\<forall>n k. new_id ''ses'' (unix_milli (ck n)) (en k) \<notin> S) \<and>
     (\<forall>k t. generate_refresh_token (en k) = Some t \<longrightarrow> token_hash t \<notin> H)"

lemma live_later: "now \<le> later \<Longrightarrow> live now c = None \<Longrightarrow> live later c = None"
  by (auto simp: live_def split: option.splits prod.splits if_splits)

lemma live_Some [simp]:
  "live now None = None" "live now (Some (v, None)) = Some v"
  "live now (Some (v, Some t)) = (if now \<le> t then Some v else None)"
  by (simp_all add: live_def)

lemma key_get_simps [simp]:
  "key_get now (m(k := c)) k' = (if k' = k then live now c else key_get now m k')"
  by (simp add: key_get_def)

lemma key_get_del [simp]: "key_get now (key_del k m) k' = (if k' = k then None else key_get now m k')"
  by (simp add: key_del_def)

lemma key_get_dels: "key_get now (fold key_del ks m) k' = (if k' \<in> set ks then None else key_get now m k')"
  by (induction ks arbitrary: m) auto

lemma key_get_set [simp]: "key_get now (key_set now k v ttl m) k' = (if k' = k then Some v else key_get now m k')"
  by (simp add: key_set_def)

lemma key_get_put [simp]: "key_get now (key_put now k v m) k' = (if k' = k then Some v else key_get now m k')"
  by (auto simp: key_put_def live_def split: option.splits prod.splits if_splits)

lemma key_get_expire [simp]:
  "key_get now (key_expire now k ttl m) k' = (if k' = k \<and> ttl \<le> 0 then None else key_get now m k')"
  by (auto simp: key_expire_def split: option.splits)

lemma closed_refl: "closed S H P s s"
  by (simp add: closed_def)

lemma closed_trans: "closed S H P s t \<Longrightarrow> closed S H P t u \<Longrightarrow> closed S H P s u"
  unfolding closed_def by auto

interpretation doors: guarantee "closed S H P" "unrepeated S H" for S H P
  by unfold_locales (auto intro: closed_refl closed_trans)

text \<open>An operation that keeps every closed door closed, and what its result is like if \<open>K\<close> held before.\<close>

definition keeps :: "string set \<Rightarrow> string set \<Rightarrow> string set \<Rightarrow> (auth_store \<Rightarrow> bool) \<Rightarrow> 'a auth_op \<Rightarrow>
    ('a \<Rightarrow> auth_store \<Rightarrow> bool) \<Rightarrow> bool" where
  "keeps S H P K m Q \<longleftrightarrow> holds_in (unrepeated S H) (closed S H P) K m
     (\<lambda>r s. K s \<and> (case r of Inl e \<Rightarrow> True | Inr x \<Rightarrow> Q x s))"

definition shut :: "string set \<Rightarrow> string set \<Rightarrow> string set \<Rightarrow> (auth_store \<Rightarrow> bool) \<Rightarrow> bool" where
  "shut S H P K \<longleftrightarrow> (\<forall>s t. closed S H P s t \<longrightarrow> K s \<longrightarrow> K t)"

lemma shutD: "shut S H P K \<Longrightarrow> closed S H P s t \<Longrightarrow> K s \<Longrightarrow> K t"
  by (auto simp: shut_def)

lemma shut_intros:
  "shut S H P (\<lambda>_. b)" "sid \<in> S \<Longrightarrow> shut S H P (\<lambda>s. gone s sid)" "h \<in> H \<Longrightarrow> shut S H P (\<lambda>s. uncurrent s h)"
  "ph \<in> P \<Longrightarrow> shut S H P (\<lambda>s. no_code s ph)"
  "shut S H P K \<Longrightarrow> shut S H P L \<Longrightarrow> shut S H P (\<lambda>s. K s \<and> L s)"
  by (auto simp: shut_def closed_def)

lemma stable_shut: "shut S H P K \<Longrightarrow> stable (closed S H P) K"
  by (auto simp: stable_def shut_def)

lemma keeps_ret: "(\<And>s. K s \<Longrightarrow> Q x s) \<Longrightarrow> keeps S H P K (ret x) Q"
  unfolding keeps_def by (rule doors.ret) simp

lemma keeps_raise: "keeps S H P K (raise_err e) Q"
  unfolding keeps_def by (rule doors.raise) simp

lemma keeps_lift: "(\<And>x s. r = Inr x \<Longrightarrow> K s \<Longrightarrow> Q x s) \<Longrightarrow> keeps S H P K (lift_err r) Q"
  unfolding keeps_def by (rule doors.lift) (auto split: sum.splits)

lemma keeps_weaken: "keeps S H P K m Q \<Longrightarrow> (\<And>x s. K s \<Longrightarrow> Q x s \<Longrightarrow> Q' x s) \<Longrightarrow> keeps S H P K m Q'"
  unfolding keeps_def by (erule holds_weaken) (auto split: sum.splits)

lemma keeps_True: "keeps S H P K m Q \<Longrightarrow> keeps S H P K m (\<lambda>_ _. True)"
  by (erule keeps_weaken) simp

lemma keeps_bind:
  assumes "keeps S H P K m M" "\<And>x. keeps S H P (\<lambda>s. K s \<and> M x s) (f x) Q"
  shows "keeps S H P K (and_then m f) Q"
  unfolding keeps_def
proof (rule doors.bind [where M = "\<lambda>x s. K s \<and> M x s"])
  show "holds_in (unrepeated S H) (closed S H P) K m (\<lambda>r s. case r of
      Inl e \<Rightarrow> K s \<and> (case (Inl e :: error + 'b) of Inl e \<Rightarrow> True | Inr x \<Rightarrow> Q x s) | Inr x \<Rightarrow> K s \<and> M x s)"
    by (rule holds_weaken [OF assms(1) [unfolded keeps_def]]) (auto split: sum.splits)
  show "holds_in (unrepeated S H) (closed S H P) (\<lambda>s. K s \<and> M x s) (f x)
      (\<lambda>r s. K s \<and> (case r of Inl e \<Rightarrow> True | Inr x \<Rightarrow> Q x s))" for x
    by (rule holds_weaken [OF assms(2) [unfolded keeps_def]]) auto
qed

lemma keeps_then:
  assumes "keeps S H P K m (\<lambda>_ _. True)" "\<And>x. keeps S H P K (f x) Q"
  shows "keeps S H P K (and_then m f) Q"
  by (rule keeps_bind [OF assms(1)]) (simp add: assms(2))

lemma keeps_pure:
  assumes "keeps S H P K m (\<lambda>x _. B x)" "\<And>x. B x \<Longrightarrow> keeps S H P K (f x) Q"
  shows "keeps S H P K (and_then m f) Q"
proof (rule keeps_bind [OF assms(1)])
  fix x
  show "keeps S H P (\<lambda>s. K s \<and> B x) (f x) Q"
    using assms(2) [of x] by (cases "B x") (simp_all add: keeps_def holds_in_def)
qed

lemma keeps_call:
  assumes "shut S H P K" "\<And>s r t. K s \<Longrightarrow> f s = (r, t) \<Longrightarrow> closed S H P s t \<and> (\<forall>x. r = Inr x \<longrightarrow> Q x t)"
  shows "keeps S H P K (db_call f) Q"
  unfolding keeps_def
proof (rule doors.call [OF stable_shut [OF assms(1)]])
  fix s r t
  assume k: "K s" "f s = (r, t)"
  then have c: "closed S H P s t" "\<forall>x. r = Inr x \<longrightarrow> Q x t" using assms(2) by auto
  moreover have "K t" using shutD [OF assms(1)] c(1) k(1) by blast
  ultimately show "closed S H P s t \<and> K t \<and> (case r of Inl e \<Rightarrow> True | Inr x \<Rightarrow> Q x t)"
    by (auto split: sum.split)
qed auto

lemma keeps_read:
  "shut S H P K \<Longrightarrow> (\<And>s x. K s \<Longrightarrow> f s = Inr x \<Longrightarrow> Q x s) \<Longrightarrow> keeps S H P K (db_read f) Q"
  unfolding db_read_def by (erule keeps_call) (auto simp: closed_refl)

lemma keeps_wrap: "keeps S H P K m Q \<Longrightarrow> keeps S H P K (or_wrap g m) Q"
  unfolding keeps_def by (rule doors.or_wrap) (erule holds_weaken, auto split: sum.splits)

lemma keeps_attempt: "keeps S H P K m Q \<Longrightarrow>
    keeps S H P K (attempt m) (\<lambda>r s. case r of Inl e \<Rightarrow> True | Inr x \<Rightarrow> Q x s)"
  unfolding keeps_def by (rule doors.attempt) (erule holds_weaken, auto split: sum.splits)

lemma keeps_ignoring: "keeps S H P K m (\<lambda>_ _. True) \<Longrightarrow> keeps S H P K (ignoring m) (\<lambda>_ _. True)"
  unfolding keeps_def by (rule doors.ignoring) (erule holds_weaken, auto split: sum.splits)

lemma keeps_when: "keeps S H P K m (\<lambda>_ _. True) \<Longrightarrow> keeps S H P K (when_op b m) (\<lambda>_ _. True)"
  by (cases b) (auto intro: keeps_ret)

lemma keeps_clock: "keeps S H P K clock_now (\<lambda>_ _. True)"
  unfolding keeps_def by (rule doors.clock) simp

lemma keeps_fresh: "keeps S H P K (fresh_id pre) (\<lambda>x _. drawn_id (unrepeated S H) pre x)"
  unfolding keeps_def by (rule doors.fresh) simp

lemma keeps_draw: "keeps S H P K draw (\<lambda>x _. \<forall>t. generate_refresh_token x = Some t \<longrightarrow> token_hash t \<notin> H)"
  by (auto simp: keeps_def holds_in_def draw_def closed_refl relies_def unrepeated_def)

lemma keeps_for_each: "(\<And>x. keeps S H P K (f x) (\<lambda>_ _. True)) \<Longrightarrow> keeps S H P K (for_each f xs) (\<lambda>_ _. True)"
  by (induction xs) (auto intro: keeps_ret keeps_then)

lemma keeps_option:
  "(r = None \<Longrightarrow> keeps S H P K m Q) \<Longrightarrow> (\<And>x. r = Some x \<Longrightarrow> keeps S H P K (g x) Q) \<Longrightarrow>
     keeps S H P K (case r of None \<Rightarrow> m | Some x \<Rightarrow> g x) Q"
  by (cases r) simp_all

lemma keeps_sum:
  "(\<And>e. r = Inl e \<Longrightarrow> keeps S H P K (f e) Q) \<Longrightarrow> (\<And>x. r = Inr x \<Longrightarrow> keeps S H P K (g x) Q) \<Longrightarrow>
     keeps S H P K (case r of Inl e \<Rightarrow> f e | Inr x \<Rightarrow> g x) Q"
  by (cases r) simp_all

lemma keeps_if:
  "(b \<Longrightarrow> keeps S H P K m Q) \<Longrightarrow> (\<not> b \<Longrightarrow> keeps S H P K n Q) \<Longrightarrow> keeps S H P K (if b then m else n) Q"
  by simp

section \<open>The calls\<close>

lemma closedI:
  "a_now t = a_now s \<Longrightarrow> (\<And>sid. sid \<in> S \<Longrightarrow> gone s sid \<Longrightarrow> gone t sid) \<Longrightarrow>
     (\<And>h. h \<in> H \<Longrightarrow> uncurrent s h \<Longrightarrow> uncurrent t h) \<Longrightarrow>
     (\<And>ph. ph \<in> P \<Longrightarrow> no_code s ph \<Longrightarrow> no_code t ph) \<Longrightarrow> closed S H P s t"
  by (simp add: closed_def)

lemma closed_other: "closed S H P s (s\<lparr>a_attempts := x\<rparr>)" "closed S H P s (s\<lparr>a_rates := y\<rparr>)"
  "closed S H P s (s\<lparr>a_user_sessions := z\<rparr>)" "closed S H P s (s\<lparr>a_accounts := u\<rparr>)"
  by (auto intro!: closedI simp: gone_def uncurrent_def no_code_def)

lemma keeps_put_otp:
  assumes "shut S H P K" "ph \<notin> P"
  shows "keeps S H P K (put_otp ph hash ttl) (\<lambda>_ _. True)"
  unfolding put_otp_def using assms
  by (auto intro!: keeps_call closedI simp: gone_def uncurrent_def no_code_def)

lemma keeps_take_otp:
  "shut S H P K \<Longrightarrow> keeps S H P K (take_otp ph) (\<lambda>_ s. no_code s ph)"
  unfolding take_otp_def
  by (auto intro!: keeps_call closedI simp: gone_def uncurrent_def no_code_def)

lemma keeps_take_none:
  "shut S H P K \<Longrightarrow> (\<And>s. K s \<Longrightarrow> no_code s ph) \<Longrightarrow> keeps S H P K (take_otp ph) (\<lambda>x _. x = None)"
  unfolding take_otp_def
  by (auto intro!: keeps_call closedI simp: gone_def uncurrent_def no_code_def)

lemma keeps_peek:
  "shut S H P K \<Longrightarrow> keeps S H P K (peek_otp ph) (\<lambda>x s. x = None \<or> \<not> no_code s ph)"
  unfolding peek_otp_def by (rule keeps_read) (auto simp: no_code_def)

lemma keeps_delete_otp: "shut S H P K \<Longrightarrow> keeps S H P K (delete_otp ph) (\<lambda>_ _. True)"
  unfolding delete_otp_def
  by (auto intro!: keeps_call closedI simp: gone_def uncurrent_def no_code_def)

lemma keeps_counters:
  assumes "shut S H P K"
  shows "keeps S H P K (record_failed_attempt ph window) (\<lambda>_ _. True)" "keeps S H P K (clear_attempts ph) (\<lambda>_ _. True)"
    "keeps S H P K (failed_attempts ph) (\<lambda>_ _. True)" "keeps S H P K (allow key n window) (\<lambda>_ _. True)"
  unfolding record_failed_attempt_def clear_attempts_def failed_attempts_def allow_def using assms
  by (auto intro!: keeps_call keeps_read closed_other split: prod.splits)

lemma keeps_create_session:
  assumes "shut S H P K" "se_id se \<notin> S" "h \<notin> H"
  shows "keeps S H P K (create_session se h ttl) (\<lambda>_ _. True)"
  unfolding create_session_def using assms
  by (auto intro!: keeps_call closedI simp: Let_def gone_def uncurrent_def no_code_def split: if_splits)

lemma keeps_session:
  "shut S H P K \<Longrightarrow> keeps S H P K (session_by_id sid) (\<lambda>se s. se_id se = sid \<and> \<not> gone s sid)"
  unfolding session_by_id_def
  by (auto intro!: keeps_if keeps_raise keeps_read simp: gone_def split: option.splits if_splits)

lemma rotate_script_closed:
  assumes "rotate_script old new ttl seen s = (r, t)" "new \<notin> H"
  shows "closed S H P s t \<and> (\<forall>out. r = Inr out \<longrightarrow> uncurrent t old \<or> old = new) \<and>
    (\<forall>sid. r = Inr (RotationOK, sid) \<longrightarrow> \<not> gone s sid \<and> \<not> uncurrent s old)"
proof (cases "key_get (a_now s) (a_refresh s) old")
  case None
  then show ?thesis using assms(1)
    by (auto simp: rotate_script_def Let_def closed_refl uncurrent_def split: option.splits)
next
  case (Some sid)
  show ?thesis
  proof (cases "key_get (a_now s) (a_sessions s) sid")
    case None
    then show ?thesis using assms(1) Some
      by (auto simp: rotate_script_def Let_def gone_def uncurrent_def no_code_def intro!: closedI)
  next
    case se: (Some se)
    show ?thesis using assms Some se
      by (auto simp: rotate_script_def Let_def gone_def uncurrent_def no_code_def split: if_splits intro!: closedI)
  qed
qed

lemma shut_imp: "(b \<Longrightarrow> shut S H P K) \<Longrightarrow> shut S H P (\<lambda>s. b \<longrightarrow> K s)"
  by (cases b) (auto simp: shut_def)

lemma keeps_rotate:
  assumes "shut S H P K" "new \<notin> H"
  shows "keeps S H P K (rotate old new ttl seen) (\<lambda>(out, found, sid) s. (old \<in> H \<longrightarrow> uncurrent s old) \<and>
    (out = RotationOK \<longrightarrow> (\<exists>se. found = Some se \<and> se_id se = sid \<and> \<not> gone s sid)))"
proof -
  let ?M = "\<lambda>(out, sid) s. old \<in> H \<longrightarrow> uncurrent s old"
  have first: "keeps S H P K (db_call (rotate_script old new ttl_s seen)) (\<lambda>_ s. old \<in> H \<longrightarrow> uncurrent s old)" for ttl_s
    using rotate_script_closed [OF _ assms(2)] assms(2) by (intro keeps_call [OF assms(1)]) blast
  have sh: "shut S H P (\<lambda>s. K s \<and> (old \<in> H \<longrightarrow> uncurrent s old))"
    by (intro shut_intros(5) assms(1) shut_imp shut_intros(3))
  show ?thesis unfolding rotate_def
  proof (rule keeps_bind [OF first], clarify)
    fix out :: rotation and sid
    note se = keeps_session [OF sh, of sid]
    show "keeps S H P (\<lambda>s. K s \<and> (old \<in> H \<longrightarrow> uncurrent s old)) (case out of
        RotationOK \<Rightarrow> if sid = [] then raise_err (Sentinel ''rotate refresh token: reply missing session'')
          else and_then (session_by_id sid) (\<lambda>se. ret (RotationOK, Some se, sid))
      | RotationReuse \<Rightarrow> and_then (attempt (session_by_id sid)) (\<lambda>r.
          ret (RotationReuse, case r of Inl _ \<Rightarrow> None | Inr se \<Rightarrow> Some se, sid))
      | RotationUnknownToken \<Rightarrow> ret (RotationUnknownToken, None, []))
      (\<lambda>(out, found, sid) s. (old \<in> H \<longrightarrow> uncurrent s old) \<and>
        (out = RotationOK \<longrightarrow> (\<exists>se. found = Some se \<and> se_id se = sid \<and> \<not> gone s sid)))"
      by (cases out)
        (auto intro!: keeps_ret keeps_if keeps_raise keeps_bind [OF se] keeps_bind [OF keeps_attempt [OF se]])
  qed
qed

lemma keeps_rotate_refused:
  assumes "shut S H P K" "new \<notin> H" "\<And>s. K s \<Longrightarrow> uncurrent s old"
  shows "keeps S H P K (rotate old new ttl seen) (\<lambda>(out, _) _. out \<noteq> RotationOK)"
proof -
  have first: "keeps S H P K (db_call (rotate_script old new ttl_s seen)) (\<lambda>(out, sid) _. out \<noteq> RotationOK)" for ttl_s
    using rotate_script_closed [OF _ assms(2)] assms(3) by (intro keeps_call [OF assms(1)]) blast
  show ?thesis unfolding rotate_def
  proof (rule keeps_pure [where B = "\<lambda>(out, sid). out \<noteq> RotationOK"])
    show "keeps S H P K (db_call (rotate_script old new (whole_seconds ttl) seen)) (\<lambda>x _. case x of (out, sid) \<Rightarrow> out \<noteq> RotationOK)"
      by (rule keeps_weaken [OF first]) auto
    fix x :: "rotation \<times> string"
    assume "case x of (out, sid) \<Rightarrow> out \<noteq> RotationOK"
    moreover obtain out sid where x: "x = (out, sid)" by fastforce
    ultimately have "out \<noteq> RotationOK" by simp
    then show "keeps S H P K (case x of (out, sid) \<Rightarrow> case out of
        RotationOK \<Rightarrow> if sid = [] then raise_err (Sentinel ''rotate refresh token: reply missing session'')
          else and_then (session_by_id sid) (\<lambda>se. ret (RotationOK, Some se, sid))
      | RotationReuse \<Rightarrow> and_then (attempt (session_by_id sid)) (\<lambda>r.
          ret (RotationReuse, case r of Inl _ \<Rightarrow> None | Inr se \<Rightarrow> Some se, sid))
      | RotationUnknownToken \<Rightarrow> ret (RotationUnknownToken, None, [])) (\<lambda>(out, _) _. out \<noteq> RotationOK)"
      unfolding x
      by (cases out) (auto intro!: keeps_ret keeps_then [OF keeps_True [OF keeps_attempt [OF keeps_session [OF assms(1)]]]])
  qed
qed

lemma keeps_read_sessions:
  assumes "shut S H P K"
  shows "keeps S H P K (read_sessions sids) (\<lambda>_ _. True)"
proof (induction sids)
  case (Cons sid sids)
  show ?case unfolding read_sessions.simps
    by (rule keeps_then [OF keeps_True [OF keeps_attempt [OF keeps_session [OF assms]]]])
      (auto intro!: keeps_sum keeps_if keeps_raise keeps_then [OF Cons] keeps_ret split: prod.split)
qed (simp add: keeps_ret)

lemma keeps_user_sessions:
  assumes "shut S H P K"
  shows "keeps S H P K (user_sessions uid) (\<lambda>_ _. True)"
proof -
  have "keeps S H P K (db_call (\<lambda>s. (Inr (), s\<lparr>a_user_sessions := set_rem (a_now s) uid stale (a_user_sessions s)\<rparr>)))
      (\<lambda>_ _. True)" for stale
    by (rule keeps_call [OF assms]) (auto intro: closed_other)
  then show ?thesis unfolding user_sessions_def
    by (auto intro!: keeps_then [OF keeps_read] keeps_then [OF keeps_read_sessions] keeps_then [OF keeps_when [OF keeps_ignoring]]
        keeps_ret assms split: prod.split)
qed

lemma keeps_revoke:
  assumes "shut S H P K"
  shows "keeps S H P K (revoke_session sid) (\<lambda>_ s. gone s sid)"
proof -
  have last: "keeps S H P K (db_call (\<lambda>s. (Inr (), s\<lparr>
       a_refresh := fold key_del family (a_refresh s), a_spent := fold key_del family (a_spent s),
       a_family := key_del sid (a_family s), a_sessions := key_del sid (a_sessions s),
       a_user_sessions := (if uid = [] then a_user_sessions s
         else set_rem (a_now s) uid [sid] (a_user_sessions s))\<rparr>))) (\<lambda>_ s. gone s sid)" for family and uid :: string
    by (rule keeps_call [OF assms]) (auto intro!: closedI simp: gone_def uncurrent_def no_code_def key_get_dels)
  show ?thesis unfolding revoke_session_def
    by (rule keeps_then [OF keeps_True [OF keeps_attempt [OF keeps_session [OF assms]]]], rule keeps_then [OF keeps_sum])
      (auto intro!: keeps_if keeps_ret keeps_raise keeps_then [OF keeps_read] last assms)
qed

lemma keeps_ensure_user:
  assumes "shut S H P K"
  shows "keeps S H P K (ensure_user ph r) (\<lambda>_ _. True)"
  unfolding ensure_user_def
  by (rule keeps_then [OF keeps_True [OF keeps_fresh]], rule keeps_call [OF assms])
    (auto intro: closed_other closed_refl split: option.splits if_splits)

section \<open>The use cases\<close>

lemma drawn_session_new: "drawn_id (unrepeated S H) ''ses'' x \<Longrightarrow> x \<notin> S"
  by (auto simp: drawn_id_def unrepeated_def)

lemma keeps_fresh_token: "keeps S H P K fresh_refresh_token (\<lambda>t _. token_hash t \<notin> H)"
  unfolding fresh_refresh_token_def
  by (rule keeps_pure [OF keeps_draw]) (auto intro: keeps_raise keeps_ret split: option.split)

lemma keeps_sign: "keeps S H P K (sign_access_token au se now ttl) (\<lambda>_ _. True)"
  unfolding sign_access_token_def
  by (rule keeps_then [OF keeps_True [OF keeps_fresh]], rule keeps_wrap, rule keeps_lift) simp

lemma keeps_evict: "shut S H P K \<Longrightarrow> keeps S H P K (evict_oldest cap ses) (\<lambda>_ _. True)"
  by (induction ses) (auto intro!: keeps_ret keeps_then [OF keeps_wrap [OF keeps_True [OF keeps_revoke]]])

lemma keeps_issue:
  assumes "shut S H P K"
  shows "keeps S H P K (issue_session au uid r device st) (\<lambda>_ _. True)"
  unfolding issue_session_def Let_def
proof (intro keeps_then [OF keeps_clock] keeps_then [OF keeps_wrap [OF keeps_user_sessions [OF assms]]]
    keeps_then [OF keeps_evict [OF assms]], rule keeps_pure [OF keeps_fresh], rule keeps_pure [OF keeps_fresh_token], goal_cases)
  case (1 now existing evicted sid t)
  then show ?case using drawn_session_new [of S H sid]
    by (intro keeps_then [OF keeps_wrap [OF keeps_create_session [OF assms]]] keeps_then [OF keeps_sign] keeps_ret) auto
qed

lemma keeps_lift_phone: "keeps S H P K (lift_phone raw) (\<lambda>ph _. new_phone raw = Inr ph)"
  unfolding lift_phone_def by (rule keeps_lift) (auto split: sum.splits)

lemma keeps_lift_True: "keeps S H P K (lift_err r) (\<lambda>_ _. True)"
  by (rule keeps_lift) simp

lemma keeps_record_failure: "shut S H P K \<Longrightarrow> keeps S H P K (record_failure ph st) (\<lambda>_ _. True)"
  unfolding record_failure_def Let_def
  by (intro keeps_then [OF keeps_wrap [OF keeps_counters(1)]] keeps_then [OF keeps_when [OF keeps_ignoring]]
      keeps_delete_otp keeps_ret) auto

lemma keeps_request_otp:
  assumes "shut S H P K" "\<And>ph. new_phone raw = Inr ph \<Longrightarrow> ph \<notin> P"
  shows "keeps S H P K (request_otp au cfg raw) (\<lambda>_ _. True)"
  unfolding request_otp_def
proof (rule keeps_pure [OF keeps_lift_phone], rule keeps_then [OF keeps_lift_True], goal_cases)
  case (1 ph st)
  then show ?case
    by (auto intro!: keeps_raise keeps_ret keeps_then [OF keeps_wrap [OF keeps_counters(4) [OF assms(1)]]]
        keeps_then [OF keeps_wrap [OF keeps_counters(3) [OF assms(1)]]] keeps_then [OF keeps_True [OF keeps_draw]]
        keeps_then [OF keeps_wrap [OF keeps_put_otp [OF assms(1) assms(2)]]] split: prod.split option.split)
qed

text \<open>Signing in: afterwards the code is gone, and without a code nobody gets in.\<close>

lemma keeps_verify:
  assumes "shut S H P K"
  shows "keeps S H P K (verify_otp au cfg req) (\<lambda>_ s. \<forall>ph. new_phone (vr_phone req) = Inr ph \<and> ph \<in> P \<longrightarrow> no_code s ph)"
  unfolding verify_otp_def
proof (rule keeps_pure [OF keeps_lift_phone], goal_cases)
  case (1 ph)
  let ?Q = "\<lambda>_ s. \<forall>p. new_phone (vr_phone req) = Inr p \<and> p \<in> P \<longrightarrow> no_code s p"
  have sh: "shut S H P (\<lambda>s. K s \<and> (ph \<in> P \<longrightarrow> no_code s ph))" by (intro shut_intros(5) assms(1) shut_imp shut_intros(4))
  have tail: "keeps S H P (\<lambda>s. K s \<and> (ph \<in> P \<longrightarrow> no_code s ph)) (and_then (ignoring (clear_attempts ph)) (\<lambda>_.
      and_then (or_wrap (unavailable ''user_directory_unavailable'' not_signed_in) (ensure_user ph (vr_role req))) (\<lambda>(uid, created).
      and_then (issue_session au uid (vr_role req) (vr_device req) st) (\<lambda>pair. ret (pair, created))))) ?Q" for st
    using 1
    by (auto intro!: keeps_then [OF keeps_ignoring [OF keeps_counters(2) [OF sh]]]
        keeps_then [OF keeps_wrap [OF keeps_ensure_user [OF sh]]] keeps_then [OF keeps_issue [OF sh]] keeps_ret split: prod.split)
  show ?case
  proof (rule keeps_if, rule keeps_raise, rule keeps_then [OF keeps_lift_True],
      rule keeps_then [OF keeps_wrap [OF keeps_counters(3) [OF assms(1)]]], rule keeps_if, rule keeps_raise,
      rule keeps_sum, goal_cases)
    case (1 st attempts e)
    show ?case by (rule keeps_then [OF keeps_record_failure [OF assms(1)]]) (rule keeps_raise)
  next
    case (2 st attempts code)
    show ?case
    proof (rule keeps_then [OF keeps_wrap [OF keeps_True [OF keeps_peek [OF assms(1)]]]], rule keeps_if, goal_cases)
      case (1 stored)
      show ?case
        by (rule keeps_then [OF keeps_record_failure [OF assms(1)]]) (auto intro!: keeps_if keeps_raise)
    next
      case (2 stored)
      show ?case
        by (rule keeps_bind [OF keeps_wrap [OF keeps_weaken [OF keeps_take_otp [OF assms(1)],
              where Q' = "\<lambda>_ s. ph \<in> P \<longrightarrow> no_code s ph"]]], simp)
          (rule keeps_if, rule keeps_raise, rule tail)
    qed
  qed
qed

lemma keeps_verify_refused:
  assumes "shut S H P K" "\<And>s ph. K s \<Longrightarrow> new_phone (vr_phone req) = Inr ph \<Longrightarrow> no_code s ph"
  shows "keeps S H P K (verify_otp au cfg req) (\<lambda>_ _. False)"
  unfolding verify_otp_def
proof (rule keeps_pure [OF keeps_lift_phone], goal_cases)
  case (1 ph)
  have none: "keeps S H P K (or_wrap g (peek_otp ph)) (\<lambda>x _. x = None)" for g
    by (rule keeps_wrap, rule keeps_weaken [OF keeps_peek [OF assms(1)]]) (use assms(2) 1 in auto)
  show ?case
  proof (rule keeps_if, rule keeps_raise, rule keeps_then [OF keeps_lift_True],
      rule keeps_then [OF keeps_wrap [OF keeps_counters(3) [OF assms(1)]]], rule keeps_if, rule keeps_raise,
      rule keeps_sum, goal_cases)
    case (1 st attempts e)
    show ?case by (rule keeps_then [OF keeps_record_failure [OF assms(1)]]) (rule keeps_raise)
  next
    case (2 st attempts code)
    show ?case
      by (rule keeps_pure [OF none])
        (auto intro!: keeps_then [OF keeps_record_failure [OF assms(1)]] keeps_if keeps_raise)
  qed
qed

text \<open>Refreshing: afterwards the presented token is not current, and one that is not is refused.\<close>

lemma keeps_answer:
  assumes "shut S H P K" "\<And>s se. K s \<Longrightarrow> out = RotationOK \<Longrightarrow> found = Some se \<Longrightarrow> B (se_id se)"
  shows "keeps S H P K (case out of
        RotationOK \<Rightarrow> (case found of
            Some se \<Rightarrow>
              if session_expired se now
              then and_then (ignoring (revoke_session (se_id se))) (\<lambda>_. raise_err (sign_in_again ''session not found'' ''session_expired''))
              else and_then (sign_access_token au se now (as_access_token_ttl st)) (\<lambda>access. ret (token_pair_for se access new st))
          | None \<Rightarrow> raise_err (sign_in_again ''invalid refresh token'' ''invalid_refresh_token''))
      | RotationReuse \<Rightarrow> and_then (ignoring (revoke_session sid)) (\<lambda>_. raise_err reuse_detected)
      | RotationUnknownToken \<Rightarrow> raise_err (sign_in_again ''invalid refresh token'' ''invalid_refresh_token''))
      (\<lambda>pair _. B (tp_session_id pair))"
proof -
  note revoke = keeps_then [OF keeps_ignoring [OF keeps_True [OF keeps_revoke [OF assms(1)]]]]
  show ?thesis
  proof (cases out; cases found)
    fix se assume ok: "out = RotationOK" "found = Some se"
    show ?thesis unfolding ok rotation.case option.case
      by (rule keeps_if, rule revoke, rule keeps_raise, rule keeps_then [OF keeps_sign], rule keeps_ret)
        (use assms(2) ok in \<open>simp add: token_pair_for_def\<close>)
  qed (auto intro!: keeps_raise revoke)
qed

lemma keeps_refresh:
  assumes "shut S H P K" "\<And>s sid. K s \<Longrightarrow> \<not> gone s sid \<Longrightarrow> B sid"
  shows "keeps S H P K (refresh_session au cfg raw) (\<lambda>pair s. B (tp_session_id pair) \<and>
    (\<forall>t. parse_refresh_token raw = Some t \<and> token_hash t \<in> H \<longrightarrow> uncurrent s (token_hash t)))"
  unfolding refresh_session_def
proof (rule keeps_option, rule keeps_raise, goal_cases)
  case (1 t)
  let ?h = "token_hash t"
  let ?good = "\<lambda>(out, found, sid :: string). out = RotationOK \<longrightarrow> (\<exists>se. found = Some se \<and> B (se_id se))"
  have rot: "keeps S H P K (or_wrap g (rotate ?h new ttl now)) (\<lambda>x s. ?good x \<and> (?h \<in> H \<longrightarrow> uncurrent s ?h))"
    if "new \<notin> H" for g new ttl now
    by (rule keeps_wrap, rule keeps_weaken [OF keeps_rotate [OF assms(1) that]]) (use assms(2) in auto)
  show ?case unfolding Let_def
  proof (rule keeps_weaken [where Q = "\<lambda>pair s. B (tp_session_id pair) \<and> (?h \<in> H \<longrightarrow> uncurrent s ?h)"], goal_cases)
    case 1
    show ?case
    proof (rule keeps_then [OF keeps_lift_True], rule keeps_then [OF keeps_wrap [OF keeps_counters(4) [OF assms(1)]]],
        clarify, rule keeps_if, rule keeps_raise, rule keeps_pure [OF keeps_fresh_token],
        rule keeps_then [OF keeps_clock], goal_cases)
      case (1 st allowed retry new now)
      show ?case
      proof (rule keeps_bind [OF rot [OF 1(2)]], goal_cases)
        case (1 x)
        obtain out found sid where x: "x = (out, found, sid)" by (cases x)
        have sh: "shut S H P (\<lambda>s. K s \<and> (out = RotationOK \<longrightarrow> (\<exists>se. found = Some se \<and> B (se_id se))) \<and>
            (?h \<in> H \<longrightarrow> uncurrent s ?h))"
          by (intro shut_intros assms(1) shut_imp)
        show ?case unfolding x prod.case
          by (rule keeps_weaken [OF keeps_answer [OF sh]]) auto
      qed
    qed
  qed (use 1 in auto)
qed

lemma keeps_refresh_refused:
  assumes "shut S H P K" "\<And>s t. K s \<Longrightarrow> parse_refresh_token raw = Some t \<Longrightarrow> uncurrent s (token_hash t)"
  shows "keeps S H P K (refresh_session au cfg raw) (\<lambda>_ _. False)"
  unfolding refresh_session_def Let_def
proof (rule keeps_option, rule keeps_raise, rule keeps_then [OF keeps_lift_True],
    rule keeps_then [OF keeps_wrap [OF keeps_counters(4) [OF assms(1)]]], clarify, rule keeps_if, rule keeps_raise,
    rule keeps_pure [OF keeps_fresh_token], rule keeps_then [OF keeps_clock], goal_cases)
  case (1 t st allowed retry new now)
  have rot: "keeps S H P K (or_wrap g (rotate (token_hash t) (token_hash new) ttl now)) (\<lambda>(out, _) _. out \<noteq> RotationOK)" for g ttl
    by (rule keeps_wrap, rule keeps_rotate_refused [OF assms(1) 1(3)]) (use assms(2) 1(1) in auto)
  show ?case
  proof (rule keeps_pure [where B = "\<lambda>(out, _). out \<noteq> RotationOK"], rule keeps_weaken [OF rot], goal_cases)
    case (2 x)
    then show ?case
      by (cases x, cases "fst x")
        (auto intro!: keeps_raise keeps_then [OF keeps_ignoring [OF keeps_True [OF keeps_revoke [OF assms(1)]]]])
  qed auto
qed

text \<open>Signing out.\<close>

lemma keeps_logout:
  assumes "shut S H P K" "pr_session_id p \<in> S"
  shows "keeps S H P K (logout p) (\<lambda>_ s. gone s (pr_session_id p))"
  unfolding logout_def
proof (rule keeps_if, rule keeps_raise, goal_cases)
  case 1
  let ?sid = "pr_session_id p"
  let ?M = "\<lambda>r s. case r of Inl e \<Rightarrow> is_sentinel e ''session not found'' \<longrightarrow> gone s ?sid | Inr se \<Rightarrow> True"
  have look: "keeps S H P K (attempt (session_by_id ?sid)) ?M"
    using 1 unfolding keeps_def session_by_id_def
    by (auto simp: gone_def storage_fault_def err_session_not_found_def intro!: doors.attempt doors.read stable_shut assms(1)
      split: option.splits sum.splits if_splits)
  show ?case
  proof (rule keeps_bind [OF look], rule keeps_sum, goal_cases)
    case (1 r e)
    then show ?case by (auto intro!: keeps_if keeps_ret keeps_raise)
  next
    case (2 r se)
    then show ?case using keeps_revoke [OF assms(1)] by (auto intro!: keeps_if keeps_raise keeps_wrap)
  qed
qed

lemma keeps_logout_all: "shut S H P K \<Longrightarrow> keeps S H P K (logout_all p) (\<lambda>_ _. True)"
  unfolding logout_all_def revoke_user_sessions_def
  by (rule keeps_if, rule keeps_raise, rule keeps_wrap, rule keeps_then [OF keeps_read])
    (auto intro!: keeps_for_each keeps_True [OF keeps_revoke])

lemma keeps_logout_any: "shut S H P K \<Longrightarrow> keeps S H P K (logout p) (\<lambda>_ _. True)"
  unfolding logout_def
  by (rule keeps_if, rule keeps_raise, rule keeps_then [OF keeps_True [OF keeps_attempt [OF keeps_session]]])
    (auto intro!: keeps_sum keeps_if keeps_raise keeps_ret keeps_wrap keeps_True [OF keeps_revoke])

lemma keeps_devices: "shut S H P K \<Longrightarrow> keeps S H P K (list_devices p) (\<lambda>_ _. True)"
  unfolding list_devices_def
  by (rule keeps_if, rule keeps_raise, rule keeps_then [OF keeps_wrap [OF keeps_user_sessions]]) (auto intro: keeps_ret)

section \<open>Histories\<close>

datatype auth_request =
    AqRequestOtp string
  | AqVerify verify_request
  | AqRefresh string
  | AqLogout principal
  | AqLogoutAll principal
  | AqDevices principal

definition forget_auth :: "'a auth_op \<Rightarrow> unit auth_op" where
  "forget_auth m = and_then m (\<lambda>_. ret ())"

fun run_auth :: "auth_services \<Rightarrow> settings_answer \<Rightarrow> auth_request \<Rightarrow> unit auth_op" where
  "run_auth au cfg (AqRequestOtp raw) = forget_auth (request_otp au cfg raw)"
| "run_auth au cfg (AqVerify req) = forget_auth (verify_otp au cfg req)"
| "run_auth au cfg (AqRefresh raw) = forget_auth (refresh_session au cfg raw)"
| "run_auth au cfg (AqLogout p) = logout p"
| "run_auth au cfg (AqLogoutAll p) = logout_all p"
| "run_auth au cfg (AqDevices p) = forget_auth (list_devices p)"

definition asks_for :: "auth_request \<Rightarrow> string \<Rightarrow> bool" where
  "asks_for q ph \<longleftrightarrow> (\<exists>raw. q = AqRequestOtp raw \<and> new_phone raw = Inr ph)"

text \<open>
  Whatever happens between two moments: time passes, and whole requests run, between whose calls
  again anything may happen.  No session in \<open>S\<close> and no token of a hash in \<open>H\<close> is made anew, and
  no code is asked for by a number in \<open>P\<close>.
\<close>

inductive auth_history :: "string set \<Rightarrow> string set \<Rightarrow> string set \<Rightarrow> (auth_store \<Rightarrow> auth_store) \<Rightarrow> bool" for S H P where
  auth_nothing: "auth_history S H P (\<lambda>s. s)"
| auth_later: "auth_history S H P f \<Longrightarrow> auth_history S H P g \<Longrightarrow> auth_history S H P (\<lambda>s. g (f s))"
| auth_time: "0 \<le> d \<Longrightarrow> auth_history S H P (\<lambda>s. s\<lparr>a_now := a_now s + d\<rparr>)"
| auth_request: "(\<And>n. auth_history S H P (w_others w n)) \<Longrightarrow> unrepeated S H (w_clock w) (w_entropy w) \<Longrightarrow>
    (\<And>ph. asks_for q ph \<Longrightarrow> ph \<notin> P) \<Longrightarrow>
    auth_history S H P (\<lambda>s. w_store (snd (run_auth au cfg q (w\<lparr>w_store := s\<rparr>))))"

lemma keeps_forget: "keeps S H P K m (\<lambda>_ _. True) \<Longrightarrow> keeps S H P K (forget_auth m) (\<lambda>_ _. True)"
  unfolding forget_auth_def by (rule keeps_then) (auto intro: keeps_ret)

lemma keeps_run:
  assumes "shut S H P K" "\<And>ph. asks_for q ph \<Longrightarrow> ph \<notin> P"
  shows "keeps S H P K (run_auth au cfg q) (\<lambda>_ _. True)"
proof (cases q)
  case (AqRequestOtp raw)
  then show ?thesis using assms(2) by (auto simp: asks_for_def intro!: keeps_forget keeps_request_otp assms(1))
next
  case (AqRefresh raw)
  then show ?thesis
    using keeps_True [OF keeps_refresh [OF assms(1), where B = "\<lambda>_. True"]] by (simp add: keeps_forget)
qed (auto intro!: keeps_forget keeps_True [OF keeps_verify] keeps_logout_any keeps_logout_all keeps_devices assms(1))

lemma history_closed: "auth_history S H P f \<Longrightarrow> closed S H P s (f s)"
proof (induction arbitrary: s rule: auth_history.induct)
  case auth_nothing
  then show ?case by (rule closed_refl)
next
  case (auth_later f g)
  then show ?case using closed_trans by blast
next
  case (auth_time d)
  then show ?case
    by (auto simp: closed_def gone_def uncurrent_def no_code_def key_get_def intro: live_later [of "a_now s" "a_now s + d"])
next
  case (auth_request w q au cfg)
  let ?w = "w\<lparr>w_store := s\<rparr>"
  have w: "relies (closed S H P) ?w" "unrepeated S H (w_clock ?w) (w_entropy ?w)"
    using auth_request by (simp_all add: relies_def)
  obtain r v where run: "run_auth au cfg q ?w = (r, v)" by fastforce
  have run_keeps: "keeps S H P (\<lambda>_. True) (run_auth au cfg q) (\<lambda>_ _. True)"
    by (rule keeps_run, rule shut_intros(1)) (use auth_request.hyps in blast)
  have "closed S H P (w_store ?w) (w_store v)"
    using holdsD [OF run_keeps [unfolded keeps_def] w _ run] by blast
  then show ?case by (simp add: run)
qed

text \<open>A request that runs among such histories.\<close>

definition among :: "string set \<Rightarrow> string set \<Rightarrow> string set \<Rightarrow> auth_store world \<Rightarrow> bool" where
  "among S H P w \<longleftrightarrow> (\<forall>n. auth_history S H P (w_others w n)) \<and> unrepeated S H (w_clock w) (w_entropy w)"

lemma keeps_among:
  assumes "keeps S H P K m Q" "among S H P w" "K (w_store w)" "m w = (r, v)"
  shows "closed S H P (w_store w) (w_store v) \<and> K (w_store v) \<and> (\<forall>x. r = Inr x \<longrightarrow> Q x (w_store v))"
proof -
  have "relies (closed S H P) w" using assms(2) history_closed by (auto simp: relies_def among_def)
  moreover have "unrepeated S H (w_clock w) (w_entropy w)" using assms(2) by (simp add: among_def)
  ultimately show ?thesis
    using holdsD [OF assms(1) [unfolded keeps_def] _ _ assms(3,4)] by auto
qed

text \<open>C13: Signing out is final.  Once \<open>logout\<close> has answered without an error, no refresh ever hands out a
  token for that session again, whatever other requests run meanwhile.\<close>

theorem signed_out_for_good:
  assumes "among {pr_session_id p} {} {} w" "logout p w = (Inr (), v)"
    and "auth_history {pr_session_id p} {} {} f"
    and "among {pr_session_id p} {} {} w2" "w_store w2 = f (w_store v)"
    and "refresh_session au cfg raw w2 = (Inr pair, u)"
  shows "tp_session_id pair \<noteq> pr_session_id p"
proof -
  let ?sid = "pr_session_id p"
  have out: "keeps {?sid} {} {} (\<lambda>_. True) (logout p) (\<lambda>_ s. gone s ?sid)"
    by (rule keeps_logout) (auto intro: shut_intros)
  have "gone (w_store v) ?sid" using keeps_among [OF out assms(1) _ assms(2)] by simp
  then have g: "gone (w_store w2) ?sid"
    using history_closed [OF assms(3), of "w_store v"] by (simp add: assms(5) closed_def)
  have later: "keeps {?sid} {} {} (\<lambda>s. gone s ?sid) (refresh_session au cfg raw) (\<lambda>pair _. tp_session_id pair \<noteq> ?sid)"
    by (rule keeps_weaken [OF keeps_refresh [where B = "\<lambda>sid. sid \<noteq> ?sid"]]) (auto intro: shut_intros)
  show ?thesis using keeps_among [OF later assms(4) _ assms(6)] g by simp
qed

text \<open>C14: A refresh token is exchanged at most once: after a successful refresh, presenting the same token
  again fails, whatever other requests run in between and meanwhile.\<close>

theorem refresh_token_single_use:
  assumes "parse_refresh_token raw = Some t" "among {} {token_hash t} {} w"
    and "refresh_session au cfg raw w = (Inr pair, v)"
    and "auth_history {} {token_hash t} {} f"
    and "among {} {token_hash t} {} w2" "w_store w2 = f (w_store v)"
    and "refresh_session au2 cfg2 raw w2 = (r, u)"
  shows "\<exists>e. r = Inl e"
proof -
  let ?h = "token_hash t"
  have once: "keeps {} {?h} {} (\<lambda>_. True) (refresh_session au cfg raw) (\<lambda>_ s. uncurrent s ?h)"
    by (rule keeps_weaken [OF keeps_refresh [where B = "\<lambda>_. True"]], rule shut_intros(1), rule TrueI)
      (use assms(1) in blast)
  have "uncurrent (w_store v) ?h" using keeps_among [OF once assms(2) _ assms(3)] by simp
  then have u: "uncurrent (w_store w2) ?h"
    using history_closed [OF assms(4), of "w_store v"] by (simp add: assms(6) closed_def)
  have never: "keeps {} {?h} {} (\<lambda>s. uncurrent s ?h) (refresh_session au2 cfg2 raw) (\<lambda>_ _. False)"
    by (rule keeps_refresh_refused) (auto intro: shut_intros simp: assms(1))
  show ?thesis using keeps_among [OF never assms(5) _ assms(7)] u by (cases r) simp_all
qed

text \<open>C15: A one-time code signs in once: after a successful sign-in, and until the number asks for another
  code, every attempt to sign in with that number fails, whatever other requests run meanwhile.\<close>

theorem code_single_use:
  assumes "new_phone (vr_phone req) = Inr ph" "among {} {} {ph} w"
    and "verify_otp au cfg req w = (Inr pair, v)"
    and "auth_history {} {} {ph} f"
    and "among {} {} {ph} w2" "w_store w2 = f (w_store v)" "new_phone (vr_phone req2) = Inr ph"
    and "verify_otp au2 cfg2 req2 w2 = (r, u)"
  shows "\<exists>e. r = Inl e"
proof -
  have once: "keeps {} {} {ph} (\<lambda>_. True) (verify_otp au cfg req) (\<lambda>_ s. no_code s ph)"
    by (rule keeps_weaken [OF keeps_verify], rule shut_intros(1)) (use assms(1) in blast)
  have "no_code (w_store v) ph" using keeps_among [OF once assms(2) _ assms(3)] by simp
  then have n: "no_code (w_store w2) ph"
    using history_closed [OF assms(4), of "w_store v"] by (simp add: assms(6) closed_def)
  have never: "keeps {} {} {ph} (\<lambda>s. no_code s ph) (verify_otp au2 cfg2 req2) (\<lambda>_ _. False)"
    by (rule keeps_verify_refused) (auto intro: shut_intros simp: assms(7))
  show ?thesis using keeps_among [OF never assms(5) _ assms(8)] n by (cases r) simp_all
qed

end
