(* ===== verification/Identity_Example.thy ===== *)
theory Identity_Example
  imports Identity_Safety Ops
begin

text \<open>
  Concrete sign-ins, refreshes and sign-outs, which the theorems of \<open>Identity_Safety\<close> are applied to.
  The two refresh tokens that are compared are hashed here with SHA-256 itself.
\<close>

section \<open>Whole seconds\<close>

lemma whole_seconds_exact:
  assumes "0 \<le> k" "k < 2 ^ 33"
  shows "whole_seconds (k * second) = k"
proof -
  have q: "quot64 (k * second) second = k" "rem64 (k * second) second = 0"
    using assms by (simp_all add: quot64_nonneg rem64_nonneg second_def)
  have "of_int64 k = Fin (of_int k)" "of_int64 0 = Fin (of_int 0)" "of_int64 second = Fin (of_int second)"
    using assms by (intro of_int64_exact; simp add: second_def)+
  moreover have "fl (of_int 0) = Fin (of_int 0)" "fl (of_int k) = Fin (of_int k)"
    using assms by (intro fl_of_int; simp)+
  ultimately show ?thesis using assms q
    by (simp add: whole_seconds_def duration_seconds_def second_def fits64_def)
qed

section \<open>Two tokens\<close>

definition token_a :: string where "token_a = ''AAAAAAAAAAAAAAAAAAAAAAAAAAAAAAAAAAAAAAAAAAA''"
definition token_b :: string where "token_b = ''AQEBAQEBAQEBAQEBAQEBAQEBAQEBAQEBAQEBAQEBAQE''"

lemma parse_tokens: "parse_refresh_token token_a = Some token_a" "parse_refresh_token token_b = Some token_b"
  unfolding token_a_def token_b_def by code_simp+

lemma generate_b: "generate_refresh_token (replicate 32 1) = Some token_b"
  unfolding token_b_def by code_simp

lemma small_lists: "replicate 4 (0 :: nat) = [0, 0, 0, 0]" "[0..<8] = [0, 1, 2, 3, 4, 5, 6, 7]" "[0..<4] = [0, 1, 2, 3]"
  by (simp_all add: numeral_eq_Suc upt_rec)

lemma block_a:
  "chunks 64 (sha_pad (bytes_of token_a)) = [sha_pad (bytes_of token_a)]"
  "map word_be (chunks 4 (sha_pad (bytes_of token_a))) = [0x41414141, 0x41414141, 0x41414141, 0x41414141, 0x41414141, 0x41414141, 0x41414141, 0x41414141,
    0x41414141, 0x41414141, 0x41414180, 0x00000000, 0x00000000, 0x00000000, 0x00000000, 0x00000158]"
  by (simp_all add: token_a_def sha_pad_def bytes_of_def be_bytes_def chunks.simps word_be_def small_lists)

lemma schedule_a: "sha_extend 48 [0x41414141, 0x41414141, 0x41414141, 0x41414141, 0x41414141, 0x41414141, 0x41414141, 0x41414141,
    0x41414141, 0x41414141, 0x41414180, 0x00000000, 0x00000000, 0x00000000, 0x00000000, 0x00000158] = [0x41414141, 0x41414141, 0x41414141, 0x41414141, 0x41414141, 0x41414141, 0x41414141, 0x41414141,
    0x41414141, 0x41414141, 0x41414180, 0x00000000, 0x00000000, 0x00000000, 0x00000000, 0x00000158,
    0x5d7d7d7c, 0x5e047dbb, 0x2d433689, 0xcdb98218, 0x19db1fff, 0x0db84d46, 0x084256a4, 0xa8c2632f,
    0xdbc54fb2, 0x4527448e, 0x1d148b61, 0x64a2c3e5, 0xe2943550, 0x41d98d19, 0xf5532b6d, 0x7f4f91c8,
    0xf59d23a0, 0x902c98b2, 0x10296dcc, 0xcaafdc53, 0x960e27be, 0xf54e7d11, 0x3121254e, 0xbc9ab3f8,
    0xe701b6b2, 0x483e210b, 0x4c1f9b94, 0x802b4498, 0x708d2d9a, 0x4d95cb97, 0x60b5a74a, 0xdaac15d8,
    0xf63903fc, 0x26048cb4, 0x7be57498, 0xf9049e09, 0x9a6ced33, 0x0615918b, 0x40faaca4, 0x424bab1b,
    0xa8b2449b, 0x2d20d06b, 0xa03be58b, 0xfe621096, 0x5acbab88, 0xc9fbf83e, 0xf33bd376, 0xae5d8da5]"
  by code_simp

lemma rounds_a: "map2 (+) sha_init (foldl sha_round sha_init (zip sha_k [0x41414141, 0x41414141, 0x41414141, 0x41414141, 0x41414141, 0x41414141, 0x41414141, 0x41414141,
    0x41414141, 0x41414141, 0x41414180, 0x00000000, 0x00000000, 0x00000000, 0x00000000, 0x00000158,
    0x5d7d7d7c, 0x5e047dbb, 0x2d433689, 0xcdb98218, 0x19db1fff, 0x0db84d46, 0x084256a4, 0xa8c2632f,
    0xdbc54fb2, 0x4527448e, 0x1d148b61, 0x64a2c3e5, 0xe2943550, 0x41d98d19, 0xf5532b6d, 0x7f4f91c8,
    0xf59d23a0, 0x902c98b2, 0x10296dcc, 0xcaafdc53, 0x960e27be, 0xf54e7d11, 0x3121254e, 0xbc9ab3f8,
    0xe701b6b2, 0x483e210b, 0x4c1f9b94, 0x802b4498, 0x708d2d9a, 0x4d95cb97, 0x60b5a74a, 0xdaac15d8,
    0xf63903fc, 0x26048cb4, 0x7be57498, 0xf9049e09, 0x9a6ced33, 0x0615918b, 0x40faaca4, 0x424bab1b,
    0xa8b2449b, 0x2d20d06b, 0xa03be58b, 0xfe621096, 0x5acbab88, 0xc9fbf83e, 0xf33bd376, 0xae5d8da5])) = [0x0f007385, 0xb6f9d4b7, 0xeeb27486, 0x05afe1a9, 0x84a0a3bf, 0xa3f014d0, 0x9e2a784c, 0xe9e5cd1a]"
  by code_simp

lemma digest_a: "sha256 (bytes_of token_a) = [15, 0, 115, 133, 182, 249, 212, 183, 238, 178, 116, 134, 5, 175, 225, 169, 132, 160, 163, 191, 163, 240, 20, 208, 158, 42, 120, 76, 233, 229, 205, 26]"
  by (simp add: sha256_def block_a sha_block_def schedule_a rounds_a be_bytes_def small_lists)

lemma block_b:
  "chunks 64 (sha_pad (bytes_of token_b)) = [sha_pad (bytes_of token_b)]"
  "map word_be (chunks 4 (sha_pad (bytes_of token_b))) = [0x41514542, 0x41514542, 0x41514542, 0x41514542, 0x41514542, 0x41514542, 0x41514542, 0x41514542,
    0x41514542, 0x41514542, 0x41514580, 0x00000000, 0x00000000, 0x00000000, 0x00000000, 0x00000158]"
  by (simp_all add: token_b_def sha_pad_def bytes_of_def be_bytes_def chunks.simps word_be_def small_lists)

lemma schedule_b: "sha_extend 48 [0x41514542, 0x41514542, 0x41514542, 0x41514542, 0x41514542, 0x41514542, 0x41514542, 0x41514542,
    0x41514542, 0x41514542, 0x41514580, 0x00000000, 0x00000000, 0x00000000, 0x00000000, 0x00000158] = [0x41514542, 0x41514542, 0x41514542, 0x41514542, 0x41514542, 0x41514542, 0x41514542, 0x41514542,
    0x41514542, 0x41514542, 0x41514580, 0x00000000, 0x00000000, 0x00000000, 0x00000000, 0x00000158,
    0x609aa4fa, 0x6121a538, 0x2643baaf, 0x056cd495, 0xc95546bf, 0x1022d8e6, 0x2b03a9e1, 0xb74fc755,
    0x223174fb, 0xdccb591f, 0xdba89318, 0x90f06de9, 0x6bfc756b, 0x6671705e, 0x1ba7ef1a, 0x0a5bd3ed,
    0x5d77151a, 0x84832492, 0x3eef63c8, 0x9f7b6c27, 0x0576f534, 0x34c9e338, 0x25ef682d, 0x91f98fee,
    0xf235f1c0, 0x1fee1736, 0x9c4e72b9, 0x26d44764, 0x84089c4c, 0x043d3000, 0x3ad4def6, 0x34e56f56,
    0x6ece5f52, 0x8a70ba05, 0xd1f4f0d7, 0x43ce22dc, 0xfe3837bf, 0xc9c196f2, 0x24d3ccf5, 0xde302653,
    0x06a346f8, 0x05d65685, 0x890d6ac0, 0xb539fa9a, 0xb27427aa, 0xc7d6fc10, 0xa13281d3, 0x1c1511e3]"
  by code_simp

lemma rounds_b: "map2 (+) sha_init (foldl sha_round sha_init (zip sha_k [0x41514542, 0x41514542, 0x41514542, 0x41514542, 0x41514542, 0x41514542, 0x41514542, 0x41514542,
    0x41514542, 0x41514542, 0x41514580, 0x00000000, 0x00000000, 0x00000000, 0x00000000, 0x00000158,
    0x609aa4fa, 0x6121a538, 0x2643baaf, 0x056cd495, 0xc95546bf, 0x1022d8e6, 0x2b03a9e1, 0xb74fc755,
    0x223174fb, 0xdccb591f, 0xdba89318, 0x90f06de9, 0x6bfc756b, 0x6671705e, 0x1ba7ef1a, 0x0a5bd3ed,
    0x5d77151a, 0x84832492, 0x3eef63c8, 0x9f7b6c27, 0x0576f534, 0x34c9e338, 0x25ef682d, 0x91f98fee,
    0xf235f1c0, 0x1fee1736, 0x9c4e72b9, 0x26d44764, 0x84089c4c, 0x043d3000, 0x3ad4def6, 0x34e56f56,
    0x6ece5f52, 0x8a70ba05, 0xd1f4f0d7, 0x43ce22dc, 0xfe3837bf, 0xc9c196f2, 0x24d3ccf5, 0xde302653,
    0x06a346f8, 0x05d65685, 0x890d6ac0, 0xb539fa9a, 0xb27427aa, 0xc7d6fc10, 0xa13281d3, 0x1c1511e3])) = [0x56d5fa73, 0x33f6d747, 0xdb42c239, 0x407e5da4, 0xc32f4c79, 0xf35d092b, 0x134fd35a, 0x402d9c5c]"
  by code_simp

lemma digest_b: "sha256 (bytes_of token_b) = [86, 213, 250, 115, 51, 246, 215, 71, 219, 66, 194, 57, 64, 126, 93, 164, 195, 47, 76, 121, 243, 93, 9, 43, 19, 79, 211, 90, 64, 45, 156, 92]"
  by (simp add: sha256_def block_b sha_block_def schedule_b rounds_b be_bytes_def small_lists)

lemma tokens_differ: "token_hash token_b \<noteq> token_hash token_a"
  by (simp add: token_hash_def sha256_hex_def digest_a digest_b hex_encode_def hex_digit_def)

section \<open>Running in a quiet world\<close>

lemma draw_quiet: "draw (quiet bytes s c r d) = (Inr bytes, quiet bytes s c r (d + 1))"
  by (simp add: quiet_def draw_def)

lemmas quiet_runs = run_quiet draw_quiet

lemma among_quiet:
  assumes "new_id ''ses'' (unix_milli 0) bytes \<notin> S"
    "\<And>t. generate_refresh_token bytes = Some t \<Longrightarrow> token_hash t \<notin> H"
  shows "among S H P (quiet bytes s c r d)"
  using assms auth_history.auth_nothing by (simp add: among_def quiet_def unrepeated_def)

definition example_auth :: auth_services where
  "example_auth = \<lparr>au_sign = \<lambda>c. Inr ''t'', au_sms = \<lambda>p c. None, au_reveals_code = False\<rparr>"

definition five :: settings_answer where "five = Inr (\<lambda>k. Inr 5)"

definition some_session :: "string \<Rightarrow> session" where
  "some_session sid = \<lparr>se_id = sid, se_user_id = ''u'', se_role = RoleCustomer, se_device = [], se_created_at = 0,
     se_last_seen_at = 0, se_expires_at = 10\<rparr>"

definition two_devices :: auth_store where
  "two_devices = \<lparr>a_now = 0, a_otps = (\<lambda>_. None)(''+8801700000000'' := Some (otp_hash ''+8801700000000'' ''123456'', Some 9)),
     a_attempts = \<lambda>_. None,
     a_sessions = (\<lambda>_. None)(''a'' := Some (some_session ''a'', Some 9), ''b'' := Some (some_session ''b'', Some 9)),
     a_refresh = (\<lambda>_. None)(token_hash token_a := Some (''b'', Some 9)), a_spent = \<lambda>_. None, a_family = \<lambda>_. None,
     a_user_sessions = \<lambda>_. None, a_rates = \<lambda>_. None, a_accounts = []\<rparr>"

lemma load_five: "load_auth_settings five = Inr \<lparr>as_otp_requests_per_hour = 5, as_otp_verify_attempts = 5,
     as_otp_lockout_window = 5 * second, as_otp_ttl = 5 * second, as_access_token_ttl = 5 * second,
     as_refresh_token_ttl = 5 * second, as_max_sessions = 5\<rparr>"
  by (simp add: load_auth_settings_def five_def read_auth_setting_def mul64_def wrap64_def second_def)

lemma key_get_empty [simp]: "key_get now (\<lambda>_. None) k = None"
  by (simp add: key_get_def)

lemmas auth_rules = Let_def run_ops quiet_runs lift_phone_def role_valid_def all_roles_def load_five whole_seconds_exact

lemma second_pos: "\<not> second \<le> 0" "0 < second"
  by (simp_all add: second_def)

lemmas refresh_rules = auth_rules refresh_session_def parse_tokens allow_def key_incr_def parse_allow_reply_def
  refresh_rate_limit_def fresh_refresh_token_def generate_b rotate_def rotate_script_def session_by_id_def
  some_session_def session_expired_def sign_access_token_def example_auth_def token_pair_for_def second_pos

definition one_device :: auth_store where
  "one_device = two_devices\<lparr>a_sessions := key_del ''a'' (a_sessions two_devices),
     a_family := key_del ''a'' (a_family two_devices)\<rparr>"

lemma refreshed:
  "\<exists>pair v. refresh_session example_auth five token_a (quiet (replicate 32 1) two_devices 0 0 0) = (Inr pair, v)"
  "\<exists>pair v. refresh_session example_auth five token_a (quiet (replicate 32 1) one_device 0 0 0) = (Inr pair, v)"
  by (simp_all add: refresh_rules two_devices_def one_device_def
      cong: next_op_cong wrap_result_cong del: op_simps One_nat_def)

definition device_a :: principal where
  "device_a = \<lparr>pr_user_id = ''u'', pr_role = RoleCustomer, pr_session_id = ''a''\<rparr>"

lemma logged_out:
  "\<exists>v. logout device_a (quiet [] two_devices 0 0 0) = (Inr (), v) \<and> w_store v = one_device"
  by (simp add: auth_rules logout_def is_zero_principal_def device_a_def session_by_id_def revoke_session_def unavailable_def
      two_devices_def one_device_def some_session_def set_members_def set_rem_def
      cong: next_op_cong wrap_result_cong del: op_simps One_nat_def)

definition sign_in :: verify_request where
  "sign_in = \<lparr>vr_phone = ''01700000000'', vr_code = ''123456'', vr_role = RoleCustomer, vr_device = []\<rparr>"

lemma sign_in_parses: "new_phone ''01700000000'' = Inr ''+8801700000000''" "parse_otp ''123456'' = Inr ''123456''"
  by code_simp+

lemma signed_in_once:
  "\<exists>pair v. verify_otp example_auth five sign_in (quiet (replicate 32 1) two_devices 0 0 0) = (Inr pair, v)"
  by (simp add: auth_rules verify_otp_def sign_in_def sign_in_parses failed_attempts_def peek_otp_def take_otp_def
      otp_matches_def clear_attempts_def ensure_user_def issue_session_def user_sessions_def set_members_def
      evict_oldest.simps create_session_def sign_access_token_def fresh_refresh_token_def generate_b example_auth_def
      two_devices_def
      cong: next_op_cong wrap_result_cong del: op_simps One_nat_def) (rule exI [of _ True], rule TrueI)

section \<open>The theorems applied\<close>

lemma new_session_id: "new_id ''ses'' ms bytes \<noteq> ''a''"
  by (simp add: new_id_def)

lemma signed_out_for_good_witness:
  "\<exists>v pair u. logout device_a (quiet [] two_devices 0 0 0) = (Inr (), v) \<and>
     refresh_session example_auth five token_a (quiet (replicate 32 1) (w_store v) 0 0 0) = (Inr pair, u) \<and>
     tp_session_id pair \<noteq> pr_session_id device_a"
proof -
  obtain v where v: "logout device_a (quiet [] two_devices 0 0 0) = (Inr (), v)" "w_store v = one_device"
    using logged_out by blast
  obtain pair u where u: "refresh_session example_auth five token_a (quiet (replicate 32 1) one_device 0 0 0) = (Inr pair, u)"
    using refreshed(2) by blast
  have dev: "pr_session_id device_a = ''a''" by (simp add: device_a_def)
  have "tp_session_id pair \<noteq> pr_session_id device_a"
  proof (rule signed_out_for_good [OF _ v(1) auth_history.auth_nothing _ _ u])
    show "among {pr_session_id device_a} {} {} (quiet [] two_devices 0 0 0)"
      "among {pr_session_id device_a} {} {} (quiet (replicate 32 1) one_device 0 0 0)"
      by (rule among_quiet; simp add: dev new_session_id)+
  qed (simp add: v(2) quiet_runs)
  then show ?thesis using v u by auto
qed

lemma refresh_token_single_use_witness:
  "\<exists>pair v e u. refresh_session example_auth five token_a (quiet (replicate 32 1) two_devices 0 0 0) = (Inr pair, v) \<and>
     refresh_session example_auth five token_a (quiet (replicate 32 1) (w_store v) 0 0 0) = (Inl e, u)"
proof -
  obtain pair v where v: "refresh_session example_auth five token_a (quiet (replicate 32 1) two_devices 0 0 0) = (Inr pair, v)"
    using refreshed(1) by blast
  obtain r u where u: "refresh_session example_auth five token_a (quiet (replicate 32 1) (w_store v) 0 0 0) = (r, u)"
    by fastforce
  have "among {} {token_hash token_a} {} (quiet (replicate 32 1) s 0 0 0)" for s
    by (rule among_quiet) (use tokens_differ in \<open>auto simp: generate_b simp del: One_nat_def\<close>)
  then have "\<exists>e. r = Inl e"
    by (intro refresh_token_single_use [OF parse_tokens(1) _ v auth_history.auth_nothing _ _ u]) (simp_all add: quiet_runs)
  then show ?thesis using v u by auto
qed

lemma code_single_use_witness:
  "\<exists>pair v e u. verify_otp example_auth five sign_in (quiet (replicate 32 1) two_devices 0 0 0) = (Inr pair, v) \<and>
     verify_otp example_auth five sign_in (quiet (replicate 32 1) (w_store v) 0 0 0) = (Inl e, u)"
proof -
  obtain pair v where v: "verify_otp example_auth five sign_in (quiet (replicate 32 1) two_devices 0 0 0) = (Inr pair, v)"
    using signed_in_once by blast
  obtain r u where u: "verify_otp example_auth five sign_in (quiet (replicate 32 1) (w_store v) 0 0 0) = (r, u)"
    by fastforce
  have ph: "new_phone (vr_phone sign_in) = Inr ''+8801700000000''" by (simp add: sign_in_def sign_in_parses)
  have "\<exists>e. r = Inl e"
    by (rule code_single_use [OF ph _ v auth_history.auth_nothing _ _ ph u]) (auto intro: among_quiet simp: quiet_runs)
  then show ?thesis using v u by auto
qed

end
