(* ===== verification/Pricing_Domain.thy ===== *)
theory Pricing_Domain
  imports Money Float64
begin

text \<open>
  \<open>modules/pricing/domain\<close>: the tariff of a place, the distance bands, the delivery fee with its
  surcharge for a widened search, free delivery, and the receipt.  The lemmas say what a fee is for
  a sane tariff, that it never falls with the distance, and what the receipt's rows add up to.
\<close>

section \<open>The tariff\<close>

definition band_m :: int64 where "band_m = 1000"

datatype pricing_err = ErrNegativeDistance | ErrNegativeBase | ErrNegativeRate | ErrMultiplierBelow1 | ErrNegativeSubtotal

fun pricing_err_text :: "pricing_err \<Rightarrow> string" where
  "pricing_err_text ErrNegativeDistance = ''a distance cannot be negative''"
| "pricing_err_text ErrNegativeBase = ''the base delivery fee cannot be negative''"
| "pricing_err_text ErrNegativeRate = ''the per-kilometre rate cannot be negative''"
| "pricing_err_text ErrMultiplierBelow1 = ''the expansion multiplier cannot be below one''"
| "pricing_err_text ErrNegativeSubtotal = ''an order subtotal cannot be negative''"

record tariff =
  tf_base :: money
  tf_per_band :: money
  tf_multiplier :: f64
  tf_free_above :: money

definition new_tariff :: "money \<Rightarrow> money \<Rightarrow> f64 \<Rightarrow> money \<Rightarrow> pricing_err + tariff" where
  "new_tariff base per_band multiplier free_above =
     (if is_negative base then Inl ErrNegativeBase
      else if is_negative per_band then Inl ErrNegativeRate
      else if flt multiplier (Fin 1) then Inl ErrMultiplierBelow1
      else Inr \<lparr>tf_base = base, tf_per_band = per_band, tf_multiplier = multiplier, tf_free_above = free_above\<rparr>)"

section \<open>The fee\<close>

definition bands :: "f64 \<Rightarrow> pricing_err + int64" where
  "bands distance_m =
     (if flt distance_m (Fin 0) then Inl ErrNegativeDistance
      else Inr (to_int64 (fceil (fdiv distance_m (Fin (of_int band_m))))))"

definition fee_for :: "tariff \<Rightarrow> int64 \<Rightarrow> bool \<Rightarrow> money" where
  "fee_for t n expanded =
     (let minor = add64 (m_minor (tf_base t)) (mul64 (m_minor (tf_per_band t)) n)
      in taka (if expanded then to_int64 (fround (fmul (of_int64 minor) (tf_multiplier t))) else minor))"

text \<open>The fee and the part of it that is the surcharge.\<close>

definition delivery_fee :: "tariff \<Rightarrow> f64 \<Rightarrow> bool \<Rightarrow> pricing_err + money \<times> money" where
  "delivery_fee t distance_m expanded = rbind (bands distance_m) (\<lambda>n.
     let plain = fee_for t n False
     in if \<not> expanded then Inr (plain, taka 0)
        else let full = fee_for t n True in Inr (full, taka (sub64 (m_minor full) (m_minor plain))))"

definition free_delivery_applies :: "tariff \<Rightarrow> money \<Rightarrow> bool \<Rightarrow> bool" where
  "free_delivery_applies t subtotal expanded =
     (if expanded \<or> is_zero_money (tf_free_above t) then False
      else compare_money subtotal (tf_free_above t) \<ge> 0)"

section \<open>The receipt\<close>

datatype row_key = RowSubtotal | RowDelivery | RowExpansionSurcharge | RowFreeDelivery | RowTotal

fun row_key_text :: "row_key \<Rightarrow> string" where
  "row_key_text RowSubtotal = ''subtotal''"
| "row_key_text RowDelivery = ''delivery''"
| "row_key_text RowExpansionSurcharge = ''expansion_surcharge''"
| "row_key_text RowFreeDelivery = ''free_delivery''"
| "row_key_text RowTotal = ''total''"

record quote =
  qt_subtotal :: money
  qt_delivery :: money
  qt_before_waiver :: money
  qt_surcharge :: money
  qt_free :: bool
  qt_free_at :: money
  qt_away :: money
  qt_total :: money
  qt_distance_m :: f64
  qt_expanded :: bool
  qt_rows :: "(row_key \<times> money) list"

definition away_from_free :: "tariff \<Rightarrow> money \<Rightarrow> bool \<Rightarrow> money" where
  "away_from_free t subtotal expanded =
     (if expanded \<or> is_zero_money (tf_free_above t) then taka 0
      else let short = sub64 (m_minor (tf_free_above t)) (m_minor subtotal)
           in if short \<le> 0 then taka 0 else taka short)"

definition quote_rows :: "quote \<Rightarrow> (row_key \<times> money) list" where
  "quote_rows q = [(RowSubtotal, qt_subtotal q), (RowDelivery, qt_delivery q)]
     @ (if qt_expanded q \<and> \<not> is_zero_money (qt_surcharge q) then [(RowExpansionSurcharge, qt_surcharge q)] else [])
     @ (if qt_free q then [(RowFreeDelivery, taka (neg64 (m_minor (qt_before_waiver q))))] else [])
     @ [(RowTotal, qt_total q)]"

definition price :: "tariff \<Rightarrow> money \<Rightarrow> f64 \<Rightarrow> bool \<Rightarrow> pricing_err + quote" where
  "price t subtotal distance_m expanded =
     (if is_negative subtotal then Inl ErrNegativeSubtotal
      else rbind (delivery_fee t distance_m expanded) (\<lambda>(full, surcharge).
        let free = free_delivery_applies t subtotal expanded;
            charged = (if free then taka 0 else full);
            q = \<lparr>qt_subtotal = subtotal, qt_delivery = charged, qt_before_waiver = full, qt_surcharge = surcharge,
                 qt_free = free, qt_free_at = tf_free_above t, qt_away = away_from_free t subtotal expanded,
                 qt_total = taka (add64 (m_minor subtotal) (m_minor charged)), qt_distance_m = distance_m,
                 qt_expanded = expanded, qt_rows = []\<rparr>
        in Inr (q\<lparr>qt_rows := quote_rows q\<rparr>)))"

section \<open>What a fee is\<close>

text \<open>The tariffs the registry's bounds allow, a multiplier that is not a number aside.\<close>

definition sane_tariff :: "tariff \<Rightarrow> bool" where
  "sane_tariff t \<longleftrightarrow> 0 \<le> m_minor (tf_base t) \<and> m_minor (tf_base t) \<le> 20000 \<and>
     0 \<le> m_minor (tf_per_band t) \<and> m_minor (tf_per_band t) \<le> 5000 \<and>
     (\<exists>m. tf_multiplier t = Fin m \<and> 1 \<le> m \<and> m \<le> 3)"

text \<open>A distance on the earth, with room to spare.\<close>

definition earthly :: "rat \<Rightarrow> bool" where "earthly d \<longleftrightarrow> 0 \<le> d \<and> d \<le> 100000000"

definition bands_of :: "rat \<Rightarrow> int64" where "bands_of d = \<lceil>rne (d / 1000)\<rceil>"

lemma bands_of_bounds:
  assumes "earthly d"
  shows "0 \<le> bands_of d" "bands_of d \<le> 100000"
proof -
  have "of_int 0 \<le> rne (d / 1000)" "rne (d / 1000) \<le> of_int 100000"
    using assms rne.ge_int [of 0 "d / 1000"] rne.le_int [of 100000 "d / 1000"] by (simp_all add: earthly_def)
  then show "0 \<le> bands_of d" "bands_of d \<le> 100000"
    by (simp_all add: bands_of_def ceiling_le_iff ceiling_mono le_ceiling_iff)
qed

lemma bands_of_mono: "d \<le> e \<Longrightarrow> bands_of d \<le> bands_of e"
  by (simp add: bands_of_def ceiling_mono rne_mono divide_right_mono)

lemma bands_eq: "earthly d \<Longrightarrow> bands (Fin d) = Inr (bands_of d)"
proof -
  assume d: "earthly d"
  have "\<bar>d / 1000\<bar> \<le> 2 ^ 53" using d by (simp add: earthly_def)
  moreover have "fits64 (bands_of d)" using bands_of_bounds [OF d] by (intro fits64_small) simp_all
  ultimately show ?thesis using d by (simp add: bands_def earthly_def band_m_def fl_Fin bands_of_def)
qed

lemma bands_of_tight:
  assumes "earthly d"
  shows "d \<le> of_int (1000 * k) \<Longrightarrow> bands_of d \<le> k" and "of_int (1000 * k + 1) \<le> d \<Longrightarrow> k < bands_of d"
proof -
  assume d: "d \<le> of_int (1000 * k)"
  show "bands_of d \<le> k"
  proof (cases "k \<le> 100000")
    case True
    have "0 \<le> k" using d assms by (simp add: earthly_def)
    then have "rne (d / 1000) \<le> of_int k" using True d by (intro rne.le_int) simp_all
    then show ?thesis by (simp add: bands_of_def ceiling_le_iff)
  next
    case False
    then show ?thesis using bands_of_bounds [OF assms] by simp
  qed
next
  assume d: "of_int (1000 * k + 1) \<le> d"
  show "k < bands_of d"
  proof (cases "0 \<le> k")
    case False
    then show ?thesis using bands_of_bounds [OF assms] by simp
  next
    case True
    have k: "k \<le> 100000" using d assms by (simp add: earthly_def)
    let ?m = "k * 1024 + 1"
    have "rne (of_int ?m * 2 powi (- 10)) = of_int ?m * 2 powi (- 10)"
      using True k by (intro rne_exact) simp_all
    moreover have "of_int ?m * 2 powi (- 10) \<le> d / 1000" using d by (simp add: power_int_minus field_simps)
    ultimately have "of_int ?m * 2 powi (- 10) \<le> rne (d / 1000)" using rne_mono by metis
    moreover have "of_int k < of_int ?m * (2 :: rat) powi (- 10)" by (simp add: power_int_minus field_simps)
    ultimately show ?thesis by (simp add: bands_of_def less_ceiling_iff)
  qed
qed

definition plain_fee :: "tariff \<Rightarrow> rat \<Rightarrow> int64" where
  "plain_fee t d = m_minor (tf_base t) + m_minor (tf_per_band t) * bands_of d"

definition full_fee :: "tariff \<Rightarrow> rat \<Rightarrow> int64" where
  "full_fee t d = round_half_away (rne (of_int (plain_fee t d) * fval (tf_multiplier t)))"

lemma plain_fee_bounds:
  assumes "sane_tariff t" "earthly d"
  shows "m_minor (tf_base t) \<le> plain_fee t d" "plain_fee t d \<le> 1000000000"
proof -
  have "m_minor (tf_per_band t) * bands_of d \<le> 5000 * 100000"
    using assms(1) bands_of_bounds [OF assms(2)] by (intro mult_mono) (simp_all add: sane_tariff_def)
  then show "plain_fee t d \<le> 1000000000" using assms(1) by (simp add: plain_fee_def sane_tariff_def)
  show "m_minor (tf_base t) \<le> plain_fee t d"
    using assms(1) bands_of_bounds [OF assms(2)] by (simp add: plain_fee_def sane_tariff_def)
qed

lemma plain_fee_mono: "sane_tariff t \<Longrightarrow> d \<le> e \<Longrightarrow> plain_fee t d \<le> plain_fee t e"
  by (simp add: plain_fee_def sane_tariff_def bands_of_mono mult_left_mono)

lemma full_fee_mono: "sane_tariff t \<Longrightarrow> d \<le> e \<Longrightarrow> full_fee t d \<le> full_fee t e"
  unfolding full_fee_def using plain_fee_mono [of t d e]
  by (intro round_half_away_mono rne_mono mult_right_mono) (auto simp: sane_tariff_def)

lemma full_fee_bounds:
  assumes "sane_tariff t" "earthly d"
  shows "plain_fee t d \<le> full_fee t d" "full_fee t d \<le> 3 * plain_fee t d"
proof -
  obtain m where m: "tf_multiplier t = Fin m" "1 \<le> m" "m \<le> 3" using assms(1) by (auto simp: sane_tariff_def)
  have p: "0 \<le> plain_fee t d" "plain_fee t d \<le> 1000000000"
    using plain_fee_bounds [OF assms] assms(1) by (simp_all add: sane_tariff_def)
  let ?p = "rat_of_int (plain_fee t d)"
  have "?p * 1 \<le> ?p * m" "?p * m \<le> ?p * 3" using m p by (intro mult_left_mono; simp)+
  then have "of_int (plain_fee t d) \<le> rne (?p * m)" "rne (?p * m) \<le> of_int (3 * plain_fee t d)"
    using p by (intro rne.ge_int rne.le_int; simp add: mult.commute)+
  then show "plain_fee t d \<le> full_fee t d" "full_fee t d \<le> 3 * plain_fee t d"
    using round_half_away_mono [of "of_int (plain_fee t d)"] round_half_away_mono [of _ "of_int (3 * plain_fee t d)"]
    by (auto simp: full_fee_def m(1) simp del: of_int_mult)
qed

lemma fee_for_eq:
  assumes "sane_tariff t" "earthly d"
  shows "fee_for t (bands_of d) False = taka (plain_fee t d)" "fee_for t (bands_of d) True = taka (full_fee t d)"
proof -
  obtain m where m: "tf_multiplier t = Fin m" "1 \<le> m" "m \<le> 3" using assms(1) by (auto simp: sane_tariff_def)
  have p: "0 \<le> plain_fee t d" "plain_fee t d \<le> 1000000000"
    using plain_fee_bounds [OF assms] assms(1) by (simp_all add: sane_tariff_def)
  have r: "m_minor (tf_per_band t) * bands_of d \<le> plain_fee t d" "0 \<le> m_minor (tf_per_band t) * bands_of d"
    using assms(1) bands_of_bounds [OF assms(2)] by (simp_all add: plain_fee_def sane_tariff_def)
  then have minor: "add64 (m_minor (tf_base t)) (mul64 (m_minor (tf_per_band t)) (bands_of d)) = plain_fee t d"
    using p by (simp add: add64_def mul64_def fits64_small plain_fee_def)
  then show "fee_for t (bands_of d) False = taka (plain_fee t d)" by (simp add: fee_for_def)
  have "of_int64 (plain_fee t d) = Fin (of_int (plain_fee t d))" using p by (intro of_int64_exact) simp
  moreover have "rat_of_int (plain_fee t d) * m \<le> rat_of_int 1000000000 * 3"
    using m p by (intro mult_mono) (simp_all del: of_int_numeral)
  then have "fl (of_int (plain_fee t d) * m) = Fin (rne (of_int (plain_fee t d) * m))"
    using m p by (intro fl_Fin) (simp add: abs_mult)
  moreover have "fits64 (full_fee t d)" using full_fee_bounds [OF assms] p by (intro fits64_small) simp_all
  ultimately show "fee_for t (bands_of d) True = taka (full_fee t d)"
    by (simp add: fee_for_def minor m(1) full_fee_def)
qed

lemma delivery_fee_eq:
  assumes "sane_tariff t" "earthly d"
  shows "delivery_fee t (Fin d) expanded = Inr (if expanded then (taka (full_fee t d), taka (full_fee t d - plain_fee t d))
     else (taka (plain_fee t d), taka 0))"
proof -
  have "fits64 (full_fee t d - plain_fee t d)"
    using full_fee_bounds [OF assms] plain_fee_bounds [OF assms] assms(1) by (intro fits64_small) (simp_all add: sane_tariff_def)
  then show ?thesis using assms by (simp add: delivery_fee_def bands_eq fee_for_eq sub64_def)
qed

section \<open>Properties\<close>

lemma fee_for_whole_metres:
  assumes "0 \<le> k" "k \<le> 100000000"
  shows "bands_of (of_int k) = (k + 999) div 1000"
proof -
  have e: "earthly (of_int k)" using assms by (simp add: earthly_def)
  define n where "n = (k + 999) div 1000"
  have "1000 * n + (k + 999) mod 1000 = k + 999" "(k + 999) mod 1000 < 1000" "0 \<le> (k + 999) mod 1000"
    by (simp_all add: n_def)
  then have "k \<le> 1000 * n \<and> 1000 * (n - 1) + 1 \<le> k" by auto
  then have n: "k \<le> 1000 * n" "1000 * (n - 1) + 1 \<le> k" by simp_all
  have "bands_of (of_int k) \<le> n" using n(1) by (intro bands_of_tight(1) [OF e]) (simp only: of_int_le_iff)
  moreover have "n - 1 < bands_of (of_int k)" using n(2) by (intro bands_of_tight(2) [OF e]) (simp only: of_int_le_iff)
  moreover have "0 \<le> bands_of (of_int k)" using bands_of_bounds [OF e] by simp
  ultimately show ?thesis by (simp add: n_def)
qed

text \<open>C21: A fee never falls with the distance, and widening the search never makes it smaller: with a tariff
  in bounds the plain fee of \<open>k\<close> whole metres is exactly the base plus the rate for every begun kilometre,
  the fee of a widened search is between it and three times as much, the surcharge is the difference,
  and both grow with the distance.\<close>

theorem fee_grows:
  assumes "sane_tariff t" "0 \<le> k" "k \<le> n" "n \<le> 100000000"
  shows "\<exists>f g. let p = m_minor (tf_base t) + m_minor (tf_per_band t) * ((k + 999) div 1000);
      q = m_minor (tf_base t) + m_minor (tf_per_band t) * ((n + 999) div 1000) in
    delivery_fee t (Fin (of_int k)) False = Inr (taka p, taka 0) \<and>
    delivery_fee t (Fin (of_int n)) False = Inr (taka q, taka 0) \<and> p \<le> q \<and>
    delivery_fee t (Fin (of_int k)) True = Inr (taka f, taka (f - p)) \<and>
    delivery_fee t (Fin (of_int n)) True = Inr (taka g, taka (g - q)) \<and> f \<le> g \<and>
    p \<le> f \<and> f \<le> 3 * p"
proof -
  let ?k = "rat_of_int k" and ?n = "rat_of_int n"
  have e: "earthly ?k" "earthly ?n" using assms by (simp_all add: earthly_def)
  have p: "m_minor (tf_base t) + m_minor (tf_per_band t) * ((k + 999) div 1000) = plain_fee t ?k"
    "m_minor (tf_base t) + m_minor (tf_per_band t) * ((n + 999) div 1000) = plain_fee t ?n"
    using assms by (simp_all add: plain_fee_def fee_for_whole_metres)
  have "plain_fee t ?k \<le> plain_fee t ?n" "full_fee t ?k \<le> full_fee t ?n"
    using assms plain_fee_mono full_fee_mono by simp_all
  then show ?thesis using full_fee_bounds [OF assms(1) e(1)]
    by (intro exI [of _ "full_fee t ?k"] exI [of _ "full_fee t ?n"])
      (simp add: delivery_fee_eq assms(1) e Let_def p)
qed

definition usual_tariff :: tariff where
  "usual_tariff = \<lparr>tf_base = taka 4000, tf_per_band = taka 1000, tf_multiplier = Fin (3 / 2), tf_free_above = taka 50000\<rparr>"

lemma usual_tariff_sane: "sane_tariff usual_tariff"
  unfolding sane_tariff_def usual_tariff_def by (simp, rule exI [of _ "3 / 2"]) simp

theorem fee_grows_witness:
  "\<exists>f g. delivery_fee usual_tariff (Fin 1500) False = Inr (taka 6000, taka 0) \<and>
     delivery_fee usual_tariff (Fin 2001) False = Inr (taka 7000, taka 0) \<and>
     delivery_fee usual_tariff (Fin 1500) True = Inr (taka f, taka (f - 6000)) \<and>
     delivery_fee usual_tariff (Fin 2001) True = Inr (taka g, taka (g - 7000)) \<and> f \<le> g \<and> 6000 \<le> f \<and> f \<le> 18000"
  using fee_grows [OF usual_tariff_sane, of 1500 2001] by (simp add: usual_tariff_def)

lemma receipt_parts:
  assumes "sane_tariff t" "earthly d" "0 \<le> s" "s \<le> 1000000000000000"
    and "m_minor (tf_free_above t) = at_least" "0 \<le> at_least" "at_least \<le> 1000000000000000"
  shows "\<exists>q full surcharge. price t (taka s) (Fin d) expanded = Inr q \<and>
    delivery_fee t (Fin d) expanded = Inr (taka full, taka surcharge) \<and>
    (qt_free q \<longleftrightarrow> \<not> expanded \<and> 0 < at_least \<and> at_least \<le> s) \<and>
    qt_delivery q = taka (if qt_free q then 0 else full) \<and>
    qt_total q = taka (s + m_minor (qt_delivery q)) \<and>
    qt_away q = taka (if expanded then 0 else max 0 (at_least - s)) \<and>
    map fst (qt_rows q) = [RowSubtotal, RowDelivery] @ (if expanded \<and> surcharge \<noteq> 0 then [RowExpansionSurcharge] else [])
      @ (if qt_free q then [RowFreeDelivery] else []) @ [RowTotal] \<and>
    (\<Sum>(k, m)\<leftarrow>butlast (qt_rows q). m_minor m) =
      m_minor (qt_total q) + (if expanded then surcharge else 0) - (if qt_free q then full else 0)"
proof -
  define full where "full = (if expanded then full_fee t d else plain_fee t d)"
  define extra where "extra = (if expanded then full_fee t d - plain_fee t d else 0)"
  have fee: "delivery_fee t (Fin d) expanded = Inr (taka full, taka extra)"
    using assms by (simp add: delivery_fee_eq full_def extra_def)
  have full: "0 \<le> full" "full \<le> 3000000000"
    using full_fee_bounds [OF assms(1,2)] plain_fee_bounds [OF assms(1,2)] assms(1)
    by (auto simp: sane_tariff_def full_def)
  have extra: "expanded \<or> extra = 0" by (simp add: extra_def)
  define free where "free \<longleftrightarrow> \<not> expanded \<and> 0 < at_least \<and> at_least \<le> s"
  have frees: "free_delivery_applies t (taka s) expanded = free"
    using assms(5,6) by (auto simp: free_delivery_applies_def free_def is_zero_money_def compare_money_def)
  have away: "away_from_free t (taka s) expanded = taka (if expanded then 0 else max 0 (at_least - s))"
    using assms(3-7) by (simp add: away_from_free_def is_zero_money_def sub64_def fits64_small Let_def)
  have sums: "add64 s full = s + full" "add64 s 0 = s" "neg64 full = - full"
    using assms(3,4) full by (simp_all add: add64_def neg64_def fits64_small)
  define q where "q = \<lparr>qt_subtotal = taka s, qt_delivery = taka (if free then 0 else full), qt_before_waiver = taka full,
    qt_surcharge = taka extra, qt_free = free, qt_free_at = tf_free_above t,
    qt_away = taka (if expanded then 0 else max 0 (at_least - s)), qt_total = taka (s + (if free then 0 else full)),
    qt_distance_m = Fin d, qt_expanded = expanded, qt_rows = []\<rparr>"
  have "price t (taka s) (Fin d) expanded = Inr (q\<lparr>qt_rows := quote_rows q\<rparr>)"
    using assms(3) by (simp add: price_def fee frees away sums q_def Let_def)
  moreover have "quote_rows (q\<lparr>qt_rows := quote_rows q\<rparr>) = quote_rows q" by (simp add: quote_rows_def)
  moreover have "map fst (quote_rows q) = [RowSubtotal, RowDelivery]
      @ (if expanded \<and> extra \<noteq> 0 then [RowExpansionSurcharge] else [])
      @ (if free then [RowFreeDelivery] else []) @ [RowTotal]" by (simp add: quote_rows_def q_def)
  moreover have "(\<Sum>(k, m)\<leftarrow>butlast (quote_rows q). m_minor m) =
      s + (if free then 0 else full) + (if expanded then extra else 0) - (if free then full else 0)"
    using extra sums by (simp add: quote_rows_def q_def butlast_append)
  ultimately show ?thesis using fee by (intro exI [of _ "q\<lparr>qt_rows := quote_rows q\<rparr>"] exI [of _ full] exI [of _ extra])
    (simp add: q_def free_def [symmetric])
qed

text \<open>C22: The receipt of a price: the total is the goods plus what is charged for the delivery, which is nothing
  exactly when the order is local, the promotion is on and the goods reach its threshold; what is
  missing to it is right; and the rows before the total add up to it, but for the surcharge, which is
  part of the delivery, and the waiver, which is taken off a delivery row that is already zero.\<close>

theorem receipt_adds_up:
  assumes "sane_tariff t" "earthly d" "0 \<le> s" "s \<le> 1000000000000000"
    and "m_minor (tf_free_above t) = at_least" "0 \<le> at_least" "at_least \<le> 1000000000000000"
  shows "\<exists>q full surcharge. price t (taka s) (Fin d) expanded = Inr q \<and>
    delivery_fee t (Fin d) expanded = Inr (taka full, taka surcharge) \<and>
    (qt_free q \<longleftrightarrow> \<not> expanded \<and> 0 < at_least \<and> at_least \<le> s) \<and>
    qt_delivery q = taka (if qt_free q then 0 else full) \<and>
    qt_total q = taka (s + m_minor (qt_delivery q)) \<and>
    qt_away q = taka (if expanded then 0 else max 0 (at_least - s)) \<and>
    map fst (qt_rows q) = [RowSubtotal, RowDelivery] @ (if expanded \<and> surcharge \<noteq> 0 then [RowExpansionSurcharge] else [])
      @ (if qt_free q then [RowFreeDelivery] else []) @ [RowTotal] \<and>
    (\<Sum>(k, m)\<leftarrow>butlast (qt_rows q). m_minor m) =
      m_minor (qt_total q) + (if expanded then surcharge else 0) - (if qt_free q then full else 0)"
  by (rule receipt_parts [OF assms])

theorem receipt_adds_up_witness:
  "\<exists>q full. price usual_tariff (taka 60000) (Fin 2400) False = Inr q \<and> qt_free q \<and> qt_total q = taka 60000 \<and>
     map fst (qt_rows q) = [RowSubtotal, RowDelivery, RowFreeDelivery, RowTotal] \<and>
     (\<Sum>(k, m)\<leftarrow>butlast (qt_rows q). m_minor m) = 60000 - full"
  using receipt_adds_up [OF usual_tariff_sane, of 2400 60000 50000 False]
  by (force simp: usual_tariff_def earthly_def)

end
