(* ===== verification/FloatText.thy ===== *)
theory FloatText
  imports Float64 GoStrings
begin

text \<open>
  Decimal text of a \<open>float64\<close>: \<open>strconv.FormatFloat(f, 'g', -1, 64)\<close>, the shortest digits that read
  back as the same number, and \<open>strconv.ParseFloat(s, 64)\<close>, with its signs, underscores, hexadecimal
  form and special names.  Reading back what was written gives the number again.
\<close>

section \<open>The shortest digits\<close>

text \<open>The position \<open>d\<close> of the decimal point: \<open>x\<close> is at least \<open>10^(d-1)\<close> and below \<open>10^d\<close>.\<close>

definition dec_exp :: "rat \<Rightarrow> int" where
  "dec_exp x = (let (a, b) = quotient_of x; e = int (length (nat_digits (nat a))) - int (length (nat_digits (nat b)))
                in if x < 10 powi e then e else e + 1)"

text \<open>With \<open>n\<close> digits: the nearest decimal that rounds to \<open>x\<close>, of the two neighbours.\<close>

definition dec_candidate :: "rat \<Rightarrow> int \<Rightarrow> nat \<Rightarrow> int option" where
  "dec_candidate x d n =
     (let y = x * 10 powi (int n - d); lo = \<lfloor>y\<rfloor>;
          near = (if y - of_int lo \<le> 1 / 2 then [lo, lo + 1] else [lo + 1, lo])
      in find (\<lambda>m. fl (of_int m * 10 powi (d - int n)) = Fin x) near)"

fun first_some :: "('a \<Rightarrow> 'b option) \<Rightarrow> 'a list \<Rightarrow> 'b option" where
  "first_some f [] = None"
| "first_some f (x # xs) = (case f x of Some y \<Rightarrow> Some y | None \<Rightarrow> first_some f xs)"

definition strip_zeros :: "string \<Rightarrow> string" where
  "strip_zeros ds = rev (dropWhile (\<lambda>c. c = CHR ''0'') (rev ds))"

text \<open>The digits and the place of the point: the number is \<open>0.ds \<times> 10^dp\<close>; nothing for zero.\<close>

definition shortest :: "rat \<Rightarrow> string \<times> int" where
  "shortest x = (if x = 0 then ([], 0)
     else let d = dec_exp x
          in case first_some (\<lambda>n. map_option (Pair n) (dec_candidate x d n)) [1..<1500] of
               None \<Rightarrow> ([], 0)
             | Some (n, m) \<Rightarrow>
                 let ds = nat_digits (nat m) in (strip_zeros ds, int (length ds) - int n + d))"

text \<open>The exponent, with a sign and at least two digits.\<close>

definition exp_text :: "int \<Rightarrow> string" where
  "exp_text e = (if e < 0 then ''-'' else ''+'') @
     (let ds = nat_digits (nat \<bar>e\<bar>) in if length ds < 2 then CHR ''0'' # ds else ds)"

text \<open>
  The form with an exponent when it is below -4 or at least 6, the precision the library takes for
  the shortest digits; otherwise the plain form.
\<close>

definition digits_text :: "string \<Rightarrow> int \<Rightarrow> string" where
  "digits_text ds dp =
     (let e = dp - 1
      in if e < -4 \<or> 6 \<le> e
         then take 1 ds @ (if length ds > 1 then CHR ''.'' # drop 1 ds else []) @ CHR ''e'' # exp_text e
         else if dp \<le> 0 then ''0'' @ (if ds = [] then [] else CHR ''.'' # replicate (nat (- dp)) CHR ''0'' @ ds)
         else if nat dp < length ds then take (nat dp) ds @ CHR ''.'' # drop (nat dp) ds
         else ds @ replicate (nat dp - length ds) CHR ''0'')"

fun format_float :: "f64 \<Rightarrow> string" where
  "format_float NaN = ''NaN''"
| "format_float PInf = ''+Inf''"
| "format_float NInf = ''-Inf''"
| "format_float (Fin x) = (if x < 0 then ''-'' else []) @ (case shortest \<bar>x\<bar> of (ds, dp) \<Rightarrow> digits_text ds dp)"

section \<open>Reading\<close>

definition is_hex :: "char \<Rightarrow> bool" where
  "is_hex c \<longleftrightarrow> is_digit c \<or> lower_char c \<in> set ''abcdef''"

definition hex_val :: "char \<Rightarrow> nat" where
  "hex_val c = (if is_digit c then digit_val c else of_char (lower_char c) - 87)"

text \<open>Digits of the base, underscores and at most one point; and what is left.\<close>

fun scan_mantissa :: "(char \<Rightarrow> bool) \<Rightarrow> bool \<Rightarrow> string \<Rightarrow> string \<times> string" where
  "scan_mantissa d dot [] = ([], [])"
| "scan_mantissa d dot (c # s) =
     (if c = CHR ''_'' \<or> d c \<or> c = CHR ''.'' \<and> \<not> dot
      then case scan_mantissa d (dot \<or> c = CHR ''.'') s of (m, r) \<Rightarrow> (c # m, r)
      else ([], c # s))"

text \<open>The exponent stops growing once it has reached ten thousand.\<close>

definition exp_val :: "string \<Rightarrow> int" where
  "exp_val ds = foldl (\<lambda>e c. if e < 10000 then e * 10 + int (digit_val c) else e) 0 ds"

text \<open>\<open>None\<close> for a malformed exponent; an empty text has none.\<close>

definition read_exponent :: "char \<Rightarrow> string \<Rightarrow> int option option" where
  "read_exponent e s = (case s of
     [] \<Rightarrow> Some None
   | c # r \<Rightarrow>
       if lower_char c \<noteq> e then None
       else let (neg, body) = (case r of
                   sg # b \<Rightarrow> if sg = CHR ''+'' then (False, b) else if sg = CHR ''-'' then (True, b) else (False, r)
                 | [] \<Rightarrow> (False, []))
            in if body = [] \<or> \<not> is_digit (hd body) \<or> \<not> list_all (\<lambda>c. is_digit c \<or> c = CHR ''_'') body then None
               else let v = exp_val (filter is_digit body) in Some (Some (if neg then - v else v)))"

text \<open>An underscore stands between digits, the prefix of a base counting as one.\<close>

fun underscores_ok :: "(char \<Rightarrow> bool) \<Rightarrow> char \<Rightarrow> string \<Rightarrow> bool" where
  "underscores_ok d saw [] = (saw \<noteq> CHR ''_'')"
| "underscores_ok d saw (c # s) =
     (if d c then underscores_ok d CHR ''0'' s
      else if c = CHR ''_'' then saw = CHR ''0'' \<and> underscores_ok d CHR ''_'' s
      else saw \<noteq> CHR ''_'' \<and> underscores_ok d CHR ''!'' s)"

definition underscore_ok :: "string \<Rightarrow> bool" where
  "underscore_ok s =
     (let prefixed = (length s \<ge> 2 \<and> hd s = CHR ''0'' \<and> lower_char (s ! 1) \<in> set ''box'');
          hex = (prefixed \<and> lower_char (s ! 1) = CHR ''x'')
      in if prefixed then underscores_ok (if hex then is_hex else is_digit) CHR ''0'' (drop 2 s)
         else underscores_ok is_digit CHR ''^'' s)"

text \<open>\<open>readFloat\<close> on the text after the sign: the number it denotes, before rounding.\<close>

definition read_number :: "string \<Rightarrow> rat option" where
  "read_number s =
     (let hex = (length s > 2 \<and> hd s = CHR ''0'' \<and> lower_char (s ! 1) = CHR ''x'');
          d = (if hex then is_hex else is_digit);
          (m, r) = scan_mantissa d False (if hex then drop 2 s else s);
          ds = filter d m;
          fraction = length (filter d (dropWhile (\<lambda>c. c \<noteq> CHR ''.'') m));
          value = (if hex then foldl (\<lambda>n c. n * 16 + hex_val c) 0 ds else digits_val ds)
      in if ds = [] then None
         else case read_exponent (if hex then CHR ''p'' else CHR ''e'') r of
                None \<Rightarrow> None
              | Some e \<Rightarrow>
                  if hex \<and> e = None \<or> (CHR ''_'' \<in> set s \<and> \<not> underscore_ok s) then None
                  else let k = (case e of None \<Rightarrow> 0 | Some v \<Rightarrow> v)
                       in Some (if hex then of_nat value * 2 powi (k - 4 * int fraction)
                                else of_nat value * 10 powi (k - int fraction)))"

definition special_float :: "string \<Rightarrow> f64 option" where
  "special_float s =
     (let t = to_lower s
      in if t \<in> {''inf'', ''+inf'', ''infinity'', ''+infinity''} then Some PInf
         else if t \<in> {''-inf'', ''-infinity''} then Some NInf
         else if t = ''nan'' then Some NaN else None)"

text \<open>\<open>None\<close> for a text that is no number and for one out of range.\<close>

definition parse_float :: "string \<Rightarrow> f64 option" where
  "parse_float s = (case special_float s of Some f \<Rightarrow> Some f
   | None \<Rightarrow>
       let (neg, body) = (case s of
             c # b \<Rightarrow> if c = CHR ''+'' then (False, b) else if c = CHR ''-'' then (True, b) else (False, s)
           | [] \<Rightarrow> (False, []))
       in case read_number body of
            None \<Rightarrow> None
          | Some x \<Rightarrow> (case fl (if neg then - x else x) of Fin y \<Rightarrow> Some (Fin y) | _ \<Rightarrow> None))"

section \<open>The digits denote the number\<close>

lemma digits_val_snoc: "digits_val (xs @ [c]) = digits_val xs * 10 + digit_val c"
  by (simp add: digits_val_def)

lemma digits_val_append: "digits_val (xs @ ys) = digits_val xs * 10 ^ length ys + digits_val ys"
proof (induction ys rule: rev_induct)
  case Nil
  then show ?case by (simp add: digits_val_def)
next
  case (snoc c ys)
  have "digits_val (xs @ ys @ [c]) = digits_val (xs @ ys) * 10 + digit_val c"
    by (simp flip: append_assoc add: digits_val_snoc)
  then show ?case using snoc by (simp add: digits_val_snoc algebra_simps)
qed

lemma digits_val_zeros: "digits_val (replicate n CHR ''0'') = 0"
  by (induction n) (simp_all add: digits_val_def digit_val_def)

lemma digits_val_shift: "digits_val (ds @ replicate n CHR ''0'') = digits_val ds * 10 ^ n"
  by (simp add: digits_val_append digits_val_zeros)

lemma digits_val_lead: "digits_val (replicate n CHR ''0'' @ ds) = digits_val ds"
  by (simp add: digits_val_append digits_val_zeros)

lemma nat_digits_length: "0 < n \<Longrightarrow> 10 ^ (length (nat_digits n) - 1) \<le> n \<and> n < 10 ^ length (nat_digits n)"
proof (induction n rule: nat_digits.induct)
  case (1 n)
  show ?case
  proof (cases "n < 10")
    case True
    then show ?thesis using "1.prems" by (simp add: nat_digits.simps [of n])
  next
    case False
    define l where "l = length (nat_digits (n div 10))"
    have l: "0 < l" unfolding l_def using nat_digits_props by simp
    have IH: "10 ^ (l - 1) \<le> n div 10" "n div 10 < 10 ^ l" using 1 False by (simp_all add: l_def)
    have s: "length (nat_digits n) = Suc l" using False by (simp add: nat_digits.simps [of n] l_def)
    define p where "p = (10 :: nat) ^ (l - 1)"
    have "(10 :: nat) ^ l = 10 * p" using l by (cases l) (simp_all add: p_def)
    then have "p \<le> n div 10" "n div 10 < 10 * p" "10 ^ Suc l = 100 * p" "10 ^ (Suc l - 1) = 10 * p"
      using IH by (simp_all add: p_def)
    then show ?thesis unfolding s by linarith
  qed
qed

lemma strip_zeros_split: "\<exists>k. ds = strip_zeros ds @ replicate k CHR ''0''"
proof -
  let ?p = "\<lambda>c. c = CHR ''0''"
  have "rev ds = takeWhile ?p (rev ds) @ dropWhile ?p (rev ds)" by simp
  then have "ds = strip_zeros ds @ rev (takeWhile ?p (rev ds))"
    unfolding strip_zeros_def by (metis rev_append rev_rev_ident)
  moreover have "takeWhile ?p (rev ds) = replicate (length (takeWhile ?p (rev ds))) CHR ''0''"
    by (rule replicate_eqI) (auto dest: set_takeWhileD)
  ultimately show ?thesis by (metis rev_replicate)
qed

lemma powi_10_pos [simp]: "0 < (10 :: rat) powi e"
  by (rule zero_less_power_int) simp

lemma powi_10_less: "(10 :: rat) powi d < 10 powi e \<longleftrightarrow> d < e"
  by (metis linorder_not_le not_less_iff_gr_or_eq numeral_One numeral_less_iff power_int_increasing
      power_int_strict_increasing semiring_norm(76) zero_less_numeral one_less_numeral_iff less_imp_le)

lemma powi_10_nat: "(10 :: rat) powi int n = 10 ^ n"
  by simp

text \<open>The decimal exponent brackets the number.\<close>

lemma dec_exp_bounds:
  assumes "0 < x"
  shows "10 powi (dec_exp x - 1) \<le> x \<and> x < 10 powi dec_exp x"
proof -
  obtain a b where q: "quotient_of x = (a, b)" by fastforce
  have b: "0 < b" using q by (rule quotient_of_denom_pos)
  have x: "x = of_int a / of_int b" using q by (rule quotient_of_div)
  have a: "0 < a" using assms b x by (simp add: zero_less_divide_iff)
  define la lb where "la = length (nat_digits (nat a))" and "lb = length (nat_digits (nat b))"
  have digits: "rat_of_int n < 10 ^ length (nat_digits (nat n)) \<and> 10 ^ length (nat_digits (nat n)) \<le> 10 * rat_of_int n"
    if "0 < n" for n
  proof -
    let ?l = "length (nat_digits (nat n))"
    have n: "10 ^ (?l - 1) \<le> nat n" "nat n < 10 ^ ?l" using nat_digits_length [of "nat n"] that by auto
    have "0 < ?l" using nat_digits_props by simp
    then have "(10 :: nat) ^ ?l = 10 * 10 ^ (?l - 1)" by (cases ?l) simp_all
    then have "(10 :: nat) ^ ?l \<le> 10 * nat n" using n(1) by simp
    then have "rat_of_nat (10 ^ ?l) \<le> rat_of_nat (10 * nat n)" by (simp only: of_nat_le_iff)
    moreover have "rat_of_nat (nat n) < rat_of_nat (10 ^ ?l)" using n(2) by (simp only: of_nat_less_iff)
    moreover have "rat_of_nat (nat n) = rat_of_int n" using that by simp
    ultimately show ?thesis by simp
  qed
  have A: "rat_of_int a < 10 ^ la" "10 ^ la \<le> 10 * rat_of_int a" using digits [OF a] la_def by auto
  have B: "rat_of_int b < 10 ^ lb" "10 ^ lb \<le> 10 * rat_of_int b" using digits [OF b] lb_def by auto
  define e where "e = int la - int lb"
  have p: "(10 :: rat) powi e = 10 ^ la / 10 ^ lb" by (simp add: e_def power_int_diff)
  have pos: "0 < rat_of_int a" "0 < rat_of_int b" using a b by auto
  have "rat_of_int a * 10 ^ lb < 10 ^ la * (10 * rat_of_int b)"
    using A(1) B(2) pos by (intro mult_less_le_imp_less) auto
  then have upper: "x < 10 * 10 powi e" using pos unfolding x p by (simp add: field_simps)
  have "10 ^ la * rat_of_int b \<le> (10 * rat_of_int a) * 10 ^ lb" using A(2) B(1) pos by (intro mult_mono) auto
  then have lower: "10 powi e \<le> 10 * x" using pos unfolding x p by (simp add: field_simps)
  have d: "dec_exp x = (if x < 10 powi e then e else e + 1)"
    using q by (simp add: dec_exp_def Let_def e_def la_def lb_def)
  have "(10 :: rat) powi (e + 1) = 10 * 10 powi e" "10 * (10 :: rat) powi (e - 1) = 10 powi e"
    by (simp_all add: power_int_add power_int_diff)
  then show ?thesis using d upper lower by (cases "x < 10 powi e") auto
qed

lemma first_some_Some: "first_some f xs = Some y \<Longrightarrow> \<exists>x\<in>set xs. f x = Some y"
  by (induction xs) (auto split: option.splits)

lemma first_some_None: "first_some f xs = None \<longleftrightarrow> (\<forall>x\<in>set xs. f x = None)"
  by (induction xs) (auto split: option.splits)

text \<open>A positive \<open>float64\<close> is a multiple of the smallest one and below the largest power.\<close>

lemma float_multiple:
  assumes "fl x = Fin x" "0 < x"
  shows "\<exists>c. x = of_int c * 2 powi (- 1074) \<and> 0 < c" "x < 2 ^ 1024"
proof -
  have r: "rne x = x" using assms(1) fl_cases [of x] by auto
  define u where "u = ulp_exp x"
  have u: "- 1074 \<le> u" by (simp add: u_def ulp_exp_def)
  define c where "c = round_half_even (x / 2 powi u) * 2 ^ nat (u + 1074)"
  have "(2 :: rat) powi u = of_int (2 ^ nat (u + 1074)) * 2 powi (- 1074)"
  proof -
    have "(2 :: rat) powi u = 2 powi (u + 1074) * 2 powi (- 1074)" by (subst power_int_add [symmetric]) simp_all
    then show ?thesis using u by (simp only: powi_2_nat)
  qed
  moreover have "x = of_int (round_half_even (x / 2 powi u)) * 2 powi u" using r assms(2) by (simp add: rne_def u_def)
  ultimately have "x = of_int c * 2 powi (- 1074)" unfolding c_def of_int_mult by (metis mult.assoc)
  moreover from this have "0 < rat_of_int c * 2 powi (- 1074)" using assms(2) by simp
  then have "0 < c" by (simp only: zero_less_mult_iff powi_2_pos of_int_0_less_iff) (use powi_2_pos [of "- 1074"] in linarith)
  ultimately show "\<exists>c. x = of_int c * 2 powi (- 1074) \<and> 0 < c" by blast
  show "x < 2 ^ 1024" using assms(1) r by (auto simp: fl_def Let_def split: if_splits)
qed

lemma powi_neg_less: "0 < n \<Longrightarrow> (10 :: rat) powi (- int n) < 2 powi (- int n)"
  by (simp add: power_int_minus power_strict_mono)

lemma two_ten: "(2 :: rat) ^ (3 * n + 1) < 10 ^ (n + 1)"
proof -
  have "(8 :: rat) ^ n \<le> 10 ^ n" by (rule power_mono) simp_all
  moreover have "(2 :: rat) ^ (3 * n + 1) = 2 * 8 ^ n" by (simp add: power_mult)
  moreover have "0 < (10 :: rat) ^ n" by simp
  moreover have "(10 :: rat) ^ (n + 1) = 10 * 10 ^ n" by simp
  ultimately show ?thesis by linarith
qed

lemma dec_exp_range:
  assumes "fl x = Fin x" "0 < x"
  shows "- 1073 \<le> dec_exp x \<and> dec_exp x \<le> 342"
proof -
  obtain c where c: "x = of_int c * 2 powi (- 1074)" "0 < c" using float_multiple [OF assms] by blast
  have "(10 :: rat) powi (- 1074) < 2 powi (- 1074)" using powi_neg_less [of 1074] by (simp only: of_nat_numeral)
  also have "\<dots> \<le> x"
  proof -
    have "1 \<le> rat_of_int c" using c(2) by (simp only: of_int_1_le_iff)
    then have "1 * 2 powi (- 1074) \<le> rat_of_int c * 2 powi (- 1074)" by (intro mult_right_mono order_less_imp_le [OF powi_2_pos])
    then show ?thesis unfolding c(1) by (simp only: mult_1)
  qed
  also have "x < 10 powi dec_exp x" using dec_exp_bounds [OF assms(2)] by blast
  finally have low: "- 1074 < dec_exp x" by (simp only: powi_10_less)
  have "10 powi (dec_exp x - 1) \<le> x" using dec_exp_bounds [OF assms(2)] by blast
  also have "x < 2 ^ 1024" using float_multiple [OF assms] by blast
  also have "(2 :: rat) ^ 1024 = 2 ^ (3 * 341 + 1)" by (rule arg_cong [where f = "power 2"]) simp
  also have "\<dots> < 10 ^ (341 + 1)" by (rule two_ten)
  also have "\<dots> = 10 powi int (341 + 1)" by (rule powi_10_nat [symmetric])
  also have "int (341 + 1) = 342" by simp
  finally have "dec_exp x - 1 < 342" by (simp only: powi_10_less)
  then show ?thesis using low by simp
qed

text \<open>The search finds digits, and they denote the number up to its rounding.\<close>

lemma shortest_sound:
  assumes "fl x = Fin x" "0 < x" "shortest x = (ds, dp)"
  shows "ds \<noteq> [] \<and> list_all is_digit ds \<and> \<bar>dp\<bar> < 9000 \<and>
    fl (of_nat (digits_val ds) * 10 powi (dp - int (length ds))) = Fin x"
proof -
  define d where "d = dec_exp x"
  have d: "- 1073 \<le> d" "d \<le> 342" "x < 10 powi d" using dec_exp_range [OF assms(1,2)] dec_exp_bounds [OF assms(2)]
    by (auto simp: d_def)
  let ?f = "\<lambda>n. map_option (Pair n) (dec_candidate x d n)"
  have "\<exists>n\<in>set [1..<1500]. ?f n \<noteq> None"
  proof (rule bexI [of _ "nat (d + 1074)"])
    define n where "n = nat (d + 1074)"
    have n: "int n - d = 1074" "d - int n = - 1074" using d by (simp_all add: n_def)
    obtain c where c: "x = of_int c * 2 powi (- 1074)" using float_multiple [OF assms(1,2)] by blast
    define y where "y = x * 10 powi (int n - d)"
    have "(10 :: rat) powi 1074 = (2 * 5) powi 1074" by (simp only: arith_simps)
    also have "\<dots> = 2 powi 1074 * 5 powi 1074" by (rule power_int_mult_distrib)
    finally have "y = of_int c * (2 powi (- 1074) * 2 powi 1074) * 5 powi 1074" unfolding y_def n c by (simp only: mult.assoc)
    also have "(2 :: rat) powi (- 1074) * 2 powi 1074 = 1" by (subst power_int_add [symmetric]) simp_all
    also have "(5 :: rat) powi 1074 = of_int (5 ^ 1074)" by (simp only: power_int_numeral of_int_power of_int_numeral)
    finally have "\<exists>k. y = of_int k" by (metis mult.right_neutral of_int_mult)
    then obtain k where k: "y = of_int k" by blast
    have "of_int k * 10 powi (d - int n) = x * (10 powi (int n - d) * 10 powi (d - int n))"
      by (simp only: k [symmetric] y_def mult.assoc)
    also have "(10 :: rat) powi (int n - d) * 10 powi (d - int n) = 1" by (subst power_int_add [symmetric]) simp_all
    finally have "fl (of_int k * 10 powi (d - int n)) = Fin x" using assms(1) by simp
    then show "?f (nat (d + 1074)) \<noteq> None"
      by (simp add: dec_candidate_def Let_def n_def [symmetric] y_def [symmetric] k find_None_iff)
  qed (use d in \<open>auto simp: nat_less_iff Suc_le_eq\<close>)
  then have "first_some ?f [1..<1500] \<noteq> None" using first_some_None [of ?f "[1..<1500]"] by metis
  then obtain n m where s: "first_some ?f [1..<1500] = Some (n, m)" by fastforce
  then have nm: "1 \<le> n" "n < 1500" "dec_candidate x d n = Some m" using first_some_Some [OF s] by auto
  define y where "y = x * 10 powi (int n - d)"
  have m: "fl (of_int m * 10 powi (d - int n)) = Fin x" "m = \<lfloor>y\<rfloor> \<or> m = \<lfloor>y\<rfloor> + 1"
    using nm(3) by (auto simp: dec_candidate_def Let_def y_def find_Some_iff split: if_splits; auto simp: less_Suc_eq nth_Cons')+
  have "0 < y" using assms(2) by (simp add: y_def)
  then have "0 \<le> \<lfloor>y\<rfloor>" by simp
  moreover have "m \<noteq> 0" using m(1) assms(2) by (auto simp: fl_def Let_def)
  ultimately have m0: "0 < m" using m(2) by linarith
  have "x * 10 powi (int n - d) < 10 powi d * 10 powi (int n - d)" using d(3) by (intro mult_strict_right_mono) simp_all
  also have "\<dots> = 10 ^ n" by (subst power_int_add [symmetric]) simp_all
  finally have "y < of_int (10 ^ n)" by (simp add: y_def)
  then have "\<lfloor>y\<rfloor> < 10 ^ n" by (simp only: floor_less_iff)
  then have "m \<le> 10 ^ n" using m(2) by linarith
  then have "nat m \<le> 10 ^ n" by (simp add: nat_le_iff)
  define d0 where "d0 = nat_digits (nat m)"
  have "10 ^ (length d0 - 1) \<le> nat m" using nat_digits_length [of "nat m"] m0 by (simp add: d0_def)
  then have "(10 :: nat) ^ (length d0 - 1) \<le> 10 ^ n" using \<open>nat m \<le> 10 ^ n\<close> by (rule order_trans)
  then have "length d0 - 1 \<le> n" by (rule power_le_imp_le_exp [rotated]) simp
  then have len: "length d0 \<le> n + 1" by simp
  have p0: "list_all is_digit d0" "digits_val d0 = nat m" using nat_digits_props by (simp_all add: d0_def)
  have out: "ds = strip_zeros d0" "dp = int (length d0) - int n + d"
    using assms(2,3) s by (simp_all add: shortest_def Let_def d_def [symmetric] d0_def)
  obtain k where k: "d0 = ds @ replicate k CHR ''0''" using strip_zeros_split out(1) by blast
  have v: "nat m = digits_val ds * 10 ^ k" using p0(2) unfolding k digits_val_shift by simp
  have "ds \<noteq> []" using v m0 by (auto simp: digits_val_def)
  moreover have "list_all is_digit ds" using p0(1) unfolding k by simp
  moreover have "\<bar>dp\<bar> < 9000" using out(2) len nm(1,2) d(1,2) by simp
  moreover have "of_nat (digits_val ds) * 10 powi (dp - int (length ds)) = rat_of_int m * 10 powi (d - int n)"
  proof -
    have "rat_of_int m = rat_of_nat (nat m)" using m0 by simp
    also have "\<dots> = of_nat (digits_val ds) * 10 powi (int k)" unfolding v by simp
    finally have "rat_of_int m * 10 powi (d - int n) = of_nat (digits_val ds) * (10 powi (int k) * 10 powi (d - int n))"
      by (simp only: mult.assoc)
    also have "(10 :: rat) powi (int k) * 10 powi (d - int n) = 10 powi (int k + (d - int n))"
      by (rule power_int_add [symmetric]) simp
    also have "int k + (d - int n) = dp - int (length ds)" unfolding out(2) k by simp
    finally show ?thesis by simp
  qed
  ultimately show ?thesis using m(1) by simp
qed

section \<open>Reading what was written\<close>

lemma is_digit_not_special:
  assumes "is_digit c"
  shows "c \<noteq> CHR ''_''" "c \<noteq> CHR ''.''" "c \<noteq> CHR ''e''" "c \<noteq> CHR ''+''" "c \<noteq> CHR ''-''"
    "lower_char c \<noteq> CHR ''x''" "lower_char c \<notin> set ''+-in''"
  using assms by (auto simp: is_digit_def lower_char_def)

lemma scan_digits:
  "list_all is_digit A \<Longrightarrow> scan_mantissa is_digit dot (A @ r) = (case scan_mantissa is_digit dot r of (m, s) \<Rightarrow> (A @ m, s))"
proof (induction A)
  case (Cons c A)
  then show ?case using is_digit_not_special [of c] by (auto split: prod.splits)
qed (auto split: prod.splits)

lemma scan_stop: "r = [] \<or> hd r = CHR ''e'' \<Longrightarrow> scan_mantissa is_digit dot r = ([], r)"
  by (cases r) (auto simp: is_digit_def)

lemma exp_val_digits: "length ds \<le> 5 \<Longrightarrow> list_all is_digit ds \<Longrightarrow> exp_val ds = int (digits_val ds) \<and> digits_val ds < 10 ^ length ds"
proof (induction ds rule: rev_induct)
  case Nil
  then show ?case by (simp add: exp_val_def digits_val_def)
next
  case (snoc c ds)
  then have IH: "exp_val ds = int (digits_val ds)" "digits_val ds < 10 ^ length ds" by auto
  have "(10 :: nat) ^ length ds \<le> 10 ^ 4" by (rule power_increasing) (use snoc.prems in auto)
  then have "digits_val ds < 10000" using IH(2) by simp
  moreover have "exp_val (ds @ [c]) = (if exp_val ds < 10000 then exp_val ds * 10 + int (digit_val c) else exp_val ds)"
    by (simp add: exp_val_def)
  moreover have "digit_val c < 10" using digit_val_bound snoc.prems by simp
  ultimately show ?case using IH by (simp add: digits_val_snoc)
qed

lemma nat_digits_short: "n < 10 ^ k \<Longrightarrow> 0 < k \<Longrightarrow> length (nat_digits n) \<le> k"
proof (induction k arbitrary: n)
  case (Suc k)
  show ?case
  proof (cases "n < 10")
    case True
    then show ?thesis by (simp add: nat_digits.simps [of n])
  next
    case False
    then have "0 < k" using Suc.prems by (cases k) auto
    then have "length (nat_digits (n div 10)) \<le> k" using Suc.prems by (intro Suc.IH) auto
    then show ?thesis using False by (simp add: nat_digits.simps [of n])
  qed
qed simp

lemma read_exponent_text:
  assumes "\<bar>e\<bar> < 10000"
  shows "read_exponent CHR ''e'' (CHR ''e'' # exp_text e) = Some (Some e)"
proof -
  define ds where "ds = (let ds = nat_digits (nat \<bar>e\<bar>) in if length ds < 2 then CHR ''0'' # ds else ds)"
  have n: "nat_digits (nat \<bar>e\<bar>) \<noteq> []" "list_all is_digit (nat_digits (nat \<bar>e\<bar>))"
    "digits_val (nat_digits (nat \<bar>e\<bar>)) = nat \<bar>e\<bar>" using nat_digits_props by auto
  have z: "digits_val (CHR ''0'' # xs) = digits_val xs" "is_digit CHR ''0''" for xs
    using digits_val_lead [of 1 xs] by (simp_all add: is_digit_def)
  have ds: "ds \<noteq> []" "list_all is_digit ds" "digits_val ds = nat \<bar>e\<bar>" using n z by (auto simp: ds_def Let_def)
  have "nat \<bar>e\<bar> < 10 ^ 5" using assms by simp
  then have "length (nat_digits (nat \<bar>e\<bar>)) \<le> 5" by (rule nat_digits_short) simp
  then have "length ds \<le> 5" by (simp add: ds_def Let_def)
  then have v: "exp_val ds = int (nat \<bar>e\<bar>)" using exp_val_digits ds by simp
  obtain c cs where c: "ds = c # cs" using ds(1) by (cases ds) auto
  then have "is_digit c" "list_all (\<lambda>c. is_digit c \<or> c = CHR ''_'') ds" "filter is_digit ds = ds"
    using ds(2) by (auto simp: list_all_iff)
  moreover have "exp_text e = (if e < 0 then ''-'' else ''+'') @ ds" by (simp add: exp_text_def ds_def)
  ultimately show ?thesis using v c by (simp add: read_exponent_def lower_char_def Let_def)
qed

lemma read_decimal:
  assumes "A \<noteq> []" "list_all is_digit A" "list_all is_digit B" "t = [] \<and> k = 0 \<or> t = CHR ''e'' # exp_text k \<and> \<bar>k\<bar> < 10000"
  shows "read_number (A @ (if dot then CHR ''.'' # B else []) @ t) =
    Some (of_nat (digits_val (A @ (if dot then B else []))) * 10 powi (k - int (length (if dot then B else []))))"
proof -
  define s where "s = A @ (if dot then CHR ''.'' # B else []) @ t"
  have t: "t = [] \<or> hd t = CHR ''e''" using assms(4) by auto
  have scan: "scan_mantissa is_digit False s = (A @ (if dot then CHR ''.'' # B else []), t)"
    unfolding s_def using scan_digits [OF assms(2)] scan_digits [OF assms(3), of True t] scan_stop [OF t]
    by (auto simp: scan_stop [OF t])
  have nothex: "\<not> (length s > 2 \<and> hd s = CHR ''0'' \<and> lower_char (s ! 1) = CHR ''x'')"
  proof -
    obtain a A' where A: "A = a # A'" using assms(1) by (cases A) auto
    show ?thesis
    proof (cases A')
      case Nil
      then show ?thesis using A t by (cases t) (auto simp: s_def lower_char_def)
    next
      case (Cons b A'')
      then show ?thesis using A assms(2) is_digit_not_special(6) [of b] by (simp add: s_def)
    qed
  qed
  have filt: "filter is_digit (A @ (if dot then CHR ''.'' # B else [])) = A @ (if dot then B else [])"
    using assms(2,3) by (auto simp: list_all_iff)
  have "dropWhile (\<lambda>c. c \<noteq> CHR ''.'') (A @ r) = dropWhile (\<lambda>c. c \<noteq> CHR ''.'') r" for r
    using assms(2) is_digit_not_special(2) by (induction A) auto
  then have frac: "filter is_digit (dropWhile (\<lambda>c. c \<noteq> CHR ''.'') (A @ (if dot then CHR ''.'' # B else []))) = (if dot then B else [])"
    using assms(3) by (auto simp: list_all_iff)
  have no_us: "CHR ''_'' \<notin> set s"
  proof -
    have "CHR ''_'' \<notin> set (nat_digits n)" for n using nat_digits_digit is_digit_not_special(1) by blast
    then have "CHR ''_'' \<notin> set (exp_text k)" by (simp add: exp_text_def Let_def)
    then show ?thesis using assms(2-4) is_digit_not_special(1) by (auto simp: s_def list_all_iff)
  qed
  have rd: "read_exponent CHR ''e'' t = Some (if t = [] then None else Some k)"
    using assms(4) read_exponent_text [of k] by (auto simp: read_exponent_def)
  have k: "(case (if t = [] then None else Some k) of None \<Rightarrow> 0 | Some v \<Rightarrow> v) = k" using assms(4) by auto
  have e: "(length s > 2 \<and> hd s = CHR ''0'' \<and> lower_char (s ! 1) = CHR ''x'') = False" using nothex by blast
  have ds: "(A @ (if dot then B else []) = []) = False" using assms(1) by simp
  show ?thesis unfolding s_def [symmetric] read_number_def Let_def e if_False scan prod.case filt frac rd ds option.case
    using no_us k by simp
qed

lemma read_digits_text:
  assumes "ds \<noteq> []" "list_all is_digit ds" "\<bar>dp\<bar> < 9000"
  shows "read_number (digits_text ds dp) = Some (of_nat (digits_val ds) * 10 powi (dp - int (length ds)))"
proof -
  have zero: "list_all is_digit (replicate n CHR ''0'')" for n by (simp add: list_all_iff is_digit_def)
  consider (exponent) "dp - 1 < -4 \<or> 6 \<le> dp - 1" | (small) "\<not> (dp - 1 < -4 \<or> 6 \<le> dp - 1)" "dp \<le> 0"
    | (inside) "\<not> (dp - 1 < -4 \<or> 6 \<le> dp - 1)" "0 < dp" "nat dp < length ds"
    | (large) "\<not> (dp - 1 < -4 \<or> 6 \<le> dp - 1)" "0 < dp" "length ds \<le> nat dp" by linarith
  then show ?thesis
  proof cases
    case exponent
    obtain c r where ds: "ds = c # r" using assms(1) by (cases ds) auto
    have "digits_text ds dp = [c] @ (if r \<noteq> [] then CHR ''.'' # r else []) @ CHR ''e'' # exp_text (dp - 1)"
      using exponent by (simp add: digits_text_def ds)
    moreover have "read_number \<dots> = Some (of_nat (digits_val ([c] @ (if r \<noteq> [] then r else []))) *
        10 powi ((dp - 1) - int (length (if r \<noteq> [] then r else []))))"
      by (rule read_decimal) (use assms(2,3) ds in auto)
    moreover have "(dp - 1) - int (length r) = dp - int (length ds)" by (simp add: ds)
    ultimately show ?thesis using ds by (cases "r = []") auto
  next
    case small
    define B where "B = replicate (nat (- dp)) CHR ''0'' @ ds"
    have "digits_text ds dp = ''0'' @ (if True then CHR ''.'' # B else []) @ []"
      using small assms(1) by (simp add: digits_text_def B_def)
    moreover have "read_number \<dots> = Some (of_nat (digits_val (''0'' @ (if True then B else []))) *
        10 powi (0 - int (length (if True then B else []))))"
      by (rule read_decimal) (use assms(2) zero in \<open>auto simp: B_def is_digit_def\<close>)
    moreover have "digits_val (''0'' @ B) = digits_val ds"
      using digits_val_lead [of 1 B] digits_val_lead [of _ ds] by (simp add: B_def)
    moreover have "- int (length B) = dp - int (length ds)" using small(2) by (simp add: B_def)
    ultimately show ?thesis by simp
  next
    case inside
    have "digits_text ds dp = take (nat dp) ds @ (if True then CHR ''.'' # drop (nat dp) ds else []) @ []"
      using inside by (simp add: digits_text_def)
    moreover have "read_number \<dots> = Some (of_nat (digits_val (take (nat dp) ds @ (if True then drop (nat dp) ds else []))) *
        10 powi (0 - int (length (if True then drop (nat dp) ds else []))))"
      by (rule read_decimal) (use assms(1,2) inside in \<open>auto simp: list_all_iff dest: in_set_takeD in_set_dropD\<close>)
    moreover have "- int (length (drop (nat dp) ds)) = dp - int (length ds)" using inside by simp
    ultimately show ?thesis using inside(2) by simp
  next
    case large
    define k where "k = nat dp - length ds"
    have "digits_text ds dp = (ds @ replicate k CHR ''0'') @ (if False then CHR ''.'' # [] else []) @ []"
      using large by (simp add: digits_text_def k_def)
    moreover note read_decimal [of "ds @ replicate k CHR ''0''" "[]" "[]" 0 False]
    moreover have "int k = dp - int (length ds)" using large by (simp add: k_def)
    then have "(10 :: rat) powi (dp - int (length ds)) = 10 ^ k" by (metis powi_10_nat)
    ultimately show ?thesis using assms(1,2) zero by (simp add: digits_val_shift)
  qed
qed

lemma digits_text_starts: "ds \<noteq> [] \<Longrightarrow> list_all is_digit ds \<Longrightarrow> is_digit (hd (digits_text ds dp)) \<and> digits_text ds dp \<noteq> []"
  by (cases ds; cases "nat dp") (auto simp: digits_text_def Let_def is_digit_def)

lemma special_float_plain: "s \<noteq> [] \<Longrightarrow> lower_char (hd s) \<notin> set ''+-in'' \<Longrightarrow> special_float s = None"
  by (cases s) (auto simp: special_float_def Let_def to_lower_def)

lemma special_float_minus: "s \<noteq> [] \<Longrightarrow> lower_char (hd s) \<notin> set ''+-in'' \<Longrightarrow> special_float (CHR ''-'' # s) = None"
  by (cases s) (auto simp: special_float_def Let_def to_lower_def lower_char_def)

lemma fl_minus: "fl (- x) = fneg (fl x)"
  by (auto simp: fl_def Let_def rne_minus)

text \<open>Every \<open>float64\<close> is read back from its text.\<close>

lemma parse_format_float:
  assumes "\<And>x. f = Fin x \<Longrightarrow> fl x = Fin x"
  shows "parse_float (format_float f) = Some f"
proof (cases f)
  case (Fin x)
  define t where "t = (case shortest \<bar>x\<bar> of (ds, dp) \<Rightarrow> digits_text ds dp)"
  have fx: "fl x = Fin x" using assms Fin by blast
  have t: "t \<noteq> []" "is_digit (hd t)" "\<exists>v. read_number t = Some v \<and> fl v = Fin \<bar>x\<bar>"
  proof -
    have "t \<noteq> [] \<and> is_digit (hd t) \<and> (\<exists>v. read_number t = Some v \<and> fl v = Fin \<bar>x\<bar>)"
    proof (cases "x = 0")
      case True
      then have "t = ''0''" by (simp add: t_def shortest_def digits_text_def)
      moreover have "read_number ''0'' = Some 0"
        using read_decimal [of "''0''" "[]" "[]" 0 False] digits_val_zeros [of 1] by (simp add: is_digit_def)
      ultimately show ?thesis using True by (simp add: is_digit_def fl_def)
    next
      case False
      obtain ds dp where s: "shortest \<bar>x\<bar> = (ds, dp)" by fastforce
      have "fl \<bar>x\<bar> = Fin \<bar>x\<bar>" using fx fl_minus [of x] by (cases "0 \<le> x") simp_all
      then have "ds \<noteq> [] \<and> list_all is_digit ds \<and> \<bar>dp\<bar> < 9000 \<and>
          fl (of_nat (digits_val ds) * 10 powi (dp - int (length ds))) = Fin \<bar>x\<bar>"
        using shortest_sound [OF _ _ s] False by simp
      then show ?thesis using read_digits_text digits_text_starts by (simp add: t_def s)
    qed
    then show "t \<noteq> []" "is_digit (hd t)" "\<exists>v. read_number t = Some v \<and> fl v = Fin \<bar>x\<bar>" by blast+
  qed
  obtain v where v: "read_number t = Some v" "fl v = Fin \<bar>x\<bar>" using t(3) by blast
  note h = is_digit_not_special(4,5,7) [OF t(2)]
  obtain c r where c: "t = c # r" using t(1) by (cases t) auto
  have out: "format_float f = (if x < 0 then ''-'' else []) @ t" by (simp add: Fin t_def)
  show ?thesis
  proof (cases "x < 0")
    case True
    then have "fl (- v) = Fin x" using v(2) by (simp add: fl_minus)
    then show ?thesis unfolding out using True special_float_minus [OF t(1) h(3)] v(1) by (simp add: parse_float_def Fin)
  next
    case False
    then have "fl v = Fin x" using v(2) by simp
    then show ?thesis unfolding out using False special_float_plain [OF t(1) h(3)] v(1) h(1,2) c
      by (simp add: parse_float_def Fin)
  qed
qed (simp_all only: format_float.simps, code_simp+)

section \<open>A rounded number is its own rounding\<close>

lemma rne_idem: "rne (rne x) = rne x"
proof (cases "x = 0")
  case False
  define u c where "u = ulp_exp x" and "c = round_half_even (x / 2 powi u)"
  have r: "rne x = of_int c * 2 powi u" using False by (simp add: rne_def u_def c_def)
  have u: "- 1074 \<le> u" "ilog2 \<bar>x\<bar> + 1 \<le> 53 + u" by (simp_all add: u_def ulp_exp_def)
  have "\<bar>x\<bar> < 2 powi (ilog2 \<bar>x\<bar> + 1)" using ilog2_bounds [of "\<bar>x\<bar>"] False by simp
  also have "\<dots> \<le> 2 powi (53 + u)" using u(2) by (rule powi_2_mono)
  also have "\<dots> = of_int (2 ^ 53) * 2 powi u" by (simp add: power_int_add)
  finally have "\<bar>x / 2 powi u\<bar> \<le> of_int (2 ^ 53)" by (simp add: abs_divide field_simps)
  then have b: "- of_int (2 ^ 53) \<le> x / 2 powi u" "x / 2 powi u \<le> of_int (2 ^ 53)" unfolding abs_le_iff by linarith+
  have "c \<le> 2 ^ 53" unfolding c_def using b(2) by (rule round_half_even_le)
  moreover have "- (2 ^ 53) \<le> c" unfolding c_def using b(1) by (intro round_half_even_ge) (simp only: of_int_minus)
  ultimately consider "\<bar>c\<bar> < 2 ^ 53" | "c = 2 ^ 53" | "c = - (2 ^ 53)" by linarith
  then show ?thesis
  proof cases
    case 1
    then show ?thesis unfolding r using u(1) by (rule rne_exact)
  next
    case 2
    then have "rne x = of_int (2 ^ 52) * 2 powi (u + 1)" unfolding r by (simp add: power_int_add)
    then show ?thesis using rne_exact [of "2 ^ 52" "u + 1"] u(1) by simp
  next
    case 3
    then have "rne x = of_int (- (2 ^ 52)) * 2 powi (u + 1)" unfolding r by (simp add: power_int_add)
    then show ?thesis using rne_exact [of "- (2 ^ 52)" "u + 1"] u(1) by simp
  qed
qed simp

lemma fl_idem: "fl x = Fin y \<Longrightarrow> fl y = Fin y"
  by (auto simp: fl_def Let_def rne_idem split: if_splits)

text \<open>A value that is a \<open>float64\<close>.\<close>

definition is_f64 :: "f64 \<Rightarrow> bool" where
  "is_f64 f = (case f of Fin x \<Rightarrow> fl x = Fin x | _ \<Rightarrow> True)"

lemma parse_float_f64:
  assumes "parse_float s = Some f"
  shows "is_f64 f"
proof (cases "special_float s")
  case (Some g)
  then have "f = g" using assms by (simp add: parse_float_def)
  moreover have "g \<in> {NaN, PInf, NInf}" using Some by (auto simp: special_float_def Let_def split: if_splits)
  ultimately show ?thesis by (auto simp: is_f64_def)
next
  case None
  obtain neg body where "(case s of
       c # b \<Rightarrow> if c = CHR ''+'' then (False, b) else if c = CHR ''-'' then (True, b) else (False, s)
     | [] \<Rightarrow> (False, [])) = (neg, body)" by fastforce
  then have "parse_float s = (case read_number body of None \<Rightarrow> None
      | Some x \<Rightarrow> (case fl (if neg then - x else x) of Fin y \<Rightarrow> Some (Fin y) | _ \<Rightarrow> None))"
    using None by (simp only: parse_float_def option.case Let_def prod.case)
  then obtain x where "(case fl x of Fin y \<Rightarrow> Some (Fin y) | _ \<Rightarrow> None) = Some f"
    using assms by (cases "read_number body") simp_all
  then obtain y where "fl x = Fin y" "f = Fin y" by (cases "fl x") simp_all
  then show ?thesis using fl_idem by (simp add: is_f64_def)
qed

lemma exp_text_chars: "c \<in> set (exp_text e) \<Longrightarrow> is_digit c \<or> c \<in> set ''.e+-''"
proof -
  assume c: "c \<in> set (exp_text e)"
  have "is_digit CHR ''0''" by (simp add: is_digit_def)
  then show ?thesis using c nat_digits_digit [of c "nat \<bar>e\<bar>"]
    unfolding exp_text_def Let_def by (cases "e < 0"; cases "length (nat_digits (nat \<bar>e\<bar>)) < 2") auto
qed

lemma digits_text_chars:
  assumes "list_all is_digit ds" "c \<in> set (digits_text ds dp)"
  shows "is_digit c \<or> c \<in> set ''.e+-''"
proof -
  define e where "e = exp_text (dp - 1)"
  have "c \<in> set ds \<union> set e \<union> {CHR ''.'', CHR ''e'', CHR ''0''}"
  proof (cases "dp - 1 < -4 \<or> 6 \<le> dp - 1")
    case True
    then have "digits_text ds dp = take 1 ds @ (if length ds > 1 then CHR ''.'' # drop 1 ds else []) @ CHR ''e'' # e"
      by (simp add: digits_text_def e_def)
    then show ?thesis using assms(2) by (cases ds) (auto split: if_split_asm)
  next
    case False
    then have "set (digits_text ds dp) \<subseteq> set ds \<union> {CHR ''.'', CHR ''0''}"
      using set_take_subset [of "nat dp" ds] set_drop_subset [of "nat dp" ds] by (auto simp: digits_text_def)
    then show ?thesis using assms(2) by blast
  qed
  then consider "c \<in> set ds" | "c \<in> set (exp_text (dp - 1))" | "c = CHR ''.''" | "c = CHR ''e''" | "c = CHR ''0''"
    unfolding e_def by blast
  then show ?thesis
  proof cases
    case 5
    then show ?thesis by (simp add: is_digit_def)
  qed (use assms(1) exp_text_chars in \<open>simp_all add: list_all_iff\<close>)
qed

lemma shortest_digits: "shortest x = (ds, dp) \<Longrightarrow> list_all is_digit ds"
  using nat_digits_digit by (fastforce simp: shortest_def strip_zeros_def Let_def list_all_iff split: if_splits option.splits dest: set_dropWhileD)

lemma format_float_chars: "c \<in> set (format_float f) \<Longrightarrow> is_digit c \<or> c \<in> set ''.e+-NaIinf''"
proof (cases f)
  case (Fin x)
  assume c: "c \<in> set (format_float f)"
  obtain ds dp where s: "shortest \<bar>x\<bar> = (ds, dp)" by fastforce
  then show ?thesis using c digits_text_chars [OF shortest_digits [OF s]] Fin by (auto split: if_splits)
qed auto

lemma format_float_nonempty: "format_float f \<noteq> []"
proof (cases f)
  case (Fin x)
  obtain ds dp where s: "shortest \<bar>x\<bar> = (ds, dp)" by fastforce
  have "digits_text ds dp \<noteq> []" by (cases ds) (auto simp: digits_text_def Let_def)
  then show ?thesis using Fin s by simp
qed auto

end
