(* ===== verification/Config_Domain.thy ===== *)
theory Config_Domain
  imports Errs GoTime FloatText
begin

text \<open>
  \<open>modules/config/domain\<close>: what a configuration variable may hold, the registry of variables, the
  scopes, how the value in force at a place is found, and how the automatic tuner moves a radius.
  The registry's texts for people (\<open>Purpose\<close>) are left out, and an error carries its sentinel only.
\<close>

section \<open>Values\<close>

datatype config_err =
    ErrKindMismatch | ErrUnparseable | ErrNegativeValue
  | ErrUnknownKey | ErrImmutable | ErrNotAutoTunable | ErrOutOfBounds | ErrPinned
  | ErrMissingScopeCode | ErrUnexpectedScopeCode | ErrUnknownLevel

fun config_err_text :: "config_err \<Rightarrow> string" where
  "config_err_text ErrKindMismatch = ''configuration value has a different type''"
| "config_err_text ErrUnparseable = ''configuration value could not be parsed''"
| "config_err_text ErrNegativeValue = ''configuration value must not be negative''"
| "config_err_text ErrUnknownKey = ''unknown configuration key''"
| "config_err_text ErrImmutable = ''this variable cannot be changed''"
| "config_err_text ErrNotAutoTunable = ''this variable is not auto-tunable''"
| "config_err_text ErrOutOfBounds = ''configuration value is out of bounds''"
| "config_err_text ErrPinned = ''this variable is pinned in this scope''"
| "config_err_text ErrMissingScopeCode = ''scope code is required''"
| "config_err_text ErrUnexpectedScopeCode = ''the global scope has no code''"
| "config_err_text ErrUnknownLevel = ''unknown scope level''"

definition config_sentinel :: "config_err \<Rightarrow> error" where
  "config_sentinel e = Sentinel (config_err_text e)"

datatype config_kind = KindCount | KindBool | KindRatio | KindMoney | KindDistance | KindDuration

fun config_kind_text :: "config_kind \<Rightarrow> string" where
  "config_kind_text KindBool = ''bool''"
| "config_kind_text KindRatio = ''ratio''"
| "config_kind_text KindMoney = ''money_minor''"
| "config_kind_text KindDistance = ''distance_m''"
| "config_kind_text KindDuration = ''duration_s''"
| "config_kind_text KindCount = ''count''"

record config_value =
  cv_kind :: config_kind
  cv_whole :: int64
  cv_ratio :: f64
  cv_flag :: bool

definition whole_value :: "config_kind \<Rightarrow> int64 \<Rightarrow> config_value" where
  "whole_value k n = \<lparr>cv_kind = k, cv_whole = n, cv_ratio = Fin 0, cv_flag = False\<rparr>"

definition bool_value :: "bool \<Rightarrow> config_value" where
  "bool_value b = \<lparr>cv_kind = KindBool, cv_whole = 0, cv_ratio = Fin 0, cv_flag = b\<rparr>"

definition ratio_value :: "f64 \<Rightarrow> config_value" where
  "ratio_value f = \<lparr>cv_kind = KindRatio, cv_whole = 0, cv_ratio = f, cv_flag = False\<rparr>"

text \<open>\<open>Count\<close>, \<open>Money\<close>, \<open>Distance\<close> and \<open>Duration\<close> differ in the kind only.\<close>

definition new_whole :: "config_kind \<Rightarrow> int64 \<Rightarrow> config_err + config_value" where
  "new_whole k n = (if n < 0 then Inl ErrNegativeValue else Inr (whole_value k n))"

definition new_ratio :: "f64 \<Rightarrow> config_err + config_value" where
  "new_ratio f = (if flt f (Fin 0) then Inl ErrNegativeValue else Inr (ratio_value f))"

definition is_whole_kind :: "config_kind \<Rightarrow> bool" where
  "is_whole_kind k \<longleftrightarrow> k \<noteq> KindBool \<and> k \<noteq> KindRatio"

definition value_int :: "config_value \<Rightarrow> config_err + int64" where
  "value_int v = (if is_whole_kind (cv_kind v) then Inr (cv_whole v) else Inl ErrKindMismatch)"

definition value_ratio :: "config_value \<Rightarrow> config_err + f64" where
  "value_ratio v = (if cv_kind v \<noteq> KindRatio then Inl ErrKindMismatch else Inr (cv_ratio v))"

definition value_bool :: "config_value \<Rightarrow> config_err + bool" where
  "value_bool v = (if cv_kind v \<noteq> KindBool then Inl ErrKindMismatch else Inr (cv_flag v))"

definition value_text :: "config_value \<Rightarrow> string" where
  "value_text v = (case cv_kind v of
     KindBool \<Rightarrow> if cv_flag v then ''true'' else ''false''
   | KindRatio \<Rightarrow> format_float (cv_ratio v)
   | _ \<Rightarrow> itoa (cv_whole v))"

definition parse_bool :: "string \<Rightarrow> bool option" where
  "parse_bool s =
     (if s \<in> {''1'', ''t'', ''T'', ''TRUE'', ''true'', ''True''} then Some True
      else if s \<in> {''0'', ''f'', ''F'', ''FALSE'', ''false'', ''False''} then Some False else None)"

definition parse_value :: "config_kind \<Rightarrow> string \<Rightarrow> config_err + config_value" where
  "parse_value k raw = (let t = trim_space raw in case k of
     KindBool \<Rightarrow> (case parse_bool t of None \<Rightarrow> Inl ErrUnparseable | Some b \<Rightarrow> Inr (bool_value b))
   | KindRatio \<Rightarrow> (case parse_float t of None \<Rightarrow> Inl ErrUnparseable | Some f \<Rightarrow> new_ratio f)
   | _ \<Rightarrow> (case atoi t of None \<Rightarrow> Inl ErrUnparseable | Some n \<Rightarrow> new_whole k n))"

definition value_equal :: "config_value \<Rightarrow> config_value \<Rightarrow> bool" where
  "value_equal v w \<longleftrightarrow> cv_kind v = cv_kind w \<and> (case cv_kind v of
     KindBool \<Rightarrow> cv_flag v = cv_flag w
   | KindRatio \<Rightarrow> feq (cv_ratio v) (cv_ratio w)
   | _ \<Rightarrow> cv_whole v = cv_whole w)"

definition value_compare :: "config_value \<Rightarrow> config_value \<Rightarrow> config_err + int" where
  "value_compare v w =
     (if cv_kind v \<noteq> cv_kind w then Inl ErrKindMismatch
      else case cv_kind v of
        KindBool \<Rightarrow> Inl ErrKindMismatch
      | KindRatio \<Rightarrow> Inr (if flt (cv_ratio v) (cv_ratio w) then - 1 else if flt (cv_ratio w) (cv_ratio v) then 1 else 0)
      | _ \<Rightarrow> Inr (if cv_whole v < cv_whole w then - 1 else if cv_whole w < cv_whole v then 1 else 0))"

section \<open>Scopes\<close>

datatype level = LevelArea | LevelDistrict | LevelDivision | LevelGlobal

fun level_text :: "level \<Rightarrow> string" where
  "level_text LevelArea = ''area''"
| "level_text LevelDistrict = ''district''"
| "level_text LevelDivision = ''division''"
| "level_text LevelGlobal = ''global''"

definition parse_level :: "string \<Rightarrow> config_err + level" where
  "parse_level s = (let t = trim_space (to_lower s)
     in if t = ''area'' then Inr LevelArea else if t = ''district'' then Inr LevelDistrict
        else if t = ''division'' then Inr LevelDivision else if t = ''global'' then Inr LevelGlobal
        else Inl ErrUnknownLevel)"

record scope =
  sc_level :: level
  sc_code :: string

definition global_scope :: scope where
  "global_scope = \<lparr>sc_level = LevelGlobal, sc_code = []\<rparr>"

definition new_scope :: "level \<Rightarrow> string \<Rightarrow> config_err + scope" where
  "new_scope l raw = (let code = trim_space raw
     in if l = LevelGlobal then (if code \<noteq> [] then Inl ErrUnexpectedScopeCode else Inr global_scope)
        else if code = [] then Inl ErrMissingScopeCode else Inr \<lparr>sc_level = l, sc_code = code\<rparr>)"

definition scope_text :: "scope \<Rightarrow> string" where
  "scope_text s = (if sc_level s = LevelGlobal then ''global'' else level_text (sc_level s) @ '':'' @ sc_code s)"

record placement =
  pl_area :: string
  pl_district :: string
  pl_division :: string

definition chain :: "placement \<Rightarrow> scope list" where
  "chain p = [\<lparr>sc_level = l, sc_code = trim_space c\<rparr>.
       (l, c) \<leftarrow> [(LevelArea, pl_area p), (LevelDistrict, pl_district p), (LevelDivision, pl_division p)], trim_space c \<noteq> []]
     @ [global_scope]"

record override =
  ov_key :: string
  ov_scope :: scope
  ov_value :: config_value
  ov_pinned :: bool

section \<open>The registry\<close>

record config_def =
  df_key :: string
  df_kind :: config_kind
  df_default :: config_value
  df_auto_tunable :: bool
  df_immutable :: bool
  df_min :: config_value
  df_max :: config_value

text \<open>An entry of the table; bounds in the entry's own kind, none for a switch.\<close>

definition tunable :: "string \<Rightarrow> config_kind \<Rightarrow> int64 \<Rightarrow> bool \<Rightarrow> int64 \<Rightarrow> int64 \<Rightarrow> config_def" where
  "tunable key k dflt auto lo hi = \<lparr>df_key = key, df_kind = k, df_default = whole_value k dflt,
     df_auto_tunable = auto, df_immutable = False, df_min = whole_value k lo, df_max = whole_value k hi\<rparr>"

definition switch :: "string \<Rightarrow> bool \<Rightarrow> bool \<Rightarrow> config_def" where
  "switch key dflt immutable = \<lparr>df_key = key, df_kind = KindBool, df_default = bool_value dflt,
     df_auto_tunable = False, df_immutable = immutable,
     df_min = whole_value KindCount 0, df_max = whole_value KindCount 0\<rparr>"

definition taka_minor :: "int64 \<Rightarrow> int64" where "taka_minor n = n * 100"
definition km_metres :: "int64 \<Rightarrow> int64" where "km_metres n = n * 1000"

definition definitions :: "config_def list" where
  "definitions = [
     tunable ''discovery.base_radius'' KindDistance (km_metres 5) True (km_metres 1) (km_metres 25),
     tunable ''discovery.expansion_step'' KindDistance (km_metres 5) True (km_metres 1) (km_metres 10),
     tunable ''discovery.max_expansions'' KindCount 4 False 0 10,
     tunable ''discovery.min_merchants'' KindCount 5 False 1 50,
     switch ''discovery.auto_expand'' False False,
     switch ''discovery.division_ceiling'' True True,
     tunable ''pricing.delivery_base'' KindMoney (taka_minor 40) True (taka_minor 10) (taka_minor 200),
     tunable ''pricing.delivery_per_km'' KindMoney (taka_minor 10) True (taka_minor 2) (taka_minor 50),
     \<lparr>df_key = ''pricing.expansion_multiplier'', df_kind = KindRatio, df_default = ratio_value (Fin (3 / 2)),
       df_auto_tunable = True, df_immutable = False, df_min = ratio_value (Fin 1), df_max = ratio_value (Fin 3)\<rparr>,
     tunable ''pricing.free_delivery_threshold'' KindMoney (taka_minor 500) True (taka_minor 100) (taka_minor 5000),
     tunable ''dispatch.short_distance_max'' KindDistance (km_metres 5) True (km_metres 1) (km_metres 15),
     tunable ''dispatch.long_distance_max'' KindDistance (km_metres 25) True (km_metres 5) (km_metres 100),
     tunable ''dispatch.partner_radius'' KindDistance (km_metres 7) True (km_metres 1) (km_metres 30),
     tunable ''dispatch.assignment_timeout'' KindDuration 30 False 10 300,
     tunable ''dispatch.max_concurrent_jobs'' KindCount 3 False 1 10,
     tunable ''order.cancellation_window'' KindDuration 120 False 0 900,
     tunable ''order.cod_limit'' KindMoney (taka_minor 5000) True (taka_minor 500) (taka_minor 50000),
     tunable ''auth.otp_requests_per_hour'' KindCount 5 False 1 20,
     tunable ''auth.otp_verify_attempts'' KindCount 5 False 3 10,
     tunable ''auth.otp_lockout_window'' KindDuration 900 False 60 3600,
     tunable ''auth.otp_ttl'' KindDuration 300 False 60 600,
     tunable ''auth.access_token_ttl'' KindDuration 900 False 300 3600,
     tunable ''auth.refresh_token_ttl'' KindDuration 5184000 False 86400 15552000,
     tunable ''auth.max_sessions_per_user'' KindCount 5 False 1 20]"

definition registry :: "string \<Rightarrow> config_def option" where
  "registry = map_of (rev (map (\<lambda>d. (df_key d, d)) definitions))"

definition lookup :: "string \<Rightarrow> config_err + config_def" where
  "lookup key = (case registry key of None \<Rightarrow> Inl ErrUnknownKey | Some d \<Rightarrow> Inr d)"

text \<open>\<open>None\<close> when the value is allowed.\<close>

definition in_bounds :: "config_def \<Rightarrow> config_value \<Rightarrow> config_err option" where
  "in_bounds d v =
     (if cv_kind v \<noteq> df_kind d then Some ErrKindMismatch
      else if df_kind d = KindBool then None
      else let outside = (if df_kind d = KindRatio
                 then flt (cv_ratio v) (cv_ratio (df_min d)) \<or> flt (cv_ratio (df_max d)) (cv_ratio v)
                 else cv_whole v < cv_whole (df_min d) \<or> cv_whole v > cv_whole (df_max d))
           in if outside then Some ErrOutOfBounds else None)"

section \<open>The value in force\<close>

record resolved =
  rs_placement :: placement
  rs_values :: "string \<Rightarrow> config_value option"
  rs_sources :: "string \<Rightarrow> scope option"

definition rank_of :: "scope list \<Rightarrow> scope \<Rightarrow> nat option" where
  "rank_of ch sc = find (\<lambda>i. ch ! i = sc) (rev [0..<length ch])"

type_synonym resolving = "(string \<Rightarrow> nat) \<times> (string \<Rightarrow> config_value option) \<times> (string \<Rightarrow> scope option)"

definition resolve_start :: "scope list \<Rightarrow> resolving" where
  "resolve_start ch = foldl (\<lambda>(best, values, sources) d.
     (best(df_key d := length ch), values(df_key d := Some (df_default d)), sources(df_key d := Some global_scope)))
     ((\<lambda>_. 0), (\<lambda>_. None), (\<lambda>_. None)) definitions"

definition resolve_step :: "scope list \<Rightarrow> resolving \<Rightarrow> override \<Rightarrow> resolving" where
  "resolve_step ch = (\<lambda>(best, values, sources) x.
     case registry (ov_key x) of
       None \<Rightarrow> (best, values, sources)
     | Some d \<Rightarrow>
         if df_immutable d \<or> cv_kind (ov_value x) \<noteq> df_kind d then (best, values, sources)
         else case rank_of ch (ov_scope x) of
                None \<Rightarrow> (best, values, sources)
              | Some i \<Rightarrow>
                  if i \<ge> best (ov_key x) then (best, values, sources)
                  else (best(ov_key x := i), values(ov_key x := Some (ov_value x)), sources(ov_key x := Some (ov_scope x))))"

definition resolve :: "placement \<Rightarrow> override list \<Rightarrow> resolved" where
  "resolve p os = (case foldl (resolve_step (chain p)) (resolve_start (chain p)) os of
     (best, values, sources) \<Rightarrow> \<lparr>rs_placement = p, rs_values = values, rs_sources = sources\<rparr>)"

definition resolved_value :: "resolved \<Rightarrow> string \<Rightarrow> config_err + config_value" where
  "resolved_value r key = (case rs_values r key of None \<Rightarrow> Inl ErrUnknownKey | Some v \<Rightarrow> Inr v)"

definition resolved_source :: "resolved \<Rightarrow> string \<Rightarrow> config_err + scope" where
  "resolved_source r key = (case rs_sources r key of None \<Rightarrow> Inl ErrUnknownKey | Some s \<Rightarrow> Inr s)"

definition resolved_int :: "resolved \<Rightarrow> string \<Rightarrow> config_err + int64" where
  "resolved_int r key = rbind (resolved_value r key) value_int"

definition resolved_bool :: "resolved \<Rightarrow> string \<Rightarrow> config_err + bool" where
  "resolved_bool r key = rbind (resolved_value r key) value_bool"

definition resolved_ratio :: "resolved \<Rightarrow> string \<Rightarrow> config_err + f64" where
  "resolved_ratio r key = rbind (resolved_value r key) value_ratio"

section \<open>The tuner\<close>

record tuning_signal =
  ts_merchants_nearby :: int64
  ts_failure_rate :: f64

definition max_acceptable_failure_rate :: f64 where "max_acceptable_failure_rate = fl (15 / 100)"
definition oversupply_factor :: int64 where "oversupply_factor = 2"
definition tuning_step :: f64 where "tuning_step = fl (1 / 10)"

definition step_of :: "int64 \<Rightarrow> int64" where
  "step_of metres = (let moved = to_int64 (fmul (of_int64 metres) tuning_step) in if moved = 0 then 1 else moved)"

definition clamp :: "int64 \<Rightarrow> int64 \<Rightarrow> int64 \<Rightarrow> int64" where
  "clamp v lo hi = (if v < lo then lo else if v > hi then hi else v)"

text \<open>The whole number of a value of the wrong kind reads as zero (\<open>v, _ := current.Int()\<close>).\<close>

definition int_or_zero :: "config_value \<Rightarrow> int64" where
  "int_or_zero v = (case value_int v of Inl _ \<Rightarrow> 0 | Inr n \<Rightarrow> n)"

definition widened_both :: string where
  "widened_both = ''widened: fewer merchants nearby than this area's own threshold, and deliveries are failing more than accepted''"

definition widened_thin :: string where
  "widened_thin = ''widened: fewer merchants nearby than this area's own threshold''"

definition widened_failing :: string where
  "widened_failing = ''widened: delivery failures above the accepted rate''"

definition narrowed :: string where
  "narrowed = ''narrowed: merchant density comfortably above this area's threshold and delivery success is within range''"

text \<open>Where the radius should go and why; nowhere when supply and deliveries are in between.\<close>

definition tune_target :: "config_def \<Rightarrow> int64 \<Rightarrow> int64 \<Rightarrow> tuning_signal \<Rightarrow> (int64 \<times> string) option" where
  "tune_target d metres min_merchants signal =
     (let lo = int_or_zero (df_min d); hi = int_or_zero (df_max d);
          thin = (min_merchants > 0 \<and> ts_merchants_nearby signal < min_merchants);
          failing = flt max_acceptable_failure_rate (ts_failure_rate signal);
          oversupplied = (min_merchants > 0 \<and> ts_merchants_nearby signal \<ge> mul64 min_merchants oversupply_factor \<and> \<not> failing);
          wider = clamp (add64 metres (step_of metres)) lo hi;
          narrower = clamp (sub64 metres (step_of metres)) lo hi
      in if thin \<and> failing then Some (wider, widened_both)
         else if thin then Some (wider, widened_thin)
         else if failing then Some (wider, widened_failing)
         else if oversupplied then Some (narrower, narrowed) else None)"

text \<open>\<open>None\<close> when the value is left alone.\<close>

definition tune :: "config_def \<Rightarrow> config_value \<Rightarrow> int64 \<Rightarrow> tuning_signal \<Rightarrow> (config_value \<times> string) option" where
  "tune d current min_merchants signal =
     (case tune_target d (int_or_zero current) min_merchants signal of
        None \<Rightarrow> None
      | Some (target, reason) \<Rightarrow>
          if target = int_or_zero current then None
          else Some (case new_whole KindDistance target of Inr v \<Rightarrow> v | Inl _ \<Rightarrow> whole_value KindCount 0, reason))"

section \<open>The audit log\<close>

record config_actor =
  ca_kind :: string
  ca_id :: string

definition admin_actor :: "string \<Rightarrow> config_actor" where
  "admin_actor aid = \<lparr>ca_kind = ''admin'', ca_id = aid\<rparr>"

definition tuner_actor :: config_actor where
  "tuner_actor = \<lparr>ca_kind = ''auto_tuner'', ca_id = []\<rparr>"

record change =
  cg_id :: string
  cg_key :: string
  cg_scope :: scope
  cg_old :: config_value
  cg_new :: config_value
  cg_actor :: config_actor
  cg_reason :: string
  cg_at :: instant

section \<open>The table is sound\<close>

text \<open>\<open>def_ok\<close>: the entry's default and bounds are of its kind, in order, and allow the default.\<close>

definition def_ok :: "config_def \<Rightarrow> bool" where
  "def_ok d \<longleftrightarrow> in_bounds d (df_default d) = None \<and>
     (df_kind d \<noteq> KindBool \<longrightarrow> in_bounds d (df_min d) = None \<and> in_bounds d (df_max d) = None) \<and>
     (is_whole_kind (df_kind d) \<longrightarrow> 0 \<le> cv_whole (df_min d)) \<and>
     (df_kind d = KindRatio \<longrightarrow> flt (Fin 0) (cv_ratio (df_min d)))"

lemma definitions_ok: "list_all def_ok definitions" "distinct (map df_key definitions)"
  by code_simp+

lemma registry_iff: "registry k = Some d \<longleftrightarrow> d \<in> set definitions \<and> df_key d = k"
proof -
  have "distinct (map fst (rev (map (\<lambda>d. (df_key d, d)) definitions)))"
    using definitions_ok(2) by (simp add: rev_map [symmetric] comp_def)
  then show ?thesis by (auto simp: registry_def map_of_eq_Some_iff)
qed

lemma registry_ok: "registry k = Some d \<Longrightarrow> def_ok d \<and> df_key d = k"
  using definitions_ok(1) by (auto simp: registry_iff list_all_iff)

lemma lookup_iff [simp]: "lookup k = Inr d \<longleftrightarrow> registry k = Some d"
  by (auto simp: lookup_def split: option.splits)

section \<open>The first scope that says something\<close>

text \<open>What \<open>resolve\<close> promises: along the chain the first scope with a row for the variable decides, and
  the default where there is none or where the variable may not be changed.\<close>

definition applies :: "config_def \<Rightarrow> scope \<Rightarrow> override \<Rightarrow> bool" where
  "applies d sc x \<longleftrightarrow> ov_key x = df_key d \<and> ov_scope x = sc \<and> cv_kind (ov_value x) = df_kind d"

definition in_force :: "placement \<Rightarrow> override list \<Rightarrow> config_def \<Rightarrow> config_value \<times> scope" where
  "in_force p os d =
     (case (if df_immutable d then None
            else first_some (\<lambda>sc. map_option (\<lambda>x. (ov_value x, sc)) (find (applies d sc) os)) (chain p)) of
        None \<Rightarrow> (df_default d, global_scope)
      | Some r \<Rightarrow> r)"

lemma distinct_chain: "distinct (chain p)"
  by (auto simp: chain_def global_scope_def)

lemma rank_of_Some: "rank_of ch sc = Some i \<Longrightarrow> i < length ch \<and> ch ! i = sc"
  by (auto simp: rank_of_def find_Some_iff) (metis length_rev length_upt minus_nat.diff_0 nth_mem set_rev atLeastLessThan_iff set_upt)

lemma rank_of_None: "rank_of ch sc = None \<longleftrightarrow> sc \<notin> set ch"
  by (auto simp: rank_of_def find_None_iff in_set_conv_nth)

lemma first_some_index:
  "first_some f xs = (let i = length (takeWhile (\<lambda>x. f x = None) xs) in if i < length xs then f (xs ! i) else None)"
  by (induction xs) (auto simp: Let_def split: option.splits)

lemma takeWhile_index:
  assumes "i < length xs" "\<And>j. j < i \<Longrightarrow> P (xs ! j)" "\<not> P (xs ! i)"
  shows "length (takeWhile P xs) = i"
proof -
  have "takeWhile P xs = take i xs" by (rule takeWhile_eq_take_P_nth) (use assms in auto)
  then show ?thesis using assms(1) by simp
qed

lemma find_snoc: "find P (xs @ [x]) = (case find P xs of None \<Rightarrow> if P x then Some x else None | Some y \<Rightarrow> Some y)"
  by (induction xs) auto

lemma registry_find: "registry k = find (\<lambda>d. df_key d = k) (rev definitions)"
proof -
  have "map_of (map (\<lambda>d. (df_key d, d)) ds) k = find (\<lambda>d. df_key d = k) ds" for ds by (induction ds) auto
  then show ?thesis by (simp only: registry_def rev_map)
qed

lemma resolve_start_eq:
  "resolve_start ch = ((\<lambda>k. if registry k = None then 0 else length ch), (\<lambda>k. map_option df_default (registry k)),
     (\<lambda>k. map_option (\<lambda>_. global_scope) (registry k)))"
proof -
  let ?f = "\<lambda>(best, values, sources) d. (best(df_key d := length ch), values(df_key d := Some (df_default d)),
     sources(df_key d := Some global_scope))"
  have "foldl ?f (b0, v0, s0) ds =
      ((\<lambda>k. case find (\<lambda>d. df_key d = k) (rev ds) of None \<Rightarrow> b0 k | Some d \<Rightarrow> length ch),
       (\<lambda>k. case find (\<lambda>d. df_key d = k) (rev ds) of None \<Rightarrow> v0 k | Some d \<Rightarrow> Some (df_default d)),
       (\<lambda>k. case find (\<lambda>d. df_key d = k) (rev ds) of None \<Rightarrow> s0 k | Some d \<Rightarrow> Some global_scope))" for b0 v0 s0 ds
    by (induction ds arbitrary: b0 v0 s0) (auto simp: fun_eq_iff find_snoc split: option.split)
  from this [of "\<lambda>_. 0" "\<lambda>_. None" "\<lambda>_. None" definitions]
  show ?thesis unfolding resolve_start_def registry_find by (simp add: fun_eq_iff split: option.split)
qed

text \<open>One override at a time, as seen by one variable.\<close>

definition decided :: "scope list \<Rightarrow> override list \<Rightarrow> config_def \<Rightarrow> nat" where
  "decided ch os d = length (takeWhile (\<lambda>sc. find (applies d sc) os = None) ch)"

definition value_at :: "scope list \<Rightarrow> override list \<Rightarrow> config_def \<Rightarrow> config_value \<times> scope" where
  "value_at ch os d = (case (if decided ch os d < length ch then find (applies d (ch ! decided ch os d)) os else None) of
     None \<Rightarrow> (df_default d, global_scope) | Some x \<Rightarrow> (ov_value x, ch ! decided ch os d))"

lemma decided_found: "decided ch os d < length ch \<Longrightarrow> find (applies d (ch ! decided ch os d)) os \<noteq> None"
  unfolding decided_def by (rule nth_length_takeWhile)

lemma decided_before: "j < decided ch os d \<Longrightarrow> find (applies d (ch ! j)) os = None"
  unfolding decided_def using nth_mem [of j "takeWhile (\<lambda>sc. find (applies d sc) os = None) ch"]
  by (auto dest!: set_takeWhileD simp: takeWhile_nth)

lemma decided_same:
  assumes "\<And>sc. sc \<in> set ch \<Longrightarrow> find (applies d sc) (os @ [x]) = find (applies d sc) os"
  shows "decided ch (os @ [x]) d = decided ch os d \<and> value_at ch (os @ [x]) d = value_at ch os d"
proof -
  have "decided ch (os @ [x]) d = decided ch os d"
    unfolding decided_def using assms by (intro arg_cong [where f = length] takeWhile_cong) auto
  then show ?thesis using assms by (auto simp: value_at_def split: option.split)
qed

lemma value_at_step:
  assumes "distinct ch" "registry k = Some d" "\<not> df_immutable d"
    and "resolve_step ch (b, v, s) x = (b', v', s')"
    and "b k = decided ch os d" "v k = Some (fst (value_at ch os d))" "s k = Some (snd (value_at ch os d))"
  shows "b' k = decided ch (os @ [x]) d \<and> v' k = Some (fst (value_at ch (os @ [x]) d)) \<and>
    s' k = Some (snd (value_at ch (os @ [x]) d))"
proof (cases "ov_key x = k \<and> cv_kind (ov_value x) = df_kind d")
  case False
  have key: "df_key d = k" using assms(2) registry_ok by blast
  have "find (applies d sc) (os @ [x]) = find (applies d sc) os" for sc
    using False by (auto simp: find_snoc applies_def key split: option.splits)
  moreover have "b' k = b k \<and> v' k = v k \<and> s' k = s k"
    using assms(2,4) False by (auto simp: resolve_step_def split: option.splits if_splits)
  ultimately show ?thesis using decided_same [of ch d os x] assms(5-7) by simp
next
  case True
  have key: "df_key d = k" using assms(2) registry_ok by blast
  have app: "applies d sc x \<longleftrightarrow> sc = ov_scope x" for sc using True by (auto simp: applies_def key)
  show ?thesis
  proof (cases "rank_of ch (ov_scope x)")
    case None
    then have out: "ov_scope x \<notin> set ch" by (simp add: rank_of_None)
    have "find (applies d sc) (os @ [x]) = find (applies d sc) os" if "sc \<in> set ch" for sc
      using that out by (auto simp: find_snoc app split: option.splits)
    moreover have "b' = b \<and> v' = v \<and> s' = s"
      using assms(2-4) True None by (auto simp: resolve_step_def)
    ultimately show ?thesis using decided_same [of ch d os x] assms(5-7) by simp
  next
    case (Some i)
    then have i: "i < length ch" "ch ! i = ov_scope x" using rank_of_Some by blast+
    show ?thesis
    proof (cases "b k \<le> i")
      case True
      have "find (applies d sc) (os @ [x]) = find (applies d sc) os"
        if "sc = ch ! j" "j < decided ch os d" for sc j
      proof -
        have "j \<noteq> i" using that True assms(5) by simp
        then have "ch ! j \<noteq> ov_scope x" using i assms(1,5) that True by (metis le_less_trans less_trans nth_eq_iff_index_eq)
        then show ?thesis using that by (auto simp: find_snoc app split: option.splits)
      qed
      then have before: "find (applies d (ch ! j)) (os @ [x]) = None" if "j < decided ch os d" for j
        using that decided_before by metis
      have lt: "decided ch os d < length ch" using True assms(5) i(1) by simp
      have here: "find (applies d (ch ! decided ch os d)) (os @ [x]) = find (applies d (ch ! decided ch os d)) os"
        using decided_found [OF lt] by (auto simp: find_snoc)
      have "decided ch (os @ [x]) d = decided ch os d"
        unfolding decided_def [of ch "os @ [x]"]
        by (rule takeWhile_index [OF lt]) (use before here decided_found [OF lt] in auto)
      then have "value_at ch (os @ [x]) d = value_at ch os d" using here lt by (simp add: value_at_def split: option.split)
      moreover have "b' = b \<and> v' = v \<and> s' = s"
        using assms(2-4) \<open>ov_key x = k \<and> _\<close> Some True by (auto simp: resolve_step_def)
      ultimately show ?thesis using assms(5-7) \<open>decided ch (os @ [x]) d = _\<close> by simp
    next
      case False
      then have lt: "i < decided ch os d" using assms(5) by simp
      have "find (applies d (ch ! j)) (os @ [x]) = None" if "j < i" for j
      proof -
        have "ch ! j \<noteq> ov_scope x" using i assms(1) that by (metis less_trans nat_neq_iff nth_eq_iff_index_eq)
        moreover have "find (applies d (ch ! j)) os = None" using decided_before that lt by simp
        ultimately show ?thesis by (simp add: find_snoc app)
      qed
      moreover have at_i: "find (applies d (ch ! i)) (os @ [x]) = Some x"
        using decided_before [OF lt] i(2) by (simp add: find_snoc app)
      ultimately have dec: "decided ch (os @ [x]) d = i"
        unfolding decided_def using i(1) by (intro takeWhile_index) auto
      have "b' = b(k := i) \<and> v' = v(k := Some (ov_value x)) \<and> s' = s(k := Some (ov_scope x))"
        using assms(2-4) \<open>ov_key x = k \<and> _\<close> Some False by (auto simp: resolve_step_def)
      then show ?thesis using dec at_i i by (simp add: value_at_def)
    qed
  qed
qed

lemma value_at_chain: "value_at (chain p) os d = in_force p os d" if "\<not> df_immutable d"
proof -
  define f where "f sc = map_option (\<lambda>x. (ov_value x, sc)) (find (applies d sc) os)" for sc
  have "decided (chain p) os d = length (takeWhile (\<lambda>sc. f sc = None) (chain p))"
    by (simp add: decided_def f_def)
  then have "first_some f (chain p) = (if decided (chain p) os d < length (chain p)
      then f (chain p ! decided (chain p) os d) else None)"
    by (simp add: first_some_index Let_def)
  then show ?thesis using that
    by (auto simp: in_force_def value_at_def f_def [abs_def] split: option.split)
qed

lemma resolve_immutable_step:
  "resolve_step ch (b, v, s) x = (b', v', s') \<Longrightarrow> registry k = Some d \<Longrightarrow> df_immutable d \<Longrightarrow> v' k = v k \<and> s' k = s k"
  by (auto simp: resolve_step_def split: option.splits if_splits)

lemma resolve_unknown_step:
  "resolve_step ch (b, v, s) x = (b', v', s') \<Longrightarrow> registry k = None \<Longrightarrow> v' k = v k \<and> s' k = s k"
  by (auto simp: resolve_step_def split: option.splits if_splits)

lemma resolve_state:
  assumes "foldl (resolve_step (chain p)) (resolve_start (chain p)) os = (b, v, s)" "registry k = Some d"
  shows "v k = Some (fst (in_force p os d)) \<and> s k = Some (snd (in_force p os d)) \<and>
    (\<not> df_immutable d \<longrightarrow> b k = decided (chain p) os d)"
  using assms(1)
proof (induction os arbitrary: b v s rule: rev_induct)
  case Nil
  have "takeWhile (\<lambda>sc. find (applies d sc) [] = None) (chain p) = chain p" by (simp add: takeWhile_eq_all_conv)
  then have "decided (chain p) [] d = length (chain p)" by (simp only: decided_def)
  moreover have "first_some (\<lambda>sc. None :: (config_value \<times> scope) option) xs = None" for xs :: "scope list"
    by (induction xs) auto
  ultimately show ?case using Nil assms(2) by (auto simp: resolve_start_eq in_force_def)
next
  case (snoc x os)
  obtain b0 v0 s0 where st: "foldl (resolve_step (chain p)) (resolve_start (chain p)) os = (b0, v0, s0)"
    by (metis prod_cases3)
  note IH = snoc.IH [OF st]
  have step: "resolve_step (chain p) (b0, v0, s0) x = (b, v, s)" using snoc.prems st by simp
  show ?case
  proof (cases "df_immutable d")
    case True
    then show ?thesis using IH resolve_immutable_step [OF step assms(2)] by (simp add: in_force_def)
  next
    case False
    then show ?thesis
      using value_at_step [OF distinct_chain assms(2) False step] IH by (simp add: value_at_chain)
  qed
qed

lemma resolve_state_unknown:
  assumes "foldl (resolve_step (chain p)) (resolve_start (chain p)) os = (b, v, s)" "registry k = None"
  shows "v k = None \<and> s k = None"
  using assms(1)
proof (induction os arbitrary: b v s rule: rev_induct)
  case Nil
  then show ?case using assms(2) by (auto simp: resolve_start_eq)
next
  case (snoc x os)
  obtain b0 v0 s0 where st: "foldl (resolve_step (chain p)) (resolve_start (chain p)) os = (b0, v0, s0)"
    by (metis prod_cases3)
  then have "resolve_step (chain p) (b0, v0, s0) x = (b, v, s)" using snoc.prems by simp
  from resolve_unknown_step [OF this assms(2)] snoc.IH [OF st] show ?case by simp
qed

lemma resolve_match:
  "resolved_value (resolve p os) k = rbind (lookup k) (\<lambda>d. Inr (fst (in_force p os d))) \<and>
   resolved_source (resolve p os) k = rbind (lookup k) (\<lambda>d. Inr (snd (in_force p os d)))"
proof -
  obtain b v s where st: "foldl (resolve_step (chain p)) (resolve_start (chain p)) os = (b, v, s)"
    by (metis prod_cases3)
  show ?thesis
    using resolve_state [OF st, of k] resolve_state_unknown [OF st, of k]
    by (cases "registry k") (simp_all add: resolve_def st resolved_value_def resolved_source_def lookup_def)
qed

text \<open>Whatever rows the table holds and in whatever order they are read, the value of a variable at a
  place, and the scope it is said to come from, are those of the first scope from the area to the country
  that has a row of the right type for it; the default where none has and for the variable nobody may
  change; and a variable outside the registry has no value.\<close>

theorem resolve_first_match:
  "resolved_value (resolve p os) k = rbind (lookup k) (\<lambda>d. Inr (fst (in_force p os d))) \<and>
   resolved_source (resolve p os) k = rbind (lookup k) (\<lambda>d. Inr (snd (in_force p os d)))"
  by (rule resolve_match)

section \<open>Values and their text\<close>

text \<open>The values the constructors can make.\<close>

definition made_value :: "config_value \<Rightarrow> bool" where
  "made_value v \<longleftrightarrow> (case cv_kind v of
     KindBool \<Rightarrow> v = bool_value (cv_flag v)
   | KindRatio \<Rightarrow> v = ratio_value (cv_ratio v) \<and> is_f64 (cv_ratio v) \<and> \<not> flt (cv_ratio v) (Fin 0)
   | k \<Rightarrow> v = whole_value k (cv_whole v) \<and> fits64 (cv_whole v) \<and> 0 \<le> cv_whole v)"

lemma whole_value_sel [simp]:
  "cv_kind (whole_value k n) = k" "cv_whole (whole_value k n) = n" "cv_kind (bool_value b) = KindBool"
  "cv_flag (bool_value b) = b" "cv_kind (ratio_value f) = KindRatio" "cv_ratio (ratio_value f) = f"
  by (simp_all add: whole_value_def bool_value_def ratio_value_def)

lemma made_whole: "is_whole_kind k \<Longrightarrow> fits64 n \<Longrightarrow> 0 \<le> n \<Longrightarrow> made_value (whole_value k n)"
  by (cases k) (simp_all add: made_value_def is_whole_kind_def)

lemma made_bool: "made_value (bool_value b)"
  by (simp add: made_value_def)

lemma made_ratio: "is_f64 f \<Longrightarrow> \<not> flt f (Fin 0) \<Longrightarrow> made_value (ratio_value f)"
  by (simp add: made_value_def)

lemma atoi_fits: "atoi s = Some n \<Longrightarrow> fits64 n"
  by (auto simp: atoi_def Let_def split: prod.splits if_splits)

lemma parse_value_made: "parse_value k raw = Inr v \<Longrightarrow> made_value v \<and> cv_kind v = k"
  using atoi_fits [of "trim_space raw"] parse_float_f64 [of "trim_space raw"]
  by (cases k) (auto simp: parse_value_def Let_def new_whole_def new_ratio_def
      intro!: made_whole made_bool made_ratio is_whole_kind_def [THEN iffD2] split: option.splits if_splits)

lemma plain_text: "s \<noteq> [] \<Longrightarrow> (\<And>c. c \<in> set s \<Longrightarrow> plain_byte c) \<Longrightarrow> trim_space s = s"
  by (rule trim_space_plain) auto

lemma itoa_plain: "trim_space (itoa n) = itoa n"
proof (rule plain_text)
  show "itoa n \<noteq> []" using nat_digits_props by (simp add: itoa_def)
  show "plain_byte c" if "c \<in> set (itoa n)" for c
    using that nat_digits_digit plain_digit by (auto simp: itoa_def plain_byte_def split: if_splits)
qed

lemma format_float_plain: "trim_space (format_float f) = format_float f"
proof (rule plain_text)
  show "plain_byte c" if "c \<in> set (format_float f)" for c
    using format_float_chars [OF that] plain_digit by (auto simp: plain_byte_def)
qed (rule format_float_nonempty)

lemma value_text_back:
  assumes "made_value v"
  shows "parse_value (cv_kind v) (value_text v) = Inr v"
proof (cases "cv_kind v")
  case KindBool
  then have v: "v = bool_value (cv_flag v)" using assms by (simp add: made_value_def)
  have "parse_value KindBool (value_text (bool_value True)) = Inr (bool_value True)"
    "parse_value KindBool (value_text (bool_value False)) = Inr (bool_value False)" by code_simp+
  then show ?thesis using v by (cases "cv_flag v") simp_all
next
  case KindRatio
  then have v: "v = ratio_value (cv_ratio v)" "is_f64 (cv_ratio v)" "\<not> flt (cv_ratio v) (Fin 0)"
    using assms by (simp_all add: made_value_def)
  have "parse_float (format_float (cv_ratio v)) = Some (cv_ratio v)"
    using v(2) by (intro parse_format_float) (simp add: is_f64_def)
  then show ?thesis using v KindRatio by (simp add: parse_value_def value_text_def format_float_plain new_ratio_def)
qed (use assms in \<open>simp_all add: made_value_def parse_value_def value_text_def itoa_plain atoi_itoa new_whole_def\<close>)

text \<open>What is stored for a configuration value reads back as that value, for every value the module can
  make, the multipliers included: of the shortest text of a floating-point number nothing is lost.\<close>

theorem value_text_roundtrip:
  assumes "made_value v"
  shows "parse_value (cv_kind v) (value_text v) = Inr v"
  using assms by (rule value_text_back)

lemma value_text_roundtrip_witness:
  "parse_value KindRatio (value_text (ratio_value (Fin (5 / 4)))) = Inr (ratio_value (Fin (5 / 4))) \<and>
   value_text (whole_value KindMoney 4050) = ''4050'' \<and> parse_value KindMoney ''4050'' = Inr (whole_value KindMoney 4050) \<and>
   parse_value KindMoney ''-1'' = Inl ErrNegativeValue"
proof -
  have "fl (5 / 4) = Fin (5 / 4)" using rne_exact [of 5 "- 2"] by (simp add: fl_Fin)
  then have m: "made_value (ratio_value (Fin (5 / 4)))" "made_value (whole_value KindMoney 4050)"
    by (simp_all add: made_value_def is_f64_def fits64_def)
  have t: "value_text (whole_value KindMoney 4050) = ''4050''" "parse_value KindMoney ''-1'' = Inl ErrNegativeValue"
    by code_simp+
  show ?thesis using value_text_roundtrip [OF m(1)] value_text_roundtrip [OF m(2)] t by simp
qed

end
