(* ===== verification/Config_App.thy ===== *)
theory Config_App
  imports Config_Domain Ops
begin

text \<open>
  Configuration at work: the two tables of \<open>modules/config/infrastructure/persistence/postgres\<close>,
  which keep values as text, and the use cases of \<open>modules/config/application\<close>: reading the
  settings of a place, setting and clearing an override, the audit log and the automatic tuner.
  \<open>set_request_of\<close> and \<open>clear_request\<close> are what the HTTP handlers make of a request body.
\<close>

section \<open>The tables\<close>

record config_row =
  cr_key :: string
  cr_level :: string
  cr_code :: string
  cr_value :: string
  cr_pinned :: bool

record change_row =
  lr_id :: string
  lr_key :: string
  lr_level :: string
  lr_code :: string
  lr_old :: string
  lr_new :: string
  lr_actor_kind :: string
  lr_actor_id :: string
  lr_reason :: string
  lr_at :: instant

record config_store =
  k_overrides :: "config_row list"
  k_changes :: "change_row list"

type_synonym 'a config_op = "(config_store, 'a) op"

definition row_is :: "string \<Rightarrow> string \<Rightarrow> string \<Rightarrow> config_row \<Rightarrow> bool" where
  "row_is key lv code r \<longleftrightarrow> cr_key r = key \<and> cr_level r = lv \<and> cr_code r = code"

text \<open>A row that no longer reads as an override of a known variable is skipped.\<close>

definition scan_row :: "config_row \<Rightarrow> override option" where
  "scan_row r = (case lookup (cr_key r) of Inl _ \<Rightarrow> None
   | Inr d \<Rightarrow> (case parse_value (df_kind d) (cr_value r) of Inl _ \<Rightarrow> None
     | Inr v \<Rightarrow> (case parse_level (cr_level r) of Inl _ \<Rightarrow> None
       | Inr l \<Rightarrow> (case new_scope l (cr_code r) of Inl _ \<Rightarrow> None
         | Inr sc \<Rightarrow> Some \<lparr>ov_key = cr_key r, ov_scope = sc, ov_value = v, ov_pinned = cr_pinned r\<rparr>))))"

definition scan_overrides :: "config_row list \<Rightarrow> override list" where
  "scan_overrides rows = List.map_filter scan_row rows"

definition row_for :: "placement \<Rightarrow> config_row \<Rightarrow> bool" where
  "row_for p r \<longleftrightarrow> cr_level r = ''global'' \<or>
     cr_level r = ''division'' \<and> cr_code r = pl_division p \<or>
     cr_level r = ''district'' \<and> cr_code r = pl_district p \<or>
     cr_level r = ''area'' \<and> cr_code r = pl_area p"

definition overrides_for :: "placement \<Rightarrow> override list config_op" where
  "overrides_for p = db_read (\<lambda>s. Inr (scan_overrides (filter (row_for p) (k_overrides s))))"

definition all_overrides :: "scope \<Rightarrow> override list config_op" where
  "all_overrides sc = db_read (\<lambda>s. Inr (scan_overrides (stable_sort (\<lambda>a b. cr_key a < cr_key b)
     (filter (\<lambda>r. cr_level r = level_text (sc_level sc) \<and> cr_code r = sc_code sc) (k_overrides s)))))"

definition change_row_of :: "change \<Rightarrow> change_row" where
  "change_row_of c = \<lparr>lr_id = cg_id c, lr_key = cg_key c, lr_level = level_text (sc_level (cg_scope c)),
     lr_code = sc_code (cg_scope c), lr_old = value_text (cg_old c), lr_new = value_text (cg_new c),
     lr_actor_kind = ca_kind (cg_actor c), lr_actor_id = ca_id (cg_actor c), lr_reason = cg_reason c, lr_at = cg_at c\<rparr>"

definition constraint_violated :: error where
  "constraint_violated = Sentinel ''a constraint of the database was violated''"

text \<open>\<open>insertChange\<close>: refused for an id that is taken and for an actor of another kind.\<close>

definition insert_change :: "change \<Rightarrow> config_store \<Rightarrow> error + config_store" where
  "insert_change c s =
     (if cg_id c \<in> lr_id ` set (k_changes s) \<or> ca_kind (cg_actor c) \<notin> {''admin'', ''auto_tuner''}
      then Inl constraint_violated
      else Inr (s\<lparr>k_changes := k_changes s @ [change_row_of c]\<rparr>))"

text \<open>A transaction: all of it, or nothing when it fails.\<close>

definition in_tx :: "('s \<Rightarrow> error + 's) \<Rightarrow> ('s, unit) op" where
  "in_tx f = db_call (\<lambda>s. case f s of Inl e \<Rightarrow> (Inl e, s) | Inr t \<Rightarrow> (Inr (), t))"

definition upsert_row :: "override \<Rightarrow> config_row list \<Rightarrow> config_row list" where
  "upsert_row x rows =
     (let lv = level_text (sc_level (ov_scope x)); code = sc_code (ov_scope x)
      in if \<exists>r\<in>set rows. row_is (ov_key x) lv code r
         then map (\<lambda>r. if row_is (ov_key x) lv code r
                       then r\<lparr>cr_value := value_text (ov_value x), cr_pinned := ov_pinned x\<rparr> else r) rows
         else rows @ [\<lparr>cr_key = ov_key x, cr_level = lv, cr_code = code, cr_value = value_text (ov_value x),
                       cr_pinned = ov_pinned x\<rparr>])"

definition save_override :: "override \<Rightarrow> change \<Rightarrow> unit config_op" where
  "save_override x c = in_tx (\<lambda>s.
     if (sc_level (ov_scope x) = LevelGlobal) \<noteq> (sc_code (ov_scope x) = []) then Inl constraint_violated
     else insert_change c (s\<lparr>k_overrides := upsert_row x (k_overrides s)\<rparr>))"

definition delete_override :: "string \<Rightarrow> scope \<Rightarrow> change \<Rightarrow> unit config_op" where
  "delete_override key sc c = in_tx (\<lambda>s. insert_change c
     (s\<lparr>k_overrides := filter (\<lambda>r. \<not> row_is key (level_text (sc_level sc)) (sc_code sc) r) (k_overrides s)\<rparr>))"

definition default_change_limit :: nat where "default_change_limit = 100"

record change_filter =
  cf_key :: string
  cf_scope :: "scope option"
  cf_limit :: int64

definition change_before :: "change_row \<Rightarrow> change_row \<Rightarrow> bool" where
  "change_before a b \<longleftrightarrow> lr_at b < lr_at a \<or> lr_at a = lr_at b \<and> lr_id b < lr_id a"

text \<open>A value that today's registry does not read is left at the zero value.\<close>

definition logged_value :: "string \<Rightarrow> string \<Rightarrow> config_value" where
  "logged_value key raw = (case lookup key of Inl _ \<Rightarrow> whole_value KindCount 0
   | Inr d \<Rightarrow> (case parse_value (df_kind d) raw of Inl _ \<Rightarrow> whole_value KindCount 0 | Inr v \<Rightarrow> v))"

definition scan_change :: "change_row \<Rightarrow> error + change" where
  "scan_change r = (case parse_level (lr_level r) of
     Inl e \<Rightarrow> Inl (config_sentinel e)
   | Inr l \<Rightarrow> (case new_scope l (lr_code r) of
       Inl e \<Rightarrow> Inl (config_sentinel e)
     | Inr sc \<Rightarrow> Inr \<lparr>cg_id = lr_id r, cg_key = lr_key r, cg_scope = sc,
         cg_old = logged_value (lr_key r) (lr_old r), cg_new = logged_value (lr_key r) (lr_new r),
         cg_actor = \<lparr>ca_kind = lr_actor_kind r, ca_id = lr_actor_id r\<rparr>, cg_reason = lr_reason r, cg_at = lr_at r\<rparr>))"

definition changes :: "change_filter \<Rightarrow> change list config_op" where
  "changes f = db_read (\<lambda>s.
     let limit = (if cf_limit f \<le> 0 then default_change_limit else nat (cf_limit f));
         wanted = (\<lambda>r. (cf_key f = [] \<or> lr_key r = cf_key f) \<and>
           (case cf_scope f of None \<Rightarrow> True
            | Some sc \<Rightarrow> lr_level r = level_text (sc_level sc) \<and> lr_code r = sc_code sc))
     in rmap scan_change (take limit (stable_sort change_before (filter wanted (k_changes s)))))"

section \<open>Reading settings\<close>

definition config_unavailable :: "string \<Rightarrow> error \<Rightarrow> error" where
  "config_unavailable msg e = wrap e KindUnavailable ''config_unavailable'' msg"

definition resolve_settings :: "placement \<Rightarrow> resolved config_op" where
  "resolve_settings p =
     and_then (or_wrap (config_unavailable ''We could not load settings for this area. Please try again.'')
       (overrides_for p)) (\<lambda>os. ret (resolve p os))"

definition list_changes :: "change_filter \<Rightarrow> change list config_op" where
  "list_changes f = or_wrap (config_unavailable ''We could not load the change history. Please try again.'') (changes f)"

section \<open>Setting an override\<close>

record set_request =
  sr_key :: string
  sr_scope :: scope
  sr_value :: config_value
  sr_pinned :: bool
  sr_actor :: config_actor
  sr_reason :: string

definition unknown_setting :: "string \<Rightarrow> error" where
  "unknown_setting key = with_field (wrap (config_sentinel ErrUnknownKey) KindNotFound ''unknown_config_key''
     ''That setting does not exist.'') ''key'' key"

definition reason_required :: "string \<Rightarrow> error" where
  "reason_required msg = new_error KindInvalid ''reason_required'' msg"

definition bounds_error :: "config_def \<Rightarrow> config_err \<Rightarrow> error" where
  "bounds_error d e =
     (if e = ErrKindMismatch
      then with_field (with_field (wrap (config_sentinel e) KindInvalid ''wrong_config_type''
             ''That value is the wrong type for this setting.'') ''key'' (df_key d))
             ''expected'' (config_kind_text (df_kind d))
      else with_field (with_field (with_field (wrap (config_sentinel e) KindInvalid ''config_out_of_bounds''
             ''That value is outside the allowed range for this setting.'') ''key'' (df_key d))
             ''minimum'' (value_text (df_min d))) ''maximum'' (value_text (df_max d)))"

definition tuner_may_write :: "config_def \<Rightarrow> set_request \<Rightarrow> unit config_op" where
  "tuner_may_write d q =
     (if \<not> df_auto_tunable d
      then raise_err (with_field (wrap (config_sentinel ErrNotAutoTunable) KindForbidden ''not_auto_tunable''
             ''This setting is only changed by an administrator.'') ''key'' (sr_key q))
      else and_then (or_wrap (config_unavailable ''We could not check this setting. Please try again.'')
             (all_overrides (sr_scope q))) (\<lambda>existing.
           if \<exists>x\<in>set existing. ov_key x = sr_key q \<and> ov_pinned x
           then raise_err (with_field (with_field (wrap (config_sentinel ErrPinned) KindConflict ''config_pinned''
                  ''An administrator has pinned this setting.'') ''key'' (sr_key q)) ''scope'' (scope_text (sr_scope q)))
           else ret ()))"

definition current_value :: "config_def \<Rightarrow> scope \<Rightarrow> config_value config_op" where
  "current_value d sc =
     and_then (or_wrap (config_unavailable ''We could not read the current setting. Please try again.'')
       (all_overrides sc)) (\<lambda>existing.
     ret (case find (\<lambda>x. ov_key x = df_key d) existing of None \<Rightarrow> df_default d | Some x \<Rightarrow> ov_value x))"

definition write_failed :: "string \<Rightarrow> error \<Rightarrow> error" where
  "write_failed msg e = wrap e KindUnavailable ''config_write_failed'' msg"

definition set_override :: "set_request \<Rightarrow> change config_op" where
  "set_override q = (case lookup (sr_key q) of
     Inl _ \<Rightarrow> raise_err (unknown_setting (sr_key q))
   | Inr d \<Rightarrow>
       if df_immutable d
       then raise_err (with_field (wrap (config_sentinel ErrImmutable) KindForbidden ''immutable_config_key''
              ''This setting protects a rule that cannot be turned off.'') ''key'' (sr_key q))
       else and_then (when_op (ca_kind (sr_actor q) = ''auto_tuner'') (tuner_may_write d q)) (\<lambda>_.
         case in_bounds d (sr_value q) of
           Some e \<Rightarrow> raise_err (bounds_error d e)
         | None \<Rightarrow>
             if trim_space (sr_reason q) = []
             then raise_err (reason_required ''Please say why this setting is being changed.'')
             else and_then (current_value d (sr_scope q)) (\<lambda>previous.
                  and_then (fresh_id ''cfg'') (\<lambda>cid.
                  and_then clock_now (\<lambda>now.
                  let c = \<lparr>cg_id = cid, cg_key = sr_key q, cg_scope = sr_scope q, cg_old = previous,
                        cg_new = sr_value q, cg_actor = sr_actor q, cg_reason = trim_space (sr_reason q), cg_at = now\<rparr>
                  in and_then (or_wrap (write_failed ''We could not save that setting. Please try again.'')
                       (save_override \<lparr>ov_key = sr_key q, ov_scope = sr_scope q, ov_value = sr_value q,
                          ov_pinned = sr_pinned q\<rparr> c)) (\<lambda>_. ret c))))))"

section \<open>Clearing an override\<close>

definition clear_override :: "string \<Rightarrow> scope \<Rightarrow> config_actor \<Rightarrow> string \<Rightarrow> change config_op" where
  "clear_override key sc actor reason = (case lookup key of
     Inl _ \<Rightarrow> raise_err (unknown_setting key)
   | Inr d \<Rightarrow>
       if sc_level sc = LevelGlobal
       then raise_err (with_field (new_error KindInvalid ''cannot_clear_global''
              ''The global value is the fallback and cannot be removed.'') ''key'' key)
       else if trim_space reason = []
       then raise_err (reason_required ''Please say why this setting is being reset.'')
       else and_then (or_wrap (config_unavailable ''We could not read the current setting. Please try again.'')
              (all_overrides sc)) (\<lambda>existing.
            case find (\<lambda>x. ov_key x = key) existing of
              None \<Rightarrow> raise_err (with_field (with_field (new_error KindNotFound ''no_override_here''
                ''There is no setting to reset at this level.'') ''key'' key) ''scope'' (scope_text sc))
            | Some x \<Rightarrow>
                and_then (fresh_id ''cfg'') (\<lambda>cid.
                and_then clock_now (\<lambda>now.
                let c = \<lparr>cg_id = cid, cg_key = key, cg_scope = sc, cg_old = ov_value x, cg_new = df_default d,
                      cg_actor = actor, cg_reason = trim_space reason, cg_at = now\<rparr>
                in and_then (or_wrap (write_failed ''We could not reset that setting. Please try again.'')
                     (delete_override key sc c)) (\<lambda>_. ret c)))))"

section \<open>The automatic tuner\<close>

definition tunable_keys :: "string list" where
  "tunable_keys = [''discovery.base_radius'', ''dispatch.partner_radius'']"

record tune_outcome =
  to_key :: string
  to_applied :: bool
  to_skipped :: string
  to_change :: "change option"

text \<open>Lookups that cannot fail are used unchecked, as in the code; a failed one reads as a zero value.\<close>

definition tune_one :: "string \<Rightarrow> scope \<Rightarrow> resolved \<Rightarrow> int64 \<Rightarrow> tuning_signal \<Rightarrow> tune_outcome config_op" where
  "tune_one key sc r min_merchants signal =
     (case lookup key of
        Inl _ \<Rightarrow> ret \<lparr>to_key = key, to_applied = False, to_skipped = ''no_change_needed'', to_change = None\<rparr>
      | Inr d \<Rightarrow>
          let current = (case resolved_value r key of Inl _ \<Rightarrow> whole_value KindCount 0 | Inr v \<Rightarrow> v)
          in case tune d current min_merchants signal of
               None \<Rightarrow> ret \<lparr>to_key = key, to_applied = False, to_skipped = ''no_change_needed'', to_change = None\<rparr>
             | Some (v, reason) \<Rightarrow>
                 and_then (attempt (set_override \<lparr>sr_key = key, sr_scope = sc, sr_value = v, sr_pinned = False,
                   sr_actor = tuner_actor, sr_reason = reason\<rparr>)) (\<lambda>outcome. case outcome of
                   Inr c \<Rightarrow> ret \<lparr>to_key = key, to_applied = True, to_skipped = [], to_change = Some c\<rparr>
                 | Inl e \<Rightarrow>
                     if is_sentinel e (config_err_text ErrPinned)
                     then ret \<lparr>to_key = key, to_applied = False, to_skipped = ''pinned'', to_change = None\<rparr>
                     else raise_err e))"

definition auto_tune :: "placement \<Rightarrow> tuning_signal \<Rightarrow> tune_outcome list config_op" where
  "auto_tune p signal = (case new_scope LevelArea (pl_area p) of
     Inl e \<Rightarrow> raise_err (wrap (config_sentinel e) KindInvalid ''invalid_scope'' ''That area is not valid.'')
   | Inr sc \<Rightarrow>
       and_then (resolve_settings p) (\<lambda>r.
       let min_merchants = (case resolved_int r ''discovery.min_merchants'' of Inl _ \<Rightarrow> 0 | Inr n \<Rightarrow> n)
       in map_each (\<lambda>key. tune_one key sc r min_merchants signal) tunable_keys))"

section \<open>Requests\<close>

definition parse_scope :: "string \<Rightarrow> string \<Rightarrow> error + scope" where
  "parse_scope lv code = (case parse_level lv of
     Inl e \<Rightarrow> Inl (with_field (wrap (config_sentinel e) KindInvalid ''invalid_scope_level''
       ''Scope must be area, district, division or global.'') ''level'' lv)
   | Inr l \<Rightarrow> (case new_scope l code of
       Inl e \<Rightarrow> Inl (with_field (with_field (wrap (config_sentinel e) KindInvalid ''invalid_scope''
         ''That scope is not valid.'') ''level'' lv) ''code'' code)
     | Inr sc \<Rightarrow> Inr sc))"

definition caller_id :: "string option \<Rightarrow> error + string" where
  "caller_id uid = (case uid of
     Some u \<Rightarrow> if u = [] then Inl (new_error KindUnauthorized ''unauthenticated'' ''Please sign in.'') else Inr u
   | None \<Rightarrow> Inl (new_error KindUnauthorized ''unauthenticated'' ''Please sign in.''))"

definition http_set :: "string option \<Rightarrow> string \<Rightarrow> string \<Rightarrow> string \<Rightarrow> string \<Rightarrow> bool \<Rightarrow> string \<Rightarrow> change config_op" where
  "http_set uid key lv code raw pinned reason =
     and_then (lift_err (caller_id uid)) (\<lambda>admin.
     and_then (lift_err (parse_scope lv code)) (\<lambda>sc.
     case lookup (trim_space key) of
       Inl _ \<Rightarrow> raise_err (unknown_setting key)
     | Inr d \<Rightarrow> (case parse_value (df_kind d) raw of
         Inl e \<Rightarrow> raise_err (with_field (with_field (wrap (config_sentinel e) KindInvalid ''invalid_config_value''
           ''That value could not be read for this setting.'') ''key'' key) ''expected'' (config_kind_text (df_kind d)))
       | Inr v \<Rightarrow> set_override \<lparr>sr_key = df_key d, sr_scope = sc, sr_value = v, sr_pinned = pinned,
           sr_actor = admin_actor admin, sr_reason = reason\<rparr>)))"

definition http_clear :: "string option \<Rightarrow> string \<Rightarrow> string \<Rightarrow> string \<Rightarrow> string \<Rightarrow> change config_op" where
  "http_clear uid key lv code reason =
     and_then (lift_err (caller_id uid)) (\<lambda>admin.
     and_then (lift_err (parse_scope lv code)) (\<lambda>sc.
     clear_override (trim_space key) sc (admin_actor admin) reason))"

end
