(* ===== verification/Config_Safety.thy ===== *)
theory Config_Safety
  imports Config_App
begin

text \<open>
  What the configuration module keeps in every history of requests, whatever runs between the calls
  of a request: the rows are in bounds, the variable nobody may change has none, and the audit log
  says of every variable at every scope what the table says.
\<close>

section \<open>The invariant\<close>

definition row_ok :: "config_row \<Rightarrow> bool" where
  "row_ok r \<longleftrightarrow> (\<exists>d v l. registry (cr_key r) = Some d \<and> \<not> df_immutable d \<and> cr_level r = level_text l \<and>
     (l = LevelGlobal \<longleftrightarrow> cr_code r = []) \<and> cr_value r = value_text v \<and> made_value v \<and> in_bounds d v = None)"

definition row_place :: "config_row \<Rightarrow> string \<times> string \<times> string" where
  "row_place r = (cr_key r, cr_level r, cr_code r)"

definition log_ok :: "change_row \<Rightarrow> bool" where
  "log_ok r \<longleftrightarrow> registry (lr_key r) \<noteq> None \<and> lr_reason r \<noteq> [] \<and> lr_actor_kind r \<in> {''admin'', ''auto_tuner''}"

text \<open>The text in force at one scope: by the table, and by the newest entry of the log.\<close>

definition by_table :: "config_store \<Rightarrow> config_def \<Rightarrow> string \<Rightarrow> string \<Rightarrow> string" where
  "by_table s d lv code = (case find (row_is (df_key d) lv code) (k_overrides s) of
     None \<Rightarrow> value_text (df_default d) | Some r \<Rightarrow> cr_value r)"

definition by_log :: "config_store \<Rightarrow> config_def \<Rightarrow> string \<Rightarrow> string \<Rightarrow> string" where
  "by_log s d lv code =
     (case find (\<lambda>r. lr_key r = df_key d \<and> lr_level r = lv \<and> lr_code r = code) (rev (k_changes s)) of
        None \<Rightarrow> value_text (df_default d) | Some r \<Rightarrow> lr_new r)"

definition config_ok :: "config_store \<Rightarrow> bool" where
  "config_ok s \<longleftrightarrow> list_all row_ok (k_overrides s) \<and> distinct (map row_place (k_overrides s)) \<and>
     list_all log_ok (k_changes s) \<and> distinct (map lr_id (k_changes s)) \<and>
     (\<forall>d\<in>set definitions. \<forall>lv code. by_table s d lv code = by_log s d lv code)"

definition configured :: "config_store \<Rightarrow> config_store \<Rightarrow> bool" where
  "configured s t \<longleftrightarrow> (config_ok s \<longrightarrow> config_ok t) \<and> prefix (k_changes s) (k_changes t)"

interpretation cfg: guarantee configured any_source
  by unfold_locales (auto simp: configured_def intro: prefix_order.order_trans)

section \<open>The two writes\<close>

lemma row_is_place: "row_is key lv code r \<longleftrightarrow> row_place r = (key, lv, code)"
  by (auto simp: row_is_def row_place_def)

lemma row_place_update [simp]: "row_place (r\<lparr>cr_value := v, cr_pinned := b\<rparr>) = row_place r"
  by (simp add: row_place_def)

lemma find_filter_other:
  "find (\<lambda>r. g r = a) (filter (\<lambda>r. g r \<noteq> b) rows) = (if a = b then None else find (\<lambda>r. g r = a) rows)"
  by (induction rows) (auto simp: find_None_iff)

lemma insert_change_iff:
  "insert_change c s = Inr t \<longleftrightarrow> cg_id c \<notin> lr_id ` set (k_changes s) \<and> ca_kind (cg_actor c) \<in> {''admin'', ''auto_tuner''} \<and>
     t = s\<lparr>k_changes := k_changes s @ [change_row_of c]\<rparr>"
  by (auto simp: insert_change_def)

lemma by_log_snoc:
  "by_log (s\<lparr>k_overrides := rows, k_changes := k_changes s @ [change_row_of c]\<rparr>) d lv code =
     (if cg_key c = df_key d \<and> level_text (sc_level (cg_scope c)) = lv \<and> sc_code (cg_scope c) = code
      then value_text (cg_new c) else by_log s d lv code)"
  by (auto simp: by_log_def change_row_of_def)

definition place_of :: "override \<Rightarrow> string \<times> string \<times> string" where
  "place_of x = (ov_key x, level_text (sc_level (ov_scope x)), sc_code (ov_scope x))"

definition row_of :: "override \<Rightarrow> config_row" where
  "row_of x = \<lparr>cr_key = ov_key x, cr_level = level_text (sc_level (ov_scope x)), cr_code = sc_code (ov_scope x),
     cr_value = value_text (ov_value x), cr_pinned = ov_pinned x\<rparr>"

lemma row_of_place: "row_place r = place_of x \<Longrightarrow> r\<lparr>cr_value := value_text (ov_value x), cr_pinned := ov_pinned x\<rparr> = row_of x"
  by (simp add: row_place_def place_of_def row_of_def)

lemma place_row_of [simp]: "row_place (row_of x) = place_of x"
  by (simp add: row_place_def place_of_def row_of_def)

lemma upsert_row_eq:
  "upsert_row x rows = (if place_of x \<in> row_place ` set rows
     then map (\<lambda>r. if row_place r = place_of x then row_of x else r) rows else rows @ [row_of x])"
proof -
  have "(\<exists>r\<in>set rows. row_place r = place_of x) \<longleftrightarrow> place_of x \<in> row_place ` set rows" by (metis imageE imageI)
  then show ?thesis
    by (auto simp only: upsert_row_def Let_def row_is_place place_of_def [symmetric] row_of_place row_of_def [symmetric]
        cong: map_cong if_cong)
qed

lemma upsert_places:
  "map row_place (upsert_row x rows) =
    (if place_of x \<in> row_place ` set rows then map row_place rows else map row_place rows @ [place_of x])"
  by (auto simp: upsert_row_eq)

lemma upsert_find:
  "find (row_is key lv code) (upsert_row x rows) =
     (if place_of x = (key, lv, code) then Some (row_of x) else find (row_is key lv code) rows)"
proof -
  have m: "find (\<lambda>r. row_place r = a) (map (\<lambda>r. if row_place r = place_of x then row_of x else r) rs) =
      (if a = place_of x then (if a \<in> row_place ` set rs then Some (row_of x) else None)
       else find (\<lambda>r. row_place r = a) rs)" for a rs
    by (induction rs) auto
  have none: "find (\<lambda>r. row_place r = a) rs = None" if "a \<notin> row_place ` set rs" for a rs
    using that by (auto simp: find_None_iff)
  show ?thesis
  proof (cases "place_of x \<in> row_place ` set rows")
    case True
    then show ?thesis unfolding upsert_row_eq row_is_place [abs_def] by (simp only: if_True m) auto
  next
    case False
    then show ?thesis unfolding upsert_row_eq row_is_place [abs_def] if_False
      using none [of "place_of x"] by (cases "place_of x = (key, lv, code)") (auto simp: find_snoc split: option.split)
  qed
qed

lemma upsert_rows_ok:
  assumes "list_all row_ok rows"
    and "registry (ov_key x) = Some d" "\<not> df_immutable d" "made_value (ov_value x)" "in_bounds d (ov_value x) = None"
    and "sc_level (ov_scope x) = LevelGlobal \<longleftrightarrow> sc_code (ov_scope x) = []"
  shows "list_all row_ok (upsert_row x rows)"
proof -
  have "row_ok (row_of x)" using assms(2-6) by (auto simp: row_ok_def row_of_def)
  then show ?thesis using assms(1) by (auto simp: upsert_row_eq list_all_iff)
qed

text \<open>A change that fits what is written.\<close>

definition change_fits :: "string \<Rightarrow> scope \<Rightarrow> change \<Rightarrow> bool" where
  "change_fits key sc c \<longleftrightarrow> cg_key c = key \<and> cg_scope c = sc \<and> cg_reason c \<noteq> []"

lemma save_configured:
  assumes "registry (ov_key x) = Some d" "\<not> df_immutable d" "made_value (ov_value x)" "in_bounds d (ov_value x) = None"
    and "change_fits (ov_key x) (ov_scope x) c" "cg_new c = ov_value x"
  shows "holds configured (\<lambda>_. True) (save_override x c) (\<lambda>_ _. True)"
  unfolding save_override_def in_tx_def
proof (rule cfg.call [OF stable_True])
  fix s r t
  assume step: "(case if (sc_level (ov_scope x) = LevelGlobal) \<noteq> (sc_code (ov_scope x) = []) then Inl constraint_violated
      else insert_change c (s\<lparr>k_overrides := upsert_row x (k_overrides s)\<rparr>) of Inl e \<Rightarrow> (Inl e, s) | Inr t \<Rightarrow> (Inr (), t)) = (r, t)"
  have "configured s t"
  proof (cases "t = s")
    case True
    then show ?thesis by (simp add: cfg.refl)
  next
    case False
    then have g: "sc_level (ov_scope x) = LevelGlobal \<longleftrightarrow> sc_code (ov_scope x) = []"
      and new: "cg_id c \<notin> lr_id ` set (k_changes s)" "ca_kind (cg_actor c) \<in> {''admin'', ''auto_tuner''}"
      and t: "t = s\<lparr>k_overrides := upsert_row x (k_overrides s), k_changes := k_changes s @ [change_row_of c]\<rparr>"
      using step by (auto simp: insert_change_iff split: if_splits sum.splits)
    have "config_ok t" if ok: "config_ok s"
    proof -
      have "by_table t e lv code = (if place_of x = (df_key e, lv, code) then value_text (ov_value x) else by_table s e lv code)"
        for e lv code by (simp add: t by_table_def upsert_find row_of_def)
      moreover have "by_log t e lv code = (if place_of x = (df_key e, lv, code) then value_text (ov_value x) else by_log s e lv code)"
        for e lv code using assms(5,6) unfolding t by_log_snoc by (simp add: place_of_def change_fits_def)
      ultimately have "\<forall>e\<in>set definitions. \<forall>lv code. by_table t e lv code = by_log t e lv code"
        using ok by (simp add: config_ok_def)
      moreover have "log_ok (change_row_of c)"
        using assms(1,5) new(2) by (simp add: log_ok_def change_row_of_def change_fits_def)
      moreover have "distinct (map row_place (upsert_row x (k_overrides s)))"
        using ok by (simp add: upsert_places config_ok_def)
      ultimately show ?thesis
        using ok upsert_rows_ok [OF _ assms(1-4) g] new(1) by (simp add: config_ok_def t) (simp add: change_row_of_def)
    qed
    then show ?thesis by (simp add: configured_def t)
  qed
  then show "configured s t \<and> True" by simp
qed simp

lemma delete_configured:
  assumes "registry key = Some d" "change_fits key sc c" "cg_new c = df_default d"
  shows "holds configured (\<lambda>_. True) (delete_override key sc c) (\<lambda>_ _. True)"
  unfolding delete_override_def in_tx_def
proof (rule cfg.call [OF stable_True])
  fix s r t
  let ?gone = "row_is key (level_text (sc_level sc)) (sc_code sc)"
  assume step: "(case insert_change c (s\<lparr>k_overrides := filter (\<lambda>r. \<not> ?gone r) (k_overrides s)\<rparr>) of
      Inl e \<Rightarrow> (Inl e, s) | Inr t \<Rightarrow> (Inr (), t)) = (r, t)"
  have "configured s t"
  proof (cases "t = s")
    case True
    then show ?thesis by (simp add: cfg.refl)
  next
    case False
    then have new: "cg_id c \<notin> lr_id ` set (k_changes s)" "ca_kind (cg_actor c) \<in> {''admin'', ''auto_tuner''}"
      and t: "t = s\<lparr>k_overrides := filter (\<lambda>r. \<not> ?gone r) (k_overrides s), k_changes := k_changes s @ [change_row_of c]\<rparr>"
      using step by (auto simp: insert_change_iff split: if_splits sum.splits)
    have f: "find (row_is k lv code) (filter (\<lambda>r. \<not> ?gone r) rows) =
        (if k = key \<and> lv = level_text (sc_level sc) \<and> code = sc_code sc then None else find (row_is k lv code) rows)"
      for k lv code rows
      using find_filter_other [of row_place "(k, lv, code)" "(key, level_text (sc_level sc), sc_code sc)" rows]
      by (simp add: row_is_place [abs_def])
    have key: "df_key d = key" using assms(1) registry_ok by blast
    have "config_ok t" if ok: "config_ok s"
    proof -
      have "by_table t e lv code = (if (key, level_text (sc_level sc), sc_code sc) = (df_key e, lv, code)
          then value_text (df_default e) else by_table s e lv code)" for e lv code
        by (auto simp: t by_table_def f)
      moreover have "by_log t e lv code = (if (key, level_text (sc_level sc), sc_code sc) = (df_key e, lv, code)
          then value_text (df_default d) else by_log s e lv code)" for e lv code
        using assms(2,3) unfolding t by_log_snoc by (simp add: change_fits_def)
      moreover have "e = d" if "e \<in> set definitions" "df_key e = key" for e
        using that assms(1) registry_iff by (metis option.inject)
      ultimately have "\<forall>e\<in>set definitions. \<forall>lv code. by_table t e lv code = by_log t e lv code"
        using ok by (auto simp: config_ok_def)
      moreover have "log_ok (change_row_of c)"
        using assms(1,2) new(2) by (simp add: log_ok_def change_row_of_def change_fits_def)
      ultimately show ?thesis
        using ok new(1) by (simp add: config_ok_def t list_all_iff distinct_map_filter) (simp add: change_row_of_def)
    qed
    then show ?thesis by (simp add: configured_def t)
  qed
  then show "configured s t \<and> True" by simp
qed simp

section \<open>Every request keeps the invariant\<close>

abbreviation harmless :: "'a config_op \<Rightarrow> bool" where
  "harmless m \<equiv> holds configured (\<lambda>_. True) m (\<lambda>_ _. True)"

lemma harmless_bind: "harmless m \<Longrightarrow> (\<And>x. harmless (f x)) \<Longrightarrow> harmless (and_then m f)"
  by (rule cfg.bind [where M = "\<lambda>_ _. True"]) (auto elim: holds_weaken split: sum.split)

lemma harmless_wrap: "harmless m \<Longrightarrow> harmless (or_wrap g m)"
  by (rule cfg.or_wrap)

lemma harmless_attempt: "harmless m \<Longrightarrow> harmless (attempt m)"
  by (rule cfg.attempt)

lemma harmless_read: "harmless (db_read f)"
  by (rule cfg.read) (auto intro: stable_True)

lemma harmless_when: "(b \<Longrightarrow> harmless m) \<Longrightarrow> harmless (when_op b m)"
  by (cases b) (auto intro: cfg.ret)

lemma harmless_simple: "harmless (ret x)" "harmless (raise_err e)" "harmless (lift_err r)" "harmless clock_now"
    "harmless (fresh_id pre)"
  by (auto intro: cfg.ret cfg.raise cfg.lift cfg.clock cfg.fresh)

lemma harmless_map_each: "(\<And>x. harmless (f x)) \<Longrightarrow> harmless (map_each f xs)"
  by (induction xs) (auto intro!: harmless_bind harmless_simple)

lemmas harmless_rules = harmless_bind harmless_wrap harmless_attempt harmless_read harmless_when harmless_simple harmless_map_each

lemma harmless_reads: "harmless (overrides_for p)" "harmless (all_overrides sc)" "harmless (changes f)"
    "harmless (resolve_settings p)" "harmless (list_changes f)"
  by (auto simp: overrides_for_def all_overrides_def changes_def resolve_settings_def list_changes_def intro!: harmless_rules)

lemma harmless_set:
  assumes "made_value (sr_value q)"
  shows "harmless (set_override q)"
proof (cases "lookup (sr_key q)")
  case (Inl e)
  then show ?thesis by (simp add: set_override_def harmless_simple)
next
  case (Inr d)
  then have d: "registry (sr_key q) = Some d" by simp
  have tuner: "harmless (tuner_may_write d q)"
    unfolding tuner_may_write_def by (auto intro!: harmless_rules harmless_reads split: if_splits)
  show ?thesis
  proof (cases "df_immutable d")
    case True
    then show ?thesis by (simp add: set_override_def Inr harmless_simple del: lookup_iff)
  next
    case False
    have save: "harmless (save_override \<lparr>ov_key = sr_key q, ov_scope = sr_scope q, ov_value = sr_value q, ov_pinned = sr_pinned q\<rparr>
        \<lparr>cg_id = cid, cg_key = sr_key q, cg_scope = sr_scope q, cg_old = previous, cg_new = sr_value q,
         cg_actor = sr_actor q, cg_reason = trim_space (sr_reason q), cg_at = now\<rparr>)"
      if "in_bounds d (sr_value q) = None" "trim_space (sr_reason q) \<noteq> []" for cid previous now
      using that assms d False by (intro save_configured [where d = d]) (simp_all add: change_fits_def)
    show ?thesis
      unfolding set_override_def Inr sum.case if_not_P [OF False] Let_def
      by (intro harmless_bind harmless_when tuner)
        (auto simp: current_value_def intro!: harmless_rules harmless_reads save split: option.split)
  qed
qed

lemma harmless_clear: "harmless (clear_override key sc actor reason)"
proof (cases "lookup key")
  case (Inl e)
  then show ?thesis by (simp add: clear_override_def harmless_simple)
next
  case (Inr d)
  have delete: "harmless (delete_override key sc \<lparr>cg_id = cid, cg_key = key, cg_scope = sc, cg_old = old,
      cg_new = df_default d, cg_actor = actor, cg_reason = trim_space reason, cg_at = now\<rparr>)"
    if "trim_space reason \<noteq> []" for cid old now
    using that Inr by (intro delete_configured [where d = d]) (simp_all add: change_fits_def)
  show ?thesis unfolding clear_override_def Inr sum.case Let_def
    by (auto intro!: harmless_rules harmless_reads delete split: option.split)
qed

lemma tune_made: "tune d current mm signal = Some (v, reason) \<Longrightarrow> registry k = Some d \<Longrightarrow> k \<in> set tunable_keys \<Longrightarrow>
    made_value v \<and> in_bounds d v = None"
proof -
  assume t: "tune d current mm signal = Some (v, reason)" and d: "registry k = Some d" "k \<in> set tunable_keys"
  have key: "df_key d = k" "d \<in> set definitions" using d(1) by (simp_all only: registry_iff)
  then have k: "df_kind d = KindDistance \<and> df_min d = whole_value KindDistance 1000 \<and>
      df_max d \<in> {whole_value KindDistance 25000, whole_value KindDistance 30000}"
    using d(2) by (auto simp: definitions_def tunable_keys_def tunable_def switch_def km_metres_def)
  have clamped: "1000 \<le> clamp x 1000 hi \<and> clamp x 1000 hi \<le> hi" if "1000 \<le> hi" for x hi
    using that by (simp add: clamp_def)
  have bounds: "int_or_zero (df_min d) = 1000" "1000 \<le> int_or_zero (df_max d)" "int_or_zero (df_max d) \<le> 30000"
    using k by (auto simp: int_or_zero_def value_int_def is_whole_kind_def)
  have "\<exists>x. T = clamp x (int_or_zero (df_min d)) (int_or_zero (df_max d))" if "tune_target d m mm signal = Some (T, r)" for T r m
    using that unfolding tune_target_def Let_def by (metis option.distinct(1) option.inject prod.inject)
  then obtain x where x: "v = (case new_whole KindDistance (clamp x 1000 (int_or_zero (df_max d))) of
      Inr v \<Rightarrow> v | Inl _ \<Rightarrow> whole_value KindCount 0)"
    using t by (auto simp: tune_def bounds(1) split: option.splits if_splits) blast
  define target where "target = clamp x 1000 (int_or_zero (df_max d))"
  have v: "1000 \<le> target" "target \<le> int_or_zero (df_max d)" "v = whole_value KindDistance target"
    using clamped [OF bounds(2), of x] x by (simp_all add: target_def new_whole_def)
  have "made_value v" unfolding v(3)
    by (rule made_whole) (use v(1,2) bounds(3) in \<open>auto simp: is_whole_kind_def fits64_def\<close>)
  then show ?thesis using k v by (auto simp: in_bounds_def int_or_zero_def value_int_def is_whole_kind_def)
qed

lemma harmless_tune: "harmless (auto_tune p signal)"
proof -
  have one: "harmless (tune_one k sc r mm signal)" if "k \<in> set tunable_keys" for k sc r mm
    unfolding tune_one_def Let_def using tune_made [OF _ _ that]
    by (auto intro!: harmless_rules harmless_set split: sum.split option.split)
  have "harmless (map_each (\<lambda>k. tune_one k sc r mm signal) ks)" if "set ks \<subseteq> set tunable_keys" for ks sc r mm
    using that by (induction ks) (auto intro!: harmless_bind harmless_simple one)
  then show ?thesis unfolding auto_tune_def Let_def
    by (auto intro!: harmless_bind harmless_simple harmless_reads split: sum.split)
qed

datatype config_request =
    CqSet "string option" string string string string bool string
  | CqClear "string option" string string string string
  | CqTune placement tuning_signal
  | CqEffective placement
  | CqChanges change_filter

definition forget_config :: "'a config_op \<Rightarrow> unit config_op" where
  "forget_config m = and_then m (\<lambda>_. ret ())"

fun run_config :: "config_request \<Rightarrow> unit config_op" where
  "run_config (CqSet uid key lv code raw pinned reason) = forget_config (http_set uid key lv code raw pinned reason)"
| "run_config (CqClear uid key lv code reason) = forget_config (http_clear uid key lv code reason)"
| "run_config (CqTune p signal) = forget_config (auto_tune p signal)"
| "run_config (CqEffective p) = forget_config (resolve_settings p)"
| "run_config (CqChanges f) = forget_config (list_changes f)"

lemma harmless_run: "harmless (run_config q)"
proof (cases q)
  case (CqSet uid key lv code raw pinned reason)
  then show ?thesis
    using parse_value_made by (auto simp: forget_config_def http_set_def intro!: harmless_rules harmless_set split: sum.split)
qed (auto simp: forget_config_def http_clear_def intro!: harmless_rules harmless_reads harmless_clear harmless_tune)

text \<open>Histories of whole requests between whose calls, again, any history may run.\<close>

inductive config_history :: "(config_store \<Rightarrow> config_store) \<Rightarrow> bool" where
  config_nothing: "config_history (\<lambda>s. s)"
| config_later: "config_history f \<Longrightarrow> config_history g \<Longrightarrow> config_history (\<lambda>s. g (f s))"
| config_request: "(\<And>n. config_history (w_others w n)) \<Longrightarrow>
    config_history (\<lambda>s. w_store (snd (run_config q (w\<lparr>w_store := s\<rparr>))))"

definition no_overrides :: config_store where
  "no_overrides = \<lparr>k_overrides = [], k_changes = []\<rparr>"

definition config_reachable :: "config_store \<Rightarrow> bool" where
  "config_reachable s \<longleftrightarrow> (\<exists>f. config_history f \<and> s = f no_overrides)"

lemma config_history_configured: "config_history f \<Longrightarrow> configured s (f s)"
proof (induction arbitrary: s rule: config_history.induct)
  case config_nothing
  then show ?case by (rule cfg.refl)
next
  case (config_later f g)
  then show ?case using cfg.trans by blast
next
  case (config_request w q)
  let ?w = "w\<lparr>w_store := s\<rparr>"
  have w: "relies configured ?w" using config_request by (simp add: relies_def)
  obtain r v where run: "run_config q ?w = (r, v)" by fastforce
  have "configured (w_store ?w) (w_store v)" using holdsD [OF harmless_run w _ _ run] by simp
  then show ?case by (simp add: run)
qed

lemma config_reachable_ok: "config_reachable s \<Longrightarrow> config_ok s"
proof -
  assume "config_reachable s"
  then obtain f where "config_history f" "s = f no_overrides" by (auto simp: config_reachable_def)
  moreover have "config_ok no_overrides" by (simp add: config_ok_def no_overrides_def by_table_def by_log_def)
  ultimately show ?thesis using config_history_configured by (auto simp: configured_def)
qed

section \<open>What a request reads is in bounds\<close>

definition good_value :: "config_def \<Rightarrow> config_value \<Rightarrow> bool" where
  "good_value d v \<longleftrightarrow> made_value v \<and> in_bounds d v = None \<and> (df_immutable d \<longrightarrow> v = df_default d)"

definition good_settings :: "resolved \<Rightarrow> bool" where
  "good_settings r \<longleftrightarrow> (\<forall>k d. registry k = Some d \<longrightarrow> (\<exists>v. resolved_value r k = Inr v \<and> good_value d v))"

lemma default_good: "registry k = Some d \<Longrightarrow> good_value d (df_default d)"
proof -
  assume d: "registry k = Some d"
  have "list_all (\<lambda>d. case cv_kind (df_default d) of KindRatio \<Rightarrow> df_default d = ratio_value (Fin (3 / 2)) | _ \<Rightarrow> made_value (df_default d)) definitions"
    by code_simp
  moreover have m: "made_value (ratio_value (Fin (3 / 2)))"
    using rne_exact [of 3 "- 1"] by (intro made_ratio) (simp_all add: is_f64_def fl_Fin)
  moreover have b: "in_bounds d (df_default d) = None" "d \<in> set definitions"
    using registry_ok [OF d] d by (simp_all add: def_ok_def registry_iff)
  ultimately have "case cv_kind (df_default d) of KindRatio \<Rightarrow> df_default d = ratio_value (Fin (3 / 2)) | _ \<Rightarrow> made_value (df_default d)"
    by (simp only: list_all_iff)
  then have "made_value (df_default d)" using m by (cases "cv_kind (df_default d)") simp_all
  then show ?thesis using b by (simp add: good_value_def)
qed

lemma scan_row_good: "row_ok r \<Longrightarrow> scan_row r = Some x \<Longrightarrow>
    \<exists>d. registry (ov_key x) = Some d \<and> \<not> df_immutable d \<and> good_value d (ov_value x)"
proof -
  assume r: "row_ok r" and x: "scan_row r = Some x"
  then obtain d v where d: "registry (cr_key r) = Some d" "\<not> df_immutable d" "cr_value r = value_text v" "made_value v"
    "in_bounds d v = None" by (auto simp: row_ok_def)
  then have "parse_value (df_kind d) (cr_value r) = Inr v"
    using value_text_back [of v] by (auto simp: in_bounds_def split: if_splits)
  then have "ov_key x = cr_key r" "ov_value x = v" using x d(1)
    by (auto simp: scan_row_def lookup_def split: sum.splits)
  then show ?thesis using d by (auto simp: good_value_def)
qed

lemma resolve_good:
  assumes "\<And>x. x \<in> set os \<Longrightarrow> \<exists>d. registry (ov_key x) = Some d \<and> \<not> df_immutable d \<and> good_value d (ov_value x)"
  shows "good_settings (resolve p os)"
  unfolding good_settings_def
proof (intro allI impI)
  fix k d assume d: "registry k = Some d"
  have key: "df_key d = k" using registry_ok [OF d] by blast
  have "good_value d (fst (in_force p os d))"
  proof (cases "if df_immutable d then None
      else first_some (\<lambda>sc. map_option (\<lambda>x. (ov_value x, sc)) (find (applies d sc) os)) (chain p)")
    case None
    then show ?thesis using default_good [OF d] by (simp add: in_force_def)
  next
    case (Some y)
    then obtain x sc where x: "find (applies d sc) os = Some x" "y = (ov_value x, sc)"
      using first_some_Some by (fastforce split: if_splits)
    then have "x \<in> set os" "ov_key x = k" by (auto simp: find_Some_iff applies_def key)
    then have "good_value d (ov_value x)" using assms d by fastforce
    then show ?thesis using Some x(2) by (simp add: in_force_def)
  qed
  moreover have "resolved_value (resolve p os) k = Inr (fst (in_force p os d))"
    using resolve_match [of p os k] d by (simp add: lookup_def)
  ultimately show "\<exists>v. resolved_value (resolve p os) k = Inr v \<and> good_value d v" by blast
qed

lemma stable_ok: "stable configured config_ok"
  by (auto simp: stable_def configured_def)

lemma resolve_settings_good:
  "holds configured config_ok (resolve_settings p) (\<lambda>r s. case r of Inl e \<Rightarrow> True | Inr x \<Rightarrow> good_settings x)"
  unfolding resolve_settings_def
proof (rule cfg.bind [where M = "\<lambda>os _. \<forall>x\<in>set os. \<exists>d. registry (ov_key x) = Some d \<and> \<not> df_immutable d \<and> good_value d (ov_value x)"])
  show "holds configured config_ok (or_wrap (config_unavailable ''We could not load settings for this area. Please try again.'')
      (overrides_for p)) (\<lambda>r s. case r of Inl e \<Rightarrow> (case Inl e of Inl e \<Rightarrow> True | Inr x \<Rightarrow> good_settings x)
      | Inr os \<Rightarrow> \<forall>x\<in>set os. \<exists>d. registry (ov_key x) = Some d \<and> \<not> df_immutable d \<and> good_value d (ov_value x))"
    unfolding overrides_for_def
  proof (rule cfg.or_wrap, rule cfg.read [OF stable_ok])
    fix s assume ok: "config_ok s"
    have "\<exists>d. registry (ov_key x) = Some d \<and> \<not> df_immutable d \<and> good_value d (ov_value x)"
      if x: "x \<in> set (scan_overrides (filter (row_for p) (k_overrides s)))" for x
    proof -
      obtain r where "r \<in> set (k_overrides s)" "scan_row r = Some x"
        using x by (auto simp: scan_overrides_def List.map_filter_def)
      then show ?thesis using ok scan_row_good by (auto simp: config_ok_def list_all_iff)
    qed
    then show "case (case Inr (scan_overrides (filter (row_for p) (k_overrides s))) of Inl e \<Rightarrow>
          Inl (config_unavailable ''We could not load settings for this area. Please try again.'' e) | Inr x \<Rightarrow> Inr x) of
        Inl e \<Rightarrow> (case Inl e of Inl e \<Rightarrow> True | Inr x \<Rightarrow> good_settings x)
      | Inr os \<Rightarrow> \<forall>x\<in>set os. \<exists>d. registry (ov_key x) = Some d \<and> \<not> df_immutable d \<and> good_value d (ov_value x)"
      by simp
  qed simp
qed (auto intro!: cfg.ret resolve_good)

text \<open>What a setting's reader gets.\<close>

lemma setting_int:
  assumes "good_settings r" "registry k = Some d" "is_whole_kind (df_kind d)" "\<not> df_immutable d"
  shows "\<exists>n. resolved_int r k = Inr n \<and> cv_whole (df_min d) \<le> n \<and> n \<le> cv_whole (df_max d)"
proof -
  obtain v where v: "resolved_value r k = Inr v" "in_bounds d v = None"
    using assms(1,2) by (auto simp: good_settings_def good_value_def)
  then have "cv_kind v = df_kind d" "cv_whole (df_min d) \<le> cv_whole v" "cv_whole v \<le> cv_whole (df_max d)"
    using assms(3) by (auto simp: in_bounds_def Let_def is_whole_kind_def split: if_splits)
  then show ?thesis using v(1) assms(3) by (simp add: resolved_int_def value_int_def)
qed

lemma setting_tunable:
  "good_settings r \<Longrightarrow> registry k = Some (tunable key kd dflt auto lo hi) \<Longrightarrow> kd \<noteq> KindBool \<Longrightarrow> kd \<noteq> KindRatio \<Longrightarrow>
    \<exists>n. resolved_int r k = Inr n \<and> lo \<le> n \<and> n \<le> hi"
  using setting_int [of r k "tunable key kd dflt auto lo hi"] by (simp add: tunable_def is_whole_kind_def whole_value_def)

lemma setting_switch:
  "good_settings r \<Longrightarrow> registry k = Some (switch key dflt immutable) \<Longrightarrow>
    \<exists>b. resolved_bool r k = Inr b \<and> (immutable \<longrightarrow> b = dflt)"
  by (fastforce simp: good_settings_def good_value_def in_bounds_def switch_def resolved_bool_def value_bool_def bool_value_def
      split: if_splits)

lemma setting_ratio:
  assumes "good_settings r" "registry k = Some d" "df_kind d = KindRatio" "\<not> df_immutable d"
    and "df_min d = ratio_value (Fin lo)" "df_max d = ratio_value (Fin hi)"
  shows "\<exists>x. resolved_ratio r k = Inr x \<and> (x = NaN \<or> (\<exists>m. x = Fin m \<and> lo \<le> m \<and> m \<le> hi))"
proof -
  obtain v where v: "resolved_value r k = Inr v" "in_bounds d v = None"
    using assms(1,2) by (auto simp: good_settings_def good_value_def)
  then have "cv_kind v = KindRatio" "cv_ratio v = NaN \<or> (\<exists>m. cv_ratio v = Fin m \<and> lo \<le> m \<and> m \<le> hi)"
    using assms(3-6) by (cases "cv_ratio v"; force simp: in_bounds_def Let_def ratio_value_def split: if_splits)+
  then show ?thesis using v(1) by (simp add: resolved_ratio_def value_ratio_def)
qed

lemma resolve_settings_now:
  assumes "config_reachable (w_store w)" "\<And>n. config_history (w_others w n)" "resolve_settings p w = (Inr r, v)"
  shows "good_settings r"
proof -
  have "relies configured w" using assms(2) config_history_configured by (simp add: relies_def)
  then show ?thesis
    using holdsD [OF resolve_settings_good _ _ config_reachable_ok [OF assms(1)] assms(3)] by simp
qed

section \<open>Properties\<close>

text \<open>C28: Whatever requests were made before and run meanwhile, the settings a request reads for a place have a
  value of the right type for every variable of the registry, between its bounds; a multiplier that is
  not a number is the one thing the bounds let through.  The ceiling of the division is always on.\<close>

theorem settings_in_bounds:
  assumes "config_reachable (w_store w)" "\<And>n. config_history (w_others w n)"
    and "resolve_settings p w = (Inr r, v)" "lookup k = Inr d"
  shows "\<exists>x. resolved_value r k = Inr x \<and> cv_kind x = df_kind d \<and>
    (is_whole_kind (df_kind d) \<longrightarrow> cv_whole (df_min d) \<le> cv_whole x \<and> cv_whole x \<le> cv_whole (df_max d)) \<and>
    (df_kind d = KindRatio \<longrightarrow> cv_ratio x = NaN \<or> fle (Fin 1) (cv_ratio x) \<and> fle (cv_ratio x) (Fin 3)) \<and>
    resolved_bool r ''discovery.division_ceiling'' = Inr True"
proof -
  have g: "good_settings r" by (rule resolve_settings_now [OF assms(1-3)])
  have d: "registry k = Some d" using assms(4) by simp
  then obtain x where x: "resolved_value r k = Inr x" "in_bounds d x = None" using g by (auto simp: good_settings_def good_value_def)
  have ceiling: "registry ''discovery.division_ceiling'' = Some (switch ''discovery.division_ceiling'' True True)"
    by code_simp
  then obtain y where "resolved_value r ''discovery.division_ceiling'' = Inr y"
    "good_value (switch ''discovery.division_ceiling'' True True) y" using g unfolding good_settings_def by blast
  then have "resolved_value r ''discovery.division_ceiling'' = Inr (bool_value True)"
    by (simp add: good_value_def switch_def)
  then have c: "resolved_bool r ''discovery.division_ceiling'' = Inr True"
    by (simp add: resolved_bool_def value_bool_def)
  have "list_all (\<lambda>d. df_kind d = KindRatio \<longrightarrow> cv_ratio (df_min d) = Fin 1 \<and> cv_ratio (df_max d) = Fin 3) definitions"
    by code_simp
  then have ratio: "df_kind d = KindRatio \<Longrightarrow> cv_ratio (df_min d) = Fin 1 \<and> cv_ratio (df_max d) = Fin 3"
    using d by (simp add: list_all_iff registry_iff)
  have "df_kind d = KindRatio \<longrightarrow> cv_ratio x = NaN \<or> fle (Fin 1) (cv_ratio x) \<and> fle (cv_ratio x) (Fin 3)"
    using x(2) ratio by (cases "cv_ratio x") (auto simp: in_bounds_def Let_def fle_def split: if_splits)
  moreover have "cv_kind x = df_kind d" using x(2) by (simp add: in_bounds_def split: if_splits)
  moreover have "is_whole_kind (df_kind d) \<longrightarrow> cv_whole (df_min d) \<le> cv_whole x \<and> cv_whole x \<le> cv_whole (df_max d)"
    using x(2) by (auto simp: in_bounds_def Let_def is_whole_kind_def split: if_splits)
  ultimately show ?thesis using x(1) c by blast
qed

text \<open>C29: The audit log is complete: in every history, the text in force for a variable at a scope is the new
  value of the last entry written for it there, or its default when there is none; every entry is about a
  variable of the registry, says why and whether an administrator or the tuner made the change, and no two
  entries share an id.\<close>

theorem audit_log_complete:
  assumes "config_reachable s" "lookup k = Inr d"
  shows "(case find (row_is k lv code) (k_overrides s) of None \<Rightarrow> value_text (df_default d) | Some r \<Rightarrow> cr_value r) =
      (case find (\<lambda>c. lr_key c = k \<and> lr_level c = lv \<and> lr_code c = code) (rev (k_changes s)) of
         None \<Rightarrow> value_text (df_default d) | Some c \<Rightarrow> lr_new c) \<and>
    (\<forall>c\<in>set (k_changes s). registry (lr_key c) \<noteq> None \<and> lr_reason c \<noteq> [] \<and> lr_actor_kind c \<in> {''admin'', ''auto_tuner''}) \<and>
    distinct (map lr_id (k_changes s))"
proof -
  have ok: "config_ok s" using assms(1) by (rule config_reachable_ok)
  have d: "d \<in> set definitions" "df_key d = k" using assms(2) by (simp_all add: registry_iff)
  then have "by_table s d lv code = by_log s d lv code" using ok by (simp add: config_ok_def)
  then show ?thesis using ok d(2) by (auto simp: config_ok_def by_table_def by_log_def list_all_iff log_ok_def)
qed

text \<open>
  What the rest of the backend is promised of the settings it reads: every variable it asks for is
  there, of the type it asks for, and in the range of the registry.
\<close>

lemmas range_defs = taka_minor_def km_metres_def

lemma radius_entries:
  "registry ''discovery.base_radius'' = Some (tunable ''discovery.base_radius'' KindDistance 5000 True 1000 25000)"
  "registry ''discovery.expansion_step'' = Some (tunable ''discovery.expansion_step'' KindDistance 5000 True 1000 10000)"
  "registry ''discovery.max_expansions'' = Some (tunable ''discovery.max_expansions'' KindCount 4 False 0 10)"
  "registry ''discovery.min_merchants'' = Some (tunable ''discovery.min_merchants'' KindCount 5 False 1 50)"
  "registry ''discovery.auto_expand'' = Some (switch ''discovery.auto_expand'' False False)"
  "registry ''discovery.division_ceiling'' = Some (switch ''discovery.division_ceiling'' True True)"
  by code_simp+

lemma pricing_entries:
  "registry ''pricing.delivery_base'' = Some (tunable ''pricing.delivery_base'' KindMoney 4000 True 1000 20000)"
  "registry ''pricing.delivery_per_km'' = Some (tunable ''pricing.delivery_per_km'' KindMoney 1000 True 200 5000)"
  "registry ''pricing.free_delivery_threshold'' = Some (tunable ''pricing.free_delivery_threshold'' KindMoney 50000 True 10000 500000)"
  "registry ''pricing.expansion_multiplier'' = Some \<lparr>df_key = ''pricing.expansion_multiplier'', df_kind = KindRatio,
     df_default = ratio_value (Fin (3 / 2)), df_auto_tunable = True, df_immutable = False,
     df_min = ratio_value (Fin 1), df_max = ratio_value (Fin 3)\<rparr>"
  by code_simp+

lemma dispatch_entries:
  "registry ''dispatch.short_distance_max'' = Some (tunable ''dispatch.short_distance_max'' KindDistance 5000 True 1000 15000)"
  "registry ''dispatch.long_distance_max'' = Some (tunable ''dispatch.long_distance_max'' KindDistance 25000 True 5000 100000)"
  "registry ''dispatch.partner_radius'' = Some (tunable ''dispatch.partner_radius'' KindDistance 7000 True 1000 30000)"
  "registry ''dispatch.assignment_timeout'' = Some (tunable ''dispatch.assignment_timeout'' KindDuration 30 False 10 300)"
  "registry ''dispatch.max_concurrent_jobs'' = Some (tunable ''dispatch.max_concurrent_jobs'' KindCount 3 False 1 10)"
  "registry ''order.cancellation_window'' = Some (tunable ''order.cancellation_window'' KindDuration 120 False 0 900)"
  "registry ''order.cod_limit'' = Some (tunable ''order.cod_limit'' KindMoney 500000 True 50000 5000000)"
  by code_simp+

lemma auth_entries:
  "registry ''auth.otp_requests_per_hour'' = Some (tunable ''auth.otp_requests_per_hour'' KindCount 5 False 1 20)"
  "registry ''auth.otp_verify_attempts'' = Some (tunable ''auth.otp_verify_attempts'' KindCount 5 False 3 10)"
  "registry ''auth.otp_lockout_window'' = Some (tunable ''auth.otp_lockout_window'' KindDuration 900 False 60 3600)"
  "registry ''auth.otp_ttl'' = Some (tunable ''auth.otp_ttl'' KindDuration 300 False 60 600)"
  "registry ''auth.access_token_ttl'' = Some (tunable ''auth.access_token_ttl'' KindDuration 900 False 300 3600)"
  "registry ''auth.refresh_token_ttl'' = Some (tunable ''auth.refresh_token_ttl'' KindDuration 5184000 False 86400 15552000)"
  "registry ''auth.max_sessions_per_user'' = Some (tunable ''auth.max_sessions_per_user'' KindCount 5 False 1 20)"
  by code_simp+

text \<open>Every whole number a reader asks for.\<close>

lemmas whole_settings =
  radius_entries(1-4) [THEN [2] setting_tunable, simplified]
  pricing_entries(1-3) [THEN [2] setting_tunable, simplified]
  dispatch_entries [THEN [2] setting_tunable, simplified]
  auth_entries [THEN [2] setting_tunable, simplified]

lemmas switch_settings = radius_entries(5,6) [THEN [2] setting_switch, simplified]

lemma multiplier_setting:
  "good_settings r \<Longrightarrow> \<exists>x. resolved_ratio r ''pricing.expansion_multiplier'' = Inr x \<and>
     (x = NaN \<or> (\<exists>m. x = Fin m \<and> 1 \<le> m \<and> m \<le> 3))"
  by (rule setting_ratio [OF _ pricing_entries(4)]) simp_all

end
