(* ===== verification/Config_Example.thy ===== *)
theory Config_Example
  imports Config_Safety Ops
begin

text \<open>
  A concrete history of settings, which the theorems of \<open>Config_Safety\<close> are applied to: an
  administrator sets the base fee of an area, and one sets a multiplier that is not a number.
\<close>

section \<open>Running in a quiet world\<close>

definition an_entropy :: "nat list" where "an_entropy = replicate 10 0"

definition quiet_config :: "config_store \<Rightarrow> config_store world" where
  "quiet_config s = quiet an_entropy s 0 0 0"

lemma quiet_step:
  assumes "config_reachable s"
  shows "config_reachable (w_store (snd (run_config q (quiet bytes s c r d))))"
proof -
  obtain f where f: "config_history f" "s = f no_overrides" using assms by (auto simp: config_reachable_def)
  let ?w = "quiet bytes s c r d"
  have "config_history (\<lambda>t. w_store (snd (run_config q (?w\<lparr>w_store := t\<rparr>))))"
    by (rule config_request) (simp add: quiet_def config_nothing)
  from config_later [OF f(1) this] have "config_history (\<lambda>t. w_store (snd (run_config q (?w\<lparr>w_store := f t\<rparr>))))" .
  moreover have "w_store (snd (run_config q ?w)) = w_store (snd (run_config q (?w\<lparr>w_store := f no_overrides\<rparr>)))"
    by (simp add: quiet_def f(2))
  ultimately show ?thesis unfolding config_reachable_def by blast
qed

section \<open>A dearer area\<close>

definition base_fee :: config_def where
  "base_fee = tunable ''pricing.delivery_base'' KindMoney (taka_minor 40) True (taka_minor 10) (taka_minor 200)"

definition dhanmondi :: scope where "dhanmondi = \<lparr>sc_level = LevelArea, sc_code = ''dhanmondi''\<rparr>"

definition dearer :: config_store where
  "dearer = \<lparr>k_overrides = [\<lparr>cr_key = ''pricing.delivery_base'', cr_level = ''area'', cr_code = ''dhanmondi'',
       cr_value = ''5000'', cr_pinned = False\<rparr>],
     k_changes = [\<lparr>lr_id = ''cfg_Y7FKPX6A000000000000'', lr_key = ''pricing.delivery_base'', lr_level = ''area'',
       lr_code = ''dhanmondi'', lr_old = ''4000'', lr_new = ''5000'', lr_actor_kind = ''admin'', lr_actor_id = ''adm'',
       lr_reason = ''busy'', lr_at = 0\<rparr>]\<rparr>"

lemma dearer_reads:
  "parse_scope ''area'' ''dhanmondi'' = Inr dhanmondi" "lookup ''pricing.delivery_base'' = Inr base_fee"
  "trim_space ''pricing.delivery_base'' = ''pricing.delivery_base''" "trim_space ''busy'' = ''busy''"
  "parse_value KindMoney ''5000'' = Inr (whole_value KindMoney 5000)"
  "new_id ''cfg'' (unix_milli 0) an_entropy = ''cfg_Y7FKPX6A000000000000''"
  unfolding base_fee_def dhanmondi_def an_entropy_def by code_simp+

lemma dearer_texts: "itoa 5000 = ''5000''" "itoa 4000 = ''4000''"
  by (simp_all add: itoa_def nat_digits.simps digit_char_def, code_simp+)

lemma money_text: "value_text (whole_value KindMoney n) = itoa n"
  by (simp add: value_text_def whole_value_def)

lemma base_fee_parts: "df_kind base_fee = KindMoney" "df_key base_fee = ''pricing.delivery_base''"
  "\<not> df_immutable base_fee" "df_default base_fee = whole_value KindMoney 4000"
  "in_bounds base_fee (whole_value KindMoney 5000) = None"
  by (simp_all add: base_fee_def tunable_def taka_minor_def in_bounds_def whole_value_def)

lemma set_dearer:
  "w_store (snd (run_config (CqSet (Some ''adm'') ''pricing.delivery_base'' ''area'' ''dhanmondi'' ''5000'' False ''busy'')
     (quiet_config no_overrides))) = dearer"
  by (simp add: dearer_reads dearer_texts money_text base_fee_parts quiet_config_def forget_config_def http_set_def run_ops
      run_quiet caller_id_def set_override_def current_value_def all_overrides_def save_override_def in_tx_def
      scan_overrides_def insert_change_def change_row_of_def upsert_row_def Let_def dearer_def no_overrides_def
      dhanmondi_def admin_actor_def
      cong: next_op_cong wrap_result_cong del: lookup_iff)

lemma dearer_reachable: "config_reachable dearer"
proof -
  have "config_reachable no_overrides" using config_nothing by (auto simp: config_reachable_def)
  from quiet_step [OF this] show ?thesis using set_dearer by (metis quiet_config_def)
qed

definition at_dhanmondi :: placement where
  "at_dhanmondi = \<lparr>pl_area = ''dhanmondi'', pl_district = ''dhaka'', pl_division = ''dhaka''\<rparr>"

theorem settings_in_bounds_witness:
  "\<exists>r v x. resolve_settings at_dhanmondi (quiet_config dearer) = (Inr r, v) \<and>
     resolved_value r ''pricing.delivery_base'' = Inr x \<and> cv_kind x = KindMoney \<and> cv_whole x \<le> 20000"
proof -
  obtain r v where run: "resolve_settings at_dhanmondi (quiet_config dearer) = (Inr r, v)"
    by (simp add: resolve_settings_def overrides_for_def quiet_config_def run_ops run_quiet)
  have reach: "config_reachable (w_store (quiet_config dearer))"
    using dearer_reachable by (simp add: quiet_config_def run_quiet)
  have calm: "config_history (w_others (quiet_config dearer) n)" for n
    using config_nothing by (simp add: quiet_config_def quiet_def)
  have top: "cv_whole (df_max base_fee) = 20000" by (simp add: base_fee_def tunable_def whole_value_def taka_minor_def)
  from settings_in_bounds [OF reach calm run dearer_reads(2)] show ?thesis
    using run unfolding base_fee_parts(1) top is_whole_kind_def by blast
qed

theorem audit_log_complete_witness:
  "(case find (\<lambda>c. lr_key c = ''pricing.delivery_base'' \<and> lr_level c = ''area'' \<and> lr_code c = ''dhanmondi'')
      (rev (k_changes dearer)) of None \<Rightarrow> ''4000'' | Some c \<Rightarrow> lr_new c) = ''5000'' \<and>
   distinct (map lr_id (k_changes dearer))"
  using audit_log_complete [OF dearer_reachable dearer_reads(2), of "''area''" "''dhanmondi''"]
  by (simp add: dearer_def row_is_def)

end
