(* ===== verification/Pricing_App.thy ===== *)
theory Pricing_App
  imports Pricing_Domain Money Config_Safety Config_Example
begin

text \<open>
  \<open>modules/pricing/application\<close>: the tariff in force at a place, read from the settings, and the
  fee and the receipt it answers, in words.  \<open>pricing_tariff\<close> runs on the configuration's tables, so
  that what is proved of every history of settings carries over to the prices.
\<close>

section \<open>The tariff in force\<close>

definition pricing_config_error :: "error \<Rightarrow> error" where
  "pricing_config_error e = wrap e KindUnavailable ''pricing_config_unavailable''
     ''We could not work out the delivery charge just now. Please try again.''"

definition tariff_error :: "pricing_err \<Rightarrow> error" where
  "tariff_error e = wrap (Sentinel (pricing_err_text e)) KindInternal ''pricing_config_invalid''
     ''Delivery is unavailable in this area. Please try again later.''"

definition quote_error :: "pricing_err \<Rightarrow> error" where
  "quote_error e = wrap (Sentinel (pricing_err_text e)) KindInvalid ''invalid_quote_request''
     ''We could not work out the delivery charge for that order.''"

definition setting_read :: "config_err + 'a \<Rightarrow> error + 'a" where
  "setting_read = lift_domain (\<lambda>e. pricing_config_error (config_sentinel e))"

definition tariff_of :: "resolved \<Rightarrow> error + tariff" where
  "tariff_of r =
     rbind (setting_read (resolved_int r ''pricing.delivery_base'')) (\<lambda>base.
     rbind (setting_read (resolved_int r ''pricing.delivery_per_km'')) (\<lambda>per_km.
     rbind (setting_read (resolved_ratio r ''pricing.expansion_multiplier'')) (\<lambda>multiplier.
     rbind (setting_read (resolved_int r ''pricing.free_delivery_threshold'')) (\<lambda>free_above.
       lift_domain tariff_error (new_tariff (taka base) (taka per_km) multiplier (taka free_above))))))"

definition pricing_tariff :: "placement \<Rightarrow> tariff config_op" where
  "pricing_tariff p = and_then (or_wrap pricing_config_error (resolve_settings p)) (\<lambda>r. lift_err (tariff_of r))"

section \<open>Texts\<close>

definition bn_items :: string where
  "bn_items = utf8 [0x09AA, 0x09A3, 0x09CD, 0x09AF, 0x09C7, 0x09B0, 0x0020, 0x09AE, 0x09CB, 0x099F]"

definition bn_delivery :: string where
  "bn_delivery = utf8 [0x09A1, 0x09C7, 0x09B2, 0x09BF, 0x09AD, 0x09BE, 0x09B0, 0x09BF, 0x0020, 0x099A, 0x09BE, 0x09B0, 0x09CD, 0x099C]"

definition bn_extra :: string where
  "bn_extra = utf8 [0x09A6, 0x09C2, 0x09B0, 0x09A4, 0x09CD, 0x09AC, 0x09C7, 0x09B0, 0x0020, 0x099C, 0x09A8, 0x09CD, 0x09AF, 0x0020,
     0x0985, 0x09A4, 0x09BF, 0x09B0, 0x09BF, 0x0995, 0x09CD, 0x09A4]"

definition bn_free :: string where
  "bn_free = utf8 [0x09AB, 0x09CD, 0x09B0, 0x09BF, 0x0020, 0x09A1, 0x09C7, 0x09B2, 0x09BF, 0x09AD, 0x09BE, 0x09B0, 0x09BF]"

definition bn_total :: string where
  "bn_total = utf8 [0x09B8, 0x09B0, 0x09CD, 0x09AC, 0x09AE, 0x09CB, 0x099F]"

definition bn_is_free :: string where
  "bn_is_free = utf8 [0x098F, 0x0987, 0x0020, 0x0985, 0x09B0, 0x09CD, 0x09A1, 0x09BE, 0x09B0, 0x09C7, 0x0020, 0x09A1, 0x09C7, 0x09B2,
     0x09BF, 0x09AD, 0x09BE, 0x09B0, 0x09BF, 0x0020, 0x09AB, 0x09CD, 0x09B0, 0x09BF, 0x0964]"

definition bn_more :: string where
  "bn_more = utf8 [0x0986, 0x09B0, 0x0020]"

definition bn_to_free :: string where
  "bn_to_free = utf8 [0x0020, 0x0995, 0x09BF, 0x09A8, 0x09B2, 0x09C7, 0x0020, 0x09A1, 0x09C7, 0x09B2, 0x09BF, 0x09AD, 0x09BE, 0x09B0,
     0x09BF, 0x0020, 0x09AB, 0x09CD, 0x09B0, 0x09BF, 0x0964]"

definition bn_far :: string where
  "bn_far = utf8 [0x09A6, 0x09C2, 0x09B0, 0x09C7, 0x09B0, 0x0020, 0x09A6, 0x09CB, 0x0995, 0x09BE, 0x09A8, 0x0020, 0x09AC, 0x09C7,
     0x099B, 0x09C7, 0x0020, 0x09A8, 0x09C7, 0x0993, 0x09AF, 0x09BC, 0x09BE, 0x09AF, 0x09BC, 0x0020, 0x09A1, 0x09C7,
     0x09B2, 0x09BF, 0x09AD, 0x09BE, 0x09B0, 0x09BF, 0x0020, 0x099A, 0x09BE, 0x09B0, 0x09CD, 0x099C, 0x0020]"

definition bn_dearer :: string where
  "bn_dearer = utf8 [0x0020, 0x09AC, 0x09C7, 0x09B6, 0x09BF, 0x0964]"

fun row_label :: "row_key \<Rightarrow> string \<Rightarrow> string" where
  "row_label RowSubtotal lang = (if bengali lang then bn_items else ''Items'')"
| "row_label RowDelivery lang = (if bengali lang then bn_delivery else ''Delivery'')"
| "row_label RowExpansionSurcharge lang = (if bengali lang then bn_extra else ''Extra distance charge'')"
| "row_label RowFreeDelivery lang = (if bengali lang then bn_free else ''Free delivery'')"
| "row_label RowTotal lang = (if bengali lang then bn_total else ''Total'')"

definition notice :: "quote \<Rightarrow> string \<Rightarrow> string" where
  "notice q lang =
     (if qt_free q then if bengali lang then bn_is_free else ''Delivery is free on this order.''
      else if \<not> is_zero_money (qt_away q) then
        if bengali lang then bn_more @ display (qt_away q) @ bn_to_free
        else display (qt_away q) @ '' more for free delivery.''
      else if qt_expanded q \<and> \<not> is_zero_money (qt_surcharge q) then
        if bengali lang then bn_far @ display (qt_surcharge q) @ bn_dearer
        else ''Delivery costs '' @ display (qt_surcharge q) @ '' more because this shop is outside your usual area.''
      else [])"

section \<open>Answers\<close>

record quote_request =
  qr_subtotal_minor :: int64
  qr_distance_m :: f64
  qr_expansion_level :: int64
  qr_lang :: string

record fee_answer =
  fa_amount :: shown_money
  fa_expanded :: bool
  fa_surcharge :: shown_money

definition answer_fee :: "tariff \<Rightarrow> quote_request \<Rightarrow> error + fee_answer" where
  "answer_fee t q =
     (let expanded = qr_expansion_level q > 0
      in rbind (lift_domain quote_error (delivery_fee t (qr_distance_m q) expanded)) (\<lambda>(amount, surcharge).
           Inr \<lparr>fa_amount = to_money amount, fa_expanded = expanded, fa_surcharge = to_money surcharge\<rparr>))"

record shown_row =
  sw_key :: string
  sw_label :: string
  sw_amount :: shown_money

record shown_quote =
  sq_subtotal :: shown_money
  sq_delivery :: shown_money
  sq_before_waiver :: shown_money
  sq_surcharge :: shown_money
  sq_free :: bool
  sq_free_at :: shown_money
  sq_away :: shown_money
  sq_total :: shown_money
  sq_distance_m :: f64
  sq_expanded :: bool
  sq_rows :: "shown_row list"
  sq_notice :: string

definition show_quote :: "quote \<Rightarrow> string \<Rightarrow> shown_quote" where
  "show_quote q lang =
     \<lparr>sq_subtotal = to_money (qt_subtotal q), sq_delivery = to_money (qt_delivery q),
      sq_before_waiver = to_money (qt_before_waiver q), sq_surcharge = to_money (qt_surcharge q),
      sq_free = qt_free q, sq_free_at = to_money (qt_free_at q), sq_away = to_money (qt_away q),
      sq_total = to_money (qt_total q), sq_distance_m = qt_distance_m q, sq_expanded = qt_expanded q,
      sq_rows = map (\<lambda>(k, m). \<lparr>sw_key = row_key_text k, sw_label = row_label k lang, sw_amount = to_money m\<rparr>) (qt_rows q),
      sq_notice = notice q lang\<rparr>"

definition answer_quote :: "tariff \<Rightarrow> quote_request \<Rightarrow> error + shown_quote" where
  "answer_quote t q =
     rbind (lift_domain quote_error (price t (taka (qr_subtotal_minor q)) (qr_distance_m q) (qr_expansion_level q > 0)))
       (\<lambda>r. Inr (show_quote r (qr_lang q)))"

section \<open>Every history of settings gives a tariff\<close>

definition tariff_in_bounds :: "tariff \<Rightarrow> bool" where
  "tariff_in_bounds t \<longleftrightarrow> 1000 \<le> m_minor (tf_base t) \<and> m_minor (tf_base t) \<le> 20000 \<and>
     200 \<le> m_minor (tf_per_band t) \<and> m_minor (tf_per_band t) \<le> 5000 \<and>
     10000 \<le> m_minor (tf_free_above t) \<and> m_minor (tf_free_above t) \<le> 500000 \<and>
     (tf_multiplier t = NaN \<or> sane_tariff t)"

lemma tariff_of_good:
  assumes "good_settings r"
  shows "\<exists>t. tariff_of r = Inr t \<and> tariff_in_bounds t"
proof -
  obtain b where b: "resolved_int r ''pricing.delivery_base'' = Inr b" "1000 \<le> b" "b \<le> 20000"
    using whole_settings(5) [OF assms] by blast
  obtain k where k: "resolved_int r ''pricing.delivery_per_km'' = Inr k" "200 \<le> k" "k \<le> 5000"
    using whole_settings(6) [OF assms] by blast
  obtain f where f: "resolved_int r ''pricing.free_delivery_threshold'' = Inr f" "10000 \<le> f" "f \<le> 500000"
    using whole_settings(7) [OF assms] by blast
  obtain x where x: "resolved_ratio r ''pricing.expansion_multiplier'' = Inr x"
    "x = NaN \<or> (\<exists>m. x = Fin m \<and> 1 \<le> m \<and> m \<le> 3)" using multiplier_setting [OF assms] by blast
  have "\<not> flt x (Fin 1)" using x(2) by auto
  then have "tariff_of r = Inr \<lparr>tf_base = taka b, tf_per_band = taka k, tf_multiplier = x, tf_free_above = taka f\<rparr>"
    using b k f x(1) by (simp add: tariff_of_def setting_read_def lift_domain_def new_tariff_def)
  then show ?thesis using b k f x(2) by (auto simp: tariff_in_bounds_def sane_tariff_def)
qed

lemma pricing_tariff_now:
  assumes "config_reachable (w_store w)" "\<And>n. config_history (w_others w n)" "pricing_tariff p w = (r, v)"
  shows "case r of Inl e \<Rightarrow> \<exists>c. e = pricing_config_error c | Inr t \<Rightarrow> tariff_in_bounds t"
proof -
  obtain a u where run: "resolve_settings p w = (a, u)" by fastforce
  show ?thesis
  proof (cases a)
    case (Inl e)
    then show ?thesis using assms(3) run by (auto simp: pricing_tariff_def and_then_def or_wrap_def)
  next
    case (Inr x)
    then have "good_settings x" using resolve_settings_now [OF assms(1,2)] run by blast
    then obtain t where t: "tariff_of x = Inr t" "tariff_in_bounds t" using tariff_of_good by blast
    then have "r = Inr t" using assms(3) run Inr by (simp add: pricing_tariff_def and_then_def or_wrap_def lift_err_def)
    then show ?thesis using t(2) by simp
  qed
qed

text \<open>The parts of a quote that a checkout goes on with.\<close>

definition quote_sound :: "int64 \<Rightarrow> bool \<Rightarrow> shown_quote \<Rightarrow> bool" where
  "quote_sound s expanded q \<longleftrightarrow>
     sm_minor (sq_subtotal q) = s \<and> sm_minor (sq_total q) = s + sm_minor (sq_delivery q) \<and>
     (if sq_free q then sm_minor (sq_delivery q) = 0 \<and> \<not> expanded
      else sm_minor (sq_delivery q) = sm_minor (sq_before_waiver q)) \<and>
     1000 \<le> sm_minor (sq_before_waiver q) \<and> 0 \<le> sm_minor (sq_surcharge q) \<and>
     3 * sm_minor (sq_surcharge q) \<le> 2 * sm_minor (sq_before_waiver q) \<and>
     (\<not> expanded \<longrightarrow> sm_minor (sq_surcharge q) = 0)"

lemma price_ignores_multiplier: "price (t\<lparr>tf_multiplier := x\<rparr>) s d False = price t s d False"
  by (simp add: price_def delivery_fee_def fee_for_def free_delivery_applies_def away_from_free_def)

lemma quote_is_sound:
  assumes "sane_tariff t" "tariff_in_bounds t" "earthly d" "0 \<le> s" "s \<le> 1000000000000000"
  shows "\<exists>q. answer_quote t \<lparr>qr_subtotal_minor = s, qr_distance_m = Fin d, qr_expansion_level = level, qr_lang = lang\<rparr> = Inr q \<and>
    quote_sound s (0 < level) q"
proof -
  let ?full = "if 0 < level then full_fee t d else plain_fee t d"
  let ?extra = "if 0 < level then full_fee t d - plain_fee t d else 0"
  have fee: "delivery_fee t (Fin d) (0 < level) = Inr (taka ?full, taka ?extra)"
    using assms by (simp add: delivery_fee_eq)
  have free: "0 \<le> m_minor (tf_free_above t)" "m_minor (tf_free_above t) \<le> 1000000000000000"
    using assms(2) by (simp_all add: tariff_in_bounds_def)
  obtain q where q: "price t (taka s) (Fin d) (0 < level) = Inr q"
    "qt_free q \<longrightarrow> \<not> 0 < level" "qt_delivery q = taka (if qt_free q then 0 else ?full)"
    "qt_total q = taka (s + m_minor (qt_delivery q))"
    using receipt_parts [OF assms(1,3-5) refl free, of "0 < level"] fee by auto
  have "qt_subtotal q = taka s" "qt_before_waiver q = taka ?full" "qt_surcharge q = taka ?extra"
    using q(1) fee by (auto simp: price_def Let_def split: if_splits)
  then show ?thesis
    using q full_fee_bounds [OF assms(1,3)] plain_fee_bounds [OF assms(1,3)] assms(2)
    by (auto simp: answer_quote_def lift_domain_def show_quote_def quote_sound_def tariff_in_bounds_def)
qed

text \<open>C18: In every history of settings, pricing at a place either says that the settings could not be read just
  now, and never that they are impossible, or has a tariff whose every quote is sound: the total is the
  goods and the delivery, free delivery is for local orders only, the fee is at least the least base fee
  and the surcharge of a widened search at most two thirds of it.  A multiplier that is not a number,
  which the bounds let through, is the exception for a widened search.\<close>

theorem quotes_in_every_history:
  assumes "config_reachable (w_store w)" "\<And>n. config_history (w_others w n)" "pricing_tariff p w = (r, v)"
    and "earthly d" "0 \<le> s" "s \<le> 1000000000000000"
  shows "case r of Inl e \<Rightarrow> code_of (Some e) = ''pricing_config_unavailable'' \<and> kind_of (Some e) = KindUnavailable
    | Inr t \<Rightarrow> (tf_multiplier t = NaN \<and> 0 < level) \<or>
        (\<exists>q. answer_quote t \<lparr>qr_subtotal_minor = s, qr_distance_m = Fin d, qr_expansion_level = level, qr_lang = lang\<rparr> = Inr q \<and>
           quote_sound s (0 < level) q)"
proof (cases r)
  case (Inl e)
  then show ?thesis using pricing_tariff_now [OF assms(1-3)] by (auto simp: pricing_config_error_def wrap_def)
next
  case (Inr t)
  then have t: "tariff_in_bounds t" using pricing_tariff_now [OF assms(1-3)] by simp
  show ?thesis
  proof (cases "tf_multiplier t = NaN")
    case False
    then show ?thesis using t quote_is_sound [OF _ t assms(4-6)] Inr by (simp add: tariff_in_bounds_def)
  next
    case True
    let ?t = "t\<lparr>tf_multiplier := Fin 1\<rparr>"
    have "sane_tariff ?t" "tariff_in_bounds ?t" using t by (simp_all add: tariff_in_bounds_def sane_tariff_def)
    from quote_is_sound [OF this assms(4-6), of level lang] show ?thesis
      using True Inr price_ignores_multiplier [of "Fin 1" t] by (cases "0 < level") (simp_all add: answer_quote_def)
  qed
qed

section \<open>A multiplier that is not a number\<close>

text \<open>The bounds and \<open>new_tariff\<close> accept it, and the fee of a widened search is then the least \<open>int64\<close>.\<close>

lemma nan_multiplier:
  assumes "registry ''pricing.expansion_multiplier'' = Some d"
  shows "parse_value KindRatio ''NaN'' = Inr (ratio_value NaN)" "in_bounds d (ratio_value NaN) = None"
    "\<not> is_negative b \<Longrightarrow> \<not> is_negative k \<Longrightarrow> \<exists>t. new_tariff b k NaN f = Inr t \<and>
       (earthly x \<longrightarrow> (\<exists>s. delivery_fee t (Fin x) True = Inr (taka (- (2 ^ 63)), s)))"
proof -
  show "parse_value KindRatio ''NaN'' = Inr (ratio_value NaN)" by code_simp
  show "in_bounds d (ratio_value NaN) = None" using assms pricing_entries(4) by (auto simp: in_bounds_def ratio_value_def)
  assume "\<not> is_negative b" "\<not> is_negative k"
  then show "\<exists>t. new_tariff b k NaN f = Inr t \<and>
       (earthly x \<longrightarrow> (\<exists>s. delivery_fee t (Fin x) True = Inr (taka (- (2 ^ 63)), s)))"
    by (auto simp: new_tariff_def delivery_fee_def bands_eq fee_for_def Let_def of_int64_def fl_def)
qed

text \<open>The area of \<open>Config_Example\<close>, whose base fee an administrator raised, priced.\<close>

theorem quotes_in_every_history_witness:
  "\<exists>t v. pricing_tariff at_dhanmondi (quiet_config dearer) = (Inr t, v) \<and>
     (\<exists>q. answer_quote t \<lparr>qr_subtotal_minor = 20000, qr_distance_m = Fin 1500, qr_expansion_level = 0, qr_lang = ''en''\<rparr> = Inr q \<and>
        quote_sound 20000 False q)"
proof -
  obtain r u where run: "resolve_settings at_dhanmondi (quiet_config dearer) = (Inr r, u)"
    by (simp add: resolve_settings_def overrides_for_def quiet_config_def run_ops run_quiet)
  have reach: "config_reachable (w_store (quiet_config dearer))"
    using dearer_reachable by (simp add: quiet_config_def run_quiet)
  have calm: "config_history (w_others (quiet_config dearer) n)" for n
    using config_nothing by (simp add: quiet_config_def quiet_def)
  obtain t where "tariff_of r = Inr t" using tariff_of_good resolve_settings_now [OF reach calm run] by blast
  then have tariff: "pricing_tariff at_dhanmondi (quiet_config dearer) = (Inr t, u)"
    by (simp add: pricing_tariff_def run_ops run)
  have "earthly 1500" by (simp add: earthly_def)
  from quotes_in_every_history [OF reach calm tariff this, of 20000 0 "''en''"] show ?thesis using tariff by simp
qed

end
