(* ===== verification/Cart_Domain.thy ===== *)
theory Cart_Domain
  imports Prelude GoStrings Float64 GoTime Money "HOL-Library.Multiset"
begin

text \<open>
  \<open>modules/cart/domain\<close>: one shop's goods in a customer's cart, merged and bounded as they are added,
  and what a revalidation finds: which lines can be ordered, at what price, and what stands in the way
  of checkout.
\<close>

section \<open>Lines\<close>

definition max_lines :: nat where "max_lines = 60"
definition max_quantity :: int64 where "max_quantity = 20"
definition max_line_note :: nat where "max_line_note = 200"

datatype cart_err =
  ErrDifferentMerchant | ErrCartNoMerchant | ErrCartNoUser | ErrQuantityRange | ErrTooManyLines | ErrNoSuchLine
  | ErrNoTarget | ErrNoteTooLong | ErrEmptyCart

fun cart_err_text :: "cart_err \<Rightarrow> string" where
  "cart_err_text ErrDifferentMerchant = ''a cart belongs to one shop''"
| "cart_err_text ErrCartNoMerchant = ''a cart must name the shop it belongs to''"
| "cart_err_text ErrCartNoUser = ''a cart must belong to someone''"
| "cart_err_text ErrQuantityRange = ''quantity must be between one and the per-line maximum''"
| "cart_err_text ErrTooManyLines = ''this cart already holds as many different things as it can''"
| "cart_err_text ErrNoSuchLine = ''that line is not in this cart''"
| "cart_err_text ErrNoTarget = ''a line must name what it is for''"
| "cart_err_text ErrNoteTooLong = ''that note is too long''"
| "cart_err_text ErrEmptyCart = ''the cart is empty''"

definition kind_item :: string where "kind_item = ''item''"
definition kind_combo :: string where "kind_combo = ''combo''"

record cart_option =
  ci_group_id :: string
  ci_option_id :: string
  ci_name :: string
  ci_price :: money

record cart_line =
  cl_id :: string
  cl_kind :: string
  cl_target_id :: string
  cl_name :: string
  cl_unit_price :: money
  cl_options :: "cart_option list"
  cl_quantity :: int64
  cl_note :: string

definition unit_total :: "cart_line \<Rightarrow> money" where
  "unit_total l = taka (foldl (\<lambda>minor x. add64 minor (m_minor (ci_price x))) (m_minor (cl_unit_price l)) (cl_options l))"

definition cart_line_total :: "cart_line \<Rightarrow> money" where
  "cart_line_total l = times_money (unit_total l) (cl_quantity l)"

definition option_key :: "cart_option \<Rightarrow> string" where
  "option_key x = ci_group_id x @ ''/'' @ ci_option_id x"

text \<open>The tally of one line's choices, counted down by the other's.\<close>

fun counted_down :: "(string \<Rightarrow> int) \<Rightarrow> cart_option list \<Rightarrow> bool" where
  "counted_down chosen [] = True"
| "counted_down chosen (x # xs) =
     (let left = chosen (option_key x) - 1 in if left < 0 then False else counted_down (chosen(option_key x := left)) xs)"

definition tally :: "cart_option list \<Rightarrow> string \<Rightarrow> int" where
  "tally xs = foldl (\<lambda>f x. f(option_key x := f (option_key x) + 1)) (\<lambda>_. 0) xs"

definition same_selection :: "cart_line \<Rightarrow> cart_line \<Rightarrow> bool" where
  "same_selection l other =
     (if cl_kind l \<noteq> cl_kind other \<or> cl_target_id l \<noteq> cl_target_id other \<or> cl_note l \<noteq> cl_note other then False
      else if length (cl_options l) \<noteq> length (cl_options other) then False
      else counted_down (tally (cl_options l)) (cl_options other))"

section \<open>The cart\<close>

record cart =
  bs_id :: string
  bs_user_id :: string
  bs_merchant_id :: string
  bs_address_id :: string
  bs_lat :: f64
  bs_lng :: f64
  bs_lines :: "cart_line list"
  bs_updated_at :: instant

definition new_cart :: "string \<Rightarrow> string \<Rightarrow> string \<Rightarrow> instant \<Rightarrow> cart_err + cart" where
  "new_cart cid user shop now =
     (if user = [] then Inl ErrCartNoUser
      else if shop = [] then Inl ErrCartNoMerchant
      else Inr \<lparr>bs_id = cid, bs_user_id = user, bs_merchant_id = shop, bs_address_id = [], bs_lat = Fin 0, bs_lng = Fin 0,
             bs_lines = [], bs_updated_at = now\<rparr>)"

definition is_empty_cart :: "cart \<Rightarrow> bool" where "is_empty_cart c \<longleftrightarrow> bs_lines c = []"

definition cart_count :: "cart \<Rightarrow> int64" where
  "cart_count c = foldl (\<lambda>n l. add64 n (cl_quantity l)) 0 (bs_lines c)"

definition cart_subtotal :: "cart \<Rightarrow> money" where
  "cart_subtotal c = taka (foldl (\<lambda>minor l. add64 minor (m_minor (cart_line_total l))) 0 (bs_lines c))"

definition valid_line :: "cart_line \<Rightarrow> cart_err option" where
  "valid_line l =
     (if cl_target_id l = [] \<or> (cl_kind l \<noteq> kind_item \<and> cl_kind l \<noteq> kind_combo) then Some ErrNoTarget
      else if cl_quantity l < 1 \<or> cl_quantity l > max_quantity then Some ErrQuantityRange
      else if length (cl_note l) > max_line_note then Some ErrNoteTooLong
      else None)"

text \<open>The first line with the same selection is given the quantity as well.\<close>

fun merge_line :: "cart_line list \<Rightarrow> cart_line \<Rightarrow> cart_err + cart_line list option" where
  "merge_line [] l = Inr None"
| "merge_line (x # xs) l =
     (if \<not> same_selection x l then rbind (merge_line xs l) (\<lambda>found. Inr (map_option ((#) x) found))
      else if add64 (cl_quantity x) (cl_quantity l) > max_quantity then Inl ErrQuantityRange
      else Inr (Some (x\<lparr>cl_quantity := add64 (cl_quantity x) (cl_quantity l)\<rparr> # xs)))"

definition cart_add :: "cart \<Rightarrow> string \<Rightarrow> cart_line \<Rightarrow> cart_err + cart" where
  "cart_add c shop l =
     (if shop \<noteq> bs_merchant_id c then Inl ErrDifferentMerchant
      else case valid_line l of Some e \<Rightarrow> Inl e
      | None \<Rightarrow> rbind (merge_line (bs_lines c) l) (\<lambda>found. case found of
            Some ls \<Rightarrow> Inr (c\<lparr>bs_lines := ls\<rparr>)
          | None \<Rightarrow> if length (bs_lines c) \<ge> max_lines then Inl ErrTooManyLines
              else Inr (c\<lparr>bs_lines := bs_lines c @ [l]\<rparr>)))"

fun drop_line :: "cart_line list \<Rightarrow> string \<Rightarrow> cart_line list option" where
  "drop_line [] k = None"
| "drop_line (x # xs) k = (if cl_id x \<noteq> k then map_option ((#) x) (drop_line xs k) else Some xs)"

definition cart_remove :: "cart \<Rightarrow> string \<Rightarrow> cart_err + cart" where
  "cart_remove c k = (case drop_line (bs_lines c) k of None \<Rightarrow> Inl ErrNoSuchLine | Some ls \<Rightarrow> Inr (c\<lparr>bs_lines := ls\<rparr>))"

fun put_quantity :: "cart_line list \<Rightarrow> string \<Rightarrow> int64 \<Rightarrow> cart_line list option" where
  "put_quantity [] k n = None"
| "put_quantity (x # xs) k n = (if cl_id x = k then Some (x\<lparr>cl_quantity := n\<rparr> # xs) else map_option ((#) x) (put_quantity xs k n))"

definition cart_set_quantity :: "cart \<Rightarrow> string \<Rightarrow> int64 \<Rightarrow> cart_err + cart" where
  "cart_set_quantity c k n =
     (if n = 0 then cart_remove c k
      else if n < 0 \<or> n > max_quantity then Inl ErrQuantityRange
      else case put_quantity (bs_lines c) k n of None \<Rightarrow> Inl ErrNoSuchLine | Some ls \<Rightarrow> Inr (c\<lparr>bs_lines := ls\<rparr>))"

definition cart_clear :: "cart \<Rightarrow> cart" where
  "cart_clear c = c\<lparr>bs_lines := []\<rparr>"

definition place_cart_at :: "cart \<Rightarrow> string \<Rightarrow> f64 \<Rightarrow> f64 \<Rightarrow> cart" where
  "place_cart_at c a lat lng = c\<lparr>bs_address_id := a, bs_lat := lat, bs_lng := lng\<rparr>"

definition has_address :: "cart \<Rightarrow> bool" where "has_address c \<longleftrightarrow> bs_address_id c \<noteq> []"

section \<open>Revalidation\<close>

datatype issue = IssueNone | IssuePriceChanged | IssueOutOfStock | IssueNotAvailableNow | IssueUnavailable | IssueRemoved

fun issue_code :: "issue \<Rightarrow> string" where
  "issue_code IssueNone = []"
| "issue_code IssuePriceChanged = ''price_changed''"
| "issue_code IssueOutOfStock = ''out_of_stock''"
| "issue_code IssueNotAvailableNow = ''not_available_now''"
| "issue_code IssueUnavailable = ''unavailable''"
| "issue_code IssueRemoved = ''removed''"

record current_thing =
  cu_found :: bool
  cu_orderable :: bool
  cu_reason :: string
  cu_unit_price :: money

record checked_line =
  ch_line :: cart_line
  ch_issue :: issue
  ch_unit_price :: money
  ch_orderable :: bool

definition issue_for :: "string \<Rightarrow> issue" where
  "issue_for reason = (if reason = ''out_of_stock'' then IssueOutOfStock
     else if reason = ''not_available_now'' then IssueNotAvailableNow else IssueUnavailable)"

definition check_line :: "cart_line \<Rightarrow> current_thing \<Rightarrow> checked_line" where
  "check_line l cur =
     (if \<not> cu_found cur then \<lparr>ch_line = l, ch_issue = IssueRemoved, ch_unit_price = money_zero_value, ch_orderable = False\<rparr>
      else if \<not> cu_orderable cur
        then \<lparr>ch_line = l, ch_issue = issue_for (cu_reason cur), ch_unit_price = cu_unit_price cur, ch_orderable = False\<rparr>
      else if compare_money (unit_total l) (cu_unit_price cur) \<noteq> 0
        then \<lparr>ch_line = l, ch_issue = IssuePriceChanged, ch_unit_price = cu_unit_price cur, ch_orderable = True\<rparr>
      else \<lparr>ch_line = l, ch_issue = IssueNone, ch_unit_price = cu_unit_price cur, ch_orderable = True\<rparr>)"

datatype blocker =
  BlockerNone | BlockerEmpty | BlockerNoAddress | BlockerShopUnavailable | BlockerShopClosed | BlockerOutsideDivision
  | BlockerBeyondRadius | BlockerLineProblems

fun blocker_code :: "blocker \<Rightarrow> string" where
  "blocker_code BlockerNone = []"
| "blocker_code BlockerEmpty = ''empty''"
| "blocker_code BlockerNoAddress = ''no_address''"
| "blocker_code BlockerShopUnavailable = ''shop_unavailable''"
| "blocker_code BlockerShopClosed = ''shop_closed''"
| "blocker_code BlockerOutsideDivision = ''outside_division''"
| "blocker_code BlockerBeyondRadius = ''beyond_radius''"
| "blocker_code BlockerLineProblems = ''line_problems''"

record cart_check =
  ck_lines :: "checked_line list"
  ck_blocker :: blocker
  ck_orderable :: bool

definition blocker_for :: "string \<Rightarrow> blocker" where
  "blocker_for reason = (if reason = ''outside_division'' then BlockerOutsideDivision else BlockerBeyondRadius)"

definition all_orderable :: "checked_line list \<Rightarrow> bool" where
  "all_orderable ls \<longleftrightarrow> list_all ch_orderable ls"

definition decide_cart :: "cart \<Rightarrow> bool \<Rightarrow> bool \<Rightarrow> bool \<Rightarrow> string \<Rightarrow> checked_line list \<Rightarrow> cart_check" where
  "decide_cart c shop_listed shop_open reachable reason ls =
     (let blocked = (\<lambda>b. \<lparr>ck_lines = ls, ck_blocker = b, ck_orderable = False\<rparr>)
      in if is_empty_cart c then blocked BlockerEmpty
         else if \<not> shop_listed then blocked BlockerShopUnavailable
         else if \<not> has_address c then blocked BlockerNoAddress
         else if \<not> reachable then blocked (blocker_for reason)
         else if \<not> shop_open then blocked BlockerShopClosed
         else if \<not> all_orderable ls then blocked BlockerLineProblems
         else \<lparr>ck_lines = ls, ck_blocker = BlockerNone, ck_orderable = True\<rparr>)"

definition priced_lines :: "checked_line list \<Rightarrow> money" where
  "priced_lines ls = taka (foldl (\<lambda>minor l. if ch_orderable l
     then add64 minor (m_minor (times_money (ch_unit_price l) (cl_quantity (ch_line l)))) else minor) 0 ls)"

section \<open>Properties\<close>

lemma tally_snoc: "tally (xs @ [x]) = (tally xs)(option_key x := tally xs (option_key x) + 1)"
  by (simp add: tally_def)

lemma tally_count: "tally xs k = int (count (mset (map option_key xs)) k)"
  by (induction xs rule: rev_induct) (auto simp: tally_snoc, simp add: tally_def)

lemma counted_down_iff:
  "counted_down (\<lambda>k. int (count M k)) xs \<longleftrightarrow> mset (map option_key xs) \<subseteq># M"
proof (induction xs arbitrary: M)
  case Nil
  show ?case by simp
next
  case (Cons x xs)
  let ?k = "option_key x"
  show ?case
  proof (cases "?k \<in># M")
    case True
    have down: "(\<lambda>k. int (count M k))(?k := int (count M ?k) - 1) = (\<lambda>k. int (count (M - {#?k#}) k))"
      using True by (auto simp: of_nat_diff Suc_leI)
    have "0 < count M ?k" using True by simp
    then have pos: "\<not> int (count M ?k) - 1 < 0" by linarith
    have "counted_down (\<lambda>k. int (count M k)) (x # xs) \<longleftrightarrow>
        counted_down ((\<lambda>k. int (count M k))(?k := int (count M ?k) - 1)) xs"
      using pos by (simp only: counted_down.simps Let_def if_False)
    then have "counted_down (\<lambda>k. int (count M k)) (x # xs) \<longleftrightarrow> mset (map option_key xs) \<subseteq># M - {#?k#}"
      by (simp only: down Cons.IH)
    then show ?thesis using True by (simp add: insert_subset_eq_iff)
  next
    case False
    then have "int (count M ?k) - 1 < 0" by (simp add: not_in_iff)
    then show ?thesis using False by (auto simp: Let_def dest: mset_subset_eqD)
  qed
qed

text \<open>Two lines are merged exactly when they are for the same thing with the same note and the same choices,
  however often each and in whatever order.\<close>

theorem same_selection_exact:
  "same_selection l m \<longleftrightarrow> cl_kind l = cl_kind m \<and> cl_target_id l = cl_target_id m \<and> cl_note l = cl_note m \<and>
     mset (map option_key (cl_options l)) = mset (map option_key (cl_options m))"
proof -
  let ?l = "mset (map option_key (cl_options l))" and ?m = "mset (map option_key (cl_options m))"
  have "tally (cl_options l) = (\<lambda>k. int (count ?l k))" using tally_count by blast
  then have "counted_down (tally (cl_options l)) (cl_options m) \<longleftrightarrow> ?m \<subseteq># ?l" by (simp add: counted_down_iff)
  moreover have "size ?l = size ?m \<longleftrightarrow> length (cl_options l) = length (cl_options m)" by simp
  moreover have "size ?l = size ?m \<Longrightarrow> ?m \<subseteq># ?l \<longleftrightarrow> ?l = ?m" by (metis subset_mset.order_refl mset_subset_size subset_mset.order_iff_strict nat_neq_iff)
  ultimately show ?thesis unfolding same_selection_def by (auto dest: arg_cong [where f = size])
qed

section \<open>Bounds\<close>

definition sound_line :: "cart_line \<Rightarrow> bool" where
  "sound_line l \<longleftrightarrow> 1 \<le> cl_quantity l \<and> cl_quantity l \<le> 20 \<and> cl_target_id l \<noteq> [] \<and>
     (cl_kind l = kind_item \<or> cl_kind l = kind_combo)"

definition sound_lines :: "cart_line list \<Rightarrow> bool" where
  "sound_lines ls \<longleftrightarrow> length ls \<le> 60 \<and> list_all sound_line ls"

lemma merge_sound:
  "merge_line xs l = Inr (Some ys) \<Longrightarrow> list_all sound_line xs \<Longrightarrow> sound_line l \<Longrightarrow> list_all sound_line ys \<and> length ys = length xs"
proof (induction xs arbitrary: ys)
  case Nil
  then show ?case by simp
next
  case (Cons x xs)
  have "add64 (cl_quantity x) (cl_quantity l) = cl_quantity x + cl_quantity l"
    using Cons.prems by (simp add: add64_def sound_line_def fits64_small)
  then show ?case using Cons by (auto simp: rbind_Inr_iff max_quantity_def sound_line_def split: if_splits)
qed

lemma add_sound: "cart_add c shop l = Inr d \<Longrightarrow> sound_lines (bs_lines c) \<Longrightarrow> sound_lines (bs_lines d)"
proof -
  assume add: "cart_add c shop l = Inr d" and c: "sound_lines (bs_lines c)"
  have v: "valid_line l = None" using add by (auto simp: cart_add_def split: if_splits option.splits)
  then have l: "sound_line l" by (auto simp: valid_line_def sound_line_def max_quantity_def split: if_splits)
  obtain found where m: "merge_line (bs_lines c) l = Inr found"
    using add v by (auto simp: cart_add_def rbind_Inr_iff split: if_splits)
  show ?thesis
  proof (cases found)
    case None
    then show ?thesis using add v m c l by (auto simp: cart_add_def sound_lines_def max_lines_def split: if_splits)
  next
    case (Some ys)
    then show ?thesis using add v m merge_sound [of "bs_lines c" l ys] c l
      by (auto simp: cart_add_def sound_lines_def split: if_splits)
  qed
qed

lemma drop_sound: "drop_line xs k = Some ys \<Longrightarrow> set ys \<subseteq> set xs \<and> length ys \<le> length xs"
proof (induction xs arbitrary: ys)
  case (Cons x xs)
  then show ?case by (cases "cl_id x = k") fastforce+
qed simp

lemma remove_sound: "cart_remove c k = Inr d \<Longrightarrow> sound_lines (bs_lines c) \<Longrightarrow> sound_lines (bs_lines d)"
  using drop_sound by (fastforce simp: cart_remove_def sound_lines_def list_all_iff split: option.splits)

lemma put_sound:
  "put_quantity xs k n = Some ys \<Longrightarrow> list_all sound_line xs \<Longrightarrow> 1 \<le> n \<Longrightarrow> n \<le> 20 \<Longrightarrow> list_all sound_line ys \<and> length ys = length xs"
  by (induction xs arbitrary: ys) (auto simp: sound_line_def split: if_splits)

lemma quantity_sound: "cart_set_quantity c k n = Inr d \<Longrightarrow> sound_lines (bs_lines c) \<Longrightarrow> sound_lines (bs_lines d)"
  using remove_sound put_sound
  by (fastforce simp: cart_set_quantity_def sound_lines_def max_quantity_def split: if_splits option.splits)

end
