(* ===== verification/Catalogue_Domain.thy ===== *)
theory Catalogue_Domain
  imports Schedule Money
begin

text \<open>
  \<open>modules/catalogue/domain\<close> and its contract: what a shop sells, and what a shop of each kind may put
  on its menu.  The kind of a shop and the unit of sale are texts, as in the code.  An error carries its
  sentinel; the details some errors append to their text are left out.
\<close>

section \<open>Errors and kinds of shop\<close>

datatype catalogue_err =
    ErrEmptyMerchant | ErrEmptyEntryName | ErrEntryNameTooLong | ErrEntryTooLong | ErrUnknownMerchantType
  | ErrNegativePrice | ErrCategoryNotFound | ErrItemNotFound | ErrComboNotFound | ErrWrongCategory | ErrInvalidImageURL
  | ErrAddOnsNotAllowed | ErrUnitRequired | ErrUnitNotAllowed | ErrPrescriptionNotAllowed | ErrUnknownUnit
  | ErrStockNotTracked | ErrNegativeStock | ErrNoCategory
  | ErrVariantsNotAllowed | ErrNoOptions | ErrTooManyOptions | ErrInvalidChoiceRange | ErrDuplicateOption
  | ErrCombosNotAllowed | ErrEmptyCombo | ErrComboTooLarge | ErrInvalidQuantity | ErrDuplicateComboLine

fun catalogue_err_text :: "catalogue_err \<Rightarrow> string" where
  "catalogue_err_text ErrEmptyMerchant = ''a shop is required''"
| "catalogue_err_text ErrEmptyEntryName = ''a name is required''"
| "catalogue_err_text ErrEntryNameTooLong = ''that name is too long''"
| "catalogue_err_text ErrEntryTooLong = ''that text is too long''"
| "catalogue_err_text ErrUnknownMerchantType = ''unknown shop type''"
| "catalogue_err_text ErrNegativePrice = ''a price cannot be negative''"
| "catalogue_err_text ErrCategoryNotFound = ''category not found''"
| "catalogue_err_text ErrItemNotFound = ''item not found''"
| "catalogue_err_text ErrComboNotFound = ''combo not found''"
| "catalogue_err_text ErrWrongCategory = ''that category belongs to another shop''"
| "catalogue_err_text ErrInvalidImageURL = ''that image address is not valid''"
| "catalogue_err_text ErrAddOnsNotAllowed = ''this kind of shop does not use add-ons''"
| "catalogue_err_text ErrUnitRequired =
     ''please say how this is sold '' @ utf8 [0x2014] @ '' per kg, per piece, and so on''"
| "catalogue_err_text ErrUnitNotAllowed = ''this kind of shop does not sell by unit''"
| "catalogue_err_text ErrPrescriptionNotAllowed = ''only a pharmacy can require a prescription''"
| "catalogue_err_text ErrUnknownUnit = ''unknown unit of sale''"
| "catalogue_err_text ErrStockNotTracked = ''this kind of shop does not count stock''"
| "catalogue_err_text ErrNegativeStock = ''a stock count cannot be negative''"
| "catalogue_err_text ErrNoCategory = ''please choose a category''"
| "catalogue_err_text ErrVariantsNotAllowed = ''this kind of shop does not use variants''"
| "catalogue_err_text ErrNoOptions = ''a group of choices needs at least one option''"
| "catalogue_err_text ErrTooManyOptions = ''too many options in one group''"
| "catalogue_err_text ErrInvalidChoiceRange = ''those choice limits do not make sense''"
| "catalogue_err_text ErrDuplicateOption = ''two options in that group have the same name''"
| "catalogue_err_text ErrCombosNotAllowed = ''this kind of shop does not offer combos''"
| "catalogue_err_text ErrEmptyCombo = ''a combo needs at least two items''"
| "catalogue_err_text ErrComboTooLarge = ''that combo has too many items''"
| "catalogue_err_text ErrInvalidQuantity = ''that quantity is not valid''"
| "catalogue_err_text ErrDuplicateComboLine = ''that item is in the combo twice''"

definition max_entry_name_length :: nat where "max_entry_name_length = 120"
definition max_description_length :: nat where "max_description_length = 1000"
definition max_short_text_length :: nat where "max_short_text_length = 60"

definition kind_restaurant :: string where "kind_restaurant = ''restaurant''"
definition kind_grocery :: string where "kind_grocery = ''grocery''"
definition kind_pharmacy :: string where "kind_pharmacy = ''pharmacy''"

definition all_merchant_types :: "string list" where
  "all_merchant_types = [kind_restaurant, kind_grocery, kind_pharmacy]"

definition parse_merchant_type :: "string \<Rightarrow> catalogue_err + string" where
  "parse_merchant_type s = (case find (\<lambda>known. trim_space (to_lower s) = known) all_merchant_types of
     Some known \<Rightarrow> Inr known | None \<Rightarrow> Inl ErrUnknownMerchantType)"

record capabilities =
  cp_variants :: bool
  cp_add_ons :: bool
  cp_combos :: bool
  cp_tracks_stock :: bool
  cp_requires_unit :: bool
  cp_prescriptions :: bool

definition no_capabilities :: capabilities where
  "no_capabilities = \<lparr>cp_variants = False, cp_add_ons = False, cp_combos = False, cp_tracks_stock = False,
     cp_requires_unit = False, cp_prescriptions = False\<rparr>"

definition capabilities_for :: "string \<Rightarrow> capabilities" where
  "capabilities_for t =
     (if t = kind_restaurant then no_capabilities\<lparr>cp_variants := True, cp_add_ons := True, cp_combos := True\<rparr>
      else if t = kind_grocery
        then no_capabilities\<lparr>cp_variants := True, cp_combos := True, cp_tracks_stock := True, cp_requires_unit := True\<rparr>
      else if t = kind_pharmacy
        then no_capabilities\<lparr>cp_variants := True, cp_tracks_stock := True, cp_requires_unit := True, cp_prescriptions := True\<rparr>
      else no_capabilities)"

section \<open>Names, texts and pictures\<close>

definition trimmed_name :: "string \<Rightarrow> catalogue_err + string" where
  "trimmed_name raw =
     (let name = trim_space raw
      in if name = [] then Inl ErrEmptyEntryName
         else if rune_count name > max_entry_name_length then Inl ErrEntryNameTooLong else Inr name)"

definition short_text :: "string \<Rightarrow> catalogue_err + string" where
  "short_text raw = (let v = trim_space raw
     in if rune_count v > max_short_text_length then Inl ErrEntryTooLong else Inr v)"

definition normalise_image_url :: "string \<Rightarrow> catalogue_err + string" where
  "normalise_image_url raw =
     (let image = trim_space raw
      in if image = [] then Inr []
         else if has_prefix image ''//'' then Inl ErrInvalidImageURL
         else if has_prefix image ''/'' then Inr image
         else if has_prefix image ''https://'' \<and> length image > length ''https://'' then Inr image
         else Inl ErrInvalidImageURL)"

definition long_text :: "string \<Rightarrow> catalogue_err + string" where
  "long_text raw = (let v = trim_space raw
     in if rune_count v > max_description_length then Inl ErrEntryTooLong else Inr v)"

section \<open>Categories\<close>

record menu_category =
  mg_id :: string
  mg_merchant_id :: string
  mg_name :: string
  mg_sort_order :: int64
  mg_active :: bool

definition not_below_zero :: "int64 \<Rightarrow> int64" where
  "not_below_zero n = (if n < 0 then 0 else n)"

definition new_category :: "string \<Rightarrow> string \<Rightarrow> string \<Rightarrow> int64 \<Rightarrow> catalogue_err + menu_category" where
  "new_category k shop raw sort_order =
     (if trim_space shop = [] then Inl ErrEmptyMerchant
      else rbind (trimmed_name raw) (\<lambda>name. Inr \<lparr>mg_id = k, mg_merchant_id = shop, mg_name = name,
             mg_sort_order = not_below_zero sort_order, mg_active = True\<rparr>))"

definition category_with_name :: "menu_category \<Rightarrow> string \<Rightarrow> catalogue_err + menu_category" where
  "category_with_name c name = rbind (new_category (mg_id c) (mg_merchant_id c) name (mg_sort_order c))
     (\<lambda>renamed. Inr (renamed\<lparr>mg_active := mg_active c\<rparr>))"

definition category_with_sort_order :: "menu_category \<Rightarrow> int64 \<Rightarrow> menu_category" where
  "category_with_sort_order c n = c\<lparr>mg_sort_order := not_below_zero n\<rparr>"

definition category_with_active :: "menu_category \<Rightarrow> bool \<Rightarrow> menu_category" where
  "category_with_active c b = c\<lparr>mg_active := b\<rparr>"

section \<open>Groups of choices\<close>

text \<open>
  A \<open>VariantOption\<close> with the difference it makes to the price; an \<open>AddOn\<close> has the same fields and its
  own price.  An \<open>AddOnGroup\<close> is a group that requires nothing.
\<close>

record choice =
  vo_id :: string
  vo_name :: string
  vo_price :: money
  vo_available :: bool

type_synonym add_on = choice

record choice_group =
  vg_id :: string
  vg_name :: string
  vg_required :: bool
  vg_min :: int64
  vg_max :: int64
  vg_options :: "choice list"
  vg_sort_order :: int64

type_synonym add_on_group = choice_group

definition max_options_per_group :: int where "max_options_per_group = 20"

definition new_variant_option :: "string \<Rightarrow> string \<Rightarrow> money \<Rightarrow> catalogue_err + choice" where
  "new_variant_option k raw delta = rbind (trimmed_name raw) (\<lambda>name.
     Inr \<lparr>vo_id = k, vo_name = name, vo_price = delta, vo_available = True\<rparr>)"

fun twice_named :: "string list \<Rightarrow> string list \<Rightarrow> bool" where
  "twice_named seen [] = False"
| "twice_named seen (name # names) = (if to_lower name \<in> set seen then True else twice_named (to_lower name # seen) names)"

definition check_option_names :: "int \<Rightarrow> string list \<Rightarrow> catalogue_err option" where
  "check_option_names n names =
     (if n = 0 then Some ErrNoOptions
      else if n > max_options_per_group then Some ErrTooManyOptions
      else if twice_named [] names then Some ErrDuplicateOption else None)"

definition option_names :: "choice list \<Rightarrow> string list" where
  "option_names = map vo_name"

definition new_variant_group :: "string \<Rightarrow> string \<Rightarrow> bool \<Rightarrow> int64 \<Rightarrow> int64 \<Rightarrow> choice list \<Rightarrow> catalogue_err + choice_group" where
  "new_variant_group k raw required min_choices max_choices options =
     rbind (trimmed_name raw) (\<lambda>name.
     case check_option_names (int (length options)) (option_names options) of Some e \<Rightarrow> Inl e
     | None \<Rightarrow>
         let most = (if max_choices \<le> 0 then 1 else max_choices);
             fewest = not_below_zero (if required \<and> min_choices < 1 then 1 else min_choices)
         in if fewest > most \<or> most > int (length options) then Inl ErrInvalidChoiceRange
            else Inr \<lparr>vg_id = k, vg_name = name, vg_required = required, vg_min = fewest, vg_max = most,
                   vg_options = options, vg_sort_order = 0\<rparr>)"

definition new_add_on :: "string \<Rightarrow> string \<Rightarrow> money \<Rightarrow> catalogue_err + add_on" where
  "new_add_on k raw price = rbind (trimmed_name raw) (\<lambda>name.
     case must_be_non_negative price of Inl _ \<Rightarrow> Inl ErrNegativePrice
     | Inr _ \<Rightarrow> Inr \<lparr>vo_id = k, vo_name = name, vo_price = price, vo_available = True\<rparr>)"

definition new_add_on_group :: "string \<Rightarrow> string \<Rightarrow> int64 \<Rightarrow> int64 \<Rightarrow> add_on list \<Rightarrow> catalogue_err + add_on_group" where
  "new_add_on_group k raw min_choices max_choices options =
     rbind (trimmed_name raw) (\<lambda>name.
     case check_option_names (int (length options)) (map vo_name options) of Some e \<Rightarrow> Inl e
     | None \<Rightarrow>
         let most = (if max_choices \<le> 0 \<or> max_choices > int (length options) then int (length options) else max_choices);
             fewest = not_below_zero min_choices
         in if fewest > most then Inl ErrInvalidChoiceRange
            else Inr \<lparr>vg_id = k, vg_name = name, vg_required = False, vg_min = fewest, vg_max = most,
                   vg_options = options, vg_sort_order = 0\<rparr>)"

section \<open>Units, stock, availability\<close>

definition all_units :: "string list" where
  "all_units = [''piece'', ''kg'', ''g'', ''litre'', ''ml'', ''pack'', ''strip'', ''bottle'']"

definition parse_unit :: "string \<Rightarrow> catalogue_err + string" where
  "parse_unit s = (case find (\<lambda>known. trim_space (to_lower s) = known) all_units of
     Some known \<Rightarrow> Inr known | None \<Rightarrow> Inl ErrUnknownUnit)"

record stock =
  st_tracked :: bool
  st_quantity :: int64

definition untracked :: stock where
  "untracked = \<lparr>st_tracked = False, st_quantity = 0\<rparr>"

definition new_stock :: "int64 \<Rightarrow> catalogue_err + stock" where
  "new_stock n = (if n < 0 then Inl ErrNegativeStock else Inr \<lparr>st_tracked = True, st_quantity = n\<rparr>)"

definition in_stock :: "stock \<Rightarrow> bool" where
  "in_stock s \<longleftrightarrow> \<not> st_tracked s \<or> st_quantity s > 0"

record availability =
  av_always :: bool
  av_windows :: weekly

definition always_available :: availability where
  "always_available = \<lparr>av_always = True, av_windows = no_week\<rparr>"

definition new_availability :: "(int \<times> window list) list \<Rightarrow> schedule_err + availability" where
  "new_availability days = rbind (new_weekly days 0) (\<lambda>week.
     if weekly_is_empty week then Inl ErrInvalidWindow else Inr \<lparr>av_always = False, av_windows = week\<rparr>)"

definition available_at :: "availability \<Rightarrow> instant \<Rightarrow> bool" where
  "available_at a t = (if av_always a then True else covers (av_windows a) t)"

definition encode_availability :: "availability \<Rightarrow> (string \<times> string list) list" where
  "encode_availability a = (if av_always a then [] else encode_week (av_windows a))"

definition decode_availability :: "(string \<times> string list) list \<Rightarrow> schedule_err + availability" where
  "decode_availability encoded =
     (if encoded = [] then Inr always_available
      else rbind (decode_week encoded 0) (\<lambda>week. Inr \<lparr>av_always = False, av_windows = week\<rparr>))"

section \<open>Items\<close>

record attributes =
  at_vegetarian :: bool
  at_minutes :: int64
  at_unit :: string
  at_pack_size :: string
  at_brand :: string
  at_generic_name :: string
  at_strength :: string
  at_prescription :: bool

definition no_attributes :: attributes where
  "no_attributes = \<lparr>at_vegetarian = False, at_minutes = 0, at_unit = [], at_pack_size = [], at_brand = [],
     at_generic_name = [], at_strength = [], at_prescription = False\<rparr>"

record item =
  it_id :: string
  it_merchant_id :: string
  it_merchant_type :: string
  it_category_id :: string
  it_name :: string
  it_description :: string
  it_image_url :: string
  it_price :: money
  it_attributes :: attributes
  it_stock :: stock
  it_active :: bool
  it_availability :: availability
  it_variant_groups :: "choice_group list"
  it_add_on_groups :: "add_on_group list"
  it_sort_order :: int64

record item_draft =
  dw_category_id :: string
  dw_name :: string
  dw_description :: string
  dw_image_url :: string
  dw_price :: money
  dw_attributes :: attributes
  dw_stock :: stock
  dw_sort_order :: int64

definition validate_unit :: "capabilities \<Rightarrow> attributes \<Rightarrow> attributes \<Rightarrow> catalogue_err + attributes" where
  "validate_unit c a out =
     (if cp_requires_unit c then
        (case parse_unit (at_unit a) of Inl _ \<Rightarrow> Inl ErrUnitRequired
         | Inr u \<Rightarrow> rbind (short_text (at_pack_size a)) (\<lambda>pack. rbind (short_text (at_brand a)) (\<lambda>brand.
             Inr (out\<lparr>at_unit := u, at_pack_size := pack, at_brand := brand\<rparr>))))
      else if at_unit a \<noteq> [] then Inl ErrUnitNotAllowed else Inr out)"

definition validate_prescription :: "capabilities \<Rightarrow> attributes \<Rightarrow> attributes \<Rightarrow> catalogue_err + attributes" where
  "validate_prescription c a out =
     (if cp_prescriptions c then
        rbind (short_text (at_generic_name a)) (\<lambda>generic. rbind (short_text (at_strength a)) (\<lambda>strength.
          Inr (out\<lparr>at_generic_name := generic, at_strength := strength, at_prescription := at_prescription a\<rparr>)))
      else if at_prescription a then Inl ErrPrescriptionNotAllowed else Inr out)"

definition validate_attributes :: "string \<Rightarrow> attributes \<Rightarrow> catalogue_err + attributes" where
  "validate_attributes t a =
     rbind (validate_unit (capabilities_for t) a no_attributes) (\<lambda>x.
     rbind (validate_prescription (capabilities_for t) a x) (\<lambda>y.
     Inr (if t = kind_restaurant
          then y\<lparr>at_vegetarian := at_vegetarian a, at_minutes := (if at_minutes a > 0 then at_minutes a else at_minutes y)\<rparr>
          else y)))"

definition validate_stock :: "string \<Rightarrow> stock \<Rightarrow> catalogue_err + stock" where
  "validate_stock t s =
     (if \<not> cp_tracks_stock (capabilities_for t) then if st_tracked s then Inl ErrStockNotTracked else Inr untracked
      else if \<not> st_tracked s then new_stock 0 else new_stock (st_quantity s))"

definition checked_price :: "money \<Rightarrow> catalogue_err + money" where
  "checked_price p = (case must_be_non_negative p of Inl _ \<Rightarrow> Inl ErrNegativePrice | Inr _ \<Rightarrow> Inr p)"

definition new_item :: "string \<Rightarrow> string \<Rightarrow> string \<Rightarrow> item_draft \<Rightarrow> catalogue_err + item" where
  "new_item k shop t d =
     (if trim_space shop = [] then Inl ErrEmptyMerchant
      else rbind (parse_merchant_type t) (\<lambda>kind.
      if trim_space (dw_category_id d) = [] then Inl ErrNoCategory
      else rbind (trimmed_name (dw_name d)) (\<lambda>name.
      rbind (long_text (dw_description d)) (\<lambda>description.
      rbind (normalise_image_url (dw_image_url d)) (\<lambda>image.
      rbind (checked_price (dw_price d)) (\<lambda>price.
      rbind (validate_attributes kind (dw_attributes d)) (\<lambda>attrs.
      rbind (validate_stock kind (dw_stock d)) (\<lambda>stock.
      Inr \<lparr>it_id = k, it_merchant_id = shop, it_merchant_type = kind, it_category_id = trim_space (dw_category_id d),
           it_name = name, it_description = description, it_image_url = image, it_price = price, it_attributes = attrs,
           it_stock = stock, it_active = True, it_availability = always_available, it_variant_groups = [],
           it_add_on_groups = [], it_sort_order = not_below_zero (dw_sort_order d)\<rparr>))))))))"

definition item_with_stock :: "item \<Rightarrow> stock \<Rightarrow> catalogue_err + item" where
  "item_with_stock i s = rbind (validate_stock (it_merchant_type i) s) (\<lambda>x. Inr (i\<lparr>it_stock := x\<rparr>))"

definition item_with_active :: "item \<Rightarrow> bool \<Rightarrow> item" where
  "item_with_active i b = i\<lparr>it_active := b\<rparr>"

definition item_with_availability :: "item \<Rightarrow> availability \<Rightarrow> item" where
  "item_with_availability i a = i\<lparr>it_availability := a\<rparr>"

definition item_with_price :: "item \<Rightarrow> money \<Rightarrow> catalogue_err + item" where
  "item_with_price i p = rbind (checked_price p) (\<lambda>x. Inr (i\<lparr>it_price := x\<rparr>))"

definition with_variant_groups :: "item \<Rightarrow> choice_group list \<Rightarrow> catalogue_err + item" where
  "with_variant_groups i gs =
     (if gs \<noteq> [] \<and> \<not> cp_variants (capabilities_for (it_merchant_type i)) then Inl ErrVariantsNotAllowed
      else Inr (i\<lparr>it_variant_groups := gs\<rparr>))"

definition with_add_on_groups :: "item \<Rightarrow> add_on_group list \<Rightarrow> catalogue_err + item" where
  "with_add_on_groups i gs =
     (if gs \<noteq> [] \<and> \<not> cp_add_ons (capabilities_for (it_merchant_type i)) then Inl ErrAddOnsNotAllowed
      else Inr (i\<lparr>it_add_on_groups := gs\<rparr>))"

definition item_orderable :: "item \<Rightarrow> instant \<Rightarrow> bool" where
  "item_orderable i now \<longleftrightarrow> it_active i \<and> in_stock (it_stock i) \<and> available_at (it_availability i) now"

definition unavailable_reason :: "item \<Rightarrow> instant \<Rightarrow> string" where
  "unavailable_reason i now =
     (if \<not> it_active i then ''unavailable''
      else if \<not> in_stock (it_stock i) then ''out_of_stock''
      else if \<not> available_at (it_availability i) now then ''not_available_now'' else [])"

section \<open>Combos\<close>

definition min_combo_lines :: nat where "min_combo_lines = 2"
definition max_combo_lines :: nat where "max_combo_lines = 20"
definition max_combo_quantity :: int64 where "max_combo_quantity = 10"

record combo_line =
  bi_item_id :: string
  bi_quantity :: int64

record combo =
  cb_id :: string
  cb_merchant_id :: string
  cb_merchant_type :: string
  cb_name :: string
  cb_description :: string
  cb_image_url :: string
  cb_price :: money
  cb_lines :: "combo_line list"
  cb_active :: bool
  cb_availability :: availability
  cb_sort_order :: int64

record combo_draft =
  bd_name :: string
  bd_description :: string
  bd_image_url :: string
  bd_price :: money
  bd_lines :: "combo_line list"
  bd_sort_order :: int64

fun check_combo_lines :: "string list \<Rightarrow> combo_line list \<Rightarrow> catalogue_err + combo_line list" where
  "check_combo_lines seen [] = Inr []"
| "check_combo_lines seen (l # ls) =
     (let k = trim_space (bi_item_id l)
      in if k = [] then Inl ErrItemNotFound
         else if k \<in> set seen then Inl ErrDuplicateComboLine
         else if bi_quantity l < 1 \<or> bi_quantity l > max_combo_quantity then Inl ErrInvalidQuantity
         else rbind (check_combo_lines (k # seen) ls) (\<lambda>out. Inr (\<lparr>bi_item_id = k, bi_quantity = bi_quantity l\<rparr> # out)))"

definition validate_combo_lines :: "combo_line list \<Rightarrow> catalogue_err + combo_line list" where
  "validate_combo_lines ls =
     (if length ls < min_combo_lines then Inl ErrEmptyCombo
      else if length ls > max_combo_lines then Inl ErrComboTooLarge
      else check_combo_lines [] ls)"

definition new_combo :: "string \<Rightarrow> string \<Rightarrow> string \<Rightarrow> combo_draft \<Rightarrow> catalogue_err + combo" where
  "new_combo k shop t d =
     (if trim_space shop = [] then Inl ErrEmptyMerchant
      else rbind (parse_merchant_type t) (\<lambda>kind.
      if \<not> cp_combos (capabilities_for kind) then Inl ErrCombosNotAllowed
      else rbind (trimmed_name (bd_name d)) (\<lambda>name.
      rbind (long_text (bd_description d)) (\<lambda>description.
      rbind (normalise_image_url (bd_image_url d)) (\<lambda>image.
      rbind (checked_price (bd_price d)) (\<lambda>price.
      rbind (validate_combo_lines (bd_lines d)) (\<lambda>ls.
      Inr \<lparr>cb_id = k, cb_merchant_id = shop, cb_merchant_type = kind, cb_name = name, cb_description = description,
           cb_image_url = image, cb_price = price, cb_lines = ls, cb_active = True, cb_availability = always_available,
           cb_sort_order = not_below_zero (bd_sort_order d)\<rparr>)))))))"

definition combo_item_ids :: "combo \<Rightarrow> string list" where
  "combo_item_ids c = map bi_item_id (cb_lines c)"

definition combo_with_active :: "combo \<Rightarrow> bool \<Rightarrow> combo" where
  "combo_with_active c b = c\<lparr>cb_active := b\<rparr>"

definition combo_with_availability :: "combo \<Rightarrow> availability \<Rightarrow> combo" where
  "combo_with_availability c a = c\<lparr>cb_availability := a\<rparr>"

definition combo_orderable :: "combo \<Rightarrow> instant \<Rightarrow> bool" where
  "combo_orderable c now \<longleftrightarrow> cb_active c \<and> available_at (cb_availability c) now"

section \<open>What other modules are told\<close>

record menu_option =
  mo_id :: string
  mo_name :: string
  mo_price :: shown_money
  mo_available :: bool

record option_group =
  og_id :: string
  og_name :: string
  og_required :: bool
  og_min :: int64
  og_max :: int64
  og_options :: "menu_option list"

record menu_item =
  mi_id :: string
  mi_merchant_id :: string
  mi_category_id :: string
  mi_name :: string
  mi_description :: string
  mi_image_url :: string
  mi_price :: shown_money
  mi_orderable :: bool
  mi_reason :: string
  mi_unit :: string
  mi_pack_size :: string
  mi_brand :: string
  mi_generic_name :: string
  mi_strength :: string
  mi_prescription :: bool
  mi_vegetarian :: bool
  mi_minutes :: int64
  mi_variants :: "option_group list"
  mi_add_ons :: "option_group list"

record menu_combo =
  mb_id :: string
  mb_merchant_id :: string
  mb_name :: string
  mb_description :: string
  mb_image_url :: string
  mb_price :: shown_money
  mb_lines :: "(string \<times> string \<times> int64) list"
  mb_orderable :: bool
  mb_savings :: shown_money

record shown_category =
  sg_id :: string
  sg_name :: string
  sg_sort_order :: int64

record shown_menu =
  sn_merchant_id :: string
  sn_categories :: "shown_category list"
  sn_items :: "menu_item list"
  sn_combos :: "menu_combo list"

definition shown_choice :: "choice \<Rightarrow> menu_option" where
  "shown_choice x = \<lparr>mo_id = vo_id x, mo_name = vo_name x, mo_price = to_money (vo_price x), mo_available = vo_available x\<rparr>"

definition shown_group :: "choice_group \<Rightarrow> option_group" where
  "shown_group g = \<lparr>og_id = vg_id g, og_name = vg_name g, og_required = vg_required g, og_min = vg_min g, og_max = vg_max g,
     og_options = map shown_choice (vg_options g)\<rparr>"

definition group_before :: "choice_group \<Rightarrow> choice_group \<Rightarrow> bool" where
  "group_before a b \<longleftrightarrow> vg_sort_order a < vg_sort_order b"

definition sorted_groups :: "choice_group list \<Rightarrow> choice_group list" where
  "sorted_groups gs = stable_sort group_before gs"

definition to_contract_item :: "item \<Rightarrow> instant \<Rightarrow> menu_item" where
  "to_contract_item i now =
     \<lparr>mi_id = it_id i, mi_merchant_id = it_merchant_id i, mi_category_id = it_category_id i, mi_name = it_name i,
      mi_description = it_description i, mi_image_url = it_image_url i, mi_price = to_money (it_price i),
      mi_orderable = item_orderable i now, mi_reason = unavailable_reason i now, mi_unit = at_unit (it_attributes i),
      mi_pack_size = at_pack_size (it_attributes i), mi_brand = at_brand (it_attributes i),
      mi_generic_name = at_generic_name (it_attributes i), mi_strength = at_strength (it_attributes i),
      mi_prescription = at_prescription (it_attributes i), mi_vegetarian = at_vegetarian (it_attributes i),
      mi_minutes = at_minutes (it_attributes i),
      mi_variants = map shown_group (sorted_groups (it_variant_groups i)),
      mi_add_ons = map shown_group (sorted_groups (it_add_on_groups i))\<rparr>"

text \<open>A sum that cannot be formed is the zero \<open>Money\<close>, as where Go drops the error.\<close>

definition or_zero :: "money_err + money \<Rightarrow> money" where
  "or_zero r = (case r of Inl _ \<Rightarrow> money_zero_value | Inr m \<Rightarrow> m)"

definition parts_worth :: "combo_line list \<Rightarrow> (string \<Rightarrow> item option) \<Rightarrow> money \<Rightarrow> money" where
  "parts_worth ls members start = foldl (\<lambda>parts l. case members (bi_item_id l) of None \<Rightarrow> parts
     | Some i \<Rightarrow> or_zero (add_money parts (times_money (it_price i) (bi_quantity l)))) start ls"

definition to_contract_combo :: "combo \<Rightarrow> (string \<Rightarrow> item option) \<Rightarrow> instant \<Rightarrow> menu_combo" where
  "to_contract_combo c members now =
     (let parts = parts_worth (cb_lines c) members (zero_money (currency_of (cb_price c)));
          savings = or_zero (sub_money parts (cb_price c))
      in \<lparr>mb_id = cb_id c, mb_merchant_id = cb_merchant_id c, mb_name = cb_name c, mb_description = cb_description c,
          mb_image_url = cb_image_url c, mb_price = to_money (cb_price c),
          mb_lines = map (\<lambda>l. (bi_item_id l, case members (bi_item_id l) of None \<Rightarrow> [] | Some i \<Rightarrow> it_name i, bi_quantity l)) (cb_lines c),
          mb_orderable = (combo_orderable c now \<and> list_all (\<lambda>l. case members (bi_item_id l) of None \<Rightarrow> False
             | Some i \<Rightarrow> item_orderable i now) (cb_lines c)),
          mb_savings = to_money (if is_negative savings then zero_money (currency_of (cb_price c)) else savings)\<rparr>)"

text \<open>A map by id: of two items with one id the later counts.\<close>

definition by_id :: "item list \<Rightarrow> string \<Rightarrow> item option" where
  "by_id items k = find (\<lambda>i. it_id i = k) (rev items)"

end
