(* ===== verification/Discovery_Domain.thy ===== *)
theory Discovery_Domain
  imports FloatText Money
begin

text \<open>
  \<open>modules/discovery/domain\<close>: the ladder of search radii of a place, what widening a search would
  do, how well a name answers a query, the ranking of shops and the texts for distances.
\<close>

section \<open>The ladder\<close>

datatype discovery_err = ErrRadiusNotPositive | ErrStepNotPositive | ErrExpansionsNegative | ErrThresholdNegative | ErrCeilingDisabled

fun discovery_err_text :: "discovery_err \<Rightarrow> string" where
  "discovery_err_text ErrRadiusNotPositive = ''base radius must be greater than zero''"
| "discovery_err_text ErrStepNotPositive = ''expansion step must be greater than zero''"
| "discovery_err_text ErrExpansionsNegative = ''maximum expansions cannot be negative''"
| "discovery_err_text ErrThresholdNegative = ''merchant threshold cannot be negative''"
| "discovery_err_text ErrCeilingDisabled = ''the division ceiling can never be disabled''"

record policy =
  py_base_radius_m :: f64
  py_step_m :: f64
  py_max_expansions :: int64
  py_min_merchants :: int64
  py_auto_expand :: bool

definition new_policy :: "f64 \<Rightarrow> f64 \<Rightarrow> int64 \<Rightarrow> int64 \<Rightarrow> bool \<Rightarrow> bool \<Rightarrow> discovery_err + policy" where
  "new_policy base_radius step max_expansions min_merchants auto_expand division_ceiling =
     (if fle base_radius (Fin 0) then Inl ErrRadiusNotPositive
      else if fle step (Fin 0) then Inl ErrStepNotPositive
      else if max_expansions < 0 then Inl ErrExpansionsNegative
      else if min_merchants < 0 then Inl ErrThresholdNegative
      else if \<not> division_ceiling then Inl ErrCeilingDisabled
      else Inr \<lparr>py_base_radius_m = base_radius, py_step_m = step, py_max_expansions = max_expansions,
             py_min_merchants = min_merchants, py_auto_expand = auto_expand\<rparr>)"

definition clamp_level :: "policy \<Rightarrow> int64 \<Rightarrow> int64" where
  "clamp_level p level = (if level < 0 then 0 else if level > py_max_expansions p then py_max_expansions p else level)"

definition radius_at :: "policy \<Rightarrow> int64 \<Rightarrow> f64" where
  "radius_at p level = fadd (py_base_radius_m p) (fmul (py_step_m p) (of_int64 (clamp_level p level)))"

definition enough :: "policy \<Rightarrow> int64 \<Rightarrow> bool" where
  "enough p found \<longleftrightarrow> found \<ge> py_min_merchants p"

section \<open>Widening\<close>

datatype stage = StageBase | StageExpanded | StageCeiling

fun stage_text :: "stage \<Rightarrow> string" where
  "stage_text StageBase = ''base''"
| "stage_text StageExpanded = ''expanded''"
| "stage_text StageCeiling = ''ceiling''"

record expansion =
  ex_level :: int64
  ex_radius_m :: f64
  ex_stage :: stage
  ex_can_expand :: bool
  ex_next_level :: int64
  ex_next_radius_m :: f64
  ex_offered :: bool
  ex_at_ceiling :: bool
  ex_found :: int64

definition describe_expansion :: "policy \<Rightarrow> int64 \<Rightarrow> f64 \<Rightarrow> int64 \<Rightarrow> expansion" where
  "describe_expansion p level radius found =
     (let ceiling = level \<ge> py_max_expansions p; next = add64 level 1
      in \<lparr>ex_level = level, ex_radius_m = radius,
          ex_stage = (if ceiling then StageCeiling else if level = 0 then StageBase else StageExpanded),
          ex_can_expand = (\<not> ceiling), ex_next_level = (if ceiling then 0 else next),
          ex_next_radius_m = (if ceiling then Fin 0 else radius_at p next),
          ex_offered = (\<not> ceiling \<and> \<not> enough p found), ex_at_ceiling = ceiling, ex_found = found\<rparr>)"

section \<open>Relevance and ranking\<close>

definition has_word_prefix :: "string \<Rightarrow> string \<Rightarrow> bool" where
  "has_word_prefix n q = list_ex (\<lambda>w. has_prefix w q) (GoStrings.fields n)"

definition relevance :: "string \<Rightarrow> string \<Rightarrow> f64 \<times> bool" where
  "relevance name query =
     (let q = trim_space (to_lower query); n = to_lower (trim_space name)
      in if q = [] then (Fin 0, True)
         else if n = q then (Fin 1, True)
         else if has_prefix n q then (fl (9 / 10), True)
         else if has_word_prefix n q then (Fin (3 / 4), True)
         else if contains n q then (Fin (1 / 2), True)
         else (Fin 0, False))"

record shop_candidate =
  sk_id :: string
  sk_relevance :: f64
  sk_distance_m :: f64
  sk_rating :: f64
  sk_open :: bool

definition clamp_unit :: "f64 \<Rightarrow> f64" where
  "clamp_unit v = (if flt v (Fin 0) then Fin 0 else if flt (Fin 1) v then Fin 1 else v)"

definition nearness :: "f64 \<Rightarrow> f64 \<Rightarrow> f64" where
  "nearness distance radius =
     (if fle radius (Fin 0) then Fin 0 else clamp_unit (fsub (Fin 1) (fdiv distance radius)))"

definition bool_score :: "bool \<Rightarrow> f64" where
  "bool_score b = (if b then Fin 1 else Fin 0)"

definition shop_score :: "shop_candidate \<Rightarrow> f64 \<Rightarrow> f64" where
  "shop_score c radius =
     fadd (fadd (fadd (fmul (fl (40 / 100)) (clamp_unit (sk_relevance c)))
                      (fmul (fl (35 / 100)) (nearness (sk_distance_m c) radius)))
                (fmul (fl (15 / 100)) (clamp_unit (fdiv (sk_rating c) (Fin 5)))))
          (fmul (fl (10 / 100)) (bool_score (sk_open c)))"

text \<open>The scores are kept by id, a later candidate of the same id replacing an earlier one.\<close>

definition score_table :: "shop_candidate list \<Rightarrow> f64 \<Rightarrow> string \<Rightarrow> f64" where
  "score_table cs radius k = (case find (\<lambda>c. sk_id c = k) (rev cs) of None \<Rightarrow> Fin 0 | Some c \<Rightarrow> shop_score c radius)"

definition ranked_before :: "(string \<Rightarrow> f64) \<Rightarrow> shop_candidate \<Rightarrow> shop_candidate \<Rightarrow> bool" where
  "ranked_before scores a b =
     (let si = scores (sk_id a); sj = scores (sk_id b)
      in if \<not> feq si sj then flt sj si else sk_id a < sk_id b)"

definition rank_shops :: "shop_candidate list \<Rightarrow> f64 \<Rightarrow> shop_candidate list" where
  "rank_shops cs radius = stable_sort (ranked_before (score_table cs radius)) cs"

section \<open>Texts\<close>

definition bengali_digit :: "char \<Rightarrow> string" where
  "bengali_digit c = utf8_rune (0x09E6 + digit_val c)"

definition to_bengali_digits :: "string \<Rightarrow> string" where
  "to_bengali_digits s = concat (map (\<lambda>c. if is_digit c then bengali_digit c else [c]) s)"

text \<open>\<open>FormatFloat(f, 'f', 1, 64)\<close>: the nearest tenth of the exact value, ties to even.\<close>

fun format_tenths :: "f64 \<Rightarrow> string" where
  "format_tenths (Fin x) =
     (let n = round_half_even (\<bar>x\<bar> * 10)
      in (if x < 0 then ''-'' else []) @ itoa (n div 10) @ CHR ''.'' # itoa (n mod 10))"
| "format_tenths y = format_float y"

text \<open>\<open>FormatFloat(f, 'f', -1, 64)\<close>: the shortest digits, without an exponent.\<close>

definition plain_digits :: "string \<Rightarrow> int \<Rightarrow> string" where
  "plain_digits ds dp =
     (if 0 < dp then take (nat dp) ds @ replicate (nat dp - length ds) CHR ''0'' else ''0'') @
     (if dp < int (length ds) then CHR ''.'' # replicate (nat (- dp)) CHR ''0'' @ drop (nat dp) ds else [])"

fun format_plain :: "f64 \<Rightarrow> string" where
  "format_plain (Fin x) = (if x < 0 then ''-'' else []) @ (case shortest \<bar>x\<bar> of (ds, dp) \<Rightarrow> plain_digits ds dp)"
| "format_plain y = format_float y"

definition bn_very_close :: string where
  "bn_very_close = utf8 [0x0996, 0x09C1, 0x09AC, 0x0020, 0x0995, 0x09BE, 0x099B, 0x09C7, 0x0987]"

definition bn_metres :: string where
  "bn_metres = utf8 [0x0020, 0x09AE, 0x09BF, 0x099F, 0x09BE, 0x09B0]"

definition bn_km :: string where
  "bn_km = utf8 [0x0020, 0x0995, 0x09BF, 0x09AE, 0x09BF]"

definition format_distance :: "f64 \<Rightarrow> string \<Rightarrow> string" where
  "format_distance metres lang =
     (let m = (if flt metres (Fin 0) then Fin 0 else metres)
      in if flt m (Fin 1000)
         then let rounded = mul64 (to_int64 (fadd (fdiv m (Fin 50)) (Fin (1 / 2)))) 50
              in if rounded = 0 then if bengali lang then bn_very_close else ''Very close''
                 else if bengali lang then to_bengali_digits (itoa rounded) @ bn_metres else itoa rounded @ '' m''
         else let km = format_tenths (fdiv m (Fin 1000))
              in if bengali lang then to_bengali_digits km @ bn_km else km @ '' km'')"

definition format_radius :: "f64 \<Rightarrow> string \<Rightarrow> string" where
  "format_radius metres lang =
     (let km = format_plain (fdiv metres (Fin 1000))
      in if bengali lang then to_bengali_digits km @ bn_km else km @ '' km'')"

end
