(* ===== verification/Merchant_Domain.thy ===== *)
theory Merchant_Domain
  imports Schedule Money Errs Float64
begin

text \<open>
  \<open>modules/merchant/domain\<close>: a shop with its details, papers, hours, holiday and place, the review
  statuses it moves through, and what a customer is told of its opening.  An error carries its
  sentinel; the details some errors append to their text are left out.
\<close>

section \<open>Errors, kinds of shop, statuses\<close>

datatype merchant_err =
    ErrEmptyOwner | ErrEmptyName | ErrNameTooLong | ErrUnknownType | ErrUnknownStatus | ErrInvalidPhone
  | ErrInvalidEmail | ErrEmptyAddressLine | ErrTooLong | ErrInvalidPin | ErrMerchantNotFound
  | ErrAlreadyRegistered | ErrInvalidTransition | ErrInvalidLogoURL | ErrUnknownDocumentKind
  | ErrEmptyDocumentNumber | ErrEmptyDocumentFile | ErrDocumentsIncomplete | ErrDocumentNotRequired
  | ErrUnplaced | ErrHolidayInThePast | ErrHolidayTooLong

fun merchant_err_text :: "merchant_err \<Rightarrow> string" where
  "merchant_err_text ErrEmptyOwner = ''an owner account is required''"
| "merchant_err_text ErrEmptyName = ''a shop name is required''"
| "merchant_err_text ErrNameTooLong = ''shop name is too long''"
| "merchant_err_text ErrUnknownType = ''unknown merchant type''"
| "merchant_err_text ErrUnknownStatus = ''unknown merchant status''"
| "merchant_err_text ErrInvalidPhone = ''that phone number does not look valid''"
| "merchant_err_text ErrInvalidEmail = ''that email address does not look valid''"
| "merchant_err_text ErrEmptyAddressLine = ''a street address is required''"
| "merchant_err_text ErrTooLong = ''that text is too long''"
| "merchant_err_text ErrInvalidPin = ''that map location is not valid''"
| "merchant_err_text ErrMerchantNotFound = ''merchant not found''"
| "merchant_err_text ErrAlreadyRegistered = ''this account already has a shop''"
| "merchant_err_text ErrInvalidTransition = ''that status change is not allowed''"
| "merchant_err_text ErrInvalidLogoURL = ''that logo address is not valid''"
| "merchant_err_text ErrUnknownDocumentKind = ''unknown document type''"
| "merchant_err_text ErrEmptyDocumentNumber = ''a document number is required''"
| "merchant_err_text ErrEmptyDocumentFile = ''a photo or scan of the document is required''"
| "merchant_err_text ErrDocumentsIncomplete = ''some required documents are missing''"
| "merchant_err_text ErrDocumentNotRequired = ''that document is not required for this kind of shop''"
| "merchant_err_text ErrUnplaced = ''this shop has not been placed in a service area''"
| "merchant_err_text ErrHolidayInThePast = ''that holiday ends in the past''"
| "merchant_err_text ErrHolidayTooLong = ''that holiday is too long''"

datatype shop_type = TypeRestaurant | TypeGrocery | TypePharmacy

fun shop_type_text :: "shop_type \<Rightarrow> string" where
  "shop_type_text TypeRestaurant = ''restaurant''"
| "shop_type_text TypeGrocery = ''grocery''"
| "shop_type_text TypePharmacy = ''pharmacy''"

definition all_types :: "shop_type list" where
  "all_types = [TypeRestaurant, TypeGrocery, TypePharmacy]"

definition parse_type :: "string \<Rightarrow> merchant_err + shop_type" where
  "parse_type s = (case find (\<lambda>k. shop_type_text k = trim_space (to_lower s)) all_types of
     None \<Rightarrow> Inl ErrUnknownType | Some k \<Rightarrow> Inr k)"

datatype shop_status = StatusDraft | StatusPendingReview | StatusApproved | StatusRejected | StatusSuspended

fun shop_status_text :: "shop_status \<Rightarrow> string" where
  "shop_status_text StatusDraft = ''draft''"
| "shop_status_text StatusPendingReview = ''pending_review''"
| "shop_status_text StatusApproved = ''approved''"
| "shop_status_text StatusRejected = ''rejected''"
| "shop_status_text StatusSuspended = ''suspended''"

definition all_shop_statuses :: "shop_status list" where
  "all_shop_statuses = [StatusDraft, StatusPendingReview, StatusApproved, StatusRejected, StatusSuspended]"

definition parse_shop_status :: "string \<Rightarrow> merchant_err + shop_status" where
  "parse_shop_status s = (case find (\<lambda>k. shop_status_text k = trim_space (to_lower s)) all_shop_statuses of
     None \<Rightarrow> Inl ErrUnknownStatus | Some k \<Rightarrow> Inr k)"

fun shop_transitions :: "shop_status \<Rightarrow> shop_status list" where
  "shop_transitions StatusDraft = [StatusPendingReview]"
| "shop_transitions StatusPendingReview = [StatusApproved, StatusRejected]"
| "shop_transitions StatusRejected = [StatusPendingReview]"
| "shop_transitions StatusApproved = [StatusSuspended]"
| "shop_transitions StatusSuspended = [StatusApproved]"

definition can_transition_to :: "shop_status \<Rightarrow> shop_status \<Rightarrow> bool" where
  "can_transition_to s next \<longleftrightarrow> list_ex (\<lambda>allowed. allowed = next) (shop_transitions s)"

section \<open>Place, papers, hours, holiday\<close>

record pin =
  pin_lat :: f64
  pin_lng :: f64

definition new_pin :: "f64 \<Rightarrow> f64 \<Rightarrow> merchant_err + pin" where
  "new_pin lat lng =
     (if flt lat (Fin (- 90)) \<or> flt (Fin 90) lat then Inl ErrInvalidPin
      else if flt lng (Fin (- 180)) \<or> flt (Fin 180) lng then Inl ErrInvalidPin
      else if feq lat (Fin 0) \<and> feq lng (Fin 0) then Inl ErrInvalidPin
      else Inr \<lparr>pin_lat = lat, pin_lng = lng\<rparr>)"

definition pin_zero :: "pin \<Rightarrow> bool" where
  "pin_zero p \<longleftrightarrow> feq (pin_lat p) (Fin 0) \<and> feq (pin_lng p) (Fin 0)"

record shop_place =
  sp_area_code :: string
  sp_area_name :: string
  sp_district_code :: string
  sp_division_code :: string

definition no_place :: shop_place where
  "no_place = \<lparr>sp_area_code = [], sp_area_name = [], sp_district_code = [], sp_division_code = []\<rparr>"

definition is_placed :: "shop_place \<Rightarrow> bool" where
  "is_placed p \<longleftrightarrow> sp_division_code p \<noteq> []"

datatype document_kind = DocTradeLicence | DocNationalID | DocFoodLicence | DocDrugLicence

fun document_kind_text :: "document_kind \<Rightarrow> string" where
  "document_kind_text DocTradeLicence = ''trade_licence''"
| "document_kind_text DocNationalID = ''national_id''"
| "document_kind_text DocFoodLicence = ''food_licence''"
| "document_kind_text DocDrugLicence = ''drug_licence''"

definition all_document_kinds :: "document_kind list" where
  "all_document_kinds = [DocTradeLicence, DocNationalID, DocFoodLicence, DocDrugLicence]"

definition parse_document_kind :: "string \<Rightarrow> merchant_err + document_kind" where
  "parse_document_kind s = (case find (\<lambda>k. document_kind_text k = trim_space (to_lower s)) all_document_kinds of
     None \<Rightarrow> Inl ErrUnknownDocumentKind | Some k \<Rightarrow> Inr k)"

fun required_documents :: "shop_type \<Rightarrow> document_kind list" where
  "required_documents TypeRestaurant = [DocTradeLicence, DocNationalID, DocFoodLicence]"
| "required_documents TypePharmacy = [DocTradeLicence, DocNationalID, DocDrugLicence]"
| "required_documents TypeGrocery = [DocTradeLicence, DocNationalID]"

record document =
  do_kind :: document_kind
  do_number :: string
  do_file_url :: string
  do_uploaded_at :: instant

definition max_document_number_length :: nat where "max_document_number_length = 60"

definition new_document :: "document_kind \<Rightarrow> string \<Rightarrow> string \<Rightarrow> instant \<Rightarrow> merchant_err + document" where
  "new_document kind raw_number raw_url at_time =
     rbind (parse_document_kind (document_kind_text kind)) (\<lambda>parsed.
       let number = trim_space raw_number; url = trim_space raw_url
       in if number = [] then Inl ErrEmptyDocumentNumber
          else if rune_count number > max_document_number_length then Inl ErrTooLong
          else if url = [] then Inl ErrEmptyDocumentFile
          else Inr \<lparr>do_kind = parsed, do_number = number, do_file_url = url, do_uploaded_at = at_time\<rparr>)"

definition max_windows_per_day :: int where "max_windows_per_day = 3"

definition new_weekly_hours :: "(int \<times> window list) list \<Rightarrow> schedule_err + weekly" where
  "new_weekly_hours days = new_weekly days max_windows_per_day"

definition default_hours :: weekly where
  "default_hours = every_day \<lparr>w_open = 9 * 60, w_close = 22 * 60\<rparr>"

definition decode_weekly_hours :: "(string \<times> string list) list \<Rightarrow> schedule_err + weekly" where
  "decode_weekly_hours encoded = decode_week encoded max_windows_per_day"

record holiday =
  hd_active :: bool
  hd_until :: instant
  hd_reason :: string

definition no_holiday :: holiday where
  "no_holiday = \<lparr>hd_active = False, hd_until = zero_time, hd_reason = []\<rparr>"

definition max_holiday_length :: duration where "max_holiday_length = 60 * 24 * hour"
definition max_holiday_reason_length :: nat where "max_holiday_reason_length = 200"

definition new_holiday :: "instant \<Rightarrow> string \<Rightarrow> instant \<Rightarrow> merchant_err + holiday" where
  "new_holiday until raw_reason now =
     (let reason = trim_space raw_reason
      in if rune_count reason > max_holiday_reason_length then Inl ErrTooLong
         else if until \<noteq> zero_time \<and> \<not> until > now then Inl ErrHolidayInThePast
         else if until \<noteq> zero_time \<and> time_sub until now > max_holiday_length then Inl ErrHolidayTooLong
         else Inr \<lparr>hd_active = True, hd_until = until, hd_reason = reason\<rparr>)"

definition holiday_active_at :: "holiday \<Rightarrow> instant \<Rightarrow> bool" where
  "holiday_active_at h now =
     (if \<not> hd_active h then False else if hd_until h = zero_time then True else now < hd_until h)"

section \<open>A shop\<close>

record merchant =
  mc_id :: string
  mc_owner :: string
  mc_name :: string
  mc_type :: shop_type
  mc_status :: shop_status
  mc_phone :: string
  mc_email :: string
  mc_logo_url :: string
  mc_line1 :: string
  mc_line2 :: string
  mc_pin :: pin
  mc_place :: shop_place
  mc_documents :: "document list"
  mc_hours :: weekly
  mc_holiday :: holiday
  mc_review_note :: string
  mc_created_at :: instant

record shop_details =
  sd_name :: string
  sd_type :: shop_type
  sd_phone :: string
  sd_email :: string
  sd_logo_url :: string
  sd_line1 :: string
  sd_line2 :: string
  sd_pin :: pin

definition max_shop_name_length :: nat where "max_shop_name_length = 120"
definition max_address_line_length :: nat where "max_address_line_length = 200"
definition max_note_length :: nat where "max_note_length = 500"
definition max_email_length :: nat where "max_email_length = 254"

definition normalise_phone :: "string \<Rightarrow> merchant_err + string" where
  "normalise_phone raw =
     (let d = filter is_digit raw;
          digits = (if has_prefix d ''880'' \<and> length d = 13 then ''0'' @ drop 3 d
                    else if has_prefix d ''1'' \<and> length d = 10 then ''0'' @ d else d)
      in if length digits \<noteq> 11 \<or> \<not> has_prefix digits ''01'' \<or> digit_val (digits ! 2) < 3
         then Inl ErrInvalidPhone else Inr (''+880'' @ drop 1 digits))"

definition normalise_logo_url :: "string \<Rightarrow> merchant_err + string" where
  "normalise_logo_url raw =
     (let logo = trim_space raw
      in if logo = [] then Inr []
         else if has_prefix logo ''//'' then Inl ErrInvalidLogoURL
         else if has_prefix logo ''/'' then Inr logo
         else if has_prefix logo ''https://'' \<and> length logo > length ''https://'' then Inr logo
         else Inl ErrInvalidLogoURL)"

definition email_stops :: "char list" where
  "email_stops = [CHR '' '', CHR 0x09, CHR 0x0D, CHR 0x0A, CHR 0x22, CHR ''<'', CHR ''>'', CHR '','', CHR '';'']"

definition plausible_email :: "string \<Rightarrow> bool" where
  "plausible_email email = (case index_byte email (CHR ''@'') of
     None \<Rightarrow> False
   | Some i \<Rightarrow>
       (if i = 0 \<or> i = length email - 1 then False
        else if length (filter (\<lambda>c. c = CHR ''@'') email) \<noteq> 1 then False
        else let domain = drop (i + 1) email
             in if \<not> contains domain ''.'' \<or> has_prefix domain ''.'' \<or> has_suffix domain ''.'' then False
                else \<not> list_ex (\<lambda>c. c \<in> set email_stops) email))"

definition with_details :: "merchant \<Rightarrow> shop_details \<Rightarrow> merchant_err + merchant" where
  "with_details m d =
     (let name = trim_space (sd_name d)
      in if name = [] then Inl ErrEmptyName
         else if rune_count name > max_shop_name_length then Inl ErrNameTooLong
         else rbind (parse_type (shop_type_text (sd_type d))) (\<lambda>kind.
           rbind (normalise_phone (sd_phone d)) (\<lambda>phone.
           let email = trim_space (to_lower (sd_email d))
           in if email \<noteq> [] \<and> (length email > max_email_length \<or> \<not> plausible_email email) then Inl ErrInvalidEmail
              else rbind (normalise_logo_url (sd_logo_url d)) (\<lambda>logo.
                let line1 = trim_space (sd_line1 d); line2 = trim_space (sd_line2 d)
                in if line1 = [] then Inl ErrEmptyAddressLine
                   else if rune_count line1 > max_address_line_length \<or> rune_count line2 > max_address_line_length
                     then Inl ErrTooLong
                   else if pin_zero (sd_pin d) then Inl ErrInvalidPin
                   else Inr (m\<lparr>mc_name := name, mc_type := kind, mc_phone := phone, mc_email := email,
                       mc_logo_url := logo, mc_line1 := line1, mc_line2 := line2, mc_pin := sd_pin d\<rparr>)))))"

text \<open>The fields \<open>NewMerchant\<close> leaves at their zero values are set by \<open>with_details\<close>.\<close>

definition new_merchant :: "string \<Rightarrow> string \<Rightarrow> shop_details \<Rightarrow> instant \<Rightarrow> merchant_err + merchant" where
  "new_merchant mid owner d now =
     (if trim_space owner = [] then Inl ErrEmptyOwner
      else with_details \<lparr>mc_id = mid, mc_owner = owner, mc_name = [], mc_type = TypeRestaurant,
             mc_status = StatusDraft, mc_phone = [], mc_email = [], mc_logo_url = [], mc_line1 = [], mc_line2 = [],
             mc_pin = \<lparr>pin_lat = Fin 0, pin_lng = Fin 0\<rparr>, mc_place = no_place, mc_documents = [],
             mc_hours = default_hours, mc_holiday = no_holiday, mc_review_note = [], mc_created_at = now\<rparr> d)"

definition with_status :: "merchant \<Rightarrow> shop_status \<Rightarrow> string \<Rightarrow> merchant_err + merchant" where
  "with_status m next raw_note =
     (if \<not> can_transition_to (mc_status m) next then Inl ErrInvalidTransition
      else if rune_count (trim_space raw_note) > max_note_length then Inl ErrTooLong
      else Inr (m\<lparr>mc_status := next, mc_review_note := trim_space raw_note\<rparr>))"

definition with_document :: "merchant \<Rightarrow> document \<Rightarrow> merchant" where
  "with_document m d = m\<lparr>mc_documents :=
     (let kept = map (\<lambda>x. if do_kind x = do_kind d then d else x) (mc_documents m)
      in if list_ex (\<lambda>x. do_kind x = do_kind d) (mc_documents m) then kept else kept @ [d])\<rparr>"

definition document_of :: "merchant \<Rightarrow> document_kind \<Rightarrow> document option" where
  "document_of m kind = find (\<lambda>d. do_kind d = kind) (mc_documents m)"

definition missing_documents :: "merchant \<Rightarrow> document_kind list" where
  "missing_documents m = filter (\<lambda>k. document_of m k = None) (required_documents (mc_type m))"

definition requires_document :: "merchant \<Rightarrow> document_kind \<Rightarrow> bool" where
  "requires_document m kind = list_ex (\<lambda>k. k = kind) (required_documents (mc_type m))"

definition ready_for_review :: "merchant \<Rightarrow> merchant_err option" where
  "ready_for_review m =
     (if \<not> is_placed (mc_place m) then Some ErrUnplaced
      else if missing_documents m \<noteq> [] then Some ErrDocumentsIncomplete else None)"

definition is_listed :: "merchant \<Rightarrow> instant \<Rightarrow> bool" where
  "is_listed m now \<longleftrightarrow> mc_status m = StatusApproved \<and> \<not> holiday_active_at (mc_holiday m) now"

definition is_open_at :: "merchant \<Rightarrow> instant \<Rightarrow> bool" where
  "is_open_at m now \<longleftrightarrow> is_listed m now \<and> covers (mc_hours m) now"

definition bn_closed_now :: string where
  "bn_closed_now = utf8 [0x098F, 0x0996, 0x09A8, 0x0020, 0x09AC, 0x09A8, 0x09CD, 0x09A7]"

definition bn_on_holiday :: string where
  "bn_on_holiday = utf8 [0x099B, 0x09C1, 0x099F, 0x09BF, 0x09A4, 0x09C7, 0x0020, 0x0986, 0x099B, 0x09C7]"

definition bn_open_until :: string where
  "bn_open_until = utf8 [0x0996, 0x09CB, 0x09B2, 0x09BE, 0x0020, 0x0986, 0x099B, 0x09C7, 0x0020, 0x2014, 0x0020, 0x09AC, 0x09A8, 0x09CD,
     0x09A7, 0x0020, 0x09B9, 0x09AC, 0x09C7, 0x0020]"

definition bn_opens_at :: string where
  "bn_opens_at = utf8 [0x09AC, 0x09A8, 0x09CD, 0x09A7, 0x0020, 0x2014, 0x0020, 0x0996, 0x09C1, 0x09B2, 0x09AC, 0x09C7, 0x0020]"

definition bn_closed :: string where
  "bn_closed = utf8 [0x09AC, 0x09A8, 0x09CD, 0x09A7]"

definition open_status :: "merchant \<Rightarrow> instant \<Rightarrow> string \<Rightarrow> string" where
  "open_status m now lang =
     (if mc_status m \<noteq> StatusApproved then if bengali lang then bn_closed_now else ''Not available''
      else if holiday_active_at (mc_holiday m) now then if bengali lang then bn_on_holiday else ''On holiday''
      else case ends_after (mc_hours m) now of
          Some c \<Rightarrow> (if bengali lang then bn_open_until else ''Open until '') @ time_of_day_text c
        | None \<Rightarrow> (case next_start (mc_hours m) now of
            Some b \<Rightarrow> (if bengali lang then bn_opens_at else ''Opens at '') @ time_of_day_text b
          | None \<Rightarrow> if bengali lang then bn_closed else ''Closed''))"

definition join_comma :: "string list \<Rightarrow> string" where
  "join_comma parts = concat (case parts of [] \<Rightarrow> [] | p # ps \<Rightarrow> p # map (\<lambda>x. '', '' @ x) ps)"

definition single_line :: "merchant \<Rightarrow> string" where
  "single_line m = join_comma ([mc_line1 m] @ (if mc_line2 m \<noteq> [] then [mc_line2 m] else [])
     @ (if sp_area_name (mc_place m) \<noteq> [] then [sp_area_name (mc_place m)] else []))"

end
