(* ===== verification/Geo_Domain.thy ===== *)
theory Geo_Domain
  imports Errs FloatText
begin

text \<open>
  \<open>modules/geo/domain\<close>: coordinates, the great-circle distance, polygons and the ray-casting test,
  divisions, districts and areas.  The functions of Go's \<open>math\<close> that are not arithmetic (\<open>Sin\<close>,
  \<open>Cos\<close>, \<open>Asin\<close>, \<open>Sqrt\<close>) are arguments of the distance.
\<close>

section \<open>Coordinates\<close>

definition err_latitude :: error where "err_latitude = Sentinel ''latitude out of range''"
definition err_longitude :: error where "err_longitude = Sentinel ''longitude out of range''"
definition err_not_finite :: error where "err_not_finite = Sentinel ''coordinate must be finite''"

record coordinate =
  co_lat :: f64
  co_lng :: f64

definition new_coordinate :: "f64 \<Rightarrow> f64 \<Rightarrow> error + coordinate" where
  "new_coordinate lat lng =
     (if \<not> is_fin lat \<or> \<not> is_fin lng then Inl err_not_finite
      else if flt lat (Fin (- 90)) \<or> flt (Fin 90) lat
        then Inl (Wrapf (''latitude out of range: '' @ format_float lat) err_latitude)
      else if flt lng (Fin (- 180)) \<or> flt (Fin 180) lng
        then Inl (Wrapf (''longitude out of range: '' @ format_float lng) err_longitude)
      else Inr \<lparr>co_lat = lat, co_lng = lng\<rparr>)"

definition coordinate_zero :: "coordinate \<Rightarrow> bool" where
  "coordinate_zero c \<longleftrightarrow> feq (co_lat c) (Fin 0) \<and> feq (co_lng c) (Fin 0)"

section \<open>Distances\<close>

record trig =
  tg_sin :: "f64 \<Rightarrow> f64"
  tg_cos :: "f64 \<Rightarrow> f64"
  tg_asin :: "f64 \<Rightarrow> f64"
  tg_sqrt :: "f64 \<Rightarrow> f64"

definition earth_radius_metres :: f64 where "earth_radius_metres = fl (63710088 / 10)"

text \<open>\<open>math.Pi\<close>, an untyped constant, rounded where it meets a \<open>float64\<close>.\<close>

definition math_pi :: f64 where
  "math_pi = fl (314159265358979323846264338327950288419716939937510582097494459 / 10 ^ 62)"

definition degrees :: "f64 \<Rightarrow> f64" where
  "degrees x = fdiv (fmul x math_pi) (Fin 180)"

text \<open>\<open>2 * earthRadiusMetres\<close> is a constant expression, rounded once.\<close>

definition distance_to :: "trig \<Rightarrow> coordinate \<Rightarrow> coordinate \<Rightarrow> f64" where
  "distance_to g c e =
     (let lat1 = degrees (co_lat c); lat2 = degrees (co_lat e);
          d_lat = degrees (fsub (co_lat e) (co_lat c)); d_lng = degrees (fsub (co_lng e) (co_lng c));
          sin_lat = tg_sin g (fdiv d_lat (Fin 2)); sin_lng = tg_sin g (fdiv d_lng (Fin 2));
          a = fadd (fmul sin_lat sin_lat) (fmul (fmul (fmul (tg_cos g lat1) (tg_cos g lat2)) sin_lng) sin_lng)
      in fmul (fl (2 * (63710088 / 10))) (tg_asin g (tg_sqrt g (fmin (Fin 1) a))))"

definition kilometres :: "f64 \<Rightarrow> f64" where "kilometres d = fdiv d (Fin 1000)"
definition kilometres_from :: "f64 \<Rightarrow> f64" where "kilometres_from km = fmul km (Fin 1000)"

section \<open>Polygons\<close>

definition err_degenerate :: error where
  "err_degenerate = Sentinel ''polygon needs at least three vertices''"

record polygon =
  py_vertices :: "coordinate list"
  py_min :: coordinate
  py_max :: coordinate

definition same_point :: "coordinate \<Rightarrow> coordinate \<Rightarrow> bool" where
  "same_point a b \<longleftrightarrow> feq (co_lat a) (co_lat b) \<and> feq (co_lng a) (co_lng b)"

definition open_ring :: "coordinate list \<Rightarrow> coordinate list" where
  "open_ring vs = (if length vs > 1 \<and> same_point (hd vs) (last vs) then butlast vs else vs)"

definition new_polygon :: "coordinate list \<Rightarrow> error + polygon" where
  "new_polygon vertices =
     (let ring = open_ring vertices
      in if length ring < 3 then Inl err_degenerate
         else Inr \<lparr>py_vertices = ring,
           py_min = \<lparr>co_lat = foldl (\<lambda>m v. fmin m (co_lat v)) PInf ring, co_lng = foldl (\<lambda>m v. fmin m (co_lng v)) PInf ring\<rparr>,
           py_max = \<lparr>co_lat = foldl (\<lambda>m v. fmax m (co_lat v)) NInf ring, co_lng = foldl (\<lambda>m v. fmax m (co_lng v)) NInf ring\<rparr>\<rparr>)"

definition epsilon :: f64 where "epsilon = fl (1 / 10 ^ 9)"

definition on_segment :: "coordinate \<Rightarrow> coordinate \<Rightarrow> coordinate \<Rightarrow> bool" where
  "on_segment a b c =
     (let cross = fsub (fmul (fsub (co_lat c) (co_lat a)) (fsub (co_lng b) (co_lng a)))
                       (fmul (fsub (co_lng c) (co_lng a)) (fsub (co_lat b) (co_lat a)))
      in if flt epsilon (fabs cross) then False
         else fle (fsub (fmin (co_lat a) (co_lat b)) epsilon) (co_lat c) \<and>
              fle (co_lat c) (fadd (fmax (co_lat a) (co_lat b)) epsilon) \<and>
              fle (fsub (fmin (co_lng a) (co_lng b)) epsilon) (co_lng c) \<and>
              fle (co_lng c) (fadd (fmax (co_lng a) (co_lng b)) epsilon))"

text \<open>Whether the edge from \<open>vj\<close> to \<open>vi\<close> straddles the ray's latitude and the ray crosses it.\<close>

definition straddles :: "coordinate \<Rightarrow> coordinate \<Rightarrow> coordinate \<Rightarrow> bool" where
  "straddles c vi vj \<longleftrightarrow> flt (co_lat c) (co_lat vi) \<noteq> flt (co_lat c) (co_lat vj)"

definition cross_lng :: "coordinate \<Rightarrow> coordinate \<Rightarrow> coordinate \<Rightarrow> f64" where
  "cross_lng c vi vj = fadd (co_lng vi)
     (fmul (fdiv (fsub (co_lat c) (co_lat vi)) (fsub (co_lat vj) (co_lat vi))) (fsub (co_lng vj) (co_lng vi)))"

fun ray_cast :: "coordinate \<Rightarrow> coordinate \<Rightarrow> coordinate list \<Rightarrow> bool \<Rightarrow> bool" where
  "ray_cast c vj [] inside = inside"
| "ray_cast c vj (vi # vs) inside =
     (if on_segment vi vj c then True
      else if \<not> straddles c vi vj then ray_cast c vi vs inside
      else ray_cast c vi vs (if flt (co_lng c) (cross_lng c vi vj) then \<not> inside else inside))"

definition polygon_contains :: "polygon \<Rightarrow> coordinate \<Rightarrow> bool" where
  "polygon_contains p c =
     (if flt (co_lat c) (co_lat (py_min p)) \<or> flt (co_lat (py_max p)) (co_lat c) \<or>
         flt (co_lng c) (co_lng (py_min p)) \<or> flt (co_lng (py_max p)) (co_lng c) then False
      else case py_vertices p of [] \<Rightarrow> False
        | vs \<Rightarrow> ray_cast c (last vs) vs False)"

section \<open>Divisions, districts and areas\<close>

definition err_empty_name :: error where "err_empty_name = Sentinel ''name is required''"
definition err_empty_code :: error where "err_empty_code = Sentinel ''code is required''"
definition err_unknown_division :: error where "err_unknown_division = Sentinel ''point is outside every division''"

definition all_division_codes :: "string list" where
  "all_division_codes = [''DHA'', ''CTG'', ''KHU'', ''RAJ'', ''BAR'', ''SYL'', ''RAN'', ''MYM'']"

definition division_code_valid :: "string \<Rightarrow> bool" where
  "division_code_valid d \<longleftrightarrow> list_ex (\<lambda>known. d = known) all_division_codes"

record division =
  dv_code :: string
  dv_name :: string
  dv_boundary :: polygon

definition new_division :: "string \<Rightarrow> string \<Rightarrow> polygon \<Rightarrow> error + division" where
  "new_division code name boundary =
     (if \<not> division_code_valid code then Inl err_empty_code
      else if name = [] then Inl err_empty_name
      else if py_vertices boundary = [] then Inl err_degenerate
      else Inr \<lparr>dv_code = code, dv_name = name, dv_boundary = boundary\<rparr>)"

definition division_contains :: "division \<Rightarrow> coordinate \<Rightarrow> bool" where
  "division_contains d c = polygon_contains (dv_boundary d) c"

record district =
  dt_code :: string
  dt_name :: string
  dt_division :: string
  dt_boundary :: polygon

definition new_district :: "string \<Rightarrow> string \<Rightarrow> string \<Rightarrow> polygon \<Rightarrow> error + district" where
  "new_district code name dv boundary =
     (if code = [] then Inl err_empty_code
      else if name = [] then Inl err_empty_name
      else if \<not> division_code_valid dv then Inl err_empty_code
      else if py_vertices boundary = [] then Inl err_degenerate
      else Inr \<lparr>dt_code = code, dt_name = name, dt_division = dv, dt_boundary = boundary\<rparr>)"

record area =
  ar_code :: string
  ar_name :: string
  ar_district :: string
  ar_division :: string
  ar_centre :: coordinate

definition new_area :: "string \<Rightarrow> string \<Rightarrow> string \<Rightarrow> string \<Rightarrow> coordinate \<Rightarrow> error + area" where
  "new_area code name ds dv centre =
     (if code = [] then Inl err_empty_code
      else if name = [] then Inl err_empty_name
      else if ds = [] then Inl err_empty_code
      else if \<not> division_code_valid dv then Inl err_empty_code
      else Inr \<lparr>ar_code = code, ar_name = name, ar_district = ds, ar_division = dv, ar_centre = centre\<rparr>)"

definition division_of :: "division list \<Rightarrow> coordinate \<Rightarrow> error + division" where
  "division_of ds c = (case find (\<lambda>d. division_contains d c) ds of None \<Rightarrow> Inl err_unknown_division | Some d \<Rightarrow> Inr d)"

definition same_division :: "division list \<Rightarrow> coordinate \<Rightarrow> coordinate \<Rightarrow> error + bool" where
  "same_division ds a b = rbind (division_of ds a) (\<lambda>da. rbind (division_of ds b) (\<lambda>db. Inr (dv_code da = dv_code db)))"

end
