(* ===== verification/Geo_App.thy ===== *)
theory Geo_App
  imports Geo_Domain Ops
begin

text \<open>
  Geo at work: its three tables, the queries of \<open>modules/geo/infrastructure\<close> and the use cases of
  \<open>modules/geo/application\<close>.  What PostGIS computes is an argument: whether a ring contains a point,
  how large a ring is, how far two points are apart and whether that is within a radius.  The stores
  of the modules that also use these tables extend the record.
\<close>

section \<open>The tables\<close>

record postgis =
  st_contains :: "coordinate list \<Rightarrow> coordinate \<Rightarrow> bool"
  st_area :: "coordinate list \<Rightarrow> rat"
  st_distance :: "coordinate \<Rightarrow> coordinate \<Rightarrow> f64"
  st_dwithin :: "coordinate \<Rightarrow> coordinate \<Rightarrow> f64 \<Rightarrow> bool"

record division_row =
  dr_code :: string
  dr_name :: string
  dr_boundary :: "coordinate list"

record area_row =
  aw_code :: string
  aw_name :: string
  aw_district :: string
  aw_division :: string
  aw_centre :: coordinate
  aw_boundary :: "coordinate list"

record location_row =
  lo_merchant_id :: string
  lo_location :: coordinate
  lo_division :: string
  lo_area :: "string option"
  lo_active :: bool

record geo_tables =
  gt_divisions :: "division_row list"
  gt_areas :: "area_row list"
  gt_locations :: "location_row list"

section \<open>Queries\<close>

text \<open>A ring read back: every vertex is a coordinate, and they make a polygon.\<close>

definition scan_polygon :: "coordinate list \<Rightarrow> error + polygon" where
  "scan_polygon ring = rbind (rmap (\<lambda>v. new_coordinate (co_lat v) (co_lng v)) ring) new_polygon"

definition scan_division :: "division_row \<Rightarrow> error + division" where
  "scan_division r = rbind (scan_polygon (dr_boundary r)) (new_division (dr_code r) (dr_name r))"

definition divisions :: "('z geo_tables_scheme, division list) op" where
  "divisions = db_read (\<lambda>s. rmap scan_division (stable_sort (\<lambda>a b. dr_code a < dr_code b) (gt_divisions s)))"

text \<open>\<open>LIMIT 1\<close> without an order: the first row stands for whichever the database picks.\<close>

definition division_containing :: "postgis \<Rightarrow> coordinate \<Rightarrow> ('z geo_tables_scheme, division) op" where
  "division_containing pg c =
     and_then (db_read (\<lambda>s. case find (\<lambda>r. st_contains pg (dr_boundary r) c) (gt_divisions s) of
         None \<Rightarrow> Inl err_unknown_division | Some r \<Rightarrow> Inr (dr_code r, dr_name r))) (\<lambda>(code, name).
     and_then (db_read (\<lambda>s. scan_polygon (case find (\<lambda>r. dr_code r = code) (gt_divisions s) of
         None \<Rightarrow> [] | Some r \<Rightarrow> dr_boundary r))) (\<lambda>boundary.
     lift_err (new_division code name boundary)))"

definition area_containing :: "postgis \<Rightarrow> coordinate \<Rightarrow> ('z geo_tables_scheme, area) op" where
  "area_containing pg c = db_read (\<lambda>s.
     case stable_sort (\<lambda>a b. st_area pg (aw_boundary a) < st_area pg (aw_boundary b))
            (filter (\<lambda>r. st_contains pg (aw_boundary r) c) (gt_areas s)) of
       [] \<Rightarrow> Inl err_unknown_division
     | r # _ \<Rightarrow> rbind (new_coordinate (co_lat (aw_centre r)) (co_lng (aw_centre r)))
         (new_area (aw_code r) (aw_name r) (aw_district r) (aw_division r)))"

record merchant_location =
  ml_merchant_id :: string
  ml_location :: coordinate
  ml_distance :: f64

definition in_reach :: "postgis \<Rightarrow> coordinate \<Rightarrow> f64 \<Rightarrow> string \<Rightarrow> location_row \<Rightarrow> bool" where
  "in_reach pg centre radius dv r \<longleftrightarrow> lo_active r \<and> lo_division r = dv \<and> st_dwithin pg (lo_location r) centre radius"

definition scan_location :: "postgis \<Rightarrow> coordinate \<Rightarrow> location_row \<Rightarrow> error + merchant_location" where
  "scan_location pg centre r = rbind (new_coordinate (co_lat (lo_location r)) (co_lng (lo_location r))) (\<lambda>l.
     Inr \<lparr>ml_merchant_id = lo_merchant_id r, ml_location = l, ml_distance = st_distance pg (lo_location r) centre\<rparr>)"

definition find_within :: "postgis \<Rightarrow> coordinate \<Rightarrow> f64 \<Rightarrow> string \<Rightarrow> nat \<Rightarrow> ('z geo_tables_scheme, merchant_location list) op" where
  "find_within pg centre radius dv limit = db_read (\<lambda>s. rmap (scan_location pg centre) (take limit
     (stable_sort (\<lambda>a b. flt (st_distance pg (lo_location a) centre) (st_distance pg (lo_location b) centre))
       (filter (in_reach pg centre radius dv) (gt_locations s)))))"

definition count_within_row :: "postgis \<Rightarrow> coordinate \<Rightarrow> f64 \<Rightarrow> string \<Rightarrow> ('z geo_tables_scheme, int64) op" where
  "count_within_row pg centre radius dv =
     db_read (\<lambda>s. Inr (int (length (filter (in_reach pg centre radius dv) (gt_locations s)))))"

record merchant_point =
  mp_merchant_id :: string
  mp_location :: coordinate
  mp_division :: string
  mp_area_code :: string
  mp_active :: bool

definition location_of :: "merchant_point \<Rightarrow> location_row" where
  "location_of m = \<lparr>lo_merchant_id = mp_merchant_id m, lo_location = mp_location m, lo_division = mp_division m,
     lo_area = (if mp_area_code m = [] then None else Some (mp_area_code m)), lo_active = mp_active m\<rparr>"

text \<open>The foreign keys: a division and, when given, an area that exist.\<close>

definition upsert_location :: "merchant_point \<Rightarrow> ('z geo_tables_scheme, unit) op" where
  "upsert_location m = db_call (\<lambda>s.
     if list_ex (\<lambda>r. dr_code r = mp_division m) (gt_divisions s) \<and>
        (mp_area_code m = [] \<or> list_ex (\<lambda>r. aw_code r = mp_area_code m) (gt_areas s))
     then (Inr (), s\<lparr>gt_locations :=
       (if list_ex (\<lambda>r. lo_merchant_id r = mp_merchant_id m) (gt_locations s)
        then map (\<lambda>r. if lo_merchant_id r = mp_merchant_id m then location_of m else r) (gt_locations s)
        else gt_locations s @ [location_of m])\<rparr>)
     else (Inl (Sentinel ''the row breaks a constraint of the table''), s))"

definition delete_location :: "string \<Rightarrow> ('z geo_tables_scheme, unit) op" where
  "delete_location mid = db_call (\<lambda>s. (Inr (), s\<lparr>gt_locations := filter (\<lambda>r. lo_merchant_id r \<noteq> mid) (gt_locations s)\<rparr>))"

section \<open>Placing a point\<close>

definition geo_failed :: "error \<Rightarrow> error" where
  "geo_failed e = wrap e KindUnavailable ''geo_lookup_failed'' ''We could not check this location. Please try again.''"

definition outside_area :: "string \<Rightarrow> error \<Rightarrow> error" where
  "outside_area msg e = wrap e KindNotFound ''outside_service_area'' msg"

text \<open>A point in no division is told apart from a look-up that failed.\<close>

definition lookup_error :: "string \<Rightarrow> error \<Rightarrow> error" where
  "lookup_error msg e = (if is_sentinel e ''point is outside every division'' then outside_area msg e else geo_failed e)"

record resolved_area =
  ra_area :: area
  ra_division :: division

definition no_area :: area where
  "no_area = \<lparr>ar_code = [], ar_name = [], ar_district = [], ar_division = [], ar_centre = \<lparr>co_lat = Fin 0, co_lng = Fin 0\<rparr>\<rparr>"

definition place_area :: "postgis \<Rightarrow> coordinate \<Rightarrow> ('z geo_tables_scheme, resolved_area) op" where
  "place_area pg c =
     and_then (or_wrap (lookup_error ''We do not deliver to this location yet.'') (division_containing pg c)) (\<lambda>d.
     and_then (or_wrap (lookup_error ''We do not deliver to this location yet.'') (area_containing pg c)) (\<lambda>a.
     ret \<lparr>ra_area = a, ra_division = d\<rparr>))"

definition place_division :: "postgis \<Rightarrow> coordinate \<Rightarrow> ('z geo_tables_scheme, resolved_area) op" where
  "place_division pg c =
     and_then (or_wrap (lookup_error ''That address is outside the area we serve.'') (division_containing pg c)) (\<lambda>d.
     and_then (attempt (area_containing pg c)) (\<lambda>found.
     ret \<lparr>ra_area = (case found of Inl _ \<Rightarrow> no_area | Inr a \<Rightarrow> a), ra_division = d\<rparr>))"

section \<open>Searching\<close>

definition max_search_limit :: int64 where "max_search_limit = 200"

definition radius_error :: error where
  "radius_error = new_error KindInvalid ''invalid_radius'' ''Search radius must be greater than zero.''"

definition search_failed :: "error \<Rightarrow> error" where
  "search_failed e = wrap e KindUnavailable ''merchant_search_failed'' ''We could not search nearby shops. Please try again.''"

text \<open>Here every failure to find the division, a failed look-up included, is a place we do not deliver to.\<close>

definition within_radius :: "postgis \<Rightarrow> coordinate \<Rightarrow> f64 \<Rightarrow> int64 \<Rightarrow> ('z geo_tables_scheme, merchant_location list) op" where
  "within_radius pg centre radius limit =
     (if fle radius (Fin 0) then raise_err radius_error
      else let n = (if limit \<le> 0 \<or> limit > max_search_limit then max_search_limit else limit)
           in and_then (or_wrap (outside_area ''We do not deliver to this location yet.'') (division_containing pg centre)) (\<lambda>d.
              or_wrap search_failed (find_within pg centre radius (dv_code d) (nat n))))"

definition count_within :: "postgis \<Rightarrow> coordinate \<Rightarrow> f64 \<Rightarrow> ('z geo_tables_scheme, int64) op" where
  "count_within pg centre radius =
     (if fle radius (Fin 0) then raise_err radius_error
      else and_then (or_wrap (outside_area ''We do not deliver to this location yet.'') (division_containing pg centre)) (\<lambda>d.
           or_wrap search_failed (count_within_row pg centre radius (dv_code d))))"

section \<open>The index of shops\<close>

definition place_failed :: "string \<Rightarrow> error \<Rightarrow> error" where
  "place_failed msg e = wrap e KindUnavailable ''merchant_place_failed'' msg"

definition place_at :: "postgis \<Rightarrow> string \<Rightarrow> coordinate \<Rightarrow> bool \<Rightarrow> ('z geo_tables_scheme, unit) op" where
  "place_at pg mid c active =
     (if trim_space mid = [] then raise_err (new_error KindInvalid ''merchant_id_required'' ''A merchant id is required.'')
      else and_then (or_wrap (lookup_error ''That address is outside the area we serve.'') (division_containing pg c)) (\<lambda>d.
           and_then (attempt (area_containing pg c)) (\<lambda>found.
           or_wrap (place_failed ''We could not save the shop location just now. Please try again.'')
             (upsert_location \<lparr>mp_merchant_id = mid, mp_location = c, mp_division = dv_code d,
                mp_area_code = (case found of Inl _ \<Rightarrow> [] | Inr a \<Rightarrow> ar_code a), mp_active = active\<rparr>))))"

section \<open>The service\<close>

definition to_coordinate :: "f64 \<Rightarrow> f64 \<Rightarrow> error + coordinate" where
  "to_coordinate lat lng = (case new_coordinate lat lng of
     Inl e \<Rightarrow> Inl (wrap e KindInvalid ''invalid_coordinate'' ''That location does not look valid.'') | Inr c \<Rightarrow> Inr c)"

record geo_area =
  ga_area_code :: string
  ga_area_name :: string
  ga_district_code :: string
  ga_division_code :: string
  ga_division_name :: string

definition geo_area_of :: "resolved_area \<Rightarrow> geo_area" where
  "geo_area_of r = \<lparr>ga_area_code = ar_code (ra_area r), ga_area_name = ar_name (ra_area r),
     ga_district_code = ar_district (ra_area r), ga_division_code = dv_code (ra_division r),
     ga_division_name = dv_name (ra_division r)\<rparr>"

definition resolve_area :: "postgis \<Rightarrow> f64 \<Rightarrow> f64 \<Rightarrow> ('z geo_tables_scheme, geo_area) op" where
  "resolve_area pg lat lng = and_then (lift_err (to_coordinate lat lng)) (\<lambda>c.
     and_then (place_area pg c) (\<lambda>r. ret (geo_area_of r)))"

definition resolve_division :: "postgis \<Rightarrow> f64 \<Rightarrow> f64 \<Rightarrow> ('z geo_tables_scheme, geo_area) op" where
  "resolve_division pg lat lng = and_then (lift_err (to_coordinate lat lng)) (\<lambda>c.
     and_then (place_division pg c) (\<lambda>r. ret (geo_area_of r)))"

record nearby_merchant =
  nm_merchant_id :: string
  nm_lat :: f64
  nm_lng :: f64
  nm_distance_m :: f64

definition nearby_of :: "merchant_location \<Rightarrow> nearby_merchant" where
  "nearby_of m = \<lparr>nm_merchant_id = ml_merchant_id m, nm_lat = co_lat (ml_location m), nm_lng = co_lng (ml_location m),
     nm_distance_m = ml_distance m\<rparr>"

definition merchants_within_radius :: "postgis \<Rightarrow> f64 \<Rightarrow> f64 \<Rightarrow> f64 \<Rightarrow> int64 \<Rightarrow> ('z geo_tables_scheme, nearby_merchant list) op" where
  "merchants_within_radius pg lat lng radius limit = and_then (lift_err (to_coordinate lat lng)) (\<lambda>c.
     and_then (within_radius pg c radius limit) (\<lambda>found. ret (map nearby_of found)))"

definition count_merchants_within_radius :: "postgis \<Rightarrow> f64 \<Rightarrow> f64 \<Rightarrow> f64 \<Rightarrow> ('z geo_tables_scheme, int64) op" where
  "count_merchants_within_radius pg lat lng radius = and_then (lift_err (to_coordinate lat lng)) (\<lambda>c.
     count_within pg c radius)"

definition distance_between :: "trig \<Rightarrow> f64 \<Rightarrow> f64 \<Rightarrow> f64 \<Rightarrow> f64 \<Rightarrow> error + f64" where
  "distance_between g alat alng blat blng = rbind (to_coordinate alat alng) (\<lambda>a.
     rbind (to_coordinate blat blng) (\<lambda>b. Inr (distance_to g a b)))"

definition place_merchant :: "postgis \<Rightarrow> string \<Rightarrow> f64 \<Rightarrow> f64 \<Rightarrow> bool \<Rightarrow> ('z geo_tables_scheme, unit) op" where
  "place_merchant pg mid lat lng active = and_then (lift_err (to_coordinate lat lng)) (\<lambda>c. place_at pg mid c active)"

definition remove_merchant :: "string \<Rightarrow> ('z geo_tables_scheme, unit) op" where
  "remove_merchant mid = or_wrap (place_failed ''We could not update the shop location just now. Please try again.'')
     (delete_location mid)"

text \<open>
  Where geo places a point, for every module whose tables lie beside its own: \<open>I\<close> is an invariant under
  which the divisions are \<open>ds\<close> and the areas are \<open>as\<close>.
\<close>

text \<open>The division a point is placed in, and the area.\<close>

definition first_division :: "postgis \<Rightarrow> division_row list \<Rightarrow> coordinate \<Rightarrow> string option" where
  "first_division pg ds c = map_option dr_code (find (\<lambda>r. st_contains pg (dr_boundary r) c) ds)"

definition first_area :: "postgis \<Rightarrow> area_row list \<Rightarrow> coordinate \<Rightarrow> area_row option" where
  "first_area pg as c = (case stable_sort (\<lambda>a b. st_area pg (aw_boundary a) < st_area pg (aw_boundary b))
     (filter (\<lambda>r. st_contains pg (aw_boundary r) c) as) of [] \<Rightarrow> None | r # _ \<Rightarrow> Some r)"

abbreviation placed_in :: "postgis \<Rightarrow> division_row list \<Rightarrow> coordinate \<Rightarrow> string \<Rightarrow> bool" where
  "placed_in pg ds c code \<equiv> first_division pg ds c = Some code \<and> division_code_valid code"

lemma coordinate_is: "new_coordinate lat lng = Inr c \<Longrightarrow> c = \<lparr>co_lat = lat, co_lng = lng\<rparr>"
  by (auto simp: new_coordinate_def split: if_splits)

lemma to_coordinate_is: "to_coordinate lat lng = Inr c \<Longrightarrow> c = \<lparr>co_lat = lat, co_lng = lng\<rparr>"
  using coordinate_is by (auto simp: to_coordinate_def split: sum.splits)

lemma to_coordinate_gives: "gives I (lift_err (to_coordinate lat lng)) (\<lambda>c. c = \<lparr>co_lat = lat, co_lng = lng\<rparr>)"
  using to_coordinate_is by (auto intro!: gives_simple)

lemma division_gives_in:
  assumes "\<And>s. I s \<Longrightarrow> gt_divisions s = ds"
  shows "gives I (division_containing pg c) (\<lambda>d. placed_in pg ds c (dv_code d))"
  unfolding division_containing_def
proof (rule gives_bind [where M = "\<lambda>(code, name). first_division pg ds c = Some code"])
  show "gives I (db_read (\<lambda>s. case find (\<lambda>r. st_contains pg (dr_boundary r) c) (gt_divisions s) of
      None \<Rightarrow> Inl err_unknown_division | Some r \<Rightarrow> Inr (dr_code r, dr_name r))) (\<lambda>(code, name). first_division pg ds c = Some code)"
    by (rule gives_read) (auto simp: assms first_division_def split: option.splits)
  fix x :: "string \<times> string"
  assume "case x of (code, name) \<Rightarrow> first_division pg ds c = Some code"
  then show "gives I ((\<lambda>(code, name).
      and_then (db_read (\<lambda>s. scan_polygon (case find (\<lambda>r. dr_code r = code) (gt_divisions s) of None \<Rightarrow> [] | Some r \<Rightarrow> dr_boundary r)))
       (\<lambda>boundary. lift_err (new_division code name boundary))) x)
      (\<lambda>d. placed_in pg ds c (dv_code d))"
    by (cases x) (auto simp: new_division_def intro!: gives_bind [where M = "\<lambda>_. True"] gives_read gives_simple split: if_splits)
qed

lemma area_gives_in:
  assumes "\<And>s. I s \<Longrightarrow> gt_areas s = as"
  shows "gives I (area_containing pg c) (\<lambda>a. \<exists>r. first_area pg as c = Some r \<and> ar_code a = aw_code r \<and> ar_name a = aw_name r \<and>
    ar_district a = aw_district r)"
  unfolding area_containing_def
  by (rule gives_read) (auto simp: assms first_area_def new_area_def rbind_Inr_iff split: list.splits if_splits)

lemma area_reads: "gives I (area_containing pg c) (\<lambda>_. True)"
  unfolding area_containing_def by (rule gives_read) simp

lemma resolve_division_gives_in:
  assumes "\<And>s. I s \<Longrightarrow> gt_divisions s = ds"
  shows "gives I (resolve_division pg lat lng) (\<lambda>a. placed_in pg ds \<lparr>co_lat = lat, co_lng = lng\<rparr> (ga_division_code a))"
  unfolding resolve_division_def
proof (rule gives_bind [OF to_coordinate_gives])
  fix c :: coordinate assume c: "c = \<lparr>co_lat = lat, co_lng = lng\<rparr>"
  have "gives I (place_division pg c) (\<lambda>r. placed_in pg ds c (dv_code (ra_division r)))"
    unfolding place_division_def
    by (rule gives_bind [OF gives_wrap [OF division_gives_in [OF assms]]])
      (auto intro!: gives_bind [OF gives_attempt [OF area_reads]] gives_simple)
  then show "gives I (and_then (place_division pg c) (\<lambda>r. ret (geo_area_of r)))
      (\<lambda>a. placed_in pg ds \<lparr>co_lat = lat, co_lng = lng\<rparr> (ga_division_code a))"
    by (rule gives_bind) (auto simp: c geo_area_of_def intro!: gives_simple)
qed

lemma resolve_area_gives_in:
  assumes "\<And>s. I s \<Longrightarrow> gt_divisions s = ds \<and> gt_areas s = as"
  shows "gives I (resolve_area pg lat lng) (\<lambda>a. placed_in pg ds \<lparr>co_lat = lat, co_lng = lng\<rparr> (ga_division_code a) \<and>
    (\<exists>r. first_area pg as \<lparr>co_lat = lat, co_lng = lng\<rparr> = Some r \<and> ga_area_code a = aw_code r \<and> ga_area_name a = aw_name r \<and>
      ga_district_code a = aw_district r))"
  unfolding resolve_area_def
proof (rule gives_bind [OF to_coordinate_gives])
  fix c :: coordinate assume c: "c = \<lparr>co_lat = lat, co_lng = lng\<rparr>"
  have "gives I (place_area pg c) (\<lambda>x. placed_in pg ds c (dv_code (ra_division x)) \<and>
      (\<exists>r. first_area pg as c = Some r \<and> ar_code (ra_area x) = aw_code r \<and> ar_name (ra_area x) = aw_name r \<and> ar_district (ra_area x) = aw_district r))"
    unfolding place_area_def
  proof (rule gives_bind [OF gives_wrap [OF division_gives_in]])
    show "gt_divisions s = ds" if "I s" for s using assms that by blast
    fix d :: division assume "placed_in pg ds c (dv_code d)"
    then show "gives I (and_then (or_wrap (lookup_error ''We do not deliver to this location yet.'') (area_containing pg c))
        (\<lambda>a. ret \<lparr>ra_area = a, ra_division = d\<rparr>)) (\<lambda>x. placed_in pg ds c (dv_code (ra_division x)) \<and>
      (\<exists>r. first_area pg as c = Some r \<and> ar_code (ra_area x) = aw_code r \<and> ar_name (ra_area x) = aw_name r \<and> ar_district (ra_area x) = aw_district r))"
      using assms by (intro gives_bind [OF gives_wrap [OF area_gives_in]] gives_simple) auto
  qed
  then show "gives I (and_then (place_area pg c) (\<lambda>r. ret (geo_area_of r)))
      (\<lambda>a. placed_in pg ds \<lparr>co_lat = lat, co_lng = lng\<rparr> (ga_division_code a) \<and>
    (\<exists>r. first_area pg as \<lparr>co_lat = lat, co_lng = lng\<rparr> = Some r \<and> ga_area_code a = aw_code r \<and> ga_area_name a = aw_name r \<and>
      ga_district_code a = aw_district r))"
    by (rule gives_bind) (auto simp: c geo_area_of_def intro!: gives_simple)
qed

end
