(* ===== verification/Merchant_App.thy ===== *)
theory Merchant_App
  imports Merchant_Domain Geo_App
begin

text \<open>
  Shops at work: the tables of \<open>modules/merchant/infrastructure\<close>, the use cases of
  \<open>modules/merchant/application\<close> (registration, papers, review, moderation, hours and holidays) and
  what other modules ask of a shop.  A row keeps its hours encoded; the columns for the kind and the
  status hold the text of their constants, whose parsing gives the constant back.
\<close>

section \<open>The tables\<close>

record shop_row =
  sh_shop :: merchant
  sh_hours :: "(string \<times> string list) list"

record status_change =
  sc_id :: string
  sc_merchant_id :: string
  sc_from :: shop_status
  sc_to :: shop_status
  sc_actor :: string
  sc_note :: string
  sc_at :: instant

record merchant_tables = geo_tables +
  mt_shops :: "shop_row list"
  mt_documents :: "(string \<times> document) list"
  mt_events :: "status_change list"

type_synonym ('z, 'a) shop_op = "('z merchant_tables_scheme, 'a) op"

definition merchant_sentinel :: "merchant_err \<Rightarrow> error" where
  "merchant_sentinel e = Sentinel (merchant_err_text e)"

fun schedule_err_text :: "schedule_err \<Rightarrow> string" where
  "schedule_err_text ErrInvalidTimeOfDay = ''that time is not valid''"
| "schedule_err_text ErrInvalidWindow = ''that time range does not make sense''"
| "schedule_err_text ErrOverlappingWindows = ''those times overlap''"
| "schedule_err_text ErrInvalidWeekday = ''that day is not valid''"
| "schedule_err_text ErrTooManyWindows = ''too many time ranges in one day''"

definition schedule_sentinel :: "schedule_err \<Rightarrow> error" where
  "schedule_sentinel e = Sentinel (schedule_err_text e)"

section \<open>Queries\<close>

definition scan_merchant :: "shop_row \<Rightarrow> error + merchant" where
  "scan_merchant r = (case decode_weekly_hours (sh_hours r) of
     Inl e \<Rightarrow> Inl (schedule_sentinel e) | Inr w \<Rightarrow> Inr (sh_shop r\<lparr>mc_hours := w, mc_documents := []\<rparr>))"

definition documents_in :: "(string \<times> document) list \<Rightarrow> string \<Rightarrow> document list" where
  "documents_in ds mid = stable_sort (\<lambda>a b. document_kind_text (do_kind a) < document_kind_text (do_kind b))
     (map snd (filter (\<lambda>x. fst x = mid) ds))"

definition documents_for :: "string \<Rightarrow> ('z, document list) shop_op" where
  "documents_for mid = db_read (\<lambda>s. Inr (documents_in (mt_documents s) mid))"

definition one_merchant :: "(merchant \<Rightarrow> bool) \<Rightarrow> ('z, merchant) shop_op" where
  "one_merchant wanted =
     and_then (db_read (\<lambda>s. case find (\<lambda>r. wanted (sh_shop r)) (mt_shops s) of
         None \<Rightarrow> Inl (merchant_sentinel ErrMerchantNotFound) | Some r \<Rightarrow> scan_merchant r)) (\<lambda>m.
     and_then (documents_for (mc_id m)) (\<lambda>ds. ret (m\<lparr>mc_documents := ds\<rparr>)))"

definition merchant_by_id :: "string \<Rightarrow> ('z, merchant) shop_op" where
  "merchant_by_id mid = one_merchant (\<lambda>m. mc_id m = mid)"

definition merchant_by_owner :: "string \<Rightarrow> ('z, merchant) shop_op" where
  "merchant_by_owner owner = one_merchant (\<lambda>m. mc_owner m = owner)"

definition row_of_merchant :: "merchant \<Rightarrow> shop_row" where
  "row_of_merchant m = \<lparr>sh_shop = m\<lparr>mc_hours := no_week, mc_documents := []\<rparr>, sh_hours = encode_week (mc_hours m)\<rparr>"

text \<open>A shop that is there keeps its owner and the time it was made.\<close>

definition overwrite_row :: "shop_row \<Rightarrow> merchant \<Rightarrow> shop_row" where
  "overwrite_row old m = row_of_merchant (m\<lparr>mc_owner := mc_owner (sh_shop old), mc_created_at := mc_created_at (sh_shop old)\<rparr>)"

text \<open>\<open>Inl\<close> is the violated unique constraint on the owner.\<close>

definition write_merchant :: "merchant \<Rightarrow> shop_row list \<Rightarrow> error + shop_row list" where
  "write_merchant m rows =
     (if list_ex (\<lambda>r. mc_id (sh_shop r) = mc_id m) rows
      then Inr (map (\<lambda>r. if mc_id (sh_shop r) = mc_id m then overwrite_row r m else r) rows)
      else if list_ex (\<lambda>r. mc_owner (sh_shop r) = mc_owner m) rows
        then Inl (Sentinel ''duplicate key value violates unique constraint'')
      else Inr (rows @ [row_of_merchant m]))"

definition put_document :: "string \<Rightarrow> (string \<times> document) list \<Rightarrow> document \<Rightarrow> (string \<times> document) list" where
  "put_document mid ds d =
     (if list_ex (\<lambda>x. fst x = mid \<and> do_kind (snd x) = do_kind d) ds
      then map (\<lambda>x. if fst x = mid \<and> do_kind (snd x) = do_kind d then (mid, d) else x) ds
      else ds @ [(mid, d)])"

definition write_documents :: "merchant \<Rightarrow> (string \<times> document) list \<Rightarrow> (string \<times> document) list" where
  "write_documents m ds = foldl (put_document (mc_id m))
     (filter (\<lambda>x. \<not> (fst x = mc_id m \<and> do_kind (snd x) \<notin> set (map do_kind (mc_documents m)))) ds) (mc_documents m)"

definition create_merchant :: "merchant \<Rightarrow> ('z, unit) shop_op" where
  "create_merchant m = db_call (\<lambda>s. case write_merchant m (mt_shops s) of
     Inl _ \<Rightarrow> (Inl (merchant_sentinel ErrAlreadyRegistered), s)
   | Inr rows \<Rightarrow> (Inr (), s\<lparr>mt_shops := rows, mt_documents := write_documents m (mt_documents s)\<rparr>))"

definition save_merchant :: "merchant \<Rightarrow> ('z, unit) shop_op" where
  "save_merchant m = db_call (\<lambda>s. case write_merchant m (mt_shops s) of
     Inl e \<Rightarrow> (Inl e, s)
   | Inr rows \<Rightarrow> (Inr (), s\<lparr>mt_shops := rows, mt_documents := write_documents m (mt_documents s)\<rparr>))"

text \<open>The papers and the events go with the shop.\<close>

definition delete_merchant :: "string \<Rightarrow> ('z, unit) shop_op" where
  "delete_merchant mid = db_call (\<lambda>s. (Inr (), s\<lparr>mt_shops := filter (\<lambda>r. mc_id (sh_shop r) \<noteq> mid) (mt_shops s),
     mt_documents := filter (\<lambda>x. fst x \<noteq> mid) (mt_documents s),
     mt_events := filter (\<lambda>e. sc_merchant_id e \<noteq> mid) (mt_events s)\<rparr>))"

record shop_filter =
  sf_status :: "shop_status option"
  sf_type :: "shop_type option"
  sf_division :: string
  sf_limit :: int64
  sf_offset :: int64

definition shop_wanted :: "shop_filter \<Rightarrow> merchant \<Rightarrow> bool" where
  "shop_wanted f m \<longleftrightarrow> (case sf_status f of None \<Rightarrow> True | Some x \<Rightarrow> mc_status m = x) \<and>
     (case sf_type f of None \<Rightarrow> True | Some x \<Rightarrow> mc_type m = x) \<and>
     (sf_division f = [] \<or> sp_division_code (mc_place m) = sf_division f)"

definition newer_shop :: "shop_row \<Rightarrow> shop_row \<Rightarrow> bool" where
  "newer_shop a b \<longleftrightarrow> mc_created_at (sh_shop b) < mc_created_at (sh_shop a) \<or>
     mc_created_at (sh_shop a) = mc_created_at (sh_shop b) \<and> mc_id (sh_shop b) < mc_id (sh_shop a)"

definition list_shops :: "shop_filter \<Rightarrow> ('z, merchant list) shop_op" where
  "list_shops f =
     and_then (db_read (\<lambda>s. rmap scan_merchant (take (nat (sf_limit f)) (drop (nat (sf_offset f))
       (stable_sort newer_shop (filter (\<lambda>r. shop_wanted f (sh_shop r)) (mt_shops s))))))) (\<lambda>found.
     map_each (\<lambda>m. and_then (documents_for (mc_id m)) (\<lambda>ds. ret (m\<lparr>mc_documents := ds\<rparr>))) found)"

text \<open>The event must name a shop that is there, under an id of its own.\<close>

definition record_status_change :: "status_change \<Rightarrow> ('z, unit) shop_op" where
  "record_status_change e = db_call (\<lambda>s.
     if list_ex (\<lambda>x. sc_id x = sc_id e) (mt_events s) \<or> \<not> list_ex (\<lambda>r. mc_id (sh_shop r) = sc_merchant_id e) (mt_shops s)
     then (Inl (Sentinel ''the row breaks a constraint of the table''), s)
     else (Inr (), s\<lparr>mt_events := mt_events s @ [e]\<rparr>))"

definition newer_event :: "status_change \<Rightarrow> status_change \<Rightarrow> bool" where
  "newer_event a b \<longleftrightarrow> sc_at b < sc_at a \<or> sc_at a = sc_at b \<and> sc_id b < sc_id a"

definition status_history :: "string \<Rightarrow> int64 \<Rightarrow> ('z, status_change list) shop_op" where
  "status_history mid limit = db_read (\<lambda>s. Inr (take (nat limit)
     (stable_sort newer_event (filter (\<lambda>e. sc_merchant_id e = mid) (mt_events s)))))"

section \<open>Errors\<close>

definition shop_unavailable :: "string \<Rightarrow> error \<Rightarrow> error" where
  "shop_unavailable msg e = wrap e KindUnavailable ''merchant_unavailable'' msg"

definition details_error :: "merchant_err \<Rightarrow> error" where
  "details_error e = (let s = merchant_sentinel e in case e of
     ErrEmptyName \<Rightarrow> wrap s KindInvalid ''shop_name_required'' ''Please enter your shop's name.''
   | ErrNameTooLong \<Rightarrow> wrap s KindInvalid ''shop_details_too_long'' ''Some of those details are too long.''
   | ErrTooLong \<Rightarrow> wrap s KindInvalid ''shop_details_too_long'' ''Some of those details are too long.''
   | ErrInvalidPhone \<Rightarrow> wrap s KindInvalid ''invalid_phone'' ''Please enter your shop's mobile number, like 01712345678.''
   | ErrInvalidEmail \<Rightarrow> wrap s KindInvalid ''invalid_email'' ''That email address does not look valid.''
   | ErrInvalidLogoURL \<Rightarrow> wrap s KindInvalid ''invalid_logo_url'' ''That logo address is not valid.''
   | ErrEmptyAddressLine \<Rightarrow> wrap s KindInvalid ''address_line_required'' ''Please enter your shop's street address.''
   | _ \<Rightarrow> wrap s KindInvalid ''invalid_shop_details'' ''Some of those details are not valid.'')"

definition document_error :: "merchant_err \<Rightarrow> error" where
  "document_error e = (let s = merchant_sentinel e in case e of
     ErrEmptyDocumentNumber \<Rightarrow> wrap s KindInvalid ''document_number_required'' ''Please enter the number printed on the document.''
   | ErrEmptyDocumentFile \<Rightarrow> wrap s KindInvalid ''document_file_required'' ''Please attach a photo of the document.''
   | _ \<Rightarrow> wrap s KindInvalid ''invalid_document'' ''That document is not valid.'')"

definition readiness_error :: "merchant_err \<Rightarrow> document_kind list \<Rightarrow> error" where
  "readiness_error e missing =
     (if e = ErrUnplaced
      then wrap (merchant_sentinel e) KindConflict ''shop_not_placed''
             ''We could not place your shop on the map. Please set the pin again.''
      else foldl (\<lambda>x k. with_field x (''missing_'' @ document_kind_text k) ''required'')
             (wrap (merchant_sentinel e) KindConflict ''documents_incomplete''
               ''Please upload the remaining documents before submitting.'') missing)"

definition transition_error :: "merchant_err \<Rightarrow> shop_status \<Rightarrow> error" where
  "transition_error e from_status = with_field (wrap (merchant_sentinel e) KindConflict ''invalid_status_change''
     ''Your shop cannot move to that state from where it is now.'') ''status'' (shop_status_text from_status)"

definition hours_error :: "schedule_err \<Rightarrow> error" where
  "hours_error e = (let s = schedule_sentinel e in case e of
     ErrOverlappingWindows \<Rightarrow> wrap s KindInvalid ''overlapping_hours'' ''Two of those opening times overlap. Please check them.''
   | ErrTooManyWindows \<Rightarrow> wrap s KindInvalid ''too_many_hours'' ''Please use at most three opening times in a day.''
   | ErrInvalidWeekday \<Rightarrow> wrap s KindInvalid ''invalid_weekday'' ''That is not a day of the week.''
   | _ \<Rightarrow> wrap s KindInvalid ''invalid_hours'' ''Please write opening times like 09:00-22:00.'')"

definition holiday_error :: "merchant_err \<Rightarrow> error" where
  "holiday_error e = (let s = merchant_sentinel e in case e of
     ErrHolidayInThePast \<Rightarrow> wrap s KindInvalid ''holiday_in_the_past'' ''Please choose a date in the future.''
   | ErrHolidayTooLong \<Rightarrow> wrap s KindInvalid ''holiday_too_long'' ''Please choose a date within the next two months.''
   | _ \<Rightarrow> wrap s KindInvalid ''invalid_holiday'' ''Those holiday details are not valid.'')"

definition is_not_found :: "error \<Rightarrow> bool" where
  "is_not_found e \<longleftrightarrow> is_sentinel e (merchant_err_text ErrMerchantNotFound)"

definition owned :: "string \<Rightarrow> ('z, merchant) shop_op" where
  "owned owner = or_wrap (\<lambda>e. if is_not_found e
       then wrap e KindNotFound ''no_shop'' ''You have not registered a shop yet.''
       else shop_unavailable ''We could not load your shop just now. Please try again.'' e)
     (merchant_by_owner owner)"

definition load_shop :: "string \<Rightarrow> ('z, merchant) shop_op" where
  "load_shop mid = or_wrap (\<lambda>e. if is_not_found e
       then with_field (wrap e KindNotFound ''merchant_not_found'' ''We could not find that shop.'') ''merchant_id'' mid
       else shop_unavailable ''We could not load that shop just now. Please try again.'' e)
     (merchant_by_id mid)"

end
