(* ===== verification/Merchant_Cases.thy ===== *)
theory Merchant_Cases
  imports Merchant_App
begin

text \<open>
  The use cases of \<open>modules/merchant/application\<close>: an owner registers, edits, adds papers, submits,
  withdraws, sets hours and holidays; an administrator approves, rejects, suspends and reinstates;
  other modules look shops up.
\<close>

section \<open>Registration\<close>

record details_request =
  dq_name :: string
  dq_type :: string
  dq_phone :: string
  dq_email :: string
  dq_logo_url :: string
  dq_line1 :: string
  dq_line2 :: string
  dq_lat :: f64
  dq_lng :: f64

definition to_details :: "details_request \<Rightarrow> error + shop_details" where
  "to_details q = (case new_pin (dq_lat q) (dq_lng q) of
     Inl e \<Rightarrow> Inl (wrap (merchant_sentinel e) KindInvalid ''invalid_pin'' ''Please drop the pin on your shop.'')
   | Inr p \<Rightarrow> (case parse_type (dq_type q) of
       Inl e \<Rightarrow> Inl (wrap (merchant_sentinel e) KindInvalid ''unknown_merchant_type''
         ''Please choose restaurant, grocery or pharmacy.'')
     | Inr k \<Rightarrow> Inr \<lparr>sd_name = dq_name q, sd_type = k, sd_phone = dq_phone q, sd_email = dq_email q,
         sd_logo_url = dq_logo_url q, sd_line1 = dq_line1 q, sd_line2 = dq_line2 q, sd_pin = p\<rparr>))"

definition place_shop :: "postgis \<Rightarrow> merchant \<Rightarrow> ('z, merchant) shop_op" where
  "place_shop pg m = and_then (resolve_division pg (pin_lat (mc_pin m)) (pin_lng (mc_pin m))) (\<lambda>a. ret
     (m\<lparr>mc_place := \<lparr>sp_area_code = ga_area_code a, sp_area_name = ga_area_name a,
        sp_district_code = ga_district_code a, sp_division_code = ga_division_code a\<rparr>\<rparr>))"

definition publish :: "postgis \<Rightarrow> merchant \<Rightarrow> ('z, unit) shop_op" where
  "publish pg m = place_merchant pg (mc_id m) (pin_lat (mc_pin m)) (pin_lng (mc_pin m)) (mc_status m = StatusApproved)"

definition already_registered :: "error \<Rightarrow> error" where
  "already_registered e = wrap e KindConflict ''already_registered'' ''This account already has a shop.''"

definition set_up_failed :: "error \<Rightarrow> error" where
  "set_up_failed = shop_unavailable ''We could not set your shop up just now. Please try again.''"

definition register_shop :: "postgis \<Rightarrow> string \<Rightarrow> details_request \<Rightarrow> ('z, merchant) shop_op" where
  "register_shop pg owner q =
     and_then (attempt (merchant_by_owner owner)) (\<lambda>found. case found of
       Inr _ \<Rightarrow> raise_err (already_registered (merchant_sentinel ErrAlreadyRegistered))
     | Inl e \<Rightarrow>
         if \<not> is_not_found e then raise_err (set_up_failed e)
         else and_then (lift_err (to_details q)) (\<lambda>d.
              and_then (fresh_id ''mch'') (\<lambda>mid.
              and_then clock_now (\<lambda>now.
              and_then (lift_err (lift_domain details_error (new_merchant mid owner d now))) (\<lambda>m.
              and_then (place_shop pg m) (\<lambda>placed.
              and_then (or_wrap (\<lambda>e. if is_sentinel e (merchant_err_text ErrAlreadyRegistered)
                  then already_registered e else set_up_failed e) (create_merchant placed)) (\<lambda>_.
              and_then (publish pg placed) (\<lambda>_. ret placed))))))))"

definition under_review :: error where
  "under_review = new_error KindConflict ''under_review''
     ''Your shop is being reviewed. You can make changes once we have finished.''"

definition update_shop :: "postgis \<Rightarrow> string \<Rightarrow> details_request \<Rightarrow> ('z, merchant) shop_op" where
  "update_shop pg owner q =
     and_then (owned owner) (\<lambda>m.
       if mc_status m = StatusPendingReview then raise_err under_review
       else and_then (lift_err (to_details q)) (\<lambda>d.
            and_then (lift_err (lift_domain details_error (with_details m d))) (\<lambda>updated.
            and_then (place_shop pg updated) (\<lambda>placed.
            and_then (or_wrap (shop_unavailable ''We could not save those changes just now. Please try again.'')
              (save_merchant placed)) (\<lambda>_.
            and_then (publish pg placed) (\<lambda>_. ret placed))))))"

record document_request =
  dc_kind :: string
  dc_number :: string
  dc_file_url :: string

definition add_document :: "string \<Rightarrow> document_request \<Rightarrow> ('z, merchant) shop_op" where
  "add_document owner q =
     and_then (owned owner) (\<lambda>m.
       if mc_status m = StatusPendingReview then raise_err under_review
       else case parse_document_kind (dc_kind q) of
         Inl e \<Rightarrow> raise_err (wrap (merchant_sentinel e) KindInvalid ''unknown_document_kind''
           ''We do not collect that kind of document.'')
       | Inr kind \<Rightarrow>
           if \<not> requires_document m kind
           then raise_err (wrap (merchant_sentinel ErrDocumentNotRequired) KindInvalid ''document_not_required''
             ''That document is not needed for this kind of shop.'')
           else and_then clock_now (\<lambda>now.
                and_then (lift_err (lift_domain document_error (new_document kind (dc_number q) (dc_file_url q) now))) (\<lambda>d.
                and_then (or_wrap (shop_unavailable ''We could not save that document just now. Please try again.'')
                  (save_merchant (with_document m d))) (\<lambda>_. ret (with_document m d)))))"

definition submit_for_review :: "string \<Rightarrow> ('z, merchant) shop_op" where
  "submit_for_review owner =
     and_then (owned owner) (\<lambda>m. case ready_for_review m of
       Some e \<Rightarrow> raise_err (readiness_error e (missing_documents m))
     | None \<Rightarrow> (case with_status m StatusPendingReview [] of
         Inl e \<Rightarrow> raise_err (transition_error e (mc_status m))
       | Inr submitted \<Rightarrow>
           and_then (or_wrap (shop_unavailable ''We could not submit your shop just now. Please try again.'')
             (save_merchant submitted)) (\<lambda>_.
           and_then (fresh_id ''mse'') (\<lambda>eid.
           and_then clock_now (\<lambda>now.
           and_then (or_wrap (shop_unavailable ''We could not submit your shop just now. Please try again.'')
             (record_status_change \<lparr>sc_id = eid, sc_merchant_id = mc_id submitted, sc_from = mc_status m,
                sc_to = mc_status submitted, sc_actor = owner, sc_note = [], sc_at = now\<rparr>)) (\<lambda>_. ret submitted))))))"

definition withdraw_shop :: "string \<Rightarrow> ('z, unit) shop_op" where
  "withdraw_shop owner =
     and_then (owned owner) (\<lambda>m.
       if mc_status m \<noteq> StatusDraft \<and> mc_status m \<noteq> StatusRejected
       then raise_err (new_error KindConflict ''cannot_withdraw''
         ''A shop that has been approved cannot be removed here. Please contact support.'')
       else and_then (remove_merchant (mc_id m)) (\<lambda>_.
            or_wrap (shop_unavailable ''We could not remove your shop just now. Please try again.'')
              (delete_merchant (mc_id m))))"

section \<open>Moderation\<close>

text \<open>The decision is saved and the index told before it is recorded.\<close>

definition decide :: "postgis \<Rightarrow> string \<Rightarrow> string \<Rightarrow> shop_status \<Rightarrow> string \<Rightarrow> bool \<Rightarrow> ('z, merchant) shop_op" where
  "decide pg admin mid next remark required =
     (if required \<and> trim_space remark = []
      then raise_err (new_error KindInvalid ''reason_required'' ''Please give a reason. The shop owner will see it.'')
      else and_then (load_shop mid) (\<lambda>m. case with_status m next remark of
          Inl e \<Rightarrow> raise_err (transition_error e (mc_status m))
        | Inr updated \<Rightarrow>
            and_then (or_wrap (shop_unavailable ''We could not record that decision just now. Please try again.'')
              (save_merchant updated)) (\<lambda>_.
            and_then (publish pg updated) (\<lambda>_.
            and_then (fresh_id ''mse'') (\<lambda>eid.
            and_then clock_now (\<lambda>now.
            and_then (or_wrap (shop_unavailable ''We could not record that decision just now. Please try again.'')
              (record_status_change \<lparr>sc_id = eid, sc_merchant_id = mc_id updated, sc_from = mc_status m,
                 sc_to = mc_status updated, sc_actor = admin, sc_note = trim_space remark, sc_at = now\<rparr>)) (\<lambda>_.
            ret updated)))))))"

definition approve_shop :: "postgis \<Rightarrow> string \<Rightarrow> string \<Rightarrow> string \<Rightarrow> ('z, merchant) shop_op" where
  "approve_shop pg admin mid remark = decide pg admin mid StatusApproved remark False"

definition reject_shop :: "postgis \<Rightarrow> string \<Rightarrow> string \<Rightarrow> string \<Rightarrow> ('z, merchant) shop_op" where
  "reject_shop pg admin mid remark = decide pg admin mid StatusRejected remark True"

definition suspend_shop :: "postgis \<Rightarrow> string \<Rightarrow> string \<Rightarrow> string \<Rightarrow> ('z, merchant) shop_op" where
  "suspend_shop pg admin mid remark = decide pg admin mid StatusSuspended remark True"

definition reinstate_shop :: "postgis \<Rightarrow> string \<Rightarrow> string \<Rightarrow> string \<Rightarrow> ('z, merchant) shop_op" where
  "reinstate_shop pg admin mid remark = decide pg admin mid StatusApproved remark False"

definition max_list_limit :: int64 where "max_list_limit = 100"
definition default_list_limit :: int64 where "default_list_limit = 20"

definition list_for_admin :: "string \<Rightarrow> string \<Rightarrow> string \<Rightarrow> int64 \<Rightarrow> int64 \<Rightarrow> ('z, merchant list) shop_op" where
  "list_for_admin status kind dv limit offset =
     and_then (lift_err (if status = [] then Inr None else case parse_shop_status status of
         Inl e \<Rightarrow> Inl (wrap (merchant_sentinel e) KindInvalid ''unknown_status'' ''That is not a shop status we use.'')
       | Inr x \<Rightarrow> Inr (Some x))) (\<lambda>st.
     and_then (lift_err (if kind = [] then Inr None else case parse_type kind of
         Inl e \<Rightarrow> Inl (wrap (merchant_sentinel e) KindInvalid ''unknown_merchant_type''
           ''Please choose restaurant, grocery or pharmacy.'')
       | Inr x \<Rightarrow> Inr (Some x))) (\<lambda>ty.
     or_wrap (shop_unavailable ''We could not load the shop list just now. Please try again.'')
       (list_shops \<lparr>sf_status = st, sf_type = ty, sf_division = trim_space dv,
          sf_limit = (if limit \<le> 0 \<or> limit > max_list_limit then default_list_limit else limit),
          sf_offset = (if offset < 0 then 0 else offset)\<rparr>)))"

definition shop_history :: "string \<Rightarrow> int64 \<Rightarrow> ('z, status_change list) shop_op" where
  "shop_history mid limit =
     or_wrap (shop_unavailable ''We could not load that history just now. Please try again.'')
       (status_history mid (if limit \<le> 0 \<or> limit > max_list_limit then default_list_limit else limit))"

section \<open>Hours and holidays\<close>

definition set_hours :: "string \<Rightarrow> (string \<times> string list) list \<Rightarrow> ('z, merchant) shop_op" where
  "set_hours owner days =
     and_then (owned owner) (\<lambda>m.
     and_then (lift_err (lift_domain hours_error (decode_weekly_hours days))) (\<lambda>hours.
       if weekly_is_empty hours
       then raise_err (new_error KindInvalid ''hours_always_closed''
         ''Please leave at least one day open. To close for a while, use holiday mode.'')
       else and_then (or_wrap (shop_unavailable ''We could not save your opening times just now. Please try again.'')
              (save_merchant (m\<lparr>mc_hours := hours\<rparr>))) (\<lambda>_. ret (m\<lparr>mc_hours := hours\<rparr>))))"

definition start_holiday :: "string \<Rightarrow> instant \<Rightarrow> string \<Rightarrow> ('z, merchant) shop_op" where
  "start_holiday owner until reason =
     and_then (owned owner) (\<lambda>m.
     and_then clock_now (\<lambda>now.
     and_then (lift_err (lift_domain holiday_error (new_holiday until reason now))) (\<lambda>h.
     and_then (or_wrap (shop_unavailable ''We could not close your shop just now. Please try again.'')
       (save_merchant (m\<lparr>mc_holiday := h\<rparr>))) (\<lambda>_. ret (m\<lparr>mc_holiday := h\<rparr>)))))"

definition end_holiday :: "string \<Rightarrow> ('z, merchant) shop_op" where
  "end_holiday owner =
     and_then (owned owner) (\<lambda>m.
     and_then (or_wrap (shop_unavailable ''We could not reopen your shop just now. Please try again.'')
       (save_merchant (m\<lparr>mc_holiday := no_holiday\<rparr>))) (\<lambda>_. ret (m\<lparr>mc_holiday := no_holiday\<rparr>)))"

section \<open>What other modules ask\<close>

record shop_view =
  sv_id :: string
  sv_owner :: string
  sv_name :: string
  sv_type :: string
  sv_phone :: string
  sv_logo_url :: string
  sv_line1 :: string
  sv_line2 :: string
  sv_single_line :: string
  sv_lat :: f64
  sv_lng :: f64
  sv_place :: shop_place
  sv_listed :: bool
  sv_open_now :: bool
  sv_open_status :: string

definition shop_view_of :: "merchant \<Rightarrow> instant \<Rightarrow> string \<Rightarrow> shop_view" where
  "shop_view_of m now lang =
     \<lparr>sv_id = mc_id m, sv_owner = mc_owner m, sv_name = mc_name m, sv_type = shop_type_text (mc_type m),
      sv_phone = mc_phone m, sv_logo_url = mc_logo_url m, sv_line1 = mc_line1 m, sv_line2 = mc_line2 m,
      sv_single_line = single_line m, sv_lat = pin_lat (mc_pin m), sv_lng = pin_lng (mc_pin m),
      sv_place = mc_place m, sv_listed = is_listed m now, sv_open_now = is_open_at m now,
      sv_open_status = open_status m now lang\<rparr>"

definition find_shop :: "string \<Rightarrow> ('z, shop_view) shop_op" where
  "find_shop mid = and_then (load_shop mid) (\<lambda>m. and_then clock_now (\<lambda>now. ret (shop_view_of m now [])))"

definition owned_by :: "string \<Rightarrow> ('z, string list) shop_op" where
  "owned_by owner = and_then (attempt (merchant_by_owner owner)) (\<lambda>found. case found of
     Inr m \<Rightarrow> ret [mc_id m]
   | Inl e \<Rightarrow> if is_not_found e then ret []
       else raise_err (wrap e KindUnavailable ''merchant_unavailable'' ''We could not check your shop just now. Please try again.''))"

fun listed_among :: "instant \<Rightarrow> string list \<Rightarrow> ('z, shop_view list) shop_op" where
  "listed_among now [] = ret []"
| "listed_among now (mid # mids) = and_then (attempt (merchant_by_id mid)) (\<lambda>found.
     and_then (listed_among now mids) (\<lambda>rest. ret (case found of
       Inl _ \<Rightarrow> rest
     | Inr m \<Rightarrow> if is_listed m now then shop_view_of m now [] # rest else rest)))"

definition listed :: "string list \<Rightarrow> ('z, shop_view list) shop_op" where
  "listed mids = and_then clock_now (\<lambda>now. listed_among now mids)"

definition is_accepting_orders :: "string \<Rightarrow> ('z, bool) shop_op" where
  "is_accepting_orders mid = and_then (load_shop mid) (\<lambda>m. and_then clock_now (\<lambda>now. ret (is_open_at m now)))"

end
