(* ===== verification/Discovery_App.thy ===== *)
theory Discovery_App
  imports Discovery_Domain Merchant_Cases Pricing_App
begin

text \<open>
  \<open>modules/discovery/application\<close>: the search for shops around a point and the question whether a
  shop can be reached from one, on the tables of geo and merchant.  The settings of a place and its
  tariff are asked of configuration and pricing (\<open>finder\<close>); \<open>Pricing_App\<close> and \<open>Config_Safety\<close> say
  what their answers are in every history.
\<close>

record finder =
  fs_settings :: "placement \<Rightarrow> error + resolved"
  fs_tariff :: "placement \<Rightarrow> error + tariff"

definition search_fan_out :: int64 where "search_fan_out = 120"

section \<open>The ladder of a place\<close>

definition discovery_config_error :: "error \<Rightarrow> error" where
  "discovery_config_error e = wrap e KindUnavailable ''discovery_config_unavailable''
     ''We could not work out what is near you just now. Please try again.''"

definition policy_error :: "discovery_err \<Rightarrow> error" where
  "policy_error e = wrap (Sentinel (discovery_err_text e)) KindInternal
     (if e = ErrCeilingDisabled then ''division_ceiling_disabled'' else ''discovery_config_invalid'')
     ''Search is unavailable in this area. Please try again later.''"

definition policy_setting :: "config_err + 'a \<Rightarrow> error + 'a" where
  "policy_setting = lift_domain (\<lambda>e. discovery_config_error (config_sentinel e))"

definition policy_from :: "resolved \<Rightarrow> error + policy" where
  "policy_from r =
     rbind (policy_setting (resolved_int r ''discovery.base_radius'')) (\<lambda>base.
     rbind (policy_setting (resolved_int r ''discovery.expansion_step'')) (\<lambda>step.
     rbind (policy_setting (resolved_int r ''discovery.max_expansions'')) (\<lambda>most.
     rbind (policy_setting (resolved_int r ''discovery.min_merchants'')) (\<lambda>fewest.
     rbind (policy_setting (resolved_bool r ''discovery.auto_expand'')) (\<lambda>auto.
     rbind (policy_setting (resolved_bool r ''discovery.division_ceiling'')) (\<lambda>ceiling.
       lift_domain policy_error (new_policy (of_int64 base) (of_int64 step) most fewest auto ceiling)))))))"

definition placement_of :: "geo_area \<Rightarrow> placement" where
  "placement_of a = \<lparr>pl_area = ga_area_code a, pl_district = ga_district_code a, pl_division = ga_division_code a\<rparr>"

definition policy_at :: "finder \<Rightarrow> geo_area \<Rightarrow> error + policy" where
  "policy_at fs a = rbind (lift_domain discovery_config_error (fs_settings fs (placement_of a))) policy_from"

section \<open>Reaching one shop\<close>

record reach_answer =
  rh_merchant_id :: string
  rh_area_code :: string
  rh_district_code :: string
  rh_division_code :: string
  rh_distance_m :: f64
  rh_distance_text :: string
  rh_reachable :: bool
  rh_required_level :: int64
  rh_expanded :: bool
  rh_reason :: string

text \<open>The level is solved for, not walked.\<close>

definition level_for :: "policy \<Rightarrow> f64 \<Rightarrow> int64" where
  "level_for p distance =
     (let over = fsub distance (py_base_radius_m p)
      in if fle over (Fin 0) then 0 else clamp_level p (to_int64 (fceil (fdiv over (py_step_m p)))))"

definition reach_within :: "policy \<Rightarrow> reach_answer \<Rightarrow> reach_answer" where
  "reach_within p r =
     (if flt (radius_at p (py_max_expansions p)) (rh_distance_m r) then r\<lparr>rh_reason := ''beyond_max_radius''\<rparr>
      else r\<lparr>rh_reachable := True, rh_required_level := level_for p (rh_distance_m r),
             rh_expanded := level_for p (rh_distance_m r) > 0\<rparr>)"

definition reach :: "trig \<Rightarrow> postgis \<Rightarrow> finder \<Rightarrow> f64 \<Rightarrow> f64 \<Rightarrow> string \<Rightarrow> string \<Rightarrow> ('z, reach_answer) shop_op" where
  "reach g pg fs lat lng mid lang =
     and_then (find_shop mid) (\<lambda>shop.
     and_then (resolve_division pg lat lng) (\<lambda>a.
     and_then (lift_err (distance_between g lat lng (sv_lat shop) (sv_lng shop))) (\<lambda>distance.
       let r = \<lparr>rh_merchant_id = mid, rh_area_code = ga_area_code a, rh_district_code = ga_district_code a,
             rh_division_code = ga_division_code a, rh_distance_m = distance,
             rh_distance_text = format_distance distance lang, rh_reachable = False, rh_required_level = 0,
             rh_expanded = False, rh_reason = []\<rparr>
       in if sp_division_code (sv_place shop) \<noteq> ga_division_code a
          then ret (r\<lparr>rh_reason := ''outside_division''\<rparr>)
          else and_then (lift_err (policy_at fs a)) (\<lambda>p. ret (reach_within p r)))))"

section \<open>Searching\<close>

record search_query =
  qu_lat :: f64
  qu_lng :: f64
  qu_level :: int64
  qu_type :: string
  qu_text :: string
  qu_lang :: string
  qu_limit :: int64
  qu_offset :: int64

record merchant_card =
  cd_id :: string
  cd_name :: string
  cd_type :: string
  cd_logo_url :: string
  cd_phone :: string
  cd_area_name :: string
  cd_lat :: f64
  cd_lng :: f64
  cd_distance_m :: f64
  cd_distance :: string
  cd_open_now :: bool
  cd_open_status :: string
  cd_delivery :: fee_answer

record search_result =
  se_placement :: geo_area
  se_expansion :: expansion
  se_merchants :: "merchant_card list"
  se_total :: int64
  se_radius_text :: string
  se_next_radius_text :: string
  se_notice :: string

definition valid_type :: "string \<Rightarrow> bool" where
  "valid_type t \<longleftrightarrow> t = ''restaurant'' \<or> t = ''grocery'' \<or> t = ''pharmacy''"

text \<open>With auto-expand on, as many levels as are left are tried in turn.\<close>

fun settle_from :: "nat \<Rightarrow> postgis \<Rightarrow> policy \<Rightarrow> f64 \<Rightarrow> f64 \<Rightarrow> int64 \<Rightarrow> ('z, int64) shop_op" where
  "settle_from 0 pg p lat lng level = ret level"
| "settle_from (Suc left) pg p lat lng level =
     and_then (count_merchants_within_radius pg lat lng (radius_at p level)) (\<lambda>found.
       if enough p found then ret level else settle_from left pg p lat lng (level + 1))"

definition settle_level :: "postgis \<Rightarrow> policy \<Rightarrow> search_query \<Rightarrow> ('z, int64) shop_op" where
  "settle_level pg p q =
     (let level = clamp_level p (qu_level q)
      in if \<not> py_auto_expand p then ret level
         else settle_from (nat (py_max_expansions p - level)) pg p (qu_lat q) (qu_lng q) level)"

definition candidate_of :: "search_query \<Rightarrow> nearby_merchant list \<Rightarrow> shop_view \<Rightarrow> shop_candidate option" where
  "candidate_of q near m =
     (if qu_type q \<noteq> [] \<and> sv_type m \<noteq> qu_type q then None
      else case relevance (sv_name m) (qu_text q) of (score, matched) \<Rightarrow>
        if \<not> matched then None
        else Some \<lparr>sk_id = sv_id m, sk_relevance = score,
               sk_distance_m = (case find (\<lambda>n. nm_merchant_id n = sv_id m) (rev near) of None \<Rightarrow> Fin 0 | Some n \<Rightarrow> nm_distance_m n),
               sk_rating = Fin 0, sk_open = sv_open_now m\<rparr>)"

text \<open>Every card is priced at the level of the search.\<close>

definition card_of :: "tariff \<Rightarrow> search_query \<Rightarrow> int64 \<Rightarrow> shop_view list \<Rightarrow> shop_candidate \<Rightarrow> error + merchant_card" where
  "card_of t q level shops c =
     rbind (answer_fee t \<lparr>qr_subtotal_minor = 0, qr_distance_m = sk_distance_m c, qr_expansion_level = level, qr_lang = qu_lang q\<rparr>) (\<lambda>fee.
     case find (\<lambda>m. sv_id m = sk_id c) (rev shops) of
       None \<Rightarrow> Inr \<lparr>cd_id = [], cd_name = [], cd_type = [], cd_logo_url = [], cd_phone = [], cd_area_name = [],
         cd_lat = Fin 0, cd_lng = Fin 0, cd_distance_m = sk_distance_m c,
         cd_distance = format_distance (sk_distance_m c) (qu_lang q), cd_open_now = False, cd_open_status = [], cd_delivery = fee\<rparr>
     | Some m \<Rightarrow> Inr \<lparr>cd_id = sv_id m, cd_name = sv_name m, cd_type = sv_type m, cd_logo_url = sv_logo_url m,
         cd_phone = sv_phone m, cd_area_name = sp_area_name (sv_place m), cd_lat = sv_lat m, cd_lng = sv_lng m,
         cd_distance_m = sk_distance_m c, cd_distance = format_distance (sk_distance_m c) (qu_lang q),
         cd_open_now = sv_open_now m, cd_open_status = sv_open_status m, cd_delivery = fee\<rparr>)"

definition merchant_cards :: "finder \<Rightarrow> geo_area \<Rightarrow> nearby_merchant list \<Rightarrow> int64 \<Rightarrow> f64 \<Rightarrow> search_query
    \<Rightarrow> ('z, merchant_card list) shop_op" where
  "merchant_cards fs a near level radius q =
     (if near = [] then ret []
      else and_then (listed (map nm_merchant_id near)) (\<lambda>shops.
           and_then (lift_err (fs_tariff fs (placement_of a))) (\<lambda>t.
           lift_err (rmap (card_of t q level (filter (\<lambda>m. candidate_of q near m \<noteq> None) shops))
             (rank_shops (List.map_filter (candidate_of q near) shops) radius)))))"

definition page_of :: "'a list \<Rightarrow> int64 \<Rightarrow> int64 \<Rightarrow> 'a list" where
  "page_of cards limit offset =
     (let from = (if offset < 0 then 0 else offset); n = int (length cards)
      in if from \<ge> n then []
         else let till = (if limit > 0 \<and> add64 from limit < n then add64 from limit else n)
              in take (nat (till - from)) (drop (nat from) cards))"

definition next_radius_text :: "expansion \<Rightarrow> string \<Rightarrow> string" where
  "next_radius_text e lang = (if \<not> ex_can_expand e then [] else format_radius (ex_next_radius_m e) lang)"

definition em_dash :: string where "em_dash = utf8 [0x20, 0x2014, 0x20]"

definition bn_none_ceiling_1 :: string where
  "bn_none_ceiling_1 = utf8 [0x0986, 0x09AA, 0x09A8, 0x09BE, 0x09B0, 0x0020, 0x09AC, 0x09BF, 0x09AD, 0x09BE, 0x0997, 0x09C7, 0x09B0, 0x0020,
     0x09AE, 0x09A7, 0x09CD, 0x09AF, 0x09C7, 0x0020]"

definition bn_none_ceiling_2 :: string where
  "bn_none_ceiling_2 = utf8 [0x0020, 0x09AA, 0x09B0, 0x09CD, 0x09AF, 0x09A8, 0x09CD, 0x09A4, 0x0020, 0x0996, 0x09C1, 0x0981, 0x099C, 0x09C7,
     0x0020, 0x0995, 0x09CB, 0x09A8, 0x09CB, 0x0020, 0x09A6, 0x09CB, 0x0995, 0x09BE, 0x09A8, 0x0020, 0x09AA, 0x09BE,
     0x0993, 0x09AF, 0x09BC, 0x09BE, 0x0020, 0x09AF, 0x09BE, 0x09AF, 0x09BC, 0x09A8, 0x09BF, 0x0964, 0x0020, 0x098F,
     0x099F, 0x09BE, 0x0987, 0x0020, 0x09B8, 0x09B0, 0x09CD, 0x09AC, 0x09CB, 0x099A, 0x09CD, 0x099A, 0x0020, 0x09A6,
     0x09C2, 0x09B0, 0x09A4, 0x09CD, 0x09AC, 0x0964]"

definition bn_none_1 :: string where
  "bn_none_1 = utf8 [0x0020, 0x098F, 0x09B0, 0x0020, 0x09AE, 0x09A7, 0x09CD, 0x09AF, 0x09C7, 0x0020, 0x0995, 0x09CB, 0x09A8, 0x09CB,
     0x0020, 0x09A6, 0x09CB, 0x0995, 0x09BE, 0x09A8, 0x0020, 0x09A8, 0x09C7, 0x0987, 0x0964, 0x0020]"

definition bn_none_2 :: string where
  "bn_none_2 = utf8 [0x0020, 0x09AA, 0x09B0, 0x09CD, 0x09AF, 0x09A8, 0x09CD, 0x09A4, 0x0020, 0x0996, 0x09C1, 0x0981, 0x099C, 0x09C7,
     0x0020, 0x09A6, 0x09C7, 0x0996, 0x09C1, 0x09A8, 0x0020, 0x2014, 0x0020, 0x09A1, 0x09C7, 0x09B2, 0x09BF, 0x09AD,
     0x09BE, 0x09B0, 0x09BF, 0x0020, 0x099A, 0x09BE, 0x09B0, 0x09CD, 0x099C, 0x0020, 0x09AC, 0x09C7, 0x09B6, 0x09BF,
     0x0020, 0x09B9, 0x09AC, 0x09C7, 0x0964]"

definition bn_few_1 :: string where
  "bn_few_1 = utf8 [0x0995, 0x09BE, 0x099B, 0x09BE, 0x0995, 0x09BE, 0x099B, 0x09BF, 0x0020, 0x0995, 0x09AE, 0x0020, 0x09A6, 0x09CB,
     0x0995, 0x09BE, 0x09A8, 0x0020, 0x0986, 0x099B, 0x09C7, 0x0964, 0x0020]"

definition bn_few_2 :: string where
  "bn_few_2 = utf8 [0x0020, 0x09AA, 0x09B0, 0x09CD, 0x09AF, 0x09A8, 0x09CD, 0x09A4, 0x0020, 0x0996, 0x09C1, 0x0981, 0x099C, 0x09B2,
     0x09C7, 0x0020, 0x0986, 0x09B0, 0x0993, 0x0020, 0x09AA, 0x09BE, 0x09AC, 0x09C7, 0x09A8, 0x0020, 0x2014, 0x0020,
     0x09A1, 0x09C7, 0x09B2, 0x09BF, 0x09AD, 0x09BE, 0x09B0, 0x09BF, 0x0020, 0x099A, 0x09BE, 0x09B0, 0x09CD, 0x099C,
     0x0020, 0x09AC, 0x09C7, 0x09B6, 0x09BF, 0x0020, 0x09B9, 0x09AC, 0x09C7, 0x0964]"

definition bn_widest :: string where
  "bn_widest = utf8 [0x0020, 0x098F, 0x09B0, 0x0020, 0x09AE, 0x09A7, 0x09CD, 0x09AF, 0x09C7, 0x0020, 0x2014, 0x0020, 0x098F, 0x099F,
     0x09BE, 0x0987, 0x0020, 0x0986, 0x09AA, 0x09A8, 0x09BE, 0x09B0, 0x0020, 0x09AC, 0x09BF, 0x09AD, 0x09BE, 0x0997,
     0x09C7, 0x09B0, 0x0020, 0x09B8, 0x09B0, 0x09CD, 0x09AC, 0x09CB, 0x099A, 0x09CD, 0x099A, 0x0020, 0x09A6, 0x09C2,
     0x09B0, 0x09A4, 0x09CD, 0x09AC, 0x0964]"

definition bn_within :: string where
  "bn_within = utf8 [0x0020, 0x098F, 0x09B0, 0x0020, 0x09AE, 0x09A7, 0x09CD, 0x09AF, 0x09C7]"

definition search_notice :: "expansion \<Rightarrow> string \<Rightarrow> string" where
  "search_notice e lang =
     (let radius = format_radius (ex_radius_m e) lang; next = format_radius (ex_next_radius_m e) lang
      in if ex_found e = 0 \<and> ex_at_ceiling e then
           if bengali lang then bn_none_ceiling_1 @ radius @ bn_none_ceiling_2
           else ''No shops found within '' @ radius @ '', which is as far as we can search in your division.''
         else if ex_found e = 0 then
           if bengali lang then radius @ bn_none_1 @ next @ bn_none_2
           else ''No shops within '' @ radius @ ''. Try searching up to '' @ next @ em_dash @ ''delivery will cost more.''
         else if ex_offered e then
           if bengali lang then bn_few_1 @ next @ bn_few_2
           else ''Only a few shops nearby. Searching up to '' @ next @ '' will find more'' @ em_dash @ ''delivery will cost more.''
         else if ex_at_ceiling e then
           if bengali lang then radius @ bn_widest
           else ''Within '' @ radius @ em_dash @ ''as far as we can search in your division.''
         else if bengali lang then radius @ bn_within else ''Within '' @ radius)"

definition search :: "postgis \<Rightarrow> finder \<Rightarrow> search_query \<Rightarrow> ('z, search_result) shop_op" where
  "search pg fs q =
     (if qu_type q \<noteq> [] \<and> \<not> valid_type (qu_type q)
      then raise_err (new_error KindInvalid ''invalid_merchant_type'' ''That is not a kind of shop we deliver from.'')
      else and_then (resolve_division pg (qu_lat q) (qu_lng q)) (\<lambda>a.
           and_then (lift_err (policy_at fs a)) (\<lambda>p.
           and_then (settle_level pg p q) (\<lambda>level.
           let radius = radius_at p level
           in and_then (merchants_within_radius pg (qu_lat q) (qu_lng q) radius search_fan_out) (\<lambda>near.
              and_then (merchant_cards fs a near level radius q) (\<lambda>cards.
              let e = describe_expansion p level radius (int (length cards))
              in ret \<lparr>se_placement = a, se_expansion = e, se_merchants = page_of cards (qu_limit q) (qu_offset q),
                   se_total = int (length cards), se_radius_text = format_radius (ex_radius_m e) (qu_lang q),
                   se_next_radius_text = next_radius_text e (qu_lang q), se_notice = search_notice e (qu_lang q)\<rparr>))))))"

text \<open>
  The ladder of radii: what settings in the registry's ranges make of it, and the level a shop needs,
  which the code solves for, against the definition by walking up the ladder.
\<close>

section \<open>Sane ladders\<close>

definition sane_policy :: "policy \<Rightarrow> int \<Rightarrow> int \<Rightarrow> bool" where
  "sane_policy p b k \<longleftrightarrow> py_base_radius_m p = Fin (of_int b) \<and> py_step_m p = Fin (of_int k) \<and> 1000 \<le> b \<and> b \<le> 25000 \<and>
     1000 \<le> k \<and> k \<le> 10000 \<and> 0 \<le> py_max_expansions p \<and> py_max_expansions p \<le> 10 \<and>
     1 \<le> py_min_merchants p \<and> py_min_merchants p \<le> 50"

lemma policy_from_good:
  assumes "good_settings r"
  shows "\<exists>p b k. policy_from r = Inr p \<and> sane_policy p b k"
proof -
  obtain b where b: "resolved_int r ''discovery.base_radius'' = Inr b" "1000 \<le> b" "b \<le> 25000"
    using whole_settings(1) [OF assms] by blast
  obtain k where k: "resolved_int r ''discovery.expansion_step'' = Inr k" "1000 \<le> k" "k \<le> 10000"
    using whole_settings(2) [OF assms] by blast
  obtain m where m: "resolved_int r ''discovery.max_expansions'' = Inr m" "0 \<le> m" "m \<le> 10"
    using whole_settings(3) [OF assms] by blast
  obtain n where n: "resolved_int r ''discovery.min_merchants'' = Inr n" "1 \<le> n" "n \<le> 50"
    using whole_settings(4) [OF assms] by blast
  obtain a where a: "resolved_bool r ''discovery.auto_expand'' = Inr a" using switch_settings(1) [OF assms] by blast
  have c: "resolved_bool r ''discovery.division_ceiling'' = Inr True" using switch_settings(2) [OF assms] by auto
  have f: "of_int64 b = Fin (of_int b)" "of_int64 k = Fin (of_int k)" using b k by (simp_all add: of_int64_exact)
  have "policy_from r = Inr \<lparr>py_base_radius_m = Fin (of_int b), py_step_m = Fin (of_int k), py_max_expansions = m,
      py_min_merchants = n, py_auto_expand = a\<rparr>"
    using b k m n by (simp add: policy_from_def policy_setting_def lift_domain_def a c f new_policy_def)
  then show ?thesis using b k m n by (auto simp: sane_policy_def)
qed

lemma rungs_small: "sane_policy p b k \<Longrightarrow> 0 \<le> j \<Longrightarrow> j \<le> 10 \<Longrightarrow> 0 \<le> k * j \<and> k * j \<le> 100000"
proof -
  assume h: "sane_policy p b k" "0 \<le> j" "j \<le> 10"
  then have k: "0 \<le> k" "k \<le> 10000" by (simp_all add: sane_policy_def)
  have "k * j \<le> 10000 * 10" using k h(2,3) by (intro mult_mono) simp_all
  then show ?thesis using k(1) h(2) by simp
qed

lemma radius_is:
  assumes "sane_policy p b k" "0 \<le> l" "l \<le> py_max_expansions p"
  shows "radius_at p l = Fin (of_int (b + k * l))"
proof -
  have s: "0 \<le> k * l" "k * l \<le> 100000" using rungs_small [OF assms(1,2)] assms by (simp_all add: sane_policy_def)
  have "rne (rat_of_int (k * l)) = of_int (k * l)" "rne (rat_of_int (b + k * l)) = of_int (b + k * l)"
    "fl (rat_of_int (k * l)) = Fin (of_int (k * l))" "fl (rat_of_int (b + k * l)) = Fin (of_int (b + k * l))"
    using s assms(1) by (simp_all add: rne_of_int fl_of_int sane_policy_def del: of_int_add of_int_mult)
  moreover have "of_int64 l = Fin (of_int l)" using assms by (intro of_int64_exact) (simp add: sane_policy_def)
  ultimately show ?thesis using assms by (simp add: radius_at_def clamp_level_def sane_policy_def)
qed

section \<open>The level a shop needs\<close>

definition bare_level :: "int \<Rightarrow> int \<Rightarrow> rat \<Rightarrow> int64" where
  "bare_level b k d = (if rne (d - of_int b) \<le> 0 then 0 else \<lceil>rne (rne (d - of_int b) / of_int k)\<rceil>)"

lemma level_for_eq:
  assumes "sane_policy p b k" "earthly d"
  shows "level_for p (Fin d) = (if py_max_expansions p < bare_level b k d then py_max_expansions p else bare_level b k d)"
    and "0 \<le> bare_level b k d"
proof -
  let ?over = "rne (d - of_int b)"
  have o: "?over \<le> of_int 100000000" "of_int (- 25000) \<le> ?over"
    using assms by (intro rne.le_int rne.ge_int; simp add: earthly_def sane_policy_def)+
  have "\<bar>d - of_int b\<bar> \<le> 2 ^ 53" using assms unfolding earthly_def sane_policy_def by (simp add: abs_le_iff)
  then have over: "fsub (Fin d) (Fin (of_int b)) = Fin ?over" by (simp add: fsub_def fl_Fin)
  show pos: "0 \<le> bare_level b k d"
  proof (cases "?over \<le> 0")
    case False
    then have "of_int 0 \<le> rne (?over / of_int k)" using assms(1) by (intro rne.ge_int) (simp_all add: sane_policy_def)
    then show ?thesis by (simp add: bare_level_def)
  qed (simp add: bare_level_def)
  show "level_for p (Fin d) = (if py_max_expansions p < bare_level b k d then py_max_expansions p else bare_level b k d)"
  proof (cases "?over \<le> 0")
    case True
    then show ?thesis using assms(1) over by (simp add: level_for_def bare_level_def sane_policy_def)
  next
    case False
    have k: "0 < rat_of_int k" "1 \<le> rat_of_int k" using assms(1) by (simp_all add: sane_policy_def)
    have "?over / of_int k \<le> 100000000" using False o(1) k by (simp add: pos_divide_le_eq)
    then have q: "\<bar>?over / of_int k\<bar> \<le> 2 ^ 53" "rne (?over / of_int k) \<le> of_int 100000000"
      using False k rne.le_int [of 100000000 "?over / of_int k"] by simp_all
    then have "bare_level b k d \<le> 100000000" using False by (simp add: bare_level_def ceiling_le_iff)
    then have "fits64 (bare_level b k d)" using pos by (intro fits64_small) simp_all
    then show ?thesis
      using assms(1) over False k q pos by (simp add: level_for_def bare_level_def sane_policy_def fl_Fin clamp_level_def)
  qed
qed

text \<open>Never a level too high, and at most a metre too low.\<close>

lemma bare_level_tight:
  assumes "sane_policy p b k" "earthly d" "0 \<le> j" "j \<le> 10"
  shows "d \<le> of_int (b + k * j) \<Longrightarrow> bare_level b k d \<le> j" and "of_int (b + k * j + 1) \<le> d \<Longrightarrow> j < bare_level b k d"
proof -
  have r: "1000 \<le> b" "b \<le> 25000" "1000 \<le> k" "k \<le> 10000" using assms(1) by (simp_all add: sane_policy_def)
  have s: "0 \<le> k * j" "k * j \<le> 100000" using rungs_small [OF assms(1,3,4)] by simp_all
  have k: "0 < rat_of_int k" using r by simp
  assume d: "d \<le> of_int (b + k * j)"
  then have "rne (d - of_int b) \<le> of_int (k * j)" using s by (intro rne.le_int) (simp_all add: algebra_simps)
  then have "rne (d - of_int b) / of_int k \<le> of_int j" using k by (simp add: pos_divide_le_eq mult.commute)
  then have "rne (rne (d - of_int b) / of_int k) \<le> of_int j" using assms by (intro rne.le_int) simp_all
  then show "bare_level b k d \<le> j" using assms by (simp add: bare_level_def ceiling_le_iff)
next
  have r: "1000 \<le> b" "b \<le> 25000" "1000 \<le> k" "k \<le> 10000" using assms(1) by (simp_all add: sane_policy_def)
  have s: "0 \<le> k * j" "k * j \<le> 100000" using rungs_small [OF assms(1,3,4)] by simp_all
  have k: "0 < rat_of_int k" "rat_of_int k \<le> 10000" using r by simp_all
  assume d: "of_int (b + k * j + 1) \<le> d"
  have o: "of_int (k * j + 1) \<le> rne (d - of_int b)" using s d by (intro rne.ge_int) (simp_all add: algebra_simps)
  let ?m = "j * 16384 + 1"
  have e: "rne (of_int ?m * 2 powi (- 14)) = of_int ?m * 2 powi (- 14)"
    using assms by (intro rne_exact) simp_all
  have "rat_of_int k * (of_int ?m * 2 powi (- 14)) \<le> of_int (k * j + 1)"
    using k by (simp add: power_int_minus field_simps)
  then have "of_int ?m * 2 powi (- 14) \<le> rne (d - of_int b) / of_int k"
    using o k by (simp add: pos_le_divide_eq mult.commute)
  then have "of_int ?m * 2 powi (- 14) \<le> rne (rne (d - of_int b) / of_int k)" using e rne_mono by metis
  moreover have "of_int j < of_int ?m * (2 :: rat) powi (- 14)" by (simp add: power_int_minus field_simps)
  ultimately have "of_int j < rne (rne (d - of_int b) / of_int k)" by (rule less_le_trans [rotated])
  moreover have "(0 :: rat) < of_int (k * j + 1)" using s by (simp only: of_int_0_less_iff)
  then have "0 < rne (d - of_int b)" using o by (rule less_le_trans)
  ultimately show "j < bare_level b k d" by (simp add: bare_level_def less_ceiling_iff)
qed

text \<open>The first rung that covers the distance, up to a metre.\<close>

definition first_rung :: "policy \<Rightarrow> f64 \<Rightarrow> int64 \<Rightarrow> bool" where
  "first_rung p x l \<longleftrightarrow> 0 \<le> l \<and> l \<le> py_max_expansions p \<and> fle x (fadd (radius_at p l) (Fin 1)) \<and>
     (\<forall>j. 0 \<le> j \<and> j < l \<longrightarrow> flt (radius_at p j) x)"

lemma level_is_first_rung:
  assumes "sane_policy p b k" "earthly d" "\<not> flt (radius_at p (py_max_expansions p)) (Fin d)"
  shows "first_rung p (Fin d) (level_for p (Fin d))"
proof -
  let ?most = "py_max_expansions p" and ?l = "level_for p (Fin d)"
  have m: "0 \<le> ?most" "?most \<le> 10" using assms(1) by (simp_all add: sane_policy_def)
  have top: "d \<le> of_int (b + k * ?most)" using assms(3) radius_is [OF assms(1) m(1)] by simp
  have "bare_level b k d \<le> ?most" by (rule bare_level_tight(1) [OF assms(1,2) m top])
  then have l: "?l = bare_level b k d" "0 \<le> ?l" "?l \<le> ?most" using level_for_eq [OF assms(1,2)] by simp_all
  have covered: "d \<le> of_int (b + k * ?l + 1)"
    using bare_level_tight(2) [OF assms(1,2), of ?l] l m by (smt (verit) linorder_le_cases order_less_irrefl)
  have s: "0 \<le> k * ?l" "k * ?l \<le> 100000" using rungs_small [OF assms(1) l(2)] l(3) m(2) by simp_all
  have "fl (rat_of_int (b + k * ?l + 1)) = Fin (of_int (b + k * ?l + 1))"
    using s assms(1) by (intro fl_of_int) (simp add: sane_policy_def)
  then have "fadd (radius_at p ?l) (Fin 1) = Fin (of_int (b + k * ?l + 1))" by (simp add: radius_is [OF assms(1) l(2,3)])
  moreover have "flt (radius_at p j) (Fin d)" if j: "0 \<le> j" "j < ?l" for j
  proof -
    have "\<not> d \<le> of_int (b + k * j)" using bare_level_tight(1) [OF assms(1,2) j(1)] l j(2) m(2) by fastforce
    then show ?thesis using radius_is [OF assms(1) j(1)] j(2) l(3) by simp
  qed
  ultimately show ?thesis using l(2,3) covered by (simp add: first_rung_def del: of_int_add of_int_mult)
qed

end
