(* ===== verification/Cart_App.thy ===== *)
theory Cart_App
  imports Cart_Domain Catalogue_Domain Discovery_App
begin

text \<open>
  The cart at work: the tables of \<open>modules/cart/infrastructure\<close>, the use cases of
  \<open>modules/cart/application\<close> (adding, replacing, quantities, the address, clearing), the revalidation
  behind every answer, and what checkout is given.  The catalogue's answers are asked of
  \<open>cart_services\<close>; the shop, the reach and the tariff are those of the merchant, discovery and pricing
  modules.
\<close>

section \<open>What the catalogue answers\<close>

record cart_services =
  cs_item :: "string \<Rightarrow> string \<Rightarrow> error + menu_item"
  cs_items :: "string \<Rightarrow> string list \<Rightarrow> error + menu_item list"
  cs_combo :: "string \<Rightarrow> string \<Rightarrow> error + menu_combo"
  cs_finder :: finder
  cs_postgis :: postgis
  cs_trig :: trig

section \<open>The tables\<close>

text \<open>The row of a cart has no lines, the row of a line no options.\<close>

record cart_line_row =
  cw_cart_id :: string
  cw_line :: cart_line
  cw_position :: nat

record cart_option_row =
  cx_line_id :: string
  cx_option :: cart_option
  cx_position :: nat

record cart_tables = merchant_tables +
  ct_carts :: "cart list"
  ct_lines :: "cart_line_row list"
  ct_options :: "cart_option_row list"

type_synonym ('z, 'a) cart_op = "('z cart_tables_scheme, 'a) op"

definition line_row_before :: "cart_line_row \<Rightarrow> cart_line_row \<Rightarrow> bool" where
  "line_row_before a b \<longleftrightarrow> cw_position a < cw_position b \<or> cw_position a = cw_position b \<and> cl_id (cw_line a) < cl_id (cw_line b)"

definition option_row_before :: "cart_option_row \<Rightarrow> cart_option_row \<Rightarrow> bool" where
  "option_row_before a b \<longleftrightarrow> cx_position a < cx_position b \<or> cx_position a = cx_position b \<and>
     (ci_group_id (cx_option a) < ci_group_id (cx_option b) \<or>
      ci_group_id (cx_option a) = ci_group_id (cx_option b) \<and> ci_option_id (cx_option a) < ci_option_id (cx_option b))"

definition rows_of_cart :: "'z cart_tables_scheme \<Rightarrow> string \<Rightarrow> cart_line list" where
  "rows_of_cart s cid = map cw_line (stable_sort line_row_before (filter (\<lambda>r. cw_cart_id r = cid) (ct_lines s)))"

definition option_rows_of_cart :: "'z cart_tables_scheme \<Rightarrow> string \<Rightarrow> cart_option_row list" where
  "option_rows_of_cart s cid = stable_sort option_row_before
     (filter (\<lambda>x. list_ex (\<lambda>r. cw_cart_id r = cid \<and> cl_id (cw_line r) = cx_line_id x) (ct_lines s)) (ct_options s))"

definition attach_options :: "cart_line list \<Rightarrow> cart_option_row list \<Rightarrow> cart_line list" where
  "attach_options ls xs = map (\<lambda>l. l\<lparr>cl_options := map cx_option (filter (\<lambda>x. cx_line_id x = cl_id l) xs)\<rparr>) ls"

text \<open>The lines and their options are read one after the other, and after the cart itself.\<close>

definition lines_of_cart :: "string \<Rightarrow> ('z, cart_line list) cart_op" where
  "lines_of_cart cid =
     and_then (db_read (\<lambda>s. Inr (rows_of_cart s cid))) (\<lambda>ls.
       if ls = [] then ret []
       else and_then (db_read (\<lambda>s. Inr (option_rows_of_cart s cid))) (\<lambda>xs. ret (attach_options ls xs)))"

definition cart_of_user :: "string \<Rightarrow> ('z, cart option) cart_op" where
  "cart_of_user user =
     and_then (db_read (\<lambda>s. Inr (find (\<lambda>c. bs_user_id c = user) (ct_carts s)))) (\<lambda>found. case found of
       None \<Rightarrow> ret None
     | Some c \<Rightarrow> and_then (lines_of_cart (bs_id c)) (\<lambda>ls. ret (Some (c\<lparr>bs_lines := ls\<rparr>))))"

definition line_fits :: "cart_line \<Rightarrow> bool" where
  "line_fits l \<longleftrightarrow> (cl_kind l = kind_item \<or> cl_kind l = kind_combo) \<and> cl_target_id l \<noteq> [] \<and>
     0 \<le> m_minor (cl_unit_price l) \<and> 0 < cl_quantity l \<and> cl_quantity l \<le> 20 \<and>
     distinct (map (\<lambda>x. (ci_group_id x, ci_option_id x)) (cl_options l))"

definition line_rows :: "cart \<Rightarrow> cart_line_row list" where
  "line_rows c = map (\<lambda>(i, l). \<lparr>cw_cart_id = bs_id c, cw_line = l\<lparr>cl_options := []\<rparr>, cw_position = i\<rparr>)
     (zip [0..<length (bs_lines c)] (bs_lines c))"

definition option_rows :: "cart \<Rightarrow> cart_option_row list" where
  "option_rows c = concat (map (\<lambda>l. map (\<lambda>(i, x). \<lparr>cx_line_id = cl_id l, cx_option = x, cx_position = i\<rparr>)
     (zip [0..<length (cl_options l)] (cl_options l))) (bs_lines c))"

definition other_lines :: "cart_line_row list \<Rightarrow> string \<Rightarrow> cart_line_row list" where
  "other_lines rows cid = filter (\<lambda>r. cw_cart_id r \<noteq> cid) rows"

definition other_options :: "cart_option_row list \<Rightarrow> cart_line_row list \<Rightarrow> string \<Rightarrow> cart_option_row list" where
  "other_options xs rows cid = filter (\<lambda>x. \<not> list_ex (\<lambda>r. cw_cart_id r = cid \<and> cl_id (cw_line r) = cx_line_id x) rows) xs"

text \<open>A cart that is there keeps its owner.\<close>

definition put_cart :: "cart \<Rightarrow> cart list \<Rightarrow> cart list" where
  "put_cart c rows =
     (if list_ex (\<lambda>r. bs_id r = bs_id c) rows
      then map (\<lambda>r. if bs_id r = bs_id c then c\<lparr>bs_lines := [], bs_user_id := bs_user_id r\<rparr> else r) rows
      else rows @ [c\<lparr>bs_lines := []\<rparr>])"

text \<open>One transaction: the shop is there, the customer has no other cart, and every row fits.\<close>

definition save_cart :: "cart \<Rightarrow> ('z, unit) cart_op" where
  "save_cart c = db_call (\<lambda>s.
     if list_ex (\<lambda>r. mc_id (sh_shop r) = bs_merchant_id c) (mt_shops s) \<and>
        (list_ex (\<lambda>r. bs_id r = bs_id c) (ct_carts s) \<or> \<not> list_ex (\<lambda>r. bs_user_id r = bs_user_id c) (ct_carts s)) \<and>
        list_all line_fits (bs_lines c) \<and>
        distinct (map (\<lambda>r. cl_id (cw_line r)) (other_lines (ct_lines s) (bs_id c) @ line_rows c))
     then (Inr (), s\<lparr>ct_carts := put_cart c (ct_carts s),
       ct_lines := other_lines (ct_lines s) (bs_id c) @ line_rows c,
       ct_options := other_options (ct_options s) (ct_lines s) (bs_id c) @ option_rows c\<rparr>)
     else (Inl (Sentinel ''the row breaks a constraint of the table''), s))"

text \<open>The lines and their options go with the cart.\<close>

definition delete_cart :: "string \<Rightarrow> ('z, unit) cart_op" where
  "delete_cart cid = db_call (\<lambda>s. (Inr (), s\<lparr>ct_carts := filter (\<lambda>c. bs_id c \<noteq> cid) (ct_carts s),
     ct_lines := other_lines (ct_lines s) cid, ct_options := other_options (ct_options s) (ct_lines s) cid\<rparr>))"

section \<open>Errors\<close>

definition cart_sentinel :: "cart_err \<Rightarrow> error" where
  "cart_sentinel e = Sentinel (cart_err_text e)"

definition cart_error :: "cart_err \<Rightarrow> error" where
  "cart_error e = (let s = cart_sentinel e in case e of
     ErrDifferentMerchant \<Rightarrow> wrap s KindConflict ''different_merchant''
       ''Your cart already has items from another shop. Empty it first to order from this one.''
   | ErrQuantityRange \<Rightarrow> wrap s KindInvalid ''invalid_quantity'' ''You can order between one and twenty of an item at a time.''
   | ErrTooManyLines \<Rightarrow> wrap s KindInvalid ''cart_full'' ''Your cart is full. Please order what is in it before adding more.''
   | ErrNoSuchLine \<Rightarrow> wrap s KindNotFound ''line_not_found'' ''That item is no longer in your cart.''
   | ErrNoTarget \<Rightarrow> wrap s KindInvalid ''invalid_line'' ''We could not tell what you were adding.''
   | ErrNoteTooLong \<Rightarrow> wrap s KindInvalid ''note_too_long'' ''That note is too long.''
   | _ \<Rightarrow> wrap s KindInvalid ''invalid_cart'' ''We could not open a cart just now. Please try again.'')"

definition cart_storage_error :: "error \<Rightarrow> error" where
  "cart_storage_error e = wrap e KindUnavailable ''cart_unavailable'' ''We could not reach your cart just now. Please try again.''"

end
