(* ===== verification/Cart_Cases.thy ===== *)
theory Cart_Cases
  imports Cart_App
begin

text \<open>
  The use cases of \<open>modules/cart/application\<close>: resolving what was picked against the menu, the
  revalidation of a cart against its shop, its menu and its address, the view with its price, and the
  cart as checkout receives it.
\<close>

section \<open>Resolving a choice\<close>

record cart_request =
  aq_merchant_id :: string
  aq_kind :: string
  aq_target_id :: string
  aq_quantity :: int64
  aq_choices :: "(string \<times> string) list"
  aq_note :: string
  aq_lang :: string

definition groups_of :: "menu_item \<Rightarrow> option_group list" where
  "groups_of m = mi_variants m @ mi_add_ons m"

text \<open>A map by id: of two groups with one id the later counts.\<close>

definition group_named :: "option_group list \<Rightarrow> string \<Rightarrow> option_group option" where
  "group_named gs k = find (\<lambda>g. og_id g = k) (rev gs)"

definition option_in :: "option_group \<Rightarrow> string \<Rightarrow> menu_option option" where
  "option_in g k = find (\<lambda>x. mo_id x = k) (og_options g)"

definition invalid_choice :: "string \<Rightarrow> string \<Rightarrow> error" where
  "invalid_choice code msg = new_error KindInvalid code msg"

fun pick_options :: "option_group list \<Rightarrow> (string \<times> string) list \<Rightarrow> string list \<Rightarrow> cart_option list \<Rightarrow> error + cart_option list" where
  "pick_options gs [] seen picked = Inr picked"
| "pick_options gs ((gid, oid) # rest) seen picked =
     (case group_named gs gid of
       None \<Rightarrow> Inl (invalid_choice ''unknown_option_group'' ''One of the choices is not offered on that item.'')
     | Some g \<Rightarrow>
         let key = gid @ ''/'' @ oid
         in if list_ex (\<lambda>k. k = key) seen then Inl (invalid_choice ''duplicate_option'' ''The same choice was made twice.'')
            else case option_in g oid of
              None \<Rightarrow> Inl (invalid_choice ''unknown_option'' ''One of the choices is not offered on that item.'')
            | Some x \<Rightarrow>
                if \<not> mo_available x
                then Inl (with_field (new_error KindConflict ''option_unavailable'' ''One of the choices is not available right now.'')
                       ''option'' (mo_name x))
                else pick_options gs rest (seen @ [key]) (picked @ [\<lparr>ci_group_id = og_id g, ci_option_id = mo_id x,
                       ci_name = mo_name x, ci_price = taka (sm_minor (mo_price x))\<rparr>]))"

definition check_group :: "option_group \<Rightarrow> int64 \<Rightarrow> error option" where
  "check_group g picked =
     (if og_required g \<and> picked = 0
      then Some (with_field (new_error KindInvalid ''option_required'' (''Please choose '' @ og_name g @ ''.'')) ''group'' (og_name g))
      else if picked = 0 then None
      else if og_min g > 0 \<and> picked < og_min g
        then Some (with_field (new_error KindInvalid ''too_few_options'' (''Please choose more from '' @ og_name g @ ''.'')) ''group'' (og_name g))
      else if og_max g > 0 \<and> picked > og_max g
        then Some (with_field (new_error KindInvalid ''too_many_options'' (''You have chosen too many from '' @ og_name g @ ''.''))
               ''group'' (og_name g))
      else None)"

text \<open>The groups are checked in the order of a Go map; here in the order of the menu.\<close>

definition choose_options :: "menu_item \<Rightarrow> (string \<times> string) list \<Rightarrow> error + cart_option list" where
  "choose_options m choices =
     rbind (pick_options (groups_of m) choices [] []) (\<lambda>picked.
     case List.map_filter (\<lambda>g. case group_named (groups_of m) (og_id g) of
         None \<Rightarrow> None
       | Some h \<Rightarrow> check_group h (int (length (filter (\<lambda>x. ci_group_id x = og_id h) picked)))) (groups_of m) of
       [] \<Rightarrow> Inr picked | e # _ \<Rightarrow> Inl e)"

definition resolve_combo :: "cart_services \<Rightarrow> cart_request \<Rightarrow> ('z, cart_line) cart_op" where
  "resolve_combo cs q =
     and_then (lift_err (cs_combo cs (aq_merchant_id q) (aq_target_id q))) (\<lambda>m.
       if \<not> mb_orderable m then raise_err (new_error KindConflict ''not_orderable'' ''That bundle is not available right now.'')
       else if aq_choices q \<noteq> [] then raise_err (new_error KindInvalid ''combo_has_no_options'' ''That bundle comes as it is.'')
       else and_then (fresh_id ''CLN'') (\<lambda>k. ret \<lparr>cl_id = k, cl_kind = kind_combo, cl_target_id = mb_id m, cl_name = mb_name m,
              cl_unit_price = taka (sm_minor (mb_price m)), cl_options = [], cl_quantity = aq_quantity q, cl_note = aq_note q\<rparr>))"

definition resolve_item :: "cart_services \<Rightarrow> cart_request \<Rightarrow> ('z, cart_line) cart_op" where
  "resolve_item cs q =
     and_then (lift_err (cs_item cs (aq_merchant_id q) (aq_target_id q))) (\<lambda>m.
       if \<not> mi_orderable m
       then raise_err (with_field (new_error KindConflict ''not_orderable'' ''That item is not available right now.'') ''reason'' (mi_reason m))
       else and_then (lift_err (choose_options m (aq_choices q))) (\<lambda>xs.
            and_then (fresh_id ''CLN'') (\<lambda>k. ret \<lparr>cl_id = k, cl_kind = kind_item, cl_target_id = mi_id m, cl_name = mi_name m,
              cl_unit_price = taka (sm_minor (mi_price m)), cl_options = xs, cl_quantity = aq_quantity q, cl_note = aq_note q\<rparr>)))"

definition resolve_line :: "cart_services \<Rightarrow> cart_request \<Rightarrow> ('z, cart_line) cart_op" where
  "resolve_line cs q =
     (if aq_quantity q \<le> 0 then raise_err (cart_error ErrQuantityRange)
      else if aq_kind q = kind_combo then resolve_combo cs q
      else if aq_kind q = kind_item then resolve_item cs q
      else raise_err (cart_error ErrNoTarget))"

section \<open>Revalidation\<close>

definition available_prices :: "menu_item \<Rightarrow> (string \<times> int64) list" where
  "available_prices m = concat (map (\<lambda>g. map (\<lambda>x. (og_id g @ ''/'' @ mo_id x, sm_minor (mo_price x)))
     (filter mo_available (og_options g))) (groups_of m))"

text \<open>The price of one, its options at today's prices; \<open>None\<close> when a choice is gone.\<close>

fun add_choices :: "(string \<times> int64) list \<Rightarrow> cart_option list \<Rightarrow> money \<Rightarrow> money option" where
  "add_choices prices [] so_far = Some so_far"
| "add_choices prices (x # xs) so_far =
     (case map_of (rev prices) (option_key x) of None \<Rightarrow> None
      | Some minor \<Rightarrow> add_choices prices xs (taka (add64 (m_minor so_far) minor)))"

definition current_unit_price :: "menu_item \<Rightarrow> cart_line \<Rightarrow> money option" where
  "current_unit_price m l = add_choices (available_prices m) (cl_options l) (taka (sm_minor (mi_price m)))"

definition not_found_thing :: current_thing where
  "not_found_thing = \<lparr>cu_found = False, cu_orderable = False, cu_reason = [], cu_unit_price = money_zero_value\<rparr>"

definition current_of :: "cart_services \<Rightarrow> string \<Rightarrow> cart_line \<Rightarrow> menu_item list \<Rightarrow> current_thing" where
  "current_of cs shop l items =
     (if cl_kind l = kind_combo then
        case cs_combo cs shop (cl_target_id l) of Inl _ \<Rightarrow> not_found_thing
        | Inr m \<Rightarrow> \<lparr>cu_found = True, cu_orderable = mb_orderable m, cu_reason = ''unavailable'', cu_unit_price = taka (sm_minor (mb_price m))\<rparr>
      else case find (\<lambda>m. mi_id m = cl_target_id l) (rev items) of None \<Rightarrow> not_found_thing
        | Some m \<Rightarrow> (case current_unit_price m l of
            None \<Rightarrow> \<lparr>cu_found = True, cu_orderable = False, cu_reason = ''unavailable'', cu_unit_price = money_zero_value\<rparr>
          | Some p \<Rightarrow> \<lparr>cu_found = True, cu_orderable = mi_orderable m, cu_reason = mi_reason m, cu_unit_price = p\<rparr>))"

definition check_lines :: "cart_services \<Rightarrow> cart \<Rightarrow> error + checked_line list" where
  "check_lines cs c =
     (if is_empty_cart c then Inr []
      else let wanted = map cl_target_id (filter (\<lambda>l. cl_kind l = kind_item) (bs_lines c))
           in rbind (if wanted = [] then Inr [] else cs_items cs (bs_merchant_id c) wanted) (\<lambda>items.
              Inr (map (\<lambda>l. check_line l (current_of cs (bs_merchant_id c) l items)) (bs_lines c))))"

definition no_reach :: reach_answer where
  "no_reach = \<lparr>rh_merchant_id = [], rh_area_code = [], rh_district_code = [], rh_division_code = [], rh_distance_m = Fin 0,
     rh_distance_text = [], rh_reachable = False, rh_required_level = 0, rh_expanded = False, rh_reason = []\<rparr>"

definition reach_of_cart :: "cart_services \<Rightarrow> cart \<Rightarrow> ('z, reach_answer) cart_op" where
  "reach_of_cart cs c =
     (if \<not> has_address c then ret no_reach
      else reach (cs_trig cs) (cs_postgis cs) (cs_finder cs) (bs_lat c) (bs_lng c) (bs_merchant_id c) [])"

record revalidated =
  rv_shop :: shop_view
  rv_reach :: reach_answer
  rv_check :: cart_check

definition revalidate :: "cart_services \<Rightarrow> cart \<Rightarrow> ('z, revalidated) cart_op" where
  "revalidate cs c =
     and_then (find_shop (bs_merchant_id c)) (\<lambda>shop.
     and_then (reach_of_cart cs c) (\<lambda>r.
     and_then (lift_err (check_lines cs c)) (\<lambda>ls.
     ret \<lparr>rv_shop = shop, rv_reach = r,
       rv_check = decide_cart c (sv_listed shop) (sv_open_now shop) (rh_reachable r) (rh_reason r) ls\<rparr>)))"

section \<open>What the customer sees\<close>

record line_view =
  lv_id :: string
  lv_kind :: string
  lv_target_id :: string
  lv_name :: string
  lv_options :: "(string \<times> string \<times> string \<times> shown_money) list"
  lv_quantity :: int64
  lv_note :: string
  lv_unit_price :: shown_money
  lv_line_total :: shown_money
  lv_issue :: string
  lv_issue_text :: string
  lv_orderable :: bool

record cart_view =
  cv_id :: string
  cv_merchant_id :: string
  cv_merchant_name :: string
  cv_logo_url :: string
  cv_merchant_status :: string
  cv_address_id :: string
  cv_lat :: f64
  cv_lng :: f64
  cv_lines :: "line_view list"
  cv_count :: int64
  cv_subtotal :: shown_money
  cv_orderable :: bool
  cv_blocker :: string
  cv_blocker_text :: string
  cv_pricing :: "shown_quote option"

definition bn_price_changed :: string where
  "bn_price_changed = utf8 [0x09A6, 0x09BE, 0x09AE, 0x0020, 0x09AA, 0x09B0, 0x09BF, 0x09AC, 0x09B0, 0x09CD, 0x09A4, 0x09A8, 0x0020, 0x09B9,
     0x09AF, 0x09BC, 0x09C7, 0x099B, 0x09C7]"

definition bn_out_of_stock :: string where
  "bn_out_of_stock = utf8 [0x09B8, 0x09CD, 0x099F, 0x0995, 0x09C7, 0x0020, 0x09A8, 0x09C7, 0x0987]"

definition bn_not_now :: string where
  "bn_not_now = utf8 [0x098F, 0x0996, 0x09A8, 0x0020, 0x09AA, 0x09BE, 0x0993, 0x09AF, 0x09BC, 0x09BE, 0x0020, 0x09AF, 0x09BE, 0x099A,
     0x09CD, 0x099B, 0x09C7, 0x0020, 0x09A8, 0x09BE]"

definition bn_no_longer :: string where
  "bn_no_longer = utf8 [0x098F, 0x0996, 0x09A8, 0x0020, 0x0986, 0x09B0, 0x0020, 0x09AA, 0x09BE, 0x0993, 0x09AF, 0x09BC, 0x09BE, 0x0020,
     0x09AF, 0x09BE, 0x099A, 0x09CD, 0x099B, 0x09C7, 0x0020, 0x09A8, 0x09BE]"

definition bn_removed :: string where
  "bn_removed = utf8 [0x09A6, 0x09CB, 0x0995, 0x09BE, 0x09A8, 0x0020, 0x098F, 0x099F, 0x09BF, 0x0020, 0x09B8, 0x09B0, 0x09BF, 0x09AF,
     0x09BC, 0x09C7, 0x0020, 0x09AB, 0x09C7, 0x09B2, 0x09C7, 0x099B, 0x09C7]"

definition bn_cart_empty :: string where
  "bn_cart_empty = utf8 [0x0986, 0x09AA, 0x09A8, 0x09BE, 0x09B0, 0x0020, 0x0995, 0x09BE, 0x09B0, 0x09CD, 0x099F, 0x0020, 0x0996, 0x09BE,
     0x09B2, 0x09BF, 0x0964]"

definition bn_no_address :: string where
  "bn_no_address = utf8 [0x09A1, 0x09C7, 0x09B2, 0x09BF, 0x09AD, 0x09BE, 0x09B0, 0x09BF, 0x09B0, 0x0020, 0x09A0, 0x09BF, 0x0995, 0x09BE,
     0x09A8, 0x09BE, 0x0020, 0x09AC, 0x09C7, 0x099B, 0x09C7, 0x0020, 0x09A8, 0x09BF, 0x09A8, 0x0964]"

definition bn_shop_unavailable :: string where
  "bn_shop_unavailable = utf8 [0x09A6, 0x09CB, 0x0995, 0x09BE, 0x09A8, 0x099F, 0x09BF, 0x0020, 0x098F, 0x0996, 0x09A8, 0x0020, 0x0985, 0x09B0,
     0x09CD, 0x09A1, 0x09BE, 0x09B0, 0x0020, 0x09A8, 0x09BF, 0x099A, 0x09CD, 0x099B, 0x09C7, 0x0020, 0x09A8, 0x09BE,
     0x0964]"

definition bn_shop_closed :: string where
  "bn_shop_closed = utf8 [0x09A6, 0x09CB, 0x0995, 0x09BE, 0x09A8, 0x0020, 0x098F, 0x0996, 0x09A8, 0x0020, 0x09AC, 0x09A8, 0x09CD, 0x09A7,
     0x0964]"

definition bn_other_division :: string where
  "bn_other_division = utf8 [0x098F, 0x0987, 0x0020, 0x09A0, 0x09BF, 0x0995, 0x09BE, 0x09A8, 0x09BE, 0x0020, 0x0985, 0x09A8, 0x09CD, 0x09AF,
     0x0020, 0x09AC, 0x09BF, 0x09AD, 0x09BE, 0x0997, 0x09C7, 0x0964, 0x0020, 0x098F, 0x0987, 0x0020, 0x09A6, 0x09CB,
     0x0995, 0x09BE, 0x09A8, 0x0020, 0x09A5, 0x09C7, 0x0995, 0x09C7, 0x0020, 0x09B8, 0x09C7, 0x0996, 0x09BE, 0x09A8,
     0x09C7, 0x0020, 0x09A1, 0x09C7, 0x09B2, 0x09BF, 0x09AD, 0x09BE, 0x09B0, 0x09BF, 0x0020, 0x0995, 0x09B0, 0x09BE,
     0x0020, 0x09AF, 0x09BE, 0x09AC, 0x09C7, 0x0020, 0x09A8, 0x09BE, 0x0964]"

definition bn_too_far :: string where
  "bn_too_far = utf8 [0x098F, 0x0987, 0x0020, 0x09A0, 0x09BF, 0x0995, 0x09BE, 0x09A8, 0x09BE, 0x0020, 0x09A6, 0x09CB, 0x0995, 0x09BE,
     0x09A8, 0x0020, 0x09A5, 0x09C7, 0x0995, 0x09C7, 0x0020, 0x0985, 0x09A8, 0x09C7, 0x0995, 0x0020, 0x09A6, 0x09C2,
     0x09B0, 0x09C7, 0x0964]"

definition bn_line_problems :: string where
  "bn_line_problems = utf8 [0x0995, 0x09BE, 0x09B0, 0x09CD, 0x099F, 0x09C7, 0x09B0, 0x0020, 0x0995, 0x09BF, 0x099B, 0x09C1, 0x0020, 0x099C,
     0x09BF, 0x09A8, 0x09BF, 0x09B8, 0x0020, 0x098F, 0x0996, 0x09A8, 0x0020, 0x09AA, 0x09BE, 0x0993, 0x09AF, 0x09BC,
     0x09BE, 0x0020, 0x09AF, 0x09BE, 0x099A, 0x09CD, 0x099B, 0x09C7, 0x0020, 0x09A8, 0x09BE, 0x0964, 0x0020, 0x09B8,
     0x09C7, 0x0997, 0x09C1, 0x09B2, 0x09CB, 0x0020, 0x09B8, 0x09B0, 0x09BF, 0x09AF, 0x09BC, 0x09C7, 0x0020, 0x09A6,
     0x09BF, 0x09A8, 0x0964]"

fun issue_text :: "issue \<Rightarrow> string \<Rightarrow> string" where
  "issue_text IssueNone lang = []"
| "issue_text IssuePriceChanged lang = (if bengali lang then bn_price_changed else ''The price has changed'')"
| "issue_text IssueOutOfStock lang = (if bengali lang then bn_out_of_stock else ''Out of stock'')"
| "issue_text IssueNotAvailableNow lang = (if bengali lang then bn_not_now else ''Not available at this time'')"
| "issue_text IssueUnavailable lang = (if bengali lang then bn_no_longer else ''No longer available'')"
| "issue_text IssueRemoved lang = (if bengali lang then bn_removed else ''The shop has removed this'')"

fun blocker_text :: "blocker \<Rightarrow> string \<Rightarrow> string \<Rightarrow> string" where
  "blocker_text BlockerNone status lang = []"
| "blocker_text BlockerEmpty status lang = (if bengali lang then bn_cart_empty else ''Your cart is empty.'')"
| "blocker_text BlockerNoAddress status lang = (if bengali lang then bn_no_address else ''Choose a delivery address.'')"
| "blocker_text BlockerShopUnavailable status lang = (if bengali lang then bn_shop_unavailable else ''This shop is not taking orders.'')"
| "blocker_text BlockerShopClosed status lang =
     (if status \<noteq> [] then status else if bengali lang then bn_shop_closed else ''The shop is closed.'')"
| "blocker_text BlockerOutsideDivision status lang =
     (if bengali lang then bn_other_division else ''That address is in another division, so this shop cannot deliver to it.'')"
| "blocker_text BlockerBeyondRadius status lang = (if bengali lang then bn_too_far else ''That address is too far from this shop.'')"
| "blocker_text BlockerLineProblems status lang =
     (if bengali lang then bn_line_problems else ''Some items in your cart are not available. Remove them to continue.'')"

definition line_view_of :: "checked_line \<Rightarrow> string \<Rightarrow> line_view" where
  "line_view_of c lang =
     \<lparr>lv_id = cl_id (ch_line c), lv_kind = cl_kind (ch_line c), lv_target_id = cl_target_id (ch_line c), lv_name = cl_name (ch_line c),
      lv_options = map (\<lambda>x. (ci_group_id x, ci_option_id x, ci_name x, to_money (ci_price x))) (cl_options (ch_line c)),
      lv_quantity = cl_quantity (ch_line c), lv_note = cl_note (ch_line c), lv_unit_price = to_money (ch_unit_price c),
      lv_line_total = to_money (times_money (ch_unit_price c) (cl_quantity (ch_line c))),
      lv_issue = issue_code (ch_issue c), lv_issue_text = issue_text (ch_issue c) lang, lv_orderable = ch_orderable c\<rparr>"

definition cart_view_of :: "cart \<Rightarrow> shop_view \<Rightarrow> cart_check \<Rightarrow> string \<Rightarrow> cart_view" where
  "cart_view_of c shop k lang =
     \<lparr>cv_id = bs_id c, cv_merchant_id = bs_merchant_id c, cv_merchant_name = sv_name shop, cv_logo_url = sv_logo_url shop,
      cv_merchant_status = sv_open_status shop, cv_address_id = bs_address_id c, cv_lat = bs_lat c, cv_lng = bs_lng c,
      cv_lines = map (\<lambda>l. line_view_of l lang) (ck_lines k), cv_count = cart_count c,
      cv_subtotal = to_money (priced_lines (ck_lines k)), cv_orderable = ck_orderable k, cv_blocker = blocker_code (ck_blocker k),
      cv_blocker_text = blocker_text (ck_blocker k) (sv_open_status shop) lang, cv_pricing = None\<rparr>"

text \<open>A price only where there is somewhere the shop can deliver to.\<close>

definition cart_price :: "cart_services \<Rightarrow> revalidated \<Rightarrow> int64 \<Rightarrow> string \<Rightarrow> error + shown_quote option" where
  "cart_price cs g subtotal lang =
     (let r = rv_reach g
      in if \<not> rh_reachable r then Inr None
         else rbind (fs_tariff (cs_finder cs) \<lparr>pl_area = rh_area_code r, pl_district = rh_district_code r, pl_division = rh_division_code r\<rparr>) (\<lambda>t.
              rbind (answer_quote t \<lparr>qr_subtotal_minor = subtotal, qr_distance_m = rh_distance_m r,
                  qr_expansion_level = rh_required_level r, qr_lang = lang\<rparr>) (\<lambda>q. Inr (Some q))))"

definition render_cart :: "cart_services \<Rightarrow> cart \<Rightarrow> string \<Rightarrow> ('z, cart_view) cart_op" where
  "render_cart cs c lang =
     and_then (revalidate cs c) (\<lambda>g.
     let view = cart_view_of c (rv_shop g) (rv_check g) lang
     in and_then (lift_err (cart_price cs g (sm_minor (cv_subtotal view)) lang)) (\<lambda>priced. ret (view\<lparr>cv_pricing := priced\<rparr>)))"

section \<open>The use cases\<close>

definition read_cart :: "string \<Rightarrow> ('z, cart option) cart_op" where
  "read_cart user = or_wrap cart_storage_error (cart_of_user user)"

definition current_view :: "cart_services \<Rightarrow> string \<Rightarrow> string \<Rightarrow> ('z, cart_view option) cart_op" where
  "current_view cs user lang = and_then (read_cart user) (\<lambda>found. case found of
     None \<Rightarrow> ret None | Some c \<Rightarrow> and_then (render_cart cs c lang) (\<lambda>v. ret (Some v)))"

definition save_and_render :: "cart_services \<Rightarrow> cart \<Rightarrow> string \<Rightarrow> ('z, cart_view) cart_op" where
  "save_and_render cs c lang =
     and_then clock_now (\<lambda>now.
     and_then (or_wrap cart_storage_error (save_cart (c\<lparr>bs_updated_at := now\<rparr>))) (\<lambda>_.
     render_cart cs (c\<lparr>bs_updated_at := now\<rparr>) lang))"

definition lift_cart :: "cart_err + 'a \<Rightarrow> ('z, 'a) cart_op" where
  "lift_cart r = lift_err (lift_domain cart_error r)"

definition cart_or_new :: "string \<Rightarrow> string \<Rightarrow> cart option \<Rightarrow> ('z, cart) cart_op" where
  "cart_or_new user shop found = (case found of
     Some c \<Rightarrow> ret c
   | None \<Rightarrow> and_then (fresh_id ''CRT'') (\<lambda>k. and_then clock_now (\<lambda>now. lift_cart (new_cart k user shop now))))"

definition add_to_cart :: "cart_services \<Rightarrow> string \<Rightarrow> cart_request \<Rightarrow> ('z, cart_view) cart_op" where
  "add_to_cart cs user q =
     and_then (read_cart user) (\<lambda>found.
     and_then (cart_or_new user (aq_merchant_id q) found) (\<lambda>c.
     and_then (resolve_line cs q) (\<lambda>l.
     and_then (lift_cart (cart_add c (aq_merchant_id q) l)) (\<lambda>d. save_and_render cs d (aq_lang q)))))"

text \<open>The cart that is there is gone before the new line is looked at.\<close>

definition replace_cart :: "cart_services \<Rightarrow> string \<Rightarrow> cart_request \<Rightarrow> ('z, cart_view) cart_op" where
  "replace_cart cs user q =
     and_then (read_cart user) (\<lambda>found.
     and_then (case found of None \<Rightarrow> ret () | Some c \<Rightarrow> or_wrap cart_storage_error (delete_cart (bs_id c))) (\<lambda>_.
     add_to_cart cs user q))"

definition my_cart :: "string \<Rightarrow> ('z, cart) cart_op" where
  "my_cart user = and_then (read_cart user) (\<lambda>found. case found of
     None \<Rightarrow> raise_err (new_error KindNotFound ''cart_not_found'' ''You do not have a cart yet.'') | Some c \<Rightarrow> ret c)"

definition change_quantity :: "cart_services \<Rightarrow> string \<Rightarrow> string \<Rightarrow> int64 \<Rightarrow> string \<Rightarrow> ('z, cart_view) cart_op" where
  "change_quantity cs user k n lang =
     and_then (my_cart user) (\<lambda>c. and_then (lift_cart (cart_set_quantity c k n)) (\<lambda>d. save_and_render cs d lang))"

definition remove_line :: "cart_services \<Rightarrow> string \<Rightarrow> string \<Rightarrow> string \<Rightarrow> ('z, cart_view) cart_op" where
  "remove_line cs user k lang =
     and_then (my_cart user) (\<lambda>c. and_then (lift_cart (cart_remove c k)) (\<lambda>d. save_and_render cs d lang))"

definition set_cart_address :: "cart_services \<Rightarrow> string \<Rightarrow> string \<Rightarrow> f64 \<Rightarrow> f64 \<Rightarrow> string \<Rightarrow> ('z, cart_view) cart_op" where
  "set_cart_address cs user a lat lng lang =
     and_then (my_cart user) (\<lambda>c.
       if a = [] then raise_err (new_error KindInvalid ''invalid_address'' ''We could not tell which address you chose.'')
       else save_and_render cs (place_cart_at c a lat lng) lang)"

definition empty_cart :: "string \<Rightarrow> ('z, unit) cart_op" where
  "empty_cart user = and_then (read_cart user) (\<lambda>found. case found of
     None \<Rightarrow> ret () | Some c \<Rightarrow> or_wrap cart_storage_error (delete_cart (bs_id c)))"

section \<open>What checkout is given\<close>

record cart_delivery =
  dl_fee :: shown_money
  dl_surcharge :: shown_money
  dl_total :: shown_money
  dl_free :: bool
  dl_expanded :: bool
  dl_distance_m :: f64

record answered_line =
  an_id :: string
  an_kind :: string
  an_target_id :: string
  an_name :: string
  an_unit_price :: shown_money
  an_options :: "(string \<times> string \<times> string \<times> shown_money) list"
  an_quantity :: int64
  an_note :: string
  an_line_total :: shown_money

record answered_cart =
  ac_id :: string
  ac_user_id :: string
  ac_merchant_id :: string
  ac_address_id :: string
  ac_lat :: f64
  ac_lng :: f64
  ac_lines :: "answered_line list"
  ac_subtotal :: shown_money
  ac_delivery :: "cart_delivery option"
  ac_orderable :: bool
  ac_blocker :: string

definition delivery_answer :: "shown_quote \<Rightarrow> cart_delivery" where
  "delivery_answer q = \<lparr>dl_fee = sq_delivery q, dl_surcharge = sq_surcharge q, dl_total = sq_total q, dl_free = sq_free q,
     dl_expanded = sq_expanded q, dl_distance_m = sq_distance_m q\<rparr>"

definition answered_line_of :: "line_view \<Rightarrow> answered_line" where
  "answered_line_of l = \<lparr>an_id = lv_id l, an_kind = lv_kind l, an_target_id = lv_target_id l, an_name = lv_name l,
     an_unit_price = lv_unit_price l, an_options = lv_options l, an_quantity = lv_quantity l, an_note = lv_note l,
     an_line_total = lv_line_total l\<rparr>"

definition cart_answer :: "string \<Rightarrow> cart_view \<Rightarrow> answered_cart" where
  "cart_answer user v = \<lparr>ac_id = cv_id v, ac_user_id = user, ac_merchant_id = cv_merchant_id v, ac_address_id = cv_address_id v,
     ac_lat = cv_lat v, ac_lng = cv_lng v, ac_lines = map answered_line_of (cv_lines v), ac_subtotal = cv_subtotal v,
     ac_delivery = map_option delivery_answer (cv_pricing v), ac_orderable = cv_orderable v, ac_blocker = cv_blocker v\<rparr>"

definition cart_for_order :: "cart_services \<Rightarrow> string \<Rightarrow> ('z, answered_cart option) cart_op" where
  "cart_for_order cs user = and_then (current_view cs user []) (\<lambda>found. ret (map_option (cart_answer user) found))"

end
