(* ===== verification/Cart_Safety.thy ===== *)
theory Cart_Safety
  imports Cart_Cases Ops
begin

text \<open>
  Carts in every history of requests: one for each customer, within its bounds, and answered to
  checkout as orderable only when nothing stands in the way and the sums are exact.
\<close>

section \<open>The invariant\<close>

definition carts_ok :: "'z cart_tables_scheme \<Rightarrow> bool" where
  "carts_ok s \<longleftrightarrow> distinct (map bs_id (ct_carts s)) \<and> distinct (map bs_user_id (ct_carts s)) \<and>
     (\<forall>r\<in>set (ct_lines s). sound_line (cw_line r)) \<and>
     (\<forall>cid. length (filter (\<lambda>r. cw_cart_id r = cid) (ct_lines s)) \<le> 60) \<and>
     distinct (map (\<lambda>r. cl_id (cw_line r)) (ct_lines s))"

abbreviation cart_gives :: "('z, 'a) cart_op \<Rightarrow> ('a \<Rightarrow> bool) \<Rightarrow> bool" where
  "cart_gives \<equiv> gives carts_ok"

text \<open>A cart as it is read, and as the use cases hand it on.\<close>

definition sound_cart :: "string \<Rightarrow> cart \<Rightarrow> bool" where
  "sound_cart user c \<longleftrightarrow> bs_user_id c = user \<and> sound_lines (bs_lines c)"

lemma sound_parts [simp]:
  "sound_line (l\<lparr>cl_options := xs\<rparr>) = sound_line l" "sound_cart u (c\<lparr>bs_updated_at := t\<rparr>) = sound_cart u c"
  by (simp_all add: sound_line_def sound_cart_def)

lemma rows_sound: "carts_ok s \<Longrightarrow> sound_lines (rows_of_cart s cid)"
  by (auto simp: carts_ok_def sound_lines_def rows_of_cart_def list_all_iff)

lemma attach_sound: "sound_lines (attach_options ls xs) = sound_lines ls"
  by (auto simp: sound_lines_def attach_options_def list_all_iff)

lemma lines_gives: "cart_gives (lines_of_cart cid) sound_lines"
  unfolding lines_of_cart_def
  by (rule gives_bind [OF gives_read [where Q = sound_lines]], use rows_sound in blast, rule gives_if, rule gives_simple,
      simp add: sound_lines_def, rule gives_then, rule plain_simple, rule gives_simple, simp add: attach_sound)

lemma of_user_gives: "cart_gives (cart_of_user user) (\<lambda>found. case found of None \<Rightarrow> True | Some c \<Rightarrow> sound_cart user c)"
  unfolding cart_of_user_def
proof (rule gives_bind [where M = "\<lambda>found. case found of None \<Rightarrow> True | Some c \<Rightarrow> bs_user_id c = user"])
  show "cart_gives (db_read (\<lambda>s. Inr (find (\<lambda>c. bs_user_id c = user) (ct_carts s))))
      (\<lambda>found. case found of None \<Rightarrow> True | Some c \<Rightarrow> bs_user_id c = user)"
    by (rule gives_read) (auto simp: find_Some_iff split: option.splits)
  show "cart_gives (case found of None \<Rightarrow> ret None | Some c \<Rightarrow> and_then (lines_of_cart (bs_id c)) (\<lambda>ls. ret (Some (c\<lparr>bs_lines := ls\<rparr>))))
      (\<lambda>found. case found of None \<Rightarrow> True | Some c \<Rightarrow> sound_cart user c)"
    if "case found of None \<Rightarrow> True | Some c \<Rightarrow> bs_user_id c = user" for found
    using that by (cases found) (auto simp: sound_cart_def intro!: gives_simple gives_bind [OF lines_gives])
qed

lemma put_keys:
  "map bs_id (put_cart c rows) = (if bs_id c \<in> bs_id ` set rows then map bs_id rows else map bs_id rows @ [bs_id c])"
  "bs_id c \<in> bs_id ` set rows \<Longrightarrow> map bs_user_id (put_cart c rows) = map bs_user_id rows"
  "bs_id c \<notin> bs_id ` set rows \<Longrightarrow> map bs_user_id (put_cart c rows) = map bs_user_id rows @ [bs_user_id c]"
  by (auto simp: put_cart_def list_ex_iff image_iff) metis+

lemma own_rows: "filter (\<lambda>r. cw_cart_id r = cid) (line_rows c) = (if cid = bs_id c then line_rows c else [])"
  by (auto simp: line_rows_def filter_eq_Cons_iff filter_id_conv filter_empty_conv)

lemma save_cart_gives: "sound_lines (bs_lines c) \<Longrightarrow> cart_gives (save_cart c) (\<lambda>_. True)"
  unfolding save_cart_def
proof (rule gives_call)
  fix s :: "'z cart_tables_scheme" and r t
  let ?lines = "other_lines (ct_lines s) (bs_id c) @ line_rows c"
  let ?fits = "list_ex (\<lambda>r. mc_id (sh_shop r) = bs_merchant_id c) (mt_shops s) \<and>
        (list_ex (\<lambda>r. bs_id r = bs_id c) (ct_carts s) \<or> \<not> list_ex (\<lambda>r. bs_user_id r = bs_user_id c) (ct_carts s)) \<and>
        list_all line_fits (bs_lines c) \<and> distinct (map (\<lambda>r. cl_id (cw_line r)) ?lines)"
  assume c: "sound_lines (bs_lines c)" and s: "carts_ok s"
    and step: "(if ?fits then (Inr (), s\<lparr>ct_carts := put_cart c (ct_carts s), ct_lines := ?lines,
       ct_options := other_options (ct_options s) (ct_lines s) (bs_id c) @ option_rows c\<rparr>)
     else (Inl (Sentinel ''the row breaks a constraint of the table''), s)) = (r, t)"
  show "carts_ok t \<and> (\<forall>x. r = Inr x \<longrightarrow> True)"
  proof (cases ?fits)
    case False
    then show ?thesis using s step by (simp only: if_False) auto
  next
    case True
    then have t: "t = s\<lparr>ct_carts := put_cart c (ct_carts s), ct_lines := ?lines,
       ct_options := other_options (ct_options s) (ct_lines s) (bs_id c) @ option_rows c\<rparr>"
      using step by (simp only: if_True) auto
    have carts: "distinct (map bs_id (put_cart c (ct_carts s))) \<and> distinct (map bs_user_id (put_cart c (ct_carts s)))"
    proof (cases "bs_id c \<in> bs_id ` set (ct_carts s)")
      case inside: True
      then show ?thesis using s by (simp add: carts_ok_def put_keys)
    next
      case outside: False
      then have "bs_user_id c \<notin> bs_user_id ` set (ct_carts s)" using True by (auto simp: list_ex_iff image_iff)
      then show ?thesis using s outside by (simp add: carts_ok_def put_keys)
    qed
    have sound: "\<forall>r\<in>set ?lines. sound_line (cw_line r)"
      using s c by (auto simp: carts_ok_def other_lines_def line_rows_def sound_lines_def list_all_iff dest: set_zip_rightD)
    have few: "length (filter (\<lambda>r. cw_cart_id r = cid) ?lines) \<le> 60" for cid
    proof (cases "cid = bs_id c")
      case True
      moreover have "length (line_rows c) = length (bs_lines c)" by (simp add: line_rows_def)
      ultimately show ?thesis using c by (simp add: own_rows other_lines_def sound_lines_def)
    next
      case False
      then have "filter (\<lambda>r. cw_cart_id r = cid) ?lines = filter (\<lambda>r. cw_cart_id r = cid) (ct_lines s)"
        by (simp add: own_rows other_lines_def) (rule filter_cong, auto)
      then show ?thesis using s by (simp add: carts_ok_def)
    qed
    show ?thesis using carts sound few True by (simp add: t carts_ok_def)
  qed
qed

lemma delete_cart_gives: "cart_gives (delete_cart cid) (\<lambda>_. True)"
  unfolding delete_cart_def
proof (rule gives_call)
  fix s :: "'z cart_tables_scheme" and r t
  assume s: "carts_ok s" and step: "(Inr (), s\<lparr>ct_carts := filter (\<lambda>c. bs_id c \<noteq> cid) (ct_carts s),
     ct_lines := other_lines (ct_lines s) cid, ct_options := other_options (ct_options s) (ct_lines s) cid\<rparr>) = (r, t)"
  have "length (filter (\<lambda>r. cw_cart_id r = k) (filter (\<lambda>r. cw_cart_id r \<noteq> cid) (ct_lines s))) \<le> 60" for k
  proof (cases "k = cid")
    case False
    then have "filter (\<lambda>r. cw_cart_id r = k) (filter (\<lambda>r. cw_cart_id r \<noteq> cid) (ct_lines s)) = filter (\<lambda>r. cw_cart_id r = k) (ct_lines s)"
      by (simp add: conj_commute) (rule filter_cong, auto)
    then show ?thesis using s by (simp add: carts_ok_def)
  qed simp
  then show "carts_ok t \<and> (\<forall>x. r = Inr x \<longrightarrow> True)"
    using s step by (auto simp: carts_ok_def other_lines_def distinct_map_filter)
qed

section \<open>Every use case\<close>

text \<open>What other modules are asked reads only.\<close>

lemma find_shop_reads: "cart_gives (find_shop mid) (\<lambda>_. True)"
  unfolding find_shop_def load_shop_def merchant_by_id_def one_merchant_def documents_for_def
  by (intro gives_then gives_wrap plain_simple gives_simple)

lemma reach_reads: "cart_gives (reach g pg fs lat lng mid lang) (\<lambda>_. True)"
  unfolding reach_def resolve_division_def place_division_def division_containing_def area_containing_def Let_def
  by (intro gives_then gives_wrap plain_simple gives_simple find_shop_reads gives_any [OF gives_attempt [OF gives_read]] gives_if
      | simp add: case_prod_beta)+

lemma revalidate_gives:
  "cart_gives (revalidate cs c) (\<lambda>g. (\<exists>ls. check_lines cs c = Inr ls \<and>
     rv_check g = decide_cart c (sv_listed (rv_shop g)) (sv_open_now (rv_shop g)) (rh_reachable (rv_reach g)) (rh_reason (rv_reach g)) ls))"
  unfolding revalidate_def reach_of_cart_def
  by (rule gives_then [OF find_shop_reads], rule gives_then, rule gives_if, rule plain_simple, rule reach_reads,
      rule gives_bind [OF gives_lifted], rule gives_simple) auto

lemma render_gives: "cart_gives (render_cart cs c lang) (\<lambda>_. True)"
  unfolding render_cart_def Let_def by (rule gives_bind [OF revalidate_gives], rule gives_then, rule plain_simple, rule plain_simple)

lemma read_gives: "cart_gives (read_cart user) (\<lambda>found. case found of None \<Rightarrow> True | Some c \<Rightarrow> sound_cart user c)"
  unfolding read_cart_def by (rule gives_wrap, rule of_user_gives)

lemma my_cart_gives: "cart_gives (my_cart user) (sound_cart user)"
  unfolding my_cart_def by (rule gives_bind [OF read_gives]) (auto intro: gives_simple split: option.splits)

lemma save_render_gives: "sound_lines (bs_lines c) \<Longrightarrow> cart_gives (save_and_render cs c lang) (\<lambda>_. True)"
  unfolding save_and_render_def
  by (rule gives_then, rule gives_simple, rule gives_then, rule gives_wrap, rule save_cart_gives, simp, rule render_gives)

lemma new_sound: "new_cart k user shop now = Inr c \<Longrightarrow> sound_cart user c"
  by (auto simp: new_cart_def sound_cart_def sound_lines_def split: if_splits)

lemma cart_or_new_gives:
  "case found of None \<Rightarrow> True | Some c \<Rightarrow> sound_cart user c \<Longrightarrow> cart_gives (cart_or_new user shop found) (sound_cart user)"
  unfolding cart_or_new_def lift_cart_def
  by (cases found) (auto intro!: gives_simple gives_then gives_domain new_sound)

lemma resolve_gives: "cart_gives (resolve_line cs q) (\<lambda>_. True)"
  unfolding resolve_line_def resolve_combo_def resolve_item_def by (intro gives_if gives_then plain_simple gives_simple)

lemma add_gives: "cart_gives (add_to_cart cs user q) (\<lambda>_. True)"
  unfolding add_to_cart_def lift_cart_def
  by (rule gives_bind [OF read_gives], rule gives_bind, erule cart_or_new_gives, rule gives_then, rule resolve_gives,
      rule gives_bind [OF gives_domain], assumption, rule save_render_gives, erule add_sound, simp add: sound_cart_def)

lemma drop_gives:
  "cart_gives (case found of None \<Rightarrow> ret () | Some c \<Rightarrow> or_wrap cart_storage_error (delete_cart (bs_id c))) (\<lambda>_. True)"
  by (cases found) (auto intro: plain_simple gives_wrap delete_cart_gives)

lemma replace_gives: "cart_gives (replace_cart cs user q) (\<lambda>_. True)"
  unfolding replace_cart_def
  by (rule gives_bind [OF read_gives], rule gives_then [OF drop_gives], rule add_gives)

lemma change_gives:
  "cart_gives (change_quantity cs user k n lang) (\<lambda>_. True)" "cart_gives (remove_line cs user k lang) (\<lambda>_. True)"
  "cart_gives (set_cart_address cs user a lat lng lang) (\<lambda>_. True)" "cart_gives (empty_cart user) (\<lambda>_. True)"
  unfolding change_quantity_def remove_line_def set_cart_address_def empty_cart_def lift_cart_def
  by (rule gives_bind [OF my_cart_gives], rule gives_bind [OF gives_domain], assumption, rule save_render_gives,
      erule quantity_sound, simp add: sound_cart_def)
    (rule gives_bind [OF my_cart_gives], rule gives_bind [OF gives_domain], assumption, rule save_render_gives,
      erule remove_sound, simp add: sound_cart_def,
     rule gives_bind [OF my_cart_gives], rule gives_if, rule plain_simple, rule save_render_gives,
      simp add: place_cart_at_def sound_cart_def,
     rule gives_bind [OF read_gives], rule drop_gives)

section \<open>Histories\<close>

datatype cart_action =
    AddToCart string cart_request
  | ReplaceCart string cart_request
  | ChangeQuantity string string int64 string
  | RemoveLine string string string
  | SetCartAddress string string f64 f64 string
  | EmptyCart string
  | ReadCart string string

fun run_cart :: "cart_services \<Rightarrow> cart_action \<Rightarrow> ('z, unit) cart_op" where
  "run_cart cs (AddToCart user q) = ignoring (add_to_cart cs user q)"
| "run_cart cs (ReplaceCart user q) = ignoring (replace_cart cs user q)"
| "run_cart cs (ChangeQuantity user k n lang) = ignoring (change_quantity cs user k n lang)"
| "run_cart cs (RemoveLine user k lang) = ignoring (remove_line cs user k lang)"
| "run_cart cs (SetCartAddress user a lat lng lang) = ignoring (set_cart_address cs user a lat lng lang)"
| "run_cart cs (EmptyCart user) = ignoring (empty_cart user)"
| "run_cart cs (ReadCart user lang) = ignoring (current_view cs user lang)"

lemma view_gives: "cart_gives (current_view cs user lang) (\<lambda>_. True)"
  unfolding current_view_def
proof (rule gives_bind [OF read_gives])
  show "cart_gives (case found of None \<Rightarrow> ret None | Some c \<Rightarrow> and_then (render_cart cs c lang) (\<lambda>v. ret (Some v))) (\<lambda>_. True)" for found
    by (cases found) (auto intro: plain_simple gives_then render_gives)
qed

lemma run_cart_gives: "cart_gives (run_cart cs q) (\<lambda>_. True)"
  by (cases q) (simp_all add: gives_ignoring [OF add_gives] gives_ignoring [OF replace_gives] change_gives [THEN gives_ignoring]
      gives_ignoring [OF view_gives])

text \<open>
  The tables of the shops change as they may; a shop that goes takes its carts with it
  (\<open>ON DELETE CASCADE\<close>).
\<close>

definition drop_orphans :: "'z cart_tables_scheme \<Rightarrow> 'z cart_tables_scheme" where
  "drop_orphans s = (let there = (\<lambda>c. list_ex (\<lambda>r. mc_id (sh_shop r) = bs_merchant_id c) (mt_shops s));
       gone = (\<lambda>r. \<not> list_ex (\<lambda>c. there c \<and> bs_id c = cw_cart_id r) (ct_carts s))
     in s\<lparr>ct_carts := filter there (ct_carts s), ct_lines := filter (\<lambda>r. \<not> gone r) (ct_lines s),
          ct_options := filter (\<lambda>x. \<not> list_ex (\<lambda>r. gone r \<and> cl_id (cw_line r) = cx_line_id x) (ct_lines s)) (ct_options s)\<rparr>)"

inductive cart_past :: "cart_services \<Rightarrow> ('z cart_tables_scheme \<Rightarrow> 'z cart_tables_scheme) \<Rightarrow> bool" for cs where
  cart_nothing: "cart_past cs (\<lambda>s. s)"
| cart_later: "cart_past cs f \<Longrightarrow> cart_past cs g \<Longrightarrow> cart_past cs (\<lambda>s. g (f s))"
| cart_elsewhere: "(\<And>s. ct_carts (f s) = ct_carts s \<and> ct_lines (f s) = ct_lines s \<and> ct_options (f s) = ct_options s) \<Longrightarrow>
    cart_past cs (\<lambda>s. drop_orphans (f s))"
| cart_request: "(\<And>n. cart_past cs (w_others w n)) \<Longrightarrow>
    cart_past cs (\<lambda>s. w_store (snd (run_cart cs q (w\<lparr>w_store := s\<rparr>))))"

lemma filter_shorter: "length (filter (\<lambda>x. Q x \<and> P x) xs) \<le> length (filter P xs)"
  by (induction xs) auto

lemma orphans_ok: "carts_ok s \<Longrightarrow> carts_ok (drop_orphans s)"
  unfolding carts_ok_def drop_orphans_def Let_def
  by (auto simp: distinct_map_filter intro: order_trans [OF filter_shorter])

definition no_carts :: "merchant_tables \<Rightarrow> cart_tables" where
  "no_carts t = \<lparr>gt_divisions = gt_divisions t, gt_areas = gt_areas t, gt_locations = gt_locations t, mt_shops = mt_shops t,
     mt_documents = mt_documents t, mt_events = mt_events t, ct_carts = [], ct_lines = [], ct_options = []\<rparr>"

definition carts_reachable :: "cart_services \<Rightarrow> cart_tables \<Rightarrow> bool" where
  "carts_reachable cs s \<longleftrightarrow> (\<exists>t f. cart_past cs f \<and> s = f (no_carts t))"

lemma cart_past_keeps: "cart_past cs f \<Longrightarrow> preserves carts_ok s (f s)"
proof (induction arbitrary: s rule: cart_past.induct)
  case cart_nothing
  then show ?case by (rule inv.refl)
next
  case (cart_later f g)
  show ?case by (rule inv.trans [OF cart_later.IH])
next
  case (cart_elsewhere f)
  then have "carts_ok s \<Longrightarrow> carts_ok (f s)" by (simp add: carts_ok_def)
  then show ?case using orphans_ok by (auto simp: preserves_def)
next
  case (cart_request w q)
  let ?w = "w\<lparr>w_store := s\<rparr>"
  have w: "relies (preserves carts_ok) ?w" using cart_request by (simp add: relies_def)
  obtain r v where run: "run_cart cs q ?w = (r, v)" by fastforce
  have "carts_ok (w_store ?w) \<Longrightarrow> carts_ok (w_store v)"
    using gives_run [OF run_cart_gives w _ run] by blast
  then show ?case by (simp add: run preserves_def)
qed

lemma reachable_carts_ok: "carts_reachable cs s \<Longrightarrow> carts_ok s"
proof -
  assume "carts_reachable cs s"
  then obtain t f where f: "cart_past cs f" "s = f (no_carts t)" by (auto simp: carts_reachable_def)
  have "carts_ok (no_carts t)" by (simp add: carts_ok_def no_carts_def)
  then show ?thesis using cart_past_keeps [OF f(1), of "no_carts t"] f(2) by (simp add: preserves_def)
qed

lemma cart_gives_now:
  assumes "cart_gives m Q" "carts_reachable cs (w_store w)" "\<And>n. cart_past cs (w_others w n)" "m w = (Inr x, v)"
  shows "Q x"
proof -
  have "relies (preserves carts_ok) w" using cart_past_keeps [OF assms(3)] by (simp add: relies_def)
  then show ?thesis using gives_run [OF assms(1) _ reachable_carts_ok [OF assms(2)] assms(4)] by simp
qed

section \<open>An orderable cart\<close>

definition line_worth :: "line_view \<Rightarrow> int" where
  "line_worth l = sm_minor (lv_unit_price l) * lv_quantity l"

definition sane_line :: "line_view \<Rightarrow> bool" where
  "sane_line l \<longleftrightarrow> 0 \<le> sm_minor (lv_unit_price l) \<and> sm_minor (lv_unit_price l) \<le> 1000000000"

definition orderable_view :: "cart_view \<Rightarrow> bool" where
  "orderable_view v \<longleftrightarrow> cv_lines v \<noteq> [] \<and> length (cv_lines v) \<le> 60 \<and> cv_address_id v \<noteq> [] \<and> cv_blocker v = [] \<and>
     list_all (\<lambda>l. lv_orderable l \<and> 1 \<le> lv_quantity l \<and> lv_quantity l \<le> 20) (cv_lines v) \<and>
     (list_all sane_line (cv_lines v) \<longrightarrow> sm_minor (cv_subtotal v) = sum_list (map line_worth (cv_lines v)) \<and>
        list_all (\<lambda>l. sm_minor (lv_line_total l) = line_worth l) (cv_lines v)) \<and>
     (\<exists>q. cv_pricing v = Some q \<and> sm_minor (sq_subtotal q) = sm_minor (cv_subtotal v))"

lemma check_line_parts: "ch_line (check_line l cur) = l"
  by (simp add: check_line_def)

lemma checked_lines: "check_lines cs c = Inr ls \<Longrightarrow> map ch_line ls = bs_lines c"
  by (auto simp: check_lines_def is_empty_cart_def rbind_Inr_iff check_line_parts comp_def Let_def split: if_splits)

lemma worth_exact:
  assumes "sane_line (line_view_of l lang)" "1 \<le> cl_quantity (ch_line l)" "cl_quantity (ch_line l) \<le> 20"
  shows "mul64 (m_minor (ch_unit_price l)) (cl_quantity (ch_line l)) = line_worth (line_view_of l lang)"
    and "0 \<le> line_worth (line_view_of l lang)" "line_worth (line_view_of l lang) \<le> 20000000000"
proof -
  have "m_minor (ch_unit_price l) * cl_quantity (ch_line l) \<le> 1000000000 * 20"
    using assms by (intro mult_mono) (simp_all add: sane_line_def line_view_of_def)
  moreover have "0 \<le> m_minor (ch_unit_price l) * cl_quantity (ch_line l)"
    using assms by (simp add: sane_line_def line_view_of_def)
  ultimately show "mul64 (m_minor (ch_unit_price l)) (cl_quantity (ch_line l)) = line_worth (line_view_of l lang)"
    "0 \<le> line_worth (line_view_of l lang)" "line_worth (line_view_of l lang) \<le> 20000000000"
    by (simp_all add: line_worth_def line_view_of_def mul64_def fits64_small)
qed

lemma worth_sum:
  assumes "list_all (\<lambda>l. sane_line (line_view_of l lang) \<and> ch_orderable l \<and> 1 \<le> cl_quantity (ch_line l) \<and> cl_quantity (ch_line l) \<le> 20) ls"
    and "0 \<le> a" "a + 20000000000 * int (length ls) \<le> 1000000000000000"
  shows "foldl (\<lambda>minor l. if ch_orderable l then add64 minor (m_minor (times_money (ch_unit_price l) (cl_quantity (ch_line l)))) else minor) a ls
    = a + sum_list (map (\<lambda>l. line_worth (line_view_of l lang)) ls)"
  using assms
proof (induction ls arbitrary: a)
  case Nil
  then show ?case by simp
next
  case (Cons l ls)
  note w = worth_exact [of l lang]
  have l: "sane_line (line_view_of l lang)" "ch_orderable l" "1 \<le> cl_quantity (ch_line l)" "cl_quantity (ch_line l) \<le> 20"
    using Cons.prems(1) by simp_all
  let ?w = "line_worth (line_view_of l lang)"
  have "m_minor (times_money (ch_unit_price l) (cl_quantity (ch_line l))) = ?w" using w(1) l by (simp add: times_money_def)
  moreover have "add64 a ?w = a + ?w" using Cons.prems(2,3) w(2,3) l by (simp add: add64_def fits64_small)
  ultimately show ?case using Cons.IH [of "a + ?w"] Cons.prems w(2,3) l by simp
qed

lemma decided_orderable:
  "ck_orderable (decide_cart c a b r why ls) \<Longrightarrow> r \<and> bs_lines c \<noteq> [] \<and> bs_address_id c \<noteq> [] \<and> list_all ch_orderable ls"
  "ck_orderable (decide_cart c a b r why ls) \<longleftrightarrow> ck_blocker (decide_cart c a b r why ls) = BlockerNone"
  "ck_lines (decide_cart c a b r why ls) = ls"
  by (auto simp: decide_cart_def Let_def is_empty_cart_def has_address_def all_orderable_def blocker_for_def split: if_splits)

lemma priced_subtotal: "price t s d e = Inr q \<Longrightarrow> qt_subtotal q = s"
  unfolding price_def Let_def by (cases "delivery_fee t d e") (auto split: if_splits)

lemma quote_of_subtotal: "answer_quote t q = Inr x \<Longrightarrow> sm_minor (sq_subtotal x) = qr_subtotal_minor q"
  unfolding answer_quote_def lift_domain_def
  by (cases "price t (taka (qr_subtotal_minor q)) (qr_distance_m q) (0 < qr_expansion_level q)")
    (auto simp: show_quote_def dest: priced_subtotal)

lemma view_orderable:
  assumes c: "sound_lines (bs_lines c)" and ls: "check_lines cs c = Inr ls"
    and k: "k = decide_cart c a b r why ls" and price: "r \<longrightarrow> (\<exists>q. priced = Some q \<and> sm_minor (sq_subtotal q) = sm_minor (cv_subtotal (cart_view_of c shop k lang)))"
    and go: "cv_orderable (cart_view_of c shop k lang)"
  shows "orderable_view (cart_view_of c shop k lang\<lparr>cv_pricing := priced\<rparr>)"
proof -
  let ?v = "cart_view_of c shop k lang"
  have d: "r" "bs_lines c \<noteq> []" "bs_address_id c \<noteq> []" "list_all ch_orderable ls" "ck_blocker k = BlockerNone" "ck_lines k = ls"
    using go decided_orderable [of c a b r why ls] by (auto simp: k cart_view_of_def)
  have quantities: "list_all (\<lambda>l. 1 \<le> cl_quantity (ch_line l) \<and> cl_quantity (ch_line l) \<le> 20) ls"
    using c unfolding sound_lines_def checked_lines [OF ls, symmetric] by (auto simp: list_all_iff sound_line_def)
  have len: "length ls = length (bs_lines c)" using checked_lines [OF ls] by (metis length_map)
  have v: "cv_lines ?v = map (\<lambda>l. line_view_of l lang) ls" "cv_address_id ?v = bs_address_id c" "cv_blocker ?v = []"
    "sm_minor (cv_subtotal ?v) = m_minor (priced_lines ls)"
    by (simp_all add: cart_view_of_def d)
  have exact: "m_minor (priced_lines ls) = sum_list (map line_worth (cv_lines ?v)) \<and>
      list_all (\<lambda>l. sm_minor (lv_line_total l) = line_worth l) (cv_lines ?v)" if sane: "list_all sane_line (cv_lines ?v)"
  proof
    have all: "list_all (\<lambda>l. sane_line (line_view_of l lang) \<and> ch_orderable l \<and> 1 \<le> cl_quantity (ch_line l) \<and> cl_quantity (ch_line l) \<le> 20) ls"
      using sane d(4) quantities by (simp add: v(1) list_all_iff)
    have "length ls \<le> 60" using c len by (simp add: sound_lines_def)
    then have "0 + 20000000000 * int (length ls) \<le> 1000000000000000" by simp
    from worth_sum [OF all _ this] show "m_minor (priced_lines ls) = sum_list (map line_worth (cv_lines ?v))"
      by (simp add: priced_lines_def v(1) comp_def)
    show "list_all (\<lambda>l. sm_minor (lv_line_total l) = line_worth l) (cv_lines ?v)"
      using all worth_exact(1) by (fastforce simp: v(1) list_all_iff line_view_of_def times_money_def)
  qed
  have "cv_lines ?v \<noteq> []" "length (cv_lines ?v) \<le> 60" using c d(2) len by (auto simp: v(1) sound_lines_def)
  moreover have "list_all (\<lambda>l. lv_orderable l \<and> 1 \<le> lv_quantity l \<and> lv_quantity l \<le> 20) (cv_lines ?v)"
    using d(4) quantities by (simp add: v(1) list_all_iff line_view_of_def)
  ultimately show ?thesis using d(1,3) v(2,3,4) exact price by (simp add: orderable_view_def)
qed

lemma render_orderable:
  assumes "sound_cart user c"
  shows "cart_gives (render_cart cs c lang) (\<lambda>v. cv_orderable v \<longrightarrow> orderable_view v)"
  unfolding render_cart_def Let_def
proof (rule gives_bind [OF revalidate_gives], rule gives_bind [OF gives_lifted], rule gives_simple, intro impI)
  fix g :: revalidated and priced
  let ?v = "cart_view_of c (rv_shop g) (rv_check g) lang"
  assume "\<exists>ls. check_lines cs c = Inr ls \<and> rv_check g =
      decide_cart c (sv_listed (rv_shop g)) (sv_open_now (rv_shop g)) (rh_reachable (rv_reach g)) (rh_reason (rv_reach g)) ls"
    and price: "cart_price cs g (sm_minor (cv_subtotal ?v)) lang = Inr priced" and go: "cv_orderable (?v\<lparr>cv_pricing := priced\<rparr>)"
  then obtain ls where ls: "check_lines cs c = Inr ls" "rv_check g =
      decide_cart c (sv_listed (rv_shop g)) (sv_open_now (rv_shop g)) (rh_reachable (rv_reach g)) (rh_reason (rv_reach g)) ls" by blast
  have "rh_reachable (rv_reach g) \<longrightarrow> (\<exists>q. priced = Some q \<and> sm_minor (sq_subtotal q) = sm_minor (cv_subtotal ?v))"
    using price quote_of_subtotal by (fastforce simp: cart_price_def Let_def rbind_Inr_iff)
  from view_orderable [OF _ ls this] show "orderable_view (?v\<lparr>cv_pricing := priced\<rparr>)"
    using assms go by (simp add: sound_cart_def)
qed

lemma current_orderable:
  "cart_gives (current_view cs user lang) (\<lambda>found. case found of None \<Rightarrow> True | Some v \<Rightarrow> cv_orderable v \<longrightarrow> orderable_view v)"
  unfolding current_view_def
proof (rule gives_bind [OF read_gives])
  fix found assume "case found of None \<Rightarrow> True | Some c \<Rightarrow> sound_cart user c"
  then show "cart_gives (case found of None \<Rightarrow> ret None | Some c \<Rightarrow> and_then (render_cart cs c lang) (\<lambda>v. ret (Some v)))
      (\<lambda>found. case found of None \<Rightarrow> True | Some v \<Rightarrow> cv_orderable v \<longrightarrow> orderable_view v)"
    by (cases found) (auto intro!: gives_simple gives_bind [OF render_orderable])
qed

section \<open>Properties\<close>

text \<open>C12: In every history a customer has one cart at most, and however it is read while other requests run it
  has at most sixty lines of one to twenty of an item or a bundle.\<close>

theorem cart_in_bounds:
  assumes "carts_reachable cs (w_store w)" "\<And>n. cart_past cs (w_others w n)" "cart_of_user user w = (Inr (Some c), v)"
  shows "distinct (map bs_user_id (ct_carts (w_store w))) \<and> bs_user_id c = user \<and> length (bs_lines c) \<le> 60 \<and>
    (\<forall>l\<in>set (bs_lines c). 1 \<le> cl_quantity l \<and> cl_quantity l \<le> 20 \<and> cl_target_id l \<noteq> [] \<and> cl_kind l \<in> {kind_item, kind_combo})"
  using reachable_carts_ok [OF assms(1)] cart_gives_now [OF of_user_gives assms]
  by (auto simp: carts_ok_def sound_cart_def sound_lines_def list_all_iff sound_line_def)

text \<open>C11: A cart is shown, and handed to checkout, as orderable only if it has lines and an address, nothing is
  named as being in the way, every line can be ordered at its price of today, and delivery is priced; at
  prices of up to ten million taka its subtotal is exactly the sum of its lines, and the delivery was
  quoted for that subtotal.\<close>

theorem orderable_cart:
  assumes "carts_reachable cs (w_store w)" "\<And>n. cart_past cs (w_others w n)"
    and "current_view cs user lang w = (Inr (Some v), u)" "cv_orderable v" "list_all sane_line (cv_lines v)"
  shows "cv_lines v \<noteq> [] \<and> length (cv_lines v) \<le> 60 \<and> cv_address_id v \<noteq> [] \<and> cv_blocker v = [] \<and>
    sm_minor (cv_subtotal v) = (\<Sum>l\<leftarrow>cv_lines v. sm_minor (lv_unit_price l) * lv_quantity l) \<and>
    (\<forall>l\<in>set (cv_lines v). lv_orderable l \<and> sm_minor (lv_line_total l) = sm_minor (lv_unit_price l) * lv_quantity l) \<and>
    (\<exists>q. cv_pricing v = Some q \<and> sm_minor (sq_subtotal q) = sm_minor (cv_subtotal v))"
proof -
  have "orderable_view v" using cart_gives_now [OF current_orderable assms(1-3)] assms(4) by simp
  then show ?thesis using assms(5) by (auto simp: orderable_view_def list_all_iff line_worth_def [abs_def])
qed

end
