(* ===== verification/Merchant_Safety.thy ===== *)
theory Merchant_Safety
  imports Merchant_Cases Geo_App
begin

text \<open>
  What the shops' tables keep in every history of requests: every shop lies in the division its
  record and its place in the index name, reads back with valid hours, and is its owner's only one;
  and a shop that no administrator approved is never open.
\<close>

section \<open>The invariant\<close>

definition hours_ok :: "weekly \<Rightarrow> bool" where
  "hours_ok w \<longleftrightarrow> wf_weekly w \<and> (\<forall>ws\<in>set w. int (length ws) \<le> 3) \<and> \<not> weekly_is_empty w"

definition pin_point :: "pin \<Rightarrow> coordinate" where
  "pin_point p = \<lparr>co_lat = pin_lat p, co_lng = pin_lng p\<rparr>"

definition well_placed :: "postgis \<Rightarrow> division_row list \<Rightarrow> merchant \<Rightarrow> bool" where
  "well_placed pg ds m \<longleftrightarrow> first_division pg ds (pin_point (mc_pin m)) = Some (sp_division_code (mc_place m)) \<and>
     division_code_valid (sp_division_code (mc_place m))"

text \<open>\<open>X\<close> are the shops no administrator approves in the history.\<close>

definition good_shop :: "postgis \<Rightarrow> string set \<Rightarrow> division_row list \<Rightarrow> merchant \<Rightarrow> bool" where
  "good_shop pg X ds m \<longleftrightarrow> (mc_id m \<in> X \<longrightarrow> mc_status m \<noteq> StatusApproved \<and> mc_status m \<noteq> StatusSuspended) \<and>
     well_placed pg ds m \<and> hours_ok (mc_hours m)"

definition good_row :: "postgis \<Rightarrow> string set \<Rightarrow> division_row list \<Rightarrow> shop_row \<Rightarrow> bool" where
  "good_row pg X ds r \<longleftrightarrow> (\<exists>w. sh_hours r = encode_week w \<and> good_shop pg X ds (sh_shop r\<lparr>mc_hours := w\<rparr>))"

definition paper_key :: "string \<times> document \<Rightarrow> string \<times> document_kind" where
  "paper_key x = (fst x, do_kind (snd x))"

definition well_indexed :: "postgis \<Rightarrow> division_row list \<Rightarrow> location_row \<Rightarrow> bool" where
  "well_indexed pg ds l \<longleftrightarrow> first_division pg ds (lo_location l) = Some (lo_division l)"

definition shops_ok :: "postgis \<Rightarrow> string set \<Rightarrow> division_row list \<Rightarrow> 'z merchant_tables_scheme \<Rightarrow> bool" where
  "shops_ok pg X ds s \<longleftrightarrow> gt_divisions s = ds \<and> list_all (good_row pg X ds) (mt_shops s) \<and>
     distinct (map (\<lambda>r. mc_id (sh_shop r)) (mt_shops s)) \<and> distinct (map (\<lambda>r. mc_owner (sh_shop r)) (mt_shops s)) \<and>
     distinct (map paper_key (mt_documents s)) \<and> list_all (well_indexed pg ds) (gt_locations s)"

abbreviation shop_gives :: "postgis \<Rightarrow> string set \<Rightarrow> division_row list \<Rightarrow> ('z, 'a) shop_op \<Rightarrow> ('a \<Rightarrow> bool) \<Rightarrow> bool" where
  "shop_gives pg X ds \<equiv> gives (shops_ok pg X ds)"

section \<open>Geo's part\<close>

lemma division_gives: "shop_gives pg X ds (division_containing pg c) (\<lambda>d. placed_in pg ds c (dv_code d))"
  by (rule division_gives_in) (simp add: shops_ok_def)

lemma area_gives: "shop_gives pg X ds (area_containing pg c) (\<lambda>_. True)"
  by (rule area_reads)

lemma resolve_division_gives:
  "shop_gives pg X ds (resolve_division pg lat lng) (\<lambda>a. placed_in pg ds \<lparr>co_lat = lat, co_lng = lng\<rparr> (ga_division_code a))"
  by (rule resolve_division_gives_in) (simp add: shops_ok_def)

lemma upsert_gives:
  assumes "first_division pg ds (mp_location m) = Some (mp_division m)"
  shows "shop_gives pg X ds (upsert_location m) (\<lambda>_. True)"
  unfolding upsert_location_def
proof (rule gives_call)
  fix s :: "'z merchant_tables_scheme" and r t
  assume s: "shops_ok pg X ds s"
    and step: "(if list_ex (\<lambda>r. dr_code r = mp_division m) (gt_divisions s) \<and>
        (mp_area_code m = [] \<or> list_ex (\<lambda>r. aw_code r = mp_area_code m) (gt_areas s))
      then (Inr (), s\<lparr>gt_locations :=
       (if list_ex (\<lambda>r. lo_merchant_id r = mp_merchant_id m) (gt_locations s)
        then map (\<lambda>r. if lo_merchant_id r = mp_merchant_id m then location_of m else r) (gt_locations s)
        else gt_locations s @ [location_of m])\<rparr>)
      else (Inl (Sentinel ''the row breaks a constraint of the table''), s)) = (r, t)"
  have "well_indexed pg ds (location_of m)" using assms by (simp add: well_indexed_def location_of_def)
  then show "shops_ok pg X ds t \<and> (\<forall>x. r = Inr x \<longrightarrow> True)"
    using s step by (auto simp: shops_ok_def list_all_iff split: if_splits)
qed

lemma publish_gives: "shop_gives pg X ds (publish pg m) (\<lambda>_. True)"
  unfolding publish_def place_merchant_def
proof (rule gives_bind [where M = "\<lambda>_. True"])
  show "shop_gives pg X ds (lift_err (to_coordinate (pin_lat (mc_pin m)) (pin_lng (mc_pin m)))) (\<lambda>_. True)"
    by (rule plain_simple)
  show "shop_gives pg X ds (place_at pg (mc_id m) c (mc_status m = StatusApproved)) (\<lambda>_. True)" for c
    unfolding place_at_def
    by (rule gives_if, rule plain_simple, rule gives_bind [OF gives_wrap [OF division_gives]],
        rule gives_bind [OF gives_attempt [OF area_gives]], rule gives_wrap, rule upsert_gives) simp
qed

lemma remove_gives: "shop_gives pg X ds (remove_merchant mid) (\<lambda>_. True)"
  unfolding remove_merchant_def delete_location_def
  by (rule gives_wrap, rule gives_call) (auto simp: shops_ok_def list_all_iff)

section \<open>Reading and writing a shop\<close>

lemma good_row_reads: "good_row pg X ds r \<Longrightarrow> \<exists>w. scan_merchant r = Inr (sh_shop r\<lparr>mc_hours := w, mc_documents := []\<rparr>) \<and>
    good_shop pg X ds (sh_shop r\<lparr>mc_hours := w\<rparr>)"
proof -
  assume "good_row pg X ds r"
  then obtain w where w: "sh_hours r = encode_week w" "good_shop pg X ds (sh_shop r\<lparr>mc_hours := w\<rparr>)"
    by (auto simp: good_row_def)
  then have "decode_weekly_hours (sh_hours r) = Inr w"
    unfolding decode_weekly_hours_def max_windows_per_day_def
    by (auto simp: good_shop_def hours_ok_def intro: decode_encoded)
  then show ?thesis using w(2) by (auto simp: scan_merchant_def)
qed

lemma scan_good: "good_row pg X ds r \<Longrightarrow> scan_merchant r = Inr m \<Longrightarrow>
    good_shop pg X ds m \<and> mc_id m = mc_id (sh_shop r) \<and> mc_status m = mc_status (sh_shop r) \<and> mc_owner m = mc_owner (sh_shop r)"
  by (drule good_row_reads) (auto simp: good_shop_def well_placed_def)

lemma good_shop_papers [simp]: "good_shop pg X ds (m\<lparr>mc_documents := d\<rparr>) = good_shop pg X ds m"
  by (simp add: good_shop_def well_placed_def)

lemma one_merchant_gives:
  "shop_gives pg X ds (one_merchant wanted) (good_shop pg X ds)"
  unfolding one_merchant_def
proof (rule gives_bind [where M = "good_shop pg X ds"])
  show "shop_gives pg X ds (db_read (\<lambda>s. case find (\<lambda>r. wanted (sh_shop r)) (mt_shops s) of
      None \<Rightarrow> Inl (merchant_sentinel ErrMerchantNotFound) | Some r \<Rightarrow> scan_merchant r)) (good_shop pg X ds)"
    by (rule gives_read) (auto simp: shops_ok_def list_all_iff find_Some_iff dest: scan_good split: option.splits)
  fix m assume "good_shop pg X ds m"
  then show "shop_gives pg X ds (and_then (documents_for (mc_id m)) (\<lambda>d. ret (m\<lparr>mc_documents := d\<rparr>))) (good_shop pg X ds)"
    unfolding documents_for_def by (intro gives_then plain_simple gives_simple) simp
qed

lemma by_id_gives:
  "shop_gives pg X ds (merchant_by_id mid) (\<lambda>m. good_shop pg X ds m \<and> mc_id m = mid)"
  unfolding merchant_by_id_def one_merchant_def
proof (rule gives_bind [where M = "\<lambda>m. good_shop pg X ds m \<and> mc_id m = mid"])
  show "shop_gives pg X ds (db_read (\<lambda>s. case find (\<lambda>r. mc_id (sh_shop r) = mid) (mt_shops s) of
      None \<Rightarrow> Inl (merchant_sentinel ErrMerchantNotFound) | Some r \<Rightarrow> scan_merchant r)) (\<lambda>m. good_shop pg X ds m \<and> mc_id m = mid)"
    by (rule gives_read) (auto simp: shops_ok_def list_all_iff find_Some_iff dest: scan_good split: option.splits)
  fix m assume "good_shop pg X ds m \<and> mc_id m = mid"
  then show "shop_gives pg X ds (and_then (documents_for (mc_id m)) (\<lambda>d. ret (m\<lparr>mc_documents := d\<rparr>)))
      (\<lambda>m. good_shop pg X ds m \<and> mc_id m = mid)"
    unfolding documents_for_def by (intro gives_then plain_simple gives_simple) simp
qed

lemma owned_gives: "shop_gives pg X ds (owned o') (good_shop pg X ds)"
  unfolding owned_def merchant_by_owner_def by (rule gives_wrap, rule one_merchant_gives)

lemma load_gives: "shop_gives pg X ds (load_shop mid) (\<lambda>m. good_shop pg X ds m \<and> mc_id m = mid)"
  unfolding load_shop_def by (rule gives_wrap, rule by_id_gives)

lemma put_document_keys:
  "paper_key ` set (put_document mid xs d) = insert (mid, do_kind d) (paper_key ` set xs)"
  "distinct (map paper_key xs) \<Longrightarrow> distinct (map paper_key (put_document mid xs d))"
proof -
  have same: "map paper_key (map (\<lambda>x. if fst x = mid \<and> do_kind (snd x) = do_kind d then (mid, d) else x) xs) = map paper_key xs"
    by (auto simp: paper_key_def)
  have there: "list_ex (\<lambda>x. fst x = mid \<and> do_kind (snd x) = do_kind d) xs \<longleftrightarrow> (mid, do_kind d) \<in> paper_key ` set xs"
    by (auto simp: list_ex_iff paper_key_def image_iff)
  have keys: "map paper_key (put_document mid xs d) =
      (if (mid, do_kind d) \<in> paper_key ` set xs then map paper_key xs else map paper_key xs @ [(mid, do_kind d)])"
    unfolding put_document_def there if_distrib [of "map paper_key"] same by (simp add: paper_key_def)
  show "distinct (map paper_key xs) \<Longrightarrow> distinct (map paper_key (put_document mid xs d))" by (simp add: keys)
  show "paper_key ` set (put_document mid xs d) = insert (mid, do_kind d) (paper_key ` set xs)"
    using keys by (simp only: set_map [symmetric] split: if_split) (auto simp: insert_absorb)
qed

lemma write_documents_distinct: "distinct (map paper_key xs) \<Longrightarrow> distinct (map paper_key (write_documents m xs))"
proof -
  assume "distinct (map paper_key xs)"
  moreover have "distinct (map paper_key ys) \<Longrightarrow> distinct (map paper_key (foldl (put_document (mc_id m)) ys zs))" for ys zs
    by (induction zs arbitrary: ys) (auto simp: put_document_keys(2))
  ultimately show ?thesis unfolding write_documents_def by (simp add: distinct_map_filter)
qed

lemma good_row_of:
  assumes "good_shop pg X ds m"
  shows "good_row pg X ds (row_of_merchant m)"
proof -
  have "good_shop pg X ds (m\<lparr>mc_hours := no_week, mc_documents := [], mc_hours := mc_hours m\<rparr>)"
    using assms by (simp add: good_shop_def well_placed_def)
  then show ?thesis unfolding good_row_def by (intro exI [of _ "mc_hours m"]) (simp add: row_of_merchant_def)
qed

lemma overwrite_parts [simp]:
  "mc_id (sh_shop (overwrite_row r m)) = mc_id m" "mc_owner (sh_shop (overwrite_row r m)) = mc_owner (sh_shop r)"
  "mc_id (sh_shop (row_of_merchant m)) = mc_id m" "mc_owner (sh_shop (row_of_merchant m)) = mc_owner m"
  by (simp_all add: overwrite_row_def row_of_merchant_def)

lemma good_overwrite: "good_shop pg X ds m \<Longrightarrow> good_row pg X ds (overwrite_row r m)"
  unfolding overwrite_row_def by (rule good_row_of) (simp add: good_shop_def well_placed_def)

lemma write_merchant_keeps:
  assumes "write_merchant m rows = Inr out" "good_shop pg X ds m" "list_all (good_row pg X ds) rows"
    and "distinct (map (\<lambda>r. mc_id (sh_shop r)) rows)" "distinct (map (\<lambda>r. mc_owner (sh_shop r)) rows)"
  shows "list_all (good_row pg X ds) out \<and> distinct (map (\<lambda>r. mc_id (sh_shop r)) out) \<and> distinct (map (\<lambda>r. mc_owner (sh_shop r)) out)"
proof (cases "list_ex (\<lambda>r. mc_id (sh_shop r) = mc_id m) rows")
  case True
  then have out: "out = map (\<lambda>r. if mc_id (sh_shop r) = mc_id m then overwrite_row r m else r) rows"
    using assms(1) by (simp add: write_merchant_def)
  have "map (\<lambda>r. mc_id (sh_shop r)) out = map (\<lambda>r. mc_id (sh_shop r)) rows"
    "map (\<lambda>r. mc_owner (sh_shop r)) out = map (\<lambda>r. mc_owner (sh_shop r)) rows" unfolding out by auto
  moreover have "list_all (good_row pg X ds) out"
    using assms(2,3) good_overwrite unfolding out by (auto simp: list_all_iff)
  ultimately show ?thesis using assms(4,5) by simp
next
  case False
  then have "out = rows @ [row_of_merchant m]" "\<not> list_ex (\<lambda>r. mc_owner (sh_shop r) = mc_owner m) rows"
    using assms(1) by (auto simp: write_merchant_def split: if_splits)
  then show ?thesis using assms(2-5) False good_row_of by (auto simp: list_ex_iff)
qed

lemma save_gives: "good_shop pg X ds m \<Longrightarrow> shop_gives pg X ds (save_merchant m) (\<lambda>_. True)"
  unfolding save_merchant_def
proof (rule gives_call)
  fix s :: "'z merchant_tables_scheme" and r t
  assume m: "good_shop pg X ds m" and s: "shops_ok pg X ds s"
    and step: "(case write_merchant m (mt_shops s) of Inl e \<Rightarrow> (Inl e, s)
      | Inr rows \<Rightarrow> (Inr (), s\<lparr>mt_shops := rows, mt_documents := write_documents m (mt_documents s)\<rparr>)) = (r, t)"
  show "shops_ok pg X ds t \<and> (\<forall>x. r = Inr x \<longrightarrow> True)"
  proof (cases "write_merchant m (mt_shops s)")
    case (Inl e)
    then show ?thesis using s step by simp
  next
    case (Inr out)
    have "list_all (good_row pg X ds) out \<and> distinct (map (\<lambda>r. mc_id (sh_shop r)) out) \<and> distinct (map (\<lambda>r. mc_owner (sh_shop r)) out)"
      using write_merchant_keeps [OF Inr m] s by (simp add: shops_ok_def)
    then show ?thesis using s step Inr write_documents_distinct by (auto simp: shops_ok_def)
  qed
qed

lemma create_gives: "good_shop pg X ds m \<Longrightarrow> shop_gives pg X ds (create_merchant m) (\<lambda>_. True)"
  unfolding create_merchant_def
proof (rule gives_call)
  fix s :: "'z merchant_tables_scheme" and r t
  assume m: "good_shop pg X ds m" and s: "shops_ok pg X ds s"
    and step: "(case write_merchant m (mt_shops s) of Inl _ \<Rightarrow> (Inl (merchant_sentinel ErrAlreadyRegistered), s)
      | Inr rows \<Rightarrow> (Inr (), s\<lparr>mt_shops := rows, mt_documents := write_documents m (mt_documents s)\<rparr>)) = (r, t)"
  show "shops_ok pg X ds t \<and> (\<forall>x. r = Inr x \<longrightarrow> True)"
  proof (cases "write_merchant m (mt_shops s)")
    case (Inl e)
    then show ?thesis using s step by simp
  next
    case (Inr out)
    have "list_all (good_row pg X ds) out \<and> distinct (map (\<lambda>r. mc_id (sh_shop r)) out) \<and> distinct (map (\<lambda>r. mc_owner (sh_shop r)) out)"
      using write_merchant_keeps [OF Inr m] s by (simp add: shops_ok_def)
    then show ?thesis using s step Inr write_documents_distinct by (auto simp: shops_ok_def)
  qed
qed

lemma delete_gives: "shop_gives pg X ds (delete_merchant mid) (\<lambda>_. True)"
  unfolding delete_merchant_def
  by (rule gives_call) (auto simp: shops_ok_def list_all_iff distinct_map_filter)

lemma record_gives: "shop_gives pg X ds (record_status_change e) (\<lambda>_. True)"
  unfolding record_status_change_def by (rule gives_call) (auto simp: shops_ok_def split: if_splits)

section \<open>Every use case\<close>

definition half_good :: "string set \<Rightarrow> merchant \<Rightarrow> bool" where
  "half_good X m \<longleftrightarrow> (mc_id m \<in> X \<longrightarrow> mc_status m \<noteq> StatusApproved \<and> mc_status m \<noteq> StatusSuspended) \<and> hours_ok (mc_hours m)"

lemma good_half: "good_shop pg X ds m \<Longrightarrow> half_good X m"
  by (simp add: good_shop_def half_good_def)

lemma details_half: "with_details m d = Inr n \<Longrightarrow> half_good X m \<Longrightarrow> half_good X n"
  by (auto simp: with_details_def Let_def half_good_def rbind_Inr_iff split: if_splits)

lemma default_hours_ok: "hours_ok default_hours"
proof -
  have "wf_weekly default_hours" unfolding default_hours_def by (rule every_day_wf) (simp add: wf_window_def end_of_day_def)
  then show ?thesis by (simp add: hours_ok_def default_hours_def every_day_def weekly_is_empty_def numeral_eq_Suc)
qed

lemma new_half:
  assumes "new_merchant mid o' d now = Inr m"
  shows "half_good X m"
proof -
  obtain start where "with_details start d = Inr m" "half_good X start"
    using assms default_hours_ok by (auto simp: new_merchant_def half_good_def split: if_splits)
  then show ?thesis by (rule details_half)
qed

lemma place_shop_gives: "half_good X m \<Longrightarrow> shop_gives pg X ds (place_shop pg m) (good_shop pg X ds)"
  unfolding place_shop_def
  by (rule gives_bind [OF resolve_division_gives])
    (auto simp: good_shop_def half_good_def well_placed_def pin_point_def intro!: gives_simple)

lemma register_gives: "shop_gives pg X ds (register_shop pg o' q) (\<lambda>_. True)"
  unfolding register_shop_def
proof (rule gives_bind [where M = "\<lambda>_. True"])
  show "shop_gives pg X ds (attempt (merchant_by_owner o')) (\<lambda>_. True)"
    unfolding merchant_by_owner_def by (rule gives_any [OF gives_attempt [OF one_merchant_gives]])
  fix found :: "error + merchant"
  show "shop_gives pg X ds (case found of
       Inr _ \<Rightarrow> raise_err (already_registered (merchant_sentinel ErrAlreadyRegistered))
     | Inl e \<Rightarrow> if \<not> is_not_found e then raise_err (set_up_failed e)
         else and_then (lift_err (to_details q)) (\<lambda>d. and_then (fresh_id ''mch'') (\<lambda>mid. and_then clock_now (\<lambda>now.
              and_then (lift_err (lift_domain details_error (new_merchant mid o' d now))) (\<lambda>m.
              and_then (place_shop pg m) (\<lambda>placed.
              and_then (or_wrap (\<lambda>e. if is_sentinel e (merchant_err_text ErrAlreadyRegistered)
                  then already_registered e else set_up_failed e) (create_merchant placed)) (\<lambda>_.
              and_then (publish pg placed) (\<lambda>_. ret placed)))))))) (\<lambda>_. True)"
  proof (cases found)
    case (Inl e)
    show ?thesis unfolding Inl sum.case
      by (rule gives_if, rule plain_simple, rule gives_then, rule plain_simple, rule gives_then, rule gives_simple, rule gives_then,
          rule gives_simple, rule gives_bind [OF gives_domain], erule new_half, rule gives_bind [OF place_shop_gives],
          assumption, rule gives_then, rule gives_wrap, erule create_gives, rule gives_then, rule publish_gives, rule plain_simple)
  next
    case (Inr m)
    show ?thesis unfolding Inr sum.case by (rule plain_simple)
  qed
qed

lemma update_gives: "shop_gives pg X ds (update_shop pg o' q) (\<lambda>_. True)"
  unfolding update_shop_def
  by (rule gives_bind [OF owned_gives], rule gives_if, rule plain_simple, rule gives_then, rule plain_simple,
      rule gives_bind [OF gives_domain], erule details_half [OF _ good_half], assumption, rule gives_bind [OF place_shop_gives],
      assumption, rule gives_then, rule gives_wrap, erule save_gives, rule gives_then, rule publish_gives, rule plain_simple)

lemma good_document: "good_shop pg X ds m \<Longrightarrow> good_shop pg X ds (with_document m d)"
  by (simp add: with_document_def)

lemma document_gives: "shop_gives pg X ds (add_document o' q) (\<lambda>_. True)"
  unfolding add_document_def
proof (rule gives_bind [OF owned_gives])
  fix m assume m: "good_shop pg X ds m"
  show "shop_gives pg X ds (if mc_status m = StatusPendingReview then raise_err under_review
       else case parse_document_kind (dc_kind q) of
         Inl e \<Rightarrow> raise_err (wrap (merchant_sentinel e) KindInvalid ''unknown_document_kind''
           ''We do not collect that kind of document.'')
       | Inr kind \<Rightarrow>
           if \<not> requires_document m kind
           then raise_err (wrap (merchant_sentinel ErrDocumentNotRequired) KindInvalid ''document_not_required''
             ''That document is not needed for this kind of shop.'')
           else and_then clock_now (\<lambda>now.
                and_then (lift_err (lift_domain document_error (new_document kind (dc_number q) (dc_file_url q) now))) (\<lambda>d.
                and_then (or_wrap (shop_unavailable ''We could not save that document just now. Please try again.'')
                  (save_merchant (with_document m d))) (\<lambda>_. ret (with_document m d))))) (\<lambda>_. True)"
  proof (cases "parse_document_kind (dc_kind q)")
    case (Inl e)
    show ?thesis unfolding Inl sum.case by (rule gives_if; rule plain_simple)
  next
    case (Inr kind)
    show ?thesis unfolding Inr sum.case
      by (rule gives_if, rule plain_simple, rule gives_if, rule plain_simple, rule gives_then, rule gives_simple,
          rule gives_then, rule plain_simple, rule gives_then, rule gives_wrap, rule save_gives, rule good_document,
          rule m, rule plain_simple)
  qed
qed

lemma with_status_parts:
  "with_status m next r = Inr n \<Longrightarrow> mc_id n = mc_id m \<and> mc_status n = next \<and> can_transition_to (mc_status m) next \<and>
     mc_hours n = mc_hours m \<and> mc_pin n = mc_pin m \<and> mc_place n = mc_place m \<and> mc_documents n = mc_documents m \<and> mc_type n = mc_type m"
  by (auto simp: with_status_def split: if_splits)

lemma good_status:
  assumes "with_status m next r = Inr n" "good_shop pg X ds m" "next = StatusApproved \<longrightarrow> mc_id m \<notin> X"
  shows "good_shop pg X ds n"
proof -
  have "next = StatusSuspended \<Longrightarrow> mc_status m = StatusApproved"
    using with_status_parts [OF assms(1)] by (cases "mc_status m") (auto simp: can_transition_to_def)
  then show ?thesis using with_status_parts [OF assms(1)] assms(2,3) by (auto simp: good_shop_def well_placed_def)
qed

lemma submit_gives: "shop_gives pg X ds (submit_for_review o') (\<lambda>_. True)"
  unfolding submit_for_review_def
proof (rule gives_bind [OF owned_gives])
  fix m assume m: "good_shop pg X ds m"
  let ?decided = "case with_status m StatusPendingReview [] of
         Inl e \<Rightarrow> raise_err (transition_error e (mc_status m))
       | Inr submitted \<Rightarrow>
           and_then (or_wrap (shop_unavailable ''We could not submit your shop just now. Please try again.'')
             (save_merchant submitted)) (\<lambda>_.
           and_then (fresh_id ''mse'') (\<lambda>eid.
           and_then clock_now (\<lambda>now.
           and_then (or_wrap (shop_unavailable ''We could not submit your shop just now. Please try again.'')
             (record_status_change \<lparr>sc_id = eid, sc_merchant_id = mc_id submitted, sc_from = mc_status m,
                sc_to = mc_status submitted, sc_actor = o', sc_note = [], sc_at = now\<rparr>)) (\<lambda>_. ret submitted))))"
  have "shop_gives pg X ds ?decided (\<lambda>_. True)"
  proof (cases "with_status m StatusPendingReview []")
    case (Inl e)
    show ?thesis unfolding Inl sum.case by (rule plain_simple)
  next
    case (Inr n)
    have "good_shop pg X ds n" by (rule good_status [OF Inr m]) simp
    then show ?thesis unfolding Inr sum.case
      by (rule_tac gives_then, rule_tac gives_wrap, erule_tac save_gives, rule_tac gives_then, rule_tac gives_simple, rule_tac gives_then,
          rule_tac gives_simple, rule_tac gives_then, rule_tac gives_wrap, rule_tac record_gives, rule_tac plain_simple)
  qed
  then show "shop_gives pg X ds (case ready_for_review m of
       Some e \<Rightarrow> raise_err (readiness_error e (missing_documents m)) | None \<Rightarrow> ?decided) (\<lambda>_. True)"
    by (cases "ready_for_review m") (simp_all add: plain_simple)
qed

lemma decide_gives: "next = StatusApproved \<longrightarrow> mid \<notin> X \<Longrightarrow> shop_gives pg X ds (decide pg admin mid next remark req) (\<lambda>_. True)"
  unfolding decide_def
proof (rule gives_if, rule plain_simple, rule gives_bind [OF load_gives])
  fix m assume allowed: "next = StatusApproved \<longrightarrow> mid \<notin> X" and m: "good_shop pg X ds m \<and> mc_id m = mid"
  show "shop_gives pg X ds (case with_status m next remark of
          Inl e \<Rightarrow> raise_err (transition_error e (mc_status m))
        | Inr updated \<Rightarrow>
            and_then (or_wrap (shop_unavailable ''We could not record that decision just now. Please try again.'')
              (save_merchant updated)) (\<lambda>_.
            and_then (publish pg updated) (\<lambda>_.
            and_then (fresh_id ''mse'') (\<lambda>eid.
            and_then clock_now (\<lambda>now.
            and_then (or_wrap (shop_unavailable ''We could not record that decision just now. Please try again.'')
              (record_status_change \<lparr>sc_id = eid, sc_merchant_id = mc_id updated, sc_from = mc_status m,
                 sc_to = mc_status updated, sc_actor = admin, sc_note = trim_space remark, sc_at = now\<rparr>)) (\<lambda>_.
            ret updated)))))) (\<lambda>_. True)"
  proof (cases "with_status m next remark")
    case (Inl e)
    show ?thesis unfolding Inl sum.case by (rule plain_simple)
  next
    case (Inr n)
    have "good_shop pg X ds n" using good_status [OF Inr] m allowed by blast
    then show ?thesis unfolding Inr sum.case
      by (rule_tac gives_then, rule_tac gives_wrap, erule_tac save_gives, rule_tac gives_then, rule_tac publish_gives,
          rule_tac gives_then, rule_tac gives_simple, rule_tac gives_then, rule_tac gives_simple, rule_tac gives_then,
          rule_tac gives_wrap, rule_tac record_gives, rule_tac plain_simple)
  qed
qed

lemma withdraw_gives: "shop_gives pg X ds (withdraw_shop o') (\<lambda>_. True)"
  unfolding withdraw_shop_def
  by (rule gives_bind [OF owned_gives], rule gives_if, rule plain_simple, rule gives_then, rule remove_gives, rule gives_wrap,
      rule delete_gives)

lemma fill_days_short:
  "fill_days days 3 w = Inr v \<Longrightarrow> list_all (\<lambda>ws. int (length ws) \<le> 3) w \<Longrightarrow> list_all (\<lambda>ws. int (length ws) \<le> 3) v"
proof (induction days "3 :: int" w rule: fill_days.induct)
  case (1 w)
  then show ?case by simp
next
  case (2 day windows rest w)
  then have d: "0 \<le> day" "day \<le> 6" "int (length windows) \<le> 3"
    and f: "fill_days rest 3 (w[nat day := stable_sort opens_before windows]) = Inr v"
    by (auto simp: Let_def split: if_splits option.splits)
  have "list_all (\<lambda>ws. int (length ws) \<le> 3) (w[nat day := stable_sort opens_before windows])"
    using 2 d(3) by (auto simp: list_all_iff dest: set_update_subset_insert [THEN subsetD])
  then show ?case using 2 d f by (auto simp: Let_def split: option.splits)
qed

lemma decoded_week:
  "decode_weekly_hours days = Inr w \<Longrightarrow> wf_weekly w \<and> (\<forall>ws\<in>set w. int (length ws) \<le> 3)"
  unfolding decode_weekly_hours_def max_windows_per_day_def
  using decode_week_wf fill_days_short [of _ no_week]
  by (auto simp: decode_week_def rbind_Inr_iff new_weekly_def no_week_def list_all_iff)

lemma decoded_good:
  assumes "decode_weekly_hours days = Inr hours" "\<not> weekly_is_empty hours" "good_shop pg X ds m"
  shows "good_shop pg X ds (m\<lparr>mc_hours := hours\<rparr>)"
  using assms(2,3) decoded_week [OF assms(1)] by (auto simp: good_shop_def well_placed_def hours_ok_def)

lemma hours_gives: "shop_gives pg X ds (set_hours o' days) (\<lambda>_. True)"
  unfolding set_hours_def
  by (rule gives_bind [OF owned_gives], rule gives_bind [OF gives_domain [where Q = "\<lambda>w. decode_weekly_hours days = Inr w"]],
      assumption, rule gives_if, rule plain_simple, rule gives_then, rule gives_wrap, rule save_gives,
      rule decoded_good, assumption+, rule plain_simple)

lemma good_holiday: "good_shop pg X ds m \<Longrightarrow> good_shop pg X ds (m\<lparr>mc_holiday := h\<rparr>)"
  by (simp add: good_shop_def well_placed_def)

lemma holiday_gives:
  "shop_gives pg X ds (start_holiday o' until reason) (\<lambda>_. True)" "shop_gives pg X ds (end_holiday o') (\<lambda>_. True)"
  unfolding start_holiday_def end_holiday_def
  by (rule gives_bind [OF owned_gives], rule gives_then, rule gives_simple, rule gives_then, rule plain_simple,
      rule gives_then, rule gives_wrap, rule save_gives, erule good_holiday, rule plain_simple)
    (rule gives_bind [OF owned_gives], rule gives_then, rule gives_wrap, rule save_gives, erule good_holiday, rule plain_simple)

lemma find_gives: "shop_gives pg X ds (find_shop mid) (\<lambda>v. sv_id v = mid \<and> (mid \<in> X \<longrightarrow> \<not> sv_listed v \<and> \<not> sv_open_now v))"
  unfolding find_shop_def
  by (rule gives_bind [OF load_gives], rule gives_then, rule gives_simple, rule gives_simple)
    (auto simp: shop_view_of_def is_listed_def is_open_at_def good_shop_def)

lemma accepting_gives: "shop_gives pg X ds (is_accepting_orders mid) (\<lambda>b. mid \<in> X \<longrightarrow> \<not> b)"
  unfolding is_accepting_orders_def
  by (rule gives_bind [OF load_gives], rule gives_then, rule gives_simple, rule gives_simple)
    (auto simp: is_listed_def is_open_at_def good_shop_def)

lemma listed_among_gives:
  "shop_gives pg X ds (listed_among now mids) (\<lambda>vs. \<forall>v\<in>set vs. sv_id v \<in> set mids \<and> sv_id v \<notin> X)"
proof (induction mids)
  case Nil
  show ?case by (simp add: gives_simple)
next
  case (Cons mid mids)
  show ?case unfolding listed_among.simps
    by (rule gives_bind [OF gives_attempt [OF by_id_gives]], rule gives_bind [OF Cons.IH], rule gives_simple)
      (auto simp: shop_view_of_def is_listed_def good_shop_def split: sum.splits)
qed

lemma listed_gives: "shop_gives pg X ds (listed mids) (\<lambda>vs. \<forall>v\<in>set vs. sv_id v \<in> set mids \<and> sv_id v \<notin> X)"
  unfolding listed_def by (rule gives_then, rule gives_simple, rule listed_among_gives)

section \<open>Histories\<close>

datatype shop_request =
    RegisterShop string details_request
  | UpdateShop string details_request
  | AddDocument string document_request
  | SubmitShop string
  | WithdrawShop string
  | SetHours string "(string \<times> string list) list"
  | StartHoliday string instant string
  | EndHoliday string
  | ApproveShop string string string
  | RejectShop string string string
  | SuspendShop string string string
  | ReinstateShop string string string

fun run_shop :: "postgis \<Rightarrow> shop_request \<Rightarrow> ('z, unit) shop_op" where
  "run_shop pg (RegisterShop o' q) = ignoring (register_shop pg o' q)"
| "run_shop pg (UpdateShop o' q) = ignoring (update_shop pg o' q)"
| "run_shop pg (AddDocument o' q) = ignoring (add_document o' q)"
| "run_shop pg (SubmitShop o') = ignoring (submit_for_review o')"
| "run_shop pg (WithdrawShop o') = ignoring (withdraw_shop o')"
| "run_shop pg (SetHours o' days) = ignoring (set_hours o' days)"
| "run_shop pg (StartHoliday o' until reason) = ignoring (start_holiday o' until reason)"
| "run_shop pg (EndHoliday o') = ignoring (end_holiday o')"
| "run_shop pg (ApproveShop a mid remark) = ignoring (approve_shop pg a mid remark)"
| "run_shop pg (RejectShop a mid remark) = ignoring (reject_shop pg a mid remark)"
| "run_shop pg (SuspendShop a mid remark) = ignoring (suspend_shop pg a mid remark)"
| "run_shop pg (ReinstateShop a mid remark) = ignoring (reinstate_shop pg a mid remark)"

fun approves :: "shop_request \<Rightarrow> string set" where
  "approves (ApproveShop a mid remark) = {mid}"
| "approves (ReinstateShop a mid remark) = {mid}"
| "approves q = {}"

lemmas requests_give = register_gives update_gives document_gives submit_gives withdraw_gives hours_gives holiday_gives

lemmas requests_keep = requests_give [THEN gives_ignoring] decide_gives [THEN gives_ignoring]

lemma run_shop_gives: "approves q \<inter> X = {} \<Longrightarrow> shop_gives pg X ds (run_shop pg q) (\<lambda>_. True)"
  by (cases q)
    (simp_all add: requests_keep approve_shop_def reject_shop_def suspend_shop_def reinstate_shop_def)
end
