(* ===== verification/Merchant_Histories.thy ===== *)
theory Merchant_Histories
  imports Merchant_Safety Config_Example
begin

text \<open>
  Histories of the merchant module's requests, and what they say of every shop: one for each owner,
  placed in the division its pin lies in, with hours that read back, and open to customers only once
  an administrator approved it.
\<close>

section \<open>Histories\<close>

inductive shop_past :: "postgis \<Rightarrow> string set \<Rightarrow> ('z merchant_tables_scheme \<Rightarrow> 'z merchant_tables_scheme) \<Rightarrow> bool" for pg X where
  past_nothing: "shop_past pg X (\<lambda>s. s)"
| past_later: "shop_past pg X f \<Longrightarrow> shop_past pg X g \<Longrightarrow> shop_past pg X (\<lambda>s. g (f s))"
| past_request: "approves q \<inter> X = {} \<Longrightarrow> (\<And>n. shop_past pg X (w_others w n)) \<Longrightarrow>
    shop_past pg X (\<lambda>s. w_store (snd (run_shop pg q (w\<lparr>w_store := s\<rparr>))))"

definition no_shops :: "division_row list \<Rightarrow> area_row list \<Rightarrow> merchant_tables" where
  "no_shops ds as = \<lparr>gt_divisions = ds, gt_areas = as, gt_locations = [], mt_shops = [], mt_documents = [], mt_events = []\<rparr>"

definition shops_reachable :: "postgis \<Rightarrow> string set \<Rightarrow> division_row list \<Rightarrow> area_row list \<Rightarrow> merchant_tables \<Rightarrow> bool" where
  "shops_reachable pg X ds as s \<longleftrightarrow> (\<exists>f. shop_past pg X f \<and> s = f (no_shops ds as))"

lemma past_keeps: "shop_past pg X f \<Longrightarrow> preserves (shops_ok pg X ds) s (f s)"
proof (induction arbitrary: s rule: shop_past.induct)
  case past_nothing
  then show ?case by (rule inv.refl)
next
  case (past_later f g)
  show ?case by (rule inv.trans [OF past_later.IH])
next
  case (past_request q w)
  let ?w = "w\<lparr>w_store := s\<rparr>"
  have w: "relies (preserves (shops_ok pg X ds)) ?w" using past_request by (simp add: relies_def)
  obtain r v where run: "run_shop pg q ?w = (r, v)" by fastforce
  have "shops_ok pg X ds (w_store ?w) \<Longrightarrow> shops_ok pg X ds (w_store v)"
    using gives_run [OF run_shop_gives [OF past_request(1)] w _ run] by blast
  then show ?case by (simp add: run preserves_def)
qed

lemma reachable_shops_ok: "shops_reachable pg X ds as s \<Longrightarrow> shops_ok pg X ds s"
proof -
  assume "shops_reachable pg X ds as s"
  then obtain f where f: "shop_past pg X f" "s = f (no_shops ds as)" by (auto simp: shops_reachable_def)
  have "shops_ok pg X ds (no_shops ds as)" by (simp add: shops_ok_def no_shops_def)
  then show ?thesis using past_keeps [OF f(1), of ds "no_shops ds as"] f(2) by (simp add: preserves_def)
qed

lemma past_mono: "shop_past pg X f \<Longrightarrow> Y \<subseteq> X \<Longrightarrow> shop_past pg Y f"
proof (induction rule: shop_past.induct)
  case past_nothing
  show ?case by (rule shop_past.past_nothing)
next
  case (past_later f g)
  then show ?case using shop_past.past_later by blast
next
  case (past_request q w)
  then show ?case by (intro shop_past.past_request) auto
qed

text \<open>What one request gives, in the middle of any others.\<close>

lemma gives_now:
  assumes "shop_gives pg X ds m Q" "shops_reachable pg X ds as (w_store w)" "\<And>n. shop_past pg X (w_others w n)" "m w = (Inr x, v)"
  shows "Q x \<and> shops_ok pg X ds (w_store v)"
proof -
  have "relies (preserves (shops_ok pg X ds)) w" using past_keeps [OF assms(3)] by (simp add: relies_def)
  then show ?thesis using gives_run [OF assms(1) _ reachable_shops_ok [OF assms(2)] assms(4)] by simp
qed

section \<open>Properties\<close>

text \<open>C8: Whatever requests were made before and run meanwhile, while no administrator has approved or reinstated a
  shop nobody is told that it takes orders, no module sees it as listed or open, and it is in no list
  of shops to show.\<close>

theorem approved_by_an_admin:
  assumes "shops_reachable pg {mid} ds as (w_store w)" "\<And>n. shop_past pg {mid} (w_others w n)"
  shows "fst (is_accepting_orders mid w) \<noteq> Inr True \<and>
    (case fst (find_shop mid w) of Inl e \<Rightarrow> True | Inr v \<Rightarrow> sv_id v = mid \<and> \<not> sv_listed v \<and> \<not> sv_open_now v) \<and>
    (case fst (listed mids w) of Inl e \<Rightarrow> True | Inr vs \<Rightarrow> mid \<notin> sv_id ` set vs \<and> sv_id ` set vs \<subseteq> set mids)"
proof (intro conjI)
  have "is_accepting_orders mid w = (Inr b, v) \<Longrightarrow> \<not> b" for b v
    using gives_now [OF accepting_gives assms] by auto
  then show "fst (is_accepting_orders mid w) \<noteq> Inr True" by (cases "is_accepting_orders mid w") auto
  have "find_shop mid w = (Inr x, v) \<Longrightarrow> sv_id x = mid \<and> \<not> sv_listed x \<and> \<not> sv_open_now x" for x v
    using gives_now [OF find_gives assms] by auto
  then show "case fst (find_shop mid w) of Inl e \<Rightarrow> True | Inr v \<Rightarrow> sv_id v = mid \<and> \<not> sv_listed v \<and> \<not> sv_open_now v"
    by (cases "find_shop mid w") (auto split: sum.split)
  have "listed mids w = (Inr xs, v) \<Longrightarrow> \<forall>x\<in>set xs. sv_id x \<in> set mids \<and> sv_id x \<noteq> mid" for xs v
    using gives_now [OF listed_gives assms] by auto
  then show "case fst (listed mids w) of Inl e \<Rightarrow> True | Inr vs \<Rightarrow> mid \<notin> sv_id ` set vs \<and> sv_id ` set vs \<subseteq> set mids"
    by (cases "listed mids w") (auto split: sum.split)
qed

text \<open>C16: In every history of requests an owner has one shop at most and a shop one paper of each kind;
  every shop's row reads back, with hours that are in order, do not overlap, are at most three ranges a
  day and leave a day open, and with the division its pin lies in; and the index keeps every point
  under the division the point lies in.\<close>

theorem every_shop_in_order:
  assumes "shops_reachable pg X ds as s"
  shows "distinct (map (\<lambda>r. mc_owner (sh_shop r)) (mt_shops s)) \<and> distinct (map (\<lambda>r. mc_id (sh_shop r)) (mt_shops s)) \<and>
    distinct (map (\<lambda>(mid, d). (mid, do_kind d)) (mt_documents s)) \<and>
    (\<forall>r\<in>set (mt_shops s). \<exists>m. scan_merchant r = Inr m \<and> wf_weekly (mc_hours m) \<and> \<not> weekly_is_empty (mc_hours m) \<and>
       (\<forall>day\<in>set (mc_hours m). int (length day) \<le> max_windows_per_day) \<and>
       first_division pg ds (pin_point (mc_pin m)) = Some (sp_division_code (mc_place m))) \<and>
    (\<forall>l\<in>set (gt_locations s). first_division pg ds (lo_location l) = Some (lo_division l))"
proof (intro conjI ballI)
  have ok: "shops_ok pg X ds s" using assms by (rule reachable_shops_ok)
  show "distinct (map (\<lambda>r. mc_owner (sh_shop r)) (mt_shops s))" "distinct (map (\<lambda>r. mc_id (sh_shop r)) (mt_shops s))"
    using ok by (simp_all add: shops_ok_def)
  have "paper_key = (\<lambda>(mid, d). (mid, do_kind d))" by (auto simp: paper_key_def)
  then show "distinct (map (\<lambda>(mid, d). (mid, do_kind d)) (mt_documents s))" using ok by (simp add: shops_ok_def)
  show "first_division pg ds (lo_location l) = Some (lo_division l)" if "l \<in> set (gt_locations s)" for l
    using ok that by (auto simp: shops_ok_def list_all_iff well_indexed_def)
  fix r assume "r \<in> set (mt_shops s)"
  then have row: "good_row pg X ds r" using ok by (auto simp: shops_ok_def list_all_iff)
  then obtain m where m: "scan_merchant r = Inr m" using good_row_reads by blast
  then show "\<exists>m. scan_merchant r = Inr m \<and> wf_weekly (mc_hours m) \<and> \<not> weekly_is_empty (mc_hours m) \<and>
       (\<forall>day\<in>set (mc_hours m). int (length day) \<le> max_windows_per_day) \<and>
       first_division pg ds (pin_point (mc_pin m)) = Some (sp_division_code (mc_place m))"
    using scan_good [OF row m]
    by (intro exI [of _ m]) (auto simp: good_shop_def well_placed_def hours_ok_def max_windows_per_day_def)
qed

text \<open>
  A concrete history of the merchant module: a shop registers in Dhaka.  The theorems of
  \<open>Merchant_Histories\<close> are applied to it.
\<close>

section \<open>Dhaka\<close>

definition dhaka_ring :: "coordinate list" where
  "dhaka_ring = [\<lparr>co_lat = Fin 23, co_lng = Fin 90\<rparr>, \<lparr>co_lat = Fin 25, co_lng = Fin 90\<rparr>, \<lparr>co_lat = Fin 25, co_lng = Fin 92\<rparr>,
     \<lparr>co_lat = Fin 23, co_lng = Fin 92\<rparr>]"

definition dhaka_row :: division_row where
  "dhaka_row = \<lparr>dr_code = ''DHA'', dr_name = ''Dhaka'', dr_boundary = dhaka_ring\<rparr>"

text \<open>A box for the one polygon there is, and all distances half a kilometre.\<close>

definition small_country :: postgis where
  "small_country = \<lparr>st_contains = (\<lambda>ring c. ring = dhaka_ring \<and> fle (Fin 23) (co_lat c) \<and> fle (co_lat c) (Fin 25) \<and>
       fle (Fin 90) (co_lng c) \<and> fle (co_lng c) (Fin 92)),
     st_area = (\<lambda>_. 4), st_distance = (\<lambda>_ _. Fin 500), st_dwithin = (\<lambda>_ _ r. fle (Fin 500) r)\<rparr>"

section \<open>A shop registers\<close>

definition shop_form :: details_request where
  "shop_form = \<lparr>dq_name = ''Corner'', dq_type = ''grocery'', dq_phone = ''01712345678'', dq_email = [], dq_logo_url = [],
     dq_line1 = ''Road 2'', dq_line2 = [], dq_lat = Fin 24, dq_lng = Fin 91\<rparr>"

definition new_shop :: merchant where
  "new_shop = \<lparr>mc_id = ''mch_Y7FKPX6A000000000000'', mc_owner = ''usr'', mc_name = ''Corner'', mc_type = TypeGrocery,
     mc_status = StatusDraft, mc_phone = ''+8801712345678'', mc_email = [], mc_logo_url = [], mc_line1 = ''Road 2'',
     mc_line2 = [], mc_pin = \<lparr>pin_lat = Fin 24, pin_lng = Fin 91\<rparr>,
     mc_place = \<lparr>sp_area_code = [], sp_area_name = [], sp_district_code = [], sp_division_code = ''DHA''\<rparr>, mc_documents = [],
     mc_hours = default_hours, mc_holiday = no_holiday, mc_review_note = [], mc_created_at = 0\<rparr>"

definition one_shop :: merchant_tables where
  "one_shop = \<lparr>gt_divisions = [dhaka_row], gt_areas = [],
     gt_locations = [\<lparr>lo_merchant_id = ''mch_Y7FKPX6A000000000000'', lo_location = \<lparr>co_lat = Fin 24, co_lng = Fin 91\<rparr>,
       lo_division = ''DHA'', lo_area = None, lo_active = False\<rparr>],
     mt_shops = [row_of_merchant new_shop], mt_documents = [], mt_events = []\<rparr>"

lemma form_reads:
  "to_details shop_form = Inr \<lparr>sd_name = ''Corner'', sd_type = TypeGrocery, sd_phone = ''01712345678'', sd_email = [],
     sd_logo_url = [], sd_line1 = ''Road 2'', sd_line2 = [], sd_pin = \<lparr>pin_lat = Fin 24, pin_lng = Fin 91\<rparr>\<rparr>"
  "new_merchant ''mch_Y7FKPX6A000000000000'' ''usr'' \<lparr>sd_name = ''Corner'', sd_type = TypeGrocery, sd_phone = ''01712345678'', sd_email = [],
     sd_logo_url = [], sd_line1 = ''Road 2'', sd_line2 = [], sd_pin = \<lparr>pin_lat = Fin 24, pin_lng = Fin 91\<rparr>\<rparr> 0
   = Inr (new_shop\<lparr>mc_place := no_place\<rparr>)"
  "new_id ''mch'' (unix_milli 0) an_entropy = ''mch_Y7FKPX6A000000000000''"
  unfolding an_entropy_def by code_simp+

definition dhaka_box :: polygon where
  "dhaka_box = \<lparr>py_vertices = dhaka_ring, py_min = \<lparr>co_lat = Fin 23, co_lng = Fin 90\<rparr>, py_max = \<lparr>co_lat = Fin 25, co_lng = Fin 92\<rparr>\<rparr>"

lemma dhaka_reads: "scan_polygon dhaka_ring = Inr dhaka_box"
  "new_division ''DHA'' ''Dhaka'' dhaka_box = Inr \<lparr>dv_code = ''DHA'', dv_name = ''Dhaka'', dv_boundary = dhaka_box\<rparr>"
  by code_simp+

lemma dhaka_point: "new_coordinate (Fin 24) (Fin 91) = Inr \<lparr>co_lat = Fin 24, co_lng = Fin 91\<rparr>"
  by (simp add: new_coordinate_def)

lemma in_dhaka: "st_contains small_country dhaka_ring \<lparr>co_lat = Fin 24, co_lng = Fin 91\<rparr>"
  by (simp add: small_country_def)

lemma its_id: "trim_space ''mch_Y7FKPX6A000000000000'' \<noteq> []"
  "is_sentinel (merchant_sentinel ErrMerchantNotFound) ''merchant not found''"
  by code_simp+

lemma registers: "w_store (snd (run_shop small_country (RegisterShop ''usr'' shop_form) (quiet an_entropy (no_shops [dhaka_row] []) 0 0 0))) = one_shop"
  by (simp add: register_shop_def merchant_by_owner_def one_merchant_def run_ops run_quiet form_reads no_shops_def
      place_shop_def resolve_division_def to_coordinate_def place_division_def division_containing_def area_containing_def
      dhaka_row_def dhaka_reads dhaka_point in_dhaka lift_domain_def new_shop_def geo_area_of_def no_area_def is_not_found_def
      create_merchant_def write_merchant_def publish_def place_merchant_def place_at_def upsert_location_def write_documents_def
      location_of_def one_shop_def its_id
      cong: next_op_cong wrap_result_cong)

lemma shop_step:
  assumes "shops_reachable pg X ds as s" "approves q \<inter> X = {}"
  shows "shops_reachable pg X ds as (w_store (snd (run_shop pg q (quiet bytes s c r d))))"
proof -
  obtain f where f: "shop_past pg X f" "s = f (no_shops ds as)" using assms(1) by (auto simp: shops_reachable_def)
  let ?w = "quiet bytes s c r d"
  have "shop_past pg X (\<lambda>t. w_store (snd (run_shop pg q (?w\<lparr>w_store := t\<rparr>))))"
    by (rule past_request [OF assms(2)]) (simp add: quiet_def past_nothing)
  from past_later [OF f(1) this] have "shop_past pg X (\<lambda>t. w_store (snd (run_shop pg q (?w\<lparr>w_store := f t\<rparr>))))" .
  moreover have "w_store (snd (run_shop pg q ?w)) = w_store (snd (run_shop pg q (?w\<lparr>w_store := f (no_shops ds as)\<rparr>)))"
    by (simp add: quiet_def f(2))
  ultimately show ?thesis unfolding shops_reachable_def by blast
qed

lemma one_shop_reachable: "shops_reachable small_country X [dhaka_row] [] one_shop"
proof -
  have "shops_reachable small_country X [dhaka_row] [] (no_shops [dhaka_row] [])"
    unfolding shops_reachable_def by (rule exI [of _ "\<lambda>s. s"]) (simp add: past_nothing)
  from shop_step [OF this, of "RegisterShop ''usr'' shop_form"] show ?thesis using registers by (metis approves.simps(3) Int_empty_left)
qed

section \<open>Witnesses\<close>

theorem approved_by_an_admin_witness:
  "\<exists>v w. find_shop ''mch_Y7FKPX6A000000000000'' (quiet an_entropy one_shop 0 0 0) = (Inr v, w) \<and>
     sv_id v = ''mch_Y7FKPX6A000000000000'' \<and> \<not> sv_listed v \<and> \<not> sv_open_now v"
proof -
  have reach: "shops_reachable small_country {''mch_Y7FKPX6A000000000000''} [dhaka_row] [] (w_store (quiet an_entropy one_shop 0 0 0))"
    using one_shop_reachable by (simp add: run_quiet)
  have calm: "shop_past small_country {''mch_Y7FKPX6A000000000000''} (w_others (quiet an_entropy one_shop 0 0 0) n)" for n
    by (simp add: quiet_def past_nothing)
  have row: "good_row small_country {} [dhaka_row] (row_of_merchant new_shop)"
    using reachable_shops_ok [OF one_shop_reachable] by (simp add: shops_ok_def one_shop_def)
  obtain m where "scan_merchant (row_of_merchant new_shop) = Inr m" using good_row_reads [OF row] by blast
  then obtain v u where run: "find_shop ''mch_Y7FKPX6A000000000000'' (quiet an_entropy one_shop 0 0 0) = (Inr v, u)"
    by (simp add: find_shop_def load_shop_def merchant_by_id_def one_merchant_def documents_for_def run_ops run_quiet one_shop_def
        row_of_merchant_def new_shop_def)
  then show ?thesis using approved_by_an_admin [OF reach calm, of "[]"] by (simp add: run)
qed

theorem every_shop_in_order_witness:
  "\<exists>m. scan_merchant (row_of_merchant new_shop) = Inr m \<and> wf_weekly (mc_hours m) \<and>
     first_division small_country [dhaka_row] (pin_point (mc_pin m)) = Some (sp_division_code (mc_place m))"
  using every_shop_in_order [OF one_shop_reachable] by (simp add: one_shop_def) blast

end
