(* ===== verification/Discovery_Safety.thy ===== *)
theory Discovery_Safety
  imports Discovery_App Merchant_Histories
begin

text \<open>
  Discovery in every history of the shops: a shop that a customer is told can be reached, or is shown,
  lies in the customer's own division and within the radius that is named; each answer is traced to the
  rows it was read from.
\<close>

section \<open>Reaching one shop\<close>

text \<open>What the service that resolves settings keeps to (\<open>Config_Safety.settings_in_bounds\<close>).\<close>

definition sound_settings :: "finder \<Rightarrow> bool" where
  "sound_settings fs \<longleftrightarrow> (\<forall>pl r. fs_settings fs pl = Inr r \<longrightarrow> good_settings r)"

lemma policy_at_sane: "sound_settings fs \<Longrightarrow> policy_at fs a = Inr p \<Longrightarrow> \<exists>b k. sane_policy p b k"
proof -
  assume fs: "sound_settings fs" and p: "policy_at fs a = Inr p"
  obtain r where r: "fs_settings fs (placement_of a) = Inr r" "policy_from r = Inr p"
    using p by (auto simp: policy_at_def rbind_Inr_iff lift_domain_def split: sum.splits)
  then have "good_settings r" using fs by (auto simp: sound_settings_def)
  then show ?thesis using policy_from_good r(2) by fastforce
qed

text \<open>An answer is traced to the rows that its calls saw.\<close>

abbreviation shop_sees :: "postgis \<Rightarrow> string set \<Rightarrow> division_row list \<Rightarrow> 'z merchant_tables_scheme set \<Rightarrow> ('z, 'a) shop_op \<Rightarrow> ('a \<Rightarrow> bool) \<Rightarrow> bool" where
  "shop_sees pg X ds \<equiv> sees (shops_ok pg X ds)"

lemma sees_now:
  assumes "shop_sees pg X ds (stores_seen w v) m Q" "shops_reachable pg X ds as (w_store w)" "\<And>n. shop_past pg X (w_others w n)" "m w = (Inr x, v)"
  shows "Q x"
proof -
  have "relies (preserves (shops_ok pg X ds)) w" using past_keeps [OF assms(3)] by (simp add: relies_def)
  from sees_run [OF assms(1) this reachable_shops_ok [OF assms(2)] assms(4)] show ?thesis .
qed

lemma geo_reads [reads_intros]:
  "reads (division_containing pg c)" "reads (area_containing pg c)" "reads (resolve_division pg lat lng)"
  "reads (find_within pg c radius dv k)" "reads (within_radius pg c radius limit)"
  "reads (merchants_within_radius pg lat lng radius limit)" "reads (count_merchants_within_radius pg lat lng radius)"
proof -
  show division: "reads (division_containing pg c)" for c
    unfolding division_containing_def by (intro reads_intros)
  show area: "reads (area_containing pg c)" for c unfolding area_containing_def by (intro reads_intros)
  show "reads (resolve_division pg lat lng)"
    unfolding resolve_division_def place_division_def by (intro reads_intros division area)
  show found: "reads (find_within pg c radius dv k)" for c dv k unfolding find_within_def by (intro reads_intros)
  show within: "reads (within_radius pg c radius limit)" for c
    unfolding within_radius_def Let_def by (intro reads_intros division found)
  show "reads (merchants_within_radius pg lat lng radius limit)"
    unfolding merchants_within_radius_def by (intro reads_intros within)
  show "reads (count_merchants_within_radius pg lat lng radius)"
    unfolding count_merchants_within_radius_def count_within_def count_within_row_def by (intro reads_intros division)
qed

lemma shop_reads_only [reads_intros]:
  "reads (merchant_by_id mid)" "reads (load_shop mid)" "reads (find_shop mid)" "reads (listed mids)"
proof -
  show by_id: "reads (merchant_by_id mid)" for mid
    unfolding merchant_by_id_def one_merchant_def documents_for_def by (intro reads_intros)
  then show load: "reads (load_shop mid)" unfolding load_shop_def by (intro reads_intros)
  then show "reads (find_shop mid)" unfolding find_shop_def by (intro reads_intros)
  have "reads (listed_among now mids)" for now
    by (induction mids) (simp_all, (intro reads_intros by_id | assumption)+)
  then show "reads (listed mids)" unfolding listed_def by (intro reads_intros)
qed

text \<open>The row of a shop, with the hours and papers that were read beside it.\<close>

definition on_record :: "'z merchant_tables_scheme set \<Rightarrow> merchant \<Rightarrow> bool" where
  "on_record L m \<longleftrightarrow> (\<exists>s\<in>L. \<exists>r\<in>set (mt_shops s). m = sh_shop r\<lparr>mc_hours := mc_hours m, mc_documents := mc_documents m\<rparr>)"

lemma recorded: "s \<in> L \<Longrightarrow> r \<in> set (mt_shops s) \<Longrightarrow> scan_merchant r = Inr m \<Longrightarrow> on_record L m"
  unfolding on_record_def by (intro bexI [of _ s] bexI [of _ r]) (auto simp: scan_merchant_def split: sum.splits)

lemma recorded_papers: "on_record L m \<Longrightarrow> on_record L (m\<lparr>mc_documents := d\<rparr>)"
proof -
  assume "on_record L m"
  then obtain s r where r: "s \<in> L" "r \<in> set (mt_shops s)" "m = sh_shop r\<lparr>mc_hours := mc_hours m, mc_documents := mc_documents m\<rparr>"
    by (auto simp: on_record_def)
  from arg_cong [OF r(3), of "mc_documents_update (\<lambda>_. d)"] have "m\<lparr>mc_documents := d\<rparr> = sh_shop r\<lparr>mc_hours := mc_hours m, mc_documents := d\<rparr>"
    by simp
  then show ?thesis using r(1,2) unfolding on_record_def by (intro bexI [of _ s] bexI [of _ r]) simp_all
qed

lemma by_id_sees:
  "shop_sees pg X ds L (merchant_by_id mid) (\<lambda>m. on_record L m \<and> good_shop pg X ds m \<and> mc_id m = mid)"
proof -
  have "shop_sees pg X ds L (merchant_by_id mid) (on_record L)"
    unfolding merchant_by_id_def one_merchant_def documents_for_def
  proof (rule sees_bind [where M = "on_record L"])
    show "shop_sees pg X ds L (db_read (\<lambda>s. case find (\<lambda>r. mc_id (sh_shop r) = mid) (mt_shops s) of
        None \<Rightarrow> Inl (merchant_sentinel ErrMerchantNotFound) | Some r \<Rightarrow> scan_merchant r)) (on_record L)"
      by (rule sees_read) (auto dest!: find_Some_mem intro: recorded split: option.splits)
    fix m :: merchant assume "on_record L m"
    then show "shop_sees pg X ds L (and_then (db_read (\<lambda>s. Inr (documents_in (mt_documents s) (mc_id m)))) (\<lambda>d. ret (m\<lparr>mc_documents := d\<rparr>))) (on_record L)"
      by (intro sees_then sees_plain reads_intros sees_simple) (rule recorded_papers)
  qed (intro reads_intros)
  from sees_gives [OF this by_id_gives] show ?thesis .
qed

text \<open>What another module is told of a shop, and the row it was told from.\<close>

definition told_of :: "postgis \<Rightarrow> string set \<Rightarrow> division_row list \<Rightarrow> shop_row \<Rightarrow> shop_view \<Rightarrow> bool" where
  "told_of pg X ds r v \<longleftrightarrow> mc_id (sh_shop r) = sv_id v \<and> mc_name (sh_shop r) = sv_name v \<and> shop_type_text (mc_type (sh_shop r)) = sv_type v \<and>
     mc_pin (sh_shop r) = \<lparr>pin_lat = sv_lat v, pin_lng = sv_lng v\<rparr> \<and>
     first_division pg ds (pin_point (mc_pin (sh_shop r))) = Some (sp_division_code (sv_place v)) \<and>
     (sv_listed v \<longrightarrow> mc_status (sh_shop r) = StatusApproved \<and> sv_id v \<notin> X)"

lemma told_from_row: "on_record L m \<Longrightarrow> good_shop pg X ds m \<Longrightarrow> \<exists>s\<in>L. \<exists>r\<in>set (mt_shops s). told_of pg X ds r (shop_view_of m now lang)"
proof -
  assume "on_record L m" "good_shop pg X ds m"
  then obtain s r where "s \<in> L" "r \<in> set (mt_shops s)" "m = sh_shop r\<lparr>mc_hours := mc_hours m, mc_documents := mc_documents m\<rparr>"
    "good_shop pg X ds m" by (auto simp: on_record_def)
  moreover from this(3,4) have "told_of pg X ds r (shop_view_of m now lang)"
    by (cases "sh_shop r"; cases m) (auto simp: told_of_def shop_view_of_def good_shop_def well_placed_def is_listed_def)
  ultimately show ?thesis by blast
qed

lemma find_sees: "shop_sees pg X ds L (find_shop mid) (\<lambda>v. sv_id v = mid \<and> (\<exists>s\<in>L. \<exists>r\<in>set (mt_shops s). told_of pg X ds r v))"
  unfolding find_shop_def load_shop_def
  by (rule sees_bind [OF sees_wrap [OF by_id_sees]], rule sees_then, rule sees_plain, rule reads_intros, rule sees_simple,
      use told_from_row in \<open>auto simp: shop_view_of_def intro: reads_intros\<close>)

text \<open>The whole answer, with the ladder of the place that was asked from.\<close>

definition reach_sound :: "trig \<Rightarrow> postgis \<Rightarrow> finder \<Rightarrow> division_row list \<Rightarrow> f64 \<Rightarrow> f64 \<Rightarrow> string \<Rightarrow> shop_row \<Rightarrow> reach_answer \<Rightarrow> bool" where
  "reach_sound g pg fs ds lat lng mid r a \<longleftrightarrow> rh_merchant_id a = mid \<and> mc_id (sh_shop r) = mid \<and>
     first_division pg ds \<lparr>co_lat = lat, co_lng = lng\<rparr> = Some (rh_division_code a) \<and>
     distance_between g lat lng (pin_lat (mc_pin (sh_shop r))) (pin_lng (mc_pin (sh_shop r))) = Inr (rh_distance_m a) \<and>
     (if first_division pg ds (pin_point (mc_pin (sh_shop r))) \<noteq> Some (rh_division_code a)
      then \<not> rh_reachable a \<and> rh_reason a = ''outside_division''
      else \<exists>res p. fs_settings fs \<lparr>pl_area = rh_area_code a, pl_district = rh_district_code a, pl_division = rh_division_code a\<rparr> = Inr res \<and>
        policy_from res = Inr p \<and>
        (if flt (radius_at p (py_max_expansions p)) (rh_distance_m a) then \<not> rh_reachable a \<and> rh_reason a = ''beyond_max_radius''
         else rh_reachable a \<and> rh_required_level a = level_for p (rh_distance_m a) \<and> rh_expanded a = (rh_required_level a > 0)))"

lemma reach_sees:
  "shop_sees pg X ds L (reach g pg fs lat lng mid lang) (\<lambda>a. \<exists>s\<in>L. \<exists>r\<in>set (mt_shops s). reach_sound g pg fs ds lat lng mid r a)"
  unfolding reach_def Let_def
proof (rule sees_bind [OF find_sees], elim conjE bexE, rule sees_bind [OF gives_sees [OF resolve_division_gives]],
    rule reads_intros, rule sees_bind [OF sees_lifted], rule sees_if, rule sees_simple, goal_cases)
  case (1 shop s r a d)
  then show ?case by (intro bexI [of _ s] bexI [of _ r]) (auto simp: reach_sound_def told_of_def pin_point_def)
next
  case (2 shop s r a d)
  show ?case
  proof (rule sees_bind [OF sees_lifted], rule sees_simple)
    fix p assume "policy_at fs a = Inr p"
    then show "\<exists>s\<in>L. \<exists>r\<in>set (mt_shops s). reach_sound g pg fs ds lat lng mid r (reach_within p
        \<lparr>rh_merchant_id = mid, rh_area_code = ga_area_code a, rh_district_code = ga_district_code a,
         rh_division_code = ga_division_code a, rh_distance_m = d, rh_distance_text = format_distance d lang,
         rh_reachable = False, rh_required_level = 0, rh_expanded = False, rh_reason = []\<rparr>)"
      using 2 by (intro bexI [of _ s] bexI [of _ r])
        (auto simp: reach_sound_def told_of_def pin_point_def reach_within_def policy_at_def rbind_Inr_iff lift_domain_def placement_of_def
          split: sum.splits)
  qed (intro reads_intros)
qed (intro reads_intros)+

section \<open>Searching\<close>

lemma rmap_from: "rmap f xs = Inr ys \<Longrightarrow> y \<in> set ys \<Longrightarrow> \<exists>x\<in>set xs. f x = Inr y"
  by (induction xs arbitrary: ys) (auto simp: rbind_Inr_iff)

lemma scanned:
  "scan_location pg c l = Inr m \<Longrightarrow>
    ml_merchant_id m = lo_merchant_id l \<and> ml_location m = lo_location l \<and> ml_distance m = st_distance pg (lo_location l) c"
  by (auto simp: scan_location_def rbind_Inr_iff dest: coordinate_is)

text \<open>The row of the index behind an entry near the customer.\<close>

definition indexed_near :: "postgis \<Rightarrow> coordinate \<Rightarrow> f64 \<Rightarrow> string \<Rightarrow> location_row \<Rightarrow> string \<Rightarrow> f64 \<Rightarrow> bool" where
  "indexed_near pg c radius dv l mid d \<longleftrightarrow> lo_merchant_id l = mid \<and> lo_active l \<and> lo_division l = dv \<and>
     st_dwithin pg (lo_location l) c radius \<and> d = st_distance pg (lo_location l) c"

lemma find_within_sees:
  fixes L :: "'z merchant_tables_scheme set"
  shows "shop_sees pg X ds L (find_within pg c radius dv k) (\<lambda>ms. \<forall>m\<in>set ms. \<exists>s\<in>L. \<exists>l\<in>set (gt_locations s).
     first_division pg ds (lo_location l) = Some dv \<and> indexed_near pg c radius dv l (ml_merchant_id m) (ml_distance m))"
  unfolding find_within_def
proof (rule sees_read, intro ballI)
  fix s :: "'z merchant_tables_scheme" and ms m
  let ?found = "take k (stable_sort (\<lambda>a b. flt (st_distance pg (lo_location a) c) (st_distance pg (lo_location b) c))
    (filter (in_reach pg c radius dv) (gt_locations s)))"
  assume s: "shops_ok pg X ds s" "s \<in> L" and run: "rmap (scan_location pg c) ?found = Inr ms" and m: "m \<in> set ms"
  from rmap_from [OF run m] obtain l where l: "l \<in> set ?found" "ml_merchant_id m = lo_merchant_id l"
    "ml_distance m = st_distance pg (lo_location l) c" using scanned by blast
  have "l \<in> set (gt_locations s)" "in_reach pg c radius dv l" using l(1) by (auto dest: in_set_takeD)
  then show "\<exists>s\<in>L. \<exists>l\<in>set (gt_locations s). first_division pg ds (lo_location l) = Some dv \<and>
      indexed_near pg c radius dv l (ml_merchant_id m) (ml_distance m)"
    using s l by (intro bexI [of _ s] bexI [of _ l])
      (auto simp: shops_ok_def list_all_iff well_indexed_def in_reach_def indexed_near_def)
qed

text \<open>What the index says of a shop that is shown.\<close>

definition index_names :: "postgis \<Rightarrow> division_row list \<Rightarrow> 'z merchant_tables_scheme set \<Rightarrow> f64 \<Rightarrow> f64 \<Rightarrow> f64 \<Rightarrow> string \<Rightarrow> f64 \<Rightarrow> bool" where
  "index_names pg ds L lat lng radius mid d \<longleftrightarrow> (\<exists>dv. first_division pg ds \<lparr>co_lat = lat, co_lng = lng\<rparr> = Some dv \<and>
     (\<exists>s\<in>L. \<exists>l\<in>set (gt_locations s). first_division pg ds (lo_location l) = Some dv \<and>
        indexed_near pg \<lparr>co_lat = lat, co_lng = lng\<rparr> radius dv l mid d))"

lemma around_sees:
  "shop_sees pg X ds L (merchants_within_radius pg lat lng radius limit)
     (\<lambda>ns. \<forall>n\<in>set ns. index_names pg ds L lat lng radius (nm_merchant_id n) (nm_distance_m n))"
proof -
  let ?c = "\<lparr>co_lat = lat, co_lng = lng\<rparr>"
  have found: "shop_sees pg X ds L (within_radius pg ?c radius limit)
      (\<lambda>ms. \<forall>m\<in>set ms. index_names pg ds L lat lng radius (ml_merchant_id m) (ml_distance m))"
    unfolding within_radius_def Let_def
    by (rule sees_if, rule sees_simple, rule sees_bind [OF sees_wrap [OF gives_sees [OF division_gives]]], rule reads_intros,
        rule sees_wrap, rule sees_weaken [OF find_within_sees]) (auto simp: index_names_def intro: reads_intros)
  show ?thesis unfolding merchants_within_radius_def
    by (rule sees_bind [OF sees_lifted], drule to_coordinate_is, simp only:, rule sees_bind [OF found], rule sees_simple)
      (auto simp: nearby_of_def intro: reads_intros)
qed

text \<open>The levels tried: those passed over had too few shops, and none is beyond the last.\<close>

lemma settle_from_sees:
  "shop_sees pg X ds L (settle_from n pg p lat lng level) (\<lambda>l. level \<le> l \<and> l \<le> level + int n)"
proof (induction n arbitrary: level)
  case 0
  show ?case by (simp add: sees_simple)
next
  case (Suc n)
  show ?case unfolding settle_from.simps
    by (rule sees_then, rule sees_plain, rule reads_intros, rule sees_if, rule sees_simple, simp, rule sees_weaken [OF Suc.IH]) auto
qed

lemma settle_sees:
  assumes "0 \<le> py_max_expansions p"
  shows "shop_sees pg X ds L (settle_level pg p q)
    (\<lambda>l. clamp_level p (qu_level q) \<le> l \<and> l \<le> py_max_expansions p \<and> (\<not> py_auto_expand p \<longrightarrow> l = clamp_level p (qu_level q)))"
proof -
  have c: "0 \<le> clamp_level p (qu_level q)" "clamp_level p (qu_level q) \<le> py_max_expansions p"
    using assms by (simp_all add: clamp_level_def)
  show ?thesis unfolding settle_level_def Let_def
    by (rule sees_if, rule sees_simple, simp add: c, rule sees_weaken [OF settle_from_sees]) (use c in auto)
qed

section \<open>What is shown\<close>

lemma viewed: "sv_id (shop_view_of m now lang) = mc_id m" "sv_listed (shop_view_of m now lang) = is_listed m now"
  by (simp_all add: shop_view_of_def)

lemma listed_sees:
  "shop_sees pg X ds L (listed mids) (\<lambda>vs. \<forall>v\<in>set vs. sv_id v \<in> set mids \<and> sv_listed v \<and> (\<exists>s\<in>L. \<exists>r\<in>set (mt_shops s). told_of pg X ds r v))"
proof -
  have "shop_sees pg X ds L (listed_among now mids)
      (\<lambda>vs. \<forall>v\<in>set vs. sv_id v \<in> set mids \<and> sv_listed v \<and> (\<exists>s\<in>L. \<exists>r\<in>set (mt_shops s). told_of pg X ds r v))" for now
  proof (induction mids)
    case Nil
    show ?case by (simp add: sees_simple)
  next
    case (Cons mid mids)
    show ?case unfolding listed_among.simps
      by (rule sees_bind [OF sees_attempt [OF by_id_sees]], rule sees_bind [OF Cons.IH], rule sees_simple)
        (use sees_reads [OF Cons.IH] in \<open>auto intro: reads_intros told_from_row simp: viewed split: sum.splits if_splits\<close>)
  qed
  then show ?thesis unfolding listed_def by (intro sees_then sees_plain reads_intros)
qed

text \<open>A card, the row of the index it is placed by and the row of the shop it describes.\<close>

definition shown_soundly :: "postgis \<Rightarrow> string set \<Rightarrow> division_row list \<Rightarrow> 'z merchant_tables_scheme set \<Rightarrow> search_query \<Rightarrow> f64 \<Rightarrow> merchant_card \<Rightarrow> bool" where
  "shown_soundly pg X ds L q radius c \<longleftrightarrow> index_names pg ds L (qu_lat q) (qu_lng q) radius (cd_id c) (cd_distance_m c) \<and>
     (\<exists>s\<in>L. \<exists>r\<in>set (mt_shops s). \<exists>v. told_of pg X ds r v \<and> sv_listed v \<and> cd_id c = sv_id v \<and> cd_name c = sv_name v \<and>
        cd_type c = sv_type v \<and> cd_lat c = sv_lat v \<and> cd_lng c = sv_lng v \<and> (qu_type q \<noteq> [] \<longrightarrow> sv_type v = qu_type q))"

lemma found_in: "find P xs = Some y \<Longrightarrow> y \<in> set xs \<and> P y"
  by (induction xs) (auto split: if_splits)

lemma find_there: "x \<in> set xs \<Longrightarrow> f x = k \<Longrightarrow> \<exists>y\<in>set xs. f y = k \<and> find (\<lambda>z. f z = k) (rev xs) = Some y"
  by (cases "find (\<lambda>z. f z = k) (rev xs)") (auto simp: find_None_iff dest: found_in)

lemma card_sound:
  assumes shops: "\<forall>v\<in>set shops. sv_id v \<in> nm_merchant_id ` set near \<and> sv_listed v \<and> (\<exists>s\<in>L. \<exists>r\<in>set (mt_shops s). told_of pg X ds r v)"
    and near: "\<forall>n\<in>set near. index_names pg ds L (qu_lat q) (qu_lng q) radius (nm_merchant_id n) (nm_distance_m n)"
    and cand: "c \<in> set (List.map_filter (candidate_of q near) shops)"
    and card: "card_of t q level (filter (\<lambda>m. candidate_of q near m \<noteq> None) shops) c = Inr d"
  shows "shown_soundly pg X ds L q radius d"
proof -
  obtain v where v: "v \<in> set shops" "candidate_of q near v = Some c" using cand by (auto simp: List.map_filter_def)
  obtain n where "n \<in> set near" "nm_merchant_id n = sv_id v" using shops v(1) by force
  then obtain n where n: "n \<in> set near" "nm_merchant_id n = sv_id v"
    "find (\<lambda>n. nm_merchant_id n = sv_id v) (rev near) = Some n" using find_there [of n near nm_merchant_id "sv_id v"] by blast
  then have c: "sk_id c = sv_id v" "sk_distance_m c = nm_distance_m n"
    using v(2) by (auto simp: candidate_of_def split: if_splits prod.splits)
  let ?kept = "filter (\<lambda>m. candidate_of q near m \<noteq> None) shops"
  have "v \<in> set ?kept" using v by simp
  then obtain u where u: "u \<in> set shops" "candidate_of q near u \<noteq> None" "sv_id u = sv_id v" "find (\<lambda>m. sv_id m = sv_id v) (rev ?kept) = Some u"
    using find_there [of v ?kept sv_id "sv_id v"] by auto
  then have d: "cd_id d = sv_id u" "cd_distance_m d = nm_distance_m n" "cd_name d = sv_name u" "cd_type d = sv_type u"
    "cd_lat d = sv_lat u" "cd_lng d = sv_lng u"
    using card c by (auto simp: card_of_def rbind_Inr_iff)
  have "qu_type q \<noteq> [] \<longrightarrow> sv_type u = qu_type q" using u(2) by (auto simp: candidate_of_def split: if_splits)
  moreover have "index_names pg ds L (qu_lat q) (qu_lng q) radius (cd_id d) (cd_distance_m d)" using near n d u(3) by auto
  ultimately show ?thesis using shops u(1) d unfolding shown_soundly_def by blast
qed

lemma cards_sees:
  assumes "\<forall>n\<in>set near. index_names pg ds L (qu_lat q) (qu_lng q) radius (nm_merchant_id n) (nm_distance_m n)"
  shows "shop_sees pg X ds L (merchant_cards fs a near level radius q) (\<lambda>cards. \<forall>c\<in>set cards. shown_soundly pg X ds L q radius c)"
  unfolding merchant_cards_def
proof (rule sees_if, rule sees_simple, simp, rule sees_bind [OF listed_sees], rule sees_then, rule sees_plain, rule reads_intros, rule sees_simple)
  fix shops t cards
  assume shops: "\<forall>v\<in>set shops. sv_id v \<in> set (map nm_merchant_id near) \<and> sv_listed v \<and> (\<exists>s\<in>L. \<exists>r\<in>set (mt_shops s). told_of pg X ds r v)"
    and cards: "rmap (card_of t q level (filter (\<lambda>m. candidate_of q near m \<noteq> None) shops)) (rank_shops (List.map_filter (candidate_of q near) shops) radius) = Inr cards"
  show "\<forall>c\<in>set cards. shown_soundly pg X ds L q radius c"
  proof
    fix d assume "d \<in> set cards"
    from rmap_from [OF cards this] obtain c where "c \<in> set (List.map_filter (candidate_of q near) shops)"
      "card_of t q level (filter (\<lambda>m. candidate_of q near m \<noteq> None) shops) c = Inr d" by (auto simp: rank_shops_def)
    then show "shown_soundly pg X ds L q radius d" using card_sound [OF _ assms] shops by simp
  qed
qed (intro reads_intros)

definition search_sound :: "postgis \<Rightarrow> string set \<Rightarrow> division_row list \<Rightarrow> finder \<Rightarrow> 'z merchant_tables_scheme set \<Rightarrow> search_query \<Rightarrow> search_result \<Rightarrow> bool" where
  "search_sound pg X ds fs L q a \<longleftrightarrow>
     first_division pg ds \<lparr>co_lat = qu_lat q, co_lng = qu_lng q\<rparr> = Some (ga_division_code (se_placement a)) \<and>
     (\<exists>p cards. policy_at fs (se_placement a) = Inr p \<and>
        se_expansion a = describe_expansion p (ex_level (se_expansion a)) (radius_at p (ex_level (se_expansion a))) (int (length cards)) \<and>
        clamp_level p (qu_level q) \<le> ex_level (se_expansion a) \<and> ex_level (se_expansion a) \<le> py_max_expansions p \<and>
        (\<not> py_auto_expand p \<longrightarrow> ex_level (se_expansion a) = clamp_level p (qu_level q)) \<and>
        se_merchants a = page_of cards (qu_limit q) (qu_offset q) \<and> se_total a = int (length cards) \<and>
        (\<forall>c\<in>set cards. shown_soundly pg X ds L q (radius_at p (ex_level (se_expansion a))) c))"

lemma settle_reads [reads_intros]: "reads (settle_level pg p q)"
proof -
  have "reads (settle_from n pg p lat lng level)" for n lat lng level
    using sees_reads [OF settle_from_sees] .
  then show ?thesis unfolding settle_level_def Let_def by (intro reads_intros)
qed

lemma cards_reads [reads_intros]: "reads (merchant_cards fs a near level radius q)"
  unfolding merchant_cards_def by (intro reads_intros)

lemma search_sees:
  assumes fs: "sound_settings fs"
  shows "shop_sees pg X ds L (search pg fs q) (search_sound pg X ds fs L q)"
  unfolding search_def Let_def
proof (rule sees_if, rule sees_simple, rule sees_bind [OF gives_sees [OF resolve_division_gives]], rule reads_intros, rule sees_bind [OF sees_lifted])
  fix a p
  assume a: "first_division pg ds \<lparr>co_lat = qu_lat q, co_lng = qu_lng q\<rparr> = Some (ga_division_code a) \<and> division_code_valid (ga_division_code a)"
    and p: "policy_at fs a = Inr p"
  have m: "0 \<le> py_max_expansions p" using policy_at_sane [OF fs p] by (auto simp: sane_policy_def)
  show "shop_sees pg X ds L (and_then (settle_level pg p q) (\<lambda>level.
      and_then (merchants_within_radius pg (qu_lat q) (qu_lng q) (radius_at p level) search_fan_out) (\<lambda>near.
      and_then (merchant_cards fs a near level (radius_at p level) q) (\<lambda>cards. ret
       \<lparr>se_placement = a, se_expansion = describe_expansion p level (radius_at p level) (int (length cards)),
          se_merchants = page_of cards (qu_limit q) (qu_offset q), se_total = int (length cards),
          se_radius_text = format_radius (ex_radius_m (describe_expansion p level (radius_at p level) (int (length cards)))) (qu_lang q),
          se_next_radius_text = next_radius_text (describe_expansion p level (radius_at p level) (int (length cards))) (qu_lang q),
          se_notice = search_notice (describe_expansion p level (radius_at p level) (int (length cards))) (qu_lang q)\<rparr>))))
      (search_sound pg X ds fs L q)"
    by (rule sees_bind [OF settle_sees [OF m]], rule sees_bind [OF around_sees], rule sees_bind [OF cards_sees],
        assumption, rule sees_simple)
      (use a p in \<open>auto simp: search_sound_def describe_expansion_def Let_def intro!: reads_intros\<close>)
qed (intro reads_intros)+

section \<open>Properties\<close>

text \<open>C9: Whatever was asked of the shops before and is asked meanwhile, an answer to whether a shop can be
  reached from a point is about a row of that shop that the request saw, and names the division of the
  point (the first that contains it) and the distance to the pin of that row, here one that occurs on
  Earth.  When the pin lies in another
  division, the shop cannot be reached.  Otherwise the ladder of radii is the one that the settings of the
  point's own area, district and division make: the shop is reachable exactly when it is no farther
  than the widest radius, and then the level it asks for is the first rung that covers the distance, up to
  a metre: no lower one does, and an order at it is charged as expanded exactly when the lowest rung is not
  enough.\<close>

theorem reach_in_division:
  assumes "shops_reachable pg X ds as (w_store w)" "\<And>n. shop_past pg X (w_others w n)" "sound_settings fs"
    and "reach g pg fs lat lng mid lang w = (Inr a, v)" "rh_distance_m a = Fin d" "earthly d"
  shows "\<exists>s\<in>stores_seen w v. \<exists>r\<in>set (mt_shops s). mc_id (sh_shop r) = mid \<and>
    first_division pg ds \<lparr>co_lat = lat, co_lng = lng\<rparr> = Some (rh_division_code a) \<and>
    distance_between g lat lng (pin_lat (mc_pin (sh_shop r))) (pin_lng (mc_pin (sh_shop r))) = Inr (Fin d) \<and>
    (if first_division pg ds (pin_point (mc_pin (sh_shop r))) \<noteq> Some (rh_division_code a)
     then \<not> rh_reachable a \<and> rh_reason a = ''outside_division''
     else \<exists>res p. fs_settings fs \<lparr>pl_area = rh_area_code a, pl_district = rh_district_code a, pl_division = rh_division_code a\<rparr> = Inr res \<and>
       policy_from res = Inr p \<and>
       (if fle (Fin d) (radius_at p (py_max_expansions p))
        then rh_reachable a \<and> first_rung p (Fin d) (rh_required_level a) \<and> rh_expanded a = (rh_required_level a > 0)
        else \<not> rh_reachable a \<and> rh_reason a = ''beyond_max_radius''))"
proof -
  obtain s r where s: "s \<in> stores_seen w v" "r \<in> set (mt_shops s)" and a: "reach_sound g pg fs ds lat lng mid r a"
    using sees_now [OF reach_sees assms(1,2,4)] by blast
  have ladder: "fle (Fin d) (radius_at p (py_max_expansions p)) = (\<not> flt (radius_at p (py_max_expansions p)) (Fin d)) \<and>
      (\<not> flt (radius_at p (py_max_expansions p)) (Fin d) \<longrightarrow> first_rung p (Fin d) (level_for p (Fin d)))"
    if res: "fs_settings fs pl = Inr res" and policy: "policy_from res = Inr p" for pl res p
  proof -
    have "good_settings res" using assms(3) res by (auto simp: sound_settings_def)
    then obtain b k where p: "sane_policy p b k" using policy_from_good policy by fastforce
    then show ?thesis
      using level_is_first_rung [OF p assms(6)] radius_is [OF p, of "py_max_expansions p"] by (auto simp: sane_policy_def)
  qed
  show ?thesis
    using a assms(5) ladder unfolding reach_sound_def by (intro bexI [OF _ s(1)] bexI [OF _ s(2)]) (auto split: if_splits)
qed

text \<open>C10: In the same histories every card of a search is of a shop that the request saw, approved and not one
  that no administrator approved: the card has the id, the name, the kind and the pin of its row, of the kind
  that was asked for, and an entry of the index under the same id, in the customer's division, active,
  and, as PostGIS measures it, within the radius that is named and as far as the card says.  The level
  searched at is not lower than the one asked for nor higher than the last, and is the one asked for when the
  settings do not widen by themselves; and widening further is offered exactly when it is possible and
  fewer shops were found than the settings want.\<close>

theorem search_in_division:
  assumes "shops_reachable pg X ds as (w_store w)" "\<And>n. shop_past pg X (w_others w n)" "sound_settings fs"
    and "search pg fs q w = (Inr a, v)"
  shows "first_division pg ds \<lparr>co_lat = qu_lat q, co_lng = qu_lng q\<rparr> = Some (ga_division_code (se_placement a)) \<and>
    (\<exists>p. policy_at fs (se_placement a) = Inr p \<and>
    ex_radius_m (se_expansion a) = radius_at p (ex_level (se_expansion a)) \<and>
    clamp_level p (qu_level q) \<le> ex_level (se_expansion a) \<and> ex_level (se_expansion a) \<le> py_max_expansions p \<and>
    (py_auto_expand p \<or> ex_level (se_expansion a) = clamp_level p (qu_level q)) \<and>
    ex_offered (se_expansion a) = (ex_level (se_expansion a) < py_max_expansions p \<and> se_total a < py_min_merchants p)) \<and>
    (\<forall>c\<in>set (se_merchants a). cd_id c \<notin> X \<and>
       (\<exists>s\<in>stores_seen w v. \<exists>l\<in>set (gt_locations s). lo_merchant_id l = cd_id c \<and> lo_active l \<and>
          first_division pg ds (lo_location l) = Some (ga_division_code (se_placement a)) \<and>
          st_dwithin pg (lo_location l) \<lparr>co_lat = qu_lat q, co_lng = qu_lng q\<rparr> (ex_radius_m (se_expansion a)) \<and>
          cd_distance_m c = st_distance pg (lo_location l) \<lparr>co_lat = qu_lat q, co_lng = qu_lng q\<rparr>) \<and>
       (\<exists>s\<in>stores_seen w v. \<exists>r\<in>set (mt_shops s). mc_id (sh_shop r) = cd_id c \<and> mc_status (sh_shop r) = StatusApproved \<and>
          mc_name (sh_shop r) = cd_name c \<and> shop_type_text (mc_type (sh_shop r)) = cd_type c \<and>
          mc_pin (sh_shop r) = \<lparr>pin_lat = cd_lat c, pin_lng = cd_lng c\<rparr> \<and> (qu_type q = [] \<or> cd_type c = qu_type q)))"
proof -
  have "search_sound pg X ds fs (stores_seen w v) q a" using sees_now [OF search_sees [OF assms(3)] assms(1,2,4)] .
  then obtain p cards where a: "first_division pg ds \<lparr>co_lat = qu_lat q, co_lng = qu_lng q\<rparr> = Some (ga_division_code (se_placement a))"
    "policy_at fs (se_placement a) = Inr p"
    "se_expansion a = describe_expansion p (ex_level (se_expansion a)) (radius_at p (ex_level (se_expansion a))) (int (length cards))"
    "clamp_level p (qu_level q) \<le> ex_level (se_expansion a)" "ex_level (se_expansion a) \<le> py_max_expansions p"
    "\<not> py_auto_expand p \<longrightarrow> ex_level (se_expansion a) = clamp_level p (qu_level q)"
    "se_merchants a = page_of cards (qu_limit q) (qu_offset q)" "se_total a = int (length cards)"
    "\<forall>c\<in>set cards. shown_soundly pg X ds (stores_seen w v) q (radius_at p (ex_level (se_expansion a))) c"
    unfolding search_sound_def by blast
  have radius: "ex_radius_m (se_expansion a) = radius_at p (ex_level (se_expansion a))"
    by (subst a(3)) (simp add: describe_expansion_def Let_def)
  have offered: "ex_offered (se_expansion a) = (ex_level (se_expansion a) < py_max_expansions p \<and> se_total a < py_min_merchants p)"
    by (subst a(3)) (auto simp: describe_expansion_def Let_def enough_def a(8))
  have shown: "shown_soundly pg X ds (stores_seen w v) q (ex_radius_m (se_expansion a)) c" if "c \<in> set (se_merchants a)" for c
    using that a(9) radius unfolding a(7) page_of_def Let_def by (auto dest!: in_set_takeD in_set_dropD split: if_splits)
  show ?thesis
    by (intro conjI ballI exI [of _ p], (use a(1,2,4-6) radius offered in blast)+; drule shown)
      (use a(1) in \<open>fastforce simp: shown_soundly_def told_of_def index_names_def indexed_near_def\<close>)+
qed

end
