(* ===== verification/Discovery_Example.thy ===== *)
theory Discovery_Example
  imports Discovery_Safety Merchant_Histories
begin

text \<open>
  The shop of \<open>Merchant_Histories\<close> hands in its papers, is approved and found.
\<close>

section \<open>A shop is approved\<close>

definition paper :: "document_kind \<Rightarrow> document" where
  "paper k = \<lparr>do_kind = k, do_number = ''17'', do_file_url = ''/f'', do_uploaded_at = 0\<rparr>"

definition with_papers :: merchant_tables where
  "with_papers = one_shop\<lparr>mt_documents := [(''mch_Y7FKPX6A000000000000'', paper DocTradeLicence), (''mch_Y7FKPX6A000000000000'', paper DocNationalID)]\<rparr>"

lemma paper_reads:
  "parse_document_kind ''trade_licence'' = Inr DocTradeLicence" "parse_document_kind ''national_id'' = Inr DocNationalID"
  "new_document DocTradeLicence ''17'' ''/f'' 0 = Inr (paper DocTradeLicence)"
  "new_document DocNationalID ''17'' ''/f'' 0 = Inr (paper DocNationalID)"
  by code_simp+

lemma shop_reads:
  "scan_merchant (row_of_merchant (new_shop\<lparr>mc_status := st\<rparr>)) = Inr (new_shop\<lparr>mc_status := st\<rparr>)"
proof -
  have "decode_weekly_hours (encode_week default_hours) = Inr default_hours"
    using default_hours_ok decode_encoded [of default_hours 3]
    by (simp add: decode_weekly_hours_def max_windows_per_day_def hours_ok_def)
  then show ?thesis by (simp add: scan_merchant_def row_of_merchant_def new_shop_def)
qed

lemma shop_parts [simp]:
  "mc_id new_shop = ''mch_Y7FKPX6A000000000000''" "mc_owner new_shop = ''usr''" "mc_status new_shop = StatusDraft"
  "mc_documents new_shop = []" "mc_type new_shop = TypeGrocery" "new_shop\<lparr>mc_status := StatusDraft\<rparr> = new_shop"
  "sh_shop (row_of_merchant m) = m\<lparr>mc_hours := no_week, mc_documents := []\<rparr>"
  by (simp_all add: new_shop_def row_of_merchant_def)

definition shop_is :: "shop_status \<Rightarrow> bool \<Rightarrow> document list \<Rightarrow> merchant_tables \<Rightarrow> bool" where
  "shop_is st live papers s \<longleftrightarrow> gt_divisions s = [dhaka_row] \<and> gt_areas s = [] \<and>
     gt_locations s = [\<lparr>lo_merchant_id = ''mch_Y7FKPX6A000000000000'', lo_location = \<lparr>co_lat = Fin 24, co_lng = Fin 91\<rparr>,
       lo_division = ''DHA'', lo_area = None, lo_active = live\<rparr>] \<and>
     mt_shops s = [row_of_merchant (new_shop\<lparr>mc_status := st\<rparr>)] \<and>
     mt_documents s = map (\<lambda>d. (''mch_Y7FKPX6A000000000000'', d)) papers"

lemma row_same: "mc_owner m = a \<Longrightarrow> mc_created_at m = t \<Longrightarrow> row_of_merchant (m\<lparr>mc_documents := d, mc_owner := a\<rparr>) = row_of_merchant m"
  "row_of_merchant (new_shop\<lparr>mc_documents := d, mc_status := st, mc_review_note := [], mc_owner := ''usr''\<rparr>) =
   row_of_merchant (new_shop\<lparr>mc_status := st\<rparr>)"
  by (simp_all add: row_of_merchant_def new_shop_def)

lemmas shop_runs = owned_def load_shop_def merchant_by_owner_def merchant_by_id_def one_merchant_def run_ops run_quiet
  documents_for_def documents_in_def lift_domain_def save_merchant_def write_merchant_def overwrite_row_def
  write_documents_def with_document_def put_document_def

lemma hands_in:
  assumes "shop_is StatusDraft False [] s"
  shows "shop_is StatusDraft False [paper DocTradeLicence] (w_store (snd (run_shop small_country
    (AddDocument ''usr'' \<lparr>dc_kind = ''trade_licence'', dc_number = ''17'', dc_file_url = ''/f''\<rparr>) (quiet an_entropy s 0 0 0))))"
  using assms shop_reads [of StatusDraft]
  by (simp add: shop_is_def add_document_def paper_reads requires_document_def shop_runs row_same cong: next_op_cong wrap_result_cong)

lemma paper_kinds [simp]: "do_kind (paper k) = k"
  by (simp add: paper_def)

lemma hands_in_both:
  assumes "shop_is StatusDraft False [paper DocTradeLicence] s"
  shows "shop_is StatusDraft False [paper DocTradeLicence, paper DocNationalID] (w_store (snd (run_shop small_country
    (AddDocument ''usr'' \<lparr>dc_kind = ''national_id'', dc_number = ''17'', dc_file_url = ''/f''\<rparr>) (quiet an_entropy s 0 0 0))))"
  using assms shop_reads [of StatusDraft]
  by (simp add: shop_is_def add_document_def paper_reads requires_document_def shop_runs row_same cong: next_op_cong wrap_result_cong)

lemma papers_order: "stable_sort (\<lambda>a b. document_kind_text (do_kind a) < document_kind_text (do_kind b))
    [paper DocTradeLicence, paper DocNationalID] = [paper DocNationalID, paper DocTradeLicence]"
  by code_simp

lemma all_papers: "is_placed (mc_place new_shop)" "trim_space [] = []" "rune_count [] = 0"
  "can_transition_to StatusDraft StatusPendingReview" "can_transition_to StatusPendingReview StatusApproved"
  by code_simp+

lemma goes_to_review:
  assumes "shop_is StatusDraft False [paper DocTradeLicence, paper DocNationalID] s"
  shows "shop_is StatusPendingReview False [paper DocTradeLicence, paper DocNationalID] (w_store (snd (run_shop small_country
    (SubmitShop ''usr'') (quiet an_entropy s 0 0 0))))"
  using assms shop_reads [of StatusDraft]
  by (simp add: shop_is_def submit_for_review_def ready_for_review_def missing_documents_def document_of_def papers_order all_papers
      with_status_def record_status_change_def shop_runs row_same cong: next_op_cong wrap_result_cong)

lemma is_approved:
  assumes "shop_is StatusPendingReview False [paper DocTradeLicence, paper DocNationalID] s"
  shows "shop_is StatusApproved True [paper DocTradeLicence, paper DocNationalID] (w_store (snd (run_shop small_country
    (ApproveShop ''adm'' ''mch_Y7FKPX6A000000000000'' []) (quiet an_entropy s 0 0 0))))"
proof -
  have pin: "mc_pin new_shop = \<lparr>pin_lat = Fin 24, pin_lng = Fin 91\<rparr>" by (simp add: new_shop_def)
  have row: "row_of_merchant (new_shop\<lparr>mc_status := StatusApproved, mc_documents := d, mc_review_note := [], mc_owner := ''usr''\<rparr>) =
      row_of_merchant (new_shop\<lparr>mc_status := StatusApproved\<rparr>)" for d
    by (simp add: row_of_merchant_def new_shop_def)
  show ?thesis
    using assms shop_reads [of StatusPendingReview]
    by (simp add: shop_is_def approve_shop_def decide_def papers_order all_papers publish_def place_merchant_def place_at_def
        to_coordinate_def division_containing_def area_containing_def dhaka_row_def dhaka_reads dhaka_point in_dhaka its_id
        upsert_location_def location_of_def with_status_def record_status_change_def shop_runs row_same row pin
        cong: next_op_cong wrap_result_cong)
qed

lemma approved_reachable: "\<exists>s. shops_reachable small_country {} [dhaka_row] [] s \<and>
    shop_is StatusApproved True [paper DocTradeLicence, paper DocNationalID] s"
proof -
  have "shop_is StatusDraft False [] one_shop"
    by (simp add: shop_is_def one_shop_def)
  note approved = is_approved [OF goes_to_review [OF hands_in_both [OF hands_in [OF this]]]]
  show ?thesis by (rule exI, rule conjI [rotated], rule approved) (intro shop_step one_shop_reachable; simp)
qed

section \<open>And found\<close>

definition a_tariff :: tariff where
  "a_tariff = \<lparr>tf_base = taka 4000, tf_per_band = taka 1000, tf_multiplier = Fin (3 / 2), tf_free_above = taka 50000\<rparr>"

lemma a_fee: "\<exists>fee. answer_fee a_tariff \<lparr>qr_subtotal_minor = 0, qr_distance_m = Fin 500, qr_expansion_level = l, qr_lang = lang\<rparr> = Inr fee"
proof -
  have "sane_tariff a_tariff" "earthly 500"
    by (auto simp: sane_tariff_def a_tariff_def earthly_def intro!: exI [of _ "3 / 2"])
  then show ?thesis by (cases "0 < l") (simp_all add: answer_fee_def delivery_fee_eq lift_domain_def)
qed

definition a_finder :: finder where
  "a_finder = \<lparr>fs_settings = (\<lambda>pl. fst (resolve_settings pl (quiet_config dearer))),
     fs_tariff = (\<lambda>_. Inr a_tariff)\<rparr>"

definition flat :: trig where
  "flat = \<lparr>tg_sin = (\<lambda>_. Fin 0), tg_cos = (\<lambda>_. Fin 1), tg_asin = (\<lambda>_. Fin 0), tg_sqrt = (\<lambda>_. Fin 0)\<rparr>"

lemma finder_sound: "sound_settings a_finder"
proof -
  have reach: "config_reachable (w_store (quiet_config dearer))"
    using dearer_reachable by (simp add: quiet_config_def run_quiet)
  have calm: "config_history (w_others (quiet_config dearer) n)" for n
    using config_nothing by (simp add: quiet_config_def quiet_def)
  have "good_settings r" if "fst (resolve_settings pl (quiet_config dearer)) = Inr r" for pl r
    using resolve_settings_now [OF reach calm] that by (cases "resolve_settings pl (quiet_config dearer)") auto
  then show ?thesis by (simp add: sound_settings_def a_finder_def)
qed

lemma finder_policy: "\<exists>p b k. policy_at a_finder a = Inr p \<and> sane_policy p b k"
proof -
  obtain r where r: "fs_settings a_finder (placement_of a) = Inr r"
    by (simp add: a_finder_def resolve_settings_def overrides_for_def quiet_config_def run_ops run_quiet)
  then have "good_settings r" using finder_sound by (simp add: sound_settings_def)
  then show ?thesis using policy_from_good r by (fastforce simp: policy_at_def lift_domain_def)
qed

lemma no_distance: "distance_between flat (Fin 24) (Fin 91) (Fin 24) (Fin 91) = Inr (Fin 0)"
proof -
  have "\<exists>x. fl (2 * (63710088 / 10)) = Fin x" by (rule exI [of _ "rne (2 * (63710088 / 10))"]) (simp add: fl_Fin)
  then show ?thesis
    by (auto simp: distance_between_def to_coordinate_def dhaka_point distance_to_def flat_def Let_def fl_Fin)
qed

lemma resolves: 
  assumes "shop_is st live papers s"
  shows "resolve_division small_country (Fin 24) (Fin 91) (quiet bytes s c r d) =
     (Inr \<lparr>ga_area_code = [], ga_area_name = [], ga_district_code = [], ga_division_code = ''DHA'', ga_division_name = ''Dhaka''\<rparr>,
      quiet bytes s (Suc (Suc (Suc c))) r d)"
  using assms
  by (simp add: shop_is_def resolve_division_def to_coordinate_def dhaka_point place_division_def division_containing_def
      area_containing_def dhaka_row_def dhaka_reads in_dhaka geo_area_of_def no_area_def run_ops run_quiet
      cong: next_op_cong wrap_result_cong)

theorem reach_in_division_witness:
  "\<exists>(s :: merchant_tables) a v row p. reach flat small_country a_finder (Fin 24) (Fin 91) ''mch_Y7FKPX6A000000000000'' ''en'' (quiet an_entropy s 0 0 0) = (Inr a, v) \<and>
     row \<in> set (mt_shops s) \<and> mc_id (sh_shop row) = ''mch_Y7FKPX6A000000000000'' \<and> rh_reachable a \<and> rh_division_code a = ''DHA'' \<and>
     distance_between flat (Fin 24) (Fin 91) (pin_lat (mc_pin (sh_shop row))) (pin_lng (mc_pin (sh_shop row))) = Inr (Fin 0) \<and>
     first_rung p (Fin 0) (rh_required_level a)"
proof -
  obtain s where s: "shops_reachable small_country {} [dhaka_row] [] s"
    "shop_is StatusApproved True [paper DocTradeLicence, paper DocNationalID] s" using approved_reachable by blast
  let ?area = "\<lparr>ga_area_code = [], ga_area_name = [], ga_district_code = [], ga_division_code = ''DHA'', ga_division_name = ''Dhaka''\<rparr>"
  obtain p b k where p: "policy_at a_finder ?area = Inr p" "sane_policy p b k" using finder_policy by blast
  have "radius_at p (py_max_expansions p) = Fin (of_int (b + k * py_max_expansions p))" "0 \<le> k * py_max_expansions p" "0 \<le> b"
    using p(2) radius_is [OF p(2)] by (simp_all add: sane_policy_def)
  then have near: "\<not> flt (radius_at p (py_max_expansions p)) (Fin 0)" by (simp del: of_int_add of_int_mult)
  have shop: "mc_pin new_shop = \<lparr>pin_lat = Fin 24, pin_lng = Fin 91\<rparr>" "sp_division_code (mc_place new_shop) = ''DHA''"
    by (simp_all add: new_shop_def)
  obtain a v where run: "reach flat small_country a_finder (Fin 24) (Fin 91) ''mch_Y7FKPX6A000000000000'' ''en'' (quiet an_entropy s 0 0 0) = (Inr a, v)"
    "rh_reachable a" "rh_division_code a = ''DHA''" "rh_distance_m a = Fin 0"
    using s(2) shop_reads [of StatusApproved]
    by (simp add: reach_def find_shop_def shop_is_def shop_runs resolves [OF s(2)] no_distance shop_view_of_def p(1) reach_within_def near
        shop Let_def cong: next_op_cong wrap_result_cong)
  have reach: "shops_reachable small_country {} [dhaka_row] [] (w_store (quiet an_entropy s 0 0 0))"
    using s(1) by (simp add: run_quiet)
  have calm: "shop_past small_country {} (w_others (quiet an_entropy s 0 0 0) n)" for n
    by (simp add: quiet_def past_nothing)
  have "earthly 0" by (simp add: earthly_def)
  from reach_in_division [OF reach calm finder_sound run(1,4) this] obtain t row where row: "t \<in> stores_seen (quiet an_entropy s 0 0 0) v"
    "row \<in> set (mt_shops t)" "mc_id (sh_shop row) = ''mch_Y7FKPX6A000000000000''"
    "distance_between flat (Fin 24) (Fin 91) (pin_lat (mc_pin (sh_shop row))) (pin_lng (mc_pin (sh_shop row))) = Inr (Fin 0)"
    "\<exists>rungs. first_rung rungs (Fin 0) (rh_required_level a)"
    using run(2) by (auto split: if_splits)
  then obtain rungs where rung: "first_rung rungs (Fin 0) (rh_required_level a)" by blast
  have "row \<in> set (mt_shops s)" using row(2) quiet_seen [OF row(1)] by simp
  then show ?thesis using run row(3,4) rung by blast
qed

definition a_search :: search_query where
  "a_search = \<lparr>qu_lat = Fin 24, qu_lng = Fin 91, qu_level = 11, qu_type = ''grocery'', qu_text = [], qu_lang = ''en'',
     qu_limit = 20, qu_offset = 0\<rparr>"

theorem search_in_division_witness:
  "\<exists>(s :: merchant_tables) a v c l r. search small_country a_finder a_search (quiet an_entropy s 0 0 0) = (Inr a, v) \<and> se_merchants a = [c] \<and>
     cd_id c = ''mch_Y7FKPX6A000000000000'' \<and> ga_division_code (se_placement a) = ''DHA'' \<and> cd_distance_m c = Fin 500 \<and>
     l \<in> set (gt_locations s) \<and> lo_merchant_id l = cd_id c \<and> lo_active l \<and>
     first_division small_country [dhaka_row] (lo_location l) = Some ''DHA'' \<and>
     r \<in> set (mt_shops s) \<and> mc_id (sh_shop r) = cd_id c \<and> mc_name (sh_shop r) = cd_name c"
proof -
  obtain s where s: "shops_reachable small_country {} [dhaka_row] [] s"
    "shop_is StatusApproved True [paper DocTradeLicence, paper DocNationalID] s" using approved_reachable by blast
  let ?area = "\<lparr>ga_area_code = [], ga_area_name = [], ga_district_code = [], ga_division_code = ''DHA'', ga_division_name = ''Dhaka''\<rparr>"
  obtain p b k where p: "policy_at a_finder ?area = Inr p" "sane_policy p b k" using finder_policy by blast
  let ?most = "py_max_expansions p"
  have radius: "radius_at p ?most = Fin (of_int (b + k * ?most))" "0 \<le> k * ?most" "1000 \<le> b"
    using p(2) radius_is [OF p(2)] by (simp_all add: sane_policy_def)
  have wide: "\<not> fle (radius_at p ?most) (Fin 0)" "fle (Fin 500) (radius_at p ?most)"
    using radius by (simp_all del: of_int_add of_int_mult)
  have shop: "mc_pin new_shop = \<lparr>pin_lat = Fin 24, pin_lng = Fin 91\<rparr>" "sp_division_code (mc_place new_shop) = ''DHA''"
    "mc_holiday new_shop = no_holiday" "mc_name new_shop = ''Corner''"
    by (simp_all add: new_shop_def)
  have level: "settle_level small_country p a_search = ret ?most"
    using p(2) by (simp add: settle_level_def Let_def clamp_level_def a_search_def sane_policy_def)
  have reads: "valid_type ''grocery''" "shop_type_text TypeGrocery = ''grocery''" "relevance ''Corner'' [] = (Fin 0, True)"
    by code_simp+
  have holiday: "\<not> holiday_active_at no_holiday 0" by (simp add: holiday_active_at_def no_holiday_def)
  obtain fee where fee: "answer_fee a_tariff \<lparr>qr_subtotal_minor = 0, qr_distance_m = Fin 500, qr_expansion_level = ?most, qr_lang = ''en''\<rparr> = Inr fee"
    using a_fee by blast
  have pg: "st_dwithin small_country u c x = fle (Fin 500) x" "st_distance small_country u c = Fin 500" for u c x
    by (simp_all add: small_country_def)
  let ?n = "\<lparr>nm_merchant_id = ''mch_Y7FKPX6A000000000000'', nm_lat = Fin 24, nm_lng = Fin 91, nm_distance_m = Fin 500\<rparr>"
  obtain c where near: "merchants_within_radius small_country (Fin 24) (Fin 91) (radius_at p ?most) search_fan_out
      (quiet an_entropy s (Suc (Suc (Suc 0))) 0 0) = (Inr [?n], quiet an_entropy s c 0 0)"
    using s(2)
    by (simp add: merchants_within_radius_def to_coordinate_def dhaka_point within_radius_def wide search_fan_out_def max_search_limit_def
       division_containing_def dhaka_row_def dhaka_reads in_dhaka find_within_def in_reach_def scan_location_def pg nearby_of_def
       shop_is_def run_ops run_quiet Let_def cong: next_op_cong wrap_result_cong)
  obtain card d e where cards: "merchant_cards a_finder ?area [?n] ?most (radius_at p ?most) a_search (quiet an_entropy s c 0 0) =
      (Inr [card], quiet an_entropy s d e 0)" "cd_id card = ''mch_Y7FKPX6A000000000000''" "cd_distance_m card = Fin 500"
    using s(2) shop_reads [of StatusApproved]
    by (simp add: merchant_cards_def listed_def shop_is_def shop_runs is_listed_def holiday a_finder_def fee candidate_of_def reads
       shop_view_of_def rank_shops_def card_of_def List.map_filter_def shop a_search_def cong: next_op_cong wrap_result_cong)
  obtain a v where run: "search small_country a_finder a_search (quiet an_entropy s 0 0 0) = (Inr a, v)" "se_merchants a = [card]"
    "ga_division_code (se_placement a) = ''DHA''"
    using near cards(1) p(1)
    by (simp add: search_def reads level [unfolded a_search_def] resolves [OF s(2)] a_search_def run_ops Let_def page_of_def add64_def fits64_small cong: next_op_cong wrap_result_cong)
  have reach: "shops_reachable small_country {} [dhaka_row] [] (w_store (quiet an_entropy s 0 0 0))"
    using s(1) by (simp add: run_quiet)
  have calm: "shop_past small_country {} (w_others (quiet an_entropy s 0 0 0) n)" for n
    by (simp add: quiet_def past_nothing)
  have here: "card \<in> set (se_merchants a)" using run(2) by simp
  note shown = bspec [OF conjunct2 [OF conjunct2 [OF search_in_division [OF reach calm finder_sound run(1)]]] here]
  obtain t l where l: "t \<in> stores_seen (quiet an_entropy s 0 0 0) v" "l \<in> set (gt_locations t)" "lo_merchant_id l = cd_id card" "lo_active l"
    "first_division small_country [dhaka_row] (lo_location l) = Some ''DHA''"
    using conjunct1 [OF conjunct2 [OF shown]] unfolding run(3) by blast
  obtain u r where r: "u \<in> stores_seen (quiet an_entropy s 0 0 0) v" "r \<in> set (mt_shops u)" "mc_id (sh_shop r) = cd_id card" "mc_name (sh_shop r) = cd_name card"
    using conjunct2 [OF conjunct2 [OF shown]] by blast
  have "l \<in> set (gt_locations s)" "r \<in> set (mt_shops s)" using l(2) r(2) quiet_seen [OF l(1)] quiet_seen [OF r(1)] by simp_all
  then show ?thesis using run(1,3) cards(2,3) l(3-5) r(3,4) by (intro exI [of _ s] exI [of _ a] exI [of _ v] exI [of _ card] exI [of _ l] exI [of _ r]) (simp add: run(2))
qed

end
