(* ===== verification/Cart_Example.thy ===== *)
theory Cart_Example
  imports Order_App Cart_Cases Cart_Safety Discovery_Example
begin

text \<open>
  A cart on its way into an order: \<open>order/external/cart\<close> hands placing an order the line the cart
  answered. The cart's price of one has the options in it, the order's line adds them once more.
\<close>

definition basket_option_of :: "string \<times> string \<times> string \<times> shown_money \<Rightarrow> World.cart_option" where
  "basket_option_of x = (case x of (gid, oid, name, p) \<Rightarrow>
     \<lparr>bo_group_id = gid, bo_option_id = oid, bo_name = name, bo_price_minor = sm_minor p\<rparr>)"

definition basket_line_of :: "answered_line \<Rightarrow> basket_line" where
  "basket_line_of l = \<lparr>bl_kind = an_kind l, bl_target_id = an_target_id l, bl_name = an_name l,
     bl_unit_price_minor = sm_minor (an_unit_price l), bl_options = map basket_option_of (an_options l),
     bl_quantity = an_quantity l, bl_note = an_note l\<rparr>"

definition basket_of :: "answered_cart \<Rightarrow> basket" where
  "basket_of c = \<lparr>b_merchant_id = ac_merchant_id c, b_lines = map basket_line_of (ac_lines c), b_orderable = ac_orderable c,
     b_blocker = ac_blocker c, b_subtotal_minor = sm_minor (ac_subtotal c)\<rparr>"

lemma option_sum:
  assumes "list_all (\<lambda>x. 0 \<le> m_minor (ci_price x) \<and> m_minor (ci_price x) \<le> 1000000000) xs" "0 \<le> a"
    and "a + 1000000000 * int (length xs) \<le> 1000000000000000"
  shows "foldl (\<lambda>minor x. add64 minor (m_minor (ci_price x))) a xs = a + (\<Sum>x\<leftarrow>xs. m_minor (ci_price x))"
  using assms by (induction xs arbitrary: a) (simp_all add: add64_def fits64_small algebra_simps)

lemma option_bound:
  assumes "list_all (\<lambda>x. 0 \<le> m_minor (ci_price x) \<and> m_minor (ci_price x) \<le> 1000000000) xs"
  shows "0 \<le> (\<Sum>x\<leftarrow>xs. m_minor (ci_price x)) \<and> (\<Sum>x\<leftarrow>xs. m_minor (ci_price x)) \<le> 1000000000 * int (length xs)"
  using assms by (induction xs) (auto simp: algebra_simps)

lemma order_line_counts_options_twice:
  assumes run: "line_of_basket (basket_line_of (answered_line_of (line_view_of c lang))) w = (Inr l, v)"
    and prices: "list_all (\<lambda>x. 0 \<le> m_minor (ci_price x) \<and> m_minor (ci_price x) \<le> 1000000000) (cl_options (ch_line c))"
      "length (cl_options (ch_line c)) \<le> 100" "0 \<le> m_minor (ch_unit_price c)" "m_minor (ch_unit_price c) \<le> 1000000000"
      "1 \<le> cl_quantity (ch_line c)" "cl_quantity (ch_line c) \<le> 20"
  shows "m_minor (line_total l) = sm_minor (lv_line_total (line_view_of c lang)) +
     cl_quantity (ch_line c) * (\<Sum>x\<leftarrow>cl_options (ch_line c). m_minor (ci_price x))"
proof -
  let ?xs = "cl_options (ch_line c)" and ?p = "m_minor (ch_unit_price c)" and ?q = "cl_quantity (ch_line c)"
  let ?s = "\<Sum>x\<leftarrow>?xs. m_minor (ci_price x)"
  obtain k where l: "l = \<lparr>ol_id = k, ol_kind = cl_kind (ch_line c), ol_target_id = cl_target_id (ch_line c), ol_name = cl_name (ch_line c),
      ol_unit_price = taka ?p, ol_options = map (\<lambda>x. \<lparr>oo_group_id = ci_group_id x, oo_option_id = ci_option_id x, oo_name = ci_name x,
        oo_price = taka (m_minor (ci_price x))\<rparr>) ?xs, ol_quantity = ?q, ol_note = cl_note (ch_line c)\<rparr>"
    using run by (auto simp: line_of_basket_def and_then_def ret_def basket_line_of_def answered_line_of_def line_view_of_def to_money_def
        basket_option_of_def comp_def split: prod.splits sum.splits)
  have few: "1000000000 * int (length ?xs) \<le> 100000000000" using prices(2) by simp
  have s: "0 \<le> ?s" "?s \<le> 100000000000" using option_bound [OF prices(1)] few by linarith+
  have sum: "foldl (\<lambda>minor x. add64 minor (m_minor (ci_price x))) ?p ?xs = ?p + ?s"
    using prices few by (intro option_sum) simp_all
  have "(?p + ?s) * ?q \<le> 101000000000 * 20" "?p * ?q \<le> 1000000000 * 20"
    using prices s by (intro mult_mono; simp)+
  moreover have "0 \<le> (?p + ?s) * ?q" "0 \<le> ?p * ?q" using prices s by simp_all
  ultimately have "mul64 (?p + ?s) ?q = (?p + ?s) * ?q" "mul64 ?p ?q = ?p * ?q"
    by (simp_all add: mul64_def fits64_small)
  then show ?thesis
    by (simp add: l line_total_def foldl_map comp_def sum line_view_of_def times_money_def to_money_def algebra_simps)
qed

text \<open>
  A customer in Dhaka puts two bags of rice in the cart and says where they go; the theorems of
  \<open>Cart_Safety\<close> are applied to that cart.
\<close>

section \<open>A shop and its rice\<close>

definition open_shop :: merchant where
  "open_shop = new_shop\<lparr>mc_id := ''shop'', mc_status := StatusApproved, mc_hours := every_day \<lparr>w_open = 0, w_close = 1440\<rparr>\<rparr>"

definition a_market :: merchant_tables where
  "a_market = one_shop\<lparr>mt_shops := [row_of_merchant open_shop]\<rparr>"

definition rice :: menu_item where
  "rice = \<lparr>mi_id = ''rice'', mi_merchant_id = ''shop'', mi_category_id = [], mi_name = ''Rice'', mi_description = [], mi_image_url = [],
     mi_price = to_money (taka 12000), mi_orderable = True, mi_reason = [], mi_unit = ''kg'', mi_pack_size = [], mi_brand = [],
     mi_generic_name = [], mi_strength = [], mi_prescription = False, mi_vegetarian = True, mi_minutes = 0, mi_variants = [],
     mi_add_ons = []\<rparr>"

definition a_service :: cart_services where
  "a_service = \<lparr>cs_item = (\<lambda>_ _. Inr rice), cs_items = (\<lambda>_ _. Inr [rice]), cs_combo = (\<lambda>_ _. Inl (Sentinel ''no bundles'')),
     cs_finder = a_finder, cs_postgis = small_country, cs_trig = flat\<rparr>"

definition rice_request :: cart_request where
  "rice_request = \<lparr>aq_merchant_id = ''shop'', aq_kind = ''item'', aq_target_id = ''rice'', aq_quantity = 2, aq_choices = [], aq_note = [],
     aq_lang = ''en''\<rparr>"

definition rice_line :: cart_line where
  "rice_line = \<lparr>cl_id = ''CLN_Y7FKPX6A000000000000'', cl_kind = ''item'', cl_target_id = ''rice'', cl_name = ''Rice'', cl_unit_price = taka 12000,
     cl_options = [], cl_quantity = 2, cl_note = []\<rparr>"

definition rice_cart :: cart where
  "rice_cart = \<lparr>bs_id = ''CRT_Y7FKPX6A000000000000'', bs_user_id = ''usr'', bs_merchant_id = ''shop'', bs_address_id = [],
     bs_lat = Fin 0, bs_lng = Fin 0, bs_lines = [rice_line], bs_updated_at = 0\<rparr>"

definition with_cart :: "cart \<Rightarrow> cart_tables" where
  "with_cart c = (no_carts a_market)\<lparr>ct_carts := [c\<lparr>bs_lines := []\<rparr>],
     ct_lines := [\<lparr>cw_cart_id = bs_id c, cw_line = rice_line, cw_position = 0\<rparr>]\<rparr>"

lemma cart_ids:
  "new_id ''CRT'' (unix_milli 0) an_entropy = ''CRT_Y7FKPX6A000000000000''" "new_id ''CLN'' (unix_milli 0) an_entropy = ''CLN_Y7FKPX6A000000000000''"
  unfolding an_entropy_def by code_simp+

lemma open_shop_reads: "scan_merchant (row_of_merchant open_shop) = Inr open_shop"
proof -
  have "wf_weekly (every_day \<lparr>w_open = 0, w_close = 1440\<rparr>)" by (rule every_day_wf) (simp add: wf_window_def end_of_day_def)
  then have "decode_weekly_hours (encode_week (every_day \<lparr>w_open = 0, w_close = 1440\<rparr>)) = Inr (every_day \<lparr>w_open = 0, w_close = 1440\<rparr>)"
    unfolding decode_weekly_hours_def max_windows_per_day_def by (rule decode_encoded) (simp add: every_day_def)
  then show ?thesis by (simp add: scan_merchant_def row_of_merchant_def open_shop_def new_shop_def)
qed

lemma open_shop_parts [simp]:
  "mc_id open_shop = ''shop''" "mc_pin open_shop = \<lparr>pin_lat = Fin 24, pin_lng = Fin 91\<rparr>" "sp_division_code (mc_place open_shop) = ''DHA''"
  "open_shop\<lparr>mc_documents := []\<rparr> = open_shop"
  by (simp_all add: open_shop_def new_shop_def)

lemma open_shop_open: "is_listed open_shop 0" "is_open_at open_shop 0"
  by code_simp+

lemma market_parts [simp]:
  "mt_shops (no_carts a_market) = [row_of_merchant open_shop]" "mt_documents (no_carts a_market) = []"
  "gt_divisions (no_carts a_market) = [dhaka_row]" "gt_areas (no_carts a_market) = []" "ct_carts (no_carts a_market) = []"
  "ct_lines (no_carts a_market) = []" "ct_options (no_carts a_market) = []"
  by (simp_all add: no_carts_def a_market_def one_shop_def)

lemma finds_shop:
  assumes "mt_shops s = [row_of_merchant open_shop]" "mt_documents s = []"
  shows "find_shop ''shop'' (quiet bytes s c r d) = (Inr (shop_view_of open_shop 0 []), quiet bytes s (Suc (Suc c)) (Suc r) d)"
  using assms open_shop_reads
  by (simp add: find_shop_def shop_runs cong: next_op_cong wrap_result_cong)

section \<open>The cart is filled and placed\<close>

lemmas cart_runs = add_to_cart_def read_cart_def cart_of_user_def cart_or_new_def save_and_render_def
  lift_cart_def lift_domain_def run_ops run_quiet

lemma rice_reads:
  "new_cart k ''usr'' ''shop'' t = Inr (rice_cart\<lparr>bs_id := k, bs_lines := [], bs_updated_at := t\<rparr>)"
  "valid_line rice_line = None" "line_fits rice_line" "has_address (rice_cart\<lparr>bs_lines := ls\<rparr>) = False"
  by (simp_all add: new_cart_def rice_cart_def valid_line_def rice_line_def kind_item_def max_quantity_def max_line_note_def
      line_fits_def has_address_def)

lemma resolves_rice:
  "resolve_line a_service rice_request (quiet an_entropy s c r d) = (Inr rice_line, quiet an_entropy s c (Suc r) (Suc d))"
  by (simp add: resolve_line_def rice_request_def kind_item_def kind_combo_def resolve_item_def a_service_def rice_def choose_options_def
      groups_of_def run_ops run_quiet cart_ids rice_line_def to_money_def cong: next_op_cong wrap_result_cong)

lemma adds_rice: "cart_add (rice_cart\<lparr>bs_lines := []\<rparr>) ''shop'' rice_line = Inr rice_cart"
  by (simp add: cart_add_def rice_cart_def valid_line_def rice_line_def kind_item_def max_quantity_def max_line_note_def max_lines_def)

definition rice_check :: checked_line where
  "rice_check = \<lparr>ch_line = rice_line, ch_issue = IssueNone, ch_unit_price = taka 12000, ch_orderable = True\<rparr>"

lemma checks_rice:
  assumes "bs_merchant_id c = ''shop''" "bs_lines c = [rice_line]"
  shows "check_lines a_service c = Inr [rice_check]"
  using assms by (simp add: check_lines_def is_empty_cart_def rice_line_def kind_item_def kind_combo_def a_service_def current_of_def rice_def
      current_unit_price_def to_money_def check_line_def unit_total_def compare_money_def rice_check_def)

lemma resolves_shop:
  assumes "gt_divisions s = [dhaka_row]" "gt_areas s = []"
  shows "resolve_division small_country (Fin 24) (Fin 91) (quiet bytes s c r d) =
     (Inr \<lparr>ga_area_code = [], ga_area_name = [], ga_district_code = [], ga_division_code = ''DHA'', ga_division_name = ''Dhaka''\<rparr>,
      quiet bytes s (Suc (Suc (Suc c))) r d)"
  using assms
  by (simp add: resolve_division_def to_coordinate_def dhaka_point place_division_def division_containing_def
      area_containing_def dhaka_row_def dhaka_reads in_dhaka geo_area_of_def no_area_def run_ops run_quiet
      cong: next_op_cong wrap_result_cong)

lemma reaches_shop:
  assumes "mt_shops s = [row_of_merchant open_shop]" "mt_documents s = []" "gt_divisions s = [dhaka_row]" "gt_areas s = []"
  shows "\<exists>a k l. reach flat small_country a_finder (Fin 24) (Fin 91) ''shop'' lang (quiet bytes s c r d) = (Inr a, quiet bytes s k l d) \<and>
     rh_reachable a \<and> rh_distance_m a = Fin 0"
proof -
  let ?area = "\<lparr>ga_area_code = [], ga_area_name = [], ga_district_code = [], ga_division_code = ''DHA'', ga_division_name = ''Dhaka''\<rparr>"
  obtain p b k where p: "policy_at a_finder ?area = Inr p" "sane_policy p b k" using finder_policy by blast
  have "radius_at p (py_max_expansions p) = Fin (of_int (b + k * py_max_expansions p))" "0 \<le> k * py_max_expansions p" "0 \<le> b"
    using p(2) radius_is [OF p(2)] by (simp_all add: sane_policy_def)
  then have near: "\<not> flt (radius_at p (py_max_expansions p)) (Fin 0)" by (simp del: of_int_add of_int_mult)
  show ?thesis
    by (simp add: reach_def finds_shop [OF assms(1,2)] resolves_shop [OF assms(3,4)] no_distance shop_view_of_def p(1)
        reach_within_def near Let_def run_ops cong: next_op_cong wrap_result_cong) blast
qed

text \<open>The cart as it is shown, before and after it has an address.\<close>

lemma open_shop_view [simp]:
  "sv_listed (shop_view_of open_shop 0 [])" "sv_open_now (shop_view_of open_shop 0 [])"
  using open_shop_open by (simp_all add: shop_view_of_def)

lemma rice_quote: "\<exists>q. answer_quote a_tariff \<lparr>qr_subtotal_minor = 24000, qr_distance_m = Fin 0, qr_expansion_level = l, qr_lang = lang\<rparr> = Inr q"
proof -
  have "sane_tariff a_tariff" "earthly 0"
    by (auto simp: sane_tariff_def a_tariff_def earthly_def intro!: exI [of _ "3 / 2"])
  then show ?thesis
    by (cases "0 < l") (simp_all add: answer_quote_def price_def delivery_fee_eq lift_domain_def is_negative_def Let_def)
qed

definition shop_there :: "cart_tables \<Rightarrow> bool" where
  "shop_there s \<longleftrightarrow> mt_shops s = [row_of_merchant open_shop] \<and> mt_documents s = [] \<and> gt_divisions s = [dhaka_row] \<and> gt_areas s = []"

lemma rice_priced: "m_minor (priced_lines [rice_check]) = 24000"
  by (simp add: priced_lines_def rice_check_def rice_line_def times_money_def mul64_def add64_def fits64_small)

lemma renders_unplaced:
  assumes "shop_there s" "bs_merchant_id c = ''shop''" "bs_lines c = [rice_line]" "bs_address_id c = []"
  shows "\<exists>v k l. render_cart a_service c lang (quiet bytes s i r d) = (Inr v, quiet bytes s k l d)"
  using assms
  by (simp add: render_cart_def revalidate_def shop_there_def finds_shop reach_of_cart_def has_address_def no_reach_def checks_rice
      cart_price_def run_ops Let_def cong: next_op_cong wrap_result_cong) blast

lemma renders_placed:
  assumes "shop_there s" "bs_merchant_id c = ''shop''" "bs_lines c = [rice_line]" "bs_address_id c = ''adr''" "bs_lat c = Fin 24" "bs_lng c = Fin 91"
  shows "\<exists>v k l. render_cart a_service c lang (quiet bytes s i r d) = (Inr v, quiet bytes s k l d) \<and> cv_orderable v \<and>
     cv_lines v = [line_view_of rice_check lang]"
proof -
  have s: "mt_shops s = [row_of_merchant open_shop]" "mt_documents s = []" "gt_divisions s = [dhaka_row]" "gt_areas s = []"
    using assms(1) by (simp_all add: shop_there_def)
  obtain a k l where a: "reach flat small_country a_finder (Fin 24) (Fin 91) ''shop'' [] (quiet bytes s (Suc (Suc i)) (Suc r) d) =
      (Inr a, quiet bytes s k l d)" "rh_reachable a" "rh_distance_m a = Fin 0"
    using reaches_shop [OF s] by blast
  obtain q where q: "answer_quote a_tariff \<lparr>qr_subtotal_minor = 24000, qr_distance_m = Fin 0,
      qr_expansion_level = rh_required_level a, qr_lang = lang\<rparr> = Inr q"
    using rice_quote by blast
  have svc: "cs_trig a_service = flat" "cs_postgis a_service = small_country" "cs_finder a_service = a_finder" "fs_tariff a_finder x = Inr a_tariff" for x
    by (simp_all add: a_service_def a_finder_def)
  have fine: "ch_orderable rice_check" by (simp add: rice_check_def)
  show ?thesis
    using assms(2-)
    by (simp add: render_cart_def revalidate_def finds_shop [OF s(1,2)] reach_of_cart_def has_address_def checks_rice a svc fine
      decide_cart_def is_empty_cart_def all_orderable_def cart_view_of_def rice_priced to_money_def q
      cart_price_def run_ops Let_def cong: next_op_cong wrap_result_cong) blast
qed

lemma cart_step:
  assumes "carts_reachable cs s"
  shows "carts_reachable cs (w_store (snd (run_cart cs q (quiet bytes s c r d))))"
proof -
  obtain t f where f: "cart_past cs f" "s = f (no_carts t)" using assms by (auto simp: carts_reachable_def)
  let ?w = "quiet bytes s c r d"
  have "cart_past cs (\<lambda>u. w_store (snd (run_cart cs q (?w\<lparr>w_store := u\<rparr>))))"
    by (rule cart_request) (simp add: quiet_def cart_nothing)
  from cart_later [OF f(1) this] have "cart_past cs (\<lambda>u. w_store (snd (run_cart cs q (?w\<lparr>w_store := f u\<rparr>))))" .
  moreover have "w_store (snd (run_cart cs q ?w)) = w_store (snd (run_cart cs q (?w\<lparr>w_store := f (no_carts t)\<rparr>)))"
    by (simp add: quiet_def f(2))
  ultimately show ?thesis unfolding carts_reachable_def by blast
qed

definition placed_cart :: cart where
  "placed_cart = rice_cart\<lparr>bs_address_id := ''adr'', bs_lat := Fin 24, bs_lng := Fin 91\<rparr>"

lemma cart_parts [simp]:
  "bs_id rice_cart = ''CRT_Y7FKPX6A000000000000''" "bs_user_id rice_cart = ''usr''" "bs_merchant_id rice_cart = ''shop''"
  "bs_lines rice_cart = [rice_line]" "bs_address_id rice_cart = []" "rice_cart\<lparr>bs_updated_at := 0\<rparr> = rice_cart"
  "bs_id placed_cart = ''CRT_Y7FKPX6A000000000000''" "bs_user_id placed_cart = ''usr''" "bs_merchant_id placed_cart = ''shop''"
  "bs_lines placed_cart = [rice_line]" "bs_address_id placed_cart = ''adr''" "bs_lat placed_cart = Fin 24" "bs_lng placed_cart = Fin 91"
  "placed_cart\<lparr>bs_updated_at := 0\<rparr> = placed_cart" "rice_line\<lparr>cl_options := []\<rparr> = rice_line" "cl_options rice_line = []"
  by (simp_all add: rice_cart_def placed_cart_def rice_line_def)

lemma a_row: "bs_lines c = [rice_line] \<Longrightarrow> line_rows c = [\<lparr>cw_cart_id = bs_id c, cw_line = rice_line, cw_position = 0\<rparr>]"
  "bs_lines c = [rice_line] \<Longrightarrow> option_rows c = []"
  by (simp_all add: line_rows_def option_rows_def)

lemma shop_row: "mc_id (sh_shop (row_of_merchant open_shop)) = ''shop''"
  by (simp add: row_of_merchant_def)

lemma saves_first:
  "save_cart rice_cart (quiet bytes (no_carts a_market) i r d) = (Inr (), quiet bytes (with_cart rice_cart) (Suc i) r d)"
  by (simp add: save_cart_def run_quiet a_row shop_row rice_reads(3) other_lines_def other_options_def put_cart_def)
    (simp add: with_cart_def no_carts_def)

lemma saves_second:
  "save_cart placed_cart (quiet bytes (with_cart rice_cart) i r d) = (Inr (), quiet bytes (with_cart placed_cart) (Suc i) r d)"
  by (simp add: save_cart_def run_quiet a_row shop_row rice_reads(3) other_lines_def other_options_def put_cart_def with_cart_def)
    (auto simp: no_carts_def placed_cart_def rice_cart_def)

lemma filled: "w_store (snd (run_cart a_service (AddToCart ''usr'' rice_request) (quiet an_entropy (no_carts a_market) 0 0 0))) = with_cart rice_cart"
proof -
  have there: "shop_there (with_cart rice_cart)" by (simp add: shop_there_def with_cart_def)
  obtain v k l where v: "render_cart a_service rice_cart ''en'' (quiet an_entropy (with_cart rice_cart) (Suc (Suc 0)) (Suc (Suc (Suc (Suc 0)))) (Suc (Suc 0))) =
      (Inr v, quiet an_entropy (with_cart rice_cart) k l (Suc (Suc 0)))"
    using renders_unplaced [OF there] by fastforce
  have made: "new_cart ''CRT_Y7FKPX6A000000000000'' ''usr'' ''shop'' 0 = Inr (rice_cart\<lparr>bs_lines := []\<rparr>)"
    by (simp add: rice_reads(1) rice_cart_def)
  have q: "aq_merchant_id rice_request = ''shop''" "aq_lang rice_request = ''en''" by (simp_all add: rice_request_def)
  show ?thesis
    using v by (simp add: cart_runs cart_ids made resolves_rice adds_rice q saves_first
        cong: next_op_cong wrap_result_cong)
qed

text \<open>The cart as it is read back.\<close>

lemma reads_back:
  assumes "bs_lines c = [rice_line]" "bs_user_id c = ''usr''"
  shows "cart_of_user ''usr'' (quiet bytes (with_cart c) i r d) = (Inr (Some c), quiet bytes (with_cart c) (Suc (Suc (Suc i))) r d)"
proof -
  have "c\<lparr>bs_lines := [rice_line]\<rparr> = c" using assms(1) by simp
  then show ?thesis using assms
    by (simp add: cart_of_user_def with_cart_def lines_of_cart_def rows_of_cart_def option_rows_of_cart_def attach_options_def
        run_ops run_quiet cong: next_op_cong wrap_result_cong)
qed

lemma cart_placed: "w_store (snd (run_cart a_service (SetCartAddress ''usr'' ''adr'' (Fin 24) (Fin 91) ''en'')
    (quiet an_entropy (with_cart rice_cart) 0 0 0))) = with_cart placed_cart"
proof -
  have there: "shop_there (with_cart placed_cart)" by (simp add: shop_there_def with_cart_def)
  obtain v k l where v: "render_cart a_service placed_cart ''en'' (quiet an_entropy (with_cart placed_cart) (Suc (Suc (Suc (Suc 0)))) (Suc 0) 0) =
      (Inr v, quiet an_entropy (with_cart placed_cart) k l 0)"
    using renders_placed [OF there, of placed_cart] by fastforce
  have moved: "place_cart_at rice_cart ''adr'' (Fin 24) (Fin 91) = placed_cart" by (simp add: place_cart_at_def placed_cart_def)
  have again: "cart_of_user ''usr'' (quiet an_entropy (with_cart rice_cart) 0 0 0) =
      (Inr (Some rice_cart), quiet an_entropy (with_cart rice_cart) (Suc (Suc (Suc 0))) 0 0)"
    by (rule reads_back) simp_all
  show ?thesis
    using v by (simp add: set_cart_address_def my_cart_def read_cart_def save_and_render_def run_ops run_quiet moved again saves_second
        cong: next_op_cong wrap_result_cong)
qed

section \<open>Witnesses\<close>

lemma placed_cart_reachable: "carts_reachable a_service (with_cart placed_cart)"
proof -
  have "carts_reachable a_service (no_carts a_market)"
    unfolding carts_reachable_def by (intro exI [of _ a_market] exI [of _ "\<lambda>s. s"]) (simp add: cart_nothing)
  from cart_step [OF cart_step [OF this]] show ?thesis by (metis filled cart_placed)
qed

theorem cart_in_bounds_witness:
  "\<exists>c v. cart_of_user ''usr'' (quiet an_entropy (with_cart placed_cart) 0 0 0) = (Inr (Some c), v) \<and>
     bs_user_id c = ''usr'' \<and> length (bs_lines c) \<le> 60"
proof -
  have reach: "carts_reachable a_service (w_store (quiet an_entropy (with_cart placed_cart) 0 0 0))"
    using placed_cart_reachable by (simp add: run_quiet)
  have calm: "cart_past a_service (w_others (quiet an_entropy (with_cart placed_cart) 0 0 0) n)" for n
    by (simp add: quiet_def cart_nothing)
  have run: "cart_of_user ''usr'' (quiet an_entropy (with_cart placed_cart) 0 0 0) =
      (Inr (Some placed_cart), quiet an_entropy (with_cart placed_cart) (Suc (Suc (Suc 0))) 0 0)"
    by (rule reads_back) simp_all
  show ?thesis using cart_in_bounds [OF reach calm run] run by blast
qed

theorem orderable_cart_witness:
  "\<exists>v u. current_view a_service ''usr'' ''en'' (quiet an_entropy (with_cart placed_cart) 0 0 0) = (Inr (Some v), u) \<and>
     cv_address_id v \<noteq> [] \<and> sm_minor (cv_subtotal v) = 24000"
proof -
  have reach: "carts_reachable a_service (w_store (quiet an_entropy (with_cart placed_cart) 0 0 0))"
    using placed_cart_reachable by (simp add: run_quiet)
  have calm: "cart_past a_service (w_others (quiet an_entropy (with_cart placed_cart) 0 0 0) n)" for n
    by (simp add: quiet_def cart_nothing)
  have again: "cart_of_user ''usr'' (quiet an_entropy (with_cart placed_cart) 0 0 0) =
      (Inr (Some placed_cart), quiet an_entropy (with_cart placed_cart) (Suc (Suc (Suc 0))) 0 0)"
    by (rule reads_back) simp_all
  have there: "shop_there (with_cart placed_cart)" by (simp add: shop_there_def with_cart_def)
  obtain v k l where v: "render_cart a_service placed_cart ''en'' (quiet an_entropy (with_cart placed_cart) (Suc (Suc (Suc 0))) 0 0) =
      (Inr v, quiet an_entropy (with_cart placed_cart) k l 0)" "cv_orderable v" "cv_lines v = [line_view_of rice_check ''en'']"
    using renders_placed [OF there, of placed_cart] by fastforce
  have run: "current_view a_service ''usr'' ''en'' (quiet an_entropy (with_cart placed_cart) 0 0 0) =
      (Inr (Some v), quiet an_entropy (with_cart placed_cart) k l 0)"
    by (simp add: current_view_def read_cart_def run_ops again v cong: next_op_cong wrap_result_cong)
  have line: "sm_minor (lv_unit_price (line_view_of rice_check ''en'')) = 12000" "lv_quantity (line_view_of rice_check ''en'') = 2"
    by (simp_all add: line_view_of_def rice_check_def rice_line_def to_money_def)
  have "list_all sane_line (cv_lines v)" by (simp add: v(3) sane_line_def line)
  from orderable_cart [OF reach calm run v(2) this] show ?thesis using run by (simp add: v(3) line)
qed

end
