(* ===== verification/User_Domain.thy ===== *)
theory User_Domain
  imports Prelude GoStrings Float64 Money
begin

text \<open>
  \<open>modules/user/domain\<close>: the profile a customer keeps, the addresses they have written down, and
  which of them is the default.
\<close>

section \<open>Profiles\<close>

datatype user_err =
  ErrEmptyUserID | ErrProfileNameTooLong | ErrInvalidEmail | ErrUnsupportedLanguage | ErrProfileNotFound
  | ErrEmptyAddressLine | ErrAddressLineTooLong | ErrLabelTooLong | ErrMissingRecipient | ErrUnplaced
  | ErrAddressNotFound | ErrNoDefaultAddress | ErrAddressPin

fun user_err_text :: "user_err \<Rightarrow> string" where
  "user_err_text ErrEmptyUserID = ''user id is required''"
| "user_err_text ErrProfileNameTooLong = ''name is too long''"
| "user_err_text ErrInvalidEmail = ''that email address does not look valid''"
| "user_err_text ErrUnsupportedLanguage = ''unsupported language''"
| "user_err_text ErrProfileNotFound = ''profile not found''"
| "user_err_text ErrEmptyAddressLine = ''street address is required''"
| "user_err_text ErrAddressLineTooLong = ''address line is too long''"
| "user_err_text ErrLabelTooLong = ''address label is too long''"
| "user_err_text ErrMissingRecipient = ''a recipient name and phone are required''"
| "user_err_text ErrUnplaced = ''this address has not been placed in a service area''"
| "user_err_text ErrAddressNotFound = ''address not found''"
| "user_err_text ErrNoDefaultAddress = ''no default address''"
| "user_err_text ErrAddressPin = ''that map location is not valid''"

definition max_name_length :: nat where "max_name_length = 80"

definition language_bengali :: string where "language_bengali = ''bn''"
definition language_english :: string where "language_english = ''en''"

definition all_languages :: "string list" where
  "all_languages = [language_bengali, language_english]"

definition parse_language :: "string \<Rightarrow> user_err + string" where
  "parse_language s =
     (let candidate = trim_space (to_lower s)
      in if candidate = [] then Inr language_bengali
         else case find (\<lambda>known. candidate = known) all_languages of
           Some known \<Rightarrow> Inr known | None \<Rightarrow> Inl ErrUnsupportedLanguage)"

record profile =
  pf_user_id :: string
  pf_name :: string
  pf_email :: string
  pf_language :: string

definition plausible_email :: "string \<Rightarrow> bool" where
  "plausible_email email = (case index_byte email (CHR ''@'') of
     None \<Rightarrow> False
   | Some i \<Rightarrow>
       if i = 0 \<or> i = length email - 1 then False
       else if length (filter (\<lambda>c. c = CHR ''@'') email) \<noteq> 1 then False
       else let host = drop (i + 1) email
            in if \<not> contains host ''.'' \<or> has_prefix host ''.'' \<or> has_suffix host ''.'' then False
               else \<not> list_ex (\<lambda>c. c \<in> {CHR '' '', CHR 0x09, CHR 0x0D, CHR 0x0A, CHR 0x22, CHR ''<'', CHR ''>'', CHR '','', CHR '';''}) email)"

definition new_profile :: "string \<Rightarrow> string \<Rightarrow> string \<Rightarrow> string \<Rightarrow> user_err + profile" where
  "new_profile user name email lang =
     (if trim_space user = [] then Inl ErrEmptyUserID
      else let name = trim_space name; email = trim_space (to_lower email)
           in if rune_count name > max_name_length then Inl ErrProfileNameTooLong
              else if email \<noteq> [] \<and> \<not> plausible_email email then Inl ErrInvalidEmail
              else rbind (parse_language (if lang = [] then language_bengali else lang)) (\<lambda>parsed.
                   Inr \<lparr>pf_user_id = user, pf_name = name, pf_email = email, pf_language = parsed\<rparr>))"

definition bn_customer :: string where
  "bn_customer = utf8 [0x0997, 0x09CD, 0x09B0, 0x09BE, 0x09B9, 0x0995]"

definition display_name :: "profile \<Rightarrow> string" where
  "display_name p = (if pf_name p \<noteq> [] then pf_name p
     else if pf_language p = language_bengali then bn_customer else ''Customer'')"

section \<open>Addresses\<close>

definition max_label_length :: nat where "max_label_length = 40"
definition max_address_line_length :: nat where "max_address_line_length = 200"
definition max_instruction_length :: nat where "max_instruction_length = 300"

record map_pin =
  mp_lat :: f64
  mp_lng :: f64

definition new_map_pin :: "f64 \<Rightarrow> f64 \<Rightarrow> user_err + map_pin" where
  "new_map_pin lat lng =
     (if flt lat (Fin (- 90)) \<or> flt (Fin 90) lat then Inl ErrAddressPin
      else if flt lng (Fin (- 180)) \<or> flt (Fin 180) lng then Inl ErrAddressPin
      else if feq lat (Fin 0) \<and> feq lng (Fin 0) then Inl ErrAddressPin
      else Inr \<lparr>mp_lat = lat, mp_lng = lng\<rparr>)"

record address_place =
  ap_area_code :: string
  ap_area_name :: string
  ap_district_code :: string
  ap_division_code :: string

definition unplaced :: address_place where
  "unplaced = \<lparr>ap_area_code = [], ap_area_name = [], ap_district_code = [], ap_division_code = []\<rparr>"

definition address_is_placed :: "address_place \<Rightarrow> bool" where
  "address_is_placed p \<longleftrightarrow> ap_division_code p \<noteq> []"

record user_address =
  ua_id :: string
  ua_user_id :: string
  ua_label :: string
  ua_recipient_name :: string
  ua_recipient_phone :: string
  ua_line1 :: string
  ua_line2 :: string
  ua_instructions :: string
  ua_pin :: map_pin
  ua_place :: address_place
  ua_default :: bool

definition new_address ::
  "string \<Rightarrow> string \<Rightarrow> string \<Rightarrow> string \<Rightarrow> string \<Rightarrow> string \<Rightarrow> string \<Rightarrow> string \<Rightarrow> map_pin \<Rightarrow> user_err + user_address" where
  "new_address k user label recipient phone line1 line2 instructions p =
     (if trim_space user = [] then Inl ErrEmptyUserID
      else let label = trim_space label; line1 = trim_space line1; line2 = trim_space line2;
               recipient = trim_space recipient; phone = trim_space phone; instructions = trim_space instructions
           in if rune_count label > max_label_length then Inl ErrLabelTooLong
              else if line1 = [] then Inl ErrEmptyAddressLine
              else if rune_count line1 > max_address_line_length \<or> rune_count line2 > max_address_line_length
                then Inl ErrAddressLineTooLong
              else if recipient = [] \<or> phone = [] then Inl ErrMissingRecipient
              else if rune_count recipient > max_name_length then Inl ErrProfileNameTooLong
              else if rune_count instructions > max_instruction_length then Inl ErrAddressLineTooLong
              else if feq (mp_lat p) (Fin 0) \<and> feq (mp_lng p) (Fin 0) then Inl ErrAddressPin
              else Inr \<lparr>ua_id = k, ua_user_id = user, ua_label = label, ua_recipient_name = recipient, ua_recipient_phone = phone,
                     ua_line1 = line1, ua_line2 = line2, ua_instructions = instructions, ua_pin = p, ua_place = unplaced,
                     ua_default = False\<rparr>)"

definition with_placement :: "user_address \<Rightarrow> address_place \<Rightarrow> user_address" where
  "with_placement a p = a\<lparr>ua_place := p\<rparr>"

definition display_label :: "user_address \<Rightarrow> string" where
  "display_label a = (if ua_label a \<noteq> [] then ua_label a else ua_line1 a)"

definition single_line :: "user_address \<Rightarrow> string" where
  "single_line a = ua_line1 a @ (if ua_line2 a \<noteq> [] then '', '' @ ua_line2 a else []) @
     (if ap_area_name (ua_place a) \<noteq> [] then '', '' @ ap_area_name (ua_place a) else [])"

text \<open>The first that says it is the default, the last when none does.\<close>

fun default_at :: "user_address list \<Rightarrow> nat option" where
  "default_at [] = None"
| "default_at (a # as) = (if ua_default a then Some 0 else map_option Suc (default_at as))"

definition choose_default :: "user_address list \<Rightarrow> user_address list" where
  "choose_default as =
     (if as = [] then as
      else let k = (case default_at as of Some i \<Rightarrow> i | None \<Rightarrow> length as - 1)
           in map (\<lambda>(i, a). a\<lparr>ua_default := (i = k)\<rparr>) (zip [0..<length as] as))"

section \<open>Reading back what was stored\<close>

lemma first_wins: "0 < (if A then 1 else if B then 2 else (0::nat)) \<Longrightarrow> (if A then 1 else if B then 2 else z) = (if A then 1 else if B then 2 else 0)"
  by (cases A; cases B) simp_all

lemma space_len_append: "0 < space_len xs \<Longrightarrow> space_len (xs @ ys) = space_len xs"
proof (cases xs)
  case (Cons a t)
  assume pos: "0 < space_len xs"
  show ?thesis
  proof (cases t)
    case Nil
    then have "a = 32 \<or> 9 \<le> a \<and> a \<le> 13" using pos Cons by (simp split: if_split_asm)
    then show ?thesis by (simp only: Cons Nil space_len.simps append.simps if_True)
  next
    case t: (Cons b u)
    show ?thesis
    proof (cases u)
      case Nil
      show ?thesis using pos unfolding Cons t Nil
        by (simp only: space_len.simps append.simps list.case, elim first_wins)
    qed (simp add: Cons t)
  qed
qed simp

lemma spaces_at_prefix:
  assumes "prefix t s" "0 < spaces_at t"
  shows "0 < spaces_at s"
proof -
  obtain u where "s = t @ u" using assms(1) by (auto simp: prefix_def)
  then have "map of_char (take 3 s) = (map of_char (take 3 t) @ map of_char (take (3 - length t) u) :: nat list)" by simp
  then show ?thesis using space_len_append assms(2) by (simp add: spaces_at_def)
qed

lemma trim_space_idem [simp]: "trim_space (trim_space s) = trim_space s"
proof -
  have "spaces_at (trim_space s) = 0"
    using spaces_at_prefix [OF trim_right_prefix [of "trim_left s"]] trim_left_stable [of s] by (auto simp: trim_space_def)
  then show ?thesis
    using trim_right_stable [of "trim_left s"] by (simp add: trim_space_def trim_left.simps trim_right.simps)
qed

lemma trim_space_set: "set (trim_space s) \<subseteq> set s"
  unfolding trim_space_def
  by (meson trim_right_prefix trim_left_suffix set_mono_prefix set_mono_suffix subset_trans)

lemma lower_trim [simp]: "to_lower (trim_space (to_lower s)) = trim_space (to_lower s)"
proof -
  have "lower_char c = c" if "c \<in> set (trim_space (to_lower s))" for c
    using that trim_space_set [of "to_lower s"] by (auto simp: to_lower_def)
  then show ?thesis by (simp add: to_lower_def map_idI)
qed

lemma parse_language_is:
  "parse_language s = Inr l \<Longrightarrow> l \<in> {language_bengali, language_english} \<and> parse_language l = Inr l \<and> l \<noteq> []"
proof -
  have known: "parse_language language_bengali = Inr language_bengali" "parse_language language_english = Inr language_english"
    by code_simp+
  assume "parse_language s = Inr l"
  then have "l = language_bengali \<or> l = language_english"
    by (auto simp: parse_language_def Let_def all_languages_def split: if_splits option.splits)
  then show ?thesis using known by (auto simp: language_bengali_def language_english_def)
qed

lemma new_profile_parts:
  assumes "new_profile user name email lang = Inr p"
  shows "new_profile (pf_user_id p) (pf_name p) (pf_email p) (pf_language p) = Inr p \<and> pf_user_id p = user"
proof -
  let ?name = "trim_space name" and ?email = "trim_space (to_lower email)"
  obtain l where p: "parse_language (if lang = [] then language_bengali else lang) = Inr l" "trim_space user \<noteq> []"
    "\<not> rune_count ?name > max_name_length" "\<not> (?email \<noteq> [] \<and> \<not> plausible_email ?email)"
    "p = \<lparr>pf_user_id = user, pf_name = ?name, pf_email = ?email, pf_language = l\<rparr>"
    using assms by (auto simp: new_profile_def Let_def rbind_Inr_iff split: if_split_asm)
  then show ?thesis using parse_language_is [OF p(1)] by (simp add: new_profile_def Let_def)
qed

section \<open>One default\<close>

lemma default_at_bound: "default_at as = Some i \<Longrightarrow> i < length as \<and> ua_default (as ! i)"
  by (induction as arbitrary: i) (auto split: if_splits)

definition only_default :: "nat \<Rightarrow> user_address list \<Rightarrow> user_address list" where
  "only_default k as = map (\<lambda>(i, a). a\<lparr>ua_default := (i = k)\<rparr>) (zip [0..<length as] as)"

lemma choose_default_is: "as \<noteq> [] \<Longrightarrow> \<exists>k < length as. choose_default as = only_default k as \<and> (\<forall>i. default_at as = Some i \<longrightarrow> k = i)"
  using default_at_bound [of as] unfolding choose_default_def only_default_def [symmetric] Let_def
  by (cases "default_at as") (auto intro: exI [of _ "length as - 1"])

lemma one_default:
  assumes "k < length as"
  shows "filter ua_default (only_default k as) = [(as ! k)\<lparr>ua_default := True\<rparr>]"
  using assms unfolding only_default_def
proof (induction as arbitrary: k rule: rev_induct)
  case Nil
  then show ?case by simp
next
  case (snoc a as)
  show ?case
  proof (cases "k = length as")
    case True
    then show ?thesis by (auto simp: filter_empty_conv dest: set_zip_leftD)
  next
    case False
    then show ?thesis using snoc by (simp add: nth_append)
  qed
qed

end
