(* ===== verification/User_App.thy ===== *)
theory User_App
  imports User_Domain Geo_App
begin

text \<open>
  The address book at work: the tables of \<open>modules/user/infrastructure\<close>, which come to lie beside
  geo's, and the use cases of \<open>modules/user/application\<close>.
\<close>

section \<open>The tables\<close>

record address_row =
  ur_address :: user_address
  ur_created :: instant

record user_tables = geo_tables +
  ut_profiles :: "profile list"
  ut_addresses :: "address_row list"

type_synonym ('z, 'a) user_op = "('z user_tables_scheme, 'a) op"

definition user_sentinel :: "user_err \<Rightarrow> error" where
  "user_sentinel e = Sentinel (user_err_text e)"

text \<open>A stored language that is not served is read as the default.\<close>

definition scan_profile :: "profile \<Rightarrow> error + profile" where
  "scan_profile r = lift_domain user_sentinel (new_profile (pf_user_id r) (pf_name r) (pf_email r)
     (case parse_language (pf_language r) of Inl _ \<Rightarrow> language_bengali | Inr l \<Rightarrow> l))"

definition stored_profile :: "string \<Rightarrow> ('z, profile) user_op" where
  "stored_profile user = db_read (\<lambda>s. case find (\<lambda>r. pf_user_id r = user) (ut_profiles s) of
     None \<Rightarrow> Inl (user_sentinel ErrProfileNotFound) | Some r \<Rightarrow> scan_profile r)"

definition put_profile :: "profile \<Rightarrow> profile list \<Rightarrow> profile list" where
  "put_profile p rows = (if list_ex (\<lambda>r. pf_user_id r = pf_user_id p) rows
     then map (\<lambda>r. if pf_user_id r = pf_user_id p then p else r) rows else rows @ [p])"

definition save_profile :: "profile \<Rightarrow> ('z, unit) user_op" where
  "save_profile p = db_call (\<lambda>s.
     if pf_language p \<in> {''bn'', ''en''} then (Inr (), s\<lparr>ut_profiles := put_profile p (ut_profiles s)\<rparr>)
     else (Inl (Sentinel ''the row breaks a constraint of the table''), s))"

definition address_row_before :: "address_row \<Rightarrow> address_row \<Rightarrow> bool" where
  "address_row_before a b \<longleftrightarrow> ur_created a < ur_created b \<or> ur_created a = ur_created b \<and> ua_id (ur_address a) < ua_id (ur_address b)"

definition addresses_in :: "'z user_tables_scheme \<Rightarrow> string \<Rightarrow> user_address list" where
  "addresses_in s user = map ur_address (stable_sort address_row_before (filter (\<lambda>r. ua_user_id (ur_address r) = user) (ut_addresses s)))"

definition addresses_of :: "string \<Rightarrow> ('z, user_address list) user_op" where
  "addresses_of user = db_read (\<lambda>s. Inr (addresses_in s user))"

definition address_of :: "string \<Rightarrow> string \<Rightarrow> ('z, user_address) user_op" where
  "address_of user k = db_read (\<lambda>s.
     case find (\<lambda>r. ua_user_id (ur_address r) = user \<and> ua_id (ur_address r) = k) (ut_addresses s) of
       None \<Rightarrow> Inl (user_sentinel ErrAddressNotFound) | Some r \<Rightarrow> Inr (ur_address r))"

definition default_row :: "string \<Rightarrow> address_row \<Rightarrow> bool" where
  "default_row user r \<longleftrightarrow> ua_user_id (ur_address r) = user \<and> ua_default (ur_address r)"

definition default_address_of :: "string \<Rightarrow> ('z, user_address) user_op" where
  "default_address_of user = db_read (\<lambda>s. case find (default_row user) (ut_addresses s) of
     None \<Rightarrow> Inl (user_sentinel ErrNoDefaultAddress) | Some r \<Rightarrow> Inr (ur_address r))"

text \<open>The partial unique index: at most one default for a customer.\<close>

definition one_default_each :: "address_row list \<Rightarrow> bool" where
  "one_default_each rows \<longleftrightarrow> distinct (map (\<lambda>r. ua_user_id (ur_address r)) (filter (\<lambda>r. ua_default (ur_address r)) rows))"

text \<open>A row that is there keeps its owner and the time it was made.\<close>

definition put_address :: "string \<Rightarrow> instant \<Rightarrow> user_address \<Rightarrow> address_row list \<Rightarrow> address_row list" where
  "put_address user now a rows =
     (if list_ex (\<lambda>r. ua_id (ur_address r) = ua_id a) rows
      then map (\<lambda>r. if ua_id (ur_address r) = ua_id a then r\<lparr>ur_address := a\<lparr>ua_user_id := ua_user_id (ur_address r)\<rparr>\<rparr> else r) rows
      else rows @ [\<lparr>ur_address = a\<lparr>ua_user_id := user\<rparr>, ur_created = now\<rparr>])"

fun put_addresses :: "string \<Rightarrow> instant \<Rightarrow> user_address list \<Rightarrow> address_row list \<Rightarrow> address_row list option" where
  "put_addresses user now [] rows = Some rows"
| "put_addresses user now (a # as) rows =
     (if one_default_each (put_address user now a rows) then put_addresses user now as (put_address user now a rows) else None)"

definition clear_defaults :: "string \<Rightarrow> address_row list \<Rightarrow> address_row list" where
  "clear_defaults user rows = map (\<lambda>r. if default_row user r then r\<lparr>ur_address := (ur_address r)\<lparr>ua_default := False\<rparr>\<rparr> else r) rows"

text \<open>One transaction; \<open>now()\<close> is a reading of the clock.\<close>

definition save_addresses :: "string \<Rightarrow> user_address list \<Rightarrow> ('z, unit) user_op" where
  "save_addresses user as = and_then clock_now (\<lambda>now. db_call (\<lambda>s.
     case put_addresses user now as (clear_defaults user (ut_addresses s)) of
       None \<Rightarrow> (Inl (Sentinel ''the row breaks a constraint of the table''), s)
     | Some rows \<Rightarrow> (Inr (), s\<lparr>ut_addresses := rows\<rparr>)))"

definition delete_address :: "string \<Rightarrow> string \<Rightarrow> ('z, unit) user_op" where
  "delete_address user k = db_call (\<lambda>s. (Inr (),
     s\<lparr>ut_addresses := filter (\<lambda>r. \<not> (ua_user_id (ur_address r) = user \<and> ua_id (ur_address r) = k)) (ut_addresses s)\<rparr>))"

section \<open>Profiles\<close>

definition profile_error :: "user_err \<Rightarrow> error" where
  "profile_error e = (case e of
     ErrProfileNameTooLong \<Rightarrow> wrap (user_sentinel e) KindInvalid ''name_too_long'' ''That name is too long.''
   | ErrInvalidEmail \<Rightarrow> wrap (user_sentinel e) KindInvalid ''invalid_email'' ''That email address does not look valid.''
   | _ \<Rightarrow> wrap (user_sentinel e) KindInvalid ''invalid_profile'' ''Some of those details are not valid.'')"

definition profile_unavailable :: "error \<Rightarrow> error" where
  "profile_unavailable e = wrap e KindUnavailable ''profile_unavailable'' ''We could not load your profile just now. Please try again.''"

definition get_profile :: "string \<Rightarrow> ('z, profile) user_op" where
  "get_profile user = and_then (attempt (stored_profile user)) (\<lambda>found. case found of
     Inr p \<Rightarrow> ret p
   | Inl e \<Rightarrow> if is_sentinel e (user_err_text ErrProfileNotFound)
       then lift_err (lift_domain profile_error (new_profile user [] [] language_bengali))
       else raise_err (profile_unavailable e))"

record profile_update =
  pu_name :: "string option"
  pu_email :: "string option"
  pu_language :: "string option"

definition update_profile :: "string \<Rightarrow> profile_update \<Rightarrow> ('z, profile) user_op" where
  "update_profile user q =
     and_then (get_profile user) (\<lambda>current.
     and_then (lift_err (case pu_language q of None \<Rightarrow> Inr (pf_language current)
       | Some l \<Rightarrow> lift_domain (\<lambda>e. wrap (user_sentinel e) KindInvalid ''unsupported_language'' ''We do not support that language yet.'')
           (parse_language l))) (\<lambda>lang.
     and_then (lift_err (lift_domain profile_error (new_profile user (case pu_name q of None \<Rightarrow> pf_name current | Some n \<Rightarrow> n)
       (case pu_email q of None \<Rightarrow> pf_email current | Some e \<Rightarrow> e) lang))) (\<lambda>updated.
     and_then (or_wrap (\<lambda>e. wrap e KindUnavailable ''profile_write_failed'' ''We could not save your profile just now. Please try again.'')
       (save_profile updated)) (\<lambda>_. ret updated))))"

section \<open>The address book\<close>

definition max_addresses_per_user :: nat where "max_addresses_per_user = 20"

record address_request =
  ar_label :: string
  ar_recipient_name :: string
  ar_recipient_phone :: string
  ar_line1 :: string
  ar_line2 :: string
  ar_instructions :: string
  ar_lat :: f64
  ar_lng :: f64
  ar_make_default :: bool

definition address_error :: "user_err \<Rightarrow> error" where
  "address_error e = (case e of
     ErrEmptyAddressLine \<Rightarrow> wrap (user_sentinel e) KindInvalid ''address_line_required'' ''Please enter the street address.''
   | ErrMissingRecipient \<Rightarrow> wrap (user_sentinel e) KindInvalid ''recipient_required''
       ''Please give a name and phone number for whoever will receive the delivery.''
   | ErrAddressLineTooLong \<Rightarrow> wrap (user_sentinel e) KindInvalid ''address_too_long'' ''Some of those details are too long.''
   | ErrLabelTooLong \<Rightarrow> wrap (user_sentinel e) KindInvalid ''address_too_long'' ''Some of those details are too long.''
   | ErrProfileNameTooLong \<Rightarrow> wrap (user_sentinel e) KindInvalid ''address_too_long'' ''Some of those details are too long.''
   | _ \<Rightarrow> wrap (user_sentinel e) KindInvalid ''invalid_address'' ''Some of those details are not valid.'')"

definition addresses_unavailable :: "string \<Rightarrow> error \<Rightarrow> error" where
  "addresses_unavailable msg e = wrap e KindUnavailable ''addresses_unavailable'' msg"

definition address_not_found :: "string \<Rightarrow> error" where
  "address_not_found k = with_field (wrap (user_sentinel ErrAddressNotFound) KindNotFound ''address_not_found''
     ''We could not find that address.'') ''address_id'' k"

definition build_address :: "string \<Rightarrow> string \<Rightarrow> address_request \<Rightarrow> error + user_address" where
  "build_address k user q = (case new_map_pin (ar_lat q) (ar_lng q) of
     Inl e \<Rightarrow> Inl (wrap (user_sentinel e) KindInvalid ''invalid_pin'' ''Please drop the pin on the delivery location.'')
   | Inr p \<Rightarrow> lift_domain address_error (new_address k user (ar_label q) (ar_recipient_name q) (ar_recipient_phone q)
       (ar_line1 q) (ar_line2 q) (ar_instructions q) p))"

definition place_address :: "postgis \<Rightarrow> user_address \<Rightarrow> ('z, user_address) user_op" where
  "place_address pg a = and_then (resolve_area pg (mp_lat (ua_pin a)) (mp_lng (ua_pin a))) (\<lambda>g. ret
     (with_placement a \<lparr>ap_area_code = ga_area_code g, ap_area_name = ga_area_name g, ap_district_code = ga_district_code g,
        ap_division_code = ga_division_code g\<rparr>))"

definition store_addresses :: "string \<Rightarrow> user_address list \<Rightarrow> ('z, unit) user_op" where
  "store_addresses user as = or_wrap (\<lambda>e. wrap e KindUnavailable ''address_write_failed'' ''We could not save that address just now. Please try again.'')
     (save_addresses user (choose_default as))"

definition promote :: "user_address list \<Rightarrow> string \<Rightarrow> user_address list" where
  "promote as k = map (\<lambda>a. a\<lparr>ua_default := (ua_id a = k)\<rparr>) as"

definition list_addresses :: "string \<Rightarrow> ('z, user_address list) user_op" where
  "list_addresses user = or_wrap (addresses_unavailable ''We could not load your addresses just now. Please try again.'') (addresses_of user)"

definition could_not_save :: "error \<Rightarrow> error" where
  "could_not_save = addresses_unavailable ''We could not save that address just now. Please try again.''"

definition add_address :: "postgis \<Rightarrow> string \<Rightarrow> address_request \<Rightarrow> ('z, user_address) user_op" where
  "add_address pg user q =
     and_then (or_wrap could_not_save (addresses_of user)) (\<lambda>existing.
       if length existing \<ge> max_addresses_per_user
       then raise_err (new_error KindConflict ''address_book_full'' ''You have saved as many addresses as we can keep. Please remove one first.'')
       else and_then (fresh_id ''adr'') (\<lambda>k.
            and_then (lift_err (build_address k user q)) (\<lambda>a.
            and_then (place_address pg a) (\<lambda>p.
              let placed = p\<lparr>ua_default := (ar_make_default q \<or> existing = [])\<rparr>;
                  updated = existing @ [placed]
              in and_then (store_addresses user (if ua_default placed then promote updated (ua_id placed) else updated)) (\<lambda>_.
                 ret placed)))))"

fun address_index :: "user_address list \<Rightarrow> string \<Rightarrow> nat option" where
  "address_index [] k = None"
| "address_index (a # as) k = (if ua_id a = k then Some 0 else map_option Suc (address_index as k))"

definition update_address :: "postgis \<Rightarrow> string \<Rightarrow> string \<Rightarrow> address_request \<Rightarrow> ('z, user_address) user_op" where
  "update_address pg user k q =
     and_then (or_wrap could_not_save (addresses_of user)) (\<lambda>existing. case address_index existing k of
       None \<Rightarrow> raise_err (address_not_found k)
     | Some i \<Rightarrow>
         and_then (lift_err (build_address k user q)) (\<lambda>a.
         and_then (place_address pg a) (\<lambda>p.
           let placed = p\<lparr>ua_default := (ua_default (existing ! i) \<or> ar_make_default q)\<rparr>;
               updated = existing[i := placed]
           in and_then (store_addresses user (if ua_default placed then promote updated k else updated)) (\<lambda>_. ret placed))))"

text \<open>The row goes in one statement, the new default comes in another.\<close>

definition remove_address :: "string \<Rightarrow> string \<Rightarrow> ('z, unit) user_op" where
  "remove_address user k =
     and_then (or_wrap (addresses_unavailable ''We could not remove that address just now. Please try again.'') (addresses_of user)) (\<lambda>existing.
       let remaining = filter (\<lambda>a. ua_id a \<noteq> k) existing
       in if length remaining = length existing then raise_err (address_not_found k)
          else and_then (or_wrap (\<lambda>e. wrap e KindUnavailable ''address_write_failed'' ''We could not remove that address just now. Please try again.'')
                 (delete_address user k)) (\<lambda>_.
               when_op (remaining \<noteq> []) (store_addresses user (choose_default remaining))))"

definition set_default_address :: "string \<Rightarrow> string \<Rightarrow> ('z, user_address) user_op" where
  "set_default_address user k =
     and_then (or_wrap (addresses_unavailable ''We could not update your addresses just now. Please try again.'') (addresses_of user)) (\<lambda>existing.
       case address_index existing k of
         None \<Rightarrow> raise_err (address_not_found k)
       | Some i \<Rightarrow> and_then (store_addresses user (promote existing k)) (\<lambda>_. ret (promote existing k ! i)))"

definition default_address :: "string \<Rightarrow> ('z, user_address) user_op" where
  "default_address user = or_wrap (\<lambda>e. if is_sentinel e (user_err_text ErrNoDefaultAddress)
       then wrap e KindNotFound ''no_default_address'' ''Please add a delivery address.''
       else addresses_unavailable ''We could not load your address just now. Please try again.'' e)
     (default_address_of user)"

section \<open>What other modules are told\<close>

record answered_profile =
  an_user_id :: string
  an_user_name :: string
  an_display_name :: string
  an_email :: string
  an_language :: string

definition profile_answer :: "profile \<Rightarrow> answered_profile" where
  "profile_answer p = \<lparr>an_user_id = pf_user_id p, an_user_name = pf_name p, an_display_name = display_name p,
     an_email = pf_email p, an_language = pf_language p\<rparr>"

record answered_address =
  aa_id :: string
  aa_label :: string
  aa_recipient_name :: string
  aa_recipient_phone :: string
  aa_line1 :: string
  aa_line2 :: string
  aa_instructions :: string
  aa_single_line :: string
  aa_lat :: f64
  aa_lng :: f64
  aa_area_code :: string
  aa_area_name :: string
  aa_district_code :: string
  aa_division_code :: string

definition address_answer :: "user_address \<Rightarrow> answered_address" where
  "address_answer a = \<lparr>aa_id = ua_id a, aa_label = display_label a, aa_recipient_name = ua_recipient_name a,
     aa_recipient_phone = ua_recipient_phone a, aa_line1 = ua_line1 a, aa_line2 = ua_line2 a, aa_instructions = ua_instructions a,
     aa_single_line = single_line a, aa_lat = mp_lat (ua_pin a), aa_lng = mp_lng (ua_pin a),
     aa_area_code = ap_area_code (ua_place a), aa_area_name = ap_area_name (ua_place a),
     aa_district_code = ap_district_code (ua_place a), aa_division_code = ap_division_code (ua_place a)\<rparr>"

definition user_profile :: "string \<Rightarrow> ('z, answered_profile) user_op" where
  "user_profile user = and_then (get_profile user) (\<lambda>p. ret (profile_answer p))"

definition user_default_address :: "string \<Rightarrow> ('z, answered_address) user_op" where
  "user_default_address user = and_then (default_address user) (\<lambda>a. ret (address_answer a))"

definition user_address_named :: "string \<Rightarrow> string \<Rightarrow> ('z, answered_address) user_op" where
  "user_address_named user k = and_then (list_addresses user) (\<lambda>as. case find (\<lambda>a. ua_id a = k) as of
     None \<Rightarrow> raise_err (address_not_found k) | Some a \<Rightarrow> ret (address_answer a))"

end
