(* ===== verification/User_Safety.thy ===== *)
theory User_Safety
  imports User_App Geo_App Merchant_Histories
begin

text \<open>
  Profiles and address books in every history of requests: a profile that was stored reads back as it
  was given, and a customer's addresses have one default at most and lie where geo places their pins.
\<close>

section \<open>The invariant\<close>

definition map_point :: "map_pin \<Rightarrow> coordinate" where
  "map_point p = \<lparr>co_lat = mp_lat p, co_lng = mp_lng p\<rparr>"

definition area_is :: "postgis \<Rightarrow> area_row list \<Rightarrow> coordinate \<Rightarrow> address_place \<Rightarrow> bool" where
  "area_is pg ars c p \<longleftrightarrow> (\<exists>r. first_area pg ars c = Some r \<and> ap_area_code p = aw_code r \<and> ap_area_name p = aw_name r \<and>
     ap_district_code p = aw_district r)"

definition sound_address :: "postgis \<Rightarrow> division_row list \<Rightarrow> area_row list \<Rightarrow> user_address \<Rightarrow> bool" where
  "sound_address pg ds ars a \<longleftrightarrow> ua_line1 a \<noteq> [] \<and> ua_recipient_name a \<noteq> [] \<and> ua_recipient_phone a \<noteq> [] \<and>
     placed_in pg ds (map_point (ua_pin a)) (ap_division_code (ua_place a)) \<and> area_is pg ars (map_point (ua_pin a)) (ua_place a)"

definition sound_profile :: "profile \<Rightarrow> bool" where
  "sound_profile p \<longleftrightarrow> new_profile (pf_user_id p) (pf_name p) (pf_email p) (pf_language p) = Inr p"

definition rows_ok :: "postgis \<Rightarrow> division_row list \<Rightarrow> area_row list \<Rightarrow> address_row list \<Rightarrow> bool" where
  "rows_ok pg ds ars rows \<longleftrightarrow> distinct (map (\<lambda>r. ua_id (ur_address r)) rows) \<and> one_default_each rows \<and>
     list_all (\<lambda>r. sound_address pg ds ars (ur_address r)) rows"

definition users_ok :: "postgis \<Rightarrow> division_row list \<Rightarrow> area_row list \<Rightarrow> 'z user_tables_scheme \<Rightarrow> bool" where
  "users_ok pg ds ars s \<longleftrightarrow> gt_divisions s = ds \<and> gt_areas s = ars \<and> distinct (map pf_user_id (ut_profiles s)) \<and>
     list_all sound_profile (ut_profiles s) \<and> rows_ok pg ds ars (ut_addresses s)"

abbreviation user_gives :: "postgis \<Rightarrow> division_row list \<Rightarrow> area_row list \<Rightarrow> ('z, 'a) user_op \<Rightarrow> ('a \<Rightarrow> bool) \<Rightarrow> bool" where
  "user_gives pg ds ars \<equiv> gives (users_ok pg ds ars)"

abbreviation sound_list :: "postgis \<Rightarrow> division_row list \<Rightarrow> area_row list \<Rightarrow> user_address list \<Rightarrow> bool" where
  "sound_list pg ds ars \<equiv> list_all (sound_address pg ds ars)"

lemma sound_address_updates [simp]:
  "sound_address pg ds ars (a\<lparr>ua_default := b\<rparr>) = sound_address pg ds ars a"
  "sound_address pg ds ars (a\<lparr>ua_user_id := u\<rparr>) = sound_address pg ds ars a"
  by (simp_all add: sound_address_def)

section \<open>The tables\<close>

lemma one_default_drop: "one_default_each rows \<Longrightarrow> one_default_each (filter P rows)"
proof -
  assume one: "one_default_each rows"
  have "filter (\<lambda>r. ua_default (ur_address r)) (filter P rows) = filter P (filter (\<lambda>r. ua_default (ur_address r)) rows)"
    by (simp add: conj_commute)
  then show ?thesis using one by (simp only: one_default_each_def distinct_map_filter)
qed

lemma cleared_defaults:
  "filter (\<lambda>r. ua_default (ur_address r)) (clear_defaults user rows) =
   filter (\<lambda>r. ua_default (ur_address r) \<and> ua_user_id (ur_address r) \<noteq> user) rows"
  by (induction rows) (auto simp: clear_defaults_def default_row_def)

lemma clear_ok: "rows_ok pg ds ars rows \<Longrightarrow> rows_ok pg ds ars (clear_defaults user rows)"
proof -
  assume ok: "rows_ok pg ds ars rows"
  have ids: "map (\<lambda>r. ua_id (ur_address r)) (clear_defaults user rows) = map (\<lambda>r. ua_id (ur_address r)) rows"
    by (induction rows) (auto simp: clear_defaults_def)
  have "one_default_each (filter (\<lambda>r. ua_user_id (ur_address r) \<noteq> user) rows)"
    using ok one_default_drop by (auto simp: rows_ok_def)
  then have "one_default_each (clear_defaults user rows)"
    by (simp add: one_default_each_def cleared_defaults conj_commute)
  moreover have "list_all (\<lambda>r. sound_address pg ds ars (ur_address r)) (clear_defaults user rows)"
    using ok by (auto simp: rows_ok_def clear_defaults_def list_all_iff)
  ultimately show ?thesis using ok ids by (simp add: rows_ok_def)
qed

lemma put_address_ids:
  "map (\<lambda>r. ua_id (ur_address r)) (put_address user now a rows) = map (\<lambda>r. ua_id (ur_address r)) rows @
     (if list_ex (\<lambda>r. ua_id (ur_address r) = ua_id a) rows then [] else [ua_id a])"
  by (auto simp: put_address_def)

lemma put_addresses_ok:
  "put_addresses user now as rows = Some out \<Longrightarrow> rows_ok pg ds ars rows \<Longrightarrow> sound_list pg ds ars as \<Longrightarrow> rows_ok pg ds ars out"
proof (induction as arbitrary: rows)
  case Nil
  then show ?case by simp
next
  case (Cons a as)
  let ?next = "put_address user now a rows"
  have one: "one_default_each ?next" and rest: "put_addresses user now as ?next = Some out"
    using Cons.prems(1) by (auto split: if_splits)
  have "distinct (map (\<lambda>r. ua_id (ur_address r)) ?next)"
    using Cons.prems(2) by (auto simp: put_address_ids rows_ok_def list_ex_iff)
  moreover have "list_all (\<lambda>r. sound_address pg ds ars (ur_address r)) ?next"
    using Cons.prems(2,3) by (auto simp: put_address_def rows_ok_def list_all_iff)
  ultimately show ?case using Cons.IH [OF rest] one Cons.prems(3) by (simp add: rows_ok_def)
qed

lemma choose_sound: "sound_list pg ds ars (choose_default as) = sound_list pg ds ars as"
proof -
  have "sound_list pg ds ars (map (\<lambda>(i, a). a\<lparr>ua_default := (i = k)\<rparr>) (zip [j..<j + length as] as)) = sound_list pg ds ars as" for j k
  proof (induction as arbitrary: j)
    case (Cons a as)
    have "[j..<j + length (a # as)] = j # [Suc j..<Suc j + length as]" by (simp add: upt_conv_Cons del: upt_Suc)
    then show ?case using Cons [of "Suc j"] by simp
  qed simp
  from this [where j = 0] show ?thesis by (simp add: choose_default_def Let_def)
qed

lemma promote_sound: "sound_list pg ds ars (promote as k) = sound_list pg ds ars as"
  by (auto simp: promote_def list_all_iff)

lemma read_addresses_gives: "user_gives pg ds ars (addresses_of user) (sound_list pg ds ars)"
  unfolding addresses_of_def by (rule gives_read) (auto simp: users_ok_def rows_ok_def addresses_in_def list_all_iff)

lemma store_gives: "sound_list pg ds ars as \<Longrightarrow> user_gives pg ds ars (store_addresses user as) (\<lambda>_. True)"
  unfolding store_addresses_def save_addresses_def
proof (rule gives_wrap, rule gives_then, rule gives_simple, rule gives_call)
  fix s :: "'z user_tables_scheme" and r t now
  assume as: "sound_list pg ds ars as" and s: "users_ok pg ds ars s"
    and step: "(case put_addresses user now (choose_default as) (clear_defaults user (ut_addresses s)) of
       None \<Rightarrow> (Inl (Sentinel ''the row breaks a constraint of the table''), s)
     | Some rows \<Rightarrow> (Inr (), s\<lparr>ut_addresses := rows\<rparr>)) = (r, t)"
  show "users_ok pg ds ars t \<and> (\<forall>x. r = Inr x \<longrightarrow> True)"
  proof (cases "put_addresses user now (choose_default as) (clear_defaults user (ut_addresses s))")
    case None
    then show ?thesis using s step by auto
  next
    case (Some rows)
    then have "rows_ok pg ds ars rows"
      using put_addresses_ok clear_ok s as by (auto simp: users_ok_def choose_sound)
    then show ?thesis using s step Some by (auto simp: users_ok_def)
  qed
qed

lemma delete_address_gives: "user_gives pg ds ars (delete_address user k) (\<lambda>_. True)"
  unfolding delete_address_def
  by (rule gives_call) (auto simp: users_ok_def rows_ok_def distinct_map_filter list_all_iff intro: one_default_drop)

lemma save_profile_gives: "sound_profile p \<Longrightarrow> user_gives pg ds ars (save_profile p) (\<lambda>_. True)"
  unfolding save_profile_def
proof (rule gives_call)
  fix s :: "'z user_tables_scheme" and r t
  assume p: "sound_profile p" and s: "users_ok pg ds ars s"
    and step: "(if pf_language p \<in> {''bn'', ''en''} then (Inr (), s\<lparr>ut_profiles := put_profile p (ut_profiles s)\<rparr>)
     else (Inl (Sentinel ''the row breaks a constraint of the table''), s)) = (r, t)"
  have "map pf_user_id (put_profile p rows) = map pf_user_id rows @
      (if list_ex (\<lambda>r. pf_user_id r = pf_user_id p) rows then [] else [pf_user_id p])" for rows
    by (auto simp: put_profile_def)
  moreover have "list_all sound_profile (put_profile p (ut_profiles s))"
    using p s by (auto simp: put_profile_def users_ok_def list_all_iff)
  ultimately have "users_ok pg ds ars (s\<lparr>ut_profiles := put_profile p (ut_profiles s)\<rparr>)"
    using s by (auto simp: users_ok_def list_ex_iff)
  then show "users_ok pg ds ars t \<and> (\<forall>x. r = Inr x \<longrightarrow> True)" using s step by (auto split: if_splits)
qed

section \<open>Every use case\<close>

lemma get_profile_gives: "user_gives pg ds ars (get_profile user) (\<lambda>_. True)"
proof -
  have "user_gives pg ds ars (case found of Inr p \<Rightarrow> ret p
     | Inl e \<Rightarrow> if is_sentinel e (user_err_text ErrProfileNotFound)
       then lift_err (lift_domain profile_error (new_profile user [] [] language_bengali))
       else raise_err (profile_unavailable e)) (\<lambda>_. True)" for found
    by (cases found) (auto intro: plain_simple)
  then show ?thesis unfolding get_profile_def stored_profile_def
    by (rule gives_then [OF gives_any [OF gives_attempt [OF plain_simple(4)]]])
qed

lemma update_profile_gives: "user_gives pg ds ars (update_profile user q) (\<lambda>_. True)"
proof -
  have saves: "user_gives pg ds ars (and_then (lift_err (lift_domain profile_error (new_profile user n e l))) (\<lambda>p.
      and_then (or_wrap h (save_profile p)) (\<lambda>_. ret p))) (\<lambda>_. True)" for n e l h
  proof (rule gives_bind [OF gives_domain])
    show "new_profile user n e l = Inr p \<Longrightarrow> sound_profile p" for p by (drule new_profile_parts) (auto simp: sound_profile_def)
    show "sound_profile p \<Longrightarrow> user_gives pg ds ars (and_then (or_wrap h (save_profile p)) (\<lambda>_. ret p)) (\<lambda>_. True)" for p
      by (rule gives_then, rule gives_wrap, erule save_profile_gives, rule plain_simple)
  qed
  show ?thesis unfolding update_profile_def
    by (rule gives_then [OF get_profile_gives], rule gives_then, rule plain_simple, rule saves)
qed

lemma built: "build_address k user q = Inr a \<Longrightarrow> ua_line1 a \<noteq> [] \<and> ua_recipient_name a \<noteq> [] \<and> ua_recipient_phone a \<noteq> []"
  by (auto simp: build_address_def new_address_def lift_domain_def Let_def split: sum.splits if_splits)

lemma place_address_gives:
  assumes "ua_line1 a \<noteq> [] \<and> ua_recipient_name a \<noteq> [] \<and> ua_recipient_phone a \<noteq> []"
  shows "user_gives pg ds ars (place_address pg a) (sound_address pg ds ars)"
  unfolding place_address_def
  by (rule gives_bind [OF resolve_area_gives_in], simp add: users_ok_def, rule gives_simple)
    (use assms in \<open>auto simp: sound_address_def with_placement_def map_point_def area_is_def\<close>)

lemma add_address_gives: "user_gives pg ds ars (add_address pg user q) (\<lambda>_. True)"
  unfolding add_address_def
  by (rule gives_bind [OF gives_wrap [OF read_addresses_gives]], rule gives_if, rule plain_simple, rule gives_then, rule gives_simple,
      rule gives_bind [OF gives_lifted], drule built, rule gives_bind, erule place_address_gives, unfold Let_def,
      rule gives_then, rule store_gives, simp add: promote_sound, rule plain_simple)

lemma update_address_gives: "user_gives pg ds ars (update_address pg user k q) (\<lambda>_. True)"
  unfolding update_address_def
proof (rule gives_bind [OF gives_wrap [OF read_addresses_gives]])
  fix existing assume existing: "sound_list pg ds ars existing"
  have put: "sound_list pg ds ars (existing[i := a])" if "sound_address pg ds ars a" for i a
    using existing that set_update_subset_insert [of existing i a] by (auto simp: list_all_iff)
  have "user_gives pg ds ars (and_then (lift_err (build_address k user q)) (\<lambda>a.
         and_then (place_address pg a) (\<lambda>p.
           let placed = p\<lparr>ua_default := (ua_default (existing ! i) \<or> ar_make_default q)\<rparr>;
               updated = existing[i := placed]
           in and_then (store_addresses user (if ua_default placed then promote updated k else updated)) (\<lambda>_. ret placed)))) (\<lambda>_. True)" for i
    by (rule gives_bind [OF gives_lifted], drule built, rule gives_bind, erule place_address_gives, unfold Let_def,
        rule gives_then, rule store_gives, simp add: promote_sound put, rule plain_simple)
  then show "user_gives pg ds ars (case address_index existing k of None \<Rightarrow> raise_err (address_not_found k)
     | Some i \<Rightarrow> and_then (lift_err (build_address k user q)) (\<lambda>a.
         and_then (place_address pg a) (\<lambda>p.
           let placed = p\<lparr>ua_default := (ua_default (existing ! i) \<or> ar_make_default q)\<rparr>;
               updated = existing[i := placed]
           in and_then (store_addresses user (if ua_default placed then promote updated k else updated)) (\<lambda>_. ret placed)))) (\<lambda>_. True)"
    by (auto intro: plain_simple split: option.split)
qed

lemma remove_address_gives: "user_gives pg ds ars (remove_address user k) (\<lambda>_. True)"
  unfolding remove_address_def Let_def when_op_def
  by (rule gives_bind [OF gives_wrap [OF read_addresses_gives]], rule gives_if, rule plain_simple, rule gives_then, rule gives_wrap,
      rule delete_address_gives, rule gives_if, rule store_gives, simp only: choose_sound, simp add: list_all_iff,
      rule plain_simple)

lemma set_default_gives: "user_gives pg ds ars (set_default_address user k) (\<lambda>_. True)"
  unfolding set_default_address_def
proof (rule gives_bind [OF gives_wrap [OF read_addresses_gives]])
  fix existing assume "sound_list pg ds ars existing"
  then have "user_gives pg ds ars (and_then (store_addresses user (promote existing k)) (\<lambda>_. ret (promote existing k ! i))) (\<lambda>_. True)" for i
    by (intro gives_then [OF store_gives] plain_simple) (simp add: promote_sound)
  then show "user_gives pg ds ars (case address_index existing k of None \<Rightarrow> raise_err (address_not_found k)
      | Some i \<Rightarrow> and_then (store_addresses user (promote existing k)) (\<lambda>_. ret (promote existing k ! i))) (\<lambda>_. True)"
    by (auto intro: plain_simple split: option.split)
qed

lemma default_gives:
  "user_gives pg ds ars (default_address user) (\<lambda>a. ua_user_id a = user \<and> ua_default a \<and> sound_address pg ds ars a)"
  unfolding default_address_def default_address_of_def
  by (rule gives_wrap, rule gives_read)
    (auto simp: users_ok_def rows_ok_def list_all_iff default_row_def find_Some_iff split: option.splits)

section \<open>Histories\<close>

datatype user_action =
    GetProfile string
  | UpdateProfile string profile_update
  | ListAddresses string
  | AddAddress string address_request
  | UpdateAddress string string address_request
  | RemoveAddress string string
  | SetDefaultAddress string string
  | DefaultAddress string

fun run_user :: "postgis \<Rightarrow> user_action \<Rightarrow> ('z, unit) user_op" where
  "run_user pg (GetProfile user) = ignoring (get_profile user)"
| "run_user pg (UpdateProfile user q) = ignoring (update_profile user q)"
| "run_user pg (ListAddresses user) = ignoring (list_addresses user)"
| "run_user pg (AddAddress user q) = ignoring (add_address pg user q)"
| "run_user pg (UpdateAddress user k q) = ignoring (update_address pg user k q)"
| "run_user pg (RemoveAddress user k) = ignoring (remove_address user k)"
| "run_user pg (SetDefaultAddress user k) = ignoring (set_default_address user k)"
| "run_user pg (DefaultAddress user) = ignoring (default_address user)"

lemma list_addresses_gives: "user_gives pg ds ars (list_addresses user) (\<lambda>_. True)"
  unfolding list_addresses_def by (rule gives_any, rule gives_wrap, rule read_addresses_gives)

lemma run_user_gives: "user_gives pg ds ars (run_user pg q) (\<lambda>_. True)"
  by (cases q) (simp_all add: gives_ignoring [OF get_profile_gives] gives_ignoring [OF update_profile_gives]
      gives_ignoring [OF list_addresses_gives] gives_ignoring [OF add_address_gives] gives_ignoring [OF update_address_gives]
      gives_ignoring [OF remove_address_gives] gives_ignoring [OF set_default_gives] gives_ignoring [OF default_gives])

text \<open>The shops' places in geo's index change as they may.\<close>

inductive user_past :: "postgis \<Rightarrow> ('z user_tables_scheme \<Rightarrow> 'z user_tables_scheme) \<Rightarrow> bool" for pg where
  user_nothing: "user_past pg (\<lambda>s. s)"
| user_later: "user_past pg f \<Longrightarrow> user_past pg g \<Longrightarrow> user_past pg (\<lambda>s. g (f s))"
| user_elsewhere: "(\<And>s. gt_divisions (f s) = gt_divisions s \<and> gt_areas (f s) = gt_areas s \<and> ut_profiles (f s) = ut_profiles s \<and>
    ut_addresses (f s) = ut_addresses s) \<Longrightarrow> user_past pg f"
| user_request: "(\<And>n. user_past pg (w_others w n)) \<Longrightarrow> user_past pg (\<lambda>s. w_store (snd (run_user pg q (w\<lparr>w_store := s\<rparr>))))"

definition no_users :: "division_row list \<Rightarrow> area_row list \<Rightarrow> user_tables" where
  "no_users ds ars = \<lparr>gt_divisions = ds, gt_areas = ars, gt_locations = [], ut_profiles = [], ut_addresses = []\<rparr>"

definition users_reachable :: "postgis \<Rightarrow> division_row list \<Rightarrow> area_row list \<Rightarrow> user_tables \<Rightarrow> bool" where
  "users_reachable pg ds ars s \<longleftrightarrow> (\<exists>f. user_past pg f \<and> s = f (no_users ds ars))"

lemma user_past_keeps: "user_past pg f \<Longrightarrow> preserves (users_ok pg ds ars) s (f s)"
proof (induction arbitrary: s rule: user_past.induct)
  case user_nothing
  then show ?case by (rule inv.refl)
next
  case (user_later f g)
  show ?case by (rule inv.trans [OF user_later.IH])
next
  case (user_elsewhere f)
  then show ?case by (simp add: preserves_def users_ok_def)
next
  case (user_request w q)
  let ?w = "w\<lparr>w_store := s\<rparr>"
  have w: "relies (preserves (users_ok pg ds ars)) ?w" using user_request by (simp add: relies_def)
  obtain r v where run: "run_user pg q ?w = (r, v)" by fastforce
  have "users_ok pg ds ars (w_store ?w) \<Longrightarrow> users_ok pg ds ars (w_store v)"
    using gives_run [OF run_user_gives w _ run] by blast
  then show ?case by (simp add: run preserves_def)
qed

lemma reachable_users_ok: "users_reachable pg ds ars s \<Longrightarrow> users_ok pg ds ars s"
proof -
  assume "users_reachable pg ds ars s"
  then obtain f where f: "user_past pg f" "s = f (no_users ds ars)" by (auto simp: users_reachable_def)
  have "users_ok pg ds ars (no_users ds ars)" by (simp add: users_ok_def rows_ok_def one_default_each_def no_users_def)
  then show ?thesis using user_past_keeps [OF f(1), of ds ars "no_users ds ars"] f(2) by (simp add: preserves_def)
qed

lemma user_relies: "(\<And>n. user_past pg (w_others w n)) \<Longrightarrow> relies (preserves (users_ok pg ds ars)) w"
  by (simp add: relies_def user_past_keeps)

lemma not_missing: "\<not> is_sentinel storage_fault (user_err_text ErrProfileNotFound)"
  by code_simp

lemma sound_scan: "sound_profile p \<Longrightarrow> scan_profile p = Inr p"
proof -
  assume p: "sound_profile p"
  then have "\<exists>l. parse_language (if pf_language p = [] then language_bengali else pf_language p) = Inr l \<and> pf_language p = l"
    by (auto simp: sound_profile_def new_profile_def Let_def rbind_Inr_iff split: if_split_asm dest!: arg_cong [where f = pf_language])
  then have "parse_language (pf_language p) = Inr (pf_language p)" using parse_language_is by (metis Inr_inject)
  then show ?thesis using p by (simp add: scan_profile_def sound_profile_def lift_domain_def)
qed

lemma empty_profile:
  "trim_space user \<noteq> [] \<Longrightarrow> new_profile user [] [] language_bengali = Inr \<lparr>pf_user_id = user, pf_name = [], pf_email = [], pf_language = language_bengali\<rparr>"
proof -
  have "parse_language language_bengali = Inr language_bengali" "language_bengali \<noteq> []" by code_simp+
  then show "trim_space user \<noteq> [] \<Longrightarrow> ?thesis" by (simp add: new_profile_def rune_count.simps to_lower_def)
qed

section \<open>Properties\<close>

text \<open>C17: In every history a customer has one default address at most, however requests interleave; every
  address names who receives it, with a number to call, and lies in the division and the area in which geo places its pin; and
  the default address that checkout is given is the customer's own.\<close>

theorem address_book_in_order:
  assumes "users_reachable pg ds ars (w_store w)" "\<And>n. user_past pg (w_others w n)" "default_address user w = (Inr a, v)"
  shows "distinct (map (\<lambda>r. ua_user_id (ur_address r)) (filter (\<lambda>r. ua_default (ur_address r)) (ut_addresses (w_store w)))) \<and>
    (\<forall>r\<in>set (ut_addresses (w_store w)). first_division pg ds (map_point (ua_pin (ur_address r))) = Some (ap_division_code (ua_place (ur_address r))) \<and>
       ua_recipient_name (ur_address r) \<noteq> [] \<and> ua_recipient_phone (ur_address r) \<noteq> [] \<and>
       (\<exists>k. first_area pg ars (map_point (ua_pin (ur_address r))) = Some k \<and> ap_area_code (ua_place (ur_address r)) = aw_code k)) \<and>
    ua_user_id a = user \<and> ua_recipient_phone a \<noteq> [] \<and>
    (\<exists>r. first_area pg ars (map_point (ua_pin a)) = Some r \<and> ap_area_code (ua_place a) = aw_code r)"
proof -
  have "sound_address pg ds ars a \<and> ua_user_id a = user"
    using gives_run [OF default_gives user_relies [OF assms(2)] reachable_users_ok [OF assms(1)] assms(3)] by blast
  then show ?thesis
    using reachable_users_ok [OF assms(1)]
    by (auto simp: users_ok_def rows_ok_def one_default_each_def list_all_iff sound_address_def area_is_def)
qed

text \<open>In every history the profile of a customer can be read: the only failure is a database that could not be
  reached, answered as temporary, and what is answered is what would be stored again unchanged.\<close>

theorem profile_always_readable:
  assumes "users_reachable pg ds ars (w_store w)" "\<And>n. user_past pg (w_others w n)" "trim_space user \<noteq> []"
    and "get_profile user w = (r, v)"
  shows "(case r of Inl e \<Rightarrow> w_fault w (w_calls w) \<and> e = profile_unavailable storage_fault
     | Inr p \<Rightarrow> pf_user_id p = user \<and> new_profile user (pf_name p) (pf_email p) (pf_language p) = Inr p)"
proof -
  let ?s = "w_others w (w_calls w) (w_store w)"
  have "users_ok pg ds ars ?s"
    using user_past_keeps [OF assms(2)] reachable_users_ok [OF assms(1)] by (auto simp: preserves_def)
  then have sound: "sound_profile p" if "find (\<lambda>r. pf_user_id r = user) (ut_profiles ?s) = Some p" for p
    using that find_Some_mem by (fastforce simp: users_ok_def list_all_iff)
  have fresh: "\<exists>p. new_profile user [] [] language_bengali = Inr p"
    using empty_profile [OF assms(3)] by blast
  show ?thesis
  proof (cases "w_fault w (w_calls w)")
    case True
    then show ?thesis using assms(4) not_missing
      by (auto simp: get_profile_def stored_profile_def and_then_def attempt_def db_read_def db_call_def Let_def raise_err_def)
  next
    case False
    show ?thesis
    proof (cases "find (\<lambda>r. pf_user_id r = user) (ut_profiles ?s)")
      case None
      have "is_sentinel (user_sentinel ErrProfileNotFound) (user_err_text ErrProfileNotFound)" by code_simp
      moreover obtain p where p: "new_profile user [] [] language_bengali = Inr p" using fresh by blast
      moreover have "pf_user_id p = user" "new_profile user (pf_name p) (pf_email p) (pf_language p) = Inr p"
        using new_profile_parts [OF p] by auto
      ultimately show ?thesis using False None assms(4)
        by (auto simp: get_profile_def stored_profile_def and_then_def attempt_def db_read_def db_call_def Let_def lift_err_def lift_domain_def)
    next
      case (Some p)
      then have "pf_user_id p = user" "sound_profile p" using sound by (auto simp: find_Some_iff)
      then show ?thesis using False Some assms(4) sound_scan
        by (auto simp: get_profile_def stored_profile_def and_then_def attempt_def db_read_def db_call_def Let_def ret_def sound_profile_def)
    qed
  qed
qed

text \<open>
  A customer in Dhaka writes down an address; the theorems of \<open>User_Safety\<close> are applied to it.
\<close>

definition ward :: area_row where
  "ward = \<lparr>aw_code = ''DHK'', aw_name = ''Ward'', aw_district = ''DHK'', aw_division = ''DHA'', aw_centre = \<lparr>co_lat = Fin 24, co_lng = Fin 91\<rparr>,
     aw_boundary = dhaka_ring\<rparr>"

definition home_form :: address_request where
  "home_form = \<lparr>ar_label = ''Home'', ar_recipient_name = ''Rina'', ar_recipient_phone = ''01712345678'', ar_line1 = ''Road 2'', ar_line2 = [],
     ar_instructions = [], ar_lat = Fin 24, ar_lng = Fin 91, ar_make_default = False\<rparr>"

definition home :: user_address where
  "home = \<lparr>ua_id = ''adr_Y7FKPX6A000000000000'', ua_user_id = ''usr'', ua_label = ''Home'', ua_recipient_name = ''Rina'',
     ua_recipient_phone = ''01712345678'', ua_line1 = ''Road 2'', ua_line2 = [], ua_instructions = [],
     ua_pin = \<lparr>mp_lat = Fin 24, mp_lng = Fin 91\<rparr>,
     ua_place = \<lparr>ap_area_code = ''DHK'', ap_area_name = ''Ward'', ap_district_code = ''DHK'', ap_division_code = ''DHA''\<rparr>, ua_default = True\<rparr>"

definition at_home :: user_tables where
  "at_home = (no_users [dhaka_row] [ward])\<lparr>ut_addresses := [\<lparr>ur_address = home, ur_created = 0\<rparr>]\<rparr>"

lemma home_reads:
  "new_id ''adr'' (unix_milli 0) an_entropy = ''adr_Y7FKPX6A000000000000''"
  "build_address ''adr_Y7FKPX6A000000000000'' ''usr'' home_form = Inr (home\<lparr>ua_place := unplaced, ua_default := False\<rparr>)"
  unfolding an_entropy_def by code_simp+

lemma ward_reads: "new_area ''DHK'' ''Ward'' ''DHK'' ''DHA'' \<lparr>co_lat = Fin 24, co_lng = Fin 91\<rparr> =
    Inr \<lparr>ar_code = ''DHK'', ar_name = ''Ward'', ar_district = ''DHK'', ar_division = ''DHA'', ar_centre = \<lparr>co_lat = Fin 24, co_lng = Fin 91\<rparr>\<rparr>"
  by code_simp

lemma places_home:
  assumes "gt_divisions s = [dhaka_row]" "gt_areas s = [ward]" "ua_pin a = \<lparr>mp_lat = Fin 24, mp_lng = Fin 91\<rparr>"
  shows "\<exists>k. place_address small_country a (quiet bytes s c r d) = (Inr (a\<lparr>ua_place := ua_place home\<rparr>), quiet bytes s k r d)"
  using assms
  by (simp add: place_address_def resolve_area_def to_coordinate_def dhaka_point place_area_def division_containing_def area_containing_def
      dhaka_row_def ward_def dhaka_reads ward_reads in_dhaka geo_area_of_def with_placement_def home_def run_ops run_quiet
      cong: next_op_cong wrap_result_cong) blast

lemma written: "w_store (snd (run_user small_country (AddAddress ''usr'' home_form) (quiet an_entropy (no_users [dhaka_row] [ward]) 0 0 0))) = at_home"
proof -
  have parts: "ua_pin (home\<lparr>ua_place := p, ua_default := b\<rparr>) = \<lparr>mp_lat = Fin 24, mp_lng = Fin 91\<rparr>" for p b
    by (simp add: home_def)
  have nobody: "gt_divisions (no_users ds ars) = ds" "gt_areas (no_users ds ars) = ars" "ut_addresses (no_users ds ars) = []" for ds ars
    by (simp_all add: no_users_def)
  have "\<exists>k. place_address small_country (home\<lparr>ua_place := unplaced, ua_default := False\<rparr>)
      (quiet an_entropy (no_users [dhaka_row] [ward]) (Suc 0) (Suc 0) (Suc 0)) =
      (Inr (home\<lparr>ua_place := unplaced, ua_default := False, ua_place := ua_place home\<rparr>), quiet an_entropy (no_users [dhaka_row] [ward]) k (Suc 0) (Suc 0))"
    by (rule places_home) (simp_all only: parts nobody)
  then obtain k where k: "place_address small_country (home\<lparr>ua_place := unplaced, ua_default := False\<rparr>)
      (quiet an_entropy (no_users [dhaka_row] [ward]) (Suc 0) (Suc 0) (Suc 0)) =
      (Inr (home\<lparr>ua_default := False\<rparr>), quiet an_entropy (no_users [dhaka_row] [ward]) k (Suc 0) (Suc 0))"
    by auto
  have home: "home\<lparr>ua_default := True\<rparr> = home" "home\<lparr>ua_user_id := ''usr''\<rparr> = home" "ua_default home" by (simp_all add: home_def)
  show ?thesis
    by (simp add: add_address_def addresses_of_def addresses_in_def nobody home_reads k promote_def store_addresses_def save_addresses_def
        choose_default_def clear_defaults_def put_address_def one_default_each_def home max_addresses_per_user_def run_ops run_quiet
        Let_def at_home_def cong: next_op_cong wrap_result_cong)
qed

lemma at_home_reachable: "users_reachable small_country [dhaka_row] [ward] at_home"
proof -
  let ?w = "quiet an_entropy (no_users [dhaka_row] [ward]) 0 0 0"
  have "user_past small_country (\<lambda>u. w_store (snd (run_user small_country (AddAddress ''usr'' home_form) (?w\<lparr>w_store := u\<rparr>))))"
    by (rule user_request) (simp add: quiet_def user_nothing)
  moreover have "?w\<lparr>w_store := no_users [dhaka_row] [ward]\<rparr> = ?w" by (simp add: quiet_def)
  ultimately show ?thesis unfolding users_reachable_def using written by metis
qed

section \<open>Witnesses\<close>

theorem address_book_in_order_witness:
  "\<exists>(a :: user_address) v. default_address ''usr'' (quiet an_entropy at_home 0 0 0) = (Inr a, v) \<and> ua_user_id a = ''usr'' \<and>
     ap_area_code (ua_place a) = ''DHK''"
proof -
  have reach: "users_reachable small_country [dhaka_row] [ward] (w_store (quiet an_entropy at_home 0 0 0))"
    using at_home_reachable by (simp add: run_quiet)
  have calm: "user_past small_country (w_others (quiet an_entropy at_home 0 0 0) n)" for n
    by (simp add: quiet_def user_nothing)
  have run: "default_address ''usr'' (quiet an_entropy at_home 0 0 0) = (Inr home, quiet an_entropy at_home (Suc 0) 0 0)"
    by (simp add: default_address_def default_address_of_def at_home_def default_row_def home_def run_ops run_quiet)
  have "ap_area_code (ua_place home) = ''DHK''" by (simp add: home_def)
  then show ?thesis using address_book_in_order [OF reach calm run] run by blast
qed

theorem profile_always_readable_witness:
  "\<exists>p v. get_profile ''usr'' (quiet an_entropy at_home 0 0 0) = (Inr p, v) \<and>
     new_profile ''usr'' (pf_name p) (pf_email p) (pf_language p) = Inr p"
proof -
  have reach: "users_reachable small_country [dhaka_row] [ward] (w_store (quiet an_entropy at_home 0 0 0))"
    using at_home_reachable by (simp add: run_quiet)
  have calm: "user_past small_country (w_others (quiet an_entropy at_home 0 0 0) n)" for n
    by (simp add: quiet_def user_nothing)
  have user: "trim_space ''usr'' \<noteq> []" by code_simp
  have missing: "is_sentinel (user_sentinel ErrProfileNotFound) ''profile not found''" by code_simp
  obtain p v where run: "get_profile ''usr'' (quiet an_entropy at_home 0 0 0) = (Inr p, v)"
    using empty_profile [OF user] missing
    by (simp add: get_profile_def stored_profile_def at_home_def no_users_def run_ops run_quiet lift_domain_def)
  then show ?thesis using profile_always_readable [OF reach calm user run] by auto
qed

end
