(* ===== verification/Tracking_App.thy ===== *)
theory Tracking_App
  imports Dispatch_App Money Payment_Cash
begin

text \<open>
  \<open>modules/tracking\<close>: one moment of a delivery, who may see it, and the stream of moments that
  \<open>transport/http\<close> keeps sending until there is nothing left to watch.
\<close>

section \<open>One moment\<close>

record watched_partner =
  wp_id :: string
  wp_name :: string
  wp_phone :: string
  wp_vehicle :: string
  wp_lat :: f64
  wp_lng :: f64

record snapshot =
  ss_order_id :: string
  ss_status :: order_status
  ss_status_label :: string
  ss_live :: bool
  ss_partner :: "watched_partner option"
  ss_updated_at :: instant

definition snapshot_changed :: "snapshot \<Rightarrow> snapshot \<Rightarrow> bool" where
  "snapshot_changed s prev =
     (if ss_status s \<noteq> ss_status prev then True
      else case (ss_partner s, ss_partner prev) of
        (None, None) \<Rightarrow> False
      | (Some p, Some q) \<Rightarrow> \<not> feq (wp_lat p) (wp_lat q) \<or> \<not> feq (wp_lng p) (wp_lng q)
      | _ \<Rightarrow> True)"

definition bn_waiting_payment :: string where
  "bn_waiting_payment = utf8 [0x09AA, 0x09C7, 0x09AE, 0x09C7, 0x09A8, 0x09CD, 0x099F, 0x09C7, 0x09B0, 0x0020, 0x0985, 0x09AA, 0x09C7, 0x0995,
     0x09CD, 0x09B7, 0x09BE, 0x09AF, 0x09BC]"

definition bn_sent :: string where
  "bn_sent = utf8 [0x09A6, 0x09CB, 0x0995, 0x09BE, 0x09A8, 0x09C7, 0x0020, 0x09AA, 0x09BE, 0x09A0, 0x09BE, 0x09A8, 0x09CB, 0x0020,
     0x09B9, 0x09AF, 0x09BC, 0x09C7, 0x099B, 0x09C7]"

definition bn_shop_accepted :: string where
  "bn_shop_accepted = utf8 [0x09A6, 0x09CB, 0x0995, 0x09BE, 0x09A8, 0x0020, 0x0985, 0x09B0, 0x09CD, 0x09A1, 0x09BE, 0x09B0, 0x0020, 0x09A8,
     0x09BF, 0x09AF, 0x09BC, 0x09C7, 0x099B, 0x09C7]"

definition bn_preparing :: string where
  "bn_preparing = utf8 [0x09A4, 0x09C8, 0x09B0, 0x09BF, 0x0020, 0x09B9, 0x099A, 0x09CD, 0x099B, 0x09C7]"

definition bn_waiting_rider :: string where
  "bn_waiting_rider = utf8 [0x09B0, 0x09BE, 0x0987, 0x09A1, 0x09BE, 0x09B0, 0x09C7, 0x09B0, 0x0020, 0x0985, 0x09AA, 0x09C7, 0x0995, 0x09CD,
     0x09B7, 0x09BE, 0x09AF, 0x09BC]"

definition bn_on_the_way :: string where
  "bn_on_the_way = utf8 [0x09AA, 0x09A5, 0x09C7, 0x0020, 0x0986, 0x099B, 0x09C7]"

definition bn_delivered :: string where
  "bn_delivered = utf8 [0x09AA, 0x09CC, 0x0981, 0x099B, 0x09C7, 0x0020, 0x09A6, 0x09C7, 0x0993, 0x09AF, 0x09BC, 0x09BE, 0x0020, 0x09B9,
     0x09AF, 0x09BC, 0x09C7, 0x099B, 0x09C7]"

definition bn_cancelled :: string where
  "bn_cancelled = utf8 [0x09AC, 0x09BE, 0x09A4, 0x09BF, 0x09B2, 0x0020, 0x0995, 0x09B0, 0x09BE, 0x0020, 0x09B9, 0x09AF, 0x09BC, 0x09C7,
     0x099B, 0x09C7]"

definition bn_shop_could_not :: string where
  "bn_shop_could_not = utf8 [0x09A6, 0x09CB, 0x0995, 0x09BE, 0x09A8, 0x0020, 0x09A8, 0x09BF, 0x09A4, 0x09C7, 0x0020, 0x09AA, 0x09BE, 0x09B0,
     0x09C7, 0x09A8, 0x09BF]"

definition bn_not_delivered :: string where
  "bn_not_delivered = utf8 [0x09AA, 0x09CC, 0x0981, 0x099B, 0x09C7, 0x0020, 0x09A6, 0x09C7, 0x0993, 0x09AF, 0x09BC, 0x09BE, 0x0020, 0x09AF,
     0x09BE, 0x09AF, 0x09BC, 0x09A8, 0x09BF]"


fun watched_label :: "order_status \<Rightarrow> string \<Rightarrow> string" where
  "watched_label StatusPendingPayment lang = (if bengali lang then bn_waiting_payment else ''Waiting for payment'')"
| "watched_label StatusPlaced lang = (if bengali lang then bn_sent else ''Sent to the shop'')"
| "watched_label StatusAccepted lang = (if bengali lang then bn_shop_accepted else ''The shop has accepted'')"
| "watched_label StatusPreparing lang = (if bengali lang then bn_preparing else ''Being prepared'')"
| "watched_label StatusReady lang = (if bengali lang then bn_waiting_rider else ''Waiting for a rider'')"
| "watched_label StatusPickedUp lang = (if bengali lang then bn_on_the_way else ''On the way'')"
| "watched_label StatusDelivered lang = (if bengali lang then bn_delivered else ''Delivered'')"
| "watched_label StatusCancelled lang = (if bengali lang then bn_cancelled else ''Cancelled'')"
| "watched_label StatusRejected lang = (if bengali lang then bn_shop_could_not else ''The shop could not take it'')"
| "watched_label _ lang = (if bengali lang then bn_not_delivered else ''Could not be delivered'')"

definition tracking_not_found :: error where
  "tracking_not_found = new_error KindNotFound ''order_not_found'' ''We could not find that order.''"

definition tracking_storage_error :: "error \<Rightarrow> error" where
  "tracking_storage_error e = wrap e KindUnavailable ''tracking_unavailable'' ''We could not reach tracking just now. Please try again.''"

definition tracking_not_found_or :: "error \<Rightarrow> error" where
  "tracking_not_found_or e = (if is_kind (Some e) KindNotFound then tracking_not_found else tracking_storage_error e)"

text \<open>The rider is shown while the job is live.\<close>

definition watched_partner_of :: "job_contract option \<Rightarrow> watched_partner option" where
  "watched_partner_of found = (case found of None \<Rightarrow> None
     | Some c \<Rightarrow> if jc_live c
         then case jc_partner c of None \<Rightarrow> None
           | Some (pid, name, phone, vehicle, lat, lng) \<Rightarrow> if pid = [] then None
               else Some \<lparr>wp_id = pid, wp_name = name, wp_phone = phone, wp_vehicle = vehicle, wp_lat = lat, wp_lng = lng\<rparr>
         else None)"

definition build_snapshot :: "told_order \<Rightarrow> job_contract option \<Rightarrow> string \<Rightarrow> snapshot" where
  "build_snapshot x found lang = \<lparr>ss_order_id = to_id x, ss_status = to_status x, ss_status_label = watched_label (to_status x) lang,
     ss_live = to_live x, ss_partner = watched_partner_of found, ss_updated_at = to_updated_at x\<rparr>"

definition job_partner_id :: "job_contract option \<Rightarrow> string" where
  "job_partner_id found = (case found of None \<Rightarrow> [] | Some c \<Rightarrow> (case jc_partner c of None \<Rightarrow> [] | Some p \<Rightarrow> fst p))"

definition snapshot_for :: "string \<Rightarrow> string \<Rightarrow> string \<Rightarrow> (store, snapshot) op" where
  "snapshot_for oid who lang =
     and_then (or_wrap tracking_not_found_or (order_told oid)) (\<lambda>x.
     and_then (or_wrap tracking_storage_error (job_told oid)) (\<lambda>found.
       if to_customer_id x = who then ret (build_snapshot x found lang)
       else and_then (or_wrap tracking_storage_error (partner_id_of_user who)) (\<lambda>mine. case mine of
              None \<Rightarrow> raise_err tracking_not_found
            | Some pid \<Rightarrow> if found = None \<or> job_partner_id found = [] \<or> job_partner_id found \<noteq> pid
                then raise_err tracking_not_found else ret (build_snapshot x found lang))))"

definition snapshot_unscoped :: "string \<Rightarrow> string \<Rightarrow> (store, snapshot) op" where
  "snapshot_unscoped oid lang =
     and_then (or_wrap tracking_not_found_or (order_told oid)) (\<lambda>x.
     and_then (or_wrap tracking_storage_error (job_told oid)) (\<lambda>found. ret (build_snapshot x found lang)))"

section \<open>The stream\<close>

text \<open>What wakes the loop: its ticker, or the client that has gone.\<close>

datatype stream_event = Ticked | ClientGone

text \<open>The last moment that was read, the frames sent so far and whether the stream is over.\<close>

fun stream_on :: "string \<Rightarrow> string \<Rightarrow> string \<Rightarrow> stream_event list \<Rightarrow> snapshot \<Rightarrow> snapshot list \<Rightarrow> (store, snapshot \<times> snapshot list \<times> bool) op" where
  "stream_on oid who lang [] snap sent = ret (snap, sent, False)"
| "stream_on oid who lang (ClientGone # es) snap sent = ret (snap, sent, True)"
| "stream_on oid who lang (Ticked # es) snap sent =
     and_then (attempt (snapshot_for oid who lang)) (\<lambda>r. case r of
       Inl _ \<Rightarrow> ret (snap, sent, True)
     | Inr new \<Rightarrow>
         let frames = (if snapshot_changed new snap then sent @ [new] else sent)
         in if ss_live new then stream_on oid who lang es new frames else ret (new, frames, True))"

text \<open>\<open>can_flush\<close>: whether the connection can be written to piece by piece.\<close>

definition stream :: "bool \<Rightarrow> string \<Rightarrow> string \<Rightarrow> string \<Rightarrow> stream_event list \<Rightarrow> (store, snapshot \<times> snapshot list \<times> bool) op" where
  "stream can_flush oid who lang es =
     (if who = [] then raise_err (new_error KindUnauthorized ''unauthenticated'' ''Please sign in to track your order.'')
      else and_then (snapshot_for oid who lang) (\<lambda>snap.
        if \<not> can_flush then raise_err (new_error KindUnavailable ''streaming_unavailable''
            ''We could not open a live connection just now. Please try again.'')
        else if ss_live snap then stream_on oid who lang es snap [snap] else ret (snap, [snap], True)))"

section \<open>What other modules are told\<close>

text \<open>The contract's snapshot is without the time.\<close>

record told_snapshot =
  ts_order_id :: string
  ts_status :: order_status
  ts_status_label :: string
  ts_live :: bool
  ts_partner :: "watched_partner option"

definition snapshot_told :: "string \<Rightarrow> string \<Rightarrow> (store, told_snapshot) op" where
  "snapshot_told oid lang = and_then (snapshot_unscoped oid lang) (\<lambda>s. ret \<lparr>ts_order_id = ss_order_id s, ts_status = ss_status s,
     ts_status_label = ss_status_label s, ts_live = ss_live s, ts_partner = ss_partner s\<rparr>)"

end
