(* ===== verification/Tracking_Safety.thy ===== *)
theory Tracking_Safety
  imports Tracking_App Requests Example_Day
begin

text \<open>
  What the stream of a delivery owes the one who watches it: it is over one reading after the
  order is, and nobody but the parties of the order is shown anything.
\<close>

lemma safeD:
  assumes "safe K m Q" "relies promise w" "store_ok (w_store w)" "K (w_store w)" "m w = (r, v)"
  shows "relies promise v" "store_ok (w_store v)" "K (w_store v)" "r = Inr x \<Longrightarrow> Q x (w_store v)"
  using holdsD [OF assms(1) [unfolded safe_def] assms(2) _ _ assms(5)] assms(3,4) by auto

lemma history_relies: "(\<And>n. history sv pv (w_others w n)) \<Longrightarrow> relies promise w"
  using history_promise by (fastforce simp: relies_def promise_def)

section \<open>The stream, event by event\<close>

lemma stream_on_shape:
  "stream_on oid who lang es snap sent w = (r, v) \<Longrightarrow> \<exists>last_read frames over. r = Inr (last_read, frames, over)"
proof (induction oid who lang es snap sent arbitrary: w rule: stream_on.induct)
  case (3 oid who lang es snap sent)
  obtain r' u where read: "snapshot_for oid who lang w = (r', u)" by fastforce
  show ?case
    using 3 read by (cases r') (auto simp: and_then_def attempt_def ret_def Let_def split: if_splits)
qed (auto simp: ret_def)

lemma stream_on_tick:
  assumes "snapshot_for oid who lang w = (Inr new, u)"
  shows "stream_on oid who lang (Ticked # es) snap sent w =
    (let frames = if snapshot_changed new snap then sent @ [new] else sent
     in if ss_live new then stream_on oid who lang es new frames u else (Inr (new, frames, True), u))"
  using assms by (simp add: and_then_def attempt_def ret_def Let_def)

lemma stream_on_lost:
  assumes "snapshot_for oid who lang w = (Inl e, u)"
  shows "stream_on oid who lang (Ticked # es) snap sent w = (Inr (snap, sent, True), u)"
  using assms by (simp add: and_then_def attempt_def ret_def)

lemma stream_on_append:
  "stream_on oid who lang es snap sent w = (Inr (s', frames, over), v) \<Longrightarrow>
     stream_on oid who lang (es @ fs) snap sent w =
       (if over then (Inr (s', frames, True), v) else stream_on oid who lang fs s' frames v)"
proof (induction es arbitrary: snap sent w)
  case (Cons a es)
  show ?case
  proof (cases a)
    case Ticked
    obtain r u where read: "snapshot_for oid who lang w = (r, u)" by fastforce
    show ?thesis
    proof (cases r)
      case (Inl e)
      then show ?thesis using Cons.prems Ticked read by (simp add: stream_on_lost del: stream_on.simps)
    next
      case (Inr new)
      then show ?thesis using Cons Ticked read
        by (auto simp: stream_on_tick Let_def simp del: stream_on.simps(3) split: if_splits)
    qed
  qed (use Cons.prems in \<open>simp add: ret_def\<close>)
qed (simp add: ret_def)

text \<open>A stream that goes on shows the status of the last moment it read, and that moment was live.\<close>

definition up_to_date :: "snapshot \<Rightarrow> snapshot list \<Rightarrow> bool" where
  "up_to_date snap sent \<longleftrightarrow> sent \<noteq> [] \<and> ss_status (last sent) = ss_status snap \<and> order_is_live (ss_status snap)"

lemma snapshot_for_shape:
  assumes "snapshot_for oid who lang w = (Inr snap, v)"
  shows "ss_live snap = order_is_live (ss_status snap)"
  using assms
  by (auto simp: snapshot_for_def order_told_def and_then_def or_wrap_def ret_def raise_err_def build_snapshot_def
      told_order_of_def split: prod.splits sum.splits option.splits if_splits)

lemma stream_on_up_to_date:
  "stream_on oid who lang es snap sent w = (Inr (s', frames, False), v) \<Longrightarrow> up_to_date snap sent \<Longrightarrow> up_to_date s' frames"
proof (induction oid who lang es snap sent arbitrary: w rule: stream_on.induct)
  case (3 oid who lang es snap sent)
  obtain r u where read: "snapshot_for oid who lang w = (r, u)" by fastforce
  then obtain new where r: "r = Inr new" "ss_live new"
    using 3(2) by (cases r) (auto simp: and_then_def attempt_def ret_def Let_def split: if_splits)
  let ?frames = "if snapshot_changed new snap then sent @ [new] else sent"
  have "up_to_date new ?frames"
    using 3(3) r snapshot_for_shape [of oid who lang w new u] read
    by (auto simp: up_to_date_def snapshot_changed_def)
  then show ?case
    using 3 read r by (auto simp: and_then_def attempt_def ret_def Let_def)
qed (auto simp: ret_def)

section \<open>A finished order\<close>

definition finished :: "string \<Rightarrow> order_status \<Rightarrow> store \<Rightarrow> bool" where
  "finished oid st s \<longleftrightarrow> order_terminal st \<and> (\<exists>x\<in>set (s_orders s). o_id x = oid \<and> o_status x = st)"

lemma moves_stuck: "order_moves\<^sup>*\<^sup>* a b \<Longrightarrow> order_terminal a \<Longrightarrow> b = a"
  by (induction rule: converse_rtranclp_induct) (auto simp: order_moves_terminal)

lemma lasting_finished [lasting_intros]: "lasting (finished oid st)"
  unfolding lasting_def finished_def
proof clarify
  fix s t x assume "evolves s t" "order_terminal (o_status x)" "x \<in> set (s_orders s)"
  moreover then obtain y where "y \<in> set (s_orders t)" "order_evolves x y" using order_row_mono by blast
  ultimately show "\<exists>y\<in>set (s_orders t). o_id y = o_id x \<and> o_status y = o_status x"
    using moves_stuck by (auto simp: order_evolves_def same_order_def)
qed

lemma safe_finished_status:
  assumes "lasting K" "\<And>s. K s \<Longrightarrow> finished oid st s"
  shows "safe K (order_by_id oid) (\<lambda>x s. o_status x = st)"
  unfolding order_by_id_def
proof (rule safe_bind [where M = "\<lambda>x s. o_status x = st"])
  show "safe K (db_read (\<lambda>s. case tbl_get o_id oid (s_orders s) of None \<Rightarrow> Inl order_not_found | Some x \<Rightarrow> Inr x))
      (\<lambda>x s. o_status x = st)"
  proof (rule safe_read [OF assms(1)])
    fix s x assume "store_ok s" "K s"
      and got: "(case tbl_get o_id oid (s_orders s) of None \<Rightarrow> Inl order_not_found | Some x \<Rightarrow> Inr x) = Inr x"
    then obtain y where "y \<in> set (s_orders s)" "o_id y = oid" "o_status y = st" "x \<in> set (s_orders s)" "o_id x = oid"
      "keyed o_id (s_orders s)"
      using assms(2) [of s] by (auto simp: finished_def store_ok_def orders_ok_def dest!: tbl_get_Some split: option.splits)
    then show "o_status x = st" using keyed_unique [of o_id "s_orders s" x y] by simp
  qed
  fix row
  have K: "lasting (\<lambda>s. K s \<and> o_status row = st)" by (intro lasting_intros assms)
  show "safe (\<lambda>s. K s \<and> o_status row = st)
      (and_then (lines_of oid) (\<lambda>ls. and_then (events_of oid) (\<lambda>es. ret (row\<lparr>o_lines := ls, o_events := es\<rparr>))))
      (\<lambda>x s. o_status x = st)"
    unfolding lines_of_def events_of_def
    by (rule safe_then, rule safe_any_read [OF K], rule safe_then, rule safe_any_read [OF K], rule safe_ret) auto
qed

lemma safe_job_told: "lasting K \<Longrightarrow> safe K (job_told oid) (\<lambda>_ _. True)"
  unfolding job_told_def
  by (rule safe_then [OF safe_wrap [OF safe_True [OF safe_job_for_order]]])
    (auto split: option.split intro!: safe_done safe_then [OF safe_job_to_contract])

lemma safe_partner_id_of_user: "lasting K \<Longrightarrow> safe K (partner_id_of_user u) (\<lambda>_ _. True)"
  unfolding partner_id_of_user_def
  by (rule safe_then [OF safe_wrap [OF safe_partner_of_user] safe_done])

lemma safe_finished_snapshot:
  assumes "lasting K" "\<And>s. K s \<Longrightarrow> finished oid st s"
  shows "safe K (snapshot_for oid who lang) (\<lambda>snap s. ss_status snap = st)"
  unfolding snapshot_for_def order_told_def
proof (rule safe_bind [where M = "\<lambda>(x :: told_order) s. to_status x = st"])
  show "safe K (or_wrap tracking_not_found_or (and_then (or_wrap order_not_found_or (order_by_id oid)) (\<lambda>x. ret (told_order_of x))))
      (\<lambda>(x :: told_order) s. to_status x = st)"
    by (rule safe_wrap, rule safe_bind [OF safe_wrap [OF safe_finished_status [OF assms(1)]]], erule assms(2), rule safe_ret)
      (simp add: told_order_of_def)
  fix x :: told_order
  have K: "lasting (\<lambda>s. K s \<and> to_status x = st)" by (intro lasting_intros assms)
  show "safe (\<lambda>s. K s \<and> to_status x = st) (and_then (or_wrap tracking_storage_error (job_told oid)) (\<lambda>found.
       if to_customer_id x = who then ret (build_snapshot x found lang)
       else and_then (or_wrap tracking_storage_error (partner_id_of_user who)) (\<lambda>mine. case mine of
              None \<Rightarrow> raise_err tracking_not_found
            | Some pid \<Rightarrow> if found = None \<or> job_partner_id found = [] \<or> job_partner_id found \<noteq> pid
                then raise_err tracking_not_found else ret (build_snapshot x found lang)))) (\<lambda>snap s. ss_status snap = st)"
    by (rule safe_then [OF safe_wrap [OF safe_job_told [OF K]]])
      (auto split: option.split simp: build_snapshot_def
        intro!: safe_ret safe_raise safe_then [OF safe_wrap [OF safe_partner_id_of_user [OF K]]])
qed

lemma safe_snapshot_for: "lasting K \<Longrightarrow> safe K (snapshot_for oid who lang) (\<lambda>_ _. True)"
  unfolding snapshot_for_def order_told_def
  by (intro safe_then [OF safe_wrap [OF safe_then [OF safe_wrap [OF safe_True [OF safe_order_by_id]] safe_done]]]
      safe_then [OF safe_wrap [OF safe_job_told]] safe_if safe_done safe_then [OF safe_wrap [OF safe_partner_id_of_user]])
    (auto split: option.split intro!: safe_raise safe_done)

lemma safe_stream_on: "lasting K \<Longrightarrow> safe K (stream_on oid who lang es snap sent) (\<lambda>_ _. True)"
proof (induction oid who lang es snap sent rule: stream_on.induct)
  case (3 oid who lang es snap sent)
  show ?case
    by simp (rule safe_then [OF safe_True [OF safe_attempt [OF safe_snapshot_for [OF 3(2)]]]],
      auto split: sum.split simp: Let_def intro!: safe_done 3)
qed (auto intro: safe_done)

lemma safe_stream: "lasting K \<Longrightarrow> safe K (stream can_flush oid who lang es) (\<lambda>_ _. True)"
  unfolding stream_def
  by (intro safe_if safe_raise safe_then [OF safe_snapshot_for] safe_done safe_stream_on)

section \<open>The parties of an order\<close>

text \<open>What a moment was read from.\<close>

lemma order_told_sees: "sees I L (order_told oid) (\<lambda>x. to_id x = oid \<and> (\<exists>s\<in>L. \<exists>y\<in>set (s_orders s). o_id y = oid \<and> o_customer_id y = to_customer_id x))"
proof -
  let ?Q = "\<lambda>x. o_id x = oid \<and> (\<exists>s\<in>L. \<exists>y\<in>set (s_orders s). o_id y = oid \<and> o_customer_id y = o_customer_id x)"
  have "sees I L (order_by_id oid) ?Q"
    unfolding order_by_id_def lines_of_def events_of_def
  proof (rule sees_bind [where M = ?Q])
    show "sees I L (db_read (\<lambda>s. case tbl_get o_id oid (s_orders s) of None \<Rightarrow> Inl order_not_found | Some x \<Rightarrow> Inr x)) ?Q"
    proof (rule sees_read)
      fix s x assume s: "s \<in> L" "(case tbl_get o_id oid (s_orders s) of None \<Rightarrow> Inl order_not_found | Some x \<Rightarrow> Inr x) = Inr x"
      then have "x \<in> set (s_orders s)" "o_id x = oid" by (auto dest!: tbl_get_Some split: option.splits)
      then show "?Q x" using s(1) by blast
    qed
    fix row assume "?Q row"
    then show "sees I L (and_then (db_read (\<lambda>s. Inr (case tbl_get o_id oid (s_orders s) of None \<Rightarrow> [] | Some x \<Rightarrow> o_lines x))) (\<lambda>ls.
        and_then (db_read (\<lambda>s. Inr (case tbl_get o_id oid (s_orders s) of None \<Rightarrow> [] | Some x \<Rightarrow> stable_sort event_before (o_events x))))
          (\<lambda>es. ret (row\<lparr>o_lines := ls, o_events := es\<rparr>)))) ?Q"
      by (intro sees_then sees_plain reads_intros sees_simple) simp
  qed (intro reads_intros)
  then show ?thesis unfolding order_told_def
    by (rule sees_bind [OF sees_wrap]) (simp_all add: told_order_of_def sees_simple reads_basic)
qed

definition job_behind :: "string \<Rightarrow> store set \<Rightarrow> job_contract \<Rightarrow> bool" where
  "job_behind oid L c \<longleftrightarrow> (\<exists>s\<in>L. \<exists>j\<in>set (s_jobs s). j_order_id j = oid \<and> jc_live c = job_is_live (j_status j) \<and>
     (\<forall>q. jc_partner c = Some q \<longrightarrow> fst q = j_partner_id j))"

lemma job_contract_sees:
  assumes "s \<in> L" "j \<in> set (s_jobs s)" "j_order_id j = oid"
  shows "sees I L (job_to_contract j) (job_behind oid L)"
  unfolding job_to_contract_def Let_def partner_by_id_def
  by (rule sees_if, rule sees_simple, (use assms in \<open>fastforce simp: job_behind_def\<close>),
      rule sees_bind [where M = "\<lambda>r. \<forall>p. r = Inr p \<longrightarrow> p_id p = j_partner_id j"], rule sees_attempt, rule sees_read)
    (use assms in \<open>fastforce simp: job_behind_def dest!: tbl_get_Some intro!: sees_simple reads_intros split: option.splits sum.split\<close>)+

lemma job_told_sees: "sees I L (job_told oid) (\<lambda>found. \<forall>c. found = Some c \<longrightarrow> job_behind oid L c)"
  unfolding job_told_def job_for_order_def
proof (rule sees_bind [where M = "\<lambda>found. \<forall>j. found = Some j \<longrightarrow> j_order_id j = oid \<and> (\<exists>s\<in>L. j \<in> set (s_jobs s))"])
  show "sees I L (or_wrap dispatch_storage_error (db_read (\<lambda>s. Inr (tbl_get j_order_id oid (s_jobs s)))))
      (\<lambda>found. \<forall>j. found = Some j \<longrightarrow> j_order_id j = oid \<and> (\<exists>s\<in>L. j \<in> set (s_jobs s)))"
    by (rule sees_wrap, rule sees_read) (auto dest: tbl_get_Some)
  show "reads (case found of None \<Rightarrow> ret None | Some j \<Rightarrow> and_then (job_to_contract j) (\<lambda>c. ret (Some c)))" for found
    unfolding job_to_contract_def Let_def partner_by_id_def by (intro reads_intros)
  show "sees I L (case found of None \<Rightarrow> ret None | Some j \<Rightarrow> and_then (job_to_contract j) (\<lambda>c. ret (Some c)))
      (\<lambda>found. \<forall>c. found = Some c \<longrightarrow> job_behind oid L c)"
    if known: "\<forall>j. found = Some j \<longrightarrow> j_order_id j = oid \<and> (\<exists>s\<in>L. j \<in> set (s_jobs s))" for found
  proof (cases found)
    case (Some j)
    then obtain s where "s \<in> L" "j \<in> set (s_jobs s)" "j_order_id j = oid" using known by auto
    from sees_bind [OF job_contract_sees [OF this], where f = "\<lambda>c. ret (Some c)"] show ?thesis
      by (simp add: Some sees_simple reads_basic)
  qed (simp add: sees_simple)
qed

lemma partner_id_sees: "sees I L (partner_id_of_user who) (\<lambda>m. \<forall>pid. m = Some pid \<longrightarrow> (\<exists>s\<in>L. \<exists>p\<in>set (s_partners s). p_user_id p = who \<and> p_id p = pid))"
  unfolding partner_id_of_user_def partner_of_user_def
proof (rule sees_bind [OF sees_wrap [OF sees_read]])
  show "\<forall>p. m = Some p \<longrightarrow> p_user_id p = who \<and> (\<exists>s\<in>L. p \<in> set (s_partners s))"
    if "s \<in> L" "Inr (tbl_get p_user_id who (s_partners s)) = Inr m" for s m
    using that by (auto dest!: tbl_get_Some)
  fix m assume "\<forall>p. m = Some p \<longrightarrow> p_user_id p = who \<and> (\<exists>s\<in>L. p \<in> set (s_partners s))"
  then have "\<forall>pid. map_option p_id m = Some pid \<longrightarrow> (\<exists>s\<in>L. \<exists>p\<in>set (s_partners s). p_user_id p = who \<and> p_id p = pid)"
    by (cases m) auto
  then show "sees I L (ret (map_option p_id m)) (\<lambda>m. \<forall>pid. m = Some pid \<longrightarrow> (\<exists>s\<in>L. \<exists>p\<in>set (s_partners s). p_user_id p = who \<and> p_id p = pid))"
    by (rule sees_simple)
qed (rule reads_intros)

definition shown_to :: "string \<Rightarrow> string \<Rightarrow> store set \<Rightarrow> snapshot \<Rightarrow> bool" where
  "shown_to oid who L snap \<longleftrightarrow> ss_order_id snap = oid \<and>
     ((\<exists>s\<in>L. \<exists>x\<in>set (s_orders s). o_id x = oid \<and> o_customer_id x = who) \<or>
      (\<exists>s\<in>L. \<exists>p\<in>set (s_partners s). p_user_id p = who \<and> p_id p \<noteq> [] \<and>
         (\<exists>t\<in>L. \<exists>j\<in>set (s_jobs t). j_order_id j = oid \<and> j_partner_id j = p_id p))) \<and>
     (\<forall>q. ss_partner snap = Some q \<longrightarrow>
        (\<exists>s\<in>L. \<exists>j\<in>set (s_jobs s). j_order_id j = oid \<and> job_is_live (j_status j) \<and> j_partner_id j = wp_id q))"

lemma told_reads [reads_intros]: "reads (job_told oid)" "reads (partner_id_of_user who)"
  using sees_reads [OF job_told_sees] sees_reads [OF partner_id_sees] by blast+

lemma rider_shown:
  assumes "\<forall>c. found = Some c \<longrightarrow> job_behind oid L c" "ss_partner (build_snapshot x found lang) = Some q"
  shows "\<exists>s\<in>L. \<exists>j\<in>set (s_jobs s). j_order_id j = oid \<and> job_is_live (j_status j) \<and> j_partner_id j = wp_id q"
  using assms by (fastforce simp: build_snapshot_def watched_partner_of_def job_behind_def split: option.splits prod.splits if_splits)

lemma snapshot_sees: "sees I L (snapshot_for oid who lang) (shown_to oid who L)"
  unfolding snapshot_for_def
proof (rule sees_bind [OF sees_wrap [OF order_told_sees]], rule sees_bind [OF sees_wrap [OF job_told_sees]], rule sees_if, rule sees_simple,
    goal_cases)
  case (1 x found)
  then show ?case using rider_shown [OF 1(2)] by (auto simp: shown_to_def build_snapshot_def)
next
  case (2 x found)
  show ?case
  proof (rule sees_bind [OF sees_wrap [OF partner_id_sees]])
    fix mine assume mine: "\<forall>pid. mine = Some pid \<longrightarrow> (\<exists>s\<in>L. \<exists>p\<in>set (s_partners s). p_user_id p = who \<and> p_id p = pid)"
    show "sees I L (case mine of None \<Rightarrow> raise_err tracking_not_found
        | Some pid \<Rightarrow> if found = None \<or> job_partner_id found = [] \<or> job_partner_id found \<noteq> pid
            then raise_err tracking_not_found else ret (build_snapshot x found lang)) (shown_to oid who L)"
    proof (cases "\<exists>pid. mine = Some pid \<and> job_partner_id found = pid \<and> pid \<noteq> []")
      case True
      then obtain c pid where c: "found = Some c" "mine = Some pid" "job_partner_id found = pid" "pid \<noteq> []"
        by (cases found) (auto simp: job_partner_id_def)
      then obtain q where "jc_partner c = Some q" "fst q = pid" by (auto simp: job_partner_id_def split: option.splits)
      then obtain t j where "t \<in> L" "j \<in> set (s_jobs t)" "j_order_id j = oid" "j_partner_id j = pid"
        using 2(2) c(1) unfolding job_behind_def by metis
      moreover obtain s p where "s \<in> L" "p \<in> set (s_partners s)" "p_user_id p = who" "p_id p = pid" using mine c(2) by blast
      ultimately have "\<exists>s\<in>L. \<exists>p\<in>set (s_partners s). p_user_id p = who \<and> p_id p \<noteq> [] \<and>
         (\<exists>t\<in>L. \<exists>j\<in>set (s_jobs t). j_order_id j = oid \<and> j_partner_id j = p_id p)" using c(4) by metis
      moreover have "ss_order_id (build_snapshot x found lang) = oid" using 2(1) by (simp add: build_snapshot_def)
      ultimately have "shown_to oid who L (build_snapshot x found lang)"
        using rider_shown [OF 2(2)] unfolding shown_to_def by blast
      then show ?thesis using c by (auto intro!: sees_simple)
    qed (auto intro!: sees_simple split: option.split)
  qed (intro reads_intros)
qed (intro reads_intros)+

lemma keyed_alone: "keyed key xs \<Longrightarrow> x \<in> set xs \<Longrightarrow> key x = k \<Longrightarrow> filter (\<lambda>y. key y = k) xs = [x]"
proof (induction xs)
  case (Cons y xs)
  show ?case
  proof (cases "key y = k")
    case True
    then have "filter (\<lambda>z. key z = k) xs = []" using Cons.prems(1) by (simp add: keyed_def filter_empty_conv image_iff) metis
    moreover have "y = x" using keyed_unique [OF Cons.prems(1), of y x] Cons.prems(2,3) True by simp
    ultimately show ?thesis using True by simp
  next
    case False
    then show ?thesis using Cons by (auto simp: keyed_def)
  qed
qed simp

text \<open>
  The properties of the stream, each applied to a delivery that is handed over while its customer
  is watching.
\<close>

text \<open>C30: Whatever history of requests interferes, once the order a stream is about has finished, the very
  next tick ends the stream: it reads the final status, sends it as the last frame and stops, or
  the reading fails and the stream ends with the frames it had.\<close>

theorem finished_order_ends_stream:
  assumes "reachable sv pv (w_store w)" "\<And>n. history sv pv (w_others w n)"
    and "stream can_flush oid who lang es w = (Inr (snap, frames, False), v)"
    and "x \<in> set (s_orders (w_store v))" "o_id x = oid" "order_terminal (o_status x)"
  shows "(\<exists>new. fst (snapshot_for oid who lang v) = Inr new \<and> ss_status new = o_status x \<and> \<not> ss_live new \<and>
      fst (stream can_flush oid who lang (es @ Ticked # later) w) = Inr (new, frames @ [new], True)) \<or>
    (\<exists>e. fst (snapshot_for oid who lang v) = Inl e \<and>
      fst (stream can_flush oid who lang (es @ Ticked # later) w) = Inr (snap, frames, True))"
proof -
  have others: "relies promise w" using assms(2) by (rule history_relies)
  have ok: "store_ok (w_store w)" using assms(1) by (rule reachable_ok)
  obtain snap0 u where start: "who \<noteq> []" "can_flush" "snapshot_for oid who lang w = (Inr snap0, u)" "ss_live snap0"
      "stream_on oid who lang es snap0 [snap0] u = (Inr (snap, frames, False), v)"
    using assms(3) by (auto simp: stream_def and_then_def raise_err_def ret_def split: if_splits prod.splits sum.splits)
  then have "up_to_date snap0 [snap0]" using snapshot_for_shape [OF start(3)] by (simp add: up_to_date_def)
  then have shown: "up_to_date snap frames" by (rule stream_on_up_to_date [OF start(5)])
  have whole: "stream can_flush oid who lang (es @ Ticked # later) w = stream_on oid who lang (Ticked # later) snap frames v"
    using start stream_on_append [OF start(5), of "Ticked # later"] by (simp add: stream_def and_then_def)
  have "safe (\<lambda>s. True) (stream can_flush oid who lang es) (\<lambda>_ _. True)"
    by (rule safe_stream) (simp add: lasting_def)
  note now = safeD(1,2) [OF this others ok _ assms(3), simplified]
  have fin: "finished oid (o_status x) (w_store v)" using assms(4-6) by (auto simp: finished_def)
  obtain r t where read: "snapshot_for oid who lang v = (r, t)" by fastforce
  have "safe (finished oid (o_status x)) (snapshot_for oid who lang) (\<lambda>new s. ss_status new = o_status x)"
    by (rule safe_finished_snapshot [OF lasting_finished])
  note last = safeD(4) [OF this now fin read]
  show ?thesis
  proof (cases r)
    case (Inl e)
    then show ?thesis using read whole by (simp add: stream_on_lost del: stream_on.simps)
  next
    case (Inr new)
    have "\<not> ss_live new" using snapshot_for_shape [of oid who lang v new t] read Inr last assms(6)
      by (simp add: order_is_live_def)
    moreover then have "snapshot_changed new snap"
      using shown last [OF Inr] assms(6) by (auto simp: snapshot_changed_def up_to_date_def order_is_live_def)
    ultimately show ?thesis using read whole Inr last by (simp add: stream_on_tick Let_def del: stream_on.simps)
  qed
qed

text \<open>C31: Nobody is shown a delivery but its parties: whoever gets a moment of an order has placed that order,
  or is a registered rider, and the order's one job, as it was stored when the moment was read, names
  this rider as its partner.  And the rider who is shown is the partner of that job, while it is live.\<close>

theorem watched_only_by_its_parties:
  assumes "reachable sv pv (w_store w)" "\<And>n. history sv pv (w_others w n)"
    and "snapshot_for oid who lang w = (Inr snap, v)"
  shows "ss_order_id snap = oid \<and>
    ((\<exists>x\<in>set (s_orders (w_store v)). o_id x = oid \<and> o_customer_id x = who) \<or>
     (\<exists>p\<in>set (s_partners (w_store v)). p_user_id p = who \<and> p_id p \<noteq> [] \<and>
        (\<exists>s\<in>stores_seen w v. \<exists>j\<in>set (s_jobs s). filter (\<lambda>k. j_order_id k = oid) (s_jobs s) = [j] \<and> j_partner_id j = p_id p))) \<and>
    (\<forall>q. ss_partner snap = Some q \<longrightarrow>
       (\<exists>s\<in>stores_seen w v. \<exists>j\<in>set (s_jobs s). j_order_id j = oid \<and> job_is_live (j_status j) \<and> j_partner_id j = wp_id q))"
proof -
  have others: "relies promise w" using assms(2) by (rule history_relies)
  have ok: "store_ok (w_store w)" using assms(1) by (rule reachable_ok)
  have calm: "relies (preserves store_ok) w" using others by (auto simp: relies_def preserves_def promise_def)
  have only: "only_read w v" using sees_reads [OF snapshot_sees] assms(3) by (auto simp: reads_def)
  have later: "evolves s (w_store v)" "store_ok s" if "s \<in> stores_seen w v" for s
    using guarantee.seen_later [OF promise.guarantee_axioms others only that] stores_seen_kept [OF calm ok that] by (auto simp: promise_def)
  have shown: "shown_to oid who (stores_seen w v) snap" using sees_run [OF snapshot_sees calm ok assms(3)] .
  have order: "\<exists>x\<in>set (s_orders (w_store v)). o_id x = oid \<and> o_customer_id x = who"
    if "s \<in> stores_seen w v" "x \<in> set (s_orders s)" "o_id x = oid" "o_customer_id x = who" for s x
    using order_row_mono [OF later(1) [OF that(1)] that(2)] that(3,4) by (auto simp: order_evolves_def same_order_def)
  have rider: "\<exists>q\<in>set (s_partners (w_store v)). p_user_id q = p_user_id p \<and> p_id q = p_id p"
    if "s \<in> stores_seen w v" "p \<in> set (s_partners s)" for s p
  proof -
    have "rows_evolve partner_evolves (s_partners s) (s_partners (w_store v))" using later(1) [OF that(1)] by (simp add: evolves_def)
    from rows_evolveD [OF this that(2)] show ?thesis by (auto simp: partner_evolves_def)
  qed
  have one: "filter (\<lambda>k. j_order_id k = oid) (s_jobs s) = [j]"
    if "s \<in> stores_seen w v" "j \<in> set (s_jobs s)" "j_order_id j = oid" for s j
    using later(2) [OF that(1)] that(2,3) by (auto simp: store_ok_def jobs_ok_def intro: keyed_alone)
  have "(\<exists>x\<in>set (s_orders (w_store v)). o_id x = oid \<and> o_customer_id x = who) \<or>
     (\<exists>p\<in>set (s_partners (w_store v)). p_user_id p = who \<and> p_id p \<noteq> [] \<and>
        (\<exists>s\<in>stores_seen w v. \<exists>j\<in>set (s_jobs s). filter (\<lambda>k. j_order_id k = oid) (s_jobs s) = [j] \<and> j_partner_id j = p_id p))"
    using shown unfolding shown_to_def
  proof (elim conjE disjE bexE)
    fix s p t j
    assume p: "s \<in> stores_seen w v" "p \<in> set (s_partners s)" "p_user_id p = who" "p_id p \<noteq> []"
      and j: "t \<in> stores_seen w v" "j \<in> set (s_jobs t)" "j_order_id j = oid" "j_partner_id j = p_id p"
    obtain q where q: "q \<in> set (s_partners (w_store v))" "p_user_id q = who" "p_id q = p_id p" using rider [OF p(1,2)] p(3) by auto
    have "\<exists>s\<in>stores_seen w v. \<exists>j\<in>set (s_jobs s). filter (\<lambda>k. j_order_id k = oid) (s_jobs s) = [j] \<and> j_partner_id j = p_id q"
      using j(1,2,4) one [OF j(1-3)] q(3) by (intro bexI [of _ t] bexI [of _ j]) auto
    then show ?thesis using q(1,2,3) p(4) by (intro disjI2 bexI [OF _ q(1)]) auto
  qed (use order in blast)
  then show ?thesis using shown unfolding shown_to_def by blast
qed

section \<open>A delivery that is being watched\<close>

text \<open>The rider hands the order over at the fifth call.\<close>

definition watching :: "store \<Rightarrow> nat \<Rightarrow> store world" where
  "watching s c = \<lparr>w_store = s, w_calls = c, w_fault = \<lambda>_. False,
     w_others = \<lambda>n. if n = 4 then do_request 8 (RqDeliver rider_user job_id1) else (\<lambda>t. t), w_reads = 0,
     w_clock = \<lambda>k. 9, w_draws = 0, w_entropy = \<lambda>k. []\<rparr>"

lemma run_watching:
  "db_read g (watching s c) = (let t = (if c = 4 then do_request 8 (RqDeliver rider_user job_id1) s else s)
     in (g t, watching t (c + 1)))"
  "w_store (watching s c) = s"
  by (auto simp: db_read_def db_call_def watching_def Let_def)

lemma watched_by_history: "history example_services example_place_services (w_others (watching s c) n)"
  by (simp add: watching_def history_do_request history.nothing)

definition on_the_way :: store where
  "on_the_way = order_store (the_order PaymentCash StatusPickedUp 8 (shop_events PaymentCash @
       [event_at 7 StatusPickedUp ActorPartner rider_id]))
     [the_job JobCollected zero_time 8] (the_rider Available 1 1 1) [] [] [note_for StatusPickedUp]"

lemma on_the_way_reachable: "reachable example_services example_place_services on_the_way"
proof -
  note start = placed_reachable [of PaymentCash, simplified placed_store_cash, simplified]
  show ?thesis unfolding on_the_way_def
    using reachable_step [OF reachable_step [OF reachable_step [OF reachable_step [OF reachable_step [OF start
      accepted [unfolded shop_does_def]] prepared [unfolded shop_does_def]] made_ready [unfolded shop_does_def]]
      job_taken] picked_up] by simp
qed

lemma delivered_meanwhile: "do_request 8 (RqDeliver rider_user job_id1) on_the_way = evening"
  unfolding on_the_way_def evening_def by (simp add: handed_over)

definition moment :: "order_status \<Rightarrow> instant \<Rightarrow> watched_partner option \<Rightarrow> snapshot" where
  "moment st t p = \<lparr>ss_order_id = order_id1, ss_status = st, ss_status_label = watched_label st ''en'', ss_live = order_is_live st,
     ss_partner = p, ss_updated_at = t\<rparr>"

lemmas watching_rules = snapshot_for_def order_told_def job_told_def job_to_contract_def job_for_order_def partner_by_id_def
  order_by_id_def lines_of_def events_of_def build_snapshot_def told_order_of_def moment_def run_ops run_watching Let_def tbl_get_def

lemma the_order_times [simp]: "o_updated_at (the_order pay st t es) = t"
  by (simp add: the_order_def)

lemma first_moment:
  "\<exists>p. snapshot_for order_id1 cust ''en'' (watching on_the_way 0) = (Inr (moment StatusPickedUp 8 p), watching evening 5)"
proof -
  have "s_orders on_the_way = [the_order PaymentCash StatusPickedUp 8 (shop_events PaymentCash @
       [event_at 7 StatusPickedUp ActorPartner rider_id])]" "s_jobs on_the_way = [the_job JobCollected zero_time 8]"
    by (simp_all add: on_the_way_def)
  moreover have "s_partners evening = [the_rider Available 0 1 1]" by (simp add: evening_def)
  ultimately show ?thesis
    by (simp add: watching_rules delivered_meanwhile the_job_def cong: next_op_cong wrap_result_cong del: op_simps One_nat_def)
qed

lemma last_moment:
  "\<exists>p u. snapshot_for order_id1 cust ''en'' (watching evening 5) = (Inr (moment StatusDelivered 9 p), u)"
proof -
  have "s_orders evening = [the_order PaymentCash StatusDelivered 9 (shop_events PaymentCash @
       [event_at 7 StatusPickedUp ActorPartner rider_id, event_at 8 StatusDelivered ActorPartner rider_id])]"
    "s_jobs evening = [the_job JobDelivered zero_time 9]" "s_partners evening = [the_rider Available 0 1 1]"
    by (simp_all add: evening_def)
  then show ?thesis
    by (simp add: watching_rules the_job_def cong: next_op_cong wrap_result_cong del: op_simps One_nat_def)
qed

lemma finished_order_ends_stream_witness:
  "\<exists>first new. fst (stream True order_id1 cust ''en'' [] (watching on_the_way 0)) = Inr (first, [first], False) \<and>
     ss_status first = StatusPickedUp \<and> ss_status new = StatusDelivered \<and>
     fst (stream True order_id1 cust ''en'' [Ticked] (watching on_the_way 0)) = Inr (new, [first, new], True)"
proof -
  obtain p where got: "snapshot_for order_id1 cust ''en'' (watching on_the_way 0) = (Inr (moment StatusPickedUp 8 p), watching evening 5)"
    using first_moment by blast
  let ?first = "moment StatusPickedUp 8 p"
  have run: "stream True order_id1 cust ''en'' [] (watching on_the_way 0) = (Inr (?first, [?first], False), watching evening 5)"
    using got by (simp add: stream_def run_ops moment_def order_is_live_def order_terminal_def del: op_simps)
  obtain x where x: "x \<in> set (s_orders (w_store (watching evening 5)))" "o_id x = order_id1" "o_status x = StatusDelivered"
    by (auto simp: run_watching evening_def)
  have start: "reachable example_services example_place_services (w_store (watching on_the_way 0))"
    by (simp add: run_watching on_the_way_reachable)
  have "order_terminal (o_status x)" using x(3) by (simp add: order_terminal_def)
  from finished_order_ends_stream [OF start watched_by_history run x(1,2) this, of "[]"] last_moment x(3)
  have "fst (stream True order_id1 cust ''en'' [Ticked] (watching on_the_way 0)) = Inr (new, [?first] @ [new], True) \<and> ss_status new = StatusDelivered"
    if "fst (snapshot_for order_id1 cust ''en'' (watching evening 5)) = Inr new" for new using that by auto
  then show ?thesis using last_moment run by (fastforce simp: moment_def)
qed

text \<open>The rider watches as well: the job is read before the order is handed over, the rider's row afterwards.\<close>

lemma riders_moment:
  "\<exists>q. snapshot_for order_id1 rider_user ''en'' (watching on_the_way 0) = (Inr (moment StatusPickedUp 8 (Some q)), watching evening 6) \<and>
     wp_id q = rider_id"
proof -
  have "s_orders on_the_way = [the_order PaymentCash StatusPickedUp 8 (shop_events PaymentCash @
       [event_at 7 StatusPickedUp ActorPartner rider_id])]" "s_jobs on_the_way = [the_job JobCollected zero_time 8]"
    by (simp_all add: on_the_way_def)
  moreover have "s_partners evening = [the_rider Available 0 1 1]" by (simp add: evening_def)
  moreover have "cust \<noteq> rider_user" by simp
  ultimately show ?thesis
    by (simp add: watching_rules partner_id_of_user_def partner_of_user_def delivered_meanwhile the_job_def the_rider_def job_partner_id_def
      watched_partner_of_def job_is_live_def job_terminal_def cong: next_op_cong wrap_result_cong del: op_simps One_nat_def)
qed

lemma watched_only_by_its_parties_witness:
  "\<exists>snap v s j. snapshot_for order_id1 rider_user ''en'' (watching on_the_way 0) = (Inr snap, v) \<and> ss_order_id snap = order_id1 \<and>
     rider_user \<noteq> cust \<and> s \<in> stores_seen (watching on_the_way 0) v \<and> j \<in> set (s_jobs s) \<and> j_order_id j = order_id1 \<and> j_partner_id j = rider_id"
proof -
  obtain q where got: "snapshot_for order_id1 rider_user ''en'' (watching on_the_way 0) =
      (Inr (moment StatusPickedUp 8 (Some q)), watching evening 6)" "wp_id q = rider_id"
    using riders_moment by blast
  have "reachable example_services example_place_services (w_store (watching on_the_way 0))"
    by (simp add: run_watching on_the_way_reachable)
  note shown = watched_only_by_its_parties [OF this watched_by_history got(1)]
  have "ss_partner (moment StatusPickedUp 8 (Some q)) = Some q" by (simp add: moment_def)
  from mp [OF spec [OF conjunct2 [OF conjunct2 [OF shown]]] this] obtain s j where
    j: "s \<in> stores_seen (watching on_the_way 0) (watching evening 6)" "j \<in> set (s_jobs s)" "j_order_id j = order_id1" "j_partner_id j = wp_id q"
    by blast
  have other: "rider_user \<noteq> cust" by simp
  have mine: "j_partner_id j = rider_id" using j(4) got(2) by simp
  show ?thesis by (intro exI conjI, (rule got(1) conjunct1 [OF shown] other j(1-3) mine)+)
qed

end
