(* ===== verification/Settings_Served.thy ===== *)
theory Settings_Served
  imports Discovery_App Pricing_App Identity_App Order_App Example_Day Config_Example
begin

text \<open>
  The settings and their readers together: each module reads its variables through an adapter that
  asks the resolved settings for a whole number, a ratio or a switch by name, and rejects what it
  cannot use.
\<close>

definition settings_place :: "Dispatch_Domain.placement \<Rightarrow> Config_Domain.placement" where
  "settings_place q = \<lparr>pl_area = pm_area_code q, pl_district = pm_district_code q, pl_division = pm_division_code q\<rparr>"

definition seconds_within :: "int \<Rightarrow> int \<Rightarrow> duration \<Rightarrow> bool" where
  "seconds_within lo hi d \<longleftrightarrow> lo * second \<le> d \<and> d \<le> hi * second"

lemma seconds_within_mul:
  assumes "lo \<le> n" "n \<le> hi" "0 \<le> lo" "hi \<le> 9000000000"
  shows "seconds_within lo hi (mul64 n second)"
proof -
  have "fits64 (n * second)" using assms by (simp add: fits64_def second_def)
  then show ?thesis using assms by (simp add: seconds_within_def mul64_def second_def)
qed

lemma auth_settings_of_good:
  assumes "good_settings r"
  shows "\<exists>st. load_auth_settings (Inr (\<lambda>k. lift_domain g (resolved_int r k))) = Inr st \<and>
    1 \<le> as_otp_requests_per_hour st \<and> 3 \<le> as_otp_verify_attempts st \<and> 1 \<le> as_max_sessions st \<and>
    seconds_within 60 3600 (as_otp_lockout_window st) \<and> seconds_within 60 600 (as_otp_ttl st) \<and>
    seconds_within 300 3600 (as_access_token_ttl st) \<and> seconds_within 86400 15552000 (as_refresh_token_ttl st)"
proof -
  obtain a where a: "resolved_int r ''auth.otp_requests_per_hour'' = Inr a" "1 \<le> a" using auth_entries(1) [THEN [2] setting_tunable, OF assms] by auto
  obtain b where b: "resolved_int r ''auth.otp_verify_attempts'' = Inr b" "3 \<le> b" using auth_entries(2) [THEN [2] setting_tunable, OF assms] by auto
  obtain c where c: "resolved_int r ''auth.otp_lockout_window'' = Inr c" "60 \<le> c" "c \<le> 3600" using auth_entries(3) [THEN [2] setting_tunable, OF assms] by auto
  obtain d where d: "resolved_int r ''auth.otp_ttl'' = Inr d" "60 \<le> d" "d \<le> 600" using auth_entries(4) [THEN [2] setting_tunable, OF assms] by auto
  obtain e where e: "resolved_int r ''auth.access_token_ttl'' = Inr e" "300 \<le> e" "e \<le> 3600" using auth_entries(5) [THEN [2] setting_tunable, OF assms] by auto
  obtain f where f: "resolved_int r ''auth.refresh_token_ttl'' = Inr f" "86400 \<le> f" "f \<le> 15552000" using auth_entries(6) [THEN [2] setting_tunable, OF assms] by auto
  obtain m where m: "resolved_int r ''auth.max_sessions_per_user'' = Inr m" "1 \<le> m" using auth_entries(7) [THEN [2] setting_tunable, OF assms] by auto
  show ?thesis
    using a(2) b(2) m(2) c(2,3) d(2,3) e(2,3) f(2,3)
    by (simp add: load_auth_settings_def read_auth_setting_def lift_domain_def a(1) b(1) c(1) d(1) e(1) f(1) m(1) seconds_within_mul)
qed

lemma rules_of_good:
  assumes "good_settings r" "\<And>k. sv_setting sv q k = lift_domain g (resolved_int r k)"
  shows "\<exists>ru b. resolve_rules sv q = Inr ru \<and> ru_partner_radius ru = Fin (of_int b) \<and> 1000 \<le> b \<and> b \<le> 30000 \<and>
    seconds_within 10 300 (ru_offer_timeout ru) \<and> 1 \<le> ru_max_concurrent ru \<and> ru_max_concurrent ru \<le> 10"
proof -
  obtain a where a: "resolved_int r ''dispatch.short_distance_max'' = Inr a" using dispatch_entries(1) [THEN [2] setting_tunable, OF assms(1)] by auto
  obtain c where c: "resolved_int r ''dispatch.long_distance_max'' = Inr c" using dispatch_entries(2) [THEN [2] setting_tunable, OF assms(1)] by auto
  obtain b where b: "resolved_int r ''dispatch.partner_radius'' = Inr b" "1000 \<le> b" "b \<le> 30000" using dispatch_entries(3) [THEN [2] setting_tunable, OF assms(1)] by auto
  obtain t where t: "resolved_int r ''dispatch.assignment_timeout'' = Inr t" "10 \<le> t" "t \<le> 300" using dispatch_entries(4) [THEN [2] setting_tunable, OF assms(1)] by auto
  obtain m where m: "resolved_int r ''dispatch.max_concurrent_jobs'' = Inr m" "1 \<le> m" "m \<le> 10" using dispatch_entries(5) [THEN [2] setting_tunable, OF assms(1)] by auto
  have "of_int64 b = Fin (of_int b)" using b by (intro of_int64_exact) simp
  then show ?thesis
    using b(2,3) t(2,3) m(2,3)
    by (simp add: resolve_rules_def assms(2) lift_domain_def a c b(1) t(1) m(1) seconds_within_mul)
qed

lemma order_rules_of_good:
  assumes "good_settings r" "\<And>k. sv_setting sv q k = lift_domain g (resolved_int r k)"
  shows "\<exists>ru. order_rules_for sv q = Inr ru \<and> 50000 \<le> or_cod_limit_minor ru \<and> or_cod_limit_minor ru \<le> 5000000 \<and>
    seconds_within 0 900 (or_cancellation_window ru)"
proof -
  obtain a where a: "resolved_int r ''order.cod_limit'' = Inr a" "50000 \<le> a" "a \<le> 5000000" using dispatch_entries(7) [THEN [2] setting_tunable, OF assms(1)] by auto
  obtain t where t: "resolved_int r ''order.cancellation_window'' = Inr t" "0 \<le> t" "t \<le> 900" using dispatch_entries(6) [THEN [2] setting_tunable, OF assms(1)] by auto
  show ?thesis
    using a(2,3) t(2,3) by (simp add: order_rules_for_def assms(2) lift_domain_def a(1) t(1) seconds_within_mul)
qed

text \<open>C32: The settings a request resolves are of the types and in the ranges every reader asks for: whatever
  administrators have set, the sign-in, the delivery fees, the search ladder, the dispatch board and
  the checkout are all configured, within the stated ranges, and none of them is refused.\<close>

theorem settings_serve_everyone:
  assumes "config_reachable (w_store w)" "\<And>n. config_history (w_others w n)"
    and "resolve_settings (settings_place q) w = (Inr r, v)" "\<And>k. sv_setting sv q k = lift_domain g (resolved_int r k)"
  shows "\<exists>st t py b k ru radius ord.
    load_auth_settings (Inr (\<lambda>k. lift_domain g (resolved_int r k))) = Inr st \<and>
      1 \<le> as_otp_requests_per_hour st \<and> 3 \<le> as_otp_verify_attempts st \<and> 1 \<le> as_max_sessions st \<and>
      seconds_within 60 3600 (as_otp_lockout_window st) \<and> seconds_within 60 600 (as_otp_ttl st) \<and>
      seconds_within 300 3600 (as_access_token_ttl st) \<and> seconds_within 86400 15552000 (as_refresh_token_ttl st) \<and>
    tariff_of r = Inr t \<and> tariff_in_bounds t \<and>
    policy_from r = Inr py \<and> sane_policy py b k \<and>
    resolve_rules sv q = Inr ru \<and> ru_partner_radius ru = Fin (of_int radius) \<and> 1000 \<le> radius \<and> radius \<le> 30000 \<and>
      seconds_within 10 300 (ru_offer_timeout ru) \<and> 1 \<le> ru_max_concurrent ru \<and> ru_max_concurrent ru \<le> 10 \<and>
    order_rules_for sv q = Inr ord \<and> 50000 \<le> or_cod_limit_minor ord \<and> or_cod_limit_minor ord \<le> 5000000 \<and>
      seconds_within 0 900 (or_cancellation_window ord)"
proof -
  have good: "good_settings r" by (rule resolve_settings_now [OF assms(1-3)])
  show ?thesis
    using auth_settings_of_good [OF good, of g] tariff_of_good [OF good] policy_from_good [OF good]
      rules_of_good [OF good assms(4)] order_rules_of_good [OF good assms(4)]
    by metis
qed

text \<open>In the area of \<open>Config_Example\<close>.\<close>

definition here :: Dispatch_Domain.placement where
  "here = \<lparr>pm_area_code = pl_area at_dhanmondi, pm_district_code = pl_district at_dhanmondi, pm_division_code = pl_division at_dhanmondi\<rparr>"

definition adapter :: "config_err \<Rightarrow> error" where
  "adapter e = Sentinel ''config''"

lemma settings_serve_everyone_witness:
  "\<exists>r u st t ord. resolve_settings at_dhanmondi (quiet_config dearer) = (Inr r, u) \<and>
     load_auth_settings (Inr (\<lambda>k. lift_domain adapter (resolved_int r k))) = Inr st \<and> 3 \<le> as_otp_verify_attempts st \<and>
     tariff_of r = Inr t \<and>
     order_rules_for (example_services\<lparr>sv_setting := \<lambda>q k. lift_domain adapter (resolved_int r k)\<rparr>) here = Inr ord \<and>
     50000 \<le> or_cod_limit_minor ord"
proof -
  obtain r u where run: "resolve_settings at_dhanmondi (quiet_config dearer) = (Inr r, u)"
    by (simp add: resolve_settings_def overrides_for_def quiet_config_def run_ops run_quiet)
  have reach: "config_reachable (w_store (quiet_config dearer))"
    using dearer_reachable by (simp add: quiet_config_def run_quiet)
  have calm: "config_history (w_others (quiet_config dearer) n)" for n
    using config_nothing by (simp add: quiet_config_def quiet_def)
  have place: "settings_place here = at_dhanmondi" by (simp add: settings_place_def here_def)
  let ?sv = "example_services\<lparr>sv_setting := \<lambda>q k. lift_domain adapter (resolved_int r k)\<rparr>"
  have "sv_setting ?sv here k = lift_domain adapter (resolved_int r k)" for k by simp
  from settings_serve_everyone [OF reach calm run [folded place] this] run show ?thesis by blast
qed

end
