(* ===== verification/Review_Example.thy ===== *)
theory Review_Example
  imports Example_Day
begin

text \<open>
  Reviews and tickets in every history, and the two properties applied to a delivered order that is
  rated and to a paid order whose customer complains.
\<close>

text \<open>C33: Every review is earned: its author is the customer of an order that was delivered, what it is about
  is that order's shop, something on it or the rider who handed it over, its rating is between one
  and five, and nobody has reviewed the same thing from the same order twice.\<close>

theorem reviews_are_earned:
  assumes "reachable sv pv s" "r \<in> set (s_reviews s)"
  shows "1 \<le> rw_rating r \<and> rw_rating r \<le> 5 \<and>
    (\<exists>x\<in>set (s_orders s). o_id x = rw_order_id r \<and> o_customer_id x = rw_rater_id r \<and> o_status x = StatusDelivered \<and>
       (case rw_subject r of
          SubjectMerchant \<Rightarrow> o_merchant_id x = rw_subject_id r
        | SubjectItem \<Rightarrow> (\<exists>l\<in>set (o_lines x). ol_target_id l = rw_subject_id r)
        | SubjectPartner \<Rightarrow> (\<exists>j\<in>set (s_jobs s). j_order_id j = o_id x \<and> j_status j = JobDelivered \<and> j_partner_id j = rw_subject_id r)
        | OtherSubject _ \<Rightarrow> False)) \<and>
    (\<forall>q\<in>set (s_reviews s). review_key q = review_key r \<longrightarrow> q = r)"
proof -
  have ok: "reviews_ok s" "orders_ok s" using reachable_ok [OF assms(1)] by (simp_all add: store_ok_def)
  then obtain x where x: "x \<in> set (s_orders s)" "o_id x = rw_order_id r" "o_customer_id x = rw_rater_id r"
      "o_status x = StatusDelivered" "subject_of_order x (rw_subject r) (rw_subject_id r)"
    and stars: "1 \<le> rw_rating r" "rw_rating r \<le> 5"
    using assms(2) by (auto simp: reviews_ok_def reviewable_def)
  have rider: "\<exists>j\<in>set (s_jobs s). j_order_id j = o_id x \<and> j_status j = JobDelivered \<and> j_partner_id j = ev_actor_id e"
    if "e \<in> set (o_events x)" "ev_status e = StatusDelivered" for e
    using ok(2) x(1) that by (fastforce simp: orders_ok_def event_ok_def handed_over_by_def)
  have "q = r" if "q \<in> set (s_reviews s)" "review_key q = review_key r" for q
    using ok(1) keyed_unique [of review_key "s_reviews s" q r] that assms(2) by (simp add: reviews_ok_def)
  moreover have "case rw_subject r of
          SubjectMerchant \<Rightarrow> o_merchant_id x = rw_subject_id r
        | SubjectItem \<Rightarrow> (\<exists>l\<in>set (o_lines x). ol_target_id l = rw_subject_id r)
        | SubjectPartner \<Rightarrow> (\<exists>j\<in>set (s_jobs s). j_order_id j = o_id x \<and> j_status j = JobDelivered \<and> j_partner_id j = rw_subject_id r)
        | OtherSubject _ \<Rightarrow> False"
  proof (cases "rw_subject r")
    case SubjectPartner
    then obtain e where "e \<in> set (o_events x)" "ev_status e = StatusDelivered" "ev_actor_id e = rw_subject_id r"
      using x(5) by (auto simp: subject_of_order_def)
    then show ?thesis using rider [of e] SubjectPartner by simp
  qed (use x(5) in \<open>auto simp: subject_of_order_def\<close>)
  ultimately show ?thesis using stars x by blast
qed

text \<open>C34: No customer is told of money that never came: a ticket that is resolved as refunded was resolved by
  somebody, was raised by the customer of its order, and that order's payment, of exactly its total,
  has been given back.\<close>

theorem refunds_are_made:
  assumes "reachable sv pv s" "t \<in> set (s_tickets s)" "tk_status t = TicketResolved" "tk_resolution t = ResolutionRefunded"
  shows "tk_agent_id t \<noteq> [] \<and> (\<exists>x\<in>set (s_orders s). \<exists>p\<in>set (s_payments s).
    o_id x = tk_order_id t \<and> o_customer_id x = tk_raised_by t \<and> pay_order_id p = o_id x \<and>
    pay_status p = PayRefunded \<and> m_minor (pay_amount p) = m_minor (ch_total (o_charges x)))"
proof -
  have ok: "tickets_ok s" "payments_ok s" "orders_ok s" using reachable_ok [OF assms(1)] by (simp_all add: store_ok_def)
  then have row: "ticket_row_holds s t" using assms(2) by (simp add: tickets_ok_def)
  then obtain x p where x: "x \<in> set (s_orders s)" "o_id x = tk_order_id t" "o_customer_id x = tk_raised_by t"
    and p: "p \<in> set (s_payments s)" "pay_order_id p = tk_order_id t" "pay_status p = PayRefunded"
    using assms(4) by (auto simp: ticket_row_holds_def order_of_customer_def money_back_def)
  obtain y where "y \<in> set (s_orders s)" "o_id y = pay_order_id p" "m_minor (ch_total (o_charges y)) = m_minor (pay_amount p)"
    using ok(2) p(1) by (auto simp: payments_ok_def payment_row_holds_def)
  moreover then have "y = x" using ok(3) x p keyed_unique [of o_id "s_orders s" y x] by (simp add: orders_ok_def)
  ultimately show ?thesis using row assms(3) x p
    by (intro conjI bexI [OF _ x(1)] bexI [OF _ p(1)]) (simp_all add: ticket_row_holds_def)
qed

section \<open>Five stars\<close>

definition five_stars :: review where
  "five_stars = \<lparr>rw_id = new_id ''rev'' (unix_milli 10) [9, 0], rw_order_id = order_id1, rw_rater_id = cust,
     rw_subject = SubjectMerchant, rw_subject_id = ''m'', rw_rating = 5, rw_comment = [], rw_created_at = 10\<rparr>"

lemmas review_rules = http_submit_def submit_review_def order_told_def order_by_id_def lines_of_def events_of_def
  review_subject_of_def verify_subject_def exists_for_rater_def new_review_def review_subject_valid_def save_review_def
  review_row_ok_def told_order_of_def

lemma evening_tables:
  "s_orders evening = [the_order PaymentCash StatusDelivered 9 (shop_events PaymentCash @
     [event_at 7 StatusPickedUp ActorPartner rider_id, event_at 8 StatusDelivered ActorPartner rider_id])]"
  "s_reviews evening = []"
  by (simp_all add: evening_def) (simp add: order_store_def)

lemma rated: "do_request 9 (RqReview cust order_id1 ''merchant'' ''m'' 5 []) evening = evening\<lparr>s_reviews := [five_stars]\<rparr>"
  by (simp add: do_request_def run_rules review_rules evening_tables five_stars_def
     cong: next_op_cong wrap_result_cong del: op_simps One_nat_def)

lemma reviews_are_earned_witness:
  "\<exists>s. reachable example_services example_place_services s \<and> five_stars \<in> set (s_reviews s) \<and>
     (\<exists>x. x \<in> set (s_orders s) \<and> o_id x = rw_order_id five_stars \<and> o_customer_id x = rw_rater_id five_stars \<and>
        o_status x = StatusDelivered)"
proof -
  let ?s = "evening\<lparr>s_reviews := [five_stars]\<rparr>"
  have s: "reachable example_services example_place_services ?s" by (rule reachable_step [OF evening_reachable rated])
  have "five_stars \<in> set (s_reviews ?s)" by simp
  from reviews_are_earned [OF s this] s show ?thesis by (intro exI [of _ ?s]) auto
qed

section \<open>A complaint\<close>

definition ticket_id1 :: string where "ticket_id1 = new_id ''tkt'' (unix_milli 6) [5, 0]"

definition complaint :: "ticket_status \<Rightarrow> resolution \<Rightarrow> string \<Rightarrow> instant \<Rightarrow> ticket" where
  "complaint st res agent at_time = \<lparr>tk_id = ticket_id1, tk_order_id = order_id1, tk_raised_by = cust, tk_subject = ''late'',
     tk_status = st, tk_resolution = res, tk_note = [], tk_agent_id = agent, tk_created_at = 6, tk_resolved_at = at_time\<rparr>"

lemmas ticket_rules = raise_ticket_def resolve_ticket_def http_resolve_def order_told_def order_by_id_def lines_of_def events_of_def
  told_order_of_def new_ticket_def save_ticket_def ticket_by_id_def ticket_resolve_def resolution_of_def refund_order_def
  latest_for_order_def pay_refund_def save_payment_def payment_written_def tbl_cas_def ticket_written_def

lemma paid_tables: "s_orders paid_store = [paid_order]" "s_payments paid_store = [the_payment PayCaptured 5]" "s_tickets paid_store = []"
  by (simp_all add: paid_store_def) (simp add: order_store_def)

lemma complained: "do_request 5 (RqRaise cust order_id1 ''late'') paid_store =
    paid_store\<lparr>s_tickets := [complaint TicketOpen (OtherResolution []) [] zero_time]\<rparr>"
  by (simp add: do_request_def run_rules ticket_rules paid_tables paid_order_def complaint_def ticket_id1_def
     cong: next_op_cong wrap_result_cong del: op_simps One_nat_def)

definition refunded_payment :: payment where
  "refunded_payment = (the_payment PayRefunded 7)\<lparr>pay_refund_reason := ''support ticket '' @ ticket_id1\<rparr>"

lemma resolved: "do_request 6 (RqResolve ''agent'' ticket_id1 ''refunded'' [])
      (paid_store\<lparr>s_tickets := [complaint TicketOpen (OtherResolution []) [] zero_time]\<rparr>) =
    paid_store\<lparr>s_payments := [refunded_payment], s_tickets := [complaint TicketResolved ResolutionRefunded ''agent'' 7]\<rparr>"
  by (simp add: do_request_def run_rules ticket_rules paid_tables complaint_def refunded_payment_def the_payment_def
     example_services_def manual_refund_def
     cong: next_op_cong wrap_result_cong del: op_simps One_nat_def)

lemma refunds_are_made_witness:
  "\<exists>s. reachable example_services example_place_services s \<and>
     complaint TicketResolved ResolutionRefunded ''agent'' 7 \<in> set (s_tickets s) \<and>
     (\<exists>x p. x \<in> set (s_orders s) \<and> p \<in> set (s_payments s) \<and> o_customer_id x = cust \<and> pay_order_id p = o_id x \<and>
        pay_status p = PayRefunded \<and> m_minor (pay_amount p) = m_minor (ch_total (o_charges x)))"
proof -
  let ?s = "paid_store\<lparr>s_payments := [refunded_payment], s_tickets := [complaint TicketResolved ResolutionRefunded ''agent'' 7]\<rparr>"
  let ?t = "complaint TicketResolved ResolutionRefunded ''agent'' 7"
  have s: "reachable example_services example_place_services ?s"
    by (rule reachable_step [OF reachable_step [OF paid_reachable complained] resolved])
  have t: "?t \<in> set (s_tickets ?s)" "tk_status ?t = TicketResolved" "tk_resolution ?t = ResolutionRefunded" "tk_raised_by ?t = cust"
    by (simp_all add: complaint_def)
  from refunds_are_made [OF s t(1-3)] s t(1,4) show ?thesis by (intro exI [of _ ?s]) auto
qed

end
