(* ===== verification/Catalogue_Repo.thy ===== *)
theory Catalogue_Repo
  imports Catalogue_Domain Merchant_Cases
begin

text \<open>
  The tables of \<open>modules/catalogue/infrastructure\<close> and their statements, beside the shops'.  A row keeps
  its availability encoded and its groups and lines in tables of their own.  \<open>ON CONFLICT (id)\<close> keeps the
  shop and the kind an item or combo was made with, the item a group was made for and the group an
  option was made for; \<open>CHECK\<close> constraints hold of the row proposed as well as of the row written.
\<close>

section \<open>The tables\<close>

record item_row =
  ir_item :: item
  ir_availability :: "(string \<times> string list) list"

record group_row =
  gr_item_id :: string
  gr_group :: choice_group

record choice_row =
  cr_group_id :: string
  cr_choice :: choice
  cr_position :: nat

record combo_row =
  br_combo :: combo
  br_availability :: "(string \<times> string list) list"

record combo_line_row =
  lr_combo_id :: string
  lr_line :: combo_line

record catalogue_tables = merchant_tables +
  kt_categories :: "menu_category list"
  kt_items :: "item_row list"
  kt_variant_groups :: "group_row list"
  kt_variant_options :: "choice_row list"
  kt_add_on_groups :: "group_row list"
  kt_add_on_options :: "choice_row list"
  kt_combos :: "combo_row list"
  kt_combo_lines :: "combo_line_row list"

type_synonym ('z, 'a) menu_op = "('z catalogue_tables_scheme, 'a) op"

definition catalogue_sentinel :: "catalogue_err \<Rightarrow> error" where
  "catalogue_sentinel e = Sentinel (catalogue_err_text e)"

definition broken_row :: error where
  "broken_row = Sentinel ''the row breaks a constraint of the table''"

definition fits32 :: "int \<Rightarrow> bool" where
  "fits32 n \<longleftrightarrow> - (2 ^ 31) \<le> n \<and> n < 2 ^ 31"

definition shop_known :: "'z merchant_tables_scheme \<Rightarrow> string \<Rightarrow> bool" where
  "shop_known s shop \<longleftrightarrow> list_ex (\<lambda>r. mc_id (sh_shop r) = shop) (mt_shops s)"

text \<open>One statement or one transaction: all of it or, where a constraint breaks, nothing.\<close>

definition committed :: "('s \<Rightarrow> 's option) \<Rightarrow> ('s, unit) op" where
  "committed f = db_call (\<lambda>s. case f s of None \<Rightarrow> (Inl broken_row, s) | Some t \<Rightarrow> (Inr (), t))"

section \<open>Categories\<close>

definition category_before :: "menu_category \<Rightarrow> menu_category \<Rightarrow> bool" where
  "category_before a b \<longleftrightarrow> mg_sort_order a < mg_sort_order b \<or> mg_sort_order a = mg_sort_order b \<and> mg_id a < mg_id b"

definition categories_of :: "string \<Rightarrow> ('z, menu_category list) menu_op" where
  "categories_of shop = db_read (\<lambda>s. Inr (stable_sort category_before (filter (\<lambda>c. mg_merchant_id c = shop) (kt_categories s))))"

definition category_of :: "string \<Rightarrow> string \<Rightarrow> ('z, menu_category) menu_op" where
  "category_of shop k = db_read (\<lambda>s. case find (\<lambda>c. mg_merchant_id c = shop \<and> mg_id c = k) (kt_categories s) of
     None \<Rightarrow> Inl (catalogue_sentinel ErrCategoryNotFound) | Some c \<Rightarrow> Inr c)"

definition put_category :: "menu_category \<Rightarrow> menu_category list \<Rightarrow> menu_category list" where
  "put_category c rows =
     (if list_ex (\<lambda>r. mg_id r = mg_id c) rows
      then map (\<lambda>r. if mg_id r = mg_id c then c\<lparr>mg_merchant_id := mg_merchant_id r\<rparr> else r) rows
      else rows @ [c])"

definition write_category :: "menu_category \<Rightarrow> 'z catalogue_tables_scheme \<Rightarrow> 'z catalogue_tables_scheme option" where
  "write_category c s =
     (if fits32 (mg_sort_order c) \<and> (list_ex (\<lambda>r. mg_id r = mg_id c) (kt_categories s) \<or> shop_known s (mg_merchant_id c))
      then Some (s\<lparr>kt_categories := put_category c (kt_categories s)\<rparr>) else None)"

definition save_category :: "menu_category \<Rightarrow> ('z, unit) menu_op" where
  "save_category c = committed (write_category c)"

text \<open>\<open>ON DELETE RESTRICT\<close>: no item is filed under it.\<close>

definition erase_category :: "string \<Rightarrow> string \<Rightarrow> 'z catalogue_tables_scheme \<Rightarrow> 'z catalogue_tables_scheme option" where
  "erase_category shop k s =
     (let gone = (\<lambda>c. mg_merchant_id c = shop \<and> mg_id c = k)
      in if list_ex gone (kt_categories s) \<and> list_ex (\<lambda>r. it_category_id (ir_item r) = k) (kt_items s) then None
         else Some (s\<lparr>kt_categories := filter (\<lambda>c. \<not> gone c) (kt_categories s)\<rparr>))"

definition delete_category :: "string \<Rightarrow> string \<Rightarrow> ('z, unit) menu_op" where
  "delete_category shop k = committed (erase_category shop k)"

section \<open>Reading items\<close>

definition scan_availability :: "(string \<times> string list) list \<Rightarrow> error + availability" where
  "scan_availability encoded = lift_domain schedule_sentinel (decode_availability encoded)"

definition scan_item :: "item_row \<Rightarrow> error + item" where
  "scan_item r =
     (let i = ir_item r
      in rbind (lift_domain catalogue_sentinel (parse_merchant_type (it_merchant_type i))) (\<lambda>kind.
         rbind (if at_unit (it_attributes i) = [] then Inr []
                else lift_domain catalogue_sentinel (parse_unit (at_unit (it_attributes i)))) (\<lambda>unit.
         rbind (scan_availability (ir_availability r)) (\<lambda>a.
         Inr (i\<lparr>it_merchant_type := kind, it_price := taka (m_minor (it_price i)),
                it_attributes := (it_attributes i)\<lparr>at_unit := unit\<rparr>, it_availability := a,
                it_variant_groups := [], it_add_on_groups := []\<rparr>)))))"

definition group_row_before :: "group_row \<Rightarrow> group_row \<Rightarrow> bool" where
  "group_row_before a b \<longleftrightarrow> vg_sort_order (gr_group a) < vg_sort_order (gr_group b) \<or>
     vg_sort_order (gr_group a) = vg_sort_order (gr_group b) \<and> vg_id (gr_group a) < vg_id (gr_group b)"

definition choice_row_before :: "choice_row \<Rightarrow> choice_row \<Rightarrow> bool" where
  "choice_row_before a b \<longleftrightarrow> cr_position a < cr_position b \<or>
     cr_position a = cr_position b \<and> vo_id (cr_choice a) < vo_id (cr_choice b)"

text \<open>The rows of the join, folded into the groups of one item and their options.\<close>

definition options_of_group :: "choice_row list \<Rightarrow> string \<Rightarrow> choice list" where
  "options_of_group opts gid = map (\<lambda>x. (cr_choice x)\<lparr>vo_price := taka (m_minor (vo_price (cr_choice x)))\<rparr>) (stable_sort choice_row_before (filter (\<lambda>x. cr_group_id x = gid) opts))"

definition groups_of_item :: "group_row list \<Rightarrow> choice_row list \<Rightarrow> string \<Rightarrow> choice_group list" where
  "groups_of_item grps opts k = map (\<lambda>r. (gr_group r)\<lparr>vg_options := options_of_group opts (vg_id (gr_group r))\<rparr>)
     (stable_sort group_row_before (filter (\<lambda>r. gr_item_id r = k) grps))"

definition variant_groups_for :: "('z, string \<Rightarrow> choice_group list) menu_op" where
  "variant_groups_for = db_read (\<lambda>s. Inr (groups_of_item (kt_variant_groups s) (kt_variant_options s)))"

definition add_on_groups_for :: "('z, string \<Rightarrow> add_on_group list) menu_op" where
  "add_on_groups_for = db_read (\<lambda>s. Inr (groups_of_item (kt_add_on_groups s) (kt_add_on_options s)))"

definition attach_choices :: "item list \<Rightarrow> ('z, item list) menu_op" where
  "attach_choices items =
     (if items = [] then ret []
      else and_then variant_groups_for (\<lambda>variants. and_then add_on_groups_for (\<lambda>add_ons.
           ret (map (\<lambda>i. i\<lparr>it_variant_groups := variants (it_id i), it_add_on_groups := add_ons (it_id i)\<rparr>) items))))"

record item_filter =
  if_merchant_id :: string
  if_category_id :: string
  if_active_only :: bool
  if_search :: string
  if_limit :: int64
  if_offset :: int64

text \<open>SQL's \<open>LIKE\<close>: a percent sign is any text, an underscore one character, a backslash takes the next byte literally.\<close>

definition after_char :: "string \<Rightarrow> string" where
  "after_char t = drop (max 1 (rune_width (map of_char t))) t"

function like :: "string \<Rightarrow> string \<Rightarrow> bool" where
  "like [] t = (t = [])"
| "like (p # ps) t =
     (if p = CHR ''%'' then if t = [] then like ps t else like ps t \<or> like (p # ps) (after_char t)
      else if t = [] then False
      else if p = CHR ''_'' then like ps (after_char t)
      else if p = CHR 0x5C then (case ps of [] \<Rightarrow> False | q # qs \<Rightarrow> q = hd t \<and> like qs (tl t))
      else p = hd t \<and> like ps (tl t))"
  by pat_completeness auto

termination
  by (relation "measure (\<lambda>(p, t). length p + length t)") (auto simp: after_char_def)

definition item_wanted :: "item_filter \<Rightarrow> item \<Rightarrow> bool" where
  "item_wanted f i \<longleftrightarrow> it_merchant_id i = if_merchant_id f \<and> (if_category_id f = [] \<or> it_category_id i = if_category_id f) \<and>
     (\<not> if_active_only f \<or> it_active i) \<and>
     (trim_space (if_search f) = [] \<or> like (''%'' @ to_lower (trim_space (if_search f)) @ ''%'') (to_lower (it_name i)))"

definition item_before :: "item_row \<Rightarrow> item_row \<Rightarrow> bool" where
  "item_before a b \<longleftrightarrow> it_sort_order (ir_item a) < it_sort_order (ir_item b) \<or>
     it_sort_order (ir_item a) = it_sort_order (ir_item b) \<and> it_id (ir_item a) < it_id (ir_item b)"

definition find_items :: "item_filter \<Rightarrow> ('z, item list) menu_op" where
  "find_items f = and_then (db_read (\<lambda>s. rmap scan_item (take (nat (if_limit f)) (drop (nat (if_offset f))
     (stable_sort item_before (filter (\<lambda>r. item_wanted f (ir_item r)) (kt_items s))))))) attach_choices"

definition item_of :: "string \<Rightarrow> string \<Rightarrow> ('z, item) menu_op" where
  "item_of shop k =
     and_then (db_read (\<lambda>s. case find (\<lambda>r. it_merchant_id (ir_item r) = shop \<and> it_id (ir_item r) = k) (kt_items s) of
         None \<Rightarrow> Inl (catalogue_sentinel ErrItemNotFound) | Some r \<Rightarrow> scan_item r)) (\<lambda>i.
     and_then (attach_choices [i]) (\<lambda>found. ret (hd found)))"

definition items_by_id :: "string \<Rightarrow> string list \<Rightarrow> ('z, item list) menu_op" where
  "items_by_id shop ids =
     (if ids = [] then ret []
      else and_then (db_read (\<lambda>s. rmap scan_item (stable_sort item_before
             (filter (\<lambda>r. it_merchant_id (ir_item r) = shop \<and> it_id (ir_item r) \<in> set ids) (kt_items s))))) attach_choices)"

definition count_items :: "string \<Rightarrow> string \<Rightarrow> ('z, nat) menu_op" where
  "count_items shop k = db_read (\<lambda>s. Inr (length (filter (\<lambda>r. it_merchant_id (ir_item r) = shop \<and>
     it_category_id (ir_item r) = k) (kt_items s))))"

section \<open>Writing items\<close>

definition item_fits_table :: "item \<Rightarrow> bool" where
  "item_fits_table i \<longleftrightarrow> it_merchant_type i \<in> set all_merchant_types \<and> 0 \<le> m_minor (it_price i) \<and>
     fits32 (st_quantity (it_stock i)) \<and> 0 \<le> st_quantity (it_stock i) \<and>
     fits32 (at_minutes (it_attributes i)) \<and> 0 \<le> at_minutes (it_attributes i) \<and> fits32 (it_sort_order i) \<and>
     (at_prescription (it_attributes i) \<longrightarrow> it_merchant_type i = kind_pharmacy)"

definition row_of_item :: "item \<Rightarrow> item_row" where
  "row_of_item i = \<lparr>ir_item = i\<lparr>it_availability := always_available, it_variant_groups := [], it_add_on_groups := []\<rparr>,
     ir_availability = encode_availability (it_availability i)\<rparr>"

definition overwrite_item :: "item_row \<Rightarrow> item \<Rightarrow> item_row" where
  "overwrite_item old i = row_of_item (i\<lparr>it_merchant_id := it_merchant_id (ir_item old),
     it_merchant_type := it_merchant_type (ir_item old)\<rparr>)"

definition put_item :: "item \<Rightarrow> item_row list \<Rightarrow> item_row list" where
  "put_item i rows =
     (if list_ex (\<lambda>r. it_id (ir_item r) = it_id i) rows
      then map (\<lambda>r. if it_id (ir_item r) = it_id i then overwrite_item r i else r) rows
      else rows @ [row_of_item i])"

definition group_fits_table :: "choice_group \<Rightarrow> bool" where
  "group_fits_table g \<longleftrightarrow> 0 \<le> vg_min g \<and> 1 \<le> vg_max g \<and> vg_min g \<le> vg_max g \<and> fits32 (vg_max g) \<and> fits32 (vg_sort_order g)"

definition put_group :: "string \<Rightarrow> choice_group \<Rightarrow> group_row list \<Rightarrow> group_row list" where
  "put_group k g rows =
     (if list_ex (\<lambda>r. vg_id (gr_group r) = vg_id g) rows
      then map (\<lambda>r. if vg_id (gr_group r) = vg_id g then r\<lparr>gr_group := g\<lparr>vg_options := []\<rparr>\<rparr> else r) rows
      else rows @ [\<lparr>gr_item_id = k, gr_group = g\<lparr>vg_options := []\<rparr>\<rparr>])"

definition put_choice :: "string \<Rightarrow> nat \<times> choice \<Rightarrow> choice_row list \<Rightarrow> choice_row list" where
  "put_choice gid px rows =
     (if list_ex (\<lambda>r. vo_id (cr_choice r) = vo_id (snd px)) rows
      then map (\<lambda>r. if vo_id (cr_choice r) = vo_id (snd px) then r\<lparr>cr_choice := snd px, cr_position := fst px\<rparr> else r) rows
      else rows @ [\<lparr>cr_group_id = gid, cr_choice = snd px, cr_position = fst px\<rparr>])"

text \<open>The options of a group that are absent go, the others are written in their order.\<close>

definition write_choices :: "choice_group \<Rightarrow> choice_row list \<Rightarrow> choice_row list" where
  "write_choices g opts = foldl (\<lambda>rows px. put_choice (vg_id g) px rows)
     (filter (\<lambda>r. \<not> (cr_group_id r = vg_id g \<and> vo_id (cr_choice r) \<notin> set (map vo_id (vg_options g)))) opts)
     (zip [0..<length (vg_options g)] (vg_options g))"

text \<open>\<open>fits\<close> is the table's constraint on an option; \<open>None\<close> is a violated constraint.\<close>

fun write_each_group :: "(choice \<Rightarrow> bool) \<Rightarrow> string \<Rightarrow> choice_group list \<Rightarrow> group_row list \<times> choice_row list \<Rightarrow>
    (group_row list \<times> choice_row list) option" where
  "write_each_group fits k [] (grps, opts) = Some (grps, opts)"
| "write_each_group fits k (g # gs) (grps, opts) =
     (if group_fits_table g \<and> list_all fits (vg_options g)
      then write_each_group fits k gs (put_group k g grps, write_choices g opts) else None)"

text \<open>Groups that are absent go, and their options with them.\<close>

definition write_groups :: "(choice \<Rightarrow> bool) \<Rightarrow> string \<Rightarrow> choice_group list \<Rightarrow> group_row list \<times> choice_row list \<Rightarrow>
    (group_row list \<times> choice_row list) option" where
  "write_groups fits k gs t =
     (let pruned = (\<lambda>r. gr_item_id r = k \<and> vg_id (gr_group r) \<notin> set (map vg_id gs));
          gone = set (map (\<lambda>r. vg_id (gr_group r)) (filter pruned (fst t)))
      in write_each_group fits k gs (filter (\<lambda>r. \<not> pruned r) (fst t), filter (\<lambda>x. cr_group_id x \<notin> gone) (snd t)))"

definition write_option_groups :: "item \<Rightarrow> 'z catalogue_tables_scheme \<Rightarrow> 'z catalogue_tables_scheme option" where
  "write_option_groups i s =
     (case write_groups (\<lambda>_. True) (it_id i) (it_variant_groups i) (kt_variant_groups s, kt_variant_options s) of None \<Rightarrow> None
      | Some (vg, vo) \<Rightarrow>
         (case write_groups (\<lambda>x. 0 \<le> m_minor (vo_price x)) (it_id i) (it_add_on_groups i) (kt_add_on_groups s, kt_add_on_options s) of
            None \<Rightarrow> None
          | Some (ag, ao) \<Rightarrow> Some (s\<lparr>kt_variant_groups := vg, kt_variant_options := vo,
              kt_add_on_groups := ag, kt_add_on_options := ao\<rparr>)))"

text \<open>The section must be there, and the shop when the row is new.\<close>

definition write_item :: "item \<Rightarrow> 'z catalogue_tables_scheme \<Rightarrow> 'z catalogue_tables_scheme option" where
  "write_item i s =
     (let rows = put_item i (kt_items s)
      in if item_fits_table i \<and> list_all (\<lambda>r. it_id (ir_item r) = it_id i \<longrightarrow> item_fits_table (ir_item r)) rows \<and>
            list_ex (\<lambda>c. mg_id c = it_category_id i) (kt_categories s) \<and>
            (list_ex (\<lambda>r. it_id (ir_item r) = it_id i) (kt_items s) \<or> shop_known s (it_merchant_id i))
         then write_option_groups i (s\<lparr>kt_items := rows\<rparr>) else None)"

fun write_items :: "item list \<Rightarrow> 'z catalogue_tables_scheme \<Rightarrow> 'z catalogue_tables_scheme option" where
  "write_items [] s = Some s"
| "write_items (i # is) s = (case write_item i s of None \<Rightarrow> None | Some t \<Rightarrow> write_items is t)"

definition save_item :: "item \<Rightarrow> ('z, unit) menu_op" where
  "save_item i = committed (write_item i)"

definition save_items :: "item list \<Rightarrow> ('z, unit) menu_op" where
  "save_items is = committed (write_items is)"

text \<open>Groups and options go with the item; \<open>ON DELETE RESTRICT\<close>: no combo sells it.\<close>

definition drop_items :: "(item \<Rightarrow> bool) \<Rightarrow> 'z catalogue_tables_scheme \<Rightarrow> 'z catalogue_tables_scheme" where
  "drop_items gone s =
     (let keep_item = (\<lambda>k. \<not> list_ex (\<lambda>r. gone (ir_item r) \<and> it_id (ir_item r) = k) (kt_items s));
          keep_option = (\<lambda>grps x. \<not> list_ex (\<lambda>r. \<not> keep_item (gr_item_id r) \<and> vg_id (gr_group r) = cr_group_id x) grps)
      in s\<lparr>kt_items := filter (\<lambda>r. \<not> gone (ir_item r)) (kt_items s),
           kt_variant_groups := filter (\<lambda>r. keep_item (gr_item_id r)) (kt_variant_groups s),
           kt_variant_options := filter (keep_option (kt_variant_groups s)) (kt_variant_options s),
           kt_add_on_groups := filter (\<lambda>r. keep_item (gr_item_id r)) (kt_add_on_groups s),
           kt_add_on_options := filter (keep_option (kt_add_on_groups s)) (kt_add_on_options s)\<rparr>)"

definition erase_item :: "string \<Rightarrow> string \<Rightarrow> 'z catalogue_tables_scheme \<Rightarrow> 'z catalogue_tables_scheme option" where
  "erase_item shop k s =
     (let gone = (\<lambda>i. it_merchant_id i = shop \<and> it_id i = k)
      in if list_ex (\<lambda>r. gone (ir_item r)) (kt_items s) \<and> list_ex (\<lambda>l. bi_item_id (lr_line l) = k) (kt_combo_lines s)
         then None else Some (drop_items gone s))"

definition delete_item :: "string \<Rightarrow> string \<Rightarrow> ('z, unit) menu_op" where
  "delete_item shop k = committed (erase_item shop k)"

section \<open>Combos\<close>

definition scan_combo :: "combo_row \<Rightarrow> error + combo" where
  "scan_combo r =
     (let c = br_combo r
      in rbind (lift_domain catalogue_sentinel (parse_merchant_type (cb_merchant_type c))) (\<lambda>kind.
         rbind (scan_availability (br_availability r)) (\<lambda>a.
         Inr (c\<lparr>cb_merchant_type := kind, cb_price := taka (m_minor (cb_price c)), cb_availability := a, cb_lines := []\<rparr>))))"

definition combo_before :: "combo_row \<Rightarrow> combo_row \<Rightarrow> bool" where
  "combo_before a b \<longleftrightarrow> cb_sort_order (br_combo a) < cb_sort_order (br_combo b) \<or>
     cb_sort_order (br_combo a) = cb_sort_order (br_combo b) \<and> cb_id (br_combo a) < cb_id (br_combo b)"

definition line_before :: "combo_line_row \<Rightarrow> combo_line_row \<Rightarrow> bool" where
  "line_before a b \<longleftrightarrow> bi_item_id (lr_line a) < bi_item_id (lr_line b)"

definition lines_of_combo :: "combo_line_row list \<Rightarrow> string \<Rightarrow> combo_line list" where
  "lines_of_combo rows k = map lr_line (stable_sort line_before (filter (\<lambda>r. lr_combo_id r = k) rows))"

definition attach_lines :: "combo list \<Rightarrow> ('z, combo list) menu_op" where
  "attach_lines combos =
     (if combos = [] then ret []
      else and_then (db_read (\<lambda>s. Inr (lines_of_combo (kt_combo_lines s)))) (\<lambda>ls.
           ret (map (\<lambda>c. c\<lparr>cb_lines := ls (cb_id c)\<rparr>) combos)))"

definition combos_of :: "string \<Rightarrow> bool \<Rightarrow> ('z, combo list) menu_op" where
  "combos_of shop active_only = and_then (db_read (\<lambda>s. rmap scan_combo (stable_sort combo_before
     (filter (\<lambda>r. cb_merchant_id (br_combo r) = shop \<and> (\<not> active_only \<or> cb_active (br_combo r))) (kt_combos s))))) attach_lines"

definition combo_of :: "string \<Rightarrow> string \<Rightarrow> ('z, combo) menu_op" where
  "combo_of shop k =
     and_then (db_read (\<lambda>s. case find (\<lambda>r. cb_merchant_id (br_combo r) = shop \<and> cb_id (br_combo r) = k) (kt_combos s) of
         None \<Rightarrow> Inl (catalogue_sentinel ErrComboNotFound) | Some r \<Rightarrow> scan_combo r)) (\<lambda>c.
     and_then (attach_lines [c]) (\<lambda>found. ret (hd found)))"

definition combo_fits_table :: "combo \<Rightarrow> bool" where
  "combo_fits_table c \<longleftrightarrow> cb_merchant_type c \<in> set all_merchant_types \<and> 0 \<le> m_minor (cb_price c) \<and> fits32 (cb_sort_order c)"

definition row_of_combo :: "combo \<Rightarrow> combo_row" where
  "row_of_combo c = \<lparr>br_combo = c\<lparr>cb_availability := always_available, cb_lines := []\<rparr>,
     br_availability = encode_availability (cb_availability c)\<rparr>"

definition put_combo :: "combo \<Rightarrow> combo_row list \<Rightarrow> combo_row list" where
  "put_combo c rows =
     (if list_ex (\<lambda>r. cb_id (br_combo r) = cb_id c) rows
      then map (\<lambda>r. if cb_id (br_combo r) = cb_id c then row_of_combo (c\<lparr>cb_merchant_id := cb_merchant_id (br_combo r),
             cb_merchant_type := cb_merchant_type (br_combo r)\<rparr>) else r) rows
      else rows @ [row_of_combo c])"

definition put_line :: "string \<Rightarrow> combo_line_row list \<Rightarrow> combo_line \<Rightarrow> combo_line_row list" where
  "put_line k rows l =
     (if list_ex (\<lambda>r. lr_combo_id r = k \<and> bi_item_id (lr_line r) = bi_item_id l) rows
      then map (\<lambda>r. if lr_combo_id r = k \<and> bi_item_id (lr_line r) = bi_item_id l then r\<lparr>lr_line := l\<rparr> else r) rows
      else rows @ [\<lparr>lr_combo_id = k, lr_line = l\<rparr>])"

definition write_lines :: "combo \<Rightarrow> combo_line_row list \<Rightarrow> combo_line_row list" where
  "write_lines c rows = foldl (put_line (cb_id c))
     (filter (\<lambda>r. \<not> (lr_combo_id r = cb_id c \<and> bi_item_id (lr_line r) \<notin> set (combo_item_ids c))) rows) (cb_lines c)"

definition write_combo :: "combo \<Rightarrow> 'z catalogue_tables_scheme \<Rightarrow> 'z catalogue_tables_scheme option" where
  "write_combo c s =
     (if combo_fits_table c \<and> list_all (\<lambda>l. 1 \<le> bi_quantity l \<and> fits32 (bi_quantity l)) (cb_lines c) \<and>
         list_all (\<lambda>l. list_ex (\<lambda>r. it_id (ir_item r) = bi_item_id l) (kt_items s)) (cb_lines c) \<and>
         (list_ex (\<lambda>r. cb_id (br_combo r) = cb_id c) (kt_combos s) \<or> shop_known s (cb_merchant_id c))
      then Some (s\<lparr>kt_combos := put_combo c (kt_combos s), kt_combo_lines := write_lines c (kt_combo_lines s)\<rparr>) else None)"

definition save_combo :: "combo \<Rightarrow> ('z, unit) menu_op" where
  "save_combo c = committed (write_combo c)"

definition erase_combo :: "string \<Rightarrow> string \<Rightarrow> 'z catalogue_tables_scheme \<Rightarrow> 'z catalogue_tables_scheme option" where
  "erase_combo shop k s =
     (let gone = (\<lambda>r. cb_merchant_id (br_combo r) = shop \<and> cb_id (br_combo r) = k)
      in Some (s\<lparr>kt_combos := filter (\<lambda>r. \<not> gone r) (kt_combos s),
           kt_combo_lines := filter (\<lambda>l. \<not> list_ex (\<lambda>r. gone r \<and> cb_id (br_combo r) = lr_combo_id l) (kt_combos s)) (kt_combo_lines s)\<rparr>))"

definition delete_combo :: "string \<Rightarrow> string \<Rightarrow> ('z, unit) menu_op" where
  "delete_combo shop k = committed (erase_combo shop k)"

end
