(* ===== verification/Paging.thy ===== *)
theory Paging
  imports Errs Crypto
begin

text \<open>
  \<open>shared/paging/paging.go\<close>: pages of a list and the opaque cursors between them.  A cursor reads back
  as the place it was made for, and following it continues a list where its last page stopped.
\<close>

definition default_page_limit :: int64 where "default_page_limit = 20"
definition max_page_limit :: int64 where "max_page_limit = 100"

definition invalid_cursor :: error where "invalid_cursor = Sentinel ''invalid cursor''"

record page =
  pg_limit :: int64
  pg_offset :: int64

definition new_page :: "int64 \<Rightarrow> int64 \<Rightarrow> error + page" where
  "new_page limit offset =
     (if offset < 0 then Inl invalid_cursor
      else Inr \<lparr>pg_limit = (if limit \<le> 0 then default_page_limit else if limit > max_page_limit then max_page_limit else limit),
             pg_offset = offset\<rparr>)"

definition encode_cursor :: "int64 \<Rightarrow> string" where
  "encode_cursor offset = b64_encode (bytes_of (''o:'' @ itoa offset))"

definition decode_cursor :: "string \<Rightarrow> error + int64" where
  "decode_cursor s =
     (if s = [] then Inr 0
      else case b64_decode s of None \<Rightarrow> Inl invalid_cursor
        | Some raw \<Rightarrow> (let t = map char_of raw
            in if \<not> has_prefix t ''o:'' then Inl invalid_cursor
               else case atoi (drop 2 t) of None \<Rightarrow> Inl invalid_cursor
                 | Some offset \<Rightarrow> if offset < 0 then Inl invalid_cursor else Inr offset))"

record 'a page_result =
  ps_items :: "'a list"
  ps_next_cursor :: string
  ps_has_more :: bool
  ps_count :: int64

definition new_result :: "'a list \<Rightarrow> page \<Rightarrow> int64 \<Rightarrow> 'a page_result" where
  "new_result items p n =
     (let more = int (length items) > pg_limit p
      in \<lparr>ps_items = (if more then take (nat (pg_limit p)) items else items),
          ps_next_cursor = (if more then encode_cursor (add64 (pg_offset p) (pg_limit p)) else []),
          ps_has_more = more, ps_count = n\<rparr>)"

lemma bytes_back: "map char_of (bytes_of s) = s"
  by (induction s) (simp_all add: bytes_of_def)

lemma bytes_small: "list_all (\<lambda>b. b < 256) (bytes_of s)"
  by (auto simp: bytes_of_def list_all_iff)

lemma b64_encode_nonempty: "bs \<noteq> [] \<Longrightarrow> b64_encode bs \<noteq> []"
  by (cases bs rule: b64_encode.cases) auto

theorem cursor_reads_back:
  assumes "fits64 n" "0 \<le> n"
  shows "decode_cursor (encode_cursor n) = Inr n"
proof -
  let ?t = "''o:'' @ itoa n"
  have "encode_cursor n \<noteq> []" unfolding encode_cursor_def by (rule b64_encode_nonempty) (simp add: bytes_of_def)
  moreover have "b64_decode (encode_cursor n) = Some (bytes_of ?t)"
    unfolding encode_cursor_def by (rule b64_decode_encode [OF bytes_small])
  ultimately show ?thesis
    using assms by (simp add: decode_cursor_def bytes_back has_prefix_def atoi_itoa [OF assms(1)])
qed

text \<open>The caller fetches one row more than a page holds.\<close>

definition fetched :: "'a list \<Rightarrow> page \<Rightarrow> 'a list" where
  "fetched rows p = take (nat (pg_limit p) + 1) (drop (nat (pg_offset p)) rows)"

lemma page_limits: "new_page limit offset = Inr p \<Longrightarrow> 1 \<le> pg_limit p \<and> pg_limit p \<le> 100 \<and> pg_offset p = offset \<and> 0 \<le> offset"
  by (auto simp: new_page_def default_page_limit_def max_page_limit_def split: if_splits)

lemma new_page_ok: "0 \<le> offset \<Longrightarrow> \<exists>p. new_page limit offset = Inr p"
  by (simp add: new_page_def)

lemma one_page:
  assumes "new_page limit offset = Inr p" "fits64 (offset + 100)" "offset \<le> int (length rows)"
  shows "ps_items (new_result (fetched rows p) p n) = take (nat (pg_limit p)) (drop (nat offset) rows)"
    and "ps_has_more (new_result (fetched rows p) p n) \<longleftrightarrow> offset + pg_limit p < int (length rows)"
    and "ps_has_more (new_result (fetched rows p) p n) \<Longrightarrow>
      decode_cursor (ps_next_cursor (new_result (fetched rows p) p n)) = Inr (offset + pg_limit p)"
proof -
  note p = page_limits [OF assms(1)]
  let ?left = "drop (nat offset) rows"
  have more: "int (length (fetched rows p)) > pg_limit p \<longleftrightarrow> offset + pg_limit p < int (length rows)"
    using p assms(3) by (auto simp: fetched_def)
  show has: "ps_has_more (new_result (fetched rows p) p n) \<longleftrightarrow> offset + pg_limit p < int (length rows)"
    using more by (simp add: new_result_def Let_def)
  show "ps_items (new_result (fetched rows p) p n) = take (nat (pg_limit p)) ?left"
  proof (cases "offset + pg_limit p < int (length rows)")
    case True
    then show ?thesis using more p by (simp add: new_result_def Let_def fetched_def min_def)
  next
    case False
    then have "length ?left \<le> nat (pg_limit p)" using p by simp
    then show ?thesis using False more p by (simp add: new_result_def Let_def fetched_def)
  qed
  have "fits64 (offset + pg_limit p)" using p assms(2) by (simp add: fits64_def)
  then show "ps_has_more (new_result (fetched rows p) p n) \<Longrightarrow>
      decode_cursor (ps_next_cursor (new_result (fetched rows p) p n)) = Inr (offset + pg_limit p)"
    using more p cursor_reads_back [of "offset + pg_limit p"] has by (simp add: new_result_def Let_def add64_def)
qed

text \<open>A client that asks for page after page with the cursors it is given.\<close>

fun walk :: "nat \<Rightarrow> 'a list \<Rightarrow> int64 \<Rightarrow> string \<Rightarrow> 'a list option" where
  "walk 0 rows limit cursor = None"
| "walk (Suc k) rows limit cursor =
     (case rbind (decode_cursor cursor) (new_page limit) of Inl _ \<Rightarrow> None
      | Inr p \<Rightarrow> (let r = new_result (fetched rows p) p (int (length rows))
          in if ps_has_more r then map_option ((@) (ps_items r)) (walk k rows limit (ps_next_cursor r)) else Some (ps_items r)))"

lemma walk_from:
  assumes "decode_cursor cursor = Inr offset" "0 \<le> offset" "offset \<le> int (length rows)"
    and "fits64 (int (length rows) + 100)" "length rows - nat offset < k"
  shows "walk k rows limit cursor = Some (drop (nat offset) rows)"
  using assms
proof (induction k arbitrary: cursor offset)
  case (Suc k)
  obtain p where p: "new_page limit offset = Inr p" using new_page_ok Suc.prems(2) by blast
  let ?r = "new_result (fetched rows p) p (int (length rows))"
  have fits: "fits64 (offset + 100)" using Suc.prems by (simp add: fits64_def)
  note lim = page_limits [OF p]
  note page = one_page [OF p fits Suc.prems(3), of "int (length rows)"]
  show ?case
  proof (cases "ps_has_more ?r")
    case True
    then have go: "offset + pg_limit p < int (length rows)" and c: "decode_cursor (ps_next_cursor ?r) = Inr (offset + pg_limit p)"
      using page(2,3) by simp_all
    have "length rows - nat (offset + pg_limit p) < k" using go Suc.prems(2,5) lim by linarith
    then have "walk k rows limit (ps_next_cursor ?r) = Some (drop (nat (offset + pg_limit p)) rows)"
      using Suc.IH [OF c] Suc.prems(2,4) go lim by linarith
    moreover have "nat (offset + pg_limit p) = nat offset + nat (pg_limit p)" using Suc.prems(2) lim by linarith
    ultimately show ?thesis using True page(1) Suc.prems(1) p
      by (simp add: Let_def) (metis append_take_drop_id drop_drop add.commute)
  next
    case False
    then have "length (drop (nat offset) rows) \<le> nat (pg_limit p)" using page(2) Suc.prems(2) lim by simp
    then show ?thesis using False page(1) Suc.prems(1) p by (simp add: Let_def)
  qed
qed simp

text \<open>C39: A client that follows the cursors from the start, whatever page size it asks for, comes to an end after at most
  one page a row, and has then been given every row once and in order.\<close>

theorem cursors_walk_the_list:
  assumes "int (length rows) \<le> 9000000000000000000"
  shows "walk (length rows + 1) rows limit [] = Some rows"
  using walk_from [of "[]" 0 rows "length rows + 1" limit] assms by (simp add: decode_cursor_def fits64_def)

theorem cursors_walk_the_list_witness:
  "walk 4 ''abc'' 2 [] = Some ''abc''"
  using cursors_walk_the_list [of "''abc''" 2] by (simp add: eval_nat_numeral del: walk.simps)

end
