(* ===== verification/Catalogue_App.thy ===== *)
theory Catalogue_App
  imports Catalogue_Repo Paging
begin

text \<open>
  The use cases of \<open>modules/catalogue/application\<close>: an owner's sections, items, choices and combos, and the
  menu as customers and the other modules read it.  The shop is asked of the merchant module; the kind
  it answers decides what may be sold.
\<close>

section \<open>The shop\<close>

definition shop_of :: "string \<Rightarrow> ('z, shop_view \<times> string) menu_op" where
  "shop_of shop = and_then (find_shop shop) (\<lambda>found. case parse_merchant_type (sv_type found) of
     Inl e \<Rightarrow> raise_err (wrap (catalogue_sentinel e) KindInternal ''unknown_merchant_type'' ''We could not read that shop's details.'')
   | Inr kind \<Rightarrow> ret (found, kind))"

definition owned_shop :: "string \<Rightarrow> string \<Rightarrow> ('z, shop_view \<times> string) menu_op" where
  "owned_shop owner shop = and_then (shop_of shop) (\<lambda>(found, kind).
     if sv_owner found \<noteq> owner
     then raise_err (new_error KindForbidden ''not_your_shop'' ''You can only change your own shop's menu.'')
     else ret (found, kind))"

definition catalogue_unavailable :: "string \<Rightarrow> error \<Rightarrow> error" where
  "catalogue_unavailable msg e = wrap e KindUnavailable ''catalogue_unavailable'' msg"

definition missing_entry :: "string \<Rightarrow> string \<Rightarrow> string \<Rightarrow> string \<Rightarrow> error \<Rightarrow> error" where
  "missing_entry code msg field k e = with_field (wrap e KindNotFound code msg) field k"

definition entry_error :: "catalogue_err \<Rightarrow> error" where
  "entry_error e = (let invalid = wrap (catalogue_sentinel e) KindInvalid in case e of
     ErrEmptyEntryName \<Rightarrow> invalid ''name_required'' ''Please enter a name.''
   | ErrEntryNameTooLong \<Rightarrow> invalid ''text_too_long'' ''Some of that text is too long.''
   | ErrEntryTooLong \<Rightarrow> invalid ''text_too_long'' ''Some of that text is too long.''
   | ErrNoCategory \<Rightarrow> invalid ''category_required'' ''Please choose a category.''
   | ErrNegativePrice \<Rightarrow> invalid ''invalid_price'' ''A price cannot be negative.''
   | ErrInvalidImageURL \<Rightarrow> invalid ''invalid_image_url'' ''That image address is not valid.''
   | ErrAddOnsNotAllowed \<Rightarrow> invalid ''addons_not_allowed'' ''Add-ons are for restaurant items.''
   | ErrCombosNotAllowed \<Rightarrow> invalid ''combos_not_allowed'' ''This kind of shop does not offer combos.''
   | ErrUnitRequired \<Rightarrow> invalid ''unit_required''
       (''Please say how this is sold '' @ utf8 [0x2014] @ '' per kg, per piece, and so on.'')
   | ErrUnknownUnit \<Rightarrow> invalid ''unit_required''
       (''Please say how this is sold '' @ utf8 [0x2014] @ '' per kg, per piece, and so on.'')
   | ErrUnitNotAllowed \<Rightarrow> invalid ''unit_not_allowed'' ''A restaurant item is not sold by unit.''
   | ErrPrescriptionNotAllowed \<Rightarrow> invalid ''prescription_not_allowed'' ''Only a pharmacy can mark an item as needing a prescription.''
   | ErrStockNotTracked \<Rightarrow> invalid ''stock_not_tracked'' ''This kind of shop does not count stock.''
   | ErrNegativeStock \<Rightarrow> invalid ''invalid_stock'' ''A stock count cannot be negative.''
   | ErrNoOptions \<Rightarrow> invalid ''options_required'' ''Please add at least one option to that group.''
   | ErrTooManyOptions \<Rightarrow> invalid ''too_many_options'' ''That group has too many options.''
   | ErrDuplicateOption \<Rightarrow> invalid ''duplicate_option'' ''Two options in that group have the same name.''
   | ErrInvalidChoiceRange \<Rightarrow> invalid ''invalid_choice_range'' ''Those choice limits do not make sense.''
   | ErrEmptyCombo \<Rightarrow> invalid ''combo_too_small'' ''A combo needs at least two items.''
   | ErrComboTooLarge \<Rightarrow> invalid ''combo_too_large'' ''That combo has too many items.''
   | ErrDuplicateComboLine \<Rightarrow> invalid ''duplicate_combo_item'' ''That item is in the combo twice. Use the quantity instead.''
   | ErrInvalidQuantity \<Rightarrow> invalid ''invalid_quantity'' ''That quantity is not valid.''
   | _ \<Rightarrow> invalid ''invalid_entry'' ''Some of those details are not valid.'')"

text \<open>A read that may find nothing, as every use case answers it.\<close>

definition or_missing :: "catalogue_err \<Rightarrow> string \<Rightarrow> string \<Rightarrow> string \<Rightarrow> string \<Rightarrow> string \<Rightarrow> ('z, 'a) menu_op \<Rightarrow> ('z, 'a) menu_op" where
  "or_missing none code msg field k busy = or_wrap (\<lambda>e. if is_sentinel e (catalogue_err_text none)
     then missing_entry code msg field k e else catalogue_unavailable busy e)"

section \<open>Sections of a menu\<close>

definition max_categories_per_shop :: nat where "max_categories_per_shop = 50"

definition list_categories :: "string \<Rightarrow> ('z, menu_category list) menu_op" where
  "list_categories shop = or_wrap (catalogue_unavailable ''We could not load the menu just now. Please try again.'') (categories_of shop)"

record category_request =
  qc_name :: string
  qc_sort_order :: int64

definition section_not_saved :: "error \<Rightarrow> error" where
  "section_not_saved = catalogue_unavailable ''We could not save that section just now. Please try again.''"

definition create_category :: "string \<Rightarrow> string \<Rightarrow> category_request \<Rightarrow> ('z, menu_category) menu_op" where
  "create_category owner shop q =
     and_then (owned_shop owner shop) (\<lambda>_.
     and_then (or_wrap section_not_saved (categories_of shop)) (\<lambda>existing.
       if length existing \<ge> max_categories_per_shop
       then raise_err (new_error KindConflict ''too_many_categories''
         ''Your menu has as many sections as we can keep. Please remove one first.'')
       else and_then (fresh_id ''cat'') (\<lambda>k.
            and_then (lift_err (lift_domain entry_error (new_category k shop (qc_name q)
              (if qc_sort_order q = 0 then int (length existing) + 1 else qc_sort_order q)))) (\<lambda>c.
            and_then (or_wrap section_not_saved (save_category c)) (\<lambda>_. ret c)))))"

definition load_category :: "string \<Rightarrow> string \<Rightarrow> string \<Rightarrow> ('z, menu_category) menu_op" where
  "load_category owner shop k = and_then (owned_shop owner shop) (\<lambda>_.
     or_missing ErrCategoryNotFound ''category_not_found'' ''We could not find that section.'' ''category_id'' k
       ''We could not load that section just now. Please try again.'' (category_of shop k))"

definition update_category :: "string \<Rightarrow> string \<Rightarrow> string \<Rightarrow> category_request \<Rightarrow> ('z, menu_category) menu_op" where
  "update_category owner shop k q =
     and_then (load_category owner shop k) (\<lambda>c.
     and_then (lift_err (lift_domain entry_error (category_with_name c (qc_name q)))) (\<lambda>renamed.
       let updated = (if qc_sort_order q > 0 then category_with_sort_order renamed (qc_sort_order q) else renamed)
       in and_then (or_wrap section_not_saved (save_category updated)) (\<lambda>_. ret updated)))"

definition show_category :: "string \<Rightarrow> string \<Rightarrow> string \<Rightarrow> bool \<Rightarrow> ('z, menu_category) menu_op" where
  "show_category owner shop k b =
     and_then (load_category owner shop k) (\<lambda>c.
     and_then (or_wrap (catalogue_unavailable ''We could not update that section just now. Please try again.'')
       (save_category (category_with_active c b))) (\<lambda>_. ret (category_with_active c b)))"

definition remove_category :: "string \<Rightarrow> string \<Rightarrow> string \<Rightarrow> ('z, unit) menu_op" where
  "remove_category owner shop k =
     and_then (load_category owner shop k) (\<lambda>_.
     and_then (or_wrap (catalogue_unavailable ''We could not remove that section just now. Please try again.'') (count_items shop k)) (\<lambda>n.
       if n > 0 then raise_err (new_error KindConflict ''category_not_empty'' ''Please move or remove the items in that section first.'')
       else or_wrap (catalogue_unavailable ''We could not remove that section just now. Please try again.'') (delete_category shop k)))"

definition merchant_type_of :: "string \<Rightarrow> string \<Rightarrow> ('z, string) menu_op" where
  "merchant_type_of owner shop = and_then (owned_shop owner shop) (\<lambda>(_, kind). ret kind)"

section \<open>Items\<close>

definition max_bulk_items :: nat where "max_bulk_items = 200"

record list_request =
  ql_category_id :: string
  ql_active_only :: bool
  ql_search :: string
  ql_limit :: int64
  ql_offset :: int64

definition menu_not_loaded :: "error \<Rightarrow> error" where
  "menu_not_loaded = catalogue_unavailable ''We could not load the menu just now. Please try again.''"

definition list_items :: "string \<Rightarrow> list_request \<Rightarrow> ('z, item list) menu_op" where
  "list_items shop q = (case new_page (ql_limit q) (ql_offset q) of
     Inl e \<Rightarrow> raise_err (wrap e KindInvalid ''invalid_page'' ''That page is not valid.'')
   | Inr p \<Rightarrow> or_wrap menu_not_loaded (find_items \<lparr>if_merchant_id = shop, if_category_id = ql_category_id q,
       if_active_only = ql_active_only q, if_search = ql_search q, if_limit = pg_limit p, if_offset = pg_offset p\<rparr>))"

definition get_item :: "string \<Rightarrow> string \<Rightarrow> ('z, item) menu_op" where
  "get_item shop k = or_missing ErrItemNotFound ''item_not_found'' ''We could not find that item.'' ''item_id'' k
     ''We could not load that item just now. Please try again.'' (item_of shop k)"

record item_request =
  qi_category_id :: string
  qi_name :: string
  qi_description :: string
  qi_image_url :: string
  qi_price_minor :: int64
  qi_sort_order :: int64
  qi_vegetarian :: bool
  qi_minutes :: int64
  qi_unit :: string
  qi_pack_size :: string
  qi_brand :: string
  qi_generic_name :: string
  qi_strength :: string
  qi_prescription :: bool
  qi_stock :: "int64 option"

definition to_draft :: "item_request \<Rightarrow> error + item_draft" where
  "to_draft q =
     rbind (if qi_unit q = [] then Inr [] else lift_domain entry_error (parse_unit (qi_unit q))) (\<lambda>unit.
     rbind (case qi_stock q of None \<Rightarrow> Inr untracked | Some n \<Rightarrow> lift_domain entry_error (new_stock n)) (\<lambda>stock.
     Inr \<lparr>dw_category_id = qi_category_id q, dw_name = qi_name q, dw_description = qi_description q,
          dw_image_url = qi_image_url q, dw_price = taka (qi_price_minor q),
          dw_attributes = \<lparr>at_vegetarian = qi_vegetarian q, at_minutes = qi_minutes q, at_unit = unit,
            at_pack_size = qi_pack_size q, at_brand = qi_brand q, at_generic_name = qi_generic_name q,
            at_strength = qi_strength q, at_prescription = qi_prescription q\<rparr>,
          dw_stock = stock, dw_sort_order = qi_sort_order q\<rparr>))"

definition category_exists :: "string \<Rightarrow> string \<Rightarrow> ('z, unit) menu_op" where
  "category_exists shop k =
     (if k = [] then raise_err (entry_error ErrNoCategory)
      else and_then (or_missing ErrCategoryNotFound ''category_not_found'' ''We could not find that section.'' ''category_id'' k
             ''We could not check that section just now. Please try again.'' (category_of shop k)) (\<lambda>_. ret ()))"

definition item_not_saved :: "error \<Rightarrow> error" where
  "item_not_saved = catalogue_unavailable ''We could not save that item just now. Please try again.''"

definition keep_item :: "item \<Rightarrow> ('z, item) menu_op" where
  "keep_item i = and_then (or_wrap item_not_saved (save_item i)) (\<lambda>_. ret i)"

definition create_item :: "string \<Rightarrow> string \<Rightarrow> item_request \<Rightarrow> ('z, item) menu_op" where
  "create_item owner shop q =
     and_then (owned_shop owner shop) (\<lambda>(_, kind).
     and_then (category_exists shop (qi_category_id q)) (\<lambda>_.
     and_then (lift_err (to_draft q)) (\<lambda>d.
     and_then (fresh_id ''itm'') (\<lambda>k.
     and_then (lift_err (lift_domain entry_error (new_item k shop kind d))) keep_item))))"

definition owned_item :: "string \<Rightarrow> string \<Rightarrow> string \<Rightarrow> ('z, item \<times> string) menu_op" where
  "owned_item owner shop k = and_then (owned_shop owner shop) (\<lambda>(_, kind). and_then (get_item shop k) (\<lambda>i. ret (i, kind)))"

text \<open>An edit is built as a new item is; what an edit does not speak of is kept.\<close>

definition edited_item :: "item \<Rightarrow> item_request \<Rightarrow> item \<Rightarrow> item" where
  "edited_item existing q built = built\<lparr>it_active := it_active existing, it_availability := it_availability existing,
     it_variant_groups := it_variant_groups existing, it_add_on_groups := it_add_on_groups existing,
     it_stock := (if qi_stock q = None then it_stock existing else it_stock built)\<rparr>"

definition update_item :: "string \<Rightarrow> string \<Rightarrow> string \<Rightarrow> item_request \<Rightarrow> ('z, item) menu_op" where
  "update_item owner shop k q =
     and_then (owned_item owner shop k) (\<lambda>(existing, kind).
     and_then (category_exists shop (qi_category_id q)) (\<lambda>_.
     and_then (lift_err (to_draft q)) (\<lambda>d.
     and_then (lift_err (lift_domain entry_error (new_item (it_id existing) shop kind d))) (\<lambda>built.
     keep_item (edited_item existing q built)))))"

definition show_item :: "string \<Rightarrow> string \<Rightarrow> string \<Rightarrow> bool \<Rightarrow> ('z, item) menu_op" where
  "show_item owner shop k b = and_then (owned_item owner shop k) (\<lambda>(i, _). keep_item (item_with_active i b))"

definition set_stock :: "string \<Rightarrow> string \<Rightarrow> string \<Rightarrow> int64 \<Rightarrow> ('z, item) menu_op" where
  "set_stock owner shop k n =
     and_then (owned_item owner shop k) (\<lambda>(i, _).
     and_then (lift_err (lift_domain entry_error (rbind (new_stock n) (item_with_stock i)))) keep_item)"

record availability_request =
  qa_always :: bool
  qa_days :: "(string \<times> string list) list"

definition asked_availability :: "availability_request \<Rightarrow> error + availability" where
  "asked_availability q =
     (if qa_always q then Inr always_available
      else if qa_days q = [] then Inl (new_error KindInvalid ''availability_required''
        ''Please choose when this is available, or mark it always available.'')
      else case decode_availability (qa_days q) of
        Inl e \<Rightarrow> Inl (wrap (schedule_sentinel e) KindInvalid ''invalid_availability''
          ''Please write availability times like 07:00-11:00.'')
      | Inr a \<Rightarrow> Inr a)"

definition set_availability :: "string \<Rightarrow> string \<Rightarrow> string \<Rightarrow> availability_request \<Rightarrow> ('z, item) menu_op" where
  "set_availability owner shop k q =
     and_then (owned_item owner shop k) (\<lambda>(i, _).
     and_then (lift_err (asked_availability q)) (\<lambda>a. keep_item (item_with_availability i a)))"

definition remove_item :: "string \<Rightarrow> string \<Rightarrow> string \<Rightarrow> ('z, unit) menu_op" where
  "remove_item owner shop k = and_then (owned_item owner shop k) (\<lambda>_.
     or_wrap (catalogue_unavailable ''We could not remove that item just now. Please try again.'') (delete_item shop k))"

record bulk_change =
  hc_item_id :: string
  hc_price_minor :: "int64 option"
  hc_stock :: "int64 option"
  hc_active :: "bool option"

definition change_item :: "bulk_change \<Rightarrow> item \<Rightarrow> error + item" where
  "change_item c i =
     rbind (case hc_price_minor c of None \<Rightarrow> Inr i | Some n \<Rightarrow> lift_domain entry_error (item_with_price i (taka n))) (\<lambda>i.
     rbind (case hc_stock c of None \<Rightarrow> Inr i
       | Some n \<Rightarrow> lift_domain entry_error (rbind (new_stock n) (item_with_stock i))) (\<lambda>i.
     Inr (case hc_active c of None \<Rightarrow> i | Some b \<Rightarrow> item_with_active i b)))"

definition change_items :: "(string \<Rightarrow> item option) \<Rightarrow> bulk_change list \<Rightarrow> error + item list" where
  "change_items found = rmap (\<lambda>c. case found (hc_item_id c) of
     None \<Rightarrow> Inl (missing_entry ''item_not_found'' ''One of those items is not on this menu.'' ''item_id'' (hc_item_id c)
       (catalogue_sentinel ErrItemNotFound))
   | Some i \<Rightarrow> change_item c i)"

definition items_not_updated :: "error \<Rightarrow> error" where
  "items_not_updated = catalogue_unavailable ''We could not update those items just now. Please try again.''"

definition bulk_update :: "string \<Rightarrow> string \<Rightarrow> bulk_change list \<Rightarrow> ('z, item list) menu_op" where
  "bulk_update owner shop changes =
     and_then (owned_shop owner shop) (\<lambda>_.
       if changes = [] then raise_err (new_error KindInvalid ''no_changes'' ''There is nothing to update.'')
       else if length changes > max_bulk_items
         then raise_err (new_error KindInvalid ''too_many_changes'' ''Please update at most 200 items at a time.'')
       else and_then (or_wrap items_not_updated (items_by_id shop (map hc_item_id changes))) (\<lambda>found.
            and_then (lift_err (change_items (by_id found) changes)) (\<lambda>updated.
            and_then (or_wrap items_not_updated (save_items updated)) (\<lambda>_. ret updated))))"

section \<open>Choices\<close>

definition max_groups_per_item :: nat where "max_groups_per_item = 5"

record option_request =
  qo_id :: string
  qo_name :: string
  qo_price_minor :: int64
  qo_available :: "bool option"

record group_request =
  qg_id :: string
  qg_name :: string
  qg_required :: bool
  qg_min :: int64
  qg_max :: int64
  qg_sort_order :: int64
  qg_options :: "option_request list"

definition check_group_count :: "nat \<Rightarrow> error option" where
  "check_group_count n = (if n > max_groups_per_item
     then Some (new_error KindInvalid ''too_many_groups'' ''Please use at most 5 groups of choices on one item.'') else None)"

definition option_id :: "string \<Rightarrow> string \<Rightarrow> ('z, string) menu_op" where
  "option_id existing pre = (if existing \<noteq> [] then ret existing else fresh_id pre)"

definition build_option :: "(string \<Rightarrow> string \<Rightarrow> money \<Rightarrow> catalogue_err + choice) \<Rightarrow> string \<Rightarrow> option_request \<Rightarrow> ('z, choice) menu_op" where
  "build_option ctor pre q =
     and_then (option_id (qo_id q) pre) (\<lambda>k.
     and_then (lift_err (lift_domain entry_error (ctor k (qo_name q) (taka (qo_price_minor q))))) (\<lambda>built.
     ret (case qo_available q of None \<Rightarrow> built | Some b \<Rightarrow> built\<lparr>vo_available := b\<rparr>)))"

definition build_variant_group :: "group_request \<Rightarrow> ('z, choice_group) menu_op" where
  "build_variant_group q =
     and_then (map_each (build_option new_variant_option ''vop'') (qg_options q)) (\<lambda>options.
     and_then (option_id (qg_id q) ''vgr'') (\<lambda>k.
     and_then (lift_err (lift_domain entry_error (new_variant_group k (qg_name q) (qg_required q) (qg_min q) (qg_max q) options))) (\<lambda>g.
     ret (g\<lparr>vg_sort_order := qg_sort_order q\<rparr>))))"

definition build_add_on_group :: "group_request \<Rightarrow> ('z, add_on_group) menu_op" where
  "build_add_on_group q =
     and_then (map_each (build_option new_add_on ''aop'') (qg_options q)) (\<lambda>options.
     and_then (option_id (qg_id q) ''agr'') (\<lambda>k.
     and_then (lift_err (lift_domain entry_error (new_add_on_group k (qg_name q) (qg_min q) (qg_max q) options))) (\<lambda>g.
     ret (g\<lparr>vg_sort_order := qg_sort_order q\<rparr>))))"

text \<open>The \<open>Item{}\<close> that comes with an error nobody looks at.\<close>

definition zero_item :: item where
  "zero_item = \<lparr>it_id = [], it_merchant_id = [], it_merchant_type = [], it_category_id = [], it_name = [], it_description = [],
     it_image_url = [], it_price = money_zero_value, it_attributes = no_attributes, it_stock = untracked, it_active = False,
     it_availability = \<lparr>av_always = False, av_windows = no_week\<rparr>, it_variant_groups = [], it_add_on_groups = [], it_sort_order = 0\<rparr>"

definition keep_choices :: "item \<Rightarrow> ('z, item) menu_op" where
  "keep_choices i = and_then (or_wrap (catalogue_unavailable ''We could not save those choices just now. Please try again.'')
     (save_item i)) (\<lambda>_. ret i)"

definition item_to_choose :: "string \<Rightarrow> string \<Rightarrow> string \<Rightarrow> ('z, item) menu_op" where
  "item_to_choose owner shop k = and_then (owned_shop owner shop) (\<lambda>_. get_item shop k)"

definition set_variant_groups :: "string \<Rightarrow> string \<Rightarrow> string \<Rightarrow> group_request list \<Rightarrow> ('z, item) menu_op" where
  "set_variant_groups owner shop k qs =
     and_then (item_to_choose owner shop k) (\<lambda>i. case check_group_count (length qs) of
       Some e \<Rightarrow> raise_err e
     | None \<Rightarrow> and_then (map_each build_variant_group qs) (\<lambda>gs. case with_variant_groups i gs of
         Inr updated \<Rightarrow> keep_choices updated
       | Inl _ \<Rightarrow> keep_choices zero_item))"

definition set_add_on_groups :: "string \<Rightarrow> string \<Rightarrow> string \<Rightarrow> group_request list \<Rightarrow> ('z, item) menu_op" where
  "set_add_on_groups owner shop k qs =
     and_then (item_to_choose owner shop k) (\<lambda>i. case check_group_count (length qs) of
       Some e \<Rightarrow> raise_err e
     | None \<Rightarrow> and_then (map_each build_add_on_group qs) (\<lambda>gs.
         if \<not> cp_add_ons (capabilities_for (it_merchant_type i)) then raise_err (entry_error ErrAddOnsNotAllowed)
         else case with_add_on_groups i gs of Inr updated \<Rightarrow> keep_choices updated | Inl _ \<Rightarrow> keep_choices zero_item))"

section \<open>Combos\<close>

definition list_combos :: "string \<Rightarrow> bool \<Rightarrow> ('z, combo list) menu_op" where
  "list_combos shop active_only = or_wrap (catalogue_unavailable ''We could not load those combos just now. Please try again.'')
     (combos_of shop active_only)"

definition get_combo :: "string \<Rightarrow> string \<Rightarrow> ('z, combo) menu_op" where
  "get_combo shop k = or_missing ErrComboNotFound ''combo_not_found'' ''We could not find that combo.'' ''combo_id'' k
     ''We could not load that combo just now. Please try again.'' (combo_of shop k)"

definition combo_not_saved :: "error \<Rightarrow> error" where
  "combo_not_saved = catalogue_unavailable ''We could not save that combo just now. Please try again.''"

definition combo_not_updated :: "error \<Rightarrow> error" where
  "combo_not_updated = catalogue_unavailable ''We could not update that combo just now. Please try again.''"

fun first_missing :: "string list \<Rightarrow> string list \<Rightarrow> string option" where
  "first_missing present [] = None"
| "first_missing present (k # ks) = (if k \<in> set present then first_missing present ks else Some k)"

definition members_exist :: "string \<Rightarrow> combo \<Rightarrow> ('z, unit) menu_op" where
  "members_exist shop c =
     and_then (or_wrap (catalogue_unavailable ''We could not check those items just now. Please try again.'')
       (items_by_id shop (combo_item_ids c))) (\<lambda>found.
     case first_missing (map it_id found) (combo_item_ids c) of
       Some k \<Rightarrow> raise_err (missing_entry ''item_not_found'' ''One of those items is not on this menu.'' ''item_id'' k
         (catalogue_sentinel ErrItemNotFound))
     | None \<Rightarrow> ret ())"

record combo_request =
  qb_name :: string
  qb_description :: string
  qb_image_url :: string
  qb_price_minor :: int64
  qb_sort_order :: int64
  qb_lines :: "combo_line list"

definition to_combo_draft :: "combo_request \<Rightarrow> combo_draft" where
  "to_combo_draft q = \<lparr>bd_name = qb_name q, bd_description = qb_description q, bd_image_url = qb_image_url q,
     bd_price = taka (qb_price_minor q), bd_lines = qb_lines q, bd_sort_order = qb_sort_order q\<rparr>"

definition create_combo :: "string \<Rightarrow> string \<Rightarrow> combo_request \<Rightarrow> ('z, combo) menu_op" where
  "create_combo owner shop q =
     and_then (owned_shop owner shop) (\<lambda>(_, kind).
     and_then (fresh_id ''cmb'') (\<lambda>k.
     and_then (lift_err (lift_domain entry_error (new_combo k shop kind (to_combo_draft q)))) (\<lambda>c.
     and_then (members_exist shop c) (\<lambda>_.
     and_then (or_wrap combo_not_saved (save_combo c)) (\<lambda>_. ret c)))))"

definition owned_combo :: "string \<Rightarrow> string \<Rightarrow> string \<Rightarrow> ('z, combo \<times> string) menu_op" where
  "owned_combo owner shop k = and_then (owned_shop owner shop) (\<lambda>(_, kind). and_then (get_combo shop k) (\<lambda>c. ret (c, kind)))"

definition update_combo :: "string \<Rightarrow> string \<Rightarrow> string \<Rightarrow> combo_request \<Rightarrow> ('z, combo) menu_op" where
  "update_combo owner shop k q =
     and_then (owned_combo owner shop k) (\<lambda>(existing, kind).
     and_then (lift_err (lift_domain entry_error (new_combo (cb_id existing) shop kind (to_combo_draft q)))) (\<lambda>built.
       let updated = built\<lparr>cb_active := cb_active existing, cb_availability := cb_availability existing\<rparr>
       in and_then (members_exist shop updated) (\<lambda>_.
          and_then (or_wrap combo_not_saved (save_combo updated)) (\<lambda>_. ret updated))))"

definition show_combo :: "string \<Rightarrow> string \<Rightarrow> string \<Rightarrow> bool \<Rightarrow> ('z, combo) menu_op" where
  "show_combo owner shop k b = and_then (owned_combo owner shop k) (\<lambda>(c, _).
     and_then (or_wrap combo_not_updated (save_combo (combo_with_active c b))) (\<lambda>_. ret (combo_with_active c b)))"

definition set_combo_availability :: "string \<Rightarrow> string \<Rightarrow> string \<Rightarrow> availability_request \<Rightarrow> ('z, combo) menu_op" where
  "set_combo_availability owner shop k q = and_then (owned_combo owner shop k) (\<lambda>(c, _).
     and_then (lift_err (asked_availability q)) (\<lambda>a.
     and_then (or_wrap combo_not_updated (save_combo (combo_with_availability c a))) (\<lambda>_. ret (combo_with_availability c a))))"

definition remove_combo :: "string \<Rightarrow> string \<Rightarrow> string \<Rightarrow> ('z, unit) menu_op" where
  "remove_combo owner shop k = and_then (owned_combo owner shop k) (\<lambda>_.
     or_wrap (catalogue_unavailable ''We could not remove that combo just now. Please try again.'') (delete_combo shop k))"

section \<open>What others read\<close>

definition max_menu_items :: int64 where "max_menu_items = 500"

definition that_menu_not_loaded :: "error \<Rightarrow> error" where
  "that_menu_not_loaded = catalogue_unavailable ''We could not load that menu just now. Please try again.''"

definition assemble_menu :: "string \<Rightarrow> instant \<Rightarrow> menu_category list \<Rightarrow> item list \<Rightarrow> combo list \<Rightarrow> shown_menu" where
  "assemble_menu shop now categories items combos =
     (let shown = map (\<lambda>c. \<lparr>sg_id = mg_id c, sg_name = mg_name c, sg_sort_order = mg_sort_order c\<rparr>) (filter mg_active categories)
      in \<lparr>sn_merchant_id = shop, sn_categories = shown,
          sn_items = map (\<lambda>i. to_contract_item i now) (filter (\<lambda>i. it_category_id i \<in> set (map sg_id shown)) items),
          sn_combos = map (\<lambda>c. to_contract_combo c (by_id items) now) combos\<rparr>)"

definition shown_menu_of :: "string \<Rightarrow> ('z, shown_menu) menu_op" where
  "shown_menu_of shop =
     and_then clock_now (\<lambda>now.
     and_then (or_wrap that_menu_not_loaded (categories_of shop)) (\<lambda>categories.
     and_then (or_wrap that_menu_not_loaded (find_items \<lparr>if_merchant_id = shop, if_category_id = [], if_active_only = True,
       if_search = [], if_limit = max_menu_items, if_offset = 0\<rparr>)) (\<lambda>items.
     and_then (or_wrap that_menu_not_loaded (combos_of shop True)) (\<lambda>combos.
     ret (assemble_menu shop now categories items combos)))))"

definition shown_item :: "string \<Rightarrow> string \<Rightarrow> ('z, menu_item) menu_op" where
  "shown_item shop k = and_then (get_item shop k) (\<lambda>i. and_then clock_now (\<lambda>now. ret (to_contract_item i now)))"

definition shown_items :: "string \<Rightarrow> string list \<Rightarrow> ('z, menu_item list) menu_op" where
  "shown_items shop ks =
     and_then (or_wrap (catalogue_unavailable ''We could not load those items just now. Please try again.'') (items_by_id shop ks)) (\<lambda>found.
     and_then clock_now (\<lambda>now. ret (map (\<lambda>i. to_contract_item i now) (List.map_filter (by_id found) ks))))"

definition shown_combo :: "string \<Rightarrow> string \<Rightarrow> ('z, menu_combo) menu_op" where
  "shown_combo shop k =
     and_then (get_combo shop k) (\<lambda>c.
     and_then (or_wrap (catalogue_unavailable ''We could not load that combo just now. Please try again.'')
       (items_by_id shop (combo_item_ids c))) (\<lambda>members.
     and_then clock_now (\<lambda>now. ret (to_contract_combo c (by_id members) now))))"

end
