(* ===== verification/Catalogue_Menus.thy ===== *)
theory Catalogue_Menus
  imports Catalogue_App
begin

text \<open>
  Menus in order: what fits a kind of shop, the invariant of the catalogue's tables while identifiers
  are not drawn twice, and that every statement keeps it.
\<close>

section \<open>What fits a kind of shop\<close>

definition attributes_fit :: "string \<Rightarrow> attributes \<Rightarrow> bool" where
  "attributes_fit t a \<longleftrightarrow> (let c = capabilities_for t in
     (if cp_requires_unit c then at_unit a \<in> set all_units else at_unit a = [] \<and> at_pack_size a = [] \<and> at_brand a = []) \<and>
     (cp_prescriptions c \<or> at_generic_name a = [] \<and> at_strength a = [] \<and> \<not> at_prescription a) \<and>
     (t = kind_restaurant \<or> \<not> at_vegetarian a \<and> at_minutes a = 0) \<and> 0 \<le> at_minutes a)"

definition stock_fits :: "string \<Rightarrow> stock \<Rightarrow> bool" where
  "stock_fits t s \<longleftrightarrow> st_tracked s = cp_tracks_stock (capabilities_for t) \<and> 0 \<le> st_quantity s \<and>
     (st_tracked s \<or> st_quantity s = 0)"

definition item_fits :: "item \<Rightarrow> bool" where
  "item_fits i \<longleftrightarrow> it_merchant_type i \<in> set all_merchant_types \<and> attributes_fit (it_merchant_type i) (it_attributes i) \<and>
     stock_fits (it_merchant_type i) (it_stock i) \<and> 0 \<le> m_minor (it_price i) \<and> it_name i \<noteq> [] \<and> rune_count (it_name i) \<le> 120"

text \<open>What holds of an item whatever became of the kind of its shop.\<close>

definition item_sound :: "item \<Rightarrow> bool" where
  "item_sound i \<longleftrightarrow> it_merchant_type i \<in> set all_merchant_types \<and> 0 \<le> st_quantity (it_stock i) \<and> 0 \<le> m_minor (it_price i) \<and>
     it_name i \<noteq> [] \<and> rune_count (it_name i) \<le> 120"

lemma fits_sound: "item_fits i \<Longrightarrow> item_sound i"
  by (simp add: item_fits_def item_sound_def stock_fits_def)

lemma item_sound_updates [simp]:
  "item_sound (i\<lparr>it_active := b\<rparr>) = item_sound i" "item_sound (i\<lparr>it_availability := a\<rparr>) = item_sound i"
  "item_sound (i\<lparr>it_variant_groups := gs\<rparr>) = item_sound i" "item_sound (i\<lparr>it_add_on_groups := gs\<rparr>) = item_sound i"
  by (simp_all add: item_sound_def)

lemma item_fits_updates [simp]:
  "item_fits (i\<lparr>it_active := b\<rparr>) = item_fits i" "item_fits (i\<lparr>it_availability := a\<rparr>) = item_fits i"
  "item_fits (i\<lparr>it_variant_groups := gs\<rparr>) = item_fits i" "item_fits (i\<lparr>it_add_on_groups := gs\<rparr>) = item_fits i"
  "item_fits (i\<lparr>it_merchant_id := m\<rparr>) = item_fits i"
  by (simp_all add: item_fits_def)

lemma parse_known: "t \<in> set all_merchant_types \<Longrightarrow> parse_merchant_type t = Inr t"
proof -
  have "list_all (\<lambda>t. parse_merchant_type t = Inr t) all_merchant_types" by code_simp
  then show "t \<in> set all_merchant_types \<Longrightarrow> parse_merchant_type t = Inr t" by (auto simp: list_all_iff)
qed

lemma parse_gives_known: "parse_merchant_type s = Inr t \<Longrightarrow> t \<in> set all_merchant_types"
  by (auto simp: parse_merchant_type_def split: option.splits dest: find_Some_mem)

lemma shop_type_known: "shop_type_text k \<in> set all_merchant_types"
  by (cases k) (simp_all add: all_merchant_types_def kind_restaurant_def kind_grocery_def kind_pharmacy_def)

lemma parse_unit_known: "parse_unit s = Inr u \<Longrightarrow> u \<in> set all_units"
  by (auto simp: parse_unit_def split: option.splits dest: find_Some_mem)

lemma attributes_ok:
  assumes "validate_attributes t a = Inr b"
  shows "attributes_fit t b"
proof -
  obtain x y where x: "validate_unit (capabilities_for t) a no_attributes = Inr x"
    and y: "validate_prescription (capabilities_for t) a x = Inr y"
    and b: "b = (if t = kind_restaurant
          then y\<lparr>at_vegetarian := at_vegetarian a, at_minutes := (if at_minutes a > 0 then at_minutes a else at_minutes y)\<rparr> else y)"
    using assms by (auto simp: validate_attributes_def rbind_Inr_iff)
  have u: "(if cp_requires_unit (capabilities_for t) then at_unit x \<in> set all_units else at_unit x = [] \<and> at_pack_size x = [] \<and> at_brand x = []) \<and>
      at_generic_name x = [] \<and> at_strength x = [] \<and> \<not> at_prescription x \<and> \<not> at_vegetarian x \<and> at_minutes x = 0"
    using x by (auto simp: validate_unit_def no_attributes_def rbind_Inr_iff split: if_splits sum.splits dest: parse_unit_known)
  have "at_unit y = at_unit x \<and> at_pack_size y = at_pack_size x \<and> at_brand y = at_brand x \<and> \<not> at_vegetarian y \<and> at_minutes y = 0 \<and>
      (cp_prescriptions (capabilities_for t) \<or> at_generic_name y = [] \<and> at_strength y = [] \<and> \<not> at_prescription y)"
    using y u by (auto simp: validate_prescription_def rbind_Inr_iff split: if_splits)
  then show ?thesis using u b by (auto simp: attributes_fit_def Let_def)
qed

lemma stock_ok: "validate_stock t s = Inr x \<Longrightarrow> stock_fits t x"
  by (auto simp: validate_stock_def new_stock_def stock_fits_def untracked_def split: if_splits)

lemma name_ok: "trimmed_name raw = Inr n \<Longrightarrow> n \<noteq> [] \<and> rune_count n \<le> 120"
  by (auto simp: trimmed_name_def Let_def max_entry_name_length_def split: if_splits)

lemma checked_price_ok: "checked_price p = Inr q \<Longrightarrow> q = p \<and> 0 \<le> m_minor p"
  by (auto simp: checked_price_def must_be_non_negative_def is_negative_def split: if_splits)

lemma new_item_ok:
  assumes "new_item k shop t d = Inr i"
  shows "item_fits i" "it_id i = k" "it_merchant_id i = shop" "parse_merchant_type t = Inr (it_merchant_type i)"
    "it_variant_groups i = []" "it_add_on_groups i = []" "it_category_id i = trim_space (dw_category_id d)"
  using assms unfolding new_item_def
  by (auto simp: rbind_Inr_iff item_fits_def dest: attributes_ok stock_ok name_ok checked_price_ok parse_gives_known split: if_splits)

section \<open>The invariant\<close>

text \<open>
  \<open>home\<close> is the shop each identifier was drawn for, and \<open>kinds\<close> the kind of a shop that keeps its kind; an
  owner's edit may change the kind of the others (\<open>Merchant.WithDetails\<close>), for which it is \<open>None\<close>.
\<close>

definition may_be :: "(string \<Rightarrow> string option) \<Rightarrow> string \<Rightarrow> string \<Rightarrow> bool" where
  "may_be kinds m k \<longleftrightarrow> k \<in> set all_merchant_types \<and> (kinds m = None \<or> kinds m = Some k)"

definition own_item :: "(string \<Rightarrow> string option) \<Rightarrow> (string \<Rightarrow> string) \<Rightarrow> item \<Rightarrow> bool" where
  "own_item kinds home i \<longleftrightarrow> item_sound i \<and> it_merchant_id i = home (it_id i) \<and> home (it_category_id i) = it_merchant_id i \<and>
     (kinds (it_merchant_id i) \<noteq> None \<longrightarrow> kinds (it_merchant_id i) = Some (it_merchant_type i) \<and> item_fits i \<and>
        (it_add_on_groups i = [] \<or> cp_add_ons (capabilities_for (it_merchant_type i))))"

definition own_category :: "(string \<Rightarrow> string) \<Rightarrow> menu_category \<Rightarrow> bool" where
  "own_category home c \<longleftrightarrow> mg_merchant_id c = home (mg_id c) \<and> trim_space (mg_id c) = mg_id c \<and> mg_name c \<noteq> [] \<and> 0 \<le> mg_sort_order c"

definition own_combo :: "(string \<Rightarrow> string option) \<Rightarrow> (string \<Rightarrow> string) \<Rightarrow> combo \<Rightarrow> bool" where
  "own_combo kinds home c \<longleftrightarrow> cb_merchant_id c = home (cb_id c) \<and> cb_merchant_type c \<in> set all_merchant_types \<and> 0 \<le> m_minor (cb_price c) \<and>
     (kinds (cb_merchant_id c) \<noteq> None \<longrightarrow> kinds (cb_merchant_id c) = Some (cb_merchant_type c) \<and>
        cp_combos (capabilities_for (cb_merchant_type c)))"

definition own_lines :: "(string \<Rightarrow> string) \<Rightarrow> string \<Rightarrow> combo_line list \<Rightarrow> bool" where
  "own_lines home k ls \<longleftrightarrow> list_all (\<lambda>l. home (bi_item_id l) = home k \<and> 1 \<le> bi_quantity l \<and> bi_quantity l \<le> 10) ls"

definition kinds_kept :: "(string \<Rightarrow> string option) \<Rightarrow> 'z merchant_tables_scheme \<Rightarrow> bool" where
  "kinds_kept kinds s \<longleftrightarrow> list_all (\<lambda>r. may_be kinds (mc_id (sh_shop r)) (shop_type_text (mc_type (sh_shop r)))) (mt_shops s)"

text \<open>Add-ons on an item that is drawn for a shop of a kept kind.\<close>

definition add_ons_fit :: "(string \<Rightarrow> string option) \<Rightarrow> (string \<Rightarrow> string) \<Rightarrow> string \<Rightarrow> bool" where
  "add_ons_fit kinds home k \<longleftrightarrow> (case kinds (home k) of None \<Rightarrow> True | Some t \<Rightarrow> cp_add_ons (capabilities_for t))"

definition filed :: "'z catalogue_tables_scheme \<Rightarrow> bool" where
  "filed s \<longleftrightarrow> list_all (\<lambda>r. list_ex (\<lambda>c. mg_id c = it_category_id (ir_item r)) (kt_categories s)) (kt_items s) \<and>
     list_all (\<lambda>l. list_ex (\<lambda>r. it_id (ir_item r) = bi_item_id (lr_line l)) (kt_items s)) (kt_combo_lines s)"

definition menu_rows_ok :: "(string \<Rightarrow> string option) \<Rightarrow> (string \<Rightarrow> string) \<Rightarrow> 'z catalogue_tables_scheme \<Rightarrow> bool" where
  "menu_rows_ok kinds home s \<longleftrightarrow> list_all (own_category home) (kt_categories s) \<and>
     list_all (\<lambda>r. own_item kinds home (ir_item r)) (kt_items s) \<and> distinct (map (\<lambda>r. it_id (ir_item r)) (kt_items s)) \<and>
     list_all (\<lambda>r. own_combo kinds home (br_combo r)) (kt_combos s) \<and>
     list_all (\<lambda>l. own_lines home (lr_combo_id l) [lr_line l]) (kt_combo_lines s) \<and>
     list_all (\<lambda>g. add_ons_fit kinds home (gr_item_id g)) (kt_add_on_groups s)"

definition menu_ok :: "(string \<Rightarrow> string option) \<Rightarrow> (string \<Rightarrow> string) \<Rightarrow> 'z catalogue_tables_scheme \<Rightarrow> bool" where
  "menu_ok kinds home s \<longleftrightarrow> kinds_kept kinds s \<and> menu_rows_ok kinds home s \<and> filed s"

section \<open>Rows as they are read\<close>

lemma own_item_updates [simp]:
  "own_item kinds home (i\<lparr>it_active := b\<rparr>) = own_item kinds home i"
  "own_item kinds home (i\<lparr>it_availability := a\<rparr>) = own_item kinds home i"
  "own_item kinds home (i\<lparr>it_variant_groups := gs\<rparr>) = own_item kinds home i"
  by (simp_all add: own_item_def)

lemma scan_own:
  assumes own: "own_item kinds home (ir_item r)" and scan: "scan_item r = Inr i"
  shows "own_item kinds home i" "it_id i = it_id (ir_item r)" "it_merchant_id i = it_merchant_id (ir_item r)"
    "it_active i = it_active (ir_item r)" "it_category_id i = it_category_id (ir_item r)"
proof -
  let ?i = "ir_item r"
  have known: "parse_merchant_type (it_merchant_type ?i) = Inr (it_merchant_type ?i)"
    using own parse_known unfolding own_item_def item_sound_def by blast
  obtain u a where u: "(if at_unit (it_attributes ?i) = [] then Inr [] else lift_domain catalogue_sentinel (parse_unit (at_unit (it_attributes ?i)))) = Inr u"
    and i: "i = ?i\<lparr>it_merchant_type := it_merchant_type ?i, it_price := taka (m_minor (it_price ?i)),
        it_attributes := (it_attributes ?i)\<lparr>at_unit := u\<rparr>, it_availability := a, it_variant_groups := [], it_add_on_groups := []\<rparr>"
    using scan by (auto simp: scan_item_def known lift_domain_def rbind_Inr_iff Let_def split: sum.splits)
  have "(at_unit (it_attributes ?i) = [] \<longrightarrow> u = []) \<and> (at_unit (it_attributes ?i) \<noteq> [] \<longrightarrow> u \<in> set all_units)"
    using u by (auto simp: lift_domain_def split: sum.splits if_splits dest: parse_unit_known)
  moreover have "[] \<notin> set all_units" by (simp add: all_units_def)
  ultimately have "attributes_fit (it_merchant_type ?i) ((it_attributes ?i)\<lparr>at_unit := u\<rparr>)"
    if "attributes_fit (it_merchant_type ?i) (it_attributes ?i)" using that by (auto simp: attributes_fit_def Let_def split: if_splits)
  then have fits: "item_fits ?i \<Longrightarrow> item_fits i" by (simp add: item_fits_def i)
  show same: "it_id i = it_id ?i" "it_merchant_id i = it_merchant_id ?i" "it_active i = it_active ?i" "it_category_id i = it_category_id ?i"
    by (simp_all add: i)
  have "it_merchant_type i = it_merchant_type ?i" "it_add_on_groups i = []" "item_sound i = item_sound ?i" by (simp_all add: i item_sound_def)
  then show "own_item kinds home i" using own fits same unfolding own_item_def by simp
qed

lemma own_combo_updates [simp]:
  "own_combo kinds home (c\<lparr>cb_lines := ls\<rparr>) = own_combo kinds home c" "own_combo kinds home (c\<lparr>cb_active := b\<rparr>) = own_combo kinds home c"
  "own_combo kinds home (c\<lparr>cb_availability := a\<rparr>) = own_combo kinds home c"
  by (simp_all add: own_combo_def)

lemma scan_combo_own: "own_combo kinds home (br_combo r) \<Longrightarrow> scan_combo r = Inr c \<Longrightarrow>
    own_combo kinds home c \<and> cb_id c = cb_id (br_combo r) \<and> cb_merchant_id c = cb_merchant_id (br_combo r)"
  using parse_known [of "cb_merchant_type (br_combo r)"]
  by (auto simp: scan_combo_def own_combo_def rbind_Inr_iff lift_domain_def Let_def split: sum.splits)

definition shop_items :: "(string \<Rightarrow> string option) \<Rightarrow> (string \<Rightarrow> string) \<Rightarrow> string \<Rightarrow> item list \<Rightarrow> bool" where
  "shop_items kinds home m is \<longleftrightarrow> list_all (\<lambda>i. own_item kinds home i \<and> it_merchant_id i = m) is"

lemma rmap_scan:
  assumes "rmap scan_item rs = Inr is" "\<forall>r\<in>set rs. own_item kinds home (ir_item r) \<and> it_merchant_id (ir_item r) = m"
  shows "shop_items kinds home m is \<and> map it_id is = map (\<lambda>r. it_id (ir_item r)) rs"
  using assms
proof (induction rs arbitrary: "is")
  case (Cons r rs)
  then show ?case by (auto simp: rbind_Inr_iff shop_items_def dest: scan_own)
qed (simp add: shop_items_def)

lemma by_id_in: "by_id is k = Some i \<Longrightarrow> i \<in> set is \<and> it_id i = k"
  unfolding by_id_def by (drule find_Some_mem) auto

section \<open>Statements\<close>

lemma write_each_items:
  "write_each_group fits k gs (G, opts) = Some (G', opts') \<Longrightarrow> gr_item_id ` set G' \<subseteq> gr_item_id ` set G \<union> (if gs = [] then {} else {k})"
proof (induction gs arbitrary: G opts)
  case (Cons g gs)
  have put: "gr_item_id ` set (put_group k g G) \<subseteq> insert k (gr_item_id ` set G)" by (auto simp: put_group_def)
  have rest: "write_each_group fits k gs (put_group k g G, write_choices g opts) = Some (G', opts')"
    using Cons.prems by (auto split: if_splits)
  have "gr_item_id ` set G' \<subseteq> gr_item_id ` set (put_group k g G) \<union> {k}" using Cons.IH [OF rest] by (auto split: if_splits)
  then show ?case using put by auto
qed simp

lemma write_groups_items:
  assumes "write_groups fits k gs (G, opts) = Some (G', opts')"
  shows "gr_item_id ` set G' \<subseteq> gr_item_id ` set G \<union> (if gs = [] then {} else {k})"
proof -
  obtain rows where "write_each_group fits k gs (filter (\<lambda>r. \<not> (gr_item_id r = k \<and> vg_id (gr_group r) \<notin> set (map vg_id gs))) G, rows) = Some (G', opts')"
    using assms by (auto simp: write_groups_def Let_def)
  from write_each_items [OF this] show ?thesis by (auto split: if_splits)
qed

lemma write_option_groups_ok:
  assumes "write_option_groups i s = Some t"
  shows "\<exists>a b c d. t = s\<lparr>kt_variant_groups := a, kt_variant_options := b, kt_add_on_groups := c, kt_add_on_options := d\<rparr> \<and>
    gr_item_id ` set c \<subseteq> gr_item_id ` set (kt_add_on_groups s) \<union> (if it_add_on_groups i = [] then {} else {it_id i})"
proof -
  obtain a b c d where ab: "write_groups (\<lambda>_. True) (it_id i) (it_variant_groups i) (kt_variant_groups s, kt_variant_options s) = Some (a, b)"
    and cd: "write_groups (\<lambda>x. 0 \<le> m_minor (vo_price x)) (it_id i) (it_add_on_groups i) (kt_add_on_groups s, kt_add_on_options s) = Some (c, d)"
    and t: "t = s\<lparr>kt_variant_groups := a, kt_variant_options := b, kt_add_on_groups := c, kt_add_on_options := d\<rparr>"
    using assms by (auto simp: write_option_groups_def split: option.splits)
  show ?thesis using t write_groups_items [OF cd] by blast
qed

lemma put_item_ids:
  "map (\<lambda>r. it_id (ir_item r)) (put_item i rows) = map (\<lambda>r. it_id (ir_item r)) rows @
     (if list_ex (\<lambda>r. it_id (ir_item r) = it_id i) rows then [] else [it_id i])"
  by (auto simp: put_item_def overwrite_item_def row_of_item_def)

lemma put_item_own:
  assumes "own_item kinds home i" "list_all (\<lambda>r. own_item kinds home (ir_item r)) rows"
  shows "list_all (\<lambda>r. own_item kinds home (ir_item r)) (put_item i rows)"
proof -
  have new: "own_item kinds home (ir_item (row_of_item i))" using assms(1) by (simp add: row_of_item_def own_item_def)
  moreover have "own_item kinds home (ir_item (overwrite_item r i))" if r: "r \<in> set rows" "it_id (ir_item r) = it_id i" for r
  proof -
    have old: "own_item kinds home (ir_item r)" using assms(2) r(1) by (simp add: list_all_iff)
    then have m: "it_merchant_id (ir_item r) = it_merchant_id i" using assms(1) r(2) by (simp add: own_item_def)
    show ?thesis
    proof (cases "kinds (it_merchant_id i) = None")
      case True
      have "item_sound (ir_item (overwrite_item r i))"
        using old assms(1) by (simp add: overwrite_item_def row_of_item_def own_item_def item_sound_def)
      moreover have "it_merchant_id (ir_item (overwrite_item r i)) = it_merchant_id i" "it_id (ir_item (overwrite_item r i)) = it_id i"
        "it_category_id (ir_item (overwrite_item r i)) = it_category_id i"
        using m r(2) by (simp_all add: overwrite_item_def row_of_item_def)
      ultimately show ?thesis using True assms(1) by (simp add: own_item_def)
    next
      case False
      then have "it_merchant_type (ir_item r) = it_merchant_type i" using old m assms(1) unfolding own_item_def by (metis option.inject)
      then have "ir_item (overwrite_item r i) = ir_item (row_of_item i)" using m r(2) by (simp add: overwrite_item_def row_of_item_def)
      then show ?thesis using new by simp
    qed
  qed
  ultimately show ?thesis using assms(2) by (auto simp: put_item_def list_all_iff)
qed

lemma write_item_ok:
  assumes own: "own_item kinds home i" and s: "menu_ok kinds home s" and w: "write_item i s = Some t"
  shows "menu_ok kinds home t"
proof -
  let ?rows = "put_item i (kt_items s)"
  obtain a b c d where t: "t = s\<lparr>kt_items := ?rows, kt_variant_groups := a, kt_variant_options := b, kt_add_on_groups := c, kt_add_on_options := d\<rparr>"
    and c: "gr_item_id ` set c \<subseteq> gr_item_id ` set (kt_add_on_groups s) \<union> (if it_add_on_groups i = [] then {} else {it_id i})"
    and there: "list_ex (\<lambda>c. mg_id c = it_category_id i) (kt_categories s)"
    using w write_option_groups_ok [of i "s\<lparr>kt_items := ?rows\<rparr>" t] by (auto simp: write_item_def Let_def split: if_splits)
  have ids: "distinct (map (\<lambda>r. it_id (ir_item r)) ?rows)"
    using s by (auto simp: put_item_ids menu_ok_def menu_rows_ok_def list_ex_iff)
  have more: "list_ex (\<lambda>r. it_id (ir_item r) = k) (kt_items s) \<Longrightarrow> list_ex (\<lambda>r. it_id (ir_item r) = k) ?rows" for k
  proof -
    assume "list_ex (\<lambda>r. it_id (ir_item r) = k) (kt_items s)"
    then have "k \<in> set (map (\<lambda>r. it_id (ir_item r)) ?rows)" unfolding put_item_ids by (auto simp: list_ex_iff)
    then show ?thesis by (auto simp: list_ex_iff)
  qed
  have cats: "list_all (\<lambda>r. list_ex (\<lambda>c. mg_id c = it_category_id (ir_item r)) (kt_categories s)) ?rows"
    using s there by (auto simp: menu_ok_def filed_def list_all_iff put_item_def overwrite_item_def row_of_item_def)
  have add: "it_add_on_groups i \<noteq> [] \<Longrightarrow> add_ons_fit kinds home (it_id i)"
    using own by (auto simp: own_item_def add_ons_fit_def split: option.split)
  have "\<forall>g\<in>set c. add_ons_fit kinds home (gr_item_id g)"
  proof
    fix g assume "g \<in> set c"
    then have "gr_item_id g \<in> gr_item_id ` set (kt_add_on_groups s) \<or> it_add_on_groups i \<noteq> [] \<and> gr_item_id g = it_id i"
      using c by (auto split: if_splits)
    then show "add_ons_fit kinds home (gr_item_id g)"
      using s add by (auto simp: menu_ok_def menu_rows_ok_def list_all_iff)
  qed
  then show ?thesis
    using s own ids cats more put_item_own [OF own] by (auto simp: t menu_ok_def menu_rows_ok_def filed_def kinds_kept_def list_all_iff)
qed

lemma drop_items_sel [simp]:
  "kt_categories (drop_items gone s) = kt_categories s" "mt_shops (drop_items gone s) = mt_shops s"
  "kt_combos (drop_items gone s) = kt_combos s" "kt_combo_lines (drop_items gone s) = kt_combo_lines s"
  "kt_items (drop_items gone s) = filter (\<lambda>r. \<not> gone (ir_item r)) (kt_items s)"
  by (simp_all add: drop_items_def Let_def)

lemma drop_items_rows: "menu_rows_ok kinds home s \<Longrightarrow> menu_rows_ok kinds home (drop_items gone s)"
proof -
  assume s: "menu_rows_ok kinds home s"
  have "set (kt_add_on_groups (drop_items gone s)) \<subseteq> set (kt_add_on_groups s)" by (auto simp: drop_items_def Let_def)
  then have "\<forall>g\<in>set (kt_add_on_groups (drop_items gone s)). add_ons_fit kinds home (gr_item_id g)"
    using s unfolding menu_rows_ok_def list_all_iff by blast
  then show ?thesis using s by (simp add: menu_rows_ok_def list_all_iff distinct_map_filter)
qed

lemma erase_item_ok:
  assumes s: "menu_ok kinds home s" and e: "erase_item m k s = Some t"
  shows "menu_ok kinds home t"
proof -
  let ?gone = "\<lambda>i. it_merchant_id i = m \<and> it_id i = k"
  have t: "t = drop_items ?gone s"
    and free: "\<not> (list_ex (\<lambda>r. ?gone (ir_item r)) (kt_items s) \<and> list_ex (\<lambda>l. bi_item_id (lr_line l) = k) (kt_combo_lines s))"
    using e by (auto simp: erase_item_def Let_def split: if_splits)
  have "list_all (\<lambda>l. list_ex (\<lambda>r. it_id (ir_item r) = bi_item_id (lr_line l)) (filter (\<lambda>r. \<not> ?gone (ir_item r)) (kt_items s))) (kt_combo_lines s)"
    using s free by (fastforce simp: menu_ok_def filed_def list_all_iff list_ex_iff)
  then show ?thesis using s by (auto simp: t menu_ok_def filed_def kinds_kept_def drop_items_rows list_all_iff)
qed

lemma new_category_ok: "new_category k m raw n = Inr c \<Longrightarrow> mg_id c = k \<and> mg_merchant_id c = m \<and> mg_name c \<noteq> [] \<and> 0 \<le> mg_sort_order c"
  by (auto simp: new_category_def rbind_Inr_iff not_below_zero_def dest: name_ok split: if_splits)

lemma put_category_ids:
  "map mg_id (put_category c rows) = map mg_id rows @ (if list_ex (\<lambda>r. mg_id r = mg_id c) rows then [] else [mg_id c])"
  by (auto simp: put_category_def)

lemma write_category_ok:
  assumes c: "own_category home c" and s: "menu_ok kinds home s" and w: "write_category c s = Some t"
  shows "menu_ok kinds home t"
proof -
  have t: "t = s\<lparr>kt_categories := put_category c (kt_categories s)\<rparr>" using w by (simp add: write_category_def split: if_splits)
  have own: "list_all (own_category home) (put_category c (kt_categories s))"
    using c s by (auto simp: put_category_def menu_ok_def menu_rows_ok_def list_all_iff own_category_def)
  have more: "list_ex (\<lambda>c. mg_id c = k) (kt_categories s) \<Longrightarrow> list_ex (\<lambda>c. mg_id c = k) (put_category c (kt_categories s))" for k
  proof -
    assume "list_ex (\<lambda>c. mg_id c = k) (kt_categories s)"
    then have "k \<in> set (map mg_id (put_category c (kt_categories s)))" unfolding put_category_ids by (auto simp: list_ex_iff)
    then show ?thesis by (auto simp: list_ex_iff)
  qed
  show ?thesis using s own more by (simp add: t menu_ok_def menu_rows_ok_def filed_def kinds_kept_def list_all_iff)
qed

lemma erase_category_ok:
  assumes s: "menu_ok kinds home s" and e: "erase_category m k s = Some t"
  shows "menu_ok kinds home t"
proof -
  let ?gone = "\<lambda>c. mg_merchant_id c = m \<and> mg_id c = k"
  have t: "t = s\<lparr>kt_categories := filter (\<lambda>c. \<not> ?gone c) (kt_categories s)\<rparr>"
    and free: "\<not> (list_ex ?gone (kt_categories s) \<and> list_ex (\<lambda>r. it_category_id (ir_item r) = k) (kt_items s))"
    using e by (auto simp: erase_category_def Let_def split: if_splits)
  have "list_all (\<lambda>r. list_ex (\<lambda>c. mg_id c = it_category_id (ir_item r)) (filter (\<lambda>c. \<not> ?gone c) (kt_categories s))) (kt_items s)"
    using s free by (fastforce simp: menu_ok_def filed_def list_all_iff list_ex_iff)
  then show ?thesis using s by (auto simp: t menu_ok_def menu_rows_ok_def filed_def kinds_kept_def list_all_iff)
qed

lemma check_lines_ok: "check_combo_lines seen ls = Inr out \<Longrightarrow>
    list_all (\<lambda>l. 1 \<le> bi_quantity l \<and> bi_quantity l \<le> 10) out \<and> distinct (map bi_item_id out) \<and>
    set (map bi_item_id out) \<inter> set seen = {} \<and> length out = length ls"
proof (induction seen ls arbitrary: out rule: check_combo_lines.induct)
  case (2 seen l ls)
  let ?k = "trim_space (bi_item_id l)"
  obtain rest where rest: "check_combo_lines (?k # seen) ls = Inr rest" "out = \<lparr>bi_item_id = ?k, bi_quantity = bi_quantity l\<rparr> # rest"
    and l: "?k \<noteq> []" "?k \<notin> set seen" "1 \<le> bi_quantity l" "bi_quantity l \<le> 10"
    using "2.prems" by (auto simp: Let_def rbind_Inr_iff max_combo_quantity_def split: if_splits)
  show ?case using "2.IH" [OF refl l(1,2) _ rest(1)] l rest(2) by (auto simp: max_combo_quantity_def)
qed simp

lemma new_combo_ok:
  assumes "new_combo k m t d = Inr c"
  shows "cb_id c = k" "cb_merchant_id c = m" "parse_merchant_type t = Inr (cb_merchant_type c)"
    "cp_combos (capabilities_for (cb_merchant_type c))" "0 \<le> m_minor (cb_price c)"
    "list_all (\<lambda>l. 1 \<le> bi_quantity l \<and> bi_quantity l \<le> 10) (cb_lines c)" "distinct (map bi_item_id (cb_lines c))"
    "2 \<le> length (cb_lines c)" "length (cb_lines c) \<le> 20"
  using assms unfolding new_combo_def
  by (auto simp: rbind_Inr_iff validate_combo_lines_def min_combo_lines_def max_combo_lines_def
      dest: check_lines_ok checked_price_ok split: if_splits)

lemma write_lines_all:
  assumes "\<forall>l\<in>set (cb_lines c). P (cb_id c) l" "\<forall>r\<in>set rows. P (lr_combo_id r) (lr_line r)"
  shows "\<forall>r\<in>set (write_lines c rows). P (lr_combo_id r) (lr_line r)"
proof -
  have step: "\<forall>r\<in>set (foldl (put_line k) start ls). P (lr_combo_id r) (lr_line r)"
    if "\<forall>l\<in>set ls. P k l" "\<forall>r\<in>set start. P (lr_combo_id r) (lr_line r)" for k ls start
    using that
  proof (induction ls arbitrary: start)
    case (Cons l ls)
    then have "\<forall>r\<in>set (put_line k start l). P (lr_combo_id r) (lr_line r)" by (auto simp: put_line_def)
    then show ?case using Cons by simp
  qed simp
  show ?thesis unfolding write_lines_def by (rule step) (use assms in auto)
qed

lemma write_combo_ok:
  assumes own: "own_combo kinds home c" "own_lines home (cb_id c) (cb_lines c)" and s: "menu_ok kinds home s" and w: "write_combo c s = Some t"
  shows "menu_ok kinds home t"
proof -
  have t: "t = s\<lparr>kt_combos := put_combo c (kt_combos s), kt_combo_lines := write_lines c (kt_combo_lines s)\<rparr>"
    and there: "\<forall>l\<in>set (cb_lines c). \<exists>r\<in>set (kt_items s). it_id (ir_item r) = bi_item_id l"
    using w by (auto simp: write_combo_def list_all_iff list_ex_iff split: if_splits)
  have combos: "list_all (\<lambda>r. own_combo kinds home (br_combo r)) (put_combo c (kt_combos s))"
    using own s by (auto simp: put_combo_def row_of_combo_def menu_ok_def menu_rows_ok_def list_all_iff own_combo_def)
  have rows: "list_all (\<lambda>l. own_lines home (lr_combo_id l) [lr_line l]) (write_lines c (kt_combo_lines s))"
  proof -
    have "\<forall>r\<in>set (write_lines c (kt_combo_lines s)). own_lines home (lr_combo_id r) [lr_line r]"
      by (rule write_lines_all [of c "\<lambda>k l. own_lines home k [l]"])
        (use own(2) s in \<open>simp_all add: menu_ok_def menu_rows_ok_def list_all_iff own_lines_def\<close>)
    then show ?thesis by (simp add: list_all_iff)
  qed
  have sold: "\<forall>r\<in>set (write_lines c (kt_combo_lines s)). \<exists>i\<in>set (kt_items s). it_id (ir_item i) = bi_item_id (lr_line r)"
    by (rule write_lines_all [of c "\<lambda>k l. \<exists>i\<in>set (kt_items s). it_id (ir_item i) = bi_item_id l"])
      (use there s in \<open>simp_all add: menu_ok_def filed_def list_all_iff list_ex_iff\<close>)
  then have "filed t" using s by (simp add: t menu_ok_def filed_def list_all_iff list_ex_iff)
  moreover have "menu_rows_ok kinds home t" using s combos rows by (simp add: t menu_ok_def menu_rows_ok_def)
  ultimately show ?thesis using s by (simp add: t menu_ok_def kinds_kept_def)
qed

lemma erase_combo_ok: "menu_ok kinds home s \<Longrightarrow> erase_combo m k s = Some t \<Longrightarrow> menu_ok kinds home t"
  by (auto simp: erase_combo_def Let_def menu_ok_def menu_rows_ok_def filed_def kinds_kept_def list_all_iff)

section \<open>New rows and edited ones\<close>

lemma alphabet_plain: "i < 32 \<Longrightarrow> plain_byte (alphabet ! i)"
proof -
  have "list_all (\<lambda>i. plain_byte (alphabet ! i)) [0..<32]" by code_simp
  then show "i < 32 \<Longrightarrow> plain_byte (alphabet ! i)" by (auto simp: list_all_iff)
qed

lemma new_id_trimmed: "trim_space (new_id ''cat'' ms buf) = new_id ''cat'' ms buf"
proof (rule trim_space_plain)
  let ?body = "time_part time_chars ms @ rand_part (take rand_chars buf)"
  have ne: "?body \<noteq> []" by (simp add: time_chars_def flip: length_greater_0_conv)
  have "last ?body \<in> set ?body" using last_in_set [OF ne] .
  then have "\<exists>i<32. last ?body = alphabet ! i" by (auto dest: time_part_mem rand_part_mem)
  then show "new_id ''cat'' ms buf = [] \<or> plain_byte (last (new_id ''cat'' ms buf))"
    using ne by (auto simp: new_id_def alphabet_plain)
  show "new_id ''cat'' ms buf = [] \<or> plain_byte (hd (new_id ''cat'' ms buf))" by (simp add: new_id_def plain_byte_def)
qed

lemma category_renamed: "category_with_name c name = Inr d \<Longrightarrow> own_category home c \<Longrightarrow> own_category home d"
  by (auto simp: category_with_name_def rbind_Inr_iff own_category_def dest!: new_category_ok)

lemma to_draft_category: "to_draft q = Inr d \<Longrightarrow> dw_category_id d = qi_category_id q"
  by (auto simp: to_draft_def rbind_Inr_iff)

lemma built_item_own:
  assumes "new_item k m t d = Inr i" "may_be kinds m t" "home k = m" "home (dw_category_id d) = m"
    "trim_space (dw_category_id d) = dw_category_id d"
  shows "own_item kinds home i \<and> it_merchant_id i = m"
proof -
  have "parse_merchant_type t = Inr t" using assms(2) parse_known by (simp add: may_be_def)
  then show ?thesis using new_item_ok [OF assms(1)] assms(2-) fits_sound by (auto simp: own_item_def may_be_def)
qed

lemma edited_own:
  assumes i: "own_item kinds home i" "it_merchant_id i = m" and built: "new_item (it_id i) m t d = Inr b"
    and kind: "may_be kinds m t" and cat: "home (dw_category_id d) = m" "trim_space (dw_category_id d) = dw_category_id d"
  shows "own_item kinds home (edited_item i q b) \<and> it_merchant_id (edited_item i q b) = m"
proof -
  let ?e = "edited_item i q b"
  have "home (it_id i) = m" using i by (simp add: own_item_def)
  note b = built_item_own [OF built kind this cat]
  have sound: "item_sound ?e" using b i by (simp add: own_item_def item_sound_def edited_item_def)
  have same: "it_add_on_groups ?e = it_add_on_groups i" "it_merchant_type ?e = it_merchant_type b" "it_id ?e = it_id b"
    "it_merchant_id ?e = it_merchant_id b" "it_category_id ?e = it_category_id b" by (simp_all add: edited_item_def)
  have "kinds m = Some (it_merchant_type b) \<and> it_merchant_type b = it_merchant_type i \<and> item_fits ?e \<and>
      (it_add_on_groups i = [] \<or> cp_add_ons (capabilities_for (it_merchant_type b)))" if "kinds m \<noteq> None"
    using that b i by (auto simp: own_item_def item_fits_def edited_item_def)
  then show ?thesis using sound same b unfolding own_item_def by metis
qed

lemma with_stock_own: "item_with_stock i x = Inr j \<Longrightarrow> own_item kinds home i \<Longrightarrow> own_item kinds home j \<and> it_merchant_id j = it_merchant_id i"
  by (auto simp: item_with_stock_def rbind_Inr_iff own_item_def item_fits_def item_sound_def stock_fits_def dest!: stock_ok)

lemma with_price_own: "item_with_price i x = Inr j \<Longrightarrow> own_item kinds home i \<Longrightarrow> own_item kinds home j \<and> it_merchant_id j = it_merchant_id i"
  by (auto simp: item_with_price_def rbind_Inr_iff own_item_def item_fits_def item_sound_def dest!: checked_price_ok)

lemma change_item_own: "change_item c i = Inr j \<Longrightarrow> own_item kinds home i \<Longrightarrow> own_item kinds home j \<and> it_merchant_id j = it_merchant_id i"
proof -
  assume c: "change_item c i = Inr j" and i: "own_item kinds home i"
  obtain x where x: "(case hc_price_minor c of None \<Rightarrow> Inr i | Some n \<Rightarrow> lift_domain entry_error (item_with_price i (taka n))) = Inr x"
    and rest: "rbind (case hc_stock c of None \<Rightarrow> Inr x | Some n \<Rightarrow> lift_domain entry_error (rbind (new_stock n) (item_with_stock x)))
        (\<lambda>i. Inr (case hc_active c of None \<Rightarrow> i | Some b \<Rightarrow> item_with_active i b)) = Inr j"
    using c unfolding change_item_def rbind_Inr_iff by blast
  have x': "own_item kinds home x \<and> it_merchant_id x = it_merchant_id i" using x i by (auto simp: lift_domain_def split: option.splits sum.splits dest: with_price_own)
  obtain y where y: "(case hc_stock c of None \<Rightarrow> Inr x | Some n \<Rightarrow> lift_domain entry_error (rbind (new_stock n) (item_with_stock x))) = Inr y"
    and j: "j = (case hc_active c of None \<Rightarrow> y | Some b \<Rightarrow> item_with_active y b)"
    using rest by (auto simp: rbind_Inr_iff)
  have "own_item kinds home y \<and> it_merchant_id y = it_merchant_id i"
    using y x' by (auto simp: lift_domain_def rbind_Inr_iff split: option.splits sum.splits dest: with_stock_own)
  then show ?thesis by (simp add: j item_with_active_def split: option.split)
qed

lemma change_items_own:
  "change_items (by_id found) cs = Inr is \<Longrightarrow> shop_items kinds home m found \<Longrightarrow> shop_items kinds home m is"
proof (induction cs arbitrary: "is")
  case Nil
  then show ?case by (simp add: change_items_def shop_items_def)
next
  case (Cons c cs)
  obtain i j rest where i: "by_id found (hc_item_id c) = Some i" "change_item c i = Inr j" and rest: "change_items (by_id found) cs = Inr rest"
    and "is": "is = j # rest"
    using Cons.prems(1) by (auto simp: change_items_def rbind_Inr_iff split: option.splits)
  have "own_item kinds home i \<and> it_merchant_id i = m" using by_id_in [OF i(1)] Cons.prems(2) by (auto simp: shop_items_def list_all_iff)
  then show ?case using Cons.IH [OF rest Cons.prems(2)] change_item_own [OF i(2), of kinds home] "is" by (simp add: shop_items_def)
qed

lemma every_kind_has_variants: "own_item kinds home i \<Longrightarrow> cp_variants (capabilities_for (it_merchant_type i))"
  by (auto simp: own_item_def item_sound_def all_merchant_types_def capabilities_for_def no_capabilities_def
      kind_restaurant_def kind_grocery_def kind_pharmacy_def)

lemma first_missing_none: "first_missing present ks = None \<Longrightarrow> set ks \<subseteq> set present"
  by (induction ks) (auto split: if_splits)

lemma built_combo_own:
  assumes "new_combo k m t d = Inr c" "may_be kinds m t" "home k = m"
  shows "own_combo kinds home c" "cb_id c = k"
    "\<forall>l\<in>set (cb_lines c). home (bi_item_id l) = m \<Longrightarrow> own_lines home k (cb_lines c)"
proof -
  have "parse_merchant_type t = Inr t" using assms(2) parse_known by (simp add: may_be_def)
  then show "own_combo kinds home c" "cb_id c = k"
    "\<forall>l\<in>set (cb_lines c). home (bi_item_id l) = m \<Longrightarrow> own_lines home k (cb_lines c)"
    using new_combo_ok [OF assms(1)] assms(2,3) by (auto simp: own_combo_def own_lines_def list_all_iff may_be_def)
qed

end
