(* ===== verification/Catalogue_Safety.thy ===== *)
theory Catalogue_Safety
  imports Catalogue_Menus
begin

text \<open>
  Menus in every history of requests: what a shop sells is filed under a section of its own, fits its kind
  if the shop keeps that, and a combo is made of the shop's own items; and nobody but its owner changes a menu.
\<close>

lemma gives_validated:
  "(\<And>x. r = Inr x \<Longrightarrow> gives_in C I (f x) Q) \<Longrightarrow> gives_in C I (and_then (lift_err (lift_domain g r)) f) Q"
  by (rule gives_bind [OF gives_domain])

section \<open>What requests for one shop keep\<close>

definition draws_for :: "(string \<Rightarrow> string) \<Rightarrow> string \<Rightarrow> sources" where
  "draws_for home shop ck en \<longleftrightarrow> (\<forall>pre n k. home (new_id pre (unix_milli (ck n)) (en k)) = shop)"

abbreviation "keeper_gives home shop \<equiv> gives_in (draws_for home shop)"

text \<open>
  An invariant that includes the one of the tables and that the statements keep when they are given
  entries of \<open>shop\<close>: every request for \<open>shop\<close> keeps it.
\<close>

locale menu_keeper =
  fixes kinds :: "string \<Rightarrow> string option" and home :: "string \<Rightarrow> string" and shop :: string and I :: "'z catalogue_tables_scheme \<Rightarrow> bool"
  assumes ok: "I s \<Longrightarrow> menu_ok kinds home s"
    and category: "I s \<Longrightarrow> own_category home c \<Longrightarrow> mg_merchant_id c = shop \<Longrightarrow> write_category c s = Some t \<Longrightarrow> I t"
    and item: "I s \<Longrightarrow> own_item kinds home i \<Longrightarrow> it_merchant_id i = shop \<Longrightarrow> write_item i s = Some t \<Longrightarrow> I t"
    and combo: "I s \<Longrightarrow> own_combo kinds home b \<Longrightarrow> own_lines home (cb_id b) (cb_lines b) \<Longrightarrow> cb_merchant_id b = shop \<Longrightarrow>
      write_combo b s = Some t \<Longrightarrow> I t"
    and no_category: "I s \<Longrightarrow> erase_category shop k s = Some t \<Longrightarrow> I t"
    and no_item: "I s \<Longrightarrow> erase_item shop k s = Some t \<Longrightarrow> I t"
    and no_combo: "I s \<Longrightarrow> erase_combo shop k s = Some t \<Longrightarrow> I t"
begin

lemma fresh_home: "keeper_gives home shop I (fresh_id pre) (\<lambda>x. home x = shop \<and> (\<exists>ms buf. x = new_id pre ms buf))"
  by (rule gives_weaken [OF gives_fresh]) (auto simp: drawn_id_def draws_for_def)

lemma find_shop_kind: "keeper_gives home shop I (find_shop m) (\<lambda>v. may_be kinds m (sv_type v))"
proof -
  have row: "keeper_gives home shop I (db_read (\<lambda>s. case find (\<lambda>r. mc_id (sh_shop r) = m) (mt_shops s) of
      None \<Rightarrow> Inl (merchant_sentinel ErrMerchantNotFound) | Some r \<Rightarrow> scan_merchant r))
      (\<lambda>x. may_be kinds m (shop_type_text (mc_type x)))"
    by (rule gives_read, drule ok) (auto simp: menu_ok_def kinds_kept_def list_all_iff find_Some_iff scan_merchant_def split: option.splits sum.splits)
  have load: "keeper_gives home shop I (load_shop m) (\<lambda>x. may_be kinds m (shop_type_text (mc_type x)))"
    unfolding load_shop_def merchant_by_id_def one_merchant_def documents_for_def
    by (rule gives_wrap, rule gives_bind [OF row], rule gives_then, rule plain_simple, rule gives_simple, simp)
  show ?thesis unfolding find_shop_def
    by (rule gives_bind [OF load], rule gives_then, rule gives_simple, rule gives_simple)
      (simp add: shop_view_of_def)
qed

lemma shop_of_kind: "keeper_gives home shop I (shop_of m) (\<lambda>(v, k). may_be kinds m k)"
  unfolding shop_of_def
proof (rule gives_bind [OF find_shop_kind])
  fix v assume "may_be kinds m (sv_type v)"
  then show "keeper_gives home shop I (case parse_merchant_type (sv_type v) of
      Inl e \<Rightarrow> raise_err (wrap (catalogue_sentinel e) KindInternal ''unknown_merchant_type'' ''We could not read that shop's details.'')
    | Inr kind \<Rightarrow> ret (v, kind)) (\<lambda>(v, k). may_be kinds m k)"
    by (simp add: may_be_def parse_known gives_simple)
qed

lemma owned_shop_kind: "keeper_gives home shop I (owned_shop owner m) (\<lambda>(v, k). may_be kinds m k)"
  unfolding owned_shop_def
  by (rule gives_bind [OF shop_of_kind], simp only: split_paired_all prod.case, rule gives_if, rule gives_simple, rule gives_simple, simp)

lemma add_ons_read: "keeper_gives home shop I add_on_groups_for (\<lambda>f. \<forall>k. f k \<noteq> [] \<longrightarrow> add_ons_fit kinds home k)"
  unfolding add_on_groups_for_def
proof (rule gives_read)
  fix s :: "'z catalogue_tables_scheme" and f
  assume I: "I s" and f: "Inr (groups_of_item (kt_add_on_groups s) (kt_add_on_options s)) = Inr f"
  note s = ok [OF I]
  show "\<forall>k. f k \<noteq> [] \<longrightarrow> add_ons_fit kinds home k"
  proof (intro allI impI)
    fix k assume "f k \<noteq> []"
    then have "filter (\<lambda>r. gr_item_id r = k) (kt_add_on_groups s) \<noteq> []" using f by (auto simp: groups_of_item_def)
    then obtain g where "g \<in> set (kt_add_on_groups s)" "gr_item_id g = k" by (auto simp: filter_empty_conv)
    then show "add_ons_fit kinds home k" using s by (auto simp: menu_ok_def menu_rows_ok_def list_all_iff)
  qed
qed

lemma attach_gives:
  assumes "shop_items kinds home m is"
  shows "keeper_gives home shop I (attach_choices is) (\<lambda>js. shop_items kinds home m js \<and> map it_id js = map it_id is \<and>
    map it_active js = map it_active is \<and> map it_category_id js = map it_category_id is)"
  unfolding attach_choices_def
proof (rule gives_if)
  show "keeper_gives home shop I (and_then variant_groups_for (\<lambda>variants. and_then add_on_groups_for (\<lambda>add_ons.
      ret (map (\<lambda>i. i\<lparr>it_variant_groups := variants (it_id i), it_add_on_groups := add_ons (it_id i)\<rparr>) is))))
      (\<lambda>js. shop_items kinds home m js \<and> map it_id js = map it_id is \<and> map it_active js = map it_active is \<and>
        map it_category_id js = map it_category_id is)"
  proof (rule gives_then)
    show "keeper_gives home shop I variant_groups_for (\<lambda>_. True)" unfolding variant_groups_for_def by (rule plain_simple)
    fix variants :: "string \<Rightarrow> choice_group list"
    show "keeper_gives home shop I (and_then add_on_groups_for (\<lambda>add_ons.
        ret (map (\<lambda>i. i\<lparr>it_variant_groups := variants (it_id i), it_add_on_groups := add_ons (it_id i)\<rparr>) is)))
        (\<lambda>js. shop_items kinds home m js \<and> map it_id js = map it_id is \<and> map it_active js = map it_active is \<and>
          map it_category_id js = map it_category_id is)"
      by (rule gives_bind [OF add_ons_read], rule gives_simple)
        (use assms in \<open>auto simp: shop_items_def list_all_iff own_item_def add_ons_fit_def split: option.splits\<close>)
  qed
qed (use assms in \<open>simp add: gives_simple\<close>)

lemma items_by_id_gives:
  "keeper_gives home shop I (items_by_id m ks) (\<lambda>is. shop_items kinds home m is \<and> set (map it_id is) \<subseteq> set ks)"
  unfolding items_by_id_def
proof (rule gives_if)
  let ?wanted = "\<lambda>r. it_merchant_id (ir_item r) = m \<and> it_id (ir_item r) \<in> set ks"
  have "keeper_gives home shop I (db_read (\<lambda>s. rmap scan_item (stable_sort item_before (filter ?wanted (kt_items s)))))
      (\<lambda>is. shop_items kinds home m is \<and> set (map it_id is) \<subseteq> set ks)"
  proof (rule gives_read)
    fix s :: "'z catalogue_tables_scheme" and "is"
    assume I: "I s" and scan: "rmap scan_item (stable_sort item_before (filter ?wanted (kt_items s))) = Inr is"
    have "\<forall>r\<in>set (stable_sort item_before (filter ?wanted (kt_items s))).
        own_item kinds home (ir_item r) \<and> it_merchant_id (ir_item r) = m"
      using ok [OF I] by (auto simp: menu_ok_def menu_rows_ok_def list_all_iff)
    from rmap_scan [OF scan this] have js: "shop_items kinds home m is"
      "map it_id is = map (\<lambda>r. it_id (ir_item r)) (stable_sort item_before (filter ?wanted (kt_items s)))" by simp_all
    then have "set (map it_id is) \<subseteq> set ks" by (simp only:) auto
    then show "shop_items kinds home m is \<and> set (map it_id is) \<subseteq> set ks" using js by simp
  qed
  then show "keeper_gives home shop I (and_then (db_read (\<lambda>s. rmap scan_item (stable_sort item_before (filter ?wanted (kt_items s))))) attach_choices)
      (\<lambda>is. shop_items kinds home m is \<and> set (map it_id is) \<subseteq> set ks)"
  proof (rule gives_bind)
    fix "is" assume "is": "shop_items kinds home m is \<and> set (map it_id is) \<subseteq> set ks"
    show "keeper_gives home shop I (attach_choices is) (\<lambda>is. shop_items kinds home m is \<and> set (map it_id is) \<subseteq> set ks)"
      by (rule gives_weaken [OF attach_gives [OF conjunct1 [OF "is"]]]) (use "is" in metis)
  qed
qed (simp add: gives_simple shop_items_def)

lemma item_of_gives: "keeper_gives home shop I (item_of m k) (\<lambda>i. own_item kinds home i \<and> it_merchant_id i = m \<and> it_id i = k)"
  unfolding item_of_def
proof (rule gives_bind [where M = "\<lambda>i. own_item kinds home i \<and> it_merchant_id i = m \<and> it_id i = k"])
  show "keeper_gives home shop I (db_read (\<lambda>s. case find (\<lambda>r. it_merchant_id (ir_item r) = m \<and> it_id (ir_item r) = k) (kt_items s) of
      None \<Rightarrow> Inl (catalogue_sentinel ErrItemNotFound) | Some r \<Rightarrow> scan_item r))
      (\<lambda>i. own_item kinds home i \<and> it_merchant_id i = m \<and> it_id i = k)"
  proof (rule gives_read)
    fix s :: "'z catalogue_tables_scheme" and i
    assume I: "I s" and found: "(case find (\<lambda>r. it_merchant_id (ir_item r) = m \<and> it_id (ir_item r) = k) (kt_items s) of
      None \<Rightarrow> Inl (catalogue_sentinel ErrItemNotFound) | Some r \<Rightarrow> scan_item r) = Inr i"
    note s = ok [OF I]
    from found obtain r where r: "find (\<lambda>r. it_merchant_id (ir_item r) = m \<and> it_id (ir_item r) = k) (kt_items s) = Some r" "scan_item r = Inr i"
      by (auto split: option.splits)
    then have "own_item kinds home (ir_item r)" "it_merchant_id (ir_item r) = m" "it_id (ir_item r) = k"
      using s find_Some_mem [OF r(1)] by (auto simp: menu_ok_def menu_rows_ok_def list_all_iff)
    then show "own_item kinds home i \<and> it_merchant_id i = m \<and> it_id i = k" using scan_own [OF _ r(2)] by simp
  qed
  fix i assume i: "own_item kinds home i \<and> it_merchant_id i = m \<and> it_id i = k"
  then have "shop_items kinds home m [i]" by (simp add: shop_items_def)
  from attach_gives [OF this] have "keeper_gives home shop I (attach_choices [i]) (\<lambda>js. shop_items kinds home m js \<and> map it_id js = [k])"
    by (rule gives_weaken) (use i in simp)
  then show "keeper_gives home shop I (and_then (attach_choices [i]) (\<lambda>found. ret (hd found)))
      (\<lambda>i. own_item kinds home i \<and> it_merchant_id i = m \<and> it_id i = k)"
    by (rule gives_bind, intro gives_simple) (auto simp: shop_items_def)
qed

lemma get_item_gives: "keeper_gives home shop I (get_item m k) (\<lambda>i. own_item kinds home i \<and> it_merchant_id i = m \<and> it_id i = k)"
  unfolding get_item_def or_missing_def by (rule gives_wrap, rule item_of_gives)

lemma category_of_gives: "keeper_gives home shop I (category_of m k) (\<lambda>c. own_category home c \<and> mg_merchant_id c = m \<and> mg_id c = k)"
  unfolding category_of_def
  by (rule gives_read, drule ok) (auto simp: menu_ok_def menu_rows_ok_def list_all_iff find_Some_iff split: option.splits dest: nth_mem)

lemma combo_of_gives: "keeper_gives home shop I (combo_of m k) (\<lambda>c. own_combo kinds home c \<and> cb_merchant_id c = m \<and> cb_id c = k \<and>
    own_lines home k (cb_lines c))"
  unfolding combo_of_def
proof (rule gives_bind [where M = "\<lambda>c. own_combo kinds home c \<and> cb_merchant_id c = m \<and> cb_id c = k"])
  show "keeper_gives home shop I (db_read (\<lambda>s. case find (\<lambda>r. cb_merchant_id (br_combo r) = m \<and> cb_id (br_combo r) = k) (kt_combos s) of
      None \<Rightarrow> Inl (catalogue_sentinel ErrComboNotFound) | Some r \<Rightarrow> scan_combo r)) (\<lambda>c. own_combo kinds home c \<and> cb_merchant_id c = m \<and> cb_id c = k)"
  proof (rule gives_read)
    fix s :: "'z catalogue_tables_scheme" and c
    assume I: "I s" and found: "(case find (\<lambda>r. cb_merchant_id (br_combo r) = m \<and> cb_id (br_combo r) = k) (kt_combos s) of
      None \<Rightarrow> Inl (catalogue_sentinel ErrComboNotFound) | Some r \<Rightarrow> scan_combo r) = Inr c"
    note s = ok [OF I]
    from found obtain r where r: "find (\<lambda>r. cb_merchant_id (br_combo r) = m \<and> cb_id (br_combo r) = k) (kt_combos s) = Some r" "scan_combo r = Inr c"
      by (auto split: option.splits)
    have own: "own_combo kinds home (br_combo r)" "cb_merchant_id (br_combo r) = m" "cb_id (br_combo r) = k"
      using s find_Some_mem [OF r(1)] by (auto simp: menu_ok_def menu_rows_ok_def list_all_iff)
    then show "own_combo kinds home c \<and> cb_merchant_id c = m \<and> cb_id c = k" using scan_combo_own [OF own(1) r(2)] by simp
  qed
  fix c assume c: "own_combo kinds home c \<and> cb_merchant_id c = m \<and> cb_id c = k"
  have ls: "keeper_gives home shop I (db_read (\<lambda>s. Inr (lines_of_combo (kt_combo_lines s)))) (\<lambda>f. own_lines home k (f k))"
    by (rule gives_read, drule ok) (auto simp: menu_ok_def menu_rows_ok_def lines_of_combo_def own_lines_def list_all_iff)
  have attached: "keeper_gives home shop I (attach_lines [c]) (\<lambda>cs. own_combo kinds home (hd cs) \<and> cb_merchant_id (hd cs) = m \<and> cb_id (hd cs) = k \<and>
      own_lines home k (cb_lines (hd cs)))"
    unfolding attach_lines_def
    by (rule gives_if, simp, rule gives_bind [OF ls], rule gives_simple) (use c in simp)
  show "keeper_gives home shop I (and_then (attach_lines [c]) (\<lambda>found. ret (hd found)))
      (\<lambda>c. own_combo kinds home c \<and> cb_merchant_id c = m \<and> cb_id c = k \<and> own_lines home k (cb_lines c))"
    by (rule gives_bind [OF attached], rule gives_simple)
qed

lemma get_combo_gives: "keeper_gives home shop I (get_combo m k) (\<lambda>c. own_combo kinds home c \<and> cb_merchant_id c = m \<and> cb_id c = k \<and>
    own_lines home k (cb_lines c))"
  unfolding get_combo_def or_missing_def by (rule gives_wrap, rule combo_of_gives)

lemma committed_gives:
  assumes "\<And>s t. I s \<Longrightarrow> f s = Some t \<Longrightarrow> I t"
  shows "keeper_gives home shop I (committed f) (\<lambda>_. True)"
  unfolding committed_def by (rule gives_call) (auto split: option.splits dest: assms)

lemma save_category_gives: "own_category home c \<Longrightarrow> mg_merchant_id c = shop \<Longrightarrow> keeper_gives home shop I (save_category c) (\<lambda>_. True)"
  unfolding save_category_def by (rule committed_gives) (rule category)

lemma save_item_gives: "own_item kinds home i \<Longrightarrow> it_merchant_id i = shop \<Longrightarrow> keeper_gives home shop I (save_item i) (\<lambda>_. True)"
  unfolding save_item_def by (rule committed_gives) (rule item)

lemma save_items_gives: "shop_items kinds home shop is \<Longrightarrow> keeper_gives home shop I (save_items is) (\<lambda>_. True)"
  unfolding save_items_def
proof (rule committed_gives)
  fix s t
  show "shop_items kinds home shop is \<Longrightarrow> I s \<Longrightarrow> write_items is s = Some t \<Longrightarrow> I t"
  proof (induction "is" arbitrary: s)
    case (Cons i "is")
    then obtain u where "write_item i s = Some u" "write_items is u = Some t" by (auto split: option.splits)
    then show ?case using Cons item [OF Cons.prems(2), of i u] by (simp add: shop_items_def)
  qed simp
qed

lemma save_combo_gives: "own_combo kinds home c \<Longrightarrow> own_lines home (cb_id c) (cb_lines c) \<Longrightarrow> cb_merchant_id c = shop \<Longrightarrow>
    keeper_gives home shop I (save_combo c) (\<lambda>_. True)"
  unfolding save_combo_def by (rule committed_gives) (rule combo)

lemma deletes_gives:
  "keeper_gives home shop I (delete_category shop k) (\<lambda>_. True)" "keeper_gives home shop I (delete_item shop k) (\<lambda>_. True)"
  "keeper_gives home shop I (delete_combo shop k) (\<lambda>_. True)"
  unfolding delete_category_def delete_item_def delete_combo_def
  by (rule committed_gives, erule no_category no_item no_combo, assumption)+

lemma load_category_gives: "keeper_gives home shop I (load_category owner shop k) (\<lambda>c. own_category home c \<and> mg_merchant_id c = shop)"
  unfolding load_category_def or_missing_def
  by (rule gives_bind [OF owned_shop_kind], rule gives_wrap, rule gives_weaken [OF category_of_gives], simp)

lemma categories_gives:
  "keeper_gives home shop I (create_category owner shop q) (\<lambda>_. True)" "keeper_gives home shop I (update_category owner shop k q) (\<lambda>_. True)"
  "keeper_gives home shop I (show_category owner shop k b) (\<lambda>_. True)" "keeper_gives home shop I (remove_category owner shop k) (\<lambda>_. True)"
proof -
  have saved: "keeper_gives home shop I (and_then (or_wrap e (save_category c)) (\<lambda>_. ret c)) (\<lambda>_. True)" if "own_category home c \<and> mg_merchant_id c = shop" for e c
    using that by (intro gives_then gives_wrap save_category_gives plain_simple) simp_all
  have made: "own_category home c \<and> mg_merchant_id c = shop" if "new_category k shop name n = Inr c" "home k = shop \<and> (\<exists>ms buf. k = new_id ''cat'' ms buf)" for k name n c
    using that new_id_trimmed by (auto simp: own_category_def dest!: new_category_ok)
  show "keeper_gives home shop I (create_category owner shop q) (\<lambda>_. True)"
    unfolding create_category_def categories_of_def
    by (rule gives_bind [OF owned_shop_kind], rule gives_then, rule gives_wrap, rule plain_simple, rule gives_if, rule plain_simple,
        rule gives_bind [OF fresh_home], rule gives_validated, rule saved, erule made)
  have renamed: "own_category home d \<and> mg_merchant_id d = shop"
    if "category_with_name c name = Inr d" "own_category home c \<and> mg_merchant_id c = shop" for c d name
    using that category_renamed [OF that(1)] by (auto simp: category_with_name_def rbind_Inr_iff dest!: new_category_ok)
  have placed: "own_category home (category_with_sort_order c n) \<and> mg_merchant_id (category_with_sort_order c n) = shop"
    "own_category home (category_with_active c b) \<and> mg_merchant_id (category_with_active c b) = shop"
    if "own_category home c \<and> mg_merchant_id c = shop" for c n b
    using that by (auto simp: own_category_def category_with_sort_order_def category_with_active_def not_below_zero_def)
  show "keeper_gives home shop I (update_category owner shop k q) (\<lambda>_. True)"
    unfolding update_category_def Let_def
    by (rule gives_bind [OF load_category_gives], rule gives_validated, rule saved)
      (simp add: placed renamed split: if_split)
  show "keeper_gives home shop I (show_category owner shop k b) (\<lambda>_. True)"
    unfolding show_category_def by (rule gives_bind [OF load_category_gives], rule saved, simp add: placed)
  show "keeper_gives home shop I (remove_category owner shop k) (\<lambda>_. True)"
    unfolding remove_category_def count_items_def
    by (rule gives_bind [OF load_category_gives], rule gives_then, rule gives_wrap, rule plain_simple, rule gives_if, rule plain_simple,
        rule gives_wrap, rule deletes_gives)
qed

lemma category_exists_gives: "keeper_gives home shop I (category_exists shop k) (\<lambda>_. home k = shop \<and> trim_space k = k)"
  unfolding category_exists_def or_missing_def
  by (rule gives_if, rule gives_simple, rule gives_bind [OF gives_wrap [OF category_of_gives]], rule gives_simple)
    (auto simp: own_category_def)

lemma keep_item_gives: "own_item kinds home i \<and> it_merchant_id i = shop \<Longrightarrow> keeper_gives home shop I (keep_item i) (\<lambda>_. True)"
  unfolding keep_item_def by (rule gives_then, rule gives_wrap, rule save_item_gives, simp_all add: plain_simple)

lemma create_item_gives: "keeper_gives home shop I (create_item owner shop q) (\<lambda>_. True)"
  unfolding create_item_def
proof (rule gives_bind [OF owned_shop_kind], clarify)
  fix t assume kind: "may_be kinds shop t"
  show "keeper_gives home shop I (and_then (category_exists shop (qi_category_id q)) (\<lambda>_. and_then (lift_err (to_draft q)) (\<lambda>d.
      and_then (fresh_id ''itm'') (\<lambda>k. and_then (lift_err (lift_domain entry_error (new_item k shop t d))) keep_item)))) (\<lambda>_. True)"
    by (rule gives_bind [OF category_exists_gives], rule gives_bind [OF gives_lifted], rule gives_bind [OF fresh_home],
        rule gives_validated, rule keep_item_gives, erule built_item_own)
      (simp_all add: kind to_draft_category)
qed

lemma owned_item_gives: "keeper_gives home shop I (owned_item owner shop k) (\<lambda>(i, kind). own_item kinds home i \<and> it_merchant_id i = shop \<and>
    it_id i = k \<and> may_be kinds shop kind)"
  unfolding owned_item_def
  by (rule gives_bind [OF owned_shop_kind], clarify, rule gives_bind [OF get_item_gives], rule gives_simple, simp)

lemma update_item_gives: "keeper_gives home shop I (update_item owner shop k q) (\<lambda>_. True)"
  unfolding update_item_def
  by (rule gives_bind [OF owned_item_gives], simp only: split_paired_all prod.case, rule gives_bind [OF category_exists_gives],
      rule gives_bind [OF gives_lifted], rule gives_validated, rule keep_item_gives, rule edited_own [where kinds = kinds])
    (auto dest: to_draft_category)

lemma item_edits_gives:
  "keeper_gives home shop I (show_item owner shop k b) (\<lambda>_. True)" "keeper_gives home shop I (set_stock owner shop k n) (\<lambda>_. True)"
  "keeper_gives home shop I (set_availability owner shop k qa) (\<lambda>_. True)" "keeper_gives home shop I (remove_item owner shop k) (\<lambda>_. True)"
proof -
  show "keeper_gives home shop I (show_item owner shop k b) (\<lambda>_. True)" unfolding show_item_def
    by (rule gives_bind [OF owned_item_gives], simp only: split_paired_all prod.case, rule keep_item_gives) (simp add: item_with_active_def)
  show "keeper_gives home shop I (set_stock owner shop k n) (\<lambda>_. True)" unfolding set_stock_def
    by (rule gives_bind [OF owned_item_gives], simp only: split_paired_all prod.case, rule gives_validated, rule keep_item_gives)
      (auto simp: rbind_Inr_iff dest: with_stock_own)
  show "keeper_gives home shop I (set_availability owner shop k qa) (\<lambda>_. True)" unfolding set_availability_def
    by (rule gives_bind [OF owned_item_gives], simp only: split_paired_all prod.case, rule gives_then, rule plain_simple, rule keep_item_gives)
      (simp add: item_with_availability_def)
  show "keeper_gives home shop I (remove_item owner shop k) (\<lambda>_. True)" unfolding remove_item_def
    by (rule gives_then [OF gives_any [OF owned_item_gives]], rule gives_wrap, rule deletes_gives)
qed

lemma bulk_gives: "keeper_gives home shop I (bulk_update owner shop changes) (\<lambda>_. True)"
  unfolding bulk_update_def
  by (rule gives_then [OF gives_any [OF owned_shop_kind]], rule gives_if, rule plain_simple, rule gives_if, rule plain_simple,
      rule gives_bind [OF gives_wrap [OF items_by_id_gives]], rule gives_bind [OF gives_lifted], rule gives_then, rule gives_wrap,
      rule save_items_gives, erule change_items_own, erule conjunct1, rule plain_simple)

lemma option_id_gives: "keeper_gives home shop I (option_id k pre) (\<lambda>_. True)"
  unfolding option_id_def by (intro gives_if plain_simple gives_simple)

lemma build_group_gives:
  "keeper_gives home shop I (build_variant_group q) (\<lambda>_. True)" "keeper_gives home shop I (build_add_on_group q) (\<lambda>_. True)"
proof -
  have each: "keeper_gives home shop I (map_each (build_option ctor pre) xs) (\<lambda>_. True)" for ctor pre xs
    unfolding build_option_def
    by (rule gives_any, rule gives_each, rule gives_then [OF option_id_gives], rule gives_then, rule plain_simple, rule plain_simple)
  show "keeper_gives home shop I (build_variant_group q) (\<lambda>_. True)" unfolding build_variant_group_def
    by (rule gives_then [OF each], rule gives_then [OF option_id_gives], rule gives_then, rule plain_simple, rule plain_simple)
  show "keeper_gives home shop I (build_add_on_group q) (\<lambda>_. True)" unfolding build_add_on_group_def
    by (rule gives_then [OF each], rule gives_then [OF option_id_gives], rule gives_then, rule plain_simple, rule plain_simple)
qed

lemma keep_choices_gives: "own_item kinds home i \<and> it_merchant_id i = shop \<Longrightarrow> keeper_gives home shop I (keep_choices i) (\<lambda>_. True)"
  unfolding keep_choices_def by (rule gives_then, rule gives_wrap, rule save_item_gives, simp_all add: plain_simple)

lemma item_to_choose_gives: "keeper_gives home shop I (item_to_choose owner shop k) (\<lambda>i. own_item kinds home i \<and> it_merchant_id i = shop)"
  unfolding item_to_choose_def
  by (rule gives_then [OF gives_any [OF owned_shop_kind]], rule gives_weaken [OF get_item_gives], simp)

lemma choices_gives:
  "keeper_gives home shop I (set_variant_groups owner shop k qs) (\<lambda>_. True)" "keeper_gives home shop I (set_add_on_groups owner shop k qs) (\<lambda>_. True)"
proof -
  have v: "keeper_gives home shop I (case with_variant_groups i gs of Inr updated \<Rightarrow> keep_choices updated | Inl _ \<Rightarrow> keep_choices zero_item) (\<lambda>_. True)"
    if "own_item kinds home i \<and> it_merchant_id i = shop" for i gs
    using that every_kind_has_variants [OF conjunct1 [OF that]] by (simp add: with_variant_groups_def keep_choices_gives)
  note built = gives_then [OF gives_any [OF gives_each [OF build_group_gives(1)]]] gives_then [OF gives_any [OF gives_each [OF build_group_gives(2)]]]
  show "keeper_gives home shop I (set_variant_groups owner shop k qs) (\<lambda>_. True)"
    unfolding set_variant_groups_def check_group_count_def
    by (rule gives_bind [OF item_to_choose_gives], simp only: if_distrib [of "case_option _ _"] option.case,
        rule gives_if, rule plain_simple, rule built(1), erule v)
  have own: "own_item kinds home (i\<lparr>it_add_on_groups := gs\<rparr>)" if "own_item kinds home i" "cp_add_ons (capabilities_for (it_merchant_type i))" for i gs
    using that by (simp add: own_item_def)
  have a: "keeper_gives home shop I (if \<not> cp_add_ons (capabilities_for (it_merchant_type i)) then raise_err (entry_error ErrAddOnsNotAllowed)
      else case with_add_on_groups i gs of Inr updated \<Rightarrow> keep_choices updated | Inl _ \<Rightarrow> keep_choices zero_item) (\<lambda>_. True)"
    if "own_item kinds home i \<and> it_merchant_id i = shop" for i gs
    using that own [of i] by (simp add: with_add_on_groups_def plain_simple keep_choices_gives)
  show "keeper_gives home shop I (set_add_on_groups owner shop k qs) (\<lambda>_. True)"
    unfolding set_add_on_groups_def check_group_count_def
    by (rule gives_bind [OF item_to_choose_gives], simp only: if_distrib [of "case_option _ _"] option.case,
        rule gives_if, rule plain_simple, rule built(2), erule a)
qed

lemma members_gives: "keeper_gives home shop I (members_exist shop c) (\<lambda>_. \<forall>l\<in>set (cb_lines c). home (bi_item_id l) = shop)"
  unfolding members_exist_def
proof (rule gives_bind [OF gives_wrap [OF items_by_id_gives]])
  fix found assume found: "shop_items kinds home shop found \<and> set (map it_id found) \<subseteq> set (combo_item_ids c)"
  have "\<forall>l\<in>set (cb_lines c). home (bi_item_id l) = shop" if "first_missing (map it_id found) (combo_item_ids c) = None"
    using first_missing_none [OF that] found by (fastforce simp: combo_item_ids_def shop_items_def list_all_iff own_item_def)
  then show "keeper_gives home shop I (case first_missing (map it_id found) (combo_item_ids c) of
      Some k \<Rightarrow> raise_err (missing_entry ''item_not_found'' ''One of those items is not on this menu.'' ''item_id'' k (catalogue_sentinel ErrItemNotFound))
    | None \<Rightarrow> ret ()) (\<lambda>_. \<forall>l\<in>set (cb_lines c). home (bi_item_id l) = shop)"
    by (auto intro: gives_simple split: option.split)
qed

lemma owned_combo_gives: "keeper_gives home shop I (owned_combo owner shop k) (\<lambda>(c, kind). own_combo kinds home c \<and> cb_merchant_id c = shop \<and>
    cb_id c = k \<and> own_lines home k (cb_lines c) \<and> may_be kinds shop kind)"
  unfolding owned_combo_def
  by (rule gives_bind [OF owned_shop_kind], clarify, rule gives_bind [OF get_combo_gives], rule gives_simple, simp)

lemma combos_gives:
  "keeper_gives home shop I (create_combo owner shop q) (\<lambda>_. True)" "keeper_gives home shop I (update_combo owner shop k q) (\<lambda>_. True)"
  "keeper_gives home shop I (show_combo owner shop k b) (\<lambda>_. True)" "keeper_gives home shop I (set_combo_availability owner shop k qa) (\<lambda>_. True)"
  "keeper_gives home shop I (remove_combo owner shop k) (\<lambda>_. True)"
proof -
  have saved: "keeper_gives home shop I (and_then (or_wrap e (save_combo c)) (\<lambda>_. ret c)) (\<lambda>_. True)"
    if "own_combo kinds home c" "own_lines home (cb_id c) (cb_lines c)" "cb_merchant_id c = shop" for e c
    using that by (intro gives_then gives_wrap save_combo_gives plain_simple)
  show "keeper_gives home shop I (create_combo owner shop q) (\<lambda>_. True)" unfolding create_combo_def
  proof (rule gives_bind [OF owned_shop_kind], simp only: split_paired_all prod.case, rule gives_bind [OF fresh_home],
      rule gives_validated, rule gives_bind [OF members_gives], rule saved)
    fix k kind c assume kind: "may_be kinds shop kind" and k: "home k = shop \<and> (\<exists>ms buf. k = new_id ''cmb'' ms buf)"
      and c: "new_combo k shop kind (to_combo_draft q) = Inr c" and ls: "\<forall>l\<in>set (cb_lines c). home (bi_item_id l) = shop"
    have "home k = shop" using k by simp
    note d = built_combo_own [where kinds = kinds and m = shop and home = home and k = k, OF c kind this]
    show "own_combo kinds home c" by (rule d(1))
    show "own_lines home (cb_id c) (cb_lines c)" using d(2,3) ls by simp
    show "cb_merchant_id c = shop" by (rule new_combo_ok(2) [OF c])
  qed
  show "keeper_gives home shop I (update_combo owner shop k q) (\<lambda>_. True)" unfolding update_combo_def Let_def
  proof (rule gives_bind [OF owned_combo_gives], simp only: split_paired_all prod.case, rule gives_validated,
      rule gives_bind [OF members_gives], rule saved)
    fix c kind d assume c: "own_combo kinds home c \<and> cb_merchant_id c = shop \<and> cb_id c = k \<and> own_lines home k (cb_lines c) \<and> may_be kinds shop kind"
      and d: "new_combo k shop kind (to_combo_draft q) = Inr d"
    have "may_be kinds shop kind" "home k = shop" using c by (auto simp: own_combo_def)
    note m = new_combo_ok(2) [OF d] and d = built_combo_own [where kinds = kinds and m = shop and home = home and k = k, OF d this]
    let ?d = "d\<lparr>cb_active := cb_active c, cb_availability := cb_availability c\<rparr>"
    show "own_combo kinds home ?d" using d(1) by simp
    show "own_lines home (cb_id ?d) (cb_lines ?d)" if "\<forall>l\<in>set (cb_lines ?d). home (bi_item_id l) = shop"
      using d(2,3) that by simp
    show "cb_merchant_id ?d = shop" using m by simp
  qed
  show "keeper_gives home shop I (show_combo owner shop k b) (\<lambda>_. True)" unfolding show_combo_def
    by (rule gives_bind [OF owned_combo_gives], simp only: split_paired_all prod.case, rule saved) (simp_all add: combo_with_active_def)
  show "keeper_gives home shop I (set_combo_availability owner shop k qa) (\<lambda>_. True)" unfolding set_combo_availability_def
    by (rule gives_bind [OF owned_combo_gives], simp only: split_paired_all prod.case, rule gives_then, rule plain_simple, rule saved) (simp_all add: combo_with_availability_def)
  show "keeper_gives home shop I (remove_combo owner shop k) (\<lambda>_. True)" unfolding remove_combo_def
    by (rule gives_then [OF gives_any [OF owned_combo_gives]], rule gives_wrap, rule deletes_gives)
qed

end

section \<open>Requests\<close>

datatype menu_action =
    CreateCategory category_request
  | UpdateCategory string category_request
  | ShowCategory string bool
  | RemoveCategory string
  | CreateItem item_request
  | UpdateItem string item_request
  | ShowItem string bool
  | SetStock string int64
  | SetAvailability string availability_request
  | RemoveItem string
  | BulkUpdate "bulk_change list"
  | SetVariantGroups string "group_request list"
  | SetAddOnGroups string "group_request list"
  | CreateCombo combo_request
  | UpdateCombo string combo_request
  | ShowCombo string bool
  | SetComboAvailability string availability_request
  | RemoveCombo string

fun run_menu :: "string \<Rightarrow> string \<Rightarrow> menu_action \<Rightarrow> ('z, unit) menu_op" where
  "run_menu owner m (CreateCategory q) = ignoring (create_category owner m q)"
| "run_menu owner m (UpdateCategory k q) = ignoring (update_category owner m k q)"
| "run_menu owner m (ShowCategory k b) = ignoring (show_category owner m k b)"
| "run_menu owner m (RemoveCategory k) = ignoring (remove_category owner m k)"
| "run_menu owner m (CreateItem q) = ignoring (create_item owner m q)"
| "run_menu owner m (UpdateItem k q) = ignoring (update_item owner m k q)"
| "run_menu owner m (ShowItem k b) = ignoring (show_item owner m k b)"
| "run_menu owner m (SetStock k n) = ignoring (set_stock owner m k n)"
| "run_menu owner m (SetAvailability k q) = ignoring (set_availability owner m k q)"
| "run_menu owner m (RemoveItem k) = ignoring (remove_item owner m k)"
| "run_menu owner m (BulkUpdate cs) = ignoring (bulk_update owner m cs)"
| "run_menu owner m (SetVariantGroups k gs) = ignoring (set_variant_groups owner m k gs)"
| "run_menu owner m (SetAddOnGroups k gs) = ignoring (set_add_on_groups owner m k gs)"
| "run_menu owner m (CreateCombo q) = ignoring (create_combo owner m q)"
| "run_menu owner m (UpdateCombo k q) = ignoring (update_combo owner m k q)"
| "run_menu owner m (ShowCombo k b) = ignoring (show_combo owner m k b)"
| "run_menu owner m (SetComboAvailability k q) = ignoring (set_combo_availability owner m k q)"
| "run_menu owner m (RemoveCombo k) = ignoring (remove_combo owner m k)"

context menu_keeper
begin

lemma requests_give: "keeper_gives home shop I (run_menu owner shop q) (\<lambda>_. True)"
  by (cases q) (simp_all add: categories_gives [THEN gives_ignoring] create_item_gives [THEN gives_ignoring] update_item_gives [THEN gives_ignoring]
      item_edits_gives [THEN gives_ignoring] bulk_gives [THEN gives_ignoring] choices_gives [THEN gives_ignoring] combos_gives [THEN gives_ignoring])

end

section \<open>Every menu is kept in order\<close>

interpretation kept: menu_keeper kinds home shop "menu_ok kinds home" for kinds home shop
  by unfold_locales
    (blast intro: write_category_ok write_item_ok write_combo_ok erase_category_ok erase_item_ok erase_combo_ok)+

section \<open>Other menus stay as they are\<close>

text \<open>What a shop's rows are: its sections, items and combos, and the lines of its combos.\<close>

definition rows_of :: "(string \<Rightarrow> string) \<Rightarrow> string \<Rightarrow> 'z catalogue_tables_scheme \<Rightarrow>
    menu_category list \<times> item_row list \<times> combo_row list \<times> combo_line_row list" where
  "rows_of home m s =
     (filter (\<lambda>c. mg_merchant_id c = m) (kt_categories s), filter (\<lambda>r. it_merchant_id (ir_item r) = m) (kt_items s),
      filter (\<lambda>r. cb_merchant_id (br_combo r) = m) (kt_combos s), filter (\<lambda>l. home (lr_combo_id l) = m) (kt_combo_lines s))"

lemma filter_overwrite:
  "(\<And>r. r \<in> set rows \<Longrightarrow> K r \<Longrightarrow> \<not> P r \<and> \<not> P (f r)) \<Longrightarrow> filter P (map (\<lambda>r. if K r then f r else r) rows) = filter P rows"
  by (induction rows) auto

lemma filter_still: "(\<And>x. x \<in> set xs \<Longrightarrow> P x \<Longrightarrow> Q x) \<Longrightarrow> filter P (filter Q xs) = filter P xs"
  by (induction xs) auto

lemma write_category_frame:
  assumes s: "menu_ok kinds home s" and c: "own_category home c" "mg_merchant_id c \<noteq> m" and w: "write_category c s = Some t"
  shows "rows_of home m t = rows_of home m s"
proof -
  have "mg_merchant_id r = home (mg_id r)" if "r \<in> set (kt_categories s)" for r
    using s that by (simp add: menu_ok_def menu_rows_ok_def list_all_iff own_category_def)
  then have "filter (\<lambda>c. mg_merchant_id c = m) (put_category c (kt_categories s)) = filter (\<lambda>c. mg_merchant_id c = m) (kt_categories s)"
    using c by (auto simp: put_category_def own_category_def intro!: filter_overwrite)
  moreover have "t = s\<lparr>kt_categories := put_category c (kt_categories s)\<rparr>" using w by (simp add: write_category_def split: if_splits)
  ultimately show ?thesis by (simp add: rows_of_def)
qed

lemma write_item_frame:
  assumes s: "menu_ok kinds home s" and i: "own_item kinds home i" "it_merchant_id i \<noteq> m" and w: "write_item i s = Some t"
  shows "rows_of home m t = rows_of home m s"
proof -
  let ?mine = "\<lambda>r. it_merchant_id (ir_item r) = m"
  obtain a b c d where t: "t = s\<lparr>kt_items := put_item i (kt_items s), kt_variant_groups := a, kt_variant_options := b, kt_add_on_groups := c, kt_add_on_options := d\<rparr>"
    using w write_option_groups_ok [of i "s\<lparr>kt_items := put_item i (kt_items s)\<rparr>" t] by (auto simp: write_item_def Let_def split: if_splits)
  have h: "home (it_id i) \<noteq> m" using i unfolding own_item_def by metis
  have "it_merchant_id (ir_item r) = home (it_id (ir_item r))" if "r \<in> set (kt_items s)" for r
    using s that unfolding menu_ok_def menu_rows_ok_def list_all_iff own_item_def by blast
  then have "filter ?mine (map (\<lambda>r. if it_id (ir_item r) = it_id i then overwrite_item r i else r) (kt_items s)) = filter ?mine (kt_items s)"
    using h by (intro filter_overwrite) (auto simp: overwrite_item_def row_of_item_def)
  moreover have "\<not> ?mine (row_of_item i)" using i(2) by (simp add: row_of_item_def)
  ultimately have "filter ?mine (put_item i (kt_items s)) = filter ?mine (kt_items s)" by (simp add: put_item_def)
  then show ?thesis by (simp add: t rows_of_def)
qed

lemma write_lines_frame:
  assumes "home (cb_id c) \<noteq> m"
  shows "filter (\<lambda>l. home (lr_combo_id l) = m) (write_lines c rows) = filter (\<lambda>l. home (lr_combo_id l) = m) rows"
proof -
  let ?mine = "\<lambda>l. home (lr_combo_id l) = m"
  have put: "filter ?mine (foldl (put_line (cb_id c)) start ls) = filter ?mine start" for start ls
  proof (induction ls arbitrary: start)
    case (Cons l ls)
    have "filter ?mine (put_line (cb_id c) start l) = filter ?mine start"
      using assms by (auto simp: put_line_def intro!: filter_overwrite)
    then show ?case using Cons.IH by simp
  qed simp
  have "filter ?mine (filter (\<lambda>r. \<not> (lr_combo_id r = cb_id c \<and> bi_item_id (lr_line r) \<notin> set (combo_item_ids c))) rows) = filter ?mine rows"
    by (rule filter_still) (use assms in auto)
  then show ?thesis by (simp add: write_lines_def put)
qed

lemma write_combo_frame:
  assumes s: "menu_ok kinds home s" and c: "own_combo kinds home c" "cb_merchant_id c \<noteq> m" and w: "write_combo c s = Some t"
  shows "rows_of home m t = rows_of home m s"
proof -
  let ?mine = "\<lambda>r. cb_merchant_id (br_combo r) = m"
  have t: "t = s\<lparr>kt_combos := put_combo c (kt_combos s), kt_combo_lines := write_lines c (kt_combo_lines s)\<rparr>"
    using w by (simp add: write_combo_def split: if_splits)
  have h: "home (cb_id c) \<noteq> m" using c unfolding own_combo_def by metis
  have "cb_merchant_id (br_combo r) = home (cb_id (br_combo r))" if "r \<in> set (kt_combos s)" for r
    using s that unfolding menu_ok_def menu_rows_ok_def list_all_iff own_combo_def by blast
  then have "filter ?mine (put_combo c (kt_combos s)) = filter ?mine (kt_combos s)"
    using h c(2) by (auto simp: put_combo_def row_of_combo_def intro!: filter_overwrite)
  then show ?thesis using write_lines_frame [where home = home, OF h] by (simp add: t rows_of_def)
qed

lemma erase_category_frame: "erase_category shop k s = Some t \<Longrightarrow> shop \<noteq> m \<Longrightarrow> rows_of home m t = rows_of home m s"
  by (auto simp: erase_category_def Let_def rows_of_def simp del: filter_filter split: if_splits intro!: filter_still)

lemma erase_item_frame: "erase_item shop k s = Some t \<Longrightarrow> shop \<noteq> m \<Longrightarrow> rows_of home m t = rows_of home m s"
  by (auto simp: erase_item_def Let_def rows_of_def simp del: filter_filter split: if_splits intro!: filter_still)

lemma erase_combo_frame:
  assumes s: "menu_ok kinds home s" and e: "erase_combo shop k s = Some t" and m: "shop \<noteq> m"
  shows "rows_of home m t = rows_of home m s"
proof -
  have "cb_merchant_id (br_combo r) = home (cb_id (br_combo r))" if "r \<in> set (kt_combos s)" for r
    using s that unfolding menu_ok_def menu_rows_ok_def list_all_iff own_combo_def by blast
  then show ?thesis using e m by (auto simp: erase_combo_def Let_def rows_of_def list_ex_iff simp del: filter_filter intro!: filter_still)
qed

text \<open>A shop of \<open>m\<close> whose row names \<open>u\<close> as the owner.\<close>

definition owns_shop :: "string \<Rightarrow> string \<Rightarrow> 'z merchant_tables_scheme \<Rightarrow> bool" where
  "owns_shop u m s \<longleftrightarrow> list_ex (\<lambda>r. mc_id (sh_shop r) = m \<and> mc_owner (sh_shop r) = u) (mt_shops s)"

definition stranger_to :: "(string \<Rightarrow> string option) \<Rightarrow> (string \<Rightarrow> string) \<Rightarrow> string \<Rightarrow> string \<Rightarrow>
    menu_category list \<times> item_row list \<times> combo_row list \<times> combo_line_row list \<Rightarrow> 'z catalogue_tables_scheme \<Rightarrow> bool" where
  "stranger_to kinds home u m M s \<longleftrightarrow> menu_ok kinds home s \<and> \<not> owns_shop u m s \<and> rows_of home m s = M"

lemma statements_keep_shops:
  "write_category c s = Some t \<Longrightarrow> mt_shops t = mt_shops s" "write_item i s = Some t \<Longrightarrow> mt_shops t = mt_shops s"
  "write_combo b s = Some t \<Longrightarrow> mt_shops t = mt_shops s" "erase_category shop k s = Some t \<Longrightarrow> mt_shops t = mt_shops s"
  "erase_item shop k s = Some t \<Longrightarrow> mt_shops t = mt_shops s" "erase_combo shop k s = Some t \<Longrightarrow> mt_shops t = mt_shops s"
  by (auto simp: write_category_def write_item_def write_combo_def erase_category_def erase_item_def erase_combo_def Let_def
      split: if_splits dest: write_option_groups_ok)

text \<open>What requests for another shop keep besides: the rows of \<open>m\<close>.\<close>

definition beside :: "(string \<Rightarrow> string option) \<Rightarrow> (string \<Rightarrow> string) \<Rightarrow> string \<Rightarrow> string \<Rightarrow> string \<Rightarrow>
    menu_category list \<times> item_row list \<times> combo_row list \<times> combo_line_row list \<Rightarrow> 'z catalogue_tables_scheme \<Rightarrow> bool" where
  "beside kinds home shop u m M s \<longleftrightarrow> menu_ok kinds home s \<and> (shop = m \<or> stranger_to kinds home u m M s)"

lemma besideI:
  "beside kinds home shop u m M s \<Longrightarrow> menu_ok kinds home t \<Longrightarrow> mt_shops t = mt_shops s \<Longrightarrow>
    (shop \<noteq> m \<Longrightarrow> rows_of home m t = rows_of home m s) \<Longrightarrow> beside kinds home shop u m M t"
  by (auto simp: beside_def stranger_to_def owns_shop_def)

interpretation apart: menu_keeper kinds home shop "beside kinds home shop u m M" for kinds home shop u m M
proof (unfold_locales, goal_cases)
  case (1 s)
  then show ?case by (simp add: beside_def)
next
  case (2 s c t)
  then have "menu_ok kinds home s" by (simp add: beside_def)
  then show ?case using 2 write_category_ok write_category_frame statements_keep_shops(1) by (intro besideI [OF 2(1)]) blast+
next
  case (3 s i t)
  then have "menu_ok kinds home s" by (simp add: beside_def)
  then show ?case using 3 write_item_ok write_item_frame statements_keep_shops(2) by (intro besideI [OF 3(1)]) blast+
next
  case (4 s b t)
  then have "menu_ok kinds home s" by (simp add: beside_def)
  then show ?case using 4 write_combo_ok write_combo_frame statements_keep_shops(3) by (intro besideI [OF 4(1)]) blast+
next
  case (5 s k t)
  then have "menu_ok kinds home s" by (simp add: beside_def)
  then show ?case using 5 erase_category_ok erase_category_frame statements_keep_shops(4) by (intro besideI [OF 5(1)]) blast+
next
  case (6 s k t)
  then have "menu_ok kinds home s" by (simp add: beside_def)
  then show ?case using 6 erase_item_ok erase_item_frame statements_keep_shops(5) by (intro besideI [OF 6(1)]) blast+
next
  case (7 s k t)
  then have "menu_ok kinds home s" by (simp add: beside_def)
  then show ?case using 7 erase_combo_ok erase_combo_frame statements_keep_shops(6) by (intro besideI [OF 7(1)]) blast+
qed

section \<open>Histories\<close>

text \<open>
  The tables of the shops change as they may; the shops for which \<open>kinds\<close> names a kind keep it, the others
  may change theirs (with \<open>kinds = (\<lambda>_. None)\<close> these are all histories).  A shop that goes takes
  its menu with it (\<open>ON DELETE CASCADE\<close>), unless that would leave a row of another menu pointing at
  nothing (\<open>ON DELETE RESTRICT\<close>).
\<close>

definition drop_menus :: "'z catalogue_tables_scheme \<Rightarrow> 'z catalogue_tables_scheme" where
  "drop_menus s = (let there = shop_known s; t = drop_items (\<lambda>i. \<not> there (it_merchant_id i)) s
     in t\<lparr>kt_categories := filter (\<lambda>c. there (mg_merchant_id c)) (kt_categories s),
          kt_combos := filter (\<lambda>r. there (cb_merchant_id (br_combo r))) (kt_combos s),
          kt_combo_lines := filter (\<lambda>l. \<not> list_ex (\<lambda>r. \<not> there (cb_merchant_id (br_combo r)) \<and> cb_id (br_combo r) = lr_combo_id l) (kt_combos s))
            (kt_combo_lines s)\<rparr>)"

inductive menu_past :: "(string \<Rightarrow> string option) \<Rightarrow> (string \<Rightarrow> string) \<Rightarrow> ('z catalogue_tables_scheme \<Rightarrow> 'z catalogue_tables_scheme) \<Rightarrow> bool"
  for kinds home where
  menu_nothing: "menu_past kinds home (\<lambda>s. s)"
| menu_later: "menu_past kinds home f \<Longrightarrow> menu_past kinds home g \<Longrightarrow> menu_past kinds home (\<lambda>s. g (f s))"
| menu_elsewhere: "(\<And>s. kinds_kept kinds s \<Longrightarrow> kinds_kept kinds (f s)) \<Longrightarrow>
    (\<And>s. \<exists>ds ars ls shops docs evs. f s = s\<lparr>gt_divisions := ds, gt_areas := ars, gt_locations := ls, mt_shops := shops,
      mt_documents := docs, mt_events := evs\<rparr>) \<Longrightarrow>
    menu_past kinds home (\<lambda>s. if filed (drop_menus (f s)) then drop_menus (f s) else s)"
| menu_request: "(\<And>n. menu_past kinds home (w_others w n)) \<Longrightarrow> draws_for home m (w_clock w) (w_entropy w) \<Longrightarrow>
    menu_past kinds home (\<lambda>s. w_store (snd (run_menu owner m q (w\<lparr>w_store := s\<rparr>))))"

lemma drop_menus_rows: "menu_rows_ok kinds home s \<Longrightarrow> menu_rows_ok kinds home (drop_menus s)"
  using drop_items_rows [of kinds home s "\<lambda>i. \<not> shop_known s (it_merchant_id i)"]
  by (auto simp: menu_rows_ok_def drop_menus_def Let_def list_all_iff)

lemma menu_past_keeps: "menu_past kinds home f \<Longrightarrow> preserves (menu_ok kinds home) s (f s)"
proof (induction arbitrary: s rule: menu_past.induct)
  case menu_nothing
  then show ?case by (rule inv.refl)
next
  case (menu_later f g)
  show ?case by (rule inv.trans [OF menu_later.IH])
next
  case (menu_elsewhere f)
  have "menu_ok kinds home (drop_menus (f s))" if s: "menu_ok kinds home s" and fits: "filed (drop_menus (f s))"
  proof -
    have "menu_rows_ok kinds home (f s)" using menu_elsewhere(2) [of s] s by (auto simp: menu_ok_def menu_rows_ok_def)
    moreover have "mt_shops (drop_menus (f s)) = mt_shops (f s)" by (simp add: drop_menus_def Let_def)
    ultimately show ?thesis using fits menu_elsewhere(1) [of s] s drop_menus_rows by (simp add: menu_ok_def kinds_kept_def)
  qed
  then show ?case by (simp add: preserves_def)
next
  case (menu_request w m owner q)
  let ?w = "w\<lparr>w_store := s\<rparr>"
  have w: "relies (preserves (menu_ok kinds home)) ?w" using menu_request by (simp add: relies_def)
  obtain r v where run: "run_menu owner m q ?w = (r, v)" by fastforce
  have "menu_ok kinds home (w_store ?w) \<Longrightarrow> menu_ok kinds home (w_store v)"
    using gives_in_run [OF kept.requests_give w _ _ run] menu_request.hyps(2) by simp
  then show ?case by (simp add: run preserves_def)
qed

definition no_menus :: "merchant_tables \<Rightarrow> catalogue_tables" where
  "no_menus t = \<lparr>gt_divisions = gt_divisions t, gt_areas = gt_areas t, gt_locations = gt_locations t, mt_shops = mt_shops t,
     mt_documents = mt_documents t, mt_events = mt_events t, kt_categories = [], kt_items = [], kt_variant_groups = [],
     kt_variant_options = [], kt_add_on_groups = [], kt_add_on_options = [], kt_combos = [], kt_combo_lines = []\<rparr>"

definition menus_reachable :: "(string \<Rightarrow> string option) \<Rightarrow> (string \<Rightarrow> string) \<Rightarrow> catalogue_tables \<Rightarrow> bool" where
  "menus_reachable kinds home s \<longleftrightarrow> (\<exists>t f. kinds_kept kinds t \<and> menu_past kinds home f \<and> s = f (no_menus t))"

lemma reachable_menu_ok: "menus_reachable kinds home s \<Longrightarrow> menu_ok kinds home s"
proof -
  assume "menus_reachable kinds home s"
  then obtain t f where f: "kinds_kept kinds t" "menu_past kinds home f" "s = f (no_menus t)" by (auto simp: menus_reachable_def)
  have "menu_ok kinds home (no_menus t)" using f(1) by (simp add: menu_ok_def no_menus_def menu_rows_ok_def filed_def kinds_kept_def)
  then show ?thesis using menu_past_keeps [OF f(2), of "no_menus t"] f(3) by (simp add: preserves_def)
qed

lemma own_item_sold:
  assumes "own_item kinds home i" "kinds (it_merchant_id i) = Some t"
  shows "st_tracked (it_stock i) = cp_tracks_stock (capabilities_for t)"
    "(at_unit (it_attributes i) \<in> set all_units) = cp_requires_unit (capabilities_for t)"
    "at_prescription (it_attributes i) \<longrightarrow> cp_prescriptions (capabilities_for t)"
proof -
  have fits: "item_fits i" and kind: "it_merchant_type i = t" using assms unfolding own_item_def by auto
  have "[] \<notin> set all_units" by (simp add: all_units_def)
  then show "st_tracked (it_stock i) = cp_tracks_stock (capabilities_for t)"
    "(at_unit (it_attributes i) \<in> set all_units) = cp_requires_unit (capabilities_for t)"
    "at_prescription (it_attributes i) \<longrightarrow> cp_prescriptions (capabilities_for t)"
    using fits unfolding item_fits_def kind attributes_fit_def stock_fits_def Let_def by (auto split: if_splits)
qed

lemma filed_item:
  assumes ok: "menu_ok kinds home s" and r: "r \<in> set (kt_items s)"
  shows "own_item kinds home (ir_item r)"
    "\<exists>c\<in>set (kt_categories s). mg_id c = it_category_id (ir_item r) \<and> mg_merchant_id c = it_merchant_id (ir_item r)"
proof -
  show own: "own_item kinds home (ir_item r)" using ok r by (auto simp: menu_ok_def menu_rows_ok_def list_all_iff)
  obtain c where c: "c \<in> set (kt_categories s)" "mg_id c = it_category_id (ir_item r)"
    using ok r by (auto simp: menu_ok_def filed_def list_all_iff list_ex_iff)
  have "own_category home c" using ok c(1) by (auto simp: menu_ok_def menu_rows_ok_def list_all_iff)
  then have "mg_merchant_id c = it_merchant_id (ir_item r)" using own c(2) unfolding own_category_def own_item_def by metis
  then show "\<exists>c\<in>set (kt_categories s). mg_id c = it_category_id (ir_item r) \<and> mg_merchant_id c = it_merchant_id (ir_item r)"
    using c by blast
qed

lemma sold_line:
  assumes ok: "menu_ok kinds home s" and l: "l \<in> set (kt_combo_lines s)"
  shows "1 \<le> bi_quantity (lr_line l)" "bi_quantity (lr_line l) \<le> 10"
    "\<exists>r\<in>set (kt_items s). it_id (ir_item r) = bi_item_id (lr_line l) \<and> it_merchant_id (ir_item r) = home (lr_combo_id l)"
proof -
  have own: "own_lines home (lr_combo_id l) [lr_line l]" using ok l by (auto simp: menu_ok_def menu_rows_ok_def list_all_iff)
  then show "1 \<le> bi_quantity (lr_line l)" "bi_quantity (lr_line l) \<le> 10" by (simp_all add: own_lines_def)
  obtain r where r: "r \<in> set (kt_items s)" "it_id (ir_item r) = bi_item_id (lr_line l)"
    using ok l by (auto simp: menu_ok_def filed_def list_all_iff list_ex_iff)
  have "it_merchant_id (ir_item r) = home (lr_combo_id l)"
    using filed_item(1) [OF ok r(1)] own r(2) unfolding own_item_def own_lines_def by simp
  then show "\<exists>r\<in>set (kt_items s). it_id (ir_item r) = bi_item_id (lr_line l) \<and> it_merchant_id (ir_item r) = home (lr_combo_id l)"
    using r by blast
qed

text \<open>C35: In every history of requests, of their shops' and their menus, in which owners may also change what kind of shop
  theirs is, no item has a negative price or count, an item is filed under a section of its own shop, no combo has a negative
  price, and a combo is made of items of its own shop, one to ten of each.  And what a shop sells that keeps its kind (those
  for which \<open>kinds\<close> names one) fits that kind: stock is counted exactly where the kind counts it, a unit of sale is given
  exactly where the kind asks for one, a prescription is asked for only at a pharmacy, and add-ons and combos exist only at
  shops of a kind that has them.  (A shop that changed its kind is left with rows of the old one; see the findings.)\<close>

theorem menus_fit_their_shops:
  assumes "menus_reachable kinds home s"
  shows "(\<forall>r\<in>set (kt_items s). let i = ir_item r in 0 \<le> st_quantity (it_stock i) \<and> 0 \<le> m_minor (it_price i) \<and>
        (\<exists>c\<in>set (kt_categories s). mg_id c = it_category_id i \<and> mg_merchant_id c = it_merchant_id i) \<and>
        (\<forall>t. kinds (it_merchant_id i) = Some t \<longrightarrow> (let can = capabilities_for t in
          st_tracked (it_stock i) = cp_tracks_stock can \<and> (at_unit (it_attributes i) \<in> set all_units) = cp_requires_unit can \<and>
          (at_prescription (it_attributes i) \<longrightarrow> cp_prescriptions can)))) \<and>
      (\<forall>g\<in>set (kt_add_on_groups s). \<forall>t. kinds (home (gr_item_id g)) = Some t \<longrightarrow> cp_add_ons (capabilities_for t)) \<and>
      (\<forall>r\<in>set (kt_combos s). 0 \<le> m_minor (cb_price (br_combo r)) \<and>
        (\<forall>t. kinds (cb_merchant_id (br_combo r)) = Some t \<longrightarrow> cp_combos (capabilities_for t))) \<and>
      (\<forall>l\<in>set (kt_combo_lines s). 1 \<le> bi_quantity (lr_line l) \<and> bi_quantity (lr_line l) \<le> 10 \<and>
        (\<exists>r\<in>set (kt_items s). it_id (ir_item r) = bi_item_id (lr_line l) \<and> it_merchant_id (ir_item r) = home (lr_combo_id l)))"
proof -
  have ok: "menu_ok kinds home s" using assms by (rule reachable_menu_ok)
  have combos: "0 \<le> m_minor (cb_price (br_combo r)) \<and> (\<forall>t. kinds (cb_merchant_id (br_combo r)) = Some t \<longrightarrow> cp_combos (capabilities_for t))"
    if "r \<in> set (kt_combos s)" for r
  proof -
    have "own_combo kinds home (br_combo r)" using ok that by (simp add: menu_ok_def menu_rows_ok_def list_all_iff)
    then show ?thesis unfolding own_combo_def by auto
  qed
  have groups: "\<forall>g\<in>set (kt_add_on_groups s). \<forall>t. kinds (home (gr_item_id g)) = Some t \<longrightarrow> cp_add_ons (capabilities_for t)"
    using ok by (auto simp: menu_ok_def menu_rows_ok_def list_all_iff add_ons_fit_def split: option.splits)
  have sound: "0 \<le> st_quantity (it_stock (ir_item r)) \<and> 0 \<le> m_minor (it_price (ir_item r))" if "r \<in> set (kt_items s)" for r
    using filed_item(1) [OF ok that] by (simp add: own_item_def item_sound_def)
  show ?thesis
    unfolding Let_def using own_item_sold [OF filed_item(1) [OF ok]] filed_item(2) [OF ok] sold_line [OF ok] sound combos groups by blast
qed

section \<open>Strangers\<close>

lemma not_the_owner: "gives_in C (stranger_to kinds home u m M) (owned_shop u m) (\<lambda>_. False)"
proof -
  let ?I = "stranger_to kinds home u m M"
  have row: "gives_in C ?I (db_read (\<lambda>s. case find (\<lambda>r. mc_id (sh_shop r) = m) (mt_shops s) of
      None \<Rightarrow> Inl (merchant_sentinel ErrMerchantNotFound) | Some r \<Rightarrow> scan_merchant r)) (\<lambda>x. mc_owner x \<noteq> u)"
    by (rule gives_read)
      (auto simp: stranger_to_def owns_shop_def list_ex_iff find_Some_iff scan_merchant_def split: option.splits sum.splits dest: nth_mem)
  have load: "gives_in C ?I (load_shop m) (\<lambda>x. mc_owner x \<noteq> u)"
    unfolding load_shop_def merchant_by_id_def one_merchant_def documents_for_def
    by (rule gives_wrap, rule gives_bind [OF row], rule gives_then, rule plain_simple, rule gives_simple, simp)
  have found: "gives_in C ?I (find_shop m) (\<lambda>v. sv_owner v \<noteq> u)" unfolding find_shop_def
    by (rule gives_bind [OF load], rule gives_then, rule gives_simple, rule gives_simple) (simp add: shop_view_of_def)
  have "gives_in C ?I (shop_of m) (\<lambda>(v, k). sv_owner v \<noteq> u)" unfolding shop_of_def
    by (rule gives_bind [OF found]) (auto intro: gives_simple split: sum.split)
  then show ?thesis unfolding owned_shop_def
    by (rule gives_bind) (auto intro: gives_simple)
qed

lemma stranger_gives: "gives_in C (stranger_to kinds home u m M) (run_menu u m q) (\<lambda>_. True)"
proof -
  note no = gives_bind [OF not_the_owner]
  show ?thesis
    by (cases q; simp only: run_menu.simps; rule gives_ignoring [where Q = "\<lambda>_. True"];
        simp only: create_category_def update_category_def show_category_def remove_category_def load_category_def
          create_item_def update_item_def show_item_def set_stock_def set_availability_def remove_item_def owned_item_def bulk_update_def
          set_variant_groups_def set_add_on_groups_def item_to_choose_def create_combo_def update_combo_def show_combo_def
          set_combo_availability_def remove_combo_def owned_combo_def and_then_assoc; rule no; simp)
qed

text \<open>C36: A request of a user who does not own the shop \<open>m\<close>, whichever shop it names and whatever it asks for, leaves the menu of
  \<open>m\<close> as it is: its sections, its items, its combos and their lines.\<close>

theorem strangers_leave_a_menu_alone:
  assumes "menus_reachable kinds home (w_store w)" and "\<not> owns_shop u m (w_store w)"
    and "relies (preserves (stranger_to kinds home u m (rows_of home m (w_store w)))) w"
    and "draws_for home shop (w_clock w) (w_entropy w)"
    and "run_menu u shop q w = (r, v)"
  shows "rows_of home m (w_store v) = rows_of home m (w_store w)"
proof -
  let ?M = "rows_of home m (w_store w)"
  have s: "stranger_to kinds home u m ?M (w_store w)" using assms(1,2) by (simp add: stranger_to_def reachable_menu_ok)
  have "stranger_to kinds home u m ?M (w_store v)"
  proof (cases "shop = m")
    case True
    then show ?thesis using gives_in_run [OF stranger_gives [of any_source] assms(3) _ s] assms(5) by blast
  next
    case False
    then have eq: "beside kinds home shop u m ?M = stranger_to kinds home u m ?M" by (auto simp: beside_def stranger_to_def fun_eq_iff)
    show ?thesis using gives_in_run [OF apart.requests_give [of home shop kinds u m ?M u q, unfolded eq] assms(3,4) s assms(5)] by blast
  qed
  then show ?thesis by (simp add: stranger_to_def)
qed

end
