(* ===== verification/Catalogue_Example.thy ===== *)
theory Catalogue_Example
  imports Catalogue_Safety Discovery_Example
begin

text \<open>
  The grocer of \<open>Merchant_Histories\<close> opens a section and sells rice; when an entry can be ordered, what a
  combo saves, and how availability is stored.
\<close>

section \<open>A section and an item\<close>

abbreviation "grocer \<equiv> ''mch_Y7FKPX6A000000000000''"

definition staples :: menu_category where
  "staples = \<lparr>mg_id = ''cat_Y7FKPX6A000000000000'', mg_merchant_id = grocer, mg_name = ''Staples'', mg_sort_order = 1, mg_active = True\<rparr>"

definition rice :: item where
  "rice = \<lparr>it_id = ''itm_Y7FKPX6A000000000000'', it_merchant_id = grocer, it_merchant_type = ''grocery'',
     it_category_id = ''cat_Y7FKPX6A000000000000'', it_name = ''Rice'', it_description = [], it_image_url = [], it_price = taka 9000,
     it_attributes = no_attributes\<lparr>at_unit := ''kg''\<rparr>, it_stock = \<lparr>st_tracked = True, st_quantity = 7\<rparr>, it_active = True,
     it_availability = always_available, it_variant_groups = [], it_add_on_groups = [], it_sort_order = 0\<rparr>"

definition section_form :: category_request where
  "section_form = \<lparr>qc_name = ''Staples'', qc_sort_order = 0\<rparr>"

definition rice_form :: item_request where
  "rice_form = \<lparr>qi_category_id = ''cat_Y7FKPX6A000000000000'', qi_name = ''Rice'', qi_description = [], qi_image_url = [],
     qi_price_minor = 9000, qi_sort_order = 0, qi_vegetarian = False, qi_minutes = 0, qi_unit = ''kg'', qi_pack_size = [],
     qi_brand = [], qi_generic_name = [], qi_strength = [], qi_prescription = False, qi_stock = Some 7\<rparr>"

definition with_section :: catalogue_tables where
  "with_section = (no_menus one_shop)\<lparr>kt_categories := [staples]\<rparr>"

definition with_rice :: catalogue_tables where
  "with_rice = with_section\<lparr>kt_items := [row_of_item rice]\<rparr>"

lemma forms_read:
  "new_category ''cat_Y7FKPX6A000000000000'' grocer ''Staples'' 1 = Inr staples"
  "new_item ''itm_Y7FKPX6A000000000000'' grocer ''grocery'' \<lparr>dw_category_id = ''cat_Y7FKPX6A000000000000'', dw_name = ''Rice'',
     dw_description = [], dw_image_url = [], dw_price = taka 9000, dw_attributes = no_attributes\<lparr>at_unit := ''kg''\<rparr>,
     dw_stock = \<lparr>st_tracked = True, st_quantity = 7\<rparr>, dw_sort_order = 0\<rparr> = Inr rice"
  "parse_unit ''kg'' = Inr ''kg''" "new_stock 7 = Inr \<lparr>st_tracked = True, st_quantity = 7\<rparr>"
  "parse_merchant_type ''grocery'' = Inr ''grocery''"
  by code_simp+

lemma menu_ids:
  "new_id ''cat'' (unix_milli 0) an_entropy = ''cat_Y7FKPX6A000000000000''" "new_id ''itm'' (unix_milli 0) an_entropy = ''itm_Y7FKPX6A000000000000''"
  unfolding an_entropy_def by code_simp+

lemma shop_stays:
  "mt_shops (no_menus one_shop) = [row_of_merchant new_shop]" "mt_documents (no_menus one_shop) = []"
  "kt_categories (no_menus one_shop) = []" "kt_items (no_menus one_shop) = []"
  by (simp_all add: no_menus_def one_shop_def)

lemma grocer_found:
  assumes "mt_shops s = [row_of_merchant new_shop]" "mt_documents s = []"
  shows "\<exists>x. owned_shop ''usr'' grocer (quiet an_entropy s c r d) = (Inr (x, ''grocery''), quiet an_entropy s (Suc (Suc c)) (Suc r) d)"
  using assms shop_reads [of StatusDraft]
  by (simp add: owned_shop_def shop_of_def find_shop_def load_shop_def merchant_by_id_def one_merchant_def documents_for_def
      documents_in_def run_ops run_quiet shop_view_of_def forms_read cong: next_op_cong wrap_result_cong)

lemma opens_section:
  "w_store (snd (run_menu ''usr'' grocer (CreateCategory section_form) (quiet an_entropy (no_menus one_shop) 0 0 0))) = with_section"
proof -
  obtain x where "owned_shop ''usr'' grocer (quiet an_entropy (no_menus one_shop) 0 0 0) =
      (Inr (x, ''grocery''), quiet an_entropy (no_menus one_shop) (Suc (Suc 0)) (Suc 0) 0)"
    using grocer_found [of "no_menus one_shop" 0 0 0] shop_stays by blast
  moreover have "write_category staples (no_menus one_shop) = Some with_section"
    by (simp add: write_category_def shop_stays put_category_def with_section_def shop_known_def staples_def fits32_def)
  ultimately show ?thesis
    by (simp add: create_category_def section_form_def run_ops run_quiet categories_of_def shop_stays max_categories_per_shop_def
        menu_ids lift_domain_def forms_read save_category_def committed_def cong: next_op_cong wrap_result_cong)
qed

lemma sells_rice:
  "w_store (snd (run_menu ''usr'' grocer (CreateItem rice_form) (quiet an_entropy with_section 0 0 0))) = with_rice"
proof -
  have shops: "mt_shops with_section = [row_of_merchant new_shop]" "mt_documents with_section = []" "kt_categories with_section = [staples]"
    "kt_items with_section = []" by (simp_all add: with_section_def shop_stays)
  obtain x where "owned_shop ''usr'' grocer (quiet an_entropy with_section 0 0 0) =
      (Inr (x, ''grocery''), quiet an_entropy with_section (Suc (Suc 0)) (Suc 0) 0)"
    using grocer_found [of with_section 0 0 0] shops by blast
  moreover have "category_exists grocer ''cat_Y7FKPX6A000000000000'' (quiet an_entropy with_section c r d) =
      (Inr (), quiet an_entropy with_section (Suc c) r d)" for c r d
    by (simp add: category_exists_def or_missing_def run_ops run_quiet category_of_def shops staples_def)
  moreover have "to_draft rice_form = Inr \<lparr>dw_category_id = ''cat_Y7FKPX6A000000000000'', dw_name = ''Rice'',
     dw_description = [], dw_image_url = [], dw_price = taka 9000, dw_attributes = no_attributes\<lparr>at_unit := ''kg''\<rparr>,
     dw_stock = \<lparr>st_tracked = True, st_quantity = 7\<rparr>, dw_sort_order = 0\<rparr>"
    by (simp add: to_draft_def rice_form_def forms_read lift_domain_def no_attributes_def)
  moreover have "write_item rice with_section = Some with_rice"
  proof -
    have "item_fits_table rice" by code_simp
    moreover have "ir_item (row_of_item rice) = rice" by (simp add: row_of_item_def rice_def)
    moreover have "mg_id staples = it_category_id rice" "it_merchant_id rice = grocer" "it_variant_groups rice = []" "it_add_on_groups rice = []"
      by (simp_all add: staples_def rice_def)
    ultimately show ?thesis
      by (simp add: write_item_def shops put_item_def shop_known_def write_option_groups_def write_groups_def with_rice_def)
        (simp add: with_section_def no_menus_def)
  qed
  ultimately show ?thesis
    by (simp add: create_item_def rice_form_def run_ops run_quiet menu_ids lift_domain_def forms_read keep_item_def save_item_def committed_def
        cong: next_op_cong wrap_result_cong)
qed

lemma rice_reachable: "menus_reachable (\<lambda>_. Some ''grocery'') (\<lambda>_. grocer) with_rice"
proof -
  let ?past = "menu_past (\<lambda>_. Some ''grocery'') (\<lambda>_. grocer)"
  have step: "?past (\<lambda>s. w_store (snd (run_menu ''usr'' grocer q ((quiet an_entropy (no_menus one_shop) 0 0 0)\<lparr>w_store := s\<rparr>))))" for q
    by (rule menu_request) (simp_all add: quiet_def menu_nothing draws_for_def)
  have store: "(quiet an_entropy t 0 0 0)\<lparr>w_store := s\<rparr> = quiet an_entropy s 0 0 0" for s t by (simp add: quiet_def)
  have "kinds_kept (\<lambda>_. Some ''grocery'') one_shop" by (simp add: kinds_kept_def one_shop_def may_be_def all_merchant_types_def kind_grocery_def)
  moreover have "with_rice = (\<lambda>s. w_store (snd (run_menu ''usr'' grocer (CreateItem rice_form) ((quiet an_entropy (no_menus one_shop) 0 0 0)\<lparr>w_store := s\<rparr>))))
      ((\<lambda>s. w_store (snd (run_menu ''usr'' grocer (CreateCategory section_form) ((quiet an_entropy (no_menus one_shop) 0 0 0)\<lparr>w_store := s\<rparr>))))
        (no_menus one_shop))"
    by (simp only: store opens_section sells_rice)
  ultimately show ?thesis unfolding menus_reachable_def using menu_later [OF step step] by blast
qed

theorem menus_fit_their_shops_witness:
  "st_tracked (it_stock (ir_item (row_of_item rice))) = cp_tracks_stock (capabilities_for ''grocery'') \<and>
   list_ex (\<lambda>c. mg_id c = it_category_id (ir_item (row_of_item rice)) \<and> mg_merchant_id c = it_merchant_id (ir_item (row_of_item rice)))
     (kt_categories with_rice)"
proof -
  have "row_of_item rice \<in> set (kt_items with_rice)" by (simp add: with_rice_def)
  from bspec [OF conjunct1 [OF menus_fit_their_shops [OF rice_reachable]] this] show ?thesis unfolding Let_def list_ex_iff by simp
qed

theorem strangers_leave_a_menu_alone_witness:
  "rows_of (\<lambda>_. grocer) grocer (w_store (snd (run_menu ''thief'' grocer (RemoveItem ''itm_Y7FKPX6A000000000000'') (quiet an_entropy with_rice 0 0 0)))) =
   rows_of (\<lambda>_. grocer) grocer (w_store (quiet an_entropy with_rice 0 0 0))"
proof (rule strangers_leave_a_menu_alone [where kinds = "\<lambda>_. Some ''grocery''" and shop = grocer and u = "''thief''" and
      q = "RemoveItem ''itm_Y7FKPX6A000000000000''"])
  show "menus_reachable (\<lambda>_. Some ''grocery'') (\<lambda>_. grocer) (w_store (quiet an_entropy with_rice 0 0 0))"
    by (simp add: run_quiet rice_reachable)
  show "\<not> owns_shop ''thief'' grocer (w_store (quiet an_entropy with_rice 0 0 0))"
    by (simp add: run_quiet owns_shop_def with_rice_def with_section_def shop_stays)
  show "relies (preserves (stranger_to (\<lambda>_. Some ''grocery'') (\<lambda>_. grocer) ''thief'' grocer
      (rows_of (\<lambda>_. grocer) grocer (w_store (quiet an_entropy with_rice 0 0 0))))) (quiet an_entropy with_rice 0 0 0)"
    by (simp add: relies_def quiet_def preserves_def)
  show "draws_for (\<lambda>_. grocer) grocer (w_clock (quiet an_entropy with_rice 0 0 0)) (w_entropy (quiet an_entropy with_rice 0 0 0))"
    by (simp add: draws_for_def)
qed (rule prod.collapse [symmetric])

section \<open>Availability as it is stored\<close>

text \<open>C37: An availability an owner asked for reads back from storage as it was, unless none of its days has a window: that one is
  never available when it is accepted and always available once it is read.\<close>

theorem availability_reads_back:
  assumes "asked_availability q = Inr a"
  shows "decode_availability (encode_availability a) =
      Inr (if av_always a \<or> weekly_is_empty (av_windows a) then always_available else a) \<and>
    (available_at a t \<longrightarrow> av_always a \<or> \<not> weekly_is_empty (av_windows a))"
proof (cases "qa_always q")
  case True
  then have "a = always_available" using assms by (simp add: asked_availability_def)
  then show ?thesis by (simp add: encode_availability_def decode_availability_def always_available_def)
next
  case False
  then obtain week where week: "decode_week (qa_days q) 0 = Inr week" and a: "a = \<lparr>av_always = False, av_windows = week\<rparr>"
    using assms by (auto simp: asked_availability_def decode_availability_def rbind_Inr_iff split: if_splits sum.splits)
  have wf: "wf_weekly week" by (rule decode_week_wf [OF week])
  have empty: "encode_week week = [] \<longleftrightarrow> weekly_is_empty week"
  proof -
    have "length week = Suc (Suc (Suc (Suc (Suc (Suc (Suc 0))))))" using wf by (simp add: wf_weekly_def)
    then obtain a b c d e f g where "week = [a, b, c, d, e, f, g]" by (auto simp: length_Suc_conv)
    then show ?thesis by (simp add: encode_week_days weekly_is_empty_def)
  qed
  have "\<not> covers week t" if "weekly_is_empty week"
  proof -
    have "week ! nat (weekday_at t) \<in> set week" using wf weekday_at_bounds [of t] by (intro nth_mem) (auto simp: wf_weekly_def)
    then show ?thesis using that by (auto simp: covers_def weekly_is_empty_def list_all_iff)
  qed
  then show ?thesis using decode_encoded [OF wf, of 0] empty
    by (auto simp: a encode_availability_def decode_availability_def available_at_def)
qed

definition closed_week :: availability_request where
  "closed_week = \<lparr>qa_always = False, qa_days = [(''1'', [])]\<rparr>"

theorem availability_reads_back_witness:
  "decode_availability (encode_availability \<lparr>av_always = False, av_windows = no_week\<rparr>) = Inr always_available \<and>
   \<not> available_at \<lparr>av_always = False, av_windows = no_week\<rparr> 0"
proof -
  have "asked_availability closed_week = Inr \<lparr>av_always = False, av_windows = no_week\<rparr>" by code_simp
  moreover have "weekly_is_empty no_week" by code_simp
  ultimately show ?thesis using availability_reads_back [of closed_week _ 0] by simp
qed

section \<open>What a combo offers\<close>

text \<open>What the parts a menu knows are worth.\<close>

definition worth_of :: "(string \<Rightarrow> item option) \<Rightarrow> combo_line list \<Rightarrow> int" where
  "worth_of members ls = (\<Sum>l\<leftarrow>ls. case members (bi_item_id l) of None \<Rightarrow> 0 | Some i \<Rightarrow> m_minor (it_price i) * bi_quantity l)"

definition modest :: "money \<Rightarrow> bool" where
  "modest p \<longleftrightarrow> m_currency p = BDT \<and> 0 \<le> m_minor p \<and> m_minor p \<le> 1000000000000"

definition portion :: "combo_line \<Rightarrow> bool" where
  "portion l \<longleftrightarrow> 1 \<le> bi_quantity l \<and> bi_quantity l \<le> 10"

lemma line_worth:
  assumes "portion l" "\<forall>k i. members k = Some i \<longrightarrow> modest (it_price i)"
  shows "0 \<le> (case members (bi_item_id l) of None \<Rightarrow> 0 | Some i \<Rightarrow> m_minor (it_price i) * bi_quantity l)"
    "(case members (bi_item_id l) of None \<Rightarrow> 0 | Some i \<Rightarrow> m_minor (it_price i) * bi_quantity l) \<le> 10000000000000"
proof -
  have "0 \<le> m_minor (it_price i) * bi_quantity l \<and> m_minor (it_price i) * bi_quantity l \<le> 1000000000000 * 10"
    if "members (bi_item_id l) = Some i" for i
    using assms(1) assms(2) [rule_format, OF that] mult_mono [of "m_minor (it_price i)" 1000000000000 "bi_quantity l" 10]
    by (simp add: portion_def modest_def)
  then show "0 \<le> (case members (bi_item_id l) of None \<Rightarrow> 0 | Some i \<Rightarrow> m_minor (it_price i) * bi_quantity l)"
    "(case members (bi_item_id l) of None \<Rightarrow> 0 | Some i \<Rightarrow> m_minor (it_price i) * bi_quantity l) \<le> 10000000000000"
    by (auto split: option.split)
qed

lemma parts_worth_exact:
  assumes "list_all portion ls" "\<forall>k i. members k = Some i \<longrightarrow> modest (it_price i)"
    and "m_currency start = BDT" "0 \<le> m_minor start" "m_minor start + 10000000000000 * int (length ls) \<le> 1000000000000000"
  shows "m_currency (parts_worth ls members start) = BDT \<and> m_minor (parts_worth ls members start) = m_minor start + worth_of members ls"
  using assms
proof (induction ls arbitrary: start)
  case Nil
  then show ?case by (simp add: parts_worth_def worth_of_def)
next
  case (Cons l ls)
  let ?next = "case members (bi_item_id l) of None \<Rightarrow> start | Some i \<Rightarrow> or_zero (add_money start (times_money (it_price i) (bi_quantity l)))"
  let ?v = "case members (bi_item_id l) of None \<Rightarrow> 0 | Some i \<Rightarrow> m_minor (it_price i) * bi_quantity l"
  have v: "0 \<le> ?v" "?v \<le> 10000000000000" using line_worth [OF _ Cons.prems(2)] Cons.prems(1) by auto
  have more: "m_minor start + ?v + 10000000000000 * int (length ls) \<le> 1000000000000000"
    using v(2) Cons.prems(5) by simp
  have step: "m_currency ?next = BDT \<and> m_minor ?next = m_minor start + ?v"
  proof (cases "members (bi_item_id l)")
    case (Some i)
    then have "m_currency (it_price i) = BDT" using Cons.prems(2) Some by (simp add: modest_def)
    moreover have "fits64 (m_minor (it_price i) * bi_quantity l)" "fits64 (m_minor start + m_minor (it_price i) * bi_quantity l)"
      using v more Cons.prems(4) Some by (auto intro!: fits64_small)
    ultimately show ?thesis using Some Cons.prems(3)
      by (simp add: or_zero_def add_money_def times_money_def same_currency_def currency_of_def add64_def mul64_def)
  qed (use Cons.prems(3) in simp)
  have "m_currency (parts_worth ls members ?next) = BDT \<and> m_minor (parts_worth ls members ?next) = m_minor ?next + worth_of members ls"
    by (rule Cons.IH) (use Cons.prems(1,2,4) step v more in auto)
  moreover have "parts_worth (l # ls) members start = parts_worth ls members ?next" by (simp add: parts_worth_def)
  ultimately show ?case using step by (simp add: worth_of_def)
qed

lemma worth_bounds:
  assumes "list_all portion ls" "\<forall>k i. members k = Some i \<longrightarrow> modest (it_price i)"
  shows "0 \<le> worth_of members ls \<and> worth_of members ls \<le> 10000000000000 * int (length ls)"
  using assms(1)
proof (induction ls)
  case (Cons l ls)
  have "portion l" using Cons.prems by simp
  note line_worth [OF this assms(2)]
  then show ?case using Cons by (simp add: worth_of_def algebra_simps)
qed (simp add: worth_of_def)

lemma by_id_exact: "distinct (map it_id items) \<Longrightarrow> by_id items k = Some i \<longleftrightarrow> i \<in> set items \<and> it_id i = k"
proof
  assume d: "distinct (map it_id items)" and i: "i \<in> set items \<and> it_id i = k"
  then obtain j where "by_id items k = Some j" unfolding by_id_def by (cases "find (\<lambda>i. it_id i = k) (rev items)") (auto simp: find_None_iff)
  moreover have "i = j" using by_id_in [OF calculation] d i by (auto simp: distinct_map inj_on_def)
  ultimately show "by_id items k = Some i" by simp
qed (rule by_id_in)

lemma only_that_one:
  assumes "distinct (map it_id items)"
  shows "(\<Sum>i\<leftarrow>items. if it_id i = k then f i else (0 :: int)) = (case by_id items k of None \<Rightarrow> 0 | Some i \<Rightarrow> f i)"
proof -
  have none: "(\<Sum>i\<leftarrow>is. if it_id i = l then f i else 0) = 0" if "l \<notin> it_id ` set is" for "is" l
    using that by (induction "is") auto
  have one: "(\<Sum>i\<leftarrow>is. if it_id i = k then f i else 0) = f j" if "distinct (map it_id is)" "j \<in> set is" "it_id j = k" for "is" j
    using that by (induction "is") (auto simp: none)
  show ?thesis
  proof (cases "by_id items k")
    case None
    then have "k \<notin> it_id ` set items" using by_id_exact [OF assms, of k] by auto
    then show ?thesis using None none by simp
  next
    case (Some j)
    then show ?thesis using one [OF assms] by_id_exact [OF assms, of k j] by simp
  qed
qed

text \<open>C38: A combo is shown as orderable exactly when it is switched on and available now and each of its items is on the menu, switched
  on, in stock and available now; it saves what its items cost more than it does, and never less than nothing.\<close>

theorem combo_offer_exact:
  assumes "distinct (map it_id items)" and "list_all (\<lambda>i. modest (it_price i)) items"
    and "list_all portion (cb_lines c)" and "length (cb_lines c) \<le> 20" and "modest (cb_price c)"
  shows "(mb_orderable (to_contract_combo c (by_id items) now) \<longleftrightarrow>
      cb_active c \<and> available_at (cb_availability c) now \<and>
      (\<forall>l\<in>set (cb_lines c). \<exists>i\<in>set items. it_id i = bi_item_id l \<and> it_active i \<and> in_stock (it_stock i) \<and> available_at (it_availability i) now)) \<and>
    sm_minor (mb_savings (to_contract_combo c (by_id items) now)) =
      max 0 ((\<Sum>l\<leftarrow>cb_lines c. \<Sum>i\<leftarrow>items. if it_id i = bi_item_id l then m_minor (it_price i) * bi_quantity l else 0) - m_minor (cb_price c))"
proof -
  let ?find = "by_id items" and ?start = "zero_money (currency_of (cb_price c))"
  have known: "\<forall>k i. ?find k = Some i \<longrightarrow> modest (it_price i)" using assms(2) by (auto simp: list_all_iff dest: by_id_in)
  have bdt: "currency_of (cb_price c) = BDT" using assms(5) by (simp add: modest_def currency_of_def)
  have parts: "m_currency (parts_worth (cb_lines c) ?find ?start) = BDT" "m_minor (parts_worth (cb_lines c) ?find ?start) = worth_of ?find (cb_lines c)"
    using parts_worth_exact [OF assms(3) known, of ?start] assms(4) by (simp_all add: bdt)
  have worth: "0 \<le> worth_of ?find (cb_lines c)" "worth_of ?find (cb_lines c) \<le> 1000000000000000"
    using worth_bounds [OF assms(3) known] assms(4) by simp_all
  have one: "(case ?find (bi_item_id l) of None \<Rightarrow> False | Some i \<Rightarrow> item_orderable i now) \<longleftrightarrow>
      (\<exists>i\<in>set items. it_id i = bi_item_id l \<and> it_active i \<and> in_stock (it_stock i) \<and> available_at (it_availability i) now)" for l
  proof (cases "?find (bi_item_id l)")
    case None
    then show ?thesis using by_id_exact [OF assms(1), of "bi_item_id l"] by auto
  next
    case (Some i)
    have "j = i" if "j \<in> set items" "it_id j = bi_item_id l" for j
      using by_id_exact [OF assms(1), of "bi_item_id l" j] Some that by simp
    then show ?thesis using Some by_id_in [OF Some] by (auto simp: item_orderable_def)
  qed
  let ?c = "to_contract_combo c ?find now"
  have price: "m_currency (cb_price c) = BDT" "0 \<le> m_minor (cb_price c)" "m_minor (cb_price c) \<le> 1000000000000"
    using assms(5) by (simp_all add: modest_def)
  have "fits64 (worth_of ?find (cb_lines c) - m_minor (cb_price c))" using worth price by (intro fits64_small) linarith+
  then have saved: "sm_minor (mb_savings ?c) = max 0 (worth_of ?find (cb_lines c) - m_minor (cb_price c))"
    using parts price by (simp add: to_contract_combo_def Let_def or_zero_def sub_money_def same_currency_def currency_of_def BDT_def
        sub64_def is_negative_def)
  have "worth_of ?find (cb_lines c) =
      (\<Sum>l\<leftarrow>cb_lines c. \<Sum>i\<leftarrow>items. if it_id i = bi_item_id l then m_minor (it_price i) * bi_quantity l else 0)"
    unfolding worth_of_def only_that_one [OF assms(1)] ..
  moreover have "mb_orderable ?c \<longleftrightarrow> cb_active c \<and> available_at (cb_availability c) now \<and>
      (\<forall>l\<in>set (cb_lines c). case ?find (bi_item_id l) of None \<Rightarrow> False | Some i \<Rightarrow> item_orderable i now)"
    by (simp add: to_contract_combo_def Let_def combo_orderable_def list_all_iff)
  ultimately show ?thesis using saved by (simp only: one)
qed

definition rice_pack :: combo where
  "rice_pack = \<lparr>cb_id = ''cmb'', cb_merchant_id = grocer, cb_merchant_type = ''grocery'', cb_name = ''Pack'', cb_description = [],
     cb_image_url = [], cb_price = taka 16000, cb_lines = [\<lparr>bi_item_id = ''itm_Y7FKPX6A000000000000'', bi_quantity = 2\<rparr>],
     cb_active = True, cb_availability = always_available, cb_sort_order = 0\<rparr>"

theorem combo_offer_exact_witness:
  "mb_orderable (to_contract_combo rice_pack (by_id [rice]) 0) \<and> sm_minor (mb_savings (to_contract_combo rice_pack (by_id [rice]) 0)) = 2000"
proof -
  have "list_all (\<lambda>i. modest (it_price i)) [rice]" "list_all portion (cb_lines rice_pack)" "modest (cb_price rice_pack)"
    by (simp_all add: modest_def portion_def rice_def rice_pack_def)
  from combo_offer_exact [OF _ this(1,2) _ this(3), of 0] show ?thesis
    by (simp add: rice_def rice_pack_def in_stock_def available_at_def always_available_def)
qed

end
