(* ===== verification/Notification_App.thy ===== *)
theory Notification_App
  imports Identity_Store
begin

text \<open>
  \<open>modules/notification\<close>: devices registered for push, a message sent by push first and by text message
  where no device took it, and what is kept of it; in every history of requests the inbox tells the
  truth about what was sent.  What the two providers accepted is in the ghost field \<open>nt_outbox\<close>, the
  devices a user ever registered in the ghost field \<open>nt_registered\<close>; no operation reads them.
\<close>

section \<open>Domain\<close>

datatype device_platform = PlatformIOS | PlatformAndroid

fun platform_text :: "device_platform \<Rightarrow> string" where
  "platform_text PlatformIOS = ''ios''"
| "platform_text PlatformAndroid = ''android''"

datatype notice_channel = ChannelPush | ChannelSMS | ChannelNone

fun channel_text :: "notice_channel \<Rightarrow> string" where
  "channel_text ChannelPush = ''push''"
| "channel_text ChannelSMS = ''sms''"
| "channel_text ChannelNone = ''none''"

datatype notice_status = NoticeSent | NoticeFailed

fun notice_status_text :: "notice_status \<Rightarrow> string" where
  "notice_status_text NoticeSent = ''sent''"
| "notice_status_text NoticeFailed = ''failed''"

datatype notice_err =
    ErrNoPlatform | ErrBadPlatform | ErrNoDeviceToken | ErrNoDeviceUser | ErrNoRecipient | ErrNoTitle | ErrNoBody

fun notice_err_text :: "notice_err \<Rightarrow> string" where
  "notice_err_text ErrNoPlatform = ''a device token needs a platform''"
| "notice_err_text ErrBadPlatform = ''platform must be ios or android''"
| "notice_err_text ErrNoDeviceToken = ''a device registration needs a token''"
| "notice_err_text ErrNoDeviceUser = ''a device token needs an owner''"
| "notice_err_text ErrNoRecipient = ''a notification needs a recipient''"
| "notice_err_text ErrNoTitle = ''a notification needs a title''"
| "notice_err_text ErrNoBody = ''a notification needs a body''"

record device_token =
  tn_user_id :: string
  tn_platform :: device_platform
  tn_token :: string

definition new_device_token :: "string \<Rightarrow> string \<Rightarrow> string \<Rightarrow> notice_err + device_token" where
  "new_device_token user platform token =
     (if user = [] then Inl ErrNoDeviceUser
      else if platform = [] then Inl ErrNoPlatform
      else case find (\<lambda>p. platform_text p = platform) [PlatformIOS, PlatformAndroid] of None \<Rightarrow> Inl ErrBadPlatform
        | Some p \<Rightarrow> if token = [] then Inl ErrNoDeviceToken
            else Inr \<lparr>tn_user_id = user, tn_platform = p, tn_token = token\<rparr>)"

record notification =
  nf_id :: string
  nf_user_id :: string
  nf_title :: string
  nf_body :: string
  nf_channel :: notice_channel
  nf_status :: notice_status
  nf_created_at :: instant

definition new_notification :: "string \<Rightarrow> string \<Rightarrow> string \<Rightarrow> string \<Rightarrow> notice_channel \<Rightarrow> notice_status \<Rightarrow> instant \<Rightarrow>
    notice_err + notification" where
  "new_notification k user title body channel status now =
     (if user = [] then Inl ErrNoRecipient
      else if title = [] then Inl ErrNoTitle
      else if body = [] then Inl ErrNoBody
      else Inr \<lparr>nf_id = k, nf_user_id = user, nf_title = title, nf_body = body, nf_channel = channel,
             nf_status = status, nf_created_at = now\<rparr>)"

section \<open>Tables and providers\<close>

datatype sent_message =
    Pushed string string string
  | Texted string string

record notification_tables =
  nt_accounts :: "(string \<times> string \<times> role \<times> bool) list"
  nt_notifications :: "notification list"
  nt_devices :: "device_token list"
  nt_outbox :: "sent_message list"
  nt_registered :: "(string \<times> string) list"

type_synonym ('z, 'a) notice_op = "('z notification_tables_scheme, 'a) op"

definition save_notification :: "notification \<Rightarrow> ('z, unit) notice_op" where
  "save_notification n = db_call (\<lambda>s.
     if list_ex (\<lambda>m. nf_id m = nf_id n) (nt_notifications s) then (Inl (Sentinel ''the row breaks a constraint of the table''), s)
     else (Inr (), s\<lparr>nt_notifications := nt_notifications s @ [n]\<rparr>))"

definition newer :: "notification \<Rightarrow> notification \<Rightarrow> bool" where
  "newer a b \<longleftrightarrow> nf_created_at b < nf_created_at a"

definition notifications_for_user :: "string \<Rightarrow> int64 \<Rightarrow> ('z, notification list) notice_op" where
  "notifications_for_user user limit = db_read (\<lambda>s. Inr (take (nat limit)
     (stable_sort newer (filter (\<lambda>n. nf_user_id n = user) (nt_notifications s)))))"

definition same_device :: "device_token \<Rightarrow> device_token \<Rightarrow> bool" where
  "same_device a b \<longleftrightarrow> tn_user_id a = tn_user_id b \<and> tn_platform a = tn_platform b"

definition put_device :: "device_token \<Rightarrow> device_token list \<Rightarrow> device_token list" where
  "put_device t rows =
     (if list_ex (same_device t) rows then map (\<lambda>r. if same_device t r then t else r) rows else rows @ [t])"

definition save_device_token :: "device_token \<Rightarrow> ('z, unit) notice_op" where
  "save_device_token t = db_call (\<lambda>s. (Inr (), s\<lparr>nt_devices := put_device t (nt_devices s),
     nt_registered := nt_registered s @ [(tn_user_id t, tn_token t)]\<rparr>))"

definition device_tokens_for_user :: "string \<Rightarrow> ('z, device_token list) notice_op" where
  "device_tokens_for_user user = db_read (\<lambda>s. Inr (filter (\<lambda>t. tn_user_id t = user) (nt_devices s)))"

text \<open>A provider takes a message or fails.\<close>

definition push_send :: "string \<Rightarrow> string \<Rightarrow> string \<Rightarrow> ('z, unit) notice_op" where
  "push_send token title body = db_call (\<lambda>s. (Inr (), s\<lparr>nt_outbox := nt_outbox s @ [Pushed token title body]\<rparr>))"

definition sms_send :: "string \<Rightarrow> string \<Rightarrow> ('z, unit) notice_op" where
  "sms_send phone body = db_call (\<lambda>s. (Inr (), s\<lparr>nt_outbox := nt_outbox s @ [Texted phone body]\<rparr>))"

text \<open>The identity module's answer.\<close>

definition number_of :: "string \<Rightarrow> ('z, string option) notice_op" where
  "number_of user = or_wrap (\<lambda>e. wrap e KindUnavailable ''directory_unavailable'' ''We could not look that account up. Please try again.'')
     (db_read (\<lambda>s. phone_in (nt_accounts s) user))"

section \<open>Use cases\<close>

definition notice_sentinel :: "notice_err \<Rightarrow> error" where
  "notice_sentinel e = Sentinel (notice_err_text e)"

definition notification_error :: "notice_err \<Rightarrow> error" where
  "notification_error e =
     (if e \<in> {ErrNoRecipient, ErrNoTitle, ErrNoBody}
      then wrap (notice_sentinel e) KindInvalid ''invalid_notification'' ''We could not send that notification.''
      else if e \<in> {ErrNoPlatform, ErrBadPlatform, ErrNoDeviceToken}
      then wrap (notice_sentinel e) KindInvalid ''invalid_device'' ''We could not register that device.''
      else wrap (notice_sentinel e) KindInvalid ''invalid_request'' ''We could not process that.'')"

definition notification_storage_error :: "error \<Rightarrow> error" where
  "notification_storage_error e = wrap e KindUnavailable ''notification_unavailable''
     ''We could not reach notifications just now. Please try again.''"

definition register_device :: "string \<Rightarrow> string \<Rightarrow> string \<Rightarrow> ('z, unit) notice_op" where
  "register_device user platform token =
     and_then (lift_err (lift_domain notification_error (new_device_token user platform token))) (\<lambda>t.
     or_wrap notification_storage_error (save_device_token t))"

definition record_notice :: "string \<Rightarrow> string \<Rightarrow> string \<Rightarrow> notice_channel \<Rightarrow> notice_status \<Rightarrow> instant \<Rightarrow> ('z, unit) notice_op" where
  "record_notice user title body channel status now =
     and_then (fresh_id ''ntf'') (\<lambda>k.
     and_then (lift_err (lift_domain notification_error (new_notification k user title body channel status now))) (\<lambda>n.
     or_wrap notification_storage_error (save_notification n)))"

text \<open>Every device is tried, also after one has taken the message.\<close>

fun push_all :: "string \<Rightarrow> string \<Rightarrow> bool \<Rightarrow> device_token list \<Rightarrow> ('z, bool) notice_op" where
  "push_all title body pushed [] = ret pushed"
| "push_all title body pushed (d # ds) = and_then (attempt (push_send (tn_token d) title body)) (\<lambda>r.
     push_all title body (case r of Inl _ \<Rightarrow> pushed | Inr _ \<Rightarrow> True) ds)"

definition text_instead :: "string option \<Rightarrow> string \<Rightarrow> ('z, bool) notice_op" where
  "text_instead phone body = (case phone of None \<Rightarrow> ret False
     | Some ph \<Rightarrow> and_then (attempt (sms_send ph body)) (\<lambda>r. ret (case r of Inl _ \<Rightarrow> False | Inr _ \<Rightarrow> True)))"

definition notify_user :: "string \<Rightarrow> string \<Rightarrow> string \<Rightarrow> ('z, unit) notice_op" where
  "notify_user user title body =
     and_then clock_now (\<lambda>now.
     and_then (or_wrap notification_storage_error (device_tokens_for_user user)) (\<lambda>devices.
     and_then (push_all title body False devices) (\<lambda>pushed.
       if pushed then record_notice user title body ChannelPush NoticeSent now
       else and_then (or_wrap notification_storage_error (number_of user)) (\<lambda>phone.
            and_then (text_instead phone body) (\<lambda>texted.
              if texted then record_notice user title body ChannelSMS NoticeSent now
              else and_then (record_notice user title body ChannelNone NoticeFailed now) (\<lambda>_.
                   raise_err (new_error KindUnavailable ''notification_failed''
                     ''We could not deliver that notification on any channel.'')))))))"

record notice_view =
  nv_id :: string
  nv_title :: string
  nv_body :: string
  nv_channel :: string
  nv_status :: string
  nv_created_at :: instant

definition notice_view_of :: "notification \<Rightarrow> notice_view" where
  "notice_view_of n = \<lparr>nv_id = nf_id n, nv_title = nf_title n, nv_body = nf_body n, nv_channel = channel_text (nf_channel n),
     nv_status = notice_status_text (nf_status n), nv_created_at = nf_created_at n\<rparr>"

definition inbox_of :: "string \<Rightarrow> int64 \<Rightarrow> ('z, notice_view list) notice_op" where
  "inbox_of user limit =
     and_then (or_wrap notification_storage_error (notifications_for_user user (if limit \<le> 0 \<or> limit > 50 then 50 else limit))) (\<lambda>found.
     ret (map notice_view_of found))"

end
