(* ===== verification/Notification_Safety.thy ===== *)
theory Notification_Safety
  imports Notification_App
begin

text \<open>
  What the inbox says of a message is what became of it, in every history of requests and whatever fails
  between them.
\<close>

section \<open>What every request promises\<close>

definition numbers :: "'z notification_tables_scheme \<Rightarrow> (string \<times> string) set" where
  "numbers s = (\<lambda>a. (fst a, fst (snd a))) ` set (nt_accounts s)"

definition took_push :: "'z notification_tables_scheme \<Rightarrow> string \<Rightarrow> string \<Rightarrow> string \<Rightarrow> bool" where
  "took_push s user title body \<longleftrightarrow> (\<exists>token. (user, token) \<in> set (nt_registered s) \<and> Pushed token title body \<in> set (nt_outbox s))"

definition took_text :: "'z notification_tables_scheme \<Rightarrow> string \<Rightarrow> string \<Rightarrow> bool" where
  "took_text s user body \<longleftrightarrow> (\<exists>raw phone. (user, raw) \<in> numbers s \<and> new_phone raw = Inr phone \<and> Texted phone body \<in> set (nt_outbox s))"

definition outcome :: "'z notification_tables_scheme \<Rightarrow> string \<Rightarrow> string \<Rightarrow> string \<Rightarrow> notice_channel \<Rightarrow> notice_status \<Rightarrow> bool" where
  "outcome s user title body channel status = (case channel of
     ChannelPush \<Rightarrow> status = NoticeSent \<and> took_push s user title body
   | ChannelSMS \<Rightarrow> status = NoticeSent \<and> took_text s user body
   | ChannelNone \<Rightarrow> status = NoticeFailed)"

definition sent_truly :: "'z notification_tables_scheme \<Rightarrow> notification \<Rightarrow> bool" where
  "sent_truly s n \<longleftrightarrow> nf_user_id n \<noteq> [] \<and> nf_title n \<noteq> [] \<and> nf_body n \<noteq> [] \<and>
     outcome s (nf_user_id n) (nf_title n) (nf_body n) (nf_channel n) (nf_status n)"

definition notices_ok :: "'z notification_tables_scheme \<Rightarrow> bool" where
  "notices_ok s \<longleftrightarrow> list_all (sent_truly s) (nt_notifications s) \<and> distinct (map nf_id (nt_notifications s)) \<and>
     list_all (\<lambda>d. (tn_user_id d, tn_token d) \<in> set (nt_registered s)) (nt_devices s) \<and>
     distinct (map (\<lambda>d. (tn_user_id d, tn_platform d)) (nt_devices s))"

definition more_sent :: "'z notification_tables_scheme \<Rightarrow> 'z notification_tables_scheme \<Rightarrow> bool" where
  "more_sent s t \<longleftrightarrow> set (nt_outbox s) \<subseteq> set (nt_outbox t) \<and> set (nt_registered s) \<subseteq> set (nt_registered t) \<and>
     numbers s \<subseteq> numbers t \<and> set (nt_notifications s) \<subseteq> set (nt_notifications t)"

definition notice_step :: "'z notification_tables_scheme \<Rightarrow> 'z notification_tables_scheme \<Rightarrow> bool" where
  "notice_step s t \<longleftrightarrow> (notices_ok s \<longrightarrow> notices_ok t \<and> more_sent s t)"

interpretation post: guarantee notice_step C for C
  by unfold_locales (auto simp: notice_step_def more_sent_def)

lemma took_more:
  "more_sent s t \<Longrightarrow> took_push s u a b \<Longrightarrow> took_push t u a b" "more_sent s t \<Longrightarrow> took_text s u b \<Longrightarrow> took_text t u b"
  unfolding more_sent_def took_push_def took_text_def by blast+

lemma outcome_more: "more_sent s t \<Longrightarrow> outcome s u a b ch st \<Longrightarrow> outcome t u a b ch st"
  using took_more [of s t] by (auto simp: outcome_def split: notice_channel.splits)

lemma truly_more: "more_sent s t \<Longrightarrow> sent_truly s n \<Longrightarrow> sent_truly t n"
  by (auto simp: sent_truly_def outcome_more)

lemma stable_post: "stable notice_step notices_ok"
  by (auto simp: stable_def notice_step_def)

section \<open>Statements\<close>

lemma numbers_sel [simp]:
  "numbers (s\<lparr>nt_outbox := b\<rparr>) = numbers s" "numbers (s\<lparr>nt_notifications := ns\<rparr>) = numbers s"
  "numbers (s\<lparr>nt_devices := ds, nt_registered := rs\<rparr>) = numbers s"
  by (simp_all add: numbers_def)

lemma more_outbox: "more_sent s (s\<lparr>nt_outbox := nt_outbox s @ ms\<rparr>)"
  by (auto simp: more_sent_def)

lemma outbox_ok: "notices_ok s \<Longrightarrow> notices_ok (s\<lparr>nt_outbox := nt_outbox s @ ms\<rparr>)"
  using truly_more [OF more_outbox] by (auto simp: notices_ok_def list_all_iff)

lemma save_notice_step:
  assumes "notices_ok s" "sent_truly s n" "\<forall>m\<in>set (nt_notifications s). nf_id m \<noteq> nf_id n"
  shows "notices_ok (s\<lparr>nt_notifications := nt_notifications s @ [n]\<rparr>)"
proof -
  let ?t = "s\<lparr>nt_notifications := nt_notifications s @ [n]\<rparr>"
  have more: "more_sent s ?t" by (auto simp: more_sent_def)
  show ?thesis using assms truly_more [OF more] by (auto simp: notices_ok_def list_all_iff)
qed

lemma put_device_keys:
  "map (\<lambda>d. (tn_user_id d, tn_platform d)) (put_device t rows) = map (\<lambda>d. (tn_user_id d, tn_platform d)) rows @
     (if list_ex (same_device t) rows then [] else [(tn_user_id t, tn_platform t)])"
  by (auto simp: put_device_def same_device_def)

lemma save_device_step: "notice_step s (s\<lparr>nt_devices := put_device d (nt_devices s), nt_registered := nt_registered s @ [(tn_user_id d, tn_token d)]\<rparr>)"
proof -
  let ?t = "s\<lparr>nt_devices := put_device d (nt_devices s), nt_registered := nt_registered s @ [(tn_user_id d, tn_token d)]\<rparr>"
  have more: "more_sent s ?t" by (auto simp: more_sent_def)
  have ok: "notices_ok ?t" if "notices_ok s"
  proof -
    have "distinct (map (\<lambda>d. (tn_user_id d, tn_platform d)) (put_device d (nt_devices s)))"
      using that unfolding put_device_keys by (auto simp: notices_ok_def list_ex_iff same_device_def)
    moreover have "list_all (\<lambda>e. (tn_user_id e, tn_token e) \<in> set (nt_registered ?t)) (put_device d (nt_devices s))"
      using that by (auto simp: notices_ok_def list_all_iff put_device_def)
    ultimately show ?thesis using that truly_more [OF more] by (simp add: notices_ok_def list_all_iff)
  qed
  then show ?thesis using more by (simp add: notice_step_def)
qed

section \<open>Operations\<close>

abbreviation "notice_holds \<equiv> holds_in any_source notice_step"

lemma sms_send_holds:
  "notice_holds (\<lambda>s. notices_ok s \<and> (\<exists>raw. (user, raw) \<in> numbers s \<and> new_phone raw = Inr phone)) (sms_send phone body)
     (\<lambda>r s. notices_ok s \<and> (\<forall>x. r = Inr x \<longrightarrow> took_text s user body))"
proof -
  have "stable notice_step (\<lambda>s. notices_ok s \<and> (\<exists>raw. (user, raw) \<in> numbers s \<and> new_phone raw = Inr phone))"
    by (auto simp: stable_def notice_step_def more_sent_def)
  then show ?thesis unfolding sms_send_def
    by (rule post.call) (auto simp: took_text_def notice_step_def more_outbox outbox_ok)
qed

lemma push_all_holds:
  "notice_holds (\<lambda>s. notices_ok s \<and> (\<forall>d\<in>set ds. (user, tn_token d) \<in> set (nt_registered s)) \<and> (pushed \<longrightarrow> took_push s user title body))
     (push_all title body pushed ds) (\<lambda>r s. notices_ok s \<and> (r = Inr True \<longrightarrow> took_push s user title body))"
proof (induction ds arbitrary: pushed)
  case Nil
  show ?case unfolding push_all.simps by (rule post.ret) auto
next
  case (Cons d ds)
  let ?next = "\<lambda>r. case r of Inl _ \<Rightarrow> pushed | Inr _ \<Rightarrow> True"
  have still: "stable notice_step (\<lambda>s. notices_ok s \<and> (\<forall>d\<in>set (d # ds). (user, tn_token d) \<in> set (nt_registered s)) \<and>
      (pushed \<longrightarrow> took_push s user title body))"
    unfolding stable_def notice_step_def by (auto dest: took_more(1)) (auto simp: more_sent_def)
  have send: "notice_holds (\<lambda>s. notices_ok s \<and> (\<forall>d\<in>set (d # ds). (user, tn_token d) \<in> set (nt_registered s)) \<and> (pushed \<longrightarrow> took_push s user title body))
      (push_send (tn_token d) title body)
      (\<lambda>r s. notices_ok s \<and> (\<forall>d\<in>set ds. (user, tn_token d) \<in> set (nt_registered s)) \<and> (?next r \<longrightarrow> took_push s user title body))"
    unfolding push_send_def
    by (rule post.call [OF still]) (auto simp: notice_step_def took_push_def more_outbox outbox_ok)
  show ?case unfolding push_all.simps
    by (rule post.bind [where M = "\<lambda>r s. notices_ok s \<and> (\<forall>d\<in>set ds. (user, tn_token d) \<in> set (nt_registered s)) \<and> (?next r \<longrightarrow> took_push s user title body)"],
        rule post.attempt, rule holds_weaken [OF send], simp, rule Cons.IH)
qed

definition kept :: "'z notification_tables_scheme \<Rightarrow> string \<Rightarrow> string \<Rightarrow> string \<Rightarrow> notice_status \<Rightarrow> bool" where
  "kept s user title body status \<longleftrightarrow>
     (\<exists>n\<in>set (nt_notifications s). nf_user_id n = user \<and> nf_title n = title \<and> nf_body n = body \<and> nf_status n = status)"

lemma save_holds:
  "notice_holds (\<lambda>s. notices_ok s \<and> sent_truly s n) (save_notification n)
     (\<lambda>r s. notices_ok s \<and> (\<forall>x. r = Inr x \<longrightarrow> kept s (nf_user_id n) (nf_title n) (nf_body n) (nf_status n)))"
proof -
  have still: "stable notice_step (\<lambda>s. notices_ok s \<and> sent_truly s n)"
    by (auto simp: stable_def notice_step_def truly_more)
  show ?thesis unfolding save_notification_def
    by (rule post.call [OF still])
      (auto simp: notice_step_def kept_def list_ex_iff post.refl [unfolded notice_step_def] more_sent_def save_notice_step split: if_splits)
qed

lemma record_holds:
  "notice_holds (\<lambda>s. notices_ok s \<and> outcome s user title body channel status) (record_notice user title body channel status now)
     (\<lambda>r s. notices_ok s \<and> (\<forall>x. r = Inr x \<longrightarrow> kept s user title body status))"
  unfolding record_notice_def
proof (rule post.bind [where M = "\<lambda>_ s. notices_ok s \<and> outcome s user title body channel status"])
  fix k
  show "notice_holds (\<lambda>s. notices_ok s \<and> outcome s user title body channel status)
      (and_then (lift_err (lift_domain notification_error (new_notification k user title body channel status now)))
        (\<lambda>n. or_wrap notification_storage_error (save_notification n)))
      (\<lambda>r s. notices_ok s \<and> (\<forall>x. r = Inr x \<longrightarrow> kept s user title body status))"
  proof (cases "new_notification k user title body channel status now")
    case (Inr n)
    then have n: "nf_user_id n = user" "nf_title n = title" "nf_body n = body" "nf_channel n = channel" "nf_status n = status"
      "user \<noteq> []" "title \<noteq> []" "body \<noteq> []" by (auto simp: new_notification_def split: if_splits)
    show ?thesis unfolding Inr lift_domain_def sum.case op_simps
      by (rule post.or_wrap, rule holds_conseq [OF save_holds]) (auto simp: n sent_truly_def split: sum.splits)
  qed (auto simp: lift_domain_def intro: post.raise)
qed (rule post.fresh, simp)

lemma text_holds:
  "notice_holds (\<lambda>s. notices_ok s \<and> (\<forall>ph. phone = Some ph \<longrightarrow> (\<exists>raw. (user, raw) \<in> numbers s \<and> new_phone raw = Inr ph))) (text_instead phone body)
     (\<lambda>r s. notices_ok s \<and> (r = Inr True \<longrightarrow> took_text s user body))"
proof (cases phone)
  case (Some ph)
  show ?thesis unfolding Some text_instead_def option.case
    by (rule post.bind [where M = "\<lambda>r s. notices_ok s \<and> (\<forall>x. r = Inr x \<longrightarrow> took_text s user body)"], rule post.attempt,
        rule holds_conseq [OF sms_send_holds [of user ph body]], simp, simp, rule post.ret) (auto split: sum.splits)
qed (auto simp: text_instead_def intro: post.ret)

lemma number_holds:
  "notice_holds notices_ok (number_of user)
     (\<lambda>r s. notices_ok s \<and> (\<forall>ph. r = Inr (Some ph) \<longrightarrow> (\<exists>raw. (user, raw) \<in> numbers s \<and> new_phone raw = Inr ph)))"
proof -
  have found: "\<exists>raw. (user, raw) \<in> numbers s \<and> new_phone raw = Inr ph" if "phone_in (nt_accounts s) user = Inr (Some ph)" for s ph
    using that by (auto simp: phone_in_def numbers_def split: option.splits if_splits sum.splits dest!: find_Some_mem)
  show ?thesis unfolding number_of_def
    by (rule post.or_wrap, rule post.read [OF stable_post]) (auto simp: found split: sum.splits)
qed

lemma devices_holds:
  "notice_holds notices_ok (device_tokens_for_user user)
     (\<lambda>r s. notices_ok s \<and> (\<forall>ds. r = Inr ds \<longrightarrow> (\<forall>d\<in>set ds. (user, tn_token d) \<in> set (nt_registered s))))"
  unfolding device_tokens_for_user_def
  by (rule post.read [OF stable_post]) (auto simp: notices_ok_def list_all_iff)

lemma notify_holds:
  "notice_holds notices_ok (notify_user user title body) (\<lambda>r s. notices_ok s \<and> (r = Inr () \<longrightarrow> kept s user title body NoticeSent))"
  unfolding notify_user_def
proof (rule post.bind [where M = "\<lambda>_. notices_ok"], rule post.clock, simp)
  fix now
  let ?Q = "\<lambda>r s. notices_ok s \<and> (r = Inr () \<longrightarrow> kept s user title body NoticeSent)"
  let ?last = "\<lambda>phone. and_then (text_instead phone body) (\<lambda>texted.
      if texted then record_notice user title body ChannelSMS NoticeSent now
      else and_then (record_notice user title body ChannelNone NoticeFailed now) (\<lambda>_.
           raise_err (new_error KindUnavailable ''notification_failed'' ''We could not deliver that notification on any channel.'')))"
  have sent: "notice_holds (\<lambda>s. notices_ok s \<and> outcome s user title body ch NoticeSent) (record_notice user title body ch NoticeSent now) ?Q" for ch
    by (rule holds_weaken [OF record_holds]) simp
  have failed: "notice_holds notices_ok (and_then (record_notice user title body ChannelNone NoticeFailed now) (\<lambda>_. raise_err e)) ?Q" for e
    by (rule post.bind [where M = "\<lambda>_. notices_ok"], rule holds_conseq [OF record_holds [of user title body ChannelNone NoticeFailed now]])
      (auto simp: outcome_def intro: post.raise split: sum.splits)
  have texts: "notice_holds (\<lambda>s. notices_ok s \<and> (\<forall>ph. phone = Some ph \<longrightarrow> (\<exists>raw. (user, raw) \<in> numbers s \<and> new_phone raw = Inr ph))) (?last phone) ?Q" for phone
  proof (rule post.bind [where M = "\<lambda>b s. notices_ok s \<and> (b \<longrightarrow> took_text s user body)"])
    show "notice_holds (\<lambda>s. notices_ok s \<and> (b \<longrightarrow> took_text s user body))
        (if b then record_notice user title body ChannelSMS NoticeSent now
         else and_then (record_notice user title body ChannelNone NoticeFailed now) (\<lambda>_.
           raise_err (new_error KindUnavailable ''notification_failed'' ''We could not deliver that notification on any channel.''))) ?Q" for b
      by (cases b) (simp_all add: failed holds_conseq [OF sent [of ChannelSMS]] outcome_def)
  qed (rule holds_weaken [OF text_holds], auto split: sum.splits)
  have falls_back: "notice_holds notices_ok (and_then (or_wrap notification_storage_error (number_of user)) ?last) ?Q"
  proof (rule post.bind [where M = "\<lambda>phone s. notices_ok s \<and> (\<forall>ph. phone = Some ph \<longrightarrow> (\<exists>raw. (user, raw) \<in> numbers s \<and> new_phone raw = Inr ph))"])
  qed (rule post.or_wrap, rule holds_weaken [OF number_holds], auto split: sum.splits intro: texts)
  show "notice_holds notices_ok (and_then (or_wrap notification_storage_error (device_tokens_for_user user)) (\<lambda>devices.
      and_then (push_all title body False devices) (\<lambda>pushed.
        if pushed then record_notice user title body ChannelPush NoticeSent now
        else and_then (or_wrap notification_storage_error (number_of user)) ?last))) ?Q"
  proof (rule post.bind [where M = "\<lambda>ds s. notices_ok s \<and> (\<forall>d\<in>set ds. (user, tn_token d) \<in> set (nt_registered s))"])
    fix ds
    show "notice_holds (\<lambda>s. notices_ok s \<and> (\<forall>d\<in>set ds. (user, tn_token d) \<in> set (nt_registered s)))
        (and_then (push_all title body False ds) (\<lambda>pushed. if pushed then record_notice user title body ChannelPush NoticeSent now
          else and_then (or_wrap notification_storage_error (number_of user)) ?last)) ?Q"
    proof (rule post.bind [where M = "\<lambda>b s. notices_ok s \<and> (b \<longrightarrow> took_push s user title body)"])
      show "notice_holds (\<lambda>s. notices_ok s \<and> (b \<longrightarrow> took_push s user title body))
          (if b then record_notice user title body ChannelPush NoticeSent now
           else and_then (or_wrap notification_storage_error (number_of user)) ?last) ?Q" for b
        by (cases b) (simp_all add: falls_back holds_conseq [OF sent [of ChannelPush]] outcome_def)
    qed (rule holds_conseq [OF push_all_holds], auto split: sum.splits)
  qed (rule post.or_wrap, rule holds_weaken [OF devices_holds], auto split: sum.splits)
qed

lemma register_holds: "notice_holds notices_ok (register_device user platform token) (\<lambda>_. notices_ok)"
  unfolding register_device_def save_device_token_def
  by (rule post.bind [where M = "\<lambda>_. notices_ok"], rule post.lift, simp split: sum.split, rule post.or_wrap, rule post.call [OF stable_post])
    (use save_device_step in \<open>auto simp: notice_step_def\<close>)

lemma inbox_holds: "notice_holds notices_ok (inbox_of user limit) (\<lambda>_. notices_ok)"
  unfolding inbox_of_def notifications_for_user_def
  by (rule post.bind [where M = "\<lambda>_. notices_ok"], rule post.or_wrap, rule post.read [OF stable_post])
    (auto intro: post.ret split: sum.split)

section \<open>Histories\<close>

datatype notice_request =
    RegisterDevice string string string
  | NotifyUser string string string
  | ReadInbox string int64

fun run_notice :: "notice_request \<Rightarrow> ('z, unit) notice_op" where
  "run_notice (RegisterDevice user platform token) = ignoring (register_device user platform token)"
| "run_notice (NotifyUser user title body) = ignoring (notify_user user title body)"
| "run_notice (ReadInbox user limit) = ignoring (inbox_of user limit)"

lemma run_notice_holds: "notice_holds notices_ok (run_notice q) (\<lambda>_. notices_ok)"
  by (cases q) (simp_all add: post.ignoring register_holds inbox_holds holds_weaken [OF notify_holds])

text \<open>Accounts come, are suspended and keep their number.\<close>

inductive notice_past :: "('z notification_tables_scheme \<Rightarrow> 'z notification_tables_scheme) \<Rightarrow> bool" where
  notice_nothing: "notice_past (\<lambda>s. s)"
| notice_later: "notice_past f \<Longrightarrow> notice_past g \<Longrightarrow> notice_past (\<lambda>s. g (f s))"
| notice_elsewhere: "(\<And>s. numbers s \<subseteq> numbers (f s) \<and> nt_notifications (f s) = nt_notifications s \<and> nt_devices (f s) = nt_devices s \<and>
      nt_outbox (f s) = nt_outbox s \<and> nt_registered (f s) = nt_registered s) \<Longrightarrow> notice_past f"
| notice_asked: "(\<And>n. notice_past (w_others w n)) \<Longrightarrow> notice_past (\<lambda>s. w_store (snd (run_notice q (w\<lparr>w_store := s\<rparr>))))"

lemma notice_past_step: "notice_past f \<Longrightarrow> notice_step s (f s)"
proof (induction arbitrary: s rule: notice_past.induct)
  case (notice_later f g)
  show ?case by (rule post.trans [OF notice_later.IH])
next
  case (notice_elsewhere f)
  have more: "more_sent s (f s)" using notice_elsewhere.hyps [of s] by (simp add: more_sent_def)
  then show ?case using notice_elsewhere.hyps [of s] truly_more [OF more]
    by (auto simp: notice_step_def notices_ok_def list_all_iff)
next
  case (notice_asked w q)
  let ?w = "w\<lparr>w_store := s\<rparr>"
  have w: "relies notice_step ?w" using notice_asked.IH by (simp add: relies_def)
  obtain r v where run: "run_notice q ?w = (r, v)" by fastforce
  have "notices_ok s \<Longrightarrow> notices_ok (w_store v) \<and> notice_step s (w_store v)"
    using holdsD [OF run_notice_holds w _ _ run] by simp
  then show ?case by (auto simp: run notice_step_def)
qed (rule post.refl)

definition nothing_sent :: "(string \<times> string \<times> role \<times> bool) list \<Rightarrow> notification_tables" where
  "nothing_sent accounts = \<lparr>nt_accounts = accounts, nt_notifications = [], nt_devices = [], nt_outbox = [], nt_registered = []\<rparr>"

definition notices_reachable :: "notification_tables \<Rightarrow> bool" where
  "notices_reachable s \<longleftrightarrow> (\<exists>accounts f. notice_past f \<and> s = f (nothing_sent accounts))"

lemma reachable_notices_ok: "notices_reachable s \<Longrightarrow> notices_ok s"
proof -
  assume "notices_reachable s"
  then obtain accounts f where f: "notice_past f" "s = f (nothing_sent accounts)" by (auto simp: notices_reachable_def)
  have "notices_ok (nothing_sent accounts)" by (simp add: notices_ok_def nothing_sent_def)
  then show ?thesis using notice_past_step [OF f(1), of "nothing_sent accounts"] f(2) by (simp add: notice_step_def)
qed

text \<open>C40: In every history of requests, whatever fails between two calls, a message that is kept as sent by push was taken for a
  device its recipient had registered, one kept as sent by text was taken for a number of the recipient's account, and the others
  are kept as failed; and where \<open>Notify\<close> reports success, the message is kept as sent.\<close>

theorem notify_tells_the_truth:
  assumes "notices_reachable (w_store w)" and "\<And>n. notice_past (w_others w n)"
    and "notify_user user title body w = (r, v)"
  shows "list_all (sent_truly (w_store v)) (nt_notifications (w_store v)) \<and> (r = Inr () \<longrightarrow> kept (w_store v) user title body NoticeSent)"
proof -
  have w: "relies notice_step w" unfolding relies_def by (intro allI notice_past_step assms(2))
  have "notices_ok (w_store v) \<and> (r = Inr () \<longrightarrow> kept (w_store v) user title body NoticeSent)"
    using holdsD [OF notify_holds w _ _ assms(3)] reachable_notices_ok [OF assms(1)] by simp
  then show ?thesis by (simp add: notices_ok_def)
qed

section \<open>A message to a device\<close>

definition a_phone :: notification_tables where
  "a_phone = (nothing_sent [])\<lparr>nt_devices := [\<lparr>tn_user_id = ''usr'', tn_platform = PlatformIOS, tn_token = ''tok''\<rparr>],
     nt_registered := [(''usr'', ''tok'')]\<rparr>"

lemma phone_reachable: "notices_reachable a_phone"
proof -
  let ?w = "quiet [] (nothing_sent []) 0 0 0"
  have "w_store (snd (run_notice (RegisterDevice ''usr'' ''ios'' ''tok'') (?w\<lparr>w_store := nothing_sent []\<rparr>))) = a_phone"
    by (simp add: register_device_def new_device_token_def lift_domain_def save_device_token_def run_ops put_device_def a_phone_def nothing_sent_def
        quiet_def db_call_def Let_def cong: next_op_cong wrap_result_cong)
  moreover have "notice_past (\<lambda>s. w_store (snd (run_notice (RegisterDevice ''usr'' ''ios'' ''tok'') (?w\<lparr>w_store := s\<rparr>))))"
    by (rule notice_asked) (simp add: quiet_def notice_nothing)
  ultimately show ?thesis unfolding notices_reachable_def by metis
qed

theorem notify_tells_the_truth_witness:
  "kept (w_store (snd (notify_user ''usr'' ''Hi'' ''On its way'' (quiet [] a_phone 0 0 0)))) ''usr'' ''Hi'' ''On its way'' NoticeSent"
proof -
  let ?w = "quiet [] a_phone 0 0 0"
  have "fst (notify_user ''usr'' ''Hi'' ''On its way'' ?w) = Inr ()"
    by (simp add: notify_user_def run_ops run_quiet device_tokens_for_user_def a_phone_def push_send_def record_notice_def new_notification_def
        lift_domain_def save_notification_def nothing_sent_def cong: next_op_cong wrap_result_cong)
  then obtain v where v: "notify_user ''usr'' ''Hi'' ''On its way'' ?w = (Inr (), v)" by (cases "notify_user ''usr'' ''Hi'' ''On its way'' ?w") auto
  have "notice_past (w_others ?w n)" for n by (simp add: quiet_def notice_nothing)
  from notify_tells_the_truth [OF _ this v] show ?thesis by (simp add: v run_quiet phone_reachable)
qed

end
