(* ===== verification/Spec2Isabelle.thy ===== *)
theory Spec2Isabelle
  imports Schedule Histories Identity_Example Pricing_App Cart_Example User_Safety Tracking_Safety Settings_Served Review_Example Catalogue_Example Notification_Safety
begin

text \<open>
  \<^bold>\<open>The program.\<close>  The backend of a delivery service (\<open>src/backend\<close>): one Go process of modules that
  each keep tables of their own and talk to each other only through their \<open>contract\<close> packages.
  A customer signs in (\<open>identity\<close>), finds shops around a point (\<open>geo\<close>, \<open>discovery\<close>, \<open>merchant\<close>),
  fills a cart (\<open>cart\<close>), is quoted a delivery (\<open>pricing\<close>, from settings an administrator tunes in
  \<open>config\<close>) and orders (\<open>order\<close>); the shop accepts and marks the order ready, \<open>dispatch\<close> offers the
  job to riders, and \<open>payment\<close> takes money online or books the cash the rider collected.

  \<^bold>\<open>How code is translated.\<close>  A struct is a \<open>record\<close>, an enumeration a \<open>datatype\<close> with its text, Go's
  \<open>int64\<close> an \<open>int\<close> whose every operation wraps (\<open>GoInt\<close>), \<open>float64\<close> a datatype of rationals, infinities
  and NaN whose operations round to nearest even (\<open>Float64\<close>; \<open>FloatText\<close> for its text), a string
  its bytes (\<open>GoStrings\<close>), an instant a number of nanoseconds (\<open>GoTime\<close>).  A pure function
  that may fail returns \<open>error + 'a\<close> (\<open>Prelude\<close>, \<open>Errs\<close>).  A use case is an operation on a \<open>world\<close>
  (\<open>Ops\<close>): before each of its database calls the other requests may have changed the tables in any
  way the model of the requests allows, the call may fail, and the clock and the entropy source are
  arbitrary sequences.  So every theorem about histories covers interleaving at the granularity of
  statements and transactions, and faults between any two of them.  Loops are recursion, structural or with a measure;
  the rejection sampling of one-time codes, which need not end, returns \<open>None\<close> when the entropy runs
  out (\<open>otp_generated\<close> says exactly when); a client's walk through pages (\<open>Paging\<close>) is given fuel, which
  \<open>cursors_walk_the_list\<close> shows to be enough at one page a row; no other definition uses any.

  \<^bold>\<open>Which theory models what.\<close>
  \<^item> \<open>Schedule\<close>, \<open>Money\<close>, \<open>Errs\<close>, \<open>Ids\<close>, \<open>Crypto\<close>, \<open>Paging\<close>: \<open>shared/\<close> and what is used of Go's library.
  \<^item> \<open>Order_Domain\<close>, \<open>Order_Repo\<close>, \<open>Order_App\<close>: \<open>modules/order\<close>, its status machine, its statements,
    its use cases from placing to cancelling.
  \<^item> \<open>Dispatch_Domain\<close>, \<open>Heaps\<close>, \<open>Assigner\<close>, \<open>Dispatch_Offers\<close>, \<open>Dispatch_App\<close>: \<open>modules/dispatch\<close>, jobs and
    partners, the assigner's heap and score, rounds of offers, what a rider does.
  \<^item> \<open>Payment_Domain\<close>, \<open>Payment_App\<close>, \<open>Payment_Cash\<close>: \<open>modules/payment\<close>, checkout, the gateway's notices,
    refunds, cash collections and remittances.
  \<^item> \<open>Review_Domain\<close>, \<open>Review_App\<close>: \<open>modules/review\<close>, reviews, ratings, support tickets and their refunds.
  \<^item> \<open>World\<close> holds the tables these four share, \<open>Lifecycles\<close> the contract of their status machines,
    \<open>Evolution\<close> and \<open>Promise\<close> what each request promises of the tables, \<open>Promise_Calls\<close>,
    \<open>Promise_Dispatch\<close>, \<open>Promise_Requests\<close> and \<open>Promise_Reviews\<close> that it does, \<open>Requests\<close> the requests and their histories,
    \<open>Histories\<close> the theorems; \<open>Example_Day\<close> runs the model on an evening.
  \<^item> \<open>Identity_Domain\<close>, \<open>Identity_Store\<close>, \<open>Identity_App\<close>, \<open>Identity_Safety\<close>: \<open>modules/identity\<close> with the Redis
    scripts, keys and expiry.
  \<^item> \<open>Config_Domain\<close>, \<open>Config_App\<close>, \<open>Config_Safety\<close>: \<open>modules/config\<close>, the registry of
    settings, overrides by place, the audit log and the tuner.
  \<^item> \<open>Pricing_Domain\<close>, \<open>Pricing_App\<close>: \<open>modules/pricing\<close>, the tariff and the quote.
  \<^item> \<open>Geo_Domain\<close>, \<open>Geo_App\<close>: \<open>modules/geo\<close>, coordinates, polygons and the index of shops.
  \<^item> \<open>Merchant_Domain\<close>, \<open>Merchant_App\<close>, \<open>Merchant_Cases\<close>, \<open>Merchant_Safety\<close>, \<open>Merchant_Histories\<close>:
    \<open>modules/merchant\<close>, shops, papers, hours and the approval workflow.
  \<^item> \<open>Catalogue_Domain\<close>, \<open>Catalogue_Repo\<close>, \<open>Catalogue_App\<close>, \<open>Catalogue_Menus\<close>, \<open>Catalogue_Safety\<close>: \<open>modules/catalogue\<close>,
    what a shop of each kind may sell, its tables, an owner's use cases, the menu others read, and what holds of menus.
  \<^item> \<open>Discovery_Domain\<close>, \<open>Discovery_App\<close>, \<open>Discovery_Safety\<close>: \<open>modules/discovery\<close>, the
    ladder of radii, ranking, reach and search.
  \<^item> \<open>Cart_Domain\<close>, \<open>Cart_App\<close>, \<open>Cart_Cases\<close>, \<open>Cart_Safety\<close>: \<open>modules/cart\<close> and, in \<open>Cart_Example\<close>, its way into an
    order.
  \<^item> \<open>User_Domain\<close>, \<open>User_App\<close>, \<open>User_Safety\<close>: \<open>modules/user\<close>, profiles and address books; where a point
    lies is in \<open>Geo_App\<close>.
  \<^item> \<open>Tracking_App\<close>, \<open>Tracking_Safety\<close>: \<open>modules/tracking\<close>, a moment of a delivery and the stream of moments;
    what the order and dispatch modules tell others is in \<open>Dispatch_App\<close>.
  \<^item> \<open>Notification_App\<close>, \<open>Notification_Safety\<close>: \<open>modules/notification\<close>, devices, push with text as the fallback, the inbox.
  \<^item> \<open>Settings_Served\<close>: the settings and the modules that read them, together.
  Theories named \<open>Example\<close> hold concrete histories, to which the theorems are applied.

  \<^bold>\<open>How the parts rest on each other.\<close>  Each module's invariant is proved of every request by the
  rules of \<open>guarantee\<close> (\<open>Ops\<close>): the operations of a use case are composed, and the locale gives what
  holds of the composition under interference.  It is interpreted on the promises of the order,
  dispatch, payment and review tables (\<open>promise\<close>), on what identity never undoes (\<open>doors\<close>), on the
  configuration tables (\<open>cfg\<close>), on what is kept of messages (\<open>post\<close>) and, for merchant, discovery, cart and the other modules whose
  requests keep an invariant (\<open>inv\<close>).  What a request answers that only reads is traced to the rows its calls saw
  (\<open>stores_seen\<close>, \<open>sees\<close> in \<open>Ops\<close>): the shop and the index entry behind a search result, the job behind a watched
  delivery.  \<open>menu_keeper\<close> (\<open>Catalogue_Safety\<close>) is an invariant the statements on one shop's menu keep,
  and gives that its requests do; it is interpreted on the order of all menus and on the menus beside that shop's.  \<open>cas_store\<close> is the contract of a table written
  by compare-and-set, \<open>lifecycle\<close> and \<open>guarded_object\<close> that of an object with a status,
  \<open>priority_queue\<close> that of \<open>container/heap\<close>, \<open>strict_weak_order\<close> what sorting needs, \<open>rounding\<close> what
  the bounds on floating-point scores and fees need.

  \<^bold>\<open>What the theorems show.\<close>  A block that starts with \<open>C\<close> and a number states a property.  The first
  group (\<open>Histories\<close>) is about orders, jobs, payments and cash together: an order is delivered only by
  the rider who accepted its one job, an online order is cooked only after a captured payment of
  exactly its total, cash is booked on the rider who delivered, a review is earned by a delivered
  order and a ticket recorded as refunded had its money given back.  The next are the histories of shops,
  menus, searches, carts, sessions and settings.  Owners may change the kind of their shop, which leaves rows of the old
  kind on its menu: what is sold is claimed to fit the kind of the shops that keep theirs (\<open>kinds\<close> in \<open>Catalogue_Menus\<close>), the
  rest of the claims on menus of every shop.  Then come the state machines and their authority tables,
  the fee and the receipt, the assigner against a sorted list, the round trips of timetables and
  availabilities, the pages of a list, the stream of a delivery, which ends one reading after its order, the equivalence of two spellings of a telephone number, and bounds.

  \<^bold>\<open>Bounds.\<close>  Amounts are proved not to wrap within the ranges the registry and the tables allow; where
  neither bounds an amount the theorem states the range it needs (prices up to ten million taka, on a menu
  up to ten thousand million, distances on Earth).

  \<^bold>\<open>Arguments of the model.\<close>  PostGIS (\<open>postgis\<close>), trigonometry (\<open>trig\<close>), PostgreSQL's mean, the payment gateway, the signer
  of access tokens, the sender of text messages, and the modules asked by a use case whose own state
  does not matter to the theorem are arguments, each used only through the contract the code names.

  \<^bold>\<open>Not modelled.\<close>  HTTP routing and JSON bodies (\<open>transport/http\<close>), except where a handler decides
  something; adapters that only rename fields (\<open>external\<close>); SQL as text: each statement is a function
  of the tables, with the constraints of the migrations; the texts repositories put around a database
  error; that PostgreSQL keeps microseconds where Go has nanoseconds; logging, process start and the
  migration runner.  Goroutines of one process are requests that interleave at their calls.  Where a query takes one
  row without an order (\<open>LIMIT 1\<close>), the model takes the first of the table.
\<close>

end
